(* ===== verification/Prelude.thy ===== *)
theory Prelude
imports Main "HOL-Library.Word" "HOL-Library.Signed_Division"
begin

text \<open>Shared vocabulary of the development: machine integers, Go errors and panics as
values, the error-result combinator used by every fallible operation, slices with Go's
bounds checks, and the little-endian byte lemmas that the number codecs share.\<close>

unbundle bit_operations_syntax

type_synonym byte = "8 word"
type_synonym bytes = "byte list"
type_synonym int64 = "64 word"
type_synonym uint64 = "64 word"
type_synonym uint32 = "32 word"

text \<open>The txscript error codes the engine raises.\<close>

datatype (plugins only: code size) script_code =
    ErrInvalidIndex | ErrEvalFalse | ErrNotPushOnly | ErrScriptTooBig
  | ErrWitnessMalleated | ErrWitnessUnexpected | ErrMinimalData | ErrNumberTooBig
  | ErrInvalidStackOperation | ErrReservedOpcode | ErrDisabledOpcode | ErrElementTooBig
  | ErrInvalidProgramCounter | ErrInvalidFlags | ErrWitnessProgramEmpty
  | ErrDiscourageUpgradeableWitnessProgram | ErrDiscourageUpgradeableTaprootVersion
  | ErrDiscourageOpSuccess | ErrStackOverflow | ErrScriptUnfinished
  | ErrCleanStack | ErrEmptyStack | ErrUnbalancedConditional | ErrWitnessHasNoAnnex
  | ErrMalformedPush | ErrUnsupportedScriptVersion | ErrMinimalIf | ErrVerify
  | ErrEqualVerify | ErrNumEqualVerify | ErrCheckSigVerify | ErrEarlyReturn
  | ErrUnsatisfiedLockTime | ErrNegativeLockTime | ErrDiscourageUpgradableNOPs
  | ErrTaprootPubkeyIsEmpty | ErrNullFail | ErrTapscriptCheckMultisig
  | ErrInvalidSigHashType | ErrInvalidTaprootSigLen | ErrDiscourageUpgradeablePubKeyType
  | ErrTaprootMaxSigOps | ErrTaprootSigInvalid | ErrTaprootMerkleProofInvalid
  | ErrControlBlockTooSmall | ErrPubKeyType | ErrTooManyRequiredSigs

text \<open>A failure of the modelled code: a script error with its code, one of the sentinel
or formatted errors of the Go code, or a run-time panic (index or slice out of range,
nil dereference).  A panic is a value of the model, so that its absence is a theorem.\<close>

datatype (plugins only: code size) verror =
    ScriptError script_code
  | ErrBigNumDivisionByZero | ErrBigNumModuloByZero | ErrBigNumModulusNotPositive
  | ErrBigNumNegativeExponent | ErrBigNumModexpOperandTooLarge
  | GoError string
  | Panic

type_synonym 'a res = "verror + 'a"

abbreviation script_err :: "script_code \<Rightarrow> 'a res" where
  "script_err c \<equiv> Inl (ScriptError c)"

abbreviation go_err :: "string \<Rightarrow> 'a res" where
  "go_err s \<equiv> Inl (GoError s)"

abbreviation panic :: "'a res" where
  "panic \<equiv> Inl Panic"

text \<open>Sequencing of fallible steps: Go's early return on a non-nil error.\<close>

definition bindE :: "'a res \<Rightarrow> ('a \<Rightarrow> 'b res) \<Rightarrow> 'b res" where
  "bindE m f = (case m of Inl e \<Rightarrow> Inl e | Inr a \<Rightarrow> f a)"

definition ensure :: "bool \<Rightarrow> verror \<Rightarrow> unit res" where
  "ensure b e = (if b then Inr () else Inl e)"

lemma bindE_simps [simp]:
  "bindE (Inl e) f = Inl e"
  "bindE (Inr a) f = f a"
  by (simp_all add: bindE_def)

lemma bindE_assoc: "bindE (bindE m f) g = bindE m (\<lambda>a. bindE (f a) g)"
  by (cases m) simp_all

lemma bindE_Inr_iff: "bindE m f = Inr b \<longleftrightarrow> (\<exists>a. m = Inr a \<and> f a = Inr b)"
  by (cases m) simp_all

lemma bindE_InrE [elim]:
  assumes "bindE m f = Inr b"
  obtains a where "m = Inr a" "f a = Inr b"
  using assms by (cases m) simp_all

lemma bindE_cong [fundef_cong]:
  "m = m' \<Longrightarrow> (\<And>a. m' = Inr a \<Longrightarrow> f a = f' a) \<Longrightarrow> bindE m f = bindE m' f'"
  by (cases m') simp_all

lemma ensure_simps [simp]:
  "ensure True e = Inr ()"
  "ensure False e = Inl e"
  by (simp_all add: ensure_def)

lemma ensure_Inr_iff [simp]: "ensure b e = Inr u \<longleftrightarrow> b"
  by (simp add: ensure_def)

lemma ensure_Inl_iff [simp]: "ensure b e = Inl e' \<longleftrightarrow> \<not> b \<and> e' = e"
  by (auto simp add: ensure_def)

text \<open>The partial-correctness-and-no-panic predicate: a result that is not a panic, and
whose value, when there is one, satisfies a postcondition.  Rules for it are collected
in okE_rules, so that the invariant of an operation is proved by applying them.\<close>

named_theorems okE_rules

definition okE :: "('a \<Rightarrow> bool) \<Rightarrow> 'a res \<Rightarrow> bool" where
  "okE P m = (case m of Inl e \<Rightarrow> e \<noteq> Panic | Inr a \<Rightarrow> P a)"

lemma okE_simps [simp]:
  "okE P (Inl e) \<longleftrightarrow> e \<noteq> Panic"
  "okE P (Inr a) \<longleftrightarrow> P a"
  by (simp_all add: okE_def)

lemma okE_bind:
  assumes "okE Q m" and "\<And>a. m = Inr a \<Longrightarrow> Q a \<Longrightarrow> okE P (f a)"
  shows "okE P (bindE m f)"
  using assms by (cases m) simp_all

lemma okE_mono: "okE P m \<Longrightarrow> (\<And>a. P a \<Longrightarrow> Q a) \<Longrightarrow> okE Q m"
  by (cases m) simp_all

lemma okE_ensure: "e \<noteq> Panic \<Longrightarrow> okE (\<lambda>_. b) (ensure b e)"
  by (simp add: ensure_def)

lemma okE_Inr: "okE P m \<Longrightarrow> m = Inr a \<Longrightarrow> P a"
  by simp

lemma okE_not_panic: "okE P m \<Longrightarrow> m \<noteq> Inl Panic"
  by auto

text \<open>Slices.  Indexing or slicing out of range panics in Go.\<close>

definition at_idx :: "'a list \<Rightarrow> int \<Rightarrow> 'a res" where
  "at_idx xs i = (if 0 \<le> i \<and> i < int (length xs) then Inr (xs ! nat i) else panic)"

definition slice :: "'a list \<Rightarrow> int \<Rightarrow> int \<Rightarrow> 'a list res" where
  "slice xs i j = (if 0 \<le> i \<and> i \<le> j \<and> j \<le> int (length xs)
                   then Inr (take (nat j - nat i) (drop (nat i) xs)) else panic)"

lemma at_idx_ok: "0 \<le> i \<Longrightarrow> i < int (length xs) \<Longrightarrow> at_idx xs i = Inr (xs ! nat i)"
  by (simp add: at_idx_def)

lemma slice_ok:
  "0 \<le> i \<Longrightarrow> i \<le> j \<Longrightarrow> j \<le> int (length xs) \<Longrightarrow>
   slice xs i j = Inr (take (nat j - nat i) (drop (nat i) xs))"
  by (simp add: slice_def)

lemma at_idx_last: "xs \<noteq> [] \<Longrightarrow> at_idx xs (int (length xs) - 1) = Inr (last xs)"
  by (cases xs rule: rev_cases) (simp_all add: at_idx_def nth_append)

lemma at_idx_nat: "n < length xs \<Longrightarrow> at_idx xs (int n) = Inr (xs ! n)"
  by (simp add: at_idx_def)

text \<open>Go's conversions and signed operations on machine words.\<close>

definition int32_of :: "int \<Rightarrow> int" where
  "int32_of x = sint (word_of_int x :: 32 word)"

definition sdiv64 :: "int64 \<Rightarrow> int64 \<Rightarrow> int64" where
  "sdiv64 a b = word_of_int (sint a sdiv sint b)"

definition smod64 :: "int64 \<Rightarrow> int64 \<Rightarrow> int64" where
  "smod64 a b = word_of_int (sint a smod sint b)"

abbreviation MinInt64 :: int64 where "MinInt64 \<equiv> 0x8000000000000000"
abbreviation MaxInt64 :: int64 where "MaxInt64 \<equiv> 0x7FFFFFFFFFFFFFFF"

lemma int32_of_id: "- (2 ^ 31) \<le> x \<Longrightarrow> x < 2 ^ 31 \<Longrightarrow> int32_of x = x"
  unfolding int32_of_def by (simp add: sint_sbintrunc' signed_take_bit_int_eq_self)

subsection \<open>Little-endian byte strings\<close>

primrec le_val :: "bytes \<Rightarrow> nat" where
  "le_val [] = 0"
| "le_val (b # bs) = unat b + 256 * le_val bs"

fun le_bytes :: "nat \<Rightarrow> bytes" where
  "le_bytes n = (if n = 0 then [] else word_of_nat (n mod 256) # le_bytes (n div 256))"

declare le_bytes.simps [simp del]

primrec le_fixed :: "nat \<Rightarrow> nat \<Rightarrow> bytes" where
  "le_fixed 0 n = []"
| "le_fixed (Suc k) n = word_of_nat (n mod 256) # le_fixed k (n div 256)"

lemma unat_byte_lt [simp]: "unat (b :: byte) < 256"
  by (rule less_le_trans [OF unsigned_less]) simp

lemma unat_byte_of_nat [simp]: "unat (word_of_nat (n mod 256) :: byte) = n mod 256"
  by (simp add: unat_of_nat)

lemma le_bytes_0 [simp]: "le_bytes 0 = []"
  by (simp add: le_bytes.simps)

lemma le_bytes_pos: "0 < n \<Longrightarrow> le_bytes n = word_of_nat (n mod 256) # le_bytes (n div 256)"
  by (subst le_bytes.simps) simp

lemma le_bytes_eq_Nil [simp]: "le_bytes n = [] \<longleftrightarrow> n = 0"
  by (subst le_bytes.simps) simp

lemma le_val_le_bytes [simp]: "le_val (le_bytes n) = n"
proof (induction n rule: le_bytes.induct)
  case (1 n)
  then show ?case by (cases "n = 0") (simp_all add: le_bytes_pos)
qed

lemma le_val_bound: "le_val bs < 256 ^ length bs"
proof (induction bs)
  case (Cons b bs)
  have "unat b + 256 * le_val bs < 256 * (le_val bs + 1)" using unat_byte_lt [of b] by simp
  also have "... \<le> 256 * 256 ^ length bs" using Cons by (simp only: mult_le_mono2 Suc_eq_plus1 [symmetric] Suc_leI)
  finally show ?case by simp
qed simp

lemma le_val_append: "le_val (xs @ ys) = le_val xs + 256 ^ length xs * le_val ys"
  by (induction xs) (simp_all add: algebra_simps)

lemma le_val_zeros [simp]: "le_val (replicate n 0) = 0"
  by (induction n) simp_all

lemma length_le_fixed [simp]: "length (le_fixed k n) = k"
  by (induction k arbitrary: n) simp_all

lemma le_val_le_fixed [simp]: "le_val (le_fixed k n) = n mod 256 ^ k"
proof (induction k arbitrary: n)
  case (Suc k)
  have "n mod 256 ^ Suc k = n mod 256 + 256 * (n div 256 mod 256 ^ k)"
    by (simp add: mod_mult2_eq)
  then show ?case by (simp add: Suc)
qed simp

lemma le_fixed_le_val: "length bs = k \<Longrightarrow> le_fixed k (le_val bs) = bs"
proof (induction bs arbitrary: k)
  case (Cons b bs)
  have b: "(unat b + 256 * le_val bs) mod 256 = unat b" "(unat b + 256 * le_val bs) div 256 = le_val bs"
    using unat_byte_lt [of b] by simp_all
  have "word_of_nat (unat b) = b" by simp
  with Cons b show ?case by auto
qed simp

lemma le_val_eq_0: "le_val bs = 0 \<longleftrightarrow> (\<forall>b \<in> set bs. b = 0)"
  by (induction bs) (auto simp: unat_eq_zero)

lemma le_val_last_nonzero: "bs \<noteq> [] \<Longrightarrow> last bs \<noteq> 0 \<Longrightarrow> 256 ^ (length bs - 1) \<le> le_val bs"
proof -
  assume bs: "bs \<noteq> []" "last bs \<noteq> 0"
  then have "le_val bs = le_val (butlast bs) + 256 ^ (length bs - 1) * unat (last bs)"
    using le_val_append [of "butlast bs" "[last bs]"] by simp
  moreover have "unat (last bs) \<ge> 1" using bs(2) by (simp add: Suc_leI unat_gt_0)
  ultimately show ?thesis
    by (metis le_add2 mult.right_neutral mult_le_mono2 order_trans)
qed

lemma le_bytes_le_val: "bs = [] \<or> last bs \<noteq> 0 \<Longrightarrow> le_bytes (le_val bs) = bs"
proof (induction bs)
  case (Cons b bs)
  show ?case
  proof (cases "bs = []")
    case True
    with Cons.prems have "0 < unat b" by (simp add: unat_gt_0)
    with True show ?thesis by (simp add: le_bytes_pos)
  next
    case False
    with Cons.prems have l: "last bs \<noteq> 0" by simp
    then have "0 < le_val bs" using le_val_eq_0 [of bs] False by (metis last_in_set not_gr_zero)
    with l Cons.IH False show ?thesis
      using unat_byte_lt [of b] by (simp add: le_bytes_pos)
  qed
qed simp

lemma last_le_bytes: "0 < n \<Longrightarrow> last (le_bytes n) \<noteq> 0"
proof (induction n rule: le_bytes.induct)
  case (1 n)
  show ?case
  proof (cases "n div 256 = 0")
    case True
    with 1 have "n mod 256 = n" "n < 256" by (simp_all add: div_eq_0_iff)
    have "unat (word_of_nat (n mod 256) :: byte) \<noteq> 0" using \<open>0 < n\<close> \<open>n mod 256 = n\<close> unat_byte_of_nat [of n] by simp
    with True 1 show ?thesis by (auto simp: le_bytes_pos)
  next
    case False
    with 1 show ?thesis by (simp add: le_bytes_pos)
  qed
qed

lemma length_le_bytes_iff: "length (le_bytes n) \<le> k \<longleftrightarrow> n < 256 ^ k"
proof
  assume "length (le_bytes n) \<le> k"
  then have "(256::nat) ^ length (le_bytes n) \<le> 256 ^ k" by (simp add: power_increasing)
  with le_val_bound [of "le_bytes n"] show "n < 256 ^ k" by (simp only: le_val_le_bytes)
next
  assume n: "n < 256 ^ k"
  show "length (le_bytes n) \<le> k"
  proof (cases "n = 0")
    case False
    then have "256 ^ (length (le_bytes n) - 1) \<le> n"
      using le_val_last_nonzero [of "le_bytes n"] last_le_bytes by simp
    with n have "(256::nat) ^ (length (le_bytes n) - 1) < 256 ^ k" by linarith
    then show ?thesis by (simp add: power_less_imp_less_exp)
  qed simp
qed

subsection \<open>The sign bit of a byte\<close>

lemma unat_and_7f: "unat (b AND 0x7f :: byte) = unat b mod 128"
proof -
  have "(0x7f :: byte) = mask 7" by (simp add: mask_eq_exp_minus_1)
  then show ?thesis
    by (simp only: take_bit_eq_mask [symmetric] unsigned_take_bit_eq) (simp add: take_bit_eq_mod)
qed

lemma byte_bit7: "bit (b :: byte) 7 \<longleftrightarrow> 128 \<le> unat b"
proof -
  have "bit b 7 = bit (unat b) 7"
    by (simp add: bit_unsigned_iff)
  also have "... \<longleftrightarrow> odd (unat b div 128)"
    by (simp add: bit_iff_odd)
  also have "... \<longleftrightarrow> 128 \<le> unat b"
  proof -
    have "unat b div 128 < 2" using unat_byte_lt [of b] by linarith
    then have "unat b div 128 = 0 \<or> unat b div 128 = 1" by linarith
    then show ?thesis by auto
  qed
  finally show ?thesis .
qed

lemma and_80_iff: "(b :: byte) AND 0x80 = 0 \<longleftrightarrow> unat b < 128"
  using and_exp_eq_0_iff_not_bit [of b 7] byte_bit7 [of b] by (simp add: not_le)

lemma or_80_plus: "b OR 0x80 = (b AND 0x7f) + (0x80 :: byte)"
proof -
  have "b OR 0x80 = (b AND 0x7f) OR (0x80 :: byte)"
    by (rule bit_word_eqI) (auto simp: bit_simps less_Suc_eq numeral_eq_Suc)
  also have "... = (b AND 0x7f) + 0x80"
    by (rule disjunctive_add_eq_or [symmetric])  (simp add: and.assoc)
  finally show ?thesis .
qed
lemma byte_mod_128: "128 \<le> unat (b :: byte) \<Longrightarrow> unat b mod 128 + 128 = unat b"
proof -
  assume b: "128 \<le> unat b"
  then have "unat b mod 128 = (unat b - 128) mod 128" by (simp add: le_mod_geq)
  also have "... = unat b - 128" using unat_byte_lt [of b] b by (intro mod_less) linarith
  finally show ?thesis using b by simp
qed

lemma unat_or_80: "unat (b OR 0x80 :: byte) = unat b mod 128 + 128"
proof -
  have "unat (b AND 0x7f) < 128" by (simp add: unat_and_7f)
  then have "unat ((b AND 0x7f) + (0x80 :: byte)) = unat (b AND 0x7f) + 128"
    by (simp add: unat_word_ariths)
  then show ?thesis by (simp only: or_80_plus unat_and_7f)
qed

subsection \<open>Strings and big-endian scalars\<close>

text \<open>The bytes of a Go string; a 32-byte big-endian scalar.  big.Int.FillBytes panics when
the value does not fit.\<close>

definition go_bytes :: "string \<Rightarrow> bytes" where
  "go_bytes s = map of_char s"

definition FillBytes32 :: "nat \<Rightarrow> bytes res" where
  "FillBytes32 n = (if n < 2 ^ 256 then Inr (rev (le_fixed 32 n)) else panic)"

definition be_val :: "bytes \<Rightarrow> nat" where
  "be_val bs = le_val (rev bs)"

lemma be_val_FillBytes32: "FillBytes32 n = Inr b \<Longrightarrow> length b = 32 \<and> be_val b = n"
  by (auto simp: FillBytes32_def be_val_def split: if_splits)

lemma length_go_bytes [simp]: "length (go_bytes s) = length s"
  by (simp add: go_bytes_def)

lemma go_bytes_inject [simp]: "go_bytes s = go_bytes t \<longleftrightarrow> s = t"
proof
  assume "go_bytes s = go_bytes t"
  moreover have "inj (of_char :: char \<Rightarrow> byte)"
  proof (rule injI)
    fix c d :: char assume "(of_char c :: byte) = of_char d"
    then have "(word_of_nat (of_char c) :: byte) = word_of_nat (of_char d)" by (simp only: of_nat_of_char)
    then have "unat (word_of_nat (of_char c) :: byte) = unat (word_of_nat (of_char d) :: byte)" by (rule arg_cong)
    then have "(of_char c :: nat) = of_char d"
      using nat_of_char_less_256[of c] nat_of_char_less_256[of d] by (simp only: unat_of_nat) simp
    then show "c = d" by simp
  qed
  ultimately show "s = t" by (simp add: go_bytes_def inj_map_eq_map)
qed simp

end
