(* ===== verification/ScriptNum.thy ===== *)
theory ScriptNum
imports Prelude
begin

text \<open>Model of pkg/arkade/scriptnum.go: the 64-bit script number, its sign-magnitude
little-endian serialisation, the minimality check, and the bounded parser.  The functions
enc and dec are the reference codec over unbounded integers; both this file and BigNum
are proved against it, through the locale number_codec.\<close>

type_synonym scriptNum = int64

subsection \<open>The reference codec\<close>

text \<open>The common tail of scriptNum.Bytes, encodeInt64 and encodeBig: an extra byte when
the top bit of the magnitude is taken, else the sign or-ed into the last byte.\<close>

definition add_sign :: "bool \<Rightarrow> bytes \<Rightarrow> bytes" where
  "add_sign neg bs =
     (if last bs AND 0x80 \<noteq> 0 then bs @ [if neg then 0x80 else 0x00]
      else if neg then butlast bs @ [last bs OR 0x80] else bs)"

definition enc :: "int \<Rightarrow> bytes" where
  "enc v = (if v = 0 then [] else add_sign (v < 0) (le_bytes (nat \<bar>v\<bar>)))"

definition clear_sign :: "bytes \<Rightarrow> bytes" where
  "clear_sign v = butlast v @ [last v AND 0x7f]"

definition dec :: "bytes \<Rightarrow> int" where
  "dec v = (if v = [] then 0
            else if last v AND 0x80 \<noteq> 0 then - int (le_val (clear_sign v))
            else int (le_val v))"

definition minimal :: "bytes \<Rightarrow> bool" where
  "minimal v \<longleftrightarrow> v = [] \<or> last v AND 0x7f \<noteq> 0 \<or> (length v \<noteq> 1 \<and> v ! (length v - 2) AND 0x80 \<noteq> 0)"

lemma minimal_Nil [simp]: "minimal []"
  by (simp add: minimal_def)

lemma minimal_snoc:
  "minimal (v @ [b]) \<longleftrightarrow> b AND 0x7f \<noteq> 0 \<or> (v \<noteq> [] \<and> last v AND 0x80 \<noteq> 0)"
  by (cases v rule: rev_cases) (auto simp: minimal_def nth_append)

lemma dec_Nil [simp]: "dec [] = 0"
  by (simp add: dec_def)

lemma dec_snoc:
  "dec (v @ [b]) = (if 128 \<le> unat b then - int (le_val v + 256 ^ length v * (unat b mod 128))
                    else int (le_val v + 256 ^ length v * unat b))"
  by (simp add: dec_def and_80_iff clear_sign_def le_val_append unat_and_7f not_less)

lemma dec_add_sign:
  assumes "bs \<noteq> []"
  shows "dec (add_sign neg bs) = (if neg then - int (le_val bs) else int (le_val bs))"
proof -
  obtain v b where bs: "bs = v @ [b]" using assms by (metis rev_exhaust)
  show ?thesis
  proof (cases "128 \<le> unat b")
    case True
    then have "add_sign neg bs = bs @ [if neg then 0x80 else 0]"
      by (simp add: bs add_sign_def and_80_iff)
    then show ?thesis by (simp add: dec_snoc)
  next
    case False
    then have "add_sign neg bs = (if neg then v @ [b OR 0x80] else bs)"
      by (simp add: bs add_sign_def and_80_iff)
    with False show ?thesis by (simp add: bs dec_snoc unat_or_80 le_val_append)
  qed
qed

lemma byte_7f_eq_0: "(b :: byte) AND 0x7f = 0 \<longleftrightarrow> unat b = 0 \<or> unat b = 128"
proof -
  have "b AND 0x7f = 0 \<longleftrightarrow> unat (b AND 0x7f) = 0" by (simp only: unat_eq_zero)
  also have "... \<longleftrightarrow> unat b mod 128 = 0" by (simp only: unat_and_7f)
  also have "... \<longleftrightarrow> unat b = 0 \<or> unat b = 128" 
    using unat_byte_lt [of b] byte_mod_128 [of b] by (cases "128 \<le> unat b") (auto simp: not_le)
  finally show ?thesis .
qed

lemma minimal_add_sign:
  assumes "bs \<noteq> []" "last bs \<noteq> 0"
  shows "minimal (add_sign neg bs)"
proof -
  obtain v b where bs: "bs = v @ [b]" using assms by (metis rev_exhaust)
  have b: "unat b \<noteq> 0" using assms bs by (simp add: unat_eq_zero)
  show ?thesis
  proof (cases "128 \<le> unat b")
    case True
    then have "add_sign neg bs = bs @ [if neg then 0x80 else 0]"
      by (simp add: bs add_sign_def and_80_iff)
    moreover have "minimal (bs @ [x])" for x
      using True by (simp only: minimal_snoc) (simp add: bs and_80_iff)
    ultimately show ?thesis by simp
  next
    case False
    then have "add_sign neg bs = (if neg then v @ [b OR 0x80] else bs)"
      by (simp add: bs add_sign_def and_80_iff)
    with False b show ?thesis by (simp add: bs minimal_snoc byte_7f_eq_0 unat_or_80)
  qed
qed

lemma dec_enc [simp]: "dec (enc v) = v"
  by (auto simp: enc_def dec_add_sign)

lemma minimal_enc [simp]: "minimal (enc v)"
  by (auto simp: enc_def intro!: minimal_add_sign last_le_bytes)

lemma byte_eqI: "unat (a :: byte) = unat b \<Longrightarrow> a = b"
  by (simp only: word_unat_eq_iff)

lemma enc_dec:
  assumes "minimal v"
  shows "enc (dec v) = v"
proof (cases v rule: rev_cases)
  case (snoc w b)
  show ?thesis
  proof (cases "b AND 0x7f = 0")
    case True
    with assms snoc have w: "w \<noteq> []" "128 \<le> unat (last w)"
      by (auto simp: minimal_snoc and_80_iff)
    have z: "le_val w \<noteq> 0" and l: "le_bytes (le_val w) = w"
      using w by (auto simp: le_val_eq_0 intro!: le_bytes_le_val bexI [of _ "last w"])
    from True have "b = 0 \<or> b = 0x80" by (auto simp: byte_7f_eq_0 intro: byte_eqI)
    with w z l show ?thesis
      by (auto simp: snoc dec_snoc enc_def add_sign_def and_80_iff)
  next
    case False
    then have b: "unat b \<noteq> 0" "unat b \<noteq> 128" by (auto simp: byte_7f_eq_0)
    show ?thesis
    proof (cases "128 \<le> unat b")
      case True
      define c where "c = b AND 0x7f"
      have c: "c \<noteq> 0" "unat c = unat b mod 128" "c AND 0x80 = 0"
        using False by (simp_all add: c_def unat_and_7f and.assoc)
      have v: "dec (w @ [b]) = - int (le_val (w @ [c]))"
        using True c by (simp add: dec_snoc le_val_append)
      have "le_val (w @ [c]) \<noteq> 0" using c by (simp add: le_val_eq_0)
      moreover have "le_bytes (le_val (w @ [c])) = w @ [c]" using c by (intro le_bytes_le_val) simp
      moreover have "c OR 0x80 = b"
      proof (rule byte_eqI)
        have "unat b mod 128 + 128 = unat b" using True by (rule byte_mod_128)
        then show "unat (c OR 0x80) = unat b" by (simp add: unat_or_80 c)
      qed
      ultimately show ?thesis
        by (simp add: snoc v) (simp add: enc_def add_sign_def c)
    next
      case F: False
      have v: "dec (w @ [b]) = int (le_val (w @ [b]))" using F by (simp add: dec_snoc le_val_append)
      have "b \<noteq> 0" using b by auto
      then have "le_val (w @ [b]) \<noteq> 0" "le_bytes (le_val (w @ [b])) = w @ [b]"
        by (auto simp: le_val_eq_0 intro!: le_bytes_le_val)
      then show ?thesis using F by (simp add: snoc v) (simp add: enc_def add_sign_def and_80_iff)
    qed
  qed
qed (simp add: enc_def)

subsection \<open>The contract of a number codec\<close>

text \<open>What the stack and the opcodes rely on when they read and write numbers: encode
produces the reference encoding, decode accepts exactly the minimal strings within the
cap and agrees with the reference value.  Interpreted below for scriptNum and, in the
theory BigNum, for BigNum.\<close>

locale number_codec =
  fixes encode :: "'n \<Rightarrow> bytes res"
    and decode :: "bytes \<Rightarrow> 'n res"
    and val :: "'n \<Rightarrow> int"
    and cap :: nat
  assumes encode_sound: "encode n = Inr bs \<Longrightarrow> bs = enc (val n)"
    and encode_total: "length (enc (val n)) \<le> cap \<Longrightarrow> encode n = Inr (enc (val n))"
    and decode_sound: "decode bs = Inr n \<Longrightarrow> minimal bs \<and> length bs \<le> cap \<and> val n = dec bs"
    and decode_total: "minimal bs \<Longrightarrow> length bs \<le> cap \<Longrightarrow> \<exists>n. decode bs = Inr n"
begin

lemma encode_decode: "decode bs = Inr n \<Longrightarrow> encode n = Inr bs"
  using decode_sound [of bs n] encode_total [of n] by (simp add: enc_dec)

lemma decode_encode:
  assumes "encode n = Inr bs" and "length bs \<le> cap"
  shows "\<exists>m. decode bs = Inr m \<and> val m = val n"
  using encode_sound [OF assms(1)] decode_total [of bs] decode_sound [of bs] assms(2)
  by fastforce

lemma decode_canonical: "decode a = Inr m \<Longrightarrow> decode b = Inr n \<Longrightarrow> val m = val n \<Longrightarrow> a = b"
  using decode_sound [of a m] decode_sound [of b n] enc_dec by metis

lemma decode_iff: "(\<exists>n. decode bs = Inr n) \<longleftrightarrow> minimal bs \<and> length bs \<le> cap"
  using decode_sound decode_total by blast

end

subsection \<open>The code\<close>

definition maxInt32 :: int where "maxInt32 = 2 ^ 31 - 1"
definition minInt32 :: int where "minInt32 = - (2 ^ 31)"
definition maxScriptNumLen :: int where "maxScriptNumLen = 4"

definition checkMinimalDataEncoding :: "bytes \<Rightarrow> unit res" where
  "checkMinimalDataEncoding v =
     (if length v = 0 then Inr ()
      else if last v AND 0x7f = 0 then
        (if length v = 1 \<or> v ! (length v - 2) AND 0x80 = 0 then script_err ErrMinimalData
         else Inr ())
      else Inr ())"

text \<open>The encoding loop: while n > 0, append byte(n & 0xff) and shift right by 8.\<close>

function scriptNum_loop :: "scriptNum \<Rightarrow> bytes" where
  "scriptNum_loop n =
     (if 0 <s n then ucast (n AND 0xff) # scriptNum_loop (signed_drop_bit 8 n) else [])"
  by pat_completeness auto

definition scriptNum_Bytes :: "scriptNum \<Rightarrow> bytes res" where
  "scriptNum_Bytes n =
     (if n = 0 then Inr []
      else let isNegative = (n <s 0);
               n' = (if isNegative then - n else n);
               result = scriptNum_loop n'
           in bindE (at_idx result (int (length result) - 1)) (\<lambda>msb.
              Inr (if msb AND 0x80 \<noteq> 0 then result @ [if isNegative then 0x80 else 0x00]
                   else if isNegative then butlast result @ [msb OR 0x80] else result)))"

definition scriptNum_Int32 :: "scriptNum \<Rightarrow> int" where
  "scriptNum_Int32 n =
     (if sint n > maxInt32 then maxInt32
      else if sint n < minInt32 then minInt32
      else int32_of (sint n))"

text \<open>The decoding loop: result |= int64(val) << uint8(8*i).  The shift count is taken
modulo 256, and a shift by 64 or more gives 0, as in Go.\<close>

primrec MakeScriptNum_loop :: "nat \<Rightarrow> bytes \<Rightarrow> int64 \<Rightarrow> int64" where
  "MakeScriptNum_loop i [] result = result"
| "MakeScriptNum_loop i (val # v) result =
     MakeScriptNum_loop (Suc i) v (result OR push_bit ((8 * i) mod 256) (ucast val))"

definition MakeScriptNum :: "bytes \<Rightarrow> bool \<Rightarrow> int \<Rightarrow> scriptNum res" where
  "MakeScriptNum v requireMinimal scriptNumLen =
     (if int (length v) > scriptNumLen then script_err ErrNumberTooBig
      else bindE (if requireMinimal then checkMinimalDataEncoding v else Inr ()) (\<lambda>_.
        if length v = 0 then Inr 0
        else let result = MakeScriptNum_loop 0 v 0
             in if last v AND 0x80 \<noteq> 0
                then Inr (- (result AND NOT (push_bit ((8 * (length v - 1)) mod 256) 0x80)))
                else Inr result))"

termination scriptNum_loop
proof (relation "measure (\<lambda>n. nat (sint n))", goal_cases)
  case (2 n)
  then have "0 < sint n" by (simp add: word_sless_alt)
  then show ?case
    by (simp add: sint_signed_drop_bit_eq drop_bit_eq_div)
qed simp

declare scriptNum_loop.simps [simp del]


subsection \<open>The code against the reference codec\<close>

lemma word_or_push_byte:
  assumes "m < 256 ^ i" "i < 8"
  shows "(word_of_nat m :: int64) OR push_bit (8 * i) (ucast (b :: byte))
         = word_of_nat (m + 256 ^ i * unat b)"
proof -
  have p: "(256 :: nat) ^ i = 2 ^ (8 * i)" by (simp add: power_mult)
  have "(word_of_nat m :: int64) AND push_bit (8 * i) (ucast b) = 0"
  proof (rule bit_word_eqI)
    fix n assume "n < LENGTH(64)"
    have "\<not> bit m n" if "8 * i \<le> n"
    proof -
      have "(2::nat) ^ (8 * i) \<le> 2 ^ n" using that by (rule power_increasing) simp
      with assms p have "m < 2 ^ n" by linarith
      then show ?thesis by (simp add: bit_iff_odd)
    qed
    then show "bit ((word_of_nat m :: int64) AND push_bit (8 * i) (ucast b)) n = bit (0 :: int64) n"
      by (auto simp add: bit_simps)
  qed
  then have "(word_of_nat m :: int64) OR push_bit (8 * i) (ucast b)
             = word_of_nat m + push_bit (8 * i) (ucast b)"
    by (rule disjunctive_add_eq_or [symmetric])
  also have "... = word_of_nat (m + 256 ^ i * unat b)"
    by (simp add: push_bit_eq_mult p mult.commute)
  finally show ?thesis .
qed

lemma MakeScriptNum_loop_eq:
  assumes "m < 256 ^ i" "i + length v \<le> 8"
  shows "MakeScriptNum_loop i v (word_of_nat m) = word_of_nat (m + 256 ^ i * le_val v)"
  using assms
proof (induction v arbitrary: i m)
  case (Cons b v)
  have "unat b + 1 \<le> 256" using unat_byte_lt [of b] by linarith
  then have "256 ^ i * (unat b + 1) \<le> 256 ^ i * (256 :: nat)" by (rule mult_le_mono2)
  then have "256 ^ i * unat b + 256 ^ i \<le> (256 :: nat) ^ Suc i"
    by (simp only: add_mult_distrib2 mult_1_right power_Suc2)
  with Cons.prems(1) have "m + 256 ^ i * unat b < 256 ^ Suc i" by linarith
  then have "MakeScriptNum_loop (Suc i) v (word_of_nat (m + 256 ^ i * unat b))
             = word_of_nat (m + 256 ^ i * unat b + 256 ^ Suc i * le_val v)"
    using Cons.prems by (intro Cons.IH) simp_all
  moreover have "word_of_nat m OR push_bit (8 * i mod 256) (ucast b)
                 = (word_of_nat (m + 256 ^ i * unat b) :: int64)"
    using Cons.prems word_or_push_byte [of m i b] by simp
  moreover have "m + 256 ^ i * unat b + 256 ^ Suc i * le_val v = m + 256 ^ i * le_val (b # v)"
    by (simp add: distrib_left)
  ultimately show ?case by (simp only: MakeScriptNum_loop.simps)
qed simp

lemma clear_sign_word:
  assumes "v \<noteq> []" "length v \<le> 8" "last v AND 0x80 \<noteq> 0"
  shows "(word_of_nat (le_val v) :: int64) AND NOT (push_bit (8 * (length v - 1)) 0x80)
         = word_of_nat (le_val (clear_sign v))"
proof -
  obtain w b where v: "v = w @ [b]" using assms by (metis rev_exhaust)
  have w: "length w < 8" using assms v by simp
  let ?c = "push_bit (8 * length w) 0x80 :: int64"
  have p: "(256 :: nat) ^ length w * 128 = 2 ^ (8 * length w + 7)"
    by (simp add: power_add power_mult)
  have "unat b mod 128 + 1 \<le> 128" using mod_less_divisor [of 128 "unat b"] by linarith
  then have "256 ^ length w * (unat b mod 128 + 1) \<le> 256 ^ length w * (128 :: nat)"
    by (rule mult_le_mono2)
  then have "256 ^ length w * (unat b mod 128) + 256 ^ length w \<le> (2 :: nat) ^ (8 * length w + 7)"
    by (simp only: add_mult_distrib2 mult_1_right p)
  then have m: "le_val (clear_sign v) < 2 ^ (8 * length w + 7)"
    using le_val_bound [of w] by (simp add: v clear_sign_def le_val_append unat_and_7f)
  have c: "?c = push_bit (8 * length w + 7) 1"
    by (simp add: push_bit_eq_mult power_add)
  have disj: "(word_of_nat (le_val (clear_sign v)) :: int64) AND ?c = 0"
  proof (rule bit_word_eqI)
    fix n assume "n < LENGTH(64)"
    have "\<not> bit (le_val (clear_sign v)) (8 * length w + 7)"
      using m by (simp add: bit_iff_odd)
    then show "bit ((word_of_nat (le_val (clear_sign v)) :: int64) AND ?c) n = bit (0 :: int64) n"
      unfolding c by (auto simp add: bit_simps bit_push_bit_iff)
  qed
  have "le_val v = le_val (clear_sign v) + 256 ^ length w * 128"
  proof -
    have "unat b = unat b mod 128 + 128"
    proof -
      have "128 \<le> unat b" using assms(3) v by (simp add: and_80_iff)
      then show ?thesis by (simp add: byte_mod_128)
    qed
    then show ?thesis 
      by (simp add: v clear_sign_def le_val_append unat_and_7f flip: distrib_left)
  qed
  then have "(word_of_nat (le_val v) :: int64) = word_of_nat (le_val (clear_sign v)) + ?c"
    by (simp add: p c push_bit_eq_mult power_add)
  also have "... = word_of_nat (le_val (clear_sign v)) OR ?c"
    using disj by (rule disjunctive_add_eq_or)
  finally have "(word_of_nat (le_val v) :: int64) AND NOT ?c
       = (word_of_nat (le_val (clear_sign v)) OR ?c) AND NOT ?c" by simp
  also have "... = word_of_nat (le_val (clear_sign v)) AND NOT ?c"
    by (simp add: bit_eq_iff bit_simps) blast
  also have "... = word_of_nat (le_val (clear_sign v))"
    using disj by (auto simp add: bit_eq_iff bit_simps)
  finally show ?thesis by (simp add: v)
qed

lemma dec_bound:
  assumes "length v \<le> k" "0 < k"
  shows "\<bar>dec v\<bar> < 2 ^ (8 * k - 1)"
proof (cases v rule: rev_cases)
  case (snoc w b)
  let ?W = "(256::nat) ^ length w"
  have "unat b mod 128 + 1 \<le> 128" by (simp add: Suc_leI)
  then have "?W * (unat b mod 128 + 1) \<le> ?W * 128" by (rule mult_le_mono2)
  then have "?W * (unat b mod 128) + ?W \<le> ?W * 128"
    by (simp only: add_mult_distrib2 mult_1_right)
  then have "le_val w + ?W * (unat b mod 128) < ?W * 128"
    using le_val_bound [of w] by linarith
  also have "?W * 128 = 2 ^ (8 * length w + 7)" by (simp add: power_add power_mult)
  also have "... \<le> 2 ^ (8 * k - 1)"
    using assms snoc by (intro power_increasing) simp_all
  finally have "int (le_val w + ?W * (unat b mod 128)) < 2 ^ (8 * k - 1)"
    by (metis of_nat_less_numeral_power_cancel_iff numeral_power_eq_of_nat_cancel_iff of_nat_less_iff)
  moreover have "\<bar>dec v\<bar> = int (le_val w + ?W * (unat b mod 128))"
    by (simp add: snoc dec_snoc del: of_nat_add of_nat_mult)
  ultimately show ?thesis by simp
qed simp

lemma sint_word_of_int_id: "- (2 ^ 63) \<le> x \<Longrightarrow> x < 2 ^ 63 \<Longrightarrow> sint (word_of_int x :: int64) = x"
  by (simp add: sint_sbintrunc' signed_take_bit_int_eq_self)

lemma le_val_loop: "length v \<le> 8 \<Longrightarrow> MakeScriptNum_loop 0 v 0 = word_of_nat (le_val v)"
  using MakeScriptNum_loop_eq [of 0 0 v] by simp

lemma sint_le_val:
  assumes "int (le_val v) < 2 ^ 63"
  shows "sint (word_of_nat (le_val v) :: int64) = int (le_val v)"
        "sint (- word_of_nat (le_val v) :: int64) = - int (le_val v)"
  using assms sint_word_of_int_id [of "int (le_val v)"] sint_word_of_int_id [of "- int (le_val v)"]
  by simp_all

lemma sint_signed_decode:
  assumes "v \<noteq> []" "length v \<le> 8"
  shows "sint (if last v AND 0x80 \<noteq> 0
               then - (word_of_nat (le_val v) AND NOT (push_bit (8 * (length v - 1)) 0x80))
               else word_of_nat (le_val v) :: int64) = dec v"
proof (cases "last v AND 0x80 = 0")
  case True
  then show ?thesis
    using assms dec_bound [of v 8] sint_le_val [of v] by (simp add: dec_def)
next
  case False
  then show ?thesis
    using assms dec_bound [of v 8] sint_le_val [of "clear_sign v"]
    by (simp only: clear_sign_word not_False_eq_True if_True) (simp add: dec_def)
qed

lemma checkMinimal_iff:
  "checkMinimalDataEncoding v = (if minimal v then Inr () else script_err ErrMinimalData)"
  by (auto simp: checkMinimalDataEncoding_def minimal_def)

lemma MakeScriptNum_eq:
  assumes "len \<le> 8"
  shows "MakeScriptNum v mn len =
           (if int (length v) > len then script_err ErrNumberTooBig
            else if mn \<and> \<not> minimal v then script_err ErrMinimalData
            else Inr (word_of_int (dec v)))"
proof -
  have "MakeScriptNum v mn len = Inr (word_of_int (dec v))"
    if l: "int (length v) \<le> len" and m: "mn \<longrightarrow> minimal v"
  proof (cases "v = []")
    case True
    with l show ?thesis by (simp add: MakeScriptNum_def checkMinimal_iff)
  next
    case False
    with assms l have v: "v \<noteq> []" "length v \<le> 8" by auto
    then have sh: "8 * (length v - 1) mod 256 = 8 * (length v - 1)" by auto
    have "word_of_int (sint (if last v AND 0x80 \<noteq> 0
               then - (word_of_nat (le_val v) AND NOT (push_bit (8 * (length v - 1)) 0x80))
               else word_of_nat (le_val v) :: int64)) = (word_of_int (dec v) :: int64)"
      using sint_signed_decode [OF v] by (rule arg_cong)
    then show ?thesis
      using l m v(1) by (simp add: MakeScriptNum_def checkMinimal_iff le_val_loop [OF v(2)] sh [simplified] split: if_splits)
  qed
  then show ?thesis by (auto simp: MakeScriptNum_def checkMinimal_iff)
qed

lemma sint_dec:
  assumes "length v \<le> 8" shows "sint (word_of_int (dec v) :: int64) = dec v"
  using dec_bound [of v 8] assms by (intro sint_word_of_int_id) auto

lemma MakeScriptNum_ok:
  assumes "MakeScriptNum v mn len = Inr n" "len \<le> 8"
  shows "sint n = dec v \<and> int (length v) \<le> len \<and> (mn \<longrightarrow> minimal v)"
  using assms by (auto simp: MakeScriptNum_eq sint_dec split: if_splits)

lemma ucast_and_ff: "ucast (n AND 0xff :: 64 word) = (ucast n :: byte)"
proof -
  have "(0xff :: 64 word) = mask 8" by (simp add: mask_eq_exp_minus_1)
  then show ?thesis by (simp add: bit_eq_iff bit_simps)
qed

lemma scriptNum_loop_eq: "scriptNum_loop n = le_bytes (nat (sint n))"
proof (induction n rule: scriptNum_loop.induct)
  case (1 n)
  show ?case
  proof (cases "0 <s n")
    case True
    then have p: "0 < sint n" by (simp add: word_sless_alt)
    have s: "sint (signed_drop_bit 8 n) = sint n div 256"
      by (simp add: sint_signed_drop_bit_eq drop_bit_eq_div)
    have "(ucast n :: byte) = word_of_nat (nat (sint n) mod 256)"
    proof -
      have "(ucast n :: byte) = scast n"
        by (rule bit_word_eqI) (simp add: bit_simps)
      also have "... = word_of_nat (nat (sint n))" using p by (simp add: of_nat_nat)
      also have "... = word_of_nat (nat (sint n) mod 256)"
        by (simp add: word_of_nat_eq_iff take_bit_eq_mod)
      finally show ?thesis .
    qed
    moreover have "nat (sint n) div 256 = nat (sint n div 256)"
      using p by (simp add: nat_div_distrib)
    ultimately show ?thesis
      using True p 1 by (subst scriptNum_loop.simps) (simp add: le_bytes_pos ucast_and_ff s)
  next
    case False
    then show ?thesis by (subst scriptNum_loop.simps) (simp add: word_sless_alt)
  qed
qed

lemma sint_bounds: "- (2 ^ 63) \<le> sint (n :: int64)" "sint (n :: int64) < 2 ^ 63"
  using sint_range_size [of n] by (simp_all add: word_size)

lemma sint_eq_iff: "sint (a :: int64) = sint b \<longleftrightarrow> a = b"
  by (auto intro: signed_word_eqI)

lemma sint_eq_0_iff: "sint (n :: int64) = 0 \<longleftrightarrow> n = 0"
  using sint_eq_iff [of n 0] by simp

lemma sint_MinInt64: "sint MinInt64 = - (2 ^ 63)"
  by simp

lemma sint_ne_min: "n \<noteq> MinInt64 \<Longrightarrow> - (2 ^ 63) < sint n"
  using sint_bounds(1) [of n] sint_eq_iff [of n MinInt64] by (simp add: less_le)

lemma sint_uminus64: "n \<noteq> MinInt64 \<Longrightarrow> sint (- n :: int64) = - sint n"
  using sint_ne_min [of n] sint_bounds [of n]
  by (simp add: sint_word_minus signed_take_bit_int_eq_self)

lemma scriptNum_Bytes_eq:
  "scriptNum_Bytes n = (if n = MinInt64 then panic else Inr (enc (sint n)))"
proof (cases "n = 0 \<or> n = MinInt64")
  case True
  then show ?thesis
  proof
    assume "n = MinInt64"
    moreover have "scriptNum_loop (- MinInt64) = []" by (subst scriptNum_loop_eq) simp
    ultimately show ?thesis 
      by (simp add: scriptNum_Bytes_def at_idx_def word_sless_alt)
  qed (simp add: scriptNum_Bytes_def enc_def)
next
  case False
  define n' where "n' = (if n <s 0 then - n else n)"
  have s: "nat (sint n') = nat \<bar>sint n\<bar>"
    using False by (auto simp: n'_def word_sless_alt sint_uminus64)
  have nz: "n \<noteq> 0" using False by simp
  have z: "sint n \<noteq> 0" using False by (simp add: sint_eq_0_iff)
  let ?l = "le_bytes (nat \<bar>sint n\<bar>)"
  have ne: "?l \<noteq> []" using z by simp
  then have idx: "at_idx ?l (int (length ?l) - 1) = Inr (last ?l)"
    by (rule at_idx_last)
  have loop: "scriptNum_loop n' = ?l" by (simp only: scriptNum_loop_eq s)
  have "scriptNum_Bytes n = bindE (at_idx (scriptNum_loop n') (int (length (scriptNum_loop n')) - 1))
      (\<lambda>msb. Inr (if msb AND 0x80 \<noteq> 0 then scriptNum_loop n' @ [if n <s 0 then 0x80 else 0x00]
                  else if n <s 0 then butlast (scriptNum_loop n') @ [msb OR 0x80]
                  else scriptNum_loop n'))"
    unfolding scriptNum_Bytes_def Let_def n'_def using nz by (simp only: if_False)
  also have "... = Inr (add_sign (sint n < 0) ?l)"
    by (simp only: loop idx bindE_simps) (simp add: add_sign_def word_sless_alt)
  finally show ?thesis using False z by (simp add: enc_def)
qed

text \<open>The four-byte script number codec of the stack operations.\<close>

interpretation sn: number_codec scriptNum_Bytes "\<lambda>v. MakeScriptNum v True maxScriptNumLen" sint 4
proof (unfold_locales, goal_cases)
  case (1 n bs)
  then show ?case by (simp add: scriptNum_Bytes_eq split: if_splits)
next
  case (2 n)
  have "n \<noteq> MinInt64"
  proof
    assume "n = MinInt64"
    with 2 dec_bound [of "enc (sint n)" 4] show False by simp
  qed
  then show ?case by (simp add: scriptNum_Bytes_eq)
next
  case (3 bs n)
  then show ?case
    using MakeScriptNum_ok [of bs True maxScriptNumLen n] by (simp add: maxScriptNumLen_def)
next
  case (4 bs)
  then show ?case by (simp add: MakeScriptNum_eq maxScriptNumLen_def)
qed

end

