(* ===== verification/BigNum.thy ===== *)
theory BigNum
imports ScriptNum
begin

text \<open>Model of pkg/arkade/bignum.go: the unified number of the virtual machine, a 64-bit
fast path and an arbitrary-precision path.  The Go overflow tests are kept as written, on
64-bit words; math/big is standard library and is modelled by int.  The lemmas show that
every operation computes the operation of the same name on the integer denoted, whatever
path it takes.\<close>

definition maxBigNumLen :: nat where "maxBigNumLen = 520"
definition int64ByteCap :: nat where "int64ByteCap = 8"

text \<open>The struct with its tag: Small carries the field small (useBig false), Big the
field big (useBig true).\<close>

datatype BigNum = Small (small: int64) | Big (big: int)

fun useBig :: "BigNum \<Rightarrow> bool" where
  "useBig (Small _) = False"
| "useBig (Big _) = True"

subsection \<open>Encoding and decoding\<close>

text \<open>The loop of encodeInt64: while mag > 0, append byte(mag & 0xff), mag >>= 8.\<close>

function encodeInt64_loop :: "uint64 \<Rightarrow> bytes" where
  "encodeInt64_loop mag =
     (if 0 < mag then ucast (mag AND 0xff) # encodeInt64_loop (drop_bit 8 mag) else [])"
  by pat_completeness auto

termination encodeInt64_loop
proof (relation "measure unat", goal_cases)
  case (2 mag)
  then have "0 < unat mag" by (simp add: word_gt_0 unat_gt_0)
  then show ?case
    by (simp add: drop_bit_eq_div unat_div)
qed simp

declare encodeInt64_loop.simps [simp del]

definition encodeInt64 :: "int64 \<Rightarrow> bytes" where
  "encodeInt64 v =
     (if v = 0 then []
      else let neg = (v <s 0);
               mag = (if neg then - (v + 1) + 1 else v);
               result = encodeInt64_loop mag
           in if last result AND 0x80 \<noteq> 0 then result @ [if neg then 0x80 else 0x00]
              else if neg then butlast result @ [last result OR 0x80] else result)"

definition encodeBig :: "int \<Rightarrow> bytes" where
  "encodeBig v =
     (if sgn v = 0 then []
      else let le = le_bytes (nat \<bar>v\<bar>); neg = (sgn v < 0)
           in if last le AND 0x80 \<noteq> 0 then le @ [if neg then 0x80 else 0x00]
              else if neg then butlast le @ [last le OR 0x80] else le)"

definition BigNum_Bytes :: "BigNum \<Rightarrow> bytes res" where
  "BigNum_Bytes n =
     (let out = (case n of Small v \<Rightarrow> encodeInt64 v | Big v \<Rightarrow> encodeBig v)
      in if length out > maxBigNumLen then script_err ErrNumberTooBig else Inr out)"

text \<open>copy(out, src) on a zeroed buffer: the first min(len) bytes are overwritten.\<close>

definition copy_into :: "bytes \<Rightarrow> bytes \<Rightarrow> bytes" where
  "copy_into out src = take (length out) src @ drop (length src) out"

definition FixedBytes :: "BigNum \<Rightarrow> int \<Rightarrow> bytes res" where
  "FixedBytes n sz =
     (if sz < 0 then go_err ''negative fixed size''
      else bindE (BigNum_Bytes n) (\<lambda>encoded.
        if int (length encoded) > sz then go_err ''number does not fit size''
        else let out = replicate (nat sz) 0
             in if length encoded = 0 then Inr out
                else let sign = last encoded AND 0x80;
                         magnitude = butlast encoded @ [last encoded AND 0x7f];
                         magnitude = (if last magnitude = 0 then butlast magnitude else magnitude);
                         out = copy_into out magnitude
                     in Inr (butlast out @ [last out OR sign])))"

primrec decodeInt64_loop :: "nat \<Rightarrow> bytes \<Rightarrow> int64 \<Rightarrow> int64" where
  "decodeInt64_loop i [] result = result"
| "decodeInt64_loop i (b # v) result =
     decodeInt64_loop (Suc i) v (result OR push_bit (8 * i) (ucast b))"

definition decodeInt64 :: "bytes \<Rightarrow> BigNum" where
  "decodeInt64 v =
     (if length v = 0 then Small 0
      else let result = decodeInt64_loop 0 v 0
           in if last v AND 0x80 \<noteq> 0
              then Small (- (result AND NOT (push_bit (8 * (length v - 1)) 0x80)))
              else Small result)"

definition decodeBig :: "bytes \<Rightarrow> BigNum" where
  "decodeBig v =
     (let msb = last v; negative = (msb AND 0x80 \<noteq> 0);
          mag = butlast v @ [msb AND 0x7f];
          b = int (le_val mag)
      in Big (if negative then - b else b))"

definition BigNumFromBytes :: "bytes \<Rightarrow> BigNum res" where
  "BigNumFromBytes v =
     (if length v > maxBigNumLen then script_err ErrNumberTooBig
      else bindE (checkMinimalDataEncoding v) (\<lambda>_.
        if length v = 0 then Inr (Small 0)
        else if length v \<le> int64ByteCap then Inr (decodeInt64 v)
        else Inr (decodeBig v)))"

definition trim_right_zeros :: "bytes \<Rightarrow> bytes" where
  "trim_right_zeros v = rev (dropWhile (\<lambda>b. b = 0) (rev v))"

definition minimallyEncode :: "bytes \<Rightarrow> bytes" where
  "minimallyEncode v =
     (if length v = 0 then []
      else let sign = last v AND 0x80;
               out = trim_right_zeros (butlast v @ [last v AND 0x7f])
           in if length out = 0 then []
              else if last out AND 0x80 \<noteq> 0 then out @ [sign]
              else if sign \<noteq> 0 then butlast out @ [last out OR sign]
              else out)"

subsection \<open>Arithmetic\<close>

definition IsZero :: "BigNum \<Rightarrow> bool" where
  "IsZero n = (case n of Small v \<Rightarrow> v = 0 | Big v \<Rightarrow> sgn v = 0)"

definition cmp_int :: "int \<Rightarrow> int \<Rightarrow> int" where
  "cmp_int a b = (if a < b then -1 else if a > b then 1 else 0)"

definition Sign :: "BigNum \<Rightarrow> int" where
  "Sign n = (case n of Big v \<Rightarrow> sgn v | Small v \<Rightarrow> (if v <s 0 then -1 else if 0 <s v then 1 else 0))"

definition BigInt :: "BigNum \<Rightarrow> int" where
  "BigInt n = (case n of Big v \<Rightarrow> v | Small v \<Rightarrow> sint v)"

definition Cmp :: "BigNum \<Rightarrow> BigNum \<Rightarrow> int" where
  "Cmp n m = (if useBig n \<or> useBig m then cmp_int (BigInt n) (BigInt m)
              else if small n <s small m then -1 else if small m <s small n then 1 else 0)"

definition Add :: "BigNum \<Rightarrow> BigNum \<Rightarrow> BigNum" where
  "Add n m =
     (let r = small n + small m
      in if \<not> useBig n \<and> \<not> useBig m \<and> 0 \<le>s ((r XOR small n) AND (r XOR small m)) then Small r
         else Big (BigInt n + BigInt m))"

definition Sub :: "BigNum \<Rightarrow> BigNum \<Rightarrow> BigNum" where
  "Sub n m =
     (let r = small n - small m
      in if \<not> useBig n \<and> \<not> useBig m \<and> 0 \<le>s ((small n XOR small m) AND (small n XOR r)) then Small r
         else Big (BigInt n - BigInt m))"

definition Mul :: "BigNum \<Rightarrow> BigNum \<Rightarrow> BigNum" where
  "Mul n m =
     (let r = small n * small m
      in if \<not> useBig n \<and> \<not> useBig m then
           (if small n = 0 \<or> small m = 0 then Small 0
            else if (small n \<noteq> -1 \<or> small m \<noteq> MinInt64) \<and> sdiv64 r (small n) = small m then Small r
            else Big (BigInt n * BigInt m))
         else Big (BigInt n * BigInt m))"

definition Div :: "BigNum \<Rightarrow> BigNum \<Rightarrow> BigNum res" where
  "Div n m =
     (if IsZero m then Inl ErrBigNumDivisionByZero
      else if \<not> useBig n \<and> \<not> useBig m \<and> (small n \<noteq> MinInt64 \<or> small m \<noteq> -1)
      then Inr (Small (sdiv64 (small n) (small m)))
      else Inr (Big (BigInt n sdiv BigInt m)))"

definition Mod :: "BigNum \<Rightarrow> BigNum \<Rightarrow> BigNum res" where
  "Mod n m =
     (if IsZero m then Inl ErrBigNumModuloByZero
      else if \<not> useBig n \<and> \<not> useBig m \<and> (small n \<noteq> MinInt64 \<or> small m \<noteq> -1)
      then Inr (Small (smod64 (small n) (small m)))
      else Inr (Big (BigInt n smod BigInt m)))"

definition maxModexpOperandBits :: nat where
  "maxModexpOperandBits = maxBigNumLen * 8"

fun nat_bitlen :: "nat \<Rightarrow> nat" where
  "nat_bitlen n = (if n = 0 then 0 else Suc (nat_bitlen (n div 2)))"

declare nat_bitlen.simps [simp del]

definition BitLen :: "int \<Rightarrow> nat" where
  "BitLen v = nat_bitlen (nat \<bar>v\<bar>)"

definition Modexp :: "BigNum \<Rightarrow> BigNum \<Rightarrow> BigNum \<Rightarrow> BigNum res" where
  "Modexp n ex modulus =
     (if Sign modulus \<le> 0 then Inl ErrBigNumModulusNotPositive
      else if Sign ex < 0 then Inl ErrBigNumNegativeExponent
      else if list_ex (\<lambda>operand. BitLen operand > maxModexpOperandBits)
                [BigInt n, BigInt ex, BigInt modulus]
      then Inl ErrBigNumModexpOperandTooLarge
      else Inr (Big (BigInt n ^ nat (BigInt ex) mod BigInt modulus)))"

definition Negate :: "BigNum \<Rightarrow> BigNum" where
  "Negate n = (if \<not> useBig n \<and> small n \<noteq> MinInt64 then Small (- small n) else Big (- BigInt n))"

definition Abs :: "BigNum \<Rightarrow> BigNum" where
  "Abs n =
     (if \<not> useBig n \<and> 0 \<le>s small n then n
      else if \<not> useBig n \<and> small n \<noteq> MinInt64 then Small (- small n)
      else Big \<bar>BigInt n\<bar>)"

definition Lshift :: "BigNum \<Rightarrow> nat \<Rightarrow> BigNum res" where
  "Lshift n shift =
     (if IsZero n then Inr n
      else if shift > maxBigNumLen * 8 then script_err ErrNumberTooBig
      else let out = Big (push_bit shift (BigInt n))
           in bindE (BigNum_Bytes out) (\<lambda>_. Inr out))"

definition Rshift :: "BigNum \<Rightarrow> nat \<Rightarrow> BigNum" where
  "Rshift n shift = (if IsZero n then n else Big (drop_bit shift (BigInt n)))"

definition BigNumFromInt64 :: "int64 \<Rightarrow> BigNum" where
  "BigNumFromInt64 v = Small v"

definition BigNumFromUint64 :: "uint64 \<Rightarrow> BigNum" where
  "BigNumFromUint64 v = (if v \<le> MaxInt64 then Small v else Big (uint v))"

subsection \<open>The integer denoted, and the arithmetic against it\<close>

definition val :: "BigNum \<Rightarrow> int" where
  "val n = (case n of Small v \<Rightarrow> sint v | Big v \<Rightarrow> v)"

definition fits64 :: "int \<Rightarrow> bool" where
  "fits64 x \<longleftrightarrow> - (2 ^ 63) \<le> x \<and> x < 2 ^ 63"

definition of_int64 :: "int \<Rightarrow> BigNum" where
  "of_int64 x = (if fits64 x then Small (word_of_int x) else Big x)"

lemma val_simps [simp]: "val (Small v) = sint v" "val (Big x) = x"
  by (simp_all add: val_def)

lemma BigInt_eq_val: "BigInt n = val n"
  by (simp add: BigInt_def val_def split: BigNum.split)

lemma fits64_sint [simp]: "fits64 (sint (v :: int64))"
  using sint_bounds [of v] by (simp add: fits64_def)

lemma sint_fits64: "fits64 x \<Longrightarrow> sint (word_of_int x :: int64) = x"
  by (simp add: fits64_def sint_word_of_int_id)

lemma val_of_int64 [simp]: "val (of_int64 x) = x"
  by (simp add: of_int64_def sint_fits64)

lemma bit63: "bit (w :: int64) 63 \<longleftrightarrow> sint w < 0"
  using bit_last_iff [of w] by simp

lemma sle0_bit63: "0 \<le>s (w :: int64) \<longleftrightarrow> \<not> bit w 63"
  by (simp add: bit63 word_sle_eq not_less)

lemma signed_wrap:
  "signed_take_bit 63 (k :: int) = (k + 2 ^ 63) mod 2 ^ 64 - 2 ^ 63"
  by (simp add: signed_take_bit_eq_take_bit_shift take_bit_eq_mod)

lemma signed_wrap_cases:
  assumes "- (2 ^ 64) \<le> k" "k < 2 ^ 64"
  shows "signed_take_bit 63 (k :: int) =
     (if fits64 k then k else if k < 0 then k + 2 ^ 64 else k - 2 ^ 64)"
proof -
  consider "fits64 k" | "k < - (2 ^ 63)" | "2 ^ 63 \<le> k"
    unfolding fits64_def by linarith
  then show ?thesis
  proof cases
    case 1
    then have "(k + 2 ^ 63) mod 2 ^ 64 = k + 2 ^ 63"
      by (intro mod_pos_pos_trivial) (simp_all add: fits64_def)
    with 1 show ?thesis by (simp add: signed_wrap)
  next
    case 2
    then have "(k + 2 ^ 64 + 2 ^ 63) mod 2 ^ 64 = k + 2 ^ 64 + 2 ^ 63"
      using assms by (intro mod_pos_pos_trivial) simp_all
    moreover have "(k + 2 ^ 64 + 2 ^ 63) mod 2 ^ 64 = (k + 2 ^ 63) mod 2 ^ 64"
      using mod_add_self1 [of "2 ^ 64" "k + 2 ^ 63"] by (simp only: add_ac)
    ultimately show ?thesis using 2 by (simp add: signed_wrap fits64_def)
  next
    case 3
    then have "(k - 2 ^ 64 + 2 ^ 63) mod 2 ^ 64 = k - 2 ^ 64 + 2 ^ 63"
      using assms by (intro mod_pos_pos_trivial) simp_all
    moreover have "(k - 2 ^ 64 + 2 ^ 63) mod 2 ^ 64 = (k + 2 ^ 63) mod 2 ^ 64"
    proof -
      have e: "k + 2 ^ 63 = (k - 2 ^ 64 + 2 ^ 63) + 2 ^ 64" by simp
      show ?thesis by (subst e) (rule mod_add_self2 [symmetric])
    qed
    ultimately show ?thesis using 3 by (simp add: signed_wrap fits64_def)
  qed
qed

lemma sint_add64:
  "sint (a + b :: int64) = (if fits64 (sint a + sint b) then sint a + sint b
     else if sint a + sint b < 0 then sint a + sint b + 2 ^ 64 else sint a + sint b - 2 ^ 64)"
  using sint_bounds [of a] sint_bounds [of b] signed_wrap_cases [of "sint a + sint b"]
  by (simp add: sint_word_add)

lemma sint_diff64:
  "sint (a - b :: int64) = (if fits64 (sint a - sint b) then sint a - sint b
     else if sint a - sint b < 0 then sint a - sint b + 2 ^ 64 else sint a - sint b - 2 ^ 64)"
  using sint_bounds [of a] sint_bounds [of b] signed_wrap_cases [of "sint a - sint b"]
  by (simp add: sint_word_diff)

lemma Small_eq: "sint r = x \<Longrightarrow> Small r = of_int64 x"
  by (auto simp: of_int64_def)

lemma Add_small: "Add (Small a) (Small b) = of_int64 (sint a + sint b)"
proof -
  have t: "0 \<le>s (((a + b) XOR a) AND ((a + b) XOR b)) \<longleftrightarrow> fits64 (sint a + sint b)"
    using sint_bounds [of a] sint_bounds [of b]
    by (auto simp add: sle0_bit63 bit_simps) (auto simp: bit63 sint_add64 fits64_def split: if_splits)
  show ?thesis
  proof (cases "fits64 (sint a + sint b)")
    case True
    with t show ?thesis by (simp add: Add_def) (rule Small_eq, simp add: sint_add64)
  next
    case False
    with t show ?thesis by (simp add: Add_def of_int64_def BigInt_eq_val)
  qed
qed

lemma Sub_small: "Sub (Small a) (Small b) = of_int64 (sint a - sint b)"
proof -
  have t: "0 \<le>s ((a XOR b) AND (a XOR (a - b))) \<longleftrightarrow> fits64 (sint a - sint b)"
    using sint_bounds [of a] sint_bounds [of b]
    by (auto simp add: sle0_bit63 bit_simps) (auto simp: bit63 sint_diff64 fits64_def split: if_splits)
  show ?thesis
  proof (cases "fits64 (sint a - sint b)")
    case True
    with t show ?thesis by (simp add: Sub_def) (rule Small_eq, simp add: sint_diff64)
  next
    case False
    with t show ?thesis by (simp add: Sub_def of_int64_def BigInt_eq_val)
  qed
qed

lemma val_Add [simp]: "val (Add n m) = val n + val m"
  by (cases n; cases m) (simp_all add: Add_small, simp_all add: Add_def BigInt_eq_val)

lemma val_Sub [simp]: "val (Sub n m) = val n - val m"
  by (cases n; cases m) (simp_all add: Sub_small, simp_all add: Sub_def BigInt_eq_val)


lemma abs_sdiv_le: "\<bar>a sdiv (b :: int)\<bar> \<le> \<bar>a\<bar>"
proof (cases "a = 0 \<or> b = 0")
  case False
  then have "\<bar>a\<bar> div \<bar>b\<bar> \<le> \<bar>a\<bar> div 1" by (intro zdiv_mono2) auto
  with False show ?thesis
    by (simp add: signed_divide_int_def abs_mult abs_sgn_eq pos_imp_zdiv_nonneg_iff)
qed (auto simp: signed_divide_int_def)

lemma abs_smod_lt: "b \<noteq> 0 \<Longrightarrow> \<bar>a smod (b :: int)\<bar> < \<bar>b\<bar>"
  by (simp add: signed_modulo_int_def abs_mult abs_sgn_eq)

lemma fits64_sdiv:
  assumes "fits64 a" "fits64 b" "\<not> (a = - (2 ^ 63) \<and> b = -1)"
  shows "fits64 (a sdiv b)"
proof (cases "b = -1")
  case True
  with assms show ?thesis by (auto simp: fits64_def)
next
  case False
  have le: "\<bar>a sdiv b\<bar> \<le> 2 ^ 63" using abs_sdiv_le [of a b] assms(1) unfolding fits64_def by linarith
  have "a sdiv b \<noteq> 2 ^ 63"
  proof
    assume q: "a sdiv b = 2 ^ 63"
    then have a: "\<bar>a\<bar> = 2 ^ 63"
      using abs_sdiv_le [of a b] assms(1) unfolding fits64_def by linarith
    have b: "b \<noteq> 0" "a \<noteq> 0" using q a by auto
    have "\<bar>a sdiv b\<bar> = \<bar>a\<bar> div \<bar>b\<bar>" using b a by (simp add: signed_divide_int_def abs_mult abs_sgn_eq pos_imp_zdiv_nonneg_iff)
    with q a have "(2 ^ 63 :: int) div \<bar>b\<bar> = 2 ^ 63" by simp
    moreover have "1 \<le> \<bar>b\<bar>" using b by linarith
    ultimately have "\<bar>b\<bar> = 1"
      using int_div_less_self [of "2 ^ 63" "\<bar>b\<bar>"] by (cases "\<bar>b\<bar> = 1") auto
    with False have "b = 1" by auto
    with q assms(1) show False by (simp add: fits64_def)
  qed
  with le show ?thesis by (simp add: fits64_def abs_le_iff)
qed

lemma fits64_smod: "fits64 a \<Longrightarrow> b \<noteq> 0 \<Longrightarrow> fits64 b \<Longrightarrow> fits64 (a smod b)"
  using abs_smod_lt [of b a] unfolding fits64_def by linarith

lemma sdiv_unique:
  assumes "(n :: int) \<noteq> 0" shows "(n * m) sdiv n = m"
  using assms by (cases "0 < n") (simp_all add: signed_divide_int_def abs_mult sgn_mult mult_sgn_abs sgn_mult_abs)

lemma Mul_small: "Mul (Small a) (Small b) = of_int64 (sint a * sint b)"
proof (cases "a = 0 \<or> b = 0")
  case True
  then show ?thesis by (auto simp: Mul_def of_int64_def fits64_def)
next
  case False
  let ?A = "sint a" and ?B = "sint b" and ?R = "sint (a * b)"
  have nz: "?A \<noteq> 0" "?B \<noteq> 0" using False by (simp_all add: sint_eq_0_iff)
  have "(2 ^ 64 :: int) dvd ?R - ?A * ?B"
  proof -
    have "take_bit 64 ?R = take_bit 64 (?A * ?B)"
      by (simp add: sint_word_mult take_bit_signed_take_bit)
    then show ?thesis by (simp add: take_bit_eq_mod mod_eq_dvd_iff)
  qed
  have m: "a \<noteq> -1 \<longleftrightarrow> ?A \<noteq> -1" "b \<noteq> MinInt64 \<longleftrightarrow> ?B \<noteq> - (2 ^ 63)"
    using sint_eq_iff [of a "-1"] sint_eq_iff [of b MinInt64] by simp_all
  have t: "((a \<noteq> -1 \<or> b \<noteq> MinInt64) \<and> sdiv64 (a * b) a = b) \<longleftrightarrow> fits64 (?A * ?B)"
  proof
    assume f: "fits64 (?A * ?B)"
    then have R: "?R = ?A * ?B"
      by (simp add: sint_word_mult signed_take_bit_int_eq_self fits64_def)
    have "sdiv64 (a * b) a = b" by (simp add: sdiv64_def R sdiv_unique nz)
    moreover have "a \<noteq> -1 \<or> b \<noteq> MinInt64" unfolding m using f by (auto simp: fits64_def)
    ultimately show "(a \<noteq> -1 \<or> b \<noteq> MinInt64) \<and> sdiv64 (a * b) a = b" by blast
  next
    assume "(a \<noteq> -1 \<or> b \<noteq> MinInt64) \<and> sdiv64 (a * b) a = b"
    then have c: "?A \<noteq> -1 \<or> ?B \<noteq> - (2 ^ 63)" and q: "sdiv64 (a * b) a = b" using m by auto
    have nw: "\<not> (?R = - (2 ^ 63) \<and> ?A = -1)"
    proof
      assume w: "?R = - (2 ^ 63) \<and> ?A = -1"
      then have "?B = - (2 ^ 63)" using arg_cong [OF q, of sint] by (simp add: sdiv64_def)
      with c w show False by simp
    qed
    then have "?R sdiv ?A = ?B"
      using arg_cong [OF q, of sint] fits64_sdiv [of ?R ?A] by (simp add: sdiv64_def sint_fits64)
    then have R: "?R = ?A * ?B + ?R smod ?A" by (metis mult_sdiv_smod_eq)
    moreover have "\<bar>?R smod ?A\<bar> < 2 ^ 63"
      using abs_smod_lt [OF nz(1), of ?R] sint_bounds [of a] by linarith
    moreover have "2 ^ 64 dvd ?R smod ?A"
      using \<open>2 ^ 64 dvd ?R - ?A * ?B\<close> R by (metis add_diff_cancel_left')
    ultimately have "?R smod ?A = 0"
      using dvd_imp_le_int [of "?R smod ?A" "2 ^ 64"] by (cases "?R smod ?A = 0") auto
    with R have "?R = ?A * ?B" by simp
    then show "fits64 (?A * ?B)" using fits64_sint [of "a * b"] by simp
  qed
  show ?thesis
  proof (cases "fits64 (?A * ?B)")
    case True
    then have R: "?R = ?A * ?B"
      by (simp add: sint_word_mult signed_take_bit_int_eq_self fits64_def)
    with t True False show ?thesis by (simp add: Mul_def) (rule Small_eq, simp)
  next
    case F: False
    with t False show ?thesis by (auto simp add: Mul_def Let_def of_int64_def BigInt_eq_val)
  qed
qed

lemma val_Mul [simp]: "val (Mul n m) = val n * val m"
  by (cases n; cases m) (simp_all add: Mul_small, simp_all add: Mul_def BigInt_eq_val)

lemma IsZero_iff [simp]: "IsZero n \<longleftrightarrow> val n = 0"
  by (cases n) (simp_all add: IsZero_def sint_eq_0_iff sgn_eq_0_iff)

lemma Sign_eq: "Sign n = sgn (val n)"
  by (cases n) (auto simp: Sign_def word_sless_alt)

lemma Cmp_eq: "Cmp n m = cmp_int (val n) (val m)"
  by (cases n; cases m) (auto simp: Cmp_def BigInt_eq_val cmp_int_def word_sless_alt)

lemma small_neg1: "(a :: int64) = -1 \<longleftrightarrow> sint a = -1"
  using sint_eq_iff [of a "-1"] by simp

lemma small_min: "(a :: int64) = MinInt64 \<longleftrightarrow> sint a = - (2 ^ 63)"
  using sint_eq_iff [of a MinInt64] by simp

lemma Div_eq:
  "Div n m = (if val m = 0 then Inl ErrBigNumDivisionByZero
     else Inr (if useBig n \<or> useBig m then Big (val n sdiv val m) else of_int64 (val n sdiv val m)))"
proof (cases n; cases m)
  fix a b assume ab: "n = Small a" "m = Small b"
  show ?thesis
  proof (cases "sint a = - (2 ^ 63) \<and> sint b = -1")
    case True
    then have "a = MinInt64" "b = -1" by (simp_all add: small_min small_neg1)
    then show ?thesis by (simp add: ab Div_def of_int64_def fits64_def BigInt_eq_val)
  next
    case False
    then have f: "a \<noteq> MinInt64 \<or> b \<noteq> -1" unfolding small_min small_neg1 by blast
    from False have "fits64 (sint a sdiv sint b)" by (intro fits64_sdiv) simp_all
    with f show ?thesis by (simp add: ab Div_def sdiv64_def of_int64_def)
  qed
qed (simp_all add: Div_def BigInt_eq_val)

lemma Mod_eq:
  "Mod n m = (if val m = 0 then Inl ErrBigNumModuloByZero
     else Inr (if useBig n \<or> useBig m \<or> (val n = - (2 ^ 63) \<and> val m = -1)
               then Big (val n smod val m) else of_int64 (val n smod val m)))"
proof (cases n; cases m)
  fix a b assume ab: "n = Small a" "m = Small b"
  show ?thesis
  proof (cases "sint a = - (2 ^ 63) \<and> sint b = -1")
    case True
    then have "a = MinInt64" "b = -1" by (simp_all add: small_min small_neg1)
    then show ?thesis by (simp add: ab Mod_def BigInt_eq_val)
  next
    case False
    then have f: "a \<noteq> MinInt64 \<or> b \<noteq> -1" unfolding small_min small_neg1 by blast
    have "fits64 (sint a smod sint b)" if "sint b \<noteq> 0"
      using that by (intro fits64_smod) simp_all
    with f False show ?thesis by (auto simp add: ab Mod_def smod64_def of_int64_def)
  qed
qed (simp_all add: Mod_def BigInt_eq_val)

lemma val_Negate [simp]: "val (Negate n) = - val n"
  by (cases n) (auto simp: Negate_def BigInt_eq_val sint_uminus64)

lemma val_Abs [simp]: "val (Abs n) = \<bar>val n\<bar>"
  by (cases n) (auto simp: Abs_def BigInt_eq_val sint_uminus64 word_sle_eq)

lemma val_BigNumFromInt64 [simp]: "val (BigNumFromInt64 v) = sint v"
  by (simp add: BigNumFromInt64_def)

lemma val_BigNumFromUint64 [simp]: "val (BigNumFromUint64 v) = uint v"
proof (cases "v \<le> MaxInt64")
  case True
  then have "uint v < 2 ^ 63" by (simp add: word_le_def)
  then have "sint (word_of_int (uint v) :: int64) = uint v"
    using uint_ge_0 [of v] by (intro sint_word_of_int_id) linarith+
  with True show ?thesis by (simp add: BigNumFromUint64_def)
qed (simp add: BigNumFromUint64_def)

lemma nat_bitlen_le_iff: "nat_bitlen n \<le> k \<longleftrightarrow> n < 2 ^ k"
proof (induction n arbitrary: k rule: nat_bitlen.induct)
  case (1 n)
  show ?case
  proof (cases "n = 0")
    case False
    show ?thesis
    proof (cases k)
      case 0
      with False show ?thesis by (subst nat_bitlen.simps) simp
    next
      case (Suc j)
      have "nat_bitlen n \<le> k \<longleftrightarrow> n div 2 < 2 ^ j"
        using False Suc 1 by (subst nat_bitlen.simps) simp
      also have "... \<longleftrightarrow> n < 2 ^ k"
        using Suc by (simp add: div_less_iff_less_mult mult.commute)
      finally show ?thesis .
    qed
  qed (simp add: nat_bitlen.simps)
qed

lemma BitLen_le_iff: "BitLen v \<le> k \<longleftrightarrow> \<bar>v\<bar> < 2 ^ k"
proof -
  have "BitLen v \<le> k \<longleftrightarrow> nat \<bar>v\<bar> < 2 ^ k" by (simp add: BitLen_def nat_bitlen_le_iff)
  also have "... \<longleftrightarrow> \<bar>v\<bar> < 2 ^ k" by (simp add: nat_less_iff)
  finally show ?thesis .
qed

subsection \<open>The codec, the shifts and the fixed-width form\<close>

lemma encodeInt64_loop_eq: "encodeInt64_loop mag = le_bytes (unat mag)"
proof (induction mag rule: encodeInt64_loop.induct)
  case (1 mag)
  show ?case
  proof (cases "mag = 0")
    case False
    then have p: "0 < mag" "0 < unat mag" by (simp_all add: word_gt_0 unat_gt_0)
    have "(ucast mag :: byte) = word_of_nat (unat mag)" by simp
    also have "... = word_of_nat (unat mag mod 256)"
      by (simp only: word_of_nat_eq_iff take_bit_eq_mod) simp
    finally have "(ucast mag :: byte) = word_of_nat (unat mag mod 256)" .
    moreover have "unat (drop_bit 8 mag) = unat mag div 256"
      by (simp add: drop_bit_eq_div unat_div)
    ultimately show ?thesis
      using p 1 by (subst encodeInt64_loop.simps) (simp add: le_bytes_pos ucast_and_ff)
  qed (simp add: encodeInt64_loop.simps)
qed

lemma uint_word_of_int_id: "0 \<le> x \<Longrightarrow> x < 2 ^ 64 \<Longrightarrow> uint (word_of_int x :: int64) = x"
  by (simp add: unsigned_of_int take_bit_int_eq_self)

lemma unat_mag:
  "unat (if v <s 0 then - v else v :: int64) = nat \<bar>sint v\<bar>"
proof -
  have "uint (if v <s 0 then - v else v) = \<bar>sint v\<bar>"
    using uint_word_of_int_id [of "\<bar>sint v\<bar>"] sint_bounds [of v]
    by (auto simp: word_sless_alt)
  then show ?thesis by (metis nat_uint_eq)
qed

lemma encodeInt64_eq: "encodeInt64 v = enc (sint v)"
proof (cases "v = 0")
  case True
  then show ?thesis by (simp add: encodeInt64_def enc_def)
next
  case False
  then have z: "sint v \<noteq> 0" by (simp add: sint_eq_0_iff)
  have m: "(if v <s 0 then - (v + 1) + 1 else v) = (if v <s 0 then - v else v)"
    by simp
  show ?thesis
    unfolding encodeInt64_def Let_def m encodeInt64_loop_eq unat_mag enc_def add_sign_def
    using False z by (simp add: word_sless_alt)
qed

lemma encodeBig_eq: "encodeBig v = enc v"
  unfolding encodeBig_def enc_def add_sign_def Let_def by (simp add: sgn_0_0)

lemma BigNum_Bytes_eq:
  "BigNum_Bytes n = (if length (enc (val n)) > maxBigNumLen then script_err ErrNumberTooBig
                     else Inr (enc (val n)))"
  by (cases n) (simp_all add: BigNum_Bytes_def encodeInt64_eq encodeBig_eq)

lemma decodeInt64_loop_eq:
  "i + length v \<le> 8 \<Longrightarrow> decodeInt64_loop i v r = MakeScriptNum_loop i v r"
  by (induction v arbitrary: i r) simp_all

lemma decodeInt64_eq:
  assumes "length v \<le> 8" shows "decodeInt64 v = Small (word_of_int (dec v))"
proof (cases "v = []")
  case False
  have "word_of_int (sint (if last v AND 0x80 \<noteq> 0
               then - (word_of_nat (le_val v) AND NOT (push_bit (8 * (length v - 1)) 0x80))
               else word_of_nat (le_val v) :: int64)) = (word_of_int (dec v) :: int64)"
    using sint_signed_decode [OF False assms] by (rule arg_cong)
  then show ?thesis
    using False assms by (simp add: decodeInt64_def decodeInt64_loop_eq le_val_loop split: if_splits)
qed (simp add: decodeInt64_def)

lemma decodeBig_eq:
  assumes "v \<noteq> []" shows "decodeBig v = Big (dec v)"
proof -
  obtain w b where v: "v = w @ [b]" using assms by (metis rev_exhaust)
  show ?thesis
    by (auto simp: v decodeBig_def dec_snoc Let_def and_80_iff le_val_append unat_and_7f not_less)
qed

lemma BigNumFromBytes_eq:
  "BigNumFromBytes v =
     (if length v > maxBigNumLen then script_err ErrNumberTooBig
      else if \<not> minimal v then script_err ErrMinimalData
      else Inr (if length v \<le> 8 then Small (word_of_int (dec v)) else Big (dec v)))"
  by (auto simp: BigNumFromBytes_def checkMinimal_iff decodeInt64_eq decodeBig_eq int64ByteCap_def)

lemma BigNumFromBytes_val:
  "BigNumFromBytes v = Inr n \<Longrightarrow> val n = dec v \<and> minimal v \<and> length v \<le> maxBigNumLen"
  by (auto simp: BigNumFromBytes_eq sint_dec split: if_splits)

interpretation bn: number_codec BigNum_Bytes BigNumFromBytes val maxBigNumLen
  by unfold_locales (auto simp: BigNum_Bytes_eq BigNumFromBytes_eq sint_dec split: if_splits)

lemma length_enc_le_iff:
  assumes "0 < k" shows "length (enc x) \<le> k \<longleftrightarrow> \<bar>x\<bar> < 2 ^ (8 * k - 1)"
proof
  assume "length (enc x) \<le> k"
  with assms dec_bound [of "enc x" k] show "\<bar>x\<bar> < 2 ^ (8 * k - 1)" by simp
next
  assume x: "\<bar>x\<bar> < 2 ^ (8 * k - 1)"
  show "length (enc x) \<le> k"
  proof (cases "x = 0")
    case False
    define bs where "bs = le_bytes (nat \<bar>x\<bar>)"
    have ne: "bs \<noteq> []" using False by (simp add: bs_def)
    have v: "le_val bs = nat \<bar>x\<bar>" by (simp add: bs_def)
    have e: "(2::int) ^ (8 * k - 1) = 256 ^ (k - 1) * 128"
      using assms by (cases k) (simp_all add: power_add power_mult)
    have lt: "le_val bs < 256 ^ (k - 1) * 128"
      using x by (simp only: v nat_less_iff abs_ge_zero e) simp
    also have "... \<le> 256 ^ k" using assms by (cases k) simp_all
    finally have len: "length bs \<le> k" using v by (simp add: bs_def length_le_bytes_iff)
    have le: "length (add_sign neg bs) = length bs + (if 128 \<le> unat (last bs) then 1 else 0)" for neg
      using ne by (auto simp: add_sign_def and_80_iff)
    have "unat (last bs) < 128" if "length bs = k"
    proof -
      have "256 ^ (k - 1) * unat (last bs) \<le> le_val bs"
        using le_val_append [of "butlast bs" "[last bs]"] ne that by simp
      with lt have "256 ^ (k - 1) * unat (last bs) < 256 ^ (k - 1) * 128" by linarith
      then show ?thesis by simp
    qed
    with le len have "length (add_sign (x < 0) bs) \<le> k"
      by (cases "length bs = k") auto
    with False show ?thesis by (simp add: enc_def bs_def)
  qed (simp add: enc_def)
qed

lemma Lshift_eq:
  "Lshift n shift =
     (if val n = 0 then Inr n
      else if length (enc (val n * 2 ^ shift)) > maxBigNumLen then script_err ErrNumberTooBig
      else Inr (Big (val n * 2 ^ shift)))"
proof -
  have "length (enc (val n * 2 ^ shift)) > maxBigNumLen"
    if "val n \<noteq> 0" "shift > maxBigNumLen * 8"
  proof -
    have "(2::int) ^ (8 * maxBigNumLen - 1) \<le> 2 ^ shift"
      using that(2) by (intro power_increasing) simp_all
    also have "... \<le> \<bar>val n\<bar> * 2 ^ shift" using that(1) by simp
    finally have "\<not> \<bar>val n * 2 ^ shift\<bar> < 2 ^ (8 * maxBigNumLen - 1)"
      by (simp add: abs_mult)
    moreover have "0 < maxBigNumLen" by (simp add: maxBigNumLen_def)
    ultimately show ?thesis using length_enc_le_iff not_le by blast
  qed
  then show ?thesis
    by (auto simp: Lshift_def BigInt_eq_val BigNum_Bytes_eq push_bit_eq_mult Let_def)
qed

lemma val_Rshift: "val (Rshift n shift) = val n div 2 ^ shift"
  by (simp add: Rshift_def BigInt_eq_val drop_bit_eq_div)

lemma Modexp_eq:
  "Modexp n ex m =
     (if val m \<le> 0 then Inl ErrBigNumModulusNotPositive
      else if val ex < 0 then Inl ErrBigNumNegativeExponent
      else if \<exists>x \<in> {val n, val ex, val m}. 2 ^ maxModexpOperandBits \<le> \<bar>x\<bar>
      then Inl ErrBigNumModexpOperandTooLarge
      else Inr (Big (val n ^ nat (val ex) mod val m)))"
proof -
  have "BitLen x > maxModexpOperandBits \<longleftrightarrow> 2 ^ maxModexpOperandBits \<le> \<bar>x\<bar>" for x
    using BitLen_le_iff [of x maxModexpOperandBits] by linarith
  moreover have "sgn x \<le> 0 \<longleftrightarrow> x \<le> 0" "sgn x < 0 \<longleftrightarrow> x < 0" for x :: int
    by (simp_all add: sgn_if)
  ultimately show ?thesis
    by (simp add: Modexp_def Sign_eq BigInt_eq_val)
qed

lemma trim_right_zeros_eq: "trim_right_zeros v = le_bytes (le_val v)"
  unfolding trim_right_zeros_def
proof (induction v rule: rev_induct)
  case (snoc b v)
  show ?case
  proof (cases "b = 0")
    case True
    with snoc show ?thesis by (simp add: le_val_append)
  next
    case False
    then show ?thesis by (simp add: le_bytes_le_val)
  qed
qed simp

lemma and_80_eq: "(b :: byte) AND 0x80 = (if 128 \<le> unat b then 0x80 else 0)"
proof (cases "128 \<le> unat b")
  case True
  have "b AND 0x80 = 0x80"
    by (rule bit_word_eqI) (use True byte_bit7 [of b] in \<open>auto simp: bit_simps less_Suc_eq numeral_eq_Suc\<close>)
  with True show ?thesis by simp
qed (simp add: and_80_iff not_le)

lemma le_val_clear:
  assumes "v \<noteq> []" shows "le_val (butlast v @ [last v AND 0x7f]) = nat \<bar>dec v\<bar>"
proof -
  obtain w b where "v = w @ [b]" using assms by (metis rev_exhaust)
  then show ?thesis
    by (simp add: dec_snoc le_val_append unat_and_7f del: of_nat_add of_nat_mult)
qed

lemma dec_neg_iff: "v \<noteq> [] \<Longrightarrow> dec v \<noteq> 0 \<Longrightarrow> dec v < 0 \<longleftrightarrow> 128 \<le> unat (last v)"
  by (cases v rule: rev_cases)
    (auto simp add: dec_snoc simp del: of_nat_add of_nat_mult split: if_splits)

lemma minimallyEncode_eq: "minimallyEncode v = enc (dec v)"
proof (cases "v = []")
  case False
  note lv = le_val_clear [OF False]
  show ?thesis
  proof (cases "dec v = 0")
    case True
    then show ?thesis
      unfolding minimallyEncode_def Let_def trim_right_zeros_eq lv by (simp add: enc_def)
  next
    case nz: False
    show ?thesis
      unfolding minimallyEncode_def Let_def trim_right_zeros_eq lv and_80_eq [of "last v"]
      using False nz dec_neg_iff [OF False nz]
      by (cases "128 \<le> unat (last v)") (auto simp add: enc_def add_sign_def)
  qed
qed (simp add: minimallyEncode_def enc_def)

lemma dec_set_sign:
  assumes "out \<noteq> []" "unat (last out) < 128"
  shows "dec (butlast out @ [last out OR (if neg then 0x80 else 0)])
         = (if neg then - int (le_val out) else int (le_val out))"
proof -
  obtain w b where "out = w @ [b]" using assms by (metis rev_exhaust)
  with assms show ?thesis by (simp add: dec_snoc unat_or_80 le_val_append)
qed

lemma FixedBytes_ok:
  assumes "FixedBytes n sz = Inr out"
  shows "int (length out) = sz \<and> dec out = val n"
proof -
  let ?e = "enc (val n)"
  from assms have sz: "0 \<le> sz" "int (length ?e) \<le> sz"
    by (auto simp: FixedBytes_def BigNum_Bytes_eq split: if_splits)
  show ?thesis
  proof (cases "?e = []")
    case True
    then have z: "val n = 0" by (metis dec_Nil dec_enc)
    have "dec (replicate (nat sz) 0) = 0"
      by (auto simp: dec_def last_replicate)
    with True assms sz z show ?thesis
      by (auto simp: FixedBytes_def BigNum_Bytes_eq split: if_splits)
  next
    case False
    then have nz: "val n \<noteq> 0" by (auto simp: enc_def)
    define m0 where "m0 = butlast ?e @ [last ?e AND 0x7f]"
    define m where "m = (if last m0 = 0 then butlast m0 else m0)"
    define out0 where "out0 = m @ replicate (nat sz - length m) 0"
    have m0: "length m0 = length ?e" "le_val m0 = nat \<bar>val n\<bar>" "unat (last m0) < 128"
      using False le_val_clear [OF False] by (simp_all add: m0_def unat_and_7f)
    have lm: "length m \<le> nat sz" using m0 sz by (auto simp: m_def)
    have vm: "le_val m = le_val m0"
      using le_val_append [of "butlast m0" "[last m0]"] by (auto simp: m_def m0_def)
    have "1 \<le> length ?e" using False by (simp add: Suc_le_eq)
    with sz have "0 < sz" by linarith
    then have ne: "out0 \<noteq> []" by (auto simp: out0_def)
    have last: "unat (last out0) < 128"
    proof (cases "length m < nat sz")
      case True
      then show ?thesis by (simp add: out0_def)
    next
      case F: False
      have "last m0 \<noteq> 0"
      proof
        assume "last m0 = 0"
        then have "length m = length ?e - 1" using m0(1) by (simp add: m_def)
        moreover have "length ?e \<le> nat sz" using sz by simp
        ultimately show False using F \<open>1 \<le> length ?e\<close> by linarith
      qed
      then have "m = m0" by (simp add: m_def)
      with F m0 show ?thesis by (simp add: out0_def)
    qed
    have "out = butlast (copy_into (replicate (nat sz) 0) m)
                @ [last (copy_into (replicate (nat sz) 0) m) OR (last ?e AND 0x80)]"
      using assms False sz
      by (auto simp: FixedBytes_def BigNum_Bytes_eq Let_def m_def m0_def split: if_splits)
    moreover have "copy_into (replicate (nat sz) 0) m = out0"
      using lm by (simp add: copy_into_def out0_def)
    ultimately have "out = butlast out0 @ [last out0 OR (last ?e AND 0x80)]" by simp
    then have o: "out = butlast out0 @ [last out0 OR (if val n < 0 then 0x80 else 0)]"
      using dec_neg_iff [OF False] nz by (simp add: and_80_eq)
    have "le_val out0 = nat \<bar>val n\<bar>" using vm m0 by (simp add: out0_def le_val_append)
    then have "dec out = val n" unfolding o dec_set_sign [OF ne last] by auto
    moreover have "length out = nat sz" 
    proof -
      have "length out0 = nat sz" using lm by (simp add: out0_def)
      then show ?thesis using \<open>0 < sz\<close> by (simp add: o)
    qed
    ultimately show ?thesis using sz by simp
  qed
qed

lemma FixedBytes_total:
  assumes "0 \<le> sz" "length (enc (val n)) \<le> maxBigNumLen" "int (length (enc (val n))) \<le> sz"
  shows "\<exists>out. FixedBytes n sz = Inr out"
  using assms by (auto simp: FixedBytes_def BigNum_Bytes_eq Let_def)

subsection \<open>Properties\<close>

text \<open>The integer operations of BigNum compute, whatever path (64-bit or big) they
take, exactly the integer operation of the same name on the number denoted: the
two's-complement overflow tests of Add, Sub and Mul never let a wrapped result through,
and negation and absolute value are right at the smallest 64-bit value.\<close>

theorem bignum_ring_ops:
  "val (Add n m) = val n + val m \<and> val (Sub n m) = val n - val m \<and>
   val (Mul n m) = val n * val m \<and> val (Negate n) = - val n \<and> val (Abs n) = \<bar>val n\<bar> \<and>
   Sign n = sgn (val n) \<and> Cmp n m = sgn (val n - val m) \<and> (IsZero n \<longleftrightarrow> val n = 0)"
  by (auto simp: Sign_eq Cmp_eq cmp_int_def)

text \<open>Division and modulo fail exactly on a zero divisor, each with its own error, and
otherwise return the quotient truncated toward zero and the remainder with the sign of the
dividend, which together satisfy the division identity; the quotient that does not fit
in 64 bits is promoted.\<close>

theorem bignum_div_mod:
  "(val m = 0 \<longrightarrow> Div n m = Inl ErrBigNumDivisionByZero \<and> Mod n m = Inl ErrBigNumModuloByZero) \<and>
   (val m \<noteq> 0 \<longrightarrow> (\<exists>q r. Div n m = Inr q \<and> Mod n m = Inr r \<and>
      val n = val q * val m + val r \<and> \<bar>val r\<bar> < \<bar>val m\<bar> \<and>
      (val r = 0 \<or> sgn (val r) = sgn (val n)) \<and> \<bar>val q\<bar> = \<bar>val n\<bar> div \<bar>val m\<bar>))"
proof -
  have "sdiv_abs": "\<bar>a sdiv b\<bar> = \<bar>a\<bar> div \<bar>b\<bar>" if "b \<noteq> 0" for a b :: int
    using that by (cases "a = 0") (simp_all add: signed_divide_int_def abs_mult abs_sgn_eq pos_imp_zdiv_nonneg_iff)
  have sg: "a smod b = 0 \<or> sgn (a smod b) = sgn a" if "b \<noteq> 0" for a b :: int
  proof (cases "\<bar>a\<bar> mod \<bar>b\<bar> = 0")
    case False
    then have "sgn (\<bar>a\<bar> mod \<bar>b\<bar>) = 1" using that by (simp add: less_le)
    then show ?thesis by (simp add: signed_modulo_int_def sgn_mult)
  qed (simp add: signed_modulo_int_def)
  show ?thesis
    using sg [of "val m" "val n"] sdiv_abs [of "val m" "val n"] abs_smod_lt [of "val m" "val n"]
    by (auto simp: Div_eq Mod_eq sdiv_mult_smod_eq)
qed

theorem bignum_div_mod_witness:
  "\<exists>q r. Div (Small MinInt64) (Small (-1)) = Inr q \<and> Mod (Small MinInt64) (Small (-1)) = Inr r \<and>
     val q = 2 ^ 63"
  using bignum_div_mod [of "Small (-1)" "Small MinInt64"] by auto

text \<open>C26: Round trip of the number codec: decoding accepts exactly the minimal strings of
at most 520 bytes, what it returns encodes back to the same bytes, every number whose
encoding fits decodes to the same integer, and no two accepted strings denote the same
number.\<close>

theorem bignum_codec_roundtrip:
  "((\<exists>n. BigNumFromBytes bs = Inr n) \<longleftrightarrow> minimal bs \<and> length bs \<le> 520) \<and>
   (BigNumFromBytes bs = Inr n \<longrightarrow> BigNum_Bytes n = Inr bs) \<and>
   (BigNum_Bytes k = Inr bs \<longrightarrow> (\<exists>j. BigNumFromBytes bs = Inr j \<and> val j = val k)) \<and>
   (BigNumFromBytes a = Inr n \<and> BigNumFromBytes b = Inr k \<and> val n = val k \<longrightarrow> a = b)"
  using bn.decode_iff [of bs] bn.encode_decode [of bs n] bn.decode_encode [of k bs]
    bn.decode_canonical [of a n b k]
  by (auto simp: maxBigNumLen_def BigNum_Bytes_eq split: if_splits)

theorem bignum_codec_roundtrip_witness:
  "BigNumFromBytes [0x80, 0x80] = Inr (Small (-128)) \<and> BigNum_Bytes (Small (-128)) = Inr [0x80, 0x80]"
proof -
  have "BigNumFromBytes [0x80, 0x80] = Inr (Small (-128))" by code_simp
  then show ?thesis using bignum_codec_roundtrip [of "[0x80, 0x80]" "Small (-128)"] by simp
qed

text \<open>Fixed-width form: FixedBytes succeeds exactly when the size is not negative and
the minimal encoding fits it (and the 520-byte cap); its result has exactly that size,
denotes the same number, and minimallyEncode brings it back to the minimal encoding.\<close>

theorem fixed_bytes_roundtrip:
  "((\<exists>out. FixedBytes n sz = Inr out) \<longleftrightarrow>
      0 \<le> sz \<and> length (enc (val n)) \<le> 520 \<and> int (length (enc (val n))) \<le> sz) \<and>
   (FixedBytes n sz = Inr out \<longrightarrow>
      int (length out) = sz \<and> dec out = val n \<and> minimallyEncode out = enc (val n))"
proof -
  have "0 \<le> sz \<and> length (enc (val n)) \<le> 520 \<and> int (length (enc (val n))) \<le> sz"
    if "FixedBytes n sz = Inr out" for out
    using that by (auto simp: FixedBytes_def BigNum_Bytes_eq maxBigNumLen_def split: if_splits)
  then show ?thesis
    using FixedBytes_ok [of n sz] FixedBytes_total [of sz n]
    by (auto simp: minimallyEncode_eq maxBigNumLen_def)
qed

theorem fixed_bytes_roundtrip_witness:
  "FixedBytes (Small (-5)) 3 = Inr [5, 0, 0x80] \<and> minimallyEncode [5, 0, 0x80] = enc (-5)"
proof -
  have "FixedBytes (Small (-5)) 3 = Inr [5, 0, 0x80]" by code_simp
  then show ?thesis using fixed_bytes_roundtrip [of "Small (-5)" 3 "[5, 0, 0x80]"] by simp
qed

text \<open>Shifts and modular exponentiation: a left shift multiplies by the power of two
and fails exactly when the encoding of the product exceeds 520 bytes, a right shift rounds
toward negative infinity, and Modexp rejects a modulus that is not positive, a negative
exponent and an operand of more than 4160 bits, and otherwise returns the residue in
[0, modulus).\<close>

theorem bignum_shift_modexp:
  "(case Lshift n s of Inl e \<Rightarrow> e = ScriptError ErrNumberTooBig \<and> 520 < length (enc (val n * 2 ^ s))
     | Inr r \<Rightarrow> val r = val n * 2 ^ s) \<and>
   val (Rshift n s) = val n div 2 ^ s \<and>
   (case Modexp n ex m of
      Inl e \<Rightarrow> val m \<le> 0 \<or> val ex < 0 \<or> (\<exists>x \<in> {val n, val ex, val m}. 2 ^ 4160 \<le> \<bar>x\<bar>)
    | Inr r \<Rightarrow> 0 < val m \<and> 0 \<le> val ex \<and> \<bar>val n\<bar> < 2 ^ 4160 \<and> val ex < 2 ^ 4160 \<and> val m < 2 ^ 4160 \<and>
             val r = val n ^ nat (val ex) mod val m \<and> 0 \<le> val r \<and> val r < val m)"
proof -
  have b: "maxModexpOperandBits = 4160" by (simp add: maxModexpOperandBits_def maxBigNumLen_def)
  have "length (enc 0) = 0" by (simp add: enc_def)
  then have l: "case Lshift n s of
      Inl e \<Rightarrow> e = ScriptError ErrNumberTooBig \<and> 520 < length (enc (val n * 2 ^ s))
    | Inr r \<Rightarrow> val r = val n * 2 ^ s"
    by (auto simp: Lshift_eq maxBigNumLen_def)
  show ?thesis
  proof (intro conjI)
    show "case Modexp n ex m of
      Inl e \<Rightarrow> val m \<le> 0 \<or> val ex < 0 \<or> (\<exists>x \<in> {val n, val ex, val m}. 2 ^ 4160 \<le> \<bar>x\<bar>)
    | Inr r \<Rightarrow> 0 < val m \<and> 0 \<le> val ex \<and> \<bar>val n\<bar> < 2 ^ 4160 \<and> val ex < 2 ^ 4160 \<and> val m < 2 ^ 4160 \<and>
             val r = val n ^ nat (val ex) mod val m \<and> 0 \<le> val r \<and> val r < val m"
      unfolding Modexp_eq b by (simp add: not_le not_less del: power_numeral)
  qed (rule l, rule val_Rshift)
qed

lemma enc_shortest: "dec v = n \<Longrightarrow> length (enc n) \<le> length v"
proof (cases "v = []")
  case False
  assume "dec v = n"
  then have "\<bar>n\<bar> < 2 ^ (8 * length v - 1)" using dec_bound [of v "length v"] False by simp
  with False show ?thesis using length_enc_le_iff [of "length v" n] by simp
qed (simp add: enc_def)

text \<open>C27: The legacy script number: for every 64-bit value but the smallest, Bytes gives
the minimal encoding and agrees with encodeInt64: a string that is minimal, decodes to the value, and
is no longer than any other string that does; the smallest value makes it panic, where encodeInt64
encodes it.  MakeScriptNum with the four-byte cap accepts exactly the minimal strings of at most four
bytes, whose numbers lie strictly between -2^31 and 2^31.\<close>

theorem scriptNum_codec:
  "(n \<noteq> MinInt64 \<longrightarrow> scriptNum_Bytes n = Inr (encodeInt64 n) \<and> minimal (encodeInt64 n) \<and> dec (encodeInt64 n) = sint n \<and>
      (\<forall>w. dec w = sint n \<longrightarrow> length (encodeInt64 n) \<le> length w)) \<and>
   scriptNum_Bytes MinInt64 = Inl Panic \<and> encodeInt64 MinInt64 = enc (- (2 ^ 63)) \<and>
   ((\<exists>k. MakeScriptNum v True maxScriptNumLen = Inr k) \<longleftrightarrow> minimal v \<and> length v \<le> 4) \<and>
   (MakeScriptNum v True maxScriptNumLen = Inr k \<longrightarrow>
      \<bar>sint k\<bar> < 2 ^ 31 \<and> scriptNum_Bytes k = Inr v \<and> scriptNum_Int32 k = sint k)"
proof -
  have k: "\<bar>sint k\<bar> < 2 ^ 31 \<and> scriptNum_Bytes k = Inr v \<and> scriptNum_Int32 k = sint k"
    if m: "MakeScriptNum v True maxScriptNumLen = Inr k"
  proof -
    have "sint k = dec v" "length v \<le> 4"
      using MakeScriptNum_ok [OF m] by (simp_all add: maxScriptNumLen_def)
    then have b: "\<bar>sint k\<bar> < 2 ^ 31" using dec_bound [of v 4] by simp
    then have "scriptNum_Int32 k = sint k"
      by (auto simp: scriptNum_Int32_def maxInt32_def minInt32_def int32_of_id abs_less_iff)
    with b sn.encode_decode [OF m] show ?thesis by simp
  qed
  then show ?thesis
    using sn.decode_iff [of v] scriptNum_Bytes_eq [of n] scriptNum_Bytes_eq [of MinInt64]
      encodeInt64_eq [of MinInt64]
    by (simp add: encodeInt64_eq enc_shortest)
qed

theorem scriptNum_codec_witness:
  "MakeScriptNum [0xff, 0xff, 0xff, 0xff] True maxScriptNumLen = Inr (- 0x7fffffff) \<and>
   scriptNum_Bytes (- 0x7fffffff) = Inr [0xff, 0xff, 0xff, 0xff] \<and>
   scriptNum_Bytes 300 = Inr (encodeInt64 300) \<and> minimal (encodeInt64 300)"
proof -
  have "MakeScriptNum [0xff, 0xff, 0xff, 0xff] True maxScriptNumLen = Inr (- 0x7fffffff)"
    by code_simp
  then show ?thesis
    using scriptNum_codec [of 300 "[0xff, 0xff, 0xff, 0xff]" "- 0x7fffffff"] by simp
qed

end
