(* ===== verification/VmStack.thy ===== *)
theory VmStack
imports BigNum
begin

text \<open>Model of pkg/arkade/stack.go: the data and alternate stacks.  The list keeps the order
of the Go slice, its last element being the top.  Every method returns the updated stack, or
the error it returns; indices are int32 in the source and int here (a stack never holds
2^31 items: the engine bounds it to 1000 after every opcode).  The lemmas describe each
method on the list of items from the top, and the locale lifo states what the opcode
handlers rely on.\<close>

record stack =
  stk :: "bytes list"
  verifyMinimalData :: bool

text \<open>The scan of asBool: the first non-zero byte decides, and a last byte 0x80 (negative
zero) is false.\<close>

fun asBool :: "bytes \<Rightarrow> bool" where
  "asBool [] = False"
| "asBool (b # t) = (if b \<noteq> 0 then \<not> (t = [] \<and> b = 0x80) else asBool t)"

definition fromBool :: "bool \<Rightarrow> bytes" where
  "fromBool v = (if v then [1] else [])"

definition Depth :: "stack \<Rightarrow> int" where
  "Depth s = int (length (stk s))"

definition PushByteArray :: "bytes \<Rightarrow> stack \<Rightarrow> stack" where
  "PushByteArray so s = s\<lparr>stk := stk s @ [so]\<rparr>"

definition PushInt :: "scriptNum \<Rightarrow> stack \<Rightarrow> stack res" where
  "PushInt v s = bindE (scriptNum_Bytes v) (\<lambda>b. Inr (PushByteArray b s))"

definition PushBool :: "bool \<Rightarrow> stack \<Rightarrow> stack" where
  "PushBool v s = PushByteArray (fromBool v) s"

definition nipN :: "int \<Rightarrow> stack \<Rightarrow> (bytes \<times> stack) res" where
  "nipN idx s =
     (let sz = int (length (stk s))
      in if idx < 0 \<or> idx > sz - 1 then script_err ErrInvalidStackOperation
         else bindE (at_idx (stk s) (sz - idx - 1)) (\<lambda>so.
           if idx = 0 then
             bindE (slice (stk s) 0 (sz - 1)) (\<lambda>s1. Inr (so, s\<lparr>stk := s1\<rparr>))
           else if idx = sz - 1 then
             bindE (slice (stk s) 1 sz) (\<lambda>s1. Inr (so, s\<lparr>stk := s1\<rparr>))
           else
             bindE (slice (stk s) (sz - idx) sz) (\<lambda>s1.
             bindE (slice (stk s) 0 (sz - idx - 1)) (\<lambda>s2.
             Inr (so, s\<lparr>stk := s2 @ s1\<rparr>)))))"

definition PopByteArray :: "stack \<Rightarrow> (bytes \<times> stack) res" where
  "PopByteArray s = nipN 0 s"

definition PopInt :: "stack \<Rightarrow> (scriptNum \<times> stack) res" where
  "PopInt s = bindE (PopByteArray s) (\<lambda>(so, s').
              bindE (MakeScriptNum so (verifyMinimalData s') maxScriptNumLen) (\<lambda>n. Inr (n, s')))"

definition PopBool :: "stack \<Rightarrow> (bool \<times> stack) res" where
  "PopBool s = bindE (PopByteArray s) (\<lambda>(so, s'). Inr (asBool so, s'))"

definition PeekByteArray :: "int \<Rightarrow> stack \<Rightarrow> bytes res" where
  "PeekByteArray idx s =
     (let sz = int (length (stk s))
      in if idx < 0 \<or> idx \<ge> sz then script_err ErrInvalidStackOperation
         else at_idx (stk s) (sz - idx - 1))"

definition PeekInt :: "int \<Rightarrow> stack \<Rightarrow> scriptNum res" where
  "PeekInt idx s = bindE (PeekByteArray idx s) (\<lambda>so.
                   MakeScriptNum so (verifyMinimalData s) maxScriptNumLen)"

definition PeekBool :: "int \<Rightarrow> stack \<Rightarrow> bool res" where
  "PeekBool idx s = bindE (PeekByteArray idx s) (\<lambda>so. Inr (asBool so))"

definition PushBigNum :: "BigNum \<Rightarrow> stack \<Rightarrow> stack res" where
  "PushBigNum n s = bindE (BigNum_Bytes n) (\<lambda>b. Inr (PushByteArray b s))"

definition PopBigNum :: "stack \<Rightarrow> (BigNum \<times> stack) res" where
  "PopBigNum s = bindE (PopByteArray s) (\<lambda>(so, s').
                 bindE (BigNumFromBytes so) (\<lambda>n. Inr (n, s')))"

definition PeekBigNum :: "int \<Rightarrow> stack \<Rightarrow> BigNum res" where
  "PeekBigNum idx s = bindE (PeekByteArray idx s) BigNumFromBytes"

definition NipN :: "int \<Rightarrow> stack \<Rightarrow> stack res" where
  "NipN idx s = bindE (nipN idx s) (\<lambda>(so, s'). Inr s')"

definition Tuck :: "stack \<Rightarrow> stack res" where
  "Tuck s = bindE (PopByteArray s) (\<lambda>(so2, s).
            bindE (PopByteArray s) (\<lambda>(so1, s).
            Inr (PushByteArray so2 (PushByteArray so1 (PushByteArray so2 s)))))"

text \<open>The counting loops run n times; n is at least 1 when they start.\<close>

primrec DropN_loop :: "nat \<Rightarrow> stack \<Rightarrow> stack res" where
  "DropN_loop 0 s = Inr s"
| "DropN_loop (Suc n) s = bindE (PopByteArray s) (\<lambda>(so, s'). DropN_loop n s')"

definition DropN :: "int \<Rightarrow> stack \<Rightarrow> stack res" where
  "DropN n s = (if n < 1 then script_err ErrInvalidStackOperation else DropN_loop (nat n) s)"

primrec peek_push_loop :: "nat \<Rightarrow> int \<Rightarrow> stack \<Rightarrow> stack res" where
  "peek_push_loop 0 entry s = Inr s"
| "peek_push_loop (Suc n) entry s =
     bindE (PeekByteArray entry s) (\<lambda>so. peek_push_loop n entry (PushByteArray so s))"

primrec nip_push_loop :: "nat \<Rightarrow> int \<Rightarrow> stack \<Rightarrow> stack res" where
  "nip_push_loop 0 entry s = Inr s"
| "nip_push_loop (Suc n) entry s =
     bindE (nipN entry s) (\<lambda>(so, s'). nip_push_loop n entry (PushByteArray so s'))"

definition DupN :: "int \<Rightarrow> stack \<Rightarrow> stack res" where
  "DupN n s = (if n < 1 then script_err ErrInvalidStackOperation
               else peek_push_loop (nat n) (n - 1) s)"

definition RotN :: "int \<Rightarrow> stack \<Rightarrow> stack res" where
  "RotN n s = (if n < 1 then script_err ErrInvalidStackOperation
               else nip_push_loop (nat n) (3 * n - 1) s)"

definition SwapN :: "int \<Rightarrow> stack \<Rightarrow> stack res" where
  "SwapN n s = (if n < 1 then script_err ErrInvalidStackOperation
                else nip_push_loop (nat n) (2 * n - 1) s)"

definition OverN :: "int \<Rightarrow> stack \<Rightarrow> stack res" where
  "OverN n s = (if n < 1 then script_err ErrInvalidStackOperation
                else peek_push_loop (nat n) (2 * n - 1) s)"

definition PickN :: "int \<Rightarrow> stack \<Rightarrow> stack res" where
  "PickN n s = bindE (PeekByteArray n s) (\<lambda>so. Inr (PushByteArray so s))"

definition RollN :: "int \<Rightarrow> stack \<Rightarrow> stack res" where
  "RollN n s = bindE (nipN n s) (\<lambda>(so, s'). Inr (PushByteArray so s'))"

subsection \<open>The methods on the items from the top\<close>

definition items :: "stack \<Rightarrow> bytes list" where
  "items s = rev (stk s)"

definition with_items :: "stack \<Rightarrow> bytes list \<Rightarrow> stack" where
  "with_items s xs = s\<lparr>stk := rev xs\<rparr>"

lemma items_with_items [simp]: "items (with_items s xs) = xs"
  by (simp add: items_def with_items_def)

lemma with_items_items [simp]: "with_items s (items s) = s"
  by (simp add: items_def with_items_def)

lemma with_items_twice [simp]: "with_items (with_items s xs) ys = with_items s ys"
  by (simp add: with_items_def)

lemma verifyMinimalData_with_items [simp]: "verifyMinimalData (with_items s xs) = verifyMinimalData s"
  by (simp add: with_items_def)

lemma length_items: "length (items s) = length (stk s)"
  by (simp add: items_def)

lemma set_items: "set (items s) = set (stk s)"
  by (simp add: items_def)

lemma stack_eq_iff: "s = t \<longleftrightarrow> items s = items t \<and> verifyMinimalData s = verifyMinimalData t"
  by (cases s; cases t) (auto simp: items_def)

lemma PushByteArray_items: "PushByteArray b s = with_items s (b # items s)"
  by (simp add: PushByteArray_def with_items_def items_def)

lemma Depth_items: "Depth s = int (length (items s))"
  by (simp add: Depth_def length_items)

lemma at_idx_rev:
  assumes "k < length xs"
  shows "at_idx xs (int (length xs) - int k - 1) = Inr (rev xs ! k)"
proof -
  have "nat (int (length xs) - int k - 1) = length xs - Suc k" using assms by linarith
  with assms show ?thesis by (simp add: at_idx_def rev_nth)
qed

lemma PeekByteArray_items:
  "PeekByteArray i s = (if 0 \<le> i \<and> i < int (length (items s)) then Inr (items s ! nat i)
                        else script_err ErrInvalidStackOperation)"
proof (cases "0 \<le> i \<and> i < int (length (items s))")
  case True
  then obtain k where "i = int k" "k < length (stk s)"
    by (metis nonneg_int_cases length_items of_nat_less_iff)
  then show ?thesis by (simp add: PeekByteArray_def Let_def at_idx_rev) (simp add: items_def)
qed (auto simp: PeekByteArray_def length_items)

lemma nipN_items:
  "nipN i s = (if 0 \<le> i \<and> i < int (length (items s))
     then Inr (items s ! nat i, with_items s (take (nat i) (items s) @ drop (Suc (nat i)) (items s)))
     else script_err ErrInvalidStackOperation)"
proof (cases "0 \<le> i \<and> i < int (length (items s))")
  case True
  then obtain k where k: "i = int k" "k < length (stk s)"
    by (metis nonneg_int_cases length_items of_nat_less_iff)
  let ?n = "length (stk s)"
  have n: "?n - Suc k = nat (int ?n - int k - 1)" "?n - k = nat (int ?n - int k)" by linarith+
  have w: "with_items s (take k (items s) @ drop (Suc k) (items s))
           = s\<lparr>stk := take (?n - Suc k) (stk s) @ drop (?n - k) (stk s)\<rparr>"
    by (simp add: with_items_def items_def rev_take rev_drop)
  have "nipN (int k) s = Inr (rev (stk s) ! k, s\<lparr>stk := take (?n - Suc k) (stk s) @ drop (?n - k) (stk s)\<rparr>)"
  proof -
    have b: "int (length (stk s)) - int k - 1 \<ge> 0" "int (length (stk s)) - int k \<ge> 0"
      using k(2) by linarith+
    consider "k = 0" | "k \<noteq> 0" "int k = int ?n - 1" | "k \<noteq> 0" "int k \<noteq> int ?n - 1" by blast
    then show ?thesis
    proof cases
      case 1
      have "nat (int ?n - 1) = ?n - Suc 0" by linarith
      with 1 show ?thesis using k(2) b at_idx_rev [of 0 "stk s"]
        by (simp add: nipN_def Let_def slice_def)
    next
      case 2
      then have z: "?n - Suc k = 0" "?n - k = 1" "?n = Suc k" by linarith+
      then show ?thesis using 2(1) at_idx_rev [OF k(2)]
        by (simp add: nipN_def Let_def slice_def)
    next
      case 3
      then show ?thesis using k(2) b at_idx_rev [OF k(2)]
        by (simp add: nipN_def Let_def slice_def n)
    qed
  qed
  then show ?thesis using k(2) unfolding k(1) nat_int w by (simp add: length_items) (simp add: items_def)
qed (auto simp: nipN_def Let_def length_items)

lemma PopByteArray_items:
  "PopByteArray s = (case items s of [] \<Rightarrow> script_err ErrInvalidStackOperation
                     | b # bs \<Rightarrow> Inr (b, with_items s bs))"
  by (cases "items s") (simp_all add: PopByteArray_def nipN_items)

lemma DropN_loop_items:
  "DropN_loop n s = (if n \<le> length (items s) then Inr (with_items s (drop n (items s)))
                     else script_err ErrInvalidStackOperation)"
  by (induction n arbitrary: s) (auto simp: PopByteArray_items split: list.splits)

lemma DropN_items:
  "DropN n s = (if 1 \<le> n \<and> n \<le> int (length (items s)) then Inr (with_items s (drop (nat n) (items s)))
                else script_err ErrInvalidStackOperation)"
  by (auto simp: DropN_def DropN_loop_items)

lemma PickN_items:
  "PickN n s = (if 0 \<le> n \<and> n < int (length (items s))
     then Inr (with_items s (items s ! nat n # items s)) else script_err ErrInvalidStackOperation)"
  by (simp add: PickN_def PeekByteArray_items PushByteArray_items)

lemma RollN_items:
  "RollN n s = (if 0 \<le> n \<and> n < int (length (items s))
     then Inr (with_items s (items s ! nat n # take (nat n) (items s) @ drop (Suc (nat n)) (items s)))
     else script_err ErrInvalidStackOperation)"
  by (simp add: RollN_def nipN_items PushByteArray_items)

lemma Tuck_items:
  "Tuck s = (case items s of a # b # r \<Rightarrow> Inr (with_items s (a # b # a # r))
             | _ \<Rightarrow> script_err ErrInvalidStackOperation)"
  by (auto simp: Tuck_def PopByteArray_items PushByteArray_items split: list.splits)

text \<open>Peeking always at depth e and pushing copies a block of items, in order.\<close>

lemma peek_push_loop_items:
  "n \<le> Suc e \<Longrightarrow> peek_push_loop n (int e) s =
     (if n = 0 \<or> e < length (items s)
      then Inr (with_items s (take n (drop (Suc e - n) (items s)) @ items s))
      else script_err ErrInvalidStackOperation)"
proof (induction n arbitrary: s)
  case (Suc n)
  show ?case
  proof (cases "e < length (items s)")
    case True
    have j: "Suc e - n = Suc (e - n)" "n \<le> Suc e" using Suc.prems by simp_all
    have "take n (drop (e - n) (items s)) @ [items s ! e] = take (Suc n) (drop (e - n) (items s))"
      using True Suc.prems by (simp add: take_Suc_conv_app_nth)
    then show ?thesis
      using True Suc.IH [OF j(2), of "PushByteArray (items s ! e) s"]
      by (simp add: PeekByteArray_items PushByteArray_items j(1))
        (metis append.assoc append_Cons append_Nil)
  qed (simp add: PeekByteArray_items)
qed simp

lemma nip_push_loop_items:
  "n \<le> Suc e \<Longrightarrow> nip_push_loop n (int e) s =
     (if n = 0 \<or> e < length (items s)
      then Inr (with_items s (take n (drop (Suc e - n) (items s)) @ take (Suc e - n) (items s)
                              @ drop (Suc e) (items s)))
      else script_err ErrInvalidStackOperation)"
proof (induction n arbitrary: s)
  case (Suc n)
  show ?case
  proof (cases "e < length (items s)")
    case True
    define s1 where "s1 = PushByteArray (items s ! e) (with_items s (take e (items s) @ drop (Suc e) (items s)))"
    have i1: "items s1 = items s ! e # take e (items s) @ drop (Suc e) (items s)"
      by (simp add: s1_def PushByteArray_items)
    have l1: "length (items s1) = length (items s)" using True by (simp add: i1)
    have w1: "with_items s1 xs = with_items s xs" for xs
      by (simp add: s1_def PushByteArray_items)
    have j: "Suc e - n = Suc (e - n)" "n \<le> Suc e" using Suc.prems by simp_all
    have t: "take n (drop (e - n) (items s)) @ [items s ! e] = take (Suc n) (drop (e - n) (items s))"
      using True Suc.prems by (simp add: take_Suc_conv_app_nth)
    have "nip_push_loop (Suc n) (int e) s = nip_push_loop n (int e) s1"
      using True by (simp add: nipN_items s1_def)
    also have "... = Inr (with_items s (take n (drop (Suc e - n) (items s1)) @ take (Suc e - n) (items s1)
                              @ drop (Suc e) (items s1)))"
      using True Suc.IH [OF j(2), of s1] by (simp only: l1 w1 simp_thms if_True)
    also have "take n (drop (Suc e - n) (items s1)) = take n (drop (e - n) (items s))"
      using True Suc.prems by (simp add: i1 j(1) drop_take)
    also have "take (Suc e - n) (items s1) = items s ! e # take (e - n) (items s)"
      using True by (simp add: i1 j(1) min_def)
    also have "drop (Suc e) (items s1) = drop (Suc e) (items s)"
      using True by (simp add: i1)
    finally show ?thesis using True t by (simp; metis append.assoc append_Cons append_Nil)
  qed (simp add: nipN_items)
qed (simp add: with_items_def items_def)

lemma pos_int_Suc: "1 \<le> n \<Longrightarrow> \<exists>k. n = int (Suc k)"
  by (rule exI [of _ "nat n - 1"]) simp

lemma DupN_items:
  "DupN n s = (if 1 \<le> n \<and> n \<le> int (length (items s))
     then Inr (with_items s (take (nat n) (items s) @ items s))
     else script_err ErrInvalidStackOperation)"
proof (cases "1 \<le> n")
  case True
  then obtain k where k: "n = int (Suc k)" using pos_int_Suc by blast
  then have nk: "nat n = Suc k" "n - 1 = int (k)" "(n < 1) = False" by simp_all
  have c: "(1 \<le> n \<and> n \<le> int (length (items s))) = (k < length (items s))"
    using k by auto
  have p: "Suc k \<le> Suc (k)" by simp
  have d: "Suc (k) - Suc k = 0"
 by simp_all
  note l = peek_push_loop_items [OF p, of s, unfolded d]
  show ?thesis
    unfolding DupN_def c nk if_False l by (simp only: nat.distinct simp_thms drop_0)
qed (simp add: DupN_def)

lemma OverN_items:
  "OverN n s = (if 1 \<le> n \<and> 2 * n \<le> int (length (items s))
     then Inr (with_items s (take (nat n) (drop (nat n) (items s)) @ items s))
     else script_err ErrInvalidStackOperation)"
proof (cases "1 \<le> n")
  case True
  then obtain k where k: "n = int (Suc k)" using pos_int_Suc by blast
  then have nk: "nat n = Suc k" "2 * n - 1 = int (Suc (2 * k))" "(n < 1) = False" by simp_all
  have c: "(1 \<le> n \<and> 2 * n \<le> int (length (items s))) = (Suc (2 * k) < length (items s))"
    using k by auto
  have p: "Suc k \<le> Suc (Suc (2 * k))" by simp
  have d: "Suc (Suc (2 * k)) - Suc k = Suc k"
    "Suc (Suc (2 * k)) = 2 * Suc k" by simp_all
  note l = peek_push_loop_items [OF p, of s, unfolded d(1), unfolded d(2)]
  show ?thesis
    unfolding OverN_def c nk if_False l by (simp only: nat.distinct simp_thms drop_0)
qed (simp add: OverN_def)

lemma SwapN_items:
  "SwapN n s = (if 1 \<le> n \<and> 2 * n \<le> int (length (items s))
     then Inr (with_items s (take (nat n) (drop (nat n) (items s)) @ take (nat n) (items s)
                             @ drop (2 * nat n) (items s)))
     else script_err ErrInvalidStackOperation)"
proof (cases "1 \<le> n")
  case True
  then obtain k where k: "n = int (Suc k)" using pos_int_Suc by blast
  then have nk: "nat n = Suc k" "2 * n - 1 = int (Suc (2 * k))" "(n < 1) = False" by simp_all
  have c: "(1 \<le> n \<and> 2 * n \<le> int (length (items s))) = (Suc (2 * k) < length (items s))"
    using k by auto
  have p: "Suc k \<le> Suc (Suc (2 * k))" by simp
  have d: "Suc (Suc (2 * k)) - Suc k = Suc k"
    "Suc (Suc (2 * k)) = 2 * Suc k" by simp_all
  note l = nip_push_loop_items [OF p, of s, unfolded d(1), unfolded d(2)]
  show ?thesis
    unfolding SwapN_def c nk if_False l by (simp only: nat.distinct simp_thms drop_0)
qed (simp add: SwapN_def)

lemma RotN_items:
  "RotN n s = (if 1 \<le> n \<and> 3 * n \<le> int (length (items s))
     then Inr (with_items s (take (nat n) (drop (2 * nat n) (items s)) @ take (2 * nat n) (items s)
                             @ drop (3 * nat n) (items s)))
     else script_err ErrInvalidStackOperation)"
proof (cases "1 \<le> n")
  case True
  then obtain k where k: "n = int (Suc k)" using pos_int_Suc by blast
  then have nk: "nat n = Suc k" "3 * n - 1 = int (Suc (Suc (3 * k)))" "(n < 1) = False" by simp_all
  have c: "(1 \<le> n \<and> 3 * n \<le> int (length (items s))) = (Suc (Suc (3 * k)) < length (items s))"
    using k by auto
  have p: "Suc k \<le> Suc (Suc (Suc (3 * k)))" by simp
  have d: "Suc (Suc (Suc (3 * k))) - Suc k = 2 * Suc k"
    "Suc (Suc (Suc (3 * k))) = 3 * Suc k" by simp_all
  note l = nip_push_loop_items [OF p, of s, unfolded d(1), unfolded d(2)]
  show ?thesis
    unfolding RotN_def c nk if_False l by (simp only: nat.distinct simp_thms drop_0)
qed (simp add: RotN_def)

subsection \<open>Booleans and numbers on the stack\<close>

lemma asBool_iff: "asBool t \<longleftrightarrow> dec t \<noteq> 0"
proof (induction t)
  case (Cons b t)
  show ?case
  proof (cases "b = 0")
    case True
    have "dec (0 # t) = 0 \<longleftrightarrow> dec t = 0"
    proof (cases t rule: rev_cases)
      case Nil
      then show ?thesis by (simp add: dec_def)
    next
      case (snoc w c)
      then show ?thesis using dec_snoc [of "0 # w" c]
        by (auto simp: dec_snoc simp del: of_nat_add of_nat_mult)
    qed
    with True Cons show ?thesis by simp
  next
    case False
    then have b: "unat b \<noteq> 0" by (simp add: unat_eq_zero)
    show ?thesis
    proof (cases t rule: rev_cases)
      case Nil
      have "dec [b] = 0 \<longleftrightarrow> unat b = 128"
        using b False byte_mod_128 [of b] dec_snoc [of "[]" b] by (auto simp: uint_0_iff)
      also have "... \<longleftrightarrow> b = 0x80" by (auto intro: byte_eqI)
      finally show ?thesis using Nil False by simp
    next
      case (snoc w c)
      have "dec (b # t) \<noteq> 0" 
        using b by (auto simp: snoc dec_snoc simp flip: append_Cons simp del: of_nat_add of_nat_mult)
      with False snoc show ?thesis by simp
    qed
  qed
qed simp

lemma asBool_fromBool [simp]: "asBool (fromBool b) = b"
  by (simp add: fromBool_def)

lemma PopBool_items:
  "PopBool s = (case items s of [] \<Rightarrow> script_err ErrInvalidStackOperation
                | b # bs \<Rightarrow> Inr (asBool b, with_items s bs))"
  by (simp add: PopBool_def PopByteArray_items split: list.split)

lemma PopBigNum_items:
  "PopBigNum s = (case items s of [] \<Rightarrow> script_err ErrInvalidStackOperation
     | b # bs \<Rightarrow> bindE (BigNumFromBytes b) (\<lambda>n. Inr (n, with_items s bs)))"
  by (simp add: PopBigNum_def PopByteArray_items split: list.split)

lemma PopInt_items:
  "PopInt s = (case items s of [] \<Rightarrow> script_err ErrInvalidStackOperation
     | b # bs \<Rightarrow> bindE (MakeScriptNum b (verifyMinimalData s) maxScriptNumLen)
                   (\<lambda>n. Inr (n, with_items s bs)))"
  by (simp add: PopInt_def PopByteArray_items split: list.split)

lemma NipN_items:
  "NipN i s = (if 0 \<le> i \<and> i < int (length (items s))
     then Inr (with_items s (take (nat i) (items s) @ drop (Suc (nat i)) (items s)))
     else script_err ErrInvalidStackOperation)"
  by (simp add: NipN_def nipN_items)

lemmas stack_items =
  PopByteArray_items PeekByteArray_items nipN_items NipN_items PushByteArray_items PopBool_items
  PopBigNum_items PopInt_items DropN_items DupN_items OverN_items SwapN_items RotN_items
  PickN_items RollN_items Tuck_items Depth_items

subsection \<open>The contract of a stack, and of numbers kept on it\<close>

text \<open>What the handlers rely on when they pop what an earlier opcode pushed.\<close>

locale lifo =
  fixes push :: "bytes \<Rightarrow> 's \<Rightarrow> 's"
    and pop :: "'s \<Rightarrow> (bytes \<times> 's) res"
  assumes pop_push: "pop (push b s) = Inr (b, s)"
    and push_pop: "pop s = Inr (b, s') \<Longrightarrow> push b s' = s"
begin

lemma push_inj: "push a s = push b t \<Longrightarrow> a = b \<and> s = t"
  by (metis pop_push sum.inject(2) prod.inject)

lemma pop_two: "pop (push b (push a s)) = Inr (b, push a s) \<and> pop (push a s) = Inr (a, s)"
  by (simp add: pop_push)

end

locale number_stack = number_codec encode decode val cap + lifo push pop
  for encode :: "'n \<Rightarrow> bytes res" and decode :: "bytes \<Rightarrow> 'n res" and val :: "'n \<Rightarrow> int" and cap :: nat
    and push :: "bytes \<Rightarrow> 's \<Rightarrow> 's" and pop :: "'s \<Rightarrow> (bytes \<times> 's) res" +
  fixes pushN :: "'n \<Rightarrow> 's \<Rightarrow> 's res"
    and popN :: "'s \<Rightarrow> ('n \<times> 's) res"
  assumes pushN_eq: "pushN n s = bindE (encode n) (\<lambda>b. Inr (push b s))"
    and popN_eq: "popN s = bindE (pop s) (\<lambda>(b, s'). bindE (decode b) (\<lambda>n. Inr (n, s')))"
begin

lemma popN_pushN:
  assumes "pushN n s = Inr s'" and "length (enc (val n)) \<le> cap"
  shows "\<exists>m. popN s' = Inr (m, s) \<and> val m = val n"
proof -
  obtain b where b: "encode n = Inr b" "s' = push b s"
    using assms(1) by (auto simp: pushN_eq)
  then have "length b \<le> cap" using encode_sound [OF b(1)] assms(2) by simp
  then obtain m where "decode b = Inr m" "val m = val n"
    using decode_encode [OF b(1)] by blast
  with b show ?thesis by (simp add: popN_eq pop_push)
qed

lemma pushN_popN: "popN s = Inr (n, s') \<Longrightarrow> pushN n s' = Inr s"
proof -
  assume "popN s = Inr (n, s')"
  then obtain b where "pop s = Inr (b, s')" "decode b = Inr n" by (auto simp: popN_eq bindE_Inr_iff)
  then show ?thesis using encode_decode [of b n] push_pop [of s b s'] by (simp add: pushN_eq)
qed

end

interpretation st: lifo PushByteArray PopByteArray
  by unfold_locales (auto simp: PopByteArray_items PushByteArray_items stack_eq_iff split: list.splits)

interpretation bnst: number_stack BigNum_Bytes BigNumFromBytes val maxBigNumLen
  PushByteArray PopByteArray PushBigNum PopBigNum
  by unfold_locales (simp_all add: PushBigNum_def PopBigNum_def)

subsection \<open>Properties\<close>

text \<open>The stack transformations, seen from the top of the stack: dropping, duplicating,
copying over, swapping and rotating blocks of n items, picking, rolling, nipping and tucking
have exactly the effect their comments draw, fail with an invalid stack operation exactly
when the stack is too short (or the count is below one), and lose or duplicate nothing else.\<close>

theorem stack_transformations:
  "DropN n s = (if 1 \<le> n \<and> n \<le> Depth s then Inr (with_items s (drop (nat n) (items s)))
                else script_err ErrInvalidStackOperation) \<and>
   DupN n s = (if 1 \<le> n \<and> n \<le> Depth s then Inr (with_items s (take (nat n) (items s) @ items s))
               else script_err ErrInvalidStackOperation) \<and>
   OverN n s = (if 1 \<le> n \<and> 2 * n \<le> Depth s
                then Inr (with_items s (take (nat n) (drop (nat n) (items s)) @ items s))
                else script_err ErrInvalidStackOperation) \<and>
   SwapN n s = (if 1 \<le> n \<and> 2 * n \<le> Depth s
                then Inr (with_items s (take (nat n) (drop (nat n) (items s)) @ take (nat n) (items s)
                                        @ drop (2 * nat n) (items s)))
                else script_err ErrInvalidStackOperation) \<and>
   RotN n s = (if 1 \<le> n \<and> 3 * n \<le> Depth s
               then Inr (with_items s (take (nat n) (drop (2 * nat n) (items s))
                                       @ take (2 * nat n) (items s) @ drop (3 * nat n) (items s)))
               else script_err ErrInvalidStackOperation) \<and>
   PickN i s = (if 0 \<le> i \<and> i < Depth s then Inr (with_items s (items s ! nat i # items s))
                else script_err ErrInvalidStackOperation) \<and>
   RollN i s = (if 0 \<le> i \<and> i < Depth s
                then Inr (with_items s (items s ! nat i # take (nat i) (items s)
                                        @ drop (Suc (nat i)) (items s)))
                else script_err ErrInvalidStackOperation) \<and>
   NipN i s = (if 0 \<le> i \<and> i < Depth s
               then Inr (with_items s (take (nat i) (items s) @ drop (Suc (nat i)) (items s)))
               else script_err ErrInvalidStackOperation) \<and>
   Tuck s = (case items s of a # b # r \<Rightarrow> Inr (with_items s (a # b # a # r))
             | _ \<Rightarrow> script_err ErrInvalidStackOperation)"
  unfolding Depth_items
  by (intro conjI; (rule DropN_items DupN_items OverN_items SwapN_items RotN_items PickN_items
      RollN_items NipN_items Tuck_items))

text \<open>A number pushed as a BigNum and popped again is the same integer with the rest of
the stack untouched, a popped number pushed back restores the stack exactly, and an item
read as a boolean is true exactly when it is not an encoding of zero.\<close>

theorem stack_numbers_roundtrip:
  "(PushBigNum n s = Inr s' \<longrightarrow> (\<exists>m. PopBigNum s' = Inr (m, s) \<and> val m = val n)) \<and>
   (PopBigNum t = Inr (k, t') \<longrightarrow> PushBigNum k t' = Inr t) \<and>
   (PopBigNum t = Inr (k, t') \<longrightarrow> PopBool t = Inr (val k \<noteq> 0, t'))"
proof -
  have "PopBool t = Inr (val k \<noteq> 0, t')" if "PopBigNum t = Inr (k, t')"
    using that BigNumFromBytes_val
    by (auto simp: PopBigNum_items PopBool_items asBool_iff split: list.splits)
  moreover have "\<exists>m. PopBigNum s' = Inr (m, s) \<and> val m = val n" if "PushBigNum n s = Inr s'"
  proof (rule bnst.popN_pushN [OF that])
    show "length (enc (val n)) \<le> maxBigNumLen"
      using that by (auto simp: PushBigNum_def BigNum_Bytes_eq split: if_splits)
  qed
  ultimately show ?thesis using bnst.pushN_popN [of t k t'] by blast
qed

theorem stack_numbers_roundtrip_witness:
  "\<exists>m. PopBigNum \<lparr>stk = [[7], [0x81]], verifyMinimalData = True\<rparr>
         = Inr (m, \<lparr>stk = [[7]], verifyMinimalData = True\<rparr>) \<and> val m = -1"
proof -
  have "PushBigNum (Small (-1)) \<lparr>stk = [[7]], verifyMinimalData = True\<rparr>
        = Inr \<lparr>stk = [[7], [0x81]], verifyMinimalData = True\<rparr>" by code_simp
  then show ?thesis
    using stack_numbers_roundtrip [of "Small (-1)" "\<lparr>stk = [[7]], verifyMinimalData = True\<rparr>"
        "\<lparr>stk = [[7], [0x81]], verifyMinimalData = True\<rparr>"] by simp
qed

end
