(* ===== verification/Opcodes.thy ===== *)
theory Opcodes
imports Prelude
begin

text \<open>Model of the opcode table of pkg/arkade/opcode.go: the opcode constants, the opcode
record and opcodeArray.  The handler of an entry is a tag here (F_X stands for the Go
function opcodeX, grouped by the theory that models it); the handler theories map each tag to the definition of that handler, as
the Go table breaks the same cycle through opcodeArrayRef.\<close>

subsection \<open>Opcode values\<close>

abbreviation OP_0 :: byte where "OP_0 \<equiv> 0x00"
abbreviation OP_FALSE :: byte where "OP_FALSE \<equiv> 0x00"
abbreviation OP_DATA_1 :: byte where "OP_DATA_1 \<equiv> 0x01"
abbreviation OP_DATA_2 :: byte where "OP_DATA_2 \<equiv> 0x02"
abbreviation OP_DATA_3 :: byte where "OP_DATA_3 \<equiv> 0x03"
abbreviation OP_DATA_4 :: byte where "OP_DATA_4 \<equiv> 0x04"
abbreviation OP_DATA_5 :: byte where "OP_DATA_5 \<equiv> 0x05"
abbreviation OP_DATA_6 :: byte where "OP_DATA_6 \<equiv> 0x06"
abbreviation OP_DATA_7 :: byte where "OP_DATA_7 \<equiv> 0x07"
abbreviation OP_DATA_8 :: byte where "OP_DATA_8 \<equiv> 0x08"
abbreviation OP_DATA_9 :: byte where "OP_DATA_9 \<equiv> 0x09"
abbreviation OP_DATA_10 :: byte where "OP_DATA_10 \<equiv> 0x0a"
abbreviation OP_DATA_11 :: byte where "OP_DATA_11 \<equiv> 0x0b"
abbreviation OP_DATA_12 :: byte where "OP_DATA_12 \<equiv> 0x0c"
abbreviation OP_DATA_13 :: byte where "OP_DATA_13 \<equiv> 0x0d"
abbreviation OP_DATA_14 :: byte where "OP_DATA_14 \<equiv> 0x0e"
abbreviation OP_DATA_15 :: byte where "OP_DATA_15 \<equiv> 0x0f"
abbreviation OP_DATA_16 :: byte where "OP_DATA_16 \<equiv> 0x10"
abbreviation OP_DATA_17 :: byte where "OP_DATA_17 \<equiv> 0x11"
abbreviation OP_DATA_18 :: byte where "OP_DATA_18 \<equiv> 0x12"
abbreviation OP_DATA_19 :: byte where "OP_DATA_19 \<equiv> 0x13"
abbreviation OP_DATA_20 :: byte where "OP_DATA_20 \<equiv> 0x14"
abbreviation OP_DATA_21 :: byte where "OP_DATA_21 \<equiv> 0x15"
abbreviation OP_DATA_22 :: byte where "OP_DATA_22 \<equiv> 0x16"
abbreviation OP_DATA_23 :: byte where "OP_DATA_23 \<equiv> 0x17"
abbreviation OP_DATA_24 :: byte where "OP_DATA_24 \<equiv> 0x18"
abbreviation OP_DATA_25 :: byte where "OP_DATA_25 \<equiv> 0x19"
abbreviation OP_DATA_26 :: byte where "OP_DATA_26 \<equiv> 0x1a"
abbreviation OP_DATA_27 :: byte where "OP_DATA_27 \<equiv> 0x1b"
abbreviation OP_DATA_28 :: byte where "OP_DATA_28 \<equiv> 0x1c"
abbreviation OP_DATA_29 :: byte where "OP_DATA_29 \<equiv> 0x1d"
abbreviation OP_DATA_30 :: byte where "OP_DATA_30 \<equiv> 0x1e"
abbreviation OP_DATA_31 :: byte where "OP_DATA_31 \<equiv> 0x1f"
abbreviation OP_DATA_32 :: byte where "OP_DATA_32 \<equiv> 0x20"
abbreviation OP_DATA_33 :: byte where "OP_DATA_33 \<equiv> 0x21"
abbreviation OP_DATA_34 :: byte where "OP_DATA_34 \<equiv> 0x22"
abbreviation OP_DATA_35 :: byte where "OP_DATA_35 \<equiv> 0x23"
abbreviation OP_DATA_36 :: byte where "OP_DATA_36 \<equiv> 0x24"
abbreviation OP_DATA_37 :: byte where "OP_DATA_37 \<equiv> 0x25"
abbreviation OP_DATA_38 :: byte where "OP_DATA_38 \<equiv> 0x26"
abbreviation OP_DATA_39 :: byte where "OP_DATA_39 \<equiv> 0x27"
abbreviation OP_DATA_40 :: byte where "OP_DATA_40 \<equiv> 0x28"
abbreviation OP_DATA_41 :: byte where "OP_DATA_41 \<equiv> 0x29"
abbreviation OP_DATA_42 :: byte where "OP_DATA_42 \<equiv> 0x2a"
abbreviation OP_DATA_43 :: byte where "OP_DATA_43 \<equiv> 0x2b"
abbreviation OP_DATA_44 :: byte where "OP_DATA_44 \<equiv> 0x2c"
abbreviation OP_DATA_45 :: byte where "OP_DATA_45 \<equiv> 0x2d"
abbreviation OP_DATA_46 :: byte where "OP_DATA_46 \<equiv> 0x2e"
abbreviation OP_DATA_47 :: byte where "OP_DATA_47 \<equiv> 0x2f"
abbreviation OP_DATA_48 :: byte where "OP_DATA_48 \<equiv> 0x30"
abbreviation OP_DATA_49 :: byte where "OP_DATA_49 \<equiv> 0x31"
abbreviation OP_DATA_50 :: byte where "OP_DATA_50 \<equiv> 0x32"
abbreviation OP_DATA_51 :: byte where "OP_DATA_51 \<equiv> 0x33"
abbreviation OP_DATA_52 :: byte where "OP_DATA_52 \<equiv> 0x34"
abbreviation OP_DATA_53 :: byte where "OP_DATA_53 \<equiv> 0x35"
abbreviation OP_DATA_54 :: byte where "OP_DATA_54 \<equiv> 0x36"
abbreviation OP_DATA_55 :: byte where "OP_DATA_55 \<equiv> 0x37"
abbreviation OP_DATA_56 :: byte where "OP_DATA_56 \<equiv> 0x38"
abbreviation OP_DATA_57 :: byte where "OP_DATA_57 \<equiv> 0x39"
abbreviation OP_DATA_58 :: byte where "OP_DATA_58 \<equiv> 0x3a"
abbreviation OP_DATA_59 :: byte where "OP_DATA_59 \<equiv> 0x3b"
abbreviation OP_DATA_60 :: byte where "OP_DATA_60 \<equiv> 0x3c"
abbreviation OP_DATA_61 :: byte where "OP_DATA_61 \<equiv> 0x3d"
abbreviation OP_DATA_62 :: byte where "OP_DATA_62 \<equiv> 0x3e"
abbreviation OP_DATA_63 :: byte where "OP_DATA_63 \<equiv> 0x3f"
abbreviation OP_DATA_64 :: byte where "OP_DATA_64 \<equiv> 0x40"
abbreviation OP_DATA_65 :: byte where "OP_DATA_65 \<equiv> 0x41"
abbreviation OP_DATA_66 :: byte where "OP_DATA_66 \<equiv> 0x42"
abbreviation OP_DATA_67 :: byte where "OP_DATA_67 \<equiv> 0x43"
abbreviation OP_DATA_68 :: byte where "OP_DATA_68 \<equiv> 0x44"
abbreviation OP_DATA_69 :: byte where "OP_DATA_69 \<equiv> 0x45"
abbreviation OP_DATA_70 :: byte where "OP_DATA_70 \<equiv> 0x46"
abbreviation OP_DATA_71 :: byte where "OP_DATA_71 \<equiv> 0x47"
abbreviation OP_DATA_72 :: byte where "OP_DATA_72 \<equiv> 0x48"
abbreviation OP_DATA_73 :: byte where "OP_DATA_73 \<equiv> 0x49"
abbreviation OP_DATA_74 :: byte where "OP_DATA_74 \<equiv> 0x4a"
abbreviation OP_DATA_75 :: byte where "OP_DATA_75 \<equiv> 0x4b"
abbreviation OP_PUSHDATA1 :: byte where "OP_PUSHDATA1 \<equiv> 0x4c"
abbreviation OP_PUSHDATA2 :: byte where "OP_PUSHDATA2 \<equiv> 0x4d"
abbreviation OP_PUSHDATA4 :: byte where "OP_PUSHDATA4 \<equiv> 0x4e"
abbreviation OP_1NEGATE :: byte where "OP_1NEGATE \<equiv> 0x4f"
abbreviation OP_RESERVED :: byte where "OP_RESERVED \<equiv> 0x50"
abbreviation OP_1 :: byte where "OP_1 \<equiv> 0x51"
abbreviation OP_TRUE :: byte where "OP_TRUE \<equiv> 0x51"
abbreviation OP_2 :: byte where "OP_2 \<equiv> 0x52"
abbreviation OP_3 :: byte where "OP_3 \<equiv> 0x53"
abbreviation OP_4 :: byte where "OP_4 \<equiv> 0x54"
abbreviation OP_5 :: byte where "OP_5 \<equiv> 0x55"
abbreviation OP_6 :: byte where "OP_6 \<equiv> 0x56"
abbreviation OP_7 :: byte where "OP_7 \<equiv> 0x57"
abbreviation OP_8 :: byte where "OP_8 \<equiv> 0x58"
abbreviation OP_9 :: byte where "OP_9 \<equiv> 0x59"
abbreviation OP_10 :: byte where "OP_10 \<equiv> 0x5a"
abbreviation OP_11 :: byte where "OP_11 \<equiv> 0x5b"
abbreviation OP_12 :: byte where "OP_12 \<equiv> 0x5c"
abbreviation OP_13 :: byte where "OP_13 \<equiv> 0x5d"
abbreviation OP_14 :: byte where "OP_14 \<equiv> 0x5e"
abbreviation OP_15 :: byte where "OP_15 \<equiv> 0x5f"
abbreviation OP_16 :: byte where "OP_16 \<equiv> 0x60"
abbreviation OP_NOP :: byte where "OP_NOP \<equiv> 0x61"
abbreviation OP_VER :: byte where "OP_VER \<equiv> 0x62"
abbreviation OP_IF :: byte where "OP_IF \<equiv> 0x63"
abbreviation OP_NOTIF :: byte where "OP_NOTIF \<equiv> 0x64"
abbreviation OP_VERIF :: byte where "OP_VERIF \<equiv> 0x65"
abbreviation OP_VERNOTIF :: byte where "OP_VERNOTIF \<equiv> 0x66"
abbreviation OP_ELSE :: byte where "OP_ELSE \<equiv> 0x67"
abbreviation OP_ENDIF :: byte where "OP_ENDIF \<equiv> 0x68"
abbreviation OP_VERIFY :: byte where "OP_VERIFY \<equiv> 0x69"
abbreviation OP_RETURN :: byte where "OP_RETURN \<equiv> 0x6a"
abbreviation OP_TOALTSTACK :: byte where "OP_TOALTSTACK \<equiv> 0x6b"
abbreviation OP_FROMALTSTACK :: byte where "OP_FROMALTSTACK \<equiv> 0x6c"
abbreviation OP_2DROP :: byte where "OP_2DROP \<equiv> 0x6d"
abbreviation OP_2DUP :: byte where "OP_2DUP \<equiv> 0x6e"
abbreviation OP_3DUP :: byte where "OP_3DUP \<equiv> 0x6f"
abbreviation OP_2OVER :: byte where "OP_2OVER \<equiv> 0x70"
abbreviation OP_2ROT :: byte where "OP_2ROT \<equiv> 0x71"
abbreviation OP_2SWAP :: byte where "OP_2SWAP \<equiv> 0x72"
abbreviation OP_IFDUP :: byte where "OP_IFDUP \<equiv> 0x73"
abbreviation OP_DEPTH :: byte where "OP_DEPTH \<equiv> 0x74"
abbreviation OP_DROP :: byte where "OP_DROP \<equiv> 0x75"
abbreviation OP_DUP :: byte where "OP_DUP \<equiv> 0x76"
abbreviation OP_NIP :: byte where "OP_NIP \<equiv> 0x77"
abbreviation OP_OVER :: byte where "OP_OVER \<equiv> 0x78"
abbreviation OP_PICK :: byte where "OP_PICK \<equiv> 0x79"
abbreviation OP_ROLL :: byte where "OP_ROLL \<equiv> 0x7a"
abbreviation OP_ROT :: byte where "OP_ROT \<equiv> 0x7b"
abbreviation OP_SWAP :: byte where "OP_SWAP \<equiv> 0x7c"
abbreviation OP_TUCK :: byte where "OP_TUCK \<equiv> 0x7d"
abbreviation OP_CAT :: byte where "OP_CAT \<equiv> 0x7e"
abbreviation OP_SUBSTR :: byte where "OP_SUBSTR \<equiv> 0x7f"
abbreviation OP_LEFT :: byte where "OP_LEFT \<equiv> 0x80"
abbreviation OP_RIGHT :: byte where "OP_RIGHT \<equiv> 0x81"
abbreviation OP_SIZE :: byte where "OP_SIZE \<equiv> 0x82"
abbreviation OP_INVERT :: byte where "OP_INVERT \<equiv> 0x83"
abbreviation OP_AND :: byte where "OP_AND \<equiv> 0x84"
abbreviation OP_OR :: byte where "OP_OR \<equiv> 0x85"
abbreviation OP_XOR :: byte where "OP_XOR \<equiv> 0x86"
abbreviation OP_EQUAL :: byte where "OP_EQUAL \<equiv> 0x87"
abbreviation OP_EQUALVERIFY :: byte where "OP_EQUALVERIFY \<equiv> 0x88"
abbreviation OP_RESERVED1 :: byte where "OP_RESERVED1 \<equiv> 0x89"
abbreviation OP_RESERVED2 :: byte where "OP_RESERVED2 \<equiv> 0x8a"
abbreviation OP_1ADD :: byte where "OP_1ADD \<equiv> 0x8b"
abbreviation OP_1SUB :: byte where "OP_1SUB \<equiv> 0x8c"
abbreviation OP_2MUL :: byte where "OP_2MUL \<equiv> 0x8d"
abbreviation OP_2DIV :: byte where "OP_2DIV \<equiv> 0x8e"
abbreviation OP_NEGATE :: byte where "OP_NEGATE \<equiv> 0x8f"
abbreviation OP_ABS :: byte where "OP_ABS \<equiv> 0x90"
abbreviation OP_NOT :: byte where "OP_NOT \<equiv> 0x91"
abbreviation OP_0NOTEQUAL :: byte where "OP_0NOTEQUAL \<equiv> 0x92"
abbreviation OP_ADD :: byte where "OP_ADD \<equiv> 0x93"
abbreviation OP_SUB :: byte where "OP_SUB \<equiv> 0x94"
abbreviation OP_MUL :: byte where "OP_MUL \<equiv> 0x95"
abbreviation OP_DIV :: byte where "OP_DIV \<equiv> 0x96"
abbreviation OP_MOD :: byte where "OP_MOD \<equiv> 0x97"
abbreviation OP_LSHIFT :: byte where "OP_LSHIFT \<equiv> 0x98"
abbreviation OP_RSHIFT :: byte where "OP_RSHIFT \<equiv> 0x99"
abbreviation OP_BOOLAND :: byte where "OP_BOOLAND \<equiv> 0x9a"
abbreviation OP_BOOLOR :: byte where "OP_BOOLOR \<equiv> 0x9b"
abbreviation OP_NUMEQUAL :: byte where "OP_NUMEQUAL \<equiv> 0x9c"
abbreviation OP_NUMEQUALVERIFY :: byte where "OP_NUMEQUALVERIFY \<equiv> 0x9d"
abbreviation OP_NUMNOTEQUAL :: byte where "OP_NUMNOTEQUAL \<equiv> 0x9e"
abbreviation OP_LESSTHAN :: byte where "OP_LESSTHAN \<equiv> 0x9f"
abbreviation OP_GREATERTHAN :: byte where "OP_GREATERTHAN \<equiv> 0xa0"
abbreviation OP_LESSTHANOREQUAL :: byte where "OP_LESSTHANOREQUAL \<equiv> 0xa1"
abbreviation OP_GREATERTHANOREQUAL :: byte where "OP_GREATERTHANOREQUAL \<equiv> 0xa2"
abbreviation OP_MIN :: byte where "OP_MIN \<equiv> 0xa3"
abbreviation OP_MAX :: byte where "OP_MAX \<equiv> 0xa4"
abbreviation OP_WITHIN :: byte where "OP_WITHIN \<equiv> 0xa5"
abbreviation OP_RIPEMD160 :: byte where "OP_RIPEMD160 \<equiv> 0xa6"
abbreviation OP_SHA1 :: byte where "OP_SHA1 \<equiv> 0xa7"
abbreviation OP_SHA256 :: byte where "OP_SHA256 \<equiv> 0xa8"
abbreviation OP_HASH160 :: byte where "OP_HASH160 \<equiv> 0xa9"
abbreviation OP_HASH256 :: byte where "OP_HASH256 \<equiv> 0xaa"
abbreviation OP_CODESEPARATOR :: byte where "OP_CODESEPARATOR \<equiv> 0xab"
abbreviation OP_CHECKSIG :: byte where "OP_CHECKSIG \<equiv> 0xac"
abbreviation OP_CHECKSIGVERIFY :: byte where "OP_CHECKSIGVERIFY \<equiv> 0xad"
abbreviation OP_CHECKMULTISIG :: byte where "OP_CHECKMULTISIG \<equiv> 0xae"
abbreviation OP_CHECKMULTISIGVERIFY :: byte where "OP_CHECKMULTISIGVERIFY \<equiv> 0xaf"
abbreviation OP_NOP1 :: byte where "OP_NOP1 \<equiv> 0xb0"
abbreviation OP_NOP2 :: byte where "OP_NOP2 \<equiv> 0xb1"
abbreviation OP_CHECKLOCKTIMEVERIFY :: byte where "OP_CHECKLOCKTIMEVERIFY \<equiv> 0xb1"
abbreviation OP_NOP3 :: byte where "OP_NOP3 \<equiv> 0xb2"
abbreviation OP_CHECKSEQUENCEVERIFY :: byte where "OP_CHECKSEQUENCEVERIFY \<equiv> 0xb2"
abbreviation OP_MERKLEBRANCHVERIFY :: byte where "OP_MERKLEBRANCHVERIFY \<equiv> 0xb3"
abbreviation OP_NOP5 :: byte where "OP_NOP5 \<equiv> 0xb4"
abbreviation OP_NOP6 :: byte where "OP_NOP6 \<equiv> 0xb5"
abbreviation OP_NOP7 :: byte where "OP_NOP7 \<equiv> 0xb6"
abbreviation OP_NOP8 :: byte where "OP_NOP8 \<equiv> 0xb7"
abbreviation OP_NOP9 :: byte where "OP_NOP9 \<equiv> 0xb8"
abbreviation OP_NOP10 :: byte where "OP_NOP10 \<equiv> 0xb9"
abbreviation OP_CHECKSIGADD :: byte where "OP_CHECKSIGADD \<equiv> 0xba"
abbreviation OP_UNKNOWN187 :: byte where "OP_UNKNOWN187 \<equiv> 0xbb"
abbreviation OP_UNKNOWN188 :: byte where "OP_UNKNOWN188 \<equiv> 0xbc"
abbreviation OP_UNKNOWN189 :: byte where "OP_UNKNOWN189 \<equiv> 0xbd"
abbreviation OP_UNKNOWN190 :: byte where "OP_UNKNOWN190 \<equiv> 0xbe"
abbreviation OP_UNKNOWN191 :: byte where "OP_UNKNOWN191 \<equiv> 0xbf"
abbreviation OP_UNKNOWN192 :: byte where "OP_UNKNOWN192 \<equiv> 0xc0"
abbreviation OP_UNKNOWN193 :: byte where "OP_UNKNOWN193 \<equiv> 0xc1"
abbreviation OP_UNKNOWN194 :: byte where "OP_UNKNOWN194 \<equiv> 0xc2"
abbreviation OP_DIGEST :: byte where "OP_DIGEST \<equiv> 0xc3"
abbreviation OP_SHA256INITIALIZE :: byte where "OP_SHA256INITIALIZE \<equiv> 0xc4"
abbreviation OP_SHA256UPDATE :: byte where "OP_SHA256UPDATE \<equiv> 0xc5"
abbreviation OP_SHA256FINALIZE :: byte where "OP_SHA256FINALIZE \<equiv> 0xc6"
abbreviation OP_INSPECTINPUTOUTPOINT :: byte where "OP_INSPECTINPUTOUTPOINT \<equiv> 0xc7"
abbreviation OP_INSPECTINPUTARKADESCRIPTHASH :: byte where "OP_INSPECTINPUTARKADESCRIPTHASH \<equiv> 0xc8"
abbreviation OP_INSPECTINPUTVALUE :: byte where "OP_INSPECTINPUTVALUE \<equiv> 0xc9"
abbreviation OP_INSPECTINPUTSCRIPTPUBKEY :: byte where "OP_INSPECTINPUTSCRIPTPUBKEY \<equiv> 0xca"
abbreviation OP_INSPECTINPUTSEQUENCE :: byte where "OP_INSPECTINPUTSEQUENCE \<equiv> 0xcb"
abbreviation OP_CHECKSIGFROMSTACK :: byte where "OP_CHECKSIGFROMSTACK \<equiv> 0xcc"
abbreviation OP_PUSHCURRENTINPUTINDEX :: byte where "OP_PUSHCURRENTINPUTINDEX \<equiv> 0xcd"
abbreviation OP_INSPECTINPUTARKADEWITNESSHASH :: byte where "OP_INSPECTINPUTARKADEWITNESSHASH \<equiv> 0xce"
abbreviation OP_INSPECTOUTPUTVALUE :: byte where "OP_INSPECTOUTPUTVALUE \<equiv> 0xcf"
abbreviation OP_UNKNOWN208 :: byte where "OP_UNKNOWN208 \<equiv> 0xd0"
abbreviation OP_INSPECTOUTPUTSCRIPTPUBKEY :: byte where "OP_INSPECTOUTPUTSCRIPTPUBKEY \<equiv> 0xd1"
abbreviation OP_INSPECTVERSION :: byte where "OP_INSPECTVERSION \<equiv> 0xd2"
abbreviation OP_INSPECTLOCKTIME :: byte where "OP_INSPECTLOCKTIME \<equiv> 0xd3"
abbreviation OP_INSPECTNUMINPUTS :: byte where "OP_INSPECTNUMINPUTS \<equiv> 0xd4"
abbreviation OP_INSPECTNUMOUTPUTS :: byte where "OP_INSPECTNUMOUTPUTS \<equiv> 0xd5"
abbreviation OP_TXWEIGHT :: byte where "OP_TXWEIGHT \<equiv> 0xd6"
abbreviation OP_NUM2BIN :: byte where "OP_NUM2BIN \<equiv> 0xd7"
abbreviation OP_BIN2NUM :: byte where "OP_BIN2NUM \<equiv> 0xd8"
abbreviation OP_REVERSEBYTES :: byte where "OP_REVERSEBYTES \<equiv> 0xd9"
abbreviation OP_MODEXP :: byte where "OP_MODEXP \<equiv> 0xda"
abbreviation OP_UNKNOWN219 :: byte where "OP_UNKNOWN219 \<equiv> 0xdb"
abbreviation OP_UNKNOWN220 :: byte where "OP_UNKNOWN220 \<equiv> 0xdc"
abbreviation OP_UNKNOWN221 :: byte where "OP_UNKNOWN221 \<equiv> 0xdd"
abbreviation OP_UNKNOWN222 :: byte where "OP_UNKNOWN222 \<equiv> 0xde"
abbreviation OP_UNKNOWN223 :: byte where "OP_UNKNOWN223 \<equiv> 0xdf"
abbreviation OP_ECADD :: byte where "OP_ECADD \<equiv> 0xe0"
abbreviation OP_ECMUL :: byte where "OP_ECMUL \<equiv> 0xe1"
abbreviation OP_ECPAIRING :: byte where "OP_ECPAIRING \<equiv> 0xe2"
abbreviation OP_ECMULSCALARVERIFY :: byte where "OP_ECMULSCALARVERIFY \<equiv> 0xe3"
abbreviation OP_TWEAKVERIFY :: byte where "OP_TWEAKVERIFY \<equiv> 0xe4"
abbreviation OP_INSPECTNUMASSETGROUPS :: byte where "OP_INSPECTNUMASSETGROUPS \<equiv> 0xe5"
abbreviation OP_INSPECTASSETGROUPASSETID :: byte where "OP_INSPECTASSETGROUPASSETID \<equiv> 0xe6"
abbreviation OP_INSPECTASSETGROUPCTRL :: byte where "OP_INSPECTASSETGROUPCTRL \<equiv> 0xe7"
abbreviation OP_FINDASSETGROUPBYASSETID :: byte where "OP_FINDASSETGROUPBYASSETID \<equiv> 0xe8"
abbreviation OP_INSPECTASSETGROUPMETADATAHASH :: byte where "OP_INSPECTASSETGROUPMETADATAHASH \<equiv> 0xe9"
abbreviation OP_INSPECTASSETGROUPNUM :: byte where "OP_INSPECTASSETGROUPNUM \<equiv> 0xea"
abbreviation OP_INSPECTASSETGROUP :: byte where "OP_INSPECTASSETGROUP \<equiv> 0xeb"
abbreviation OP_INSPECTASSETGROUPSUM :: byte where "OP_INSPECTASSETGROUPSUM \<equiv> 0xec"
abbreviation OP_INSPECTOUTASSETCOUNT :: byte where "OP_INSPECTOUTASSETCOUNT \<equiv> 0xed"
abbreviation OP_INSPECTOUTASSETAT :: byte where "OP_INSPECTOUTASSETAT \<equiv> 0xee"
abbreviation OP_INSPECTOUTASSETLOOKUP :: byte where "OP_INSPECTOUTASSETLOOKUP \<equiv> 0xef"
abbreviation OP_INSPECTINASSETCOUNT :: byte where "OP_INSPECTINASSETCOUNT \<equiv> 0xf0"
abbreviation OP_INSPECTINASSETAT :: byte where "OP_INSPECTINASSETAT \<equiv> 0xf1"
abbreviation OP_INSPECTINASSETLOOKUP :: byte where "OP_INSPECTINASSETLOOKUP \<equiv> 0xf2"
abbreviation OP_TXID :: byte where "OP_TXID \<equiv> 0xf3"
abbreviation OP_INSPECTPACKET :: byte where "OP_INSPECTPACKET \<equiv> 0xf4"
abbreviation OP_INSPECTINPUTPACKET :: byte where "OP_INSPECTINPUTPACKET \<equiv> 0xf5"
abbreviation OP_SIGHASH :: byte where "OP_SIGHASH \<equiv> 0xf6"
abbreviation OP_UNKNOWN247 :: byte where "OP_UNKNOWN247 \<equiv> 0xf7"
abbreviation OP_UNKNOWN248 :: byte where "OP_UNKNOWN248 \<equiv> 0xf8"
abbreviation OP_UNKNOWN249 :: byte where "OP_UNKNOWN249 \<equiv> 0xf9"
abbreviation OP_SMALLINTEGER :: byte where "OP_SMALLINTEGER \<equiv> 0xfa"
abbreviation OP_PUBKEYS :: byte where "OP_PUBKEYS \<equiv> 0xfb"
abbreviation OP_UNKNOWN252 :: byte where "OP_UNKNOWN252 \<equiv> 0xfc"
abbreviation OP_PUBKEYHASH :: byte where "OP_PUBKEYHASH \<equiv> 0xfd"
abbreviation OP_PUBKEY :: byte where "OP_PUBKEY \<equiv> 0xfe"
abbreviation OP_INVALIDOPCODE :: byte where "OP_INVALIDOPCODE \<equiv> 0xff"

subsection \<open>The opcode record and the handlers\<close>

datatype (plugins only: code size) control_fn =
    F_False | F_PushData | F_1Negate | F_Reserved | F_N
  | F_Nop | F_If | F_NotIf | F_Else | F_Endif
  | F_Verify | F_Return | F_CheckLockTimeVerify | F_CheckSequenceVerify | F_Invalid

datatype (plugins only: code size) stack_fn =
    F_ToAltStack | F_FromAltStack | F_2Drop | F_2Dup | F_3Dup
  | F_2Over | F_2Rot | F_2Swap | F_IfDup | F_Depth
  | F_Drop | F_Dup | F_Nip | F_Over | F_Pick
  | F_Roll | F_Rot | F_Swap | F_Tuck

datatype (plugins only: code size) bytes_fn =
    F_Cat | F_Substr | F_Left | F_Right | F_Size
  | F_Invert | F_And | F_Or | F_Xor | F_Equal
  | F_EqualVerify | F_Num2Bin | F_Bin2Num | F_ReverseBytes

datatype (plugins only: code size) num_fn =
    F_1Add | F_1Sub | F_2Mul | F_2Div | F_Negate
  | F_Abs | F_Not | F_0NotEqual | F_Add | F_Sub
  | F_Mul | F_Div | F_Mod | F_Lshift | F_Rshift
  | F_BoolAnd | F_BoolOr | F_NumEqual | F_NumEqualVerify | F_NumNotEqual
  | F_LessThan | F_GreaterThan | F_LessThanOrEqual | F_GreaterThanOrEqual | F_Min
  | F_Max | F_Within | F_Modexp

datatype (plugins only: code size) crypto_fn =
    F_Ripemd160 | F_Sha1 | F_Sha256 | F_Hash160 | F_Hash256
  | F_Digest | F_CodeSeparator | F_CheckSig | F_CheckSigVerify | F_CheckMultiSig
  | F_CheckMultiSigVerify | F_CheckSigAdd | F_ChecksigFromStack | F_MerkleBranchVerify | F_Sha256Initialize
  | F_Sha256Update | F_Sha256Finalize | F_Sighash

datatype (plugins only: code size) intro_fn =
    F_InspectInputOutpoint | F_InspectInputArkadeScriptHash | F_InspectInputValue | F_InspectInputScriptPubkey | F_InspectInputSequence
  | F_PushCurrentInputIndex | F_InspectInputArkadeWitnessHash | F_InspectOutputValue | F_InspectOutputScriptPubkey | F_InspectVersion
  | F_InspectLocktime | F_InspectNumInputs | F_InspectNumOutputs | F_TxWeight | F_TxId
  | F_InspectPacket | F_InspectInputPacket

datatype (plugins only: code size) asset_fn =
    F_InspectNumAssetGroups | F_InspectAssetGroupAssetId | F_InspectAssetGroupCtrl | F_FindAssetGroupByAssetId | F_InspectAssetGroupMetadataHash
  | F_InspectAssetGroupNum | F_InspectAssetGroup | F_InspectAssetGroupSum | F_InspectOutAssetCount | F_InspectOutAssetAt
  | F_InspectOutAssetLookup | F_InspectInAssetCount | F_InspectInAssetAt | F_InspectInAssetLookup

datatype (plugins only: code size) ec_fn =
    F_ECAdd | F_ECMul | F_ECPairing | F_ECMulScalarVerify | F_TweakVerify

datatype (plugins only: code size) opfunc =
    Control control_fn | Stack stack_fn | Bytes bytes_fn | Num num_fn
  | Crypto crypto_fn | Intro intro_fn | Asset asset_fn | EC ec_fn

record opcode =
  op_value :: byte
  op_name :: string
  op_length :: int
  op_func :: opfunc

definition ent :: "byte \<Rightarrow> byte \<Rightarrow> string \<Rightarrow> int \<Rightarrow> opfunc \<Rightarrow> byte \<times> opcode" where
  "ent key v name len f = (key, \<lparr>op_value = v, op_name = name, op_length = len, op_func = f\<rparr>)"

subsection \<open>opcodeArray\<close>

text \<open>The keyed entries of the array literal, in the order of the source.\<close>

definition opcode_entries_1 :: "(byte \<times> opcode) list" where
  "opcode_entries_1 =
    [ent OP_FALSE OP_FALSE ''OP_0'' 1 (Control F_False),
     ent OP_DATA_1 OP_DATA_1 ''OP_DATA_1'' 2 (Control F_PushData),
     ent OP_DATA_2 OP_DATA_2 ''OP_DATA_2'' 3 (Control F_PushData),
     ent OP_DATA_3 OP_DATA_3 ''OP_DATA_3'' 4 (Control F_PushData),
     ent OP_DATA_4 OP_DATA_4 ''OP_DATA_4'' 5 (Control F_PushData),
     ent OP_DATA_5 OP_DATA_5 ''OP_DATA_5'' 6 (Control F_PushData),
     ent OP_DATA_6 OP_DATA_6 ''OP_DATA_6'' 7 (Control F_PushData),
     ent OP_DATA_7 OP_DATA_7 ''OP_DATA_7'' 8 (Control F_PushData),
     ent OP_DATA_8 OP_DATA_8 ''OP_DATA_8'' 9 (Control F_PushData),
     ent OP_DATA_9 OP_DATA_9 ''OP_DATA_9'' 10 (Control F_PushData),
     ent OP_DATA_10 OP_DATA_10 ''OP_DATA_10'' 11 (Control F_PushData),
     ent OP_DATA_11 OP_DATA_11 ''OP_DATA_11'' 12 (Control F_PushData),
     ent OP_DATA_12 OP_DATA_12 ''OP_DATA_12'' 13 (Control F_PushData),
     ent OP_DATA_13 OP_DATA_13 ''OP_DATA_13'' 14 (Control F_PushData),
     ent OP_DATA_14 OP_DATA_14 ''OP_DATA_14'' 15 (Control F_PushData),
     ent OP_DATA_15 OP_DATA_15 ''OP_DATA_15'' 16 (Control F_PushData),
     ent OP_DATA_16 OP_DATA_16 ''OP_DATA_16'' 17 (Control F_PushData),
     ent OP_DATA_17 OP_DATA_17 ''OP_DATA_17'' 18 (Control F_PushData),
     ent OP_DATA_18 OP_DATA_18 ''OP_DATA_18'' 19 (Control F_PushData),
     ent OP_DATA_19 OP_DATA_19 ''OP_DATA_19'' 20 (Control F_PushData),
     ent OP_DATA_20 OP_DATA_20 ''OP_DATA_20'' 21 (Control F_PushData),
     ent OP_DATA_21 OP_DATA_21 ''OP_DATA_21'' 22 (Control F_PushData),
     ent OP_DATA_22 OP_DATA_22 ''OP_DATA_22'' 23 (Control F_PushData),
     ent OP_DATA_23 OP_DATA_23 ''OP_DATA_23'' 24 (Control F_PushData),
     ent OP_DATA_24 OP_DATA_24 ''OP_DATA_24'' 25 (Control F_PushData),
     ent OP_DATA_25 OP_DATA_25 ''OP_DATA_25'' 26 (Control F_PushData),
     ent OP_DATA_26 OP_DATA_26 ''OP_DATA_26'' 27 (Control F_PushData),
     ent OP_DATA_27 OP_DATA_27 ''OP_DATA_27'' 28 (Control F_PushData),
     ent OP_DATA_28 OP_DATA_28 ''OP_DATA_28'' 29 (Control F_PushData),
     ent OP_DATA_29 OP_DATA_29 ''OP_DATA_29'' 30 (Control F_PushData),
     ent OP_DATA_30 OP_DATA_30 ''OP_DATA_30'' 31 (Control F_PushData),
     ent OP_DATA_31 OP_DATA_31 ''OP_DATA_31'' 32 (Control F_PushData),
     ent OP_DATA_32 OP_DATA_32 ''OP_DATA_32'' 33 (Control F_PushData),
     ent OP_DATA_33 OP_DATA_33 ''OP_DATA_33'' 34 (Control F_PushData),
     ent OP_DATA_34 OP_DATA_34 ''OP_DATA_34'' 35 (Control F_PushData),
     ent OP_DATA_35 OP_DATA_35 ''OP_DATA_35'' 36 (Control F_PushData),
     ent OP_DATA_36 OP_DATA_36 ''OP_DATA_36'' 37 (Control F_PushData),
     ent OP_DATA_37 OP_DATA_37 ''OP_DATA_37'' 38 (Control F_PushData),
     ent OP_DATA_38 OP_DATA_38 ''OP_DATA_38'' 39 (Control F_PushData),
     ent OP_DATA_39 OP_DATA_39 ''OP_DATA_39'' 40 (Control F_PushData),
     ent OP_DATA_40 OP_DATA_40 ''OP_DATA_40'' 41 (Control F_PushData),
     ent OP_DATA_41 OP_DATA_41 ''OP_DATA_41'' 42 (Control F_PushData),
     ent OP_DATA_42 OP_DATA_42 ''OP_DATA_42'' 43 (Control F_PushData),
     ent OP_DATA_43 OP_DATA_43 ''OP_DATA_43'' 44 (Control F_PushData),
     ent OP_DATA_44 OP_DATA_44 ''OP_DATA_44'' 45 (Control F_PushData),
     ent OP_DATA_45 OP_DATA_45 ''OP_DATA_45'' 46 (Control F_PushData),
     ent OP_DATA_46 OP_DATA_46 ''OP_DATA_46'' 47 (Control F_PushData),
     ent OP_DATA_47 OP_DATA_47 ''OP_DATA_47'' 48 (Control F_PushData),
     ent OP_DATA_48 OP_DATA_48 ''OP_DATA_48'' 49 (Control F_PushData),
     ent OP_DATA_49 OP_DATA_49 ''OP_DATA_49'' 50 (Control F_PushData),
     ent OP_DATA_50 OP_DATA_50 ''OP_DATA_50'' 51 (Control F_PushData),
     ent OP_DATA_51 OP_DATA_51 ''OP_DATA_51'' 52 (Control F_PushData),
     ent OP_DATA_52 OP_DATA_52 ''OP_DATA_52'' 53 (Control F_PushData),
     ent OP_DATA_53 OP_DATA_53 ''OP_DATA_53'' 54 (Control F_PushData),
     ent OP_DATA_54 OP_DATA_54 ''OP_DATA_54'' 55 (Control F_PushData),
     ent OP_DATA_55 OP_DATA_55 ''OP_DATA_55'' 56 (Control F_PushData),
     ent OP_DATA_56 OP_DATA_56 ''OP_DATA_56'' 57 (Control F_PushData),
     ent OP_DATA_57 OP_DATA_57 ''OP_DATA_57'' 58 (Control F_PushData),
     ent OP_DATA_58 OP_DATA_58 ''OP_DATA_58'' 59 (Control F_PushData),
     ent OP_DATA_59 OP_DATA_59 ''OP_DATA_59'' 60 (Control F_PushData),
     ent OP_DATA_60 OP_DATA_60 ''OP_DATA_60'' 61 (Control F_PushData),
     ent OP_DATA_61 OP_DATA_61 ''OP_DATA_61'' 62 (Control F_PushData),
     ent OP_DATA_62 OP_DATA_62 ''OP_DATA_62'' 63 (Control F_PushData),
     ent OP_DATA_63 OP_DATA_63 ''OP_DATA_63'' 64 (Control F_PushData),
     ent OP_DATA_64 OP_DATA_64 ''OP_DATA_64'' 65 (Control F_PushData),
     ent OP_DATA_65 OP_DATA_65 ''OP_DATA_65'' 66 (Control F_PushData),
     ent OP_DATA_66 OP_DATA_66 ''OP_DATA_66'' 67 (Control F_PushData),
     ent OP_DATA_67 OP_DATA_67 ''OP_DATA_67'' 68 (Control F_PushData),
     ent OP_DATA_68 OP_DATA_68 ''OP_DATA_68'' 69 (Control F_PushData),
     ent OP_DATA_69 OP_DATA_69 ''OP_DATA_69'' 70 (Control F_PushData),
     ent OP_DATA_70 OP_DATA_70 ''OP_DATA_70'' 71 (Control F_PushData),
     ent OP_DATA_71 OP_DATA_71 ''OP_DATA_71'' 72 (Control F_PushData),
     ent OP_DATA_72 OP_DATA_72 ''OP_DATA_72'' 73 (Control F_PushData),
     ent OP_DATA_73 OP_DATA_73 ''OP_DATA_73'' 74 (Control F_PushData),
     ent OP_DATA_74 OP_DATA_74 ''OP_DATA_74'' 75 (Control F_PushData)]"

definition opcode_entries_2 :: "(byte \<times> opcode) list" where
  "opcode_entries_2 =
    [ent OP_DATA_75 OP_DATA_75 ''OP_DATA_75'' 76 (Control F_PushData),
     ent OP_PUSHDATA1 OP_PUSHDATA1 ''OP_PUSHDATA1'' (-1) (Control F_PushData),
     ent OP_PUSHDATA2 OP_PUSHDATA2 ''OP_PUSHDATA2'' (-2) (Control F_PushData),
     ent OP_PUSHDATA4 OP_PUSHDATA4 ''OP_PUSHDATA4'' (-4) (Control F_PushData),
     ent OP_1NEGATE OP_1NEGATE ''OP_1NEGATE'' 1 (Control F_1Negate),
     ent OP_RESERVED OP_RESERVED ''OP_RESERVED'' 1 (Control F_Reserved),
     ent OP_TRUE OP_TRUE ''OP_1'' 1 (Control F_N),
     ent OP_2 OP_2 ''OP_2'' 1 (Control F_N),
     ent OP_3 OP_3 ''OP_3'' 1 (Control F_N),
     ent OP_4 OP_4 ''OP_4'' 1 (Control F_N),
     ent OP_5 OP_5 ''OP_5'' 1 (Control F_N),
     ent OP_6 OP_6 ''OP_6'' 1 (Control F_N),
     ent OP_7 OP_7 ''OP_7'' 1 (Control F_N),
     ent OP_8 OP_8 ''OP_8'' 1 (Control F_N),
     ent OP_9 OP_9 ''OP_9'' 1 (Control F_N),
     ent OP_10 OP_10 ''OP_10'' 1 (Control F_N),
     ent OP_11 OP_11 ''OP_11'' 1 (Control F_N),
     ent OP_12 OP_12 ''OP_12'' 1 (Control F_N),
     ent OP_13 OP_13 ''OP_13'' 1 (Control F_N),
     ent OP_14 OP_14 ''OP_14'' 1 (Control F_N),
     ent OP_15 OP_15 ''OP_15'' 1 (Control F_N),
     ent OP_16 OP_16 ''OP_16'' 1 (Control F_N),
     ent OP_NOP OP_NOP ''OP_NOP'' 1 (Control F_Nop),
     ent OP_VER OP_VER ''OP_VER'' 1 (Control F_Reserved),
     ent OP_IF OP_IF ''OP_IF'' 1 (Control F_If),
     ent OP_NOTIF OP_NOTIF ''OP_NOTIF'' 1 (Control F_NotIf),
     ent OP_VERIF OP_VERIF ''OP_VERIF'' 1 (Control F_Reserved),
     ent OP_VERNOTIF OP_VERNOTIF ''OP_VERNOTIF'' 1 (Control F_Reserved),
     ent OP_ELSE OP_ELSE ''OP_ELSE'' 1 (Control F_Else),
     ent OP_ENDIF OP_ENDIF ''OP_ENDIF'' 1 (Control F_Endif),
     ent OP_VERIFY OP_VERIFY ''OP_VERIFY'' 1 (Control F_Verify),
     ent OP_RETURN OP_RETURN ''OP_RETURN'' 1 (Control F_Return),
     ent OP_CHECKLOCKTIMEVERIFY OP_CHECKLOCKTIMEVERIFY ''OP_CHECKLOCKTIMEVERIFY'' 1 (Control F_CheckLockTimeVerify),
     ent OP_CHECKSEQUENCEVERIFY OP_CHECKSEQUENCEVERIFY ''OP_CHECKSEQUENCEVERIFY'' 1 (Control F_CheckSequenceVerify),
     ent OP_TOALTSTACK OP_TOALTSTACK ''OP_TOALTSTACK'' 1 (Stack F_ToAltStack),
     ent OP_FROMALTSTACK OP_FROMALTSTACK ''OP_FROMALTSTACK'' 1 (Stack F_FromAltStack),
     ent OP_2DROP OP_2DROP ''OP_2DROP'' 1 (Stack F_2Drop),
     ent OP_2DUP OP_2DUP ''OP_2DUP'' 1 (Stack F_2Dup),
     ent OP_3DUP OP_3DUP ''OP_3DUP'' 1 (Stack F_3Dup),
     ent OP_2OVER OP_2OVER ''OP_2OVER'' 1 (Stack F_2Over),
     ent OP_2ROT OP_2ROT ''OP_2ROT'' 1 (Stack F_2Rot),
     ent OP_2SWAP OP_2SWAP ''OP_2SWAP'' 1 (Stack F_2Swap),
     ent OP_IFDUP OP_IFDUP ''OP_IFDUP'' 1 (Stack F_IfDup),
     ent OP_DEPTH OP_DEPTH ''OP_DEPTH'' 1 (Stack F_Depth),
     ent OP_DROP OP_DROP ''OP_DROP'' 1 (Stack F_Drop),
     ent OP_DUP OP_DUP ''OP_DUP'' 1 (Stack F_Dup),
     ent OP_NIP OP_NIP ''OP_NIP'' 1 (Stack F_Nip),
     ent OP_OVER OP_OVER ''OP_OVER'' 1 (Stack F_Over),
     ent OP_PICK OP_PICK ''OP_PICK'' 1 (Stack F_Pick),
     ent OP_ROLL OP_ROLL ''OP_ROLL'' 1 (Stack F_Roll),
     ent OP_ROT OP_ROT ''OP_ROT'' 1 (Stack F_Rot),
     ent OP_SWAP OP_SWAP ''OP_SWAP'' 1 (Stack F_Swap),
     ent OP_TUCK OP_TUCK ''OP_TUCK'' 1 (Stack F_Tuck),
     ent OP_CAT OP_CAT ''OP_CAT'' 1 (Bytes F_Cat),
     ent OP_SUBSTR OP_SUBSTR ''OP_SUBSTR'' 1 (Bytes F_Substr),
     ent OP_LEFT OP_LEFT ''OP_LEFT'' 1 (Bytes F_Left),
     ent OP_RIGHT OP_RIGHT ''OP_RIGHT'' 1 (Bytes F_Right),
     ent OP_SIZE OP_SIZE ''OP_SIZE'' 1 (Bytes F_Size),
     ent OP_INVERT OP_INVERT ''OP_INVERT'' 1 (Bytes F_Invert),
     ent OP_AND OP_AND ''OP_AND'' 1 (Bytes F_And),
     ent OP_OR OP_OR ''OP_OR'' 1 (Bytes F_Or),
     ent OP_XOR OP_XOR ''OP_XOR'' 1 (Bytes F_Xor),
     ent OP_EQUAL OP_EQUAL ''OP_EQUAL'' 1 (Bytes F_Equal),
     ent OP_EQUALVERIFY OP_EQUALVERIFY ''OP_EQUALVERIFY'' 1 (Bytes F_EqualVerify),
     ent OP_RESERVED1 OP_RESERVED1 ''OP_RESERVED1'' 1 (Control F_Reserved),
     ent OP_RESERVED2 OP_RESERVED2 ''OP_RESERVED2'' 1 (Control F_Reserved),
     ent OP_1ADD OP_1ADD ''OP_1ADD'' 1 (Num F_1Add),
     ent OP_1SUB OP_1SUB ''OP_1SUB'' 1 (Num F_1Sub),
     ent OP_2MUL OP_2MUL ''OP_2MUL'' 1 (Num F_2Mul),
     ent OP_2DIV OP_2DIV ''OP_2DIV'' 1 (Num F_2Div),
     ent OP_NEGATE OP_NEGATE ''OP_NEGATE'' 1 (Num F_Negate),
     ent OP_ABS OP_ABS ''OP_ABS'' 1 (Num F_Abs),
     ent OP_NOT OP_NOT ''OP_NOT'' 1 (Num F_Not),
     ent OP_0NOTEQUAL OP_0NOTEQUAL ''OP_0NOTEQUAL'' 1 (Num F_0NotEqual),
     ent OP_ADD OP_ADD ''OP_ADD'' 1 (Num F_Add)]"

definition opcode_entries_3 :: "(byte \<times> opcode) list" where
  "opcode_entries_3 =
    [ent OP_SUB OP_SUB ''OP_SUB'' 1 (Num F_Sub),
     ent OP_MUL OP_MUL ''OP_MUL'' 1 (Num F_Mul),
     ent OP_DIV OP_DIV ''OP_DIV'' 1 (Num F_Div),
     ent OP_MOD OP_MOD ''OP_MOD'' 1 (Num F_Mod),
     ent OP_LSHIFT OP_LSHIFT ''OP_LSHIFT'' 1 (Num F_Lshift),
     ent OP_RSHIFT OP_RSHIFT ''OP_RSHIFT'' 1 (Num F_Rshift),
     ent OP_BOOLAND OP_BOOLAND ''OP_BOOLAND'' 1 (Num F_BoolAnd),
     ent OP_BOOLOR OP_BOOLOR ''OP_BOOLOR'' 1 (Num F_BoolOr),
     ent OP_NUMEQUAL OP_NUMEQUAL ''OP_NUMEQUAL'' 1 (Num F_NumEqual),
     ent OP_NUMEQUALVERIFY OP_NUMEQUALVERIFY ''OP_NUMEQUALVERIFY'' 1 (Num F_NumEqualVerify),
     ent OP_NUMNOTEQUAL OP_NUMNOTEQUAL ''OP_NUMNOTEQUAL'' 1 (Num F_NumNotEqual),
     ent OP_LESSTHAN OP_LESSTHAN ''OP_LESSTHAN'' 1 (Num F_LessThan),
     ent OP_GREATERTHAN OP_GREATERTHAN ''OP_GREATERTHAN'' 1 (Num F_GreaterThan),
     ent OP_LESSTHANOREQUAL OP_LESSTHANOREQUAL ''OP_LESSTHANOREQUAL'' 1 (Num F_LessThanOrEqual),
     ent OP_GREATERTHANOREQUAL OP_GREATERTHANOREQUAL ''OP_GREATERTHANOREQUAL'' 1 (Num F_GreaterThanOrEqual),
     ent OP_MIN OP_MIN ''OP_MIN'' 1 (Num F_Min),
     ent OP_MAX OP_MAX ''OP_MAX'' 1 (Num F_Max),
     ent OP_WITHIN OP_WITHIN ''OP_WITHIN'' 1 (Num F_Within),
     ent OP_RIPEMD160 OP_RIPEMD160 ''OP_RIPEMD160'' 1 (Crypto F_Ripemd160),
     ent OP_SHA1 OP_SHA1 ''OP_SHA1'' 1 (Crypto F_Sha1),
     ent OP_SHA256 OP_SHA256 ''OP_SHA256'' 1 (Crypto F_Sha256),
     ent OP_HASH160 OP_HASH160 ''OP_HASH160'' 1 (Crypto F_Hash160),
     ent OP_HASH256 OP_HASH256 ''OP_HASH256'' 1 (Crypto F_Hash256),
     ent OP_CODESEPARATOR OP_CODESEPARATOR ''OP_CODESEPARATOR'' 1 (Crypto F_CodeSeparator),
     ent OP_CHECKSIG OP_CHECKSIG ''OP_CHECKSIG'' 1 (Crypto F_CheckSig),
     ent OP_CHECKSIGVERIFY OP_CHECKSIGVERIFY ''OP_CHECKSIGVERIFY'' 1 (Crypto F_CheckSigVerify),
     ent OP_CHECKMULTISIG OP_CHECKMULTISIG ''OP_CHECKMULTISIG'' 1 (Crypto F_CheckMultiSig),
     ent OP_CHECKMULTISIGVERIFY OP_CHECKMULTISIGVERIFY ''OP_CHECKMULTISIGVERIFY'' 1 (Crypto F_CheckMultiSigVerify),
     ent OP_CHECKSIGADD OP_CHECKSIGADD ''OP_CHECKSIGADD'' 1 (Crypto F_CheckSigAdd),
     ent OP_NOP1 OP_NOP1 ''OP_NOP1'' 1 (Control F_Nop),
     ent OP_MERKLEBRANCHVERIFY OP_MERKLEBRANCHVERIFY ''OP_MERKLEBRANCHVERIFY'' 1 (Crypto F_MerkleBranchVerify),
     ent OP_NOP5 OP_NOP5 ''OP_NOP5'' 1 (Control F_Nop),
     ent OP_NOP6 OP_NOP6 ''OP_NOP6'' 1 (Control F_Nop),
     ent OP_NOP7 OP_NOP7 ''OP_NOP7'' 1 (Control F_Nop),
     ent OP_NOP8 OP_NOP8 ''OP_NOP8'' 1 (Control F_Nop),
     ent OP_NOP9 OP_NOP9 ''OP_NOP9'' 1 (Control F_Nop),
     ent OP_NOP10 OP_NOP10 ''OP_NOP10'' 1 (Control F_Nop),
     ent OP_UNKNOWN187 OP_UNKNOWN187 ''OP_UNKNOWN187'' 1 (Control F_Invalid),
     ent OP_UNKNOWN188 OP_UNKNOWN188 ''OP_UNKNOWN188'' 1 (Control F_Invalid),
     ent OP_UNKNOWN189 OP_UNKNOWN189 ''OP_UNKNOWN189'' 1 (Control F_Invalid),
     ent OP_UNKNOWN190 OP_UNKNOWN190 ''OP_UNKNOWN190'' 1 (Control F_Invalid),
     ent OP_UNKNOWN191 OP_UNKNOWN191 ''OP_UNKNOWN191'' 1 (Control F_Invalid),
     ent OP_UNKNOWN192 OP_UNKNOWN192 ''OP_UNKNOWN192'' 1 (Control F_Invalid),
     ent OP_UNKNOWN193 OP_UNKNOWN193 ''OP_UNKNOWN193'' 1 (Control F_Invalid),
     ent OP_UNKNOWN194 OP_UNKNOWN194 ''OP_UNKNOWN194'' 1 (Control F_Invalid),
     ent OP_DIGEST OP_DIGEST ''OP_DIGEST'' 1 (Crypto F_Digest),
     ent OP_SHA256INITIALIZE OP_SHA256INITIALIZE ''OP_SHA256INITIALIZE'' 1 (Crypto F_Sha256Initialize),
     ent OP_SHA256UPDATE OP_SHA256UPDATE ''OP_SHA256UPDATE'' 1 (Crypto F_Sha256Update),
     ent OP_SHA256FINALIZE OP_SHA256FINALIZE ''OP_SHA256FINALIZE'' 1 (Crypto F_Sha256Finalize),
     ent OP_INSPECTINPUTOUTPOINT OP_INSPECTINPUTOUTPOINT ''OP_INSPECTINPUTOUTPOINT'' 1 (Intro F_InspectInputOutpoint),
     ent OP_INSPECTINPUTARKADESCRIPTHASH OP_INSPECTINPUTARKADESCRIPTHASH ''OP_INSPECTINPUTARKADESCRIPTHASH'' 1 (Intro F_InspectInputArkadeScriptHash),
     ent OP_INSPECTINPUTVALUE OP_INSPECTINPUTVALUE ''OP_INSPECTINPUTVALUE'' 1 (Intro F_InspectInputValue),
     ent OP_INSPECTINPUTSCRIPTPUBKEY OP_INSPECTINPUTSCRIPTPUBKEY ''OP_INSPECTINPUTSCRIPTPUBKEY'' 1 (Intro F_InspectInputScriptPubkey),
     ent OP_INSPECTINPUTSEQUENCE OP_INSPECTINPUTSEQUENCE ''OP_INSPECTINPUTSEQUENCE'' 1 (Intro F_InspectInputSequence),
     ent OP_CHECKSIGFROMSTACK OP_CHECKSIGFROMSTACK ''OP_CHECKSIGFROMSTACK'' 1 (Crypto F_ChecksigFromStack),
     ent OP_PUSHCURRENTINPUTINDEX OP_PUSHCURRENTINPUTINDEX ''OP_PUSHCURRENTINPUTINDEX'' 1 (Intro F_PushCurrentInputIndex),
     ent OP_INSPECTINPUTARKADEWITNESSHASH OP_INSPECTINPUTARKADEWITNESSHASH ''OP_INSPECTINPUTARKADEWITNESSHASH'' 1 (Intro F_InspectInputArkadeWitnessHash),
     ent OP_INSPECTOUTPUTVALUE OP_INSPECTOUTPUTVALUE ''OP_INSPECTOUTPUTVALUE'' 1 (Intro F_InspectOutputValue),
     ent OP_UNKNOWN208 OP_UNKNOWN208 ''OP_UNKNOWN208'' 1 (Control F_Invalid),
     ent OP_INSPECTOUTPUTSCRIPTPUBKEY OP_INSPECTOUTPUTSCRIPTPUBKEY ''OP_INSPECTOUTPUTSCRIPTPUBKEY'' 1 (Intro F_InspectOutputScriptPubkey),
     ent OP_INSPECTVERSION OP_INSPECTVERSION ''OP_INSPECTVERSION'' 1 (Intro F_InspectVersion),
     ent OP_INSPECTLOCKTIME OP_INSPECTLOCKTIME ''OP_INSPECTLOCKTIME'' 1 (Intro F_InspectLocktime),
     ent OP_INSPECTNUMINPUTS OP_INSPECTNUMINPUTS ''OP_INSPECTNUMINPUTS'' 1 (Intro F_InspectNumInputs),
     ent OP_INSPECTNUMOUTPUTS OP_INSPECTNUMOUTPUTS ''OP_INSPECTNUMOUTPUTS'' 1 (Intro F_InspectNumOutputs),
     ent OP_TXWEIGHT OP_TXWEIGHT ''OP_TXWEIGHT'' 1 (Intro F_TxWeight),
     ent OP_NUM2BIN OP_NUM2BIN ''OP_NUM2BIN'' 1 (Bytes F_Num2Bin),
     ent OP_BIN2NUM OP_BIN2NUM ''OP_BIN2NUM'' 1 (Bytes F_Bin2Num),
     ent OP_REVERSEBYTES OP_REVERSEBYTES ''OP_REVERSEBYTES'' 1 (Bytes F_ReverseBytes),
     ent OP_MODEXP OP_MODEXP ''OP_MODEXP'' 1 (Num F_Modexp),
     ent OP_UNKNOWN219 OP_UNKNOWN219 ''OP_UNKNOWN219'' 1 (Control F_Invalid),
     ent OP_UNKNOWN220 OP_UNKNOWN220 ''OP_UNKNOWN220'' 1 (Control F_Invalid),
     ent OP_UNKNOWN221 OP_UNKNOWN221 ''OP_UNKNOWN221'' 1 (Control F_Invalid),
     ent OP_UNKNOWN222 OP_UNKNOWN222 ''OP_UNKNOWN222'' 1 (Control F_Invalid),
     ent OP_UNKNOWN223 OP_UNKNOWN223 ''OP_UNKNOWN223'' 1 (Control F_Invalid),
     ent OP_ECADD OP_ECADD ''OP_ECADD'' 1 (EC F_ECAdd),
     ent OP_ECMUL OP_ECMUL ''OP_ECMUL'' 1 (EC F_ECMul),
     ent OP_ECPAIRING OP_ECPAIRING ''OP_ECPAIRING'' 1 (EC F_ECPairing),
     ent OP_ECMULSCALARVERIFY OP_ECMULSCALARVERIFY ''OP_ECMULSCALARVERIFY'' 1 (EC F_ECMulScalarVerify),
     ent OP_TWEAKVERIFY OP_TWEAKVERIFY ''OP_TWEAKVERIFY'' 1 (EC F_TweakVerify),
     ent OP_INSPECTNUMASSETGROUPS OP_INSPECTNUMASSETGROUPS ''OP_INSPECTNUMASSETGROUPS'' 1 (Asset F_InspectNumAssetGroups),
     ent OP_INSPECTASSETGROUPASSETID OP_INSPECTASSETGROUPASSETID ''OP_INSPECTASSETGROUPASSETID'' 1 (Asset F_InspectAssetGroupAssetId),
     ent OP_INSPECTASSETGROUPCTRL OP_INSPECTASSETGROUPCTRL ''OP_INSPECTASSETGROUPCTRL'' 1 (Asset F_InspectAssetGroupCtrl),
     ent OP_FINDASSETGROUPBYASSETID OP_FINDASSETGROUPBYASSETID ''OP_FINDASSETGROUPBYASSETID'' 1 (Asset F_FindAssetGroupByAssetId),
     ent OP_INSPECTASSETGROUPMETADATAHASH OP_INSPECTASSETGROUPMETADATAHASH ''OP_INSPECTASSETGROUPMETADATAHASH'' 1 (Asset F_InspectAssetGroupMetadataHash),
     ent OP_INSPECTASSETGROUPNUM OP_INSPECTASSETGROUPNUM ''OP_INSPECTASSETGROUPNUM'' 1 (Asset F_InspectAssetGroupNum),
     ent OP_INSPECTASSETGROUP OP_INSPECTASSETGROUP ''OP_INSPECTASSETGROUP'' 1 (Asset F_InspectAssetGroup),
     ent OP_INSPECTASSETGROUPSUM OP_INSPECTASSETGROUPSUM ''OP_INSPECTASSETGROUPSUM'' 1 (Asset F_InspectAssetGroupSum),
     ent OP_INSPECTOUTASSETCOUNT OP_INSPECTOUTASSETCOUNT ''OP_INSPECTOUTASSETCOUNT'' 1 (Asset F_InspectOutAssetCount),
     ent OP_INSPECTOUTASSETAT OP_INSPECTOUTASSETAT ''OP_INSPECTOUTASSETAT'' 1 (Asset F_InspectOutAssetAt),
     ent OP_INSPECTOUTASSETLOOKUP OP_INSPECTOUTASSETLOOKUP ''OP_INSPECTOUTASSETLOOKUP'' 1 (Asset F_InspectOutAssetLookup),
     ent OP_INSPECTINASSETCOUNT OP_INSPECTINASSETCOUNT ''OP_INSPECTINASSETCOUNT'' 1 (Asset F_InspectInAssetCount),
     ent OP_INSPECTINASSETAT OP_INSPECTINASSETAT ''OP_INSPECTINASSETAT'' 1 (Asset F_InspectInAssetAt),
     ent OP_INSPECTINASSETLOOKUP OP_INSPECTINASSETLOOKUP ''OP_INSPECTINASSETLOOKUP'' 1 (Asset F_InspectInAssetLookup),
     ent OP_TXID OP_TXID ''OP_TXID'' 1 (Intro F_TxId),
     ent OP_INSPECTPACKET OP_INSPECTPACKET ''OP_INSPECTPACKET'' 1 (Intro F_InspectPacket),
     ent OP_INSPECTINPUTPACKET OP_INSPECTINPUTPACKET ''OP_INSPECTINPUTPACKET'' 1 (Intro F_InspectInputPacket),
     ent OP_SIGHASH OP_SIGHASH ''OP_SIGHASH'' 1 (Crypto F_Sighash),
     ent OP_UNKNOWN247 OP_UNKNOWN247 ''OP_UNKNOWN247'' 1 (Control F_Invalid),
     ent OP_UNKNOWN248 OP_UNKNOWN248 ''OP_UNKNOWN248'' 1 (Control F_Invalid),
     ent OP_UNKNOWN249 OP_UNKNOWN249 ''OP_UNKNOWN249'' 1 (Control F_Invalid),
     ent OP_SMALLINTEGER OP_SMALLINTEGER ''OP_SMALLINTEGER'' 1 (Control F_Invalid),
     ent OP_PUBKEYS OP_PUBKEYS ''OP_PUBKEYS'' 1 (Control F_Invalid),
     ent OP_UNKNOWN252 OP_UNKNOWN252 ''OP_UNKNOWN252'' 1 (Control F_Invalid),
     ent OP_PUBKEYHASH OP_PUBKEYHASH ''OP_PUBKEYHASH'' 1 (Control F_Invalid),
     ent OP_PUBKEY OP_PUBKEY ''OP_PUBKEY'' 1 (Control F_Invalid),
     ent OP_INVALIDOPCODE OP_INVALIDOPCODE ''OP_INVALIDOPCODE'' 1 (Control F_Invalid)]"

definition opcode_entries :: "(byte \<times> opcode) list" where
  "opcode_entries = opcode_entries_1 @ opcode_entries_2 @ opcode_entries_3"

text \<open>An index without an entry would be a zero opcode, whose length 0 makes the tokenizer
panic; the lemmas below show there is none.\<close>

definition opcodeArray :: "byte \<Rightarrow> opcode" where
  "opcodeArray b =
     (case map_of opcode_entries b of Some e \<Rightarrow> e
      | None \<Rightarrow> \<lparr>op_value = 0, op_name = [], op_length = 0, op_func = Control F_Invalid\<rparr>)"

subsection \<open>Facts of the table\<close>

lemmas opcode_entries_defs = opcode_entries_def opcode_entries_1_def opcode_entries_2_def
  opcode_entries_3_def ent_def

lemma opcode_keys_sorted: "sort (map (uint \<circ> fst) opcode_entries) = [0..255]"
  unfolding opcode_entries_defs by code_simp

lemma opcode_key_covered: "b \<in> fst ` set opcode_entries"
proof -
  have "set (sort (map (uint \<circ> fst) opcode_entries)) = {0..255}"
    by (simp only: opcode_keys_sorted set_upto)
  then have k: "(uint \<circ> fst) ` set opcode_entries = {0..255}" by simp
  have "uint b < 256" using uint_lt2p [of b] by simp
  then have "uint b \<in> (uint \<circ> fst) ` set opcode_entries" unfolding k by simp
  then obtain e where "e \<in> set opcode_entries" "uint (fst e) = uint b" by auto
  then show ?thesis by (metis image_eqI word_uint_eq_iff)
qed

text \<open>The lengths the tokenizer relies on, and the shape of each push entry.\<close>

definition entry_ok :: "byte \<times> opcode \<Rightarrow> bool" where
  "entry_ok ke \<longleftrightarrow> op_value (snd ke) = fst ke \<and>
     op_length (snd ke) = (let k = uint (fst ke) in
        if k = 0 then 1 else if k \<le> 75 then k + 1
        else if k = 76 then -1 else if k = 77 then -2 else if k = 78 then -4 else 1)"

lemma opcode_entries_ok: "list_all entry_ok opcode_entries"
  unfolding opcode_entries_defs by code_simp

lemma opcodeArray_in: "(b, opcodeArray b) \<in> set opcode_entries"
proof -
  obtain e where "map_of opcode_entries b = Some e"
    using opcode_key_covered [of b] by (metis domD dom_map_of_conv_image_fst)
  then show ?thesis by (simp add: opcodeArray_def map_of_SomeD)
qed

lemma op_value_opcodeArray [simp]: "op_value (opcodeArray b) = b"
  using opcode_entries_ok opcodeArray_in [of b] by (auto simp: list_all_iff entry_ok_def)

lemma op_length_opcodeArray:
  "op_length (opcodeArray b) =
     (if uint b = 0 then 1 else if uint b \<le> 75 then uint b + 1
      else if uint b = 76 then -1 else if uint b = 77 then -2 else if uint b = 78 then -4 else 1)"
proof -
  have "entry_ok (b, opcodeArray b)"
    using opcode_entries_ok opcodeArray_in [of b] by (auto simp: list_all_iff)
  then show ?thesis by (simp only: entry_ok_def fst_conv snd_conv Let_def)
qed

text \<open>One rewrite rule per opcode: the entry of each of the 256 values.\<close>

lemma opcode_keys_distinct: "distinct (map fst opcode_entries)"
proof -
  have "distinct (sort (map (uint \<circ> fst) opcode_entries))"
    by (simp only: opcode_keys_sorted distinct_upto)
  then have "distinct (map uint (map fst opcode_entries))" by simp
  then show ?thesis by (simp only: distinct_map)
qed

lemma opcodeArray_all: "list_all (\<lambda>ke. opcodeArray (fst ke) = snd ke) opcode_entries"
proof -
  have "opcodeArray (fst ke) = snd ke" if "ke \<in> set opcode_entries" for ke
    using map_of_is_SomeI [OF opcode_keys_distinct, of "fst ke" "snd ke"] that
    by (simp add: opcodeArray_def)
  then show ?thesis by (simp add: list_all_iff)
qed

lemmas opcodeArray_lookup =
  opcodeArray_all [unfolded opcode_entries_defs append.simps list.pred_inject fst_conv snd_conv]

end
