(* ===== verification/Tokenizer.thy ===== *)
theory Tokenizer
imports Opcodes
begin

text \<open>Model of pkg/arkade/tokenizer.go and of checkScriptParses (engine.go): the parser that
feeds the interpreter one opcode at a time.  The offset and the opcode position are int32 in the
source: every sum and every conversion of a length goes through int32_of, which wraps.  On a script
of fewer than 2 ^ 31 bytes nothing wraps (Next_fits); on a longer one the tokenizer may see the end
of the script too early, or panic on a negative offset, and the loop over it still ends.\<close>

record tokenizer =
  t_script :: bytes
  t_version :: nat
  t_offset :: int
  t_opcodePos :: int
  t_op :: "opcode option"
  t_data :: bytes
  t_err :: "verror option"

definition Done :: "tokenizer \<Rightarrow> bool" where
  "Done t \<longleftrightarrow> t_err t \<noteq> None \<or> t_offset t \<ge> int32_of (int (length (t_script t)))"

text \<open>The length prefix of a data push: dataLen of the switch on op.length, None when the
length is none of -1, -2, -4.\<close>

definition push_dataLen :: "int \<Rightarrow> bytes \<Rightarrow> int option" where
  "push_dataLen len scr =
     (if len = -1 then Some (int (le_val (take 1 scr)))
      else if len = -2 then Some (int (le_val (take 2 scr)))
      else if len = -4 then Some (int32_of (int (le_val (take 4 scr))))
      else None)"

definition malformed :: "tokenizer \<Rightarrow> (bool \<times> tokenizer) res" where
  "malformed t = Inr (False, t\<lparr>t_err := Some (ScriptError ErrMalformedPush)\<rparr>)"

definition Next :: "tokenizer \<Rightarrow> (bool \<times> tokenizer) res" where
  "Next t =
     (if Done t then Inr (False, t)
      else let t = t\<lparr>t_opcodePos := int32_of (t_opcodePos t + 1)\<rparr>; n = int (length (t_script t)) in
        bindE (at_idx (t_script t) (t_offset t)) (\<lambda>b.
        let op' = opcodeArray b in
        if op_length op' = 1 then
          Inr (True, t\<lparr>t_offset := int32_of (t_offset t + 1), t_op := Some op', t_data := []\<rparr>)
        else if op_length op' > 1 then
          bindE (slice (t_script t) (t_offset t) n) (\<lambda>scr.
          if int (length scr) < op_length op' then malformed t
          else bindE (slice scr 1 (op_length op')) (\<lambda>d.
            Inr (True, t\<lparr>t_offset := int32_of (t_offset t + op_length op'), t_op := Some op', t_data := d\<rparr>)))
        else if op_length op' < 0 then
          bindE (slice (t_script t) (int32_of (t_offset t + 1)) n) (\<lambda>scr.
          if int (length scr) < - op_length op' then malformed t
          else (case push_dataLen (op_length op') scr of
            None \<Rightarrow> malformed t
          | Some dataLen \<Rightarrow>
              bindE (slice scr (- op_length op') (int (length scr))) (\<lambda>scr'.
              if dataLen > int32_of (int (length scr')) \<or> dataLen < 0 then malformed t
              else bindE (slice scr' 0 dataLen) (\<lambda>d.
                Inr (True, t\<lparr>t_offset := int32_of (t_offset t + (1 + (- op_length op') + dataLen)),
                             t_op := Some op', t_data := d\<rparr>)))))
        else panic))"

definition MakeScriptTokenizer :: "nat \<Rightarrow> bytes \<Rightarrow> tokenizer" where
  "MakeScriptTokenizer v s =
     \<lparr>t_script = s, t_version = v, t_offset = 0, t_opcodePos = -1, t_op = None, t_data = [],
      t_err = (if v \<noteq> 0 then Some (ScriptError ErrUnsupportedScriptVersion) else None)\<rparr>"

definition Tok_Script :: "tokenizer \<Rightarrow> bytes" where "Tok_Script t = t_script t"
definition ByteIndex :: "tokenizer \<Rightarrow> int" where "ByteIndex t = t_offset t"
definition OpcodePosition :: "tokenizer \<Rightarrow> int" where "OpcodePosition t = t_opcodePos t"
definition Tok_Opcode :: "tokenizer \<Rightarrow> byte res" where
  "Tok_Opcode t = (case t_op t of None \<Rightarrow> panic | Some p \<Rightarrow> Inr (op_value p))"
definition Tok_Data :: "tokenizer \<Rightarrow> bytes" where "Tok_Data t = t_data t"
definition Tok_Err :: "tokenizer \<Rightarrow> verror option" where "Tok_Err t = t_err t"

subsection \<open>One step of the tokenizer\<close>

text \<open>The bytes an opcode and its data occupy in a script.\<close>

definition token_bytes :: "opcode \<Rightarrow> bytes \<Rightarrow> bytes" where
  "token_bytes p d =
     op_value p # (if op_length p < 0 then le_fixed (nat (- op_length p)) (length d) else []) @ d"

lemma malformed_simps [simp]:
  "malformed t \<noteq> Inr (True, t')" "malformed t \<noteq> Inl e"
  by (simp_all add: malformed_def)

lemma int32_of_range: "- (2 ^ 31) \<le> int32_of x" "int32_of x < 2 ^ 31"
  using sint_ge [of "word_of_int x :: 32 word"] sint_lt [of "word_of_int x :: 32 word"]
  by (simp_all add: int32_of_def)

lemma int32_of_diff: "int32_of (int32_of a - b) = int32_of (a - b)"
  by (simp add: int32_of_def wi_hom_sub [symmetric])

lemma int32_of_pos: "0 \<le> x \<Longrightarrow> x < 2 ^ 31 + 2 ^ 31 \<Longrightarrow> int32_of x = x \<or> int32_of x < 0"
proof (cases "x < 2 ^ 31")
  case False
  assume "0 \<le> x" "x < 2 ^ 31 + 2 ^ 31"
  then have "int32_of (x - 2 ^ 32) = x - 2 ^ 32" using False by (intro int32_of_id) simp_all
  moreover have "(word_of_int (x - 2 ^ 32) :: 32 word) = word_of_int x"
    by (simp add: word_of_int_eq_iff take_bit_eq_mod)
  then have "int32_of (x - 2 ^ 32) = int32_of x" unfolding int32_of_def by (rule arg_cong)
  ultimately show ?thesis using \<open>x < 2 ^ 31 + 2 ^ 31\<close> by simp
qed (simp add: int32_of_id)

lemma op_length_cases:
  "op_length (opcodeArray b) = 1 \<or> 1 < op_length (opcodeArray b) \<or> op_length (opcodeArray b) < 0"
proof -
  have "uint b \<noteq> 0 \<Longrightarrow> 0 < uint b" by (simp add: less_le)
  then show ?thesis using op_length_opcodeArray [of b] by (auto split: if_splits)
qed

lemma op_length_bounds: "- 4 \<le> op_length (opcodeArray b)" "op_length (opcodeArray b) \<le> 256"
  using op_length_opcodeArray [of b] uint_lt2p [of b] by auto

text \<open>What a successful step keeps, and where it leaves the offset: whatever the size of the script,
it grows, or has wrapped below zero, from where the next step does not return.\<close>

lemma Next_True_keeps:
  assumes "Next t = Inr (True, t')"
  shows "\<not> Done t \<and> t_script t' = t_script t \<and> t_version t' = t_version t \<and> t_err t' = t_err t"
  using assms
  by (auto simp: Next_def Let_def bindE_Inr_iff split: if_splits option.splits)

lemma Next_True_offset:
  assumes "Next t = Inr (True, t')"
  shows "0 \<le> t_offset t \<and> t_offset t < 2 ^ 31 \<and> (t_offset t < t_offset t' \<or> t_offset t' < 0)"
proof -
  let ?l = "int (length (t_script t))"
  have o: "t_offset t < int32_of ?l" using Next_True_keeps [OF assms] by (simp add: Done_def)
  obtain b where b: "at_idx (t_script t) (t_offset t) = Inr b"
    using assms by (auto simp: Next_def Let_def bindE_Inr_iff split: if_splits)
  then have nn: "0 \<le> t_offset t" by (auto simp: at_idx_def split: if_splits)
  have lt: "t_offset t < 2 ^ 31 - 1" "int32_of ?l < 2 ^ 31" using o int32_of_range(2) [of ?l] by simp_all
  have one: "int32_of (t_offset t + 1) = t_offset t + 1" using lt nn by (intro int32_of_id) simp_all
  have p: "int32_of (t_offset t + k) = t_offset t + k \<or> int32_of (t_offset t + k) < 0" if "0 \<le> k" "k \<le> 256" for k
    using that lt nn by (intro int32_of_pos) simp_all
  note bd = op_length_bounds [of b]
  consider "op_length (opcodeArray b) = 1" | "1 < op_length (opcodeArray b)" | "op_length (opcodeArray b) < 0"
    using op_length_cases [of b] by blast
  then have "t_offset t < t_offset t' \<or> t_offset t' < 0"
  proof cases
    case 1
    then show ?thesis using assms b one by (auto simp: Next_def Let_def split: if_splits)
  next
    case 2
    then show ?thesis using assms b p [of "op_length (opcodeArray b)"] bd
      by (auto simp: Next_def Let_def bindE_Inr_iff split: if_splits)
  next
    case 3
    let ?m = "- op_length (opcodeArray b)"
    obtain scr where s1: "slice (t_script t) (t_offset t + 1) ?l = Inr scr"
      using assms b 3 one by (cases "slice (t_script t) (t_offset t + 1) ?l") (auto simp: Next_def Let_def split: if_splits)
    obtain dl where s2: "push_dataLen (op_length (opcodeArray b)) scr = Some dl" "\<not> int (length scr) < ?m"
      using assms b 3 one s1 by (cases "push_dataLen (op_length (opcodeArray b)) scr") (auto simp: Next_def Let_def split: if_splits)
    obtain scr' where s3: "slice scr ?m (int (length scr)) = Inr scr'"
      using 3 s2(2) by (simp add: slice_def)
    have s: "dl \<le> int32_of (int (length scr'))" "0 \<le> dl" "t_offset t' = int32_of (t_offset t + (1 + ?m + dl))"
      using assms b 3 one s1 s2 s3 by (auto simp: Next_def Let_def bindE_Inr_iff split: if_splits)
    have "int (length scr') = ?l - (t_offset t + 1 + ?m)"
      using s1 s3 3 nn by (auto simp: slice_def split: if_splits)
    then have "int32_of (int (length scr')) = int32_of (int32_of ?l - (t_offset t + 1 + ?m))"
      by (simp add: int32_of_diff)
    also have "... = int32_of ?l - (t_offset t + 1 + ?m)"
      using o lt nn bd 3 by (intro int32_of_id) simp_all
    finally have x: "t_offset t + (1 + ?m + dl) \<le> int32_of ?l" using s(1) by simp
    then have "int32_of (t_offset t + (1 + ?m + dl)) = t_offset t + (1 + ?m + dl)"
      using lt nn 3 s(2) by (intro int32_of_id) simp_all
    then show ?thesis using s(2,3) 3 by simp
  qed
  then show ?thesis using nn lt by simp
qed

text \<open>A termination measure that does not depend on the script.\<close>

definition tok_measure :: "tokenizer \<Rightarrow> nat" where
  "tok_measure t = (if t_offset t < 0 then 0 else nat (2 ^ 32 - t_offset t))"

lemma Next_True_measure: "Next t = Inr (True, t') \<Longrightarrow> tok_measure t' < tok_measure t"
  using Next_True_offset [of t t'] by (auto simp: tok_measure_def)

function parse_loop :: "tokenizer \<Rightarrow> tokenizer res" where
  "parse_loop t = (case Next t of Inl e \<Rightarrow> Inl e
     | Inr (ok, t') \<Rightarrow> if ok then parse_loop t' else Inr t')"
  by pat_completeness auto

termination parse_loop
  by (relation "measure tok_measure") (simp_all add: Next_True_measure)

declare parse_loop.simps [simp del]

definition checkScriptParses :: "nat \<Rightarrow> bytes \<Rightarrow> unit res" where
  "checkScriptParses v s =
     bindE (parse_loop (MakeScriptTokenizer v s)) (\<lambda>t.
     case t_err t of None \<Rightarrow> Inr () | Some e \<Rightarrow> Inl e)"

definition tok_wf :: "tokenizer \<Rightarrow> bool" where
  "tok_wf t \<longleftrightarrow> 0 \<le> t_offset t \<and> t_offset t \<le> int (length (t_script t)) \<and> t_err t \<noteq> Some Panic"

lemma slice_drop: "0 \<le> i \<Longrightarrow> i \<le> int (length xs) \<Longrightarrow> slice xs i (int (length xs)) = Inr (drop (nat i) xs)"
  by (simp add: slice_def)

lemma int32_of_nonneg:
  assumes "0 \<le> x" "x < 2 ^ 32" "0 \<le> int32_of x" shows "int32_of x = x"
proof (cases "x < 2 ^ 31")
  case True
  with assms show ?thesis by (intro int32_of_id) simp_all
next
  case False
  have s: "x + 2 ^ 31 = (x - 2 ^ 31) + 2 ^ 32" by simp
  have "(x + 2 ^ 31) mod 2 ^ 32 = (x - 2 ^ 31) mod 2 ^ 32" by (subst s) (rule mod_add_self2)
  also have "... = x - 2 ^ 31" using assms False by (intro mod_pos_pos_trivial) simp_all
  finally have "int32_of x = x - 2 ^ 32"
    by (simp add: int32_of_def sint_sbintrunc' signed_take_bit_eq_take_bit_shift take_bit_eq_mod)
  with assms show ?thesis by simp
qed

lemma push_dataLen_fixed:
  assumes "push_dataLen len scr = Some n" "0 \<le> n" "- len \<le> int (length scr)"
  shows "le_fixed (nat (- len)) (nat n) = take (nat (- len)) scr \<and> len \<in> {-1, -2, -4}"
proof -
  have len: "len = -1 \<or> len = -2 \<or> len = -4"
    using assms(1) by (auto simp: push_dataLen_def split: if_splits)
  let ?t = "take (nat (- len)) scr"
  have l: "length ?t = nat (- len)" using assms(3) len by auto
  have "n = int (le_val ?t)"
  proof (cases "len = -4")
    case True
    have "int (le_val (take 4 scr)) < 2 ^ 32"
      using le_val_bound [of "take 4 scr"] l True by simp
    with True assms show ?thesis
      by (auto simp: push_dataLen_def intro!: int32_of_nonneg)
  next
    case False
    with len assms show ?thesis by (auto simp: push_dataLen_def split: if_splits)
  qed
  then have "le_fixed (nat (- len)) (nat n) = ?t" using le_fixed_le_val [OF l] by simp
  with len show ?thesis by auto
qed

subsection \<open>Scripts whose offsets fit\<close>

text \<open>The tokenizers of scripts shorter than 2 ^ 31 bytes, where the int32 arithmetic is exact.\<close>

definition offsets_fit :: "tokenizer \<Rightarrow> bool" where
  "offsets_fit t \<longleftrightarrow> int (length (t_script t)) < 2 ^ 31 \<and> 0 \<le> t_offset t \<and> - 1 \<le> t_opcodePos t \<and> t_opcodePos t < t_offset t"

lemma offsets_fit_Make: "length s < 2 ^ 31 \<Longrightarrow> offsets_fit (MakeScriptTokenizer v s)"
  by (simp add: offsets_fit_def MakeScriptTokenizer_def)

lemma Done_fits: "offsets_fit t \<Longrightarrow> Done t \<longleftrightarrow> t_err t \<noteq> None \<or> t_offset t \<ge> int (length (t_script t))"
  by (simp add: Done_def offsets_fit_def int32_of_id)

lemma Next_fits:
  assumes "offsets_fit t"
  shows "Next t =
     (if Done t then Inr (False, t)
      else let t = t\<lparr>t_opcodePos := t_opcodePos t + 1\<rparr>; n = int (length (t_script t)) in
        bindE (at_idx (t_script t) (t_offset t)) (\<lambda>b.
        let op' = opcodeArray b in
        if op_length op' = 1 then
          Inr (True, t\<lparr>t_offset := t_offset t + 1, t_op := Some op', t_data := []\<rparr>)
        else if op_length op' > 1 then
          bindE (slice (t_script t) (t_offset t) n) (\<lambda>scr.
          if int (length scr) < op_length op' then malformed t
          else bindE (slice scr 1 (op_length op')) (\<lambda>d.
            Inr (True, t\<lparr>t_offset := t_offset t + op_length op', t_op := Some op', t_data := d\<rparr>)))
        else if op_length op' < 0 then
          bindE (slice (t_script t) (t_offset t + 1) n) (\<lambda>scr.
          if int (length scr) < - op_length op' then malformed t
          else (case push_dataLen (op_length op') scr of
            None \<Rightarrow> malformed t
          | Some dataLen \<Rightarrow>
              bindE (slice scr (- op_length op') (int (length scr))) (\<lambda>scr'.
              if dataLen > int (length scr') \<or> dataLen < 0 then malformed t
              else bindE (slice scr' 0 dataLen) (\<lambda>d.
                Inr (True, t\<lparr>t_offset := t_offset t + (1 + (- op_length op') + dataLen),
                             t_op := Some op', t_data := d\<rparr>)))))
        else panic))"
proof (cases "Done t")
  case False
  obtain k where k: "t_offset t = int k" using assms nonneg_int_cases unfolding offsets_fit_def by blast
  have kl: "k < length (t_script t)" "int (length (t_script t)) < 2 ^ 31"
    using False assms Done_fits [OF assms] by (simp_all add: k offsets_fit_def)
  define b where "b = t_script t ! k"
  have at: "at_idx (t_script t) (int k) = Inr b" using kl by (simp add: b_def at_idx_nat)
  have one: "int32_of (t_opcodePos t + 1) = t_opcodePos t + 1" "int32_of (int k + 1) = int k + 1"
    using assms kl by (auto simp: offsets_fit_def k intro!: int32_of_id)
  have len: "int32_of (int (length xs)) = int (length xs)" if "length xs \<le> length (t_script t)" for xs :: bytes
    using that kl by (intro int32_of_id) simp_all
  define p where "p = opcodeArray b"
  have sl: "slice (t_script t) (int k) (int (length (t_script t))) = Inr (drop k (t_script t))"
    "slice (t_script t) (int k + 1) (int (length (t_script t))) = Inr (drop (Suc k) (t_script t))"
    using kl slice_drop [of "int k" "t_script t"] slice_drop [of "int k + 1" "t_script t"]
    by (simp_all add: nat_add_distrib)
  consider "op_length p = 1" | "1 < op_length p" | "op_length p < 0"
    using op_length_cases [of b] by (auto simp: p_def)
  then show ?thesis
  proof cases
    case 1
    then show ?thesis using False at one by (simp add: Next_def k flip: p_def)
  next
    case 2
    show ?thesis
    proof (cases "int (length (drop k (t_script t))) < op_length p")
      case True
      then show ?thesis using 2 False at one sl by (simp add: Next_def Let_def k flip: p_def)
    next
      case n: False
      then have "int32_of (int k + op_length p) = int k + op_length p"
        using kl 2 by (intro int32_of_id) (auto simp: of_nat_diff)
      then show ?thesis using n 2 False at one sl by (simp add: Next_def Let_def k flip: p_def)
    qed
  next
    case 3
    let ?scr = "drop (Suc k) (t_script t)"
    show ?thesis
    proof (cases "int (length ?scr) < - op_length p \<or> push_dataLen (op_length p) ?scr = None")
      case True
      then show ?thesis using 3 False at sl one by (auto simp: Next_def Let_def k simp flip: p_def)
    next
      case n: False
      then obtain dl where dl: "push_dataLen (op_length p) ?scr = Some dl" by auto
      define d where "d = drop (nat (- op_length p)) ?scr"
      have d: "slice ?scr (- op_length p) (int (length ?scr)) = Inr d"
        using n 3 slice_drop [of "- op_length p" ?scr] by (auto simp: d_def)
      have ld: "int (length d) = int (length ?scr) + op_length p" using n 3 by (auto simp: d_def)
      have l: "int32_of (int (length d)) = int (length d)" by (rule len) (simp add: d_def)
      have "int32_of (int k + (1 + (- op_length p) + dl)) = int k + (1 + (- op_length p) + dl)"
        if "\<not> (dl > int (length d) \<or> dl < 0)"
        using that kl 3 ld by (intro int32_of_id) simp_all
      then show ?thesis using 3 False at sl one n dl d l
        by (simp add: Next_def Let_def k flip: p_def)
    qed
  qed
qed (simp add: Next_def)

lemma Next_True_progress:
  assumes "Next t = Inr (True, t')" "offsets_fit t"
  shows "\<not> Done t \<and> t_offset t < t_offset t' \<and> t_script t' = t_script t \<and> t_version t' = t_version t \<and>
         t_err t' = t_err t \<and> t_opcodePos t' = t_opcodePos t + 1 \<and> offsets_fit t'"
proof -
  have "\<not> Done t \<and> t_offset t < t_offset t' \<and> t_script t' = t_script t \<and> t_version t' = t_version t \<and>
         t_err t' = t_err t \<and> t_opcodePos t' = t_opcodePos t + 1"
    using assms(1) unfolding Next_fits [OF assms(2)]
    by (auto simp: Let_def bindE_Inr_iff split: if_splits option.splits)
  with assms(2) show ?thesis by (simp add: offsets_fit_def)
qed


text \<open>A successful step consumes exactly the bytes of one opcode and its data.\<close>

lemma Next_True:
  assumes n: "Next t = Inr (True, t')" and fit: "offsets_fit t"
  shows "\<exists>p d. t_op t' = Some p \<and> t_data t' = d \<and> p = opcodeArray (op_value p) \<and>
         t_offset t' = t_offset t + int (length (token_bytes p d)) \<and>
         t_offset t' \<le> int (length (t_script t)) \<and>
         take (length (token_bytes p d)) (drop (nat (t_offset t)) (t_script t)) = token_bytes p d"
proof -
  obtain k where k: "t_offset t = int k" using fit nonneg_int_cases unfolding offsets_fit_def by blast
  have nd: "\<not> Done t" using Next_True_progress [OF n fit] by blast
  then have kl: "k < length (t_script t)" by (simp add: Done_fits [OF fit] k)
  define b where "b = t_script t ! k"
  define p where "p = opcodeArray b"
  define scr where "scr = drop (Suc k) (t_script t)"
  have S: "drop k (t_script t) = b # scr" using kl by (simp add: b_def scr_def Cons_nth_drop_Suc)
  have ls: "length (t_script t) = k + 1 + length scr" using kl by (simp add: scr_def)
  have at: "at_idx (t_script t) (int k) = Inr b" using kl by (simp add: b_def at_idx_nat)
  have sl: "slice (t_script t) (int k) (int (length (t_script t))) = Inr (b # scr)"
    "slice (t_script t) (int k + 1) (int (length (t_script t))) = Inr scr"
    using kl S slice_drop [of "int k" "t_script t"] slice_drop [of "int k + 1" "t_script t"]
    by (simp_all add: scr_def nat_add_distrib)
  have pv: "op_value p = b" by (simp add: p_def)
  have "op_length p = 1 \<or> 1 < op_length p \<or> op_length p < 0"
    using op_length_cases [of b] by (simp add: p_def)
  then consider "op_length p = 1" | "1 < op_length p" | "op_length p < 0" by blast
  then show ?thesis
  proof cases
    case 1
    then have "t' = t\<lparr>t_opcodePos := t_opcodePos t + 1, t_offset := int k + 1, t_op := Some p, t_data := []\<rparr>"
      using n nd at by (simp add: Next_fits [OF fit] k flip: p_def)
    then show ?thesis using 1 ls by (simp add: p_def k token_bytes_def S)
  next
    case 2
    define m where "m = nat (op_length p) - 1"
    have m: "op_length p = int m + 1" "nat (int m + 1) = Suc m" using 2 by (auto simp: m_def)
    have "m \<le> length scr \<and> t' = t\<lparr>t_opcodePos := t_opcodePos t + 1, t_offset := int k + (int m + 1),
        t_op := Some p, t_data := take m scr\<rparr>"
      using n nd at 2 sl by (auto simp: Next_fits [OF fit] Let_def k m slice_def malformed_def bindE_Inr_iff
          simp flip: p_def split: if_splits)
    then show ?thesis using 2 ls by (auto simp: p_def k token_bytes_def S min_def)
  next
    case 3
    define L where "L = nat (- op_length p)"
    have L: "op_length p = - int L" "0 < L" using 3 by (simp_all add: L_def)
    obtain dl where dl: "push_dataLen (- int L) scr = Some dl" "L \<le> length scr"
        "0 \<le> dl" "dl \<le> int (length scr - L)"
      and t': "t' = t\<lparr>t_opcodePos := t_opcodePos t + 1, t_offset := int k + (1 + int L + dl),
                  t_op := Some p, t_data := take (nat dl) (drop L scr)\<rparr>"
      using n nd at L sl
      by (auto simp: Next_fits [OF fit] Let_def k slice_def bindE_Inr_iff
          simp flip: p_def split: if_splits option.splits)
    have f: "le_fixed L (nat dl) = take L scr"
      using push_dataLen_fixed [OF dl(1,3)] dl(2) by simp
    have ld: "length (take (nat dl) (drop L scr)) = nat dl" using dl by simp
    have tb: "token_bytes p (take (nat dl) (drop L scr)) = b # take (L + nat dl) scr"
      using L unfolding token_bytes_def ld by (simp add: pv f take_add)
    have lt: "length (take (L + nat dl) scr) = L + nat dl" using dl by simp
    show ?thesis
      by (rule exI [of _ p], rule exI [of _ "take (nat dl) (drop L scr)"])
        (use dl ls lt in \<open>simp add: t' tb k S pv\<close>, simp add: p_def)
  qed
qed

lemma res_ex: "(\<And>e. m \<noteq> Inl e) \<Longrightarrow> \<exists>r. m = Inr r"
  by (cases m) auto

lemma Next_no_panic:
  assumes fit: "offsets_fit t" shows "\<exists>r. Next t = Inr r"
proof (cases "Done t")
  case False
  obtain k where k: "t_offset t = int k" using fit nonneg_int_cases unfolding offsets_fit_def by blast
  then have kl: "k < length (t_script t)" using False by (simp add: Done_fits [OF fit])
  then have at: "at_idx (t_script t) (int k) = Inr (t_script t ! k)" by (simp add: at_idx_nat)
  have sl: "slice (t_script t) (int k) (int (length (t_script t))) = Inr (drop k (t_script t))"
    "slice (t_script t) (int k + 1) (int (length (t_script t))) = Inr (drop (Suc k) (t_script t))"
    using kl slice_drop [of "int k" "t_script t"] slice_drop [of "int k + 1" "t_script t"]
    by (simp_all add: nat_add_distrib)
  define p where "p = opcodeArray (t_script t ! k)"
  have ex: "\<exists>d. slice xs i j = Inr d" if "0 \<le> i" "i \<le> j" "j \<le> int (length xs)" for xs :: bytes and i j
    using that by (simp add: slice_def)
  consider "op_length p = 1" | "1 < op_length p" | "op_length p < 0"
    using op_length_cases [of "t_script t ! k"] by (auto simp: p_def)
  then show ?thesis
  proof cases
    case 1
    then show ?thesis using False at by (intro res_ex) (auto simp add: Next_fits [OF fit] k simp flip: p_def)
  next
    case 2
    show ?thesis
    proof (cases "int (length (drop k (t_script t))) < op_length p")
      case True
      then show ?thesis using 2 False at sl by (intro res_ex) (auto simp: Next_fits [OF fit] Let_def k simp flip: p_def)
    next
      case n: False
      then obtain d where "slice (drop k (t_script t)) 1 (op_length p) = Inr d"
        using ex [of 1 "op_length p" "drop k (t_script t)"] 2 by (meson linorder_not_less less_imp_le zero_le_one)
      then show ?thesis using 2 n False at sl by (intro res_ex) (auto simp: Next_fits [OF fit] Let_def k simp flip: p_def)
    qed
  next
    case 3
    let ?scr = "drop (Suc k) (t_script t)"
    show ?thesis
    proof (cases "int (length ?scr) < - op_length p \<or> push_dataLen (op_length p) ?scr = None")
      case True
      then show ?thesis using 3 False at sl by (intro res_ex) (auto simp: Next_fits [OF fit] Let_def k simp flip: p_def)
    next
      case n: False
      then obtain dl where dl: "push_dataLen (op_length p) ?scr = Some dl" by auto
      obtain d where d: "slice ?scr (- op_length p) (int (length ?scr)) = Inr d"
        using ex [of "- op_length p" "int (length ?scr)" ?scr] n 3 by auto
      have "\<exists>r. slice d 0 dl = Inr r" if "\<not> (dl > int (length d) \<or> dl < 0)"
        using that ex [of 0 dl d] by auto
      then show ?thesis
        using 3 False at sl n dl d
        by (intro res_ex) (auto simp: Next_fits [OF fit] Let_def k simp flip: p_def)
    qed
  qed
qed (auto intro!: res_ex simp: Next_fits [OF fit])

lemma Next_False:
  assumes "Next t = Inr (False, t')"
  shows "(Done t \<and> t' = t) \<or> (\<not> Done t \<and> t_err t' = Some (ScriptError ErrMalformedPush) \<and>
           t_offset t' = t_offset t \<and> t_script t' = t_script t)"
  using assms
  by (auto simp: Next_def Let_def malformed_def bindE_Inr_iff split: if_splits option.splits)

subsection \<open>Scripts that parse\<close>

text \<open>A tokenizer from which the rest of the script parses without an error: the
precondition checkScriptParses establishes and every step keeps.\<close>

definition parses :: "tokenizer \<Rightarrow> bool" where
  "parses t \<longleftrightarrow> offsets_fit t \<and> (\<exists>t'. parse_loop t = Inr t' \<and> t_err t' = None)"

lemma parses_Next:
  assumes "parses t" "\<not> Done t"
  shows "\<exists>t'. Next t = Inr (True, t') \<and> parses t'"
proof -
  obtain b t' where n: "Next t = Inr (b, t')"
    using Next_no_panic [of t] assms(1) by (auto simp: parses_def)
  show ?thesis
  proof (cases b)
    case True
    then have "offsets_fit t'" using n assms Next_True_progress [of t t'] by (simp add: parses_def)
    with assms n True show ?thesis by (auto simp: parses_def parse_loop.simps [of t])
  next
    case False
    with n assms Next_False [of t t'] show ?thesis by (auto simp: parses_def parse_loop.simps [of t])
  qed
qed

lemma parses_err: "parses t \<Longrightarrow> t_err t = None"
proof -
  assume p: "parses t"
  show ?thesis
  proof (rule ccontr)
    assume "t_err t \<noteq> None"
    then have "Next t = Inr (False, t)" by (simp add: Next_def Done_def)
    with p \<open>t_err t \<noteq> None\<close> show False by (simp add: parses_def parse_loop.simps [of t])
  qed
qed

lemma parse_loop_no_err: "offsets_fit t \<Longrightarrow> \<exists>t'. parse_loop t = Inr t'"
proof (induction t rule: parse_loop.induct)
  case (1 t)
  obtain b t' where n: "Next t = Inr (b, t')" using Next_no_panic 1(2) by fastforce
  show ?case
  proof (cases b)
    case True
    then have "offsets_fit t'" using n 1(2) Next_True_progress [of t t'] by simp
    with 1 n True show ?thesis by (simp add: parse_loop.simps [of t])
  next
    case False
    with n show ?thesis by (simp add: parse_loop.simps [of t])
  qed
qed

lemma checkScriptParses_iff: "length s < 2 ^ 31 \<Longrightarrow> checkScriptParses v s = Inr u \<longleftrightarrow> parses (MakeScriptTokenizer v s)"
proof -
  assume "length s < 2 ^ 31"
  then have f: "offsets_fit (MakeScriptTokenizer v s)" by (rule offsets_fit_Make)
  then obtain t' where "parse_loop (MakeScriptTokenizer v s) = Inr t'"
    using parse_loop_no_err [of "MakeScriptTokenizer v s"] by blast
  then show ?thesis
    using f by (auto simp: checkScriptParses_def parses_def split: option.splits)
qed

text \<open>The bytes of the tokens read until the end.\<close>

function tokens :: "tokenizer \<Rightarrow> (opcode \<times> bytes) list" where
  "tokens t = (case Next t of Inr (True, t') \<Rightarrow>
      (case t_op t' of Some p \<Rightarrow> (p, t_data t') # tokens t' | None \<Rightarrow> []) | _ \<Rightarrow> [])"
  by pat_completeness auto

termination tokens
  by (relation "measure tok_measure") (simp_all add: Next_True_measure)

declare tokens.simps [simp del]

lemma tokens_step:
  "Next t = Inr (True, t') \<Longrightarrow> t_op t' = Some p \<Longrightarrow> tokens t = (p, t_data t') # tokens t'"
  "Next t = Inr (False, t') \<Longrightarrow> tokens t = []"
  by (simp_all add: tokens.simps [of t])

lemma parse_loop_step:
  "Next t = Inr (True, t') \<Longrightarrow> parse_loop t = parse_loop t'"
  "Next t = Inr (False, t') \<Longrightarrow> parse_loop t = Inr t'"
  by (simp_all add: parse_loop.simps [of t])

text \<open>The rules that run the tokenizer on a concrete script.\<close>

lemmas run_tokenizer =
  tokens_step parse_loop_step MakeScriptTokenizer_def Next_def Done_def at_idx_def slice_def
  op_length_opcodeArray push_dataLen_def checkScriptParses_def malformed_def int32_of_id

lemma tokens_parses:
  "parses t \<Longrightarrow> t_offset t \<le> int (length (t_script t)) \<Longrightarrow>
   concat (map (\<lambda>(p, d). token_bytes p d) (tokens t)) = drop (nat (t_offset t)) (t_script t)"
proof (induction t rule: tokens.induct)
  case (1 t)
  show ?case
  proof (cases "Done t")
    case True
    then have "t_offset t = int (length (t_script t))"
      using parses_err [OF 1(2)] 1(3) Done_fits [of t] 1(2) by (simp add: parses_def)
    with True show ?thesis by (simp add: tokens.simps [of t] Next_def)
  next
    case False
    obtain t' where t': "Next t = Inr (True, t')" "parses t'" using parses_Next [OF 1(2) False] by blast
    have fit: "offsets_fit t" using 1(2) by (simp add: parses_def)
    then have off: "0 \<le> t_offset t" by (simp add: offsets_fit_def)
    obtain p d where pd: "t_op t' = Some p" "t_data t' = d"
        "t_offset t' = t_offset t + int (length (token_bytes p d))"
        "t_offset t' \<le> int (length (t_script t))"
        "take (length (token_bytes p d)) (drop (nat (t_offset t)) (t_script t)) = token_bytes p d"
      using Next_True [OF t'(1) fit] by blast
    have s: "t_script t' = t_script t" using Next_True_progress [OF t'(1) fit] by blast
    have IH: "concat (map (\<lambda>(p, d). token_bytes p d) (tokens t')) = drop (nat (t_offset t')) (t_script t')"
      using 1(1) [OF t'(1)] t'(2) pd s by simp
    have nn: "nat (t_offset t') = length (token_bytes p d) + nat (t_offset t)"
      using off by (simp add: pd(3) nat_add_distrib)
    have "tokens t = (p, d) # tokens t'" using t'(1) pd by (simp add: tokens.simps [of t])
    then show ?thesis
      using IH s pd(5) by (simp add: nn) (metis append_take_drop_id drop_drop)
  qed
qed

subsection \<open>Properties\<close>

text \<open>C25: A script of fewer than 2 ^ 31 bytes that passes checkScriptParses is exactly the
concatenation of the tokens the tokenizer, with its int32 offsets, reads from it: each token is one
opcode byte, the little-endian length of the data for OP_PUSHDATA1, 2 and 4, and the data.  Nothing
is skipped and nothing is read twice.\<close>

theorem parsed_script_is_its_tokens:
  "\<lbrakk>length s < 2 ^ 31; checkScriptParses v s = Inr ()\<rbrakk> \<Longrightarrow>
   concat (map (\<lambda>(p, d). token_bytes p d) (tokens (MakeScriptTokenizer v s))) = s"
  using tokens_parses [of "MakeScriptTokenizer v s"]
  by (simp add: checkScriptParses_iff) (simp add: MakeScriptTokenizer_def)

theorem parsed_script_is_its_tokens_witness:
  "map snd (tokens (MakeScriptTokenizer 0 [0x4c, 2, 7, 9, 0x51])) = [[7, 9], []] \<and>
   concat (map (\<lambda>(p, d). token_bytes p d) (tokens (MakeScriptTokenizer 0 [0x4c, 2, 7, 9, 0x51])))
     = [0x4c, 2, 7, 9, 0x51]"
proof -
  have "map snd (tokens (MakeScriptTokenizer 0 [0x4c, 2, 7, 9, 0x51])) = [[7, 9], []]"
    by (simp add: run_tokenizer)
  moreover have "checkScriptParses 0 [0x4c, 2, 7, 9, 0x51] = Inr ()" by (simp add: run_tokenizer)
  ultimately show ?thesis using parsed_script_is_its_tokens [of "[0x4c, 2, 7, 9, 0x51]" 0] by simp
qed

text \<open>The tokenizer never panics on a script of fewer than 2 ^ 31 bytes: a step returns, and when it
reads an opcode the offset strictly grows and stays inside the script, the opcode counter
grows by one, and the data is at most what is left of the script; when it reports a parse
error the offset has not moved.\<close>

theorem tokenizer_step_safe:
  "offsets_fit t \<Longrightarrow>
   (\<exists>t'. Next t = Inr (True, t') \<and> t_offset t < t_offset t' \<and>
         t_offset t' \<le> int (length (t_script t)) \<and> t_opcodePos t' = t_opcodePos t + 1 \<and>
         int (length (t_data t')) < t_offset t' - t_offset t + 1) \<or>
   (\<exists>t'. Next t = Inr (False, t') \<and> t_offset t' = t_offset t \<and>
         (t_err t' = None \<longrightarrow> t_offset t \<ge> int (length (t_script t))))"
proof -
  assume off: "offsets_fit t"
  then obtain b t' where n: "Next t = Inr (b, t')" using Next_no_panic by fastforce
  show ?thesis
  proof (cases b)
    case True
    with n have nt: "Next t = Inr (True, t')" by simp
    obtain p d where "t_data t' = d" "t_offset t' = t_offset t + int (length (token_bytes p d))"
        "t_offset t' \<le> int (length (t_script t))"
      using Next_True [OF nt off] by blast
    then show ?thesis using nt Next_True_progress [OF nt off] by (auto simp: token_bytes_def)
  next
    case False
    with n have nf: "Next t = Inr (False, t')" by simp
    then show ?thesis using Next_False [OF nf] Done_fits [OF off] by auto
  qed
qed

theorem tokenizer_step_safe_witness:
  "\<exists>t'. Next (MakeScriptTokenizer 0 [0x02, 1]) = Inr (False, t') \<and>
        t_err t' = Some (ScriptError ErrMalformedPush) \<and> t_offset t' = 0"
proof -
  obtain t' where t': "Next (MakeScriptTokenizer 0 [0x02, 1]) = Inr (False, t')"
    "t_err t' = Some (ScriptError ErrMalformedPush)"
    by (simp add: run_tokenizer)
  then show ?thesis
    using tokenizer_step_safe [of "MakeScriptTokenizer 0 [0x02, 1]"]
    offsets_fit_Make [of "[0x02, 1]" 0] by (auto simp: MakeScriptTokenizer_def)
qed

end
