(* ===== verification/ComputeLimits.thy ===== *)
theory ComputeLimits
imports Opcodes
begin

text \<open>Model of pkg/arkade/compute_limits.go: the per-input execution caps of the heavy
opcodes and the request-wide budget shared by the inputs of one request.  A limit is a Go
int (64 bits); the mutex of ComputeBudget only serialises the charges, which are atomic
here.\<close>

type_synonym ComputeLimits = "byte \<rightharpoonup> int"

definition all_bytes :: "byte list" where
  "all_bytes = map word_of_int [0..255]"

lemma set_all_bytes [simp]: "set all_bytes = UNIV"
proof -
  have "b \<in> set all_bytes" for b
  proof -
    have "uint b < 256" using uint_lt2p [of b] by simp
    then have "uint b \<in> {0..255}" by simp
    then show ?thesis unfolding all_bytes_def set_map set_upto by (metis image_eqI word_of_int_uint)
  qed
  then show ?thesis by blast
qed

definition Limits_Validate :: "ComputeLimits \<Rightarrow> unit res" where
  "Limits_Validate c =
     (if list_ex (\<lambda>op. case c op of Some limit \<Rightarrow> limit < 0 | None \<Rightarrow> False) all_bytes
      then go_err ''compute limit is negative'' else Inr ())"

definition DefaultComputeLimits :: ComputeLimits where
  "DefaultComputeLimits =
     [OP_CHECKSIG \<mapsto> 50, OP_CHECKSIGVERIFY \<mapsto> 50, OP_CHECKSIGADD \<mapsto> 50, OP_CHECKSIGFROMSTACK \<mapsto> 50,
      OP_ECADD \<mapsto> 1000, OP_ECMUL \<mapsto> 50, OP_ECMULSCALARVERIFY \<mapsto> 50, OP_TWEAKVERIFY \<mapsto> 50,
      OP_ECPAIRING \<mapsto> 2, OP_MODEXP \<mapsto> 64]"

definition requestInputBudget :: int where "requestInputBudget = 4"

definition MaxInt :: int where "MaxInt = 2 ^ 63 - 1"

definition cloneComputeLimits :: "ComputeLimits \<Rightarrow> ComputeLimits" where
  "cloneComputeLimits c = c"

text \<open>Scaling by the budget: saturated above, wrapped to 64 bits otherwise (as Go's int).\<close>

definition AggregateComputeLimits :: "ComputeLimits \<Rightarrow> ComputeLimits" where
  "AggregateComputeLimits c =
     (\<lambda>op. map_option (\<lambda>limit. if limit > MaxInt div requestInputBudget then MaxInt
                               else sint (word_of_int (limit * requestInputBudget) :: int64))
             (cloneComputeLimits c op))"

definition DefaultAggregateComputeLimits :: ComputeLimits where
  "DefaultAggregateComputeLimits = AggregateComputeLimits DefaultComputeLimits"

record computeBudget =
  cb_limits :: ComputeLimits
  cb_opCounts :: "byte \<Rightarrow> int"

definition NewComputeBudgetWithLimits :: "ComputeLimits \<Rightarrow> computeBudget" where
  "NewComputeBudgetWithLimits c = \<lparr>cb_limits = cloneComputeLimits c, cb_opCounts = (\<lambda>_. 0)\<rparr>"

definition NewComputeBudget :: computeBudget where
  "NewComputeBudget = NewComputeBudgetWithLimits DefaultAggregateComputeLimits"

text \<open>charge: a nil budget is never charged.  On an error the request is abandoned, so the
count it leaves is not kept.\<close>

definition charge :: "byte \<Rightarrow> computeBudget option \<Rightarrow> computeBudget option res" where
  "charge op b =
     (case b of None \<Rightarrow> Inr None
      | Some cb \<Rightarrow>
          (case cb_limits cb op of None \<Rightarrow> Inr b
           | Some limit \<Rightarrow>
               let cb' = cb\<lparr>cb_opCounts := (cb_opCounts cb)(op := cb_opCounts cb op + 1)\<rparr>
               in if cb_opCounts cb' op > limit then script_err ErrScriptTooBig else Inr (Some cb')))"

subsection \<open>Facts\<close>

lemma Limits_Validate_iff:
  "Limits_Validate c = Inr () \<longleftrightarrow> (\<forall>op limit. c op = Some limit \<longrightarrow> 0 \<le> limit)"
proof -
  have "(case c op of Some limit \<Rightarrow> limit < 0 | None \<Rightarrow> False) \<longleftrightarrow> (\<exists>limit. c op = Some limit \<and> \<not> 0 \<le> limit)"
    for op by (cases "c op") auto
  then show ?thesis by (auto simp: Limits_Validate_def list_ex_iff)
qed

lemma AggregateComputeLimits_eq:
  assumes "c op = Some limit" "0 \<le> limit"
  shows "AggregateComputeLimits c op = Some (min (limit * 4) MaxInt)"
proof (cases "limit > MaxInt div 4")
  case True
  then show ?thesis
    using assms by (auto simp: AggregateComputeLimits_def cloneComputeLimits_def requestInputBudget_def MaxInt_def)
next
  case False
  then have "limit * 4 \<le> MaxInt" by (simp add: MaxInt_def)
  moreover from this have "sint (word_of_int (limit * 4) :: int64) = limit * 4"
    using assms(2)
    by (simp only: sint_sbintrunc') (simp add: MaxInt_def signed_take_bit_int_eq_self)
  ultimately show ?thesis
    using assms False by (simp add: AggregateComputeLimits_def cloneComputeLimits_def requestInputBudget_def)
qed

text \<open>No count of a budget is above its limit; charging keeps it so.\<close>

definition budget_ok :: "computeBudget option \<Rightarrow> bool" where
  "budget_ok b \<longleftrightarrow> (case b of None \<Rightarrow> True
     | Some cb \<Rightarrow> (\<forall>op limit. cb_limits cb op = Some limit \<longrightarrow> cb_opCounts cb op \<le> limit))"

lemma charge_ok: "budget_ok b \<Longrightarrow> okE budget_ok (charge op b)"
  by (auto simp: charge_def budget_ok_def Let_def split: option.splits)

lemma charge_limits:
  "charge op b = Inr b' \<Longrightarrow> map_option cb_limits b' = map_option cb_limits b"
  by (auto simp: charge_def Let_def split: option.splits if_splits)

lemma new_budget_ok:
  "(\<forall>op limit. c op = Some limit \<longrightarrow> 0 \<le> limit) \<Longrightarrow> budget_ok (Some (NewComputeBudgetWithLimits c))"
  by (simp add: budget_ok_def NewComputeBudgetWithLimits_def cloneComputeLimits_def)

subsection \<open>Properties\<close>

text \<open>C28: A valid per-input table gives a request-wide table that caps the same opcodes,
each at four times its limit saturated at the largest int, so that no wrapped or smaller
cap appears and one input alone can never exhaust the request.\<close>

theorem aggregate_limits_sound:
  "Limits_Validate c = Inr () \<Longrightarrow>
   dom (AggregateComputeLimits c) = dom c \<and>
   Limits_Validate (AggregateComputeLimits c) = Inr () \<and>
   (case c op of None \<Rightarrow> AggregateComputeLimits c op = None
    | Some limit \<Rightarrow> AggregateComputeLimits c op = Some (min (limit * 4) MaxInt))"
proof -
  assume v: "Limits_Validate c = Inr ()"
  have n: "AggregateComputeLimits c op = None" if "c op = None" for op
    using that by (simp add: AggregateComputeLimits_def cloneComputeLimits_def)
  have s: "AggregateComputeLimits c op = Some (min (limit * 4) MaxInt) \<and> 0 \<le> min (limit * 4) MaxInt"
    if "c op = Some limit" for op limit
    using v that AggregateComputeLimits_eq [of c op limit] by (simp add: Limits_Validate_iff MaxInt_def)
  have "c op = None \<longleftrightarrow> AggregateComputeLimits c op = None" for op
    using n [of op] s [of op] by (cases "c op") auto
  then have "dom (AggregateComputeLimits c) = dom c" by (simp add: dom_def)
  moreover have "0 \<le> limit" if "AggregateComputeLimits c op = Some limit" for op limit
    using that n [of op] s [of op] by (cases "c op") auto
  then have "Limits_Validate (AggregateComputeLimits c) = Inr ()" by (simp add: Limits_Validate_iff)
  moreover have "case c op of None \<Rightarrow> AggregateComputeLimits c op = None
    | Some limit \<Rightarrow> AggregateComputeLimits c op = Some (min (limit * 4) MaxInt)"
    using n [of op] s [of op] by (cases "c op") auto
  ultimately show ?thesis by blast
qed

theorem aggregate_limits_sound_witness:
  "Limits_Validate DefaultComputeLimits = Inr () \<and>
   AggregateComputeLimits DefaultComputeLimits OP_ECPAIRING = Some 8"
proof -
  have "Limits_Validate DefaultComputeLimits = Inr ()"
    by (auto simp: Limits_Validate_iff DefaultComputeLimits_def split: if_splits)
  then show ?thesis
    using aggregate_limits_sound [of DefaultComputeLimits OP_ECPAIRING]
    by (simp add: DefaultComputeLimits_def MaxInt_def)
qed

end
