(* ===== verification/VmState.thy ===== *)
theory VmState
imports VmStack Tokenizer ComputeLimits
begin

text \<open>The state of the interpreter (the Engine struct of pkg/arkade/engine.go), the
transaction data it reads, and the record lib of everything it calls that is not under src/:
hash functions, curve arithmetic, the btcd transaction and taproot helpers, and the ark-lib
extension and asset parsers.  No definition is given for those: they are the argument L of
the handlers, and what a property needs of them is a premise of that property.\<close>

subsection \<open>Transactions\<close>

text \<open>The wire types of btcd, with the fields the interpreter reads.  A hash is its 32 bytes.\<close>

record outpoint =
  op_hash :: bytes
  op_index :: "32 word"

record txin =
  PreviousOutPoint :: outpoint
  SignatureScript :: bytes
  Witness :: "bytes list"
  Sequence :: "32 word"

record txout =
  out_value :: int64
  PkScript :: bytes

record msgtx =
  tx_version :: "32 word"
  TxIn :: "txin list"
  TxOut :: "txout list"
  LockTime :: "32 word"

text \<open>ArkPrevOutFetcher (script.go): the two lookups it adds to FetchPrevOutput.  A nil result
is None.\<close>

record fetcher =
  FetchPrevOutput :: "outpoint \<Rightarrow> txout option"
  FetchPrevOutArkTx :: "outpoint \<Rightarrow> msgtx option"
  FetchVtxoPrevOutPkScript :: "outpoint \<Rightarrow> bytes option"

text \<open>The midstates of txscript.TxSigHashes that the sighash reads.\<close>

record sighashes =
  HashPrevOutsV1 :: bytes
  HashInputAmountsV1 :: bytes
  HashInputScriptsV1 :: bytes
  HashSequenceV1 :: bytes

subsection \<open>Assets and packets\<close>

record assetId =
  Txid :: bytes
  aid_Index :: "16 word"

datatype assetRef =
    AssetRefByID assetId
  | AssetRefByGroup "16 word"
  | AssetRefOther

text \<open>An asset input of type AssetInputTypeIntent carries a transaction id; the tag is the
byte pushed on the stack.\<close>

record assetInput =
  in_Type :: byte
  in_Txid :: bytes
  in_Vin :: "16 word"
  in_Amount :: uint64

record assetOutput =
  out_Vout :: "16 word"
  out_Amount :: uint64

type_synonym metadata = "bytes \<times> bytes"

record assetGroup =
  AssetId :: "assetId option"
  ControlAsset :: "assetRef option"
  Inputs :: "assetInput list"
  Outputs :: "assetOutput list"
  Metadata :: "metadata list"

record emulatorEntry =
  Vin :: "16 word"
  ent_Script :: bytes
  ent_Witness :: "bytes list"

text \<open>A packet of the ark-lib extension: UnknownPacket with its type and data, or one of the
packets ark-lib itself decodes, of which only the type is looked at here.\<close>

datatype ext_packet =
    UnknownPacket byte bytes
  | OtherPacket byte bytes

fun packet_Type :: "ext_packet \<Rightarrow> byte" where
  "packet_Type (UnknownPacket t _) = t"
| "packet_Type (OtherPacket t _) = t"

subsection \<open>Everything that is not under src/\<close>

text \<open>An affine curve point; the state of a running SHA-256 is opaque (its bytes are not
looked at).\<close>

type_synonym point = "nat \<times> nat"
type_synonym sha_state = bytes

record lib_hash =
  sha256 :: "bytes \<Rightarrow> bytes"
  sha1 :: "bytes \<Rightarrow> bytes"
  ripemd160 :: "bytes \<Rightarrow> bytes"
  keccak256 :: "bytes \<Rightarrow> bytes"
  sha3_256 :: "bytes \<Rightarrow> bytes"
  TaggedHash :: "bytes \<Rightarrow> bytes \<Rightarrow> bytes"
  sha256_New :: sha_state
  sha256_Write :: "sha_state \<Rightarrow> bytes \<Rightarrow> sha_state"
  sha256_Sum :: "sha_state \<Rightarrow> bytes"
  gob_Encode :: "sha_state \<Rightarrow> bytes"
  gob_Decode :: "bytes \<Rightarrow> sha_state option"
  sha256_Marshal :: "sha_state \<Rightarrow> bytes"

record lib_sig = lib_hash +
  schnorr_ParsePubKey :: "bytes \<Rightarrow> point res"
  schnorr_SerializePubKey :: "point \<Rightarrow> bytes"
  schnorr_ParseSignature :: "bytes \<Rightarrow> (nat \<times> nat) option"
  schnorr_Verify :: "nat \<times> nat \<Rightarrow> bytes \<Rightarrow> point \<Rightarrow> bool"
  secp_ParsePubKey :: "bytes \<Rightarrow> point option"
  secp_ecdsa_Verify :: "nat \<Rightarrow> nat \<Rightarrow> bytes \<Rightarrow> point \<Rightarrow> bool"
  modn_SetByteSlice :: "bytes \<Rightarrow> nat \<times> bool"
  modn_IsOverHalfOrder :: "nat \<Rightarrow> bool"
  field_SetByteSlice :: "bytes \<Rightarrow> nat \<times> bool"
  DecompressY :: "nat \<Rightarrow> bool \<Rightarrow> nat option"
  ScalarMult :: "nat \<Rightarrow> point \<Rightarrow> point"
  ScalarBaseMult :: "nat \<Rightarrow> point"
  AddNonConst :: "point \<Rightarrow> point \<Rightarrow> point"
  SerializeCompressed :: "point \<Rightarrow> bytes"
  p256_UnmarshalCompressed :: "bytes \<Rightarrow> point option"
  p256_ParseUncompressed :: "bytes \<Rightarrow> point option"
  p256_ecdsa_Verify :: "point \<Rightarrow> bytes \<Rightarrow> nat \<Rightarrow> nat \<Rightarrow> bool"
  sigCache_Add :: "bytes \<times> bytes \<times> bytes \<Rightarrow> (bytes \<times> bytes \<times> bytes) list \<Rightarrow> (bytes \<times> bytes \<times> bytes) list"

record lib_ec = lib_sig +
  k1_IsOnCurve :: "int \<times> int \<Rightarrow> bool"
  k1_Add :: "int \<times> int \<Rightarrow> int \<times> int \<Rightarrow> int \<times> int"
  k1_ScalarMul :: "int \<times> int \<Rightarrow> int \<Rightarrow> int \<times> int"
  k1_fieldModulus :: int
  k1_groupOrder :: int
  bn_IsOnCurve :: "int \<times> int \<Rightarrow> bool"
  bn_Add :: "int \<times> int \<Rightarrow> int \<times> int \<Rightarrow> int \<times> int"
  bn_ScalarMul :: "int \<times> int \<Rightarrow> int \<Rightarrow> int \<times> int"
  bn_fieldModulus :: int
  bn_groupOrder :: int
  bn_G2_IsOnCurve :: "(int \<times> int) \<times> (int \<times> int) \<Rightarrow> bool"
  bn_G2_IsInSubGroup :: "(int \<times> int) \<times> (int \<times> int) \<Rightarrow> bool"
  bn_PairingCheck :: "(int \<times> int) list \<Rightarrow> ((int \<times> int) \<times> (int \<times> int)) list \<Rightarrow> bool res"
  p256_IsOnCurve :: "int \<times> int \<Rightarrow> bool"
  p256_Add :: "int \<times> int \<Rightarrow> int \<times> int \<Rightarrow> int \<times> int"
  p256_ScalarMult :: "int \<times> int \<Rightarrow> int \<Rightarrow> int \<times> int"

record lib_tx = lib_ec +
  TxHash :: "msgtx \<Rightarrow> bytes"
  SerializeSizeStripped :: "msgtx \<Rightarrow> int"
  IsWitnessProgram :: "bytes \<Rightarrow> bool"
  ExtractWitnessProgramInfo :: "bytes \<Rightarrow> (int \<times> bytes) res"
  IsPushOnlyScript :: "bytes \<Rightarrow> bool"
  cb_Parse :: "bytes \<Rightarrow> (byte \<times> bytes) res"
  tap_VerifyLeafCommitment :: "byte \<times> bytes \<Rightarrow> bytes \<Rightarrow> bytes \<Rightarrow> unit res"
  tap_VerifyKeySpend :: "bytes \<Rightarrow> bytes \<Rightarrow> msgtx \<Rightarrow> int \<Rightarrow> fetcher option \<Rightarrow> sighashes \<Rightarrow>
    (bytes \<times> bytes \<times> bytes) list option \<Rightarrow> (bytes \<times> bytes \<times> bytes) list option res"
  TapHash :: "byte \<Rightarrow> bytes \<Rightarrow> bytes"
  WriteOutPoint :: "outpoint \<Rightarrow> bytes"
  WriteTxOut :: "txout \<Rightarrow> bytes"
  WriteVarBytes :: "bytes \<Rightarrow> bytes"
  WriteVarInt :: "nat \<Rightarrow> bytes"
  ReadVarInt :: "bytes \<Rightarrow> (nat \<times> bytes) res"
  WriteTxWitness :: "bytes list \<Rightarrow> bytes"
  ReadTxWitness :: "bytes \<Rightarrow> bytes list res"

text \<open>The closures ark-lib decodes from a tapscript, with the keys of those that carry some.\<close>

datatype closure =
    MultisigClosure "point list"
  | CSVMultisigClosure "point list"
  | CLTVMultisigClosure "point list"
  | ConditionMultisigClosure "point list"
  | ConditionCSVMultisigClosure "point list"
  | OtherClosure

text \<open>The result None of NewExtensionFromTx is the error ErrExtensionNotFound.\<close>

record lib = lib_tx +
  NewExtensionFromTx :: "msgtx \<Rightarrow> ext_packet list option res"
  IsExtension :: "bytes \<Rightarrow> bool"
  NewExtensionFromBytes :: "bytes \<Rightarrow> ext_packet list res"
  ext_Serialize :: "ext_packet list \<Rightarrow> bytes res"
  packet_Serialize :: "ext_packet \<Rightarrow> bytes res"
  GetAssetPacket :: "ext_packet list \<Rightarrow> assetGroup list option"
  metadata_Serialize :: "metadata \<Rightarrow> bytes res"
  AssetInputTypeIntent :: byte
  NewTxSigHashes :: "msgtx \<Rightarrow> fetcher \<Rightarrow> sighashes"
  IsPayToTaproot :: "bytes \<Rightarrow> bool"
  DecodeClosure :: "bytes \<Rightarrow> closure res"

subsection \<open>The engine\<close>

record tapLeaf =
  LeafVersion :: byte
  leaf_Script :: bytes

record taprootCtx =
  annex :: bytes
  codeSepPos :: "32 word"
  ctx_tapLeaf :: tapLeaf
  tapLeafHash :: bytes
  opCounts :: "byte \<Rightarrow> int"
  mustSucceed :: bool

datatype condVal = OpCondFalse | OpCondTrue | OpCondSkip

text \<open>The Engine struct.  The step callback only observes the run and is not modelled.  The
signature cache is the list of its entries.\<close>

record vm =
  tx :: msgtx
  txIdx :: int
  version :: nat
  sigCache :: "(bytes \<times> bytes \<times> bytes) list option"
  hashCache :: sighashes
  prevOutFetcher :: "fetcher option"
  assetPacket :: "assetGroup list option"
  emulatorPacket :: "emulatorEntry list option"
  scripts :: "bytes list"
  scriptIdx :: int
  opcodeIdx :: int
  tokenizer :: tokenizer
  dstack :: stack
  astack :: stack
  condStack :: "condVal list"
  witnessVersion :: int
  witnessProgram :: "bytes option"
  inputAmount :: int64
  taprootCtx :: "taprootCtx option"
  limits :: ComputeLimits
  budget :: "computeBudget option"

definition blankCodeSepValue :: "32 word" where
  "blankCodeSepValue = 0xffffffff"

definition newTaprootExecutionCtx :: taprootCtx where
  "newTaprootExecutionCtx =
     \<lparr>annex = [], codeSepPos = blankCodeSepValue,
      ctx_tapLeaf = \<lparr>LeafVersion = 0, leaf_Script = []\<rparr>, tapLeafHash = replicate 32 0,
      opCounts = (\<lambda>_. 0), mustSucceed = False\<rparr>"

definition newTaprootExecutionCtxForLeaf :: "lib \<Rightarrow> tapLeaf \<Rightarrow> taprootCtx" where
  "newTaprootExecutionCtxForLeaf L leaf =
     newTaprootExecutionCtx
       \<lparr>ctx_tapLeaf := leaf, tapLeafHash := TapHash L (LeafVersion leaf) (leaf_Script leaf)\<rparr>"

definition MaxScriptElementSize :: nat where "MaxScriptElementSize = 520"
definition MaxStackSize :: int where "MaxStackSize = 1000"
definition MaxScriptSize :: nat where "MaxScriptSize = 10000"

end
