(* ===== verification/VmInv.thy ===== *)
theory VmInv
imports VmState
begin

text \<open>The invariant every opcode handler keeps, and the rules that prove it.  A handler
either fails with an error that is not a panic, or returns an engine in which only the two
stacks, the condition stack, the code-separator position and the signature cache can have
changed, and whose stack items are within the size bound M.  The rules of okE_rules
describe the stack methods in that style, so that a handler's proof is one call.\<close>

type_synonym handler = "lib \<Rightarrow> opcode \<Rightarrow> bytes \<Rightarrow> vm \<Rightarrow> vm res"

definition on_dstack :: "(stack \<Rightarrow> stack res) \<Rightarrow> vm \<Rightarrow> vm res" where
  "on_dstack f vm = bindE (f (dstack vm)) (\<lambda>s. Inr (vm\<lparr>dstack := s\<rparr>))"

definition isBranchExecuting :: "vm \<Rightarrow> bool" where
  "isBranchExecuting vm =
     (if length (condStack vm) = 0 then True else last (condStack vm) = OpCondTrue)"

subsection \<open>Documented behaviour of the libraries\<close>

text \<open>What the handlers rely on in lib: digests have their size, a serialised SHA-256 state
and a witness program fit in a stack item, the version of a witness program is a small
number, a P-256 coordinate has 32 bytes, a gob encoding ends in the marshaled state, a
transaction has a size, and no library call panics.\<close>

definition lib_ok :: "lib \<Rightarrow> bool" where
  "lib_ok L \<longleftrightarrow>
     (\<forall>b. length (sha256 L b) = 32) \<and> (\<forall>b. length (sha1 L b) = 20) \<and>
     (\<forall>b. length (ripemd160 L b) = 20) \<and> (\<forall>b. length (keccak256 L b) = 32) \<and>
     (\<forall>b. length (sha3_256 L b) = 32) \<and> (\<forall>t b. length (TaggedHash L t b) = 32) \<and>
     (\<forall>s. length (sha256_Sum L s) = 32) \<and> (\<forall>s. length (gob_Encode L s) \<le> 520) \<and>
     length (sha256_Marshal L (sha256_New L)) \<le> length (gob_Encode L (sha256_New L)) \<and>
     (\<forall>b x y. p256_UnmarshalCompressed L b = Some (x, y) \<longrightarrow> x < 2 ^ 256 \<and> y < 2 ^ 256) \<and>
     (\<forall>t. length (TxHash L t) = 32) \<and>
     (\<forall>t. 0 \<le> SerializeSizeStripped L t \<and> SerializeSizeStripped L t < 2 ^ 32) \<and>
     (\<forall>b. okE (\<lambda>(v, p). 0 \<le> v \<and> v \<le> 16 \<and> length p \<le> 40) (ExtractWitnessProgramInfo L b)) \<and>
     (\<forall>b. okE (\<lambda>_. True) (schnorr_ParsePubKey L b)) \<and>
     (\<forall>a b. okE (\<lambda>_. True) (bn_PairingCheck L a b)) \<and>
     (\<forall>b. okE (\<lambda>_. True) (cb_Parse L b)) \<and>
     (\<forall>c p s. okE (\<lambda>_. True) (tap_VerifyLeafCommitment L c p s)) \<and>
     (\<forall>p s t i f h c. okE (\<lambda>_. True) (tap_VerifyKeySpend L p s t i f h c)) \<and>
     (\<forall>t. okE (\<lambda>_. True) (NewExtensionFromTx L t)) \<and>
     (\<forall>b. okE (\<lambda>_. True) (NewExtensionFromBytes L b)) \<and>
     (\<forall>e. okE (\<lambda>_. True) (ext_Serialize L e)) \<and> (\<forall>p. okE (\<lambda>_. True) (packet_Serialize L p)) \<and>
     (\<forall>m. okE (\<lambda>_. True) (metadata_Serialize L m)) \<and> (\<forall>b. okE (\<lambda>_. True) (DecodeClosure L b)) \<and>
     (\<forall>b. okE (\<lambda>_. True) (ReadVarInt L b)) \<and> (\<forall>b. okE (\<lambda>_. True) (ReadTxWitness L b))"

subsection \<open>The invariant\<close>

definition bounded :: "nat \<Rightarrow> stack \<Rightarrow> bool" where
  "bounded M s \<longleftrightarrow> 520 \<le> M \<and> M < 2 ^ 31 \<and> verifyMinimalData s \<and> (\<forall>x \<in> set (stk s). length x \<le> M)"

text \<open>The assets of the transaction: identifiers are 32 bytes, and the packet fits in memory.
The prevout fetcher is set: NewEngine accepts a nil one, with which a sighash under
SIGHASH_ANYONECANPAY dereferences nil.\<close>

definition group_ok :: "assetGroup \<Rightarrow> bool" where
  "group_ok g \<longleftrightarrow> length (Inputs g) < 2 ^ 31 \<and> length (Outputs g) < 2 ^ 31 \<and>
     (\<forall>i \<in> set (Inputs g). length (in_Txid i) = 32) \<and>
     (case AssetId g of None \<Rightarrow> True | Some a \<Rightarrow> length (Txid a) = 32) \<and>
     (case ControlAsset g of Some (AssetRefByID a) \<Rightarrow> length (Txid a) = 32 | _ \<Rightarrow> True)"

definition packet_ok :: "assetGroup list \<Rightarrow> bool" where
  "packet_ok gs \<longleftrightarrow> length gs < 2 ^ 31 \<and> (\<forall>g \<in> set gs. group_ok g) \<and>
     sum_list (map (length \<circ> Inputs) gs) < 2 ^ 31 \<and> sum_list (map (length \<circ> Outputs) gs) < 2 ^ 31"

definition env_ok :: "vm \<Rightarrow> bool" where
  "env_ok vm \<longleftrightarrow> 0 \<le> txIdx vm \<and> txIdx vm < int (length (TxIn (tx vm))) \<and>
     length (TxIn (tx vm)) < 2 ^ 31 \<and> length (TxOut (tx vm)) < 2 ^ 31 \<and> prevOutFetcher vm \<noteq> None \<and>
     (\<forall>i \<in> set (TxIn (tx vm)). length (op_hash (PreviousOutPoint i)) = 32) \<and>
     (case assetPacket vm of None \<Rightarrow> True
      | Some gs \<Rightarrow> packet_ok gs)"

definition vm_ok :: "nat \<Rightarrow> vm \<Rightarrow> bool" where
  "vm_ok M vm \<longleftrightarrow> bounded M (dstack vm) \<and> bounded M (astack vm) \<and> env_ok vm \<and>
     length (stk (dstack vm)) < 2 ^ 31"

definition ctx_frame :: "taprootCtx option \<Rightarrow> taprootCtx option \<Rightarrow> bool" where
  "ctx_frame c c' \<longleftrightarrow> (\<exists>p. c' = map_option (\<lambda>x. x\<lparr>codeSepPos := p\<rparr>) c) \<or> c' = c"

definition frame :: "vm \<Rightarrow> vm \<Rightarrow> bool" where
  "frame vm vm' \<longleftrightarrow>
     (\<exists>sc d a k t. vm' = vm\<lparr>sigCache := sc, dstack := d, astack := a, condStack := k, taprootCtx := t\<rparr> \<and>
        ctx_frame (taprootCtx vm) t)"

definition keeps :: "nat \<Rightarrow> vm \<Rightarrow> vm \<Rightarrow> bool" where
  "keeps M vm vm' \<longleftrightarrow> frame vm vm' \<and> bounded M (dstack vm') \<and> bounded M (astack vm')"

abbreviation handler_ok :: "nat \<Rightarrow> vm \<Rightarrow> vm res \<Rightarrow> bool" where
  "handler_ok M vm m \<equiv> okE (keeps M vm) m"

lemma ctx_frame_refl [simp]: "ctx_frame c c"
  by (simp add: ctx_frame_def)

lemma ctx_frame_codeSep [simp]: "ctx_frame (Some c) (Some (c\<lparr>codeSepPos := p\<rparr>))"
  by (auto simp: ctx_frame_def)

lemma ctx_frame_trans: "ctx_frame a b \<Longrightarrow> ctx_frame b c \<Longrightarrow> ctx_frame a c"
  by (cases a) (auto simp: ctx_frame_def)

lemma frameI:
  "ctx_frame (taprootCtx vm) t \<Longrightarrow>
   frame vm (vm\<lparr>sigCache := sc, dstack := d, astack := a, condStack := k, taprootCtx := t\<rparr>)"
  unfolding frame_def by blast

lemma frame_refl [simp]: "frame vm vm"
  using frameI [where vm = vm and t = "taprootCtx vm" and sc = "sigCache vm" and d = "dstack vm" and a = "astack vm" and k = "condStack vm"] by simp

lemma frame_trans: "frame a b \<Longrightarrow> frame b c \<Longrightarrow> frame a c"
proof -
  assume ab: "frame a b" and bc: "frame b c"
  obtain sc d s k t where b: "b = a\<lparr>sigCache := sc, dstack := d, astack := s, condStack := k, taprootCtx := t\<rparr>"
    "ctx_frame (taprootCtx a) t" using ab unfolding frame_def by blast
  obtain sc' d' s' k' t' where c: "c = b\<lparr>sigCache := sc', dstack := d', astack := s', condStack := k', taprootCtx := t'\<rparr>"
    "ctx_frame (taprootCtx b) t'" using bc unfolding frame_def by blast
  have "ctx_frame (taprootCtx a) t'" using b c ctx_frame_trans by simp
  then have "frame a (a\<lparr>sigCache := sc', dstack := d', astack := s', condStack := k', taprootCtx := t'\<rparr>)"
    by (rule frameI)
  moreover have "c = a\<lparr>sigCache := sc', dstack := d', astack := s', condStack := k', taprootCtx := t'\<rparr>"
    unfolding c(1) b(1) by simp
  ultimately show ?thesis by simp
qed

lemma frame_dstack [simp]: "frame vm (vm\<lparr>dstack := d\<rparr>)"
  using frameI [where vm = vm and t = "taprootCtx vm" and sc = "sigCache vm" and d = d
      and a = "astack vm" and k = "condStack vm"] by simp

lemma frame_astack [simp]: "frame vm (vm\<lparr>astack := a\<rparr>)"
  using frameI [where vm = vm and t = "taprootCtx vm" and sc = "sigCache vm" and d = "dstack vm"
      and a = a and k = "condStack vm"] by simp

lemma frame_condStack [simp]: "frame vm (vm\<lparr>condStack := k\<rparr>)"
  using frameI [where vm = vm and t = "taprootCtx vm" and sc = "sigCache vm" and d = "dstack vm"
      and a = "astack vm" and k = k] by simp

lemma frame_sigCache [simp]: "frame vm (vm\<lparr>sigCache := c\<rparr>)"
  using frameI [where vm = vm and t = "taprootCtx vm" and sc = c and d = "dstack vm"
      and a = "astack vm" and k = "condStack vm"] by simp

lemma frame_taprootCtx: "ctx_frame (taprootCtx vm) t \<Longrightarrow> frame vm (vm\<lparr>taprootCtx := t\<rparr>)"
  using frameI [where vm = vm and t = t and sc = "sigCache vm" and d = "dstack vm"
      and a = "astack vm" and k = "condStack vm"] by simp

lemma frame_fields:
  assumes "frame vm vm'"
  shows "tx vm' = tx vm" "txIdx vm' = txIdx vm" "version vm' = version vm"
    "hashCache vm' = hashCache vm" "prevOutFetcher vm' = prevOutFetcher vm"
    "assetPacket vm' = assetPacket vm" "emulatorPacket vm' = emulatorPacket vm"
    "scripts vm' = scripts vm" "scriptIdx vm' = scriptIdx vm" "opcodeIdx vm' = opcodeIdx vm"
    "tokenizer vm' = tokenizer vm" "witnessProgram vm' = witnessProgram vm"
    "witnessVersion vm' = witnessVersion vm" "limits vm' = limits vm" "budget vm' = budget vm"
    "map_option opCounts (taprootCtx vm') = map_option opCounts (taprootCtx vm)"
    "map_option mustSucceed (taprootCtx vm') = map_option mustSucceed (taprootCtx vm)"
proof -
  obtain sc d s k t where v: "vm' = vm\<lparr>sigCache := sc, dstack := d, astack := s, condStack := k, taprootCtx := t\<rparr>"
    "ctx_frame (taprootCtx vm) t" using assms unfolding frame_def by blast
  show "tx vm' = tx vm" "txIdx vm' = txIdx vm" "version vm' = version vm"
    "hashCache vm' = hashCache vm" "prevOutFetcher vm' = prevOutFetcher vm"
    "assetPacket vm' = assetPacket vm" "emulatorPacket vm' = emulatorPacket vm"
    "scripts vm' = scripts vm" "scriptIdx vm' = scriptIdx vm" "opcodeIdx vm' = opcodeIdx vm"
    "tokenizer vm' = tokenizer vm" "witnessProgram vm' = witnessProgram vm"
    "witnessVersion vm' = witnessVersion vm" "limits vm' = limits vm" "budget vm' = budget vm"
    by (simp_all add: v(1))
  show "map_option opCounts (taprootCtx vm') = map_option opCounts (taprootCtx vm)"
    "map_option mustSucceed (taprootCtx vm') = map_option mustSucceed (taprootCtx vm)"
    using v(2) by (auto simp: v(1) ctx_frame_def option.map_comp o_def)
qed

lemma env_ok_frame: "frame vm vm' \<Longrightarrow> env_ok vm \<Longrightarrow> env_ok vm'"
  by (simp add: env_ok_def frame_fields)

lemma keeps_trans: "keeps M a b \<Longrightarrow> keeps M b c \<Longrightarrow> keeps M a c"
  using frame_trans by (auto simp: keeps_def)

lemma keeps_refl: "vm_ok M vm \<Longrightarrow> keeps M vm vm"
  by (simp add: keeps_def vm_ok_def)

lemma keeps_dstack: "keeps M vm vm1 \<Longrightarrow> bounded M s \<Longrightarrow> keeps M vm (vm1\<lparr>dstack := s\<rparr>)"
  using frame_trans [OF _ frame_dstack] by (auto simp: keeps_def)

lemma keeps_astack: "keeps M vm vm1 \<Longrightarrow> bounded M s \<Longrightarrow> keeps M vm (vm1\<lparr>astack := s\<rparr>)"
  using frame_trans [OF _ frame_astack] by (auto simp: keeps_def)

lemma keeps_condStack: "keeps M vm vm1 \<Longrightarrow> keeps M vm (vm1\<lparr>condStack := k\<rparr>)"
  using frame_trans [OF _ frame_condStack] by (auto simp: keeps_def)

lemma keeps_sigCache: "keeps M vm vm1 \<Longrightarrow> keeps M vm (vm1\<lparr>sigCache := c\<rparr>)"
  using frame_trans [OF _ frame_sigCache] by (auto simp: keeps_def)

lemma keeps_bounded:
  "keeps M vm vm1 \<Longrightarrow> bounded M (dstack vm1)" "keeps M vm vm1 \<Longrightarrow> bounded M (astack vm1)"
  by (simp_all add: keeps_def)

lemma vm_ok_bounded: "vm_ok M vm \<Longrightarrow> bounded M (dstack vm)" "vm_ok M vm \<Longrightarrow> bounded M (astack vm)"
  by (simp_all add: vm_ok_def)

lemma keeps_dstack_refl: "vm_ok M vm \<Longrightarrow> bounded M s \<Longrightarrow> keeps M vm (vm\<lparr>dstack := s\<rparr>)"
  by (intro keeps_dstack keeps_refl)

subsection \<open>Rules for the stack methods\<close>

lemma bounded_items: "bounded M s \<longleftrightarrow> 520 \<le> M \<and> M < 2 ^ 31 \<and> verifyMinimalData s \<and> (\<forall>x \<in> set (items s). length x \<le> M)"
  by (simp add: bounded_def set_items)

lemma bounded_with_items:
  "bounded M (with_items s xs) \<longleftrightarrow> 520 \<le> M \<and> M < 2 ^ 31 \<and> verifyMinimalData s \<and> (\<forall>x \<in> set xs. length x \<le> M)"
  by (simp add: bounded_items)

lemma bounded_push: "bounded M s \<Longrightarrow> length b \<le> M \<Longrightarrow> bounded M (PushByteArray b s)"
  by (simp add: bounded_items PushByteArray_items)

lemma okE_if [okE_rules]: "(b \<Longrightarrow> okE P x) \<Longrightarrow> (\<not> b \<Longrightarrow> okE P y) \<Longrightarrow> okE P (if b then x else y)"
  by simp

lemma okE_option [okE_rules]:
  "(x = None \<Longrightarrow> okE P a) \<Longrightarrow> (\<And>y. x = Some y \<Longrightarrow> okE P (f y)) \<Longrightarrow> okE P (case x of None \<Rightarrow> a | Some y \<Rightarrow> f y)"
  by (cases x) simp_all

lemma okE_script_err [okE_rules]: "okE P (script_err c)"
  by simp

lemma okE_go_err [okE_rules]: "okE P (go_err c)"
  by simp

lemma okE_ret [okE_rules]: "P a \<Longrightarrow> okE P (Inr a)"
  by simp

lemma bounded_sub:
  "bounded M s \<Longrightarrow> set xs \<subseteq> set (items s) \<Longrightarrow> bounded M (with_items s xs)"
  by (auto simp: bounded_items)

lemma okE_nipN: "bounded M s \<Longrightarrow> okE (\<lambda>(b, s'). length b \<le> M \<and> bounded M s') (nipN i s)"
  by (auto simp: nipN_items bounded_with_items bounded_items dest: in_set_takeD in_set_dropD)

lemma okE_PopByteArray: "bounded M s \<Longrightarrow> okE (\<lambda>(b, s'). length b \<le> M \<and> bounded M s') (PopByteArray s)"
  by (simp add: PopByteArray_def okE_nipN)

lemma okE_PeekByteArray: "bounded M s \<Longrightarrow> okE (\<lambda>b. length b \<le> M) (PeekByteArray i s)"
  by (auto simp: PeekByteArray_items bounded_items)

lemma okE_checkMinimal: "okE (\<lambda>_. True) (checkMinimalDataEncoding v)"
  by (simp add: checkMinimal_iff)

lemma okE_MakeScriptNum4:
  "okE (\<lambda>n. \<bar>sint n\<bar> < 2 ^ 31) (MakeScriptNum v mn maxScriptNumLen)"
proof (cases "MakeScriptNum v mn maxScriptNumLen")
  case (Inl e)
  then show ?thesis by (auto simp: MakeScriptNum_eq maxScriptNumLen_def split: if_splits)
next
  case (Inr n)
  then have "sint n = dec v" "length v \<le> 4"
    using MakeScriptNum_ok [OF Inr] by (simp_all add: maxScriptNumLen_def)
  with Inr show ?thesis using dec_bound [of v 4] by simp
qed

lemma okE_BigNumFromBytes: "okE (\<lambda>_. True) (BigNumFromBytes v)"
  by (simp add: BigNumFromBytes_eq)

lemma okE_PopInt: "bounded M s \<Longrightarrow> okE (\<lambda>(n, s'). \<bar>sint n\<bar> < 2 ^ 31 \<and> bounded M s') (PopInt s)"
  unfolding PopInt_def
  by (rule okE_bind [OF okE_PopByteArray]) (auto intro!: okE_bind [OF okE_MakeScriptNum4])

lemma okE_PopBigNum: "bounded M s \<Longrightarrow> okE (\<lambda>(n, s'). bounded M s') (PopBigNum s)"
  unfolding PopBigNum_def
  by (rule okE_bind [OF okE_PopByteArray]) (auto intro!: okE_bind [OF okE_BigNumFromBytes])

lemma okE_PopBool: "bounded M s \<Longrightarrow> okE (\<lambda>(n, s'). bounded M s') (PopBool s)"
  unfolding PopBool_def by (rule okE_bind [OF okE_PopByteArray]) auto

lemma okE_PeekBigNum: "bounded M s \<Longrightarrow> okE (\<lambda>_. True) (PeekBigNum i s)"
  unfolding PeekBigNum_def by (rule okE_bind [OF okE_PeekByteArray]) (auto intro: okE_BigNumFromBytes)

lemma okE_PushBigNum: "bounded M s \<Longrightarrow> okE (bounded M) (PushBigNum n s)"
  by (auto simp: PushBigNum_def BigNum_Bytes_eq maxBigNumLen_def bounded_def PushByteArray_def)

lemma okE_PushInt: "bounded M s \<Longrightarrow> n \<noteq> MinInt64 \<Longrightarrow> okE (bounded M) (PushInt n s)"
proof -
  assume b: "bounded M s" and n: "n \<noteq> MinInt64"
  have "\<bar>sint n\<bar> < 2 ^ (8 * 9 - 1)" using sint_bounds [of n] by simp
  then have "length (enc (sint n)) \<le> 9" using length_enc_le_iff [of 9 "sint n"] by simp
  with b n show ?thesis by (simp add: PushInt_def scriptNum_Bytes_eq bounded_push bounded_def [of M s]
        PushByteArray_def bounded_def)
qed

lemma okE_PushInt_small: "bounded M s \<Longrightarrow> \<bar>sint n\<bar> < 2 ^ 32 \<Longrightarrow> okE (bounded M) (PushInt n s)"
  by (rule okE_PushInt) auto

lemma bounded_PushBool: "bounded M s \<Longrightarrow> bounded M (PushBool v s)"
  by (simp add: PushBool_def fromBool_def bounded_def PushByteArray_def)

lemma sint_word_of_nat: "n < 2 ^ 31 \<Longrightarrow> sint (word_of_int (int n) :: int64) = int n"
  by (rule sint_word_of_int_id) simp_all

text \<open>The stack methods as rules on the continuation.\<close>

lemma okE_steps [okE_rules]:
  assumes "bounded M s"
  shows "(\<And>b s'. length b \<le> M \<Longrightarrow> bounded M s' \<Longrightarrow> okE P (f (b, s'))) \<Longrightarrow> okE P (bindE (PopByteArray s) f)"
    "(\<And>n s'. \<bar>sint n\<bar> < 2 ^ 31 \<Longrightarrow> bounded M s' \<Longrightarrow> okE P (f2 (n, s'))) \<Longrightarrow> okE P (bindE (PopInt s) f2)"
    "(\<And>n s'. bounded M s' \<Longrightarrow> okE P (f3 (n, s'))) \<Longrightarrow> okE P (bindE (PopBigNum s) f3)"
    "(\<And>v s'. bounded M s' \<Longrightarrow> okE P (f4 (v, s'))) \<Longrightarrow> okE P (bindE (PopBool s) f4)"
    "(\<And>b. length b \<le> M \<Longrightarrow> okE P (f5 b)) \<Longrightarrow> okE P (bindE (PeekByteArray i s) f5)"
    "(\<And>n. okE P (f6 n)) \<Longrightarrow> okE P (bindE (PeekBigNum i s) f6)"
    "(\<And>s'. bounded M s' \<Longrightarrow> okE P (f7 s')) \<Longrightarrow> okE P (bindE (PushBigNum n s) f7)"
    "\<bar>sint k\<bar> < 2 ^ 32 \<Longrightarrow> (\<And>s'. bounded M s' \<Longrightarrow> okE P (f7 s')) \<Longrightarrow> okE P (bindE (PushInt k s) f7)"
    "(\<And>s'. bounded M s' \<Longrightarrow> Q s') \<Longrightarrow> okE Q (PushBigNum n s)"
    "\<bar>sint k\<bar> < 2 ^ 32 \<Longrightarrow> (\<And>s'. bounded M s' \<Longrightarrow> Q s') \<Longrightarrow> okE Q (PushInt k s)"
  using assms
  by (auto intro: okE_bind [OF okE_PopByteArray] okE_bind [OF okE_PopInt] okE_bind [OF okE_PopBigNum]
      okE_bind [OF okE_PopBool] okE_bind [OF okE_PeekByteArray] okE_bind [OF okE_PeekBigNum]
      okE_bind [OF okE_PushBigNum] okE_bind [OF okE_PushInt_small] okE_mono [OF okE_PushBigNum]
      okE_mono [OF okE_PushInt_small])

lemma okE_on_dstack:
  assumes "vm_ok M vm" "okE (bounded M) (f (dstack vm))"
  shows "handler_ok M vm (on_dstack f vm)"
  unfolding on_dstack_def by (rule okE_bind [OF assms(2)]) (simp add: keeps_dstack_refl assms)

lemma okE_permute:
  assumes "bounded M s"
  shows "okE (bounded M) (DropN n s)" "okE (bounded M) (DupN n s)" "okE (bounded M) (OverN n s)"
    "okE (bounded M) (SwapN n s)" "okE (bounded M) (RotN n s)" "okE (bounded M) (PickN n s)"
    "okE (bounded M) (RollN n s)" "okE (bounded M) (NipN n s)" "okE (bounded M) (Tuck s)"
  using assms
  by (auto simp: stack_items bounded_items dest: in_set_takeD in_set_dropD split: list.splits)

lemma sint_ucast_small:
  "sint (ucast (b :: byte) :: int64) = uint b" "sint (ucast (h :: 16 word) :: int64) = uint h"
  "sint (ucast (w :: 32 word) :: int64) = uint w"
proof -
  have s: "signed_take_bit 63 x = x" if "0 \<le> x" "x < 2 ^ 32" for x :: int
    by (rule signed_take_bit_int_eq_self) (use that in simp_all)
  show "sint (ucast (b :: byte) :: int64) = uint b" "sint (ucast (h :: 16 word) :: int64) = uint h"
    "sint (ucast (w :: 32 word) :: int64) = uint w"
    using s [of "uint b"] s [of "uint h"] s [of "uint w"] uint_lt2p [of b] uint_lt2p [of h] uint_lt2p [of w]
    by (simp_all add: signed_ucast_eq)
qed

lemma sint_ucast_bound:
  "\<bar>sint (ucast (b :: byte) :: int64)\<bar> < 2 ^ 32" "\<bar>sint (ucast (h :: 16 word) :: int64)\<bar> < 2 ^ 32"
  "\<bar>sint (ucast (w :: 32 word) :: int64)\<bar> < 2 ^ 32"
  unfolding sint_ucast_small using uint_lt2p [of b] uint_lt2p [of h] uint_lt2p [of w] by simp_all

lemma sint_Depth: "vm_ok M vm \<Longrightarrow> \<bar>sint (word_of_int (Depth (dstack vm)) :: int64)\<bar> < 2 ^ 32"
  using sint_word_of_nat [of "length (stk (dstack vm))"] by (simp add: vm_ok_def Depth_def)

lemma vm_ok_520: "vm_ok M vm \<Longrightarrow> 520 \<le> M"
  by (simp add: vm_ok_def bounded_def)

lemma lib_lengths:
  assumes "lib_ok L"
  shows "length (sha256 L b) = 32" "length (sha1 L b) = 20" "length (ripemd160 L b) = 20"
    "length (keccak256 L b) = 32" "length (sha3_256 L b) = 32" "length (TaggedHash L t b) = 32"
    "length (sha256_Sum L s) = 32" "length (gob_Encode L s) \<le> 520" "length (TxHash L x) = 32"
    "length (sha256_Marshal L (sha256_New L)) \<le> length (gob_Encode L (sha256_New L))"
  using assms by (simp_all add: lib_ok_def)

end
