(* ===== verification/OpControl.thy ===== *)
theory OpControl
imports VmInv
begin

text \<open>Model of the flow-control, push, lock-time and stack-shuffling handlers of
pkg/arkade/opcode.go.  Each opcodeX takes the library record, the opcode, its data and the
engine, as the Go function does (the library record stands for the packages Go imports).\<close>

subsection \<open>Pushes and no-ops\<close>

definition opcodeReserved :: handler where
  "opcodeReserved L op data vm = script_err ErrReservedOpcode"

definition opcodeInvalid :: handler where
  "opcodeInvalid L op data vm = script_err ErrReservedOpcode"

definition opcodeFalse :: handler where
  "opcodeFalse L op data vm = on_dstack (\<lambda>s. Inr (PushByteArray [] s)) vm"

definition opcodePushData :: handler where
  "opcodePushData L op data vm = on_dstack (\<lambda>s. Inr (PushByteArray data s)) vm"

definition opcode1Negate :: handler where
  "opcode1Negate L op data vm = on_dstack (PushInt (-1)) vm"

definition opcodeN :: handler where
  "opcodeN L op data vm = on_dstack (PushInt (ucast (op_value op - (OP_1 - 1)))) vm"

definition opcodeNop :: handler where
  "opcodeNop L op data vm =
     (if op_value op \<in> {OP_NOP1, OP_NOP5, OP_NOP6, OP_NOP7, OP_NOP8, OP_NOP9, OP_NOP10}
      then script_err ErrDiscourageUpgradableNOPs else Inr vm)"

subsection \<open>Conditionals\<close>

definition popIfBool :: "vm \<Rightarrow> (bool \<times> vm) res" where
  "popIfBool vm =
     bindE (PopByteArray (dstack vm)) (\<lambda>(so, s).
     if length so > 1 then script_err ErrMinimalIf
     else if length so = 1 \<and> so ! 0 \<noteq> 1 then script_err ErrMinimalIf
     else Inr (asBool so, vm\<lparr>dstack := s\<rparr>))"

definition opcodeIf :: handler where
  "opcodeIf L op data vm =
     (if isBranchExecuting vm then
        bindE (popIfBool vm) (\<lambda>(ok, vm).
        Inr (vm\<lparr>condStack := condStack vm @ [if ok then OpCondTrue else OpCondFalse]\<rparr>))
      else Inr (vm\<lparr>condStack := condStack vm @ [OpCondSkip]\<rparr>))"

definition opcodeNotIf :: handler where
  "opcodeNotIf L op data vm =
     (if isBranchExecuting vm then
        bindE (popIfBool vm) (\<lambda>(ok, vm).
        Inr (vm\<lparr>condStack := condStack vm @ [if \<not> ok then OpCondTrue else OpCondFalse]\<rparr>))
      else Inr (vm\<lparr>condStack := condStack vm @ [OpCondSkip]\<rparr>))"

definition opcodeElse :: handler where
  "opcodeElse L op data vm =
     (if length (condStack vm) = 0 then script_err ErrUnbalancedConditional
      else let i = length (condStack vm) - 1 in
        Inr (case condStack vm ! i of
          OpCondTrue \<Rightarrow> vm\<lparr>condStack := (condStack vm)[i := OpCondFalse]\<rparr>
        | OpCondFalse \<Rightarrow> vm\<lparr>condStack := (condStack vm)[i := OpCondTrue]\<rparr>
        | OpCondSkip \<Rightarrow> vm))"

definition opcodeEndif :: handler where
  "opcodeEndif L op data vm =
     (if length (condStack vm) = 0 then script_err ErrUnbalancedConditional
      else Inr (vm\<lparr>condStack := take (length (condStack vm) - 1) (condStack vm)\<rparr>))"

definition abstractVerify :: "script_code \<Rightarrow> vm \<Rightarrow> vm res" where
  "abstractVerify c vm =
     bindE (PopBool (dstack vm)) (\<lambda>(verified, s).
     if \<not> verified then script_err c else Inr (vm\<lparr>dstack := s\<rparr>))"

definition opcodeVerify :: handler where
  "opcodeVerify L op data vm = abstractVerify ErrVerify vm"

definition opcodeReturn :: handler where
  "opcodeReturn L op data vm = script_err ErrEarlyReturn"

subsection \<open>Lock times\<close>

definition LockTimeThreshold :: int where "LockTimeThreshold = 500000000"
definition MaxTxInSequenceNum :: "32 word" where "MaxTxInSequenceNum = 0xffffffff"
definition MaxUint32 :: int where "MaxUint32 = 2 ^ 32 - 1"
definition SequenceLockTimeDisabled :: int64 where "SequenceLockTimeDisabled = 0x80000000"
definition SequenceLockTimeIsSeconds :: int64 where "SequenceLockTimeIsSeconds = 0x400000"
definition SequenceLockTimeMask :: int64 where "SequenceLockTimeMask = 0xffff"

definition verifyLockTime :: "int \<Rightarrow> int \<Rightarrow> int \<Rightarrow> unit res" where
  "verifyLockTime txLockTime threshold lockTime =
     (if \<not> ((txLockTime < threshold \<and> lockTime < threshold) \<or>
            (txLockTime \<ge> threshold \<and> lockTime \<ge> threshold))
      then script_err ErrUnsatisfiedLockTime
      else if lockTime > txLockTime then script_err ErrUnsatisfiedLockTime
      else Inr ())"

definition opcodeCheckLockTimeVerify :: handler where
  "opcodeCheckLockTimeVerify L op data vm =
     bindE (PeekBigNum 0 (dstack vm)) (\<lambda>n.
     if Sign n < 0 then script_err ErrNegativeLockTime
     else if useBig n \<or> sint (small n) > MaxUint32 then script_err ErrUnsatisfiedLockTime
     else bindE (verifyLockTime (uint (LockTime (tx vm))) LockTimeThreshold (sint (small n))) (\<lambda>_.
       bindE (at_idx (TxIn (tx vm)) (txIdx vm)) (\<lambda>txIn.
       if Sequence txIn = MaxTxInSequenceNum then script_err ErrUnsatisfiedLockTime
       else Inr vm)))"

definition opcodeCheckSequenceVerify :: handler where
  "opcodeCheckSequenceVerify L op data vm =
     bindE (PeekBigNum 0 (dstack vm)) (\<lambda>n.
     if Sign n < 0 then script_err ErrNegativeLockTime
     else if useBig n \<or> sint (small n) > MaxUint32 then script_err ErrUnsatisfiedLockTime
     else let stackSequence = small n in
       if stackSequence AND SequenceLockTimeDisabled \<noteq> 0 then Inr vm
       else if sint (tx_version (tx vm)) < 2 then script_err ErrUnsatisfiedLockTime
       else bindE (at_idx (TxIn (tx vm)) (txIdx vm)) (\<lambda>txIn.
         let txSequence = ucast (Sequence txIn) :: int64 in
         if txSequence AND SequenceLockTimeDisabled \<noteq> 0 then script_err ErrUnsatisfiedLockTime
         else let lockTimeMask = SequenceLockTimeIsSeconds OR SequenceLockTimeMask in
           bindE (verifyLockTime (sint (txSequence AND lockTimeMask)) (sint SequenceLockTimeIsSeconds)
                    (sint (stackSequence AND lockTimeMask))) (\<lambda>_.
           Inr vm)))"

primrec run_control :: "control_fn \<Rightarrow> handler" where
  "run_control F_False = opcodeFalse"
| "run_control F_PushData = opcodePushData"
| "run_control F_1Negate = opcode1Negate"
| "run_control F_Reserved = opcodeReserved"
| "run_control F_N = opcodeN"
| "run_control F_Nop = opcodeNop"
| "run_control F_If = opcodeIf"
| "run_control F_NotIf = opcodeNotIf"
| "run_control F_Else = opcodeElse"
| "run_control F_Endif = opcodeEndif"
| "run_control F_Verify = opcodeVerify"
| "run_control F_Return = opcodeReturn"
| "run_control F_CheckLockTimeVerify = opcodeCheckLockTimeVerify"
| "run_control F_CheckSequenceVerify = opcodeCheckSequenceVerify"
| "run_control F_Invalid = opcodeInvalid"

subsection \<open>Stack shuffling\<close>

definition opcodeToAltStack :: handler where
  "opcodeToAltStack L op data vm =
     bindE (PopByteArray (dstack vm)) (\<lambda>(so, s).
     Inr (vm\<lparr>dstack := s, astack := PushByteArray so (astack vm)\<rparr>))"

definition opcodeFromAltStack :: handler where
  "opcodeFromAltStack L op data vm =
     bindE (PopByteArray (astack vm)) (\<lambda>(so, a).
     Inr (vm\<lparr>astack := a, dstack := PushByteArray so (dstack vm)\<rparr>))"

definition opcode2Drop :: handler where "opcode2Drop L op data vm = on_dstack (DropN 2) vm"
definition opcode2Dup :: handler where "opcode2Dup L op data vm = on_dstack (DupN 2) vm"
definition opcode3Dup :: handler where "opcode3Dup L op data vm = on_dstack (DupN 3) vm"
definition opcode2Over :: handler where "opcode2Over L op data vm = on_dstack (OverN 2) vm"
definition opcode2Rot :: handler where "opcode2Rot L op data vm = on_dstack (RotN 2) vm"
definition opcode2Swap :: handler where "opcode2Swap L op data vm = on_dstack (SwapN 2) vm"

definition opcodeIfDup :: handler where
  "opcodeIfDup L op data vm =
     on_dstack (\<lambda>s. bindE (PeekByteArray 0 s) (\<lambda>so.
       Inr (if asBool so then PushByteArray so s else s))) vm"

definition opcodeDepth :: handler where
  "opcodeDepth L op data vm = on_dstack (\<lambda>s. PushInt (word_of_int (Depth s)) s) vm"

definition opcodeDrop :: handler where "opcodeDrop L op data vm = on_dstack (DropN 1) vm"
definition opcodeDup :: handler where "opcodeDup L op data vm = on_dstack (DupN 1) vm"
definition opcodeNip :: handler where "opcodeNip L op data vm = on_dstack (NipN 1) vm"
definition opcodeOver :: handler where "opcodeOver L op data vm = on_dstack (OverN 1) vm"

definition opcodePick :: handler where
  "opcodePick L op data vm =
     on_dstack (\<lambda>s. bindE (PopInt s) (\<lambda>(val, s). PickN (scriptNum_Int32 val) s)) vm"

definition opcodeRoll :: handler where
  "opcodeRoll L op data vm =
     on_dstack (\<lambda>s. bindE (PopInt s) (\<lambda>(val, s). RollN (scriptNum_Int32 val) s)) vm"

definition opcodeRot :: handler where "opcodeRot L op data vm = on_dstack (RotN 1) vm"
definition opcodeSwap :: handler where "opcodeSwap L op data vm = on_dstack (SwapN 1) vm"
definition opcodeTuck :: handler where "opcodeTuck L op data vm = on_dstack Tuck vm"

primrec run_stack :: "stack_fn \<Rightarrow> handler" where
  "run_stack F_ToAltStack = opcodeToAltStack"
| "run_stack F_FromAltStack = opcodeFromAltStack"
| "run_stack F_2Drop = opcode2Drop"
| "run_stack F_2Dup = opcode2Dup"
| "run_stack F_3Dup = opcode3Dup"
| "run_stack F_2Over = opcode2Over"
| "run_stack F_2Rot = opcode2Rot"
| "run_stack F_2Swap = opcode2Swap"
| "run_stack F_IfDup = opcodeIfDup"
| "run_stack F_Depth = opcodeDepth"
| "run_stack F_Drop = opcodeDrop"
| "run_stack F_Dup = opcodeDup"
| "run_stack F_Nip = opcodeNip"
| "run_stack F_Over = opcodeOver"
| "run_stack F_Pick = opcodePick"
| "run_stack F_Roll = opcodeRoll"
| "run_stack F_Rot = opcodeRot"
| "run_stack F_Swap = opcodeSwap"
| "run_stack F_Tuck = opcodeTuck"

subsection \<open>The handlers keep the invariant\<close>

text \<open>The contract of a group of handlers, which the engine relies on: on a well-formed
engine, with data within the item limit, every handler of the group keeps the invariant.
Interpreted for each group of handlers, and in the theory Engine for the whole table.\<close>

locale safe_handlers =
  fixes run :: "'f \<Rightarrow> handler"
  assumes run_ok: "lib_ok L \<Longrightarrow> vm_ok M vm \<Longrightarrow> length data \<le> 520 \<Longrightarrow> op = opcodeArray b \<Longrightarrow>
    handler_ok M vm (run f L op data vm)"
begin

lemma no_panic: "lib_ok L \<Longrightarrow> vm_ok M vm \<Longrightarrow> length data \<le> 520 \<Longrightarrow> run f L (opcodeArray b) data vm \<noteq> Inl Panic"
  using run_ok [of L M vm data "opcodeArray b" b f] by (rule okE_not_panic) auto

lemma run_frame:
  assumes "lib_ok L" "vm_ok M vm" "length data \<le> 520" "run f L (opcodeArray b) data vm = Inr vm'"
  shows "frame vm vm' \<and> bounded M (dstack vm') \<and> bounded M (astack vm')"
  using run_ok [of L M vm data "opcodeArray b" b f] assms by (simp add: keeps_def)

lemma run_env:
  assumes "lib_ok L" "vm_ok M vm" "length data \<le> 520" "run f L (opcodeArray b) data vm = Inr vm'"
  shows "env_ok vm'"
  using run_frame [OF assms] env_ok_frame assms(2) by (auto simp: vm_ok_def)

end

lemma okE_at_idx: "0 \<le> i \<Longrightarrow> i < int (length xs) \<Longrightarrow> (\<And>x. x \<in> set xs \<Longrightarrow> okE P (f x)) \<Longrightarrow> okE P (bindE (at_idx xs i) f)"
  by (simp add: at_idx_ok)

lemma okE_verifyLockTime: "okE P (f ()) \<Longrightarrow> okE P (bindE (verifyLockTime a b c) f)"
  by (simp add: verifyLockTime_def)

lemma okE_popIfBool:
  "vm_ok M vm \<Longrightarrow> (\<And>b s. bounded M s \<Longrightarrow> okE P (f (b, vm\<lparr>dstack := s\<rparr>))) \<Longrightarrow> okE P (bindE (popIfBool vm) f)"
  unfolding popIfBool_def bindE_assoc
  by (rule okE_steps(1) [OF vm_ok_bounded(1)]) auto

lemmas control_defs =
  opcodeReserved_def opcodeInvalid_def opcodeFalse_def opcodePushData_def opcode1Negate_def
  opcodeN_def opcodeNop_def opcodeIf_def opcodeNotIf_def opcodeElse_def opcodeEndif_def
  opcodeVerify_def abstractVerify_def opcodeReturn_def opcodeCheckLockTimeVerify_def
  opcodeCheckSequenceVerify_def

lemmas stack_defs =
  opcodeToAltStack_def opcodeFromAltStack_def opcode2Drop_def opcode2Dup_def opcode3Dup_def
  opcode2Over_def opcode2Rot_def opcode2Swap_def opcodeIfDup_def opcodeDepth_def opcodeDrop_def
  opcodeDup_def opcodeNip_def opcodeOver_def opcodePick_def opcodeRoll_def opcodeRot_def
  opcodeSwap_def opcodeTuck_def

lemma vm_ok_txIdx: "vm_ok M vm \<Longrightarrow> 0 \<le> txIdx vm \<and> txIdx vm < int (length (TxIn (tx vm)))"
  by (simp add: vm_ok_def env_ok_def)

lemma bounded_520: "bounded M s \<Longrightarrow> n \<le> 520 \<Longrightarrow> n \<le> M"
  by (simp add: bounded_def)

interpretation ctl: safe_handlers run_control
proof (unfold_locales, goal_cases)
  case (1 L M vm data op b f)
  note b = vm_ok_bounded [OF 1(2)]
  show ?case
    by (cases f)
      (use 1 b vm_ok_txIdx [OF 1(2)] in \<open>auto simp: control_defs Let_def
        intro!: okE_on_dstack okE_rules okE_popIfBool okE_at_idx okE_verifyLockTime keeps_refl
          keeps_dstack keeps_condStack keeps_dstack_refl bounded_push sint_ucast_bound
        dest: bounded_520 split: condVal.split\<close>)
qed

interpretation stk: safe_handlers run_stack
proof (unfold_locales, goal_cases)
  case (1 L M vm data op b f)
  note b = vm_ok_bounded [OF 1(2)]
  show ?case
    by (cases f)
      (use 1 b sint_Depth [OF 1(2)] in \<open>auto simp: stack_defs
        intro!: okE_on_dstack okE_rules okE_permute keeps_refl keeps_dstack keeps_astack bounded_push\<close>)
qed

end
