(* ===== verification/OpData.thy ===== *)
theory OpData
imports OpControl
begin

text \<open>Model of the splice, bitwise and numeric handlers of pkg/arkade/opcode.go.  The popping
of one or two numbers, which the Go handlers write out each time, is num1 and num2: the top
of the stack is the second operand b.\<close>

definition wrap_err :: "script_code \<Rightarrow> 'a res \<Rightarrow> 'a res" where
  "wrap_err c m = (case m of Inl Panic \<Rightarrow> panic | Inl e \<Rightarrow> script_err c | Inr a \<Rightarrow> Inr a)"

lemma okE_wrap_err: "okE Q m \<Longrightarrow> (\<And>a. Q a \<Longrightarrow> okE P (f a)) \<Longrightarrow> okE P (bindE (wrap_err c m) f)"
  by (cases m) (auto simp: wrap_err_def split: verror.split)

subsection \<open>Splice and bitwise operations\<close>

definition opcodeCat :: handler where
  "opcodeCat L op data vm = on_dstack (\<lambda>s.
     bindE (PopByteArray s) (\<lambda>(x2, s).
     bindE (PopByteArray s) (\<lambda>(x1, s).
     if length x1 + length x2 > MaxScriptElementSize then script_err ErrElementTooBig
     else Inr (PushByteArray (x1 @ x2) s)))) vm"

definition opcodeSubstr :: handler where
  "opcodeSubstr L op data vm = on_dstack (\<lambda>s.
     bindE (PopInt s) (\<lambda>(sz, s).
     bindE (PopInt s) (\<lambda>(start, s).
     bindE (PopByteArray s) (\<lambda>(x, s).
     if start <s 0 \<or> sz <s 0 \<or> word_of_int (int (length x)) <s start + sz then script_err ErrInvalidIndex
     else bindE (slice x (sint start) (sint (start + sz))) (\<lambda>r. Inr (PushByteArray r s)))))) vm"

definition opcodeLeft :: handler where
  "opcodeLeft L op data vm = on_dstack (\<lambda>s.
     bindE (PopInt s) (\<lambda>(n, s).
     bindE (PopByteArray s) (\<lambda>(x, s).
     if n <s 0 \<or> word_of_int (int (length x)) <s n then script_err ErrInvalidIndex
     else bindE (slice x 0 (sint n)) (\<lambda>r. Inr (PushByteArray r s))))) vm"

definition opcodeRight :: handler where
  "opcodeRight L op data vm = on_dstack (\<lambda>s.
     bindE (PopInt s) (\<lambda>(n, s).
     bindE (PopByteArray s) (\<lambda>(x, s).
     if n <s 0 \<or> word_of_int (int (length x)) <s n then script_err ErrInvalidIndex
     else bindE (slice x (int (length x) - sint n) (int (length x))) (\<lambda>r.
       Inr (PushByteArray r s))))) vm"

definition opcodeSize :: handler where
  "opcodeSize L op data vm = on_dstack (\<lambda>s.
     bindE (PeekByteArray 0 s) (\<lambda>so. PushInt (word_of_int (int (length so))) s)) vm"

definition opcodeInvert :: handler where
  "opcodeInvert L op data vm = on_dstack (\<lambda>s.
     bindE (PopByteArray s) (\<lambda>(x, s). Inr (PushByteArray (map (\<lambda>b. NOT b) x) s))) vm"

text \<open>The three bitwise handlers differ in the operator only.\<close>

definition bitwise :: "(byte \<Rightarrow> byte \<Rightarrow> byte) \<Rightarrow> vm \<Rightarrow> vm res" where
  "bitwise f vm = on_dstack (\<lambda>s.
     bindE (PopByteArray s) (\<lambda>(x2, s).
     bindE (PopByteArray s) (\<lambda>(x1, s).
     if length x1 \<noteq> length x2 then script_err ErrInvalidStackOperation
     else Inr (PushByteArray (map (\<lambda>i. f (x1 ! i) (x2 ! i)) [0..<length x1]) s)))) vm"

definition opcodeAnd :: handler where "opcodeAnd L op data vm = bitwise (\<lambda>a b. a AND b) vm"
definition opcodeOr :: handler where "opcodeOr L op data vm = bitwise (\<lambda>a b. a OR b) vm"
definition opcodeXor :: handler where "opcodeXor L op data vm = bitwise (\<lambda>a b. a XOR b) vm"

definition opcodeEqual :: handler where
  "opcodeEqual L op data vm = on_dstack (\<lambda>s.
     bindE (PopByteArray s) (\<lambda>(a, s).
     bindE (PopByteArray s) (\<lambda>(b, s).
     Inr (PushBool (a = b) s)))) vm"

definition opcodeEqualVerify :: handler where
  "opcodeEqualVerify L op data vm =
     bindE (opcodeEqual L op data vm) (\<lambda>vm. abstractVerify ErrEqualVerify vm)"

definition opcodeNum2Bin :: handler where
  "opcodeNum2Bin L op data vm = on_dstack (\<lambda>s.
     bindE (PopInt s) (\<lambda>(sz, s).
     if sz <s 0 \<or> sint sz > int maxBigNumLen then script_err ErrNumberTooBig
     else bindE (PopBigNum s) (\<lambda>(num, s).
       bindE (wrap_err ErrNumberTooBig (FixedBytes num (sint sz))) (\<lambda>out.
       Inr (PushByteArray out s))))) vm"

definition opcodeBin2Num :: handler where
  "opcodeBin2Num L op data vm = on_dstack (\<lambda>s.
     bindE (PopByteArray s) (\<lambda>(b, s).
     if length b > maxBigNumLen then script_err ErrNumberTooBig
     else Inr (PushByteArray (minimallyEncode b) s))) vm"

definition opcodeReverseBytes :: handler where
  "opcodeReverseBytes L op data vm = on_dstack (\<lambda>s.
     bindE (PopByteArray s) (\<lambda>(buf, s).
     Inr (PushByteArray (map (\<lambda>i. buf ! (length buf - 1 - i)) [0..<length buf]) s))) vm"

primrec run_bytes :: "bytes_fn \<Rightarrow> handler" where
  "run_bytes F_Cat = opcodeCat"
| "run_bytes F_Substr = opcodeSubstr"
| "run_bytes F_Left = opcodeLeft"
| "run_bytes F_Right = opcodeRight"
| "run_bytes F_Size = opcodeSize"
| "run_bytes F_Invert = opcodeInvert"
| "run_bytes F_And = opcodeAnd"
| "run_bytes F_Or = opcodeOr"
| "run_bytes F_Xor = opcodeXor"
| "run_bytes F_Equal = opcodeEqual"
| "run_bytes F_EqualVerify = opcodeEqualVerify"
| "run_bytes F_Num2Bin = opcodeNum2Bin"
| "run_bytes F_Bin2Num = opcodeBin2Num"
| "run_bytes F_ReverseBytes = opcodeReverseBytes"

subsection \<open>Numeric operations\<close>

definition num1 :: "(BigNum \<Rightarrow> stack \<Rightarrow> stack res) \<Rightarrow> vm \<Rightarrow> vm res" where
  "num1 k vm = on_dstack (\<lambda>s. bindE (PopBigNum s) (\<lambda>(n, s). k n s)) vm"

definition num2 :: "(BigNum \<Rightarrow> BigNum \<Rightarrow> stack \<Rightarrow> stack res) \<Rightarrow> vm \<Rightarrow> vm res" where
  "num2 k vm = on_dstack (\<lambda>s.
     bindE (PopBigNum s) (\<lambda>(b, s). bindE (PopBigNum s) (\<lambda>(a, s). k a b s))) vm"

text \<open>PushBigNum(BigNumFromInt64(1)) when the condition holds, 0 otherwise.\<close>

definition pushCond :: "bool \<Rightarrow> stack \<Rightarrow> stack res" where
  "pushCond c s = PushBigNum (BigNumFromInt64 (if c then 1 else 0)) s"

definition opcode1Add :: handler where
  "opcode1Add L op data vm = num1 (\<lambda>n. PushBigNum (Add n (BigNumFromInt64 1))) vm"

definition opcode1Sub :: handler where
  "opcode1Sub L op data vm = num1 (\<lambda>n. PushBigNum (Sub n (BigNumFromInt64 1))) vm"

definition opcodeNegate :: handler where
  "opcodeNegate L op data vm = num1 (\<lambda>n. PushBigNum (Negate n)) vm"

definition opcodeAbs :: handler where
  "opcodeAbs L op data vm = num1 (\<lambda>n. PushBigNum (Abs n)) vm"

definition opcodeNot :: handler where
  "opcodeNot L op data vm = num1 (\<lambda>n. pushCond (IsZero n)) vm"

definition opcode0NotEqual :: handler where
  "opcode0NotEqual L op data vm = num1 (\<lambda>n. pushCond (\<not> IsZero n)) vm"

definition opcode2Mul :: handler where
  "opcode2Mul L op data vm = num1 (\<lambda>n. PushBigNum (Add n n)) vm"

definition opcodeAdd :: handler where
  "opcodeAdd L op data vm = num2 (\<lambda>a b. PushBigNum (Add a b)) vm"

definition opcodeSub :: handler where
  "opcodeSub L op data vm = num2 (\<lambda>a b. PushBigNum (Sub a b)) vm"

definition opcodeMul :: handler where
  "opcodeMul L op data vm = num2 (\<lambda>a b. PushBigNum (Mul a b)) vm"

definition opcodeBoolAnd :: handler where
  "opcodeBoolAnd L op data vm = num2 (\<lambda>a b. pushCond (\<not> IsZero a \<and> \<not> IsZero b)) vm"

definition opcodeBoolOr :: handler where
  "opcodeBoolOr L op data vm = num2 (\<lambda>a b. pushCond (\<not> IsZero a \<or> \<not> IsZero b)) vm"

definition opcodeNumEqual :: handler where
  "opcodeNumEqual L op data vm = num2 (\<lambda>a b. pushCond (Cmp a b = 0)) vm"

definition opcodeNumNotEqual :: handler where
  "opcodeNumNotEqual L op data vm = num2 (\<lambda>a b. pushCond (Cmp a b \<noteq> 0)) vm"

definition opcodeLessThan :: handler where
  "opcodeLessThan L op data vm = num2 (\<lambda>a b. pushCond (Cmp a b < 0)) vm"

definition opcodeGreaterThan :: handler where
  "opcodeGreaterThan L op data vm = num2 (\<lambda>a b. pushCond (Cmp a b > 0)) vm"

definition opcodeLessThanOrEqual :: handler where
  "opcodeLessThanOrEqual L op data vm = num2 (\<lambda>a b. pushCond (Cmp a b \<le> 0)) vm"

definition opcodeGreaterThanOrEqual :: handler where
  "opcodeGreaterThanOrEqual L op data vm = num2 (\<lambda>a b. pushCond (Cmp a b \<ge> 0)) vm"

definition opcodeMin :: handler where
  "opcodeMin L op data vm = num2 (\<lambda>a b. PushBigNum (if Cmp a b < 0 then a else b)) vm"

definition opcodeMax :: handler where
  "opcodeMax L op data vm = num2 (\<lambda>a b. PushBigNum (if Cmp a b > 0 then a else b)) vm"

definition opcodeNumEqualVerify :: handler where
  "opcodeNumEqualVerify L op data vm =
     bindE (opcodeNumEqual L op data vm) (\<lambda>vm. abstractVerify ErrNumEqualVerify vm)"

definition opcode2Div :: handler where
  "opcode2Div L op data vm =
     num1 (\<lambda>n s. bindE (Div n (BigNumFromInt64 2)) (\<lambda>result. PushBigNum result s)) vm"

definition opcodeDiv :: handler where
  "opcodeDiv L op data vm = num2 (\<lambda>a b s. bindE (Div a b) (\<lambda>result. PushBigNum result s)) vm"

definition opcodeMod :: handler where
  "opcodeMod L op data vm = num2 (\<lambda>a b s. bindE (Mod a b) (\<lambda>result. PushBigNum result s)) vm"

definition opcodeWithin :: handler where
  "opcodeWithin L op data vm = on_dstack (\<lambda>s.
     bindE (PopBigNum s) (\<lambda>(maxVal, s).
     bindE (PopBigNum s) (\<lambda>(minVal, s).
     bindE (PopBigNum s) (\<lambda>(x, s).
     pushCond (Cmp x minVal \<ge> 0 \<and> Cmp x maxVal < 0) s)))) vm"

definition maxModexpOperandLen :: nat where "maxModexpOperandLen = 64"

definition checkSize :: "BigNum \<Rightarrow> unit res" where
  "checkSize n = bindE (BigNum_Bytes n) (\<lambda>b.
     if length b > maxModexpOperandLen then script_err ErrNumberTooBig else Inr ())"

definition opcodeModexp :: handler where
  "opcodeModexp L op data vm = on_dstack (\<lambda>s.
     bindE (PopBigNum s) (\<lambda>(modulus, s).
     bindE (PopBigNum s) (\<lambda>(ex, s).
     bindE (PopBigNum s) (\<lambda>(base, s).
     bindE (checkSize base) (\<lambda>_.
     bindE (checkSize ex) (\<lambda>_.
     bindE (checkSize modulus) (\<lambda>_.
     bindE (Modexp base ex modulus) (\<lambda>result.
     PushBigNum result s)))))))) vm"

definition opcodeLshift :: handler where
  "opcodeLshift L op data vm = on_dstack (\<lambda>s.
     bindE (PopInt s) (\<lambda>(shiftNum, s).
     if shiftNum <s 0 then script_err ErrInvalidIndex
     else bindE (PopBigNum s) (\<lambda>(x, s).
       bindE (Lshift x (nat (sint shiftNum))) (\<lambda>result. PushBigNum result s)))) vm"

definition opcodeRshift :: handler where
  "opcodeRshift L op data vm = on_dstack (\<lambda>s.
     bindE (PopInt s) (\<lambda>(shiftNum, s).
     if shiftNum <s 0 then script_err ErrInvalidIndex
     else bindE (PopBigNum s) (\<lambda>(x, s).
       PushBigNum (Rshift x (nat (sint shiftNum))) s))) vm"

primrec run_num :: "num_fn \<Rightarrow> handler" where
  "run_num F_1Add = opcode1Add"
| "run_num F_1Sub = opcode1Sub"
| "run_num F_2Mul = opcode2Mul"
| "run_num F_2Div = opcode2Div"
| "run_num F_Negate = opcodeNegate"
| "run_num F_Abs = opcodeAbs"
| "run_num F_Not = opcodeNot"
| "run_num F_0NotEqual = opcode0NotEqual"
| "run_num F_Add = opcodeAdd"
| "run_num F_Sub = opcodeSub"
| "run_num F_Mul = opcodeMul"
| "run_num F_Div = opcodeDiv"
| "run_num F_Mod = opcodeMod"
| "run_num F_Lshift = opcodeLshift"
| "run_num F_Rshift = opcodeRshift"
| "run_num F_BoolAnd = opcodeBoolAnd"
| "run_num F_BoolOr = opcodeBoolOr"
| "run_num F_NumEqual = opcodeNumEqual"
| "run_num F_NumEqualVerify = opcodeNumEqualVerify"
| "run_num F_NumNotEqual = opcodeNumNotEqual"
| "run_num F_LessThan = opcodeLessThan"
| "run_num F_GreaterThan = opcodeGreaterThan"
| "run_num F_LessThanOrEqual = opcodeLessThanOrEqual"
| "run_num F_GreaterThanOrEqual = opcodeGreaterThanOrEqual"
| "run_num F_Min = opcodeMin"
| "run_num F_Max = opcodeMax"
| "run_num F_Within = opcodeWithin"
| "run_num F_Modexp = opcodeModexp"

subsection \<open>The handlers keep the invariant\<close>

lemma okE_FixedBytes: "okE (\<lambda>out. int (length out) = sz) (FixedBytes n sz)"
proof (cases "FixedBytes n sz")
  case (Inl e)
  then have "e \<noteq> Panic" by (auto simp: FixedBytes_def BigNum_Bytes_eq Let_def split: if_splits)
  with Inl show ?thesis by simp
qed (use FixedBytes_ok in auto)

lemma okE_numres: "okE (\<lambda>_. True) (Div a b)" "okE (\<lambda>_. True) (Mod a b)"
  "okE (\<lambda>_. True) (Modexp a b c)" "okE (\<lambda>_. True) (Lshift a k)" "okE (\<lambda>_. True) (checkSize a)"
  by (simp_all add: Div_eq Mod_eq Modexp_eq Lshift_eq checkSize_def BigNum_Bytes_eq)

lemma okE_num_steps:
  "(\<And>r. okE P (f r)) \<Longrightarrow> okE P (bindE (Div a b) f)" "(\<And>r. okE P (f r)) \<Longrightarrow> okE P (bindE (Mod a b) f)"
  "(\<And>r. okE P (f r)) \<Longrightarrow> okE P (bindE (Modexp a b c) f)"
  "(\<And>r. okE P (f r)) \<Longrightarrow> okE P (bindE (Lshift a k) f)"
  "(\<And>u. okE P (g u)) \<Longrightarrow> okE P (bindE (checkSize a) g)"
  by (auto intro: okE_bind [OF okE_numres(1)] okE_bind [OF okE_numres(2)] okE_bind [OF okE_numres(3)]
      okE_bind [OF okE_numres(4)] okE_bind [OF okE_numres(5)])

lemma okE_pushCond: "bounded M s \<Longrightarrow> okE (bounded M) (pushCond c s)"
  by (simp add: pushCond_def okE_PushBigNum)

lemma okE_pushCond_step:
  "bounded M s \<Longrightarrow> (\<And>s'. bounded M s' \<Longrightarrow> P s') \<Longrightarrow> okE P (pushCond c s)"
  by (rule okE_mono [OF okE_pushCond])

lemma okE_num1:
  assumes "vm_ok M vm" "\<And>n s. bounded M s \<Longrightarrow> okE (bounded M) (k n s)"
  shows "handler_ok M vm (num1 k vm)"
  unfolding num1_def using vm_ok_bounded(1) [OF assms(1)] assms
  by (auto intro!: okE_on_dstack okE_rules)

lemma okE_num2:
  assumes "vm_ok M vm" "\<And>a b s. bounded M s \<Longrightarrow> okE (bounded M) (k a b s)"
  shows "handler_ok M vm (num2 k vm)"
  unfolding num2_def using vm_ok_bounded(1) [OF assms(1)] assms
  by (auto intro!: okE_on_dstack okE_rules)

lemma okE_slice:
  assumes "0 \<le> i" "i \<le> j" "j \<le> int (length xs)" "\<And>r. set r \<subseteq> set xs \<Longrightarrow> length r \<le> length xs \<Longrightarrow> okE P (f r)"
  shows "okE P (bindE (slice xs i j) f)"
  unfolding slice_ok [OF assms(1,2,3)] bindE_simps
  by (rule assms(4)) (auto dest: in_set_takeD in_set_dropD)

lemma abstractVerify_ok:
  "keeps M vm vm1 \<Longrightarrow> handler_ok M vm (abstractVerify c vm1)"
  unfolding abstractVerify_def
  by (rule okE_steps(4) [OF keeps_bounded(1)]) (auto intro!: okE_rules keeps_dstack)

text \<open>int64 comparisons with a length that fits.\<close>

lemma word_less_length:
  "bounded M s \<Longrightarrow> length x \<le> M \<Longrightarrow> word_of_nat (length x) <s (n :: int64) \<longleftrightarrow> int (length x) < sint n"
  using sint_word_of_nat [of "length x"] by (simp add: word_sless_alt bounded_def)

lemma sint_add_small: "\<bar>sint a\<bar> < 2 ^ 31 \<Longrightarrow> \<bar>sint b\<bar> < 2 ^ 31 \<Longrightarrow> sint (a + b :: int64) = sint a + sint b"
  by (auto simp add: sint_add64 fits64_def abs_less_iff)

lemma word_sless0: "(n :: int64) <s 0 \<longleftrightarrow> sint n < 0"
  by (simp add: word_sless_alt)

lemma length_minimallyEncode: "bounded M s \<Longrightarrow> \<not> 520 < length v \<Longrightarrow> length (minimallyEncode v) \<le> M"
  using bounded_520 [of M s "length (minimallyEncode v)"] dec_bound [of v 520] length_enc_le_iff [of 520 "dec v"] by (simp add: minimallyEncode_eq)

lemma opcodeEqual_ok: "vm_ok M vm \<Longrightarrow> handler_ok M vm (opcodeEqual L op data vm)"
  using vm_ok_bounded(1) [of M vm]
  by (auto simp: opcodeEqual_def intro!: okE_on_dstack okE_rules bounded_PushBool)

lemma opcodeSubstr_ok: "vm_ok M vm \<Longrightarrow> handler_ok M vm (opcodeSubstr L op data vm)"
  using vm_ok_bounded(1) [of M vm]
  by (auto simp: opcodeSubstr_def word_less_length word_sless0 sint_add_small not_less
      intro!: okE_on_dstack okE_rules okE_slice bounded_push)

lemma opcodeLeftRight_ok:
  "vm_ok M vm \<Longrightarrow> handler_ok M vm (opcodeLeft L op data vm)"
  "vm_ok M vm \<Longrightarrow> handler_ok M vm (opcodeRight L op data vm)"
  using vm_ok_bounded(1) [of M vm]
  by (auto simp: opcodeLeft_def opcodeRight_def word_less_length word_sless0 not_less
      intro!: okE_on_dstack okE_rules okE_slice bounded_push)

lemma length_nat_small: "bounded M s \<Longrightarrow> n \<le> M \<Longrightarrow> \<bar>sint (word_of_nat n :: int64)\<bar> < 2 ^ 32"
  using sint_word_of_nat [of n] by (simp add: bounded_def)

lemma bitwise_ok: "vm_ok M vm \<Longrightarrow> handler_ok M vm (bitwise f vm)"
  using vm_ok_bounded(1) [of M vm]
  by (auto simp: bitwise_def intro!: okE_on_dstack okE_rules bounded_push)

lemma bytes_ok:
  assumes "vm_ok M vm"
  shows "handler_ok M vm (opcodeCat L op data vm)" "handler_ok M vm (opcodeSize L op data vm)"
    "handler_ok M vm (opcodeInvert L op data vm)" "handler_ok M vm (opcodeBin2Num L op data vm)"
    "handler_ok M vm (opcodeReverseBytes L op data vm)" "handler_ok M vm (opcodeNum2Bin L op data vm)"
  using vm_ok_bounded(1) [OF assms] assms
  by (auto simp: opcodeCat_def opcodeSize_def opcodeInvert_def opcodeBin2Num_def MaxScriptElementSize_def
      opcodeReverseBytes_def opcodeNum2Bin_def maxBigNumLen_def word_sless0
      intro!: okE_on_dstack okE_rules bounded_push okE_wrap_err [OF okE_FixedBytes]
      intro: length_nat_small length_minimallyEncode bounded_520 dest: bounded_520)

interpretation byt: safe_handlers run_bytes
proof (unfold_locales, goal_cases)
  case (1 L M vm data op b f)
  show ?case
    by (cases f)
      (use 1(2) in \<open>auto simp: opcodeAnd_def opcodeOr_def opcodeXor_def opcodeEqualVerify_def
        intro!: bitwise_ok bytes_ok opcodeLeftRight_ok opcodeSubstr_ok opcodeEqual_ok
          okE_bind [OF opcodeEqual_ok] abstractVerify_ok\<close>)
qed

lemmas num_defs =
  opcode1Add_def opcode1Sub_def opcodeNegate_def opcodeAbs_def opcodeNot_def opcode0NotEqual_def
  opcode2Mul_def opcodeAdd_def opcodeSub_def opcodeMul_def opcodeBoolAnd_def opcodeBoolOr_def
  opcodeNumEqual_def opcodeNumNotEqual_def opcodeLessThan_def opcodeGreaterThan_def
  opcodeLessThanOrEqual_def opcodeGreaterThanOrEqual_def opcodeMin_def opcodeMax_def
  opcode2Div_def opcodeDiv_def opcodeMod_def opcodeWithin_def opcodeModexp_def opcodeLshift_def
  opcodeRshift_def

lemma opcodeNumEqual_ok: "vm_ok M vm \<Longrightarrow> handler_ok M vm (opcodeNumEqual L op data vm)"
  by (auto simp: opcodeNumEqual_def intro!: okE_num2 okE_pushCond)

interpretation num: safe_handlers run_num
proof (unfold_locales, goal_cases)
  case (1 L M vm data op b f)
  note bd = vm_ok_bounded(1) [OF 1(2)]
  show ?case
  proof (cases "f = F_NumEqualVerify")
    case True
    with 1(2) show ?thesis
      by (auto simp: opcodeNumEqualVerify_def intro!: okE_bind [OF opcodeNumEqual_ok] abstractVerify_ok)
  next
    case False
    then show ?thesis
      by (cases f)
        (use 1(2) bd in \<open>auto simp: num_defs
          intro!: okE_num1 okE_num2 okE_pushCond okE_PushBigNum okE_on_dstack okE_rules okE_num_steps\<close>)
  qed
qed

end
