(* ===== verification/ExampleLib.thy ===== *)
theory ExampleLib
imports VmInv
begin

text \<open>A concrete instance of the library record, used by the witnesses only: it shows that
the hypotheses the properties put on the library can hold together, and lets whole scripts be
evaluated.  Its hashes and signature checks are toys of the right shape (a fold of the bytes,
padded to the digest size; a signature is the key followed by the message), its varints are
eight bytes long, and its extension output holds one packet.\<close>

definition ex_fold :: "byte \<Rightarrow> bytes \<Rightarrow> byte" where
  "ex_fold b xs = foldl (\<lambda>a x. push_bit 1 a + x + 1) b xs"

definition ex_digest :: "nat \<Rightarrow> byte \<Rightarrow> bytes \<Rightarrow> bytes" where
  "ex_digest n k xs = ex_fold k xs # replicate (n - 1) 0"

definition ex_write_item :: "bytes \<Rightarrow> bytes" where
  "ex_write_item x = concat (map (\<lambda>b. [1, b]) x) @ [2]"

definition ex_WriteTxWitness :: "bytes list \<Rightarrow> bytes" where
  "ex_WriteTxWitness w = concat (map ex_write_item w) @ [3]"

fun ex_read_items :: "bytes \<Rightarrow> bytes \<Rightarrow> bytes list res" where
  "ex_read_items cur [] = go_err ''witness''"
| "ex_read_items cur (t # r) =
     (if t = 2 then bindE (ex_read_items [] r) (\<lambda>w. Inr (cur # w))
      else if t = 3 then Inr []
      else case r of [] \<Rightarrow> go_err ''witness'' | b # r' \<Rightarrow> ex_read_items (cur @ [b]) r')"

definition ex_WriteVarInt :: "nat \<Rightarrow> bytes" where "ex_WriteVarInt n = le_fixed 8 n"

definition ex_ReadVarInt :: "bytes \<Rightarrow> (nat \<times> bytes) res" where
  "ex_ReadVarInt r = (if length r < 8 then go_err ''varint'' else Inr (le_val (take 8 r), drop 8 r))"

definition ex_WriteVarBytes :: "bytes \<Rightarrow> bytes" where
  "ex_WriteVarBytes b = ex_WriteVarInt (length b) @ b"

definition ex_witness_program :: "bytes \<Rightarrow> (int \<times> bytes) res" where
  "ex_witness_program b =
     (if 4 \<le> length b \<and> length b \<le> 42 \<and> (b ! 0 = 0 \<or> 0x51 \<le> b ! 0 \<and> b ! 0 \<le> 0x60) \<and>
         unat (b ! 1) = length b - 2
      then Inr (if b ! 0 = 0 then 0 else uint (b ! 0) - 0x50, drop 2 b) else go_err ''no witness program'')"

definition ex_magic :: bytes where "ex_magic = [0x6a, 0x41, 0x52, 0x4b]"

definition ex_ext_parse :: "bytes \<Rightarrow> ext_packet list res" where
  "ex_ext_parse b =
     (case drop 4 b of [] \<Rightarrow> go_err ''empty extension''
      | t # d \<Rightarrow> if take 4 b = ex_magic then Inr [UnknownPacket t d] else go_err ''no extension'')"

definition ex_ext_write :: "ext_packet list \<Rightarrow> bytes res" where
  "ex_ext_write e = (case e of [UnknownPacket t d] \<Rightarrow> Inr (ex_magic @ t # d) | _ \<Rightarrow> go_err ''extension'')"

definition ex_lib :: lib where
  "ex_lib =
    \<lparr>sha256 = ex_digest 32 0, sha1 = ex_digest 20 1, ripemd160 = ex_digest 20 2, keccak256 = ex_digest 32 3,
     sha3_256 = ex_digest 32 4, TaggedHash = (\<lambda>t b. ex_digest 32 (ex_fold 5 t) b),
     sha256_New = [0], sha256_Write = (\<lambda>s b. [ex_fold (hd s) b]), sha256_Sum = (\<lambda>s. hd s # replicate 31 0),
     gob_Encode = (\<lambda>s. [103, 111, 98, hd s]),
     gob_Decode = (\<lambda>b. if length b = 4 then Some [b ! 3] else None), sha256_Marshal = (\<lambda>s. [hd s]),
     schnorr_ParsePubKey = (\<lambda>b. if length b = 32 then Inr (le_val b, 0) else go_err ''public key''),
     schnorr_SerializePubKey = (\<lambda>p. le_fixed 32 (fst p)),
     schnorr_ParseSignature = (\<lambda>b. if length b = 64 then Some (le_val (take 32 b), le_val (drop 32 b)) else None),
     schnorr_Verify = (\<lambda>(r, s) m p. r = fst p \<and> s = le_val m),
     secp_ParsePubKey = (\<lambda>b. if length b = 33 then Some (le_val (tl b), 0) else None),
     secp_ecdsa_Verify = (\<lambda>r s m p. r = fst p \<and> s = le_val m),
     modn_SetByteSlice = (\<lambda>b. (le_val b, False)), modn_IsOverHalfOrder = (\<lambda>n. n \<ge> 2 ^ 255),
     field_SetByteSlice = (\<lambda>b. (le_val b, False)), DecompressY = (\<lambda>x odd. Some 0),
     ScalarMult = (\<lambda>k p. (k * fst p, k * snd p)), ScalarBaseMult = (\<lambda>k. (k, k)),
     AddNonConst = (\<lambda>p q. (fst p + fst q, snd p + snd q)),
     SerializeCompressed = (\<lambda>p. 2 # le_fixed 32 (fst p)),
     p256_UnmarshalCompressed = (\<lambda>b. if length b = 33 then Some (le_val (tl b), 0) else None),
     p256_ParseUncompressed = (\<lambda>b. if length b = 65 then Some (le_val (take 32 (tl b)), le_val (drop 33 b)) else None),
     p256_ecdsa_Verify = (\<lambda>p m r s. r = fst p \<and> s = le_val m),
     sigCache_Add = (\<lambda>e c. e # c),
     k1_IsOnCurve = (\<lambda>p. True), k1_Add = (\<lambda>p q. (fst p + fst q, snd p + snd q)),
     k1_ScalarMul = (\<lambda>p k. (k * fst p, k * snd p)), k1_fieldModulus = 65537, k1_groupOrder = 65537,
     bn_IsOnCurve = (\<lambda>p. True), bn_Add = (\<lambda>p q. (fst p + fst q, snd p + snd q)),
     bn_ScalarMul = (\<lambda>p k. (k * fst p, k * snd p)), bn_fieldModulus = 65537, bn_groupOrder = 65537,
     bn_G2_IsOnCurve = (\<lambda>p. True), bn_G2_IsInSubGroup = (\<lambda>p. True), bn_PairingCheck = (\<lambda>a b. Inr (length a = length b)),
     p256_IsOnCurve = (\<lambda>p. True), p256_Add = (\<lambda>p q. (fst p + fst q, snd p + snd q)),
     p256_ScalarMult = (\<lambda>p k. (k * fst p, k * snd p)),
     TxHash = (\<lambda>t. ex_digest 32 6 (concat (map PkScript (TxOut t)))),
     SerializeSizeStripped = (\<lambda>t. 100),
     IsWitnessProgram = (\<lambda>b. case ex_witness_program b of Inl _ \<Rightarrow> False | Inr _ \<Rightarrow> True),
     ExtractWitnessProgramInfo = ex_witness_program, IsPushOnlyScript = (\<lambda>b. True),
     cb_Parse = (\<lambda>b. if 33 \<le> length b then Inr (hd b, take 32 (tl b)) else go_err ''control block''),
     tap_VerifyLeafCommitment = (\<lambda>c p s. Inr ()), tap_VerifyKeySpend = (\<lambda>p s t i f h c. Inr c),
     TapHash = (\<lambda>v s. ex_digest 32 v s),
     WriteOutPoint = (\<lambda>q. op_hash q @ le_fixed 4 (unat (op_index q))),
     WriteTxOut = (\<lambda>q. le_fixed 8 (unat (out_value q)) @ ex_WriteVarBytes (PkScript q)),
     WriteVarBytes = ex_WriteVarBytes, WriteVarInt = ex_WriteVarInt, ReadVarInt = ex_ReadVarInt,
     WriteTxWitness = ex_WriteTxWitness, ReadTxWitness = ex_read_items [],
     NewExtensionFromTx = (\<lambda>t. case filter (\<lambda>q. take 4 (PkScript q) = ex_magic) (TxOut t) of [] \<Rightarrow> Inr None
        | q # _ \<Rightarrow> bindE (ex_ext_parse (PkScript q)) (\<lambda>e. Inr (Some e))),
     IsExtension = (\<lambda>b. take 4 b = ex_magic), NewExtensionFromBytes = ex_ext_parse,
     ext_Serialize = ex_ext_write,
     packet_Serialize = (\<lambda>p. case p of UnknownPacket t d \<Rightarrow> Inr d | OtherPacket t d \<Rightarrow> Inr d),
     GetAssetPacket = (\<lambda>e. None), metadata_Serialize = (\<lambda>(k, v). Inr (k @ v)),
     AssetInputTypeIntent = 2,
     NewTxSigHashes = (\<lambda>t f. \<lparr>HashPrevOutsV1 = replicate 32 1, HashInputAmountsV1 = replicate 32 2,
       HashInputScriptsV1 = replicate 32 3, HashSequenceV1 = replicate 32 4\<rparr>),
     IsPayToTaproot = (\<lambda>b. length b = 34 \<and> take 2 b = [0x51, 32]),
     DecodeClosure = (\<lambda>b. if length b = 33 then Inr (MultisigClosure [(le_val (tl b), 0)]) else go_err ''closure'')\<rparr>"

lemma ex_lib_simps [simp]:
  "sha256 ex_lib = ex_digest 32 0"
  "sha1 ex_lib = ex_digest 20 1"
  "ripemd160 ex_lib = ex_digest 20 2"
  "keccak256 ex_lib = ex_digest 32 3"
  "sha3_256 ex_lib = ex_digest 32 4"
  "TaggedHash ex_lib = (\<lambda>t b. ex_digest 32 (ex_fold 5 t) b)"
  "sha256_New ex_lib = [0]"
  "sha256_Write ex_lib = (\<lambda>s b. [ex_fold (hd s) b])"
  "sha256_Sum ex_lib = (\<lambda>s. hd s # replicate 31 0)"
  "gob_Encode ex_lib = (\<lambda>s. [103, 111, 98, hd s])"
  "gob_Decode ex_lib = (\<lambda>b. if length b = 4 then Some [b ! 3] else None)"
  "sha256_Marshal ex_lib = (\<lambda>s. [hd s])"
  "schnorr_ParsePubKey ex_lib = (\<lambda>b. if length b = 32 then Inr (le_val b, 0) else go_err ''public key'')"
  "schnorr_ParseSignature ex_lib = (\<lambda>b. if length b = 64 then Some (le_val (take 32 b), le_val (drop 32 b)) else None)"
  "schnorr_Verify ex_lib = (\<lambda>(r, s) m p. r = fst p \<and> s = le_val m)"
  "secp_ParsePubKey ex_lib = (\<lambda>b. if length b = 33 then Some (le_val (tl b), 0) else None)"
  "secp_ecdsa_Verify ex_lib = (\<lambda>r s m p. r = fst p \<and> s = le_val m)"
  "modn_SetByteSlice ex_lib = (\<lambda>b. (le_val b, False))"
  "modn_IsOverHalfOrder ex_lib = (\<lambda>n. n \<ge> 2 ^ 255)"
  "field_SetByteSlice ex_lib = (\<lambda>b. (le_val b, False))"
  "DecompressY ex_lib = (\<lambda>x odd. Some 0)"
  "ScalarMult ex_lib = (\<lambda>k p. (k * fst p, k * snd p))"
  "ScalarBaseMult ex_lib = (\<lambda>k. (k, k))"
  "AddNonConst ex_lib = (\<lambda>p q. (fst p + fst q, snd p + snd q))"
  "SerializeCompressed ex_lib = (\<lambda>p. 2 # le_fixed 32 (fst p))"
  "p256_UnmarshalCompressed ex_lib = (\<lambda>b. if length b = 33 then Some (le_val (tl b), 0) else None)"
  "p256_ParseUncompressed ex_lib = (\<lambda>b. if length b = 65 then Some (le_val (take 32 (tl b)), le_val (drop 33 b)) else None)"
  "p256_ecdsa_Verify ex_lib = (\<lambda>p m r s. r = fst p \<and> s = le_val m)"
  "sigCache_Add ex_lib = (\<lambda>e c. e # c)"
  "k1_IsOnCurve ex_lib = (\<lambda>p. True)"
  "k1_Add ex_lib = (\<lambda>p q. (fst p + fst q, snd p + snd q))"
  "k1_ScalarMul ex_lib = (\<lambda>p k. (k * fst p, k * snd p))"
  "k1_fieldModulus ex_lib = 65537"
  "k1_groupOrder ex_lib = 65537"
  "bn_IsOnCurve ex_lib = (\<lambda>p. True)"
  "bn_Add ex_lib = (\<lambda>p q. (fst p + fst q, snd p + snd q))"
  "bn_ScalarMul ex_lib = (\<lambda>p k. (k * fst p, k * snd p))"
  "bn_fieldModulus ex_lib = 65537"
  "bn_groupOrder ex_lib = 65537"
  "bn_G2_IsOnCurve ex_lib = (\<lambda>p. True)"
  "bn_G2_IsInSubGroup ex_lib = (\<lambda>p. True)"
  "bn_PairingCheck ex_lib = (\<lambda>a b. Inr (length a = length b))"
  "p256_IsOnCurve ex_lib = (\<lambda>p. True)"
  "p256_Add ex_lib = (\<lambda>p q. (fst p + fst q, snd p + snd q))"
  "p256_ScalarMult ex_lib = (\<lambda>p k. (k * fst p, k * snd p))"
  "TxHash ex_lib = (\<lambda>t. ex_digest 32 6 (concat (map PkScript (TxOut t))))"
  "SerializeSizeStripped ex_lib = (\<lambda>t. 100)"
  "IsWitnessProgram ex_lib = (\<lambda>b. case ex_witness_program b of Inl _ \<Rightarrow> False | Inr _ \<Rightarrow> True)"
  "ExtractWitnessProgramInfo ex_lib = ex_witness_program"
  "IsPushOnlyScript ex_lib = (\<lambda>b. True)"
  "cb_Parse ex_lib = (\<lambda>b. if 33 \<le> length b then Inr (hd b, take 32 (tl b)) else go_err ''control block'')"
  "tap_VerifyLeafCommitment ex_lib = (\<lambda>c p s. Inr ())"
  "tap_VerifyKeySpend ex_lib = (\<lambda>p s t i f h c. Inr c)"
  "TapHash ex_lib = (\<lambda>v s. ex_digest 32 v s)"
  "WriteOutPoint ex_lib = (\<lambda>q. op_hash q @ le_fixed 4 (unat (op_index q)))"
  "WriteTxOut ex_lib = (\<lambda>q. le_fixed 8 (unat (out_value q)) @ ex_WriteVarBytes (PkScript q))"
  "WriteVarBytes ex_lib = ex_WriteVarBytes"
  "WriteVarInt ex_lib = ex_WriteVarInt"
  "ReadVarInt ex_lib = ex_ReadVarInt"
  "WriteTxWitness ex_lib = ex_WriteTxWitness"
  "ReadTxWitness ex_lib = ex_read_items []"
  "NewExtensionFromTx ex_lib = (\<lambda>t. case filter (\<lambda>q. take 4 (PkScript q) = ex_magic) (TxOut t) of [] \<Rightarrow> Inr None | q # _ \<Rightarrow> bindE (ex_ext_parse (PkScript q)) (\<lambda>e. Inr (Some e)))"
  "IsExtension ex_lib = (\<lambda>b. take 4 b = ex_magic)"
  "NewExtensionFromBytes ex_lib = ex_ext_parse"
  "ext_Serialize ex_lib = ex_ext_write"
  "packet_Serialize ex_lib = (\<lambda>p. case p of UnknownPacket t d \<Rightarrow> Inr d | OtherPacket t d \<Rightarrow> Inr d)"
  "GetAssetPacket ex_lib = (\<lambda>e. None)"
  "metadata_Serialize ex_lib = (\<lambda>(k, v). Inr (k @ v))"
  "AssetInputTypeIntent ex_lib = 2"
  "NewTxSigHashes ex_lib = (\<lambda>t f. \<lparr>HashPrevOutsV1 = replicate 32 1, HashInputAmountsV1 = replicate 32 2,
       HashInputScriptsV1 = replicate 32 3, HashSequenceV1 = replicate 32 4\<rparr>)"
  "IsPayToTaproot ex_lib = (\<lambda>b. length b = 34 \<and> take 2 b = [0x51, 32])"
  "DecodeClosure ex_lib = (\<lambda>b. if length b = 33 then Inr (MultisigClosure [(le_val (tl b), 0)]) else go_err ''closure'')"
  "schnorr_SerializePubKey ex_lib = (\<lambda>p. le_fixed 32 (fst p))"
  by (simp_all only: ex_lib_def lib_hash.simps lib_sig.simps lib_ec.simps lib_tx.simps lib.simps)

lemma length_ex_digest [simp]: "0 < n \<Longrightarrow> length (ex_digest n k b) = n"
  by (simp add: ex_digest_def)

lemma ex_read_items_ok: "okE (\<lambda>_. True) (ex_read_items cur r)"
proof (induction cur r rule: ex_read_items.induct)
  case (2 cur t r)
  show ?case
  proof (cases r)
    case Nil
    then show ?thesis by (simp add: okE_def bindE_def)
  next
    case (Cons b r')
    show ?thesis
    proof (cases "t = 2")
      case True
      then show ?thesis using 2(1) by (auto intro: okE_bind [where Q = "\<lambda>_. True"])
    next
      case False
      then show ?thesis using 2(2) Cons by simp
    qed
  qed
qed simp

lemma ex_witness_program_ok: "okE (\<lambda>(v, p). 0 \<le> v \<and> v \<le> 16 \<and> length p \<le> 40) (ex_witness_program b)"
  by (auto simp: ex_witness_program_def word_le_def)

lemma ex_lib_results:
  "okE (\<lambda>_. True) (ex_ext_parse b)" "okE (\<lambda>_. True) (ex_ext_write e)" "okE (\<lambda>_. True) (ex_ReadVarInt b)"
  by (auto simp: ex_ext_parse_def ex_ext_write_def ex_ReadVarInt_def split: list.split ext_packet.split)

lemma ex_coordinate: "length b = 33 \<Longrightarrow> le_val (tl b) < 2 ^ 256"
  using le_val_bound [of "tl b"] by simp

lemma ex_lib_ok: "lib_ok ex_lib"
  unfolding lib_ok_def ex_lib_simps
  by (intro conjI allI impI)
    (use ex_coordinate in \<open>auto simp: ex_witness_program_ok ex_read_items_ok ex_lib_results okE_bind [OF ex_lib_results(1)]
      split: list.split ext_packet.split prod.split if_splits\<close>)

lemma ex_read_item: "ex_read_items cur (concat (map (\<lambda>b. [1, b]) x) @ 2 # rest) = bindE (ex_read_items [] rest) (\<lambda>w. Inr ((cur @ x) # w))"
  by (induction x arbitrary: cur) simp_all

lemma ex_witness: "ex_read_items [] (ex_WriteTxWitness w) = Inr w"
  unfolding ex_WriteTxWitness_def
  by (induction w) (simp_all add: ex_write_item_def ex_read_item)

lemma ex_varint: "n < 2 ^ 64 \<Longrightarrow> ex_ReadVarInt (ex_WriteVarInt n @ rest) = Inr (n, rest)"
  by (simp add: ex_ReadVarInt_def ex_WriteVarInt_def del: le_fixed.simps)

end
