(* ===== verification/EmulatorPacket.thy ===== *)
theory EmulatorPacket
imports ExampleLib
begin

text \<open>Model of pkg/arkade/emulator_packet.go: the codec and the validation of the emulator
packet carried by the extension output of a transaction.  The varint and witness codecs are
btcd and ark-lib code (fields of the library record); writing them to a bytes.Buffer cannot
fail, so only the readers return errors.  A reader is the list of bytes still to be read.\<close>

definition PacketType :: byte where "PacketType = 0x01"
definition MaxEntryCount :: nat where "MaxEntryCount = 1000"
definition MaxScriptLength :: nat where "MaxScriptLength = 10000"
definition MaxWitnessLength :: nat where "MaxWitnessLength = 1000000"
definition MaxTotalEntrySize :: nat where "MaxTotalEntrySize = MaxScriptLength + MaxWitnessLength"

subsection \<open>Validation\<close>

primrec validate_entries :: "16 word set \<Rightarrow> emulatorEntry list \<Rightarrow> unit res" where
  "validate_entries seen [] = Inr ()"
| "validate_entries seen (entry # p) =
     (if length (ent_Script entry) = 0 then go_err ''empty script''
      else if Vin entry \<in> seen then go_err ''duplicate vin''
      else validate_entries (insert (Vin entry) seen) p)"

definition Validate :: "emulatorEntry list \<Rightarrow> unit res" where
  "Validate p =
     (if length p = 0 then go_err ''empty packet''
      else if length p > MaxEntryCount then go_err ''max emulator entry count exceeded''
      else validate_entries {} p)"

definition NewPacket :: "emulatorEntry list \<Rightarrow> emulatorEntry list res" where
  "NewPacket p = bindE (Validate p) (\<lambda>_. Inr p)"

subsection \<open>Serialisation\<close>

definition serialize_entry :: "lib \<Rightarrow> emulatorEntry \<Rightarrow> bytes" where
  "serialize_entry L entry =
     le_fixed 2 (unat (Vin entry)) @
     WriteVarInt L (length (ent_Script entry)) @ ent_Script entry @
     WriteVarInt L (length (WriteTxWitness L (ent_Witness entry))) @ WriteTxWitness L (ent_Witness entry)"

definition Packet_Serialize :: "lib \<Rightarrow> emulatorEntry list \<Rightarrow> bytes res" where
  "Packet_Serialize L p = Inr (WriteVarInt L (length p) @ concat (map (serialize_entry L) p))"

definition serialize_entry_masked :: "lib \<Rightarrow> emulatorEntry \<Rightarrow> bytes" where
  "serialize_entry_masked L entry =
     le_fixed 2 (unat (Vin entry)) @
     WriteVarInt L (length (ent_Script entry)) @ ent_Script entry @ WriteVarInt L 0"

definition serializeEmulatorPacketMasked :: "lib \<Rightarrow> emulatorEntry list \<Rightarrow> bytes res" where
  "serializeEmulatorPacketMasked L p =
     Inr (WriteVarInt L (length p) @ concat (map (serialize_entry_masked L) p))"

subsection \<open>Parsing\<close>

definition read_uint16 :: "bytes \<Rightarrow> (16 word \<times> bytes) res" where
  "read_uint16 r = (if length r < 2 then go_err ''failed to read vin''
                    else Inr (word_of_nat (le_val (take 2 r)), drop 2 r))"

definition read_full :: "nat \<Rightarrow> bytes \<Rightarrow> (bytes \<times> bytes) res" where
  "read_full n r = (if n > length r then go_err ''unexpected EOF'' else Inr (take n r, drop n r))"

text \<open>One iteration of the loop of DeserializeEmulatorPacket: the entry, the total size so
far and the rest of the input.\<close>

definition read_entry :: "lib \<Rightarrow> nat \<Rightarrow> bytes \<Rightarrow> (emulatorEntry \<times> nat \<times> bytes) res" where
  "read_entry L totalSize r =
     bindE (read_uint16 r) (\<lambda>(vin, r).
     bindE (ReadVarInt L r) (\<lambda>(scriptLen, r).
     if scriptLen > MaxScriptLength then go_err ''max emulator script length exceeded''
     else let totalSize = totalSize + scriptLen in
     if totalSize > MaxTotalEntrySize then go_err ''max emulator total entry size exceeded''
     else bindE (read_full scriptLen r) (\<lambda>(scr, r).
     bindE (ReadVarInt L r) (\<lambda>(witnessLen, r).
     if witnessLen > MaxWitnessLength then go_err ''max emulator witness length exceeded''
     else let totalSize = totalSize + witnessLen in
     if totalSize > MaxTotalEntrySize then go_err ''max emulator total entry size exceeded''
     else bindE (read_full witnessLen r) (\<lambda>(witnessBytes, r).
     bindE (if length witnessBytes > 0 then ReadTxWitness L witnessBytes else Inr []) (\<lambda>w.
     Inr (\<lparr>Vin = vin, ent_Script = scr, ent_Witness = w\<rparr>, totalSize, r)))))))"

primrec read_entries :: "lib \<Rightarrow> nat \<Rightarrow> nat \<Rightarrow> bytes \<Rightarrow> (emulatorEntry list \<times> bytes) res" where
  "read_entries L 0 totalSize r = Inr ([], r)"
| "read_entries L (Suc n) totalSize r =
     bindE (read_entry L totalSize r) (\<lambda>(e, totalSize, r).
     bindE (read_entries L n totalSize r) (\<lambda>(es, r). Inr (e # es, r)))"

definition DeserializeEmulatorPacket :: "lib \<Rightarrow> bytes \<Rightarrow> emulatorEntry list res" where
  "DeserializeEmulatorPacket L data =
     bindE (ReadVarInt L data) (\<lambda>(entryCount, r).
     if entryCount > MaxEntryCount then go_err ''max emulator entry count exceeded''
     else bindE (read_entries L entryCount 0 r) (\<lambda>(entries, r).
     if length r \<noteq> 0 then go_err ''unexpected trailing bytes''
     else NewPacket entries))"

fun find_packet :: "lib \<Rightarrow> msgtx \<Rightarrow> ext_packet list \<Rightarrow> emulatorEntry list option res" where
  "find_packet L t [] = Inr None"
| "find_packet L t (pkt # ext) =
     (if packet_Type pkt \<noteq> PacketType then find_packet L t ext
      else (case pkt of
        OtherPacket _ _ \<Rightarrow> find_packet L t ext
      | UnknownPacket _ d \<Rightarrow>
          bindE (DeserializeEmulatorPacket L d) (\<lambda>p.
          if list_ex (\<lambda>entry. unat (Vin entry) \<ge> length (TxIn t)) p
          then go_err ''input index out of range'' else Inr (Some p))))"

definition FindEmulatorPacket :: "lib \<Rightarrow> msgtx \<Rightarrow> emulatorEntry list option res" where
  "FindEmulatorPacket L t =
     bindE (NewExtensionFromTx L t) (\<lambda>r. case r of None \<Rightarrow> Inr None | Some ext \<Rightarrow> find_packet L t ext)"

subsection \<open>Validation, declaratively\<close>

lemma validate_entries_iff:
  "validate_entries seen p = Inr () \<longleftrightarrow>
     (\<forall>e \<in> set p. ent_Script e \<noteq> []) \<and> distinct (map Vin p) \<and> Vin ` set p \<inter> seen = {}"
  by (induction p arbitrary: seen) auto

lemma Validate_iff:
  "Validate p = Inr () \<longleftrightarrow> p \<noteq> [] \<and> length p \<le> 1000 \<and> (\<forall>e \<in> set p. ent_Script e \<noteq> []) \<and> distinct (map Vin p)"
  by (auto simp: Validate_def validate_entries_iff MaxEntryCount_def)

lemma NewPacket_iff: "NewPacket p = Inr q \<longleftrightarrow> Validate p = Inr () \<and> q = p"
  by (auto simp: NewPacket_def bindE_Inr_iff)

subsection \<open>The library codecs\<close>

text \<open>Documented behaviour of wire.WriteVarInt and ReadVarInt on 64-bit values, and of the
witness codec on a given witness: reading what was written gives it back, and a written
witness is not empty.\<close>

definition varint_codec :: "lib \<Rightarrow> bool" where
  "varint_codec L \<longleftrightarrow> (\<forall>n rest. n < 2 ^ 64 \<longrightarrow> ReadVarInt L (WriteVarInt L n @ rest) = Inr (n, rest))"

definition witness_codec :: "lib \<Rightarrow> bytes list \<Rightarrow> bool" where
  "witness_codec L w \<longleftrightarrow> ReadTxWitness L (WriteTxWitness L w) = Inr w \<and> WriteTxWitness L w \<noteq> []"

definition entry_size :: "lib \<Rightarrow> emulatorEntry \<Rightarrow> nat" where
  "entry_size L e = length (ent_Script e) + length (WriteTxWitness L (ent_Witness e))"

definition fits :: "lib \<Rightarrow> emulatorEntry list \<Rightarrow> bool" where
  "fits L p \<longleftrightarrow> (\<forall>e \<in> set p. length (ent_Script e) \<le> MaxScriptLength \<and>
                length (WriteTxWitness L (ent_Witness e)) \<le> MaxWitnessLength) \<and>
              sum_list (map (entry_size L) p) \<le> MaxTotalEntrySize"

lemma read_uint16_write: "read_uint16 (le_fixed 2 (unat w) @ rest) = Inr (w, rest)"
proof -
  have "take 2 (le_fixed 2 (unat w) @ rest) = le_fixed 2 (unat w)" by simp
  moreover have "unat w mod 256 ^ 2 = unat w" using unsigned_less [of w] by (intro mod_less) simp
  ultimately show ?thesis by (simp add: read_uint16_def del: le_fixed.simps)
qed

lemma read_full_append [simp]: "read_full (length xs) (xs @ rest) = Inr (xs, rest)"
  by (simp add: read_full_def)

lemma read_entry_serialize:
  assumes "varint_codec L" "witness_codec L (ent_Witness e)" "length (ent_Script e) \<le> MaxScriptLength"
    "length (WriteTxWitness L (ent_Witness e)) \<le> MaxWitnessLength" "t + entry_size L e \<le> MaxTotalEntrySize"
  shows "read_entry L t (serialize_entry L e @ rest) = Inr (e, t + entry_size L e, rest)"
proof -
  have v: "ReadVarInt L (WriteVarInt L n @ xs) = Inr (n, xs)" if "n \<le> 1010000" for n xs
    using assms(1) that by (simp add: varint_codec_def)
  have s: "length (ent_Script e) \<le> 1010000" "length (WriteTxWitness L (ent_Witness e)) \<le> 1010000"
    using assms(3,4) by (simp_all add: MaxScriptLength_def MaxWitnessLength_def)
  have w: "ReadTxWitness L (WriteTxWitness L (ent_Witness e)) = Inr (ent_Witness e)"
    "WriteTxWitness L (ent_Witness e) \<noteq> []" using assms(2) by (auto simp: witness_codec_def)
  show ?thesis
    unfolding read_entry_def serialize_entry_def append_assoc read_uint16_write
    using assms(3,4,5) w
    by (simp add: v [OF s(1)] v [OF s(2)] Let_def entry_size_def)
qed

lemma read_entries_serialize:
  assumes "varint_codec L"
  shows "(\<forall>e \<in> set p. witness_codec L (ent_Witness e) \<and> length (ent_Script e) \<le> MaxScriptLength \<and>
            length (WriteTxWitness L (ent_Witness e)) \<le> MaxWitnessLength) \<Longrightarrow>
         t + sum_list (map (entry_size L) p) \<le> MaxTotalEntrySize \<Longrightarrow>
         read_entries L (length p) t (concat (map (serialize_entry L) p) @ rest) = Inr (p, rest)"
proof (induction p arbitrary: t)
  case (Cons e p)
  have "read_entry L t (serialize_entry L e @ concat (map (serialize_entry L) p) @ rest)
        = Inr (e, t + entry_size L e, concat (map (serialize_entry L) p) @ rest)"
    using Cons.prems by (intro read_entry_serialize assms) auto
  moreover have "read_entries L (length p) (t + entry_size L e) (concat (map (serialize_entry L) p) @ rest)
        = Inr (p, rest)"
    using Cons.prems by (intro Cons.IH) auto
  ultimately show ?case by simp
qed simp

text \<open>What a parsed packet is known to satisfy.\<close>

lemma read_entry_bounds:
  assumes "read_entry L t r = Inr (e, t', r')"
  shows "length (ent_Script e) \<le> MaxScriptLength \<and> t + length (ent_Script e) \<le> t' \<and> t' \<le> MaxTotalEntrySize"
  using assms
  by (auto simp: read_entry_def bindE_Inr_iff read_full_def Let_def split: if_splits)

lemma read_entries_bounds:
  "read_entries L n t r = Inr (es, r') \<Longrightarrow> t \<le> MaxTotalEntrySize \<Longrightarrow>
   length es = n \<and> (\<forall>e \<in> set es. length (ent_Script e) \<le> MaxScriptLength) \<and>
   t + sum_list (map (length \<circ> ent_Script) es) \<le> MaxTotalEntrySize"
proof (induction n arbitrary: t r es)
  case (Suc n)
  from Suc.prems(1) obtain e t1 r1 es1 where
    e: "read_entry L t r = Inr (e, t1, r1)" "read_entries L n t1 r1 = Inr (es1, r')" "es = e # es1"
    by (auto simp: bindE_Inr_iff)
  from read_entry_bounds [OF e(1)] Suc.IH [OF e(2)] e(3) show ?case by auto
qed simp

lemma Deserialize_bounds:
  assumes "DeserializeEmulatorPacket L d = Inr p"
  shows "Validate p = Inr () \<and> (\<forall>e \<in> set p. length (ent_Script e) \<le> MaxScriptLength) \<and>
         sum_list (map (length \<circ> ent_Script) p) \<le> MaxTotalEntrySize"
proof -
  from assms obtain n r r' where "read_entries L n 0 r = Inr (p, r')" "Validate p = Inr ()"
    by (auto simp: DeserializeEmulatorPacket_def bindE_Inr_iff NewPacket_iff split: if_splits)
  with read_entries_bounds [of L n 0 r p r'] show ?thesis by simp
qed

lemma find_packet_bounds:
  "find_packet L t ext = Inr (Some p) \<Longrightarrow>
   (\<exists>d. DeserializeEmulatorPacket L d = Inr p) \<and> (\<forall>e \<in> set p. unat (Vin e) < length (TxIn t))"
  by (induction L t ext rule: find_packet.induct)
    (auto simp: bindE_Inr_iff list_ex_iff not_le split: if_splits ext_packet.splits)

subsection \<open>Masked entries\<close>

definition strip_witness :: "emulatorEntry \<Rightarrow> emulatorEntry" where
  "strip_witness e = e\<lparr>ent_Witness := []\<rparr>"

lemma read_full_0 [simp]: "read_full 0 r = Inr ([], r)"
  by (simp add: read_full_def)

lemma read_entry_masked:
  assumes "varint_codec L" "length (ent_Script e) \<le> MaxScriptLength" "t + length (ent_Script e) \<le> MaxTotalEntrySize"
  shows "read_entry L t (serialize_entry_masked L e @ rest) = Inr (strip_witness e, t + length (ent_Script e), rest)"
proof -
  have v: "ReadVarInt L (WriteVarInt L n @ xs) = Inr (n, xs)" if "n \<le> 1010000" for n xs
    using assms(1) that by (simp add: varint_codec_def)
  have s: "length (ent_Script e) \<le> 1010000" using assms(2) by (simp add: MaxScriptLength_def)
  show ?thesis
    unfolding read_entry_def serialize_entry_masked_def append_assoc read_uint16_write
    using assms(2,3)
    by (simp add: v [OF s] v [of 0] Let_def strip_witness_def)
qed

lemma read_entries_masked:
  assumes "varint_codec L"
  shows "(\<forall>e \<in> set p. length (ent_Script e) \<le> MaxScriptLength) \<Longrightarrow>
         t + sum_list (map (length \<circ> ent_Script) p) \<le> MaxTotalEntrySize \<Longrightarrow>
         read_entries L (length p) t (concat (map (serialize_entry_masked L) p) @ rest) = Inr (map strip_witness p, rest)"
proof (induction p arbitrary: t)
  case (Cons e p)
  have "read_entry L t (serialize_entry_masked L e @ concat (map (serialize_entry_masked L) p) @ rest)
        = Inr (strip_witness e, t + length (ent_Script e), concat (map (serialize_entry_masked L) p) @ rest)"
    using Cons.prems by (intro read_entry_masked assms) auto
  moreover have "read_entries L (length p) (t + length (ent_Script e)) (concat (map (serialize_entry_masked L) p) @ rest)
        = Inr (map strip_witness p, rest)"
    using Cons.prems by (intro Cons.IH) auto
  ultimately show ?case by simp
qed simp

lemma Validate_strip: "Validate (map strip_witness p) = Validate p"
proof -
  have v: "map Vin (map strip_witness p) = map Vin p" by (simp add: strip_witness_def)
  have "validate_entries s (map strip_witness p) = validate_entries s p" for s
    by (induction p arbitrary: s) (simp_all add: strip_witness_def)
  then show ?thesis by (simp add: Validate_def)
qed

lemma Deserialize_masked:
  assumes "varint_codec L" "Validate p = Inr ()" "\<forall>e \<in> set p. length (ent_Script e) \<le> MaxScriptLength"
    "sum_list (map (length \<circ> ent_Script) p) \<le> MaxTotalEntrySize" "serializeEmulatorPacketMasked L p = Inr d"
  shows "DeserializeEmulatorPacket L d = Inr (map strip_witness p)"
proof -
  have n: "length p \<le> 1000" using assms(2) by (simp add: Validate_iff)
  have d: "d = WriteVarInt L (length p) @ concat (map (serialize_entry_masked L) p) @ []"
    using assms(5) by (simp add: serializeEmulatorPacketMasked_def)
  have "ReadVarInt L d = Inr (length p, concat (map (serialize_entry_masked L) p) @ [])"
    using assms(1) n unfolding d varint_codec_def by simp
  with read_entries_masked [OF assms(1) assms(3), of 0 "[]"] assms(2,4) n show ?thesis
    by (simp add: DeserializeEmulatorPacket_def MaxEntryCount_def NewPacket_def Validate_strip)
qed

subsection \<open>Properties\<close>

lemma Deserialize_Serialize:
  assumes "varint_codec L" "\<forall>e \<in> set p. witness_codec L (ent_Witness e)"
    and "Validate p = Inr ()" "fits L p"
  shows "DeserializeEmulatorPacket L (projr (Packet_Serialize L p)) = Inr p"
proof -
  have n: "length p \<le> 1000" using assms(3) by (simp add: Validate_iff)
  have f: "\<forall>e \<in> set p. witness_codec L (ent_Witness e) \<and> length (ent_Script e) \<le> MaxScriptLength \<and>
      length (WriteTxWitness L (ent_Witness e)) \<le> MaxWitnessLength"
    "0 + sum_list (map (entry_size L) p) \<le> MaxTotalEntrySize"
    using assms(2,4) by (auto simp: fits_def)
  show ?thesis
    using read_entries_serialize [OF assms(1) f, of "[]"] assms(1,3) n
    by (simp add: Packet_Serialize_def DeserializeEmulatorPacket_def varint_codec_def MaxEntryCount_def NewPacket_def)
qed

text \<open>C29: Serialising a valid packet whose scripts and witnesses are within the limits and
parsing the bytes gives the same packet back, entry by entry, for any library whose varint
and witness codecs are inverse to each other.\<close>

theorem packet_roundtrip:
  assumes "varint_codec L" "\<forall>e \<in> set p. witness_codec L (ent_Witness e)"
    and "Validate p = Inr ()" "fits L p"
  shows "bindE (Packet_Serialize L p) (DeserializeEmulatorPacket L) = Inr p"
  using Deserialize_Serialize [OF assms] by (simp add: Packet_Serialize_def)

definition ex_packet :: "emulatorEntry list" where
  "ex_packet = [\<lparr>Vin = 1, ent_Script = [0x51], ent_Witness = [[7, 8], []]\<rparr>,
                \<lparr>Vin = 0, ent_Script = [0x53], ent_Witness = []\<rparr>]"

lemma ex_varint_codec: "varint_codec ex_lib"
  by (simp add: varint_codec_def ex_varint)

lemma ex_packet_ok: "Validate ex_packet = Inr ()" "fits ex_lib ex_packet"
  "\<forall>e \<in> set ex_packet. witness_codec ex_lib (ent_Witness e)"
  by (simp_all add: Validate_iff ex_packet_def fits_def entry_size_def witness_codec_def ex_witness
      ex_WriteTxWitness_def ex_write_item_def MaxScriptLength_def MaxWitnessLength_def MaxTotalEntrySize_def)

theorem packet_roundtrip_witness:
  "bindE (Packet_Serialize ex_lib ex_packet) (DeserializeEmulatorPacket ex_lib) = Inr ex_packet"
  by (rule packet_roundtrip [OF ex_varint_codec ex_packet_ok(3) ex_packet_ok(1,2)])

text \<open>Whatever bytes a transaction carries, a packet that FindEmulatorPacket returns is
non-empty, has at most 1000 entries with pairwise distinct vins, each the index of an
existing input, and non-empty scripts of at most 10000 bytes each and 1010000 in all.\<close>

theorem found_packet_bounds:
  assumes "FindEmulatorPacket L t = Inr (Some p)"
  shows "p \<noteq> [] \<and> length p \<le> MaxEntryCount \<and> distinct (map Vin p) \<and>
    (\<forall>e \<in> set p. unat (Vin e) < length (TxIn t) \<and> ent_Script e \<noteq> [] \<and> length (ent_Script e) \<le> MaxScriptLength) \<and>
    sum_list (map (length \<circ> ent_Script) p) \<le> MaxTotalEntrySize"
proof -
  obtain ext where "find_packet L t ext = Inr (Some p)"
    using assms by (auto simp: FindEmulatorPacket_def bindE_Inr_iff split: option.splits)
  then obtain d where "DeserializeEmulatorPacket L d = Inr p" "\<forall>e \<in> set p. unat (Vin e) < length (TxIn t)"
    using find_packet_bounds by blast
  with Deserialize_bounds [of L d p] show ?thesis by (simp add: Validate_iff MaxEntryCount_def)
qed

definition ex_in :: txin where
  "ex_in = \<lparr>PreviousOutPoint = \<lparr>op_hash = replicate 32 0, op_index = 0\<rparr>, SignatureScript = [], Witness = [], Sequence = 0\<rparr>"

definition ex_tx :: msgtx where
  "ex_tx = \<lparr>tx_version = 2, TxIn = [ex_in, ex_in],
     TxOut = [\<lparr>out_value = 0, PkScript = ex_magic @ PacketType # projr (Packet_Serialize ex_lib ex_packet)\<rparr>], LockTime = 0\<rparr>"

lemma ex_packet_found: "FindEmulatorPacket ex_lib ex_tx = Inr (Some ex_packet)"
proof -
  have "DeserializeEmulatorPacket ex_lib (projr (Packet_Serialize ex_lib ex_packet)) = Inr ex_packet"
    by (rule Deserialize_Serialize [OF ex_varint_codec ex_packet_ok(3) ex_packet_ok(1,2)])
  then show ?thesis
    by (simp add: FindEmulatorPacket_def ex_tx_def ex_magic_def ex_ext_parse_def PacketType_def)
      (simp add: ex_packet_def)
qed

theorem found_packet_bounds_witness:
  "FindEmulatorPacket ex_lib ex_tx = Inr (Some ex_packet) \<and> distinct (map Vin ex_packet) \<and>
   list_all (\<lambda>e. unat (Vin e) < length (TxIn ex_tx)) ex_packet"
  using ex_packet_found found_packet_bounds [OF ex_packet_found] by (simp add: list_all_iff)

lemma masked_ignores_witness:
  assumes "map (\<lambda>e. (Vin e, ent_Script e)) p = map (\<lambda>e. (Vin e, ent_Script e)) q"
  shows "serializeEmulatorPacketMasked L p = serializeEmulatorPacketMasked L q"
proof -
  have "serialize_entry_masked L = (\<lambda>(v, s). le_fixed 2 (unat v) @ WriteVarInt L (length s) @ s @ WriteVarInt L 0)
      \<circ> (\<lambda>e. (Vin e, ent_Script e))"
    by (rule ext) (simp add: serialize_entry_masked_def)
  then have "map (serialize_entry_masked L) p = map (serialize_entry_masked L) q"
    using assms by (simp only: map_map [symmetric])
  moreover have "length p = length q" using assms by (rule map_eq_imp_length_eq)
  ultimately show ?thesis by (simp add: serializeEmulatorPacketMasked_def)
qed

lemma masked_packet_same:
  assumes "varint_codec L" "DeserializeEmulatorPacket L x = Inr p" "DeserializeEmulatorPacket L y = Inr q"
    and "serializeEmulatorPacketMasked L p = serializeEmulatorPacketMasked L q"
  shows "map (\<lambda>e. (Vin e, ent_Script e)) p = map (\<lambda>e. (Vin e, ent_Script e)) q"
proof -
  obtain d where d: "serializeEmulatorPacketMasked L p = Inr d" "serializeEmulatorPacketMasked L q = Inr d"
    using assms(4) by (simp add: serializeEmulatorPacketMasked_def)
  note b = Deserialize_bounds [OF assms(2)] Deserialize_bounds [OF assms(3)]
  have "map strip_witness p = map strip_witness q"
    using Deserialize_masked [OF assms(1) _ _ _ d(1)] Deserialize_masked [OF assms(1) _ _ _ d(2)] b by simp
  from arg_cong [OF this, of "map (\<lambda>e. (Vin e, ent_Script e))"] show ?thesis
    by (simp add: strip_witness_def o_def)
qed

text \<open>The encoding the sighash commits to does not depend on the witnesses of the
entries, and commits to everything else: it parses back to the packet without its
witnesses, so that two valid packets with one masked encoding have the same vins and
scripts in the same order.\<close>

theorem masked_packet_commits:
  assumes "varint_codec L"
    and "Validate p = Inr ()" "\<forall>e \<in> set p. length (ent_Script e) \<le> MaxScriptLength"
      "sum_list (map (length \<circ> ent_Script) p) \<le> MaxTotalEntrySize"
    and "Validate q = Inr ()" "\<forall>e \<in> set q. length (ent_Script e) \<le> MaxScriptLength"
      "sum_list (map (length \<circ> ent_Script) q) \<le> MaxTotalEntrySize"
  shows "(serializeEmulatorPacketMasked L p = serializeEmulatorPacketMasked L q) =
         (map (\<lambda>e. (Vin e, ent_Script e)) p = map (\<lambda>e. (Vin e, ent_Script e)) q) \<and>
         bindE (serializeEmulatorPacketMasked L p) (DeserializeEmulatorPacket L)
           = Inr (map (\<lambda>e. e\<lparr>ent_Witness := []\<rparr>) p)"
proof -
  obtain d where d: "serializeEmulatorPacketMasked L p = Inr d"
    by (simp add: serializeEmulatorPacketMasked_def)
  have st: "map strip_witness = map (\<lambda>e. e\<lparr>ent_Witness := []\<rparr>)" by (rule ext) (simp add: strip_witness_def)
  have "map (\<lambda>e. (Vin e, ent_Script e)) p = map (\<lambda>e. (Vin e, ent_Script e)) q"
    if "serializeEmulatorPacketMasked L q = Inr d"
  proof -
    have "map strip_witness p = map strip_witness q"
      using Deserialize_masked [OF assms(1-4) d] Deserialize_masked [OF assms(1,5-7) that] by simp
    from arg_cong [OF this, of "map (\<lambda>e. (Vin e, ent_Script e))"] show ?thesis
      by (simp add: strip_witness_def o_def)
  qed
  then show ?thesis
    using Deserialize_masked [OF assms(1-4) d] d st masked_ignores_witness [of p q L] by auto
qed

theorem masked_packet_commits_witness:
  "serializeEmulatorPacketMasked ex_lib ex_packet
     = serializeEmulatorPacketMasked ex_lib (map (\<lambda>e. e\<lparr>ent_Witness := [[9]]\<rparr>) ex_packet)"
proof -
  have "Validate (map (\<lambda>e. e\<lparr>ent_Witness := [[9]]\<rparr>) ex_packet) = Inr ()"
    by (simp add: Validate_iff ex_packet_def)
  then show ?thesis
    using masked_packet_commits [OF ex_varint_codec ex_packet_ok(1), of "map (\<lambda>e. e\<lparr>ent_Witness := [[9]]\<rparr>) ex_packet"]
    by (simp add: ex_packet_def MaxScriptLength_def MaxTotalEntrySize_def MaxWitnessLength_def)
qed

end
