(* ===== verification/SigHash.thy ===== *)
theory SigHash
imports EmulatorPacket OpData
begin

text \<open>Model of pkg/arkade/sigvalidate.go, sigscheme.go and the tags of tweak.go: the arkade
signature hash, the three signature schemes and the cached verification of a signature.
Writing to a bytes.Buffer or a hash cannot fail, so those error branches do not appear.\<close>


definition arkadeSighashTag :: bytes where "arkadeSighashTag = go_bytes ''ArkadeTapSighash''"
definition TagArkScriptHash :: bytes where "TagArkScriptHash = go_bytes ''ArkScriptHash''"
definition TagArkWitnessHash :: bytes where "TagArkWitnessHash = go_bytes ''ArkWitnessHash''"

definition ArkadeScriptHash :: "lib \<Rightarrow> bytes \<Rightarrow> bytes" where
  "ArkadeScriptHash L scr = TaggedHash L TagArkScriptHash scr"

subsection \<open>The signature hash\<close>

text \<open>txscript.SigHashType is a uint32.\<close>

type_synonym hashType = "32 word"

definition SigHashDefault :: hashType where "SigHashDefault = 0"
definition SigHashAll :: hashType where "SigHashAll = 1"
definition SigHashNone :: hashType where "SigHashNone = 2"
definition SigHashSingle :: hashType where "SigHashSingle = 3"
definition SigHashAnyOneCanPay :: hashType where "SigHashAnyOneCanPay = 0x80"
definition sigHashMask :: hashType where "sigHashMask = 0x1f"

definition isValidTaprootSigHash :: "hashType \<Rightarrow> bool" where
  "isValidTaprootSigHash h \<longleftrightarrow>
     h \<in> {SigHashDefault, SigHashAll, SigHashNone, SigHashSingle} \<or> h \<in> {0x81, 0x82, 0x83}"

text \<open>maskExtensionOutput: the first extension output, rewritten with its first emulator
packet masked, and its index; None stands for (nil, -1).\<close>

fun mask_packets :: "lib \<Rightarrow> txout \<Rightarrow> nat \<Rightarrow> ext_packet list \<Rightarrow> ext_packet list \<Rightarrow> (txout \<times> nat) option res" where
  "mask_packets L out i before [] = Inr None"
| "mask_packets L out i before (pkt # ext) =
     (if packet_Type pkt \<noteq> PacketType then mask_packets L out i (before @ [pkt]) ext
      else (case pkt of
        OtherPacket _ _ \<Rightarrow> go_err ''emulator packet has unexpected type''
      | UnknownPacket _ d \<Rightarrow>
          bindE (DeserializeEmulatorPacket L d) (\<lambda>ip.
          bindE (serializeEmulatorPacketMasked L ip) (\<lambda>maskedData.
          bindE (ext_Serialize L (before @ UnknownPacket PacketType maskedData # ext)) (\<lambda>newScript.
          Inr (Some (\<lparr>out_value = out_value out, PkScript = newScript\<rparr>, i)))))))"

fun mask_outputs :: "lib \<Rightarrow> nat \<Rightarrow> txout list \<Rightarrow> (txout \<times> nat) option res" where
  "mask_outputs L i [] = Inr None"
| "mask_outputs L i (out # outs) =
     (if \<not> IsExtension L (PkScript out) then mask_outputs L (Suc i) outs
      else bindE (NewExtensionFromBytes L (PkScript out)) (mask_packets L out i []))"

definition maskExtensionOutput :: "lib \<Rightarrow> msgtx \<Rightarrow> (txout \<times> nat) option res" where
  "maskExtensionOutput L t = mask_outputs L 0 (TxOut t)"

definition arkadeOutputsHash :: "lib \<Rightarrow> msgtx \<Rightarrow> bytes res" where
  "arkadeOutputsHash L t =
     bindE (maskExtensionOutput L t) (\<lambda>m.
     Inr (sha256 L (concat (map (\<lambda>(i, out).
       WriteTxOut L (case m of Some (masked, maskedIdx) \<Rightarrow> if i = maskedIdx then masked else out | None \<Rightarrow> out))
       (enumerate 0 (TxOut t))))))"

definition buildArkadeSigMsg :: "lib \<Rightarrow> vm \<Rightarrow> hashType \<Rightarrow> bytes res" where
  "buildArkadeSigMsg L vm h =
     (case taprootCtx vm of None \<Rightarrow> go_err ''tapscript sighash requested outside of a tapscript execution context''
      | Some ctx \<Rightarrow>
     if \<not> isValidTaprootSigHash h then go_err ''invalid taproot sighash type''
     else if txIdx vm < 0 \<or> txIdx vm \<ge> int (length (TxIn (tx vm))) then go_err ''input index out of range''
     else let t = tx vm; idx = txIdx vm; hashCache = hashCache vm;
       m0 = [0, ucast h] @ le_fixed 4 (unat (tx_version t)) @ le_fixed 4 (unat (LockTime t));
       anyoneCanPay = (h AND SigHashAnyOneCanPay = SigHashAnyOneCanPay);
       m1 = m0 @ (if anyoneCanPay then [] else HashPrevOutsV1 hashCache @ HashInputAmountsV1 hashCache @
              HashInputScriptsV1 hashCache @ HashSequenceV1 hashCache);
       sigHashMode = h AND sigHashMask
     in bindE (if sigHashMode \<noteq> SigHashSingle \<and> sigHashMode \<noteq> SigHashNone then arkadeOutputsHash L t else Inr [])
     (\<lambda>outputsHash.
     let hasAnnex = (length (annex ctx) > 0);
       m2 = m1 @ outputsHash @ [if hasAnnex then 3 else 2];
       inp = TxIn t ! nat idx
     in bindE (if anyoneCanPay then
         (case prevOutFetcher vm of None \<Rightarrow> panic
          | Some f \<Rightarrow> (case FetchPrevOutput f (PreviousOutPoint inp) of
              None \<Rightarrow> go_err ''no prevout for input''
            | Some prevOut \<Rightarrow> Inr (WriteOutPoint L (PreviousOutPoint inp) @ WriteTxOut L prevOut @
                le_fixed 4 (unat (Sequence inp)))))
       else Inr (le_fixed 4 (unat (word_of_int idx :: 32 word))))
     (\<lambda>inputPart.
     let m3 = m2 @ inputPart @ (if hasAnnex then sha256 L (WriteVarBytes L (annex ctx)) else [])
     in bindE (if sigHashMode = SigHashSingle then
         (if idx \<ge> int (length (TxOut t)) then go_err ''SIGHASH_SINGLE: no output at input index''
          else let out = TxOut t ! nat idx
            in bindE (maskExtensionOutput L t) (\<lambda>m.
              Inr (sha256 L (WriteTxOut L (case m of Some (masked, maskedIdx) \<Rightarrow>
                  if int maskedIdx = idx then masked else out | None \<Rightarrow> out)))))
       else Inr [])
     (\<lambda>singlePart.
     Inr (m3 @ singlePart @ tapLeafHash ctx @ [0] @ le_fixed 4 (unat (codeSepPos ctx)))))))"

definition computeArkadeSighash :: "lib \<Rightarrow> vm \<Rightarrow> hashType \<Rightarrow> bytes res" where
  "computeArkadeSighash L vm h =
     bindE (buildArkadeSigMsg L vm h) (\<lambda>sigMsg. Inr (TaggedHash L arkadeSighashTag sigMsg))"

text \<open>The Engine with only the fields CalcArkadeScriptSignatureHash sets.  Its options are
the positions given with WithCodeSepPosition, of which the last wins.\<close>

definition sighash_engine :: "msgtx \<Rightarrow> int \<Rightarrow> sighashes \<Rightarrow> fetcher option \<Rightarrow> taprootCtx option \<Rightarrow> vm" where
  "sighash_engine t idx hashes f ctx =
     \<lparr>tx = t, txIdx = idx, version = 0, sigCache = None, hashCache = hashes, prevOutFetcher = f,
      assetPacket = None, emulatorPacket = None, scripts = [], scriptIdx = 0, opcodeIdx = 0,
      tokenizer = MakeScriptTokenizer 0 [], dstack = \<lparr>stk = [], verifyMinimalData = False\<rparr>,
      astack = \<lparr>stk = [], verifyMinimalData = False\<rparr>, condStack = [], witnessVersion = 0,
      witnessProgram = None, inputAmount = 0, taprootCtx = ctx, limits = Map.empty, budget = None\<rparr>"

definition CalcArkadeScriptSignatureHash ::
  "lib \<Rightarrow> sighashes option \<Rightarrow> hashType \<Rightarrow> msgtx option \<Rightarrow> int \<Rightarrow> fetcher option \<Rightarrow> tapLeaf \<Rightarrow> 32 word list \<Rightarrow> bytes res" where
  "CalcArkadeScriptSignatureHash L sigHashes h t idx f leaf opts =
     (case sigHashes of None \<Rightarrow> go_err ''nil sighash cache''
      | Some hashes \<Rightarrow> (case t of None \<Rightarrow> go_err ''nil transaction''
      | Some t \<Rightarrow> (case f of None \<Rightarrow> go_err ''nil prevout fetcher''
      | Some f \<Rightarrow> computeArkadeSighash L (sighash_engine t idx hashes (Some f)
          (Some ((newTaprootExecutionCtxForLeaf L leaf)\<lparr>codeSepPos := foldl (\<lambda>_ p. p) blankCodeSepValue opts\<rparr>))) h)))"

subsection \<open>Signature schemes\<close>

text \<open>The scheme tag and the two key pointers of schemeKey: exactly the pointer of the tag is
set.\<close>

datatype schemeKey =
    SchemeSchnorrSecp256k1 point
  | SchemeECDSASecp256k1 point
  | SchemeECDSASecp256r1 point

definition extPubKeyECDSASecp256k1 :: byte where "extPubKeyECDSASecp256k1 = 0x10"
definition extPubKeyECDSASecp256r1 :: byte where "extPubKeyECDSASecp256r1 = 0x11"


definition parseSchemePubKey :: "lib \<Rightarrow> bytes \<Rightarrow> schemeKey res" where
  "parseSchemePubKey L pkBytes =
     (if length pkBytes = 0 then script_err ErrTaprootPubkeyIsEmpty
      else if length pkBytes = 32 then
        bindE (schnorr_ParsePubKey L pkBytes) (\<lambda>pk. Inr (SchemeSchnorrSecp256k1 pk))
      else let prefix = hd pkBytes; key = tl pkBytes in
        if length key \<noteq> 33 then script_err ErrDiscourageUpgradeablePubKeyType
        else if prefix = extPubKeyECDSASecp256k1 then
          (case secp_ParsePubKey L key of None \<Rightarrow> script_err ErrInvalidStackOperation
           | Some pk \<Rightarrow> Inr (SchemeECDSASecp256k1 pk))
        else if prefix = extPubKeyECDSASecp256r1 then
          (case p256_UnmarshalCompressed L key of None \<Rightarrow> script_err ErrInvalidStackOperation
           | Some (x, y) \<Rightarrow>
               bindE (FillBytes32 x) (\<lambda>xb.
               bindE (FillBytes32 y) (\<lambda>yb.
               case p256_ParseUncompressed L (0x04 # xb @ yb) of None \<Rightarrow> script_err ErrInvalidStackOperation
               | Some pk \<Rightarrow> Inr (SchemeECDSASecp256r1 pk))))
        else script_err ErrDiscourageUpgradeablePubKeyType)"

text \<open>The order of P-256 (elliptic.P256().Params().N).\<close>

definition P256_N :: nat where
  "P256_N = 0xffffffff00000000ffffffffffffffffbce6faada7179e84f3b9cac2fc632551"

definition verifyECDSASecp256k1 :: "lib \<Rightarrow> point \<Rightarrow> bytes \<Rightarrow> bytes \<Rightarrow> bool" where
  "verifyECDSASecp256k1 L pub msg sig =
     (let (r, r_over) = modn_SetByteSlice L (take 32 sig) in
      if r_over \<or> r = 0 then False
      else let (s, s_over) = modn_SetByteSlice L (drop 32 sig) in
      if s_over \<or> s = 0 then False
      else if modn_IsOverHalfOrder L s then False
      else secp_ecdsa_Verify L r s msg pub)"

definition verifyECDSASecp256r1 :: "lib \<Rightarrow> point \<Rightarrow> bytes \<Rightarrow> bytes \<Rightarrow> bool" where
  "verifyECDSASecp256r1 L pub msg sig =
     (let r = le_val (rev (take 32 sig)); s = le_val (rev (drop 32 sig)) in
      if r = 0 \<or> s = 0 \<or> r \<ge> P256_N \<or> s \<ge> P256_N then False
      else if s > P256_N div 2 then False
      else p256_ecdsa_Verify L pub msg r s)"

fun scheme_verify :: "lib \<Rightarrow> schemeKey \<Rightarrow> bytes \<Rightarrow> bytes \<Rightarrow> bool" where
  "scheme_verify L (SchemeSchnorrSecp256k1 pub) msg sig =
     (case schnorr_ParseSignature L sig of None \<Rightarrow> False | Some parsed \<Rightarrow> schnorr_Verify L parsed msg pub)"
| "scheme_verify L (SchemeECDSASecp256k1 pub) msg sig =
     (if length msg \<noteq> 32 \<or> length sig \<noteq> 64 then False else verifyECDSASecp256k1 L pub msg sig)"
| "scheme_verify L (SchemeECDSASecp256r1 pub) msg sig =
     (if length msg \<noteq> 32 \<or> length sig \<noteq> 64 then False else verifyECDSASecp256r1 L pub msg sig)"

subsection \<open>Verifying a tapscript signature\<close>

record tapscriptSigVerifier =
  sv_scheme :: schemeKey
  sv_pkBytes :: bytes
  sv_fullSigBytes :: bytes
  sv_coreSig :: bytes
  sv_hashType :: hashType

definition SignatureSize :: nat where "SignatureSize = 64"

definition splitTaprootSig :: "bytes \<Rightarrow> (bytes \<times> hashType) res" where
  "splitTaprootSig rawSig =
     (if length rawSig = SignatureSize then Inr (rawSig, SigHashDefault)
      else if length rawSig = SignatureSize + 1 \<and> rawSig ! SignatureSize \<noteq> 0
      then Inr (take SignatureSize rawSig, ucast (rawSig ! SignatureSize))
      else script_err ErrInvalidTaprootSigLen)"

definition newTapscriptSigVerifier :: "lib \<Rightarrow> bytes \<Rightarrow> bytes \<Rightarrow> tapscriptSigVerifier res" where
  "newTapscriptSigVerifier L pkBytes fullSigBytes =
     bindE (parseSchemePubKey L pkBytes) (\<lambda>scheme.
     bindE (splitTaprootSig fullSigBytes) (\<lambda>(coreSig, h).
     Inr \<lparr>sv_scheme = scheme, sv_pkBytes = pkBytes, sv_fullSigBytes = fullSigBytes,
          sv_coreSig = coreSig, sv_hashType = h\<rparr>))"

text \<open>verifySig and Verify return the verdict and the signature cache they leave.  Verify
turns an error of the sighash into a negative verdict (but does not recover from a panic).\<close>

type_synonym sig_cache = "(bytes \<times> bytes \<times> bytes) list option"

definition verifySig :: "lib \<Rightarrow> tapscriptSigVerifier \<Rightarrow> bytes \<Rightarrow> sig_cache \<Rightarrow> bool \<times> sig_cache" where
  "verifySig L v sigHash cache =
     (let entry = (sigHash, sv_fullSigBytes v, sv_pkBytes v) in
      if (case cache of Some c \<Rightarrow> entry \<in> set c | None \<Rightarrow> False) then (True, cache)
      else if \<not> scheme_verify L (sv_scheme v) sigHash (sv_coreSig v) then (False, cache)
      else (True, map_option (sigCache_Add L entry) cache))"

definition sv_Verify :: "lib \<Rightarrow> tapscriptSigVerifier \<Rightarrow> vm \<Rightarrow> (bool \<times> sig_cache) res" where
  "sv_Verify L v vm =
     (case computeArkadeSighash L vm (sv_hashType v) of
        Inl Panic \<Rightarrow> panic
      | Inl _ \<Rightarrow> Inr (False, sigCache vm)
      | Inr sigHash \<Rightarrow> Inr (verifySig L v sigHash (sigCache vm)))"

subsection \<open>The signature hash never panics on a well-formed engine\<close>

lemma okE_read_uint16: "okE (\<lambda>_. True) (read_uint16 r)"
  by (simp add: read_uint16_def)

lemma okE_read_full: "okE (\<lambda>_. True) (read_full n r)"
  by (simp add: read_full_def)

lemma okE_lib:
  assumes "lib_ok L"
  shows "okE (\<lambda>_. True) (ReadVarInt L b)" "okE (\<lambda>_. True) (ReadTxWitness L b)"
    "okE (\<lambda>_. True) (NewExtensionFromBytes L b)" "okE (\<lambda>_. True) (NewExtensionFromTx L t)"
    "okE (\<lambda>_. True) (ext_Serialize L e)" "okE (\<lambda>_. True) (packet_Serialize L p)"
    "okE (\<lambda>_. True) (schnorr_ParsePubKey L b)" "okE (\<lambda>_. True) (metadata_Serialize L m)"
    "okE (\<lambda>_. True) (bn_PairingCheck L g1s g2s)" "okE (\<lambda>_. True) (cb_Parse L b)"
    "okE (\<lambda>_. True) (tap_VerifyLeafCommitment L cb q s)"
    "okE (\<lambda>_. True) (tap_VerifyKeySpend L q s t i f h c)"
  using assms by (simp_all only: lib_ok_def)

text \<open>Sequencing when only the absence of a panic matters.\<close>

lemma okE_seq: "okE (\<lambda>_. True) m \<Longrightarrow> (\<And>a. okE P (f a)) \<Longrightarrow> okE P (bindE m f)"
  by (rule okE_bind)

lemma okE_read_entry: "lib_ok L \<Longrightarrow> okE (\<lambda>_. True) (read_entry L n r)"
  by (auto simp: read_entry_def Let_def intro!: okE_seq [OF okE_read_uint16] okE_seq [OF okE_lib(1)]
      okE_seq [OF okE_read_full] okE_seq [OF okE_lib(2)])

lemma okE_read_entries: "lib_ok L \<Longrightarrow> okE (\<lambda>_. True) (read_entries L k n r)"
proof (induction k arbitrary: n r)
  case (Suc k)
  show ?case
    using Suc.IH [OF Suc.prems] by (auto intro!: okE_seq [OF okE_read_entry [OF Suc.prems]] intro: okE_seq)
qed simp

lemma okE_validate_entries: "okE (\<lambda>_. True) (validate_entries s p)"
  by (induction p arbitrary: s) simp_all

lemma okE_Validate: "okE (\<lambda>_. True) (Validate p)"
  by (simp add: Validate_def okE_validate_entries)

lemma okE_Deserialize: "lib_ok L \<Longrightarrow> okE (\<lambda>_. True) (DeserializeEmulatorPacket L d)"
  by (auto simp: DeserializeEmulatorPacket_def NewPacket_def intro!: okE_seq [OF okE_lib(1)]
      okE_seq [OF okE_read_entries] okE_seq [OF okE_Validate])

lemma okE_mask_packets: "lib_ok L \<Longrightarrow> okE (\<lambda>_. True) (mask_packets L out i before ext)"
  by (induction L out i before ext rule: mask_packets.induct)
    (auto simp: serializeEmulatorPacketMasked_def split: ext_packet.split
      intro!: okE_seq [OF okE_Deserialize] okE_seq [OF okE_lib(5)])

lemma okE_mask: "lib_ok L \<Longrightarrow> okE (\<lambda>_. True) (maskExtensionOutput L t)"
proof -
  assume L: "lib_ok L"
  have "okE (\<lambda>_. True) (mask_outputs L i outs)" for i outs
    by (induction outs arbitrary: i) (auto intro!: okE_seq [OF okE_lib(3)] okE_mask_packets L)
  then show ?thesis by (simp add: maskExtensionOutput_def)
qed

lemma okE_arkadeOutputsHash: "lib_ok L \<Longrightarrow> okE (\<lambda>_. True) (arkadeOutputsHash L t)"
  by (auto simp: arkadeOutputsHash_def intro!: okE_seq [OF okE_mask])

lemma okE_buildArkadeSigMsg: "lib_ok L \<Longrightarrow> env_ok vm \<Longrightarrow> okE (\<lambda>_. True) (buildArkadeSigMsg L vm h)"
  unfolding buildArkadeSigMsg_def Let_def
  by (auto simp: env_ok_def split: option.split intro!: okE_if okE_seq okE_arkadeOutputsHash okE_mask)

lemma okE_computeArkadeSighash: "lib_ok L \<Longrightarrow> env_ok vm \<Longrightarrow> okE (\<lambda>h. length h = 32) (computeArkadeSighash L vm h)"
  by (auto simp: computeArkadeSighash_def lib_ok_def intro!: okE_seq [OF okE_buildArkadeSigMsg])

lemma okE_sv_Verify: "lib_ok L \<Longrightarrow> env_ok vm \<Longrightarrow> okE (\<lambda>_. True) (sv_Verify L v vm)"
  using okE_computeArkadeSighash [of L vm "sv_hashType v"]
  by (auto simp: sv_Verify_def split: sum.split verror.split)

lemma okE_FillBytes32: "n < 2 ^ 256 \<Longrightarrow> okE (\<lambda>_. True) (FillBytes32 n)"
  by (simp add: FillBytes32_def)

lemma okE_parseSchemePubKey:
  assumes "lib_ok L"
  shows "okE (\<lambda>_. True) (parseSchemePubKey L pk)"
proof -
  have c: "x < 2 ^ 256 \<and> y < 2 ^ 256" if "p256_UnmarshalCompressed L b = Some (x, y)" for b x y
  proof -
    have "\<forall>b x y. p256_UnmarshalCompressed L b = Some (x, y) \<longrightarrow> x < 2 ^ 256 \<and> y < 2 ^ 256"
      using assms unfolding lib_ok_def by (elim conjE)
    with that show ?thesis by metis
  qed
  show ?thesis
    unfolding parseSchemePubKey_def Let_def
    by (intro okE_if okE_script_err okE_seq [OF okE_lib(7) [OF assms]])
      (auto split: option.split dest!: c intro!: okE_seq [OF okE_FillBytes32])
qed

lemma okE_newTapscriptSigVerifier: "lib_ok L \<Longrightarrow> okE (\<lambda>_. True) (newTapscriptSigVerifier L pk sig)"
  by (auto simp: newTapscriptSigVerifier_def splitTaprootSig_def intro!: okE_seq [OF okE_parseSchemePubKey])

end
