(* ===== verification/OpCrypto.thy ===== *)
theory OpCrypto
imports SigHash
begin

text \<open>Model of the hashing and signature handlers of pkg/arkade/opcode.go.\<close>

subsection \<open>Hashing\<close>

text \<open>The five hash handlers pop an item and push its digest.\<close>

definition hash_top :: "(bytes \<Rightarrow> bytes) \<Rightarrow> vm \<Rightarrow> vm res" where
  "hash_top f vm = on_dstack (\<lambda>s.
     bindE (PopByteArray s) (\<lambda>(buf, s). Inr (PushByteArray (f buf) s))) vm"

definition opcodeRipemd160 :: handler where
  "opcodeRipemd160 L op data vm = hash_top (ripemd160 L) vm"

definition opcodeSha1 :: handler where
  "opcodeSha1 L op data vm = hash_top (sha1 L) vm"

definition opcodeSha256 :: handler where
  "opcodeSha256 L op data vm = hash_top (sha256 L) vm"

definition opcodeHash160 :: handler where
  "opcodeHash160 L op data vm = hash_top (\<lambda>buf. ripemd160 L (sha256 L buf)) vm"

definition opcodeHash256 :: handler where
  "opcodeHash256 L op data vm = hash_top (\<lambda>buf. sha256 L (sha256 L buf)) vm"

definition opcodeDigest :: handler where
  "opcodeDigest L op data vm = on_dstack (\<lambda>s.
     bindE (PopInt s) (\<lambda>(t, s).
     bindE (PopByteArray s) (\<lambda>(buf, s).
     if t = 1 then Inr (PushByteArray (sha256 L buf) s)
     else if t = 2 then Inr (PushByteArray (sha1 L buf) s)
     else if t = 3 then Inr (PushByteArray (ripemd160 L buf) s)
     else if t = 4 then Inr (PushByteArray (keccak256 L buf) s)
     else if t = 5 then Inr (PushByteArray (sha3_256 L buf) s)
     else script_err ErrInvalidStackOperation))) vm"

text \<open>The framing of a serialised SHA-256 state, computed from the initial state when the
package is loaded.\<close>

definition sha256StateFraming :: "lib \<Rightarrow> (bytes \<times> int) res" where
  "sha256StateFraming L =
     (let encoded = gob_Encode L (sha256_New L); marshaled = sha256_Marshal L (sha256_New L) in
      bindE (slice encoded 0 (int (length encoded) - int (length marshaled))) (\<lambda>prefix.
      Inr (prefix, int (length encoded))))"

definition decodeSha256State :: "lib \<Rightarrow> bytes \<Rightarrow> sha_state res" where
  "decodeSha256State L state =
     bindE (sha256StateFraming L) (\<lambda>(sha256StatePrefix, sha256StateLen).
     if int (length state) \<noteq> sha256StateLen \<or> take (length sha256StatePrefix) state \<noteq> sha256StatePrefix
     then script_err ErrInvalidStackOperation
     else (case gob_Decode L state of None \<Rightarrow> script_err ErrInvalidStackOperation | Some h \<Rightarrow> Inr h))"

definition opcodeSha256Initialize :: handler where
  "opcodeSha256Initialize L op data vm = on_dstack (\<lambda>s.
     bindE (PopByteArray s) (\<lambda>(data, s).
     Inr (PushByteArray (gob_Encode L (sha256_Write L (sha256_New L) data)) s))) vm"

definition opcodeSha256Update :: handler where
  "opcodeSha256Update L op data vm = on_dstack (\<lambda>s.
     bindE (PopByteArray s) (\<lambda>(data, s).
     bindE (PopByteArray s) (\<lambda>(state, s).
     bindE (decodeSha256State L state) (\<lambda>h.
     Inr (PushByteArray (gob_Encode L (sha256_Write L h data)) s))))) vm"

definition opcodeSha256Finalize :: handler where
  "opcodeSha256Finalize L op data vm = on_dstack (\<lambda>s.
     bindE (PopByteArray s) (\<lambda>(data, s).
     bindE (PopByteArray s) (\<lambda>(state, s).
     bindE (decodeSha256State L state) (\<lambda>h.
     Inr (PushByteArray (sha256_Sum L (sha256_Write L h data)) s))))) vm"

text \<open>bytes.Compare(a, b) < 0, and one step of the Merkle walk.\<close>

fun bytes_less :: "bytes \<Rightarrow> bytes \<Rightarrow> bool" where
  "bytes_less a [] = False"
| "bytes_less [] (y # ys) = True"
| "bytes_less (x # xs) (y # ys) = (x < y \<or> x = y \<and> bytes_less xs ys)"

text \<open>copy(combined[:32], a); copy(combined[32:], b): both parts are 32 bytes here.\<close>

definition merkle_step :: "lib \<Rightarrow> bytes \<Rightarrow> bytes \<Rightarrow> bytes \<Rightarrow> bytes" where
  "merkle_step L branchTag current sibling =
     (let combined = (if bytes_less current sibling then current @ sibling else sibling @ current)
      in TaggedHash L branchTag combined)"

function merkle_walk :: "lib \<Rightarrow> bytes \<Rightarrow> bytes \<Rightarrow> bytes \<Rightarrow> bytes" where
  "merkle_walk L branchTag current proof =
     (if proof = [] then current
      else merkle_walk L branchTag (merkle_step L branchTag current (take 32 proof)) (drop 32 proof))"
  by auto
termination by (relation "measure (\<lambda>(_, _, _, p). length p)") auto

declare merkle_walk.simps [simp del]

definition opcodeMerkleBranchVerify :: handler where
  "opcodeMerkleBranchVerify L op data vm = on_dstack (\<lambda>s.
     bindE (PopByteArray s) (\<lambda>(leafData, s).
     bindE (PopByteArray s) (\<lambda>(proof, s).
     if length proof mod 32 \<noteq> 0 then script_err ErrInvalidStackOperation
     else bindE (PopByteArray s) (\<lambda>(branchTag, s).
     if length branchTag = 0 then script_err ErrInvalidStackOperation
     else bindE (PopByteArray s) (\<lambda>(leafTag, s).
     if length leafTag = 0 \<and> length leafData \<noteq> 32 then script_err ErrInvalidStackOperation
     else let current = (if length leafTag = 0 then leafData else TaggedHash L leafTag leafData)
       in Inr (PushByteArray (merkle_walk L branchTag current proof) s)))))) vm"

subsection \<open>Signatures\<close>

definition opcodeCodeSeparator :: handler where
  "opcodeCodeSeparator L op data vm =
     (case taprootCtx vm of None \<Rightarrow> script_err ErrReservedOpcode
      | Some ctx \<Rightarrow> Inr (vm\<lparr>taprootCtx := Some (ctx\<lparr>codeSepPos := word_of_int (OpcodePosition (tokenizer vm))\<rparr>)\<rparr>))"

definition opcodeCheckSig :: handler where
  "opcodeCheckSig L op data vm =
     (case taprootCtx vm of None \<Rightarrow> script_err ErrReservedOpcode
      | Some _ \<Rightarrow>
     bindE (PopByteArray (dstack vm)) (\<lambda>(pkBytes, s).
     bindE (PopByteArray s) (\<lambda>(fullSigBytes, s).
     if length pkBytes = 0 then script_err ErrTaprootPubkeyIsEmpty
     else if length fullSigBytes = 0 then Inr (vm\<lparr>dstack := PushByteArray [] s\<rparr>)
     else bindE (newTapscriptSigVerifier L pkBytes fullSigBytes) (\<lambda>v.
       bindE (sv_Verify L v (vm\<lparr>dstack := s\<rparr>)) (\<lambda>(valid, cache).
       if \<not> valid \<and> length fullSigBytes \<noteq> 0 then script_err ErrNullFail
       else Inr (vm\<lparr>dstack := PushBool valid s, sigCache := cache\<rparr>))))))"

definition opcodeCheckSigVerify :: handler where
  "opcodeCheckSigVerify L op data vm =
     bindE (opcodeCheckSig L op data vm) (\<lambda>vm. abstractVerify ErrCheckSigVerify vm)"

definition opcodeCheckSigAdd :: handler where
  "opcodeCheckSigAdd L op data vm =
     (case taprootCtx vm of None \<Rightarrow> script_err ErrReservedOpcode
      | Some _ \<Rightarrow>
     bindE (PopByteArray (dstack vm)) (\<lambda>(pubKeyBytes, s).
     bindE (PopInt s) (\<lambda>(accumulatorInt, s).
     bindE (PopByteArray s) (\<lambda>(sigBytes, s).
     if length pubKeyBytes = 0 then script_err ErrTaprootPubkeyIsEmpty
     else if length sigBytes = 0 then
       bindE (PushInt accumulatorInt s) (\<lambda>s. Inr (vm\<lparr>dstack := s\<rparr>))
     else bindE (newTapscriptSigVerifier L pubKeyBytes sigBytes) (\<lambda>v.
       bindE (sv_Verify L v (vm\<lparr>dstack := s\<rparr>)) (\<lambda>(valid, cache).
       if \<not> valid then script_err ErrNullFail
       else bindE (PushInt (accumulatorInt + 1) s) (\<lambda>s. Inr (vm\<lparr>dstack := s, sigCache := cache\<rparr>))))))))"

definition opcodeCheckMultiSig :: handler where
  "opcodeCheckMultiSig L op data vm = script_err ErrTapscriptCheckMultisig"

definition opcodeCheckMultiSigVerify :: handler where
  "opcodeCheckMultiSigVerify L op data vm = opcodeCheckMultiSig L op data vm"

definition opcodeChecksigFromStack :: handler where
  "opcodeChecksigFromStack L op data vm = on_dstack (\<lambda>s.
     bindE (PopByteArray s) (\<lambda>(pubKey, s).
     bindE (PopByteArray s) (\<lambda>(message, s).
     bindE (PopByteArray s) (\<lambda>(signature, s).
     if length signature = 0 then Inr (PushByteArray [] s)
     else bindE (parseSchemePubKey L pubKey) (\<lambda>scheme.
       if \<not> scheme_verify L scheme message signature then script_err ErrNullFail
       else PushInt 1 s))))) vm"

definition opcodeSighash :: handler where
  "opcodeSighash L op data vm =
     (case taprootCtx vm of None \<Rightarrow> script_err ErrReservedOpcode
      | Some _ \<Rightarrow>
     bindE (PopInt (dstack vm)) (\<lambda>(hashTypeNum, s).
     let flag = scriptNum_Int32 hashTypeNum in
     if flag < 0 \<or> flag > 0xff then script_err ErrNumberTooBig
     else let h = (word_of_int flag :: hashType) in
     if \<not> isValidTaprootSigHash h then script_err ErrInvalidSigHashType
     else if h AND NOT SigHashAnyOneCanPay = SigHashSingle \<and> txIdx vm \<ge> int (length (TxOut (tx vm)))
     then script_err ErrInvalidSigHashType
     else bindE (computeArkadeSighash L (vm\<lparr>dstack := s\<rparr>) h) (\<lambda>sigHash.
       Inr (vm\<lparr>dstack := PushByteArray sigHash s\<rparr>))))"

primrec run_crypto :: "crypto_fn \<Rightarrow> handler" where
  "run_crypto F_Ripemd160 = opcodeRipemd160"
| "run_crypto F_Sha1 = opcodeSha1"
| "run_crypto F_Sha256 = opcodeSha256"
| "run_crypto F_Hash160 = opcodeHash160"
| "run_crypto F_Hash256 = opcodeHash256"
| "run_crypto F_Digest = opcodeDigest"
| "run_crypto F_CodeSeparator = opcodeCodeSeparator"
| "run_crypto F_CheckSig = opcodeCheckSig"
| "run_crypto F_CheckSigVerify = opcodeCheckSigVerify"
| "run_crypto F_CheckMultiSig = opcodeCheckMultiSig"
| "run_crypto F_CheckMultiSigVerify = opcodeCheckMultiSigVerify"
| "run_crypto F_CheckSigAdd = opcodeCheckSigAdd"
| "run_crypto F_ChecksigFromStack = opcodeChecksigFromStack"
| "run_crypto F_MerkleBranchVerify = opcodeMerkleBranchVerify"
| "run_crypto F_Sha256Initialize = opcodeSha256Initialize"
| "run_crypto F_Sha256Update = opcodeSha256Update"
| "run_crypto F_Sha256Finalize = opcodeSha256Finalize"
| "run_crypto F_Sighash = opcodeSighash"

subsection \<open>The handlers keep the invariant\<close>

lemma okE_hash_top:
  assumes "vm_ok M vm" "\<And>b. length (f b) \<le> 520"
  shows "handler_ok M vm (hash_top f vm)"
  using vm_ok_bounded(1) [OF assms(1)] assms
  by (auto simp: hash_top_def intro!: okE_on_dstack okE_rules bounded_push dest: bounded_520)

lemma okE_decodeSha256State: "lib_ok L \<Longrightarrow> okE (\<lambda>_. True) (decodeSha256State L state)"
  using lib_lengths(10) [of L]
  by (simp add: decodeSha256State_def sha256StateFraming_def slice_ok Let_def split: option.split)

lemma length_merkle_walk: "lib_ok L \<Longrightarrow> length c \<le> n \<Longrightarrow> 32 \<le> n \<Longrightarrow> length (merkle_walk L t c p) \<le> n"
proof (induction L t c p rule: merkle_walk.induct)
  case (1 L t c p)
  have "length (merkle_step L t c (take 32 p)) \<le> n"
    using 1(2,4) lib_lengths(6) [OF 1(2)] by (simp add: merkle_step_def Let_def)
  with 1 show ?case by (subst merkle_walk.simps) simp
qed

lemma env_ok_dstack: "vm_ok M vm \<Longrightarrow> env_ok (vm\<lparr>dstack := s\<rparr>)"
  using env_ok_frame [OF frame_dstack] by (simp add: vm_ok_def)

lemma opcodeMerkle_ok:
  "lib_ok L \<Longrightarrow> vm_ok M vm \<Longrightarrow> handler_ok M vm (opcodeMerkleBranchVerify L op data vm)"
  using vm_ok_bounded(1) [of M vm] vm_ok_520 [of M vm] lib_lengths(6) [of L]
  by (auto simp: opcodeMerkleBranchVerify_def Let_def
      intro!: okE_on_dstack okE_rules bounded_push length_merkle_walk)

lemma opcodeCheckSig_ok:
  assumes "lib_ok L" "vm_ok M vm"
  shows "handler_ok M vm (opcodeCheckSig L op data vm)"
  using vm_ok_bounded(1) [OF assms(2)] assms
  by (auto simp: opcodeCheckSig_def split: option.split
      intro!: okE_rules okE_seq [OF okE_newTapscriptSigVerifier] okE_seq [OF okE_sv_Verify]
        env_ok_dstack keeps_sigCache keeps_dstack_refl bounded_push bounded_PushBool)

lemma sint_small_Suc: "\<bar>sint (n :: int64)\<bar> < 2 ^ 31 \<Longrightarrow> \<bar>sint (n + 1)\<bar> < 2 ^ 32"
  using sint_add_small [of n 1] by simp

lemma opcodeCheckSigAdd_ok:
  assumes "lib_ok L" "vm_ok M vm"
  shows "handler_ok M vm (opcodeCheckSigAdd L op data vm)"
  using vm_ok_bounded(1) [OF assms(2)] assms sint_small_Suc
  by (auto simp: opcodeCheckSigAdd_def split: option.split
      intro!: okE_rules okE_seq [OF okE_newTapscriptSigVerifier] okE_seq [OF okE_sv_Verify]
        env_ok_dstack keeps_sigCache keeps_dstack_refl bounded_push)

lemma opcodeSighash_ok:
  assumes "lib_ok L" "vm_ok M vm"
  shows "handler_ok M vm (opcodeSighash L op data vm)"
  using vm_ok_bounded(1) [OF assms(2)] vm_ok_520 [OF assms(2)] assms
  by (auto simp: opcodeSighash_def Let_def split: option.split
      intro!: okE_rules okE_bind [OF okE_computeArkadeSighash] env_ok_dstack keeps_dstack_refl bounded_push)

interpretation cry: safe_handlers run_crypto
proof (unfold_locales, goal_cases)
  case (1 L M vm data op b f)
  note bd = vm_ok_bounded [OF 1(2)]
  note len = lib_lengths [OF 1(1)] order_trans [OF lib_lengths(8) [OF 1(1)] vm_ok_520 [OF 1(2)]]
  show ?case
    by (cases f)
      (use 1(1,2) bd vm_ok_520 [OF 1(2)] in \<open>auto simp: opcodeRipemd160_def opcodeSha1_def opcodeSha256_def opcodeHash160_def
        opcodeHash256_def opcodeDigest_def opcodeCheckMultiSigVerify_def opcodeCheckMultiSig_def
        opcodeCodeSeparator_def opcodeCheckSigVerify_def opcodeChecksigFromStack_def opcodeSha256Initialize_def
        opcodeSha256Update_def opcodeSha256Finalize_def len keeps_def
        intro!: okE_hash_top opcodeMerkle_ok opcodeCheckSig_ok opcodeCheckSigAdd_ok opcodeSighash_ok
          okE_on_dstack okE_rules okE_bind [OF opcodeCheckSig_ok] abstractVerify_ok bounded_push
          okE_seq [OF okE_decodeSha256State] okE_seq [OF okE_parseSchemePubKey] frame_taprootCtx
        split: option.split\<close>)
qed

end
