(* ===== verification/OpIntro.thy ===== *)
theory OpIntro
imports SigHash
begin

text \<open>Model of the transaction-introspection handlers of pkg/arkade/opcode.go.  The index
check every handler writes out is check_index: the operand of the error message aside, the
same two comparisons in the same order.\<close>

definition MaxSatoshi :: int where "MaxSatoshi = 2100000000000000"

definition check_index :: "scriptNum \<Rightarrow> 'a list \<Rightarrow> 'a res" where
  "check_index i xs =
     (if i <s 0 then script_err ErrInvalidIndex
      else if sint i \<ge> int (length xs) then script_err ErrInvalidIndex
      else at_idx xs (sint i))"

definition opcodeInspectInputOutpoint :: handler where
  "opcodeInspectInputOutpoint L op data vm = on_dstack (\<lambda>s.
     bindE (PopInt s) (\<lambda>(i, s).
     bindE (check_index i (TxIn (tx vm))) (\<lambda>txIn.
     PushInt (ucast (op_index (PreviousOutPoint txIn)))
       (PushByteArray (op_hash (PreviousOutPoint txIn)) s)))) vm"

definition pushSatoshiValue :: "int64 \<Rightarrow> stack \<Rightarrow> stack res" where
  "pushSatoshiValue v s =
     (if v <s 0 \<or> sint v > MaxSatoshi then script_err ErrInvalidStackOperation
      else PushBigNum (BigNumFromUint64 v) s)"

definition pushScriptPubKey :: "lib \<Rightarrow> bytes \<Rightarrow> stack \<Rightarrow> stack res" where
  "pushScriptPubKey L pk s =
     (if IsWitnessProgram L pk then
        bindE (ExtractWitnessProgramInfo L pk) (\<lambda>(v, prog).
        PushInt (word_of_int v) (PushByteArray prog s))
      else PushInt (-1) (PushByteArray (sha256 L pk) s))"

definition opcodeInspectInputValue :: handler where
  "opcodeInspectInputValue L op data vm = on_dstack (\<lambda>s.
     bindE (PopInt s) (\<lambda>(i, s).
     bindE (check_index i (TxIn (tx vm))) (\<lambda>txIn.
     case prevOutFetcher vm of None \<Rightarrow> script_err ErrInvalidIndex
     | Some f \<Rightarrow> (case FetchPrevOutput f (PreviousOutPoint txIn) of None \<Rightarrow> script_err ErrInvalidIndex
       | Some prevOut \<Rightarrow> pushSatoshiValue (out_value prevOut) s)))) vm"

definition opcodeInspectInputScriptPubkey :: handler where
  "opcodeInspectInputScriptPubkey L op data vm = on_dstack (\<lambda>s.
     bindE (PopInt s) (\<lambda>(i, s).
     bindE (check_index i (TxIn (tx vm))) (\<lambda>txIn.
     case prevOutFetcher vm of None \<Rightarrow> script_err ErrInvalidIndex
     | Some f \<Rightarrow> (case FetchVtxoPrevOutPkScript f (PreviousOutPoint txIn) of None \<Rightarrow> script_err ErrInvalidIndex
       | Some pk \<Rightarrow> pushScriptPubKey L pk s)))) vm"

definition opcodeInspectInputSequence :: handler where
  "opcodeInspectInputSequence L op data vm = on_dstack (\<lambda>s.
     bindE (PopInt s) (\<lambda>(i, s).
     bindE (check_index i (TxIn (tx vm))) (\<lambda>txIn.
     PushBigNum (BigNumFromUint64 (ucast (Sequence txIn))) s))) vm"

definition opcodePushCurrentInputIndex :: handler where
  "opcodePushCurrentInputIndex L op data vm = on_dstack (PushInt (word_of_int (txIdx vm))) vm"

definition opcodeInspectOutputValue :: handler where
  "opcodeInspectOutputValue L op data vm = on_dstack (\<lambda>s.
     bindE (PopInt s) (\<lambda>(i, s).
     bindE (check_index i (TxOut (tx vm))) (\<lambda>out. pushSatoshiValue (out_value out) s))) vm"

definition opcodeInspectOutputScriptPubkey :: handler where
  "opcodeInspectOutputScriptPubkey L op data vm = on_dstack (\<lambda>s.
     bindE (PopInt s) (\<lambda>(i, s).
     bindE (check_index i (TxOut (tx vm))) (\<lambda>out. pushScriptPubKey L (PkScript out) s))) vm"

text \<open>The version is an int32; the lock time a uint32.\<close>

definition opcodeInspectVersion :: handler where
  "opcodeInspectVersion L op data vm =
     on_dstack (PushBigNum (BigNumFromInt64 (scast (tx_version (tx vm))))) vm"

definition opcodeInspectLocktime :: handler where
  "opcodeInspectLocktime L op data vm =
     on_dstack (PushBigNum (BigNumFromUint64 (ucast (LockTime (tx vm))))) vm"

definition opcodeInspectNumInputs :: handler where
  "opcodeInspectNumInputs L op data vm =
     on_dstack (PushInt (word_of_int (int (length (TxIn (tx vm)))))) vm"

definition opcodeInspectNumOutputs :: handler where
  "opcodeInspectNumOutputs L op data vm =
     on_dstack (PushInt (word_of_int (int (length (TxOut (tx vm)))))) vm"

definition opcodeTxWeight :: handler where
  "opcodeTxWeight L op data vm =
     on_dstack (PushBigNum (BigNumFromUint64 (word_of_int (SerializeSizeStripped L (tx vm) * 4)))) vm"

definition opcodeTxId :: handler where
  "opcodeTxId L op data vm = on_dstack (\<lambda>s. Inr (PushByteArray (TxHash L (tx vm)) s)) vm"

subsection \<open>Packets\<close>

fun find_type :: "lib \<Rightarrow> byte \<Rightarrow> ext_packet list \<Rightarrow> bytes option res" where
  "find_type L packetType [] = Inr None"
| "find_type L packetType (pkt # ext) =
     (if packet_Type pkt \<noteq> packetType then find_type L packetType ext
      else bindE (packet_Serialize L pkt) (\<lambda>content. Inr (Some content)))"

definition findPacketByType :: "lib \<Rightarrow> msgtx \<Rightarrow> byte \<Rightarrow> bytes option res" where
  "findPacketByType L t packetType =
     bindE (NewExtensionFromTx L t) (\<lambda>r. case r of None \<Rightarrow> Inr None
     | Some ext \<Rightarrow> find_type L packetType ext)"

definition push_packet :: "lib \<Rightarrow> msgtx \<Rightarrow> scriptNum \<Rightarrow> stack \<Rightarrow> stack res" where
  "push_packet L t packetType s =
     bindE (wrap_err ErrInvalidStackOperation (findPacketByType L t (ucast packetType))) (\<lambda>content.
     case content of None \<Rightarrow> PushInt 0 (PushByteArray [] s)
     | Some c \<Rightarrow>
         if length c > MaxScriptElementSize then script_err ErrElementTooBig
         else PushInt 1 (PushByteArray c s))"

definition opcodeInspectPacket :: handler where
  "opcodeInspectPacket L op data vm = on_dstack (\<lambda>s.
     bindE (PopInt s) (\<lambda>(packetType, s).
     if packetType <s 0 \<or> 255 <s packetType then script_err ErrInvalidStackOperation
     else push_packet L (tx vm) packetType s)) vm"

definition opcodeInspectInputPacket :: handler where
  "opcodeInspectInputPacket L op data vm = on_dstack (\<lambda>s.
     bindE (PopInt s) (\<lambda>(i, s).
     bindE (PopInt s) (\<lambda>(packetType, s).
     bindE (check_index i (TxIn (tx vm))) (\<lambda>txIn.
     if packetType <s 0 \<or> 255 <s packetType then script_err ErrInvalidStackOperation
     else (case prevOutFetcher vm of None \<Rightarrow> script_err ErrInvalidIndex
     | Some f \<Rightarrow> (case FetchPrevOutArkTx f (PreviousOutPoint txIn) of
         None \<Rightarrow> script_err ErrInvalidStackOperation
       | Some prevTx \<Rightarrow> push_packet L prevTx packetType s)))))) vm"

definition findEntryByVin :: "emulatorEntry list \<Rightarrow> int \<Rightarrow> emulatorEntry option" where
  "findEntryByVin packet i = find (\<lambda>entry. uint (Vin entry) = i) packet"

definition opcodeInspectInputArkadeScriptHash :: handler where
  "opcodeInspectInputArkadeScriptHash L op data vm = on_dstack (\<lambda>s.
     bindE (PopInt s) (\<lambda>(i, s).
     bindE (check_index i (TxIn (tx vm))) (\<lambda>_.
     case emulatorPacket vm of None \<Rightarrow> script_err ErrInvalidStackOperation
     | Some packet \<Rightarrow> (case findEntryByVin packet (scriptNum_Int32 i) of
         None \<Rightarrow> script_err ErrInvalidStackOperation
       | Some entry \<Rightarrow> Inr (PushByteArray (ArkadeScriptHash L (ent_Script entry)) s))))) vm"

definition opcodeInspectInputArkadeWitnessHash :: handler where
  "opcodeInspectInputArkadeWitnessHash L op data vm = on_dstack (\<lambda>s.
     bindE (PopInt s) (\<lambda>(i, s).
     bindE (check_index i (TxIn (tx vm))) (\<lambda>_.
     case emulatorPacket vm of None \<Rightarrow> script_err ErrInvalidStackOperation
     | Some packet \<Rightarrow> (case findEntryByVin packet (scriptNum_Int32 i) of
         None \<Rightarrow> script_err ErrInvalidStackOperation
       | Some entry \<Rightarrow>
           if length (ent_Witness entry) = 0 then Inr (PushByteArray (replicate 32 0) s)
           else Inr (PushByteArray (TaggedHash L TagArkWitnessHash (WriteTxWitness L (ent_Witness entry))) s))))) vm"

primrec run_intro :: "intro_fn \<Rightarrow> handler" where
  "run_intro F_InspectInputOutpoint = opcodeInspectInputOutpoint"
| "run_intro F_InspectInputArkadeScriptHash = opcodeInspectInputArkadeScriptHash"
| "run_intro F_InspectInputValue = opcodeInspectInputValue"
| "run_intro F_InspectInputScriptPubkey = opcodeInspectInputScriptPubkey"
| "run_intro F_InspectInputSequence = opcodeInspectInputSequence"
| "run_intro F_PushCurrentInputIndex = opcodePushCurrentInputIndex"
| "run_intro F_InspectInputArkadeWitnessHash = opcodeInspectInputArkadeWitnessHash"
| "run_intro F_InspectOutputValue = opcodeInspectOutputValue"
| "run_intro F_InspectOutputScriptPubkey = opcodeInspectOutputScriptPubkey"
| "run_intro F_InspectVersion = opcodeInspectVersion"
| "run_intro F_InspectLocktime = opcodeInspectLocktime"
| "run_intro F_InspectNumInputs = opcodeInspectNumInputs"
| "run_intro F_InspectNumOutputs = opcodeInspectNumOutputs"
| "run_intro F_TxWeight = opcodeTxWeight"
| "run_intro F_TxId = opcodeTxId"
| "run_intro F_InspectPacket = opcodeInspectPacket"
| "run_intro F_InspectInputPacket = opcodeInspectInputPacket"

subsection \<open>The handlers keep the invariant\<close>

lemma okE_check_index:
  "(\<And>x. x \<in> set xs \<Longrightarrow> okE P (f x)) \<Longrightarrow> okE P (bindE (check_index i xs) f)"
  by (auto simp: check_index_def word_sless_alt at_idx_ok)

lemma okE_pushSatoshiValue: "bounded M s \<Longrightarrow> okE (bounded M) (pushSatoshiValue v s)"
  by (simp add: pushSatoshiValue_def okE_PushBigNum)

lemma sint_small: "\<bar>v\<bar> < 2 ^ 31 \<Longrightarrow> sint (word_of_int v :: int64) = v"
  by (rule sint_word_of_int_id) simp_all

lemma okE_pushScriptPubKey:
  assumes "lib_ok L" "bounded M s"
  shows "okE (bounded M) (pushScriptPubKey L pk s)"
proof -
  have p: "okE (\<lambda>(v, p). 0 \<le> v \<and> v \<le> 16 \<and> length p \<le> 40) (ExtractWitnessProgramInfo L pk)"
    using assms(1) by (simp only: lib_ok_def)
  have "520 \<le> M" using assms(2) by (simp add: bounded_def)
  then show ?thesis
    using assms lib_lengths(1) [OF assms(1)] unfolding pushScriptPubKey_def
    by (auto intro!: okE_bind [OF p] okE_PushInt_small bounded_push simp: sint_small)
qed

lemma okE_findPacketByType: "lib_ok L \<Longrightarrow> okE (\<lambda>_. True) (findPacketByType L t p)"
proof -
  assume L: "lib_ok L"
  have "okE (\<lambda>_. True) (find_type L p e)" for e
    by (induction e) (auto intro!: okE_seq [OF okE_lib(6) [OF L]])
  then show ?thesis
    by (auto simp: findPacketByType_def intro!: okE_seq [OF okE_lib(4) [OF L]] split: option.split)
qed

lemma okE_push_packet: "lib_ok L \<Longrightarrow> bounded M s \<Longrightarrow> okE (bounded M) (push_packet L t p s)"
proof -
  assume L: "lib_ok L" and b: "bounded M s"
  then have "520 \<le> M" by (simp add: bounded_def)
  with b show ?thesis
    by (auto simp: push_packet_def MaxScriptElementSize_def split: option.split
        intro!: okE_wrap_err [OF okE_findPacketByType [OF L]] okE_rules bounded_push okE_PushInt_small)
qed

lemmas intro_defs =
  opcodeInspectInputOutpoint_def opcodeInspectInputArkadeScriptHash_def opcodeInspectInputValue_def
  opcodeInspectInputScriptPubkey_def opcodeInspectInputSequence_def opcodePushCurrentInputIndex_def
  opcodeInspectInputArkadeWitnessHash_def opcodeInspectOutputValue_def opcodeInspectOutputScriptPubkey_def
  opcodeInspectVersion_def opcodeInspectLocktime_def opcodeInspectNumInputs_def opcodeInspectNumOutputs_def
  opcodeTxWeight_def opcodeTxId_def opcodeInspectPacket_def opcodeInspectInputPacket_def

lemma env_ok_indices:
  assumes "vm_ok M vm"
  shows "\<bar>sint (word_of_int (txIdx vm) :: int64)\<bar> < 2 ^ 32"
    "\<bar>sint (word_of_nat (length (TxIn (tx vm))) :: int64)\<bar> < 2 ^ 32"
    "\<bar>sint (word_of_nat (length (TxOut (tx vm))) :: int64)\<bar> < 2 ^ 32"
    "t \<in> set (TxIn (tx vm)) \<Longrightarrow> length (op_hash (PreviousOutPoint t)) = 32"
  using assms sint_small [of "txIdx vm"] sint_word_of_nat [of "length (TxIn (tx vm))"]
    sint_word_of_nat [of "length (TxOut (tx vm))"]
  by (simp_all add: vm_ok_def env_ok_def)

interpretation intr: safe_handlers run_intro
proof (unfold_locales, goal_cases)
  case (1 L M vm data op b f)
  note bd = vm_ok_bounded [OF 1(2)] vm_ok_520 [OF 1(2)]
  note len = lib_lengths [OF 1(1)] env_ok_indices(4) [OF 1(2)]
  show ?case
    by (cases f)
      (use 1(1,2) bd in \<open>auto simp: intro_defs len ArkadeScriptHash_def split: option.split
        intro!: okE_on_dstack okE_rules okE_check_index okE_pushSatoshiValue okE_pushScriptPubKey
          okE_push_packet okE_PushBigNum okE_PushInt_small bounded_push sint_ucast_bound
          env_ok_indices(1,2,3) [OF 1(2)]\<close>)
qed

end
