(* ===== verification/OpAsset.thy ===== *)
theory OpAsset
imports SigHash
begin

text \<open>Model of pkg/arkade/asset_opcodes.go: the handlers that inspect the asset packet.  Every
handler first checks that there is a packet (with_packet), and those that take a group index
check it as group_at does.\<close>

definition with_packet :: "(assetGroup list \<Rightarrow> stack \<Rightarrow> stack res) \<Rightarrow> vm \<Rightarrow> vm res" where
  "with_packet f vm =
     (case assetPacket vm of None \<Rightarrow> script_err ErrInvalidStackOperation
      | Some gs \<Rightarrow> on_dstack (f gs) vm)"

definition group_at :: "assetGroup list \<Rightarrow> scriptNum \<Rightarrow> assetGroup res" where
  "group_at gs k =
     (if sint k \<ge> int (length gs) \<or> k <s 0 then script_err ErrInvalidStackOperation
      else at_idx gs (sint k))"

definition pushBigIntAsBigNum :: "int \<Rightarrow> stack \<Rightarrow> stack res" where
  "pushBigIntAsBigNum n s = PushBigNum (Big n) s"

text \<open>The sums, over unbounded integers.\<close>

definition safeSumInputs :: "assetInput list \<Rightarrow> int" where
  "safeSumInputs xs = foldl (\<lambda>sum x. sum + uint (in_Amount x)) 0 xs"

definition safeSumOutputs :: "assetOutput list \<Rightarrow> int" where
  "safeSumOutputs xs = foldl (\<lambda>sum x. sum + uint (out_Amount x)) 0 xs"

definition maxAssetGroupIndex :: int where "maxAssetGroupIndex = 65535"

definition resolveAssetID :: "bytes \<Rightarrow> nat \<Rightarrow> assetGroup \<Rightarrow> assetId res" where
  "resolveAssetID txHash k grp =
     (case AssetId grp of
        Some a \<Rightarrow> if Txid a = txHash then script_err ErrInvalidStackOperation else Inr a
      | None \<Rightarrow>
          if int k > maxAssetGroupIndex then script_err ErrInvalidStackOperation
          else Inr \<lparr>Txid = txHash, aid_Index = word_of_nat k\<rparr>)"

definition popAssetID :: "stack \<Rightarrow> ((bytes \<times> 16 word) \<times> stack) res" where
  "popAssetID s =
     bindE (PopInt s) (\<lambda>(gidx, s).
     bindE (PopByteArray s) (\<lambda>(txidBytes, s).
     if length txidBytes \<noteq> 32 then script_err ErrInvalidStackOperation
     else if gidx <s 0 \<or> sint gidx > maxAssetGroupIndex then script_err ErrInvalidStackOperation
     else Inr ((txidBytes, ucast gidx), s)))"

definition assetIndexEqual :: "16 word \<Rightarrow> scriptNum \<Rightarrow> bool" where
  "assetIndexEqual i want \<longleftrightarrow> ucast i = want"

definition assetIDEqual :: "assetId \<Rightarrow> bytes \<Rightarrow> 16 word \<Rightarrow> bool" where
  "assetIDEqual a txid gidx \<longleftrightarrow> aid_Index a = gidx \<and> Txid a = txid"

text \<open>Pushing an asset id: its transaction id, then its group index.\<close>

definition push_assetId :: "assetId \<Rightarrow> stack \<Rightarrow> stack res" where
  "push_assetId a s = PushInt (ucast (aid_Index a)) (PushByteArray (Txid a) s)"

definition opcodeInspectNumAssetGroups :: handler where
  "opcodeInspectNumAssetGroups L op data vm =
     with_packet (\<lambda>gs s. PushInt (word_of_int (int (length gs))) s) vm"

definition opcodeInspectAssetGroupAssetId :: handler where
  "opcodeInspectAssetGroupAssetId L op data vm = with_packet (\<lambda>gs s.
     bindE (PopInt s) (\<lambda>(k, s).
     bindE (group_at gs k) (\<lambda>grp.
     bindE (resolveAssetID (TxHash L (tx vm)) (nat (sint k)) grp) (\<lambda>a. push_assetId a s)))) vm"

definition opcodeInspectAssetGroupCtrl :: handler where
  "opcodeInspectAssetGroupCtrl L op data vm = with_packet (\<lambda>gs s.
     bindE (PopInt s) (\<lambda>(k, s).
     bindE (group_at gs k) (\<lambda>grp.
     case ControlAsset grp of
       None \<Rightarrow> bindE (PushInt 0 (PushByteArray [] s)) (PushInt 0)
     | Some (AssetRefByID a) \<Rightarrow> bindE (push_assetId a s) (PushInt 1)
     | Some (AssetRefByGroup g) \<Rightarrow>
         if unat g \<ge> length gs then script_err ErrInvalidStackOperation
         else bindE (resolveAssetID (TxHash L (tx vm)) (unat g) (gs ! unat g)) (\<lambda>a.
           bindE (push_assetId a s) (PushInt 1))
     | Some AssetRefOther \<Rightarrow> script_err ErrInvalidStackOperation))) vm"

primrec find_group :: "bytes \<Rightarrow> bytes \<Rightarrow> 16 word \<Rightarrow> nat \<Rightarrow> assetGroup list \<Rightarrow> nat option res" where
  "find_group txHash txid gidx k [] = Inr None"
| "find_group txHash txid gidx k (grp # gs) =
     bindE (resolveAssetID txHash k grp) (\<lambda>a.
     if assetIDEqual a txid gidx then Inr (Some k) else find_group txHash txid gidx (Suc k) gs)"

definition opcodeFindAssetGroupByAssetId :: handler where
  "opcodeFindAssetGroupByAssetId L op data vm = with_packet (\<lambda>gs s.
     bindE (popAssetID s) (\<lambda>((searchTxid, searchGidx), s).
     bindE (find_group (TxHash L (tx vm)) searchTxid searchGidx 0 gs) (\<lambda>r.
     case r of Some k \<Rightarrow> bindE (PushInt (word_of_nat k) s) (PushInt 1)
     | None \<Rightarrow> bindE (PushInt 0 s) (PushInt 0)))) vm"

text \<open>The metadata root: the serialised items are hashed, and each level pairs neighbours,
carrying an odd last hash up.\<close>

fun next_level :: "lib \<Rightarrow> bytes list \<Rightarrow> bytes list" where
  "next_level L (a # b # hs) = sha256 L (a @ b) # next_level L hs"
| "next_level L [a] = [a]"
| "next_level L [] = []"

lemma length_next_level: "length (next_level L hs) = (length hs + 1) div 2"
  by (induction L hs rule: next_level.induct) simp_all

function merkle_levels :: "lib \<Rightarrow> bytes list \<Rightarrow> bytes list" where
  "merkle_levels L hs = (if length hs > 1 then merkle_levels L (next_level L hs) else hs)"
  by auto
termination by (relation "measure (\<lambda>(_, hs). length hs)") (auto simp: length_next_level)

declare merkle_levels.simps [simp del]

primrec hash_metadata :: "lib \<Rightarrow> metadata list \<Rightarrow> bytes list res" where
  "hash_metadata L [] = Inr []"
| "hash_metadata L (md # ms) =
     bindE (metadata_Serialize L md) (\<lambda>serialized.
     bindE (hash_metadata L ms) (\<lambda>hs. Inr (sha256 L serialized # hs)))"

definition computeMetadataMerkleRoot :: "lib \<Rightarrow> metadata list \<Rightarrow> bytes res" where
  "computeMetadataMerkleRoot L ms =
     (if length ms = 0 then Inr (replicate 32 0)
      else bindE (hash_metadata L ms) (\<lambda>hashes. at_idx (merkle_levels L hashes) 0))"

definition opcodeInspectAssetGroupMetadataHash :: handler where
  "opcodeInspectAssetGroupMetadataHash L op data vm = with_packet (\<lambda>gs s.
     bindE (PopInt s) (\<lambda>(k, s).
     bindE (group_at gs k) (\<lambda>grp.
     bindE (wrap_err ErrInvalidStackOperation (computeMetadataMerkleRoot L (Metadata grp))) (\<lambda>h.
     Inr (PushByteArray h s))))) vm"

text \<open>int(len) as a script number.\<close>

definition len_num :: "'a list \<Rightarrow> scriptNum" where
  "len_num xs = word_of_int (int (length xs))"

definition opcodeInspectAssetGroupNum :: handler where
  "opcodeInspectAssetGroupNum L op data vm = with_packet (\<lambda>gs s.
     bindE (PopInt s) (\<lambda>(source, s).
     bindE (PopInt s) (\<lambda>(k, s).
     bindE (group_at gs k) (\<lambda>grp.
     if source = 0 then PushInt (len_num (Inputs grp)) s
     else if source = 1 then PushInt (len_num (Outputs grp)) s
     else if source = 2 then
       bindE (PushInt (len_num (Inputs grp)) s) (PushInt (len_num (Outputs grp)))
     else script_err ErrInvalidStackOperation)))) vm"

definition opcodeInspectAssetGroup :: handler where
  "opcodeInspectAssetGroup L op data vm = with_packet (\<lambda>gs s.
     bindE (PopInt s) (\<lambda>(source, s).
     bindE (PopInt s) (\<lambda>(j, s).
     bindE (PopInt s) (\<lambda>(k, s).
     bindE (group_at gs k) (\<lambda>grp.
     if source = 0 then
       if sint j \<ge> int (length (Inputs grp)) \<or> j <s 0 then script_err ErrInvalidStackOperation
       else bindE (at_idx (Inputs grp) (sint j)) (\<lambda>inp.
         bindE (PushInt (ucast (in_Type inp)) s) (\<lambda>s.
         let s = (if in_Type inp = AssetInputTypeIntent L then PushByteArray (in_Txid inp) s else s) in
         bindE (PushInt (ucast (in_Vin inp)) s) (PushBigNum (BigNumFromUint64 (in_Amount inp)))))
     else if source = 1 then
       if sint j \<ge> int (length (Outputs grp)) \<or> j <s 0 then script_err ErrInvalidStackOperation
       else bindE (at_idx (Outputs grp) (sint j)) (\<lambda>out.
         bindE (PushInt 1 s) (\<lambda>s.
         bindE (PushInt (ucast (out_Vout out)) s) (PushBigNum (BigNumFromUint64 (out_Amount out)))))
     else script_err ErrInvalidStackOperation))))) vm"

definition opcodeInspectAssetGroupSum :: handler where
  "opcodeInspectAssetGroupSum L op data vm = with_packet (\<lambda>gs s.
     bindE (PopInt s) (\<lambda>(source, s).
     bindE (PopInt s) (\<lambda>(k, s).
     bindE (group_at gs k) (\<lambda>grp.
     if source = 0 then pushBigIntAsBigNum (safeSumInputs (Inputs grp)) s
     else if source = 1 then pushBigIntAsBigNum (safeSumOutputs (Outputs grp)) s
     else if source = 2 then
       bindE (pushBigIntAsBigNum (safeSumInputs (Inputs grp)) s)
         (pushBigIntAsBigNum (safeSumOutputs (Outputs grp)))
     else script_err ErrInvalidStackOperation)))) vm"


text \<open>The four loops over the items of all groups, on the list of the (group, item) pairs they
visit: the count, the t-th match, and the first match in the groups of one asset.\<close>

definition count_matches :: "('b \<Rightarrow> 16 word) \<Rightarrow> (assetGroup \<Rightarrow> 'b list) \<Rightarrow> scriptNum \<Rightarrow> assetGroup list \<Rightarrow> nat" where
  "count_matches ix its want gs =
     foldl (\<lambda>count grp. foldl (\<lambda>count it. if assetIndexEqual (ix it) want then Suc count else count)
       count (its grp)) 0 gs"

text \<open>The inner loop of At: the t-th match from idx on (Inl), or the next idx (Inr).\<close>

primrec at_items :: "('b \<Rightarrow> 16 word) \<Rightarrow> scriptNum \<Rightarrow> scriptNum \<Rightarrow> nat \<Rightarrow> 'b list \<Rightarrow> 'b + nat" where
  "at_items ix want t idx [] = Inr idx"
| "at_items ix want t idx (it # rest) =
     (if assetIndexEqual (ix it) want then
        (if word_of_nat idx = t then Inl it else at_items ix want t (Suc idx) rest)
      else at_items ix want t idx rest)"

primrec at_groups ::
  "('b \<Rightarrow> 16 word) \<Rightarrow> (assetGroup \<Rightarrow> 'b list) \<Rightarrow> bytes \<Rightarrow> scriptNum \<Rightarrow> scriptNum \<Rightarrow> nat \<Rightarrow> nat \<Rightarrow> assetGroup list \<Rightarrow> (assetId \<times> 'b) res" where
  "at_groups ix its txHash want t k idx [] = script_err ErrInvalidStackOperation"
| "at_groups ix its txHash want t k idx (grp # gs) =
     bindE (resolveAssetID txHash k grp) (\<lambda>a.
     case at_items ix want t idx (its grp) of Inl it \<Rightarrow> Inr (a, it)
     | Inr idx \<Rightarrow> at_groups ix its txHash want t (Suc k) idx gs)"

primrec lookup_groups ::
  "('b \<Rightarrow> 16 word) \<Rightarrow> (assetGroup \<Rightarrow> 'b list) \<Rightarrow> bytes \<Rightarrow> bytes \<Rightarrow> 16 word \<Rightarrow> scriptNum \<Rightarrow> nat \<Rightarrow> assetGroup list \<Rightarrow> 'b option res" where
  "lookup_groups ix its txHash txid gidx want k [] = Inr None"
| "lookup_groups ix its txHash txid gidx want k (grp # gs) =
     bindE (resolveAssetID txHash k grp) (\<lambda>a.
     if \<not> assetIDEqual a txid gidx then lookup_groups ix its txHash txid gidx want (Suc k) gs
     else (case find (\<lambda>it. assetIndexEqual (ix it) want) (its grp) of
         Some it \<Rightarrow> Inr (Some it)
       | None \<Rightarrow> lookup_groups ix its txHash txid gidx want (Suc k) gs))"

definition assetCount :: "('b \<Rightarrow> 16 word) \<Rightarrow> (assetGroup \<Rightarrow> 'b list) \<Rightarrow> vm \<Rightarrow> vm res" where
  "assetCount ix its vm = with_packet (\<lambda>gs s.
     bindE (PopInt s) (\<lambda>(want, s). PushInt (word_of_nat (count_matches ix its want gs)) s)) vm"

definition assetAt :: "('b \<Rightarrow> 16 word) \<Rightarrow> (assetGroup \<Rightarrow> 'b list) \<Rightarrow> ('b \<Rightarrow> uint64) \<Rightarrow> bytes \<Rightarrow> vm \<Rightarrow> vm res" where
  "assetAt ix its amount txHash vm = with_packet (\<lambda>gs s.
     bindE (PopInt s) (\<lambda>(t, s).
     bindE (PopInt s) (\<lambda>(want, s).
     if t <s 0 then script_err ErrInvalidStackOperation
     else bindE (at_groups ix its txHash want t 0 0 gs) (\<lambda>(a, it).
       bindE (push_assetId a s) (PushBigNum (BigNumFromUint64 (amount it))))))) vm"

definition assetLookup :: "('b \<Rightarrow> 16 word) \<Rightarrow> (assetGroup \<Rightarrow> 'b list) \<Rightarrow> ('b \<Rightarrow> uint64) \<Rightarrow> bytes \<Rightarrow> vm \<Rightarrow> vm res" where
  "assetLookup ix its amount txHash vm = with_packet (\<lambda>gs s.
     bindE (popAssetID s) (\<lambda>((searchTxid, searchGidx), s).
     bindE (PopInt s) (\<lambda>(want, s).
     bindE (lookup_groups ix its txHash searchTxid searchGidx want 0 gs) (\<lambda>r.
     case r of Some it \<Rightarrow> bindE (PushBigNum (BigNumFromUint64 (amount it)) s) (PushInt 1)
     | None \<Rightarrow> bindE (PushBigNum (BigNumFromUint64 0) s) (PushInt 0))))) vm"

definition opcodeInspectOutAssetCount :: handler where
  "opcodeInspectOutAssetCount L op data vm = assetCount out_Vout Outputs vm"

definition opcodeInspectOutAssetAt :: handler where
  "opcodeInspectOutAssetAt L op data vm = assetAt out_Vout Outputs out_Amount (TxHash L (tx vm)) vm"

definition opcodeInspectOutAssetLookup :: handler where
  "opcodeInspectOutAssetLookup L op data vm = assetLookup out_Vout Outputs out_Amount (TxHash L (tx vm)) vm"

definition opcodeInspectInAssetCount :: handler where
  "opcodeInspectInAssetCount L op data vm = assetCount in_Vin Inputs vm"

definition opcodeInspectInAssetAt :: handler where
  "opcodeInspectInAssetAt L op data vm = assetAt in_Vin Inputs in_Amount (TxHash L (tx vm)) vm"

definition opcodeInspectInAssetLookup :: handler where
  "opcodeInspectInAssetLookup L op data vm = assetLookup in_Vin Inputs in_Amount (TxHash L (tx vm)) vm"

primrec run_asset :: "asset_fn \<Rightarrow> handler" where
  "run_asset F_InspectNumAssetGroups = opcodeInspectNumAssetGroups"
| "run_asset F_InspectAssetGroupAssetId = opcodeInspectAssetGroupAssetId"
| "run_asset F_InspectAssetGroupCtrl = opcodeInspectAssetGroupCtrl"
| "run_asset F_FindAssetGroupByAssetId = opcodeFindAssetGroupByAssetId"
| "run_asset F_InspectAssetGroupMetadataHash = opcodeInspectAssetGroupMetadataHash"
| "run_asset F_InspectAssetGroupNum = opcodeInspectAssetGroupNum"
| "run_asset F_InspectAssetGroup = opcodeInspectAssetGroup"
| "run_asset F_InspectAssetGroupSum = opcodeInspectAssetGroupSum"
| "run_asset F_InspectOutAssetCount = opcodeInspectOutAssetCount"
| "run_asset F_InspectOutAssetAt = opcodeInspectOutAssetAt"
| "run_asset F_InspectOutAssetLookup = opcodeInspectOutAssetLookup"
| "run_asset F_InspectInAssetCount = opcodeInspectInAssetCount"
| "run_asset F_InspectInAssetAt = opcodeInspectInAssetAt"
| "run_asset F_InspectInAssetLookup = opcodeInspectInAssetLookup"

subsection \<open>The handlers keep the invariant\<close>

lemma okE_with_packet:
  assumes "vm_ok M vm" "\<And>gs. packet_ok gs \<Longrightarrow> okE (bounded M) (f gs (dstack vm))"
  shows "handler_ok M vm (with_packet f vm)"
  using assms
  by (auto simp: with_packet_def vm_ok_def env_ok_def packet_ok_def split: option.split
      intro!: okE_on_dstack)

lemma okE_group_at:
  "packet_ok gs \<Longrightarrow> (\<And>g. group_ok g \<Longrightarrow> okE P (f g)) \<Longrightarrow> okE P (bindE (group_at gs k) f)"
  by (auto simp: group_at_def packet_ok_def word_sless_alt at_idx_ok)

lemma okE_resolve:
  assumes "group_ok g" "length h = 32" "\<And>a. length (Txid a) = 32 \<Longrightarrow> okE P (f a)"
  shows "okE P (bindE (resolveAssetID h k g) f)"
  using assms by (auto simp: resolveAssetID_def group_ok_def split: option.split)

lemma okE_popAssetID:
  assumes "bounded M s" "\<And>t g s'. bounded M s' \<Longrightarrow> okE P (f ((t, g), s'))"
  shows "okE P (bindE (popAssetID s) f)"
  unfolding popAssetID_def using assms
  by (auto simp: bindE_assoc intro!: okE_rules)

lemma okE_push_assetId:
  assumes "bounded M s" "length (Txid a) = 32" "\<And>s'. bounded M s' \<Longrightarrow> okE P (f s')"
  shows "okE P (bindE (push_assetId a s) f)"
proof -
  have "520 \<le> M" using assms(1) by (simp add: bounded_def)
  then show ?thesis
    unfolding push_assetId_def using assms
    by (auto intro!: okE_rules bounded_push sint_ucast_bound)
qed

lemma okE_push_assetId': 
  assumes "bounded M s" "length (Txid a) = 32"
  shows "okE (bounded M) (push_assetId a s)"
  using okE_push_assetId [OF assms, of "bounded M" Inr] by (cases "push_assetId a s") simp_all

lemma packet_ok_Cons: "packet_ok (g # gs) \<Longrightarrow> group_ok g \<and> packet_ok gs"
  by (simp add: packet_ok_def)

lemma okE_find_group:
  "packet_ok gs \<Longrightarrow> length h = 32 \<Longrightarrow> okE (\<lambda>r. \<forall>k'. r = Some k' \<longrightarrow> k' < k + length gs) (find_group h t g k gs)"
proof (induction gs arbitrary: k)
  case (Cons a gs)
  have "okE (\<lambda>r. \<forall>k'. r = Some k' \<longrightarrow> k' < Suc k + length gs) (find_group h t g (Suc k) gs)"
    using Cons.IH [of "Suc k"] Cons.prems packet_ok_Cons by blast
  with packet_ok_Cons [OF Cons.prems(1)] Cons.prems(2) show ?case
    unfolding find_group.simps by (auto intro!: okE_resolve)
qed simp

lemma length_sha_levels:
  assumes "\<forall>h \<in> set hs. length h = 32" "lib_ok L" "hs \<noteq> []"
  shows "merkle_levels L hs \<noteq> [] \<and> (\<forall>h \<in> set (merkle_levels L hs). length h = 32)"
  using assms
proof (induction L hs rule: merkle_levels.induct)
  case (1 L hs)
  have n: "\<forall>h \<in> set (next_level L xs). length h = 32" if "\<forall>h \<in> set xs. length h = 32" for xs
    using that lib_lengths(1) [OF 1(3)] by (induction L xs rule: next_level.induct) auto
  show ?case
  proof (cases "length hs > 1")
    case True
    then have "next_level L hs \<noteq> []" using length_next_level [of L hs] by auto
    with 1(1) [OF True n [OF 1(2)] 1(3)] True show ?thesis by (subst (1 2) merkle_levels.simps) simp
  next
    case False
    with 1(2,4) show ?thesis by (subst (1 2) merkle_levels.simps) simp
  qed
qed

lemma okE_hash_metadata:
  "lib_ok L \<Longrightarrow> okE (\<lambda>hs. length hs = length ms \<and> (\<forall>h \<in> set hs. length h = 32)) (hash_metadata L ms)"
proof (induction ms)
  case (Cons m ms)
  show ?case
    using lib_lengths(1) [OF Cons.prems]
    by (auto intro!: okE_seq [OF okE_lib(8) [OF Cons.prems]] okE_bind [OF Cons.IH [OF Cons.prems]])
qed simp

lemma okE_metadata_root: "lib_ok L \<Longrightarrow> okE (\<lambda>h. length h = 32) (computeMetadataMerkleRoot L ms)"
proof (cases "ms = []")
  case False
  assume L: "lib_ok L"
  have "okE (\<lambda>h. length h = 32) (at_idx (merkle_levels L hs) 0)"
    if "length hs = length ms \<and> (\<forall>h \<in> set hs. length h = 32)" for hs
  proof -
    have "hs \<noteq> []" using that False by auto
    from length_sha_levels [OF conjunct2 [OF that] L this] show ?thesis by (simp add: at_idx_def)
  qed
  with False show ?thesis
    unfolding computeMetadataMerkleRoot_def by (simp add: okE_bind [OF okE_hash_metadata [OF L]])
qed (simp add: computeMetadataMerkleRoot_def)

text \<open>The loops of the item lookups.\<close>

lemma foldl_count_le:
  "foldl (\<lambda>count it. if P it then Suc count else count) n xs \<le> n + length xs"
proof (induction xs arbitrary: n)
  case (Cons x xs)
  from Cons.IH [of "if P x then Suc n else n"] show ?case by (auto split: if_splits)
qed simp

lemma count_matches_le: "count_matches ix its want gs \<le> sum_list (map (length \<circ> its) gs)"
proof -
  have "foldl (\<lambda>count grp. foldl (\<lambda>count it. if assetIndexEqual (ix it) want then Suc count else count)
      count (its grp)) n gs \<le> n + sum_list (map (length \<circ> its) gs)" for n
  proof (induction gs arbitrary: n)
    case (Cons g gs)
    from Cons.IH foldl_count_le [of "\<lambda>it. assetIndexEqual (ix it) want" n "its g"] show ?case
      by (simp add: le_trans [OF Cons.IH])
  qed simp
  from this [of 0] show ?thesis by (simp add: count_matches_def)
qed

lemma okE_at_groups:
  "packet_ok gs \<Longrightarrow> length h = 32 \<Longrightarrow> okE (\<lambda>(a, it). length (Txid a) = 32) (at_groups ix its h want t k idx gs)"
proof (induction gs arbitrary: k idx)
  case (Cons a gs)
  have "okE (\<lambda>(a, it). length (Txid a) = 32) (at_groups ix its h want t (Suc k) i gs)" for i
    using Cons.IH Cons.prems packet_ok_Cons by blast
  with packet_ok_Cons [OF Cons.prems(1)] Cons.prems(2) show ?case
    unfolding at_groups.simps by (auto intro!: okE_resolve split: sum.split)
qed simp

lemma okE_lookup_groups:
  "packet_ok gs \<Longrightarrow> length h = 32 \<Longrightarrow> okE (\<lambda>_. True) (lookup_groups ix its h txid gidx want k gs)"
proof (induction gs arbitrary: k)
  case (Cons a gs)
  have "okE (\<lambda>_. True) (lookup_groups ix its h txid gidx want (Suc k) gs)"
    using Cons.IH Cons.prems packet_ok_Cons by blast
  with packet_ok_Cons [OF Cons.prems(1)] Cons.prems(2) show ?case
    unfolding lookup_groups.simps by (auto intro!: okE_resolve okE_rules)
qed simp

lemma word_nat_small: "n < 2 ^ 31 \<Longrightarrow> \<bar>sint (word_of_nat n :: int64)\<bar> < 2 ^ 32"
  using sint_word_of_nat [of n] by simp

lemma len_num_small: "length xs < 2 ^ 31 \<Longrightarrow> \<bar>sint (len_num xs)\<bar> < 2 ^ 32"
  using word_nat_small [of "length xs"] by (simp add: len_num_def)

lemma okE_assetCount:
  assumes "vm_ok M vm" "\<And>gs. packet_ok gs \<Longrightarrow> sum_list (map (length \<circ> its) gs) < 2 ^ 31"
  shows "handler_ok M vm (assetCount ix its vm)"
proof -
  have c: "\<bar>sint (word_of_nat (count_matches ix its want gs) :: int64)\<bar> < 2 ^ 32" if "packet_ok gs" for gs want
    using count_matches_le [of ix its want gs] assms(2) [OF that] by (intro word_nat_small) linarith
  show ?thesis
    unfolding assetCount_def using vm_ok_bounded(1) [OF assms(1)]
    by (intro okE_with_packet assms(1)) (auto intro!: okE_rules c)
qed

lemma okE_assetAt:
  assumes "vm_ok M vm" "length h = 32"
  shows "handler_ok M vm (assetAt ix its amount h vm)"
  unfolding assetAt_def using vm_ok_bounded(1) [OF assms(1)]
  by (intro okE_with_packet assms(1))
    (auto intro!: okE_rules okE_bind [OF okE_at_groups [OF _ assms(2)]] okE_push_assetId okE_PushBigNum)

lemma okE_assetLookup:
  assumes "vm_ok M vm" "length h = 32"
  shows "handler_ok M vm (assetLookup ix its amount h vm)"
  unfolding assetLookup_def using vm_ok_bounded(1) [OF assms(1)]
  by (intro okE_with_packet assms(1))
    (auto intro!: okE_popAssetID okE_rules okE_seq [OF okE_lookup_groups [OF _ assms(2)]])

lemma group_ok_lengths:
  "group_ok g \<Longrightarrow> length (Inputs g) < 2 ^ 31" "group_ok g \<Longrightarrow> length (Outputs g) < 2 ^ 31"
  "group_ok g \<Longrightarrow> i \<in> set (Inputs g) \<Longrightarrow> length (in_Txid i) = 32"
  "group_ok g \<Longrightarrow> ControlAsset g = Some (AssetRefByID a) \<Longrightarrow> length (Txid a) = 32"
  by (auto simp: group_ok_def)

lemma okE_assetRef:
  assumes "\<And>a. r = AssetRefByID a \<Longrightarrow> okE P (f a)" "\<And>g. r = AssetRefByGroup g \<Longrightarrow> okE P (h g)"
    "r = AssetRefOther \<Longrightarrow> okE P z"
  shows "okE P (case r of AssetRefByID a \<Rightarrow> f a | AssetRefByGroup g \<Rightarrow> h g | AssetRefOther \<Rightarrow> z)"
  using assms by (cases r) simp_all

lemma opcodeInspectAssetGroupCtrl_ok:
  assumes "lib_ok L" "vm_ok M vm"
  shows "handler_ok M vm (opcodeInspectAssetGroupCtrl L op data vm)"
proof -
  have g: "group_ok (gs ! unat k)" if "packet_ok gs" "unat k < length gs" for gs and k :: "16 word"
    using that by (simp add: packet_ok_def)
  show ?thesis
    unfolding opcodeInspectAssetGroupCtrl_def
    using vm_ok_bounded(1) [OF assms(2)] vm_ok_520 [OF assms(2)] lib_lengths(9) [OF assms(1)]
    by (intro okE_with_packet assms(2))
      (auto simp: not_le intro!: okE_rules okE_group_at okE_assetRef okE_push_assetId okE_resolve g bounded_push
        intro: group_ok_lengths)
qed

lemma opcodeInspectAssetGroup_ok:
  assumes "vm_ok M vm"
  shows "handler_ok M vm (opcodeInspectAssetGroup L op data vm)"
proof -
  have t: "length (in_Txid i) \<le> M" if "group_ok g" "i \<in> set (Inputs g)" for g i
    using group_ok_lengths(3) [OF that] vm_ok_520 [OF assms] by simp
  show ?thesis
    unfolding opcodeInspectAssetGroup_def Let_def
    using vm_ok_bounded(1) [OF assms]
    by (intro okE_with_packet assms)
      (auto simp: not_le word_sless_alt intro!: okE_rules okE_group_at okE_at_idx bounded_push sint_ucast_bound intro: t)
qed

lemma packet_ok_sums:
  "packet_ok gs \<Longrightarrow> sum_list (map (length \<circ> Inputs) gs) < 2 ^ 31"
  "packet_ok gs \<Longrightarrow> sum_list (map (length \<circ> Outputs) gs) < 2 ^ 31"
  "packet_ok gs \<Longrightarrow> length gs < 2 ^ 31"
  by (simp_all add: packet_ok_def)

lemma opcodeFind_ok:
  assumes "lib_ok L" "vm_ok M vm"
  shows "handler_ok M vm (opcodeFindAssetGroupByAssetId L op data vm)"
  unfolding opcodeFindAssetGroupByAssetId_def
  using vm_ok_bounded(1) [OF assms(2)]
  by (intro okE_with_packet assms(2))
    (auto intro!: okE_popAssetID okE_rules okE_bind [OF okE_find_group [OF _ lib_lengths(9) [OF assms(1)]]]
      word_nat_small dest: packet_ok_sums(3))

interpretation ast: safe_handlers run_asset
proof (unfold_locales, goal_cases)
  case (1 L M vm data op b f)
  note bd = vm_ok_bounded [OF 1(2)] vm_ok_520 [OF 1(2)]
  note len = lib_lengths(9) [OF 1(1)]
  show ?case
    by (cases f)
      (use 1(1,2) bd len in \<open>auto simp: opcodeInspectNumAssetGroups_def opcodeInspectAssetGroupAssetId_def
        opcodeInspectAssetGroupMetadataHash_def opcodeInspectAssetGroupNum_def opcodeInspectAssetGroupSum_def
        opcodeInspectOutAssetCount_def opcodeInspectOutAssetAt_def opcodeInspectOutAssetLookup_def
        opcodeInspectInAssetCount_def opcodeInspectInAssetAt_def opcodeInspectInAssetLookup_def
        pushBigIntAsBigNum_def
        intro!: okE_assetCount okE_assetAt okE_assetLookup opcodeInspectAssetGroup_ok opcodeInspectAssetGroupCtrl_ok
          opcodeFind_ok okE_with_packet okE_rules okE_group_at okE_resolve okE_push_assetId' bounded_push
          okE_wrap_err [OF okE_metadata_root] word_nat_small len_num_small
        dest: packet_ok_sums group_ok_lengths(1,2)\<close>)
qed

end
