(* ===== verification/OpEC.thy ===== *)
theory OpEC
imports SigHash
begin

text \<open>Model of pkg/arkade/ec_ops.go and of the two point-verification handlers of opcode.go.
The group laws themselves are gnark-crypto, crypto/elliptic and decred code (fields of the
library record); a curve point is its pair of affine coordinates, with (0, 0) the point at
infinity, as those packages encode it.\<close>

definition CurveSecp256k1 :: int where "CurveSecp256k1 = 0"
definition CurveSecp256r1 :: int where "CurveSecp256r1 = 1"
definition CurveAltBN128 :: int where "CurveAltBN128 = 2"

definition maxECPairingCount :: int where "maxECPairingCount = 16"

record curveMeta =
  cm_id :: int
  fieldModulus :: int
  groupOrder :: int
  supportsPairing :: bool

text \<open>The field modulus of P-256 (elliptic.P256().Params().P).\<close>

definition P256_P :: int where
  "P256_P = 2 ^ 256 - 2 ^ 224 + 2 ^ 192 + 2 ^ 96 - 1"

definition curveByID :: "lib \<Rightarrow> int \<rightharpoonup> curveMeta" where
  "curveByID L =
     [CurveSecp256k1 \<mapsto> \<lparr>cm_id = CurveSecp256k1, fieldModulus = k1_fieldModulus L,
                         groupOrder = k1_groupOrder L, supportsPairing = False\<rparr>,
      CurveSecp256r1 \<mapsto> \<lparr>cm_id = CurveSecp256r1, fieldModulus = P256_P,
                         groupOrder = int P256_N, supportsPairing = False\<rparr>,
      CurveAltBN128 \<mapsto> \<lparr>cm_id = CurveAltBN128, fieldModulus = bn_fieldModulus L,
                        groupOrder = bn_groupOrder L, supportsPairing = True\<rparr>]"

type_synonym affine = "int \<times> int"

record ecPair =
  g1X :: int
  g1Y :: int
  g2XC0 :: int
  g2XC1 :: int
  g2YC0 :: int
  g2YC1 :: int

definition IsInt64 :: "int \<Rightarrow> bool" where
  "IsInt64 x \<longleftrightarrow> - (2 ^ 63) \<le> x \<and> x < 2 ^ 63"

subsection \<open>Operands\<close>

definition popCurveID :: "lib \<Rightarrow> stack \<Rightarrow> (curveMeta \<times> stack) res" where
  "popCurveID L s =
     bindE (PopBigNum s) (\<lambda>(n, s).
     if Sign n < 0 then script_err ErrInvalidStackOperation
     else let bi = BigInt n in
     if \<not> IsInt64 bi then script_err ErrInvalidStackOperation
     else (case curveByID L bi of None \<Rightarrow> script_err ErrInvalidStackOperation
           | Some meta \<Rightarrow> Inr (meta, s)))"

definition popInFieldElement :: "int \<Rightarrow> stack \<Rightarrow> (int \<times> stack) res" where
  "popInFieldElement modulus s =
     bindE (PopBigNum s) (\<lambda>(n, s).
     if Sign n < 0 then script_err ErrInvalidStackOperation
     else let bi = BigInt n in
     if bi \<ge> modulus then script_err ErrInvalidStackOperation else Inr (bi, s))"

definition popInGroupScalar :: "int \<Rightarrow> stack \<Rightarrow> (int \<times> stack) res" where
  "popInGroupScalar order s =
     bindE (PopBigNum s) (\<lambda>(n, s).
     if Sign n < 0 then script_err ErrInvalidStackOperation
     else let bi = BigInt n in
     if bi \<ge> order then script_err ErrInvalidStackOperation else Inr (bi, s))"

definition pushECCoord :: "int \<Rightarrow> stack \<Rightarrow> stack res" where
  "pushECCoord v s = PushBigNum (Big v) s"

definition pushECPoint :: "affine \<Rightarrow> stack \<Rightarrow> stack res" where
  "pushECPoint p s = bindE (pushECCoord (fst p) s) (pushECCoord (snd p))"

subsection \<open>The curves\<close>

text \<open>setXAffine: SetBigInt reduces modulo the field; XAffineCoords: infinity is (0, 0).\<close>

definition set_affine :: "int \<Rightarrow> int \<Rightarrow> int \<Rightarrow> affine" where
  "set_affine modulus x y = (if sgn x = 0 \<and> sgn y = 0 then (0, 0) else (x mod modulus, y mod modulus))"

definition affine_coords :: "affine \<Rightarrow> affine" where
  "affine_coords p = (if p = (0, 0) then (0, 0) else p)"

definition errECPointOffCurve :: verror where "errECPointOffCurve = GoError ''point not on curve''"
definition errECG2NotInSubgroup :: verror where "errECG2NotInSubgroup = GoError ''G2 point not in r-subgroup''"
definition errECPairingEmpty :: verror where "errECPairingEmpty = GoError ''pairing check requires at least one pair''"

definition ecAddSecp256k1 :: "lib \<Rightarrow> int \<Rightarrow> int \<Rightarrow> int \<Rightarrow> int \<Rightarrow> affine res" where
  "ecAddSecp256k1 L x1 y1 x2 y2 =
     (let p1 = set_affine (k1_fieldModulus L) x1 y1; p2 = set_affine (k1_fieldModulus L) x2 y2 in
      if \<not> k1_IsOnCurve L p1 then Inl errECPointOffCurve
      else if \<not> k1_IsOnCurve L p2 then Inl errECPointOffCurve
      else Inr (affine_coords (k1_Add L p1 p2)))"

definition ecMulSecp256k1 :: "lib \<Rightarrow> int \<Rightarrow> int \<Rightarrow> int \<Rightarrow> affine res" where
  "ecMulSecp256k1 L x y k =
     (let p = set_affine (k1_fieldModulus L) x y in
      if \<not> k1_IsOnCurve L p then Inl errECPointOffCurve
      else Inr (affine_coords (k1_ScalarMul L p k)))"

definition ecAddBN254G1 :: "lib \<Rightarrow> int \<Rightarrow> int \<Rightarrow> int \<Rightarrow> int \<Rightarrow> affine res" where
  "ecAddBN254G1 L x1 y1 x2 y2 =
     (let p1 = set_affine (bn_fieldModulus L) x1 y1; p2 = set_affine (bn_fieldModulus L) x2 y2 in
      if \<not> bn_IsOnCurve L p1 then Inl errECPointOffCurve
      else if \<not> bn_IsOnCurve L p2 then Inl errECPointOffCurve
      else Inr (affine_coords (bn_Add L p1 p2)))"

definition ecMulBN254G1 :: "lib \<Rightarrow> int \<Rightarrow> int \<Rightarrow> int \<Rightarrow> affine res" where
  "ecMulBN254G1 L x y k =
     (let p = set_affine (bn_fieldModulus L) x y in
      if \<not> bn_IsOnCurve L p then Inl errECPointOffCurve
      else Inr (affine_coords (bn_ScalarMul L p k)))"

definition ecAddSecp256r1 :: "lib \<Rightarrow> int \<Rightarrow> int \<Rightarrow> int \<Rightarrow> int \<Rightarrow> affine res" where
  "ecAddSecp256r1 L x1 y1 x2 y2 =
     (let inf1 = (sgn x1 = 0 \<and> sgn y1 = 0); inf2 = (sgn x2 = 0 \<and> sgn y2 = 0) in
      if \<not> inf1 \<and> \<not> p256_IsOnCurve L (x1, y1) then Inl errECPointOffCurve
      else if \<not> inf2 \<and> \<not> p256_IsOnCurve L (x2, y2) then Inl errECPointOffCurve
      else if inf1 \<and> inf2 then Inr (0, 0)
      else if inf1 then Inr (x2, y2)
      else if inf2 then Inr (x1, y1)
      else Inr (p256_Add L (x1, y1) (x2, y2)))"

definition ecMulSecp256r1 :: "lib \<Rightarrow> int \<Rightarrow> int \<Rightarrow> int \<Rightarrow> affine res" where
  "ecMulSecp256r1 L x y k =
     (let inf = (sgn x = 0 \<and> sgn y = 0) in
      if \<not> inf \<and> \<not> p256_IsOnCurve L (x, y) then Inl errECPointOffCurve
      else if inf \<or> sgn k = 0 then Inr (0, 0)
      else Inr (p256_ScalarMult L (x, y) k))"

definition ecAdd :: "lib \<Rightarrow> int \<Rightarrow> int \<Rightarrow> int \<Rightarrow> int \<Rightarrow> int \<Rightarrow> affine res" where
  "ecAdd L curveID x1 y1 x2 y2 =
     (if curveID = CurveSecp256k1 then ecAddSecp256k1 L x1 y1 x2 y2
      else if curveID = CurveSecp256r1 then ecAddSecp256r1 L x1 y1 x2 y2
      else if curveID = CurveAltBN128 then ecAddBN254G1 L x1 y1 x2 y2
      else go_err ''unsupported curve id'')"

definition ecMul :: "lib \<Rightarrow> int \<Rightarrow> int \<Rightarrow> int \<Rightarrow> int \<Rightarrow> affine res" where
  "ecMul L curveID x y k =
     (if curveID = CurveSecp256k1 then ecMulSecp256k1 L x y k
      else if curveID = CurveSecp256r1 then ecMulSecp256r1 L x y k
      else if curveID = CurveAltBN128 then ecMulBN254G1 L x y k
      else go_err ''unsupported curve id'')"

definition setBN254G2Affine :: "lib \<Rightarrow> int \<Rightarrow> int \<Rightarrow> int \<Rightarrow> int \<Rightarrow> affine \<times> affine" where
  "setBN254G2Affine L xC0 xC1 yC0 yC1 =
     (if sgn xC0 = 0 \<and> sgn xC1 = 0 \<and> sgn yC0 = 0 \<and> sgn yC1 = 0 then ((0, 0), (0, 0))
      else let p = bn_fieldModulus L in ((xC0 mod p, xC1 mod p), (yC0 mod p, yC1 mod p)))"

primrec check_pairs :: "lib \<Rightarrow> ecPair list \<Rightarrow> (affine list \<times> (affine \<times> affine) list) res" where
  "check_pairs L [] = Inr ([], [])"
| "check_pairs L (p # ps) =
     (let g1 = set_affine (bn_fieldModulus L) (g1X p) (g1Y p);
          g2 = setBN254G2Affine L (g2XC0 p) (g2XC1 p) (g2YC0 p) (g2YC1 p) in
      if \<not> bn_IsOnCurve L g1 then Inl errECPointOffCurve
      else if \<not> bn_G2_IsOnCurve L g2 then Inl errECPointOffCurve
      else if \<not> bn_G2_IsInSubGroup L g2 then Inl errECG2NotInSubgroup
      else bindE (check_pairs L ps) (\<lambda>(g1s, g2s). Inr (g1 # g1s, g2 # g2s)))"

definition bn254PairingCheck :: "lib \<Rightarrow> ecPair list \<Rightarrow> bool res" where
  "bn254PairingCheck L pairs =
     (if length pairs = 0 then Inl errECPairingEmpty
      else bindE (check_pairs L pairs) (\<lambda>(g1s, g2s). bn_PairingCheck L g1s g2s))"

subsection \<open>The handlers\<close>

definition opcodeECAdd :: handler where
  "opcodeECAdd L op data vm = on_dstack (\<lambda>s.
     bindE (popCurveID L s) (\<lambda>(meta, s).
     bindE (popInFieldElement (fieldModulus meta) s) (\<lambda>(y2, s).
     bindE (popInFieldElement (fieldModulus meta) s) (\<lambda>(x2, s).
     bindE (popInFieldElement (fieldModulus meta) s) (\<lambda>(y1, s).
     bindE (popInFieldElement (fieldModulus meta) s) (\<lambda>(x1, s).
     bindE (wrap_err ErrInvalidStackOperation (ecAdd L (cm_id meta) x1 y1 x2 y2)) (\<lambda>r.
     pushECPoint r s))))))) vm"

definition opcodeECMul :: handler where
  "opcodeECMul L op data vm = on_dstack (\<lambda>s.
     bindE (popCurveID L s) (\<lambda>(meta, s).
     bindE (popInGroupScalar (groupOrder meta) s) (\<lambda>(k, s).
     bindE (popInFieldElement (fieldModulus meta) s) (\<lambda>(y, s).
     bindE (popInFieldElement (fieldModulus meta) s) (\<lambda>(x, s).
     bindE (wrap_err ErrInvalidStackOperation (ecMul L (cm_id meta) x y k)) (\<lambda>r.
     pushECPoint r s)))))) vm"

definition popPair :: "int \<Rightarrow> stack \<Rightarrow> (ecPair \<times> stack) res" where
  "popPair modulus s =
     bindE (popInFieldElement modulus s) (\<lambda>(yC0, s).
     bindE (popInFieldElement modulus s) (\<lambda>(yC1, s).
     bindE (popInFieldElement modulus s) (\<lambda>(xC0, s).
     bindE (popInFieldElement modulus s) (\<lambda>(xC1, s).
     bindE (popInFieldElement modulus s) (\<lambda>(y, s).
     bindE (popInFieldElement modulus s) (\<lambda>(x, s).
     Inr (\<lparr>g1X = x, g1Y = y, g2XC0 = xC0, g2XC1 = xC1, g2YC0 = yC0, g2YC1 = yC1\<rparr>, s)))))))"

text \<open>for i := count - 1; i >= 0; i--: the pair popped first is the last of the list.\<close>

primrec popPairs :: "nat \<Rightarrow> int \<Rightarrow> stack \<Rightarrow> (ecPair list \<times> stack) res" where
  "popPairs 0 modulus s = Inr ([], s)"
| "popPairs (Suc n) modulus s =
     bindE (popPair modulus s) (\<lambda>(p, s).
     bindE (popPairs n modulus s) (\<lambda>(ps, s). Inr (ps @ [p], s)))"

definition opcodeECPairing :: handler where
  "opcodeECPairing L op data vm = on_dstack (\<lambda>s.
     bindE (popCurveID L s) (\<lambda>(meta, s).
     if \<not> supportsPairing meta then script_err ErrInvalidStackOperation
     else bindE (PopBigNum s) (\<lambda>(countBN, s).
     if Sign countBN < 0 then script_err ErrInvalidStackOperation
     else if \<not> IsInt64 (BigInt countBN) then script_err ErrInvalidStackOperation
     else let count = BigInt countBN in
     if count < 1 then script_err ErrInvalidStackOperation
     else if count > maxECPairingCount then script_err ErrInvalidStackOperation
     else bindE (popPairs (nat count) (fieldModulus meta) s) (\<lambda>(pairs, s).
     bindE (wrap_err ErrInvalidStackOperation (bn254PairingCheck L pairs)) (\<lambda>ok.
     Inr (PushBool ok s)))))) vm"

definition isInfinity :: "point \<Rightarrow> bool" where
  "isInfinity p \<longleftrightarrow> fst p = 0 \<and> snd p = 0"

definition opcodeECMulScalarVerify :: handler where
  "opcodeECMulScalarVerify L op data vm = on_dstack (\<lambda>s.
     bindE (PopByteArray s) (\<lambda>(Q, s).
     bindE (PopByteArray s) (\<lambda>(P, s).
     bindE (PopByteArray s) (\<lambda>(k, s).
     if length k \<noteq> 32 then script_err ErrInvalidStackOperation
     else if length P \<noteq> 33 then script_err ErrInvalidStackOperation
     else (case secp_ParsePubKey L P of None \<Rightarrow> script_err ErrInvalidStackOperation
     | Some pubKeyP \<Rightarrow>
       let (scalar, overflow) = modn_SetByteSlice L k in
       if overflow then script_err ErrInvalidStackOperation
       else let kP = ScalarMult L scalar pubKeyP in
       if isInfinity kP then script_err ErrInvalidStackOperation
       else if Q \<noteq> SerializeCompressed L kP then script_err ErrInvalidStackOperation
       else Inr s))))) vm"

definition opcodeTweakVerify :: handler where
  "opcodeTweakVerify L op data vm = on_dstack (\<lambda>s.
     bindE (PopByteArray s) (\<lambda>(Q, s).
     bindE (PopByteArray s) (\<lambda>(k, s).
     bindE (PopByteArray s) (\<lambda>(P, s).
     if length P \<noteq> 32 then script_err ErrInvalidStackOperation
     else if length k \<noteq> 32 then script_err ErrInvalidStackOperation
     else let (scalar, overflow) = modn_SetByteSlice L k in
     if overflow then script_err ErrInvalidStackOperation
     else let kG = ScalarBaseMult L scalar; (px, px_over) = field_SetByteSlice L P in
     if px_over then script_err ErrInvalidStackOperation
     else (case DecompressY L px False of None \<Rightarrow> script_err ErrInvalidStackOperation
     | Some py \<Rightarrow>
       let tweakedKey = AddNonConst L (px, py) kG in
       if isInfinity tweakedKey then script_err ErrInvalidStackOperation
       else if Q \<noteq> SerializeCompressed L tweakedKey then script_err ErrInvalidStackOperation
       else Inr s))))) vm"

primrec run_ec :: "ec_fn \<Rightarrow> handler" where
  "run_ec F_ECAdd = opcodeECAdd"
| "run_ec F_ECMul = opcodeECMul"
| "run_ec F_ECPairing = opcodeECPairing"
| "run_ec F_ECMulScalarVerify = opcodeECMulScalarVerify"
| "run_ec F_TweakVerify = opcodeTweakVerify"

subsection \<open>The handlers keep the invariant\<close>

lemma okE_ec_pops:
  assumes "bounded M s"
  shows "(\<And>m s'. bounded M s' \<Longrightarrow> okE P (f (m, s'))) \<Longrightarrow> okE P (bindE (popCurveID L s) f)"
    "(\<And>x s'. bounded M s' \<Longrightarrow> 0 \<le> x \<Longrightarrow> x < n \<Longrightarrow> okE P (g (x, s'))) \<Longrightarrow> okE P (bindE (popInFieldElement n s) g)"
    "(\<And>x s'. bounded M s' \<Longrightarrow> 0 \<le> x \<Longrightarrow> x < n \<Longrightarrow> okE P (g (x, s'))) \<Longrightarrow> okE P (bindE (popInGroupScalar n s) g)"
  using assms
  by (auto simp: popCurveID_def popInFieldElement_def popInGroupScalar_def bindE_assoc Let_def BigInt_eq_val
      Sign_eq not_less not_le sgn_if
      intro!: okE_steps(3) split: option.split if_splits)

lemma okE_prod: "(\<And>a b. x = (a, b) \<Longrightarrow> okE P (f a b)) \<Longrightarrow> okE P (case x of (a, b) \<Rightarrow> f a b)"
  by (cases x) simp

lemma okE_pushECPoint: "bounded M s \<Longrightarrow> okE (bounded M) (pushECPoint p s)"
  by (auto simp: pushECPoint_def pushECCoord_def intro!: okE_rules)

lemma ec_errs: "errECPointOffCurve \<noteq> Panic" "errECG2NotInSubgroup \<noteq> Panic" "errECPairingEmpty \<noteq> Panic"
  by (simp_all add: errECPointOffCurve_def errECG2NotInSubgroup_def errECPairingEmpty_def)

lemma okE_ecAdd: "okE (\<lambda>_. True) (ecAdd L c x1 y1 x2 y2)"
  by (simp add: ecAdd_def ecAddSecp256k1_def ecAddBN254G1_def ecAddSecp256r1_def ec_errs Let_def)

lemma okE_ecMul: "okE (\<lambda>_. True) (ecMul L c x y k)"
  by (simp add: ecMul_def ecMulSecp256k1_def ecMulBN254G1_def ecMulSecp256r1_def ec_errs Let_def)

lemma okE_check_pairs: "okE (\<lambda>_. True) (check_pairs L ps)"
  by (induction ps) (auto simp: ec_errs Let_def intro!: okE_seq okE_if)

lemma okE_bn254PairingCheck: "lib_ok L \<Longrightarrow> okE (\<lambda>_. True) (bn254PairingCheck L ps)"
  by (auto simp: bn254PairingCheck_def ec_errs okE_lib(9) intro!: okE_seq [OF okE_check_pairs])

lemma okE_popPair:
  "bounded M s \<Longrightarrow> okE (\<lambda>(_, s'). bounded M s') (popPair n s)"
  unfolding popPair_def by (auto intro!: okE_ec_pops)

lemma okE_popPairs:
  "bounded M s \<Longrightarrow> okE (\<lambda>(ps, s'). bounded M s' \<and> length ps = k) (popPairs k n s)"
proof (induction k arbitrary: s)
  case (Suc k)
  show ?case
    using Suc.IH by (auto intro!: okE_bind [OF okE_popPair [OF Suc.prems]] okE_bind [OF Suc.IH])
qed simp

interpretation ecc: safe_handlers run_ec
proof (unfold_locales, goal_cases)
  case (1 L M vm data op b f)
  note bd = vm_ok_bounded [OF 1(2)]
  show ?case
    by (cases f)
      (use 1(1,2) bd in \<open>auto simp: opcodeECAdd_def opcodeECMul_def opcodeECPairing_def
        opcodeECMulScalarVerify_def opcodeTweakVerify_def Let_def bounded_PushBool
        intro!: okE_on_dstack okE_ec_pops okE_rules okE_prod okE_pushECPoint okE_wrap_err [OF okE_ecAdd]
          okE_wrap_err [OF okE_ecMul] okE_wrap_err [OF okE_bn254PairingCheck] okE_bind [OF okE_popPairs]
        split: prod.split\<close>)
qed

end
