(* ===== verification/Engine.thy ===== *)
theory Engine
imports OpControl OpData OpCrypto OpIntro OpAsset OpEC
begin

text \<open>Model of pkg/arkade/engine.go: the interpreter itself.  An error ends the run and the
state it leaves is undefined (as the comment of Step says), so only the error is kept.  The
step callback observes the run and is not modelled.\<close>

subsection \<open>Dispatch\<close>

primrec run_opfunc :: "opfunc \<Rightarrow> handler" where
  "run_opfunc (Control f) = run_control f"
| "run_opfunc (Stack f) = run_stack f"
| "run_opfunc (Bytes f) = run_bytes f"
| "run_opfunc (Num f) = run_num f"
| "run_opfunc (Crypto f) = run_crypto f"
| "run_opfunc (Intro f) = run_intro f"
| "run_opfunc (Asset f) = run_asset f"
| "run_opfunc (EC f) = run_ec f"

definition SetAssetPacket :: "assetGroup list option \<Rightarrow> vm \<Rightarrow> vm" where
  "SetAssetPacket p vm = vm\<lparr>assetPacket := p\<rparr>"

definition SetEmulatorPacket :: "emulatorEntry list option \<Rightarrow> vm \<Rightarrow> vm" where
  "SetEmulatorPacket p vm = vm\<lparr>emulatorPacket := p\<rparr>"

definition isOpcodeAlwaysIllegal :: "byte \<Rightarrow> bool" where
  "isOpcodeAlwaysIllegal b \<longleftrightarrow> b = OP_VERIF \<or> b = OP_VERNOTIF"

definition isOpcodeConditional :: "byte \<Rightarrow> bool" where
  "isOpcodeConditional b \<longleftrightarrow> b = OP_IF \<or> b = OP_NOTIF \<or> b = OP_ELSE \<or> b = OP_ENDIF"

definition checkMinimalDataPush :: "opcode \<Rightarrow> bytes \<Rightarrow> unit res" where
  "checkMinimalDataPush op data =
     (let opcodeVal = op_value op; dataLen = length data in
      if dataLen = 0 \<and> opcodeVal \<noteq> OP_0 then script_err ErrMinimalData
      else if dataLen = 1 \<and> data ! 0 \<ge> 1 \<and> data ! 0 \<le> 16 then
        (if opcodeVal \<noteq> OP_1 + data ! 0 - 1 then script_err ErrMinimalData else Inr ())
      else if dataLen = 1 \<and> data ! 0 = 0x81 then
        (if opcodeVal \<noteq> OP_1NEGATE then script_err ErrMinimalData else Inr ())
      else if dataLen \<le> 75 then
        (if unat opcodeVal \<noteq> dataLen then script_err ErrMinimalData else Inr ())
      else if dataLen \<le> 255 then
        (if opcodeVal \<noteq> OP_PUSHDATA1 then script_err ErrMinimalData else Inr ())
      else if dataLen \<le> 65535 then
        (if opcodeVal \<noteq> OP_PUSHDATA2 then script_err ErrMinimalData else Inr ())
      else Inr ())"

definition chargeOpcode :: "byte \<Rightarrow> vm \<Rightarrow> vm res" where
  "chargeOpcode op vm =
     (case taprootCtx vm of None \<Rightarrow> Inr vm
      | Some ctx \<Rightarrow>
          bindE (case limits vm op of None \<Rightarrow> Inr ctx
            | Some limit \<Rightarrow>
                let ctx' = ctx\<lparr>opCounts := (opCounts ctx)(op := opCounts ctx op + 1)\<rparr> in
                if opCounts ctx' op > limit then script_err ErrScriptTooBig else Inr ctx') (\<lambda>ctx.
          bindE (charge op (budget vm)) (\<lambda>b.
          Inr (vm\<lparr>taprootCtx := Some ctx, budget := b\<rparr>))))"

definition executeOpcode :: "lib \<Rightarrow> opcode \<Rightarrow> bytes \<Rightarrow> vm \<Rightarrow> vm res" where
  "executeOpcode L op data vm =
     (if isOpcodeAlwaysIllegal (op_value op) then script_err ErrReservedOpcode
      else if length data > MaxScriptElementSize then script_err ErrElementTooBig
      else if \<not> isBranchExecuting vm \<and> \<not> isOpcodeConditional (op_value op) then Inr vm
      else bindE (if verifyMinimalData (dstack vm) \<and> isBranchExecuting vm \<and> op_value op \<le> OP_PUSHDATA4
                  then checkMinimalDataPush op data else Inr ()) (\<lambda>_.
        bindE (chargeOpcode (op_value op) vm) (run_opfunc (op_func op) L op data)))"

subsection \<open>Stacks\<close>

text \<open>DropN of the whole depth, with its error (for an empty stack) ignored.\<close>

definition drop_all :: "stack \<Rightarrow> stack" where
  "drop_all s = (case DropN (Depth s) s of Inl _ \<Rightarrow> s | Inr s' \<Rightarrow> s')"

definition getStack :: "stack \<Rightarrow> bytes list" where
  "getStack s = rev (map (\<lambda>i. case PeekByteArray (int i) s of Inl _ \<Rightarrow> [] | Inr b \<Rightarrow> b) [0..<nat (Depth s)])"

definition setStack :: "bytes list \<Rightarrow> stack \<Rightarrow> stack" where
  "setStack data s = foldl (\<lambda>s d. PushByteArray d s) (drop_all s) data"

definition GetStack :: "vm \<Rightarrow> bytes list" where "GetStack vm = getStack (dstack vm)"
definition SetStack :: "bytes list \<Rightarrow> vm \<Rightarrow> vm" where
  "SetStack data vm = vm\<lparr>dstack := setStack data (dstack vm)\<rparr>"
definition GetAltStack :: "vm \<Rightarrow> bytes list" where "GetAltStack vm = getStack (astack vm)"
definition SetAltStack :: "bytes list \<Rightarrow> vm \<Rightarrow> vm" where
  "SetAltStack data vm = vm\<lparr>astack := setStack data (astack vm)\<rparr>"

definition stackByteSize :: "stack \<Rightarrow> nat" where
  "stackByteSize s = foldl (\<lambda>total it. total + length it) 0 (stk s)"

definition maxCombinedStackByteSize :: nat where
  "maxCombinedStackByteSize = 128 * 1024"

subsection \<open>The witness program\<close>

definition payToTaprootDataSize :: nat where "payToTaprootDataSize = 32"
definition TaprootWitnessVersion :: int where "TaprootWitnessVersion = 1"
definition TaprootAnnexTag :: byte where "TaprootAnnexTag = 0x50"
definition BaseLeafVersion :: byte where "BaseLeafVersion = 0xc0"

definition isAnnexedWitness :: "bytes list \<Rightarrow> bool" where
  "isAnnexedWitness w =
     (if length w < 2 then False
      else let lastElement = last w in length lastElement > 0 \<and> lastElement ! 0 = TaprootAnnexTag)"

definition extractAnnex :: "bytes list \<Rightarrow> bytes res" where
  "extractAnnex w = (if \<not> isAnnexedWitness w then script_err ErrWitnessHasNoAnnex else Inr (last w))"

definition isWitnessVersionActive :: "int \<Rightarrow> vm \<Rightarrow> bool" where
  "isWitnessVersionActive v vm \<longleftrightarrow> witnessProgram vm \<noteq> None \<and> witnessVersion vm = v"

definition checkValidPC :: "vm \<Rightarrow> unit res" where
  "checkValidPC vm = (if scriptIdx vm \<ge> int (length (scripts vm)) then script_err ErrInvalidProgramCounter else Inr ())"

definition check_initial_stack :: "vm \<Rightarrow> vm res" where
  "check_initial_stack vm =
     (if Depth (dstack vm) > MaxStackSize then script_err ErrStackOverflow
      else if list_ex (\<lambda>w. length w > MaxScriptElementSize) (GetStack vm) then script_err ErrElementTooBig
      else Inr vm)"

definition verifyWitnessProgram :: "lib \<Rightarrow> bytes list \<Rightarrow> vm \<Rightarrow> vm res" where
  "verifyWitnessProgram L witness vm =
     (if \<not> isWitnessVersionActive TaprootWitnessVersion vm \<or>
         length (case witnessProgram vm of None \<Rightarrow> [] | Some p \<Rightarrow> p) \<noteq> payToTaprootDataSize
      then go_err ''arkscript engine only supports taproot''
      else if length witness = 0 then script_err ErrWitnessProgramEmpty
      else let program = (case witnessProgram vm of None \<Rightarrow> [] | Some p \<Rightarrow> p);
        ctx = newTaprootExecutionCtx;
        (ctx, witness) = (if isAnnexedWitness witness
           then (ctx\<lparr>annex := (case extractAnnex witness of Inl _ \<Rightarrow> [] | Inr a \<Rightarrow> a)\<rparr>, butlast witness)
           else (ctx, witness)) in
      if length witness = 1 then
        bindE (tap_VerifyKeySpend L program (witness ! 0) (tx vm) (txIdx vm) (prevOutFetcher vm)
                 (hashCache vm) (sigCache vm)) (\<lambda>cache.
        Inr (vm\<lparr>taprootCtx := Some (ctx\<lparr>mustSucceed := True\<rparr>), sigCache := cache\<rparr>))
      else
        bindE (at_idx witness (int (length witness) - 1)) (\<lambda>cb.
        bindE (cb_Parse L cb) (\<lambda>controlBlock.
        bindE (at_idx witness (int (length witness) - 2)) (\<lambda>witnessScript.
        bindE (tap_VerifyLeafCommitment L controlBlock program witnessScript) (\<lambda>_.
        if fst controlBlock \<noteq> BaseLeafVersion then script_err ErrDiscourageUpgradeableTaprootVersion
        else bindE (checkScriptParses (version vm) witnessScript) (\<lambda>_.
        let leaf = \<lparr>LeafVersion = BaseLeafVersion, leaf_Script = witnessScript\<rparr>;
          ctx = ctx\<lparr>ctx_tapLeaf := leaf, tapLeafHash := TapHash L (LeafVersion leaf) (leaf_Script leaf)\<rparr> in
        bindE (slice witness 0 (int (length witness) - 2)) (\<lambda>stack0.
        check_initial_stack (SetStack stack0
          (vm\<lparr>taprootCtx := Some ctx, scripts := scripts vm @ [witnessScript]\<rparr>)))))))))"

subsection \<open>Execution\<close>

text \<open>CheckErrorCondition pops the final item, so it returns the engine it leaves.\<close>

definition CheckErrorCondition :: "bool \<Rightarrow> vm \<Rightarrow> vm res" where
  "CheckErrorCondition finalScript vm =
     (if (case taprootCtx vm of None \<Rightarrow> False | Some ctx \<Rightarrow> mustSucceed ctx) then Inr vm
      else if scriptIdx vm < int (length (scripts vm)) then script_err ErrScriptUnfinished
      else if finalScript \<and> Depth (dstack vm) \<noteq> 1 then script_err ErrCleanStack
      else if Depth (dstack vm) < 1 then script_err ErrEmptyStack
      else bindE (PopBool (dstack vm)) (\<lambda>(v, s).
        if \<not> v then script_err ErrEvalFalse else Inr (vm\<lparr>dstack := s\<rparr>)))"

text \<open>The end of a script: the second half of Step.\<close>

definition nextScript :: "lib \<Rightarrow> vm \<Rightarrow> (bool \<times> vm) res" where
  "nextScript L vm =
     (if length (condStack vm) \<noteq> 0 then script_err ErrUnbalancedConditional
      else let vm = vm\<lparr>astack := drop_all (astack vm), opcodeIdx := 0\<rparr> in
      bindE (if scriptIdx vm = 1 \<and> witnessProgram vm \<noteq> None then
          bindE (at_idx (TxIn (tx vm)) (txIdx vm)) (\<lambda>txIn.
          verifyWitnessProgram L (Witness txIn) (vm\<lparr>scriptIdx := scriptIdx vm + 1\<rparr>))
        else Inr (vm\<lparr>scriptIdx := scriptIdx vm + 1\<rparr>)) (\<lambda>vm.
      bindE (if scriptIdx vm < int (length (scripts vm)) then
          bindE (at_idx (scripts vm) (scriptIdx vm)) (\<lambda>scr.
          Inr (if length scr = 0 then vm\<lparr>scriptIdx := scriptIdx vm + 1\<rparr> else vm))
        else Inr vm) (\<lambda>vm.
      if scriptIdx vm \<ge> int (length (scripts vm)) then Inr (True, vm)
      else bindE (at_idx (scripts vm) (scriptIdx vm)) (\<lambda>scr.
        Inr (False, vm\<lparr>tokenizer := MakeScriptTokenizer (version vm) scr\<rparr>)))))"

definition Step :: "lib \<Rightarrow> vm \<Rightarrow> (bool \<times> vm) res" where
  "Step L vm =
     bindE (checkValidPC vm) (\<lambda>_.
     bindE (Next (tokenizer vm)) (\<lambda>(ok, t).
     if \<not> ok then
       (case Tok_Err t of Some e \<Rightarrow> Inl e | None \<Rightarrow> script_err ErrInvalidProgramCounter)
     else (case t_op t of None \<Rightarrow> panic
     | Some op \<Rightarrow>
         bindE (executeOpcode L op (Tok_Data t) (vm\<lparr>tokenizer := t\<rparr>)) (\<lambda>vm.
         if Depth (dstack vm) + Depth (astack vm) > MaxStackSize then script_err ErrStackOverflow
         else if stackByteSize (dstack vm) + stackByteSize (astack vm) > maxCombinedStackByteSize
         then script_err ErrStackOverflow
         else let vm = vm\<lparr>opcodeIdx := opcodeIdx vm + 1\<rparr> in
           if Done (tokenizer vm) then nextScript L vm else Inr (False, vm)))))"

text \<open>The loop of Execute: no result when it does not end.\<close>

partial_function (option) run_steps :: "lib \<Rightarrow> vm \<Rightarrow> vm res option" where
  "run_steps L vm =
     (case Step L vm of Inl e \<Rightarrow> Some (Inl e)
      | Inr (done, vm') \<Rightarrow> if done then Some (Inr vm') else run_steps L vm')"

definition Execute :: "lib \<Rightarrow> vm \<Rightarrow> vm res option" where
  "Execute L vm =
     (if version vm \<noteq> 0 then Some (Inr vm)
      else map_option (\<lambda>r. bindE r (CheckErrorCondition True)) (run_steps L vm))"

definition NewEngine :: "lib \<Rightarrow> bytes \<Rightarrow> msgtx \<Rightarrow> int \<Rightarrow> (bytes \<times> bytes \<times> bytes) list option \<Rightarrow> sighashes \<Rightarrow>
    int64 \<Rightarrow> fetcher option \<Rightarrow> vm res" where
  "NewEngine L scriptPubKey t idx cache hashes amount f =
     (if idx < 0 \<or> idx \<ge> int (length (TxIn t)) then script_err ErrInvalidIndex
      else let txIn = TxIn t ! nat idx; scriptSig = SignatureScript txIn in
      if length scriptSig = 0 \<and> length scriptPubKey = 0 then script_err ErrEvalFalse
      else if \<not> IsPushOnlyScript L scriptSig then script_err ErrNotPushOnly
      else if length scriptSig > MaxScriptSize then script_err ErrScriptTooBig
      else bindE (checkScriptParses 0 scriptSig) (\<lambda>_.
      if length scriptPubKey > MaxScriptSize then script_err ErrScriptTooBig
      else bindE (checkScriptParses 0 scriptPubKey) (\<lambda>_.
      bindE (if IsWitnessProgram L scriptPubKey then
          (if length scriptSig \<noteq> 0 then script_err ErrWitnessMalleated
           else bindE (ExtractWitnessProgramInfo L scriptPubKey) (\<lambda>(v, p). Inr (v, Some p)))
        else if length (Witness txIn) \<noteq> 0 then script_err ErrWitnessUnexpected
        else Inr (0, None)) (\<lambda>(v, p).
      let start = (if length scriptSig = 0 then 1 else 0);
        s0 = \<lparr>stk = [], verifyMinimalData = True\<rparr> in
      Inr \<lparr>tx = t, txIdx = idx, version = 0, sigCache = cache, hashCache = hashes,
           prevOutFetcher = f, assetPacket = None, emulatorPacket = None,
           scripts = [scriptSig, scriptPubKey], scriptIdx = start, opcodeIdx = 0,
           tokenizer = MakeScriptTokenizer 0 (if start = 1 then scriptPubKey else scriptSig),
           dstack = s0, astack = s0, condStack = [], witnessVersion = v, witnessProgram = p,
           inputAmount = amount, taprootCtx = None, limits = DefaultComputeLimits, budget = None\<rparr>))))"

end
