(* ===== verification/EngineInv.thy ===== *)
theory EngineInv
imports Engine
begin

text \<open>The invariant of the interpreter loop, and that every step keeps it, ends without a
panic and makes progress: the ground for the termination and safety properties.\<close>

interpretation eng: safe_handlers run_opfunc
proof (unfold_locales, goal_cases)
  case (1 L M vm data op b f)
  then show ?case
    by (cases f) (simp_all add: ctl.run_ok stk.run_ok byt.run_ok num.run_ok cry.run_ok intr.run_ok
        ast.run_ok ecc.run_ok)
qed

subsection \<open>Stacks as lists\<close>

lemma drop_all_eq: "drop_all s = s\<lparr>stk := []\<rparr>"
  by (auto simp: drop_all_def DropN_items Depth_items with_items_def length_items Suc_le_eq)

lemma getStack_eq: "getStack s = stk s"
proof -
  have "getStack s = rev (map (\<lambda>i. items s ! i) [0..<length (items s)])"
    unfolding getStack_def by (simp add: Depth_items PeekByteArray_items)
  then show ?thesis by (simp only: map_nth) (simp add: items_def)
qed

lemma setStack_eq: "setStack data s = s\<lparr>stk := data\<rparr>"
proof -
  have "foldl (\<lambda>s d. PushByteArray d s) t data = t\<lparr>stk := stk t @ data\<rparr>" for t
    by (induction data arbitrary: t) (simp_all add: PushByteArray_def)
  then show ?thesis by (simp add: setStack_def drop_all_eq)
qed

lemma stackByteSize_eq: "stackByteSize s = sum_list (map length (stk s))"
proof -
  have "foldl (\<lambda>total it. total + length it) n xs = n + sum_list (map length xs)" for n and xs :: "bytes list"
    by (induction xs arbitrary: n) simp_all
  then show ?thesis by (simp add: stackByteSize_def)
qed

subsection \<open>What a step may change\<close>

text \<open>Everything an executed opcode leaves alone; unlike frame it allows the counts of the
charged opcodes to change.\<close>

definition exec_frame :: "vm \<Rightarrow> vm \<Rightarrow> bool" where
  "exec_frame vm vm' \<longleftrightarrow>
     tx vm' = tx vm \<and> txIdx vm' = txIdx vm \<and> version vm' = version vm \<and> hashCache vm' = hashCache vm \<and>
     prevOutFetcher vm' = prevOutFetcher vm \<and> assetPacket vm' = assetPacket vm \<and>
     emulatorPacket vm' = emulatorPacket vm \<and> scripts vm' = scripts vm \<and> scriptIdx vm' = scriptIdx vm \<and>
     opcodeIdx vm' = opcodeIdx vm \<and> tokenizer vm' = tokenizer vm \<and> witnessProgram vm' = witnessProgram vm \<and>
     witnessVersion vm' = witnessVersion vm \<and> limits vm' = limits vm"

lemma exec_frame_refl [simp]: "exec_frame vm vm"
  by (simp add: exec_frame_def)

lemma exec_frame_trans: "exec_frame a b \<Longrightarrow> exec_frame b c \<Longrightarrow> exec_frame a c"
  by (simp add: exec_frame_def)

lemma frame_exec_frame: "frame a b \<Longrightarrow> exec_frame a b"
  by (simp add: exec_frame_def frame_fields)

lemma env_ok_exec_frame: "exec_frame vm vm' \<Longrightarrow> env_ok vm \<Longrightarrow> env_ok vm'"
  by (simp add: env_ok_def exec_frame_def)

lemma chargeOpcode_frame:
  "okE (\<lambda>vm'. exec_frame vm vm' \<and> dstack vm' = dstack vm \<and> astack vm' = astack vm \<and>
              condStack vm' = condStack vm \<and> sigCache vm' = sigCache vm) (chargeOpcode b vm)"
proof -
  have "okE (\<lambda>_. True) (charge b (budget vm))"
    by (auto simp: charge_def Let_def split: option.split)
  then show ?thesis
    unfolding chargeOpcode_def
    by (auto simp: Let_def exec_frame_def split: option.split intro!: okE_bind [where Q = "\<lambda>_. True"])
qed

lemma chargeOpcode_ok: "vm_ok M vm \<Longrightarrow> okE (\<lambda>vm'. exec_frame vm vm' \<and> vm_ok M vm') (chargeOpcode b vm)"
  by (rule okE_mono [OF chargeOpcode_frame]) (auto simp: vm_ok_def env_ok_exec_frame)

lemma okE_checkMinimalDataPush: "okE (\<lambda>_. True) (checkMinimalDataPush op data)"
  by (simp add: checkMinimalDataPush_def Let_def)

lemma executeOpcode_ok:
  assumes "lib_ok L" "vm_ok M vm" "op = opcodeArray b"
  shows "okE (\<lambda>vm'. exec_frame vm vm' \<and> bounded M (dstack vm') \<and> bounded M (astack vm') \<and> env_ok vm')
           (executeOpcode L op data vm)"
proof -
  have run: "okE (\<lambda>vm'. exec_frame vm vm' \<and> bounded M (dstack vm') \<and> bounded M (astack vm') \<and> env_ok vm')
      (run_opfunc f L op data vm1)"
    if "exec_frame vm vm1 \<and> vm_ok M vm1" "length data \<le> 520" for f vm1
    using eng.run_ok [OF assms(1) conjunct2 [OF that(1)] that(2) assms(3), of f]
    by (rule okE_mono) (use that(1) in \<open>auto simp: keeps_def vm_ok_def intro: exec_frame_trans frame_exec_frame env_ok_frame\<close>)
  show ?thesis
    unfolding executeOpcode_def
    using assms(2) vm_ok_bounded [OF assms(2)]
    by (auto simp: MaxScriptElementSize_def vm_ok_def [of M vm] intro!: okE_seq [OF okE_checkMinimalDataPush]
        okE_bind [OF chargeOpcode_ok [OF assms(2)]] run)
qed

subsection \<open>The witness program\<close>

lemma parse_loop_err:
  "parse_loop t = Inr t' \<Longrightarrow> offsets_fit t \<Longrightarrow> t_err t \<noteq> Some Panic \<Longrightarrow> t_err t' \<noteq> Some Panic"
proof (induction t rule: parse_loop.induct)
  case (1 t)
  obtain ok t1 where n: "Next t = Inr (ok, t1)" using 1(2) by (auto simp: parse_loop.simps [of t] split: sum.splits)
  show ?case
  proof (cases ok)
    case True
    with n 1 Next_True_progress [of t t1] show ?thesis by (simp add: parse_loop.simps [of t])
  next
    case False
    with n 1(2,4) Next_False [of t t1] show ?thesis by (auto simp: parse_loop.simps [of t])
  qed
qed

lemma okE_checkScriptParses:
  assumes "length s < 2 ^ 31"
  shows "okE (\<lambda>_. parses (MakeScriptTokenizer v s)) (checkScriptParses v s)"
proof (cases "checkScriptParses v s")
  case (Inl e)
  note f = offsets_fit_Make [OF assms, of v]
  obtain t' where t: "parse_loop (MakeScriptTokenizer v s) = Inr t'"
    using parse_loop_no_err [OF f] by blast
  have "t_err t' \<noteq> Some Panic" using parse_loop_err [OF t f]
    by (auto simp: MakeScriptTokenizer_def split: if_splits)
  with Inl t show ?thesis by (auto simp: checkScriptParses_def split: option.splits)
next
  case (Inr u)
  then show ?thesis using checkScriptParses_iff [OF assms, of v u] by simp
qed

text \<open>The witness items of a transaction fit the int32 offsets of the tokenizer.\<close>

definition wit_ok :: "msgtx \<Rightarrow> bool" where
  "wit_ok t \<longleftrightarrow> (\<forall>i \<in> set (TxIn t). \<forall>w \<in> set (Witness i). length w < 2 ^ 31)"

definition program_frame :: "vm \<Rightarrow> vm \<Rightarrow> bool" where
  "program_frame vm vm' \<longleftrightarrow>
     tx vm' = tx vm \<and> txIdx vm' = txIdx vm \<and> version vm' = version vm \<and> hashCache vm' = hashCache vm \<and>
     prevOutFetcher vm' = prevOutFetcher vm \<and> assetPacket vm' = assetPacket vm \<and>
     scriptIdx vm' = scriptIdx vm \<and> limits vm' = limits vm \<and>
     (scripts vm' = scripts vm \<or>
      (\<exists>w. scripts vm' = scripts vm @ [w] \<and> parses (MakeScriptTokenizer (version vm) w)))"

lemma env_ok_program_frame: "program_frame vm vm' \<Longrightarrow> env_ok vm \<Longrightarrow> env_ok vm'"
  by (simp add: env_ok_def program_frame_def)

lemma check_initial_stack_ok:
  assumes "520 \<le> M" "M < 2 ^ 31" "verifyMinimalData (dstack vm)"
  shows "okE (\<lambda>vm'. vm' = vm \<and> bounded M (dstack vm) \<and> length (stk (dstack vm)) \<le> 1000) (check_initial_stack vm)"
  using assms
  by (auto simp: check_initial_stack_def list_ex_iff GetStack_def getStack_eq bounded_def Depth_def
      MaxScriptElementSize_def MaxStackSize_def not_less)

lemma isAnnexed_length: "isAnnexedWitness w \<Longrightarrow> 2 \<le> length w"
  by (auto simp: isAnnexedWitness_def split: if_splits)

lemma verifyWitnessProgram_ok:
  assumes "lib_ok L" "vm_ok M vm" "\<forall>w \<in> set witness. length w < 2 ^ 31"
  shows "okE (\<lambda>vm'. vm_ok M vm' \<and> program_frame vm vm') (verifyWitnessProgram L witness vm)"
proof -
  note b = vm_ok_bounded [OF assms(2)]
  have M: "520 \<le> M" "M < 2 ^ 31" "verifyMinimalData (dstack vm)" using b by (simp_all add: bounded_def)
  have leaf: "okE (\<lambda>vm'. vm_ok M vm' \<and> program_frame vm vm')
      (check_initial_stack (SetStack st (vm\<lparr>taprootCtx := c, scripts := scripts vm @ [w]\<rparr>)))"
    if "parses (MakeScriptTokenizer (version vm) w)" for st c w
    by (rule okE_mono [OF check_initial_stack_ok [OF M(1,2)]])
      (use that M assms(2) in \<open>auto simp: SetStack_def setStack_eq vm_ok_def program_frame_def env_ok_def\<close>)
  have key: "okE (\<lambda>vm'. vm_ok M vm' \<and> program_frame vm vm')
      (bindE (tap_VerifyKeySpend L p (w ! 0) (tx vm) (txIdx vm) (prevOutFetcher vm) (hashCache vm) (sigCache vm))
        (\<lambda>cache. Inr (vm\<lparr>taprootCtx := c, sigCache := cache\<rparr>)))" for p w c
    by (rule okE_seq [OF okE_lib(12) [OF assms(1)]]) (use assms(2) in \<open>auto simp: vm_ok_def program_frame_def env_ok_def\<close>)
  have body: "okE (\<lambda>vm'. vm_ok M vm' \<and> program_frame vm vm')
      (bindE (at_idx w (int (length w) - 1)) (\<lambda>cb.
        bindE (cb_Parse L cb) (\<lambda>controlBlock.
        bindE (at_idx w (int (length w) - 2)) (\<lambda>witnessScript.
        bindE (tap_VerifyLeafCommitment L controlBlock p witnessScript) (\<lambda>_.
        if fst controlBlock \<noteq> BaseLeafVersion then script_err ErrDiscourageUpgradeableTaprootVersion
        else bindE (checkScriptParses (version vm) witnessScript) (\<lambda>_.
        bindE (slice w 0 (int (length w) - 2)) (\<lambda>stack0.
        check_initial_stack (SetStack stack0
          (vm\<lparr>taprootCtx := Some (f witnessScript), scripts := scripts vm @ [witnessScript]\<rparr>))))))))) "
    if "w \<noteq> []" "length w \<noteq> 1" "\<forall>x \<in> set w. length x < 2 ^ 31" for w p f
  proof -
    have l: "2 \<le> length w" using that by (cases w) (auto simp: Suc_le_eq)
    have i: "w ! nat (int (length w) - 2) \<in> set w" using l by (intro nth_mem) auto
    show ?thesis
      by (intro okE_at_idx okE_seq [OF okE_lib(10) [OF assms(1)]] okE_seq [OF okE_lib(11) [OF assms(1)]] okE_if
          okE_script_err okE_bind [OF okE_checkScriptParses] okE_slice leaf) (use l i that(3) in auto)
  qed
  show ?thesis
  proof (cases "isAnnexedWitness witness")
    case True
    then have "butlast witness \<noteq> []" using isAnnexed_length [of witness] by (cases witness) auto
    moreover have "\<forall>x \<in> set (butlast witness). length x < 2 ^ 31" using assms(3) by (auto dest: in_set_butlastD)
    moreover note True
    ultimately show ?thesis
      unfolding verifyWitnessProgram_def Let_def
      by (auto intro!: key body okE_if simp del: length_butlast)
  next
    case False
    then show ?thesis
      using assms(3) unfolding verifyWitnessProgram_def Let_def by (auto intro!: key body okE_if)
  qed
qed

subsection \<open>The invariant of the loop\<close>

text \<open>The engine points into a script that parses.  There are two scripts until the second has
ended, and then at most the witness script.\<close>

definition eng_ok :: "nat \<Rightarrow> vm \<Rightarrow> bool" where
  "eng_ok M vm \<longleftrightarrow>
     vm_ok M vm \<and> version vm = 0 \<and> 0 \<le> scriptIdx vm \<and> scriptIdx vm < int (length (scripts vm)) \<and>
     length (scripts vm) \<le> 3 \<and> (scriptIdx vm \<le> 1 \<longrightarrow> length (scripts vm) = 2) \<and> wit_ok (tx vm) \<and>
     parses (tokenizer vm) \<and> (\<forall>s \<in> set (scripts vm). parses (MakeScriptTokenizer 0 s))"

text \<open>What is left to run: the scripts after this one, then the bytes of this one.\<close>

definition work :: "vm \<Rightarrow> nat \<times> nat" where
  "work vm = (nat (3 - scriptIdx vm),
              nat (int (length (t_script (tokenizer vm))) - t_offset (tokenizer vm)))"

abbreviation less_work :: "vm \<Rightarrow> vm \<Rightarrow> bool" where
  "less_work vm' vm \<equiv> (work vm', work vm) \<in> less_than <*lex*> less_than"

definition step_post :: "nat \<Rightarrow> vm \<Rightarrow> bool \<times> vm \<Rightarrow> bool" where
  "step_post M vm r \<longleftrightarrow> (case r of (done, vm') \<Rightarrow>
     vm_ok M vm' \<and> length (stk (dstack vm')) \<le> 1000 \<and>
     (\<not> done \<longrightarrow> eng_ok M vm' \<and> less_work vm' vm))"

lemma MakeScriptTokenizer_simps [simp]:
  "t_script (MakeScriptTokenizer v s) = s" "t_offset (MakeScriptTokenizer v s) = 0"
  by (simp_all add: MakeScriptTokenizer_def)

lemma nextScript_ok:
  assumes "lib_ok L" "vm_ok M vm" "length (stk (dstack vm)) \<le> 1000"
    and "version vm = 0" "0 \<le> scriptIdx vm" "scriptIdx vm < int (length (scripts vm))"
      "length (scripts vm) \<le> 3" "scriptIdx vm \<le> 1 \<longrightarrow> length (scripts vm) = 2"
      "\<forall>s \<in> set (scripts vm). parses (MakeScriptTokenizer 0 s)" "scriptIdx vm0 = scriptIdx vm" "wit_ok (tx vm)"
  shows "okE (step_post M vm0) (nextScript L vm)"
proof -
  let ?vm = "vm\<lparr>astack := drop_all (astack vm), opcodeIdx := 0\<rparr>"
  have vm: "vm_ok M (?vm\<lparr>scriptIdx := k\<rparr>)" for k
    using assms(2) by (auto simp: vm_ok_def env_ok_def drop_all_eq bounded_def)
  define Q where "Q vm' \<longleftrightarrow> vm_ok M vm' \<and> length (stk (dstack vm')) \<le> 1000 \<and> version vm' = 0 \<and>
      scriptIdx vm' = scriptIdx vm + 1 \<and> length (scripts vm') \<le> 3 \<and> length (scripts vm') \<ge> length (scripts vm) \<and>
      (\<forall>s \<in> set (scripts vm'). parses (MakeScriptTokenizer 0 s)) \<and>
      (scriptIdx vm = 0 \<longrightarrow> length (scripts vm') = 2) \<and> wit_ok (tx vm')" for vm'
  have len: "length (stk (dstack vm')) \<le> 1000" if "verifyWitnessProgram L w v = Inr vm'"
      "length (stk (dstack v)) \<le> 1000" for w v vm'
    using that
    by (auto simp: verifyWitnessProgram_def Let_def bindE_Inr_iff check_initial_stack_def SetStack_def
        setStack_eq Depth_def MaxStackSize_def split: if_splits prod.splits)
  have q: "okE Q (if scriptIdx ?vm = 1 \<and> witnessProgram ?vm \<noteq> None then
          bindE (at_idx (TxIn (tx ?vm)) (txIdx ?vm)) (\<lambda>txIn.
          verifyWitnessProgram L (Witness txIn) (?vm\<lparr>scriptIdx := scriptIdx ?vm + 1\<rparr>))
        else Inr (?vm\<lparr>scriptIdx := scriptIdx ?vm + 1\<rparr>))"
  proof -
    have w: "okE Q (verifyWitnessProgram L w (?vm\<lparr>scriptIdx := scriptIdx vm + 1\<rparr>))" if "scriptIdx vm = 1" "\<forall>x \<in> set w. length x < 2 ^ 31" for w
    proof -
      have "okE (\<lambda>vm'. verifyWitnessProgram L w (?vm\<lparr>scriptIdx := scriptIdx vm + 1\<rparr>) = Inr vm' \<and>
          vm_ok M vm' \<and> program_frame (?vm\<lparr>scriptIdx := scriptIdx vm + 1\<rparr>) vm')
          (verifyWitnessProgram L w (?vm\<lparr>scriptIdx := scriptIdx vm + 1\<rparr>))"
        using verifyWitnessProgram_ok [OF assms(1) vm [of "scriptIdx vm + 1"] that(2)]
        by (cases "verifyWitnessProgram L w (?vm\<lparr>scriptIdx := scriptIdx vm + 1\<rparr>)") simp_all
      then show ?thesis
        by (rule okE_mono)
          (use len assms(3-9,11) that in \<open>auto simp: Q_def program_frame_def\<close>)
    qed
    then show ?thesis
      using vm_ok_txIdx [OF assms(2)] vm assms(3-9,11)
      by (auto intro!: okE_at_idx simp: Q_def wit_ok_def)
  qed
  have fin: "okE (step_post M vm0)
      (bindE (if scriptIdx vm' < int (length (scripts vm')) then
          bindE (at_idx (scripts vm') (scriptIdx vm')) (\<lambda>scr.
          Inr (if length scr = 0 then vm'\<lparr>scriptIdx := scriptIdx vm' + 1\<rparr> else vm'))
        else Inr vm') (\<lambda>vm.
      if scriptIdx vm \<ge> int (length (scripts vm)) then Inr (True, vm)
      else bindE (at_idx (scripts vm) (scriptIdx vm)) (\<lambda>scr.
        Inr (False, vm\<lparr>tokenizer := MakeScriptTokenizer (version vm) scr\<rparr>))))" if "Q vm'" for vm'
  proof -
    have v: "vm_ok M (vm'\<lparr>scriptIdx := k\<rparr>)" "vm_ok M (vm'\<lparr>tokenizer := t\<rparr>)" for k t
      using that by (auto simp: Q_def vm_ok_def env_ok_def)
    have v2: "vm_ok M (vm'\<lparr>scriptIdx := k, tokenizer := t\<rparr>)" for k t
      using that by (auto simp: Q_def vm_ok_def env_ok_def)
    show ?thesis
      using that assms(5,6,8,10)
      by (auto simp: Q_def step_post_def eng_ok_def v v2 work_def at_idx_ok not_le nat_less_iff)
  qed
  show ?thesis
    unfolding nextScript_def Let_def
    by (intro okE_if okE_script_err okE_bind [OF q] fin)
qed

lemma Next_parses:
  assumes "parses t"
  shows "(Done t \<and> Next t = Inr (False, t) \<and> t_err t = None) \<or>
         (\<exists>t' b. Next t = Inr (True, t') \<and> parses t' \<and> t_op t' = Some (opcodeArray b))"
proof (cases "Done t")
  case True
  then show ?thesis using parses_err [OF assms] by (simp add: Next_def)
next
  case False
  obtain t' where t': "Next t = Inr (True, t')" "parses t'" using parses_Next [OF assms False] by blast
  obtain p where "t_op t' = Some p" "p = opcodeArray (op_value p)"
    using Next_True [OF t'(1)] assms by (auto simp: parses_def)
  with t' show ?thesis by metis
qed

lemma Step_ok:
  assumes "lib_ok L" "eng_ok M vm"
  shows "okE (step_post M vm) (Step L vm)"
proof -
  note ok = assms(2) [unfolded eng_ok_def]
  have pc: "checkValidPC vm = Inr ()" using ok by (simp add: checkValidPC_def)
  have p: "parses (tokenizer vm)" using ok by blast
  consider (fin) "Next (tokenizer vm) = Inr (False, tokenizer vm)" "t_err (tokenizer vm) = None"
    | (tok) t b where "Next (tokenizer vm) = Inr (True, t)" "parses t" "t_op t = Some (opcodeArray b)"
    using Next_parses [OF p] by (elim disjE conjE exE) metis+
  then show ?thesis
  proof cases
    case fin
    then show ?thesis using pc by (simp add: Step_def Tok_Err_def)
  next
    case tok
    let ?vm = "vm\<lparr>tokenizer := t\<rparr>"
    have vm1: "vm_ok M ?vm" using ok by (simp add: vm_ok_def env_ok_def)
    have ft: "offsets_fit (tokenizer vm)" using p by (simp add: parses_def)
    note prog = Next_True_progress [OF tok(1) ft]
    have lo: "t_offset (tokenizer vm) < int (length (t_script (tokenizer vm)))"
      using prog Done_fits [OF ft] by auto
    have inv: "okE (step_post M vm)
        (if Depth (dstack vm2) + Depth (astack vm2) > MaxStackSize then script_err ErrStackOverflow
         else if stackByteSize (dstack vm2) + stackByteSize (astack vm2) > maxCombinedStackByteSize
         then script_err ErrStackOverflow
         else let vm3 = vm2\<lparr>opcodeIdx := opcodeIdx vm2 + 1\<rparr> in
           if Done (tokenizer vm3) then nextScript L vm3 else Inr (False, vm3))"
      if f: "exec_frame ?vm vm2" and b: "bounded M (dstack vm2)" "bounded M (astack vm2)" "env_ok vm2" for vm2
    proof -
      have l: "length (stk (dstack vm2)) \<le> 1000"
        if "\<not> Depth (dstack vm2) + Depth (astack vm2) > MaxStackSize"
        using that by (simp add: Depth_def MaxStackSize_def)
      have v3: "vm_ok M (vm2\<lparr>opcodeIdx := k\<rparr>)" if "length (stk (dstack vm2)) \<le> 1000" for k
        using b that by (simp add: vm_ok_def env_ok_def)
      show ?thesis
        using f ok tok(2) prog v3 l lo
        by (auto simp: Let_def exec_frame_def step_post_def eng_ok_def work_def
            intro!: nextScript_ok [OF assms(1)])
    qed
    show ?thesis
      using tok(1,3) pc
      by (simp add: Step_def Tok_Data_def)
        (rule okE_bind [OF executeOpcode_ok [OF assms(1) vm1 refl]], use inv in auto)
  qed
qed

end
