(* ===== verification/ArkadeScript.thy ===== *)
theory ArkadeScript
imports EngineInv
begin

text \<open>Model of pkg/arkade/script.go and of the key tweaks of tweak.go: reading an arkade script
from a PSBT input and a packet entry, and executing it against a transaction.\<close>

subsection \<open>Key tweaks\<close>

text \<open>The order of secp256k1; ModNScalar arithmetic is arithmetic modulo it.\<close>

definition SECP_N :: nat where
  "SECP_N = 0xfffffffffffffffffffffffffffffffebaaedce6af48a03bbfd25e8cd0364141"

definition ComputeArkadeScriptPublicKey :: "lib \<Rightarrow> point \<Rightarrow> bytes \<Rightarrow> point option res" where
  "ComputeArkadeScriptPublicKey L pubKey scriptHash =
     (let tweakKey = fst (modn_SetByteSlice L scriptHash) in
      if tweakKey = 0 then Inr None
      else (case schnorr_ParsePubKey L (schnorr_SerializePubKey L pubKey) of
          Inl _ \<Rightarrow> panic
        | Inr pubKey \<Rightarrow>
            let result = AddNonConst L pubKey (ScalarBaseMult L tweakKey) in
            Inr (if isInfinity result then None else Some result)))"

definition PubKeyFormatCompressedOdd :: byte where "PubKeyFormatCompressedOdd = 0x03"

definition ComputeArkadeScriptPrivateKey :: "lib \<Rightarrow> nat \<Rightarrow> bytes \<Rightarrow> nat option" where
  "ComputeArkadeScriptPrivateKey L privKey scriptHash =
     (let pubKeyBytes = SerializeCompressed L (ScalarBaseMult L privKey);
        privKeyScalar = (if pubKeyBytes ! 0 = PubKeyFormatCompressedOdd then (SECP_N - privKey) mod SECP_N else privKey);
        tweakScalar = fst (modn_SetByteSlice L scriptHash) in
      if tweakScalar = 0 then None
      else let tweakScalar = (tweakScalar + privKeyScalar) mod SECP_N in
      if tweakScalar = 0 then None else Some tweakScalar)"

subsection \<open>Reading a script\<close>

record tapLeafScript =
  ControlBlock :: bytes
  tls_Script :: bytes
  tls_LeafVersion :: byte

record ArkadeScript =
  as_script :: bytes
  as_hash :: bytes
  as_witness :: "bytes list"
  as_pubkey :: point
  spendingTapLeaf :: tapLeaf
  closurePubkeys :: "point list"
  packetBound :: bool
  packetVin :: "16 word"

definition VerifyTaprootLeafCommitment :: "lib \<Rightarrow> bytes \<Rightarrow> tapLeafScript \<Rightarrow> unit res" where
  "VerifyTaprootLeafCommitment L pkScript leaf =
     (if \<not> IsPayToTaproot L pkScript then go_err ''prevout script is not a taproot output''
      else bindE (cb_Parse L (ControlBlock leaf)) (\<lambda>controlBlock.
      if fst controlBlock \<noteq> tls_LeafVersion leaf
      then go_err ''control block leaf version does not match tapscript leaf version''
      else bindE (slice pkScript 2 (int (length pkScript))) (\<lambda>program.
        tap_VerifyLeafCommitment L controlBlock program (tls_Script leaf))))"

fun closure_keys :: "closure \<Rightarrow> point list option" where
  "closure_keys (MultisigClosure ks) = Some ks"
| "closure_keys (CSVMultisigClosure ks) = Some ks"
| "closure_keys (CLTVMultisigClosure ks) = Some ks"
| "closure_keys (ConditionMultisigClosure ks) = Some ks"
| "closure_keys (ConditionCSVMultisigClosure ks) = Some ks"
| "closure_keys OtherClosure = None"

text \<open>A PSBT input is the list of its taproot leaf scripts (nil ones are None); serialising a
nil key panics.\<close>

definition ReadArkadeScript :: "lib \<Rightarrow> tapLeafScript option list list \<Rightarrow> point \<Rightarrow> emulatorEntry \<Rightarrow> ArkadeScript res" where
  "ReadArkadeScript L inputs signerPublicKey entry =
     (let inputIndex = unat (Vin entry) in
      if length inputs \<le> inputIndex then go_err ''input index out of range''
      else let leaves = inputs ! inputIndex in
      if length leaves = 0 then go_err ''input does not specify any TaprootLeafScript''
      else (case leaves ! 0 of None \<Rightarrow> go_err ''input does not specify any TaprootLeafScript''
      | Some leaf \<Rightarrow>
        if tls_LeafVersion leaf \<noteq> BaseLeafVersion then go_err ''unsupported taproot leaf version''
        else let scriptHash = ArkadeScriptHash L (ent_Script entry) in
        bindE (ComputeArkadeScriptPublicKey L signerPublicKey scriptHash) (\<lambda>expected.
        case expected of None \<Rightarrow> panic
        | Some expectedPublicKey \<Rightarrow>
        let expectedXonly = schnorr_SerializePubKey L expectedPublicKey in
        bindE (DecodeClosure L (tls_Script leaf)) (\<lambda>closure.
        case closure_keys closure of None \<Rightarrow> go_err ''unsupported closure type''
        | Some pubkeys \<Rightarrow>
        if \<not> list_ex (\<lambda>pubkey. schnorr_SerializePubKey L pubkey = expectedXonly) pubkeys
        then go_err ''tweaked arkade script public key not found''
        else Inr \<lparr>as_script = ent_Script entry, as_hash = scriptHash, as_witness = ent_Witness entry,
                  as_pubkey = expectedPublicKey,
                  spendingTapLeaf = \<lparr>LeafVersion = tls_LeafVersion leaf, leaf_Script = tls_Script leaf\<rparr>,
                  closurePubkeys = pubkeys, packetBound = True, packetVin = Vin entry\<rparr>))))"

subsection \<open>Executing a script\<close>

text \<open>The options that change the engine.  A nil table is None.\<close>

datatype ExecuteOption =
    WithComputeLimits "ComputeLimits option"
  | WithExactComputeLimits "ComputeLimits option"
  | WithComputeBudget "computeBudget option"

fun apply_option :: "ExecuteOption \<Rightarrow> vm \<Rightarrow> vm" where
  "apply_option (WithComputeLimits None) vm = vm"
| "apply_option (WithComputeLimits (Some c)) vm = vm\<lparr>limits := DefaultComputeLimits ++ c\<rparr>"
| "apply_option (WithExactComputeLimits None) vm = vm"
| "apply_option (WithExactComputeLimits (Some c)) vm = vm\<lparr>limits := cloneComputeLimits c\<rparr>"
| "apply_option (WithComputeBudget b) vm = vm\<lparr>budget := b\<rparr>"

definition packetContainsExactEntry :: "emulatorEntry list \<Rightarrow> 16 word \<Rightarrow> bytes \<Rightarrow> bytes list \<Rightarrow> bool" where
  "packetContainsExactEntry packet vin scr witness =
     list_ex (\<lambda>entry. \<not> (Vin entry \<noteq> vin \<or> ent_Script entry \<noteq> scr \<or> length (ent_Witness entry) \<noteq> length witness) \<and>
       list_all (\<lambda>i. ent_Witness entry ! i = witness ! i) [0..<length witness]) packet"

definition check_prevouts :: "fetcher \<Rightarrow> txin list \<Rightarrow> unit res" where
  "check_prevouts f ins =
     foldl (\<lambda>r txIn. bindE r (\<lambda>_.
       case FetchPrevOutput f (PreviousOutPoint txIn) of None \<Rightarrow> go_err ''no prevout found for input''
       | Some prevOut \<Rightarrow>
           if out_value prevOut <s 0 \<or> sint (out_value prevOut) > MaxSatoshi
           then go_err ''prevout value out of range for input'' else Inr ())) (Inr ()) ins"

text \<open>The engine that Execute runs, once every check before the run has passed.\<close>

definition prepare_engine :: "lib \<Rightarrow> ArkadeScript \<Rightarrow> msgtx \<Rightarrow> fetcher \<Rightarrow> int \<Rightarrow> ExecuteOption list \<Rightarrow> vm res" where
  "prepare_engine L s spendingTx f inputIndex opts =
     bindE (at_idx (TxIn spendingTx) inputIndex) (\<lambda>txIn.
     bindE (case FetchPrevOutput f (PreviousOutPoint txIn) of None \<Rightarrow> panic | Some o' \<Rightarrow> Inr (out_value o')) (\<lambda>inputAmount.
     bindE (NewEngine L (as_script s) spendingTx inputIndex (Some []) (NewTxSigHashes L spendingTx f)
              inputAmount (Some f)) (\<lambda>engine.
     let engine = engine\<lparr>taprootCtx := Some (newTaprootExecutionCtxForLeaf L (spendingTapLeaf s))\<rparr>;
       engine = foldl (\<lambda>e opt. apply_option opt e) engine opts in
     bindE (NewExtensionFromTx L spendingTx) (\<lambda>ext.
     let engine = (case ext of None \<Rightarrow> engine
       | Some e \<Rightarrow> (case GetAssetPacket L e of None \<Rightarrow> engine | Some ap \<Rightarrow> SetAssetPacket (Some ap) engine)) in
     bindE (FindEmulatorPacket L spendingTx) (\<lambda>packet.
     if packetBound s \<and> (uint (packetVin s) \<noteq> inputIndex \<or>
          \<not> packetContainsExactEntry (case packet of None \<Rightarrow> [] | Some p \<Rightarrow> p) (packetVin s) (as_script s) (as_witness s))
     then go_err ''arkade script does not match transaction packet entry''
     else let engine = (case packet of None \<Rightarrow> engine | Some p \<Rightarrow> SetEmulatorPacket (Some p) engine) in
       Inr (if length (as_witness s) > 0 then SetStack (as_witness s) engine else engine))))))"

definition ArkadeScript_Execute ::
  "lib \<Rightarrow> ArkadeScript \<Rightarrow> msgtx option \<Rightarrow> fetcher option \<Rightarrow> int \<Rightarrow> ExecuteOption list \<Rightarrow> vm res option" where
  "ArkadeScript_Execute L s spendingTx prevOuts inputIndex opts =
     (case spendingTx of None \<Rightarrow> Some (go_err ''spending transaction is required'')
      | Some t \<Rightarrow>
        if inputIndex < 0 \<or> inputIndex \<ge> int (length (TxIn t)) then Some (go_err ''input index out of range'')
        else (case prevOuts of None \<Rightarrow> Some (go_err ''prevout fetcher is required'')
        | Some f \<Rightarrow>
          (case bindE (check_prevouts f (TxIn t)) (\<lambda>_. prepare_engine L s t f inputIndex opts) of
             Inl e \<Rightarrow> Some (Inl e)
           | Inr engine \<Rightarrow> Execute L engine)))"

subsection \<open>Runs end, without a panic\<close>

lemma run_steps_total:
  assumes "lib_ok L" "eng_ok M vm"
  shows "\<exists>r. run_steps L vm = Some r \<and> okE (\<lambda>vm'. vm_ok M vm' \<and> length (stk (dstack vm')) \<le> 1000) r"
  using assms(2)
proof (induction "work vm" arbitrary: vm rule: wf_induct_rule [OF wf_lex_prod [OF wf_less_than wf_less_than]])
  case (1 vm)
  note st = Step_ok [OF assms(1) 1(2)]
  show ?case
  proof (cases "Step L vm")
    case (Inl e)
    with st show ?thesis by (simp add: run_steps.simps [of L vm])
  next
    case (Inr r)
    obtain fin vm' where r: "r = (fin, vm')" by (cases r)
    show ?thesis
    proof (cases fin)
      case True
      with st Inr r show ?thesis by (simp add: run_steps.simps [of L vm] step_post_def)
    next
      case False
      then have "eng_ok M vm'" "less_work vm' vm" using st Inr r by (simp_all add: step_post_def)
      with 1(1) [of vm'] False Inr r show ?thesis by (simp add: run_steps.simps [of L vm])
    qed
  qed
qed

lemma CheckErrorCondition_ok:
  "vm_ok M vm \<Longrightarrow> okE (\<lambda>_. True) (CheckErrorCondition b vm)"
  using vm_ok_bounded(1) [of M vm]
  by (auto simp: CheckErrorCondition_def intro!: okE_rules okE_if)

lemma Execute_total:
  assumes "lib_ok L" "eng_ok M vm"
  shows "\<exists>r. Execute L vm = Some r \<and> r \<noteq> Inl Panic"
proof -
  obtain r where r: "run_steps L vm = Some r" "okE (\<lambda>vm'. vm_ok M vm' \<and> length (stk (dstack vm')) \<le> 1000) r"
    using run_steps_total [OF assms] by blast
  have "okE (\<lambda>_. True) (bindE r (CheckErrorCondition True))"
    by (rule okE_bind [OF r(2)]) (use CheckErrorCondition_ok in blast)
  with r(1) assms(2) show ?thesis by (auto simp: Execute_def eng_ok_def dest: okE_not_panic)
qed

subsection \<open>A new engine\<close>

text \<open>What the caller has to know of a transaction: it has fewer than 2 ^ 31 inputs and outputs, each
of its witness items has fewer than 2 ^ 31 bytes, and its outpoint hashes have 32 bytes.\<close>

definition tx_ok :: "msgtx \<Rightarrow> bool" where
  "tx_ok t \<longleftrightarrow> length (TxIn t) < 2 ^ 31 \<and> length (TxOut t) < 2 ^ 31 \<and>
     (\<forall>i \<in> set (TxIn t). length (op_hash (PreviousOutPoint i)) = 32) \<and> wit_ok t"

lemma NewEngine_ok:
  assumes "lib_ok L" "tx_ok t" "520 \<le> M" "M < 2 ^ 31"
  shows "okE (\<lambda>vm. eng_ok M vm \<and> dstack vm = \<lparr>stk = [], verifyMinimalData = True\<rparr> \<and> assetPacket vm = None \<and>
           tx vm = t \<and> txIdx vm = idx) (NewEngine L pk t idx c h a (Some f))"
proof -
  have p: "okE (\<lambda>(v, p). 0 \<le> v \<and> v \<le> 16 \<and> length p \<le> 40) (ExtractWitnessProgramInfo L pk)"
    using assms(1) by (simp only: lib_ok_def)
  have w: "okE (\<lambda>_. True) (ExtractWitnessProgramInfo L pk)"
    by (rule okE_mono [OF p]) simp
  have fin: "eng_ok M \<lparr>tx = t, txIdx = idx, version = 0, sigCache = c, hashCache = h,
           prevOutFetcher = Some f, assetPacket = None, emulatorPacket = None,
           scripts = [sg, pk], scriptIdx = k, opcodeIdx = 0,
           tokenizer = MakeScriptTokenizer 0 s,
           dstack = \<lparr>stk = [], verifyMinimalData = True\<rparr>, astack = \<lparr>stk = [], verifyMinimalData = True\<rparr>,
           condStack = [], witnessVersion = v, witnessProgram = p,
           inputAmount = a, taprootCtx = None, limits = DefaultComputeLimits, budget = None\<rparr>"
    if "\<not> (idx < 0 \<or> idx \<ge> int (length (TxIn t)))" "parses (MakeScriptTokenizer 0 sg)"
      "parses (MakeScriptTokenizer 0 pk)" "k = 0 \<and> s = sg \<or> k = 1 \<and> s = pk" for sg v p k s
    using that assms(2-4)
    by (auto simp: eng_ok_def vm_ok_def env_ok_def bounded_def tx_ok_def not_less not_le)
  have wit: "okE (\<lambda>_. True) (if IsWitnessProgram L pk then
          (if length sg \<noteq> 0 then script_err ErrWitnessMalleated
           else bindE (ExtractWitnessProgramInfo L pk) (\<lambda>(v, p). Inr (v, Some p)))
        else if length wi \<noteq> 0 then script_err ErrWitnessUnexpected
        else Inr (0, None))" for sg :: bytes and wi :: "bytes list"
    by (intro okE_if okE_script_err okE_seq [OF w]) (simp_all split: prod.split)
  show ?thesis
    unfolding NewEngine_def Let_def
    by (intro okE_if okE_script_err okE_bind [OF okE_checkScriptParses] okE_bind [OF wit])
      (auto intro!: fin simp: MaxScriptSize_def split: prod.split)
qed

subsection \<open>Executing an arkade script\<close>

text \<open>The library parser only returns asset packets that fit in memory.\<close>

definition assets_ok :: "lib \<Rightarrow> bool" where
  "assets_ok L \<longleftrightarrow> (\<forall>e ap. GetAssetPacket L e = Some ap \<longrightarrow> packet_ok ap)"

definition witness_fits :: "nat \<Rightarrow> ArkadeScript \<Rightarrow> bool" where
  "witness_fits M s \<longleftrightarrow> 520 \<le> M \<and> M < 2 ^ 31 \<and> length (as_witness s) < 2 ^ 31 \<and>
     (\<forall>w \<in> set (as_witness s). length w \<le> M)"

lemma okE_FindEmulatorPacket: "lib_ok L \<Longrightarrow> okE (\<lambda>_. True) (FindEmulatorPacket L t)"
proof -
  assume L: "lib_ok L"
  have "okE (\<lambda>_. True) (find_packet L t e)" for e
  proof (induction e)
    case (Cons pkt e)
    then show ?case by (cases pkt) (auto intro!: okE_seq [OF okE_Deserialize [OF L]])
  qed simp
  then show ?thesis
    by (auto simp: FindEmulatorPacket_def intro!: okE_seq [OF okE_lib(4) [OF L]] split: option.split)
qed

lemma foldl_bindE_Inl: "foldl (\<lambda>r x. bindE r (\<lambda>_. g x)) (Inl e) xs = Inl e"
  by (induction xs) simp_all

lemma check_prevouts_iff:
  "check_prevouts f ins = Inr () \<longleftrightarrow> (\<forall>i \<in> set ins. \<exists>p. FetchPrevOutput f (PreviousOutPoint i) = Some p \<and>
      0 \<le> sint (out_value p) \<and> sint (out_value p) \<le> MaxSatoshi)"
proof (induction ins)
  case (Cons i ins)
  then show ?case
    by (auto simp: check_prevouts_def foldl_bindE_Inl word_sless_alt split: option.splits)
qed (simp add: check_prevouts_def)

lemma okE_check_prevouts: "okE (\<lambda>_. True) (check_prevouts f ins)"
proof -
  have step: "okE (\<lambda>_. True) (case FetchPrevOutput f (PreviousOutPoint i) of None \<Rightarrow> go_err ''no prevout found for input''
       | Some prevOut \<Rightarrow>
           if out_value prevOut <s 0 \<or> sint (out_value prevOut) > MaxSatoshi
           then go_err ''prevout value out of range for input'' else Inr ())" for i
    by (auto split: option.split)
  have "okE (\<lambda>_. True) r \<Longrightarrow> okE (\<lambda>_. True) (foldl (\<lambda>r txIn. bindE r (\<lambda>_.
       case FetchPrevOutput f (PreviousOutPoint txIn) of None \<Rightarrow> go_err ''no prevout found for input''
       | Some prevOut \<Rightarrow>
           if out_value prevOut <s 0 \<or> sint (out_value prevOut) > MaxSatoshi
           then go_err ''prevout value out of range for input'' else Inr ())) r ins)" for r
  proof (induction ins arbitrary: r)
    case (Cons i ins)
    show ?case unfolding foldl_Cons by (rule Cons.IH) (rule okE_seq [OF Cons.prems step])
  qed simp
  then show ?thesis by (simp add: check_prevouts_def)
qed

lemma eng_ok_fields:
  assumes "eng_ok M vm"
  shows "eng_ok M (vm\<lparr>taprootCtx := c\<rparr>)" "eng_ok M (vm\<lparr>limits := l\<rparr>)" "eng_ok M (vm\<lparr>budget := b\<rparr>)"
    "packet_ok ap \<Longrightarrow> eng_ok M (SetAssetPacket (Some ap) vm)" "eng_ok M (SetEmulatorPacket ep vm)"
    "\<lbrakk>length w < 2 ^ 31; \<forall>x \<in> set w. length x \<le> M\<rbrakk> \<Longrightarrow> eng_ok M (SetStack w vm)"
  using assms
  by (auto simp: eng_ok_def vm_ok_def env_ok_def SetAssetPacket_def SetEmulatorPacket_def SetStack_def
      setStack_eq bounded_def)

lemma eng_ok_options: "eng_ok M vm \<Longrightarrow> eng_ok M (foldl (\<lambda>e opt. apply_option opt e) vm opts)"
proof (induction opts arbitrary: vm)
  case (Cons opt opts)
  have "eng_ok M (apply_option opt vm)"
    using eng_ok_fields [OF Cons.prems] Cons.prems by (cases "(opt, vm)" rule: apply_option.cases) auto
  then show ?case by (simp add: Cons.IH)
qed simp

lemma prepare_engine_ok:
  assumes "lib_ok L" "assets_ok L" "tx_ok t" "witness_fits M s"
    and "0 \<le> idx" "idx < int (length (TxIn t))" "check_prevouts f (TxIn t) = Inr ()"
  shows "okE (eng_ok M) (prepare_engine L s t f idx opts)"
proof -
  have p: "\<exists>p. FetchPrevOutput f (PreviousOutPoint i) = Some p" if "i \<in> set (TxIn t)" for i
    using assms(7) that unfolding check_prevouts_iff by blast
  have M: "520 \<le> M" "M < 2 ^ 31" using assms(4) by (simp_all add: witness_fits_def)
  have ap: "packet_ok ap" if "GetAssetPacket L e = Some ap" for e ap
    using assms(2) that by (auto simp: assets_ok_def)
  note ne = NewEngine_ok [OF assms(1,3) M]
  show ?thesis
    unfolding prepare_engine_def Let_def
    using assms(4-6) p
    by (auto simp: witness_fits_def eng_ok_options eng_ok_fields ap split: option.split
        intro!: okE_at_idx okE_bind [OF ne] okE_seq [OF okE_lib(4) [OF assms(1)]]
          okE_seq [OF okE_FindEmulatorPacket [OF assms(1)]] eng_ok_fields(5,6) eng_ok_fields(4) eng_ok_options eng_ok_fields(1))
qed

end
