(* ===== verification/VaultScript.thy ===== *)
theory VaultScript
imports ArkadeScript
begin

text \<open>Model of poc/2fa-vault/internal/vault/policy.go and script.go: the transaction-local
policy of a vault and the arkade script that commits to it.  txscript.ScriptBuilder, the P-256
point codec and the ark-lib extension codec are library code: the builder is handed the list of
the calls made on it.\<close>

subsection \<open>The policy\<close>

record AuthorizationPolicy =
  RecipientDustSats :: int64
  RecipientCapSats :: int64
  AbsoluteFeeCeilingSats :: int64
  FeerateCeilingSatPerV :: int64

definition policy_validate :: "AuthorizationPolicy \<Rightarrow> unit res" where
  "policy_validate p =
     (if RecipientDustSats p \<le>s 0 then go_err ''recipient dust policy must be positive''
      else if RecipientCapSats p <s RecipientDustSats p then go_err ''recipient cap must meet the dust policy''
      else if AbsoluteFeeCeilingSats p <s 0 then go_err ''absolute fee ceiling must be non-negative''
      else if FeerateCeilingSatPerV p \<le>s 0 then go_err ''feerate ceiling must be positive''
      else Inr ())"

subsection \<open>The script builder\<close>

text \<open>The calls AddOp, AddInt64 and AddData of a txscript.ScriptBuilder; Script assembles them.\<close>

datatype sb_call = AddOp byte | AddInt64 int64 | AddData bytes

record vault_lib =
  sb_Script :: "sb_call list \<Rightarrow> bytes res"
  p256_MarshalCompressed :: "point \<Rightarrow> bytes"

definition RoutineWitnessBytes :: int64 where "RoutineWitnessBytes = 399"


text \<open>The parts of the chain of calls of buildAuthorizationScript, in its order.\<close>

definition shape_calls :: "sb_call list" where
  "shape_calls =
     [AddOp OP_INSPECTVERSION, AddInt64 2, AddOp OP_EQUALVERIFY,
      AddOp OP_INSPECTLOCKTIME, AddInt64 0, AddOp OP_EQUALVERIFY,
      AddOp OP_INSPECTNUMINPUTS, AddInt64 1, AddOp OP_EQUALVERIFY,
      AddInt64 0, AddOp OP_INSPECTINPUTSEQUENCE, AddInt64 (ucast MaxTxInSequenceNum), AddOp OP_EQUALVERIFY]"

definition recipient_calls :: "AuthorizationPolicy \<Rightarrow> sb_call list" where
  "recipient_calls policy =
     [AddInt64 0, AddOp OP_INSPECTOUTPUTVALUE, AddInt64 (RecipientDustSats policy),
      AddOp OP_GREATERTHANOREQUAL, AddOp OP_VERIFY,
      AddInt64 0, AddOp OP_INSPECTOUTPUTVALUE, AddInt64 (RecipientCapSats policy),
      AddOp OP_LESSTHANOREQUAL, AddOp OP_VERIFY,
      AddInt64 0, AddOp OP_INSPECTOUTPUTSCRIPTPUBKEY, AddInt64 0, AddOp OP_GREATERTHANOREQUAL,
      AddOp OP_VERIFY, AddOp OP_DROP]"

definition change_calls :: "AuthorizationPolicy \<Rightarrow> sb_call list" where
  "change_calls policy =
     [AddOp OP_INSPECTNUMOUTPUTS, AddInt64 3, AddOp OP_EQUALVERIFY,
      AddInt64 1, AddOp OP_INSPECTOUTPUTVALUE, AddInt64 (RecipientDustSats policy),
      AddOp OP_GREATERTHANOREQUAL, AddOp OP_VERIFY,
      AddInt64 1, AddOp OP_INSPECTOUTPUTSCRIPTPUBKEY, AddInt64 1, AddOp OP_EQUALVERIFY,
      AddOp OP_PUSHCURRENTINPUTINDEX, AddOp OP_INSPECTINPUTSCRIPTPUBKEY, AddInt64 1,
      AddOp OP_EQUALVERIFY, AddOp OP_EQUALVERIFY]"

definition packet_calls :: "bytes \<Rightarrow> sb_call list" where
  "packet_calls packetOutputPrefix =
     [AddInt64 2, AddOp OP_INSPECTOUTPUTVALUE, AddInt64 0, AddOp OP_EQUALVERIFY,
      AddInt64 (ucast PacketType), AddOp OP_INSPECTPACKET, AddOp OP_VERIFY,
      AddData packetOutputPrefix, AddOp OP_SWAP, AddOp OP_CAT, AddOp OP_SHA256,
      AddInt64 2, AddOp OP_INSPECTOUTPUTSCRIPTPUBKEY, AddInt64 (-1),
      AddOp OP_EQUALVERIFY, AddOp OP_EQUALVERIFY]"

definition fee_calls :: "AuthorizationPolicy \<Rightarrow> sb_call list" where
  "fee_calls policy =
     [AddInt64 0, AddOp OP_INSPECTINPUTVALUE, AddInt64 0, AddOp OP_INSPECTOUTPUTVALUE, AddOp OP_SUB,
      AddInt64 1, AddOp OP_INSPECTOUTPUTVALUE, AddOp OP_SUB,
      AddOp OP_DUP, AddInt64 0, AddOp OP_GREATERTHANOREQUAL, AddOp OP_VERIFY,
      AddOp OP_DUP, AddInt64 (AbsoluteFeeCeilingSats policy), AddOp OP_LESSTHANOREQUAL, AddOp OP_VERIFY,
      AddOp OP_DUP, AddOp OP_TXWEIGHT, AddInt64 RoutineWitnessBytes, AddOp OP_ADD,
      AddInt64 3, AddOp OP_ADD, AddInt64 4, AddOp OP_DIV,
      AddInt64 (FeerateCeilingSatPerV policy), AddOp OP_MUL, AddOp OP_LESSTHANOREQUAL, AddOp OP_VERIFY,
      AddOp OP_DROP]"

definition signature_calls :: "bytes \<Rightarrow> sb_call list" where
  "signature_calls key = [AddOp OP_0, AddOp OP_SIGHASH, AddData key, AddOp OP_CHECKSIGFROMSTACK]"

definition buildAuthorizationScript :: "vault_lib \<Rightarrow> bytes \<Rightarrow> AuthorizationPolicy \<Rightarrow> bytes \<Rightarrow> bytes res" where
  "buildAuthorizationScript V compressedDirectP256 policy packetOutputPrefix =
     (let key = 0x11 # compressedDirectP256 in
      sb_Script V (shape_calls @ recipient_calls policy @ change_calls policy @
        packet_calls packetOutputPrefix @ fee_calls policy @ signature_calls key))"

text \<open>An arkade packet goes into the extension as a packet of type PacketType whose
serialisation is its content.\<close>

definition exactPacketOutputPrefix :: "lib \<Rightarrow> int \<Rightarrow> bytes res" where
  "exactPacketOutputPrefix L authScriptLen =
     (if authScriptLen \<le> 0 then go_err ''authorization script length required''
      else bindE (NewPacket [\<lparr>Vin = 0, ent_Script = replicate (nat authScriptLen) 0, ent_Witness = [replicate 64 0]\<rparr>]) (\<lambda>packet.
      bindE (Packet_Serialize L packet) (\<lambda>content.
      bindE (ext_Serialize L [UnknownPacket PacketType content]) (\<lambda>outputScript.
      if length outputScript \<le> length content \<or>
         drop (length outputScript - length content) outputScript \<noteq> content
      then go_err ''canonical packet output envelope''
      else Inr (take (length outputScript - length content) outputScript)))))"

definition parseCanonicalCompressedP256 :: "lib \<Rightarrow> vault_lib \<Rightarrow> bytes \<Rightarrow> unit res" where
  "parseCanonicalCompressedP256 L V compressed =
     (if length compressed \<noteq> 33 then go_err ''compressed p256 key must be 33 bytes''
      else if compressed ! 0 \<noteq> 0x02 \<and> compressed ! 0 \<noteq> 0x03 then go_err ''direct p256 compressed prefix''
      else (case p256_UnmarshalCompressed L compressed of
          None \<Rightarrow> go_err ''direct p256 point is off-curve''
        | Some q \<Rightarrow> if p256_MarshalCompressed V q \<noteq> compressed
            then go_err ''direct p256 compressed encoding is not canonical'' else Inr ()))"

text \<open>The loop of AuthorizationScript, with the iterations left.\<close>

fun authorization_loop :: "lib \<Rightarrow> vault_lib \<Rightarrow> bytes \<Rightarrow> AuthorizationPolicy \<Rightarrow> nat \<Rightarrow> bytes \<Rightarrow> bytes res" where
  "authorization_loop L V key policy 0 packetOutputPrefix =
     go_err ''authorization script packet envelope did not converge''"
| "authorization_loop L V key policy (Suc n) packetOutputPrefix =
     bindE (buildAuthorizationScript V key policy packetOutputPrefix) (\<lambda>s.
     bindE (exactPacketOutputPrefix L (int (length s))) (\<lambda>next.
     if next = packetOutputPrefix then Inr s else authorization_loop L V key policy n next))"

definition AuthorizationScript :: "lib \<Rightarrow> vault_lib \<Rightarrow> bytes \<Rightarrow> AuthorizationPolicy \<Rightarrow> bytes res" where
  "AuthorizationScript L V compressedDirectP256 policy =
     bindE (parseCanonicalCompressedP256 L V compressedDirectP256) (\<lambda>_.
     bindE (policy_validate policy) (\<lambda>_.
     authorization_loop L V compressedDirectP256 policy 8 []))"

subsection \<open>The fixed point\<close>

lemma authorization_loop_fixed:
  "authorization_loop L V key policy n p0 = Inr s \<Longrightarrow>
   \<exists>pre. buildAuthorizationScript V key policy pre = Inr s \<and> exactPacketOutputPrefix L (int (length s)) = Inr pre"
  by (induction n arbitrary: p0) (auto simp: bindE_Inr_iff split: if_splits)

lemma AuthorizationScript_fixed:
  assumes "AuthorizationScript L V key policy = Inr s"
  obtains pre where "buildAuthorizationScript V key policy pre = Inr s"
    "exactPacketOutputPrefix L (int (length s)) = Inr pre" "policy_validate policy = Inr ()"
    "parseCanonicalCompressedP256 L V key = Inr ()"
  using assms by (auto simp: AuthorizationScript_def bindE_Inr_iff dest: authorization_loop_fixed)

lemma policy_validate_iff:
  "policy_validate p = Inr () \<longleftrightarrow> 0 < sint (RecipientDustSats p) \<and>
     sint (RecipientDustSats p) \<le> sint (RecipientCapSats p) \<and> 0 \<le> sint (AbsoluteFeeCeilingSats p) \<and>
     0 < sint (FeerateCeilingSatPerV p)"
  by (auto simp: policy_validate_def word_sless_alt word_sle_eq)

subsection \<open>The documented encoding of the builder\<close>

text \<open>txscript.ScriptBuilder: an opcode is its byte, data is pushed by the canonical opcode, and an
integer is the small-integer opcode where there is one and the push of its minimal script
number otherwise.\<close>

definition push_encode :: "bytes \<Rightarrow> bytes" where
  "push_encode d =
     (if d = [] \<or> d = [0] then [OP_0]
      else if length d = 1 \<and> unat (d ! 0) \<le> 16 then [OP_1 + d ! 0 - 1]
      else if d = [0x81] then [OP_1NEGATE]
      else if length d \<le> 75 then word_of_nat (length d) # d
      else if length d \<le> 255 then OP_PUSHDATA1 # word_of_nat (length d) # d
      else if length d \<le> 65535 then OP_PUSHDATA2 # le_fixed 2 (length d) @ d
      else OP_PUSHDATA4 # le_fixed 4 (length d) @ d)"

fun sb_encode :: "sb_call \<Rightarrow> bytes" where
  "sb_encode (AddOp b) = [b]"
| "sb_encode (AddInt64 n) =
     (if n = 0 then [OP_0] else if n = -1 \<or> 1 \<le> sint n \<and> sint n \<le> 16 then [OP_1 - 1 + word_of_int (sint n)]
      else push_encode (enc (sint n)))"
| "sb_encode (AddData d) = push_encode d"

definition builder_ok :: "vault_lib \<Rightarrow> bool" where
  "builder_ok V \<longleftrightarrow> (\<forall>calls s. sb_Script V calls = Inr s \<longrightarrow> s = concat (map sb_encode calls))"

text \<open>A concrete instance, for the witnesses.\<close>

definition ex_vault :: vault_lib where
  "ex_vault = \<lparr>sb_Script = (\<lambda>calls. Inr (concat (map sb_encode calls))),
     p256_MarshalCompressed = (\<lambda>q. 2 # le_fixed 32 (fst q))\<rparr>"

lemma ex_vault_simps [simp]:
  "sb_Script ex_vault calls = Inr (concat (map sb_encode calls))"
  "p256_MarshalCompressed ex_vault q = 2 # le_fixed 32 (fst q)"
  by (simp_all add: ex_vault_def)

lemma ex_builder_ok: "builder_ok ex_vault"
  by (simp add: builder_ok_def)

lemma ex_prefix: "ext_Serialize L = ex_ext_write \<Longrightarrow> 0 < n \<Longrightarrow> exactPacketOutputPrefix L n = Inr (ex_magic @ [PacketType])"
  by (simp add: exactPacketOutputPrefix_def NewPacket_def Validate_def MaxEntryCount_def Packet_Serialize_def ex_ext_write_def)

lemma ex_authorization:
  assumes "length key = 33" "key ! 0 = 2" "p256_UnmarshalCompressed L key = Some q"
    "2 # le_fixed 32 (fst q) = key" "policy_validate policy = Inr ()"
    "ext_Serialize L = ex_ext_write"
  shows "AuthorizationScript L ex_vault key policy =
    buildAuthorizationScript ex_vault key policy (ex_magic @ [PacketType])"
proof -
  have pos: "\<exists>s. buildAuthorizationScript ex_vault key policy p = Inr s \<and> 0 < int (length s)" for p
    by (simp add: buildAuthorizationScript_def shape_calls_def)
  obtain s where s: "buildAuthorizationScript ex_vault key policy [] = Inr s" "0 < int (length s)" using pos by blast
  obtain t where t: "buildAuthorizationScript ex_vault key policy (ex_magic @ [PacketType]) = Inr t" "0 < int (length t)"
    using pos by blast
  have n: "authorization_loop L ex_vault key policy (Suc n) p = bindE (buildAuthorizationScript ex_vault key policy p) (\<lambda>s.
     bindE (exactPacketOutputPrefix L (int (length s))) (\<lambda>next.
     if next = p then Inr s else authorization_loop L ex_vault key policy n next))" for n p by simp
  have "authorization_loop L ex_vault key policy (Suc (Suc 6)) [] = Inr t"
    unfolding n[of "Suc 6"] using s ex_prefix[OF assms(6) s(2)] n[of 6 "ex_magic @ [PacketType]"] t ex_prefix[OF assms(6) t(2)] by simp
  then have "authorization_loop L ex_vault key policy 8 [] = Inr t" by (simp only: numeral_eq_Suc) simp
  with assms t show ?thesis by (simp add: AuthorizationScript_def parseCanonicalCompressedP256_def)
qed

end
