(* ===== verification/VaultTree.thy ===== *)
theory VaultTree
imports VaultScript
begin

text \<open>Model of poc/2fa-vault/internal/vault/vault.go: the two taproot trees of a vault, built from
its record, and the check that no routine cosigner key appears in a tree.  A nil key is None.
The closure encoder, the taproot tree, its proofs and the address codec are ark-lib and btcd
code (the record tree_lib).\<close>

datatype Kind = Operational | Savings | OtherKind int

record relativeLocktime =
  lt_Type :: "64 word"
  lt_Value :: "32 word"

record tree_record =
  tr_Kind :: Kind
  PhoneRoutineBIP340 :: "point option"
  PhoneDirectP256 :: bytes
  ExternalOwnerWallet :: "point option"
  RecoveryKey :: "point option"
  VaultCosignerBase :: "point option"
  ArkadeCosignerBase :: "point option"
  CSV :: relativeLocktime
  tr_AuthorizationPolicy :: AuthorizationPolicy
  AuthScript :: bytes
  AuthScriptHash :: bytes
  tr_Network :: string

text \<open>The closures of ark-lib; those the trees do not use carry what else they hold as bytes.\<close>

datatype tree_closure =
    T_Multisig "point option list"
  | T_CSVMultisig "point option list" relativeLocktime
  | T_CLTVMultisig "point option list" bytes
  | T_ConditionMultisig "point option list" bytes
  | T_ConditionCSVMultisig "point option list" bytes
  | T_Other bytes

datatype chain_params = RegressionNetParams | MutinyNetSigNetParams

text \<open>TapTree and GetTaprootMerkleProof as functions of the closures of the tree.\<close>

record tree_lib =
  closure_Script :: "tree_closure \<Rightarrow> bytes res"
  tree_DecodeClosure :: "bytes \<Rightarrow> tree_closure res"
  TapTree :: "tree_closure list \<Rightarrow> point res"
  GetTaprootMerkleProof :: "tree_closure list \<Rightarrow> bytes \<Rightarrow> bytes res"
  P2TRScript :: "point \<Rightarrow> bytes res"
  NewAddressTaproot :: "bytes \<Rightarrow> chain_params \<Rightarrow> string res"

record leaf =
  leaf_Name :: string
  leaf_Closure :: tree_closure
  lf_Script :: bytes
  lf_ControlBlock :: bytes
  leaf_Hash :: bytes

record leaves =
  lv_Routine :: "leaf option"
  lv_Admin :: "leaf option"
  lv_Recovery :: "leaf option"

record built =
  bt_Record :: tree_record
  bt_Tree :: "tree_closure list"
  bt_TapKey :: point
  bt_PkScript :: bytes
  bt_Address :: string
  bt_Leaves :: leaves
  TweakedVaultCosigner :: "point option"
  TweakedArkadeCosigner :: "point option"

record operationalKeys =
  ok_PhoneRoutineBIP340 :: "point option"
  ok_PhoneDirectP256 :: bytes
  ok_ExternalOwnerWallet :: "point option"
  ok_RecoveryKey :: "point option"
  ok_VaultCosignerBase :: "point option"
  ok_ArkadeCosignerBase :: "point option"

subsection \<open>Keys\<close>

definition sameXOnlyKey :: "lib \<Rightarrow> point option \<Rightarrow> point option \<Rightarrow> bool" where
  "sameXOnlyKey L a b =
     (case (a, b) of (Some a, Some b) \<Rightarrow> schnorr_SerializePubKey L a = schnorr_SerializePubKey L b | _ \<Rightarrow> False)"

definition requireIndependentXOnly :: "lib \<Rightarrow> point option list \<Rightarrow> unit res" where
  "requireIndependentXOnly L keys =
     (if list_ex (\<lambda>i. list_ex (\<lambda>j. sameXOnlyKey L (keys ! i) (keys ! j)) [Suc i..<length keys]) [0..<length keys]
      then go_err ''secp256k1 key roles must be independent by x-only identity'' else Inr ())"

fun closurePubKeys :: "tree_closure \<Rightarrow> point option list" where
  "closurePubKeys (T_Multisig ks) = ks"
| "closurePubKeys (T_CSVMultisig ks _) = ks"
| "closurePubKeys (T_CLTVMultisig ks _) = ks"
| "closurePubKeys (T_ConditionMultisig ks _) = ks"
| "closurePubKeys (T_ConditionCSVMultisig ks _) = ks"
| "closurePubKeys (T_Other _) = []"

definition bytes_Contains :: "bytes \<Rightarrow> bytes \<Rightarrow> bool" where
  "bytes_Contains b sub = list_ex (\<lambda>i. take (length sub) (drop i b) = sub) [0..<Suc (length b)]"

definition closureContainsKey :: "lib \<Rightarrow> tree_lib \<Rightarrow> tree_closure \<Rightarrow> bytes \<Rightarrow> bool" where
  "closureContainsKey L T c want =
     (if length want = 0 then False
      else if (case closure_Script T c of Inl _ \<Rightarrow> False | Inr s \<Rightarrow> bytes_Contains s want) then True
      else list_ex (\<lambda>pub. case pub of None \<Rightarrow> False | Some k \<Rightarrow> schnorr_SerializePubKey L k = want) (closurePubKeys c))"

definition leafContainsKey :: "lib \<Rightarrow> tree_lib \<Rightarrow> leaf option \<Rightarrow> bytes \<Rightarrow> bool" where
  "leafContainsKey L T lf want =
     (case lf of None \<Rightarrow> False
      | Some lf \<Rightarrow>
          if length want = 0 then False
          else if bytes_Contains (lf_Script lf) want then True
          else if (case tree_DecodeClosure T (lf_Script lf) of Inl _ \<Rightarrow> False | Inr c \<Rightarrow> closureContainsKey L T c want)
          then True
          else closureContainsKey L T (leaf_Closure lf) want)"

definition ContainsKey :: "lib \<Rightarrow> tree_lib \<Rightarrow> built option \<Rightarrow> point option \<Rightarrow> bool" where
  "ContainsKey L T b pub =
     (case (b, pub) of (Some b, Some pub) \<Rightarrow>
        let want = schnorr_SerializePubKey L pub; lv = bt_Leaves b in
        list_ex (\<lambda>lf. leafContainsKey L T lf want) [lv_Routine lv, lv_Admin lv, lv_Recovery lv] \<or>
        list_ex (\<lambda>c. closureContainsKey L T c want) (bt_Tree b)
      | _ \<Rightarrow> False)"

definition ContainsTweakedVaultCosigner :: "lib \<Rightarrow> tree_lib \<Rightarrow> built option \<Rightarrow> bool" where
  "ContainsTweakedVaultCosigner L T b =
     (case b of None \<Rightarrow> False | Some v \<Rightarrow> ContainsKey L T b (TweakedVaultCosigner v))"

definition ContainsTweakedArkadeCosigner :: "lib \<Rightarrow> tree_lib \<Rightarrow> built option \<Rightarrow> bool" where
  "ContainsTweakedArkadeCosigner L T b =
     (case b of None \<Rightarrow> False | Some v \<Rightarrow> ContainsKey L T b (TweakedArkadeCosigner v))"

fun exclude_keys :: "lib \<Rightarrow> tree_lib \<Rightarrow> built option \<Rightarrow> point option list \<Rightarrow> unit res" where
  "exclude_keys L T b [] = Inr ()"
| "exclude_keys L T b (pub # keys) =
     (if pub = None then go_err ''routine-cosigner exclusion key must not be nil''
      else if ContainsKey L T b pub then go_err ''routine cosigner key present in vault leaf''
      else exclude_keys L T b keys)"

definition AssertNoRoutineCosigners :: "lib \<Rightarrow> tree_lib \<Rightarrow> built option \<Rightarrow> point option list \<Rightarrow> unit res" where
  "AssertNoRoutineCosigners L T b forbidden =
     (if length forbidden = 0 then go_err ''routine-cosigner exclusion requires at least one key to check''
      else exclude_keys L T b forbidden)"

subsection \<open>Building a tree\<close>

definition fixture_Network :: string where "fixture_Network = ''regtest''"

definition networkParams :: "string \<Rightarrow> chain_params res" where
  "networkParams name =
     (if name = '''' \<or> name = fixture_Network \<or> name = ''regtest'' then Inr RegressionNetParams
      else if name = ''mutinynet'' then Inr MutinyNetSigNetParams
      else go_err ''unsupported network'')"

definition leafOf :: "lib \<Rightarrow> tree_lib \<Rightarrow> tree_closure list \<Rightarrow> string \<Rightarrow> tree_closure \<Rightarrow> leaf res" where
  "leafOf L T tree name c =
     bindE (closure_Script T c) (\<lambda>scr.
     bindE (GetTaprootMerkleProof T tree (TapHash L BaseLeafVersion scr)) (\<lambda>cb.
     Inr \<lparr>leaf_Name = name, leaf_Closure = c, lf_Script = scr, lf_ControlBlock = cb,
          leaf_Hash = TapHash L BaseLeafVersion scr\<rparr>))"

text \<open>The keys and the closures of a tree.  Tweaking a nil key panics.\<close>

definition tree_closures :: "lib \<Rightarrow> tree_record \<Rightarrow> (tree_closure list \<times> point option \<times> point option) res" where
  "tree_closures L rec =
     (let admin = T_Multisig [ExternalOwnerWallet rec, RecoveryKey rec];
        recovery = T_CSVMultisig [RecoveryKey rec] (CSV rec) in
      case tr_Kind rec of
        Operational \<Rightarrow>
          (case (VaultCosignerBase rec, ArkadeCosignerBase rec) of
             (Some vaultBase, Some arkadeBase) \<Rightarrow>
               bindE (ComputeArkadeScriptPublicKey L vaultBase (AuthScriptHash rec)) (\<lambda>tweakedVault.
               bindE (ComputeArkadeScriptPublicKey L arkadeBase (AuthScriptHash rec)) (\<lambda>tweakedArkade.
               if tweakedVault = None \<or> tweakedArkade = None then go_err ''arkade tweak is degenerate''
               else bindE (requireIndependentXOnly L [PhoneRoutineBIP340 rec, ExternalOwnerWallet rec, RecoveryKey rec,
                      VaultCosignerBase rec, ArkadeCosignerBase rec, tweakedVault, tweakedArkade]) (\<lambda>_.
               Inr ([T_Multisig [PhoneRoutineBIP340 rec, tweakedVault, tweakedArkade], admin, recovery],
                    tweakedVault, tweakedArkade))))
           | _ \<Rightarrow> panic)
      | Savings \<Rightarrow> Inr ([admin, recovery], None, None)
      | OtherKind _ \<Rightarrow> go_err ''invalid vault kind'')"

definition tree_leaves :: "lib \<Rightarrow> tree_lib \<Rightarrow> Kind \<Rightarrow> tree_closure list \<Rightarrow> leaves res" where
  "tree_leaves L T kind closures =
     (case kind of
        Operational \<Rightarrow>
          bindE (leafOf L T closures ''routine'' (closures ! 0)) (\<lambda>r.
          bindE (leafOf L T closures ''admin'' (closures ! 1)) (\<lambda>a.
          bindE (leafOf L T closures ''recovery'' (closures ! 2)) (\<lambda>c.
          Inr \<lparr>lv_Routine = Some r, lv_Admin = Some a, lv_Recovery = Some c\<rparr>)))
      | Savings \<Rightarrow>
          bindE (leafOf L T closures ''admin'' (closures ! 0)) (\<lambda>a.
          bindE (leafOf L T closures ''recovery'' (closures ! 1)) (\<lambda>c.
          Inr \<lparr>lv_Routine = None, lv_Admin = Some a, lv_Recovery = Some c\<rparr>))
      | OtherKind _ \<Rightarrow> go_err ''invalid vault kind'')"

definition build :: "lib \<Rightarrow> tree_lib \<Rightarrow> tree_record \<Rightarrow> built res" where
  "build L T rec =
     bindE (networkParams (tr_Network rec)) (\<lambda>params.
     bindE (tree_closures L rec) (\<lambda>(closures, tweakedVault, tweakedArkade).
     bindE (TapTree T closures) (\<lambda>tapKey.
     bindE (P2TRScript T tapKey) (\<lambda>pkScript.
     bindE (NewAddressTaproot T (schnorr_SerializePubKey L tapKey) params) (\<lambda>addr.
     bindE (tree_leaves L T (tr_Kind rec) closures) (\<lambda>lv.
     Inr \<lparr>bt_Record = rec, bt_Tree = closures, bt_TapKey = tapKey, bt_PkScript = pkScript,
          bt_Address = addr, bt_Leaves = lv, TweakedVaultCosigner = tweakedVault,
          TweakedArkadeCosigner = tweakedArkade\<rparr>))))))"

definition NewFromRecord :: "lib \<Rightarrow> vault_lib \<Rightarrow> tree_lib \<Rightarrow> tree_record \<Rightarrow> built res" where
  "NewFromRecord L V T rec =
     (if ExternalOwnerWallet rec = None \<or> RecoveryKey rec = None
      then go_err ''external owner wallet and recovery key required''
      else bindE (requireIndependentXOnly L [ExternalOwnerWallet rec, RecoveryKey rec]) (\<lambda>_.
      if lt_Value (CSV rec) = 0 then go_err ''csv required''
      else let rec = (if tr_Network rec = '''' then rec\<lparr>tr_Network := fixture_Network\<rparr> else rec) in
      (case tr_Kind rec of
         Operational \<Rightarrow>
           if PhoneRoutineBIP340 rec = None then go_err ''phone routine bip340 key required''
           else if VaultCosignerBase rec = None then go_err ''vault cosigner base required''
           else if ArkadeCosignerBase rec = None then go_err ''arkade cosigner base required''
           else bindE (requireIndependentXOnly L [PhoneRoutineBIP340 rec, ExternalOwnerWallet rec, RecoveryKey rec,
                  VaultCosignerBase rec, ArkadeCosignerBase rec]) (\<lambda>_.
           bindE (AuthorizationScript L V (PhoneDirectP256 rec) (tr_AuthorizationPolicy rec)) (\<lambda>auth.
           let wantHash = ArkadeScriptHash L auth in
           if length (AuthScript rec) > 0 \<and> AuthScript rec \<noteq> auth
           then go_err ''auth script does not match PhoneDirectP256''
           else if length (AuthScriptHash rec) > 0 \<and> AuthScriptHash rec \<noteq> wantHash
           then go_err ''auth script hash does not match PhoneDirectP256''
           else build L T (rec\<lparr>AuthScript := auth, AuthScriptHash := wantHash\<rparr>)))
       | Savings \<Rightarrow> build L T rec
       | OtherKind _ \<Rightarrow> go_err ''invalid vault kind'')))"

subsection \<open>The constructors\<close>

definition fixtureAuthorizationPolicy :: AuthorizationPolicy where
  "fixtureAuthorizationPolicy =
     \<lparr>RecipientDustSats = 330, RecipientCapSats = 50000, AbsoluteFeeCeilingSats = 5000, FeerateCeilingSatPerV = 10\<rparr>"

text \<open>fixture.OperationalCSV and SavingsCSV: the block type is ark-lib's LocktimeTypeBlock.\<close>

definition OperationalCSV :: "64 word \<Rightarrow> relativeLocktime" where
  "OperationalCSV blockType = \<lparr>lt_Type = blockType, lt_Value = 6\<rparr>"

definition SavingsCSV :: "64 word \<Rightarrow> relativeLocktime" where
  "SavingsCSV blockType = \<lparr>lt_Type = blockType, lt_Value = 144\<rparr>"

definition NewOperationalWithPolicy :: "lib \<Rightarrow> vault_lib \<Rightarrow> tree_lib \<Rightarrow> operationalKeys \<Rightarrow> string \<Rightarrow> relativeLocktime \<Rightarrow>
    AuthorizationPolicy \<Rightarrow> built res" where
  "NewOperationalWithPolicy L V T keys network csv policy =
     bindE (AuthorizationScript L V (ok_PhoneDirectP256 keys) policy) (\<lambda>auth.
     NewFromRecord L V T \<lparr>tr_Kind = Operational, PhoneRoutineBIP340 = ok_PhoneRoutineBIP340 keys,
       PhoneDirectP256 = ok_PhoneDirectP256 keys, ExternalOwnerWallet = ok_ExternalOwnerWallet keys,
       RecoveryKey = ok_RecoveryKey keys, VaultCosignerBase = ok_VaultCosignerBase keys,
       ArkadeCosignerBase = ok_ArkadeCosignerBase keys, CSV = csv, tr_AuthorizationPolicy = policy,
       AuthScript = auth, AuthScriptHash = ArkadeScriptHash L auth, tr_Network = network\<rparr>)"

definition NewOperationalForNetwork :: "lib \<Rightarrow> vault_lib \<Rightarrow> tree_lib \<Rightarrow> 64 word \<Rightarrow> operationalKeys \<Rightarrow> string \<Rightarrow> built res" where
  "NewOperationalForNetwork L V T blockType keys network =
     NewOperationalWithPolicy L V T keys network (OperationalCSV blockType) fixtureAuthorizationPolicy"

definition NewOperational :: "lib \<Rightarrow> vault_lib \<Rightarrow> tree_lib \<Rightarrow> 64 word \<Rightarrow> operationalKeys \<Rightarrow> built res" where
  "NewOperational L V T blockType keys = NewOperationalForNetwork L V T blockType keys fixture_Network"

definition NewSavingsWithPolicy :: "lib \<Rightarrow> vault_lib \<Rightarrow> tree_lib \<Rightarrow> point option \<Rightarrow> point option \<Rightarrow> string \<Rightarrow>
    relativeLocktime \<Rightarrow> point option list \<Rightarrow> built res" where
  "NewSavingsWithPolicy L V T externalOwner recovery network csv forbidden =
     bindE (NewFromRecord L V T \<lparr>tr_Kind = Savings, PhoneRoutineBIP340 = None, PhoneDirectP256 = [],
       ExternalOwnerWallet = externalOwner, RecoveryKey = recovery, VaultCosignerBase = None,
       ArkadeCosignerBase = None, CSV = csv,
       tr_AuthorizationPolicy = \<lparr>RecipientDustSats = 0, RecipientCapSats = 0, AbsoluteFeeCeilingSats = 0,
         FeerateCeilingSatPerV = 0\<rparr>, AuthScript = [], AuthScriptHash = [], tr_Network = network\<rparr>) (\<lambda>b.
     bindE (AssertNoRoutineCosigners L T (Some b) forbidden) (\<lambda>_. Inr b))"

definition NewSavingsForNetwork :: "lib \<Rightarrow> vault_lib \<Rightarrow> tree_lib \<Rightarrow> 64 word \<Rightarrow> point option \<Rightarrow> point option \<Rightarrow> string \<Rightarrow>
    point option list \<Rightarrow> built res" where
  "NewSavingsForNetwork L V T blockType externalOwner recovery network forbidden =
     NewSavingsWithPolicy L V T externalOwner recovery network (SavingsCSV blockType) forbidden"

definition NewSavings :: "lib \<Rightarrow> vault_lib \<Rightarrow> tree_lib \<Rightarrow> 64 word \<Rightarrow> point option \<Rightarrow> point option \<Rightarrow> point option list \<Rightarrow>
    built res" where
  "NewSavings L V T blockType externalOwner recovery forbidden =
     NewSavingsForNetwork L V T blockType externalOwner recovery fixture_Network forbidden"

subsection \<open>What a tree commits to\<close>

lemma requireIndependentXOnly_Inr:
  "requireIndependentXOnly L (map Some ks) = Inr () \<longleftrightarrow> distinct (map (schnorr_SerializePubKey L) ks)"
proof -
  have "distinct (map f ks) \<longleftrightarrow> \<not> list_ex (\<lambda>i. list_ex (\<lambda>j. f (ks ! i) = f (ks ! j)) [Suc i..<length ks]) [0..<length ks]" for f :: "point \<Rightarrow> bytes"
  proof -
    have "(\<forall>i<n. \<forall>j<n. i \<noteq> j \<longrightarrow> f (ks ! i) \<noteq> f (ks ! j)) \<longleftrightarrow> (\<forall>i<n. \<forall>j<n. i < j \<longrightarrow> f (ks ! i) \<noteq> f (ks ! j))" for n
      by (metis linorder_neqE_nat less_irrefl)
    then show ?thesis by (auto simp: distinct_conv_nth list_ex_iff Suc_le_eq)
  qed
  moreover have "list_ex (\<lambda>i. list_ex (\<lambda>j. sameXOnlyKey L (map Some ks ! i) (map Some ks ! j)) [Suc i..<length ks]) [0..<length ks]
      = list_ex (\<lambda>i. list_ex (\<lambda>j. schnorr_SerializePubKey L (ks ! i) = schnorr_SerializePubKey L (ks ! j)) [Suc i..<length ks]) [0..<length ks]"
    by (auto simp: list_ex_iff sameXOnlyKey_def)
  ultimately show ?thesis by (auto simp: requireIndependentXOnly_def)
qed

definition leaf_of_closure :: "lib \<Rightarrow> tree_lib \<Rightarrow> tree_closure list \<Rightarrow> tree_closure \<Rightarrow> leaf \<Rightarrow> bool" where
  "leaf_of_closure L T tree c lf \<longleftrightarrow> leaf_Closure lf = c \<and> closure_Script T c = Inr (lf_Script lf) \<and>
     leaf_Hash lf = TapHash L BaseLeafVersion (lf_Script lf) \<and>
     GetTaprootMerkleProof T tree (leaf_Hash lf) = Inr (lf_ControlBlock lf)"

lemma leafOf_Inr: "leafOf L T tree name c = Inr lf \<Longrightarrow> leaf_of_closure L T tree c lf"
  by (auto simp: leafOf_def leaf_of_closure_def bindE_Inr_iff)

lemma build_Inr:
  assumes "build L T rec = Inr b"
  shows "bt_Record b = rec \<and> tree_closures L rec = Inr (bt_Tree b, TweakedVaultCosigner b, TweakedArkadeCosigner b) \<and>
    TapTree T (bt_Tree b) = Inr (bt_TapKey b) \<and> P2TRScript T (bt_TapKey b) = Inr (bt_PkScript b) \<and>
    tree_leaves L T (tr_Kind rec) (bt_Tree b) = Inr (bt_Leaves b)"
  using assms by (auto simp: build_def bindE_Inr_iff)

lemma operational_closures:
  assumes "tree_closures L rec = Inr (cs, tv, ta)" "tr_Kind rec = Operational"
    "VaultCosignerBase rec = Some vb" "ArkadeCosignerBase rec = Some ab"
  shows "\<exists>v a. tv = Some v \<and> ta = Some a \<and> ComputeArkadeScriptPublicKey L vb (AuthScriptHash rec) = Inr tv \<and>
    ComputeArkadeScriptPublicKey L ab (AuthScriptHash rec) = Inr ta \<and>
    requireIndependentXOnly L [PhoneRoutineBIP340 rec, ExternalOwnerWallet rec, RecoveryKey rec, Some vb, Some ab, tv, ta] = Inr () \<and>
    cs = [T_Multisig [PhoneRoutineBIP340 rec, tv, ta], T_Multisig [ExternalOwnerWallet rec, RecoveryKey rec],
        T_CSVMultisig [RecoveryKey rec] (CSV rec)]"
  using assms by (auto simp: tree_closures_def Let_def bindE_Inr_iff split: if_splits)

lemma operational_leaves:
  assumes "tree_leaves L T Operational [x, y, z] = Inr lv"
  shows "\<exists>r a c. lv = \<lparr>lv_Routine = Some r, lv_Admin = Some a, lv_Recovery = Some c\<rparr> \<and>
    list_all2 (leaf_of_closure L T [x, y, z]) [x, y, z] [r, a, c]"
  using assms by (auto simp: tree_leaves_def bindE_Inr_iff dest!: leafOf_Inr)

text \<open>C36: A routine vault tree built from a record commits to the whole policy: the script is the
authorization script derived from the phone's P-256 key and the policy of the record (a supplied
script or hash that differs is rejected), both cosigner keys are tweaked by its hash, the seven
keys are pairwise different as x-only keys, and the tree has exactly the three leaves - phone with
both tweaked cosigners, owner with recovery key, recovery key after a non-zero delay - each with
the script of its closure and the proof of that script in this tree.\<close>

theorem operational_tree_sound:
  assumes "NewFromRecord L V T rec = Inr b" "tr_Kind rec = Operational"
  shows "\<exists>auth phone owner recovery vb ab tv ta r a c.
    AuthorizationScript L V (PhoneDirectP256 rec) (tr_AuthorizationPolicy rec) = Inr auth \<and>
    (AuthScript rec = [] \<or> AuthScript rec = auth) \<and> AuthScript (bt_Record b) = auth \<and>
    (AuthScriptHash rec = [] \<or> AuthScriptHash rec = ArkadeScriptHash L auth) \<and>
    PhoneRoutineBIP340 rec = Some phone \<and> ExternalOwnerWallet rec = Some owner \<and> RecoveryKey rec = Some recovery \<and>
    VaultCosignerBase rec = Some vb \<and> ArkadeCosignerBase rec = Some ab \<and>
    ComputeArkadeScriptPublicKey L vb (ArkadeScriptHash L auth) = Inr (Some tv) \<and>
    ComputeArkadeScriptPublicKey L ab (ArkadeScriptHash L auth) = Inr (Some ta) \<and>
    distinct (map (schnorr_SerializePubKey L) [phone, owner, recovery, vb, ab, tv, ta]) \<and>
    bt_Tree b = [T_Multisig [Some phone, Some tv, Some ta], T_Multisig [Some owner, Some recovery],
      T_CSVMultisig [Some recovery] (CSV rec)] \<and> lt_Value (CSV rec) \<noteq> 0 \<and>
    TapTree T (bt_Tree b) = Inr (bt_TapKey b) \<and> P2TRScript T (bt_TapKey b) = Inr (bt_PkScript b) \<and>
    bt_Leaves b = \<lparr>lv_Routine = Some r, lv_Admin = Some a, lv_Recovery = Some c\<rparr> \<and>
    list_all2 (leaf_of_closure L T (bt_Tree b)) (bt_Tree b) [r, a, c]"
proof -
  obtain phone owner recovery vb ab where k: "PhoneRoutineBIP340 rec = Some phone" "ExternalOwnerWallet rec = Some owner"
      "RecoveryKey rec = Some recovery" "VaultCosignerBase rec = Some vb" "ArkadeCosignerBase rec = Some ab"
    and csv: "lt_Value (CSV rec) \<noteq> 0"
    using assms by (auto simp: NewFromRecord_def Let_def bindE_Inr_iff split: if_splits)
  define rec' where "rec' = (if tr_Network rec = '''' then rec\<lparr>tr_Network := fixture_Network\<rparr> else rec)"
  have same: "tr_Kind rec' = tr_Kind rec" "PhoneRoutineBIP340 rec' = PhoneRoutineBIP340 rec" "VaultCosignerBase rec' = VaultCosignerBase rec"
    "ArkadeCosignerBase rec' = ArkadeCosignerBase rec" "ExternalOwnerWallet rec' = ExternalOwnerWallet rec"
    "RecoveryKey rec' = RecoveryKey rec" "PhoneDirectP256 rec' = PhoneDirectP256 rec" "CSV rec' = CSV rec"
    "tr_AuthorizationPolicy rec' = tr_AuthorizationPolicy rec" "AuthScript rec' = AuthScript rec"
    "AuthScriptHash rec' = AuthScriptHash rec"
    by (simp_all add: rec'_def)
  obtain auth where auth: "AuthorizationScript L V (PhoneDirectP256 rec) (tr_AuthorizationPolicy rec) = Inr auth"
      "AuthScript rec = [] \<or> AuthScript rec = auth" "AuthScriptHash rec = [] \<or> AuthScriptHash rec = ArkadeScriptHash L auth"
      "build L T (rec'\<lparr>AuthScript := auth, AuthScriptHash := ArkadeScriptHash L auth\<rparr>) = Inr b"
    using assms(1) unfolding NewFromRecord_def Let_def rec'_def[symmetric]
    by (auto simp: assms(2) same k bindE_Inr_iff split: if_splits)
  note B = build_Inr[OF auth(4)]
  define r2 where "r2 = rec'\<lparr>AuthScript := auth, AuthScriptHash := ArkadeScriptHash L auth\<rparr>"
  have r2: "tr_Kind r2 = Operational" "VaultCosignerBase r2 = Some vb" "ArkadeCosignerBase r2 = Some ab"
    "PhoneRoutineBIP340 r2 = Some phone" "ExternalOwnerWallet r2 = Some owner" "RecoveryKey r2 = Some recovery"
    "CSV r2 = CSV rec" "AuthScriptHash r2 = ArkadeScriptHash L auth"
    by (simp_all add: r2_def same k assms(2))
  have "tree_closures L r2 = Inr (bt_Tree b, TweakedVaultCosigner b, TweakedArkadeCosigner b)" using B by (simp add: r2_def)
  note cl = operational_closures[OF this r2(1-3), unfolded r2]
  from cl obtain tv ta where tw: "TweakedVaultCosigner b = Some tv" "TweakedArkadeCosigner b = Some ta" by blast
  have t: "ComputeArkadeScriptPublicKey L vb (ArkadeScriptHash L auth) = Inr (Some tv)"
      "ComputeArkadeScriptPublicKey L ab (ArkadeScriptHash L auth) = Inr (Some ta)"
      "requireIndependentXOnly L (map Some [phone, owner, recovery, vb, ab, tv, ta]) = Inr ()"
      "bt_Tree b = [T_Multisig [Some phone, Some tv, Some ta], T_Multisig [Some owner, Some recovery],
        T_CSVMultisig [Some recovery] (CSV rec)]"
    using cl unfolding tw by simp_all
  have kr: "tree_leaves L T Operational (bt_Tree b) = Inr (bt_Leaves b)"
    using B by (simp add: r2(1)[unfolded r2_def])
  have "\<exists>r a c. bt_Leaves b = \<lparr>lv_Routine = Some r, lv_Admin = Some a, lv_Recovery = Some c\<rparr> \<and>
      list_all2 (leaf_of_closure L T (bt_Tree b)) (bt_Tree b) [r, a, c]"
    using operational_leaves[OF kr[unfolded t(4)]] unfolding t(4) .
  then obtain r a c where lf: "bt_Leaves b = \<lparr>lv_Routine = Some r, lv_Admin = Some a, lv_Recovery = Some c\<rparr>"
    "list_all2 (leaf_of_closure L T (bt_Tree b)) (bt_Tree b) [r, a, c]" by blast
  have "AuthScript (bt_Record b) = auth" "TapTree T (bt_Tree b) = Inr (bt_TapKey b)"
    "P2TRScript T (bt_TapKey b) = Inr (bt_PkScript b)" using B by simp_all
  with auth(1-3) k csv t(1,2) t(3)[unfolded requireIndependentXOnly_Inr] t(4) lf show ?thesis by blast
qed

text \<open>A concrete tree library: a closure's script lists its keys, and a fixed tweak.\<close>

definition ex_tree :: tree_lib where
  "ex_tree = \<lparr>closure_Script = (\<lambda>c. Inr (concat (map (\<lambda>k. case k of None \<Rightarrow> [] | Some q \<Rightarrow> le_fixed 32 (fst q)) (closurePubKeys c)))),
     tree_DecodeClosure = (\<lambda>b. go_err ''closure''), TapTree = (\<lambda>cs. Inr (3, 4)),
     GetTaprootMerkleProof = (\<lambda>cs h. Inr (0xc0 # h)), P2TRScript = (\<lambda>q. Inr (0x51 # 32 # le_fixed 32 (fst q))),
     NewAddressTaproot = (\<lambda>b p. Inr ''bcrt1p'')\<rparr>"

abbreviation tweak_lib :: lib where "tweak_lib \<equiv> ex_lib\<lparr>modn_SetByteSlice := (\<lambda>b. (5, False))\<rparr>"

definition ex_record :: tree_record where
  "ex_record = \<lparr>tr_Kind = Operational, PhoneRoutineBIP340 = Some (10, 0), PhoneDirectP256 = 2 # 7 # replicate 31 0,
     ExternalOwnerWallet = Some (20, 0), RecoveryKey = Some (30, 0), VaultCosignerBase = Some (40, 0),
     ArkadeCosignerBase = Some (50, 0), CSV = OperationalCSV 0, tr_AuthorizationPolicy = fixtureAuthorizationPolicy,
     AuthScript = [], AuthScriptHash = [], tr_Network = ''mutinynet''\<rparr>"

lemma ex_record_simps [simp]:
  "tr_Kind ex_record = Operational" "PhoneRoutineBIP340 ex_record = Some (10, 0)"
  "PhoneDirectP256 ex_record = 2 # 7 # replicate 31 0" "ExternalOwnerWallet ex_record = Some (20, 0)"
  "RecoveryKey ex_record = Some (30, 0)" "VaultCosignerBase ex_record = Some (40, 0)"
  "ArkadeCosignerBase ex_record = Some (50, 0)" "CSV ex_record = OperationalCSV 0"
  "tr_AuthorizationPolicy ex_record = fixtureAuthorizationPolicy" "AuthScript ex_record = []"
  "AuthScriptHash ex_record = []" "tr_Network ex_record = ''mutinynet''"
  by (simp_all add: ex_record_def)

lemma le_fixed_eq_iff: "le_fixed k m = le_fixed k n \<longleftrightarrow> m mod 256 ^ k = n mod 256 ^ k"
proof
  assume "le_fixed k m = le_fixed k n"
  then have "le_val (le_fixed k m) = le_val (le_fixed k n)" by (rule arg_cong)
  then show "m mod 256 ^ k = n mod 256 ^ k" by simp
next
  assume "m mod 256 ^ k = n mod 256 ^ k"
  then show "le_fixed k m = le_fixed k n" using le_fixed_le_val[of "le_fixed k m" k] le_fixed_le_val[of "le_fixed k n" k] by simp
qed

lemma le_fixed_small: "n < 256 \<Longrightarrow> le_fixed 32 n = word_of_nat n # replicate 31 0"
proof -
  assume "n < 256"
  moreover have "le_fixed k 0 = replicate k 0" for k by (induction k) simp_all
  ultimately show ?thesis using le_fixed.simps(2)[of 31 n] by simp
qed

lemma bytes_Contains_set: "bytes_Contains b s \<Longrightarrow> set s \<subseteq> set b"
  by (auto simp: bytes_Contains_def list_ex_iff dest!: arg_cong[of _ s set] dest: in_set_takeD in_set_dropD)

lemma ex_built: "\<exists>b. NewFromRecord tweak_lib ex_vault ex_tree ex_record = Inr b"
proof -
  have auth: "AuthorizationScript tweak_lib ex_vault (2 # 7 # replicate 31 0) fixtureAuthorizationPolicy =
      Inr (concat (map sb_encode (shape_calls @ recipient_calls fixtureAuthorizationPolicy @ change_calls fixtureAuthorizationPolicy @
        packet_calls (ex_magic @ [PacketType]) @ fee_calls fixtureAuthorizationPolicy @ signature_calls (0x11 # 2 # 7 # replicate 31 0))))"
  proof -
    have z: "le_fixed n 0 = replicate n 0" for n by (induction n) simp_all
    have "le_fixed 32 7 = 7 # replicate 31 0" using le_fixed.simps(2)[of 31 7] by (simp add: z)
    then show ?thesis
      by (subst ex_authorization[where q = "(7, 0)"])
        (simp_all add: policy_validate_iff fixtureAuthorizationPolicy_def buildAuthorizationScript_def del: sb_encode.simps)
  qed
  show ?thesis
    apply (simp add: NewFromRecord_def auth build_def tree_closures_def tree_leaves_def leafOf_def ex_tree_def
      OperationalCSV_def requireIndependentXOnly_def sameXOnlyKey_def ComputeArkadeScriptPublicKey_def networkParams_def
      fixture_Network_def isInfinity_def le_fixed_eq_iff del: le_fixed.simps)
    done
qed

lemma operational_tree_sound_witness:
  "\<exists>b. NewFromRecord tweak_lib ex_vault ex_tree ex_record = Inr b \<and> length (bt_Tree b) = 3 \<and>
     bt_Tree b ! 1 = T_Multisig [Some (20, 0), Some (30, 0)]"
proof -
  obtain b where b: "NewFromRecord tweak_lib ex_vault ex_tree ex_record = Inr b" using ex_built by blast
  from operational_tree_sound[OF b] show ?thesis using b by auto
qed

subsection \<open>The savings tree\<close>

lemma exclude_keys_Inr:
  "exclude_keys L T b keys = Inr () \<longleftrightarrow> (\<forall>k \<in> set keys. k \<noteq> None \<and> \<not> ContainsKey L T b k)"
  by (induction keys) auto

lemma savings_built:
  assumes "NewFromRecord L V T rec = Inr b" "tr_Kind rec = Savings"
  shows "\<exists>owner recovery a c. ExternalOwnerWallet rec = Some owner \<and> RecoveryKey rec = Some recovery \<and>
    schnorr_SerializePubKey L owner \<noteq> schnorr_SerializePubKey L recovery \<and> lt_Value (CSV rec) \<noteq> 0 \<and>
    bt_Tree b = [T_Multisig [Some owner, Some recovery], T_CSVMultisig [Some recovery] (CSV rec)] \<and>
    bt_Leaves b = \<lparr>lv_Routine = None, lv_Admin = Some a, lv_Recovery = Some c\<rparr> \<and>
    list_all2 (leaf_of_closure L T (bt_Tree b)) (bt_Tree b) [a, c]"
proof -
  obtain owner recovery where k: "ExternalOwnerWallet rec = Some owner" "RecoveryKey rec = Some recovery"
      "lt_Value (CSV rec) \<noteq> 0" "requireIndependentXOnly L (map Some [owner, recovery]) = Inr ()"
    using assms by (auto simp: NewFromRecord_def Let_def bindE_Inr_iff split: if_splits)
  define r2 where "r2 = (if tr_Network rec = '''' then rec\<lparr>tr_Network := fixture_Network\<rparr> else rec)"
  have r2: "tr_Kind r2 = Savings" "ExternalOwnerWallet r2 = Some owner" "RecoveryKey r2 = Some recovery" "CSV r2 = CSV rec"
    by (simp_all add: r2_def k assms(2))
  have "build L T r2 = Inr b"
    using assms(1) unfolding NewFromRecord_def Let_def r2_def[symmetric]
    by (auto simp: r2 bindE_Inr_iff split: if_splits)
  note B = build_Inr[OF this, unfolded tree_closures_def r2 Let_def, simplified]
  from B have t: "bt_Tree b = [T_Multisig [Some owner, Some recovery], T_CSVMultisig [Some recovery] (CSV rec)]" by simp
  have "tree_leaves L T Savings [x, y] = Inr lv \<Longrightarrow> \<exists>a c. lv = \<lparr>lv_Routine = None, lv_Admin = Some a, lv_Recovery = Some c\<rparr> \<and>
      list_all2 (leaf_of_closure L T [x, y]) [x, y] [a, c]" for x y lv
    by (auto simp: tree_leaves_def bindE_Inr_iff dest!: leafOf_Inr)
  from this[of _ _ "bt_Leaves b"] B have "\<exists>a c. bt_Leaves b = \<lparr>lv_Routine = None, lv_Admin = Some a, lv_Recovery = Some c\<rparr> \<and>
      list_all2 (leaf_of_closure L T (bt_Tree b)) (bt_Tree b) [a, c]" unfolding t by blast
  with k t show ?thesis unfolding requireIndependentXOnly_Inr by auto
qed

text \<open>A savings tree holds only the owner and the recovery key: its two leaves are the pair of
them and the recovery key after a non-zero delay, the two are different x-only keys, and every key
the caller names as a routine cosigner - at least one, none of them nil - is neither of the two and
occurs in no leaf script.\<close>

theorem savings_tree_excludes:
  assumes "NewSavingsWithPolicy L V T externalOwner recoveryKey network csv forbidden = Inr b"
    and "\<And>q. schnorr_SerializePubKey L q \<noteq> []"
  shows "\<exists>owner recovery a c. externalOwner = Some owner \<and> recoveryKey = Some recovery \<and>
    schnorr_SerializePubKey L owner \<noteq> schnorr_SerializePubKey L recovery \<and> lt_Value csv \<noteq> 0 \<and>
    bt_Tree b = [T_Multisig [Some owner, Some recovery], T_CSVMultisig [Some recovery] csv] \<and>
    bt_Leaves b = \<lparr>lv_Routine = None, lv_Admin = Some a, lv_Recovery = Some c\<rparr> \<and>
    list_all2 (leaf_of_closure L T (bt_Tree b)) (bt_Tree b) [a, c] \<and> forbidden \<noteq> [] \<and>
    list_all (\<lambda>k. \<exists>q. k = Some q \<and> schnorr_SerializePubKey L q \<noteq> schnorr_SerializePubKey L owner \<and>
      schnorr_SerializePubKey L q \<noteq> schnorr_SerializePubKey L recovery \<and>
      \<not> bytes_Contains (lf_Script a) (schnorr_SerializePubKey L q) \<and>
      \<not> bytes_Contains (lf_Script c) (schnorr_SerializePubKey L q)) forbidden"
proof -
  obtain rec where r: "NewFromRecord L V T rec = Inr b" "tr_Kind rec = Savings" "ExternalOwnerWallet rec = externalOwner"
      "RecoveryKey rec = recoveryKey" "CSV rec = csv" and n: "AssertNoRoutineCosigners L T (Some b) forbidden = Inr ()"
    using assms(1) by (auto simp: NewSavingsWithPolicy_def bindE_Inr_iff)
  from savings_built[OF r(1,2), unfolded r(3-5)] obtain owner recovery a c where s:
    "externalOwner = Some owner" "recoveryKey = Some recovery"
    "schnorr_SerializePubKey L owner \<noteq> schnorr_SerializePubKey L recovery" "lt_Value csv \<noteq> 0"
    "bt_Tree b = [T_Multisig [Some owner, Some recovery], T_CSVMultisig [Some recovery] csv]"
    "bt_Leaves b = \<lparr>lv_Routine = None, lv_Admin = Some a, lv_Recovery = Some c\<rparr>"
    "list_all2 (leaf_of_closure L T (bt_Tree b)) (bt_Tree b) [a, c]" by blast
  have f: "forbidden \<noteq> []" "\<forall>k \<in> set forbidden. k \<noteq> None \<and> \<not> ContainsKey L T (Some b) k"
    using n by (auto simp: AssertNoRoutineCosigners_def exclude_keys_Inr split: if_splits)
  have "list_all (\<lambda>k. \<exists>q. k = Some q \<and> schnorr_SerializePubKey L q \<noteq> schnorr_SerializePubKey L owner \<and>
      schnorr_SerializePubKey L q \<noteq> schnorr_SerializePubKey L recovery \<and>
      \<not> bytes_Contains (lf_Script a) (schnorr_SerializePubKey L q) \<and>
      \<not> bytes_Contains (lf_Script c) (schnorr_SerializePubKey L q)) forbidden"
    unfolding list_all_iff
  proof
    fix k assume "k \<in> set forbidden"
    with f(2) obtain q where q: "k = Some q" "\<not> ContainsKey L T (Some b) (Some q)" by auto
    then show "\<exists>q. k = Some q \<and> schnorr_SerializePubKey L q \<noteq> schnorr_SerializePubKey L owner \<and>
      schnorr_SerializePubKey L q \<noteq> schnorr_SerializePubKey L recovery \<and>
      \<not> bytes_Contains (lf_Script a) (schnorr_SerializePubKey L q) \<and>
      \<not> bytes_Contains (lf_Script c) (schnorr_SerializePubKey L q)"
      using assms(2) by (auto simp: ContainsKey_def s Let_def leafContainsKey_def closureContainsKey_def split: if_splits)
  qed
  with s f(1) show ?thesis by blast
qed

lemma savings_tree_excludes_witness:
  "\<exists>b. NewSavingsWithPolicy ex_lib ex_vault ex_tree (Some (1, 0)) (Some (2, 0)) ''regtest'' (SavingsCSV 0) [Some (3, 0)] = Inr b \<and>
     length (bt_Tree b) = 2 \<and> lv_Routine (bt_Leaves b) = None"
proof -
  have "\<exists>b. NewSavingsWithPolicy ex_lib ex_vault ex_tree (Some (1, 0)) (Some (2, 0)) ''regtest'' (SavingsCSV 0) [Some (3, 0)] = Inr b"
  proof -
    have "\<not> bytes_Contains (le_fixed 32 1 @ le_fixed 32 2) (le_fixed 32 3)" "\<not> bytes_Contains (le_fixed 32 2) (le_fixed 32 3)"
      by (auto simp: le_fixed_small dest!: bytes_Contains_set)
    then show ?thesis
      by (simp add: NewSavingsWithPolicy_def NewFromRecord_def build_def tree_closures_def tree_leaves_def leafOf_def ex_tree_def
        SavingsCSV_def requireIndependentXOnly_def sameXOnlyKey_def networkParams_def fixture_Network_def
        AssertNoRoutineCosigners_def ContainsKey_def leafContainsKey_def closureContainsKey_def Let_def le_fixed_eq_iff
        del: le_fixed.simps)
  qed
  then obtain b where b: "NewSavingsWithPolicy ex_lib ex_vault ex_tree (Some (1, 0)) (Some (2, 0)) ''regtest'' (SavingsCSV 0) [Some (3, 0)] = Inr b"
    by blast
  have "schnorr_SerializePubKey ex_lib q \<noteq> []" for q using length_le_fixed[of 32 "fst q"] by (auto simp del: length_le_fixed)
  from savings_tree_excludes[OF b this] show ?thesis using b by auto
qed

end
