(* ===== verification/GoText.thy ===== *)
theory GoText
imports Prelude
begin

text \<open>What the program uses of the strings, unicode/utf8, encoding/hex and strconv packages.  A Go string is
the list of its bytes, as characters.  ToUpper, ToLower and TrimSpace are those of ASCII text; where a
caller can meet other text and its result depends on it, it says what it does there.\<close>

subsection \<open>Characters\<close>

definition char_between :: "char \<Rightarrow> char \<Rightarrow> char \<Rightarrow> bool" where
  "char_between a c z \<longleftrightarrow> (of_char a :: nat) \<le> of_char c \<and> (of_char c :: nat) \<le> of_char z"

definition upper_char :: "char \<Rightarrow> char" where
  "upper_char c = (if char_between CHR ''a'' c CHR ''z'' then char_of ((of_char c :: nat) - 32) else c)"

definition lower_char :: "char \<Rightarrow> char" where
  "lower_char c = (if char_between CHR ''A'' c CHR ''Z'' then char_of ((of_char c :: nat) + 32) else c)"

definition ToUpper :: "string \<Rightarrow> string" where
  "ToUpper s = map upper_char s"

definition ToLower :: "string \<Rightarrow> string" where
  "ToLower s = map lower_char s"

definition is_white :: "char \<Rightarrow> bool" where
  "is_white c \<longleftrightarrow> c = CHR '' '' \<or> char_between CHR 0x09 c CHR 0x0D"

definition TrimSpace :: "string \<Rightarrow> string" where
  "TrimSpace s = rev (dropWhile is_white (rev (dropWhile is_white s)))"

subsection \<open>Text\<close>

definition ascii_text :: "string \<Rightarrow> bool" where "ascii_text s \<longleftrightarrow> list_all (\<lambda>c. (of_char c :: nat) < 128) s"

text \<open>Ranging over a string decodes UTF-8: an invalid or incomplete sequence is one replacement
character for its first byte.  The result is the rune and how many bytes after the first it takes.\<close>

definition cont :: "nat \<Rightarrow> nat \<Rightarrow> nat \<Rightarrow> string \<Rightarrow> bool" where
  "cont lo hi k s \<longleftrightarrow> k < length s \<and> lo \<le> of_char (s ! k) \<and> of_char (s ! k) \<le> hi"

definition low6 :: "nat \<Rightarrow> string \<Rightarrow> nat" where
  "low6 k s = of_char (s ! k) mod 64"

definition decode_rune :: "char \<Rightarrow> string \<Rightarrow> nat \<times> nat" where
  "decode_rune c s =
     (let b = of_char c in
      if b < 0x80 then (b, 0)
      else if 0xC2 \<le> b \<and> b \<le> 0xDF \<and> cont 0x80 0xBF 0 s then ((b - 0xC0) * 64 + low6 0 s, 1)
      else if 0xE0 \<le> b \<and> b \<le> 0xEF \<and> cont (if b = 0xE0 then 0xA0 else 0x80) (if b = 0xED then 0x9F else 0xBF) 0 s \<and>
           cont 0x80 0xBF 1 s
        then ((b - 0xE0) * 4096 + low6 0 s * 64 + low6 1 s, 2)
      else if 0xF0 \<le> b \<and> b \<le> 0xF4 \<and> cont (if b = 0xF0 then 0x90 else 0x80) (if b = 0xF4 then 0x8F else 0xBF) 0 s \<and>
           cont 0x80 0xBF 1 s \<and> cont 0x80 0xBF 2 s
        then ((b - 0xF0) * 262144 + low6 0 s * 4096 + low6 1 s * 64 + low6 2 s, 3)
      else (0xFFFD, 0))"

fun runes :: "string \<Rightarrow> nat list" where
  "runes [] = []"
| "runes (c # s) = (case decode_rune c s of (r, k) \<Rightarrow> r # runes (drop k s))"

lemma runes_ascii: "ascii_text s \<Longrightarrow> runes s = map of_char s"
  by (induction s) (auto simp: ascii_text_def decode_rune_def)

subsection \<open>Decimal digits\<close>

definition digit_value :: "char \<Rightarrow> nat option" where
  "digit_value c = (if char_between CHR ''0'' c CHR ''9'' then Some (of_char c - 48) else None)"

fun parse_digits :: "nat \<Rightarrow> string \<Rightarrow> nat option" where
  "parse_digits n [] = Some n"
| "parse_digits n (c # s) = (case digit_value c of None \<Rightarrow> None | Some d \<Rightarrow> parse_digits (10 * n + d) s)"

subsection \<open>Hexadecimal\<close>

fun hex_digit :: "byte \<Rightarrow> char" where
  "hex_digit n = ''0123456789abcdef'' ! unat n"

definition hex_EncodeToString :: "bytes \<Rightarrow> string" where
  "hex_EncodeToString b = concat (map (\<lambda>x. [hex_digit (x div 16), hex_digit (x mod 16)]) b)"

text \<open>chainhash.Hash prints its bytes in reverse order.\<close>

definition hash_String :: "bytes \<Rightarrow> string" where "hash_String h = hex_EncodeToString (rev h)"

definition hex_value :: "char \<Rightarrow> byte option" where
  "hex_value c =
     (if char_between CHR ''0'' c CHR ''9'' then Some (word_of_nat (of_char c - 48))
      else if char_between CHR ''a'' c CHR ''f'' then Some (word_of_nat (of_char c - 87))
      else if char_between CHR ''A'' c CHR ''F'' then Some (word_of_nat (of_char c - 55))
      else None)"

fun hex_DecodeString :: "string \<Rightarrow> bytes option" where
  "hex_DecodeString [] = Some []"
| "hex_DecodeString [c] = None"
| "hex_DecodeString (c # d # s) =
     (case (hex_value c, hex_value d, hex_DecodeString s) of
        (Some x, Some y, Some b) \<Rightarrow> Some ((16 * x + y) # b) | _ \<Rightarrow> None)"

lemma hex_digit_value: "k < 16 \<Longrightarrow> hex_value (''0123456789abcdef'' ! k) = Some (word_of_nat k)"
proof -
  have "\<forall>k\<in>set [0..<16]. hex_value (''0123456789abcdef'' ! k) = Some (word_of_nat k)" by code_simp
  then show "k < 16 \<Longrightarrow> ?thesis" by simp
qed

lemma hex_byte_value: "x < 16 \<Longrightarrow> hex_value (hex_digit x) = Some x"
  using hex_digit_value[of "unat x"] by (simp add: word_less_nat_alt)

lemma hex_decode_encode: "hex_DecodeString (hex_EncodeToString b) = Some b"
proof (induction b)
  case (Cons x b)
  have "unat x < 2 ^ LENGTH(8)" by (rule unsigned_less)
  then have "unat x div 16 < 16" by (intro less_mult_imp_div_less) simp
  then have "x div 16 < 16" by (simp add: word_less_nat_alt unat_div)
  moreover have "x mod 16 < 16" by (rule word_mod_less_divisor) simp
  ultimately show ?case
    using Cons by (simp add: hex_EncodeToString_def hex_byte_value mult_div_mod_eq del: hex_digit.simps)
qed (simp add: hex_EncodeToString_def)

lemma hex_inj [simp]: "hex_EncodeToString a = hex_EncodeToString b \<longleftrightarrow> a = b"
  by (metis hex_decode_encode option.inject)

lemma hash_String_inj [simp]: "hash_String a = hash_String b \<longleftrightarrow> a = b"
  by (simp add: hash_String_def)

end
