(* ===== verification/VaultLedger.thy ===== *)
theory VaultLedger
imports GoText
begin

text \<open>Model of the issuance store of poc/2fa-vault/internal/policy/ledger.go: the issuance
table, the reservation against a period allowance, and the two signing stages.

The table is the list of its rows, with the constraints of its schema.  SQLite is not under
src/: what is used of it is that a transaction is atomic.  How each transaction ends is a
parameter: it is committed, or fails and is rolled back, or is committed although the
caller sees an error.  The cosigners are parameters too.  The mutex of the ledger makes one
call of issueSequential the unit of interleaving; a crash between two transactions leaves
the rows a call leaves whose later steps fail.\<close>

subsection \<open>The issuance table\<close>

definition stateReserved :: string where "stateReserved = ''reserved''"
definition stateVaultSigned :: string where "stateVaultSigned = ''vault_signed''"
definition stateCompleted :: string where "stateCompleted = ''completed''"

record issuance =
  iss_vault_id :: string
  arkade_sighash :: bytes
  period_start :: string
  recipient_amount :: int64
  iss_fee :: int64
  iss_state :: string
  request_psbt :: string
  vault_psbt :: "string option"
  signed_psbt :: "string option"
  created_at :: string
  updated_at :: string

text \<open>The CHECK clauses of the table.\<close>

definition issuance_check :: "issuance \<Rightarrow> bool" where
  "issuance_check r \<longleftrightarrow>
     iss_state r \<in> {stateReserved, stateVaultSigned, stateCompleted} \<and> length (request_psbt r) > 0 \<and>
     (iss_state r = stateReserved \<and> vault_psbt r = None \<and> signed_psbt r = None \<or>
      iss_state r = stateVaultSigned \<and> vault_psbt r \<noteq> None \<and> signed_psbt r = None \<or>
      iss_state r = stateCompleted \<and> vault_psbt r \<noteq> None \<and> signed_psbt r \<noteq> None)"

definition issuance_key :: "issuance \<Rightarrow> string \<times> bytes" where
  "issuance_key r = (iss_vault_id r, arkade_sighash r)"

definition find_issuance :: "string \<Rightarrow> bytes \<Rightarrow> issuance list \<Rightarrow> issuance option" where
  "find_issuance vaultID digest rows = find (\<lambda>r. issuance_key r = (vaultID, digest)) rows"

definition insert_issuance :: "issuance \<Rightarrow> issuance list \<Rightarrow> issuance list res" where
  "insert_issuance r rows =
     (if \<not> issuance_check r \<or> issuance_key r \<in> issuance_key ` set rows then go_err ''constraint failed''
      else Inr (rows @ [r]))"

text \<open>COALESCE(SUM(recipient_amount + fee), 0): an integer, or an overflow error.\<close>

definition row_outflow :: "issuance \<Rightarrow> int" where
  "row_outflow r = sint (recipient_amount r) + sint (iss_fee r)"

definition outflow :: "string \<Rightarrow> string \<Rightarrow> issuance list \<Rightarrow> int" where
  "outflow vaultID period rows = sum_list (map row_outflow (filter (\<lambda>r. iss_vault_id r = vaultID \<and>
     period_start r = period \<and> iss_state r \<in> {stateReserved, stateVaultSigned, stateCompleted}) rows))"

definition SpentInPeriod :: "string \<Rightarrow> string \<Rightarrow> issuance list \<Rightarrow> int64 res" where
  "SpentInPeriod vaultID period rows =
     (let n = outflow vaultID period rows in
      if - (2 ^ 63) \<le> n \<and> n < 2 ^ 63 then Inr (word_of_int n) else go_err ''integer overflow'')"

definition Completed :: "string \<Rightarrow> bytes \<Rightarrow> issuance list \<Rightarrow> string \<times> bool" where
  "Completed vaultID digest rows =
     (case find_issuance vaultID digest rows of None \<Rightarrow> ([], False)
      | Some r \<Rightarrow> if iss_state r = stateCompleted \<and> signed_psbt r \<noteq> None then (the (signed_psbt r), True)
                 else ([], False))"

subsection \<open>Reserving\<close>

definition addOutflow :: "int64 \<Rightarrow> int64 \<Rightarrow> int64 res" where
  "addOutflow recipient fee =
     (if recipient <s 0 \<or> fee <s 0 then go_err ''negative outflow''
      else if 0 <s fee \<and> 0x7fffffffffffffff - fee <s recipient then go_err ''recipient+fee overflow''
      else Inr (recipient + fee))"

record issuanceStage =
  stg_state :: string
  stg_requestPSBT :: string
  stg_vaultPSBT :: string
  stg_signedPSBT :: string
  stg_created :: bool

definition validateIssuanceStage :: "issuanceStage \<Rightarrow> unit res" where
  "validateIssuanceStage s =
     (if stg_state s = stateReserved then
        (if stg_requestPSBT s = [] \<or> stg_vaultPSBT s \<noteq> [] \<or> stg_signedPSBT s \<noteq> []
         then go_err ''reserved issuance has inconsistent persisted signing data'' else Inr ())
      else if stg_state s = stateVaultSigned then
        (if stg_requestPSBT s = [] \<or> stg_vaultPSBT s = [] \<or> stg_signedPSBT s \<noteq> []
         then go_err ''vault-signed issuance has inconsistent persisted signing data'' else Inr ())
      else if stg_state s = stateCompleted then
        (if stg_requestPSBT s = [] \<or> stg_vaultPSBT s = [] \<or> stg_signedPSBT s = []
         then go_err ''completed issuance has inconsistent persisted signing data'' else Inr ())
      else go_err ''unknown issuance state'')"

text \<open>How a transaction ends, and the result and state it gives the caller.\<close>

datatype tx_end = Committed | RolledBack | CommittedWithError

definition end_tx :: "tx_end \<Rightarrow> 's \<Rightarrow> ('a \<times> 's) res \<Rightarrow> 'a res \<times> 's" where
  "end_tx e rows m =
     (case m of Inl err \<Rightarrow> (Inl err, rows)
      | Inr (a, rows') \<Rightarrow>
          (case e of Committed \<Rightarrow> (Inr a, rows')
           | RolledBack \<Rightarrow> (go_err ''transaction failed'', rows)
           | CommittedWithError \<Rightarrow> (go_err ''transaction failed'', rows')))"

definition opt_string :: "string option \<Rightarrow> string" where
  "opt_string x = (case x of None \<Rightarrow> [] | Some s \<Rightarrow> s)"

definition reservation :: "string \<Rightarrow> string \<Rightarrow> string \<Rightarrow> bytes \<Rightarrow> string \<Rightarrow> int64 \<Rightarrow> int64 \<Rightarrow> int64 \<Rightarrow>
    issuance list \<Rightarrow> (issuanceStage \<times> issuance list) res" where
  "reservation period now vaultID digest requestPSBT recipient fee remainingCap rows =
     (case find_issuance vaultID digest rows of
        Some r \<Rightarrow>
          if request_psbt r \<noteq> requestPSBT \<or> recipient_amount r \<noteq> recipient \<or> iss_fee r \<noteq> fee
          then go_err ''issuance is already bound to a different exact request''
          else let stage = \<lparr>stg_state = iss_state r, stg_requestPSBT = request_psbt r,
                 stg_vaultPSBT = opt_string (vault_psbt r), stg_signedPSBT = opt_string (signed_psbt r),
                 stg_created = False\<rparr> in
            bindE (validateIssuanceStage stage) (\<lambda>_. Inr (stage, rows))
      | None \<Rightarrow>
          bindE (SpentInPeriod vaultID period rows) (\<lambda>usedAmt.
          if usedAmt <s 0 then go_err ''period spent invalid''
          else bindE (addOutflow recipient fee) (\<lambda>need.
          if remainingCap <s usedAmt then go_err ''period allowance exceeded''
          else if remainingCap - usedAmt <s need then go_err ''period allowance exceeded''
          else bindE (insert_issuance \<lparr>iss_vault_id = vaultID, arkade_sighash = digest, period_start = period,
                 recipient_amount = recipient, iss_fee = fee, iss_state = stateReserved,
                 request_psbt = requestPSBT, vault_psbt = None, signed_psbt = None,
                 created_at = now, updated_at = now\<rparr> rows) (\<lambda>rows'.
          Inr (\<lparr>stg_state = stateReserved, stg_requestPSBT = requestPSBT, stg_vaultPSBT = [],
                stg_signedPSBT = [], stg_created = True\<rparr>, rows')))))"

definition commitReservation :: "tx_end \<Rightarrow> string \<Rightarrow> string \<Rightarrow> string \<Rightarrow> bytes \<Rightarrow> string \<Rightarrow> int64 \<Rightarrow> int64 \<Rightarrow> int64 \<Rightarrow>
    issuance list \<Rightarrow> issuanceStage res \<times> issuance list" where
  "commitReservation e period now vaultID digest requestPSBT recipient fee remainingCap rows =
     end_tx e rows (reservation period now vaultID digest requestPSBT recipient fee remainingCap rows)"

subsection \<open>Persisting a signing stage\<close>

text \<open>The UPDATE: every row with the key and the required state gets the new state and the
signed transaction, and must still satisfy the constraints.  The column is one of the two
the code passes.\<close>

datatype stage_column = Col_vault_psbt | Col_signed_psbt

definition stage_row :: "string \<Rightarrow> stage_column \<Rightarrow> string \<Rightarrow> string \<Rightarrow> issuance \<Rightarrow> issuance" where
  "stage_row nextState col value now r =
     (case col of Col_vault_psbt \<Rightarrow> r\<lparr>iss_state := nextState, vault_psbt := Some value, updated_at := now\<rparr>
      | Col_signed_psbt \<Rightarrow> r\<lparr>iss_state := nextState, signed_psbt := Some value, updated_at := now\<rparr>)"

definition commitSigningStage :: "tx_end \<Rightarrow> string \<Rightarrow> string \<Rightarrow> bytes \<Rightarrow> string \<Rightarrow> string \<Rightarrow> stage_column \<Rightarrow> string \<Rightarrow>
    issuance list \<Rightarrow> unit res \<times> issuance list" where
  "commitSigningStage e now vaultID digest wantState nextState col value rows =
     end_tx e rows
       (let hit = (\<lambda>r. issuance_key r = (vaultID, digest) \<and> iss_state r = wantState);
            rows' = map (\<lambda>r. if hit r then stage_row nextState col value now r else r) rows in
        if \<not> list_all issuance_check rows' then go_err ''constraint failed''
        else if length (filter hit rows) \<noteq> 1 then go_err ''issuance is not in required state''
        else Inr ((), rows'))"

definition commitVaultSigned :: "tx_end \<Rightarrow> string \<Rightarrow> string \<Rightarrow> bytes \<Rightarrow> string \<Rightarrow> issuance list \<Rightarrow> unit res \<times> issuance list" where
  "commitVaultSigned e now vaultID digest vaultPSBT rows =
     commitSigningStage e now vaultID digest stateReserved stateVaultSigned Col_vault_psbt vaultPSBT rows"

definition commitCompletion :: "tx_end \<Rightarrow> string \<Rightarrow> string \<Rightarrow> bytes \<Rightarrow> string \<Rightarrow> issuance list \<Rightarrow> unit res \<times> issuance list" where
  "commitCompletion e now vaultID digest signedPSBT rows =
     commitSigningStage e now vaultID digest stateVaultSigned stateCompleted Col_signed_psbt signedPSBT rows"

subsection \<open>Issuing\<close>

text \<open>What a call of issueSequential meets: how its transactions end, the readings of the
clock, and whether the context is done at the end.  The calls of the cosigners are
recorded with the transaction they are given.  Where the context is done at the end, the code
returns the signed transaction beside the error; the model returns the error.\<close>

record issue_env =
  reserve_end :: tx_end
  vault_end :: tx_end
  complete_end :: tx_end
  env_period :: string
  env_now :: string
  ctx_done :: bool

datatype cosigner_call = VaultCall string | ArkadeCall string

definition public_stage :: "issue_env \<Rightarrow> string \<Rightarrow> bytes \<Rightarrow> string \<Rightarrow> (string \<Rightarrow> string res) \<Rightarrow> issuance list \<Rightarrow>
    (string \<times> bool) res \<times> issuance list \<times> cosigner_call list" where
  "public_stage env vaultID digest vaultPSBT arkadeSign rows =
     (case arkadeSign vaultPSBT of Inl err \<Rightarrow> (Inl err, rows, [ArkadeCall vaultPSBT])
      | Inr signedPSBT \<Rightarrow>
          if signedPSBT = [] then (go_err ''empty public-signed response'', rows, [ArkadeCall vaultPSBT])
          else (case commitCompletion (complete_end env) (env_now env) vaultID digest signedPSBT rows of
              (Inl err, rows) \<Rightarrow> (Inl err, rows, [ArkadeCall vaultPSBT])
            | (Inr _, rows) \<Rightarrow>
                (if ctx_done env then go_err ''context done'' else Inr (signedPSBT, False), rows, [ArkadeCall vaultPSBT])))"

definition private_stage :: "issue_env \<Rightarrow> string \<Rightarrow> bytes \<Rightarrow> string \<Rightarrow> (string \<Rightarrow> string res) \<Rightarrow> (string \<Rightarrow> string res) \<Rightarrow>
    issuance list \<Rightarrow> (string \<times> bool) res \<times> issuance list \<times> cosigner_call list" where
  "private_stage env vaultID digest requestPSBT vaultSign arkadeSign rows =
     (case vaultSign requestPSBT of Inl err \<Rightarrow> (Inl err, rows, [VaultCall requestPSBT])
      | Inr vaultPSBT \<Rightarrow>
          if vaultPSBT = [] then (go_err ''empty private-signed response'', rows, [VaultCall requestPSBT])
          else (case commitVaultSigned (vault_end env) (env_now env) vaultID digest vaultPSBT rows of
              (Inl err, rows) \<Rightarrow> (Inl err, rows, [VaultCall requestPSBT])
            | (Inr _, rows) \<Rightarrow>
                (case public_stage env vaultID digest vaultPSBT arkadeSign rows of
                   (r, rows, calls) \<Rightarrow> (r, rows, VaultCall requestPSBT # calls))))"

definition issueSequential :: "issue_env \<Rightarrow> string \<Rightarrow> bytes \<Rightarrow> string \<Rightarrow> int64 \<Rightarrow> int64 \<Rightarrow> int64 \<Rightarrow> bool \<Rightarrow>
    (string \<Rightarrow> string res) \<Rightarrow> (string \<Rightarrow> string res) \<Rightarrow> issuance list \<Rightarrow>
    (string \<times> bool) res \<times> issuance list \<times> cosigner_call list" where
  "issueSequential env vaultID digest requestPSBT recipient fee remainingCap resumeReserved vaultSign arkadeSign rows =
     (if vaultID = [] then (go_err ''vault id required'', rows, [])
      else if length digest \<noteq> 32 then (go_err ''digest must be 32 bytes'', rows, [])
      else if requestPSBT = [] then (go_err ''exact request PSBT required'', rows, [])
      else if \<not> 0 <s recipient then (go_err ''recipient amount required'', rows, [])
      else if fee <s 0 then (go_err ''negative fee'', rows, [])
      else if remainingCap <s 0 then (go_err ''negative allowance'', rows, [])
      else (case commitReservation (reserve_end env) (env_period env) (env_now env) vaultID digest requestPSBT
                   recipient fee remainingCap rows of
          (Inl err, rows) \<Rightarrow> (Inl err, rows, [])
        | (Inr stage, rows) \<Rightarrow>
            if stg_state stage = stateCompleted then (Inr (stg_signedPSBT stage, True), rows, [])
            else if stg_state stage = stateReserved then
              (if \<not> stg_created stage \<and> \<not> resumeReserved
               then (go_err ''issuance already reserved after an ambiguous signer attempt'', rows, [])
               else private_stage env vaultID digest (stg_requestPSBT stage) vaultSign arkadeSign rows)
            else if stg_state stage \<noteq> stateVaultSigned \<or> stg_vaultPSBT stage = []
            then (go_err ''issuance has invalid signing state'', rows, [])
            else public_stage env vaultID digest (stg_vaultPSBT stage) arkadeSign rows))"

text \<open>IssueSequential and the one-stage Issue; a nil cosigner is None.  hex.EncodeToString is
a parameter of the one-stage request.\<close>

definition IssueSequential :: "issue_env \<Rightarrow> string \<Rightarrow> bytes \<Rightarrow> string \<Rightarrow> int64 \<Rightarrow> int64 \<Rightarrow> int64 \<Rightarrow>
    (string \<Rightarrow> string res) option \<Rightarrow> (string \<Rightarrow> string res) option \<Rightarrow> issuance list \<Rightarrow>
    (string \<times> bool) res \<times> issuance list \<times> cosigner_call list" where
  "IssueSequential env vaultID digest requestPSBT recipient fee remainingCap vaultSign arkadeSign rows =
     (case (vaultSign, arkadeSign) of
        (Some v, Some a) \<Rightarrow> issueSequential env vaultID digest requestPSBT recipient fee remainingCap True v a rows
      | _ \<Rightarrow> (go_err ''vault and arkade cosigners required'', rows, []))"

definition Issue :: "issue_env \<Rightarrow> string \<Rightarrow> bytes \<Rightarrow> int64 \<Rightarrow> int64 \<Rightarrow> int64 \<Rightarrow> string res option \<Rightarrow> issuance list \<Rightarrow>
    (string \<times> bool) res \<times> issuance list \<times> cosigner_call list" where
  "Issue env vaultID digest recipient fee remainingCap sign rows =
     (case sign of None \<Rightarrow> (go_err ''signer required'', rows, [])
      | Some s \<Rightarrow> issueSequential env vaultID digest (''legacy-external-signer:'' @ hex_EncodeToString digest)
          recipient fee remainingCap False (\<lambda>_. s) Inr rows)"

end
