(* ===== verification/VaultTx.thy ===== *)
theory VaultTx
imports VaultTree VaultLedger
begin

text \<open>Model of poc/2fa-vault/internal/vault/tx.go: the routine, admin and recovery spends of a vault
as PSBTs, the challenge of a routine spend, and the checks before a final witness is written.

A PSBT keeps the fields the code reads or writes; nil pointers are None, and the unknown fields
in which ark-lib stores previous transactions stay opaque.  A transaction has no nil inputs or
outputs.  The PSBT codec, the BIP-342 digest, signing, the closure witnesses and the standard
script engine are library code (the record psbt_lib).\<close>

subsection \<open>PSBTs\<close>

record spend_sig =
  ss_XOnlyPubKey :: bytes
  ss_LeafHash :: bytes
  ss_Signature :: bytes
  ss_SigHash :: hashType

record psbt_input =
  WitnessUtxo :: "txout option"
  SighashType :: hashType
  TaprootLeafScript :: "tapLeafScript option list"
  TaprootScriptSpendSig :: "spend_sig option list"
  FinalScriptWitness :: bytes
  FinalScriptSig :: bytes
  Unknowns :: "(bytes \<times> bytes) list"

record psbt =
  UnsignedTx :: "msgtx option"
  pk_Inputs :: "psbt_input list"

record psbt_lib =
  NewFromUnsignedTx :: "msgtx \<Rightarrow> psbt res"
  SetPrevoutTxField :: "msgtx \<Rightarrow> (bytes \<times> bytes) list \<Rightarrow> (bytes \<times> bytes) list res"
  GetPrevoutTxFields :: "(bytes \<times> bytes) list \<Rightarrow> msgtx list res"
  ext_TxOut :: "ext_packet list \<Rightarrow> txout res"
  CalcTapscriptSignaturehash :: "sighashes \<Rightarrow> hashType \<Rightarrow> msgtx \<Rightarrow> int \<Rightarrow> fetcher \<Rightarrow> tapLeaf \<Rightarrow> bytes res"
  RawTxInTapscriptSignature ::
    "msgtx \<Rightarrow> sighashes \<Rightarrow> int \<Rightarrow> int64 \<Rightarrow> bytes \<Rightarrow> tapLeaf \<Rightarrow> hashType \<Rightarrow> nat \<Rightarrow> bytes res"
  closure_Witness :: "tree_closure \<Rightarrow> bytes \<Rightarrow> (string \<rightharpoonup> bytes) \<Rightarrow> bytes list res"
  StandardExecute :: "bytes \<Rightarrow> msgtx \<Rightarrow> sighashes \<Rightarrow> int64 \<Rightarrow> fetcher \<Rightarrow> unit res"
  BIP68Sequence :: "relativeLocktime \<Rightarrow> 32 word res"

definition NewBaseTapLeaf :: "bytes \<Rightarrow> tapLeaf" where
  "NewBaseTapLeaf s = \<lparr>LeafVersion = BaseLeafVersion, leaf_Script = s\<rparr>"

text \<open>An access to Inputs[0] of a packet panics when there is none.\<close>

definition set_input0 :: "(psbt_input \<Rightarrow> psbt_input res) \<Rightarrow> psbt \<Rightarrow> psbt res" where
  "set_input0 f p =
     (case pk_Inputs p of [] \<Rightarrow> panic | i # r \<Rightarrow> bindE (f i) (\<lambda>i. Inr (p\<lparr>pk_Inputs := i # r\<rparr>)))"

subsection \<open>Amounts and previous outputs\<close>

definition requireSats :: "int64 \<Rightarrow> unit res" where
  "requireSats v = (if v <s 0 \<or> sint v > MaxSatoshi then go_err ''outside bitcoin money range'' else Inr ())"

definition subSats :: "int64 \<Rightarrow> int64 \<Rightarrow> int64 res" where
  "subSats lhs rhs = (if rhs <s 0 \<or> lhs <s rhs then go_err ''outputs exceed input'' else Inr (lhs - rhs))"

definition remainingAfter :: "int64 \<Rightarrow> int64 \<Rightarrow> int64 \<Rightarrow> int64 res" where
  "remainingAfter input amount fee =
     bindE (requireSats input) (\<lambda>_.
     bindE (requireSats amount) (\<lambda>_.
     bindE (requireSats fee) (\<lambda>_.
     bindE (subSats input amount) (\<lambda>afterAmount. subSats afterAmount fee))))"

definition checkedPrevout :: "lib \<Rightarrow> built option \<Rightarrow> msgtx option \<Rightarrow> outpoint \<Rightarrow> txout res" where
  "checkedPrevout L v prevTx op =
     (case v of None \<Rightarrow> go_err ''vault required''
      | Some v \<Rightarrow> (case prevTx of None \<Rightarrow> go_err ''prevout transaction required''
      | Some prevTx \<Rightarrow>
        if TxHash L prevTx \<noteq> op_hash op then go_err ''prevout tx hash mismatch''
        else if unat (op_index op) \<ge> length (TxOut prevTx) then go_err ''prevout index out of range''
        else let prev = TxOut prevTx ! unat (op_index op) in
        if PkScript prev \<noteq> bt_PkScript v then go_err ''prevout script is not this vault''
        else bindE (requireSats (out_value prev)) (\<lambda>_. Inr prev)))"

text \<open>RequireVerifiedPrevout: the previous transaction in the PSBT is the one the input spends,
and the witness UTXO is its output.\<close>

definition RequireVerifiedPrevout :: "lib \<Rightarrow> psbt_lib \<Rightarrow> psbt option \<Rightarrow> msgtx res" where
  "RequireVerifiedPrevout L B ptx =
     (case ptx of None \<Rightarrow> go_err ''exactly one input required''
      | Some ptx \<Rightarrow> (case (UnsignedTx ptx, pk_Inputs ptx) of
          (Some t, [inp]) \<Rightarrow>
            if length (TxIn t) \<noteq> 1 then go_err ''exactly one input required''
            else (case WitnessUtxo inp of None \<Rightarrow> go_err ''witness utxo required''
            | Some got \<Rightarrow>
              bindE (GetPrevoutTxFields B (Unknowns inp)) (\<lambda>fields.
              case fields of
                [prev] \<Rightarrow>
                  let op = PreviousOutPoint (TxIn t ! 0) in
                  if TxHash L prev \<noteq> op_hash op then go_err ''prevout tx hash mismatch''
                  else if unat (op_index op) \<ge> length (TxOut prev) then go_err ''prevout vout out of range''
                  else let want = TxOut prev ! unat (op_index op) in
                  if out_value got \<noteq> out_value want \<or> PkScript got \<noteq> PkScript want
                  then go_err ''witness utxo does not match prevout''
                  else Inr prev
              | _ \<Rightarrow> go_err ''PrevoutTxField required''))
        | _ \<Rightarrow> go_err ''exactly one input required''))"

subsection \<open>The fetcher of one previous output\<close>

text \<open>NewCannedPrevOutputFetcher answers every outpoint with its one output.\<close>

record prevFetcher =
  pf_out :: txout
  pf_op :: outpoint
  pf_tx :: "msgtx option"
  pf_idx :: "32 word"

definition NewPrevFetcher :: "outpoint \<Rightarrow> txout \<Rightarrow> prevFetcher" where
  "NewPrevFetcher op out = \<lparr>pf_out = out, pf_op = op, pf_tx = None, pf_idx = op_index op\<rparr>"

definition WithPrevTx :: "prevFetcher \<Rightarrow> msgtx option \<Rightarrow> prevFetcher" where
  "WithPrevTx f t = f\<lparr>pf_tx := t\<rparr>"

definition pf_FetchPrevOutArkTx :: "prevFetcher \<Rightarrow> outpoint \<Rightarrow> msgtx option" where
  "pf_FetchPrevOutArkTx f op = (if op \<noteq> pf_op f then None else pf_tx f)"

definition pf_FetchVtxoPrevOutPkScript :: "prevFetcher \<Rightarrow> outpoint \<Rightarrow> bytes option" where
  "pf_FetchVtxoPrevOutPkScript f op =
     (if op \<noteq> pf_op f then None
      else (case pf_tx f of None \<Rightarrow> None
        | Some t \<Rightarrow> if unat (pf_idx f) \<ge> length (TxOut t) then None else Some (PkScript (TxOut t ! unat (pf_idx f)))))"

definition as_fetcher :: "prevFetcher \<Rightarrow> fetcher" where
  "as_fetcher f = \<lparr>FetchPrevOutput = (\<lambda>_. Some (pf_out f)), FetchPrevOutArkTx = pf_FetchPrevOutArkTx f,
     FetchVtxoPrevOutPkScript = pf_FetchVtxoPrevOutPkScript f\<rparr>"

subsection \<open>The routine spend\<close>

record spendParams =
  sp_Vault :: "built option"
  sp_PrevTx :: "msgtx option"
  sp_PrevOutPoint :: outpoint
  sp_RecipientScript :: bytes
  sp_RecipientAmount :: int64
  sp_Fee :: int64
  sp_Sequence :: "32 word"
  sp_Witness :: "bytes list"

record builtSpend =
  bs_Packet :: psbt
  bs_Challenge :: bytes
  bs_ChangeAmount :: int64
  bs_HasChange :: bool
  bs_InputValue :: int64
  bs_Prevout :: txout

definition attachPacket :: "lib \<Rightarrow> psbt_lib \<Rightarrow> msgtx \<Rightarrow> emulatorEntry \<Rightarrow> msgtx res" where
  "attachPacket L B t entry =
     bindE (NewPacket [entry]) (\<lambda>pkt.
     bindE (Packet_Serialize L pkt) (\<lambda>content.
     bindE (ext_TxOut B [UnknownPacket PacketType content]) (\<lambda>out.
     if out_value out \<noteq> 0 then go_err ''emulator packet output must be zero value''
     else Inr (t\<lparr>TxOut := TxOut t @ [out]\<rparr>))))"

definition Challenge :: "lib \<Rightarrow> psbt \<Rightarrow> built option \<Rightarrow> bytes res" where
  "Challenge L ptx vault =
     (case UnsignedTx ptx of None \<Rightarrow> panic
      | Some t \<Rightarrow>
        if length (TxIn t) \<noteq> 1 \<or> length (pk_Inputs ptx) \<noteq> 1 then go_err ''expected one input''
        else (case WitnessUtxo (pk_Inputs ptx ! 0) of None \<Rightarrow> go_err ''missing witness utxo''
        | Some prev \<Rightarrow>
          let fetcher = as_fetcher (NewPrevFetcher (PreviousOutPoint (TxIn t ! 0)) prev) in
          (case vault of None \<Rightarrow> go_err ''routine leaf required''
           | Some v \<Rightarrow> (case lv_Routine (bt_Leaves v) of None \<Rightarrow> go_err ''routine leaf required''
           | Some routine \<Rightarrow>
             let lf = NewBaseTapLeaf (lf_Script routine);
                 sigHashes = NewTxSigHashes L t fetcher in
             CalcArkadeScriptSignatureHash L (Some sigHashes) SigHashDefault (Some t) 0 (Some fetcher) lf []))))"

definition leaf_field :: "leaf \<Rightarrow> tapLeafScript option list" where
  "leaf_field lf = [Some \<lparr>ControlBlock = lf_ControlBlock lf, tls_Script = lf_Script lf, tls_LeafVersion = BaseLeafVersion\<rparr>]"

definition BuildRoutineSpend :: "lib \<Rightarrow> psbt_lib \<Rightarrow> spendParams \<Rightarrow> builtSpend res" where
  "BuildRoutineSpend L B p =
     (case Option.bind (sp_Vault p) (\<lambda>v. map_option (Pair v) (lv_Routine (bt_Leaves v))) of
        None \<Rightarrow> go_err ''operational routine leaf required''
      | Some (v, routine) \<Rightarrow>
      if length (sp_RecipientScript p) = 0 then go_err ''recipient script required''
      else if \<not> IsWitnessProgram L (sp_RecipientScript p) then go_err ''routine recipient must be a native segwit output''
      else bindE (checkedPrevout L (sp_Vault p) (sp_PrevTx p) (sp_PrevOutPoint p)) (\<lambda>prev.
      if sp_Fee p <s 0 \<or> sp_RecipientAmount p \<le>s 0 then go_err ''invalid amount''
      else if sp_RecipientAmount p <s RecipientDustSats (tr_AuthorizationPolicy (bt_Record v)) then go_err ''recipient below dust''
      else bindE (remainingAfter (out_value prev) (sp_RecipientAmount p) (sp_Fee p)) (\<lambda>change.
      if change <s RecipientDustSats (tr_AuthorizationPolicy (bt_Record v))
      then go_err ''routine spend requires non-dust recursive change''
      else let seq = (if sp_Sequence p = 0 then MaxTxInSequenceNum else sp_Sequence p);
        t = \<lparr>tx_version = 2,
             TxIn = [\<lparr>PreviousOutPoint = sp_PrevOutPoint p, SignatureScript = [], Witness = [], Sequence = seq\<rparr>],
             TxOut = [\<lparr>out_value = sp_RecipientAmount p, PkScript = sp_RecipientScript p\<rparr>,
                      \<lparr>out_value = change, PkScript = bt_PkScript v\<rparr>], LockTime = 0\<rparr> in
      bindE (attachPacket L B t \<lparr>Vin = 0, ent_Script = AuthScript (bt_Record v), ent_Witness = sp_Witness p\<rparr>) (\<lambda>t.
      bindE (NewFromUnsignedTx B t) (\<lambda>packet.
      bindE (set_input0 (\<lambda>i. case sp_PrevTx p of None \<Rightarrow> panic | Some prevTx \<Rightarrow>
          bindE (SetPrevoutTxField B prevTx (Unknowns i)) (\<lambda>u.
          Inr (i\<lparr>WitnessUtxo := Some prev, SighashType := SigHashDefault,
                 TaprootLeafScript := leaf_field routine, Unknowns := u\<rparr>))) packet) (\<lambda>packet.
      bindE (Challenge L packet (Some v)) (\<lambda>challenge.
      Inr \<lparr>bs_Packet = packet, bs_Challenge = challenge, bs_ChangeAmount = change, bs_HasChange = True,
           bs_InputValue = out_value prev, bs_Prevout = prev\<rparr>)))))))"

definition packetEntry :: "lib \<Rightarrow> msgtx \<Rightarrow> (emulatorEntry \<times> bytes) res" where
  "packetEntry L t =
     bindE (FindEmulatorPacket L t) (\<lambda>packet.
     case packet of Some [e] \<Rightarrow> Inr (e, ent_Script e) | _ \<Rightarrow> go_err ''expected one emulator entry'')"

text \<open>The loop of SetPacketWitness: the first extension output is replaced.\<close>

fun replace_extension :: "lib \<Rightarrow> txout res \<Rightarrow> txout list \<Rightarrow> txout list res" where
  "replace_extension L repl [] = go_err ''emulator packet output not found''"
| "replace_extension L repl (out # outs) =
     (if \<not> IsExtension L (PkScript out) then bindE (replace_extension L repl outs) (\<lambda>outs. Inr (out # outs))
      else bindE repl (\<lambda>repl. Inr (repl # outs)))"

definition SetPacketWitness :: "lib \<Rightarrow> psbt_lib \<Rightarrow> msgtx \<Rightarrow> bytes list \<Rightarrow> msgtx res" where
  "SetPacketWitness L B t witness =
     bindE (packetEntry L t) (\<lambda>(entry, scr).
     bindE (replace_extension L
         (bindE (NewPacket [\<lparr>Vin = Vin entry, ent_Script = scr, ent_Witness = witness\<rparr>]) (\<lambda>pkt.
          bindE (Packet_Serialize L pkt) (\<lambda>content. ext_TxOut B [UnknownPacket PacketType content])))
         (TxOut t)) (\<lambda>outs.
     Inr (t\<lparr>TxOut := outs\<rparr>)))"

subsection \<open>Signatures\<close>

definition SignLeaf :: "lib \<Rightarrow> psbt_lib \<Rightarrow> msgtx \<Rightarrow> txout \<Rightarrow> bytes \<Rightarrow> nat \<Rightarrow> bytes res" where
  "SignLeaf L B t prev leafScript priv =
     (let fetcher = \<lparr>FetchPrevOutput = (\<lambda>_. Some prev), FetchPrevOutArkTx = (\<lambda>_. None), FetchVtxoPrevOutPkScript = (\<lambda>_. None)\<rparr>;
          sigHashes = NewTxSigHashes L t fetcher; lf = NewBaseTapLeaf leafScript in
      bindE (RawTxInTapscriptSignature B t sigHashes 0 (out_value prev) (PkScript prev) lf SigHashDefault priv) (\<lambda>sig.
      Inr (if length sig = 65 then take 64 sig else sig)))"

definition AddPartialSig :: "lib \<Rightarrow> psbt \<Rightarrow> point \<Rightarrow> bytes \<Rightarrow> bytes \<Rightarrow> psbt res" where
  "AddPartialSig L ptx pub leafHash sig =
     set_input0 (\<lambda>i. Inr (i\<lparr>TaprootScriptSpendSig := TaprootScriptSpendSig i @
       [Some \<lparr>ss_XOnlyPubKey = schnorr_SerializePubKey L pub, ss_LeafHash = leafHash, ss_Signature = sig,
              ss_SigHash = SigHashDefault\<rparr>]\<rparr>)) ptx"

text \<open>The digest of the one input of a packet under a leaf, and a Schnorr signature over it.\<close>

definition tapscript_digest :: "lib \<Rightarrow> psbt_lib \<Rightarrow> msgtx \<Rightarrow> txout \<Rightarrow> tapLeaf \<Rightarrow> bytes res" where
  "tapscript_digest L B t prev lf =
     bindE (at_idx (TxIn t) 0) (\<lambda>txIn.
     let fetcher = as_fetcher (NewPrevFetcher (PreviousOutPoint txIn) prev) in
     CalcTapscriptSignaturehash B (NewTxSigHashes L t fetcher) SigHashDefault t 0 fetcher lf)"

definition schnorr_check :: "lib \<Rightarrow> bytes \<Rightarrow> bytes \<Rightarrow> bytes \<Rightarrow> unit res" where
  "schnorr_check L digest signature xonly =
     (case schnorr_ParseSignature L signature of None \<Rightarrow> go_err ''signature''
      | Some sig \<Rightarrow> bindE (schnorr_ParsePubKey L xonly) (\<lambda>pub.
        if \<not> schnorr_Verify L sig digest pub then go_err ''invalid'' else Inr ()))"

definition verifySchnorrTapSig :: "lib \<Rightarrow> psbt_lib \<Rightarrow> psbt \<Rightarrow> spend_sig \<Rightarrow> bytes \<Rightarrow> bytes \<Rightarrow> unit res" where
  "verifySchnorrTapSig L B ptx s wantXOnly leafScript =
     (if length (ss_Signature s) \<noteq> 64 then go_err ''signature length''
      else bindE (at_idx (pk_Inputs ptx) 0) (\<lambda>inp.
      case (WitnessUtxo inp, UnsignedTx ptx) of
        (Some prev, Some t) \<Rightarrow>
          bindE (tapscript_digest L B t prev (NewBaseTapLeaf leafScript)) (\<lambda>digest.
          schnorr_check L digest (ss_Signature s) wantXOnly)
      | _ \<Rightarrow> panic))"

subsection \<open>The routine witness\<close>

text \<open>The loop of verifyRoutinePartials over the signatures of the input: the keys seen so far
and the three signatures found so far.\<close>

record partials =
  phoneSig :: "spend_sig option"
  vaultSig :: "spend_sig option"
  arkadeSig :: "spend_sig option"

fun routine_partials :: "bytes \<Rightarrow> bytes \<Rightarrow> bytes \<Rightarrow> bytes \<Rightarrow> bytes list \<Rightarrow> partials \<Rightarrow> spend_sig option list \<Rightarrow> partials res" where
  "routine_partials wantPhone wantVault wantArkade wantLeaf seen p [] = Inr p"
| "routine_partials wantPhone wantVault wantArkade wantLeaf seen p (None # sigs) = go_err ''nil taproot signature''"
| "routine_partials wantPhone wantVault wantArkade wantLeaf seen p (Some s # sigs) =
     (let key = ss_XOnlyPubKey s @ ss_LeafHash s in
      if key \<in> set seen then go_err ''duplicate taproot signature''
      else if ss_SigHash s \<noteq> SigHashDefault then go_err ''unsupported sighash''
      else if ss_LeafHash s \<noteq> wantLeaf then go_err ''wrong leaf hash''
      else bindE
        (if ss_XOnlyPubKey s = wantPhone then
           if phoneSig p \<noteq> None then go_err ''duplicate phone routine signature'' else Inr (p\<lparr>phoneSig := Some s\<rparr>)
         else if ss_XOnlyPubKey s = wantVault then
           if vaultSig p \<noteq> None then go_err ''duplicate vault cosigner signature'' else Inr (p\<lparr>vaultSig := Some s\<rparr>)
         else if ss_XOnlyPubKey s = wantArkade then
           if arkadeSig p \<noteq> None then go_err ''duplicate arkade emulator signature'' else Inr (p\<lparr>arkadeSig := Some s\<rparr>)
         else go_err ''unexpected taproot key'')
        (\<lambda>p. routine_partials wantPhone wantVault wantArkade wantLeaf (key # seen) p sigs))"

definition verifyRoutinePartials :: "lib \<Rightarrow> psbt_lib \<Rightarrow> psbt option \<Rightarrow> built option \<Rightarrow> unit res" where
  "verifyRoutinePartials L B ptx v =
     (case (ptx, v) of
        (Some ptx, Some v) \<Rightarrow>
          (case (UnsignedTx ptx, lv_Routine (bt_Leaves v), PhoneRoutineBIP340 (bt_Record v), TweakedVaultCosigner v, TweakedArkadeCosigner v) of
             (Some t, Some routine, Some phone, Some tweakedVault, Some tweakedArkade) \<Rightarrow>
      if length (pk_Inputs ptx) \<noteq> 1 \<or> length (TxIn t) \<noteq> 1 then go_err ''exactly one input required''
      else let inp = pk_Inputs ptx ! 0 in
      if length (FinalScriptWitness inp) \<noteq> 0 \<or> length (FinalScriptSig inp) \<noteq> 0 then go_err ''preexisting final script''
      else if WitnessUtxo inp = None then go_err ''witness utxo required''
      else (case TaprootLeafScript inp of
        [Some lf] \<Rightarrow>
          if tls_Script lf \<noteq> lf_Script routine \<or> ControlBlock lf \<noteq> lf_ControlBlock routine
          then go_err ''leaf is not the routine path''
          else if tls_LeafVersion lf \<noteq> BaseLeafVersion then go_err ''unsupported leaf version''
          else let wantPhone = schnorr_SerializePubKey L phone; wantVault = schnorr_SerializePubKey L tweakedVault;
                   wantArkade = schnorr_SerializePubKey L tweakedArkade in
          bindE (routine_partials wantPhone wantVault wantArkade (leaf_Hash routine) []
                   \<lparr>phoneSig = None, vaultSig = None, arkadeSig = None\<rparr> (TaprootScriptSpendSig inp)) (\<lambda>p.
          (case (phoneSig p, vaultSig p, arkadeSig p) of
             (Some ps, Some vs, Some as) \<Rightarrow>
               if length (TaprootScriptSpendSig inp) \<noteq> 3
               then go_err ''expected phone routine, tweaked vault cosigner, and tweaked arkade cosigner signatures''
               else bindE (verifySchnorrTapSig L B ptx ps wantPhone (lf_Script routine)) (\<lambda>_.
                    bindE (verifySchnorrTapSig L B ptx vs wantVault (lf_Script routine)) (\<lambda>_.
                    verifySchnorrTapSig L B ptx as wantArkade (lf_Script routine)))
           | _ \<Rightarrow> go_err ''expected phone routine, tweaked vault cosigner, and tweaked arkade cosigner signatures''))
      | _ \<Rightarrow> go_err ''exactly one taproot leaf required'')
           | _ \<Rightarrow> go_err ''routine finalize inputs'')
      | _ \<Rightarrow> go_err ''routine finalize inputs'')"

text \<open>The signatures by the hexadecimal form of their key; a nil one panics.\<close>

fun sigs_by_key :: "(string \<rightharpoonup> bytes) \<Rightarrow> spend_sig option list \<Rightarrow> (string \<rightharpoonup> bytes) res" where
  "sigs_by_key m [] = Inr m"
| "sigs_by_key m (None # sigs) = panic"
| "sigs_by_key m (Some s # sigs) = sigs_by_key (m(hex_EncodeToString (ss_XOnlyPubKey s) \<mapsto> ss_Signature s)) sigs"

text \<open>Every leaf of the model carries its closure, as closureLeaf builds it, so the code's check for a nil
closure, which gives the same error as a nil leaf, has no case of its own.\<close>

definition writeFinalWitness :: "lib \<Rightarrow> psbt_lib \<Rightarrow> psbt option \<Rightarrow> leaf option \<Rightarrow> psbt res" where
  "writeFinalWitness L B ptx lf =
     (case (ptx, lf) of
        (Some ptx, Some lf) \<Rightarrow>
          if length (pk_Inputs ptx) \<noteq> 1 then go_err ''exactly one input required''
          else set_input0 (\<lambda>i.
            bindE (sigs_by_key Map.empty (TaprootScriptSpendSig i)) (\<lambda>sigs.
            bindE (closure_Witness B (leaf_Closure lf) (lf_ControlBlock lf) sigs) (\<lambda>wit.
            Inr (i\<lparr>FinalScriptWitness := WriteTxWitness L wit\<rparr>)))) ptx
      | _ \<Rightarrow> go_err ''missing leaf'')"

definition FinalizeRoutine :: "lib \<Rightarrow> psbt_lib \<Rightarrow> psbt option \<Rightarrow> built option \<Rightarrow> psbt res" where
  "FinalizeRoutine L B ptx v =
     bindE (verifyRoutinePartials L B ptx v) (\<lambda>_.
     writeFinalWitness L B ptx (Option.bind v (\<lambda>v. lv_Routine (bt_Leaves v))))"

subsection \<open>The finalized transaction\<close>

definition ExtractFinalizedTx :: "lib \<Rightarrow> psbt option \<Rightarrow> msgtx res" where
  "ExtractFinalizedTx L ptx =
     (case ptx of None \<Rightarrow> go_err ''finalized psbt''
      | Some ptx \<Rightarrow> (case (UnsignedTx ptx, pk_Inputs ptx) of
          (Some t, [inp]) \<Rightarrow>
            if length (FinalScriptWitness inp) = 0 then go_err ''missing final script witness''
            else bindE (ReadTxWitness L (FinalScriptWitness inp)) (\<lambda>wit.
            (case TxIn t of [] \<Rightarrow> panic | i # r \<Rightarrow> Inr (t\<lparr>TxIn := i\<lparr>Witness := wit\<rparr> # r\<rparr>)))
        | _ \<Rightarrow> go_err ''finalized psbt''))"

definition executeFinalizedInput :: "lib \<Rightarrow> psbt_lib \<Rightarrow> psbt option \<Rightarrow> unit res" where
  "executeFinalizedInput L B ptx =
     bindE (ExtractFinalizedTx L ptx) (\<lambda>t.
     case ptx of None \<Rightarrow> panic
     | Some ptx \<Rightarrow>
       bindE (at_idx (pk_Inputs ptx) 0) (\<lambda>inp.
       case WitnessUtxo inp of None \<Rightarrow> go_err ''witness utxo required''
       | Some prev \<Rightarrow>
         bindE (at_idx (TxIn t) 0) (\<lambda>txIn.
         let fetcher = as_fetcher (NewPrevFetcher (PreviousOutPoint txIn) prev) in
         StandardExecute B (PkScript prev) t (NewTxSigHashes L t fetcher) (out_value prev) fetcher)))"

definition ExecuteFinalizedRoutine :: "lib \<Rightarrow> psbt_lib \<Rightarrow> psbt option \<Rightarrow> built option \<Rightarrow> unit res" where
  "ExecuteFinalizedRoutine L B ptx v =
     (if ptx = None \<or> v = None then go_err ''execute inputs'' else executeFinalizedInput L B ptx)"

definition ExecuteFinalizedAdmin :: "lib \<Rightarrow> psbt_lib \<Rightarrow> psbt option \<Rightarrow> built option \<Rightarrow> unit res" where
  "ExecuteFinalizedAdmin L B ptx v =
     (if ptx = None \<or> Option.bind v (\<lambda>v. lv_Admin (bt_Leaves v)) = None then go_err ''execute admin inputs''
      else executeFinalizedInput L B ptx)"

subsection \<open>Admin and recovery\<close>

text \<open>The keys of a leaf and the signature seen for each in the loop of verifyExactLeafPartials:
a signature names one of the keys, which has not signed yet.\<close>

fun exact_partials :: "lib \<Rightarrow> psbt_lib \<Rightarrow> psbt \<Rightarrow> leaf \<Rightarrow> bytes list \<Rightarrow> bytes list \<Rightarrow> spend_sig option list \<Rightarrow> bytes list res" where
  "exact_partials L B ptx lf want seen [] = Inr seen"
| "exact_partials L B ptx lf want seen (None # sigs) = go_err ''invalid admin signature metadata''"
| "exact_partials L B ptx lf want seen (Some s # sigs) =
     (if ss_SigHash s \<noteq> SigHashDefault \<or> ss_LeafHash s \<noteq> leaf_Hash lf then go_err ''invalid admin signature metadata''
      else if ss_XOnlyPubKey s \<notin> set want then go_err ''unexpected admin signer''
      else if ss_XOnlyPubKey s \<in> set seen then go_err ''duplicate admin signer''
      else bindE (verifySchnorrTapSig L B ptx s (ss_XOnlyPubKey s) (lf_Script lf)) (\<lambda>_.
        exact_partials L B ptx lf want (ss_XOnlyPubKey s # seen) sigs))"

definition verifyExactLeafPartials :: "lib \<Rightarrow> psbt_lib \<Rightarrow> psbt option \<Rightarrow> leaf option \<Rightarrow> point option list \<Rightarrow> unit res" where
  "verifyExactLeafPartials L B ptx lf expected =
     (case (ptx, lf) of
        (Some ptx, Some lf) \<Rightarrow>
          (case UnsignedTx ptx of None \<Rightarrow> go_err ''missing leaf''
          | Some t \<Rightarrow>
      if length (pk_Inputs ptx) \<noteq> 1 \<or> length (TxIn t) \<noteq> 1 then go_err ''exactly one input required''
      else let inp = pk_Inputs ptx ! 0 in
      if length (FinalScriptWitness inp) \<noteq> 0 \<or> length (FinalScriptSig inp) \<noteq> 0 then go_err ''preexisting final script''
      else if WitnessUtxo inp = None then go_err ''witness utxo required''
      else (case TaprootLeafScript inp of
        [Some got] \<Rightarrow>
          if tls_LeafVersion got \<noteq> BaseLeafVersion \<or> tls_Script got \<noteq> lf_Script lf \<or> ControlBlock got \<noteq> lf_ControlBlock lf
          then go_err ''unexpected admin leaf''
          else if length (TaprootScriptSpendSig inp) \<noteq> length expected then go_err ''expected exactly the admin signatures''
          else if None \<in> set expected then go_err ''admin signer key required''
          else bindE (exact_partials L B ptx lf (map (schnorr_SerializePubKey L \<circ> the) expected) [] (TaprootScriptSpendSig inp)) (\<lambda>seen.
               if length seen \<noteq> length expected then go_err ''missing admin signer'' else Inr ())
      | _ \<Rightarrow> go_err ''exactly one taproot leaf required''))
      | _ \<Rightarrow> go_err ''missing leaf'')"

definition FinalizeAdmin :: "lib \<Rightarrow> psbt_lib \<Rightarrow> psbt option \<Rightarrow> built option \<Rightarrow> psbt res" where
  "FinalizeAdmin L B ptx vault =
     (case vault of None \<Rightarrow> go_err ''admin finalize inputs''
      | Some v \<Rightarrow>
        if lv_Admin (bt_Leaves v) = None \<or> ExternalOwnerWallet (bt_Record v) = None \<or> RecoveryKey (bt_Record v) = None
        then go_err ''admin finalize inputs''
        else bindE (RequireVerifiedPrevout L B ptx) (\<lambda>prevTx.
        (case Option.bind ptx UnsignedTx of None \<Rightarrow> panic
         | Some t \<Rightarrow>
           bindE (at_idx (TxIn t) 0) (\<lambda>txIn.
           bindE (checkedPrevout L vault (Some prevTx) (PreviousOutPoint txIn)) (\<lambda>_.
           bindE (verifyExactLeafPartials L B ptx (lv_Admin (bt_Leaves v))
                    [ExternalOwnerWallet (bt_Record v), RecoveryKey (bt_Record v)]) (\<lambda>_.
           writeFinalWitness L B ptx (lv_Admin (bt_Leaves v))))))))"

definition DustSats :: int64 where "DustSats = 330"

definition one_input_tx :: "outpoint \<Rightarrow> 32 word \<Rightarrow> txout list \<Rightarrow> msgtx" where
  "one_input_tx op seq outs = \<lparr>tx_version = 2,
     TxIn = [\<lparr>PreviousOutPoint = op, SignatureScript = [], Witness = [], Sequence = seq\<rparr>],
     TxOut = outs, LockTime = 0\<rparr>"

definition AdminSpend :: "lib \<Rightarrow> psbt_lib \<Rightarrow> built option \<Rightarrow> msgtx option \<Rightarrow> outpoint \<Rightarrow> bytes \<Rightarrow> int64 \<Rightarrow> int64 \<Rightarrow> 32 word \<Rightarrow> psbt res" where
  "AdminSpend L B v prevTx op dest destAmt fee sequence =
     (case Option.bind v (\<lambda>v. map_option (Pair v) (lv_Admin (bt_Leaves v))) of
        None \<Rightarrow> go_err ''admin leaf required''
      | Some (w, admin) \<Rightarrow>
        if length dest = 0 then go_err ''destination script required''
        else bindE (checkedPrevout L v prevTx op) (\<lambda>prev.
        if destAmt <s DustSats \<or> fee <s 0 then go_err ''invalid amount''
        else bindE (remainingAfter (out_value prev) destAmt fee) (\<lambda>change.
        let seq = (if sequence = 0 then MaxTxInSequenceNum else sequence) in
        bindE (if change = 0 then Inr [\<lparr>out_value = destAmt, PkScript = dest\<rparr>]
               else if DustSats \<le>s change \<and> dest \<noteq> bt_PkScript w
               then Inr [\<lparr>out_value = destAmt, PkScript = dest\<rparr>, \<lparr>out_value = change, PkScript = bt_PkScript w\<rparr>]
               else go_err ''owner spend does not balance'') (\<lambda>outs.
        bindE (NewFromUnsignedTx B (one_input_tx op seq outs)) (\<lambda>ptx.
        set_input0 (\<lambda>i. case prevTx of None \<Rightarrow> panic | Some prevTx \<Rightarrow>
          bindE (SetPrevoutTxField B prevTx (Unknowns i)) (\<lambda>u.
          Inr (i\<lparr>WitnessUtxo := Some prev, SighashType := SigHashDefault, TaprootLeafScript := leaf_field admin,
                 Unknowns := u\<rparr>))) ptx)))))"

definition RecoverySpend :: "lib \<Rightarrow> psbt_lib \<Rightarrow> built option \<Rightarrow> msgtx option \<Rightarrow> outpoint \<Rightarrow> bytes \<Rightarrow> int64 \<Rightarrow> int64 \<Rightarrow> psbt res" where
  "RecoverySpend L B v prevTx op dest destAmt fee =
     (case Option.bind v (\<lambda>v. map_option (Pair v) (lv_Recovery (bt_Leaves v))) of
        None \<Rightarrow> go_err ''recovery leaf required''
      | Some (w, recovery) \<Rightarrow>
        if length dest = 0 then go_err ''destination script required''
        else if destAmt <s DustSats \<or> fee <s 0 then go_err ''invalid amount''
        else bindE (checkedPrevout L v prevTx op) (\<lambda>prev.
        bindE (BIP68Sequence B (CSV (bt_Record w))) (\<lambda>seq.
        bindE (remainingAfter (out_value prev) destAmt fee) (\<lambda>left.
        if left \<noteq> 0 then go_err ''recovery spend must consume the input''
        else bindE (NewFromUnsignedTx B (one_input_tx op seq [\<lparr>out_value = destAmt, PkScript = dest\<rparr>])) (\<lambda>ptx.
        set_input0 (\<lambda>i. Inr (i\<lparr>WitnessUtxo := Some prev, SighashType := SigHashDefault,
          TaprootLeafScript := leaf_field recovery\<rparr>)) ptx)))))"

end
