(* ===== verification/VaultGuard.thy ===== *)
theory VaultGuard
imports VaultTx "HOL-Library.Signed_Division"
begin

text \<open>Model of poc/2fa-vault/internal/provider: classify.go (the structural and economic check of a
routine spend), phonesig.go (the phone's signature), psbtguard.go (what a signer may add to a
packet) and signer.go (the local signer that runs the arkade script, and the remote one).

The base64 codec of PSBTs and the two script predicates are library code (the record guard_lib).
A signer is an implementation of Sign, or of SignExpected where the code tests for that method;
log output, counters and contexts are left out.\<close>

record guard_lib =
  B64Encode :: "psbt \<Rightarrow> string res"
  NewFromRawBytes :: "string \<Rightarrow> psbt res"
  IsUnspendable :: "bytes \<Rightarrow> bool"
  ANCHOR_PKSCRIPT :: bytes

subsection \<open>Classification\<close>

record classified =
  cl_Recipient :: "txout option"
  cl_Fee :: int64
  cl_VBytes :: int64

definition enforceStaticPolicy :: "classified option \<Rightarrow> AuthorizationPolicy \<Rightarrow> unit res" where
  "enforceStaticPolicy cl policy =
     (case cl of None \<Rightarrow> go_err ''classified spend required''
      | Some cl \<Rightarrow> (case cl_Recipient cl of None \<Rightarrow> go_err ''classified spend required''
      | Some recipient \<Rightarrow>
        if RecipientCapSats policy <s out_value recipient then go_err ''recipient exceeds transaction cap''
        else if AbsoluteFeeCeilingSats policy <s cl_Fee cl then go_err ''fee exceeds ceiling''
        else if cl_VBytes cl \<le>s 0 then go_err ''invalid transaction size''
        else if FeerateCeilingSatPerV policy * cl_VBytes cl <s cl_Fee cl then go_err ''feerate exceeds ceiling''
        else Inr ()))"

definition isOpReturn :: "bytes \<Rightarrow> bool" where
  "isOpReturn pk \<longleftrightarrow> length pk > 0 \<and> pk ! 0 = OP_RETURN"

definition requireMoneyRange :: "int64 \<Rightarrow> unit res" where
  "requireMoneyRange v = (if v <s 0 \<or> sint v > MaxSatoshi then go_err ''outside bitcoin money range'' else Inr ())"

definition addSats :: "int64 \<Rightarrow> int64 \<Rightarrow> int64 res" where
  "addSats a b =
     (if 0 <s b \<and> MaxInt64 - b <s a then go_err ''output sum overflow''
      else if b <s 0 \<and> a <s MinInt64 - b then go_err ''output sum overflow''
      else Inr (a + b))"

text \<open>Sizes are Go ints, far from their bounds.\<close>

definition varintSize :: "int \<Rightarrow> int" where
  "varintSize n = (if n < 0xfd then 1 else if n \<le> 0xffff then 3 else if n \<le> 0xffffffff then 5 else 9)"

definition estimatedWitnessBytes :: "leaf \<Rightarrow> int" where
  "estimatedWitnessBytes routine =
     (let scr = int (length (lf_Script routine)); control = int (length (lf_ControlBlock routine)) in
      2 + varintSize 5 + varintSize 64 + 64 + varintSize 64 + 64 + varintSize 64 + 64 +
      varintSize scr + scr + varintSize control + control)"

definition estimatedFullSize :: "lib \<Rightarrow> msgtx \<Rightarrow> leaf \<Rightarrow> int" where
  "estimatedFullSize L t routine = SerializeSizeStripped L t + estimatedWitnessBytes routine"

definition estimatedWeight :: "lib \<Rightarrow> msgtx \<Rightarrow> leaf \<Rightarrow> int" where
  "estimatedWeight L t routine = SerializeSizeStripped L t * 3 + estimatedFullSize L t routine"

definition estimatedVBytes :: "lib \<Rightarrow> msgtx \<Rightarrow> leaf \<Rightarrow> int64" where
  "estimatedVBytes L t routine = word_of_int ((estimatedWeight L t routine + 3) sdiv 4)"

text \<open>The loop over the outputs: the three outputs found so far.\<close>

record outputs =
  o_recipient :: "txout option"
  o_change :: "txout option"
  o_packet :: "txout option"

definition packet_output :: "lib \<Rightarrow> built \<Rightarrow> msgtx \<Rightarrow> nat \<Rightarrow> txout \<Rightarrow> outputs \<Rightarrow> outputs res" where
  "packet_output L v t index out s =
     (if o_packet s \<noteq> None then go_err ''multiple extension outputs''
      else if out_value out \<noteq> 0 then go_err ''extension output must be zero value''
      else bindE (NewExtensionFromBytes L (PkScript out)) (\<lambda>ext.
      bindE (ext_Serialize L ext) (\<lambda>canonicalExt.
      if canonicalExt \<noteq> PkScript out then go_err ''non-canonical ark extension encoding''
      else (case ext of
        [p] \<Rightarrow>
          if packet_Type p \<noteq> PacketType then go_err ''extension must contain exactly one type 0x01 packet''
          else bindE (FindEmulatorPacket L t) (\<lambda>pkt.
          case pkt of
            Some [e] \<Rightarrow>
              (case p of
                 UnknownPacket ty data \<Rightarrow>
                   bindE (NewPacket [e]) (\<lambda>rebuilt.
                   bindE (Packet_Serialize L rebuilt) (\<lambda>canonicalPkt.
                   if canonicalPkt \<noteq> data then go_err ''non-canonical emulator packet encoding''
                   else if Vin e \<noteq> 0 then go_err ''emulator entry vin''
                   else if ent_Script e \<noteq> AuthScript (bt_Record v) then go_err ''authorization script mismatch''
                   else if int index \<noteq> int (length (TxOut t)) - 1 then go_err ''emulator packet output must be last''
                   else Inr (s\<lparr>o_packet := Some out\<rparr>)))
               | OtherPacket ty data \<Rightarrow> go_err ''emulator packet'')
          | _ \<Rightarrow> go_err ''exactly one emulator entry required'')
      | _ \<Rightarrow> go_err ''extension must contain exactly one type 0x01 packet''))))"

definition change_output :: "built \<Rightarrow> msgtx \<Rightarrow> nat \<Rightarrow> txout \<Rightarrow> outputs \<Rightarrow> outputs res" where
  "change_output v t index out s =
     (if o_change s \<noteq> None then go_err ''multiple change outputs''
      else if index \<noteq> 1 \<or> length (TxOut t) \<noteq> 3 then go_err ''change output must be index one in the three-output form''
      else if out_value out <s RecipientDustSats (tr_AuthorizationPolicy (bt_Record v)) then go_err ''change below dust''
      else Inr (s\<lparr>o_change := Some out\<rparr>))"

definition recipient_output :: "lib \<Rightarrow> guard_lib \<Rightarrow> built \<Rightarrow> nat \<Rightarrow> txout \<Rightarrow> outputs \<Rightarrow> outputs res" where
  "recipient_output L G v index out s =
     (if o_recipient s \<noteq> None then go_err ''multiple recipient outputs''
      else if \<not> IsWitnessProgram L (PkScript out) then go_err ''routine recipient must be a native segwit output''
      else if IsUnspendable G (PkScript out) \<or> isOpReturn (PkScript out) then go_err ''unexpected op_return or unspendable output''
      else if PkScript out = ANCHOR_PKSCRIPT G then go_err ''p2a anchor recipient''
      else if index \<noteq> 0 then go_err ''recipient output must be index zero''
      else if out_value out <s RecipientDustSats (tr_AuthorizationPolicy (bt_Record v)) then go_err ''recipient below dust''
      else Inr (s\<lparr>o_recipient := Some out\<rparr>))"

fun classify_outputs :: "lib \<Rightarrow> guard_lib \<Rightarrow> built \<Rightarrow> msgtx \<Rightarrow> nat \<Rightarrow> txout list \<Rightarrow> outputs \<Rightarrow> outputs res" where
  "classify_outputs L G v t index [] s = Inr s"
| "classify_outputs L G v t index (out # outs) s =
     bindE (if IsExtension L (PkScript out) then packet_output L v t index out s
            else if PkScript out = bt_PkScript v then change_output v t index out s
            else recipient_output L G v index out s)
       (\<lambda>s. classify_outputs L G v t (index + 1) outs s)"

fun sum_outputs :: "int64 \<Rightarrow> txout list \<Rightarrow> int64 res" where
  "sum_outputs acc [] = Inr acc"
| "sum_outputs acc (out # outs) =
     bindE (requireMoneyRange (out_value out)) (\<lambda>_.
     bindE (addSats acc (out_value out)) (\<lambda>next. sum_outputs next outs))"

definition classify :: "lib \<Rightarrow> psbt_lib \<Rightarrow> guard_lib \<Rightarrow> psbt option \<Rightarrow> built option \<Rightarrow> classified res" where
  "classify L B G ptx op =
     (case Option.bind op (\<lambda>v. map_option (Pair v) (lv_Routine (bt_Leaves v))) of
        None \<Rightarrow> go_err ''not enrolled''
      | Some (v, routine) \<Rightarrow>
      bindE (RequireVerifiedPrevout L B ptx) (\<lambda>_.
      (case (ptx, Option.bind ptx UnsignedTx) of
        (Some ptx, Some t) \<Rightarrow>
      if tx_version t \<noteq> 2 then go_err ''transaction version must be 2''
      else if LockTime t \<noteq> 0 then go_err ''locktime must be zero''
      else if length (TxIn t) \<noteq> 1 \<or> length (pk_Inputs ptx) \<noteq> 1 then go_err ''exactly one input required''
      else if Sequence (TxIn t ! 0) \<noteq> MaxTxInSequenceNum then go_err ''routine sequence must be final''
      else let inp = pk_Inputs ptx ! 0 in
      if SighashType inp \<noteq> SigHashDefault then go_err ''sighash must be SIGHASH_DEFAULT''
      else (case WitnessUtxo inp of None \<Rightarrow> go_err ''missing witness utxo''
      | Some prev \<Rightarrow>
        if PkScript prev \<noteq> bt_PkScript v then go_err ''input is not the operational vault''
        else bindE (requireMoneyRange (out_value prev)) (\<lambda>_.
        (case TaprootLeafScript inp of
          [Some lf] \<Rightarrow>
            if tls_Script lf \<noteq> lf_Script routine then go_err ''leaf is not the routine path''
            else if ControlBlock lf \<noteq> lf_ControlBlock routine then go_err ''control block mismatch''
            else if tls_LeafVersion lf \<noteq> BaseLeafVersion then go_err ''unsupported leaf version''
            else bindE (classify_outputs L G v t 0 (TxOut t) \<lparr>o_recipient = None, o_change = None, o_packet = None\<rparr>) (\<lambda>s.
            if o_recipient s = None then go_err ''missing recipient''
            else if o_packet s = None then go_err ''missing emulator packet output''
            else if o_change s = None then go_err ''routine spend requires recursive vault change''
            else bindE (sum_outputs 0 (TxOut t)) (\<lambda>outSum.
            let fee = out_value prev - outSum in
            if fee <s 0 then go_err ''negative fee''
            else let vbytes = estimatedVBytes L t routine in
            if vbytes \<le>s 0 then go_err ''invalid transaction size''
            else Inr \<lparr>cl_Recipient = o_recipient s, cl_Fee = fee, cl_VBytes = vbytes\<rparr>))
        | _ \<Rightarrow> go_err ''exactly one taproot leaf required'')))
      | _ \<Rightarrow> panic)))"

definition classifySpend :: "lib \<Rightarrow> psbt_lib \<Rightarrow> guard_lib \<Rightarrow> psbt option \<Rightarrow> built option \<Rightarrow> classified res" where
  "classifySpend L B G ptx op =
     bindE (classify L B G ptx op) (\<lambda>cl.
     case op of None \<Rightarrow> panic
     | Some v \<Rightarrow> bindE (enforceStaticPolicy (Some cl) (tr_AuthorizationPolicy (bt_Record v))) (\<lambda>_. Inr cl))"

subsection \<open>The phone's signature\<close>

definition verifyPhoneRoutineSignature :: "lib \<Rightarrow> psbt_lib \<Rightarrow> psbt \<Rightarrow> built option \<Rightarrow> unit res" where
  "verifyPhoneRoutineSignature L B ptx op =
     (case Option.bind op (\<lambda>v. map_option (Pair v) (lv_Routine (bt_Leaves v))) of
        None \<Rightarrow> go_err ''operational vault not ready''
      | Some (v, routine) \<Rightarrow> (case PhoneRoutineBIP340 (bt_Record v) of None \<Rightarrow> go_err ''operational vault not ready''
      | Some phone \<Rightarrow>
        bindE (at_idx (pk_Inputs ptx) 0) (\<lambda>inp.
        case WitnessUtxo inp of None \<Rightarrow> go_err ''missing witness utxo''
        | Some prev \<Rightarrow>
          let wantPub = schnorr_SerializePubKey L phone in
          (case TaprootScriptSpendSig inp of
            [Some s] \<Rightarrow>
              if ss_XOnlyPubKey s \<noteq> wantPub \<or> ss_LeafHash s \<noteq> leaf_Hash routine then go_err ''unexpected taproot signature''
              else if ss_SigHash s \<noteq> SigHashDefault then go_err ''PhoneRoutineBIP340 signature sighash''
              else if length (ss_Signature s) \<noteq> 64 then go_err ''missing PhoneRoutineBIP340 signature''
              else (case UnsignedTx ptx of None \<Rightarrow> panic
              | Some t \<Rightarrow>
                bindE (tapscript_digest L B t prev (NewBaseTapLeaf (lf_Script routine))) (\<lambda>digest.
                schnorr_check L digest (ss_Signature s) wantPub))
          | _ \<Rightarrow> go_err ''expected exactly one PhoneRoutineBIP340 signature''))))"

subsection \<open>What a signer may add\<close>

definition parseAndVerifyPrevout :: "lib \<Rightarrow> psbt_lib \<Rightarrow> guard_lib \<Rightarrow> string \<Rightarrow> (psbt \<times> msgtx) res" where
  "parseAndVerifyPrevout L B G raw =
     bindE (NewFromRawBytes G raw) (\<lambda>ptx.
     bindE (RequireVerifiedPrevout L B (Some ptx)) (\<lambda>prev. Inr (ptx, prev)))"

definition clonePacket :: "guard_lib \<Rightarrow> psbt option \<Rightarrow> psbt res" where
  "clonePacket G p =
     (case p of None \<Rightarrow> go_err ''psbt required''
      | Some p \<Rightarrow> bindE (B64Encode G p) (\<lambda>encoded. NewFromRawBytes G encoded))"

definition verifySignerSig :: "lib \<Rightarrow> psbt_lib \<Rightarrow> psbt \<Rightarrow> spend_sig \<Rightarrow> bytes \<Rightarrow> tapLeaf \<Rightarrow> unit res" where
  "verifySignerSig L B submitted found expectedXOnly lf =
     bindE (at_idx (pk_Inputs submitted) 0) (\<lambda>inp.
     case (WitnessUtxo inp, UnsignedTx submitted) of
       (Some prev, Some t) \<Rightarrow>
         bindE (tapscript_digest L B t prev lf) (\<lambda>digest. schnorr_check L digest (ss_Signature found) expectedXOnly)
     | _ \<Rightarrow> panic)"

text \<open>The first of the original signatures equal to a signature, or -1.\<close>

fun index_from :: "nat \<Rightarrow> spend_sig option list \<Rightarrow> spend_sig \<Rightarrow> int" where
  "index_from i [] s = - 1"
| "index_from i (None # before) s = index_from (i + 1) before s"
| "index_from i (Some want # before) s =
     (if ss_XOnlyPubKey s = ss_XOnlyPubKey want \<and> ss_LeafHash s = ss_LeafHash want \<and>
         ss_Signature s = ss_Signature want \<and> ss_SigHash s = ss_SigHash want
      then int i else index_from (i + 1) before s)"

definition indexOriginalSig :: "spend_sig option list \<Rightarrow> spend_sig option \<Rightarrow> int" where
  "indexOriginalSig before s = (case s of None \<Rightarrow> - 1 | Some s \<Rightarrow> index_from 0 before s)"

text \<open>The signatures of a response that match no unmatched original one.\<close>

fun extra_sigs :: "spend_sig option list \<Rightarrow> bool list \<Rightarrow> spend_sig option list \<Rightarrow> spend_sig option list" where
  "extra_sigs before matched [] = []"
| "extra_sigs before matched (s # sigs) =
     (let i = indexOriginalSig before s in
      if i \<ge> 0 \<and> \<not> matched ! nat i then extra_sigs before (matched[nat i := True]) sigs
      else s # extra_sigs before matched sigs)"

text \<open>The one extra signature that is valid for the expected key.\<close>

fun find_signer_sig :: "lib \<Rightarrow> psbt_lib \<Rightarrow> psbt \<Rightarrow> bytes \<Rightarrow> bytes \<Rightarrow> tapLeaf \<Rightarrow> spend_sig option \<Rightarrow> spend_sig option list \<Rightarrow> spend_sig option res" where
  "find_signer_sig L B submitted expectedXOnly leafHash lf found [] = Inr found"
| "find_signer_sig L B submitted expectedXOnly leafHash lf found (None # extras) =
     find_signer_sig L B submitted expectedXOnly leafHash lf found extras"
| "find_signer_sig L B submitted expectedXOnly leafHash lf found (Some extra # extras) =
     (if length (ss_Signature extra) \<noteq> 64 \<or> ss_XOnlyPubKey extra \<noteq> expectedXOnly \<or> ss_LeafHash extra \<noteq> leafHash \<or>
         ss_SigHash extra \<noteq> SigHashDefault \<or> verifySignerSig L B submitted extra expectedXOnly lf \<noteq> Inr ()
      then find_signer_sig L B submitted expectedXOnly leafHash lf found extras
      else if found \<noteq> None then go_err ''expected exactly one new signer signature, got extra''
      else find_signer_sig L B submitted expectedXOnly leafHash lf (Some extra) extras)"

definition one_input :: "psbt option \<Rightarrow> bool" where
  "one_input p = (case p of None \<Rightarrow> False
     | Some p \<Rightarrow> (case UnsignedTx p of None \<Rightarrow> False | Some t \<Rightarrow> length (pk_Inputs p) = 1 \<and> length (TxIn t) = 1))"

definition TapLeaf_TapHash :: "lib \<Rightarrow> tapLeaf \<Rightarrow> bytes" where
  "TapLeaf_TapHash L lf = TapHash L (LeafVersion lf) (leaf_Script lf)"

definition extractVerifiedSignerSig :: "lib \<Rightarrow> psbt_lib \<Rightarrow> psbt option \<Rightarrow> psbt option \<Rightarrow> bytes \<Rightarrow> spend_sig res" where
  "extractVerifiedSignerSig L B submitted response expectedXOnly =
     (if \<not> one_input submitted then go_err ''exactly one submitted input required''
      else if \<not> one_input response then go_err ''malformed signed psbt''
      else if length expectedXOnly \<noteq> 32 then go_err ''expected signer x-only key''
      else let inp = pk_Inputs (the submitted) ! 0 in
      if WitnessUtxo inp = None then go_err ''submitted input missing leaf commitment''
      else (case TaprootLeafScript inp of
        [Some l] \<Rightarrow>
          let lf = NewBaseTapLeaf (tls_Script l);
              extras = extra_sigs (TaprootScriptSpendSig inp) (replicate (length (TaprootScriptSpendSig inp)) False)
                         (TaprootScriptSpendSig (pk_Inputs (the response) ! 0)) in
          bindE (find_signer_sig L B (the submitted) expectedXOnly (TapLeaf_TapHash L lf) lf None extras) (\<lambda>found.
          case found of None \<Rightarrow> go_err ''expected exactly one new signer signature'' | Some s \<Rightarrow> Inr s)
      | _ \<Rightarrow> go_err ''submitted input missing leaf commitment''))"

text \<open>The signatures of an input each belong to a different one of the keys, all of which have signed.\<close>

definition remove_key :: "bytes \<Rightarrow> bytes list \<Rightarrow> bytes list" where
  "remove_key k ks = filter (\<lambda>x. x \<noteq> k) ks"

fun expected_keys :: "lib \<Rightarrow> bytes list \<Rightarrow> point option list \<Rightarrow> bytes list res" where
  "expected_keys L ks [] = Inr ks"
| "expected_keys L ks (None # pubs) = go_err ''routine signer key required''"
| "expected_keys L ks (Some pub # pubs) =
     (if schnorr_SerializePubKey L pub \<in> set ks then go_err ''duplicate routine signer identity''
      else expected_keys L (schnorr_SerializePubKey L pub # ks) pubs)"

fun check_routine_sigs :: "lib \<Rightarrow> psbt_lib \<Rightarrow> psbt \<Rightarrow> tapLeaf \<Rightarrow> bytes list \<Rightarrow> spend_sig option list \<Rightarrow> bytes list res" where
  "check_routine_sigs L B ptx lf ks [] = Inr ks"
| "check_routine_sigs L B ptx lf ks (None # sigs) = go_err ''malformed routine signature''"
| "check_routine_sigs L B ptx lf ks (Some s # sigs) =
     (if ss_SigHash s \<noteq> SigHashDefault \<or> ss_LeafHash s \<noteq> TapLeaf_TapHash L lf then go_err ''malformed routine signature''
      else if ss_XOnlyPubKey s \<notin> set ks then go_err ''unexpected or duplicate routine signature''
      else bindE (verifySignerSig L B ptx s (ss_XOnlyPubKey s) lf) (\<lambda>_.
        check_routine_sigs L B ptx lf (remove_key (ss_XOnlyPubKey s) ks) sigs))"

definition verifyExactRoutineSignatures :: "lib \<Rightarrow> psbt_lib \<Rightarrow> psbt option \<Rightarrow> built option \<Rightarrow> point option list \<Rightarrow> unit res" where
  "verifyExactRoutineSignatures L B ptx op pubs =
     (case Option.bind op (\<lambda>v. lv_Routine (bt_Leaves v)) of
        None \<Rightarrow> go_err ''routine signature stage inputs''
      | Some routine \<Rightarrow>
        if \<not> one_input ptx then go_err ''routine signature stage inputs''
        else let inp = pk_Inputs (the ptx) ! 0 in
        if length pubs = 0 \<or> length (TaprootScriptSpendSig inp) \<noteq> length pubs then go_err ''expected exactly the routine signatures''
        else if WitnessUtxo inp = None \<or> length (TaprootLeafScript inp) \<noteq> 1 \<or> TaprootLeafScript inp ! 0 = None
        then go_err ''routine leaf commitment required''
        else let lf = NewBaseTapLeaf (lf_Script routine) in
        bindE (expected_keys L [] pubs) (\<lambda>expected.
        bindE (check_routine_sigs L B (the ptx) lf expected (TaprootScriptSpendSig inp)) (\<lambda>left.
        if length left \<noteq> 0 then go_err ''missing routine signature'' else Inr ())))"

subsection \<open>Signers\<close>

datatype signer = PlainSigner "psbt \<Rightarrow> psbt res" | ExpectedSigner "psbt \<Rightarrow> bytes \<Rightarrow> psbt res"

definition signWithExpected :: "signer \<Rightarrow> psbt \<Rightarrow> bytes \<Rightarrow> psbt res" where
  "signWithExpected sg ptx expectedXOnly =
     (case sg of ExpectedSigner f \<Rightarrow> f ptx expectedXOnly | PlainSigner f \<Rightarrow> f ptx)"

definition add_sig :: "spend_sig \<Rightarrow> psbt \<Rightarrow> psbt res" where
  "add_sig s = set_input0 (\<lambda>i. Inr (i\<lparr>TaprootScriptSpendSig := TaprootScriptSpendSig i @ [Some s]\<rparr>))"

definition signExactStage :: "lib \<Rightarrow> psbt_lib \<Rightarrow> guard_lib \<Rightarrow> string \<Rightarrow> signer option \<Rightarrow> bytes \<Rightarrow> string res" where
  "signExactStage L B G stored sg expectedXOnly =
     (case sg of None \<Rightarrow> go_err ''signer required''
      | Some sg \<Rightarrow>
        bindE (parseAndVerifyPrevout L B G stored) (\<lambda>(submitted, _).
        bindE (clonePacket G (Some submitted)) (\<lambda>work.
        bindE (signWithExpected sg work expectedXOnly) (\<lambda>response.
        bindE (extractVerifiedSignerSig L B (Some submitted) (Some response) expectedXOnly) (\<lambda>added.
        bindE (clonePacket G (Some submitted)) (\<lambda>out.
        bindE (add_sig added out) (\<lambda>out. B64Encode G out)))))))"

definition RemoteSigner_SignExpected ::
  "lib \<Rightarrow> psbt_lib \<Rightarrow> guard_lib \<Rightarrow> (string \<Rightarrow> string res) option \<Rightarrow> psbt option \<Rightarrow> bytes \<Rightarrow> psbt res" where
  "RemoteSigner_SignExpected L B G client ptx expected =
     (case client of None \<Rightarrow> go_err ''remote signer missing client''
      | Some SubmitOnchainTx \<Rightarrow>
        if length expected \<noteq> 32 then go_err ''remote signer missing expected key''
        else if \<not> one_input ptx then go_err ''exactly one input required''
        else if list_ex (\<lambda>s. case s of None \<Rightarrow> False | Some s \<Rightarrow> ss_XOnlyPubKey s = expected)
                  (TaprootScriptSpendSig (pk_Inputs (the ptx) ! 0))
        then go_err ''expected emulator signature is already present''
        else bindE (B64Encode G (the ptx)) (\<lambda>encoded.
        bindE (SubmitOnchainTx encoded) (\<lambda>sig.
        bindE (NewFromRawBytes G sig) (\<lambda>out.
        bindE (extractVerifiedSignerSig L B ptx (Some out) expected) (\<lambda>signerSig.
        bindE (clonePacket G ptx) (\<lambda>clone.
        if length (pk_Inputs clone) \<noteq> 1 then go_err ''cloned packet missing input''
        else add_sig signerSig clone))))))"

text \<open>The local signer: the arkade script of the packet entry has to run to a success first.
None: the run of the script does not return.\<close>

definition local_script :: "lib \<Rightarrow> psbt_lib \<Rightarrow> nat \<Rightarrow> psbt \<Rightarrow> msgtx \<Rightarrow> (ArkadeScript \<times> msgtx) res" where
  "local_script L B priv ptx t =
     bindE (FindEmulatorPacket L t) (\<lambda>packet.
     case packet of
       Some [entry] \<Rightarrow>
         bindE (ReadArkadeScript L (map TaprootLeafScript (pk_Inputs ptx)) (ScalarBaseMult L priv) entry) (\<lambda>scr.
         bindE (RequireVerifiedPrevout L B (Some ptx)) (\<lambda>prevTx. Inr (scr, prevTx)))
     | _ \<Rightarrow> go_err ''expected one emulator entry'')"

definition local_signature :: "lib \<Rightarrow> psbt_lib \<Rightarrow> nat \<Rightarrow> bytes \<Rightarrow> psbt \<Rightarrow> msgtx \<Rightarrow> txout \<Rightarrow> tapLeafScript \<Rightarrow> fetcher \<Rightarrow> psbt res" where
  "local_signature L B priv tweak ptx t prev lf f =
     (case ComputeArkadeScriptPrivateKey L priv tweak of None \<Rightarrow> go_err ''arkade tweak is degenerate''
      | Some key \<Rightarrow>
        bindE (at_idx (pk_Inputs ptx) 0) (\<lambda>inp.
        if SighashType inp \<noteq> SigHashDefault then go_err ''unsupported sighash''
        else bindE (VerifyTaprootLeafCommitment L (PkScript prev) lf) (\<lambda>_.
        let l = NewBaseTapLeaf (tls_Script lf) in
        bindE (RawTxInTapscriptSignature B t (NewTxSigHashes L t f) 0 (out_value prev) (PkScript prev) l SigHashDefault key) (\<lambda>sig.
        add_sig \<lparr>ss_XOnlyPubKey = schnorr_SerializePubKey L (ScalarBaseMult L key), ss_LeafHash = TapLeaf_TapHash L l,
                 ss_Signature = (if length sig = 65 then take 64 sig else sig), ss_SigHash = SigHashDefault\<rparr> ptx))))"

definition LocalSigner_Sign :: "lib \<Rightarrow> psbt_lib \<Rightarrow> nat option \<Rightarrow> psbt option \<Rightarrow> psbt res option" where
  "LocalSigner_Sign L B priv ptx =
     (case priv of None \<Rightarrow> Some (go_err ''local signer missing private key'')
      | Some priv \<Rightarrow>
        if \<not> one_input ptx then Some (go_err ''exactly one input required'')
        else let p = the ptx; t = the (UnsignedTx p); inp = pk_Inputs p ! 0 in
        (case WitnessUtxo inp of None \<Rightarrow> Some (go_err ''witness utxo required'')
        | Some prev \<Rightarrow> (case TaprootLeafScript inp of
            Some lf # _ \<Rightarrow>
              (case local_script L B priv p t of Inl e \<Rightarrow> Some (Inl e)
              | Inr (scr, prevTx) \<Rightarrow>
                let f = as_fetcher (WithPrevTx (NewPrevFetcher (PreviousOutPoint (TxIn t ! 0)) prev) (Some prevTx)) in
                (case ArkadeScript_Execute L scr (Some t) (Some f) 0 [] of None \<Rightarrow> None
                | Some (Inl e) \<Rightarrow> Some (Inl e)
                | Some (Inr _) \<Rightarrow> Some (local_signature L B priv (as_hash scr) p t prev lf f)))
          | _ \<Rightarrow> Some (go_err ''taproot leaf script required''))))"

end
