(* ===== verification/WebAuthn.thy ===== *)
theory WebAuthn
imports Prelude
begin

text \<open>Model of poc/2fa-vault/internal/webauthn: parsing of P-256 keys and DER signatures, the
semantic checks of an assertion, and the challenge encoding.  SHA-256, the P-256 curve and
the JSON parser are parameters; the base64 and ASN.1 codecs of the standard library are
written out for what is used of them.\<close>

record clientData =
  cd_Type :: string
  cd_Challenge :: string
  cd_Origin :: string
  cd_CrossOrigin :: "bool option"

record wa_lib =
  wa_SHA256 :: "bytes \<Rightarrow> bytes"
  wa_UnmarshalCompressed :: "bytes \<Rightarrow> (nat \<times> nat) option"
  wa_ecdsa_Verify :: "nat \<times> nat \<Rightarrow> bytes \<Rightarrow> nat \<Rightarrow> nat \<Rightarrow> bool"
  wa_client_data :: "bytes \<Rightarrow> clientData option"
  wa_json_object :: "bytes \<Rightarrow> (string \<times> bytes) list option"

definition p256_N :: nat where
  "p256_N = 0xffffffff00000000ffffffffffffffffbce6faada7179e84f3b9cac2fc632551"

subsection \<open>Base64url without padding\<close>

definition b64_alphabet :: string where
  "b64_alphabet = ''ABCDEFGHIJKLMNOPQRSTUVWXYZabcdefghijklmnopqrstuvwxyz0123456789-_''"

definition b64_char :: "nat \<Rightarrow> char" where
  "b64_char n = b64_alphabet ! n"

definition b64_value :: "char \<Rightarrow> nat option" where
  "b64_value c = map_of (zip b64_alphabet [0..<64]) c"

fun b64_encode :: "bytes \<Rightarrow> string" where
  "b64_encode (a # b # c # rest) =
     (let n = unat a * 65536 + unat b * 256 + unat c in
      [b64_char (n div 262144), b64_char (n div 4096 mod 64), b64_char (n div 64 mod 64), b64_char (n mod 64)] @
      b64_encode rest)"
| "b64_encode [a, b] =
     (let n = unat a * 1024 + unat b * 4 in [b64_char (n div 4096), b64_char (n div 64 mod 64), b64_char (n mod 64)])"
| "b64_encode [a] = (let n = unat a * 16 in [b64_char (n div 64), b64_char (n mod 64)])"
| "b64_encode [] = []"

fun b64_quanta :: "nat list \<Rightarrow> bytes option" where
  "b64_quanta (w # x # y # z # rest) =
     (let n = w * 262144 + x * 4096 + y * 64 + z in
      map_option (\<lambda>bs. [word_of_nat (n div 65536), word_of_nat (n div 256 mod 256), word_of_nat (n mod 256)] @ bs)
        (b64_quanta rest))"
| "b64_quanta [w, x, y] =
     (let n = w * 4096 + x * 64 + y in Some [word_of_nat (n div 1024), word_of_nat (n div 4 mod 256)])"
| "b64_quanta [w, x] = (let n = w * 64 + x in Some [word_of_nat (n div 16)])"
| "b64_quanta [w] = None"
| "b64_quanta [] = Some []"

text \<open>DecodeString skips line breaks, rejects other characters and a lone last one, and does not
look at the unused bits of the last one.\<close>

definition b64_decode :: "string \<Rightarrow> bytes option" where
  "b64_decode s =
     (let vs = map b64_value (filter (\<lambda>c. c \<notin> {CHR 0x0A, CHR 0x0D}) s) in
      if None \<in> set vs then None else b64_quanta (map the vs))"

definition decodeChallenge :: "string \<Rightarrow> bytes res" where
  "decodeChallenge s = (case b64_decode s of None \<Rightarrow> go_err ''challenge encoding'' | Some raw \<Rightarrow> Inr raw)"

definition EncodeChallenge :: "bytes \<Rightarrow> string" where
  "EncodeChallenge raw = b64_encode raw"

subsection \<open>DER signatures\<close>

text \<open>encoding/asn1 for a SEQUENCE of two INTEGERs: the length octets, one element with the expected
identifier octet, and a minimally encoded integer.  A long-form identifier never has the
expected one.\<close>

fun asn1_length_loop :: "nat \<Rightarrow> bytes \<Rightarrow> nat \<Rightarrow> (nat \<times> bytes) option" where
  "asn1_length_loop 0 bs n = Some (n, bs)"
| "asn1_length_loop (Suc k) [] n = None"
| "asn1_length_loop (Suc k) (b # bs) n =
     (if 2 ^ 23 \<le> n then None
      else let n = n * 256 + unat b in if n = 0 then None else asn1_length_loop k bs n)"

definition asn1_length :: "bytes \<Rightarrow> (nat \<times> bytes) option" where
  "asn1_length bs =
     (case bs of [] \<Rightarrow> None
      | b # bs \<Rightarrow>
          if b AND 0x80 = 0 then Some (unat (b AND 0x7f), bs)
          else if b AND 0x7f = 0 then None
          else case asn1_length_loop (unat (b AND 0x7f)) bs 0 of
              None \<Rightarrow> None
            | Some (n, bs) \<Rightarrow> if n < 0x80 then None else Some (n, bs))"

definition asn1_element :: "byte \<Rightarrow> bytes \<Rightarrow> (bytes \<times> bytes) option" where
  "asn1_element ident bs =
     (case bs of [] \<Rightarrow> None
      | b # bs \<Rightarrow>
          if b \<noteq> ident then None
          else case asn1_length bs of
              None \<Rightarrow> None
            | Some (n, bs) \<Rightarrow> if length bs < n then None else Some (take n bs, drop n bs))"

definition asn1_integer :: "bytes \<Rightarrow> int option" where
  "asn1_integer bs =
     (case bs of [] \<Rightarrow> None
      | b # rest \<Rightarrow>
          if rest \<noteq> [] \<and> (b = 0 \<and> hd rest AND 0x80 = 0 \<or> b = 0xff \<and> hd rest AND 0x80 = 0x80) then None
          else Some (if b AND 0x80 = 0x80 then int (be_val bs) - 2 ^ (8 * length bs) else int (be_val bs)))"

definition asn1_signature :: "bytes \<Rightarrow> ((int \<times> int) \<times> bytes) option" where
  "asn1_signature der =
     (case asn1_element 0x30 der of None \<Rightarrow> None
      | Some (inner, rest) \<Rightarrow>
          (case asn1_element 0x02 inner of None \<Rightarrow> None
           | Some (rb, inner) \<Rightarrow>
               (case asn1_integer rb of None \<Rightarrow> None
                | Some r \<Rightarrow>
                    (case asn1_element 0x02 inner of None \<Rightarrow> None
                     | Some (sb, _) \<Rightarrow>
                         (case asn1_integer sb of None \<Rightarrow> None | Some s \<Rightarrow> Some ((r, s), rest))))))"

definition canonicalScalar :: "int \<Rightarrow> unit res" where
  "canonicalScalar v =
     (if v < 0 then go_err ''der ecdsa: negative'' else if v = 0 then go_err ''der ecdsa: zero'' else Inr ())"

definition CompactLowS :: "bytes \<Rightarrow> bytes res" where
  "CompactLowS der =
     (case asn1_signature der of None \<Rightarrow> go_err ''der ecdsa''
      | Some ((r, s), rest) \<Rightarrow>
          if length rest \<noteq> 0 then go_err ''der ecdsa: trailing bytes''
          else bindE (canonicalScalar r) (\<lambda>_. bindE (canonicalScalar s) (\<lambda>_.
            if r \<le> 0 \<or> int p256_N \<le> r then go_err ''der ecdsa: r out of range''
            else if s \<le> 0 \<or> int p256_N \<le> s then go_err ''der ecdsa: s out of range''
            else let s = (if int (p256_N div 2) < s then int p256_N - s else s) in
              bindE (FillBytes32 (nat r)) (\<lambda>rb. bindE (FillBytes32 (nat s)) (\<lambda>sb. Inr (rb @ sb))))))"

subsection \<open>P-256 keys and signatures\<close>

definition ParseCompressedP256 :: "wa_lib \<Rightarrow> bytes \<Rightarrow> (nat \<times> nat) res" where
  "ParseCompressedP256 L b =
     (if length b \<noteq> 33 then go_err ''p256 must be 33-byte compressed''
      else if b ! 0 \<noteq> 0x02 \<and> b ! 0 \<noteq> 0x03 then go_err ''p256 compressed prefix''
      else case wa_UnmarshalCompressed L b of None \<Rightarrow> go_err ''p256 point is off-curve'' | Some p \<Rightarrow> Inr p)"

definition SignedMessage :: "wa_lib \<Rightarrow> bytes \<Rightarrow> bytes \<Rightarrow> bytes" where
  "SignedMessage L authenticatorData clientDataJSON = authenticatorData @ wa_SHA256 L clientDataJSON"

definition Digest :: "wa_lib \<Rightarrow> bytes \<Rightarrow> bytes \<Rightarrow> bytes" where
  "Digest L authenticatorData clientDataJSON = wa_SHA256 L (SignedMessage L authenticatorData clientDataJSON)"

text \<open>The range and low-S checks both verifications make; a nil key is None.\<close>

definition compact_scalars :: "bytes \<Rightarrow> (nat \<times> nat) res" where
  "compact_scalars compact =
     (if length compact \<noteq> 64 then go_err ''compact signature must be 64 bytes''
      else let r = be_val (take 32 compact); s = be_val (drop 32 compact) in
        if r = 0 \<or> s = 0 \<or> p256_N \<le> r \<or> p256_N \<le> s then go_err ''compact signature out of range''
        else if p256_N div 2 < s then go_err ''compact signature is not low-S''
        else Inr (r, s))"

definition VerifyES256 :: "wa_lib \<Rightarrow> (nat \<times> nat) option \<Rightarrow> bytes \<Rightarrow> bytes \<Rightarrow> bytes \<Rightarrow> unit res" where
  "VerifyES256 L pub authenticatorData clientDataJSON compact =
     (case pub of None \<Rightarrow> go_err ''nil p256 public key''
      | Some q \<Rightarrow> bindE (compact_scalars compact) (\<lambda>(r, s).
          if \<not> wa_ecdsa_Verify L q (Digest L authenticatorData clientDataJSON) r s
          then go_err ''es256 signature invalid'' else Inr ()))"

definition VerifyDigestLowS :: "wa_lib \<Rightarrow> (nat \<times> nat) option \<Rightarrow> bytes \<Rightarrow> bytes \<Rightarrow> unit res" where
  "VerifyDigestLowS L pub digest compact =
     (case pub of None \<Rightarrow> go_err ''nil p256 public key''
      | Some q \<Rightarrow>
          if length digest \<noteq> 32 then go_err ''digest must be 32 bytes''
          else bindE (compact_scalars compact) (\<lambda>(r, s).
            if \<not> wa_ecdsa_Verify L q digest r s then go_err ''direct p256 signature invalid'' else Inr ()))"

text \<open>Signing: the scalars ecdsa.Sign returns are a parameter.\<close>

definition SignDigestLowS :: "(bytes \<Rightarrow> (nat \<times> nat) res) option \<Rightarrow> bytes \<Rightarrow> bytes res" where
  "SignDigestLowS sign digest =
     (case sign of None \<Rightarrow> go_err ''nil p256 private key''
      | Some f \<Rightarrow>
          if length digest \<noteq> 32 then go_err ''digest must be 32 bytes''
          else bindE (f digest) (\<lambda>(r, s).
            let s = (if p256_N div 2 < s then p256_N - s else s) in
            bindE (FillBytes32 r) (\<lambda>rb. bindE (FillBytes32 s) (\<lambda>sb. Inr (rb @ sb)))))"

subsection \<open>Assertions\<close>

record assertion =
  as_CredentialID :: bytes
  ClientDataJSON :: bytes
  AuthenticatorData :: bytes
  DERSignature :: bytes

record expected =
  exp_CredentialID :: bytes
  exp_WebAuthnP256 :: bytes
  exp_Challenge :: bytes
  exp_Origin :: string
  exp_RPID :: string

record verified =
  ver_Assertion :: assertion
  CompactSig :: bytes
  ver_ClientData :: clientData
  SignCount :: nat

definition flagUP :: byte where "flagUP = 1"
definition flagUV :: byte where "flagUV = 4"

definition Validate_assertion :: "wa_lib \<Rightarrow> assertion \<Rightarrow> expected \<Rightarrow> verified res" where
  "Validate_assertion L a e =
     (if as_CredentialID a \<noteq> exp_CredentialID e then go_err ''unknown credential''
      else if length (exp_WebAuthnP256 e) \<noteq> 33 then go_err ''registered webauthn p256 key must be 33-byte compressed''
      else if length (exp_Challenge e) \<noteq> 32 then go_err ''challenge must be 32-byte arkade sighash''
      else if length (AuthenticatorData a) < 37 then go_err ''authenticatorData too short''
      else case wa_client_data L (ClientDataJSON a) of None \<Rightarrow> go_err ''clientDataJSON''
      | Some cd \<Rightarrow>
          if cd_Type cd \<noteq> ''webauthn.get'' then go_err ''clientDataJSON type''
          else if cd_Origin cd \<noteq> exp_Origin e then go_err ''origin''
          else if cd_CrossOrigin cd \<noteq> Some False then go_err ''crossOrigin must be false''
          else bindE (decodeChallenge (cd_Challenge cd)) (\<lambda>gotChallenge.
            if gotChallenge \<noteq> exp_Challenge e then go_err ''challenge mismatch''
            else if take 32 (AuthenticatorData a) \<noteq> wa_SHA256 L (go_bytes (exp_RPID e)) then go_err ''rpIdHash mismatch''
            else let flags = AuthenticatorData a ! 32 in
              if flags AND flagUP = 0 then go_err ''user presence required''
              else if flags AND flagUV = 0 then go_err ''user verification required''
              else bindE (CompactLowS (DERSignature a)) (\<lambda>compact.
                bindE (ParseCompressedP256 L (exp_WebAuthnP256 e)) (\<lambda>pub.
                bindE (VerifyES256 L (Some pub) (AuthenticatorData a) (ClientDataJSON a) compact) (\<lambda>_.
                Inr \<lparr>ver_Assertion = a, CompactSig = compact, ver_ClientData = cd,
                  SignCount = be_val (take 4 (drop 33 (AuthenticatorData a)))\<rparr>)))))"

definition ContainsPRFField :: "wa_lib \<Rightarrow> bytes \<Rightarrow> bool" where
  "ContainsPRFField L raw =
     (case wa_json_object L raw of None \<Rightarrow> False
      | Some obj \<Rightarrow>
          if map_of obj ''prf'' \<noteq> None then True
          else case map_of obj ''clientExtensionResults'' of None \<Rightarrow> False
            | Some ext \<Rightarrow> (case wa_json_object L ext of None \<Rightarrow> False | Some extObj \<Rightarrow> map_of extObj ''prf'' \<noteq> None))"

subsection \<open>Lemmas\<close>

lemma b64_value_char: "n < 64 \<Longrightarrow> b64_value (b64_char n) = Some n"
proof -
  assume "n < 64"
  moreover have "distinct b64_alphabet" "length b64_alphabet = 64" by code_simp+
  ultimately show ?thesis by (simp add: b64_value_def b64_char_def map_of_zip_nth)
qed

lemma b64_char_break: "n < 64 \<Longrightarrow> b64_char n \<notin> {CHR 0x0A, CHR 0x0D}"
proof -
  assume "n < 64"
  then have "b64_char n \<in> set b64_alphabet"
    unfolding b64_char_def by (intro nth_mem) (simp add: b64_alphabet_def)
  moreover have "CHR 0x0A \<notin> set b64_alphabet" "CHR 0x0D \<notin> set b64_alphabet" by code_simp+
  ultimately show ?thesis by auto
qed

lemma split_64: "n div 262144 * 262144 + n div 4096 mod 64 * 4096 + n div 64 mod 64 * 64 + n mod 64 = (n :: nat)"
proof -
  have "n div 4096 = n div 64 div 64" "n div 262144 = n div 4096 div 64"
    using div_mult2_eq[of n 64 64] div_mult2_eq[of n 4096 64] by simp_all
  then show ?thesis
    using div_mult_mod_eq[of n 64] div_mult_mod_eq[of "n div 64" 64] div_mult_mod_eq[of "n div 4096" 64] by linarith
qed

lemma join_256:
  assumes "b < 256" "c < (256 :: nat)"
  shows "(a * 65536 + b * 256 + c) div 65536 = a" "(a * 65536 + b * 256 + c) div 256 mod 256 = b"
    "(a * 65536 + b * 256 + c) mod 256 = c"
proof -
  show "(a * 65536 + b * 256 + c) div 65536 = a"
    using assms by (intro div_nat_eqI) auto
  have "(a * 65536 + b * 256 + c) div 256 = a * 256 + b"
    using assms by (intro div_nat_eqI) auto
  then show "(a * 65536 + b * 256 + c) div 256 mod 256 = b" using assms by simp
  have "a * 65536 + b * 256 + c = c + (a * 256 + b) * 256" by simp
  then show "(a * 65536 + b * 256 + c) mod 256 = c" using assms by (simp only: mod_mult_self1) simp
qed

fun b64_digits :: "bytes \<Rightarrow> nat list" where
  "b64_digits (a # b # c # rest) =
     (let n = unat a * 65536 + unat b * 256 + unat c in
      [n div 262144, n div 4096 mod 64, n div 64 mod 64, n mod 64] @ b64_digits rest)"
| "b64_digits [a, b] = (let n = unat a * 1024 + unat b * 4 in [n div 4096, n div 64 mod 64, n mod 64])"
| "b64_digits [a] = (let n = unat a * 16 in [n div 64, n mod 64])"
| "b64_digits [] = []"

lemma b64_encode_digits: "b64_encode bs = map b64_char (b64_digits bs)"
  by (induction bs rule: b64_digits.induct) (simp_all add: Let_def)

lemma byte_join_bounds:
  "unat (a :: byte) * 65536 + unat (b :: byte) * 256 + unat (c :: byte) < 64 * 262144"
  "unat a * 1024 + unat b * 4 < 64 * 4096"
  "unat a * 16 < 64 * 64"
  using unat_byte_lt[of a] unat_byte_lt[of b] unat_byte_lt[of c] by linarith+

lemma b64_digits_small: "list_all (\<lambda>n. n < 64) (b64_digits bs)"
proof (induction bs rule: b64_digits.induct)
  case (1 a b c rest)
  then show ?case
    using byte_join_bounds(1)[of a b c] by (simp add: Let_def less_mult_imp_div_less)
next
  case (2 a b)
  then show ?case using byte_join_bounds(2)[of a b] by (simp add: Let_def less_mult_imp_div_less)
next
  case (3 a)
  then show ?case using byte_join_bounds(3)[of a] by (simp add: Let_def less_mult_imp_div_less)
qed simp

lemma word_of_nat_unat_byte: "n = unat (b :: byte) \<Longrightarrow> word_of_nat n = b"
  by simp

lemma b64_quanta_digits: "b64_quanta (b64_digits bs) = Some bs"
proof (induction bs rule: b64_digits.induct)
  case (1 a b c rest)
  show ?case
    using 1 split_64[of "unat a * 65536 + unat b * 256 + unat c"] join_256[of "unat b" "unat c" "unat a"]
    by (simp add: Let_def)
next
  case (2 a b)
  let ?n = "unat a * 1024 + unat b * 4"
  have "?n div 262144 = 0" using byte_join_bounds(2)[of a b] by (simp add: div_eq_0_iff)
  then have "?n div 4096 mod 64 = ?n div 4096"
    using div_mult2_eq[of ?n 4096 64] by (simp add: div_eq_0_iff)
  then have "?n div 4096 * 4096 + ?n div 64 mod 64 * 64 + ?n mod 64 = ?n"
    using split_64[of ?n] \<open>?n div 262144 = 0\<close> by simp
  moreover have "?n div 1024 = unat a"
    using unat_byte_lt[of b] by (intro div_nat_eqI) auto
  moreover have "?n div 4 mod 256 = unat b"
  proof -
    have "?n div 4 = unat a * 256 + unat b" by simp
    then show ?thesis using unat_byte_lt[of b] by simp
  qed
  ultimately show ?case by (simp add: Let_def)
next
  case (3 a)
  let ?n = "unat a * 16"
  have n: "?n div 64 * 64 + ?n mod 64 = ?n" by (rule div_mult_mod_eq)
  show ?case by (simp only: b64_digits.simps Let_def b64_quanta.simps n) simp
qed simp

lemma challenge_decodes: "decodeChallenge (EncodeChallenge raw) = Inr raw"
proof -
  let ?ds = "b64_digits raw"
  have small: "\<forall>n \<in> set ?ds. n < 64" using b64_digits_small[of raw] by (simp add: list_all_iff)
  then have "filter (\<lambda>c. c \<notin> {CHR 0x0A, CHR 0x0D}) (map b64_char ?ds) = map b64_char ?ds"
    using b64_char_break by (intro filter_True) auto
  moreover have "map b64_value (map b64_char ?ds) = map Some ?ds"
    using small b64_value_char by simp
  ultimately have "b64_decode (b64_encode raw) = b64_quanta ?ds"
    by (simp add: b64_decode_def b64_encode_digits image_iff comp_def Let_def del: map_map)
       (simp add: comp_def)
  then show ?thesis
    by (simp add: decodeChallenge_def EncodeChallenge_def b64_quanta_digits)
qed

lemma p256_N_bound: "p256_N < 2 ^ 256" "p256_N div 2 < p256_N"
  by (simp_all add: p256_N_def)

text \<open>The scalars of a compact signature.\<close>

definition low_s :: "nat \<Rightarrow> nat" where
  "low_s s = (if p256_N div 2 < s then p256_N - s else s)"

lemma low_s_range: "0 < s \<Longrightarrow> s < p256_N \<Longrightarrow> 0 < low_s s \<and> low_s s \<le> p256_N div 2 \<and> low_s s < p256_N"
  by (auto simp: low_s_def p256_N_def)

lemma compact_scalars_join:
  assumes "FillBytes32 r = Inr rb" "FillBytes32 s = Inr sb" "0 < r" "r < p256_N" "0 < s" "s \<le> p256_N div 2"
  shows "compact_scalars (rb @ sb) = Inr (r, s)"
  using assms be_val_FillBytes32[OF assms(1)] be_val_FillBytes32[OF assms(2)] p256_N_bound(2)
  by (simp add: compact_scalars_def Let_def)

lemma FillBytes32_ok: "n < p256_N \<Longrightarrow> \<exists>b. FillBytes32 n = Inr b"
  using p256_N_bound(1) by (simp add: FillBytes32_def)

text \<open>CompactLowS succeeds exactly on a signature in range, and what it returns always passes
the checks of the verifications, with the scalar s in the lower half.\<close>

lemma CompactLowS_iff:
  "CompactLowS der = Inr c \<longleftrightarrow> (\<exists>r s. asn1_signature der = Some ((int r, int s), []) \<and>
     0 < r \<and> r < p256_N \<and> 0 < s \<and> s < p256_N \<and> compact_scalars c = Inr (r, low_s s) \<and> length c = 64)"
proof (cases "\<exists>r s. asn1_signature der = Some ((int r, int s), []) \<and> 0 < r \<and> r < p256_N \<and> 0 < s \<and> s < p256_N")
  case True
  then obtain r s where rs: "asn1_signature der = Some ((int r, int s), [])" "0 < r" "r < p256_N" "0 < s" "s < p256_N"
    by blast
  note low = low_s_range[OF rs(4,5)]
  obtain rb sb where b: "FillBytes32 r = Inr rb" "FillBytes32 (low_s s) = Inr sb"
    using FillBytes32_ok[OF rs(3)] FillBytes32_ok low by blast
  have s: "nat (if int (p256_N div 2) < int s then int p256_N - int s else int s) = low_s s"
    using rs(5) by (simp add: low_s_def nat_diff_distrib)
  have "CompactLowS der = Inr (rb @ sb)"
    using rs b s by (simp add: CompactLowS_def canonicalScalar_def Let_def)
  moreover have "compact_scalars c = Inr (r, low_s s) \<and> length c = 64 \<longleftrightarrow> c = rb @ sb"
  proof
    assume c: "compact_scalars c = Inr (r, low_s s) \<and> length c = 64"
    then have "be_val (take 32 c) = r" "be_val (drop 32 c) = low_s s"
      by (auto simp: compact_scalars_def Let_def split: if_splits)
    moreover have "FillBytes32 (be_val x) = Inr x" if "length x = 32" for x
      using that le_val_bound[of "rev x"] le_fixed_le_val[of "rev x" 32] by (simp add: FillBytes32_def be_val_def)
    moreover have c32: "length (take 32 c) = 32" "length (drop 32 c) = 32" using c by simp_all
    ultimately have "take 32 c = rb" "drop 32 c = sb"
      using b c by (metis (no_types) c32 Inr_inject)+
    then show "c = rb @ sb" by (metis append_take_drop_id)
  next
    assume "c = rb @ sb"
    then show "compact_scalars c = Inr (r, low_s s) \<and> length c = 64"
      using compact_scalars_join[OF b rs(2,3)] low be_val_FillBytes32[OF b(1)] be_val_FillBytes32[OF b(2)] by simp
  qed
  ultimately show ?thesis using rs by auto
next
  case False
  have "CompactLowS der \<noteq> Inr c"
  proof
    assume "CompactLowS der = Inr c"
    then obtain r s where "asn1_signature der = Some ((r, s), [])" "0 < r" "r < int p256_N" "0 < s" "s < int p256_N"
      by (auto simp: CompactLowS_def canonicalScalar_def split: option.splits if_splits)
    then have "asn1_signature der = Some ((int (nat r), int (nat s)), []) \<and> 0 < nat r \<and> nat r < p256_N \<and>
        0 < nat s \<and> nat s < p256_N" by (auto simp: nat_less_iff)
    with False show False by blast
  qed
  with False show ?thesis by blast
qed

subsection \<open>Properties\<close>

text \<open>C30: An accepted assertion is bound to everything the provider expects: the registered credential,
a get ceremony on the expected origin and not cross-origin, the challenge, the hash of the relying
party, user presence and verification; and its signature, put in the lower half of the order, verifies
under the registered key over the authenticator data and the hash of the client data.\<close>

theorem assertion_sound:
  assumes "Validate_assertion L a e = Inr v"
  shows "as_CredentialID a = exp_CredentialID e \<and> ver_Assertion v = a \<and>
    (\<exists>cd. wa_client_data L (ClientDataJSON a) = Some cd \<and> cd_Type cd = ''webauthn.get'' \<and> cd_Origin cd = exp_Origin e \<and>
       cd_CrossOrigin cd = Some False \<and> decodeChallenge (cd_Challenge cd) = Inr (exp_Challenge e)) \<and>
    length (exp_Challenge e) = 32 \<and>
    take 32 (AuthenticatorData a) = wa_SHA256 L (go_bytes (exp_RPID e)) \<and>
    AuthenticatorData a ! 32 AND flagUP \<noteq> 0 \<and> AuthenticatorData a ! 32 AND flagUV \<noteq> 0 \<and>
    (\<exists>q r s. wa_UnmarshalCompressed L (exp_WebAuthnP256 e) = Some q \<and> compact_scalars (CompactSig v) = Inr (r, low_s s) \<and>
       asn1_signature (DERSignature a) = Some ((int r, int s), []) \<and> low_s s \<le> p256_N div 2 \<and>
       wa_ecdsa_Verify L q (wa_SHA256 L (AuthenticatorData a @ wa_SHA256 L (ClientDataJSON a))) r (low_s s))"
proof -
  from assms obtain cd where cd: "wa_client_data L (ClientDataJSON a) = Some cd"
    by (auto simp: Validate_assertion_def split: if_splits option.splits)
  note run = assms[unfolded Validate_assertion_def cd]
  from run obtain compact pub where c: "CompactLowS (DERSignature a) = Inr compact"
    and p: "ParseCompressedP256 L (exp_WebAuthnP256 e) = Inr pub"
    and v: "VerifyES256 L (Some pub) (AuthenticatorData a) (ClientDataJSON a) compact = Inr ()"
    and res: "ver_Assertion v = a" "CompactSig v = compact"
    by (auto simp: Let_def split: if_splits elim!: bindE_InrE)
  have fields: "as_CredentialID a = exp_CredentialID e" "cd_Type cd = ''webauthn.get''" "cd_Origin cd = exp_Origin e"
    "cd_CrossOrigin cd = Some False" "decodeChallenge (cd_Challenge cd) = Inr (exp_Challenge e)"
    "length (exp_Challenge e) = 32" "take 32 (AuthenticatorData a) = wa_SHA256 L (go_bytes (exp_RPID e))"
    "AuthenticatorData a ! 32 AND flagUP \<noteq> 0" "AuthenticatorData a ! 32 AND flagUV \<noteq> 0"
    using run by (auto simp: Let_def split: if_splits elim!: bindE_InrE)
  obtain r s where rs: "asn1_signature (DERSignature a) = Some ((int r, int s), [])" "0 < s" "s < p256_N"
    "compact_scalars compact = Inr (r, low_s s)"
    using c by (auto simp: CompactLowS_iff)
  have q: "wa_UnmarshalCompressed L (exp_WebAuthnP256 e) = Some pub"
    using p by (auto simp: ParseCompressedP256_def split: if_splits option.splits)
  have "wa_ecdsa_Verify L pub (wa_SHA256 L (AuthenticatorData a @ wa_SHA256 L (ClientDataJSON a))) r (low_s s)"
    using v rs(4) by (auto simp: VerifyES256_def Digest_def SignedMessage_def split: if_splits)
  with fields cd res rs q low_s_range[OF rs(2,3)] show ?thesis by auto
qed

definition ex_wa :: wa_lib where
  "ex_wa = \<lparr>wa_SHA256 = (\<lambda>_. replicate 32 9), wa_UnmarshalCompressed = (\<lambda>_. Some (1, 2)), wa_ecdsa_Verify = (\<lambda>_ _ _ _. True),
     wa_client_data = (\<lambda>_. Some \<lparr>cd_Type = ''webauthn.get'', cd_Challenge = EncodeChallenge (replicate 32 5),
       cd_Origin = ''o'', cd_CrossOrigin = Some False\<rparr>), wa_json_object = (\<lambda>_. None)\<rparr>"

definition ex_assertion :: assertion where
  "ex_assertion = \<lparr>as_CredentialID = [1], ClientDataJSON = [], AuthenticatorData = replicate 32 9 @ [5, 0, 0, 0, 1],
     DERSignature = [0x30, 6, 2, 1, 7, 2, 1, 8]\<rparr>"

definition ex_expected :: expected where
  "ex_expected = \<lparr>exp_CredentialID = [1], exp_WebAuthnP256 = 2 # replicate 32 1, exp_Challenge = replicate 32 5,
     exp_Origin = ''o'', exp_RPID = ''r''\<rparr>"

lemma ex_compact: "\<exists>c. CompactLowS [0x30, 6, 2, 1, 7, 2, 1, 8] = Inr c \<and> compact_scalars c = Inr (7, 8)"
proof -
  have "asn1_signature [0x30, 6, 2, 1, 7, 2, 1, 8] = Some ((int 7, int 8), [])"
    by (simp add: asn1_signature_def asn1_element_def asn1_length_def asn1_integer_def be_val_def)
  moreover obtain b c where "FillBytes32 7 = Inr b" "FillBytes32 8 = Inr c" by (simp add: FillBytes32_def)
  ultimately have "CompactLowS [0x30, 6, 2, 1, 7, 2, 1, 8] = Inr (b @ c)"
    by (simp add: CompactLowS_def canonicalScalar_def Let_def p256_N_def)
  moreover have "compact_scalars (b @ c) = Inr (7, 8)"
    by (rule compact_scalars_join) (fact | simp add: p256_N_def)+
  ultimately show ?thesis by blast
qed

lemma ex_validated: "\<exists>v. Validate_assertion ex_wa ex_assertion ex_expected = Inr v"
proof -
  obtain c where c: "CompactLowS [0x30, 6, 2, 1, 7, 2, 1, 8] = Inr c" "compact_scalars c = Inr (7, 8)"
    using ex_compact by blast
  show ?thesis
    using c challenge_decodes[of "replicate 32 5"]
    by (simp add: Validate_assertion_def ex_assertion_def ex_expected_def ex_wa_def flagUP_def flagUV_def Let_def
        ParseCompressedP256_def VerifyES256_def nth_append)
qed

lemma assertion_sound_witness:
  "\<exists>v. Validate_assertion ex_wa ex_assertion ex_expected = Inr v \<and> as_CredentialID (ver_Assertion v) = [1]"
  using ex_validated assertion_sound[of ex_wa ex_assertion ex_expected] by (auto simp: ex_assertion_def)

text \<open>A direct signature round-trips: whatever scalars the signer draws, when the curve accepts
them and their negation (which ECDSA guarantees), the compact signature is accepted over its
digest and has its scalar s in the lower half.\<close>

theorem direct_signature_roundtrip:
  assumes "length digest = 32" "f digest = Inr (r, s)" "0 < r" "r < p256_N" "0 < s" "s < p256_N"
    and "wa_ecdsa_Verify L q digest r s" "wa_ecdsa_Verify L q digest r (p256_N - s)"
  shows "\<exists>sig. SignDigestLowS (Some f) digest = Inr sig \<and> VerifyDigestLowS L (Some q) digest sig = Inr () \<and>
    compact_scalars sig = Inr (r, low_s s)"
proof -
  note low = low_s_range[OF assms(5,6)]
  obtain rb sb where b: "FillBytes32 r = Inr rb" "FillBytes32 (low_s s) = Inr sb"
    using FillBytes32_ok[OF assms(4)] FillBytes32_ok low by blast
  have "SignDigestLowS (Some f) digest = Inr (rb @ sb)"
    using assms b by (simp add: SignDigestLowS_def Let_def flip: low_s_def)
  moreover have "compact_scalars (rb @ sb) = Inr (r, low_s s)"
    using compact_scalars_join[OF b assms(3,4)] low by simp
  moreover have "wa_ecdsa_Verify L q digest r (low_s s)"
    using assms by (simp add: low_s_def)
  ultimately show ?thesis using assms(1) by (simp add: VerifyDigestLowS_def)
qed

lemma direct_signature_roundtrip_witness:
  "\<exists>sig. SignDigestLowS (Some (\<lambda>_. Inr (3, p256_N - 1))) (replicate 32 0) = Inr sig \<and>
     compact_scalars sig = Inr (3, 1)"
  using direct_signature_roundtrip[of "replicate 32 0" "\<lambda>_. Inr (3, p256_N - 1)" 3 "p256_N - 1" ex_wa "(1, 2)"]
  by (auto simp: ex_wa_def p256_N_def low_s_def)

end
