(* ===== verification/VaultRecords.thy ===== *)
theory VaultRecords
imports WebAuthn
begin

text \<open>Model of the authenticated records of poc/2fa-vault/internal/policy: the enrolled credential
(ledger.go), its encrypted recovery envelope (envelope.go), the tenant descriptor and its passkey
(tenant.go), their validation, canonical encodings and integrity codes.

HMAC-SHA256 is a parameter.  Zeroing of buffers has no effect on values and is left out; a nil slice
and an empty one are the same value; a nil pointer is None.\<close>

type_synonym hmac = "bytes \<Rightarrow> bytes \<Rightarrow> bytes"

definition sha256_Size :: nat where "sha256_Size = 32"

definition AppendUint32 :: "bytes \<Rightarrow> uint32 \<Rightarrow> bytes" where
  "AppendUint32 dst w = dst @ le_fixed 4 (unat w)"

definition AppendUint64 :: "bytes \<Rightarrow> uint64 \<Rightarrow> bytes" where
  "AppendUint64 dst w = dst @ le_fixed 8 (unat w)"

definition appendCredentialField :: "bytes \<Rightarrow> bytes \<Rightarrow> bytes res" where
  "appendCredentialField dst field =
     (if length field > 2 ^ 32 - 1 then go_err ''credential field too large''
      else Inr (AppendUint32 dst (word_of_nat (length field)) @ field))"

primrec appendFields :: "bytes \<Rightarrow> bytes list \<Rightarrow> bytes res" where
  "appendFields out [] = Inr out"
| "appendFields out (field # fs) = bindE (appendCredentialField out field) (\<lambda>out. appendFields out fs)"

subsection \<open>The enrolled credential\<close>

record credential =
  cr_ID :: bytes
  cr_WebAuthnP256 :: bytes
  cr_PhoneDirectP256 :: bytes
  cr_PhoneRoutineBIP340 :: bytes
  cr_ExternalOwnerWallet :: bytes
  cr_RPID :: string
  cr_Origin :: string
  cr_RecoveryKey :: bytes
  cr_VaultCosignerBase :: bytes
  cr_TweakedVaultCosigner :: bytes
  cr_ArkadeCosignerBase :: bytes
  cr_TweakedArkadeCosigner :: bytes
  cr_ArkadeCosignerOrigin :: string
  cr_ArkadeCosignerVersion :: string
  cr_TemplateVersion :: string
  cr_PolicyVersion :: string
  cr_Network :: string
  cr_VaultID :: string
  cr_OperationalCSVType :: int64
  cr_OperationalCSVValue :: uint32
  cr_SavingsCSVType :: int64
  cr_SavingsCSVValue :: uint32
  cr_OperationalAddress :: string
  cr_OperationalScript :: bytes
  cr_SavingsAddress :: string
  cr_SavingsScript :: bytes
  cr_RecipientDustSats :: int64
  cr_TxRecipientCapSats :: int64
  cr_PeriodAllowanceSats :: int64
  cr_AbsoluteFeeCapSats :: int64
  cr_FeerateCapSatPerV :: int64
  cr_IntegrityMAC :: bytes

definition credentialIntegrityDomain :: string where
  "credentialIntegrityDomain = ''arkade-2fa-vault/credential-record/v3''"

definition canonicalCredential :: "credential \<Rightarrow> bytes res" where
  "canonicalCredential c =
     bindE (appendCredentialField [] (go_bytes credentialIntegrityDomain)) (\<lambda>out.
     bindE (appendFields (AppendUint32 out 3)
        [cr_ID c, cr_WebAuthnP256 c, cr_PhoneDirectP256 c, cr_PhoneRoutineBIP340 c,
         cr_ExternalOwnerWallet c, go_bytes (cr_RPID c), go_bytes (cr_Origin c),
         cr_RecoveryKey c, cr_VaultCosignerBase c,
         cr_TweakedVaultCosigner c, cr_ArkadeCosignerBase c, cr_TweakedArkadeCosigner c,
         go_bytes (cr_ArkadeCosignerOrigin c), go_bytes (cr_ArkadeCosignerVersion c),
         go_bytes (cr_TemplateVersion c), go_bytes (cr_PolicyVersion c),
         go_bytes (cr_Network c), go_bytes (cr_VaultID c)]) (\<lambda>out.
     let out = AppendUint64 out (cr_OperationalCSVType c);
         out = AppendUint32 out (cr_OperationalCSVValue c);
         out = AppendUint64 out (cr_SavingsCSVType c);
         out = AppendUint32 out (cr_SavingsCSVValue c);
         out = AppendUint64 out (cr_RecipientDustSats c);
         out = AppendUint64 out (cr_TxRecipientCapSats c);
         out = AppendUint64 out (cr_PeriodAllowanceSats c);
         out = AppendUint64 out (cr_AbsoluteFeeCapSats c);
         out = AppendUint64 out (cr_FeerateCapSatPerV c) in
     appendFields out
        [go_bytes (cr_OperationalAddress c), cr_OperationalScript c,
         go_bytes (cr_SavingsAddress c), cr_SavingsScript c]))"

definition credentialMAC :: "hmac \<Rightarrow> credential \<Rightarrow> bytes \<Rightarrow> bytes res" where
  "credentialMAC hmac c key =
     (if length key \<noteq> sha256_Size then go_err ''credential integrity key must be 32 bytes''
      else bindE (canonicalCredential c) (\<lambda>payload. Inr (hmac key payload)))"

definition SealCredential :: "hmac \<Rightarrow> credential option \<Rightarrow> bytes \<Rightarrow> credential res" where
  "SealCredential hmac c key =
     (case c of None \<Rightarrow> go_err ''credential required''
      | Some c \<Rightarrow> bindE (credentialMAC hmac c key) (\<lambda>mac. Inr (c\<lparr>cr_IntegrityMAC := mac\<rparr>)))"

definition VerifyCredentialIntegrity :: "hmac \<Rightarrow> credential option \<Rightarrow> bytes \<Rightarrow> unit res" where
  "VerifyCredentialIntegrity hmac c key =
     (case c of None \<Rightarrow> go_err ''credential integrity MAC missing or malformed''
      | Some c \<Rightarrow>
          if length (cr_IntegrityMAC c) \<noteq> sha256_Size then go_err ''credential integrity MAC missing or malformed''
          else bindE (credentialMAC hmac c key) (\<lambda>want.
            if cr_IntegrityMAC c \<noteq> want then go_err ''credential integrity MAC mismatch'' else Inr ()))"

definition requireCompressedKey :: "bytes \<Rightarrow> unit res" where
  "requireCompressedKey b =
     (if length b \<noteq> 33 \<or> b ! 0 \<noteq> 0x02 \<and> b ! 0 \<noteq> 0x03 then go_err ''must be 33-byte compressed secp256k1'' else Inr ())"

text \<open>The two loops over pairs of keys; slicing an empty key panics.\<close>

primrec independent_of :: "bytes \<Rightarrow> bytes list \<Rightarrow> unit res" where
  "independent_of k [] = Inr ()"
| "independent_of k (k' # keys) =
     bindE (slice k 1 (int (length k))) (\<lambda>x. bindE (slice k' 1 (int (length k'))) (\<lambda>x'.
       if x = x' then go_err ''secp256k1 key roles must be independent by x-only identity''
       else independent_of k keys))"

primrec requireIndependentXOnlyKeys :: "bytes list \<Rightarrow> unit res" where
  "requireIndependentXOnlyKeys [] = Inr ()"
| "requireIndependentXOnlyKeys (k # keys) =
     bindE (independent_of k keys) (\<lambda>_. requireIndependentXOnlyKeys keys)"

definition validateCredential :: "wa_lib \<Rightarrow> credential \<Rightarrow> unit res" where
  "validateCredential L c =
     (if length (cr_ID c) = 0 then go_err ''credential id required''
      else bindE (ParseCompressedP256 L (cr_WebAuthnP256 c)) (\<lambda>_.
      bindE (ParseCompressedP256 L (cr_PhoneDirectP256 c)) (\<lambda>_.
      if cr_WebAuthnP256 c = cr_PhoneDirectP256 c
      then go_err ''direct-auth p256 must be distinct from the webauthn credential p256''
      else if cr_RPID c = [] \<or> cr_Origin c = [] then go_err ''rp id and origin required''
      else bindE (requireCompressedKey (cr_PhoneRoutineBIP340 c)) (\<lambda>_.
      bindE (requireCompressedKey (cr_ExternalOwnerWallet c)) (\<lambda>_.
      bindE (requireCompressedKey (cr_RecoveryKey c)) (\<lambda>_.
      bindE (requireCompressedKey (cr_VaultCosignerBase c)) (\<lambda>_.
      bindE (requireCompressedKey (cr_TweakedVaultCosigner c)) (\<lambda>_.
      bindE (requireCompressedKey (cr_ArkadeCosignerBase c)) (\<lambda>_.
      bindE (requireCompressedKey (cr_TweakedArkadeCosigner c)) (\<lambda>_.
      bindE (requireIndependentXOnlyKeys
         [cr_PhoneRoutineBIP340 c, cr_ExternalOwnerWallet c, cr_RecoveryKey c, cr_VaultCosignerBase c,
          cr_TweakedVaultCosigner c, cr_ArkadeCosignerBase c, cr_TweakedArkadeCosigner c]) (\<lambda>_.
      if cr_Network c \<noteq> ''regtest'' \<and> (cr_ArkadeCosignerOrigin c = [] \<or> cr_ArkadeCosignerVersion c = [])
      then go_err ''public arkade cosigner origin and version required''
      else if cr_TemplateVersion c = [] \<or> cr_PolicyVersion c = [] \<or> cr_Network c = [] \<or> cr_VaultID c = []
      then go_err ''template, policy, network and vault id required''
      else if cr_OperationalCSVValue c = 0 \<or> cr_SavingsCSVValue c = 0 then go_err ''csv values required''
      else if cr_OperationalAddress c = [] \<or> cr_SavingsAddress c = [] \<or>
              length (cr_OperationalScript c) = 0 \<or> length (cr_SavingsScript c) = 0
      then go_err ''vault addresses and scripts required''
      else if cr_RecipientDustSats c \<le>s 0 \<or> cr_TxRecipientCapSats c <s cr_RecipientDustSats c \<or>
              cr_PeriodAllowanceSats c \<le>s 0 \<or> cr_AbsoluteFeeCapSats c <s 0 \<or> cr_FeerateCapSatPerV c \<le>s 0
      then go_err ''invalid persisted economic policy''
      else if length (cr_IntegrityMAC c) \<noteq> sha256_Size then go_err ''credential integrity MAC must be 32 bytes''
      else Inr ())))))))))))"

subsection \<open>The recovery envelope\<close>

record credentialEnvelope =
  env_Version :: uint32
  env_Binding :: string
  env_Nonce :: bytes
  env_Ciphertext :: bytes
  env_DirectSig :: bytes
  env_PhoneSig :: bytes
  env_IntegrityMAC :: bytes

definition CredentialEnvelopeVersion :: uint32 where "CredentialEnvelopeVersion = 1"
definition credentialEnvelopeDomain :: string where
  "credentialEnvelopeDomain = ''arkade-2fa-vault/credential-envelope/v1''"
definition credentialEnvelopeNonce :: nat where "credentialEnvelopeNonce = 12"
definition credentialEnvelopeCipher :: nat where "credentialEnvelopeCipher = 48"
definition credentialEnvelopeBinding :: nat where "credentialEnvelopeBinding = 16 * 1024"
definition credentialEnvelopeSig :: nat where "credentialEnvelopeSig = 64"

definition validateCredentialEnvelope :: "credentialEnvelope \<Rightarrow> unit res" where
  "validateCredentialEnvelope e =
     (if env_Version e \<noteq> CredentialEnvelopeVersion then go_err ''credential envelope version''
      else if length (env_Binding e) = 0 \<or> length (env_Binding e) > credentialEnvelopeBinding
      then go_err ''credential envelope binding''
      else if length (env_Nonce e) \<noteq> credentialEnvelopeNonce then go_err ''credential envelope nonce''
      else if length (env_Ciphertext e) \<noteq> credentialEnvelopeCipher then go_err ''credential envelope ciphertext''
      else if length (env_DirectSig e) \<noteq> credentialEnvelopeSig then go_err ''credential envelope direct signature''
      else if length (env_PhoneSig e) \<noteq> credentialEnvelopeSig then go_err ''credential envelope phone signature''
      else if length (env_IntegrityMAC e) \<noteq> 0 \<and> length (env_IntegrityMAC e) \<noteq> sha256_Size
      then go_err ''credential envelope integrity MAC must be 32 bytes''
      else Inr ())"

text \<open>The payload of the envelope; here the lengths are converted to 32 bits without a check.\<close>

definition append_field :: "bytes \<Rightarrow> bytes \<Rightarrow> bytes" where
  "append_field payload field = AppendUint32 payload (word_of_nat (length field)) @ field"

definition envelope_payload :: "credentialEnvelope \<Rightarrow> bytes \<Rightarrow> bytes" where
  "envelope_payload e credentialID =
     (let payload = append_field [] (go_bytes credentialEnvelopeDomain);
          payload = AppendUint32 payload (env_Version e);
          payload = append_field payload credentialID;
          payload = append_field payload (go_bytes (env_Binding e));
          payload = append_field payload (env_Nonce e);
          payload = append_field payload (env_Ciphertext e);
          payload = append_field payload (env_DirectSig e) in
      append_field payload (env_PhoneSig e))"

definition credentialEnvelopeMAC :: "hmac \<Rightarrow> credentialEnvelope \<Rightarrow> bytes \<Rightarrow> bytes \<Rightarrow> bytes res" where
  "credentialEnvelopeMAC hmac e credentialID key =
     (if length key \<noteq> sha256_Size then go_err ''credential integrity key must be 32 bytes''
      else bindE (validateCredentialEnvelope e) (\<lambda>_. Inr (hmac key (envelope_payload e credentialID))))"

definition SealCredentialEnvelope :: "hmac \<Rightarrow> credentialEnvelope option \<Rightarrow> bytes \<Rightarrow> bytes \<Rightarrow> credentialEnvelope res" where
  "SealCredentialEnvelope hmac e credentialID key =
     (case e of None \<Rightarrow> go_err ''credential envelope required''
      | Some e \<Rightarrow> bindE (credentialEnvelopeMAC hmac e credentialID key) (\<lambda>mac. Inr (e\<lparr>env_IntegrityMAC := mac\<rparr>)))"

definition VerifyCredentialEnvelope :: "hmac \<Rightarrow> credentialEnvelope option \<Rightarrow> bytes \<Rightarrow> bytes \<Rightarrow> unit res" where
  "VerifyCredentialEnvelope hmac e credentialID key =
     (case e of None \<Rightarrow> go_err ''credential envelope integrity MAC missing or malformed''
      | Some e \<Rightarrow>
          if length (env_IntegrityMAC e) \<noteq> sha256_Size
          then go_err ''credential envelope integrity MAC missing or malformed''
          else bindE (credentialEnvelopeMAC hmac e credentialID key) (\<lambda>want.
            if env_IntegrityMAC e \<noteq> want then go_err ''credential envelope integrity MAC mismatch'' else Inr ()))"

subsection \<open>The tenant descriptor and its passkey\<close>

record vaultRecord =
  vr_VaultID :: string
  vr_TemplateVersion :: string
  vr_PolicyVersion :: string
  vr_Network :: string
  vr_RPID :: string
  vr_Origin :: string
  vr_PhoneRoutineBIP340 :: bytes
  vr_PhoneDirectP256 :: bytes
  vr_ExternalOwnerWallet :: bytes
  vr_RecoveryKey :: bytes
  vr_VaultCosignerBase :: bytes
  vr_TweakedVaultCosigner :: bytes
  vr_ArkadeCosignerBase :: bytes
  vr_TweakedArkadeCosigner :: bytes
  vr_ArkadeCosignerOrigin :: string
  vr_ArkadeCosignerVersion :: string
  vr_CosignerMode :: string
  vr_OperationalCSVType :: int64
  vr_OperationalCSVValue :: uint32
  vr_SavingsCSVType :: int64
  vr_SavingsCSVValue :: uint32
  vr_OperationalAddress :: string
  vr_OperationalScript :: bytes
  vr_SavingsAddress :: string
  vr_SavingsScript :: bytes
  vr_RecipientDustSats :: int64
  vr_TxRecipientCapSats :: int64
  vr_PeriodAllowanceSats :: int64
  vr_AbsoluteFeeCapSats :: int64
  vr_FeerateCapSatPerV :: int64
  vr_IntegrityMAC :: bytes

record vaultCredential =
  vc_CredentialID :: bytes
  vc_VaultID :: string
  vc_WebAuthnP256 :: bytes
  vc_UserHandle :: bytes
  vc_Resident :: bool
  vc_IntegrityMAC :: bytes

definition CosignerModeLegacyDirectV0 :: string where "CosignerModeLegacyDirectV0 = ''legacy-direct-v0''"
definition CosignerModeHKDFSHA256V1 :: string where "CosignerModeHKDFSHA256V1 = ''hkdf-sha256-v1''"
definition LegacyFirstVaultID :: string where "LegacyFirstVaultID = ''operational-vault-v1''"
definition vaultRecordMACDomain :: string where "vaultRecordMACDomain = ''arkade-2fa-vault/vault-record/v4''"
definition vaultCredentialMACDomain :: string where
  "vaultCredentialMACDomain = ''arkade-2fa-vault/vault-credential/v1''"

definition vaultRecordFromCredential :: "credential \<Rightarrow> vaultRecord" where
  "vaultRecordFromCredential c =
     (let mode = (if cr_VaultID c = LegacyFirstVaultID then CosignerModeLegacyDirectV0 else CosignerModeHKDFSHA256V1) in
      \<lparr>vr_VaultID = cr_VaultID c, vr_TemplateVersion = cr_TemplateVersion c, vr_PolicyVersion = cr_PolicyVersion c,
       vr_Network = cr_Network c, vr_RPID = cr_RPID c, vr_Origin = cr_Origin c,
       vr_PhoneRoutineBIP340 = cr_PhoneRoutineBIP340 c, vr_PhoneDirectP256 = cr_PhoneDirectP256 c,
       vr_ExternalOwnerWallet = cr_ExternalOwnerWallet c, vr_RecoveryKey = cr_RecoveryKey c,
       vr_VaultCosignerBase = cr_VaultCosignerBase c, vr_TweakedVaultCosigner = cr_TweakedVaultCosigner c,
       vr_ArkadeCosignerBase = cr_ArkadeCosignerBase c, vr_TweakedArkadeCosigner = cr_TweakedArkadeCosigner c,
       vr_ArkadeCosignerOrigin = cr_ArkadeCosignerOrigin c, vr_ArkadeCosignerVersion = cr_ArkadeCosignerVersion c,
       vr_CosignerMode = mode,
       vr_OperationalCSVType = cr_OperationalCSVType c, vr_OperationalCSVValue = cr_OperationalCSVValue c,
       vr_SavingsCSVType = cr_SavingsCSVType c, vr_SavingsCSVValue = cr_SavingsCSVValue c,
       vr_OperationalAddress = cr_OperationalAddress c, vr_OperationalScript = cr_OperationalScript c,
       vr_SavingsAddress = cr_SavingsAddress c, vr_SavingsScript = cr_SavingsScript c,
       vr_RecipientDustSats = cr_RecipientDustSats c, vr_TxRecipientCapSats = cr_TxRecipientCapSats c,
       vr_PeriodAllowanceSats = cr_PeriodAllowanceSats c, vr_AbsoluteFeeCapSats = cr_AbsoluteFeeCapSats c,
       vr_FeerateCapSatPerV = cr_FeerateCapSatPerV c, vr_IntegrityMAC = []\<rparr>)"

definition toCredential :: "vaultRecord \<Rightarrow> vaultCredential \<Rightarrow> credential" where
  "toCredential v cred =
     \<lparr>cr_ID = vc_CredentialID cred, cr_WebAuthnP256 = vc_WebAuthnP256 cred, cr_PhoneDirectP256 = vr_PhoneDirectP256 v,
      cr_PhoneRoutineBIP340 = vr_PhoneRoutineBIP340 v, cr_ExternalOwnerWallet = vr_ExternalOwnerWallet v,
      cr_RPID = vr_RPID v, cr_Origin = vr_Origin v, cr_RecoveryKey = vr_RecoveryKey v,
      cr_VaultCosignerBase = vr_VaultCosignerBase v, cr_TweakedVaultCosigner = vr_TweakedVaultCosigner v,
      cr_ArkadeCosignerBase = vr_ArkadeCosignerBase v, cr_TweakedArkadeCosigner = vr_TweakedArkadeCosigner v,
      cr_ArkadeCosignerOrigin = vr_ArkadeCosignerOrigin v, cr_ArkadeCosignerVersion = vr_ArkadeCosignerVersion v,
      cr_TemplateVersion = vr_TemplateVersion v, cr_PolicyVersion = vr_PolicyVersion v,
      cr_Network = vr_Network v, cr_VaultID = vr_VaultID v,
      cr_OperationalCSVType = vr_OperationalCSVType v, cr_OperationalCSVValue = vr_OperationalCSVValue v,
      cr_SavingsCSVType = vr_SavingsCSVType v, cr_SavingsCSVValue = vr_SavingsCSVValue v,
      cr_OperationalAddress = vr_OperationalAddress v, cr_OperationalScript = vr_OperationalScript v,
      cr_SavingsAddress = vr_SavingsAddress v, cr_SavingsScript = vr_SavingsScript v,
      cr_RecipientDustSats = vr_RecipientDustSats v, cr_TxRecipientCapSats = vr_TxRecipientCapSats v,
      cr_PeriodAllowanceSats = vr_PeriodAllowanceSats v, cr_AbsoluteFeeCapSats = vr_AbsoluteFeeCapSats v,
      cr_FeerateCapSatPerV = vr_FeerateCapSatPerV v, cr_IntegrityMAC = []\<rparr>"

definition vault_payload :: "vaultRecord \<Rightarrow> bytes res" where
  "vault_payload v =
     bindE (appendCredentialField [] (go_bytes vaultRecordMACDomain)) (\<lambda>out.
     bindE (appendFields (AppendUint32 out 4)
        [go_bytes (vr_VaultID v), go_bytes (vr_TemplateVersion v), go_bytes (vr_PolicyVersion v),
         go_bytes (vr_CosignerMode v), go_bytes (vr_Network v), go_bytes (vr_RPID v), go_bytes (vr_Origin v),
         vr_PhoneRoutineBIP340 v, vr_PhoneDirectP256 v, vr_ExternalOwnerWallet v, vr_RecoveryKey v,
         vr_VaultCosignerBase v, vr_TweakedVaultCosigner v, vr_ArkadeCosignerBase v, vr_TweakedArkadeCosigner v,
         go_bytes (vr_ArkadeCosignerOrigin v), go_bytes (vr_ArkadeCosignerVersion v)]) (\<lambda>out.
     let out = AppendUint64 out (vr_OperationalCSVType v);
         out = AppendUint32 out (vr_OperationalCSVValue v);
         out = AppendUint64 out (vr_SavingsCSVType v);
         out = AppendUint32 out (vr_SavingsCSVValue v);
         out = AppendUint64 out (vr_RecipientDustSats v);
         out = AppendUint64 out (vr_TxRecipientCapSats v);
         out = AppendUint64 out (vr_PeriodAllowanceSats v);
         out = AppendUint64 out (vr_AbsoluteFeeCapSats v);
         out = AppendUint64 out (vr_FeerateCapSatPerV v) in
     appendFields out
        [go_bytes (vr_OperationalAddress v), vr_OperationalScript v,
         go_bytes (vr_SavingsAddress v), vr_SavingsScript v]))"

definition vaultRecordMAC :: "hmac \<Rightarrow> vaultRecord \<Rightarrow> bytes \<Rightarrow> bytes res" where
  "vaultRecordMAC hmac v key =
     (if length key \<noteq> sha256_Size then go_err ''credential integrity key must be 32 bytes''
      else bindE (vault_payload v) (\<lambda>out. Inr (hmac key out)))"

definition sealVaultRecord :: "hmac \<Rightarrow> vaultRecord \<Rightarrow> bytes \<Rightarrow> vaultRecord res" where
  "sealVaultRecord hmac v key = bindE (vaultRecordMAC hmac v key) (\<lambda>mac. Inr (v\<lparr>vr_IntegrityMAC := mac\<rparr>))"

definition verifyVaultRecord :: "hmac \<Rightarrow> vaultRecord option \<Rightarrow> bytes \<Rightarrow> unit res" where
  "verifyVaultRecord hmac v key =
     (case v of None \<Rightarrow> go_err ''vault integrity MAC missing or malformed''
      | Some v \<Rightarrow>
          if length (vr_IntegrityMAC v) \<noteq> sha256_Size then go_err ''vault integrity MAC missing or malformed''
          else bindE (vaultRecordMAC hmac v key) (\<lambda>want.
            if vr_IntegrityMAC v \<noteq> want then go_err ''vault integrity MAC mismatch'' else Inr ()))"

definition vault_credential_payload :: "vaultCredential \<Rightarrow> bytes res" where
  "vault_credential_payload c =
     bindE (appendCredentialField [] (go_bytes vaultCredentialMACDomain)) (\<lambda>out.
     bindE (appendFields out [vc_CredentialID c, go_bytes (vc_VaultID c), vc_WebAuthnP256 c, vc_UserHandle c]) (\<lambda>out.
     Inr (out @ [if vc_Resident c then 1 else 0])))"

definition vaultCredentialMAC :: "hmac \<Rightarrow> vaultCredential \<Rightarrow> bytes \<Rightarrow> bytes res" where
  "vaultCredentialMAC hmac c key =
     (if length key \<noteq> sha256_Size then go_err ''credential integrity key must be 32 bytes''
      else bindE (vault_credential_payload c) (\<lambda>out. Inr (hmac key out)))"

definition sealVaultCredential :: "hmac \<Rightarrow> vaultCredential \<Rightarrow> bytes \<Rightarrow> vaultCredential res" where
  "sealVaultCredential hmac c key = bindE (vaultCredentialMAC hmac c key) (\<lambda>mac. Inr (c\<lparr>vc_IntegrityMAC := mac\<rparr>))"

definition verifyVaultCredential :: "hmac \<Rightarrow> vaultCredential option \<Rightarrow> bytes \<Rightarrow> unit res" where
  "verifyVaultCredential hmac c key =
     (case c of None \<Rightarrow> go_err ''vault credential integrity MAC missing or malformed''
      | Some c \<Rightarrow>
          if length (vc_IntegrityMAC c) \<noteq> sha256_Size then go_err ''vault credential integrity MAC missing or malformed''
          else bindE (vaultCredentialMAC hmac c key) (\<lambda>want.
            if vc_IntegrityMAC c \<noteq> want then go_err ''vault credential integrity MAC mismatch'' else Inr ()))"

subsection \<open>Field-by-field comparison\<close>

text \<open>A switch over the fields in order: the first that differs is the error.\<close>

primrec first_difference :: "(bool \<times> string) list \<Rightarrow> unit res" where
  "first_difference [] = Inr ()"
| "first_difference (c # cs) = (if \<not> fst c then go_err (snd c) else first_difference cs)"

definition envelopesEqual :: "credentialEnvelope \<Rightarrow> credentialEnvelope \<Rightarrow> bool" where
  "envelopesEqual a b \<longleftrightarrow> env_Version a = env_Version b \<and> env_Binding a = env_Binding b \<and>
     env_Nonce a = env_Nonce b \<and> env_Ciphertext a = env_Ciphertext b \<and>
     env_DirectSig a = env_DirectSig b \<and> env_PhoneSig a = env_PhoneSig b \<and>
     env_IntegrityMAC a = env_IntegrityMAC b"

definition vaultRecordsCanonicallyEqual :: "vaultRecord \<Rightarrow> vaultRecord \<Rightarrow> unit res" where
  "vaultRecordsCanonicallyEqual got want = first_difference
     [(vr_VaultID got = vr_VaultID want, ''vault_id''),
      (vr_TemplateVersion got = vr_TemplateVersion want, ''template_version''),
      (vr_PolicyVersion got = vr_PolicyVersion want, ''policy_version''),
      (vr_Network got = vr_Network want, ''network''),
      (vr_RPID got = vr_RPID want, ''rp_id''),
      (vr_Origin got = vr_Origin want, ''origin''),
      (vr_PhoneRoutineBIP340 got = vr_PhoneRoutineBIP340 want, ''phone_routine_bip340''),
      (vr_PhoneDirectP256 got = vr_PhoneDirectP256 want, ''phone_direct_p256''),
      (vr_ExternalOwnerWallet got = vr_ExternalOwnerWallet want, ''external_owner_wallet''),
      (vr_RecoveryKey got = vr_RecoveryKey want, ''recovery_key''),
      (vr_VaultCosignerBase got = vr_VaultCosignerBase want, ''vault_cosigner_base''),
      (vr_TweakedVaultCosigner got = vr_TweakedVaultCosigner want, ''tweaked_vault_cosigner''),
      (vr_ArkadeCosignerBase got = vr_ArkadeCosignerBase want, ''arkade_cosigner_base''),
      (vr_TweakedArkadeCosigner got = vr_TweakedArkadeCosigner want, ''tweaked_arkade_cosigner''),
      (vr_ArkadeCosignerOrigin got = vr_ArkadeCosignerOrigin want, ''arkade_cosigner_origin''),
      (vr_ArkadeCosignerVersion got = vr_ArkadeCosignerVersion want, ''arkade_cosigner_version''),
      (vr_CosignerMode got = vr_CosignerMode want, ''cosigner_mode''),
      (vr_OperationalCSVType got = vr_OperationalCSVType want, ''operational_csv_type''),
      (vr_OperationalCSVValue got = vr_OperationalCSVValue want, ''operational_csv_value''),
      (vr_SavingsCSVType got = vr_SavingsCSVType want, ''savings_csv_type''),
      (vr_SavingsCSVValue got = vr_SavingsCSVValue want, ''savings_csv_value''),
      (vr_OperationalAddress got = vr_OperationalAddress want, ''operational_address''),
      (vr_OperationalScript got = vr_OperationalScript want, ''operational_script''),
      (vr_SavingsAddress got = vr_SavingsAddress want, ''savings_address''),
      (vr_SavingsScript got = vr_SavingsScript want, ''savings_script''),
      (vr_RecipientDustSats got = vr_RecipientDustSats want, ''recipient_dust_sats''),
      (vr_TxRecipientCapSats got = vr_TxRecipientCapSats want, ''tx_recipient_cap_sats''),
      (vr_PeriodAllowanceSats got = vr_PeriodAllowanceSats want, ''period_allowance_sats''),
      (vr_AbsoluteFeeCapSats got = vr_AbsoluteFeeCapSats want, ''absolute_fee_cap_sats''),
      (vr_FeerateCapSatPerV got = vr_FeerateCapSatPerV want, ''feerate_cap_sat_vb'')]"

definition vaultCredentialsCanonicallyEqual :: "vaultCredential \<Rightarrow> vaultCredential \<Rightarrow> unit res" where
  "vaultCredentialsCanonicallyEqual got want = first_difference
     [(vc_CredentialID got = vc_CredentialID want, ''credential_id''),
      (vc_VaultID got = vc_VaultID want, ''vault_id''),
      (vc_WebAuthnP256 got = vc_WebAuthnP256 want, ''webauthn_p256''),
      (vc_UserHandle got = vc_UserHandle want, ''user_handle''),
      (vc_Resident got = vc_Resident want, ''resident'')]"

definition credential_fields_equal :: "credential \<Rightarrow> credential \<Rightarrow> unit res" where
  "credential_fields_equal got want = first_difference
     [(cr_ID got = cr_ID want, ''credential_id''),
      (cr_VaultID got = cr_VaultID want, ''vault_id''),
      (cr_RPID got = cr_RPID want, ''rp_id''),
      (cr_Origin got = cr_Origin want, ''origin''),
      (cr_Network got = cr_Network want, ''network''),
      (cr_TemplateVersion got = cr_TemplateVersion want, ''template_version''),
      (cr_PolicyVersion got = cr_PolicyVersion want, ''policy_version''),
      (cr_WebAuthnP256 got = cr_WebAuthnP256 want, ''webauthn_p256''),
      (cr_PhoneDirectP256 got = cr_PhoneDirectP256 want, ''phone_direct_p256''),
      (cr_PhoneRoutineBIP340 got = cr_PhoneRoutineBIP340 want, ''phone_routine_bip340''),
      (cr_ExternalOwnerWallet got = cr_ExternalOwnerWallet want, ''external_owner_wallet''),
      (cr_RecoveryKey got = cr_RecoveryKey want, ''recovery_key''),
      (cr_VaultCosignerBase got = cr_VaultCosignerBase want, ''vault_cosigner_base''),
      (cr_TweakedVaultCosigner got = cr_TweakedVaultCosigner want, ''tweaked_vault_cosigner''),
      (cr_ArkadeCosignerBase got = cr_ArkadeCosignerBase want, ''arkade_cosigner_base''),
      (cr_TweakedArkadeCosigner got = cr_TweakedArkadeCosigner want, ''tweaked_arkade_cosigner''),
      (cr_ArkadeCosignerOrigin got = cr_ArkadeCosignerOrigin want, ''arkade_cosigner_origin''),
      (cr_ArkadeCosignerVersion got = cr_ArkadeCosignerVersion want, ''arkade_cosigner_version''),
      (cr_OperationalCSVType got = cr_OperationalCSVType want, ''operational_csv_type''),
      (cr_OperationalCSVValue got = cr_OperationalCSVValue want, ''operational_csv_value''),
      (cr_SavingsCSVType got = cr_SavingsCSVType want, ''savings_csv_type''),
      (cr_SavingsCSVValue got = cr_SavingsCSVValue want, ''savings_csv_value''),
      (cr_OperationalAddress got = cr_OperationalAddress want, ''operational_address''),
      (cr_OperationalScript got = cr_OperationalScript want, ''operational_script''),
      (cr_SavingsAddress got = cr_SavingsAddress want, ''savings_address''),
      (cr_SavingsScript got = cr_SavingsScript want, ''savings_script''),
      (cr_RecipientDustSats got = cr_RecipientDustSats want, ''recipient_dust_sats''),
      (cr_TxRecipientCapSats got = cr_TxRecipientCapSats want, ''tx_recipient_cap_sats''),
      (cr_PeriodAllowanceSats got = cr_PeriodAllowanceSats want, ''period_allowance_sats''),
      (cr_AbsoluteFeeCapSats got = cr_AbsoluteFeeCapSats want, ''absolute_fee_cap_sats''),
      (cr_FeerateCapSatPerV got = cr_FeerateCapSatPerV want, ''feerate_cap_sat_vb''),
      (cr_IntegrityMAC got = cr_IntegrityMAC want, ''integrity_mac'')]"

definition credentialIdentitiesEqual :: "credential option \<Rightarrow> credential option \<Rightarrow> unit res" where
  "credentialIdentitiesEqual got want =
     (case (got, want) of (None, None) \<Rightarrow> Inr ()
      | (Some g, Some w) \<Rightarrow> credential_fields_equal g w
      | _ \<Rightarrow> go_err ''credential presence'')"

subsection \<open>The encodings are injective\<close>

definition short_field :: "bytes \<Rightarrow> bool" where
  "short_field f \<longleftrightarrow> length f < 2 ^ 32"

definition field_bytes :: "bytes \<Rightarrow> bytes" where
  "field_bytes f = le_fixed 4 (length f) @ f"

lemma appendCredentialField_eq:
  "appendCredentialField dst f = (if short_field f then Inr (dst @ field_bytes f) else go_err ''credential field too large'')"
  by (auto simp: appendCredentialField_def short_field_def field_bytes_def AppendUint32_def unat_of_nat)

lemma append_field_eq: "short_field f \<Longrightarrow> append_field dst f = dst @ field_bytes f"
  by (auto simp: append_field_def short_field_def field_bytes_def AppendUint32_def unat_of_nat)

lemma appendFields_Inr:
  "appendFields out fs = Inr r \<longleftrightarrow> list_all short_field fs \<and> r = out @ concat (map field_bytes fs)"
  by (induction fs arbitrary: out) (auto simp: appendCredentialField_eq)

lemma le_fixed_inject: "m < 256 ^ k \<Longrightarrow> n < 256 ^ k \<Longrightarrow> le_fixed k m = le_fixed k n \<longleftrightarrow> m = n"
  by (metis le_val_le_fixed mod_less)

lemma field_bytes_cancel:
  assumes "short_field f" "short_field g"
  shows "field_bytes f @ x = field_bytes g @ y \<longleftrightarrow> f = g \<and> x = y"
  using assms by (auto simp: field_bytes_def short_field_def le_fixed_inject)

lemma fields_cancel:
  assumes "length fs = length gs" "list_all short_field fs" "list_all short_field gs"
  shows "concat (map field_bytes fs) @ x = concat (map field_bytes gs) @ y \<longleftrightarrow> fs = gs \<and> x = y"
  using assms by (induction fs gs rule: list_induct2) (auto simp: field_bytes_cancel)

lemma uint_cancel:
  "le_fixed 4 (unat (a :: uint32)) @ x = le_fixed 4 (unat b) @ y \<longleftrightarrow> a = b \<and> x = y"
  "le_fixed 8 (unat (c :: uint64)) @ x = le_fixed 8 (unat d) @ y \<longleftrightarrow> c = d \<and> x = y"
proof -
  have "unat (w :: uint32) < 256 ^ 4" for w by (rule less_le_trans[OF unsigned_less]) simp
  then show "le_fixed 4 (unat (a :: uint32)) @ x = le_fixed 4 (unat b) @ y \<longleftrightarrow> a = b \<and> x = y"
    by (simp add: le_fixed_inject word_unat_eq_iff)
  have "unat (w :: uint64) < 256 ^ 8" for w by (rule less_le_trans[OF unsigned_less]) simp
  then show "le_fixed 8 (unat (c :: uint64)) @ x = le_fixed 8 (unat d) @ y \<longleftrightarrow> c = d \<and> x = y"
    by (simp add: le_fixed_inject word_unat_eq_iff)
qed

lemmas encoding_cancel = fields_cancel fields_cancel[where x = "[]" and y = "[]", simplified] uint_cancel

text \<open>The canonical encoding of a list of parts: fields, then integers, then fields.\<close>

definition encoded :: "string \<Rightarrow> bytes \<Rightarrow> bytes list \<Rightarrow> bytes \<Rightarrow> bytes list \<Rightarrow> bytes" where
  "encoded domain v fs ints gs =
     field_bytes (go_bytes domain) @ v @ concat (map field_bytes fs) @ ints @ concat (map field_bytes gs)"

lemma encoded_inject:
  assumes "length fs = length fs'" "length gs = length gs'" "length ints = length ints'"
    and "list_all short_field fs" "list_all short_field fs'" "list_all short_field gs" "list_all short_field gs'"
    and "encoded domain v fs ints gs = encoded domain v fs' ints' gs'"
  shows "fs = fs' \<and> ints = ints' \<and> gs = gs'"
  using assms by (simp add: encoded_def encoding_cancel)

definition credential_ints :: "credential \<Rightarrow> bytes" where
  "credential_ints c = le_fixed 8 (unat (cr_OperationalCSVType c)) @ le_fixed 4 (unat (cr_OperationalCSVValue c)) @
     le_fixed 8 (unat (cr_SavingsCSVType c)) @ le_fixed 4 (unat (cr_SavingsCSVValue c)) @
     le_fixed 8 (unat (cr_RecipientDustSats c)) @ le_fixed 8 (unat (cr_TxRecipientCapSats c)) @
     le_fixed 8 (unat (cr_PeriodAllowanceSats c)) @ le_fixed 8 (unat (cr_AbsoluteFeeCapSats c)) @
     le_fixed 8 (unat (cr_FeerateCapSatPerV c))"

definition credential_fields :: "credential \<Rightarrow> bytes list" where
  "credential_fields c =
        [cr_ID c, cr_WebAuthnP256 c, cr_PhoneDirectP256 c, cr_PhoneRoutineBIP340 c,
         cr_ExternalOwnerWallet c, go_bytes (cr_RPID c), go_bytes (cr_Origin c),
         cr_RecoveryKey c, cr_VaultCosignerBase c,
         cr_TweakedVaultCosigner c, cr_ArkadeCosignerBase c, cr_TweakedArkadeCosigner c,
         go_bytes (cr_ArkadeCosignerOrigin c), go_bytes (cr_ArkadeCosignerVersion c),
         go_bytes (cr_TemplateVersion c), go_bytes (cr_PolicyVersion c),
         go_bytes (cr_Network c), go_bytes (cr_VaultID c)]"

definition credential_tail :: "credential \<Rightarrow> bytes list" where
  "credential_tail c =
        [go_bytes (cr_OperationalAddress c), cr_OperationalScript c, go_bytes (cr_SavingsAddress c), cr_SavingsScript c]"

lemma canonicalCredential_Inr:
  "canonicalCredential c = Inr p \<longleftrightarrow> list_all short_field (credential_fields c) \<and> list_all short_field (credential_tail c) \<and>
     p = encoded credentialIntegrityDomain (le_fixed 4 3) (credential_fields c) (credential_ints c) (credential_tail c)"
proof -
  have dom: "short_field (go_bytes credentialIntegrityDomain)"
    by (simp add: short_field_def credentialIntegrityDomain_def)
  show ?thesis
    unfolding canonicalCredential_def Let_def bindE_Inr_iff
    by (fold credential_fields_def credential_tail_def)
       (auto simp: appendCredentialField_eq appendFields_Inr AppendUint32_def AppendUint64_def
        encoded_def credential_ints_def dom)
qed

lemma canonicalCredential_inject:
  assumes "canonicalCredential c = Inr p" "canonicalCredential c' = Inr p" "cr_IntegrityMAC c = cr_IntegrityMAC c'"
  shows "c = c'"
proof -
  have "credential_fields c = credential_fields c' \<and> credential_ints c = credential_ints c' \<and>
      credential_tail c = credential_tail c'"
    by (rule encoded_inject) (use assms in \<open>auto simp: canonicalCredential_Inr credential_fields_def
        credential_ints_def credential_tail_def\<close>)
  then show ?thesis
    using assms(3) unfolding credential_ints_def uint_cancel
    by (intro credential.equality)
       (simp_all add: credential_fields_def credential_tail_def uint_cancel uint_cancel[where x = "[]" and y = "[]", simplified])
qed

definition vault_ints :: "vaultRecord \<Rightarrow> bytes" where
  "vault_ints c = le_fixed 8 (unat (vr_OperationalCSVType c)) @ le_fixed 4 (unat (vr_OperationalCSVValue c)) @
     le_fixed 8 (unat (vr_SavingsCSVType c)) @ le_fixed 4 (unat (vr_SavingsCSVValue c)) @
     le_fixed 8 (unat (vr_RecipientDustSats c)) @ le_fixed 8 (unat (vr_TxRecipientCapSats c)) @
     le_fixed 8 (unat (vr_PeriodAllowanceSats c)) @ le_fixed 8 (unat (vr_AbsoluteFeeCapSats c)) @
     le_fixed 8 (unat (vr_FeerateCapSatPerV c))"

definition vault_fields :: "vaultRecord \<Rightarrow> bytes list" where
  "vault_fields v =
        [go_bytes (vr_VaultID v), go_bytes (vr_TemplateVersion v), go_bytes (vr_PolicyVersion v),
         go_bytes (vr_CosignerMode v), go_bytes (vr_Network v), go_bytes (vr_RPID v), go_bytes (vr_Origin v),
         vr_PhoneRoutineBIP340 v, vr_PhoneDirectP256 v, vr_ExternalOwnerWallet v, vr_RecoveryKey v,
         vr_VaultCosignerBase v, vr_TweakedVaultCosigner v, vr_ArkadeCosignerBase v, vr_TweakedArkadeCosigner v,
         go_bytes (vr_ArkadeCosignerOrigin v), go_bytes (vr_ArkadeCosignerVersion v)]"

definition vault_tail :: "vaultRecord \<Rightarrow> bytes list" where
  "vault_tail v =
        [go_bytes (vr_OperationalAddress v), vr_OperationalScript v, go_bytes (vr_SavingsAddress v), vr_SavingsScript v]"

lemma vault_payload_Inr:
  "vault_payload v = Inr p \<longleftrightarrow> list_all short_field (vault_fields v) \<and> list_all short_field (vault_tail v) \<and>
     p = encoded vaultRecordMACDomain (le_fixed 4 4) (vault_fields v) (vault_ints v) (vault_tail v)"
proof -
  have dom: "short_field (go_bytes vaultRecordMACDomain)"
    by (simp add: short_field_def vaultRecordMACDomain_def)
  show ?thesis
    unfolding vault_payload_def Let_def bindE_Inr_iff
    by (fold vault_fields_def vault_tail_def)
       (auto simp: appendCredentialField_eq appendFields_Inr AppendUint32_def AppendUint64_def
        encoded_def vault_ints_def dom)
qed

lemma vault_payload_inject:
  assumes "vault_payload v = Inr p" "vault_payload v' = Inr p" "vr_IntegrityMAC v = vr_IntegrityMAC v'"
  shows "v = v'"
proof -
  have "vault_fields v = vault_fields v' \<and> vault_ints v = vault_ints v' \<and> vault_tail v = vault_tail v'"
    by (rule encoded_inject) (use assms in \<open>auto simp: vault_payload_Inr vault_fields_def vault_ints_def vault_tail_def\<close>)
  then show ?thesis
    using assms(3) unfolding vault_ints_def uint_cancel
    by (intro vaultRecord.equality)
       (simp_all add: vault_fields_def vault_tail_def uint_cancel uint_cancel[where x = "[]" and y = "[]", simplified])
qed

definition passkey_fields :: "vaultCredential \<Rightarrow> bytes list" where
  "passkey_fields c = [vc_CredentialID c, go_bytes (vc_VaultID c), vc_WebAuthnP256 c, vc_UserHandle c]"

lemma vault_credential_payload_Inr:
  "vault_credential_payload c = Inr p \<longleftrightarrow> list_all short_field (passkey_fields c) \<and>
     p = encoded vaultCredentialMACDomain [] (passkey_fields c) [if vc_Resident c then 1 else 0] []"
proof -
  have dom: "short_field (go_bytes vaultCredentialMACDomain)"
    by (simp add: short_field_def vaultCredentialMACDomain_def)
  show ?thesis
    unfolding vault_credential_payload_def bindE_Inr_iff
    by (fold passkey_fields_def) (auto simp: appendCredentialField_eq appendFields_Inr encoded_def dom)
qed

lemma vault_credential_payload_inject:
  assumes "vault_credential_payload c = Inr p" "vault_credential_payload c' = Inr p"
    "vc_IntegrityMAC c = vc_IntegrityMAC c'"
  shows "c = c'"
proof -
  have "passkey_fields c = passkey_fields c' \<and> [if vc_Resident c then 1 else 0 :: byte] = [if vc_Resident c' then 1 else 0] \<and> [] = ([] :: bytes list)"
    by (rule encoded_inject) (use assms in \<open>auto simp: vault_credential_payload_Inr passkey_fields_def\<close>)
  then show ?thesis
    using assms(3) by (intro vaultCredential.equality) (simp_all add: passkey_fields_def split: if_splits)
qed

definition envelope_fields :: "credentialEnvelope \<Rightarrow> bytes \<Rightarrow> bytes list" where
  "envelope_fields e credentialID =
     [credentialID, go_bytes (env_Binding e), env_Nonce e, env_Ciphertext e, env_DirectSig e, env_PhoneSig e]"

lemma envelope_payload_eq:
  assumes "validateCredentialEnvelope e = Inr ()" "short_field credentialID"
  shows "list_all short_field (envelope_fields e credentialID) \<and>
    envelope_payload e credentialID = encoded credentialEnvelopeDomain (le_fixed 4 (unat (env_Version e)))
      (envelope_fields e credentialID) [] []"
proof -
  have short: "short_field (go_bytes credentialEnvelopeDomain)" "short_field (go_bytes (env_Binding e))"
    "short_field (env_Nonce e)" "short_field (env_Ciphertext e)" "short_field (env_DirectSig e)" "short_field (env_PhoneSig e)"
    using assms(1) by (auto simp: validateCredentialEnvelope_def short_field_def credentialEnvelopeDomain_def
        credentialEnvelopeBinding_def credentialEnvelopeNonce_def credentialEnvelopeCipher_def credentialEnvelopeSig_def
        split: if_splits)
  then show ?thesis
    using assms(2) by (simp add: envelope_payload_def Let_def append_field_eq encoded_def envelope_fields_def AppendUint32_def)
qed

lemma envelope_payload_inject:
  assumes "validateCredentialEnvelope e = Inr ()" "validateCredentialEnvelope e' = Inr ()"
    "short_field i" "short_field i'" "envelope_payload e i = envelope_payload e' i'"
    "env_IntegrityMAC e = env_IntegrityMAC e'"
  shows "e = e' \<and> i = i'"
proof -
  have ver: "env_Version e = env_Version e'"
    using assms(1,2) by (auto simp: validateCredentialEnvelope_def split: if_splits)
  have "envelope_fields e i = envelope_fields e' i' \<and> [] = ([] :: bytes) \<and> [] = ([] :: bytes list)"
    by (rule encoded_inject) (use assms envelope_payload_eq[OF assms(1,3)] envelope_payload_eq[OF assms(2,4)] ver
        in \<open>auto simp: envelope_fields_def\<close>)
  then show ?thesis
    using assms(6) ver by (auto intro!: credentialEnvelope.equality simp: envelope_fields_def)
qed

subsection \<open>Authenticated records\<close>

text \<open>The contract the four kinds of record share: a payload that determines the record, the code of
the record, and the check of the code.\<close>

locale authenticated_record =
  fixes payload :: "'r \<Rightarrow> bytes res" and code :: "'r \<Rightarrow> bytes" and wf :: "'r \<Rightarrow> bool"
    and verify :: "hmac \<Rightarrow> 'r \<Rightarrow> bytes \<Rightarrow> unit res" and seal :: "hmac \<Rightarrow> 'r \<Rightarrow> bytes \<Rightarrow> 'r res"
  assumes verify_iff: "verify H r key = Inr () \<longleftrightarrow> length key = 32 \<and> length (code r) = 32 \<and>
      (\<exists>p. payload r = Inr p \<and> code r = H key p)"
    and seal_Inr: "(\<forall>k x. length (H k x) = 32) \<Longrightarrow> seal H r key = Inr r' \<Longrightarrow> length key = 32 \<and> (\<exists>p. payload r' = Inr p \<and> code r' = H key p)"
    and payload_inject: "wf r \<Longrightarrow> wf r' \<Longrightarrow> payload r = Inr p \<Longrightarrow> payload r' = Inr p \<Longrightarrow> code r = code r' \<Longrightarrow> r = r'"
begin

lemma forgery_needs_collision:
  assumes "verify H r key = Inr ()" "verify H r' key = Inr ()" "code r = code r'" "r \<noteq> r'" "wf r" "wf r'"
  shows "\<exists>p p'. payload r = Inr p \<and> payload r' = Inr p' \<and> p \<noteq> p' \<and> H key p = H key p'"
  using assms payload_inject by (auto simp: verify_iff)

lemma sealed_verifies:
  assumes "seal H r key = Inr r'" "\<forall>k x. length (H k x) = 32"
  shows "verify H r' key = Inr ()"
  using seal_Inr[OF assms(2,1)] assms(2) by (auto simp: verify_iff)

end

lemma canonicalCredential_code [simp]: "canonicalCredential (c\<lparr>cr_IntegrityMAC := m\<rparr>) = canonicalCredential c"
  by (simp add: canonicalCredential_def)

lemma vault_payload_code [simp]: "vault_payload (v\<lparr>vr_IntegrityMAC := m\<rparr>) = vault_payload v"
  by (simp add: vault_payload_def)

lemma vault_credential_payload_code [simp]:
  "vault_credential_payload (c\<lparr>vc_IntegrityMAC := m\<rparr>) = vault_credential_payload c"
  by (simp add: vault_credential_payload_def)

interpretation cred: authenticated_record canonicalCredential cr_IntegrityMAC "\<lambda>_. True"
  "\<lambda>H c. VerifyCredentialIntegrity H (Some c)" "\<lambda>H c. SealCredential H (Some c)"
  by unfold_locales
     (auto simp: VerifyCredentialIntegrity_def SealCredential_def credentialMAC_def sha256_Size_def bindE_Inr_iff split: if_splits
        dest: canonicalCredential_inject)

interpretation vault: authenticated_record vault_payload vr_IntegrityMAC "\<lambda>_. True"
  "\<lambda>H v. verifyVaultRecord H (Some v)" sealVaultRecord
  by unfold_locales
     (auto simp: verifyVaultRecord_def sealVaultRecord_def vaultRecordMAC_def sha256_Size_def bindE_Inr_iff split: if_splits
        dest: vault_payload_inject)

interpretation passkey: authenticated_record vault_credential_payload vc_IntegrityMAC "\<lambda>_. True"
  "\<lambda>H c. verifyVaultCredential H (Some c)" sealVaultCredential
  by unfold_locales
     (auto simp: verifyVaultCredential_def sealVaultCredential_def vaultCredentialMAC_def sha256_Size_def bindE_Inr_iff split: if_splits
        dest: vault_credential_payload_inject)

text \<open>An envelope is bound to the credential it was sealed for.\<close>

definition bound_envelope_payload :: "credentialEnvelope \<times> bytes \<Rightarrow> bytes res" where
  "bound_envelope_payload ei = bindE (validateCredentialEnvelope (fst ei)) (\<lambda>_. Inr (envelope_payload (fst ei) (snd ei)))"

lemma validate_sealed:
  "validateCredentialEnvelope e = Inr () \<Longrightarrow> length m = 32 \<Longrightarrow> validateCredentialEnvelope (e\<lparr>env_IntegrityMAC := m\<rparr>) = Inr ()"
  by (simp add: validateCredentialEnvelope_def sha256_Size_def split: if_splits)

lemma envelope_payload_code [simp]: "envelope_payload (e\<lparr>env_IntegrityMAC := m\<rparr>) i = envelope_payload e i"
  by (simp add: envelope_payload_def Let_def)

interpretation envelope: authenticated_record bound_envelope_payload "\<lambda>ei. env_IntegrityMAC (fst ei)" "\<lambda>ei. short_field (snd ei)"
  "\<lambda>H ei. VerifyCredentialEnvelope H (Some (fst ei)) (snd ei)"
  "\<lambda>H ei key. bindE (SealCredentialEnvelope H (Some (fst ei)) (snd ei) key) (\<lambda>e. Inr (e, snd ei))"
proof unfold_locales
  fix H :: hmac and ei :: "credentialEnvelope \<times> bytes" and key
  show "VerifyCredentialEnvelope H (Some (fst ei)) (snd ei) key = Inr () \<longleftrightarrow> length key = 32 \<and>
      length (env_IntegrityMAC (fst ei)) = 32 \<and>
      (\<exists>p. bound_envelope_payload ei = Inr p \<and> env_IntegrityMAC (fst ei) = H key p)"
    by (auto simp: VerifyCredentialEnvelope_def credentialEnvelopeMAC_def sha256_Size_def bindE_Inr_iff
        bound_envelope_payload_def split: if_splits)
next
  fix H :: hmac and ei ei' :: "credentialEnvelope \<times> bytes" and key
  assume H: "\<forall>k x. length (H k x) = 32"
    and "bindE (SealCredentialEnvelope H (Some (fst ei)) (snd ei) key) (\<lambda>e. Inr (e, snd ei)) = Inr ei'"
  then show "length key = 32 \<and> (\<exists>p. bound_envelope_payload ei' = Inr p \<and> env_IntegrityMAC (fst ei') = H key p)"
    by (auto simp: SealCredentialEnvelope_def credentialEnvelopeMAC_def sha256_Size_def bindE_Inr_iff
        bound_envelope_payload_def validate_sealed split: if_splits)
next
  fix ei ei' :: "credentialEnvelope \<times> bytes" and p
  assume "short_field (snd ei)" "short_field (snd ei')" "bound_envelope_payload ei = Inr p"
    "bound_envelope_payload ei' = Inr p" "env_IntegrityMAC (fst ei) = env_IntegrityMAC (fst ei')"
  then show "ei = ei'"
    using envelope_payload_inject[of "fst ei" "fst ei'" "snd ei" "snd ei'"]
    by (auto simp: bound_envelope_payload_def bindE_Inr_iff prod_eq_iff)
qed

subsection \<open>Properties\<close>

lemma domains_differ:
  "distinct [credentialIntegrityDomain, vaultRecordMACDomain, vaultCredentialMACDomain, credentialEnvelopeDomain]"
  by (simp add: credentialIntegrityDomain_def vaultRecordMACDomain_def vaultCredentialMACDomain_def credentialEnvelopeDomain_def)

lemma domains_short: "d \<in> {credentialIntegrityDomain, vaultRecordMACDomain, vaultCredentialMACDomain, credentialEnvelopeDomain} \<Longrightarrow>
    short_field (go_bytes d)"
  by (auto simp: credentialIntegrityDomain_def vaultRecordMACDomain_def vaultCredentialMACDomain_def
      credentialEnvelopeDomain_def short_field_def)

lemma encoded_domain:
  assumes "encoded d v fs ints gs = encoded d' v' fs' ints' gs'"
    and "{d, d'} \<subseteq> {credentialIntegrityDomain, vaultRecordMACDomain, vaultCredentialMACDomain, credentialEnvelopeDomain}"
  shows "d = d'"
  using assms domains_short[of d] domains_short[of d'] by (simp add: encoded_def field_bytes_cancel)

text \<open>C31: An integrity code binds every field of its record: if two different records of a kind carry the
same code and are both accepted under the key, then their payloads are different and are a collision of
HMAC under that key; for an envelope this covers the credential it was sealed for.  And the payloads of
two kinds are never equal, so a code of one kind says nothing about another.\<close>

theorem integrity_codes_bind:
  shows "(VerifyCredentialIntegrity H (Some c) key = Inr () \<and> VerifyCredentialIntegrity H (Some c') key = Inr () \<and>
       cr_IntegrityMAC c = cr_IntegrityMAC c' \<and> c \<noteq> c' \<longrightarrow>
       (\<exists>x y. canonicalCredential c = Inr x \<and> canonicalCredential c' = Inr y \<and> x \<noteq> y \<and> H key x = H key y)) \<and>
    (verifyVaultRecord H (Some v) key = Inr () \<and> verifyVaultRecord H (Some v') key = Inr () \<and>
       vr_IntegrityMAC v = vr_IntegrityMAC v' \<and> v \<noteq> v' \<longrightarrow>
       (\<exists>x y. vault_payload v = Inr x \<and> vault_payload v' = Inr y \<and> x \<noteq> y \<and> H key x = H key y)) \<and>
    (verifyVaultCredential H (Some p) key = Inr () \<and> verifyVaultCredential H (Some p') key = Inr () \<and>
       vc_IntegrityMAC p = vc_IntegrityMAC p' \<and> p \<noteq> p' \<longrightarrow>
       (\<exists>x y. vault_credential_payload p = Inr x \<and> vault_credential_payload p' = Inr y \<and> x \<noteq> y \<and> H key x = H key y)) \<and>
    (VerifyCredentialEnvelope H (Some e) i key = Inr () \<and> VerifyCredentialEnvelope H (Some e') i' key = Inr () \<and>
       env_IntegrityMAC e = env_IntegrityMAC e' \<and> (e, i) \<noteq> (e', i') \<and> length i < 2 ^ 32 \<and> length i' < 2 ^ 32 \<longrightarrow>
       envelope_payload e i \<noteq> envelope_payload e' i' \<and> H key (envelope_payload e i) = H key (envelope_payload e' i')) \<and>
    (canonicalCredential c = Inr x \<and> vault_payload v = Inr y \<and> vault_credential_payload p = Inr z \<and>
       validateCredentialEnvelope e = Inr () \<and> length i < 2 ^ 32 \<longrightarrow> distinct [x, y, z, envelope_payload e i])"
  (is "?C \<and> ?V \<and> ?P \<and> ?E \<and> ?D")
proof (intro conjI)
  show ?C using cred.forgery_needs_collision[of H c key c'] by blast
  show ?V using vault.forgery_needs_collision[of H v key v'] by blast
  show ?P using passkey.forgery_needs_collision[of H p key p'] by blast
  show ?E using envelope.forgery_needs_collision[of H "(e, i)" key "(e', i')"]
    by (auto simp: short_field_def bound_envelope_payload_def bindE_Inr_iff)
  show ?D
    using domains_differ envelope_payload_eq[of e i]
    by (auto simp: canonicalCredential_Inr vault_payload_Inr vault_credential_payload_Inr short_field_def dest!: encoded_domain)
qed

definition ex_credential :: credential where
  "ex_credential = \<lparr>cr_ID = [1], cr_WebAuthnP256 = 2 # replicate 32 1, cr_PhoneDirectP256 = 2 # replicate 32 2,
     cr_PhoneRoutineBIP340 = 2 # replicate 32 3, cr_ExternalOwnerWallet = 2 # replicate 32 4, cr_RPID = ''r'', cr_Origin = ''o'',
     cr_RecoveryKey = 2 # replicate 32 5, cr_VaultCosignerBase = 2 # replicate 32 6,
     cr_TweakedVaultCosigner = 2 # replicate 32 7, cr_ArkadeCosignerBase = 2 # replicate 32 8,
     cr_TweakedArkadeCosigner = 2 # replicate 32 9, cr_ArkadeCosignerOrigin = ''a'', cr_ArkadeCosignerVersion = ''1'',
     cr_TemplateVersion = ''t'', cr_PolicyVersion = ''p'', cr_Network = ''regtest'', cr_VaultID = ''v'',
     cr_OperationalCSVType = 0, cr_OperationalCSVValue = 1, cr_SavingsCSVType = 0, cr_SavingsCSVValue = 2,
     cr_OperationalAddress = ''x'', cr_OperationalScript = [1], cr_SavingsAddress = ''y'', cr_SavingsScript = [2],
     cr_RecipientDustSats = 330, cr_TxRecipientCapSats = 1000, cr_PeriodAllowanceSats = 2000,
     cr_AbsoluteFeeCapSats = 100, cr_FeerateCapSatPerV = 5, cr_IntegrityMAC = replicate 32 0\<rparr>"

definition ex_passkey :: vaultCredential where
  "ex_passkey = \<lparr>vc_CredentialID = [1], vc_VaultID = ''v'', vc_WebAuthnP256 = 2 # replicate 32 1, vc_UserHandle = [],
     vc_Resident = True, vc_IntegrityMAC = replicate 32 0\<rparr>"

definition ex_envelope :: credentialEnvelope where
  "ex_envelope = \<lparr>env_Version = 1, env_Binding = ''b'', env_Nonce = replicate 12 0, env_Ciphertext = replicate 48 0,
     env_DirectSig = replicate 64 0, env_PhoneSig = replicate 64 0, env_IntegrityMAC = replicate 32 0\<rparr>"

lemma ex_payloads:
  "\<exists>x. canonicalCredential ex_credential = Inr x"
  "\<exists>y. vault_payload (vaultRecordFromCredential ex_credential) = Inr y"
  "\<exists>z. vault_credential_payload ex_passkey = Inr z"
  "validateCredentialEnvelope ex_envelope = Inr ()"
  by (simp_all add: canonicalCredential_Inr vault_payload_Inr vault_credential_payload_Inr credential_fields_def
      credential_tail_def vault_fields_def vault_tail_def passkey_fields_def short_field_def ex_credential_def
      ex_passkey_def vaultRecordFromCredential_def Let_def CosignerModeHKDFSHA256V1_def CosignerModeLegacyDirectV0_def
      ex_envelope_def validateCredentialEnvelope_def CredentialEnvelopeVersion_def credentialEnvelopeBinding_def
      credentialEnvelopeNonce_def credentialEnvelopeCipher_def credentialEnvelopeSig_def sha256_Size_def)

lemma integrity_codes_bind_witness:
  "\<exists>x y z. canonicalCredential ex_credential = Inr x \<and> vault_payload (vaultRecordFromCredential ex_credential) = Inr y \<and>
     vault_credential_payload ex_passkey = Inr z \<and> distinct [x, y, z, envelope_payload ex_envelope [1]]"
proof -
  obtain x y z where p: "canonicalCredential ex_credential = Inr x"
    "vault_payload (vaultRecordFromCredential ex_credential) = Inr y" "vault_credential_payload ex_passkey = Inr z"
    using ex_payloads by blast
  have "distinct [x, y, z, envelope_payload ex_envelope [1]]"
    using integrity_codes_bind[of "\<lambda>_ _. []" ex_credential "[]" ex_credential "vaultRecordFromCredential ex_credential"
        "vaultRecordFromCredential ex_credential" ex_passkey ex_passkey ex_envelope "[1]" ex_envelope "[1]" x y z]
      p ex_payloads(4) by simp
  with p show ?thesis by blast
qed

subsection \<open>Comparison and conversion\<close>

lemma first_difference_iff: "first_difference cs = Inr () \<longleftrightarrow> list_all fst cs"
  by (induction cs) auto

lemma vaultRecordsCanonicallyEqual_iff:
  "vaultRecordsCanonicallyEqual got want = Inr () \<longleftrightarrow> got\<lparr>vr_IntegrityMAC := []\<rparr> = want\<lparr>vr_IntegrityMAC := []\<rparr>"
  by (cases got; cases want) (auto simp: vaultRecordsCanonicallyEqual_def first_difference_iff)

lemma vaultCredentialsCanonicallyEqual_iff:
  "vaultCredentialsCanonicallyEqual got want = Inr () \<longleftrightarrow> got\<lparr>vc_IntegrityMAC := []\<rparr> = want\<lparr>vc_IntegrityMAC := []\<rparr>"
  by (cases got; cases want) (simp add: vaultCredentialsCanonicallyEqual_def first_difference_iff)

lemma envelopesEqual_iff: "envelopesEqual a b \<longleftrightarrow> a = b"
  by (cases a; cases b) (simp add: envelopesEqual_def)

lemma credentialIdentitiesEqual_iff: "credentialIdentitiesEqual got want = Inr () \<longleftrightarrow> got = want"
proof -
  have "credential_fields_equal g w = Inr () \<longleftrightarrow> g = w" for g w
    by (cases g; cases w) (auto simp: credential_fields_equal_def first_difference_iff)
  then show ?thesis by (auto simp: credentialIdentitiesEqual_def split: option.splits)
qed

text \<open>Migrating a credential to the tenant tables loses nothing: the descriptor and the passkey rebuild
it, up to its code.\<close>

lemma toCredential_vaultRecord:
  "vc_CredentialID k = cr_ID c \<Longrightarrow> vc_WebAuthnP256 k = cr_WebAuthnP256 c \<Longrightarrow>
   toCredential (vaultRecordFromCredential c) k = c\<lparr>cr_IntegrityMAC := []\<rparr>"
  by (cases c) (simp add: toCredential_def vaultRecordFromCredential_def Let_def)

end
