(* ===== verification/VaultLedgerProps.thy ===== *)
theory VaultLedgerProps
imports VaultLedger
begin

text \<open>What the issuance store promises: an abstract machine of the table with three steps,
the simulation that issueSequential only takes those steps, and the invariants.\<close>

subsection \<open>The abstract machine\<close>

inductive issuance_step :: "(string \<Rightarrow> int) \<Rightarrow> issuance list \<Rightarrow> issuance list \<Rightarrow> bool" for C where
  reserve: "issuance_key r \<notin> issuance_key ` set rows \<Longrightarrow> iss_state r = stateReserved \<Longrightarrow>
     vault_psbt r = None \<Longrightarrow> signed_psbt r = None \<Longrightarrow> request_psbt r \<noteq> [] \<Longrightarrow>
     0 < sint (recipient_amount r) \<Longrightarrow> 0 \<le> sint (iss_fee r) \<Longrightarrow>
     row_outflow r < 2 ^ 63 \<Longrightarrow>
     outflow (iss_vault_id r) (period_start r) rows + row_outflow r \<le> C (iss_vault_id r) \<Longrightarrow>
     issuance_step C rows (rows @ [r])"
| vault_sign: "r = rows ! i \<Longrightarrow> i < length rows \<Longrightarrow> iss_state r = stateReserved \<Longrightarrow> p \<noteq> [] \<Longrightarrow>
     issuance_step C rows (rows[i := r\<lparr>iss_state := stateVaultSigned, vault_psbt := Some p, updated_at := t\<rparr>])"
| complete: "r = rows ! i \<Longrightarrow> i < length rows \<Longrightarrow> iss_state r = stateVaultSigned \<Longrightarrow> p \<noteq> [] \<Longrightarrow>
     issuance_step C rows (rows[i := r\<lparr>iss_state := stateCompleted, signed_psbt := Some p, updated_at := t\<rparr>])"

abbreviation issuance_steps :: "(string \<Rightarrow> int) \<Rightarrow> issuance list \<Rightarrow> issuance list \<Rightarrow> bool" where
  "issuance_steps C \<equiv> (issuance_step C)\<^sup>*\<^sup>*"

subsection \<open>The invariant of the table\<close>

definition row_ok :: "issuance \<Rightarrow> bool" where
  "row_ok r \<longleftrightarrow> issuance_check r \<and> vault_psbt r \<noteq> Some [] \<and> signed_psbt r \<noteq> Some [] \<and>
     0 < sint (recipient_amount r) \<and> 0 \<le> sint (iss_fee r) \<and> row_outflow r < 2 ^ 63"

definition ledger_ok :: "(string \<Rightarrow> int) \<Rightarrow> issuance list \<Rightarrow> bool" where
  "ledger_ok C rows \<longleftrightarrow> list_all row_ok rows \<and> distinct (map issuance_key rows) \<and>
     (\<forall>v p. outflow v p rows \<le> max 0 (C v))"

lemma state_names [simp]:
  "stateReserved \<noteq> stateVaultSigned" "stateReserved \<noteq> stateCompleted" "stateVaultSigned \<noteq> stateCompleted"
  "stateVaultSigned \<noteq> stateReserved" "stateCompleted \<noteq> stateReserved" "stateCompleted \<noteq> stateVaultSigned"
  by (simp_all add: stateReserved_def stateVaultSigned_def stateCompleted_def)

lemma outflow_Nil [simp]: "outflow v p [] = 0"
  by (simp add: outflow_def)

lemma outflow_snoc: "outflow v p (rows @ [r]) = outflow v p rows +
   (if iss_vault_id r = v \<and> period_start r = p \<and> iss_state r \<in> {stateReserved, stateVaultSigned, stateCompleted}
    then row_outflow r else 0)"
  by (auto simp: outflow_def)

text \<open>An update of a row that keeps its vault, period, amounts and a counted state keeps
every outflow.\<close>

definition same_outflow :: "issuance \<Rightarrow> issuance \<Rightarrow> bool" where
  "same_outflow r r' \<longleftrightarrow> iss_vault_id r' = iss_vault_id r \<and> period_start r' = period_start r \<and>
     recipient_amount r' = recipient_amount r \<and> iss_fee r' = iss_fee r \<and>
     (iss_state r \<in> {stateReserved, stateVaultSigned, stateCompleted} \<longleftrightarrow>
      iss_state r' \<in> {stateReserved, stateVaultSigned, stateCompleted})"

lemma outflow_same:
  assumes "list_all2 same_outflow rows rows'"
  shows "outflow v p rows' = outflow v p rows"
  using assms
  by induction (auto simp: outflow_def same_outflow_def row_outflow_def)

lemma outflow_update:
  assumes "i < length rows" "same_outflow (rows ! i) r'"
  shows "outflow v p (rows[i := r']) = outflow v p rows"
  by (rule outflow_same) (use assms in \<open>auto simp: list_all2_conv_all_nth nth_list_update same_outflow_def\<close>)

lemma keys_update:
  assumes "i < length rows" "issuance_key r' = issuance_key (rows ! i)"
  shows "map issuance_key (rows[i := r']) = map issuance_key rows"
  using assms by (simp add: map_update) (metis list_update_id nth_map)

lemma row_ok_vault_sign:
  assumes "row_ok r" "iss_state r = stateReserved" "p \<noteq> []"
  shows "row_ok (r\<lparr>iss_state := stateVaultSigned, vault_psbt := Some p, updated_at := t\<rparr>)"
  using assms by (auto simp: row_ok_def issuance_check_def row_outflow_def)

lemma row_ok_complete:
  assumes "row_ok r" "iss_state r = stateVaultSigned" "p \<noteq> []"
  shows "row_ok (r\<lparr>iss_state := stateCompleted, signed_psbt := Some p, updated_at := t\<rparr>)"
  using assms by (auto simp: row_ok_def issuance_check_def row_outflow_def)

lemma list_all_update: "list_all P xs \<Longrightarrow> P x \<Longrightarrow> list_all P (xs[i := x])"
  by (cases "i < length xs") (auto simp: list_all_length nth_list_update)

lemma step_ok:
  assumes "issuance_step C rows rows'" "ledger_ok C rows"
  shows "ledger_ok C rows'"
  using assms
proof (induction rule: issuance_step.induct)
  case (reserve r rows)
  then show ?case
    by (auto simp: ledger_ok_def row_ok_def issuance_check_def outflow_snoc list_all_iff)
next
  case (vault_sign r rows i p t)
  then show ?case
    by (auto simp: ledger_ok_def keys_update issuance_key_def outflow_update same_outflow_def
        intro!: list_all_update row_ok_vault_sign)
       (simp add: list_all_length)
next
  case (complete r rows i p t)
  then show ?case
    by (auto simp: ledger_ok_def keys_update issuance_key_def outflow_update same_outflow_def
        intro!: list_all_update row_ok_complete)
       (simp add: list_all_length)
qed

lemma steps_ok: "issuance_steps C rows rows' \<Longrightarrow> ledger_ok C rows \<Longrightarrow> ledger_ok C rows'"
  by (induction rule: rtranclp_induct) (auto intro: step_ok)

lemma ledger_ok_Nil: "ledger_ok C []"
  by (simp add: ledger_ok_def)

subsection \<open>Rows only advance\<close>

definition state_rank :: "string \<Rightarrow> nat" where
  "state_rank s = (if s = stateReserved then 0 else if s = stateVaultSigned then 1 else 2)"

definition row_advances :: "issuance \<Rightarrow> issuance \<Rightarrow> bool" where
  "row_advances r r' \<longleftrightarrow> issuance_key r' = issuance_key r \<and> period_start r' = period_start r \<and>
     recipient_amount r' = recipient_amount r \<and> iss_fee r' = iss_fee r \<and> request_psbt r' = request_psbt r \<and>
     created_at r' = created_at r \<and> state_rank (iss_state r) \<le> state_rank (iss_state r') \<and>
     (state_rank (iss_state r') = state_rank (iss_state r) \<longrightarrow> r' = r) \<and>
     (iss_state r \<noteq> stateReserved \<longrightarrow> vault_psbt r' = vault_psbt r)"

definition rows_advance :: "issuance list \<Rightarrow> issuance list \<Rightarrow> bool" where
  "rows_advance rows rows' \<longleftrightarrow> length rows \<le> length rows' \<and>
     list_all2 row_advances rows (take (length rows) rows')"

lemma state_rank_0: "state_rank s = 0 \<longleftrightarrow> s = stateReserved"
  by (simp add: state_rank_def)

lemma row_advances_refl: "row_advances r r"
  by (simp add: row_advances_def)

lemma row_advances_trans:
  assumes "row_advances a b" "row_advances b c"
  shows "row_advances a c"
proof -
  have "iss_state a \<noteq> stateReserved \<Longrightarrow> iss_state b \<noteq> stateReserved"
    using assms(1) by (simp add: row_advances_def flip: state_rank_0)
  moreover have "state_rank (iss_state c) = state_rank (iss_state a) \<Longrightarrow> c = a"
    using assms unfolding row_advances_def by (metis le_antisym)
  ultimately show ?thesis
    using assms unfolding row_advances_def by simp
qed

lemma rows_advance_nth:
  "rows_advance rows rows' \<longleftrightarrow> length rows \<le> length rows' \<and> (\<forall>i < length rows. row_advances (rows ! i) (rows' ! i))"
  by (auto simp: rows_advance_def list_all2_conv_all_nth)

lemma rows_advance_refl: "rows_advance rows rows"
  by (simp add: rows_advance_nth row_advances_refl)

lemma rows_advance_trans:
  assumes "rows_advance a b" "rows_advance b c"
  shows "rows_advance a c"
  unfolding rows_advance_nth
proof (intro conjI allI impI)
  show "length a \<le> length c"
    using assms by (simp add: rows_advance_nth)
  fix i assume i: "i < length a"
  then have "i < length b"
    using assms(1) by (simp add: rows_advance_nth)
  with i show "row_advances (a ! i) (c ! i)"
    using assms by (auto simp: rows_advance_nth intro: row_advances_trans)
qed

lemma rows_advance_snoc: "rows_advance rows (rows @ [r])"
  by (simp add: rows_advance_nth row_advances_refl nth_append)

lemma rows_advance_update:
  "row_advances (rows ! i) r' \<Longrightarrow> rows_advance rows (rows[i := r'])"
  by (cases "i < length rows") (auto simp: rows_advance_nth row_advances_refl nth_list_update)

lemma step_advances: "issuance_step C rows rows' \<Longrightarrow> rows_advance rows rows'"
proof (induction rule: issuance_step.induct)
  case (reserve r rows)
  show ?case by (rule rows_advance_snoc)
next
  case (vault_sign r rows i p t)
  then show ?case
    by (intro rows_advance_update) (auto simp: row_advances_def issuance_key_def state_rank_def)
next
  case (complete r rows i p t)
  then show ?case
    by (intro rows_advance_update) (auto simp: row_advances_def issuance_key_def state_rank_def)
qed

lemma steps_advance: "issuance_steps C rows rows' \<Longrightarrow> rows_advance rows rows'"
  by (induction rule: rtranclp_induct) (auto intro: rows_advance_refl rows_advance_trans step_advances)

subsection \<open>Lookups\<close>

lemma find_issuance_SomeD:
  assumes "find_issuance v d rows = Some r"
  shows "r \<in> set rows" "issuance_key r = (v, d)"
  using assms by (auto simp: find_issuance_def find_Some_iff)

lemma find_issuance_None: "find_issuance v d rows = None \<longleftrightarrow> (v, d) \<notin> issuance_key ` set rows"
  by (auto simp: find_issuance_def find_None_iff image_iff)

lemma find_issuance_index:
  assumes "distinct (map issuance_key rows)" "i < length rows" "issuance_key (rows ! i) = (v, d)"
  shows "find_issuance v d rows = Some (rows ! i)"
proof -
  have "\<forall>j < i. issuance_key (rows ! j) \<noteq> (v, d)"
    using assms by (metis (mono_tags) distinct_conv_nth length_map less_trans nat_neq_iff nth_map)
  then show ?thesis
    using assms by (auto simp: find_issuance_def find_Some_iff)
qed

lemma find_issuance_iff:
  assumes "distinct (map issuance_key rows)"
  shows "find_issuance v d rows = Some r \<longleftrightarrow> r \<in> set rows \<and> issuance_key r = (v, d)"
  using assms find_issuance_index[OF assms] find_issuance_SomeD by (metis in_set_conv_nth)

lemma find_issuance_snoc:
  "find_issuance v d rows = None \<Longrightarrow> issuance_key r = (v, d) \<Longrightarrow> find_issuance v d (rows @ [r]) = Some r"
  by (induction rows) (auto simp: find_issuance_def split: if_splits)

lemma find_issuance_advance:
  assumes "rows_advance rows rows'" "find_issuance v d rows = Some r" "distinct (map issuance_key rows')"
  obtains r' where "find_issuance v d rows' = Some r'" "row_advances r r'"
proof -
  obtain i where i: "i < length rows" "rows ! i = r"
    using find_issuance_SomeD(1)[OF assms(2)] by (auto simp: in_set_conv_nth)
  have *: "row_advances r (rows' ! i)" "i < length rows'"
    using assms(1) i by (auto simp: rows_advance_nth)
  have "issuance_key (rows' ! i) = (v, d)"
    using * find_issuance_SomeD(2)[OF assms(2)] by (simp add: row_advances_def)
  then show ?thesis
    using that find_issuance_index[OF assms(3)] * by blast
qed

subsection \<open>The code takes steps of the machine\<close>

lemma int64_of_int: "- (2 ^ 63) \<le> i \<Longrightarrow> i < 2 ^ 63 \<Longrightarrow> sint (word_of_int i :: int64) = i"
  by (simp add: sint_sbintrunc' signed_take_bit_int_eq_self)

lemma int64_add:
  "- (2 ^ 63) \<le> sint a + sint b \<Longrightarrow> sint a + sint b < 2 ^ 63 \<Longrightarrow> sint (a + b :: int64) = sint a + sint b"
  by (simp add: sint_word_ariths signed_take_bit_int_eq_self)

lemma int64_sub:
  "- (2 ^ 63) \<le> sint a - sint b \<Longrightarrow> sint a - sint b < 2 ^ 63 \<Longrightarrow> sint (a - b :: int64) = sint a - sint b"
  by (simp add: sint_word_ariths signed_take_bit_int_eq_self)

lemma addOutflow_Inr:
  assumes "addOutflow a b = Inr n"
  shows "0 \<le> sint a" "0 \<le> sint b" "sint n = sint a + sint b"
proof -
  have a: "0 \<le> sint a" and b: "0 \<le> sint b" and n: "n = a + b"
    and lim: "0 <s b \<Longrightarrow> \<not> 0x7fffffffffffffff - b <s a"
    using assms by (auto simp: addOutflow_def word_sless_alt split: if_splits)
  show "0 \<le> sint a" "0 \<le> sint b" using a b .
  have b63: "sint b < 2 ^ 63" "sint a < 2 ^ 63"
    using sint_lt[of b] sint_lt[of a] by simp_all
  have sub: "sint (0x7fffffffffffffff - b) = 0x7fffffffffffffff - sint b"
    using int64_sub[of "0x7fffffffffffffff" b] b b63 by simp
  have "sint a + sint b \<le> 0x7fffffffffffffff"
  proof (cases "sint b = 0")
    case True
    then show ?thesis using b63 by simp
  next
    case False
    then have "0 <s b" using b by (simp add: word_sless_alt)
    from lim[OF this] show ?thesis by (simp add: word_sless_alt sub)
  qed
  then show "sint n = sint a + sint b"
    unfolding n by (intro int64_add) (use a b in simp_all)
qed

lemma SpentInPeriod_Inr:
  assumes "SpentInPeriod v p rows = Inr n"
  shows "sint n = outflow v p rows"
  using assms by (auto simp: SpentInPeriod_def Let_def int64_of_int split: if_splits)

lemma end_tx_rows: "snd (end_tx e rows m) = rows \<or> (\<exists>a. m = Inr (a, snd (end_tx e rows m)))"
  by (auto simp: end_tx_def split: sum.splits tx_end.splits)

lemma end_tx_Inr: "end_tx e rows m = (Inr a, rows') \<Longrightarrow> m = Inr (a, rows')"
  by (auto simp: end_tx_def split: sum.splits tx_end.splits)

text \<open>The two ways a reservation succeeds.\<close>

lemma reservation_cases:
  assumes "reservation period now v d req rec fee cap rows = Inr (stage, rows')"
  obtains
    (existing) r where "find_issuance v d rows = Some r" "request_psbt r = req" "recipient_amount r = rec"
      "iss_fee r = fee" "rows' = rows" "stg_created stage = False"
      "stg_state stage = iss_state r" "stg_requestPSBT stage = req"
      "stg_vaultPSBT stage = opt_string (vault_psbt r)" "stg_signedPSBT stage = opt_string (signed_psbt r)"
  | (new) r where "find_issuance v d rows = None" "rows' = rows @ [r]" "issuance_key r = (v, d)"
      "request_psbt r = req" "recipient_amount r = rec" "iss_fee r = fee" "period_start r = period"
      "iss_state r = stateReserved" "vault_psbt r = None" "signed_psbt r = None" "req \<noteq> []"
      "0 \<le> sint fee" "row_outflow r < 2 ^ 63"
      "0 \<le> outflow v period rows" "outflow v period rows + row_outflow r \<le> sint cap"
      "stg_created stage" "stg_state stage = stateReserved" "stg_requestPSBT stage = req" "stg_vaultPSBT stage = []"
proof (cases "find_issuance v d rows")
  case (Some r)
  with assms show ?thesis
    by (intro existing[of r])
       (auto simp: reservation_def Let_def split: if_splits elim!: bindE_InrE)
next
  case None
  let ?r = "\<lparr>iss_vault_id = v, arkade_sighash = d, period_start = period,
     recipient_amount = rec, iss_fee = fee, iss_state = stateReserved,
     request_psbt = req, vault_psbt = None, signed_psbt = None, created_at = now, updated_at = now\<rparr>"
  from assms None obtain u n where u: "SpentInPeriod v period rows = Inr u" "0 \<le> sint u"
    and n: "addOutflow rec fee = Inr n"
    and lim: "sint u \<le> sint cap" "\<not> cap - u <s n"
    and ins: "insert_issuance ?r rows = Inr rows'"
    and st: "stage = \<lparr>stg_state = stateReserved, stg_requestPSBT = req, stg_vaultPSBT = [],
                stg_signedPSBT = [], stg_created = True\<rparr>"
    by (auto simp: reservation_def word_sless_alt split: if_splits elim!: bindE_InrE)
  have out: "sint u = outflow v period rows" by (rule SpentInPeriod_Inr[OF u(1)])
  note add = addOutflow_Inr[OF n]
  have ro: "row_outflow ?r = sint n" using add by (simp add: row_outflow_def)
  have "sint (cap - u) = sint cap - sint u"
    by (rule int64_sub) (use lim u sint_lt[of cap] in simp_all)
  then have "sint u + sint n \<le> sint cap"
    using lim by (simp add: word_sless_alt)
  moreover have "req \<noteq> []" "rows' = rows @ [?r]"
    using ins by (auto simp: insert_issuance_def issuance_check_def split: if_splits)
  ultimately show ?thesis
    using None add out u(2) st ro sint_lt[of n] by (intro new[of ?r]) (auto simp: issuance_key_def)
qed

lemma reservation_steps:
  assumes "reservation period now v d req rec fee cap rows = Inr (stage, rows')"
    and "sint cap \<le> C v" "0 < sint rec"
  shows "issuance_steps C rows rows'"
  using assms(1)
proof (cases rule: reservation_cases)
  case (existing r)
  then show ?thesis by simp
next
  case (new r)
  have "issuance_step C rows (rows @ [r])"
    by (rule issuance_step.reserve)
       (use new assms in \<open>auto simp: find_issuance_None issuance_key_def\<close>)
  with new show ?thesis by auto
qed

lemma map_single_hit:
  assumes "length (filter P xs) = 1"
  obtains i where "i < length xs" "P (xs ! i)" "map (\<lambda>x. if P x then f x else x) xs = xs[i := f (xs ! i)]"
  using assms
proof (induction xs arbitrary: thesis)
  case (Cons x xs)
  show ?case
  proof (cases "P x")
    case True
    then have "map (\<lambda>x. if P x then f x else x) xs = xs"
      using Cons.prems(2) by (intro map_idI) (auto simp: filter_empty_conv)
    then show ?thesis using True by (intro Cons.prems(1)[of 0]) auto
  next
    case False
    then obtain i where "i < length xs" "P (xs ! i)" "map (\<lambda>x. if P x then f x else x) xs = xs[i := f (xs ! i)]"
      using Cons by auto
    then show ?thesis using False by (intro Cons.prems(1)[of "Suc i"]) auto
  qed
qed simp

lemma commitSigningStage_rows:
  assumes "commitSigningStage e now v d want next col x rows = (res, rows')"
  shows "rows' = rows \<and> (\<forall>u. res \<noteq> Inr u) \<or>
     (\<exists>i < length rows. issuance_key (rows ! i) = (v, d) \<and> iss_state (rows ! i) = want \<and>
        rows' = rows[i := stage_row next col x now (rows ! i)])"
proof -
  let ?hit = "\<lambda>r. issuance_key r = (v, d) \<and> iss_state r = want"
  let ?rows = "map (\<lambda>r. if ?hit r then stage_row next col x now r else r) rows"
  have "rows' = rows \<and> (\<forall>u. res \<noteq> Inr u) \<or> length (filter ?hit rows) = 1 \<and> rows' = ?rows"
    using assms by (auto simp: commitSigningStage_def end_tx_def Let_def split: if_splits tx_end.splits)
  then show ?thesis
    by (elim disjE conjE, simp) (erule map_single_hit[where f = "stage_row next col x now"], auto)
qed

lemma commitVaultSigned_steps:
  assumes "commitVaultSigned e now v d x rows = (res, rows')" "x \<noteq> []"
  shows "issuance_steps C rows rows'"
  using commitSigningStage_rows[OF assms(1)[unfolded commitVaultSigned_def]] assms(2)
  by (elim disjE) (auto simp: stage_row_def intro: issuance_step.vault_sign)

lemma commitCompletion_steps:
  assumes "commitCompletion e now v d x rows = (res, rows')" "x \<noteq> []"
  shows "issuance_steps C rows rows'"
  using commitSigningStage_rows[OF assms(1)[unfolded commitCompletion_def]] assms(2)
  by (elim disjE) (auto simp: stage_row_def intro: issuance_step.complete)

lemma public_stage_steps:
  assumes "public_stage env v d p as rows = (res, rows', calls)"
  shows "issuance_steps C rows rows'"
  using assms
  by (auto simp: public_stage_def split: sum.splits if_splits prod.splits dest: commitCompletion_steps)

lemma private_stage_steps:
  assumes "private_stage env v d req vs as rows = (res, rows', calls)"
  shows "issuance_steps C rows rows'"
  using assms
  by (auto simp: private_stage_def split: sum.splits if_splits prod.splits
      dest!: commitVaultSigned_steps[where C = C] public_stage_steps[where C = C])

lemma commitReservation_steps:
  assumes "commitReservation e period now v d req rec fee cap rows = (res, rows')"
    and "sint cap \<le> C v" "0 < sint rec"
  shows "issuance_steps C rows rows'"
  using end_tx_rows[of e rows "reservation period now v d req rec fee cap rows"] assms
    reservation_steps[where C = C]
  by (auto simp: commitReservation_def)

lemma issueSequential_steps:
  assumes "issueSequential env v d req rec fee cap resume vs as rows = (res, rows', calls)"
    and "sint cap \<le> C v"
  shows "issuance_steps C rows rows'"
proof -
  note [split] = if_splits
  show ?thesis
    using assms
    by (auto simp: issueSequential_def word_sless_alt split: prod.splits sum.splits
        dest!: commitReservation_steps[where C = C] private_stage_steps[where C = C] public_stage_steps[where C = C])
qed

subsection \<open>Histories of the ledger\<close>

text \<open>A history: calls of the two entry points in any order, with any arguments, cosigners
and failures, as long as each call for a vault passes at most the allowance C of that vault.\<close>

inductive ledger_history :: "(string \<Rightarrow> int) \<Rightarrow> issuance list \<Rightarrow> issuance list \<Rightarrow> bool" for C where
  start: "ledger_history C rows rows"
| sequential: "ledger_history C rows rows' \<Longrightarrow> sint cap \<le> C v \<Longrightarrow>
     IssueSequential env v d req rec fee cap vs as rows' = (res, rows'', calls) \<Longrightarrow>
     ledger_history C rows rows''"
| one_stage: "ledger_history C rows rows' \<Longrightarrow> sint cap \<le> C v \<Longrightarrow>
     Issue env v d rec fee cap sign rows' = (res, rows'', calls) \<Longrightarrow>
     ledger_history C rows rows''"

lemma IssueSequential_steps:
  assumes "IssueSequential env v d req rec fee cap vs as rows = (res, rows', calls)" "sint cap \<le> C v"
  shows "issuance_steps C rows rows'"
  using assms by (auto simp: IssueSequential_def split: option.splits dest: issueSequential_steps[where C = C])

lemma Issue_steps:
  assumes "Issue env v d rec fee cap sign rows = (res, rows', calls)" "sint cap \<le> C v"
  shows "issuance_steps C rows rows'"
  using assms by (auto simp: Issue_def split: option.splits dest: issueSequential_steps[where C = C])

lemma history_steps: "ledger_history C rows rows' \<Longrightarrow> issuance_steps C rows rows'"
  by (induction rule: ledger_history.induct)
     (auto dest: IssueSequential_steps[where C = C] Issue_steps[where C = C] intro: rtranclp_trans)

lemma history_ok: "ledger_history C [] rows \<Longrightarrow> ledger_ok C rows"
  by (rule steps_ok[OF history_steps ledger_ok_Nil])

lemma row_ok_outflow_nonneg: "list_all row_ok rows \<Longrightarrow> 0 \<le> outflow v p rows"
  by (induction rows) (auto simp: outflow_def row_ok_def row_outflow_def)

subsection \<open>The stored stages are consistent\<close>

definition stage_of :: "issuance \<Rightarrow> issuanceStage" where
  "stage_of r = \<lparr>stg_state = iss_state r, stg_requestPSBT = request_psbt r,
     stg_vaultPSBT = opt_string (vault_psbt r), stg_signedPSBT = opt_string (signed_psbt r), stg_created = False\<rparr>"

lemma row_ok_stage: "row_ok r \<Longrightarrow> validateIssuanceStage (stage_of r) = Inr ()"
  by (auto simp: row_ok_def issuance_check_def validateIssuanceStage_def stage_of_def opt_string_def
      split: option.splits)

lemma ledger_ok_row: "ledger_ok C rows \<Longrightarrow> find_issuance v d rows = Some r \<Longrightarrow> row_ok r"
  using find_issuance_SomeD(1) by (auto simp: ledger_ok_def list_all_iff)

lemma reservation_found:
  assumes "ledger_ok C rows" "find_issuance v d rows = Some r"
  shows "reservation period now v d req rec fee cap rows =
    (if request_psbt r \<noteq> req \<or> recipient_amount r \<noteq> rec \<or> iss_fee r \<noteq> fee
     then go_err ''issuance is already bound to a different exact request'' else Inr (stage_of r, rows))"
  using row_ok_stage[OF ledger_ok_row[OF assms]] assms(2)
  by (auto simp: reservation_def stage_of_def Let_def)

lemma length_filter_eq: "distinct xs \<Longrightarrow> x \<in> set xs \<Longrightarrow> length (filter ((=) x) xs) = 1"
  by (induction xs) (auto simp: filter_empty_conv)

text \<open>An update of the one row with the key.\<close>

lemma stage_update:
  assumes "ledger_ok C rows" "find_issuance v d rows = Some r" "iss_state r = want"
    and "issuance_check (stage_row next col x now r)"
    and "issuance_key (stage_row next col x now r) = issuance_key r"
  obtains rows' where "commitSigningStage Committed now v d want next col x rows = (Inr (), rows')"
    "find_issuance v d rows' = Some (stage_row next col x now r)"
proof -
  let ?hit = "\<lambda>r. issuance_key r = (v, d) \<and> iss_state r = want"
  let ?rows = "map (\<lambda>r. if ?hit r then stage_row next col x now r else r) rows"
  have dist: "distinct (map issuance_key rows)" using assms(1) by (simp add: ledger_ok_def)
  obtain i where i: "i < length rows" "rows ! i = r"
    using find_issuance_SomeD(1)[OF assms(2)] by (auto simp: in_set_conv_nth)
  have key: "issuance_key r = (v, d)" by (rule find_issuance_SomeD(2)[OF assms(2)])
  have only: "issuance_key s = (v, d) \<Longrightarrow> s \<in> set rows \<Longrightarrow> s = r" for s
    using find_issuance_iff[OF dist] assms(2) by (metis option.inject)
  have chk: "list_all issuance_check ?rows"
    using assms(1,4) only unfolding ledger_ok_def list_all_iff row_ok_def by fastforce
  have "filter ?hit rows = filter ((=) r) rows"
    using only key assms(3) by (intro filter_cong) auto
  moreover have "length (filter ((=) r) rows) = 1"
    using dist i by (intro length_filter_eq) (auto simp: distinct_map)
  ultimately have one: "length (filter ?hit rows) = 1" by simp
  have com: "commitSigningStage Committed now v d want next col x rows = (Inr (), ?rows)"
    using chk one by (simp add: commitSigningStage_def end_tx_def Let_def)
  have len: "i < length ?rows" using i by simp
  have "?rows ! i = stage_row next col x now r"
    using i key assms(3) by simp
  moreover have "map issuance_key ?rows = map issuance_key rows"
    using only assms(5) by auto
  ultimately have "find_issuance v d ?rows = Some (stage_row next col x now r)"
    using find_issuance_index[of ?rows i v d] dist len key assms(5) by metis
  with com show ?thesis using that by blast
qed

subsection \<open>Retries\<close>

lemma vault_sign_stage:
  assumes "ledger_ok C rows" "find_issuance v d rows = Some r" "iss_state r = stateReserved"
  obtains rows' where "commitVaultSigned Committed now v d p rows = (Inr (), rows')"
    "find_issuance v d rows' = Some (r\<lparr>iss_state := stateVaultSigned, vault_psbt := Some p, updated_at := now\<rparr>)"
proof -
  have ok: "row_ok r" by (rule ledger_ok_row[OF assms(1,2)])
  have "issuance_check (stage_row stateVaultSigned Col_vault_psbt p now r)"
    using ok assms(3) by (auto simp: row_ok_def issuance_check_def stage_row_def)
  moreover have "issuance_key (stage_row stateVaultSigned Col_vault_psbt p now r) = issuance_key r"
    by (simp add: issuance_key_def stage_row_def)
  ultimately obtain rows' where "commitSigningStage Committed now v d stateReserved stateVaultSigned Col_vault_psbt p rows = (Inr (), rows')"
    "find_issuance v d rows' = Some (stage_row stateVaultSigned Col_vault_psbt p now r)"
    by (rule stage_update[OF assms])
  then show ?thesis using that by (simp add: commitVaultSigned_def stage_row_def)
qed

lemma complete_stage:
  assumes "ledger_ok C rows" "find_issuance v d rows = Some r" "iss_state r = stateVaultSigned"
  obtains rows' where "commitCompletion Committed now v d p rows = (Inr (), rows')"
    "find_issuance v d rows' = Some (r\<lparr>iss_state := stateCompleted, signed_psbt := Some p, updated_at := now\<rparr>)"
proof -
  have ok: "row_ok r" by (rule ledger_ok_row[OF assms(1,2)])
  have "issuance_check (stage_row stateCompleted Col_signed_psbt p now r)"
    using ok assms(3) by (auto simp: row_ok_def issuance_check_def stage_row_def)
  moreover have "issuance_key (stage_row stateCompleted Col_signed_psbt p now r) = issuance_key r"
    by (simp add: issuance_key_def stage_row_def)
  ultimately obtain rows' where "commitSigningStage Committed now v d stateVaultSigned stateCompleted Col_signed_psbt p rows = (Inr (), rows')"
    "find_issuance v d rows' = Some (stage_row stateCompleted Col_signed_psbt p now r)"
    by (rule stage_update[OF assms])
  then show ?thesis using that by (simp add: commitCompletion_def stage_row_def)
qed

lemma public_stage_completes:
  assumes "ledger_ok C rows" "find_issuance v d rows = Some r" "iss_state r = stateVaultSigned"
    and "complete_end env = Committed" "\<not> ctx_done env" "as p = Inr s" "s \<noteq> []"
  obtains rows' where "public_stage env v d p as rows = (Inr (s, False), rows', [ArkadeCall p])"
    "find_issuance v d rows' = Some (r\<lparr>iss_state := stateCompleted, signed_psbt := Some s, updated_at := env_now env\<rparr>)"
proof -
  obtain rows' where "commitCompletion Committed (env_now env) v d s rows = (Inr (), rows')"
    "find_issuance v d rows' = Some (r\<lparr>iss_state := stateCompleted, signed_psbt := Some s, updated_at := env_now env\<rparr>)"
    by (rule complete_stage[OF assms(1-3)])
  then show ?thesis using that assms by (simp add: public_stage_def)
qed

lemma private_stage_completes:
  assumes "ledger_ok C rows" "find_issuance v d rows = Some r" "iss_state r = stateReserved"
    and "vault_end env = Committed" "complete_end env = Committed" "\<not> ctx_done env"
    and "vs req = Inr p" "p \<noteq> []" "as p = Inr s" "s \<noteq> []"
  obtains rows' where "private_stage env v d req vs as rows = (Inr (s, False), rows', [VaultCall req, ArkadeCall p])"
    "find_issuance v d rows' = Some (r\<lparr>iss_state := stateCompleted, vault_psbt := Some p, signed_psbt := Some s,
        updated_at := env_now env\<rparr>)"
proof -
  obtain rows1 where r1: "commitVaultSigned Committed (env_now env) v d p rows = (Inr (), rows1)"
    "find_issuance v d rows1 = Some (r\<lparr>iss_state := stateVaultSigned, vault_psbt := Some p, updated_at := env_now env\<rparr>)"
    by (rule vault_sign_stage[OF assms(1-3)])
  have "issuance_steps C rows rows1"
    by (rule commitVaultSigned_steps[OF r1(1) assms(8)])
  then have ok1: "ledger_ok C rows1" using assms(1) by (rule steps_ok)
  obtain rows' where "public_stage env v d p as rows1 = (Inr (s, False), rows', [ArkadeCall p])"
    "find_issuance v d rows' = Some (r\<lparr>iss_state := stateVaultSigned, vault_psbt := Some p, updated_at := env_now env,
       iss_state := stateCompleted, signed_psbt := Some s, updated_at := env_now env\<rparr>)"
    by (rule public_stage_completes[where as = as and p = p and s = s and C = C, OF ok1 r1(2) _ assms(5,6,9,10)]) simp
  then show ?thesis using that assms r1 by (simp add: private_stage_def)
qed

subsection \<open>What the cosigners are given\<close>

definition bound_row :: "string \<Rightarrow> int64 \<Rightarrow> int64 \<Rightarrow> issuance \<Rightarrow> bool" where
  "bound_row req rec fee r \<longleftrightarrow> request_psbt r = req \<and> recipient_amount r = rec \<and> iss_fee r = fee"

lemma commitReservation_row:
  assumes "commitReservation e period now v d req rec fee cap rows = (Inr stage, rows')"
  obtains r where "find_issuance v d rows' = Some r" "bound_row req rec fee r"
    "stg_state stage = iss_state r" "stg_requestPSBT stage = req" "stg_vaultPSBT stage = opt_string (vault_psbt r)"
    "find_issuance v d rows = Some r \<or> find_issuance v d rows = None"
proof -
  have "reservation period now v d req rec fee cap rows = Inr (stage, rows')"
    using assms by (auto simp: commitReservation_def dest: end_tx_Inr)
  then show ?thesis
  proof (cases rule: reservation_cases)
    case (existing r)
    then show ?thesis by (intro that[of r]) (auto simp: bound_row_def)
  next
    case (new r)
    then show ?thesis
      using find_issuance_snoc[OF new(1,3)] by (intro that[of r]) (auto simp: bound_row_def opt_string_def)
  qed
qed

lemma bound_row_advance: "row_advances r r' \<Longrightarrow> bound_row req rec fee r \<Longrightarrow> bound_row req rec fee r'"
  by (simp add: row_advances_def bound_row_def)

lemma public_stage_calls:
  assumes "ledger_ok C rows" "find_issuance v d rows = Some r" "vault_psbt r = Some q" "bound_row req rec fee r"
    and "public_stage env v d q as rows = (res, rows', calls)"
  shows "calls = [ArkadeCall q] \<and>
    (\<exists>r'. find_issuance v d rows' = Some r' \<and> vault_psbt r' = Some q \<and> bound_row req rec fee r')"
proof
  show "calls = [ArkadeCall q]"
    using assms(5) by (auto simp: public_stage_def split: sum.splits if_splits prod.splits)
  have steps: "issuance_steps C rows rows'" by (rule public_stage_steps[OF assms(5)])
  have dist: "distinct (map issuance_key rows')"
    using steps_ok[OF steps assms(1)] by (simp add: ledger_ok_def)
  obtain r' where r': "find_issuance v d rows' = Some r'" "row_advances r r'"
    by (rule find_issuance_advance[OF steps_advance[OF steps] assms(2) dist])
  have "iss_state r \<noteq> stateReserved"
    using ledger_ok_row[OF assms(1,2)] assms(3) by (auto simp: row_ok_def issuance_check_def)
  then show "\<exists>r'. find_issuance v d rows' = Some r' \<and> vault_psbt r' = Some q \<and> bound_row req rec fee r'"
    using r' assms(3,4) by (auto simp: row_advances_def bound_row_def)
qed

lemma private_stage_calls:
  assumes "ledger_ok C rows" "find_issuance v d rows = Some r" "bound_row req rec fee r"
    and "private_stage env v d req vs as rows = (res, rows', calls)"
  shows "(VaultCall p \<in> set calls \<longrightarrow> p = req) \<and> (ArkadeCall p \<in> set calls \<longrightarrow>
    (\<exists>r'. find_issuance v d rows' = Some r' \<and> vault_psbt r' = Some p \<and> bound_row req rec fee r'))"
proof (cases "\<exists>q rows1. vs req = Inr q \<and> q \<noteq> [] \<and>
    commitVaultSigned (vault_end env) (env_now env) v d q rows = (Inr (), rows1)")
  case False
  then have "calls = [VaultCall req]"
    using assms(4) by (auto simp: private_stage_def split: sum.splits if_splits prod.splits)
  then show ?thesis by simp
next
  case True
  then obtain q rows1 where q: "vs req = Inr q" "q \<noteq> []"
    and com: "commitVaultSigned (vault_end env) (env_now env) v d q rows = (Inr (), rows1)" by blast
  let ?row = "\<lambda>i. stage_row stateVaultSigned Col_vault_psbt q (env_now env) (rows ! i)"
  obtain i where i: "i < length rows" "issuance_key (rows ! i) = (v, d)" "rows1 = rows[i := ?row i]"
    using commitSigningStage_rows[OF com[unfolded commitVaultSigned_def]] by auto
  have ok1: "ledger_ok C rows1"
    by (rule steps_ok[OF commitVaultSigned_steps[OF com q(2)] assms(1)])
  have dist: "distinct (map issuance_key rows)" "distinct (map issuance_key rows1)"
    using assms(1) ok1 by (simp_all add: ledger_ok_def)
  have "rows ! i = r"
    using find_issuance_index[OF dist(1) i(1,2)] assms(2) by simp
  then have row: "vault_psbt (?row i) = Some q" "bound_row req rec fee (?row i)" "issuance_key (?row i) = (v, d)"
    using assms(3) i(2) by (simp_all add: stage_row_def bound_row_def issuance_key_def)
  have "find_issuance v d rows1 = Some (rows1 ! i)"
    by (rule find_issuance_index[OF dist(2)]) (use i row(3) in simp_all)
  then have find1: "find_issuance v d rows1 = Some (?row i)" using i by simp
  obtain calls2 where pub: "public_stage env v d q as rows1 = (res, rows', calls2)"
    and calls: "calls = VaultCall req # calls2"
    using assms(4) q com by (auto simp: private_stage_def split: prod.splits)
  show ?thesis
    using public_stage_calls[OF ok1 find1 row(1,2) pub] calls by auto
qed

lemma issueSequential_calls:
  assumes "ledger_ok C rows" "sint cap \<le> C v"
    and "issueSequential env v d req rec fee cap resume vs as rows = (res, rows', calls)"
    and "calls \<noteq> []"
  obtains stage r rows1 where
    "commitReservation (reserve_end env) (env_period env) (env_now env) v d req rec fee cap rows = (Inr stage, rows1)"
    "ledger_ok C rows1" "find_issuance v d rows1 = Some r" "bound_row req rec fee r"
    "find_issuance v d rows = Some r \<or> find_issuance v d rows = None"
    "iss_state r = stateReserved \<and> private_stage env v d req vs as rows1 = (res, rows', calls) \<or>
     iss_state r = stateVaultSigned \<and> (\<exists>q. vault_psbt r = Some q \<and>
       public_stage env v d q as rows1 = (res, rows', calls))"
proof -
  have pos: "0 < sint rec" using assms(3,4) by (auto simp: issueSequential_def word_sless_alt split: if_splits)
  from assms(3,4) obtain stage rows1 where com:
    "commitReservation (reserve_end env) (env_period env) (env_now env) v d req rec fee cap rows = (Inr stage, rows1)"
    and rest: "stg_state stage = stateReserved \<and> private_stage env v d (stg_requestPSBT stage) vs as rows1 = (res, rows', calls) \<or>
      stg_state stage = stateVaultSigned \<and> stg_vaultPSBT stage \<noteq> [] \<and>
        public_stage env v d (stg_vaultPSBT stage) as rows1 = (res, rows', calls)"
    by (auto simp: issueSequential_def split: if_splits prod.splits sum.splits)
  obtain r where r: "find_issuance v d rows1 = Some r" "bound_row req rec fee r"
    "stg_state stage = iss_state r" "stg_requestPSBT stage = req" "stg_vaultPSBT stage = opt_string (vault_psbt r)"
    "find_issuance v d rows = Some r \<or> find_issuance v d rows = None"
    by (rule commitReservation_row[OF com])
  have "ledger_ok C rows1"
    using steps_ok[OF commitReservation_steps[where C = C, OF com assms(2) pos] assms(1)] .
  then show ?thesis
    using that[OF com _ r(1,2,6)] rest r by (auto simp: opt_string_def split: option.splits)
qed

subsection \<open>Properties\<close>

definition vault_caps :: "string \<Rightarrow> int" where
  "vault_caps v = (if v = ''v'' then 100 else 0)"

definition ex_env :: issue_env where
  "ex_env = \<lparr>reserve_end = Committed, vault_end = Committed, complete_end = Committed,
     env_period = ''d'', env_now = ''t'', ctx_done = False\<rparr>"

definition ex_row :: issuance where
  "ex_row = \<lparr>iss_vault_id = ''v'', arkade_sighash = replicate 32 7, period_start = ''d'',
     recipient_amount = 60, iss_fee = 5, iss_state = stateReserved, request_psbt = ''q'',
     vault_psbt = None, signed_psbt = None, created_at = ''t'', updated_at = ''t''\<rparr>"

lemma ex_reserved:
  "IssueSequential (ex_env\<lparr>vault_end := RolledBack\<rparr>) ''v'' (replicate 32 7) ''q'' 60 5 100
     (Some (\<lambda>_. Inr ''p'')) (Some (\<lambda>_. Inr ''s'')) [] =
   (go_err ''transaction failed'', [ex_row], [VaultCall ''q''])"
  by (simp add: IssueSequential_def issueSequential_def commitReservation_def reservation_def find_issuance_def
      SpentInPeriod_def outflow_def addOutflow_def insert_issuance_def issuance_check_def end_tx_def
      ex_env_def ex_row_def word_sless_alt private_stage_def commitVaultSigned_def commitSigningStage_def
      stage_row_def issuance_key_def Let_def)

lemma ex_history: "ledger_history vault_caps [] [ex_row]"
  by (rule ledger_history.sequential[OF ledger_history.start _ ex_reserved]) (simp add: vault_caps_def)

lemma ex_find: "find_issuance ''v'' (replicate 32 7) [ex_row] = Some ex_row"
  by (simp add: find_issuance_def issuance_key_def ex_row_def)

text \<open>C11: No sequence of calls, whatever fails in between, lets the recorded outflow of a
vault in a period exceed the allowance its callers pass; the sum the code computes is the
exact integer sum.\<close>

theorem allowance_never_exceeded:
  assumes "ledger_history C [] rows" "C v < 2 ^ 63"
  shows "0 \<le> outflow v p rows \<and> outflow v p rows \<le> max 0 (C v) \<and>
    (\<exists>n. SpentInPeriod v p rows = Inr n \<and> sint n = outflow v p rows)"
proof -
  have ok: "ledger_ok C rows" by (rule history_ok[OF assms(1)])
  have "0 \<le> outflow v p rows" "outflow v p rows \<le> max 0 (C v)"
    using ok by (auto simp: ledger_ok_def row_ok_outflow_nonneg)
  with assms(2) show ?thesis
    by (auto simp: SpentInPeriod_def Let_def int64_of_int max_def split: if_splits)
qed

lemma allowance_never_exceeded_witness: "outflow ''v'' ''d'' [ex_row] \<le> 100 \<and> outflow ''v'' ''d'' [ex_row] = 65"
  using allowance_never_exceeded[OF ex_history, of "''v''" "''d''"]
  by (simp add: vault_caps_def outflow_def ex_row_def row_outflow_def)

text \<open>C15: issueSequential refines the three-step machine: from a table that satisfies the
invariant, whatever its cosigners and transactions do, it takes steps of the machine, and
the table satisfies the invariant again.\<close>

theorem issueSequential_refines:
  assumes "issueSequential env v d req rec fee cap resume vs as rows = (res, rows', calls)"
    and "sint cap \<le> C v" "ledger_ok C rows"
  shows "issuance_steps C rows rows' \<and> ledger_ok C rows'"
  using issueSequential_steps[where C = C, OF assms(1,2)] steps_ok assms(3) by blast

lemma issueSequential_refines_witness:
  "issuance_steps vault_caps [] [ex_row] \<and> ledger_ok vault_caps [ex_row]"
  by (rule issueSequential_refines[of "ex_env\<lparr>vault_end := RolledBack\<rparr>" "''v''" "replicate 32 7" "''q''" 60 5 100 True
        "\<lambda>_. Inr ''p''" "\<lambda>_. Inr ''s''" "[]"])
     (use ex_reserved in \<open>simp_all add: IssueSequential_def vault_caps_def ledger_ok_Nil\<close>)

text \<open>A row of the table is permanent: through any history it keeps its place, key,
period, amounts and request, its state only moves from reserved to vault signed to completed, and a
persisted signature is never replaced.\<close>

theorem issued_rows_permanent:
  assumes "ledger_history C rows rows'"
  shows "rows_advance rows rows'"
  by (rule steps_advance[OF history_steps[OF assms]])

lemma issued_rows_permanent_witness: "rows_advance [] [ex_row]"
  by (rule issued_rows_permanent[OF ex_history])

text \<open>C14: A request that was seen before: with other contents it is refused, and a completed one is
answered with the stored transaction; in both cases the table does not change, no allowance is reserved
and no cosigner is called, whatever allowance is left.\<close>

theorem replay_is_exact:
  assumes "ledger_history C [] rows" "find_issuance v d rows = Some r"
    and "v \<noteq> []" "length d = 32" "req \<noteq> []" "0 < sint rec" "0 \<le> sint fee" "0 \<le> sint cap"
  shows "((request_psbt r \<noteq> req \<or> recipient_amount r \<noteq> rec \<or> iss_fee r \<noteq> fee) \<longrightarrow>
       issueSequential env v d req rec fee cap resume vs as rows =
         (go_err ''issuance is already bound to a different exact request'', rows, [])) \<and>
     (request_psbt r = req \<and> recipient_amount r = rec \<and> iss_fee r = fee \<and> iss_state r = stateCompleted \<and>
        reserve_end env = Committed \<longrightarrow>
      (\<exists>s. signed_psbt r = Some s \<and> s \<noteq> [] \<and>
         issueSequential env v d req rec fee cap resume vs as rows = (Inr (s, True), rows, [])))"
proof -
  have ok: "ledger_ok C rows" by (rule history_ok[OF assms(1)])
  have row: "row_ok r" by (rule ledger_ok_row[OF ok assms(2)])
  show ?thesis
    using assms row reservation_found[OF ok assms(2)]
    by (auto simp: issueSequential_def word_sless_alt commitReservation_def end_tx_def row_ok_def
        issuance_check_def stage_of_def opt_string_def)
qed

lemma replay_is_exact_witness:
  "issueSequential ex_env ''v'' (replicate 32 7) ''other'' 60 5 0 True Inr Inr [ex_row] =
     (go_err ''issuance is already bound to a different exact request'', [ex_row], [])"
  using replay_is_exact[OF ex_history ex_find, of "''other''" 60 5 0 ex_env True Inr Inr]
  by (simp add: ex_row_def)

text \<open>C12: A cosigner only sees what is durable.  The vault cosigner is called with the request
of a row that was committed, reserved and unsigned, before the call; so it is never called again once
its signature is stored.  The public cosigner is called with the stored vault-signed transaction.\<close>

theorem cosigners_see_persisted:
  assumes "ledger_history C [] rows" "sint cap \<le> C v"
    and "issueSequential env v d req rec fee cap resume vs as rows = (res, rows', calls)"
  shows "(VaultCall p \<in> set calls \<longrightarrow>
       (\<exists>r. find_issuance v d (snd (commitReservation (reserve_end env) (env_period env) (env_now env) v d req
                rec fee cap rows)) = Some r \<and> iss_state r = stateReserved \<and> request_psbt r = p \<and> p = req \<and>
            recipient_amount r = rec \<and> iss_fee r = fee)) \<and>
     (ArkadeCall p \<in> set calls \<longrightarrow>
       (\<exists>r. find_issuance v d rows' = Some r \<and> vault_psbt r = Some p \<and> request_psbt r = req \<and>
            recipient_amount r = rec \<and> iss_fee r = fee)) \<and>
     (\<forall>r. find_issuance v d rows = Some r \<longrightarrow> iss_state r \<noteq> stateReserved \<longrightarrow> VaultCall p \<notin> set calls)"
proof (cases "calls = []")
  case False
  have ok: "ledger_ok C rows" by (rule history_ok[OF assms(1)])
  obtain stage r rows1 where com:
      "commitReservation (reserve_end env) (env_period env) (env_now env) v d req rec fee cap rows = (Inr stage, rows1)"
    and r: "ledger_ok C rows1" "find_issuance v d rows1 = Some r" "bound_row req rec fee r"
      "find_issuance v d rows = Some r \<or> find_issuance v d rows = None"
    and run: "iss_state r = stateReserved \<and> private_stage env v d req vs as rows1 = (res, rows', calls) \<or>
     iss_state r = stateVaultSigned \<and> (\<exists>q. vault_psbt r = Some q \<and> public_stage env v d q as rows1 = (res, rows', calls))"
    by (rule issueSequential_calls[where C = C, OF ok assms(2,3) False])
  from run show ?thesis
  proof (elim disjE conjE exE)
    assume st: "iss_state r = stateReserved" "private_stage env v d req vs as rows1 = (res, rows', calls)"
    show ?thesis
      using private_stage_calls[OF r(1,2,3) st(2), of p] st(1) r com by (auto simp: bound_row_def)
  next
    fix q assume st: "iss_state r = stateVaultSigned" "vault_psbt r = Some q"
      "public_stage env v d q as rows1 = (res, rows', calls)"
    show ?thesis
      using public_stage_calls[OF r(1,2) st(2) r(3) st(3)] by (auto simp: bound_row_def)
  qed
qed simp

lemma cosigners_see_persisted_witness:
  "\<exists>r. find_issuance ''v'' (replicate 32 7) (snd (commitReservation Committed ''d'' ''t'' ''v'' (replicate 32 7) ''q''
      60 5 100 [])) = Some r \<and> iss_state r = stateReserved \<and> request_psbt r = ''q''"
proof -
  have "issueSequential (ex_env\<lparr>vault_end := RolledBack\<rparr>) ''v'' (replicate 32 7) ''q'' 60 5 100 True
      (\<lambda>_. Inr ''p'') (\<lambda>_. Inr ''s'') [] = (go_err ''transaction failed'', [ex_row], [VaultCall ''q''])"
    using ex_reserved by (simp add: IssueSequential_def)
  from cosigners_see_persisted[OF ledger_history.start _ this, of vault_caps "''q''"] show ?thesis
    by (auto simp: vault_caps_def ex_env_def)
qed

text \<open>C13: A stuck issuance can always be finished: a request that is reserved or vault signed is
completed by an exact retry, with no allowance left as well, when the cosigners it still needs answer
and the store commits; the private cosigner is asked only if its signature was not stored.\<close>

theorem exact_retry_completes:
  assumes "ledger_history C [] rows" "find_issuance v d rows = Some r" "iss_state r \<noteq> stateCompleted"
    and "v \<noteq> []" "length d = 32" "0 \<le> sint cap"
    and "reserve_end env = Committed" "vault_end env = Committed" "complete_end env = Committed" "\<not> ctx_done env"
    and "p = (case vault_psbt r of Some q \<Rightarrow> q | None \<Rightarrow> p)"
    and "iss_state r = stateReserved \<Longrightarrow> vs (request_psbt r) = Inr p" "p \<noteq> []" "as p = Inr s" "s \<noteq> []"
  shows "\<exists>rows' r'. IssueSequential env v d (request_psbt r) (recipient_amount r) (iss_fee r) cap (Some vs) (Some as) rows =
      (Inr (s, False), rows',
       (if iss_state r = stateReserved then [VaultCall (request_psbt r), ArkadeCall p] else [ArkadeCall p])) \<and>
    find_issuance v d rows' = Some r' \<and> iss_state r' = stateCompleted \<and> signed_psbt r' = Some s \<and> row_advances r r'"
proof -
  have ok: "ledger_ok C rows" by (rule history_ok[OF assms(1)])
  have row: "row_ok r" by (rule ledger_ok_row[OF ok assms(2)])
  note start = reservation_found[OF ok assms(2), of _ _ "request_psbt r" "recipient_amount r" "iss_fee r"]
  have run: "IssueSequential env v d (request_psbt r) (recipient_amount r) (iss_fee r) cap (Some vs) (Some as) rows =
    (if iss_state r = stateReserved then private_stage env v d (request_psbt r) vs as rows
     else public_stage env v d p as rows)"
    using assms(3-11,13) row start
    by (auto simp: IssueSequential_def issueSequential_def word_sless_alt commitReservation_def end_tx_def row_ok_def
        issuance_check_def stage_of_def opt_string_def)
  show ?thesis
  proof (cases "iss_state r = stateReserved")
    case True
    obtain rows' where "private_stage env v d (request_psbt r) vs as rows = (Inr (s, False), rows', [VaultCall (request_psbt r), ArkadeCall p])"
      "find_issuance v d rows' = Some (r\<lparr>iss_state := stateCompleted, vault_psbt := Some p, signed_psbt := Some s,
        updated_at := env_now env\<rparr>)"
      by (rule private_stage_completes[where vs = vs and as = as and env = env,
            OF ok assms(2) True assms(8,9,10) assms(12)[OF True] assms(13,14,15)])
    then show ?thesis
      using run True by (auto simp: row_advances_def issuance_key_def state_rank_def)
  next
    case False
    then have st: "iss_state r = stateVaultSigned" using row assms(3) by (auto simp: row_ok_def issuance_check_def)
    obtain rows' where "public_stage env v d p as rows = (Inr (s, False), rows', [ArkadeCall p])"
      "find_issuance v d rows' = Some (r\<lparr>iss_state := stateCompleted, signed_psbt := Some s, updated_at := env_now env\<rparr>)"
      by (rule public_stage_completes[where as = as and p = p and env = env, OF ok assms(2) st assms(9,10,14,15)])
    then show ?thesis
      using run st by (auto simp: row_advances_def issuance_key_def state_rank_def)
  qed
qed

lemma exact_retry_completes_witness:
  "\<exists>rows'. fst (snd (IssueSequential ex_env ''v'' (replicate 32 7) ''q'' 60 5 0 (Some (\<lambda>_. Inr ''p'')) (Some (\<lambda>_. Inr ''s'')) [ex_row])) = rows' \<and>
     length rows' > 0 \<and>
     snd (snd (IssueSequential ex_env ''v'' (replicate 32 7) ''q'' 60 5 0 (Some (\<lambda>_. Inr ''p'')) (Some (\<lambda>_. Inr ''s'')) [ex_row])) =
       [VaultCall ''q'', ArkadeCall ''p'']"
  using exact_retry_completes[OF ex_history ex_find, of 0 ex_env "''p''" "\<lambda>_. Inr ''p''" "\<lambda>_. Inr ''s''" "''s''"]
    find_issuance_SomeD(1)
  by (fastforce simp: ex_row_def ex_env_def)

end
