(* ===== verification/VaultStore.thy ===== *)
theory VaultStore
imports VaultRecords VaultLedgerProps "HOL-Library.List_Lexorder"
begin

text \<open>Model of the tenant store of poc/2fa-vault/internal/policy: enrolling the first credential and
its recovery envelope (ledger.go, envelope.go), the tenant tables (tenant.go), invites and new vaults
(vault_create.go, pending.go), and the migration of the first credential (migrate.go).

A table is the list of its rows with the constraints of its schema; foreign keys are enforced.  The
end of each transaction is a parameter, as in the ledger; a failed insert for a reason outside the
constraints below (a nil slice in a NOT NULL column, a full disk) is a transaction that is rolled
back.  The structural validation of the schema is a theory of its own: its result is a parameter here.\<close>

record invite =
  inv_token_hash :: bytes
  inv_expires_at :: string
  inv_consumed_vault_id :: "string option"
  inv_created_at :: string

record pendingEnrollment =
  pend_Handle :: string
  pend_VaultID :: string
  pend_TokenHash :: bytes
  pend_Challenge :: bytes
  pend_ExpiresAt :: string
  pend_CreatedAt :: string

record vault_db =
  db_credential :: "credential option"
  db_envelope :: "credentialEnvelope option"
  db_vaults :: "vaultRecord list"
  db_passkeys :: "vaultCredential list"
  db_vault_envelopes :: "(string \<times> credentialEnvelope) list"
  db_invites :: "invite list"
  db_pending :: "pendingEnrollment list"
  db_multi_tenant :: bool
  db_schema_meta :: "int list"

definition schemaVersionMultiTenant :: int where "schemaVersionMultiTenant = 4"

subsection \<open>Schema version\<close>

definition schemaMetaState :: "vault_db \<Rightarrow> int \<times> int" where
  "schemaMetaState db =
     (let rows = int (length (db_schema_meta db)) in if rows = 0 then (0, 0) else (hd (db_schema_meta db), rows))"

definition schemaVersion :: "vault_db \<Rightarrow> int res" where
  "schemaVersion db =
     (let (ver, n) = schemaMetaState db in
      if n = 0 then Inr 0
      else if n \<noteq> 1 then go_err ''schema_meta must contain exactly one version row'' else Inr ver)"

definition validateSchemaMeta :: "vault_db \<Rightarrow> unit res" where
  "validateSchemaMeta db =
     (let (ver, n) = schemaMetaState db in
      if n = 0 then Inr ()
      else if n \<noteq> 1 then go_err ''schema_meta must contain exactly one version row''
      else if ver > schemaVersionMultiTenant then go_err ''schema version is newer than this binary''
      else if ver \<noteq> schemaVersionMultiTenant then go_err ''schema_meta version'' else Inr ())"

definition v4TableExists :: "vault_db \<Rightarrow> bool" where
  "v4TableExists db = db_multi_tenant db"

definition rejectUnsupportedSchemaVersion :: "vault_db \<Rightarrow> unit res" where
  "rejectUnsupportedSchemaVersion db =
     (if \<not> v4TableExists db then Inr ()
      else let (ver, n) = schemaMetaState db in
        if n = 0 then Inr ()
        else if n \<noteq> 1 then go_err ''schema_meta must contain exactly one version row''
        else if ver > schemaVersionMultiTenant then go_err ''schema version is newer than this binary''
        else if ver \<noteq> schemaVersionMultiTenant then go_err ''schema_meta version'' else Inr ())"

text \<open>Creating the tables is idempotent and outside a transaction; schema is the result of their validation.\<close>

definition ensureMultiTenantSchema :: "unit res \<Rightarrow> vault_db \<Rightarrow> unit res \<times> vault_db" where
  "ensureMultiTenantSchema schema db =
     (case rejectUnsupportedSchemaVersion db of Inl e \<Rightarrow> (Inl e, db)
      | Inr _ \<Rightarrow> (schema, db\<lparr>db_multi_tenant := True\<rparr>))"

definition ensureMultiTenantSchemaTx :: "unit res \<Rightarrow> vault_db \<Rightarrow> vault_db res" where
  "ensureMultiTenantSchemaTx schema db = bindE schema (\<lambda>_. Inr (db\<lparr>db_multi_tenant := True\<rparr>))"

subsection \<open>Rows\<close>

definition envelope_check :: "credentialEnvelope \<Rightarrow> bool" where
  "envelope_check e \<longleftrightarrow> env_Version e = 1 \<and> 0 < length (env_Binding e) \<and> length (env_Binding e) \<le> 16384 \<and>
     length (env_Nonce e) = 12 \<and> length (env_Ciphertext e) = 48 \<and> length (env_DirectSig e) = 64 \<and>
     length (env_PhoneSig e) = 64 \<and> length (env_IntegrityMAC e) = 32"

definition insertCredential :: "credential \<Rightarrow> vault_db \<Rightarrow> vault_db res" where
  "insertCredential c db =
     (if db_credential db \<noteq> None then go_err ''enrollment locked or failed''
      else Inr (db\<lparr>db_credential := Some c\<rparr>))"

definition insert_envelope :: "credentialEnvelope \<Rightarrow> vault_db \<Rightarrow> vault_db res" where
  "insert_envelope e db =
     (if db_envelope db \<noteq> None \<or> \<not> envelope_check e then go_err ''credential envelope locked or failed''
      else Inr (db\<lparr>db_envelope := Some e\<rparr>))"

definition getVaultTx :: "string \<Rightarrow> vault_db \<Rightarrow> vaultRecord option" where
  "getVaultTx vaultID db = find (\<lambda>v. vr_VaultID v = vaultID) (db_vaults db)"

text \<open>ORDER BY resident DESC LIMIT 1; which of several equal rows comes first is not specified, the
model takes the first.\<close>

definition getVaultCredentialTx :: "string \<Rightarrow> vault_db \<Rightarrow> vaultCredential option" where
  "getVaultCredentialTx vaultID db =
     (let rows = filter (\<lambda>c. vc_VaultID c = vaultID) (db_passkeys db) in
      case filter vc_Resident rows @ filter (\<lambda>c. \<not> vc_Resident c) rows of [] \<Rightarrow> None | c # _ \<Rightarrow> Some c)"

definition getVaultEnvelopeTx :: "string \<Rightarrow> vault_db \<Rightarrow> credentialEnvelope option res" where
  "getVaultEnvelopeTx vaultID db =
     (case map_of (db_vault_envelopes db) vaultID of None \<Rightarrow> Inr None
      | Some e \<Rightarrow> bindE (validateCredentialEnvelope e) (\<lambda>_. Inr (Some e)))"

definition getEnvelopeTx :: "vault_db \<Rightarrow> credentialEnvelope option res" where
  "getEnvelopeTx db =
     (case db_envelope db of None \<Rightarrow> Inr None
      | Some e \<Rightarrow> bindE (validateCredentialEnvelope e) (\<lambda>_. Inr (Some e)))"

definition insert_vault_row :: "vaultRecord \<Rightarrow> vault_db \<Rightarrow> vault_db res" where
  "insert_vault_row v db =
     (if vr_VaultID v \<in> vr_VaultID ` set (db_vaults db) \<or>
         vr_CosignerMode v \<notin> {''legacy-direct-v0'', ''hkdf-sha256-v1''} \<or> length (vr_IntegrityMAC v) \<noteq> 32
      then go_err ''constraint failed'' else Inr (db\<lparr>db_vaults := db_vaults db @ [v]\<rparr>))"

definition insertVaultCredentialTx :: "vaultCredential \<Rightarrow> vault_db \<Rightarrow> vault_db res" where
  "insertVaultCredentialTx c db =
     (if vc_CredentialID c \<in> vc_CredentialID ` set (db_passkeys db) \<or>
         vc_VaultID c \<notin> vr_VaultID ` set (db_vaults db) \<or> length (vc_IntegrityMAC c) \<noteq> 32
      then go_err ''constraint failed'' else Inr (db\<lparr>db_passkeys := db_passkeys db @ [c]\<rparr>))"

definition insertVaultEnvelopeTx :: "string \<Rightarrow> credentialEnvelope \<Rightarrow> vault_db \<Rightarrow> vault_db res" where
  "insertVaultEnvelopeTx vaultID e db =
     (if vaultID \<in> fst ` set (db_vault_envelopes db) \<or> vaultID \<notin> vr_VaultID ` set (db_vaults db) \<or> \<not> envelope_check e
      then go_err ''constraint failed''
      else Inr (db\<lparr>db_vault_envelopes := db_vault_envelopes db @ [(vaultID, e)]\<rparr>))"

definition insertVaultTx :: "vaultRecord \<Rightarrow> vaultCredential \<Rightarrow> credentialEnvelope option \<Rightarrow> vault_db \<Rightarrow> vault_db res" where
  "insertVaultTx v c e db =
     bindE (insert_vault_row v db) (\<lambda>db.
     bindE (insertVaultCredentialTx c db) (\<lambda>db.
     case e of None \<Rightarrow> Inr db | Some e \<Rightarrow> insertVaultEnvelopeTx (vr_VaultID v) e db))"

subsection \<open>Enrolling the first credential\<close>

text \<open>The passkey row written for the legacy vault; its user handle was never stored.\<close>

definition legacy_passkey :: "credential \<Rightarrow> string \<Rightarrow> vaultCredential" where
  "legacy_passkey c vaultID =
     \<lparr>vc_CredentialID = cr_ID c, vc_VaultID = vaultID, vc_WebAuthnP256 = cr_WebAuthnP256 c,
      vc_UserHandle = [], vc_Resident = False, vc_IntegrityMAC = []\<rparr>"

definition dualWriteLegacyVaultTx :: "hmac \<Rightarrow> bytes \<Rightarrow> credential \<Rightarrow> credentialEnvelope option \<Rightarrow> vault_db \<Rightarrow> vault_db res" where
  "dualWriteLegacyVaultTx H integrityKey c e db =
     (if cr_VaultID c \<noteq> LegacyFirstVaultID \<or> length integrityKey \<noteq> sha256_Size \<or> \<not> v4TableExists db then Inr db
      else bindE (sealVaultRecord H (vaultRecordFromCredential c) integrityKey) (\<lambda>rec.
      bindE (sealVaultCredential H (legacy_passkey c (vr_VaultID rec)) integrityKey) (\<lambda>cred.
      case getVaultTx (vr_VaultID rec) db of
        Some existing \<Rightarrow> bindE (verifyVaultRecord H (Some existing) integrityKey) (\<lambda>_. Inr db)
      | None \<Rightarrow> insertVaultTx rec cred e db)))"

definition EnrollWithEnvelope :: "wa_lib \<Rightarrow> hmac \<Rightarrow> tx_end \<Rightarrow> bytes \<Rightarrow> credential \<Rightarrow> credentialEnvelope option \<Rightarrow>
    vault_db \<Rightarrow> unit res \<times> vault_db" where
  "EnrollWithEnvelope L H end_of integrityKey c e db =
     (case bindE (validateCredential L c) (\<lambda>_.
             case e of None \<Rightarrow> Inr ()
             | Some e \<Rightarrow> bindE (validateCredentialEnvelope e) (\<lambda>_.
                 if length (env_IntegrityMAC e) \<noteq> sha256_Size
                 then go_err ''credential envelope integrity MAC must be 32 bytes'' else Inr ())) of
        Inl err \<Rightarrow> (Inl err, db)
      | Inr _ \<Rightarrow> end_tx end_of db
          (bindE (insertCredential c db) (\<lambda>db.
           bindE (case e of None \<Rightarrow> Inr db | Some e \<Rightarrow> insert_envelope e db) (\<lambda>db.
           bindE (dualWriteLegacyVaultTx H integrityKey c e db) (\<lambda>db. Inr ((), db))))))"

definition Enroll :: "wa_lib \<Rightarrow> hmac \<Rightarrow> tx_end \<Rightarrow> bytes \<Rightarrow> credential \<Rightarrow> vault_db \<Rightarrow> unit res \<times> vault_db" where
  "Enroll L H end_of integrityKey c db = EnrollWithEnvelope L H end_of integrityKey c None db"

definition GetCredential :: "vault_db \<Rightarrow> credential option" where
  "GetCredential db = db_credential db"

definition GetCredentialEnvelope :: "vault_db \<Rightarrow> credentialEnvelope option res" where
  "GetCredentialEnvelope db = getEnvelopeTx db"

definition syncLegacyVaultEnvelopeTx :: "credentialEnvelope \<Rightarrow> vault_db \<Rightarrow> vault_db res" where
  "syncLegacyVaultEnvelopeTx e db =
     (if \<not> v4TableExists db then Inr db
      else case getVaultTx LegacyFirstVaultID db of None \<Rightarrow> Inr db
      | Some _ \<Rightarrow>
          bindE (getVaultEnvelopeTx LegacyFirstVaultID db) (\<lambda>existing.
          case existing of
            Some e' \<Rightarrow> if envelopesEqual e' e then Inr db else go_err ''vault envelope locked''
          | None \<Rightarrow> insertVaultEnvelopeTx LegacyFirstVaultID e db))"

definition StoreCredentialEnvelopeIfAbsent :: "tx_end \<Rightarrow> credentialEnvelope \<Rightarrow> vault_db \<Rightarrow> unit res \<times> vault_db" where
  "StoreCredentialEnvelopeIfAbsent end_of e db =
     (case validateCredentialEnvelope e of Inl err \<Rightarrow> (Inl err, db)
      | Inr _ \<Rightarrow>
          if length (env_IntegrityMAC e) \<noteq> sha256_Size
          then (go_err ''credential envelope integrity MAC must be 32 bytes'', db)
          else end_tx end_of db
            (case db_envelope db of
               Some existing \<Rightarrow>
                 if envelopesEqual existing e
                 then bindE (syncLegacyVaultEnvelopeTx e db) (\<lambda>db. Inr ((), db))
                 else go_err ''credential envelope locked''
             | None \<Rightarrow>
                 bindE (insert_envelope e db) (\<lambda>db.
                 bindE (syncLegacyVaultEnvelopeTx e db) (\<lambda>db. Inr ((), db)))))"

subsection \<open>Invites and new vaults\<close>

text \<open>PutInvite runs outside a transaction: its insert is one statement.\<close>

definition insert_invite :: "bytes \<Rightarrow> string \<Rightarrow> string \<Rightarrow> vault_db \<Rightarrow> vault_db res" where
  "insert_invite tokenHash expiresAt createdAt db =
     (if tokenHash \<in> inv_token_hash ` set (db_invites db) \<or> length tokenHash \<noteq> 32 then go_err ''constraint failed''
      else Inr (db\<lparr>db_invites := db_invites db @ [\<lparr>inv_token_hash = tokenHash, inv_expires_at = expiresAt,
             inv_consumed_vault_id = None, inv_created_at = createdAt\<rparr>]\<rparr>))"

definition PutInvite :: "unit res \<Rightarrow> tx_end \<Rightarrow> bytes \<Rightarrow> string \<Rightarrow> string \<Rightarrow> vault_db \<Rightarrow> unit res \<times> vault_db" where
  "PutInvite schema end_of tokenHash expiresAt createdAt db =
     (if length tokenHash \<noteq> sha256_Size then (go_err ''invite token_hash must be 32 bytes'', db)
      else if expiresAt = [] \<or> createdAt = [] then (go_err ''invite timestamps required'', db)
      else case ensureMultiTenantSchema schema db of
          (Inl e, db) \<Rightarrow> (Inl e, db)
        | (Inr _, db) \<Rightarrow> end_tx end_of db (bindE (insert_invite tokenHash expiresAt createdAt db) (\<lambda>db. Inr ((), db))))"

record createVaultInput =
  in_Record :: vaultRecord
  in_Credential :: vaultCredential
  in_Envelope :: "credentialEnvelope option"
  in_TokenHash :: bytes

definition validateCreateVaultInput :: "createVaultInput \<Rightarrow> unit res" where
  "validateCreateVaultInput i =
     (if vr_VaultID (in_Record i) = [] \<or> vr_VaultID (in_Record i) = LegacyFirstVaultID
      then go_err ''create vault requires a new opaque vault id''
      else if vr_CosignerMode (in_Record i) \<noteq> CosignerModeHKDFSHA256V1 then go_err ''new vaults must use hkdf-sha256-v1''
      else if vc_VaultID (in_Credential i) \<noteq> vr_VaultID (in_Record i) then go_err ''credential vault id mismatch''
      else if length (in_TokenHash i) \<noteq> sha256_Size then go_err ''invite token_hash must be 32 bytes''
      else if length (vr_IntegrityMAC (in_Record i)) \<noteq> sha256_Size \<or> length (vc_IntegrityMAC (in_Credential i)) \<noteq> sha256_Size
      then go_err ''vault and credential integrity MACs required'' else Inr ())"

text \<open>Go compares strings by their bytes.\<close>

fun string_less :: "string \<Rightarrow> string \<Rightarrow> bool" where
  "string_less _ [] = False"
| "string_less [] (_ # _) = True"
| "string_less (a # as) (b # bs) =
     ((of_char a :: nat) < of_char b \<or> a = b \<and> string_less as bs)"

text \<open>The UPDATE of the invites that have the token and are not consumed; consumed_vault_id is unique
and references a vault.\<close>

definition consume_invite :: "string \<Rightarrow> bytes \<Rightarrow> vault_db \<Rightarrow> (nat \<times> vault_db) res" where
  "consume_invite vaultID tokenHash db =
     (let hit = (\<lambda>i. inv_token_hash i = tokenHash \<and> inv_consumed_vault_id i = None);
          n = length (filter hit (db_invites db));
          invites = map (\<lambda>i. if hit i then i\<lparr>inv_consumed_vault_id := Some vaultID\<rparr> else i) (db_invites db) in
      if n \<noteq> 0 \<and> (\<not> distinct (filter (\<lambda>v. v \<noteq> None) (map inv_consumed_vault_id invites)) \<or>
                  vaultID \<notin> vr_VaultID ` set (db_vaults db))
      then go_err ''constraint failed'' else Inr (n, db\<lparr>db_invites := invites\<rparr>))"

definition create_vault_tx :: "string \<Rightarrow> createVaultInput \<Rightarrow> vault_db \<Rightarrow> (unit \<times> vault_db) res" where
  "create_vault_tx now i db =
     (case find (\<lambda>r. inv_token_hash r = in_TokenHash i) (db_invites db) of None \<Rightarrow> go_err ''invite''
      | Some found \<Rightarrow>
          if inv_consumed_vault_id found \<noteq> None then go_err ''invite already consumed''
          else if inv_expires_at found \<noteq> [] \<and> string_less (inv_expires_at found) now then go_err ''invite expired''
          else bindE (insertVaultTx (in_Record i) (in_Credential i) (in_Envelope i) db) (\<lambda>db.
            bindE (consume_invite (vr_VaultID (in_Record i)) (in_TokenHash i) db) (\<lambda>(n, db).
            if n \<noteq> 1 then go_err ''invite consume cas failed'' else Inr ((), db))))"

text \<open>After the commit the foreign keys are checked once more: that error is a committed transaction.\<close>

definition CreateVault :: "unit res \<Rightarrow> tx_end \<Rightarrow> string \<Rightarrow> createVaultInput \<Rightarrow> vault_db \<Rightarrow> unit res \<times> vault_db" where
  "CreateVault schema end_of now i db =
     (case validateCreateVaultInput i of Inl e \<Rightarrow> (Inl e, db)
      | Inr _ \<Rightarrow>
          (case ensureMultiTenantSchema schema db of
             (Inl e, db) \<Rightarrow> (Inl e, db)
           | (Inr _, db) \<Rightarrow> end_tx end_of db (create_vault_tx now i db)))"

definition ListVaultIDs :: "vault_db \<Rightarrow> string list" where
  "ListVaultIDs db =
     (if \<not> v4TableExists db then []
      else sort_key (\<lambda>s. map (of_char :: char \<Rightarrow> nat) s) (map vr_VaultID (db_vaults db)))"

subsection \<open>Pending enrollments\<close>

definition validatePendingEnrollment :: "pendingEnrollment \<Rightarrow> unit res" where
  "validatePendingEnrollment p =
     (if pend_Handle p = [] \<or> pend_VaultID p = [] then go_err ''pending enrollment handle and vault id required''
      else if length (pend_TokenHash p) \<noteq> sha256_Size then go_err ''pending enrollment token_hash must be 32 bytes''
      else if length (pend_Challenge p) = 0 then go_err ''pending enrollment challenge required''
      else if pend_ExpiresAt p = [] \<or> pend_CreatedAt p = [] then go_err ''pending enrollment timestamps required''
      else Inr ())"

definition getPendingByTokenHashTx :: "bytes \<Rightarrow> vault_db \<Rightarrow> pendingEnrollment option" where
  "getPendingByTokenHashTx tokenHash db = find (\<lambda>p. pend_TokenHash p = tokenHash) (db_pending db)"

definition insert_pending :: "pendingEnrollment \<Rightarrow> vault_db \<Rightarrow> vault_db res" where
  "insert_pending p db =
     (if pend_Handle p \<in> pend_Handle ` set (db_pending db) \<or> pend_VaultID p \<in> pend_VaultID ` set (db_pending db) \<or>
         pend_TokenHash p \<in> pend_TokenHash ` set (db_pending db) \<or> length (pend_TokenHash p) \<noteq> 32 \<or>
         pend_TokenHash p \<notin> inv_token_hash ` set (db_invites db)
      then go_err ''pending enrollment'' else Inr (db\<lparr>db_pending := db_pending db @ [p]\<rparr>))"

definition reservePendingEnrollmentTx :: "pendingEnrollment \<Rightarrow> vault_db \<Rightarrow> (pendingEnrollment \<times> vault_db) res" where
  "reservePendingEnrollmentTx p db =
     (case getPendingByTokenHashTx (pend_TokenHash p) db of Some existing \<Rightarrow> Inr (existing, db)
      | None \<Rightarrow> bindE (insert_pending p db) (\<lambda>db. Inr (p, db)))"

definition ReservePendingEnrollment :: "unit res \<Rightarrow> tx_end \<Rightarrow> pendingEnrollment \<Rightarrow> vault_db \<Rightarrow> pendingEnrollment res \<times> vault_db" where
  "ReservePendingEnrollment schema end_of p db =
     (case validatePendingEnrollment p of Inl e \<Rightarrow> (Inl e, db)
      | Inr _ \<Rightarrow>
          (case ensureMultiTenantSchema schema db of
             (Inl e, db) \<Rightarrow> (Inl e, db)
           | (Inr _, db) \<Rightarrow> end_tx end_of db (reservePendingEnrollmentTx p db)))"

subsection \<open>Loading a vault\<close>

definition LoadVault :: "string \<Rightarrow> vault_db \<Rightarrow> (vaultRecord \<times> vaultCredential option) option res" where
  "LoadVault vaultID db =
     (if vaultID = [] then go_err ''vault id required''
      else case getVaultTx vaultID db of None \<Rightarrow> Inr None
        | Some v \<Rightarrow> Inr (Some (v, getVaultCredentialTx vaultID db)))"

definition LoadVerifiedVault :: "hmac \<Rightarrow> string \<Rightarrow> bytes \<Rightarrow> vault_db \<Rightarrow> (vaultRecord \<times> vaultCredential option) option res" where
  "LoadVerifiedVault H vaultID key db =
     bindE (LoadVault vaultID db) (\<lambda>loaded.
     case loaded of None \<Rightarrow> Inr None
     | Some (rec, cred) \<Rightarrow>
         bindE (verifyVaultRecord H (Some rec) key) (\<lambda>_.
         case cred of None \<Rightarrow> Inr (Some (rec, None))
         | Some c \<Rightarrow> bindE (verifyVaultCredential H (Some c) key) (\<lambda>_. Inr (Some (rec, Some c)))))"

subsection \<open>Migrating the first credential\<close>

definition upsertMigratedLegacyVault :: "hmac \<Rightarrow> credential \<Rightarrow> bytes \<Rightarrow> vault_db \<Rightarrow> vault_db res" where
  "upsertMigratedLegacyVault H legacy integrityKey db =
     (let rec = vaultRecordFromCredential legacy in
      if vr_CosignerMode rec \<noteq> CosignerModeLegacyDirectV0 then go_err ''first vault must persist legacy-direct-v0''
      else bindE (sealVaultRecord H rec integrityKey) (\<lambda>rec.
      bindE (sealVaultCredential H (legacy_passkey legacy (vr_VaultID rec)) integrityKey) (\<lambda>cred.
      bindE (getEnvelopeTx db) (\<lambda>env.
      bindE (case env of None \<Rightarrow> Inr () | Some e \<Rightarrow> VerifyCredentialEnvelope H (Some e) (cr_ID legacy) integrityKey) (\<lambda>_.
      case (getVaultTx (vr_VaultID rec) db, getVaultCredentialTx (vr_VaultID rec) db) of
        (None, Some _) \<Rightarrow> go_err ''partial migration: vault_credential without vault''
      | (None, None) \<Rightarrow> insertVaultTx rec cred env db
      | (Some existing, existingCred) \<Rightarrow>
          bindE (verifyVaultRecord H (Some existing) integrityKey) (\<lambda>_.
          bindE (vaultRecordsCanonicallyEqual existing rec) (\<lambda>_.
          bindE (case existingCred of
                   None \<Rightarrow> insertVaultCredentialTx cred db
                 | Some c \<Rightarrow> bindE (verifyVaultCredential H (Some c) integrityKey) (\<lambda>_.
                     bindE (vaultCredentialsCanonicallyEqual c cred) (\<lambda>_. Inr db))) (\<lambda>db.
          case env of None \<Rightarrow> Inr db
          | Some e \<Rightarrow>
              bindE (getVaultEnvelopeTx (vr_VaultID rec) db) (\<lambda>existingEnv.
              case existingEnv of
                None \<Rightarrow> insertVaultEnvelopeTx (vr_VaultID rec) e db
              | Some e' \<Rightarrow> if \<not> envelopesEqual e' e
                  then go_err ''existing v4 envelope does not match the verified v3 envelope'' else Inr db)))))))))"

definition migrateLegacySingletonTx :: "hmac \<Rightarrow> bytes \<Rightarrow> vault_db \<Rightarrow> vault_db res" where
  "migrateLegacySingletonTx H integrityKey db =
     (let (ver, n) = schemaMetaState db in
      if n > 1 then go_err ''schema_meta must contain exactly one version row''
      else if n = 1 \<and> ver > schemaVersionMultiTenant then go_err ''schema version is newer than this binary''
      else bindE (case db_credential db of None \<Rightarrow> Inr db
             | Some legacy \<Rightarrow>
                 bindE (VerifyCredentialIntegrity H (Some legacy) integrityKey) (\<lambda>_.
                 if cr_VaultID legacy \<noteq> LegacyFirstVaultID then go_err ''legacy fallback applies only to operational-vault-v1''
                 else upsertMigratedLegacyVault H legacy integrityKey db)) (\<lambda>db.
        Inr (if n = 0 then db\<lparr>db_schema_meta := db_schema_meta db @ [schemaVersionMultiTenant]\<rparr> else db)))"

definition MigrateLegacySingleton :: "hmac \<Rightarrow> unit res \<Rightarrow> tx_end \<Rightarrow> bytes \<Rightarrow> vault_db \<Rightarrow> unit res \<times> vault_db" where
  "MigrateLegacySingleton H schema end_of integrityKey db =
     (if length integrityKey \<noteq> 32 then (go_err ''credential integrity key must be 32 bytes'', db)
      else case rejectUnsupportedSchemaVersion db of Inl e \<Rightarrow> (Inl e, db)
        | Inr _ \<Rightarrow> end_tx end_of db
            (bindE (ensureMultiTenantSchemaTx schema db) (\<lambda>db.
             bindE (migrateLegacySingletonTx H integrityKey db) (\<lambda>db. Inr ((), db)))))"

text \<open>Accepting a backup file: db is the content of the backup, the integrity check and the schema
validation of it are parameters.\<close>

definition acceptExistingBackup :: "hmac \<Rightarrow> unit res \<Rightarrow> unit res \<Rightarrow> vault_db \<Rightarrow> credential option \<Rightarrow> bytes \<Rightarrow> unit res" where
  "acceptExistingBackup H integrity schema db live integrityKey =
     bindE integrity (\<lambda>_. bindE schema (\<lambda>_.
     bindE (case db_credential db of None \<Rightarrow> Inr ()
            | Some stored \<Rightarrow>
                bindE (VerifyCredentialIntegrity H (Some stored) integrityKey) (\<lambda>_.
                if cr_VaultID stored \<noteq> LegacyFirstVaultID then go_err ''backup vault id'' else Inr ())) (\<lambda>_.
     credentialIdentitiesEqual (db_credential db) live)))"

text \<open>The file at dest: absent, or a database; a snapshot of the live database may fail.  The result
holds the file afterwards.\<close>

definition BackupSQLiteIfAbsent :: "hmac \<Rightarrow> unit res \<Rightarrow> unit res \<Rightarrow> unit res \<Rightarrow> string \<Rightarrow> bytes \<Rightarrow> vault_db \<Rightarrow> vault_db option \<Rightarrow>
    unit res \<times> vault_db option" where
  "BackupSQLiteIfAbsent H snapshot integrity schema dest integrityKey db file =
     (if dest = [] then (go_err ''backup path required'', file)
      else if length integrityKey \<noteq> sha256_Size then (go_err ''integrity key required to verify backup'', file)
      else case (case db_credential db of None \<Rightarrow> Inr ()
                 | Some live \<Rightarrow>
                     bindE (VerifyCredentialIntegrity H (Some live) integrityKey) (\<lambda>_.
                     if cr_VaultID live \<noteq> LegacyFirstVaultID then go_err ''legacy fallback applies only to operational-vault-v1''
                     else Inr ())) of
          Inl e \<Rightarrow> (Inl e, file)
        | Inr _ \<Rightarrow>
            (case file of
               Some b \<Rightarrow> (acceptExistingBackup H integrity schema b (db_credential db) integrityKey, file)
             | None \<Rightarrow>
                 if db_credential db = None then (Inr (), None)
                 else (case snapshot of Inl e \<Rightarrow> (Inl e, None)
                   | Inr _ \<Rightarrow>
                       (case acceptExistingBackup H integrity schema db (db_credential db) integrityKey of
                          Inl e \<Rightarrow> (Inl e, None) | Inr _ \<Rightarrow> (Inr (), Some db)))))"

subsection \<open>The abstract machine of the store\<close>

definition vault_ids :: "vault_db \<Rightarrow> string set" where
  "vault_ids db = vr_VaultID ` set (db_vaults db)"

inductive store_step :: "vault_db \<Rightarrow> vault_db \<Rightarrow> bool" where
  schema: "store_step db (db\<lparr>db_multi_tenant := True\<rparr>)"
| meta: "store_step db (db\<lparr>db_schema_meta := db_schema_meta db @ [schemaVersionMultiTenant]\<rparr>)"
| enroll: "db_credential db = None \<Longrightarrow> store_step db (db\<lparr>db_credential := Some c\<rparr>)"
| envelope: "db_envelope db = None \<Longrightarrow> envelope_check e \<Longrightarrow> store_step db (db\<lparr>db_envelope := Some e\<rparr>)"
| vault_envelope: "v \<in> vault_ids db \<Longrightarrow> v \<notin> fst ` set (db_vault_envelopes db) \<Longrightarrow> envelope_check e \<Longrightarrow>
     store_step db (db\<lparr>db_vault_envelopes := db_vault_envelopes db @ [(v, e)]\<rparr>)"
| passkey: "v \<in> vault_ids db \<Longrightarrow> v \<notin> vc_VaultID ` set (db_passkeys db) \<Longrightarrow> vc_VaultID c = v \<Longrightarrow>
     store_step db (db\<lparr>db_passkeys := db_passkeys db @ [c]\<rparr>)"
| legacy: "insertVaultTx v c e db = Inr db' \<Longrightarrow> vr_VaultID v = LegacyFirstVaultID \<Longrightarrow>
     vc_VaultID c = LegacyFirstVaultID \<Longrightarrow> vr_CosignerMode v = CosignerModeLegacyDirectV0 \<Longrightarrow> store_step db db'"
| new_vault: "insertVaultTx v c e db = Inr db' \<Longrightarrow> vr_VaultID v \<notin> {[], LegacyFirstVaultID} \<Longrightarrow>
     vc_VaultID c = vr_VaultID v \<Longrightarrow> vr_CosignerMode v = CosignerModeHKDFSHA256V1 \<Longrightarrow>
     k < length (db_invites db) \<Longrightarrow> inv_consumed_vault_id (db_invites db ! k) = None \<Longrightarrow>
     store_step db (db'\<lparr>db_invites := (db_invites db)[k := (db_invites db ! k)\<lparr>inv_consumed_vault_id := Some (vr_VaultID v)\<rparr>]\<rparr>)"
| invite: "t \<notin> inv_token_hash ` set (db_invites db) \<Longrightarrow> length t = 32 \<Longrightarrow> inv_token_hash i = t \<Longrightarrow>
     inv_consumed_vault_id i = None \<Longrightarrow> store_step db (db\<lparr>db_invites := db_invites db @ [i]\<rparr>)"
| pending: "pend_VaultID p \<notin> pend_VaultID ` set (db_pending db) \<Longrightarrow> pend_TokenHash p \<notin> pend_TokenHash ` set (db_pending db) \<Longrightarrow>
     pend_TokenHash p \<in> inv_token_hash ` set (db_invites db) \<Longrightarrow> store_step db (db\<lparr>db_pending := db_pending db @ [p]\<rparr>)"

abbreviation store_steps :: "vault_db \<Rightarrow> vault_db \<Rightarrow> bool" where
  "store_steps \<equiv> store_step\<^sup>*\<^sup>*"

subsection \<open>The invariant\<close>

definition envelope_rows :: "string \<Rightarrow> credentialEnvelope option \<Rightarrow> (string \<times> credentialEnvelope) list" where
  "envelope_rows v e = (case e of None \<Rightarrow> [] | Some x \<Rightarrow> [(v, x)])"

lemma insertVaultTx_Inr:
  assumes "insertVaultTx v c e db = Inr db'"
  shows "db' = db\<lparr>db_vaults := db_vaults db @ [v], db_passkeys := db_passkeys db @ [c],
      db_vault_envelopes := db_vault_envelopes db @ envelope_rows (vr_VaultID v) e\<rparr> \<and>
    vr_VaultID v \<notin> vault_ids db \<and> vc_CredentialID c \<notin> vc_CredentialID ` set (db_passkeys db) \<and>
    length (vr_IntegrityMAC v) = 32 \<and> length (vc_IntegrityMAC c) = 32 \<and> vc_VaultID c \<in> insert (vr_VaultID v) (vault_ids db) \<and>
    (\<forall>x. e = Some x \<longrightarrow> envelope_check x \<and> vr_VaultID v \<notin> fst ` set (db_vault_envelopes db))"
  using assms
  by (auto simp: insertVaultTx_def insert_vault_row_def insertVaultCredentialTx_def insertVaultEnvelopeTx_def
      vault_ids_def envelope_rows_def split: if_splits option.splits)

definition consumed_ids :: "vault_db \<Rightarrow> string list" where
  "consumed_ids db = List.map_filter inv_consumed_vault_id (db_invites db)"

lemma map_filter_append: "List.map_filter f (xs @ ys) = List.map_filter f xs @ List.map_filter f ys"
  by (simp add: List.map_filter_def)

definition store_ok :: "vault_db \<Rightarrow> bool" where
  "store_ok db \<longleftrightarrow>
     distinct (map vr_VaultID (db_vaults db)) \<and>
     map vc_VaultID (db_passkeys db) = map vr_VaultID (db_vaults db) \<and>
     distinct (map fst (db_vault_envelopes db)) \<and> fst ` set (db_vault_envelopes db) \<subseteq> vault_ids db \<and>
     list_all envelope_check (map snd (db_vault_envelopes db)) \<and>
     distinct (map inv_token_hash (db_invites db)) \<and>
     distinct (consumed_ids db) \<and> set (consumed_ids db) = vault_ids db - {LegacyFirstVaultID} \<and>
     distinct (map pend_TokenHash (db_pending db)) \<and> distinct (map pend_VaultID (db_pending db)) \<and>
     pend_TokenHash ` set (db_pending db) \<subseteq> inv_token_hash ` set (db_invites db)"

definition empty_db :: vault_db where
  "empty_db = \<lparr>db_credential = None, db_envelope = None, db_vaults = [], db_passkeys = [], db_vault_envelopes = [],
     db_invites = [], db_pending = [], db_multi_tenant = False, db_schema_meta = []\<rparr>"

lemma store_ok_empty: "store_ok empty_db"
  by (simp add: store_ok_def empty_db_def consumed_ids_def vault_ids_def map_filter_simps)

lemma consumed_update:
  assumes "k < length xs" "f (xs ! k) = None" "f x = Some v"
  shows "\<exists>us ws. List.map_filter f xs = us @ ws \<and> List.map_filter f (xs[k := x]) = us @ v # ws"
proof -
  let ?us = "List.map_filter f (take k xs)" and ?ws = "List.map_filter f (drop (Suc k) xs)"
  have "List.map_filter f (take k xs @ xs ! k # drop (Suc k) xs) = ?us @ ?ws"
    "List.map_filter f (take k xs @ x # drop (Suc k) xs) = ?us @ v # ?ws"
    using assms(2,3) by (simp_all add: map_filter_append map_filter_simps)
  then show ?thesis
    using assms(1) id_take_nth_drop[of k xs] upd_conv_take_nth_drop[of k xs x] by metis
qed

lemma step_keeps: "store_step db db' \<Longrightarrow> store_ok db \<Longrightarrow> store_ok db'"
proof (induction rule: store_step.induct)
  case (vault_envelope v db e)
  then show ?case by (auto simp: store_ok_def vault_ids_def consumed_ids_def)
next
  case (passkey v db c)
  from passkey.prems have "vc_VaultID ` set (db_passkeys db) = vault_ids db"
    by (metis store_ok_def vault_ids_def set_map)
  with passkey.hyps show ?case by simp
next
  case (legacy v c e db db')
  note ins = insertVaultTx_Inr[OF legacy.hyps(1)]
  with legacy show ?case
    by (cases e) (auto simp: store_ok_def vault_ids_def consumed_ids_def envelope_rows_def)
next
  case (new_vault v c e db db' k)
  note ins = insertVaultTx_Inr[OF new_vault.hyps(1)]
  let ?i = "(db_invites db ! k)\<lparr>inv_consumed_vault_id := Some (vr_VaultID v)\<rparr>"
  obtain us ws where split: "consumed_ids db = us @ ws"
    "List.map_filter inv_consumed_vault_id ((db_invites db)[k := ?i]) = us @ vr_VaultID v # ws"
    using consumed_update[of k "db_invites db" inv_consumed_vault_id ?i "vr_VaultID v"] new_vault.hyps
    by (auto simp: consumed_ids_def)
  have toks: "map inv_token_hash ((db_invites db)[k := ?i]) = map inv_token_hash (db_invites db)"
    using new_vault.hyps(5) by (simp add: map_update list_update_same_conv)
  have tokset: "inv_token_hash ` set ((db_invites db)[k := ?i]) = inv_token_hash ` set (db_invites db)"
    by (metis toks set_map)
  have ids: "vault_ids db'' = insert (vr_VaultID v) (vault_ids db)"
    if "db_vaults db'' = db_vaults db @ [v]" for db'' by (simp add: vault_ids_def that)
  have env: "distinct (map fst (db_vault_envelopes db @ envelope_rows (vr_VaultID v) e))"
    "fst ` set (db_vault_envelopes db @ envelope_rows (vr_VaultID v) e) \<subseteq> insert (vr_VaultID v) (vault_ids db)"
    "list_all envelope_check (map snd (db_vault_envelopes db @ envelope_rows (vr_VaultID v) e))"
    using ins new_vault.prems by (auto simp: store_ok_def envelope_rows_def split: option.splits)
  show ?case
    using new_vault.prems split ins new_vault.hyps(2,3) env
    unfolding store_ok_def by (simp add: ids toks tokset consumed_ids_def vault_ids_def[of db]) auto
next
  case (invite t db i)
  then show ?case
    by (auto simp: store_ok_def vault_ids_def consumed_ids_def map_filter_append map_filter_simps)
qed (auto simp: store_ok_def vault_ids_def consumed_ids_def)

lemma steps_keep: "store_steps db db' \<Longrightarrow> store_ok db \<Longrightarrow> store_ok db'"
  by (induction rule: rtranclp_induct) (auto intro: step_keeps)

subsection \<open>The operations take steps of the machine\<close>

lemma end_tx_steps:
  assumes "end_tx q db m = (res, db')" "\<And>a db''. m = Inr (a, db'') \<Longrightarrow> store_steps db db''"
  shows "store_steps db db'"
  using assms by (auto simp: end_tx_def split: sum.splits tx_end.splits)

lemma insertCredential_steps: "insertCredential c db = Inr db' \<Longrightarrow> store_steps db db'"
  by (auto simp: insertCredential_def intro: store_step.enroll split: if_splits)

lemma insert_envelope_steps: "insert_envelope e db = Inr db' \<Longrightarrow> store_steps db db'"
  by (auto simp: insert_envelope_def intro: store_step.envelope split: if_splits)

lemma insertVaultEnvelopeTx_steps: "insertVaultEnvelopeTx v e db = Inr db' \<Longrightarrow> store_steps db db'"
  by (auto simp: insertVaultEnvelopeTx_def vault_ids_def intro!: r_into_rtranclp store_step.vault_envelope split: if_splits)

lemma sealed_ids:
  "sealVaultRecord H v key = Inr v' \<Longrightarrow> vr_VaultID v' = vr_VaultID v \<and> vr_CosignerMode v' = vr_CosignerMode v"
  "sealVaultCredential H c key = Inr c' \<Longrightarrow> vc_VaultID c' = vc_VaultID c"
  by (auto simp: sealVaultRecord_def sealVaultCredential_def elim!: bindE_InrE)

lemma legacy_ids:
  "vr_VaultID (vaultRecordFromCredential c) = cr_VaultID c"
  "cr_VaultID c = LegacyFirstVaultID \<Longrightarrow> vr_CosignerMode (vaultRecordFromCredential c) = CosignerModeLegacyDirectV0"
  "vc_VaultID (legacy_passkey c v) = v"
  by (simp_all add: vaultRecordFromCredential_def legacy_passkey_def Let_def)

lemma insert_legacy_steps:
  assumes "sealVaultRecord H (vaultRecordFromCredential c) key = Inr v"
    and "sealVaultCredential H (legacy_passkey c (vr_VaultID v)) key = Inr k"
    and "cr_VaultID c = LegacyFirstVaultID" "insertVaultTx v k e db = Inr db'"
  shows "store_steps db db'"
  using sealed_ids(1)[OF assms(1)] sealed_ids(2)[OF assms(2)] assms(3,4)
  by (auto simp: legacy_ids intro: store_step.legacy)

lemma dualWrite_steps:
  assumes "dualWriteLegacyVaultTx H key c e db = Inr db'"
  shows "store_steps db db'"
  using assms
  by (auto simp: dualWriteLegacyVaultTx_def split: if_splits option.splits elim!: bindE_InrE intro: insert_legacy_steps)

lemma EnrollWithEnvelope_steps:
  assumes "EnrollWithEnvelope L H q key c e db = (res, db')"
  shows "store_steps db db'"
proof -
  let ?tx = "bindE (insertCredential c db) (\<lambda>db.
           bindE (case e of None \<Rightarrow> Inr db | Some e \<Rightarrow> insert_envelope e db) (\<lambda>db.
           bindE (dualWriteLegacyVaultTx H key c e db) (\<lambda>db. Inr ((), db))))"
  have tx: "store_steps db db''" if run: "?tx = Inr (a, db'')" for a db''
  proof -
    obtain d1 d2 where d: "insertCredential c db = Inr d1"
      "(case e of None \<Rightarrow> Inr d1 | Some e \<Rightarrow> insert_envelope e d1) = Inr d2"
      "dualWriteLegacyVaultTx H key c e d2 = Inr db''"
      using run by (auto elim!: bindE_InrE)
    have "store_steps d1 d2"
      using d(2) by (cases e) (auto intro: insert_envelope_steps)
    then show ?thesis
      using insertCredential_steps[OF d(1)] dualWrite_steps[OF d(3)] by (meson rtranclp_trans)
  qed
  show ?thesis
    using assms unfolding EnrollWithEnvelope_def by (cases rule: sum.exhaust) (auto split: sum.splits intro: end_tx_steps[OF _ tx])
qed

lemma syncLegacy_steps: "syncLegacyVaultEnvelopeTx e db = Inr db' \<Longrightarrow> store_steps db db'"
  by (auto simp: syncLegacyVaultEnvelopeTx_def split: if_splits option.splits elim!: bindE_InrE
      intro: insertVaultEnvelopeTx_steps)

lemma StoreEnvelope_steps:
  assumes "StoreCredentialEnvelopeIfAbsent q e db = (res, db')"
  shows "store_steps db db'"
proof -
  let ?tx = "case db_envelope db of
               Some existing \<Rightarrow>
                 if envelopesEqual existing e
                 then bindE (syncLegacyVaultEnvelopeTx e db) (\<lambda>db. Inr ((), db))
                 else go_err ''credential envelope locked''
             | None \<Rightarrow>
                 bindE (insert_envelope e db) (\<lambda>db.
                 bindE (syncLegacyVaultEnvelopeTx e db) (\<lambda>db. Inr ((), db)))"
  have tx: "store_steps db db''" if "?tx = Inr (a, db'')" for a db''
    using that by (auto split: option.splits if_splits elim!: bindE_InrE
        intro: syncLegacy_steps rtranclp_trans[OF insert_envelope_steps syncLegacy_steps])
  show ?thesis
    using assms by (auto simp: StoreCredentialEnvelopeIfAbsent_def split: sum.splits if_splits intro: end_tx_steps[OF _ tx])
qed

lemma ensure_steps: "ensureMultiTenantSchema s db = (res, db') \<Longrightarrow> store_steps db db'"
  by (auto simp: ensureMultiTenantSchema_def split: sum.splits intro: store_step.schema)

lemma PutInvite_steps:
  assumes "PutInvite s q t x n db = (res, db')"
  shows "store_steps db db'"
proof -
  have tx: "store_steps d db''" if "bindE (insert_invite t x n d) (\<lambda>db. Inr ((), db)) = Inr (a, db'')" for a d db''
    using that by (auto simp: insert_invite_def split: if_splits elim!: bindE_InrE intro!: r_into_rtranclp store_step.invite[where t = t])
  show ?thesis
    using assms by (auto simp: PutInvite_def split: if_splits prod.splits sum.splits
        dest!: ensure_steps end_tx_steps[OF _ tx])
qed

lemma create_vault_steps:
  assumes "create_vault_tx now i db = Inr ((), db')" "validateCreateVaultInput i = Inr ()"
  shows "store_steps db db'"
proof -
  let ?v = "in_Record i" and ?t = "in_TokenHash i"
  obtain d n where ins: "insertVaultTx ?v (in_Credential i) (in_Envelope i) db = Inr d"
    and con: "consume_invite (vr_VaultID ?v) ?t d = Inr (n, db')" "n = 1"
    using assms(1) by (auto simp: create_vault_tx_def split: option.splits if_splits elim!: bindE_InrE)
  let ?hit = "\<lambda>r. inv_token_hash r = ?t \<and> inv_consumed_vault_id r = None"
  have inv: "db_invites d = db_invites db" using insertVaultTx_Inr[OF ins] by simp
  then have one: "length (filter ?hit (db_invites db)) = 1"
    and db': "db' = d\<lparr>db_invites := map (\<lambda>r. if ?hit r then r\<lparr>inv_consumed_vault_id := Some (vr_VaultID ?v)\<rparr> else r) (db_invites db)\<rparr>"
    using con by (auto simp: consume_invite_def Let_def split: if_splits)
  obtain k where k: "k < length (db_invites db)" "?hit (db_invites db ! k)"
    "map (\<lambda>r. if ?hit r then r\<lparr>inv_consumed_vault_id := Some (vr_VaultID ?v)\<rparr> else r) (db_invites db) =
     (db_invites db)[k := (db_invites db ! k)\<lparr>inv_consumed_vault_id := Some (vr_VaultID ?v)\<rparr>]"
    by (rule map_single_hit[OF one])
  have "store_step db (d\<lparr>db_invites := (db_invites db)[k := (db_invites db ! k)\<lparr>inv_consumed_vault_id := Some (vr_VaultID ?v)\<rparr>]\<rparr>)"
    by (rule store_step.new_vault[OF ins]) (use assms(2) k in \<open>auto simp: validateCreateVaultInput_def split: if_splits\<close>)
  then show ?thesis using db' k(3) by auto
qed

lemma CreateVault_steps:
  assumes "CreateVault s q now i db = (res, db')"
  shows "store_steps db db'"
proof -
  have tx: "store_steps d db''" if "create_vault_tx now i d = Inr (a, db'')" "validateCreateVaultInput i = Inr ()" for a d db''
    using that by (auto intro: create_vault_steps)
  show ?thesis
    using assms by (auto simp: CreateVault_def split: prod.splits sum.splits
        dest!: ensure_steps intro: rtranclp_trans end_tx_steps[OF _ tx])
qed

lemma ReservePending_steps:
  assumes "ReservePendingEnrollment s q p db = (res, db')"
  shows "store_steps db db'"
proof -
  have tx: "store_steps d db''" if "reservePendingEnrollmentTx p d = Inr (a, db'')" for a d db''
    using that by (auto simp: reservePendingEnrollmentTx_def insert_pending_def split: option.splits if_splits
        elim!: bindE_InrE intro: store_step.pending)
  show ?thesis
    using assms by (auto simp: ReservePendingEnrollment_def split: prod.splits sum.splits
        dest!: ensure_steps intro: rtranclp_trans end_tx_steps[OF _ tx])
qed

lemma upsert_steps:
  assumes "upsertMigratedLegacyVault H c key db = Inr db'" "cr_VaultID c = LegacyFirstVaultID"
  shows "store_steps db db'"
proof -
  obtain v k env where s: "sealVaultRecord H (vaultRecordFromCredential c) key = Inr v"
    "sealVaultCredential H (legacy_passkey c (vr_VaultID v)) key = Inr k"
    and run: "(case (getVaultTx (vr_VaultID v) db, getVaultCredentialTx (vr_VaultID v) db) of
        (None, Some _) \<Rightarrow> go_err ''partial migration: vault_credential without vault''
      | (None, None) \<Rightarrow> insertVaultTx v k env db
      | (Some existing, existingCred) \<Rightarrow>
          bindE (verifyVaultRecord H (Some existing) key) (\<lambda>_.
          bindE (vaultRecordsCanonicallyEqual existing v) (\<lambda>_.
          bindE (case existingCred of
                   None \<Rightarrow> insertVaultCredentialTx k db
                 | Some c \<Rightarrow> bindE (verifyVaultCredential H (Some c) key) (\<lambda>_.
                     bindE (vaultCredentialsCanonicallyEqual c k) (\<lambda>_. Inr db))) (\<lambda>db.
          case env of None \<Rightarrow> Inr db
          | Some e \<Rightarrow>
              bindE (getVaultEnvelopeTx (vr_VaultID v) db) (\<lambda>existingEnv.
              case existingEnv of
                None \<Rightarrow> insertVaultEnvelopeTx (vr_VaultID v) e db
              | Some e' \<Rightarrow> if \<not> envelopesEqual e' e
                  then go_err ''existing v4 envelope does not match the verified v3 envelope'' else Inr db))))) = Inr db'"
    using assms(1) by (auto simp: upsertMigratedLegacyVault_def Let_def split: if_splits elim!: bindE_InrE)
  show ?thesis
  proof (cases "getVaultTx (vr_VaultID v) db")
    case None
    with run have "insertVaultTx v k env db = Inr db'" by (auto split: option.splits)
    then show ?thesis by (rule insert_legacy_steps[OF s assms(2)])
  next
    case (Some existing)
    have id: "vc_VaultID k = vr_VaultID v" using sealed_ids(2)[OF s(2)] by (simp add: legacy_ids)
    have mem: "vr_VaultID v \<in> vault_ids db"
      using Some by (auto simp: getVaultTx_def find_Some_iff vault_ids_def image_iff) (metis nth_mem)
    obtain d where d: "(case getVaultCredentialTx (vr_VaultID v) db of None \<Rightarrow> insertVaultCredentialTx k db
                 | Some c \<Rightarrow> bindE (verifyVaultCredential H (Some c) key) (\<lambda>_.
                     bindE (vaultCredentialsCanonicallyEqual c k) (\<lambda>_. Inr db))) = Inr d"
      and cont: "(case env of None \<Rightarrow> Inr d
          | Some e \<Rightarrow>
              bindE (getVaultEnvelopeTx (vr_VaultID v) d) (\<lambda>existingEnv.
              case existingEnv of
                None \<Rightarrow> insertVaultEnvelopeTx (vr_VaultID v) e d
              | Some e' \<Rightarrow> if \<not> envelopesEqual e' e
                  then go_err ''existing v4 envelope does not match the verified v3 envelope'' else Inr d)) = Inr db'"
      using run unfolding Some prod.case option.case by (elim bindE_InrE) blast
    have rest: "d = db' \<or> (\<exists>e. insertVaultEnvelopeTx (vr_VaultID v) e d = Inr db')"
      using cont by (auto split: option.splits if_splits elim!: bindE_InrE)
    have "store_steps db d"
    proof (cases "getVaultCredentialTx (vr_VaultID v) db")
      case None
      then have "filter (\<lambda>c. vc_VaultID c = vr_VaultID v) (db_passkeys db) = []"
        by (auto simp: getVaultCredentialTx_def Let_def filter_empty_conv split: list.splits)
      then have "vr_VaultID v \<notin> vc_VaultID ` set (db_passkeys db)" by (auto simp: filter_empty_conv)
      with None d id mem show ?thesis
        by (auto simp: insertVaultCredentialTx_def split: if_splits intro: store_step.passkey)
    next
      case (Some c')
      with d show ?thesis by (auto elim!: bindE_InrE)
    qed
    with rest show ?thesis by (auto intro: rtranclp_trans insertVaultEnvelopeTx_steps)
  qed
qed

lemma Migrate_steps:
  assumes "MigrateLegacySingleton H s q key db = (res, db')"
  shows "store_steps db db'"
proof -
  have mig: "store_steps d d'" if mig: "migrateLegacySingletonTx H key d = Inr d'" for d d'
  proof -
    let ?up = "case db_credential d of None \<Rightarrow> Inr d
             | Some legacy \<Rightarrow>
                 bindE (VerifyCredentialIntegrity H (Some legacy) key) (\<lambda>_.
                 if cr_VaultID legacy \<noteq> LegacyFirstVaultID then go_err ''legacy fallback applies only to operational-vault-v1''
                 else upsertMigratedLegacyVault H legacy key d)"
    obtain d1 where d1: "?up = Inr d1"
      "d' = d1 \<or> d' = d1\<lparr>db_schema_meta := db_schema_meta d1 @ [schemaVersionMultiTenant]\<rparr>"
    proof -
      define n where "n = snd (schemaMetaState d)"
      have ok: "\<not> n > 1" "\<not> (n = 1 \<and> fst (schemaMetaState d) > schemaVersionMultiTenant)"
        using mig by (auto simp: migrateLegacySingletonTx_def Let_def case_prod_beta n_def)
      from mig have "bindE ?up (\<lambda>db. Inr (if n = 0 then db\<lparr>db_schema_meta := db_schema_meta db @ [schemaVersionMultiTenant]\<rparr> else db)) = Inr d'"
        by (simp only: migrateLegacySingletonTx_def Let_def case_prod_beta if_not_P[OF ok(1)[unfolded n_def]]
            if_not_P[OF ok(2)[unfolded n_def]] n_def)
      then obtain d1 where "?up = Inr d1"
        "Inr (if n = 0 then d1\<lparr>db_schema_meta := db_schema_meta d1 @ [schemaVersionMultiTenant]\<rparr> else d1) = (Inr d' :: vault_db res)"
        by (rule bindE_InrE)
      then show thesis by (intro that[of d1]) (auto split: if_splits)
    qed
    have "store_steps d d1"
      using d1(1) by (cases "db_credential d") (auto split: if_splits elim!: bindE_InrE dest: upsert_steps)
    with d1(2) have "store_steps d d1 \<and> (d' = d1 \<or> d' = d1\<lparr>db_schema_meta := db_schema_meta d1 @ [schemaVersionMultiTenant]\<rparr>)" by simp
    then show ?thesis by (auto intro: rtranclp.rtrancl_into_rtrancl store_step.meta)
  qed
  have tx: "store_steps db db''"
    if "bindE (ensureMultiTenantSchemaTx s db) (\<lambda>db. bindE (migrateLegacySingletonTx H key db) (\<lambda>db. Inr ((), db))) = Inr (a, db'')"
    for a db''
  proof -
    have "migrateLegacySingletonTx H key (db\<lparr>db_multi_tenant := True\<rparr>) = Inr db''"
      using that by (auto simp: ensureMultiTenantSchemaTx_def elim!: bindE_InrE)
    from mig[OF this] show ?thesis by (rule converse_rtranclp_into_rtranclp[where r = store_step, OF store_step.schema[of db]])
  qed
  show ?thesis
    using assms by (auto simp: MigrateLegacySingleton_def split: if_splits sum.splits intro: end_tx_steps[OF _ tx])
qed

subsection \<open>Histories of the store\<close>

text \<open>Any sequence of the operations of the store, with any arguments, schema checks and ends of
transactions.\<close>

inductive store_history :: "vault_db \<Rightarrow> vault_db \<Rightarrow> bool" where
  start: "store_history db db"
| enrolled: "store_history db d \<Longrightarrow> EnrollWithEnvelope L H q key c e d = (r, d') \<Longrightarrow> store_history db d'"
| recovery: "store_history db d \<Longrightarrow> StoreCredentialEnvelopeIfAbsent q e d = (r, d') \<Longrightarrow> store_history db d'"
| invited: "store_history db d \<Longrightarrow> PutInvite s q t x n d = (r, d') \<Longrightarrow> store_history db d'"
| created: "store_history db d \<Longrightarrow> CreateVault s q now i d = (r, d') \<Longrightarrow> store_history db d'"
| reserved: "store_history db d \<Longrightarrow> ReservePendingEnrollment s q p d = (rp, d') \<Longrightarrow> store_history db d'"
| migrated: "store_history db d \<Longrightarrow> MigrateLegacySingleton H s q key d = (r, d') \<Longrightarrow> store_history db d'"

lemma store_history_steps: "store_history db db' \<Longrightarrow> store_steps db db'"
  by (induction rule: store_history.induct)
     (auto intro: rtranclp_trans EnrollWithEnvelope_steps StoreEnvelope_steps PutInvite_steps CreateVault_steps
        ReservePending_steps Migrate_steps)

text \<open>The store only grows: rows keep their place and contents, except that an invite may become
consumed.\<close>

definition invite_advances :: "invite \<Rightarrow> invite \<Rightarrow> bool" where
  "invite_advances i j \<longleftrightarrow> j = i \<or> inv_consumed_vault_id i = None \<and> (\<exists>v. j = i\<lparr>inv_consumed_vault_id := Some v\<rparr>)"

definition store_extends :: "vault_db \<Rightarrow> vault_db \<Rightarrow> bool" where
  "store_extends db db' \<longleftrightarrow>
     (db_credential db \<noteq> None \<longrightarrow> db_credential db' = db_credential db) \<and>
     (db_envelope db \<noteq> None \<longrightarrow> db_envelope db' = db_envelope db) \<and>
     (\<exists>vs. db_vaults db' = db_vaults db @ vs) \<and> (\<exists>ps. db_passkeys db' = db_passkeys db @ ps) \<and>
     (\<exists>es. db_vault_envelopes db' = db_vault_envelopes db @ es) \<and> (\<exists>ps. db_pending db' = db_pending db @ ps) \<and>
     (\<exists>is js. db_invites db' = is @ js \<and> list_all2 invite_advances (db_invites db) is)"

lemma invite_advances_trans: "invite_advances a b \<Longrightarrow> invite_advances b c \<Longrightarrow> invite_advances a c"
  by (auto simp: invite_advances_def)

lemma invite_advances_refl: "list_all2 invite_advances is is"
  by (simp add: list_all2_same invite_advances_def)

lemma step_extends: "store_step db db' \<Longrightarrow> store_extends db db'"
proof (induction rule: store_step.induct)
  case (legacy v c e db db')
  then show ?case
    using insertVaultTx_Inr[OF legacy.hyps(1)] invite_advances_refl by (auto simp: store_extends_def)
next
  case (new_vault v c e db db' k)
  let ?is = "(db_invites db)[k := (db_invites db ! k)\<lparr>inv_consumed_vault_id := Some (vr_VaultID v)\<rparr>]"
  have "list_all2 invite_advances (db_invites db) ?is"
    using new_vault.hyps by (auto simp: list_all2_conv_all_nth nth_list_update invite_advances_def)
  then show ?case
    using insertVaultTx_Inr[OF new_vault.hyps(1)] by (auto simp: store_extends_def)
qed (auto simp: store_extends_def intro: invite_advances_refl)

lemma extends_trans:
  assumes "store_extends a b" "store_extends b c"
  shows "store_extends a c"
proof -
  obtain is1 js1 is2 js2 where i: "db_invites b = is1 @ js1" "list_all2 invite_advances (db_invites a) is1"
    "db_invites c = is2 @ js2" "list_all2 invite_advances (db_invites b) is2"
    using assms by (auto simp: store_extends_def)
  then obtain us ws where u: "is2 = us @ ws" "list_all2 invite_advances is1 us"
    by (auto simp: list_all2_append1)
  have "list_all2 invite_advances (db_invites a) us"
    using list_all2_trans[of invite_advances invite_advances invite_advances "db_invites a" is1 us]
      invite_advances_trans i(2) u(2) by blast
  then have "\<exists>is js. db_invites c = is @ js \<and> list_all2 invite_advances (db_invites a) is"
    using i(3) u(1) by auto
  then show ?thesis
    using assms unfolding store_extends_def by (intro conjI impI) auto
qed

lemma steps_extend: "store_steps db db' \<Longrightarrow> store_extends db db'"
proof (induction rule: rtranclp_induct)
  case base
  then show ?case using invite_advances_refl by (auto simp: store_extends_def)
next
  case (step y z)
  then show ?case by (blast intro: extends_trans step_extends)
qed

subsection \<open>Properties\<close>

text \<open>C32: Whatever is called and fails on the store, from an empty database: the vaults have
different ids and each has exactly one passkey; every vault but the first was made from exactly one
invite, and no invite made two; and nothing stored is lost or changed, except that an unused invite is
consumed.\<close>

theorem store_keeps_invariant:
  assumes "store_history empty_db db" "store_history db db'"
  shows "distinct (map vr_VaultID (db_vaults db)) \<and> map vc_VaultID (db_passkeys db) = map vr_VaultID (db_vaults db) \<and>
    distinct (consumed_ids db) \<and>
    set (consumed_ids db) = vr_VaultID ` set (db_vaults db) - {LegacyFirstVaultID} \<and>
    distinct (map inv_token_hash (db_invites db)) \<and> distinct (map pend_TokenHash (db_pending db)) \<and>
    distinct (map pend_VaultID (db_pending db)) \<and> fst ` set (db_vault_envelopes db) \<subseteq> vr_VaultID ` set (db_vaults db) \<and>
    store_extends db db'"
  using steps_keep[OF store_history_steps[OF assms(1)] store_ok_empty]
    steps_extend[OF store_history_steps[OF assms(2)]]
  by (auto simp: store_ok_def vault_ids_def)

definition ex_vault_input :: createVaultInput where
  "ex_vault_input = \<lparr>in_Record = (vaultRecordFromCredential ex_credential)\<lparr>vr_IntegrityMAC := replicate 32 0\<rparr>,
     in_Credential = ex_passkey, in_Envelope = None, in_TokenHash = replicate 32 3\<rparr>"

lemma ex_vault_input_fields:
  "vr_VaultID (in_Record ex_vault_input) = ''v''" "vr_CosignerMode (in_Record ex_vault_input) = ''hkdf-sha256-v1''"
  "length (vr_IntegrityMAC (in_Record ex_vault_input)) = 32" "in_Credential ex_vault_input = ex_passkey"
  "in_Envelope ex_vault_input = None" "in_TokenHash ex_vault_input = replicate 32 3"
  by (simp_all add: ex_vault_input_def vaultRecordFromCredential_def Let_def ex_credential_def LegacyFirstVaultID_def
      CosignerModeHKDFSHA256V1_def)

lemma ex_created:
  "\<exists>db. store_history empty_db db \<and> db_vaults db = [in_Record ex_vault_input] \<and> consumed_ids db = [''v'']"
proof -
  let ?i = "\<lparr>inv_token_hash = replicate 32 3, inv_expires_at = ''z'', inv_consumed_vault_id = None, inv_created_at = ''a''\<rparr>"
  let ?d1 = "empty_db\<lparr>db_multi_tenant := True, db_invites := [?i]\<rparr>"
  let ?d2 = "?d1\<lparr>db_vaults := [in_Record ex_vault_input], db_passkeys := [ex_passkey],
     db_invites := [?i\<lparr>inv_consumed_vault_id := Some ''v''\<rparr>]\<rparr>"
  have "PutInvite (Inr ()) Committed (replicate 32 3) ''z'' ''a'' empty_db = (Inr (), ?d1)"
    by (simp add: PutInvite_def sha256_Size_def ensureMultiTenantSchema_def rejectUnsupportedSchemaVersion_def
        v4TableExists_def insert_invite_def end_tx_def empty_db_def)
  then have h1: "store_history empty_db ?d1" by (rule store_history.invited[OF store_history.start])
  let ?v = "in_Record ex_vault_input"
  let ?d = "?d1\<lparr>db_vaults := [?v], db_passkeys := [ex_passkey]\<rparr>"
  have ins: "insertVaultTx ?v ex_passkey None ?d1 = Inr ?d"
    by (simp add: insertVaultTx_def insert_vault_row_def insertVaultCredentialTx_def ex_vault_input_fields empty_db_def)
       (simp add: ex_passkey_def)
  have con: "consume_invite ''v'' (replicate 32 3) ?d = Inr (1, ?d2)"
    by (simp add: consume_invite_def Let_def ex_vault_input_fields empty_db_def)
  have "create_vault_tx ''b'' ex_vault_input ?d1 = Inr ((), ?d2)"
    using ins con by (simp add: create_vault_tx_def ex_vault_input_fields)
  moreover have "validateCreateVaultInput ex_vault_input = Inr ()"
    by (simp add: validateCreateVaultInput_def ex_vault_input_fields LegacyFirstVaultID_def CosignerModeHKDFSHA256V1_def
        sha256_Size_def ex_passkey_def)
  moreover have "ensureMultiTenantSchema (Inr ()) ?d1 = (Inr (), ?d1)"
    by (simp add: ensureMultiTenantSchema_def rejectUnsupportedSchemaVersion_def v4TableExists_def schemaMetaState_def
        Let_def empty_db_def)
  ultimately have "CreateVault (Inr ()) Committed ''b'' ex_vault_input ?d1 = (Inr (), ?d2)"
    by (simp add: CreateVault_def end_tx_def)
  with h1 have "store_history empty_db ?d2" by (rule store_history.created)
  then show ?thesis by (intro exI[of _ ?d2]) (simp add: consumed_ids_def map_filter_simps)
qed

lemma store_keeps_invariant_witness:
  "\<exists>db. db_vaults db = [in_Record ex_vault_input] \<and> consumed_ids db = [''v''] \<and>
     map vc_VaultID (db_passkeys db) = [''v''] \<and> store_extends db db"
proof -
  obtain db where db: "store_history empty_db db" "db_vaults db = [in_Record ex_vault_input]" "consumed_ids db = [''v'']"
    using ex_created by blast
  note inv = store_keeps_invariant[OF db(1) store_history.start]
  have "map vc_VaultID (db_passkeys db) = map vr_VaultID (db_vaults db)" "store_extends db db" using inv by blast+
  with db(2,3) show ?thesis by (intro exI[of _ db]) (simp add: ex_vault_input_fields)
qed

end
