(* ===== verification/VaultCosigner.thy ===== *)
theory VaultCosigner
imports VaultRecords
begin

text \<open>Model of poc/2fa-vault/internal/policy/cosigner.go: the scalar of the vault cosigner of each
vault, derived from the master scalar.  HMAC-SHA256 and the key functions of btcec are parameters.\<close>

record 'k btcec =
  bt_Serialize :: "'k \<Rightarrow> bytes"
  bt_PrivKeyFromBytes :: "bytes \<Rightarrow> 'k option"
  bt_PubKeyCompressed :: "'k \<Rightarrow> bytes"

definition secp256k1_N :: nat where
  "secp256k1_N = 0xfffffffffffffffffffffffffffffffebaaedce6af48a03bbfd25e8cd0364141"

definition vaultCosignerHKDFSalt :: string where
  "vaultCosignerHKDFSalt = ''arkade-2fa-vault/vault-cosigner/hkdf-sha256-v1''"
definition vaultCosignerHKDFInfo :: string where "vaultCosignerHKDFInfo = ''vault-cosigner/v1''"

definition scalarInRange :: "bytes \<Rightarrow> nat \<Rightarrow> bool" where
  "scalarInRange raw n = (if length raw \<noteq> 32 then False else let x = be_val raw in if x = 0 \<or> n \<le> x then False else True)"

definition hkdf_info :: "string \<Rightarrow> nat \<Rightarrow> bytes" where
  "hkdf_info vaultID counter = go_bytes vaultCosignerHKDFInfo @ [0] @ go_bytes vaultID @ [0, word_of_nat counter]"

text \<open>The loop over the remaining counters.\<close>

fun hkdf_loop :: "'k btcec \<Rightarrow> hmac \<Rightarrow> bytes \<Rightarrow> string \<Rightarrow> nat list \<Rightarrow> 'k res" where
  "hkdf_loop B H prk vaultID [] = go_err ''hkdf-sha256-v1 produced no valid secp256k1 scalar''"
| "hkdf_loop B H prk vaultID (counter # counters) =
     (let okm = H prk (hkdf_info vaultID counter @ [1]) in
      if scalarInRange okm secp256k1_N
      then case bt_PrivKeyFromBytes B okm of None \<Rightarrow> hkdf_loop B H prk vaultID counters | Some priv \<Rightarrow> Inr priv
      else hkdf_loop B H prk vaultID counters)"

definition hkdf_prk :: "'k btcec \<Rightarrow> hmac \<Rightarrow> 'k \<Rightarrow> bytes" where
  "hkdf_prk B H master = H (go_bytes vaultCosignerHKDFSalt) (bt_Serialize B master)"

definition deriveHKDFVaultCosigner :: "'k btcec \<Rightarrow> hmac \<Rightarrow> 'k \<Rightarrow> string \<Rightarrow> 'k res" where
  "deriveHKDFVaultCosigner B H master vaultID = hkdf_loop B H (hkdf_prk B H master) vaultID [0..<256]"

text \<open>PrivKeyFromBytes returns no error: a nil key of the legacy mode would be returned as it is, which
is the None of the result.\<close>

definition DeriveVaultCosignerScalar :: "'k btcec \<Rightarrow> hmac \<Rightarrow> 'k option \<Rightarrow> string \<Rightarrow> string \<Rightarrow> 'k option res" where
  "DeriveVaultCosignerScalar B H master vaultID mode =
     (case master of None \<Rightarrow> go_err ''vault cosigner master required''
      | Some m \<Rightarrow>
          if vaultID = [] then go_err ''vault id required''
          else if mode = CosignerModeLegacyDirectV0 then
            (if vaultID \<noteq> LegacyFirstVaultID then go_err ''legacy-direct-v0 is only valid for operational-vault-v1''
             else Inr (bt_PrivKeyFromBytes B (bt_Serialize B m)))
          else if mode = CosignerModeHKDFSHA256V1 then
            (if vaultID = LegacyFirstVaultID then go_err ''operational-vault-v1 must use legacy-direct-v0''
             else bindE (deriveHKDFVaultCosigner B H m vaultID) (\<lambda>k. Inr (Some k)))
          else go_err ''unknown cosigner mode'')"

definition VerifyVaultCosignerPub :: "'k btcec \<Rightarrow> hmac \<Rightarrow> 'k option \<Rightarrow> vaultRecord \<Rightarrow> unit res" where
  "VerifyVaultCosignerPub B H master rec =
     bindE (DeriveVaultCosignerScalar B H master (vr_VaultID rec) (vr_CosignerMode rec)) (\<lambda>derived.
     case derived of None \<Rightarrow> panic
     | Some k \<Rightarrow>
         if bt_PubKeyCompressed B k \<noteq> vr_VaultCosignerBase rec
         then go_err ''stored vault cosigner pubkey does not match the derivation'' else Inr ())"

subsection \<open>Lemmas\<close>

lemma hkdf_info_inject:
  "hkdf_info v c = hkdf_info v' c' \<longleftrightarrow> v = v' \<and> (word_of_nat c :: byte) = word_of_nat c'"
  by (auto simp: hkdf_info_def)

lemma hkdf_loop_Inr:
  assumes "hkdf_loop B H prk v cs = Inr k"
  shows "\<exists>c \<in> set cs. scalarInRange (H prk (hkdf_info v c @ [1])) secp256k1_N \<and>
    bt_PrivKeyFromBytes B (H prk (hkdf_info v c @ [1])) = Some k"
  using assms by (induction cs) (auto simp: Let_def split: if_splits option.splits)

lemma hkdf_loop_exhausted:
  assumes "\<forall>c \<in> set cs. scalarInRange (H prk (hkdf_info v c @ [1])) secp256k1_N \<longrightarrow>
    bt_PrivKeyFromBytes B (H prk (hkdf_info v c @ [1])) = None"
  shows "hkdf_loop B H prk v cs = go_err ''hkdf-sha256-v1 produced no valid secp256k1 scalar''"
  using assms by (induction cs) (auto simp: Let_def)

subsection \<open>Properties\<close>

lemma Derive_hkdf:
  assumes "DeriveVaultCosignerScalar B H master v mode = Inr (Some k)" "v \<noteq> LegacyFirstVaultID"
  shows "mode = CosignerModeHKDFSHA256V1 \<and> (\<exists>m c. master = Some m \<and> c < 256 \<and>
    scalarInRange (H (hkdf_prk B H m) (hkdf_info v c @ [1])) secp256k1_N \<and>
    bt_PrivKeyFromBytes B (H (hkdf_prk B H m) (hkdf_info v c @ [1])) = Some k)"
  using assms
  by (auto simp: DeriveVaultCosignerScalar_def deriveHKDFVaultCosigner_def dest!: hkdf_loop_Inr
      split: option.splits if_splits elim!: bindE_InrE)

lemma Derive_legacy:
  assumes "DeriveVaultCosignerScalar B H master LegacyFirstVaultID mode = Inr (Some k)"
  shows "mode = CosignerModeLegacyDirectV0 \<and> (\<exists>m. master = Some m \<and> bt_PrivKeyFromBytes B (bt_Serialize B m) = Some k)"
  using assms by (auto simp: DeriveVaultCosignerScalar_def split: option.splits if_splits)

text \<open>C33: The cosigner keys of vaults are separate. Only the first vault uses the master scalar directly,
in the legacy mode and in no other; every other vault uses HKDF, and its key is read from the HMAC of
a message that names the vault and one of 256 counters, in the range of the group. If two different
vaults derive the same key, then HMAC, under the key extracted from the master, gives the same output
on the two different messages that name them, or, where one of them is the first vault, its output for
the other is the master's own serialisation. This takes a master that serialises into the range of the
group, and a library that maps no two scalars in range to one key.\<close>

theorem cosigner_keys_separate:
  assumes "DeriveVaultCosignerScalar B H (Some m) v mode = Inr (Some k)"
    and "DeriveVaultCosignerScalar B H (Some m) v' mode' = Inr (Some k')"
    and "v \<noteq> v'" "scalarInRange (bt_Serialize B m) secp256k1_N"
    and "\<And>x y. scalarInRange x secp256k1_N \<Longrightarrow> scalarInRange y secp256k1_N \<Longrightarrow>
       bt_PrivKeyFromBytes B x = bt_PrivKeyFromBytes B y \<Longrightarrow> x = y"
  shows "(if v = LegacyFirstVaultID
      then mode = CosignerModeLegacyDirectV0 \<and> bt_PrivKeyFromBytes B (bt_Serialize B m) = Some k
      else mode = CosignerModeHKDFSHA256V1 \<and> (\<exists>c < 256. scalarInRange (H (hkdf_prk B H m) (hkdf_info v c @ [1])) secp256k1_N \<and>
        bt_PrivKeyFromBytes B (H (hkdf_prk B H m) (hkdf_info v c @ [1])) = Some k)) \<and>
    (k = k' \<longrightarrow>
      (if v = LegacyFirstVaultID then \<exists>c < 256. H (hkdf_prk B H m) (hkdf_info v' c @ [1]) = bt_Serialize B m
       else if v' = LegacyFirstVaultID then \<exists>c < 256. H (hkdf_prk B H m) (hkdf_info v c @ [1]) = bt_Serialize B m
       else \<exists>c < 256. \<exists>c' < 256. hkdf_info v c @ [1] \<noteq> hkdf_info v' c' @ [1] \<and>
         H (hkdf_prk B H m) (hkdf_info v c @ [1]) = H (hkdf_prk B H m) (hkdf_info v' c' @ [1])))"
proof -
  note l = Derive_legacy[of B H "Some m"] and h = Derive_hkdf[of B H "Some m"]
  have info: "hkdf_info v c @ [1] \<noteq> hkdf_info v' c' @ [1]" for c c'
    using assms(3) by (simp add: hkdf_info_inject)
  show ?thesis
  proof (cases "v = LegacyFirstVaultID")
    case True
    with l assms(1) have k: "mode = CosignerModeLegacyDirectV0" "bt_PrivKeyFromBytes B (bt_Serialize B m) = Some k" by auto
    moreover obtain c where "c < 256" "scalarInRange (H (hkdf_prk B H m) (hkdf_info v' c @ [1])) secp256k1_N"
        "bt_PrivKeyFromBytes B (H (hkdf_prk B H m) (hkdf_info v' c @ [1])) = Some k'"
      using h[OF assms(2)] True assms(3) by auto
    ultimately show ?thesis using True assms(4,5) by metis
  next
    case False
    then obtain c where c: "mode = CosignerModeHKDFSHA256V1" "c < 256"
        "scalarInRange (H (hkdf_prk B H m) (hkdf_info v c @ [1])) secp256k1_N"
        "bt_PrivKeyFromBytes B (H (hkdf_prk B H m) (hkdf_info v c @ [1])) = Some k"
      using h[OF assms(1)] by auto
    show ?thesis
    proof (cases "v' = LegacyFirstVaultID")
      case v': True
      with l assms(2) have "bt_PrivKeyFromBytes B (bt_Serialize B m) = Some k'" by auto
      with v' False c assms(4,5) show ?thesis by metis
    next
      case v': False
      then obtain c' where "c' < 256" "scalarInRange (H (hkdf_prk B H m) (hkdf_info v' c' @ [1])) secp256k1_N"
          "bt_PrivKeyFromBytes B (H (hkdf_prk B H m) (hkdf_info v' c' @ [1])) = Some k'"
        using h[OF assms(2)] by auto
      with v' False c info assms(5) show ?thesis by metis
    qed
  qed
qed

definition ex_btcec :: "bytes btcec" where
  "ex_btcec = \<lparr>bt_Serialize = id, bt_PrivKeyFromBytes = Some, bt_PubKeyCompressed = id\<rparr>"

definition ex_scalar :: bytes where "ex_scalar = replicate 31 0 @ [7]"

theorem cosigner_keys_separate_witness:
  "DeriveVaultCosignerScalar ex_btcec (\<lambda>_ _. ex_scalar) (Some ex_scalar) LegacyFirstVaultID CosignerModeLegacyDirectV0 =
     Inr (Some ex_scalar) \<and>
   DeriveVaultCosignerScalar ex_btcec (\<lambda>_ _. ex_scalar) (Some ex_scalar) ''a'' CosignerModeHKDFSHA256V1 = Inr (Some ex_scalar) \<and>
   bt_PrivKeyFromBytes ex_btcec (bt_Serialize ex_btcec ex_scalar) = Some ex_scalar"
proof -
  have r: "scalarInRange ex_scalar secp256k1_N"
    by (simp add: ex_scalar_def scalarInRange_def be_val_def secp256k1_N_def Let_def)
  have a: "DeriveVaultCosignerScalar ex_btcec (\<lambda>_ _. ex_scalar) (Some ex_scalar) LegacyFirstVaultID CosignerModeLegacyDirectV0 =
      Inr (Some ex_scalar)"
    by (simp add: DeriveVaultCosignerScalar_def LegacyFirstVaultID_def ex_btcec_def)
  have b: "DeriveVaultCosignerScalar ex_btcec (\<lambda>_ _. ex_scalar) (Some ex_scalar) ''a'' CosignerModeHKDFSHA256V1 = Inr (Some ex_scalar)"
    using r by (simp add: DeriveVaultCosignerScalar_def deriveHKDFVaultCosigner_def CosignerModeHKDFSHA256V1_def
        CosignerModeLegacyDirectV0_def LegacyFirstVaultID_def upt_conv_Cons Let_def ex_btcec_def)
  have "scalarInRange (bt_Serialize ex_btcec ex_scalar) secp256k1_N" "LegacyFirstVaultID \<noteq> ''a''"
    using r by (simp_all add: ex_btcec_def LegacyFirstVaultID_def)
  from cosigner_keys_separate[OF a b this(2,1)] a b show ?thesis by (simp add: ex_btcec_def)
qed

end
