(* ===== verification/VaultDeploy.thy ===== *)
theory VaultDeploy
imports GoText
begin

text \<open>Model of poc/2fa-vault/internal/deployment/config.go: the identity of a deployment and its
validation.  url.Parse and net.ParseIP are parameters: what Parse returns for the origin is a record
of the fields the code reads.\<close>

definition NetworkRegtest :: string where "NetworkRegtest = ''regtest''"
definition NetworkMutinynet :: string where "NetworkMutinynet = ''mutinynet''"
definition MaxCSVBlockDelay :: "32 word" where "MaxCSVBlockDelay = 65535"
definition MutinynetCheckpoint1 :: string where
  "MutinynetCheckpoint1 = ''000002855893a0a9b24eaffc5efc770558a326fee4fc10c9da22fc19cd2954f9''"

record config =
  ClientOrigin :: string
  cfg_RPID :: string
  Network :: string
  OperationalCSVBlocks :: "32 word"
  SavingsCSVBlocks :: "32 word"

record url =
  u_Scheme :: string
  u_Host :: string
  u_User :: bool
  u_RawQuery :: string
  u_Fragment :: string
  u_Path :: string
  u_Hostname :: string

record net_lib =
  url_Parse :: "string \<Rightarrow> url option"
  is_IP :: "string \<Rightarrow> bool"

definition BitcoinCheckpoint :: "config \<Rightarrow> (int \<times> string) res" where
  "BitcoinCheckpoint c =
     (if Network c = NetworkRegtest then Inr (0, '''')
      else if Network c = NetworkMutinynet then Inr (1, MutinynetCheckpoint1)
      else go_err ''unsupported network'')"

definition Default_config :: config where
  "Default_config = \<lparr>ClientOrigin = ''http://localhost:8787'', cfg_RPID = ''localhost'', Network = NetworkRegtest,
     OperationalCSVBlocks = 6, SavingsCSVBlocks = 144\<rparr>"

definition WithDefaults :: "config \<Rightarrow> config" where
  "WithDefaults c =
     (if c = \<lparr>ClientOrigin = '''', cfg_RPID = '''', Network = '''', OperationalCSVBlocks = 0, SavingsCSVBlocks = 0\<rparr>
      then Default_config else c)"

subsection \<open>Ports\<close>

text \<open>strconv.ParseUint (s, 10, 16), and FormatUint to base 10.\<close>

definition ParseUint16 :: "string \<Rightarrow> nat option" where
  "ParseUint16 s =
     (if s = [] then None else (case parse_digits 0 s of None \<Rightarrow> None | Some n \<Rightarrow> if n > 65535 then None else Some n))"

fun FormatUint :: "nat \<Rightarrow> string" where
  "FormatUint n = (if n < 10 then [''0123456789'' ! n] else FormatUint (n div 10) @ [''0123456789'' ! (n mod 10)])"

declare FormatUint.simps [simp del]

text \<open>What follows the last closing bracket, if there is one.\<close>

definition after_last :: "char \<Rightarrow> string \<Rightarrow> string option" where
  "after_last c s = (if c \<in> set s then Some (rev (takeWhile (\<lambda>x. x \<noteq> c) (rev s))) else None)"

definition canonicalPort :: "url \<Rightarrow> string res" where
  "canonicalPort u =
     (let authority = u_Host u in
      bindE
        (if take 1 authority = ''['' then
           (case after_last CHR '']'' authority of
              None \<Rightarrow> go_err ''invalid origin host''
            | Some suffix \<Rightarrow>
                if suffix = '''' then Inr ''''
                else if take 1 suffix \<noteq> '':'' then go_err ''invalid origin port''
                else Inr (drop 1 suffix))
         else if CHR '':'' \<in> set authority then Inr (drop 1 (dropWhile (\<lambda>c. c \<noteq> CHR '':'') authority))
         else Inr '''') (\<lambda>port.
      if port = '''' then
        (if authority \<noteq> '''' \<and> last authority = CHR '':'' then go_err ''client origin port is empty'' else Inr '''')
      else (case ParseUint16 port of
          None \<Rightarrow> go_err ''client origin port must be canonical decimal 1..65535''
        | Some n \<Rightarrow>
            if n = 0 \<or> FormatUint n \<noteq> port then go_err ''client origin port must be canonical decimal 1..65535''
            else Inr port)))"

subsection \<open>Validation\<close>

definition TrimSuffix_dot :: "string \<Rightarrow> string" where
  "TrimSuffix_dot s = (if s \<noteq> '''' \<and> last s = CHR ''.'' then butlast s else s)"

definition Config_Validate :: "net_lib \<Rightarrow> config \<Rightarrow> unit res" where
  "Config_Validate N c =
     (if ClientOrigin c = '''' \<or> cfg_RPID c = '''' \<or> Network c = '''' then go_err ''origin, rp id and network are required''
      else (case url_Parse N (ClientOrigin c) of None \<Rightarrow> go_err ''invalid origin''
      | Some u \<Rightarrow>
        if u_Scheme u = '''' \<or> u_Host u = '''' then go_err ''invalid origin''
        else if u_User u \<or> u_RawQuery u \<noteq> '''' \<or> u_Fragment u \<noteq> '''' \<or> u_Path u \<noteq> ''''
        then go_err ''origin must contain only scheme and authority''
        else if ClientOrigin c \<noteq> u_Scheme u @ ''://'' @ u_Host u \<or> u_Scheme u \<noteq> ToLower (u_Scheme u) \<or> u_Host u \<noteq> ToLower (u_Host u)
        then go_err ''client origin must be canonical lowercase scheme://host[:port]''
        else bindE (canonicalPort u) (\<lambda>port.
        if u_Scheme u = ''https'' \<and> port = ''443'' \<or> u_Scheme u = ''http'' \<and> port = ''80''
        then go_err ''client origin must omit the default port''
        else let host = ToLower (u_Hostname u) in
        if list_ex (\<lambda>r. (of_char r :: nat) > 127) host then go_err ''client origin hostname must use canonical ASCII form''
        else let rp = ToLower (TrimSuffix_dot (cfg_RPID c)) in
        if cfg_RPID c \<noteq> rp then go_err ''rp id must be canonical lowercase without a trailing dot''
        else if host = '''' \<or> rp = '''' \<or> host \<noteq> rp \<or> CHR '':'' \<in> set (cfg_RPID c) then go_err ''rp id must equal the origin hostname''
        else if is_IP N rp \<and> rp \<noteq> ''127.0.0.1'' \<and> rp \<noteq> ''::1'' then go_err ''non-loopback IP relying party is not supported''
        else bindE
          (if Network c = NetworkRegtest then
             (if u_Scheme u \<noteq> ''http'' \<and> u_Scheme u \<noteq> ''https'' then go_err ''regtest origin must use http or https''
              else if u_Scheme u = ''http'' \<and> host \<noteq> ''localhost'' \<and> host \<noteq> ''127.0.0.1'' \<and> host \<noteq> ''::1''
              then go_err ''insecure origin is allowed only on loopback regtest'' else Inr ())
           else if Network c = NetworkMutinynet then
             (if u_Scheme u \<noteq> ''https'' then go_err ''mutinynet requires an https origin'' else Inr ())
           else go_err ''unsupported network'') (\<lambda>_.
        if OperationalCSVBlocks c = 0 \<or> SavingsCSVBlocks c = 0 then go_err ''operational and savings CSV blocks are required''
        else if MaxCSVBlockDelay < OperationalCSVBlocks c \<or> MaxCSVBlockDelay < SavingsCSVBlocks c
        then go_err ''operational and savings CSV block delays must not exceed the maximum''
        else if SavingsCSVBlocks c \<le> OperationalCSVBlocks c then go_err ''savings CSV blocks must exceed operational CSV blocks''
        else Inr ()))))"

subsection \<open>What a valid deployment is\<close>

text \<open>How the port sits in the authority: after the last closing bracket, or after the first colon.\<close>

definition port_part :: "string \<Rightarrow> string" where
  "port_part port = (if port = '''' then '''' else '':'' @ port)"

lemma canonicalPort_number:
  assumes "canonicalPort u = Inr port" "port \<noteq> ''''"
  shows "\<exists>n. parse_digits 0 port = Some n \<and> 1 \<le> n \<and> n \<le> 65535 \<and> FormatUint n = port"
  using assms by (auto simp: canonicalPort_def ParseUint16_def Let_def bindE_Inr_iff split: if_splits option.splits)

lemma after_last_split:
  assumes "after_last c s = Some suffix" shows "\<exists>before. s = before @ [c] @ suffix"
proof -
  have c: "c \<in> set (rev s)" "suffix = rev (takeWhile (\<lambda>x. x \<noteq> c) (rev s))"
    using assms by (auto simp: after_last_def split: if_splits)
  then have d: "dropWhile (\<lambda>x. x \<noteq> c) (rev s) \<noteq> []" by (auto simp: dropWhile_eq_Nil_conv)
  then obtain rest where r: "dropWhile (\<lambda>x. x \<noteq> c) (rev s) = c # rest"
    using hd_dropWhile[OF d] by (cases "dropWhile (\<lambda>x. x \<noteq> c) (rev s)") auto
  have "rev s = takeWhile (\<lambda>x. x \<noteq> c) (rev s) @ c # rest" using r takeWhile_dropWhile_id by metis
  then have "s = rev (takeWhile (\<lambda>x. x \<noteq> c) (rev s) @ c # rest)" by (metis rev_rev_ident)
  then show ?thesis using c(2) by auto
qed

lemma canonicalPort_place:
  assumes "canonicalPort u = Inr port"
  shows "\<exists>host. u_Host u = host @ port_part port \<and>
    (if take 1 (u_Host u) = ''['' then host \<noteq> '''' \<and> last host = CHR '']'' else CHR '':'' \<notin> set host)"
proof (cases "take 1 (u_Host u) = ''[''")
  case True
  then obtain suffix where a: "after_last CHR '']'' (u_Host u) = Some suffix"
    using assms by (cases "after_last CHR '']'' (u_Host u)") (auto simp: canonicalPort_def Let_def)
  have a2: "if suffix = '''' then port = '''' else take 1 suffix = '':'' \<and> port = drop 1 suffix"
    using assms True a by (auto simp: canonicalPort_def Let_def bindE_Inr_iff split: if_splits option.splits)
  have a3: "last (u_Host u) \<noteq> CHR '':''" if "port = ''''" "u_Host u \<noteq> ''''"
    using assms True a that by (auto simp: canonicalPort_def Let_def bindE_Inr_iff split: if_splits option.splits)
  obtain before where b: "u_Host u = before @ [CHR '']''] @ suffix" using after_last_split[OF a] by blast
  have "suffix = port_part port"
    using a2 a3 b by (cases suffix) (auto simp: port_part_def split: if_splits)
  then show ?thesis using b True by (intro exI[of _ "before @ [CHR '']'']"]) simp
next
  case False
  show ?thesis
  proof (cases "CHR '':'' \<in> set (u_Host u)")
    case colon: True
    have p: "port = drop 1 (dropWhile (\<lambda>c. c \<noteq> CHR '':'') (u_Host u))" "port = '''' \<longrightarrow> last (u_Host u) \<noteq> CHR '':''"
      using assms False colon by (auto simp: canonicalPort_def Let_def bindE_Inr_iff split: if_splits option.splits)
    have d: "dropWhile (\<lambda>c. c \<noteq> CHR '':'') (u_Host u) \<noteq> []" using colon by (auto simp: dropWhile_eq_Nil_conv)
    obtain x y where xy: "dropWhile (\<lambda>c. c \<noteq> CHR '':'') (u_Host u) = x # y" using d by (metis list.exhaust)
    then have "x = CHR '':''" using hd_dropWhile[OF d] by simp
    moreover have "y = port" unfolding p(1) xy by simp
    ultimately have e: "dropWhile (\<lambda>c. c \<noteq> CHR '':'') (u_Host u) = CHR '':'' # port" using xy by simp
    have h: "u_Host u = takeWhile (\<lambda>c. c \<noteq> CHR '':'') (u_Host u) @ CHR '':'' # port" using e takeWhile_dropWhile_id by metis
    have "port \<noteq> ''''" using p(2) h by (metis last_snoc)
    then have "u_Host u = takeWhile (\<lambda>c. c \<noteq> CHR '':'') (u_Host u) @ port_part port" using h by (simp add: port_part_def)
    moreover have "CHR '':'' \<notin> set (takeWhile (\<lambda>c. c \<noteq> CHR '':'') (u_Host u))" by (auto dest: set_takeWhileD)
    ultimately show ?thesis using False by auto
  next
    case none: False
    then have "port = ''''"
      using assms False by (auto simp: canonicalPort_def Let_def bindE_Inr_iff split: if_splits option.splits)
    then show ?thesis using none False by (auto simp: port_part_def)
  qed
qed

text \<open>C40: A deployment that validates is safe to derive vaults and accept assertions for: its origin is
the scheme and the authority that parsing gives, both in lower case, without user, path, query or
fragment; the authority is a host and nothing more, or a host, a colon and the port (after the closing bracket
of a bracketed host, or the first colon), a decimal number from 1 to 65535 without leading zeros that is not the default port of the scheme; the relying party is
the host name of the origin, in ASCII lower case, without a colon, and an IP address only if it is
127.0.0.1; plain http is used only on loopback under regtest and mutinynet is https only; the network
has a checkpoint rule; and the two block delays are positive, encodable in 16 bits, and the savings
delay is the longer one.\<close>

theorem valid_deployment:
  assumes "Config_Validate N c = Inr ()"
  shows "\<exists>u port host. url_Parse N (ClientOrigin c) = Some u \<and> ClientOrigin c = u_Scheme u @ ''://'' @ u_Host u \<and>
    u_Scheme u = ToLower (u_Scheme u) \<and> u_Host u = ToLower (u_Host u) \<and>
    \<not> u_User u \<and> u_Path u = '''' \<and> u_RawQuery u = '''' \<and> u_Fragment u = '''' \<and>
    canonicalPort u = Inr port \<and> u_Host u = host @ port_part port \<and>
    (if take 1 (u_Host u) = ''['' then host \<noteq> '''' \<and> last host = CHR '']'' else CHR '':'' \<notin> set host) \<and>
    (port \<noteq> '''' \<longrightarrow> (\<exists>n. parse_digits 0 port = Some n \<and> 1 \<le> n \<and> n \<le> 65535 \<and> FormatUint n = port)) \<and>
    \<not> (u_Scheme u = ''https'' \<and> port = ''443'') \<and> \<not> (u_Scheme u = ''http'' \<and> port = ''80'') \<and>
    cfg_RPID c = ToLower (u_Hostname u) \<and> cfg_RPID c \<noteq> '''' \<and> CHR '':'' \<notin> set (cfg_RPID c) \<and>
    (\<forall>r \<in> set (cfg_RPID c). (of_char r :: nat) \<le> 127) \<and>
    (is_IP N (cfg_RPID c) \<longrightarrow> cfg_RPID c = ''127.0.0.1'') \<and>
    (u_Scheme u = ''https'' \<or> u_Scheme u = ''http'' \<and> Network c = NetworkRegtest \<and>
       cfg_RPID c \<in> {''localhost'', ''127.0.0.1''}) \<and>
    (\<exists>h b. BitcoinCheckpoint c = Inr (h, b)) \<and>
    0 < unat (OperationalCSVBlocks c) \<and> unat (OperationalCSVBlocks c) < unat (SavingsCSVBlocks c) \<and>
    unat (SavingsCSVBlocks c) < 2 ^ 16"
proof -
  obtain u port where u: "url_Parse N (ClientOrigin c) = Some u" "canonicalPort u = Inr port"
    using assms by (auto simp: Config_Validate_def Let_def bindE_Inr_iff split: if_splits option.splits)
  obtain host where h: "u_Host u = host @ port_part port"
      "if take 1 (u_Host u) = ''['' then host \<noteq> '''' \<and> last host = CHR '']'' else CHR '':'' \<notin> set host"
    using canonicalPort_place[OF u(2)] by blast
  show ?thesis
    by (rule exI[of _ u], rule exI[of _ port], rule exI[of _ host])
      (use assms u h(2) h(1)[symmetric] canonicalPort_number[OF u(2)] in
        \<open>auto simp: Config_Validate_def Let_def bindE_Inr_iff BitcoinCheckpoint_def unat_gt_0 word_le_nat_alt word_less_nat_alt
          MaxCSVBlockDelay_def list_ex_iff not_less split: if_splits option.splits\<close>)
qed

definition ex_net :: net_lib where
  "ex_net = \<lparr>url_Parse = (\<lambda>s. if s = ''http://localhost:8787''
       then Some \<lparr>u_Scheme = ''http'', u_Host = ''localhost:8787'', u_User = False, u_RawQuery = '''', u_Fragment = '''',
                  u_Path = '''', u_Hostname = ''localhost''\<rparr> else None), is_IP = (\<lambda>s. False)\<rparr>"

lemma ex_default_valid: "Config_Validate ex_net Default_config = Inr ()"
  by (simp add: Config_Validate_def Default_config_def ex_net_def canonicalPort_def ParseUint16_def digit_value_def char_between_def
      FormatUint.simps ToLower_def lower_char_def TrimSuffix_dot_def MaxCSVBlockDelay_def NetworkRegtest_def Let_def)

theorem valid_deployment_witness:
  "cfg_RPID Default_config = ''localhost'' \<and>
   (\<exists>u port. url_Parse ex_net (ClientOrigin Default_config) = Some u \<and> canonicalPort u = Inr port \<and>
     u_Host u = ToLower (u_Host u) \<and> ClientOrigin Default_config = u_Scheme u @ ''://'' @ u_Host u) \<and>
   unat (OperationalCSVBlocks Default_config) < unat (SavingsCSVBlocks Default_config)"
proof -
  note v = valid_deployment[OF ex_default_valid]
  have "cfg_RPID Default_config = ''localhost''" by (simp add: Default_config_def)
  with v show ?thesis by blast
qed

end
