(* ===== verification/VaultService.thy ===== *)
theory VaultService
imports VaultGuard VaultStore VaultCosigner VaultDeploy
begin

text \<open>Model of poc/2fa-vault/internal/provider/service.go: enrollment, the vaults published from the
store, and the Draft, Bind, Preflight and Authorize requests.

The state of the service is a record; the mutex makes each request that changes it one step.  The
libraries are gathered in the record svc_lib.  time.Time is an integer; a zero deadline is None.
Logging and zeroing of key bytes are left out; Status is in VaultPublish.
A VaultSigner that is a LocalSigner carries its private key in VaultSignerKey.\<close>

record svc_lib =
  sl_L :: lib
  sl_W :: wa_lib
  sl_H :: hmac
  sl_B :: psbt_lib
  sl_G :: guard_lib
  sl_T :: tree_lib
  sl_V :: vault_lib
  sl_N :: net_lib
  sl_K :: "nat btcec"
  DeserializeTx :: "bytes \<Rightarrow> msgtx option"
  LocktimeTypeBlock :: "64 word"

record enrolledSnapshot =
  sn_VaultID :: string
  sn_CredentialID :: bytes
  sn_PhoneRoutineBIP340 :: "point option"
  sn_ExternalOwnerWallet :: "point option"
  sn_RecoveryKey :: "point option"
  sn_VaultCosignerBase :: "point option"
  sn_ArkadeCosignerBase :: "point option"
  sn_Operational :: "built option"
  sn_Savings :: "built option"

record publishedIndex =
  byVault :: "string \<rightharpoonup> enrolledSnapshot"
  byCred :: "string \<rightharpoonup> string"

record service =
  Deployment :: config
  CredentialIntegrityKey :: bytes
  EnrollmentTokenHash :: bytes
  EnrollmentDeadline :: "int option"
  OpenEnrollment :: bool
  svc_PhoneRoutineBIP340 :: "point option"
  svc_ExternalOwnerWallet :: "point option"
  svc_RecoveryKey :: "point option"
  VaultCosignerPub :: "point option"
  DeprecatedVaultCosigners :: "point option list"
  ArkadeCosignerPub :: "point option"
  DeprecatedArkadeCosigners :: "point option list"
  ArkadeCosignerOrigin :: string
  ArkadeCosignerVersion :: string
  svc_Operational :: "built option"
  svc_Savings :: "built option"
  VaultSigner :: "signer option"
  VaultSignerKey :: "nat option"
  ArkadeCosignerSigner :: "signer option"
  MaxConcurrentVerifications :: int
  slots_used :: nat
  svc_published :: "publishedIndex option"
  ledger_key :: bytes
  svc_db :: vault_db
  svc_rows :: "issuance list"

text \<open>What one request sees of the clock, the database and its context.\<close>

record svc_env =
  se_now :: int
  se_clock :: string
  se_schema :: "unit res"
  se_end :: tx_end
  se_issue :: issue_env
  se_ctx_done :: bool
  se_vault_ctx_done :: bool
  se_arkade_ctx_done :: bool

definition fixture_VaultID :: string where "fixture_VaultID = ''operational-vault-v1''"
definition TemplateVersion :: string where "TemplateVersion = ''phone-direct-p256-routine-3of3-admin-2of2-v3''"
definition PolicyVersion :: string where "PolicyVersion = ''mandatory-change-tx50k-day100k-fee5k-feerate10-onchain-v3''"
definition TxRecipientCapSats :: int64 where "TxRecipientCapSats = 50000"
definition PeriodAllowanceSats :: int64 where "PeriodAllowanceSats = 100000"
definition AbsoluteFeeCeiling :: int64 where "AbsoluteFeeCeiling = 5000"
definition fixture_FeerateCeiling :: int64 where "fixture_FeerateCeiling = 10"

text \<open>A step that fails leaves the state as it is.\<close>

definition try_step :: "'a res \<Rightarrow> 's \<Rightarrow> ('a \<Rightarrow> 'b res \<times> 's) \<Rightarrow> 'b res \<times> 's" where
  "try_step m s k = (case m of Inl e \<Rightarrow> (Inl e, s) | Inr a \<Rightarrow> k a)"

subsection \<open>Hexadecimal\<close>

definition decodeHex :: "string \<Rightarrow> bytes res" where
  "decodeHex s =
     (if s = '''' then go_err ''empty''
      else (case hex_DecodeString s of None \<Rightarrow> go_err ''hex'' | Some b \<Rightarrow> Inr b))"

subsection \<open>Configuration and keys\<close>

definition runtimeConfig :: "service \<Rightarrow> config" where
  "runtimeConfig s = WithDefaults (Deployment s)"

definition regtestCredentialIntegrityDomain :: string where
  "regtestCredentialIntegrityDomain = ''arkade-2fa-vault/regtest-public-credential-integrity-key/v1''"

definition credentialIntegrityKey :: "svc_lib \<Rightarrow> service \<Rightarrow> bytes res" where
  "credentialIntegrityKey X s =
     (if length (CredentialIntegrityKey s) = sha256_Size then Inr (CredentialIntegrityKey s)
      else if length (CredentialIntegrityKey s) \<noteq> 0 then go_err ''credential integrity key must be 32 bytes''
      else if Network (runtimeConfig s) \<noteq> NetworkRegtest then go_err ''credential integrity key is required outside regtest''
      else Inr (sha256 (sl_L X) (go_bytes regtestCredentialIntegrityDomain)))"

definition SetIntegrityKey :: "bytes \<Rightarrow> service \<Rightarrow> service res" where
  "SetIntegrityKey key s =
     (if length key \<noteq> sha256_Size then go_err ''credential integrity key must be 32 bytes'' else Inr (s\<lparr>ledger_key := key\<rparr>))"

definition attachLedgerIntegrity :: "svc_lib \<Rightarrow> service \<Rightarrow> service res" where
  "attachLedgerIntegrity X s = bindE (credentialIntegrityKey X s) (\<lambda>key. SetIntegrityKey key s)"

definition svc_sealCredential :: "svc_lib \<Rightarrow> service \<Rightarrow> credential \<Rightarrow> credential res" where
  "svc_sealCredential X s cred = bindE (credentialIntegrityKey X s) (\<lambda>key. SealCredential (sl_H X) (Some cred) key)"

definition svc_sealCredentialEnvelope :: "svc_lib \<Rightarrow> service \<Rightarrow> credentialEnvelope \<Rightarrow> bytes \<Rightarrow> credentialEnvelope res" where
  "svc_sealCredentialEnvelope X s e credentialID =
     bindE (credentialIntegrityKey X s) (\<lambda>key. SealCredentialEnvelope (sl_H X) (Some e) credentialID key)"

definition loadVerifiedCredential :: "svc_lib \<Rightarrow> service \<Rightarrow> credential option res" where
  "loadVerifiedCredential X s =
     bindE (credentialIntegrityKey X s) (\<lambda>key.
     case GetCredential (svc_db s) of None \<Rightarrow> Inr None
     | Some cred \<Rightarrow> bindE (VerifyCredentialIntegrity (sl_H X) (Some cred) key) (\<lambda>_. Inr (Some cred)))"

definition loadVerifiedCredentialEnvelope :: "svc_lib \<Rightarrow> service \<Rightarrow> bytes \<Rightarrow> credentialEnvelope option res" where
  "loadVerifiedCredentialEnvelope X s credentialID =
     bindE (credentialIntegrityKey X s) (\<lambda>key.
     bindE (GetCredentialEnvelope (svc_db s)) (\<lambda>envelope.
     case envelope of None \<Rightarrow> Inr None
     | Some e \<Rightarrow> bindE (VerifyCredentialEnvelope (sl_H X) (Some e) credentialID key) (\<lambda>_. Inr (Some e))))"

definition sealVaultRecordForService :: "svc_lib \<Rightarrow> service \<Rightarrow> vaultRecord \<Rightarrow> vaultRecord res" where
  "sealVaultRecordForService X s rec = bindE (credentialIntegrityKey X s) (\<lambda>key. sealVaultRecord (sl_H X) rec key)"

definition sealVaultCredentialForService :: "svc_lib \<Rightarrow> service \<Rightarrow> vaultCredential \<Rightarrow> vaultCredential res" where
  "sealVaultCredentialForService X s cred = bindE (credentialIntegrityKey X s) (\<lambda>key. sealVaultCredential (sl_H X) cred key)"

subsection \<open>The enrollment token\<close>

text \<open>The token is trimmed as ASCII text; one with other white space does not decode either.\<close>

definition decodeEnrollmentToken :: "string \<Rightarrow> bytes res" where
  "decodeEnrollmentToken token =
     (if length token \<noteq> 43 \<or> TrimSpace token \<noteq> token then go_err ''enrollment token must be 32-byte base64url without padding''
      else (case b64_decode token of None \<Rightarrow> go_err ''enrollment token must be 32-byte base64url without padding''
      | Some raw \<Rightarrow>
          if length raw \<noteq> 32 \<or> b64_encode raw \<noteq> token then go_err ''enrollment token must be 32-byte base64url without padding''
          else Inr raw))"

definition HashEnrollmentToken :: "svc_lib \<Rightarrow> string \<Rightarrow> bytes res" where
  "HashEnrollmentToken X token = bindE (decodeEnrollmentToken token) (\<lambda>raw. Inr (sha256 (sl_L X) raw))"

definition validateEnrollmentBootstrap :: "svc_lib \<Rightarrow> svc_env \<Rightarrow> service \<Rightarrow> string \<Rightarrow> unit res" where
  "validateEnrollmentBootstrap X E s bootstrap =
     (if Network (runtimeConfig s) = NetworkRegtest \<and> length (EnrollmentTokenHash s) = 0 then Inr ()
      else (case EnrollmentDeadline s of None \<Rightarrow> go_err ''enrollment window is closed''
      | Some deadline \<Rightarrow>
        if \<not> se_now E < deadline then go_err ''enrollment window is closed''
        else if OpenEnrollment s then
          (if bootstrap \<noteq> '''' then go_err ''open enrollment does not accept an invitation token'' else Inr ())
        else if length (EnrollmentTokenHash s) \<noteq> sha256_Size then go_err ''enrollment bootstrap authorization is not configured''
        else (case decodeEnrollmentToken bootstrap of Inl _ \<Rightarrow> go_err ''enrollment bootstrap authorization failed''
        | Inr raw \<Rightarrow>
            if sha256 (sl_L X) raw \<noteq> EnrollmentTokenHash s then go_err ''enrollment bootstrap authorization failed'' else Inr ())))"

definition clearEnrollmentTokenHash :: "service \<Rightarrow> service" where
  "clearEnrollmentTokenHash s = s\<lparr>EnrollmentTokenHash := []\<rparr>"

subsection \<open>Registration requests\<close>

record registerRequest =
  rq_CredentialID :: string
  rq_WebAuthnP256 :: string
  rq_PhoneDirectP256 :: string
  rq_PhoneRoutineBIP340Pub :: string
  rq_ExternalOwnerWalletXOnly :: string
  rq_RecoveryKeyXOnly :: string

record parsedRegisterRequest =
  pr_id :: bytes
  pr_webauthnP256 :: bytes
  pr_phoneDirectP256 :: bytes
  pr_phoneRoutine :: point
  pr_externalOwner :: point
  pr_recovery :: point

definition sameCompressed :: "lib \<Rightarrow> point option \<Rightarrow> bytes \<Rightarrow> bool" where
  "sameCompressed L pub raw = (case pub of None \<Rightarrow> False | Some p \<Rightarrow> SerializeCompressed L p = raw)"

definition svc_ParsePubKey :: "svc_lib \<Rightarrow> bytes \<Rightarrow> point res" where
  "svc_ParsePubKey X b = (case secp_ParsePubKey (sl_L X) b of None \<Rightarrow> go_err ''public key'' | Some p \<Rightarrow> Inr p)"

definition parsePhoneRoutineBIP340Pub :: "svc_lib \<Rightarrow> string \<Rightarrow> point option \<Rightarrow> point res" where
  "parsePhoneRoutineBIP340Pub X hexPub fallback =
     (if hexPub = '''' then (case fallback of None \<Rightarrow> go_err ''phoneRoutineBip340Pub required'' | Some p \<Rightarrow> Inr p)
      else bindE (decodeHex hexPub) (\<lambda>raw. svc_ParsePubKey X raw))"

definition ExternalOwnerWalletPubHex :: string where
  "ExternalOwnerWalletPubHex = ''02c6047f9441ed7d6d3045406e95c07cd85c778e4b8cef3ca7abac09b95c709ee5''"
definition RecoveryKeyPubHex :: string where
  "RecoveryKeyPubHex = ''0279be667ef9dcbbac55a06295ce870b07029bfcdb2dce28d959f2815b16f81798''"

definition knownFixtureXOnly :: "svc_lib \<Rightarrow> bytes \<Rightarrow> bool" where
  "knownFixtureXOnly X xonly =
     list_ex (\<lambda>encodedKey. case hex_DecodeString encodedKey of None \<Rightarrow> False
       | Some raw \<Rightarrow> (case secp_ParsePubKey (sl_L X) raw of None \<Rightarrow> False
         | Some pub \<Rightarrow> schnorr_SerializePubKey (sl_L X) pub = xonly)) [ExternalOwnerWalletPubHex, RecoveryKeyPubHex]"

definition parseOnboardingKey :: "svc_lib \<Rightarrow> service \<Rightarrow> string \<Rightarrow> point option \<Rightarrow> point option \<Rightarrow> point res" where
  "parseOnboardingKey X s encodedKey configured persisted =
     (if encodedKey = '''' then
        (case persisted of Some p \<Rightarrow> Inr p
         | None \<Rightarrow> (case configured of Some p \<Rightarrow> Inr p | None \<Rightarrow> go_err ''key required''))
      else if length encodedKey \<noteq> 64 \<or> encodedKey \<noteq> ToLower encodedKey then go_err ''key must be canonical 32-byte BIP340 x-only lowercase hex''
      else (case hex_DecodeString encodedKey of None \<Rightarrow> go_err ''key must be canonical 32-byte BIP340 x-only lowercase hex''
      | Some raw \<Rightarrow>
        if length raw \<noteq> 32 then go_err ''key must be canonical 32-byte BIP340 x-only lowercase hex''
        else (case schnorr_ParsePubKey (sl_L X) raw of Inl _ \<Rightarrow> go_err ''key is invalid''
        | Inr pub \<Rightarrow>
          if schnorr_SerializePubKey (sl_L X) pub \<noteq> raw then go_err ''key is invalid''
          else if (case configured of None \<Rightarrow> False | Some c \<Rightarrow> schnorr_SerializePubKey (sl_L X) c \<noteq> raw)
          then go_err ''key does not match deployment precommit''
          else if (case persisted of None \<Rightarrow> False | Some c \<Rightarrow> schnorr_SerializePubKey (sl_L X) c \<noteq> raw)
          then go_err ''enrollment locked''
          else if Network (runtimeConfig s) \<noteq> NetworkRegtest \<and> knownFixtureXOnly X raw then go_err ''public test fixture is forbidden''
          else Inr pub)))"

definition parseRegisterRequest :: "svc_lib \<Rightarrow> service \<Rightarrow> registerRequest \<Rightarrow> credential option \<Rightarrow> parsedRegisterRequest res" where
  "parseRegisterRequest X s req existing =
     bindE (decodeHex (rq_CredentialID req)) (\<lambda>id'.
     if length id' > 1024 then go_err ''credentialId too large''
     else bindE (decodeHex (rq_WebAuthnP256 req)) (\<lambda>webauthnP256.
     bindE (ParseCompressedP256 (sl_W X) webauthnP256) (\<lambda>_.
     bindE (decodeHex (rq_PhoneDirectP256 req)) (\<lambda>phoneDirectP256.
     bindE (ParseCompressedP256 (sl_W X) phoneDirectP256) (\<lambda>_.
     if webauthnP256 = phoneDirectP256 then go_err ''direct-auth p256 must be distinct from the webauthn credential p256''
     else bindE (parsePhoneRoutineBIP340Pub X (rq_PhoneRoutineBIP340Pub req) (svc_PhoneRoutineBIP340 s)) (\<lambda>phoneRoutine.
     bindE (case existing of None \<Rightarrow> Inr (None, None)
       | Some c \<Rightarrow> bindE (svc_ParsePubKey X (cr_ExternalOwnerWallet c)) (\<lambda>o'.
           bindE (svc_ParsePubKey X (cr_RecoveryKey c)) (\<lambda>r. Inr (Some o', Some r)))) (\<lambda>(existingOwner, existingRecovery).
     bindE (parseOnboardingKey X s (rq_ExternalOwnerWalletXOnly req) (svc_ExternalOwnerWallet s) existingOwner) (\<lambda>externalOwner.
     bindE (parseOnboardingKey X s (rq_RecoveryKeyXOnly req) (svc_RecoveryKey s) existingRecovery) (\<lambda>recovery.
     Inr \<lparr>pr_id = id', pr_webauthnP256 = webauthnP256, pr_phoneDirectP256 = phoneDirectP256, pr_phoneRoutine = phoneRoutine,
          pr_externalOwner = externalOwner, pr_recovery = recovery\<rparr>)))))))))"

definition parseRegisterRequestIndependent :: "svc_lib \<Rightarrow> service \<Rightarrow> registerRequest \<Rightarrow> parsedRegisterRequest res" where
  "parseRegisterRequestIndependent X s req =
     parseRegisterRequest X (s\<lparr>svc_ExternalOwnerWallet := None, svc_RecoveryKey := None\<rparr>) req None"

definition sameEnrollmentTuple :: "svc_lib \<Rightarrow> credential \<Rightarrow> parsedRegisterRequest \<Rightarrow> bool" where
  "sameEnrollmentTuple X c p \<longleftrightarrow>
     cr_ID c = pr_id p \<and> cr_WebAuthnP256 c = pr_webauthnP256 p \<and> cr_PhoneDirectP256 c = pr_phoneDirectP256 p \<and>
     cr_PhoneRoutineBIP340 c = SerializeCompressed (sl_L X) (pr_phoneRoutine p) \<and>
     cr_ExternalOwnerWallet c = SerializeCompressed (sl_L X) (pr_externalOwner p) \<and>
     cr_RecoveryKey c = SerializeCompressed (sl_L X) (pr_recovery p)"

subsection \<open>Trees and descriptors\<close>

definition configuredAuthorizationPolicy :: AuthorizationPolicy where
  "configuredAuthorizationPolicy = \<lparr>RecipientDustSats = DustSats, RecipientCapSats = TxRecipientCapSats,
     AbsoluteFeeCeilingSats = AbsoluteFeeCeiling, FeerateCeilingSatPerV = fixture_FeerateCeiling\<rparr>"

definition authorizationPolicyFromCredential :: "credential \<Rightarrow> AuthorizationPolicy" where
  "authorizationPolicyFromCredential c = \<lparr>RecipientDustSats = cr_RecipientDustSats c, RecipientCapSats = cr_TxRecipientCapSats c,
     AbsoluteFeeCeilingSats = cr_AbsoluteFeeCapSats c, FeerateCeilingSatPerV = cr_FeerateCapSatPerV c\<rparr>"

definition block_locktime :: "svc_lib \<Rightarrow> 32 word \<Rightarrow> relativeLocktime" where
  "block_locktime X blocks = \<lparr>lt_Type = LocktimeTypeBlock X, lt_Value = blocks\<rparr>"

definition makeTreesWithCosigner ::
  "svc_lib \<Rightarrow> service \<Rightarrow> point \<Rightarrow> bytes \<Rightarrow> point \<Rightarrow> point \<Rightarrow> point option \<Rightarrow> (built \<times> built) res" where
  "makeTreesWithCosigner X s phoneRoutine phoneDirectP256 externalOwner recovery vaultCosigner =
     (if vaultCosigner = None \<or> ArkadeCosignerPub s = None then go_err ''vault keys not configured''
      else let cfg = runtimeConfig s in
      bindE (NewOperationalWithPolicy (sl_L X) (sl_V X) (sl_T X)
               \<lparr>ok_PhoneRoutineBIP340 = Some phoneRoutine, ok_PhoneDirectP256 = phoneDirectP256,
                ok_ExternalOwnerWallet = Some externalOwner, ok_RecoveryKey = Some recovery,
                ok_VaultCosignerBase = vaultCosigner, ok_ArkadeCosignerBase = ArkadeCosignerPub s\<rparr>
               (Network cfg) (block_locktime X (OperationalCSVBlocks cfg)) configuredAuthorizationPolicy) (\<lambda>op.
      bindE (NewSavingsWithPolicy (sl_L X) (sl_V X) (sl_T X) (Some externalOwner) (Some recovery) (Network cfg)
               (block_locktime X (SavingsCSVBlocks cfg))
               [vaultCosigner, TweakedVaultCosigner op, ArkadeCosignerPub s, TweakedArkadeCosigner op]) (\<lambda>sv.
      Inr (op, sv))))"

definition makeTrees :: "svc_lib \<Rightarrow> service \<Rightarrow> point \<Rightarrow> bytes \<Rightarrow> point \<Rightarrow> point \<Rightarrow> (built \<times> built) res" where
  "makeTrees X s phoneRoutine phoneDirectP256 externalOwner recovery =
     makeTreesWithCosigner X s phoneRoutine phoneDirectP256 externalOwner recovery (VaultCosignerPub s)"

text \<open>SerializeCompressed of a nil key panics.\<close>

definition key_bytes :: "svc_lib \<Rightarrow> point option \<Rightarrow> bytes res" where
  "key_bytes X k = (case k of None \<Rightarrow> panic | Some p \<Rightarrow> Inr (SerializeCompressed (sl_L X) p))"

definition descriptorFromTrees ::
  "svc_lib \<Rightarrow> config \<Rightarrow> parsedRegisterRequest \<Rightarrow> point option \<Rightarrow> point option \<Rightarrow> string \<Rightarrow> string \<Rightarrow> built \<Rightarrow> built \<Rightarrow> credential res" where
  "descriptorFromTrees X cfg p vaultBase arkadeBase arkadeOrigin arkadeVersion op sv =
     bindE (key_bytes X vaultBase) (\<lambda>vb.
     bindE (key_bytes X (TweakedVaultCosigner op)) (\<lambda>tv.
     bindE (key_bytes X arkadeBase) (\<lambda>ab.
     bindE (key_bytes X (TweakedArkadeCosigner op)) (\<lambda>ta.
     Inr \<lparr>cr_ID = pr_id p, cr_WebAuthnP256 = pr_webauthnP256 p, cr_PhoneDirectP256 = pr_phoneDirectP256 p,
       cr_PhoneRoutineBIP340 = SerializeCompressed (sl_L X) (pr_phoneRoutine p),
       cr_ExternalOwnerWallet = SerializeCompressed (sl_L X) (pr_externalOwner p),
       cr_RPID = cfg_RPID cfg, cr_Origin = ClientOrigin cfg, cr_RecoveryKey = SerializeCompressed (sl_L X) (pr_recovery p),
       cr_VaultCosignerBase = vb, cr_TweakedVaultCosigner = tv, cr_ArkadeCosignerBase = ab, cr_TweakedArkadeCosigner = ta,
       cr_ArkadeCosignerOrigin = arkadeOrigin, cr_ArkadeCosignerVersion = arkadeVersion,
       cr_TemplateVersion = TemplateVersion, cr_PolicyVersion = PolicyVersion, cr_Network = Network cfg,
       cr_VaultID = fixture_VaultID,
       cr_OperationalCSVType = ucast (LocktimeTypeBlock X), cr_OperationalCSVValue = OperationalCSVBlocks cfg,
       cr_SavingsCSVType = ucast (LocktimeTypeBlock X), cr_SavingsCSVValue = SavingsCSVBlocks cfg,
       cr_OperationalAddress = bt_Address op, cr_OperationalScript = bt_PkScript op,
       cr_SavingsAddress = bt_Address sv, cr_SavingsScript = bt_PkScript sv,
       cr_RecipientDustSats = DustSats, cr_TxRecipientCapSats = TxRecipientCapSats,
       cr_PeriodAllowanceSats = PeriodAllowanceSats, cr_AbsoluteFeeCapSats = AbsoluteFeeCeiling,
       cr_FeerateCapSatPerV = fixture_FeerateCeiling, cr_IntegrityMAC = []\<rparr>))))"

subsection \<open>Compatibility with the runtime\<close>

definition requireSignerCompatible :: "svc_lib \<Rightarrow> point option \<Rightarrow> point option list \<Rightarrow> bytes \<Rightarrow> unit res" where
  "requireSignerCompatible X current deprecated stored =
     (if current = None \<and> length deprecated = 0 then Inr ()
      else if sameCompressed (sl_L X) current stored then Inr ()
      else if list_ex (\<lambda>pub. sameCompressed (sl_L X) pub stored) deprecated then Inr ()
      else go_err ''enrolled key does not match the configured runtime signer or an allowed deprecated key'')"

definition requireCompatible :: "svc_lib \<Rightarrow> service \<Rightarrow> credential \<Rightarrow> unit res" where
  "requireCompatible X s c =
     (let cfg = runtimeConfig s in
      if cr_TemplateVersion c \<noteq> TemplateVersion then go_err ''stored template incompatible with runtime''
      else if cr_PolicyVersion c \<noteq> PolicyVersion then go_err ''stored policy incompatible with runtime''
      else if cr_Network c \<noteq> Network cfg then go_err ''stored network incompatible with runtime''
      else if cr_VaultID c = '''' then go_err ''stored vault id required''
      else if cr_OperationalCSVType c \<noteq> ucast (LocktimeTypeBlock X) \<or> cr_OperationalCSVValue c \<noteq> OperationalCSVBlocks cfg
      then go_err ''stored operational CSV incompatible with runtime''
      else if cr_SavingsCSVType c \<noteq> ucast (LocktimeTypeBlock X) \<or> cr_SavingsCSVValue c \<noteq> SavingsCSVBlocks cfg
      then go_err ''stored savings CSV incompatible with runtime''
      else if cr_Origin c \<noteq> ClientOrigin cfg then go_err ''stored origin incompatible with runtime''
      else if cr_RPID c \<noteq> cfg_RPID cfg then go_err ''stored rp id incompatible with runtime''
      else if cr_RecipientDustSats c \<noteq> DustSats \<or> cr_TxRecipientCapSats c \<noteq> TxRecipientCapSats \<or>
              cr_PeriodAllowanceSats c \<noteq> PeriodAllowanceSats \<or> cr_AbsoluteFeeCapSats c \<noteq> AbsoluteFeeCeiling \<or>
              cr_FeerateCapSatPerV c \<noteq> fixture_FeerateCeiling
      then go_err ''stored economic policy incompatible with runtime''
      else if cr_ArkadeCosignerOrigin c \<noteq> ArkadeCosignerOrigin s then go_err ''stored ArkadeCosigner origin incompatible with runtime''
      else if Network cfg \<noteq> NetworkRegtest \<and> (cr_ArkadeCosignerVersion c = '''' \<or> ArkadeCosignerVersion s = '''')
      then go_err ''stored and runtime ArkadeCosigner versions are required''
      else bindE
        (if cr_VaultID c = fixture_VaultID then
           (if svc_ExternalOwnerWallet s \<noteq> None \<and> \<not> sameCompressed (sl_L X) (svc_ExternalOwnerWallet s) (cr_ExternalOwnerWallet c)
            then go_err ''runtime ExternalOwnerWallet does not match enrolled vault''
            else if svc_RecoveryKey s \<noteq> None \<and> \<not> sameCompressed (sl_L X) (svc_RecoveryKey s) (cr_RecoveryKey c)
            then go_err ''runtime RecoveryKey does not match enrolled vault''
            else requireSignerCompatible X (VaultCosignerPub s) (DeprecatedVaultCosigners s) (cr_VaultCosignerBase c))
         else Inr ()) (\<lambda>_.
        requireSignerCompatible X (ArkadeCosignerPub s) (DeprecatedArkadeCosigners s) (cr_ArkadeCosignerBase c)))"

record rebuilt =
  rb_phoneRoutine :: point
  rb_externalOwner :: point
  rb_recovery :: point
  rb_vaultBase :: point
  rb_arkadeBase :: point
  rb_op :: built
  rb_sv :: built

definition stored_record :: "svc_lib \<Rightarrow> credential \<Rightarrow> point \<Rightarrow> point \<Rightarrow> point \<Rightarrow> point \<Rightarrow> point \<Rightarrow> tree_record" where
  "stored_record X c phoneRoutine externalOwner recovery vaultBase arkadeBase =
     \<lparr>tr_Kind = Operational, PhoneRoutineBIP340 = Some phoneRoutine, PhoneDirectP256 = cr_PhoneDirectP256 c,
      ExternalOwnerWallet = Some externalOwner, RecoveryKey = Some recovery, VaultCosignerBase = Some vaultBase,
      ArkadeCosignerBase = Some arkadeBase,
      CSV = \<lparr>lt_Type = ucast (cr_OperationalCSVType c), lt_Value = cr_OperationalCSVValue c\<rparr>,
      tr_AuthorizationPolicy = authorizationPolicyFromCredential c, AuthScript = [], AuthScriptHash = [], tr_Network = cr_Network c\<rparr>"

definition stored_savings :: "credential \<Rightarrow> point \<Rightarrow> point \<Rightarrow> tree_record" where
  "stored_savings c externalOwner recovery =
     \<lparr>tr_Kind = Savings, PhoneRoutineBIP340 = None, PhoneDirectP256 = [], ExternalOwnerWallet = Some externalOwner,
      RecoveryKey = Some recovery, VaultCosignerBase = None, ArkadeCosignerBase = None,
      CSV = \<lparr>lt_Type = ucast (cr_SavingsCSVType c), lt_Value = cr_SavingsCSVValue c\<rparr>,
      tr_AuthorizationPolicy = \<lparr>RecipientDustSats = 0, RecipientCapSats = 0, AbsoluteFeeCeilingSats = 0, FeerateCeilingSatPerV = 0\<rparr>,
      AuthScript = [], AuthScriptHash = [], tr_Network = cr_Network c\<rparr>"

definition rebuildFromCredential :: "svc_lib \<Rightarrow> service \<Rightarrow> credential \<Rightarrow> rebuilt res" where
  "rebuildFromCredential X s c =
     bindE (requireCompatible X s c) (\<lambda>_.
     bindE (svc_ParsePubKey X (cr_PhoneRoutineBIP340 c)) (\<lambda>phoneRoutine.
     bindE (svc_ParsePubKey X (cr_ExternalOwnerWallet c)) (\<lambda>externalOwner.
     bindE (svc_ParsePubKey X (cr_RecoveryKey c)) (\<lambda>recovery.
     bindE (svc_ParsePubKey X (cr_VaultCosignerBase c)) (\<lambda>vaultBase.
     bindE (svc_ParsePubKey X (cr_ArkadeCosignerBase c)) (\<lambda>arkadeBase.
     bindE (NewFromRecord (sl_L X) (sl_V X) (sl_T X)
              (stored_record X c phoneRoutine externalOwner recovery vaultBase arkadeBase)) (\<lambda>op.
     bindE (NewFromRecord (sl_L X) (sl_V X) (sl_T X) (stored_savings c externalOwner recovery)) (\<lambda>sv.
     bindE (AssertNoRoutineCosigners (sl_L X) (sl_T X) (Some sv)
              [Some vaultBase, TweakedVaultCosigner op, Some arkadeBase, TweakedArkadeCosigner op]) (\<lambda>_.
     if bt_Address op \<noteq> cr_OperationalAddress c \<or> bt_PkScript op \<noteq> cr_OperationalScript c
     then go_err ''rebuilt operational vault does not match stored descriptor''
     else if bt_Address sv \<noteq> cr_SavingsAddress c \<or> bt_PkScript sv \<noteq> cr_SavingsScript c
     then go_err ''rebuilt savings vault does not match stored descriptor''
     else if \<not> sameCompressed (sl_L X) (TweakedVaultCosigner op) (cr_TweakedVaultCosigner c)
     then go_err ''rebuilt tweaked VaultCosigner does not match stored descriptor''
     else if \<not> sameCompressed (sl_L X) (TweakedArkadeCosigner op) (cr_TweakedArkadeCosigner c)
     then go_err ''rebuilt tweaked ArkadeCosigner does not match stored descriptor''
     else Inr \<lparr>rb_phoneRoutine = phoneRoutine, rb_externalOwner = externalOwner, rb_recovery = recovery,
               rb_vaultBase = vaultBase, rb_arkadeBase = arkadeBase, rb_op = op, rb_sv = sv\<rparr>)))))))))"

subsection \<open>Publishing\<close>

definition new_snapshot :: "string \<Rightarrow> bytes \<Rightarrow> point option \<Rightarrow> built option \<Rightarrow> built option \<Rightarrow> enrolledSnapshot" where
  "new_snapshot vaultID credID phoneRoutine op sv =
     (let rec = map_option bt_Record op in
      \<lparr>sn_VaultID = vaultID, sn_CredentialID = credID, sn_PhoneRoutineBIP340 = phoneRoutine,
       sn_ExternalOwnerWallet = Option.bind rec ExternalOwnerWallet, sn_RecoveryKey = Option.bind rec RecoveryKey,
       sn_VaultCosignerBase = Option.bind rec VaultCosignerBase, sn_ArkadeCosignerBase = Option.bind rec ArkadeCosignerBase,
       sn_Operational = op, sn_Savings = sv\<rparr>)"

definition publishEnrollmentAt :: "string \<Rightarrow> bytes \<Rightarrow> point option \<Rightarrow> built option \<Rightarrow> built option \<Rightarrow> service \<Rightarrow> service" where
  "publishEnrollmentAt vaultID credID phoneRoutine op sv s =
     (let prev = (case svc_published s of None \<Rightarrow> \<lparr>byVault = Map.empty, byCred = Map.empty\<rparr> | Some i \<Rightarrow> i);
          next = \<lparr>byVault = (byVault prev)(vaultID \<mapsto> new_snapshot vaultID credID phoneRoutine op sv),
                  byCred = (if length credID > 0 then (byCred prev)(hex_EncodeToString credID \<mapsto> vaultID) else byCred prev)\<rparr>;
          s = s\<lparr>svc_published := Some next\<rparr> in
      if vaultID = fixture_VaultID then
        s\<lparr>svc_PhoneRoutineBIP340 := (if svc_PhoneRoutineBIP340 s = None then phoneRoutine else svc_PhoneRoutineBIP340 s),
          svc_Operational := (if svc_Operational s = None then op else svc_Operational s),
          svc_Savings := (if svc_Savings s = None then sv else svc_Savings s)\<rparr>
      else s)"

definition snapshot :: "service \<Rightarrow> string \<Rightarrow> enrolledSnapshot" where
  "snapshot s vaultID =
     (case Option.bind (svc_published s) (\<lambda>i. byVault i vaultID) of
        None \<Rightarrow> \<lparr>sn_VaultID = '''', sn_CredentialID = [], sn_PhoneRoutineBIP340 = None, sn_ExternalOwnerWallet = None,
                sn_RecoveryKey = None, sn_VaultCosignerBase = None, sn_ArkadeCosignerBase = None, sn_Operational = None,
                sn_Savings = None\<rparr>
      | Some snap \<Rightarrow> snap)"

definition enrolled :: "service \<Rightarrow> enrolledSnapshot" where
  "enrolled s = snapshot s fixture_VaultID"

definition publishStoredEnrollment :: "svc_lib \<Rightarrow> credential \<Rightarrow> bool \<Rightarrow> service \<Rightarrow> service res" where
  "publishStoredEnrollment X c startup s =
     bindE (rebuildFromCredential X s c) (\<lambda>r.
     let s = (if startup
              then s\<lparr>svc_ExternalOwnerWallet := Some (rb_externalOwner r), svc_RecoveryKey := Some (rb_recovery r),
                     VaultCosignerPub := Some (rb_vaultBase r), ArkadeCosignerPub := Some (rb_arkadeBase r)\<rparr>
              else s) in
     Inr (publishEnrollmentAt (cr_VaultID c) (cr_ID c) (Some (rb_phoneRoutine r)) (Some (rb_op r)) (Some (rb_sv r)) s))"

definition acceptPersistedEnrollment :: "svc_lib \<Rightarrow> credential \<Rightarrow> parsedRegisterRequest \<Rightarrow> service \<Rightarrow> service res" where
  "acceptPersistedEnrollment X existing parsed s =
     (if \<not> sameEnrollmentTuple X existing parsed then go_err ''enrollment locked''
      else publishStoredEnrollment X existing False s)"

subsection \<open>Registration\<close>

definition register_existing :: "svc_lib \<Rightarrow> registerRequest \<Rightarrow> credential \<Rightarrow> service \<Rightarrow> unit res \<times> service" where
  "register_existing X req existing s =
     try_step (parseRegisterRequest X s req (Some existing)) s (\<lambda>parsed.
     try_step (acceptPersistedEnrollment X existing parsed s) s (\<lambda>s.
     (Inr (), clearEnrollmentTokenHash s)))"

definition register_new :: "svc_lib \<Rightarrow> svc_env \<Rightarrow> registerRequest \<Rightarrow> string \<Rightarrow> service \<Rightarrow> unit res \<times> service" where
  "register_new X E req bootstrap s =
     try_step (validateEnrollmentBootstrap X E s bootstrap) s (\<lambda>_.
     try_step (parseRegisterRequest X s req None) s (\<lambda>p.
     try_step (makeTrees X s (pr_phoneRoutine p) (pr_phoneDirectP256 p) (pr_externalOwner p) (pr_recovery p)) s (\<lambda>(op, sv).
     try_step (descriptorFromTrees X (runtimeConfig s) p (VaultCosignerPub s) (ArkadeCosignerPub s)
                 (ArkadeCosignerOrigin s) (ArkadeCosignerVersion s) op sv) s (\<lambda>d.
     try_step (svc_sealCredential X s d) s (\<lambda>d.
     (case Enroll (sl_W X) (sl_H X) (se_end E) (ledger_key s) d (svc_db s) of
        (Inr _, db) \<Rightarrow>
          (Inr (), clearEnrollmentTokenHash (publishEnrollmentAt fixture_VaultID (pr_id p) (Some (pr_phoneRoutine p))
             (Some op) (Some sv) (s\<lparr>svc_db := db\<rparr>)))
      | (Inl e, db) \<Rightarrow>
          let s = s\<lparr>svc_db := db\<rparr> in
          (case loadVerifiedCredential X s of
             Inl _ \<Rightarrow> (Inl e, s)
           | Inr None \<Rightarrow> (Inl e, s)
           | Inr (Some existing) \<Rightarrow>
               try_step (acceptPersistedEnrollment X existing p s) s (\<lambda>s. (Inr (), clearEnrollmentTokenHash s)))))))))"

definition RegisterWithBootstrap :: "svc_lib \<Rightarrow> svc_env \<Rightarrow> registerRequest \<Rightarrow> string \<Rightarrow> service \<Rightarrow> unit res \<times> service" where
  "RegisterWithBootstrap X E req bootstrap s =
     try_step (attachLedgerIntegrity X s) s (\<lambda>s.
     try_step (Config_Validate (sl_N X) (runtimeConfig s)) s (\<lambda>_.
     try_step (loadVerifiedCredential X s) s (\<lambda>existing.
     case existing of Some c \<Rightarrow> register_existing X req c s | None \<Rightarrow> register_new X E req bootstrap s)))"

definition Register :: "svc_lib \<Rightarrow> svc_env \<Rightarrow> registerRequest \<Rightarrow> service \<Rightarrow> unit res \<times> service" where
  "Register X E req s = RegisterWithBootstrap X E req '''' s"

definition vaultCosignerMaster :: "service \<Rightarrow> nat res" where
  "vaultCosignerMaster s =
     (case VaultSignerKey s of None \<Rightarrow> go_err ''local VaultCosigner required to derive tenant keys'' | Some k \<Rightarrow> Inr k)"

definition tenant_input :: "svc_lib \<Rightarrow> service \<Rightarrow> string \<Rightarrow> bytes \<Rightarrow> credential \<Rightarrow> createVaultInput res" where
  "tenant_input X s vaultID tokenHash d =
     bindE (sealVaultRecordForService X s (vaultRecordFromCredential d)) (\<lambda>rec.
     bindE (sealVaultCredentialForService X s \<lparr>vc_CredentialID = cr_ID d, vc_VaultID = vaultID, vc_WebAuthnP256 = cr_WebAuthnP256 d,
       vc_UserHandle = go_bytes vaultID, vc_Resident = True, vc_IntegrityMAC = []\<rparr>) (\<lambda>vcred.
     Inr \<lparr>in_Record = rec, in_Credential = vcred, in_Envelope = None, in_TokenHash = tokenHash\<rparr>))"

definition CreateTenantVault :: "svc_lib \<Rightarrow> svc_env \<Rightarrow> string \<Rightarrow> bytes \<Rightarrow> registerRequest \<Rightarrow> service \<Rightarrow> unit res \<times> service" where
  "CreateTenantVault X E vaultID tokenHash req s =
     try_step (Config_Validate (sl_N X) (runtimeConfig s)) s (\<lambda>_.
     if vaultID = '''' \<or> vaultID = fixture_VaultID then (go_err ''tenant vault id required'', s)
     else if rq_ExternalOwnerWalletXOnly req = '''' \<or> rq_RecoveryKeyXOnly req = ''''
     then (go_err ''tenant owner and recovery pubs required'', s)
     else try_step (vaultCosignerMaster s) s (\<lambda>master.
     try_step (DeriveVaultCosignerScalar (sl_K X) (sl_H X) (Some master) vaultID CosignerModeHKDFSHA256V1) s (\<lambda>child.
     try_step (parseRegisterRequestIndependent X s req) s (\<lambda>p.
     let childPub = map_option (ScalarBaseMult (sl_L X)) child in
     try_step (makeTreesWithCosigner X s (pr_phoneRoutine p) (pr_phoneDirectP256 p) (pr_externalOwner p) (pr_recovery p) childPub) s
       (\<lambda>(op, sv).
     try_step (descriptorFromTrees X (runtimeConfig s) p childPub (ArkadeCosignerPub s)
                 (ArkadeCosignerOrigin s) (ArkadeCosignerVersion s) op sv) s (\<lambda>d.
     try_step (svc_sealCredential X s (d\<lparr>cr_VaultID := vaultID\<rparr>)) s (\<lambda>d.
     try_step (tenant_input X s vaultID tokenHash d) s (\<lambda>i.
     (case CreateVault (se_schema E) (se_end E) (se_clock E) i (svc_db s) of
        (Inl e, db) \<Rightarrow> (Inl e, s\<lparr>svc_db := db\<rparr>)
      | (Inr _, db) \<Rightarrow> (Inr (), publishEnrollmentAt vaultID (cr_ID d) (Some (pr_phoneRoutine p)) (Some op) (Some sv) (s\<lparr>svc_db := db\<rparr>)))))))))))"

fun load_vaults :: "svc_lib \<Rightarrow> bytes \<Rightarrow> string list \<Rightarrow> service \<Rightarrow> unit res \<times> service" where
  "load_vaults X key [] s = (Inr (), s)"
| "load_vaults X key (id' # ids) s =
     try_step (LoadVerifiedVault (sl_H X) id' key (svc_db s)) s (\<lambda>loaded.
     case loaded of
       Some (rec, Some vcred) \<Rightarrow>
         try_step (publishStoredEnrollment X (toCredential rec vcred) (id' = fixture_VaultID) s) s (\<lambda>s. load_vaults X key ids s)
     | _ \<Rightarrow> (go_err ''vault missing credential'', s))"

definition LoadVaults :: "svc_lib \<Rightarrow> service \<Rightarrow> unit res \<times> service" where
  "LoadVaults X s =
     try_step (attachLedgerIntegrity X s) s (\<lambda>s.
     try_step (Config_Validate (sl_N X) (runtimeConfig s)) s (\<lambda>_.
     let ids = ListVaultIDs (svc_db s) in
     if length ids = 0 then
       try_step (loadVerifiedCredential X s) s (\<lambda>cred.
       case cred of None \<Rightarrow> (Inr (), s)
       | Some c \<Rightarrow> try_step (publishStoredEnrollment X c True s) s (\<lambda>s. (Inr (), s)))
     else try_step (credentialIntegrityKey X s) s (\<lambda>key. load_vaults X key ids s)))"

subsection \<open>Verification slots\<close>

text \<open>The channel that bounds the verifications under way is its number of used slots and its capacity,
which is fixed when the first request reads it.  A deferred release runs on every path, panics
included.\<close>

definition defaultConcurrentVerifications :: int where "defaultConcurrentVerifications = 4"

definition verification_limit :: "service \<Rightarrow> int" where
  "verification_limit s =
     (if MaxConcurrentVerifications s \<le> 0 then defaultConcurrentVerifications else MaxConcurrentVerifications s)"

definition acquireVerification :: "svc_env \<Rightarrow> service \<Rightarrow> service res" where
  "acquireVerification E s =
     (if se_ctx_done E then go_err ''context done''
      else if verification_limit s \<le> int (slots_used s) then go_err ''crypto verification capacity exhausted''
      else Inr (s\<lparr>slots_used := Suc (slots_used s)\<rparr>))"

definition release_slot :: "service \<Rightarrow> service" where
  "release_slot s = s\<lparr>slots_used := slots_used s - 1\<rparr>"

definition with_slot :: "svc_env \<Rightarrow> service \<Rightarrow> (service \<Rightarrow> 'a res) \<Rightarrow> 'a res \<times> service" where
  "with_slot E s k = try_step (acquireVerification E s) s (\<lambda>s. (k s, release_slot s))"

subsection \<open>Parts of the requests\<close>

record draftRequest =
  dr_PrevTxHex :: string
  dr_Vout :: "32 word"
  dr_RecipientScript :: string
  dr_RecipientAmount :: int64
  dr_Fee :: int64

record authorizeRequest =
  az_PSBT :: string
  az_CredentialID :: string
  az_ClientDataJSON :: string
  az_AuthenticatorData :: string
  az_Signature :: string

record bindRequest =
  bd_Assertion :: authorizeRequest
  bd_DirectSig :: string

definition decodeAssertion :: "authorizeRequest \<Rightarrow> assertion res" where
  "decodeAssertion req =
     bindE (decodeHex (az_CredentialID req)) (\<lambda>id'.
     bindE (decodeHex (az_ClientDataJSON req)) (\<lambda>cd.
     bindE (decodeHex (az_AuthenticatorData req)) (\<lambda>ad.
     bindE (decodeHex (az_Signature req)) (\<lambda>sig.
     Inr \<lparr>as_CredentialID = id', ClientDataJSON = cd, AuthenticatorData = ad, DERSignature = sig\<rparr>))))"

definition rejectPRF :: "wa_lib \<Rightarrow> bytes \<Rightarrow> unit res" where
  "rejectPRF W clientDataJSON = (if ContainsPRFField W clientDataJSON then go_err ''prf material rejected'' else Inr ())"

definition verifyDirectAuth :: "wa_lib \<Rightarrow> bytes \<Rightarrow> bytes \<Rightarrow> bytes \<Rightarrow> unit res" where
  "verifyDirectAuth W directPub digest compact =
     bindE (ParseCompressedP256 W directPub) (\<lambda>pub. VerifyDigestLowS W (Some pub) digest compact)"

definition expected_for :: "credential \<Rightarrow> bytes \<Rightarrow> expected" where
  "expected_for cred challenge = \<lparr>exp_CredentialID = cr_ID cred, exp_WebAuthnP256 = cr_WebAuthnP256 cred,
     exp_Challenge = challenge, exp_Origin = cr_Origin cred, exp_RPID = cr_RPID cred\<rparr>"

definition required_credential :: "svc_lib \<Rightarrow> service \<Rightarrow> credential res" where
  "required_credential X s =
     bindE (loadVerifiedCredential X s) (\<lambda>cred. case cred of None \<Rightarrow> go_err ''not enrolled'' | Some c \<Rightarrow> Inr c)"

text \<open>A packet parsed under a slot and classified against the enrolled vault.\<close>

definition classified_packet :: "svc_lib \<Rightarrow> string \<Rightarrow> built \<Rightarrow> (psbt \<times> classified) res" where
  "classified_packet X raw op =
     bindE (parseAndVerifyPrevout (sl_L X) (sl_B X) (sl_G X) raw) (\<lambda>(ptx, _).
     bindE (classifySpend (sl_L X) (sl_B X) (sl_G X) (Some ptx) (Some op)) (\<lambda>cl. Inr (ptx, cl)))"

subsection \<open>Draft, Bind and Preflight\<close>

definition draft_packet :: "svc_lib \<Rightarrow> draftRequest \<Rightarrow> built \<Rightarrow> string res" where
  "draft_packet X req op =
     bindE (decodeHex (dr_PrevTxHex req)) (\<lambda>raw.
     case DeserializeTx X raw of None \<Rightarrow> go_err ''prev tx''
     | Some prev \<Rightarrow>
       bindE (decodeHex (dr_RecipientScript req)) (\<lambda>dest.
       bindE (BuildRoutineSpend (sl_L X) (sl_B X)
                \<lparr>sp_Vault = Some op, sp_PrevTx = Some prev,
                 sp_PrevOutPoint = \<lparr>op_hash = TxHash (sl_L X) prev, op_index = dr_Vout req\<rparr>,
                 sp_RecipientScript = dest, sp_RecipientAmount = dr_RecipientAmount req, sp_Fee = dr_Fee req,
                 sp_Sequence = 0, sp_Witness = []\<rparr>) (\<lambda>built.
       bindE (classifySpend (sl_L X) (sl_B X) (sl_G X) (Some (bs_Packet built)) (Some op)) (\<lambda>_.
       B64Encode (sl_G X) (bs_Packet built)))))"

definition Draft :: "svc_lib \<Rightarrow> svc_env \<Rightarrow> draftRequest \<Rightarrow> service \<Rightarrow> string res \<times> service" where
  "Draft X E req s =
     (case sn_Operational (enrolled s) of None \<Rightarrow> (go_err ''not enrolled'', s)
      | Some op \<Rightarrow> with_slot E s (\<lambda>_. draft_packet X req op))"

definition set_unsigned :: "msgtx \<Rightarrow> psbt \<Rightarrow> psbt" where
  "set_unsigned t p = p\<lparr>UnsignedTx := Some t\<rparr>"

definition bind_packet :: "svc_lib \<Rightarrow> service \<Rightarrow> bindRequest \<Rightarrow> built \<Rightarrow> string res" where
  "bind_packet X s req op =
     bindE (classified_packet X (az_PSBT (bd_Assertion req)) op) (\<lambda>(ptx, _).
     bindE (decodeAssertion (bd_Assertion req)) (\<lambda>a.
     bindE (rejectPRF (sl_W X) (ClientDataJSON a)) (\<lambda>_.
     bindE (Challenge (sl_L X) ptx (Some op)) (\<lambda>ch.
     bindE (required_credential X s) (\<lambda>cred.
     bindE (Validate_assertion (sl_W X) a (expected_for cred ch)) (\<lambda>_.
     bindE (decodeHex (bd_DirectSig req)) (\<lambda>directSig.
     bindE (verifyDirectAuth (sl_W X) (cr_PhoneDirectP256 cred) ch directSig) (\<lambda>_.
     case UnsignedTx ptx of None \<Rightarrow> panic
     | Some t \<Rightarrow> bindE (SetPacketWitness (sl_L X) (sl_B X) t [directSig]) (\<lambda>t.
         B64Encode (sl_G X) (set_unsigned t ptx))))))))))"

definition Bind :: "svc_lib \<Rightarrow> svc_env \<Rightarrow> bindRequest \<Rightarrow> service \<Rightarrow> string res \<times> service" where
  "Bind X E req s =
     (case sn_Operational (enrolled s) of None \<Rightarrow> (go_err ''not enrolled'', s)
      | Some op \<Rightarrow> with_slot E s (\<lambda>s. bind_packet X s req op))"

definition Preflight :: "svc_lib \<Rightarrow> svc_env \<Rightarrow> string \<Rightarrow> service \<Rightarrow> string res \<times> service" where
  "Preflight X E rawPSBT s =
     (case sn_Operational (enrolled s) of None \<Rightarrow> (go_err ''not enrolled'', s)
      | Some op \<Rightarrow> with_slot E s (\<lambda>_.
          bindE (classified_packet X rawPSBT op) (\<lambda>(ptx, _).
          bindE (Challenge (sl_L X) ptx (Some op)) (\<lambda>ch. Inr (hex_EncodeToString ch)))))"

subsection \<open>Authorize\<close>

definition one_witness :: "svc_lib \<Rightarrow> psbt \<Rightarrow> bytes res" where
  "one_witness X ptx =
     (case UnsignedTx ptx of None \<Rightarrow> panic
      | Some t \<Rightarrow> bindE (FindEmulatorPacket (sl_L X) t) (\<lambda>packet.
          case packet of
            Some [entry] \<Rightarrow> (case ent_Witness entry of
                [w] \<Rightarrow> if length w \<noteq> 64 then go_err ''packet witness must be the one-item 64-byte direct signature'' else Inr w
              | _ \<Rightarrow> go_err ''packet witness must be the one-item 64-byte direct signature'')
          | _ \<Rightarrow> go_err ''emulator packet''))"

definition verifyAuthorization :: "svc_lib \<Rightarrow> service \<Rightarrow> authorizeRequest \<Rightarrow> psbt \<Rightarrow> built \<Rightarrow> bytes res" where
  "verifyAuthorization X s req ptx op =
     bindE (decodeAssertion req) (\<lambda>a.
     bindE (rejectPRF (sl_W X) (ClientDataJSON a)) (\<lambda>_.
     bindE (required_credential X s) (\<lambda>cred.
     bindE (Challenge (sl_L X) ptx (Some op)) (\<lambda>challenge.
     bindE (Validate_assertion (sl_W X) a (expected_for cred challenge)) (\<lambda>_.
     bindE (one_witness X ptx) (\<lambda>w.
     bindE (verifyDirectAuth (sl_W X) (cr_PhoneDirectP256 cred) challenge w) (\<lambda>_.
     bindE (verifyPhoneRoutineSignature (sl_L X) (sl_B X) ptx (Some op)) (\<lambda>_.
     Inr challenge))))))))"

definition verifyAuthorizeRequest ::
  "svc_lib \<Rightarrow> svc_env \<Rightarrow> authorizeRequest \<Rightarrow> built \<Rightarrow> service \<Rightarrow> (psbt \<times> classified \<times> bytes) res \<times> service" where
  "verifyAuthorizeRequest X E req op s =
     with_slot E s (\<lambda>s.
       bindE (classified_packet X (az_PSBT req) op) (\<lambda>(ptx, cl).
       bindE (verifyAuthorization X s req ptx op) (\<lambda>challenge. Inr (ptx, cl, challenge))))"

text \<open>The two callbacks given to the ledger.  A context that ends while a signer runs is an error of the
signer.\<close>

definition vault_stage :: "svc_lib \<Rightarrow> svc_env \<Rightarrow> signer \<Rightarrow> point \<Rightarrow> string \<Rightarrow> string res" where
  "vault_stage X E sg vaultKey stored =
     (if se_vault_ctx_done E then go_err ''context done''
      else signExactStage (sl_L X) (sl_B X) (sl_G X) stored (Some sg) (schnorr_SerializePubKey (sl_L X) vaultKey))"

definition routine_signed :: "svc_lib \<Rightarrow> built \<Rightarrow> point option list \<Rightarrow> string \<Rightarrow> unit res" where
  "routine_signed X op keys raw =
     bindE (parseAndVerifyPrevout (sl_L X) (sl_B X) (sl_G X) raw) (\<lambda>(ptx, _).
     verifyExactRoutineSignatures (sl_L X) (sl_B X) (Some ptx) (Some op) keys)"

definition arkade_stage :: "svc_lib \<Rightarrow> svc_env \<Rightarrow> built \<Rightarrow> signer \<Rightarrow> point \<Rightarrow> point \<Rightarrow> string \<Rightarrow> string res" where
  "arkade_stage X E op sg vaultKey arkadeKey stored =
     (if se_arkade_ctx_done E then go_err ''context done''
      else let phone = PhoneRoutineBIP340 (bt_Record op) in
      bindE (routine_signed X op [phone, Some vaultKey] stored) (\<lambda>_.
      bindE (signExactStage (sl_L X) (sl_B X) (sl_G X) stored (Some sg) (schnorr_SerializePubKey (sl_L X) arkadeKey)) (\<lambda>completed.
      bindE (routine_signed X op [phone, Some vaultKey, Some arkadeKey] completed) (\<lambda>_.
      Inr completed))))"

definition issue_authorized ::
  "svc_lib \<Rightarrow> svc_env \<Rightarrow> built \<Rightarrow> psbt \<Rightarrow> classified \<Rightarrow> bytes \<Rightarrow> service \<Rightarrow> (string \<times> bool) res \<times> service \<times> cosigner_call list" where
  "issue_authorized X E op ptx cl challenge s =
     (case B64Encode (sl_G X) ptx of Inl e \<Rightarrow> (Inl e, s, [])
      | Inr requestPSBT \<Rightarrow>
        (case (VaultSigner s, ArkadeCosignerSigner s, TweakedVaultCosigner op, TweakedArkadeCosigner op) of
           (Some vs, Some as, Some vaultKey, Some arkadeKey) \<Rightarrow>
             (case cl_Recipient cl of None \<Rightarrow> (panic, s, [])
              | Some recipient \<Rightarrow>
                (case IssueSequential (se_issue E) fixture_VaultID challenge requestPSBT (out_value recipient) (cl_Fee cl)
                        PeriodAllowanceSats (Some (vault_stage X E vs vaultKey))
                        (Some (arkade_stage X E op as vaultKey arkadeKey)) (svc_rows s) of
                   (r, rows, calls) \<Rightarrow> (r, s\<lparr>svc_rows := rows\<rparr>, calls)))
         | _ \<Rightarrow> (go_err ''both VaultCosigner and ArkadeCosigner signers are required'', s, [])))"

definition Authorize ::
  "svc_lib \<Rightarrow> svc_env \<Rightarrow> authorizeRequest \<Rightarrow> service \<Rightarrow> (string \<times> bool) res \<times> service \<times> cosigner_call list" where
  "Authorize X E req s =
     (case attachLedgerIntegrity X s of Inl e \<Rightarrow> (Inl e, s, [])
      | Inr s \<Rightarrow>
        (case sn_Operational (enrolled s) of None \<Rightarrow> (go_err ''not enrolled'', s, [])
         | Some op \<Rightarrow>
           (case verifyAuthorizeRequest X E req op s of
              (Inl e, s) \<Rightarrow> (Inl e, s, [])
            | (Inr (ptx, cl, challenge), s) \<Rightarrow> issue_authorized X E op ptx cl challenge s)))"

end
