(* ===== verification/VaultSession.thy ===== *)
theory VaultSession
imports VaultService
begin

text \<open>Model of poc/2fa-vault/internal/provider/session.go: passkey challenges, the session they
authenticate, and the recovery envelope.  The challenges under way are a table with at most one row of
an identity; the sources of randomness are arguments.  The JSON encoding of the recovery binding is
written out for ASCII text; that of other text is a parameter.\<close>

definition passkeyPurposeRecover :: string where "passkeyPurposeRecover = ''recover''"
definition passkeyPurposeInstall :: string where "passkeyPurposeInstall = ''install-envelope''"
definition passkeyChallengeTTL :: int where "passkeyChallengeTTL = 120000000000"
definition maxPasskeyChallenges :: nat where "maxPasskeyChallenges = 64"
definition recoveryBindingDomain :: string where "recoveryBindingDomain = ''arkade-2fa-vault/recovery-binding/v1''"
definition passkeyProofDomain :: string where "passkeyProofDomain = ''arkade-2fa-vault/passkey-proof/v1''"

record passkeyChallenge =
  pc_Purpose :: string
  pc_Challenge :: bytes
  pc_ExpiresAt :: int

type_synonym sessions = "(string \<times> passkeyChallenge) list"

record passkeyChallengeResponse =
  pcr_ChallengeID :: string
  pcr_Challenge :: string
  pcr_AllowCredentialID :: string
  pcr_ExpiresInSeconds :: int

record sessionAssertionRequest =
  sa_ChallengeID :: string
  sa_Assertion :: authorizeRequest
  sa_DirectProof :: string

subsection \<open>Challenges\<close>

definition expire_challenges :: "int \<Rightarrow> sessions \<Rightarrow> sessions" where
  "expire_challenges now cs = filter (\<lambda>(_, p). now < pc_ExpiresAt p) cs"

definition delete_challenge :: "string \<Rightarrow> sessions \<Rightarrow> sessions" where
  "delete_challenge id' cs = filter (\<lambda>(k, _). k \<noteq> id') cs"

definition put_challenge :: "string \<Rightarrow> passkeyChallenge \<Rightarrow> sessions \<Rightarrow> sessions" where
  "put_challenge id' p cs = (id', p) # delete_challenge id' cs"

text \<open>The enrolled credential, and for recovery its stored envelope.\<close>

definition challenge_allowed :: "svc_lib \<Rightarrow> service \<Rightarrow> string \<Rightarrow> credential res" where
  "challenge_allowed X s purpose =
     (if purpose \<noteq> passkeyPurposeRecover \<and> purpose \<noteq> passkeyPurposeInstall then go_err ''invalid passkey challenge purpose''
      else bindE (required_credential X s) (\<lambda>cred.
        if purpose = passkeyPurposeRecover then
          bindE (loadVerifiedCredentialEnvelope X s (cr_ID cred)) (\<lambda>envelope.
          if envelope = None then go_err ''passkey sign-in has not been enabled on the original device'' else Inr cred)
        else Inr cred))"

definition IssuePasskeyChallenge ::
  "svc_lib \<Rightarrow> svc_env \<Rightarrow> string \<Rightarrow> bytes res \<Rightarrow> bytes res \<Rightarrow> service \<Rightarrow> sessions \<Rightarrow> passkeyChallengeResponse res \<times> sessions" where
  "IssuePasskeyChallenge X E purpose rand_id rand_challenge s cs =
     try_step (if se_ctx_done E then go_err ''context done'' else challenge_allowed X s purpose) cs (\<lambda>cred.
     try_step rand_id cs (\<lambda>idRaw.
     try_step rand_challenge cs (\<lambda>challenge.
     let id' = b64_encode idRaw; cs = expire_challenges (se_now E) cs in
     if maxPasskeyChallenges \<le> length cs then (go_err ''crypto verification capacity exhausted'', cs)
     else (Inr \<lparr>pcr_ChallengeID = id', pcr_Challenge = hex_EncodeToString challenge,
                pcr_AllowCredentialID = hex_EncodeToString (cr_ID cred),
                pcr_ExpiresInSeconds = passkeyChallengeTTL div 1000000000\<rparr>,
           put_challenge id' \<lparr>pc_Purpose = purpose, pc_Challenge = challenge, pc_ExpiresAt = se_now E + passkeyChallengeTTL\<rparr> cs))))"

definition valid_challenge_id :: "string \<Rightarrow> bool" where
  "valid_challenge_id id' \<longleftrightarrow> length id' = 22 \<and>
     (case b64_decode id' of None \<Rightarrow> False | Some raw \<Rightarrow> length raw = 16 \<and> b64_encode raw = id')"

definition consumePasskeyChallenge :: "int \<Rightarrow> string \<Rightarrow> string \<Rightarrow> sessions \<Rightarrow> bytes res \<times> sessions" where
  "consumePasskeyChallenge now id' purpose cs =
     (if \<not> valid_challenge_id id' then (go_err ''passkey authentication failed'', cs)
      else ((case map_of cs id' of None \<Rightarrow> go_err ''passkey authentication failed''
             | Some p \<Rightarrow> if pc_Purpose p \<noteq> purpose \<or> \<not> now < pc_ExpiresAt p then go_err ''passkey authentication failed''
                       else Inr (pc_Challenge p)),
            delete_challenge id' cs))"

subsection \<open>Sessions\<close>

definition decodeFixedHex :: "string \<Rightarrow> nat \<Rightarrow> bytes res" where
  "decodeFixedHex encodedHex n =
     (if length encodedHex \<noteq> n * 2 \<or> encodedHex \<noteq> ToLower encodedHex then go_err ''must be canonical lowercase hex''
      else (case hex_DecodeString encodedHex of None \<Rightarrow> go_err ''must be canonical lowercase hex''
      | Some raw \<Rightarrow> if length raw \<noteq> n then go_err ''must be canonical lowercase hex'' else Inr raw))"

definition decodeBoundedSessionAssertion :: "sessionAssertionRequest \<Rightarrow> assertion res" where
  "decodeBoundedSessionAssertion req =
     bindE (decodeAssertion (sa_Assertion req)) (\<lambda>a.
     if length (as_CredentialID a) = 0 \<or> length (as_CredentialID a) > 1024 \<or>
        length (ClientDataJSON a) = 0 \<or> length (ClientDataJSON a) > 4096 \<or>
        length (AuthenticatorData a) < 37 \<or> length (AuthenticatorData a) > 1024 \<or>
        length (DERSignature a) = 0 \<or> length (DERSignature a) > 128
     then go_err ''assertion field size'' else Inr a)"

definition passkeySessionProofDigest :: "lib \<Rightarrow> string \<Rightarrow> bytes \<Rightarrow> bytes \<Rightarrow> bytes" where
  "passkeySessionProofDigest L purpose challenge credentialID =
     sha256 L (go_bytes passkeyProofDomain @ [0] @ go_bytes purpose @ [0] @ challenge @ [0] @ credentialID)"

definition session_credential :: "svc_lib \<Rightarrow> service \<Rightarrow> string \<Rightarrow> sessionAssertionRequest \<Rightarrow> bytes \<Rightarrow> credential res" where
  "session_credential X s purpose req challenge =
     bindE (required_credential X s) (\<lambda>cred.
     bindE (decodeBoundedSessionAssertion req) (\<lambda>a.
     if as_CredentialID a \<noteq> cr_ID cred then go_err ''this passkey does not belong to this vault''
     else bindE (rejectPRF (sl_W X) (ClientDataJSON a)) (\<lambda>_.
     bindE (Validate_assertion (sl_W X) a (expected_for cred challenge)) (\<lambda>_.
     bindE (decodeFixedHex (sa_DirectProof req) 64) (\<lambda>directProof.
     bindE (verifyDirectAuth (sl_W X) (cr_PhoneDirectP256 cred)
              (passkeySessionProofDigest (sl_L X) purpose challenge (cr_ID cred)) directProof) (\<lambda>_.
     Inr cred))))))"

definition authenticatePasskeySession ::
  "svc_lib \<Rightarrow> svc_env \<Rightarrow> string \<Rightarrow> sessionAssertionRequest \<Rightarrow> service \<Rightarrow> sessions \<Rightarrow> credential res \<times> sessions" where
  "authenticatePasskeySession X E purpose req s cs =
     try_step (acquireVerification E s) cs (\<lambda>s.
     (case consumePasskeyChallenge (se_now E) (sa_ChallengeID req) purpose cs of
        (Inl e, cs) \<Rightarrow> (Inl e, cs)
      | (Inr challenge, cs) \<Rightarrow> (session_credential X s purpose req challenge, cs)))"

subsection \<open>The JSON encoding of the recovery binding\<close>

datatype json_value = JStr string | JNum int

definition json_char :: "char \<Rightarrow> string" where
  "json_char c =
     (if c = CHR 0x22 then [CHR 0x5C, CHR 0x22] else if c = CHR 0x5C then [CHR 0x5C, CHR 0x5C]
      else if c = CHR 0x08 then [CHR 0x5C, CHR ''b''] else if c = CHR 0x0C then [CHR 0x5C, CHR ''f'']
      else if c = CHR 0x0A then [CHR 0x5C, CHR ''n''] else if c = CHR 0x0D then [CHR 0x5C, CHR ''r'']
      else if c = CHR 0x09 then [CHR 0x5C, CHR ''t'']
      else if (of_char c :: nat) < 32 \<or> c = CHR ''<'' \<or> c = CHR ''>'' \<or> c = CHR ''&''
      then CHR 0x5C # ''u00'' @ hex_EncodeToString [of_char c] else [c])"

definition json_string :: "(string \<Rightarrow> string) \<Rightarrow> string \<Rightarrow> string" where
  "json_string U s = CHR 0x22 # (if ascii_text s then concat (map json_char s) else U s) @ [CHR 0x22]"

definition json_int :: "int \<Rightarrow> string" where
  "json_int n = (if n < 0 then CHR ''-'' # FormatUint (nat (- n)) else FormatUint (nat n))"

definition json_value :: "(string \<Rightarrow> string) \<Rightarrow> json_value \<Rightarrow> string" where
  "json_value U v = (case v of JStr s \<Rightarrow> json_string U s | JNum n \<Rightarrow> json_int n)"

definition json_member :: "(string \<Rightarrow> string) \<Rightarrow> string \<times> json_value \<Rightarrow> string" where
  "json_member U m = CHR 0x22 # fst m @ [CHR 0x22, CHR '':''] @ json_value U (snd m)"

fun json_members :: "(string \<Rightarrow> string) \<Rightarrow> (string \<times> json_value) list \<Rightarrow> string" where
  "json_members U [] = ''''"
| "json_members U [m] = json_member U m"
| "json_members U (m # ms) = json_member U m @ '','' @ json_members U ms"

definition json_object :: "(string \<Rightarrow> string) \<Rightarrow> (string \<times> json_value) list \<Rightarrow> string" where
  "json_object U ms = ''{'' @ json_members U ms @ ''}''"

text \<open>The members of the recovery binding, in the order of its fields.\<close>

definition binding_keys :: "credential \<Rightarrow> (string \<times> json_value) list" where
  "binding_keys c =
     [(''version'', JNum 1),
      (''credentialId'', JStr (hex_EncodeToString (cr_ID c))),
      (''webauthnP256'', JStr (hex_EncodeToString (cr_WebAuthnP256 c))),
      (''phoneDirectP256'', JStr (hex_EncodeToString (cr_PhoneDirectP256 c))),
      (''phoneRoutineBip340Pub'', JStr (hex_EncodeToString (cr_PhoneRoutineBIP340 c))),
      (''externalOwnerWalletPub'', JStr (hex_EncodeToString (cr_ExternalOwnerWallet c))),
      (''recoveryKeyPub'', JStr (hex_EncodeToString (cr_RecoveryKey c))),
      (''vaultCosignerBasePub'', JStr (hex_EncodeToString (cr_VaultCosignerBase c))),
      (''tweakedVaultCosignerXOnly'', JStr (hex_EncodeToString (tl (cr_TweakedVaultCosigner c)))),
      (''arkadeCosignerBasePub'', JStr (hex_EncodeToString (cr_ArkadeCosignerBase c))),
      (''tweakedArkadeCosignerXOnly'', JStr (hex_EncodeToString (tl (cr_TweakedArkadeCosigner c)))),
      (''arkadeCosignerOrigin'', JStr (cr_ArkadeCosignerOrigin c)),
      (''arkadeCosignerVersion'', JStr (cr_ArkadeCosignerVersion c)),
      (''clientOrigin'', JStr (cr_Origin c)),
      (''rpId'', JStr (cr_RPID c)),
      (''network'', JStr (cr_Network c)),
      (''vaultId'', JStr (cr_VaultID c)),
      (''templateVersion'', JStr (cr_TemplateVersion c)),
      (''policyVersion'', JStr (cr_PolicyVersion c))]"

definition binding_limits :: "credential \<Rightarrow> bytes \<Rightarrow> bytes \<Rightarrow> (string \<times> json_value) list" where
  "binding_limits c nonce ciphertext =
     [(''operationalCsvType'', JNum (sint (cr_OperationalCSVType c))),
      (''operationalCsvValue'', JNum (uint (cr_OperationalCSVValue c))),
      (''savingsCsvType'', JNum (sint (cr_SavingsCSVType c))),
      (''savingsCsvValue'', JNum (uint (cr_SavingsCSVValue c))),
      (''operationalAddress'', JStr (cr_OperationalAddress c)),
      (''operationalScript'', JStr (hex_EncodeToString (cr_OperationalScript c))),
      (''savingsAddress'', JStr (cr_SavingsAddress c)),
      (''savingsScript'', JStr (hex_EncodeToString (cr_SavingsScript c))),
      (''recipientDustSats'', JNum (sint (cr_RecipientDustSats c))),
      (''txRecipientCapSats'', JNum (sint (cr_TxRecipientCapSats c))),
      (''periodAllowanceSats'', JNum (sint (cr_PeriodAllowanceSats c))),
      (''absoluteFeeCapSats'', JNum (sint (cr_AbsoluteFeeCapSats c))),
      (''feerateCapSatVb'', JNum (sint (cr_FeerateCapSatPerV c))),
      (''envelopeNonce'', JStr (hex_EncodeToString nonce)),
      (''envelopeCiphertext'', JStr (hex_EncodeToString ciphertext))]"

text \<open>The slice from the second byte of an empty key panics.\<close>

definition canonicalRecoveryBinding :: "(string \<Rightarrow> string) \<Rightarrow> credential option \<Rightarrow> bytes \<Rightarrow> bytes \<Rightarrow> string res" where
  "canonicalRecoveryBinding U cred nonce ciphertext =
     (case cred of None \<Rightarrow> go_err ''credential required''
      | Some c \<Rightarrow>
        if cr_TweakedVaultCosigner c = [] \<or> cr_TweakedArkadeCosigner c = [] then panic
        else Inr (json_object U (binding_keys c @ binding_limits c nonce ciphertext)))"

definition recoveryBindingDigest :: "lib \<Rightarrow> string \<Rightarrow> bytes" where
  "recoveryBindingDigest L binding = sha256 L (go_bytes recoveryBindingDomain @ [0] @ go_bytes binding)"

subsection \<open>The recovery envelope\<close>

record installRequest =
  ir_Session :: sessionAssertionRequest
  ir_EnvelopeNonce :: string
  ir_EnvelopeCiphertext :: string
  ir_Binding :: string
  ir_BindingDirectSig :: string
  ir_BindingPhoneSig :: string

record recoverResponse =
  rr_Binding :: string
  rr_BindingDigest :: string
  rr_EnvelopeNonce :: string
  rr_EnvelopeCiphertext :: string
  rr_BindingDirectSig :: string
  rr_BindingPhoneSig :: string

definition BuildRecoveryBinding ::
  "svc_lib \<Rightarrow> (string \<Rightarrow> string) \<Rightarrow> string \<Rightarrow> string \<Rightarrow> service \<Rightarrow> (string \<times> string) res" where
  "BuildRecoveryBinding X U nonceHex ciphertextHex s =
     bindE (required_credential X s) (\<lambda>cred.
     bindE (decodeFixedHex nonceHex 12) (\<lambda>nonce.
     bindE (decodeFixedHex ciphertextHex 48) (\<lambda>ciphertext.
     bindE (canonicalRecoveryBinding U (Some cred) nonce ciphertext) (\<lambda>binding.
     Inr (binding, hex_EncodeToString (recoveryBindingDigest (sl_L X) binding))))))"

definition verify_phone_binding :: "svc_lib \<Rightarrow> credential \<Rightarrow> bytes \<Rightarrow> bytes \<Rightarrow> unit res" where
  "verify_phone_binding X cred digest sig =
     bindE (svc_ParsePubKey X (cr_PhoneRoutineBIP340 cred)) (\<lambda>pub.
     (case schnorr_ParseSignature (sl_L X) sig of
        None \<Rightarrow> go_err ''credential envelope binding PhoneRoutine signature invalid''
      | Some sg \<Rightarrow> if schnorr_Verify (sl_L X) sg digest pub then Inr ()
                else go_err ''credential envelope binding PhoneRoutine signature invalid''))"

definition envelope_of_request :: "svc_lib \<Rightarrow> (string \<Rightarrow> string) \<Rightarrow> service \<Rightarrow> credential \<Rightarrow> installRequest \<Rightarrow> credentialEnvelope res" where
  "envelope_of_request X U s cred req =
     bindE (decodeFixedHex (ir_EnvelopeNonce req) 12) (\<lambda>nonce.
     bindE (decodeFixedHex (ir_EnvelopeCiphertext req) 48) (\<lambda>ciphertext.
     bindE (canonicalRecoveryBinding U (Some cred) nonce ciphertext) (\<lambda>expectedBinding.
     if ir_Binding req \<noteq> expectedBinding then go_err ''credential envelope binding mismatch''
     else let digest = recoveryBindingDigest (sl_L X) expectedBinding in
     bindE (decodeFixedHex (ir_BindingDirectSig req) 64) (\<lambda>directSig.
     bindE (verifyDirectAuth (sl_W X) (cr_PhoneDirectP256 cred) digest directSig) (\<lambda>_.
     bindE (decodeFixedHex (ir_BindingPhoneSig req) 64) (\<lambda>phoneSig.
     bindE (verify_phone_binding X cred digest phoneSig) (\<lambda>_.
     svc_sealCredentialEnvelope X s
       \<lparr>env_Version = CredentialEnvelopeVersion, env_Binding = expectedBinding, env_Nonce = nonce, env_Ciphertext = ciphertext,
        env_DirectSig = directSig, env_PhoneSig = phoneSig, env_IntegrityMAC = []\<rparr> (cr_ID cred))))))))"

definition InstallCredentialEnvelope ::
  "svc_lib \<Rightarrow> svc_env \<Rightarrow> (string \<Rightarrow> string) \<Rightarrow> installRequest \<Rightarrow> service \<Rightarrow> sessions \<Rightarrow> unit res \<times> service \<times> sessions" where
  "InstallCredentialEnvelope X E U req s cs =
     (case authenticatePasskeySession X E passkeyPurposeInstall (ir_Session req) s cs of
        (Inl e, cs) \<Rightarrow> (Inl e, s, cs)
      | (Inr cred, cs) \<Rightarrow> (case envelope_of_request X U s cred req of
          Inl e \<Rightarrow> (Inl e, s, cs)
        | Inr envelope \<Rightarrow> (case StoreCredentialEnvelopeIfAbsent (se_end E) envelope (svc_db s) of
            (r, db) \<Rightarrow> (r, s\<lparr>svc_db := db\<rparr>, cs))))"

definition RecoverCredentialEnvelope ::
  "svc_lib \<Rightarrow> svc_env \<Rightarrow> sessionAssertionRequest \<Rightarrow> service \<Rightarrow> sessions \<Rightarrow> recoverResponse res \<times> sessions" where
  "RecoverCredentialEnvelope X E req s cs =
     (case authenticatePasskeySession X E passkeyPurposeRecover req s cs of
        (Inl e, cs) \<Rightarrow> (Inl e, cs)
      | (Inr cred, cs) \<Rightarrow>
          (bindE (loadVerifiedCredentialEnvelope X s (cr_ID cred)) (\<lambda>envelope.
           case envelope of None \<Rightarrow> go_err ''passkey sign-in has not been enabled on the original device''
           | Some e \<Rightarrow> Inr \<lparr>rr_Binding = env_Binding e,
               rr_BindingDigest = hex_EncodeToString (recoveryBindingDigest (sl_L X) (env_Binding e)),
               rr_EnvelopeNonce = hex_EncodeToString (env_Nonce e), rr_EnvelopeCiphertext = hex_EncodeToString (env_Ciphertext e),
               rr_BindingDirectSig = hex_EncodeToString (env_DirectSig e),
               rr_BindingPhoneSig = hex_EncodeToString (env_PhoneSig e)\<rparr>), cs))"

end
