(* ===== verification/VaultPublish.thy ===== *)
theory VaultPublish
imports VaultService "HOL-Library.Sublist"
begin

text \<open>Model of the Status of poc/2fa-vault/internal/provider/service.go and of provider/publish.go: the
publication of a completed issuance.  The node is a pair of functions on its own state; each Broadcast
that reaches it is recorded.  Serialize is the encoding of a transaction.\<close>

subsection \<open>Status\<close>

record status =
  st_Enrolled :: bool
  st_Network :: string
  st_ClientOrigin :: string
  st_RPID :: string
  st_VaultID :: string
  st_TemplateVersion :: string
  st_PolicyVersion :: string
  st_OperationalCSVBlocks :: "32 word"
  st_SavingsCSVBlocks :: "32 word"
  st_ExternalOwnerWalletPub :: string
  st_RecoveryKeyPub :: string
  st_VaultCosignerBasePub :: string
  st_ArkadeCosignerBasePub :: string
  st_ArkadeCosignerOrigin :: string
  st_ArkadeCosignerVersion :: string
  st_OperationalAddr :: string
  st_OperationalScript :: string
  st_SavingsAddr :: string
  st_SavingsScript :: string
  st_SavingsExcludesRoutineCosigners :: bool
  st_PasskeyLoginAvailable :: bool
  st_EnrollmentMode :: string
  st_EnrollmentExpiresAt :: "int option"
  st_PeriodAllowance :: int64
  st_PeriodSpent :: int64
  st_PeriodRemaining :: int64
  st_TxCap :: int64
  st_AbsoluteFeeCap :: int64
  st_FeerateCapSatPerV :: int64
  st_PhoneRoutineBIP340Pub :: string
  st_PhoneDirectP256 :: string
  st_TweakedVaultCosignerXOnly :: string
  st_TweakedArkadeCosignerXOnly :: string

definition period_remaining :: "int64 \<Rightarrow> int64" where
  "period_remaining spent = (let rem = PeriodAllowanceSats - spent in if rem <s 0 then 0 else rem)"

definition enrollment_mode :: "svc_env \<Rightarrow> service \<Rightarrow> string" where
  "enrollment_mode E s =
     (if Network (runtimeConfig s) = NetworkRegtest then ''open''
      else if (case EnrollmentDeadline s of None \<Rightarrow> True | Some d \<Rightarrow> \<not> se_now E < d) then ''expired''
      else if OpenEnrollment s then ''open''
      else if length (EnrollmentTokenHash s) = sha256_Size then ''token''
      else ''unavailable'')"

definition hex_key :: "lib \<Rightarrow> point option \<Rightarrow> string" where
  "hex_key L k = (case k of None \<Rightarrow> '''' | Some p \<Rightarrow> hex_EncodeToString (SerializeCompressed L p))"

definition hex_xonly :: "lib \<Rightarrow> point option \<Rightarrow> string" where
  "hex_xonly L k = (case k of None \<Rightarrow> '''' | Some p \<Rightarrow> hex_EncodeToString (schnorr_SerializePubKey L p))"

text \<open>The enrolled vault's part, its key fields taken from the stored descriptor or from the runtime.\<close>

definition status_keys :: "svc_lib \<Rightarrow> svc_env \<Rightarrow> service \<Rightarrow> credential option \<Rightarrow> status \<Rightarrow> status res" where
  "status_keys X E s cred st =
     (case cred of
        None \<Rightarrow> Inr (st\<lparr>st_EnrollmentMode := enrollment_mode E s, st_EnrollmentExpiresAt := EnrollmentDeadline s,
            st_ExternalOwnerWalletPub := hex_key (sl_L X) (svc_ExternalOwnerWallet s),
            st_RecoveryKeyPub := hex_key (sl_L X) (svc_RecoveryKey s),
            st_VaultCosignerBasePub := hex_key (sl_L X) (VaultCosignerPub s),
            st_ArkadeCosignerBasePub := hex_key (sl_L X) (ArkadeCosignerPub s)\<rparr>)
      | Some c \<Rightarrow>
          bindE (loadVerifiedCredentialEnvelope X s (cr_ID c)) (\<lambda>envelope.
          Inr (st\<lparr>st_EnrollmentMode := ''closed'',
            st_ExternalOwnerWalletPub := hex_EncodeToString (cr_ExternalOwnerWallet c),
            st_RecoveryKeyPub := hex_EncodeToString (cr_RecoveryKey c),
            st_VaultCosignerBasePub := hex_EncodeToString (cr_VaultCosignerBase c),
            st_ArkadeCosignerBasePub := hex_EncodeToString (cr_ArkadeCosignerBase c),
            st_ArkadeCosignerOrigin := cr_ArkadeCosignerOrigin c,
            st_ArkadeCosignerVersion := cr_ArkadeCosignerVersion c,
            st_PasskeyLoginAvailable := envelope \<noteq> None\<rparr>)))"

definition status_operational :: "svc_lib \<Rightarrow> enrolledSnapshot \<Rightarrow> status \<Rightarrow> status" where
  "status_operational X snap st =
     (case sn_Operational snap of None \<Rightarrow> st
      | Some op \<Rightarrow> st\<lparr>st_OperationalAddr := bt_Address op, st_OperationalScript := hex_EncodeToString (bt_PkScript op),
          st_TweakedVaultCosignerXOnly := hex_xonly (sl_L X) (TweakedVaultCosigner op),
          st_TweakedArkadeCosignerXOnly := hex_xonly (sl_L X) (TweakedArkadeCosigner op)\<rparr>)"

definition forbidden_cosigners :: "enrolledSnapshot \<Rightarrow> point option list" where
  "forbidden_cosigners snap =
     (let present = (\<lambda>k. case k of None \<Rightarrow> [] | Some p \<Rightarrow> [Some p]) in
      present (sn_VaultCosignerBase snap) @ present (Option.bind (sn_Operational snap) TweakedVaultCosigner) @
      present (sn_ArkadeCosignerBase snap) @ present (Option.bind (sn_Operational snap) TweakedArkadeCosigner))"

definition status_savings :: "svc_lib \<Rightarrow> enrolledSnapshot \<Rightarrow> status \<Rightarrow> status" where
  "status_savings X snap st =
     (case sn_Savings snap of None \<Rightarrow> st
      | Some sv \<Rightarrow> st\<lparr>st_SavingsAddr := bt_Address sv, st_SavingsScript := hex_EncodeToString (bt_PkScript sv),
          st_SavingsExcludesRoutineCosigners :=
            (AssertNoRoutineCosigners (sl_L X) (sl_T X) (Some sv) (forbidden_cosigners snap) = Inr ())\<rparr>)"

definition status_phone :: "svc_lib \<Rightarrow> enrolledSnapshot \<Rightarrow> credential option \<Rightarrow> status \<Rightarrow> status" where
  "status_phone X snap cred st =
     st\<lparr>st_PhoneRoutineBIP340Pub := hex_key (sl_L X) (sn_PhoneRoutineBIP340 snap),
        st_PhoneDirectP256 := (case cred of None \<Rightarrow> '''' | Some c \<Rightarrow> hex_EncodeToString (cr_PhoneDirectP256 c))\<rparr>"

definition base_status :: "config \<Rightarrow> bool \<Rightarrow> int64 \<Rightarrow> status" where
  "base_status cfg is_enrolled spent =
     \<lparr>st_Enrolled = is_enrolled, st_Network = Network cfg, st_ClientOrigin = ClientOrigin cfg, st_RPID = cfg_RPID cfg,
      st_VaultID = fixture_VaultID, st_TemplateVersion = TemplateVersion, st_PolicyVersion = PolicyVersion,
      st_OperationalCSVBlocks = OperationalCSVBlocks cfg, st_SavingsCSVBlocks = SavingsCSVBlocks cfg,
      st_ExternalOwnerWalletPub = '''', st_RecoveryKeyPub = '''', st_VaultCosignerBasePub = '''',
      st_ArkadeCosignerBasePub = '''', st_ArkadeCosignerOrigin = '''', st_ArkadeCosignerVersion = '''',
      st_OperationalAddr = '''', st_OperationalScript = '''', st_SavingsAddr = '''', st_SavingsScript = '''',
      st_SavingsExcludesRoutineCosigners = False, st_PasskeyLoginAvailable = False, st_EnrollmentMode = '''',
      st_EnrollmentExpiresAt = None, st_PeriodAllowance = PeriodAllowanceSats, st_PeriodSpent = spent,
      st_PeriodRemaining = period_remaining spent, st_TxCap = TxRecipientCapSats, st_AbsoluteFeeCap = AbsoluteFeeCeiling,
      st_FeerateCapSatPerV = fixture_FeerateCeiling, st_PhoneRoutineBIP340Pub = '''', st_PhoneDirectP256 = '''',
      st_TweakedVaultCosignerXOnly = '''', st_TweakedArkadeCosignerXOnly = ''''\<rparr>"

definition Status :: "svc_lib \<Rightarrow> svc_env \<Rightarrow> service \<Rightarrow> status res \<times> service" where
  "Status X E s =
     try_step (attachLedgerIntegrity X s) s (\<lambda>s.
     (bindE (Config_Validate (sl_N X) (runtimeConfig s)) (\<lambda>_.
      bindE (loadVerifiedCredential X s) (\<lambda>cred.
      bindE (SpentInPeriod fixture_VaultID (env_period (se_issue E)) (svc_rows s)) (\<lambda>spent.
      bindE (status_keys X E s cred (base_status (runtimeConfig s) (cred \<noteq> None) spent)) (\<lambda>st.
      let snap = enrolled s in
      Inr (status_phone X snap cred (status_savings X snap (status_operational X snap st))))))), s))"

subsection \<open>Preparing a publication\<close>

record 'n node =
  nd_Lookup :: "string \<Rightarrow> 'n \<Rightarrow> (int \<times> bool) res \<times> 'n"
  nd_Broadcast :: "bytes \<Rightarrow> 'n \<Rightarrow> string res \<times> 'n"

record publishResult =
  pb_Txid :: string
  pb_Confirmations :: int
  pb_PeriodSpent :: int64
  pb_PeriodRemaining :: int64

definition ptxDirectPub :: "built option \<Rightarrow> bytes res" where
  "ptxDirectPub op =
     (case op of None \<Rightarrow> go_err ''direct p256 required''
      | Some v \<Rightarrow> if length (PhoneDirectP256 (bt_Record v)) = 0 then go_err ''direct p256 required''
                 else Inr (PhoneDirectP256 (bt_Record v)))"

definition verifyStoredDirectWitness :: "svc_lib \<Rightarrow> psbt \<Rightarrow> built \<Rightarrow> bytes \<Rightarrow> unit res" where
  "verifyStoredDirectWitness X ptx op challenge =
     bindE (ptxDirectPub (Some op)) (\<lambda>pub.
     bindE (one_witness X ptx) (\<lambda>w. verifyDirectAuth (sl_W X) pub challenge w))"

definition no_final_script :: "psbt \<Rightarrow> unit res" where
  "no_final_script ptx =
     bindE (at_idx (pk_Inputs ptx) 0) (\<lambda>inp.
     if length (FinalScriptWitness inp) \<noteq> 0 \<or> length (FinalScriptSig inp) \<noteq> 0 then go_err ''preexisting final script'' else Inr ())"

definition stored_spend :: "svc_lib \<Rightarrow> built \<Rightarrow> bytes \<Rightarrow> string \<Rightarrow> psbt res" where
  "stored_spend X op digest stored =
     bindE (classified_packet X stored op) (\<lambda>(ptx, _).
     bindE (Challenge (sl_L X) ptx (Some op)) (\<lambda>got.
     if got \<noteq> digest then go_err ''recomputed challenge does not match''
     else bindE (verifyStoredDirectWitness X ptx op digest) (\<lambda>_.
     bindE (no_final_script ptx) (\<lambda>_. Inr ptx))))"

definition finalized_spend :: "svc_lib \<Rightarrow> built \<Rightarrow> psbt \<Rightarrow> msgtx res" where
  "finalized_spend X op ptx =
     bindE (clonePacket (sl_G X) (Some ptx)) (\<lambda>clone.
     bindE (FinalizeRoutine (sl_L X) (sl_B X) (Some clone) (Some op)) (\<lambda>clone.
     bindE (ExecuteFinalizedRoutine (sl_L X) (sl_B X) (Some clone) (Some op)) (\<lambda>_.
     ExtractFinalizedTx (sl_L X) (Some clone))))"

definition preparePublication :: "svc_lib \<Rightarrow> (msgtx \<Rightarrow> bytes res) \<Rightarrow> service \<Rightarrow> string \<Rightarrow> (bytes \<times> string) res" where
  "preparePublication X Serialize s challengeHex =
     (case sn_Operational (enrolled s) of None \<Rightarrow> go_err ''not enrolled''
      | Some op \<Rightarrow> (case decodeHex challengeHex of Inl _ \<Rightarrow> go_err ''challenge''
        | Inr digest \<Rightarrow>
          if length digest \<noteq> 32 then go_err ''challenge''
          else let (stored, ok) = Completed fixture_VaultID digest (svc_rows s) in
          if \<not> ok \<or> stored = '''' then go_err ''unknown or incomplete challenge''
          else bindE (stored_spend X op digest stored) (\<lambda>ptx.
          bindE (finalized_spend X op ptx) (\<lambda>t.
          bindE (Serialize t) (\<lambda>raw. Inr (raw, hash_String (TxHash (sl_L X) t)))))))"

subsection \<open>Dispatching it\<close>

definition publishResult_of :: "svc_lib \<Rightarrow> svc_env \<Rightarrow> service \<Rightarrow> string \<Rightarrow> int \<Rightarrow> publishResult res" where
  "publishResult_of X E s txid conf =
     bindE (fst (Status X E s)) (\<lambda>st.
     Inr \<lparr>pb_Txid = txid, pb_Confirmations = conf, pb_PeriodSpent = st_PeriodSpent st, pb_PeriodRemaining = st_PeriodRemaining st\<rparr>)"

definition looked_up ::
  "svc_lib \<Rightarrow> svc_env \<Rightarrow> service \<Rightarrow> 'n node \<Rightarrow> string \<Rightarrow> 'n \<Rightarrow> publishResult res \<Rightarrow> publishResult res \<times> 'n" where
  "looked_up X E s N txid n otherwise =
     (case nd_Lookup N txid n of
        (Inl e, n) \<Rightarrow> (Inl e, n)
      | (Inr (conf, found), n) \<Rightarrow> (if found then publishResult_of X E s txid conf else otherwise, n))"

definition dispatchPublication ::
  "svc_lib \<Rightarrow> svc_env \<Rightarrow> service \<Rightarrow> 'n node option \<Rightarrow> bytes \<Rightarrow> string \<Rightarrow> 'n \<Rightarrow> publishResult res \<times> 'n \<times> bytes list" where
  "dispatchPublication X E s node raw txid n =
     (case node of None \<Rightarrow> (go_err ''publisher not configured'', n, [])
      | Some N \<Rightarrow>
        if txid = '''' then (go_err ''txid required'', n, [])
        else (case nd_Lookup N txid n of
            (Inl e, n) \<Rightarrow> (Inl e, n, [])
          | (Inr (conf, True), n) \<Rightarrow> (publishResult_of X E s txid conf, n, [])
          | (Inr (conf, False), n) \<Rightarrow>
            (case nd_Broadcast N raw n of
               (Inl e, n) \<Rightarrow> (case looked_up X E s N txid n (Inl e) of (r, n) \<Rightarrow> (r, n, [raw]))
             | (Inr got, n) \<Rightarrow>
                 if got = '''' then (go_err ''empty returned txid'', n, [raw])
                 else if got \<noteq> txid then (go_err ''returned txid mismatch'', n, [raw])
                 else (case looked_up X E s N txid n (go_err ''unpublished'') of (r, n) \<Rightarrow> (r, n, [raw])))))"

definition Publish ::
  "svc_lib \<Rightarrow> svc_env \<Rightarrow> (msgtx \<Rightarrow> bytes res) \<Rightarrow> 'n node option \<Rightarrow> string \<Rightarrow> service \<Rightarrow> 'n \<Rightarrow>
   publishResult res \<times> service \<times> 'n \<times> bytes list" where
  "Publish X E Serialize node challengeHex s n =
     (case attachLedgerIntegrity X s of Inl e \<Rightarrow> (Inl e, s, n, [])
      | Inr s \<Rightarrow> (case preparePublication X Serialize s challengeHex of
          Inl e \<Rightarrow> (Inl e, s, n, [])
        | Inr (raw, txid) \<Rightarrow> (case dispatchPublication X E s node raw txid n of (r, n, sent) \<Rightarrow> (r, s, n, sent))))"

definition PublicationStatus ::
  "svc_lib \<Rightarrow> svc_env \<Rightarrow> (msgtx \<Rightarrow> bytes res) \<Rightarrow> 'n node option \<Rightarrow> string \<Rightarrow> service \<Rightarrow> 'n \<Rightarrow> publishResult res \<times> service \<times> 'n" where
  "PublicationStatus X E Serialize node challengeHex s n =
     (case attachLedgerIntegrity X s of Inl e \<Rightarrow> (Inl e, s, n)
      | Inr s \<Rightarrow> (case preparePublication X Serialize s challengeHex of
          Inl e \<Rightarrow> (Inl e, s, n)
        | Inr (_, txid) \<Rightarrow> (case node of None \<Rightarrow> (go_err ''publisher not configured'', s, n)
          | Some N \<Rightarrow> (case looked_up X E s N txid n (go_err ''unpublished'') of (r, n) \<Rightarrow> (r, s, n)))))"

subsection \<open>The Bitcoin node\<close>

text \<open>NodeBroadcaster over the three calls of the chain interface.\<close>

record 'n chain =
  ch_TestMempoolAccept :: "bytes \<Rightarrow> 'n \<Rightarrow> (bool \<times> string) res \<times> 'n"
  ch_SendRawTransaction :: "bytes \<Rightarrow> 'n \<Rightarrow> string res \<times> 'n"
  ch_LookupTx :: "string \<Rightarrow> 'n \<Rightarrow> (int \<times> bool) res \<times> 'n"

definition containsAny :: "string \<Rightarrow> string list \<Rightarrow> bool" where
  "containsAny s parts = list_ex (\<lambda>p. sublist (ToLower p) (ToLower s)) parts"

definition alreadyPublished :: "string \<Rightarrow> bool" where
  "alreadyPublished reason =
     containsAny reason [''txn-already-in-mempool'', ''txn-already-known'', ''already in block'']"

definition rawTxid :: "svc_lib \<Rightarrow> bytes \<Rightarrow> string option" where
  "rawTxid X raw = map_option (\<lambda>t. hash_String (TxHash (sl_L X) t)) (DeserializeTx X raw)"

definition NodeBroadcaster_Broadcast :: "svc_lib \<Rightarrow> 'n chain option \<Rightarrow> bytes \<Rightarrow> 'n \<Rightarrow> string res \<times> 'n" where
  "NodeBroadcaster_Broadcast X chain rawTx n =
     (case chain of None \<Rightarrow> (go_err ''publisher not configured'', n)
      | Some C \<Rightarrow> (case ch_TestMempoolAccept C rawTx n of
          (Inl e, n) \<Rightarrow> (Inl e, n)
        | (Inr (ok, reason), n) \<Rightarrow>
          if \<not> ok then
            (case rawTxid X rawTx of
               Some txid \<Rightarrow> if alreadyPublished reason then (Inr txid, n) else (go_err ''mempool rejected'', n)
             | None \<Rightarrow> (go_err ''mempool rejected'', n))
          else (case ch_SendRawTransaction C rawTx n of
              (Inl e, n) \<Rightarrow> (Inl e, n)
            | (Inr sent, n) \<Rightarrow> if sent = '''' then (go_err ''empty returned txid'', n) else (Inr sent, n))))"

definition NodeBroadcaster_Lookup :: "'n chain option \<Rightarrow> string \<Rightarrow> 'n \<Rightarrow> (int \<times> bool) res \<times> 'n" where
  "NodeBroadcaster_Lookup chain txid n =
     (case chain of None \<Rightarrow> (go_err ''publisher not configured'', n) | Some C \<Rightarrow> ch_LookupTx C txid n)"

definition node_of_chain :: "svc_lib \<Rightarrow> 'n chain \<Rightarrow> 'n node" where
  "node_of_chain X C = \<lparr>nd_Lookup = NodeBroadcaster_Lookup (Some C), nd_Broadcast = NodeBroadcaster_Broadcast X (Some C)\<rparr>"

end
