(* ===== verification/VaultTxProps.thy ===== *)
theory VaultTxProps
imports VaultTx VaultLedgerProps "HOL-Library.Multiset"
begin

text \<open>Properties of the spends of a vault: who has to sign before a final witness is written, and what
a built spend pays.\<close>

subsection \<open>Who has to sign\<close>

text \<open>A signature of a key over a digest, with the leaf hash and sighash type the input wants.\<close>

definition leaf_signed :: "lib \<Rightarrow> bytes \<Rightarrow> leaf \<Rightarrow> point \<Rightarrow> spend_sig \<Rightarrow> bool" where
  "leaf_signed L digest lf key s \<longleftrightarrow>
     ss_XOnlyPubKey s = schnorr_SerializePubKey L key \<and> ss_LeafHash s = leaf_Hash lf \<and> ss_SigHash s = SigHashDefault \<and>
     length (ss_Signature s) = 64 \<and> schnorr_check L digest (ss_Signature s) (schnorr_SerializePubKey L key) = Inr ()"

definition three_signed :: "lib \<Rightarrow> bytes \<Rightarrow> leaf \<Rightarrow> point \<Rightarrow> point \<Rightarrow> point \<Rightarrow> spend_sig option list \<Rightarrow> bool" where
  "three_signed L digest lf k1 k2 k3 sigs \<longleftrightarrow>
     (\<exists>a b c. mset sigs = {#Some a, Some b, Some c#} \<and>
        leaf_signed L digest lf k1 a \<and> leaf_signed L digest lf k2 b \<and> leaf_signed L digest lf k3 c)"

lemma mset_three: "mset xs = {#a, b, c#} \<longleftrightarrow> xs \<in> {[a, b, c], [a, c, b], [b, a, c], [b, c, a], [c, a, b], [c, b, a]}"
proof
  assume m: "mset xs = {#a, b, c#}"
  then have "length xs = 3" by (metis size_mset size_add_mset size_empty One_nat_def numeral_3_eq_3)
  then obtain x y z where xs: "xs = [x, y, z]" by (auto simp: numeral_3_eq_3 length_Suc_conv)
  then show "xs \<in> {[a, b, c], [a, c, b], [b, a, c], [b, c, a], [c, a, b], [c, b, a]}"
    using m by (auto simp: add_eq_conv_ex)
qed (auto simp: add_mset_commute)

lemma partials_sound:
  assumes "routine_partials wp wv wa h [] \<lparr>phoneSig = None, vaultSig = None, arkadeSig = None\<rparr> sigs
             = Inr \<lparr>phoneSig = Some a, vaultSig = Some b, arkadeSig = Some c\<rparr>" "length sigs = 3"
  shows "mset sigs = {#Some a, Some b, Some c#} \<and> ss_XOnlyPubKey a = wp \<and> ss_XOnlyPubKey b = wv \<and> ss_XOnlyPubKey c = wa \<and>
    (\<forall>s\<in>{a, b, c}. ss_LeafHash s = h \<and> ss_SigHash s = SigHashDefault)"
proof -
  obtain x y z where s: "sigs = [x, y, z]" using assms(2) by (auto simp: numeral_3_eq_3 length_Suc_conv)
  then obtain x' y' z' where "sigs = [Some x', Some y', Some z']"
    using assms(1) by (cases x; cases y; cases z) (auto simp: Let_def bindE_Inr_iff split: if_splits)
  then show ?thesis using assms(1)
    by (auto simp: Let_def bindE_Inr_iff add_mset_commute split: if_splits)
qed

lemma partials_complete:
  assumes "mset sigs = {#Some a, Some b, Some c#}" "ss_XOnlyPubKey a = wp" "ss_XOnlyPubKey b = wv" "ss_XOnlyPubKey c = wa"
    "\<forall>s\<in>{a, b, c}. ss_LeafHash s = h \<and> ss_SigHash s = SigHashDefault" "distinct [wp, wv, wa]"
  shows "routine_partials wp wv wa h [] \<lparr>phoneSig = None, vaultSig = None, arkadeSig = None\<rparr> sigs
           = Inr \<lparr>phoneSig = Some a, vaultSig = Some b, arkadeSig = Some c\<rparr>"
  using assms(1) unfolding mset_three using assms(2-) by (auto simp: Let_def)

lemma verifySchnorrTapSig_iff:
  assumes "UnsignedTx p = Some t" "pk_Inputs p = [inp]" "WitnessUtxo inp = Some prev"
    and "tapscript_digest L B t prev (NewBaseTapLeaf scr) = Inr digest"
  shows "verifySchnorrTapSig L B p s key scr = Inr () \<longleftrightarrow> length (ss_Signature s) = 64 \<and> schnorr_check L digest (ss_Signature s) key = Inr ()"
  using assms by (simp add: verifySchnorrTapSig_def at_idx_def)

lemma verifySchnorrTapSig_digest:
  assumes "verifySchnorrTapSig L B p s key scr = Inr ()" "UnsignedTx p = Some t" "pk_Inputs p = [inp]" "WitnessUtxo inp = Some prev"
  shows "\<exists>digest. tapscript_digest L B t prev (NewBaseTapLeaf scr) = Inr digest"
  using assms by (auto simp: verifySchnorrTapSig_def at_idx_def bindE_Inr_iff split: if_splits)

lemma partials_result:
  assumes "routine_partials wp wv wa h seen q sigs = Inr p'"
  shows "None \<notin> set sigs"
  using assms by (induction wp wv wa h seen q sigs rule: routine_partials.induct) (auto simp: Let_def bindE_Inr_iff split: if_splits)

lemma routine_partials_iff:
  assumes v: "lv_Routine (bt_Leaves v) = Some routine" "PhoneRoutineBIP340 (bt_Record v) = Some phone"
      "TweakedVaultCosigner v = Some tv" "TweakedArkadeCosigner v = Some ta"
    and keys: "distinct (map (schnorr_SerializePubKey L) [phone, tv, ta])"
    and p: "UnsignedTx p = Some t" "pk_Inputs p = [inp]" "length (TxIn t) = 1"
  shows "verifyRoutinePartials L B (Some p) (Some v) = Inr () \<longleftrightarrow>
    (\<exists>prev digest. WitnessUtxo inp = Some prev \<and> FinalScriptWitness inp = [] \<and> FinalScriptSig inp = [] \<and>
       TaprootLeafScript inp = leaf_field routine \<and>
       tapscript_digest L B t prev (NewBaseTapLeaf (lf_Script routine)) = Inr digest \<and>
       three_signed L digest routine phone tv ta (TaprootScriptSpendSig inp))" (is "?v \<longleftrightarrow> ?r")
proof
  assume ver: ?v
  then obtain prev lf a b c where i: "WitnessUtxo inp = Some prev" "FinalScriptWitness inp = []" "FinalScriptSig inp = []"
      "TaprootLeafScript inp = [Some lf]" "tls_Script lf = lf_Script routine" "ControlBlock lf = lf_ControlBlock routine"
      "tls_LeafVersion lf = BaseLeafVersion" "length (TaprootScriptSpendSig inp) = 3"
    and run: "routine_partials (schnorr_SerializePubKey L phone) (schnorr_SerializePubKey L tv) (schnorr_SerializePubKey L ta)
        (leaf_Hash routine) [] \<lparr>phoneSig = None, vaultSig = None, arkadeSig = None\<rparr> (TaprootScriptSpendSig inp)
        = Inr \<lparr>phoneSig = Some a, vaultSig = Some b, arkadeSig = Some c\<rparr>"
    and sg: "verifySchnorrTapSig L B p a (schnorr_SerializePubKey L phone) (lf_Script routine) = Inr ()"
      "verifySchnorrTapSig L B p b (schnorr_SerializePubKey L tv) (lf_Script routine) = Inr ()"
      "verifySchnorrTapSig L B p c (schnorr_SerializePubKey L ta) (lf_Script routine) = Inr ()"
    using v p unfolding verifyRoutinePartials_def
    by (auto simp: Let_def bindE_Inr_iff split: if_splits list.splits option.splits)
      (metis partials.surjective old.unit.exhaust)
  obtain digest where d: "tapscript_digest L B t prev (NewBaseTapLeaf (lf_Script routine)) = Inr digest"
    using verifySchnorrTapSig_digest[OF sg(1) p(1,2) i(1)] by blast
  have "lf = \<lparr>ControlBlock = lf_ControlBlock routine, tls_Script = lf_Script routine, tls_LeafVersion = BaseLeafVersion\<rparr>"
    using i(5-7) by (cases lf) simp
  moreover have "three_signed L digest routine phone tv ta (TaprootScriptSpendSig inp)"
    using partials_sound[OF run i(8)] sg unfolding verifySchnorrTapSig_iff[OF p(1,2) i(1) d] three_signed_def leaf_signed_def by blast
  ultimately show ?r using i(1-4) d by (simp add: leaf_field_def)
next
  assume ?r
  then obtain prev digest a b c where i: "WitnessUtxo inp = Some prev" "FinalScriptWitness inp = []" "FinalScriptSig inp = []"
      "TaprootLeafScript inp = leaf_field routine" "mset (TaprootScriptSpendSig inp) = {#Some a, Some b, Some c#}"
    and d: "tapscript_digest L B t prev (NewBaseTapLeaf (lf_Script routine)) = Inr digest"
    and s: "leaf_signed L digest routine phone a" "leaf_signed L digest routine tv b" "leaf_signed L digest routine ta c"
    by (auto simp: three_signed_def)
  have "length (TaprootScriptSpendSig inp) = 3" using arg_cong[OF i(5), of size] by simp
  then show ?v
    using v p i(1-4) s verifySchnorrTapSig_iff[OF p(1,2) i(1) d]
      partials_complete[OF i(5), of "schnorr_SerializePubKey L phone" "schnorr_SerializePubKey L tv" "schnorr_SerializePubKey L ta" "leaf_Hash routine"] keys
    by (simp add: verifyRoutinePartials_def leaf_field_def leaf_signed_def bindE_Inr_iff)
qed

text \<open>C4: The last signature gate of a routine spend: for a vault whose phone and tweaked cosigner keys
are three different x-only keys, FinalizeRoutine succeeds on a one-input packet exactly when the
input carries no final script yet, commits to the routine leaf, and its taproot signatures are, in
some order, one 64-byte default-sighash signature of each of the three keys, valid over the BIP-342
digest of this transaction and leaf; then the witness written is the one the leaf's closure
assembles from these signatures, and nothing else of the packet changes.\<close>

theorem final_routine_witness_exact:
  assumes v: "lv_Routine (bt_Leaves v) = Some routine" "PhoneRoutineBIP340 (bt_Record v) = Some phone"
      "TweakedVaultCosigner v = Some tv" "TweakedArkadeCosigner v = Some ta"
    and keys: "distinct (map (schnorr_SerializePubKey L) [phone, tv, ta])"
    and p: "UnsignedTx p = Some t" "pk_Inputs p = [inp]" "length (TxIn t) = 1"
  shows "FinalizeRoutine L B (Some p) (Some v) = Inr q \<longleftrightarrow>
    (\<exists>prev digest sigs wit. WitnessUtxo inp = Some prev \<and> FinalScriptWitness inp = [] \<and> FinalScriptSig inp = [] \<and>
       TaprootLeafScript inp = leaf_field routine \<and>
       tapscript_digest L B t prev (NewBaseTapLeaf (lf_Script routine)) = Inr digest \<and>
       three_signed L digest routine phone tv ta (TaprootScriptSpendSig inp) \<and>
       sigs_by_key Map.empty (TaprootScriptSpendSig inp) = Inr sigs \<and>
       closure_Witness B (leaf_Closure routine) (lf_ControlBlock routine) sigs = Inr wit \<and>
       q = p\<lparr>pk_Inputs := [inp\<lparr>FinalScriptWitness := WriteTxWitness L wit\<rparr>]\<rparr>)"
proof -
  have "FinalizeRoutine L B (Some p) (Some v) = Inr q \<longleftrightarrow> verifyRoutinePartials L B (Some p) (Some v) = Inr () \<and>
    (\<exists>sigs wit. sigs_by_key Map.empty (TaprootScriptSpendSig inp) = Inr sigs \<and>
       closure_Witness B (leaf_Closure routine) (lf_ControlBlock routine) sigs = Inr wit \<and>
       q = p\<lparr>pk_Inputs := [inp\<lparr>FinalScriptWitness := WriteTxWitness L wit\<rparr>]\<rparr>)"
    using v p by (auto simp: FinalizeRoutine_def writeFinalWitness_def set_input0_def bindE_Inr_iff)
  then show ?thesis unfolding routine_partials_iff[OF assms] by blast
qed

subsection \<open>A concrete spend\<close>

definition ex_closure_witness :: "tree_closure \<Rightarrow> bytes \<Rightarrow> (string \<rightharpoonup> bytes) \<Rightarrow> bytes list res" where
  "ex_closure_witness c cb m =
     (case c of T_Multisig ks \<Rightarrow>
        Inr (map (\<lambda>k. case m (hex_EncodeToString (le_fixed 32 (fst (the k)))) of None \<Rightarrow> [] | Some s \<Rightarrow> s) (rev ks) @ [cb])
      | _ \<Rightarrow> go_err ''closure'')"

definition ex_psbt_lib :: psbt_lib where
  "ex_psbt_lib = \<lparr>
     NewFromUnsignedTx = (\<lambda>t. Inr \<lparr>UnsignedTx = Some t, pk_Inputs = map (\<lambda>i. \<lparr>WitnessUtxo = None, SighashType = 0, TaprootLeafScript = [],
       TaprootScriptSpendSig = [], FinalScriptWitness = [], FinalScriptSig = [], Unknowns = []\<rparr>) (TxIn t)\<rparr>),
     SetPrevoutTxField = (\<lambda>t u. Inr (u @ [([1], concat (map PkScript (TxOut t)))])),
     GetPrevoutTxFields = (\<lambda>u. Inr (map (\<lambda>(k, s). \<lparr>tx_version = 2, TxIn = [], TxOut = [\<lparr>out_value = 10000, PkScript = s\<rparr>], LockTime = 0\<rparr>) u)),
     ext_TxOut = (\<lambda>e. bindE (ex_ext_write e) (\<lambda>s. Inr \<lparr>out_value = 0, PkScript = s\<rparr>)),
     CalcTapscriptSignaturehash = (\<lambda>s h t i f lf. Inr (ex_digest 32 (ex_fold 7 (leaf_Script lf)) (concat (map PkScript (TxOut t))))),
     RawTxInTapscriptSignature = (\<lambda>t s i v pk lf h k. Inr (le_fixed 32 k @ ex_digest 32 (ex_fold 7 (leaf_Script lf)) (concat (map PkScript (TxOut t))))),
     closure_Witness = ex_closure_witness,
     StandardExecute = (\<lambda>pk t s v f. Inr ()),
     BIP68Sequence = (\<lambda>l. Inr (lt_Value l))\<rparr>"

definition ex_leaf_of :: "string \<Rightarrow> point list \<Rightarrow> leaf" where
  "ex_leaf_of n ks = \<lparr>leaf_Name = n, leaf_Closure = T_Multisig (map Some ks), lf_Script = concat (map (\<lambda>k. le_fixed 32 (fst k)) ks),
     lf_ControlBlock = replicate 65 3, leaf_Hash = ex_digest 32 9 (concat (map (\<lambda>k. le_fixed 32 (fst k)) ks))\<rparr>"

definition ex_spent_vault :: built where
  "ex_spent_vault = \<lparr>bt_Record = ex_record, bt_Tree = [], bt_TapKey = (7, 0), bt_PkScript = 0x51 # 32 # replicate 32 7, bt_Address = ''vault'',
     bt_Leaves = \<lparr>lv_Routine = Some (ex_leaf_of ''routine'' [(10, 0), (41, 0), (51, 0)]),
       lv_Admin = Some (ex_leaf_of ''admin'' [(20, 0), (30, 0)]), lv_Recovery = Some (ex_leaf_of ''recovery'' [(30, 0)])\<rparr>,
     TweakedVaultCosigner = Some (41, 0), TweakedArkadeCosigner = Some (51, 0)\<rparr>"

definition ex_prevtx :: msgtx where
  "ex_prevtx = \<lparr>tx_version = 2, TxIn = [], TxOut = [\<lparr>out_value = 10000, PkScript = bt_PkScript ex_spent_vault\<rparr>], LockTime = 0\<rparr>"

definition ex_spent_op :: outpoint where
  "ex_spent_op = \<lparr>op_hash = TxHash ex_lib ex_prevtx, op_index = 0\<rparr>"

definition ex_unsigned :: msgtx where
  "ex_unsigned = one_input_tx ex_spent_op 0xffffffff [\<lparr>out_value = 9000, PkScript = [0, 20] @ replicate 20 5\<rparr>]"

text \<open>The signature of a key over the digest of this transaction under a leaf.\<close>

definition ex_sign :: "leaf \<Rightarrow> nat \<Rightarrow> spend_sig" where
  "ex_sign lf k = \<lparr>ss_XOnlyPubKey = le_fixed 32 k, ss_LeafHash = leaf_Hash lf,
     ss_Signature = le_fixed 32 k @ ex_digest 32 (ex_fold 7 (lf_Script lf)) (concat (map PkScript (TxOut ex_unsigned))), ss_SigHash = SigHashDefault\<rparr>"

definition ex_input :: "leaf \<Rightarrow> nat list \<Rightarrow> psbt_input" where
  "ex_input lf ks = \<lparr>WitnessUtxo = Some (TxOut ex_prevtx ! 0), SighashType = 0, TaprootLeafScript = leaf_field lf,
     TaprootScriptSpendSig = map (Some \<circ> ex_sign lf) ks, FinalScriptWitness = [], FinalScriptSig = [],
     Unknowns = [([1], bt_PkScript ex_spent_vault)]\<rparr>"

definition ex_psbt :: "leaf \<Rightarrow> nat list \<Rightarrow> psbt" where
  "ex_psbt lf ks = \<lparr>UnsignedTx = Some ex_unsigned, pk_Inputs = [ex_input lf ks]\<rparr>"

lemma ex_digest_of:
  "tapscript_digest ex_lib ex_psbt_lib ex_unsigned prev (NewBaseTapLeaf scr)
     = Inr (ex_digest 32 (ex_fold 7 scr) (concat (map PkScript (TxOut ex_unsigned))))"
  by (simp add: tapscript_digest_def at_idx_def ex_unsigned_def one_input_tx_def ex_psbt_lib_def NewBaseTapLeaf_def Let_def)

lemma ex_sign_ok:
  assumes "k < 2 ^ 256"
  shows "leaf_signed ex_lib (ex_digest 32 (ex_fold 7 (lf_Script lf)) (concat (map PkScript (TxOut ex_unsigned)))) lf (k, y) (ex_sign lf k)"
proof -
  have "k mod 256 ^ 32 = k" using assms by simp
  then show ?thesis
    by (simp add: leaf_signed_def ex_sign_def schnorr_check_def Let_def del: power_numeral)
qed

lemma ex_sigs_by_key: "\<exists>m. sigs_by_key Map.empty (map (Some \<circ> ex_sign lf) ks) = Inr m"
proof -
  have "\<exists>m. sigs_by_key m0 (map (Some \<circ> ex_sign lf) ks) = Inr m" for m0
    by (induction ks arbitrary: m0) auto
  then show ?thesis .
qed

theorem final_routine_witness_exact_witness:
  "\<exists>q. FinalizeRoutine ex_lib ex_psbt_lib (Some (ex_psbt (ex_leaf_of ''routine'' [(10, 0), (41, 0), (51, 0)]) [51, 10, 41])) (Some ex_spent_vault) = Inr q"
proof -
  let ?lf = "ex_leaf_of ''routine'' [(10, 0), (41, 0), (51, 0)]"
  have v: "lv_Routine (bt_Leaves ex_spent_vault) = Some ?lf" "PhoneRoutineBIP340 (bt_Record ex_spent_vault) = Some (10, 0)"
    "TweakedVaultCosigner ex_spent_vault = Some (41, 0)" "TweakedArkadeCosigner ex_spent_vault = Some (51, 0)"
    by (simp_all add: ex_spent_vault_def ex_record_def)
  have keys: "distinct (map (schnorr_SerializePubKey ex_lib) [(10, 0), (41, 0), (51, 0)])"
    by (simp add: le_fixed_eq_iff)
  have p: "UnsignedTx (ex_psbt ?lf [51, 10, 41]) = Some ex_unsigned" "pk_Inputs (ex_psbt ?lf [51, 10, 41]) = [ex_input ?lf [51, 10, 41]]"
    "length (TxIn ex_unsigned) = 1"
    by (simp_all add: ex_psbt_def ex_unsigned_def one_input_tx_def)
  have "three_signed ex_lib (ex_digest 32 (ex_fold 7 (lf_Script ?lf)) (concat (map PkScript (TxOut ex_unsigned)))) ?lf (10, 0) (41, 0) (51, 0)
      (map (Some \<circ> ex_sign ?lf) [51, 10, 41])"
    using ex_sign_ok[of 10 ?lf 0] ex_sign_ok[of 41 ?lf 0] ex_sign_ok[of 51 ?lf 0] unfolding three_signed_def
    by (intro exI[of _ "ex_sign ?lf 10"] exI[of _ "ex_sign ?lf 41"] exI[of _ "ex_sign ?lf 51"]) (simp add: add_mset_commute)
  moreover obtain m where "sigs_by_key Map.empty (map (Some \<circ> ex_sign ?lf) [51, 10, 41]) = Inr m" using ex_sigs_by_key by blast
  moreover have "\<exists>w. closure_Witness ex_psbt_lib (leaf_Closure ?lf) (lf_ControlBlock ?lf) m = Inr w"
    by (simp add: ex_psbt_lib_def ex_closure_witness_def ex_leaf_of_def)
  ultimately show ?thesis
    using ex_digest_of unfolding final_routine_witness_exact[OF v keys p] by (simp add: ex_input_def)
qed

subsection \<open>The admin path\<close>

text \<open>What the two checks of a previous output establish.\<close>

lemma RequireVerifiedPrevout_sound:
  assumes "RequireVerifiedPrevout L B (Some p) = Inr prevTx"
  shows "\<exists>t i inp. UnsignedTx p = Some t \<and> TxIn t = [i] \<and> pk_Inputs p = [inp] \<and>
    GetPrevoutTxFields B (Unknowns inp) = Inr [prevTx] \<and> TxHash L prevTx = op_hash (PreviousOutPoint i) \<and>
    unat (op_index (PreviousOutPoint i)) < length (TxOut prevTx) \<and>
    WitnessUtxo inp = Some (TxOut prevTx ! unat (op_index (PreviousOutPoint i)))"
proof -
  obtain t inp got where p: "UnsignedTx p = Some t" "pk_Inputs p = [inp]" "length (TxIn t) = 1" "WitnessUtxo inp = Some got"
    using assms unfolding RequireVerifiedPrevout_def
    by (cases "UnsignedTx p"; cases "pk_Inputs p"; cases "tl (pk_Inputs p)") (auto split: if_splits option.splits)
  then obtain i where i: "TxIn t = [i]" by (auto simp: length_Suc_conv)
  obtain fields where f: "GetPrevoutTxFields B (Unknowns inp) = Inr fields"
    using assms p by (auto simp: RequireVerifiedPrevout_def bindE_Inr_iff)
  then obtain prev where "fields = [prev]"
    using assms p by (auto simp: RequireVerifiedPrevout_def split: list.splits)
  with f show ?thesis using assms p i
    by (auto simp: RequireVerifiedPrevout_def Let_def split: if_splits intro!: txout.equality)
qed

lemma checkedPrevout_sound:
  assumes "checkedPrevout L v prevTx op = Inr prev"
  shows "\<exists>w t. v = Some w \<and> prevTx = Some t \<and> TxHash L t = op_hash op \<and> unat (op_index op) < length (TxOut t) \<and>
    prev = TxOut t ! unat (op_index op) \<and> PkScript prev = bt_PkScript w \<and> 0 \<le> sint (out_value prev) \<and> sint (out_value prev) \<le> MaxSatoshi"
  using assms by (auto simp: checkedPrevout_def requireSats_def bindE_Inr_iff Let_def word_sless_alt split: if_splits option.splits)

lemma exact_partials_sound:
  assumes "exact_partials L B p lf want seen sigs = Inr seen'"
  shows "\<exists>ss. sigs = map Some ss \<and> length seen' = length seen + length ss \<and>
    distinct (map ss_XOnlyPubKey ss) \<and> set (map ss_XOnlyPubKey ss) \<subseteq> set want - set seen \<and>
    list_all (\<lambda>s. ss_SigHash s = SigHashDefault \<and> ss_LeafHash s = leaf_Hash lf \<and>
      verifySchnorrTapSig L B p s (ss_XOnlyPubKey s) (lf_Script lf) = Inr ()) ss"
  using assms
proof (induction L B p lf want seen sigs rule: exact_partials.induct)
  case (3 L B p lf want seen s sigs)
  then obtain ss where ss: "sigs = map Some ss" "length seen' = length (ss_XOnlyPubKey s # seen) + length ss"
      "distinct (map ss_XOnlyPubKey ss)" "set (map ss_XOnlyPubKey ss) \<subseteq> set want - set (ss_XOnlyPubKey s # seen)"
      "list_all (\<lambda>s. ss_SigHash s = SigHashDefault \<and> ss_LeafHash s = leaf_Hash lf \<and>
         verifySchnorrTapSig L B p s (ss_XOnlyPubKey s) (lf_Script lf) = Inr ()) ss"
    by (auto simp: bindE_Inr_iff split: if_splits)
  then show ?case using 3(2) by (intro exI[of _ "s # ss"]) (auto simp: bindE_Inr_iff split: if_splits)
qed auto

lemma two_signed:
  assumes "distinct (map f [x, y])" "set (map f [x, y]) \<subseteq> {a, b}" "a \<noteq> b"
  shows "(f x = a \<and> f y = b) \<or> (f x = b \<and> f y = a)"
  using assms by auto

lemma exact_leaf_sound:
  assumes "verifyExactLeafPartials L B (Some p) (Some lf) [Some k1, Some k2] = Inr ()"
  shows "\<exists>t inp prev digest a b. UnsignedTx p = Some t \<and> pk_Inputs p = [inp] \<and> length (TxIn t) = 1 \<and>
    WitnessUtxo inp = Some prev \<and> FinalScriptWitness inp = [] \<and> FinalScriptSig inp = [] \<and> TaprootLeafScript inp = leaf_field lf \<and>
    tapscript_digest L B t prev (NewBaseTapLeaf (lf_Script lf)) = Inr digest \<and>
    mset (TaprootScriptSpendSig inp) = {#Some a, Some b#} \<and> leaf_signed L digest lf k1 a \<and> leaf_signed L digest lf k2 b \<and>
    schnorr_SerializePubKey L k1 \<noteq> schnorr_SerializePubKey L k2"
proof -
  obtain t inp prev g seen where i: "UnsignedTx p = Some t" "pk_Inputs p = [inp]" "length (TxIn t) = 1" "WitnessUtxo inp = Some prev"
      "FinalScriptWitness inp = []" "FinalScriptSig inp = []" "TaprootLeafScript inp = [Some g]"
      "g = \<lparr>ControlBlock = lf_ControlBlock lf, tls_Script = lf_Script lf, tls_LeafVersion = BaseLeafVersion\<rparr>"
      "length (TaprootScriptSpendSig inp) = 2" "length seen = 2"
    and run: "exact_partials L B p lf (map (schnorr_SerializePubKey L) [k1, k2]) [] (TaprootScriptSpendSig inp) = Inr seen"
    using assms unfolding verifyExactLeafPartials_def
    by (auto simp: Let_def bindE_Inr_iff length_Suc_conv numeral_2_eq_2 split: if_splits list.splits option.splits)
      (metis tapLeafScript.surjective old.unit.exhaust)
  obtain ss where ss: "TaprootScriptSpendSig inp = map Some ss" "distinct (map ss_XOnlyPubKey ss)"
      "set (map ss_XOnlyPubKey ss) \<subseteq> {schnorr_SerializePubKey L k1, schnorr_SerializePubKey L k2}"
      "list_all (\<lambda>s. ss_SigHash s = SigHashDefault \<and> ss_LeafHash s = leaf_Hash lf \<and>
         verifySchnorrTapSig L B p s (ss_XOnlyPubKey s) (lf_Script lf) = Inr ()) ss"
    using exact_partials_sound[OF run] by auto
  obtain x y where xy: "ss = [x, y]" using ss(1) i(9) by (auto simp: numeral_2_eq_2 length_Suc_conv)
  then have ne: "schnorr_SerializePubKey L k1 \<noteq> schnorr_SerializePubKey L k2" using ss(2,3) by auto
  obtain digest where d: "tapscript_digest L B t prev (NewBaseTapLeaf (lf_Script lf)) = Inr digest"
    using ss(4) xy verifySchnorrTapSig_digest[OF _ i(1,2,4), of L B x "ss_XOnlyPubKey x" "lf_Script lf"] by auto
  have sg: "leaf_signed L digest lf k s" if "s \<in> {x, y}" "ss_XOnlyPubKey s = schnorr_SerializePubKey L k" for s k
    using that ss(4) xy by (auto simp: verifySchnorrTapSig_iff[OF i(1,2,4) d] leaf_signed_def)
  have "\<exists>a b. {#Some x, Some y#} = {#Some a, Some b#} \<and> leaf_signed L digest lf k1 a \<and> leaf_signed L digest lf k2 b"
    using two_signed[OF ss(2,3)[unfolded xy] ne] sg
    by (elim disjE) (blast, metis add_mset_commute insertCI)
  then show ?thesis using i d ne ss(1) xy by (auto simp: leaf_field_def)
qed

text \<open>C37: An admin spend is finalized only for the coin of this vault and only with both admin keys:
when FinalizeAdmin succeeds, the one input spends an output of a transaction with the hash it
names, that output pays the vault's script an amount in the money range and is the witness UTXO
the digest commits to, the two taproot signatures are one of the external owner wallet and one of
the recovery key - different keys - valid over the digest of the transaction under the admin
leaf, and the witness is the one the admin closure assembles.\<close>

theorem admin_witness_authorized:
  assumes "FinalizeAdmin L B (Some p) (Some v) = Inr q"
  shows "\<exists>admin owner recovery t i inp prevTx prev digest a b sigs wit.
    lv_Admin (bt_Leaves v) = Some admin \<and> ExternalOwnerWallet (bt_Record v) = Some owner \<and> RecoveryKey (bt_Record v) = Some recovery \<and>
    schnorr_SerializePubKey L owner \<noteq> schnorr_SerializePubKey L recovery \<and>
    UnsignedTx p = Some t \<and> TxIn t = [i] \<and> pk_Inputs p = [inp] \<and>
    TxHash L prevTx = op_hash (PreviousOutPoint i) \<and> unat (op_index (PreviousOutPoint i)) < length (TxOut prevTx) \<and>
    prev = TxOut prevTx ! unat (op_index (PreviousOutPoint i)) \<and> PkScript prev = bt_PkScript v \<and>
    0 \<le> sint (out_value prev) \<and> sint (out_value prev) \<le> MaxSatoshi \<and>
    WitnessUtxo inp = Some prev \<and> TaprootLeafScript inp = leaf_field admin \<and>
    tapscript_digest L B t prev (NewBaseTapLeaf (lf_Script admin)) = Inr digest \<and>
    mset (TaprootScriptSpendSig inp) = {#Some a, Some b#} \<and> leaf_signed L digest admin owner a \<and> leaf_signed L digest admin recovery b \<and>
    sigs_by_key Map.empty (TaprootScriptSpendSig inp) = Inr sigs \<and>
    closure_Witness B (leaf_Closure admin) (lf_ControlBlock admin) sigs = Inr wit \<and>
    q = p\<lparr>pk_Inputs := [inp\<lparr>FinalScriptWitness := WriteTxWitness L wit\<rparr>]\<rparr>"
proof -
  obtain admin owner recovery prevTx t0 i0 pr0 where k: "lv_Admin (bt_Leaves v) = Some admin"
      "ExternalOwnerWallet (bt_Record v) = Some owner" "RecoveryKey (bt_Record v) = Some recovery"
    and pv: "RequireVerifiedPrevout L B (Some p) = Inr prevTx" "UnsignedTx p = Some t0" "at_idx (TxIn t0) 0 = Inr i0"
      "checkedPrevout L (Some v) (Some prevTx) (PreviousOutPoint i0) = Inr pr0"
    and ver: "verifyExactLeafPartials L B (Some p) (Some admin) [Some owner, Some recovery] = Inr ()"
    and fin: "writeFinalWitness L B (Some p) (Some admin) = Inr q"
    using assms by (auto simp: FinalizeAdmin_def bindE_Inr_iff split: if_splits option.splits)
  obtain t inp prev digest a b where s: "UnsignedTx p = Some t" "pk_Inputs p = [inp]" "length (TxIn t) = 1"
      "WitnessUtxo inp = Some prev" "TaprootLeafScript inp = leaf_field admin"
      "tapscript_digest L B t prev (NewBaseTapLeaf (lf_Script admin)) = Inr digest"
      "mset (TaprootScriptSpendSig inp) = {#Some a, Some b#}" "leaf_signed L digest admin owner a" "leaf_signed L digest admin recovery b"
      "schnorr_SerializePubKey L owner \<noteq> schnorr_SerializePubKey L recovery"
    using exact_leaf_sound[OF ver] by blast
  obtain i where i: "TxIn t = [i]" using s(3) by (auto simp: length_Suc_conv)
  let ?prev = "TxOut prevTx ! unat (op_index (PreviousOutPoint i))"
  have "prev = ?prev" using RequireVerifiedPrevout_sound[OF pv(1)] s i by auto
  moreover have "TxHash L prevTx = op_hash (PreviousOutPoint i)" "unat (op_index (PreviousOutPoint i)) < length (TxOut prevTx)"
      "PkScript ?prev = bt_PkScript v" "0 \<le> sint (out_value ?prev)" "sint (out_value ?prev) \<le> MaxSatoshi"
    using checkedPrevout_sound[OF pv(4)] pv(2,3) s i by (auto simp: at_idx_def)
  moreover have "\<exists>sigs wit. sigs_by_key Map.empty (TaprootScriptSpendSig inp) = Inr sigs \<and>
    closure_Witness B (leaf_Closure admin) (lf_ControlBlock admin) sigs = Inr wit \<and>
    q = p\<lparr>pk_Inputs := [inp\<lparr>FinalScriptWitness := WriteTxWitness L wit\<rparr>]\<rparr>"
    using fin s by (auto simp: writeFinalWitness_def set_input0_def bindE_Inr_iff)
  ultimately show ?thesis using k s i by blast
qed

lemma ex_admin_finalizes:
  "\<exists>q. FinalizeAdmin ex_lib ex_psbt_lib (Some (ex_psbt (ex_leaf_of ''admin'' [(20, 0), (30, 0)]) [30, 20])) (Some ex_spent_vault) = Inr q"
proof -
  let ?lf = "ex_leaf_of ''admin'' [(20, 0), (30, 0)]"
  let ?p = "ex_psbt ?lf [30, 20]"
  let ?d = "ex_digest 32 (ex_fold 7 (lf_Script ?lf)) (concat (map PkScript (TxOut ex_unsigned)))"
  have p: "UnsignedTx ?p = Some ex_unsigned" "pk_Inputs ?p = [ex_input ?lf [30, 20]]" "WitnessUtxo (ex_input ?lf [30, 20]) = Some (TxOut ex_prevtx ! 0)"
      "TxIn ex_unsigned = [\<lparr>PreviousOutPoint = ex_spent_op, SignatureScript = [], Witness = [], Sequence = 0xffffffff\<rparr>]"
    by (simp_all add: ex_psbt_def ex_input_def ex_unsigned_def one_input_tx_def)
  have v: "lv_Admin (bt_Leaves ex_spent_vault) = Some ?lf" "ExternalOwnerWallet (bt_Record ex_spent_vault) = Some (20, 0)"
      "RecoveryKey (bt_Record ex_spent_vault) = Some (30, 0)"
    by (simp_all add: ex_spent_vault_def ex_record_def)
  have prev: "RequireVerifiedPrevout ex_lib ex_psbt_lib (Some ?p) = Inr ex_prevtx"
    using p by (simp add: RequireVerifiedPrevout_def ex_input_def ex_psbt_lib_def ex_spent_op_def ex_prevtx_def)
  have chk: "checkedPrevout ex_lib (Some ex_spent_vault) (Some ex_prevtx) ex_spent_op = Inr (TxOut ex_prevtx ! 0)"
    by (simp add: checkedPrevout_def ex_spent_op_def ex_prevtx_def requireSats_def MaxSatoshi_def word_sless_alt)
  have sg: "verifySchnorrTapSig ex_lib ex_psbt_lib ?p (ex_sign ?lf k) (le_fixed 32 k) (lf_Script ?lf) = Inr ()" if "k < 2 ^ 256" for k
    using ex_sign_ok[OF that, of ?lf 0] by (simp add: verifySchnorrTapSig_iff[OF p(1-3) ex_digest_of] leaf_signed_def)
  have "exact_partials ex_lib ex_psbt_lib ?p ?lf (map (schnorr_SerializePubKey ex_lib \<circ> the) [Some (20, 0), Some (30, 0)]) []
      [Some (ex_sign ?lf 30), Some (ex_sign ?lf 20)] = Inr [le_fixed 32 20, le_fixed 32 30]"
    using sg[of 30] sg[of 20] by (simp add: ex_sign_def le_fixed_eq_iff)
  then have ver: "verifyExactLeafPartials ex_lib ex_psbt_lib (Some ?p) (Some ?lf) [Some (20, 0), Some (30, 0)] = Inr ()"
    using p by (simp add: verifyExactLeafPartials_def ex_input_def leaf_field_def)
  have "\<exists>q. writeFinalWitness ex_lib ex_psbt_lib (Some ?p) (Some ?lf) = Inr q"
    using p ex_sigs_by_key[of ?lf "[30, 20]"]
    by (auto simp: writeFinalWitness_def set_input0_def ex_input_def ex_psbt_lib_def ex_closure_witness_def ex_leaf_of_def)
  then show ?thesis using v p prev chk ver by (simp add: FinalizeAdmin_def at_idx_def)
qed

theorem admin_witness_authorized_witness:
  "\<exists>a b digest. leaf_signed ex_lib digest (ex_leaf_of ''admin'' [(20, 0), (30, 0)]) (20, 0) a \<and>
     leaf_signed ex_lib digest (ex_leaf_of ''admin'' [(20, 0), (30, 0)]) (30, 0) b"
proof -
  obtain q where q: "FinalizeAdmin ex_lib ex_psbt_lib (Some (ex_psbt (ex_leaf_of ''admin'' [(20, 0), (30, 0)]) [30, 20])) (Some ex_spent_vault) = Inr q"
    using ex_admin_finalizes by blast
  have v: "lv_Admin (bt_Leaves ex_spent_vault) = Some (ex_leaf_of ''admin'' [(20, 0), (30, 0)])"
      "ExternalOwnerWallet (bt_Record ex_spent_vault) = Some (20, 0)" "RecoveryKey (bt_Record ex_spent_vault) = Some (30, 0)"
    by (simp_all add: ex_spent_vault_def ex_record_def)
  show ?thesis using admin_witness_authorized[OF q] unfolding v by blast
qed

subsection \<open>What a built spend pays\<close>

lemma remainingAfter_exact:
  assumes "remainingAfter input amount fee = Inr r"
  shows "sint r = sint input - sint amount - sint fee \<and> 0 \<le> sint r \<and> 0 \<le> sint amount \<and> 0 \<le> sint fee \<and>
    0 \<le> sint input \<and> sint input \<le> MaxSatoshi"
proof -
  have b: "0 \<le> sint input" "sint input \<le> MaxSatoshi" "0 \<le> sint amount" "0 \<le> sint fee"
      "sint amount \<le> sint input" "sint fee \<le> sint (input - amount)" "r = input - amount - fee"
    using assms by (auto simp: remainingAfter_def requireSats_def subSats_def bindE_Inr_iff word_sless_alt split: if_splits)
  have "sint (input - amount) = sint input - sint amount"
    using b by (intro int64_sub) (auto simp: MaxSatoshi_def)
  moreover then have "sint (input - amount - fee) = sint (input - amount) - sint fee"
    using b by (intro int64_sub) (auto simp: MaxSatoshi_def)
  ultimately show ?thesis using b by simp
qed

end
