(* ===== verification/EngineProps.thy ===== *)
theory EngineProps
imports ArkadeScript
begin

text \<open>Properties of the engine as a whole: runs end without a panic, a successful run was bound
to its transaction, and the limits hold in every state of a run.\<close>

subsection \<open>A concrete run\<close>

definition ex_fetcher :: fetcher where
  "ex_fetcher = \<lparr>FetchPrevOutput = (\<lambda>_. Some \<lparr>out_value = 1000, PkScript = []\<rparr>),
     FetchPrevOutArkTx = (\<lambda>_. None), FetchVtxoPrevOutPkScript = (\<lambda>_. None)\<rparr>"

definition ex_script :: ArkadeScript where
  "ex_script = \<lparr>as_script = [0x53], as_hash = [], as_witness = [], as_pubkey = (1, 0),
     spendingTapLeaf = \<lparr>LeafVersion = 0xc0, leaf_Script = [0x51]\<rparr>, closurePubkeys = [(1, 0)],
     packetBound = True, packetVin = 0\<rparr>"

lemma ex_tx_ok: "tx_ok ex_tx"
  by (simp add: tx_ok_def wit_ok_def ex_tx_def ex_in_def)

lemma ex_script_fits: "witness_fits 520 ex_script" "assets_ok ex_lib"
  by (simp_all add: witness_fits_def ex_script_def assets_ok_def)

lemma ex_prevouts: "check_prevouts ex_fetcher (TxIn ex_tx) = Inr ()"
  by (simp add: check_prevouts_iff ex_fetcher_def MaxSatoshi_def)

subsection \<open>Runs end\<close>

lemma prepared_run:
  assumes "lib_ok L" "assets_ok L" "tx_ok t" "witness_fits M s"
  shows "\<exists>r. ArkadeScript_Execute L s (Some t) f idx opts = Some r \<and> r \<noteq> Inl Panic"
proof (cases "idx < 0 \<or> idx \<ge> int (length (TxIn t)) \<or> f = None")
  case True
  then show ?thesis by (cases f) (auto simp: ArkadeScript_Execute_def)
next
  case False
  then obtain f' where f: "f = Some f'" by auto
  show ?thesis
  proof (cases "check_prevouts f' (TxIn t)")
    case (Inl e)
    then have "e \<noteq> Panic" using okE_check_prevouts [of f' "TxIn t"] by auto
    with Inl False f show ?thesis by (simp add: ArkadeScript_Execute_def)
  next
    case (Inr u)
    then have c: "check_prevouts f' (TxIn t) = Inr ()" by simp
    have p: "okE (eng_ok M) (prepare_engine L s t f' idx opts)"
      using prepare_engine_ok [OF assms _ _ c] False by simp
    show ?thesis
    proof (cases "prepare_engine L s t f' idx opts")
      case (Inl e)
      with p c False f show ?thesis by (simp add: ArkadeScript_Execute_def)
    next
      case (Inr vm)
      with p have "eng_ok M vm" by simp
      from Execute_total [OF assms(1) this] c False f Inr show ?thesis
        by (simp add: ArkadeScript_Execute_def)
    qed
  qed
qed

text \<open>C8: Executing an arkade script always returns, and never panics: for any script bytes,
witness and options, any transaction whose outpoint hashes have 32 bytes, any input index
and any prevout fetcher (nil ones included), the run ends with an error value or a result,
as long as the libraries behave as documented and the sizes fit in memory (witness items and
counts below 2 ^ 31).\<close>

theorem arkade_execution_returns:
  assumes "lib_ok L" "assets_ok L" "tx_ok t" "witness_fits M s"
  shows "\<exists>r. ArkadeScript_Execute L s (Some t) f idx opts = Some r \<and> r \<noteq> Inl Panic"
  using prepared_run [OF assms] .

theorem arkade_execution_returns_witness:
  "\<exists>r. ArkadeScript_Execute ex_lib ex_script (Some ex_tx) (Some ex_fetcher) 0 [] = Some r \<and> r \<noteq> Inl Panic"
  by (rule arkade_execution_returns [OF ex_lib_ok ex_script_fits(2) ex_tx_ok ex_script_fits(1)])

subsection \<open>What a successful run has checked\<close>

lemma packetContainsExactEntry_iff:
  "packetContainsExactEntry p v scr w \<longleftrightarrow>
     (\<exists>e \<in> set p. Vin e = v \<and> ent_Script e = scr \<and> ent_Witness e = w)"
proof -
  have "(list_all (\<lambda>i. ent_Witness e ! i = w ! i) [0..<length w] \<and> length (ent_Witness e) = length w) \<longleftrightarrow>
      ent_Witness e = w" for e
    by (auto simp: list_all_iff intro: nth_equalityI)
  then show ?thesis unfolding packetContainsExactEntry_def list_ex_iff by blast
qed

lemma prepare_engine_bound:
  assumes "prepare_engine L s t f idx opts = Inr vm" "packetBound s"
  shows "uint (packetVin s) = idx \<and> (\<exists>p. FindEmulatorPacket L t = Inr (Some p) \<and>
    (\<exists>e \<in> set p. Vin e = packetVin s \<and> ent_Script e = as_script s \<and> ent_Witness e = as_witness s))"
  using assms
  by (auto simp: prepare_engine_def bindE_Inr_iff packetContainsExactEntry_iff Let_def split: if_splits option.splits)

lemma apply_options_version: "version (foldl (\<lambda>e opt. apply_option opt e) vm opts) = version vm"
proof (induction opts arbitrary: vm)
  case (Cons opt opts)
  have "version (apply_option opt vm) = version vm" by (cases "(opt, vm)" rule: apply_option.cases) auto
  with Cons show ?case by simp
qed simp

lemma prepare_engine_version: "prepare_engine L s t f idx opts = Inr vm \<Longrightarrow> version vm = 0"
proof -
  have "version v = 0" if "NewEngine L pk t idx c h a g = Inr v" for pk c h a g v
    using that by (auto simp: NewEngine_def bindE_Inr_iff Let_def split: if_splits prod.splits)
  then show "prepare_engine L s t f idx opts = Inr vm \<Longrightarrow> version vm = 0"
    by (auto simp: prepare_engine_def bindE_Inr_iff Let_def apply_options_version SetAssetPacket_def
        SetEmulatorPacket_def SetStack_def split: if_splits option.splits)
qed

lemma CheckErrorCondition_Inr:
  assumes "CheckErrorCondition True vm = Inr vm'"
  shows "(\<exists>ctx. taprootCtx vm = Some ctx \<and> mustSucceed ctx) \<or>
     (int (length (scripts vm)) \<le> scriptIdx vm \<and> (\<exists>b. stk (dstack vm) = [b] \<and> asBool b) \<and> stk (dstack vm') = [])"
proof (cases "case taprootCtx vm of None \<Rightarrow> False | Some ctx \<Rightarrow> mustSucceed ctx")
  case True
  then show ?thesis by (simp split: option.splits)
next
  case False
  with assms have i: "int (length (scripts vm)) \<le> scriptIdx vm" and d: "length (stk (dstack vm)) = 1"
    by (auto simp: CheckErrorCondition_def Depth_def split: if_splits)
  from d obtain b where b: "stk (dstack vm) = [b]" by (cases "stk (dstack vm)") auto
  with assms False show ?thesis
    by (auto simp: CheckErrorCondition_def Depth_def PopBool_items items_def with_items_def i split: if_splits)
qed

text \<open>C9: A run that succeeds was run on its own transaction: the index is one of its inputs,
every input has a previous output of at most the supply, and the engine stopped past its last script
with a single true item, or after a key spend. If the script is bound to the packet, as every script
that ReadArkadeScript returns is, the emulator packet in the transaction holds the script with
exactly its witness for exactly this input.\<close>

theorem arkade_success_bound_to_tx:
  assumes "ArkadeScript_Execute L s spendingTx prevOuts idx opts = Some (Inr vm)"
  shows "\<exists>t f. spendingTx = Some t \<and> prevOuts = Some f \<and> 0 \<le> idx \<and> idx < int (length (TxIn t)) \<and>
    (\<forall>i \<in> set (TxIn t). \<exists>p. FetchPrevOutput f (PreviousOutPoint i) = Some p \<and>
       0 \<le> sint (out_value p) \<and> sint (out_value p) \<le> MaxSatoshi) \<and>
    (packetBound s \<longrightarrow> uint (packetVin s) = idx \<and> (\<exists>p. FindEmulatorPacket L t = Inr (Some p) \<and>
       (\<exists>e \<in> set p. Vin e = packetVin s \<and> ent_Script e = as_script s \<and> ent_Witness e = as_witness s))) \<and>
    (\<exists>vm1 vm2. prepare_engine L s t f idx opts = Inr vm1 \<and> run_steps L vm1 = Some (Inr vm2) \<and>
       ((\<exists>ctx. taprootCtx vm2 = Some ctx \<and> mustSucceed ctx) \<or>
        (int (length (scripts vm2)) \<le> scriptIdx vm2 \<and> (\<exists>b. stk (dstack vm2) = [b] \<and> asBool b) \<and> stk (dstack vm) = [])))"
proof -
  obtain t where t: "spendingTx = Some t" "0 \<le> idx" "idx < int (length (TxIn t))"
    using assms by (auto simp: ArkadeScript_Execute_def split: option.splits if_splits)
  obtain f where f: "prevOuts = Some f"
    using assms t by (auto simp: ArkadeScript_Execute_def split: option.splits)
  obtain vm1 where p: "check_prevouts f (TxIn t) = Inr ()" "prepare_engine L s t f idx opts = Inr vm1"
      "Execute L vm1 = Some (Inr vm)"
    using assms t f by (auto simp: ArkadeScript_Execute_def bindE_Inr_iff split: sum.splits)
  obtain vm2 where v: "run_steps L vm1 = Some (Inr vm2)" "CheckErrorCondition True vm2 = Inr vm"
    using p(3) prepare_engine_version [OF p(2)] by (auto simp: Execute_def bindE_Inr_iff)
  have "\<exists>vm1 vm2. prepare_engine L s t f idx opts = Inr vm1 \<and> run_steps L vm1 = Some (Inr vm2) \<and>
       ((\<exists>ctx. taprootCtx vm2 = Some ctx \<and> mustSucceed ctx) \<or>
        (int (length (scripts vm2)) \<le> scriptIdx vm2 \<and> (\<exists>b. stk (dstack vm2) = [b] \<and> asBool b) \<and> stk (dstack vm) = []))"
    using p(2) v(1) CheckErrorCondition_Inr [OF v(2)] by blast
  with t f p(1) [unfolded check_prevouts_iff] prepare_engine_bound [OF p(2)]
  show ?thesis by blast
qed

definition ex_vm :: vm where
  "ex_vm = \<lparr>tx = ex_tx, txIdx = 0, version = 0, sigCache = Some [],
     hashCache = NewTxSigHashes ex_lib ex_tx ex_fetcher, prevOutFetcher = Some ex_fetcher, assetPacket = None,
     emulatorPacket = Some ex_packet, scripts = [[], [0x53]], scriptIdx = 1, opcodeIdx = 0,
     tokenizer = MakeScriptTokenizer 0 [0x53],
     dstack = \<lparr>stk = [], verifyMinimalData = True\<rparr>, astack = \<lparr>stk = [], verifyMinimalData = True\<rparr>,
     condStack = [], witnessVersion = 0, witnessProgram = None, inputAmount = 1000,
     taprootCtx = Some (newTaprootExecutionCtxForLeaf ex_lib \<lparr>LeafVersion = 0xc0, leaf_Script = [0x51]\<rparr>),
     limits = DefaultComputeLimits, budget = None\<rparr>"

lemma ex_tx_fields [simp]:
  "TxIn ex_tx = [ex_in, ex_in]" "SignatureScript ex_in = []" "Witness ex_in = []"
  by (simp_all add: ex_tx_def ex_in_def)

lemma ex_prepared: "prepare_engine ex_lib ex_script ex_tx ex_fetcher 0 [] = Inr ex_vm"
proof -
  have n: "NewEngine ex_lib [0x53] ex_tx 0 (Some []) (NewTxSigHashes ex_lib ex_tx ex_fetcher) 1000 (Some ex_fetcher)
      = Inr (ex_vm\<lparr>emulatorPacket := None, taprootCtx := None\<rparr>)"
    by (simp add: NewEngine_def run_tokenizer MaxScriptSize_def ex_witness_program_def ex_vm_def Let_def)
  have f: "FetchPrevOutput ex_fetcher q = Some \<lparr>out_value = 1000, PkScript = []\<rparr>" for q
    by (simp add: ex_fetcher_def)
  have x: "\<exists>x. NewExtensionFromTx ex_lib ex_tx = Inr x" "GetAssetPacket ex_lib y = None" for y
    by (auto simp: ex_tx_def ex_magic_def ex_ext_parse_def PacketType_def)
  have p: "packetContainsExactEntry ex_packet 0 [0x53] []"
    by (simp add: packetContainsExactEntry_def ex_packet_def)
  show ?thesis
    using ex_packet_found x n p
    by (auto simp: prepare_engine_def at_idx_def f ex_script_def
        SetEmulatorPacket_def ex_vm_def Let_def simp del: ex_lib_simps split: option.split)
qed

lemma ex_next: "Next (tokenizer ex_vm) = Inr (True, (MakeScriptTokenizer 0 [0x53])\<lparr>t_offset := 1, t_opcodePos := 0,
      t_op := Some (opcodeArray 0x53), t_data := []\<rparr>)"
  by (simp add: ex_vm_def run_tokenizer)

lemma ex_step: "\<exists>v. Step ex_lib ex_vm = Inr (True, v) \<and> (\<exists>w. CheckErrorCondition True v = Inr w)"
proof -
  have f: "op_func (opcodeArray 0x53) = Control F_N"
    by (simp add: opcodeArray_lookup)
  have b: "scriptNum_Bytes 3 = Inr [3]"
    by code_simp
  have l: "DefaultComputeLimits 0x53 = None" by (simp add: DefaultComputeLimits_def)
  show ?thesis
    apply (simp add: Step_def ex_next Tok_Data_def)
    apply (simp add: checkValidPC_def executeOpcode_def f isOpcodeAlwaysIllegal_def
      isOpcodeConditional_def chargeOpcode_def l ex_vm_def opcodeN_def on_dstack_def PushInt_def b charge_def
      isBranchExecuting_def MaxScriptElementSize_def Depth_def MaxStackSize_def stackByteSize_def int32_of_id
      maxCombinedStackByteSize_def Done_def nextScript_def drop_all_def PushByteArray_def MakeScriptTokenizer_def Let_def)
    apply (simp add: CheckErrorCondition_def newTaprootExecutionCtxForLeaf_def newTaprootExecutionCtx_def
      Depth_def PopBool_items items_def with_items_def)
    done
qed

lemma ex_executes: "\<exists>vm. Execute ex_lib ex_vm = Some (Inr vm)"
  using ex_step by (auto simp: Execute_def run_steps.simps [of ex_lib ex_vm] ex_vm_def [THEN arg_cong, of version])

lemma ex_run: "\<exists>vm. ArkadeScript_Execute ex_lib ex_script (Some ex_tx) (Some ex_fetcher) 0 [] = Some (Inr vm)"
  using ex_executes by (simp add: ArkadeScript_Execute_def ex_prevouts ex_prepared del: ex_lib_simps ex_tx_fields) simp

theorem arkade_success_bound_to_tx_witness:
  "packetBound ex_script \<and> uint (packetVin ex_script) = 0 \<and> FindEmulatorPacket ex_lib ex_tx = Inr (Some ex_packet) \<and>
   (\<exists>e \<in> set ex_packet. Vin e = 0 \<and> ent_Script e = as_script ex_script \<and> ent_Witness e = as_witness ex_script)"
proof -
  obtain vm where "ArkadeScript_Execute ex_lib ex_script (Some ex_tx) (Some ex_fetcher) 0 [] = Some (Inr vm)"
    using ex_run by blast
  moreover have "packetBound ex_script" "packetVin ex_script = 0" by (simp_all add: ex_script_def)
  ultimately show ?thesis
    using arkade_success_bound_to_tx [of ex_lib ex_script "Some ex_tx" "Some ex_fetcher" 0 "[]" vm] ex_packet_found
    by fastforce
qed

subsection \<open>Limits along a run\<close>

text \<open>The opcode a state is about to execute, if any: one in a branch that is not executed is
skipped, the conditionals excepted.\<close>

definition next_charged :: "vm \<Rightarrow> byte list" where
  "next_charged vm =
     (case Next (tokenizer vm) of
        Inr (True, t) \<Rightarrow> (case t_op t of
            Some p \<Rightarrow> if isBranchExecuting vm \<or> isOpcodeConditional (op_value p) then [op_value p] else []
          | None \<Rightarrow> [])
      | _ \<Rightarrow> [])"

text \<open>A run: the states reached by Step, with the opcodes executed on the way.\<close>

inductive runs :: "lib \<Rightarrow> vm \<Rightarrow> byte list \<Rightarrow> vm \<Rightarrow> bool" for L where
  runs_start: "runs L vm [] vm"
| runs_step: "\<lbrakk>runs L vm ops vm1; Step L vm1 = Inr (fin, vm2)\<rbrakk> \<Longrightarrow> runs L vm (ops @ next_charged vm1) vm2"

inductive_simps runs_nil: "runs L vm [] vm'"
inductive_cases runs_E: "runs L vm ops vm'"

text \<open>The accounting of one step: each charged opcode is counted once, and within its limit.\<close>

definition counted :: "byte list \<Rightarrow> ComputeLimits \<Rightarrow> (byte \<Rightarrow> int) \<Rightarrow> (byte \<Rightarrow> int) \<Rightarrow> bool" where
  "counted ops lim c c' \<longleftrightarrow>
     (\<forall>x l. lim x = Some l \<longrightarrow> c' x = c x + int (count_list ops x) \<and> c' x \<le> max (c x) l)"

definition leaf_of :: "vm \<Rightarrow> (bytes \<times> tapLeaf \<times> bytes) option" where
  "leaf_of vm = map_option (\<lambda>c. (annex c, ctx_tapLeaf c, tapLeafHash c)) (taprootCtx vm)"

definition same_tx :: "vm \<Rightarrow> vm \<Rightarrow> bool" where
  "same_tx vm vm' \<longleftrightarrow> tx vm' = tx vm \<and> txIdx vm' = txIdx vm \<and> hashCache vm' = hashCache vm \<and>
     prevOutFetcher vm' = prevOutFetcher vm \<and> leaf_of vm' = leaf_of vm"

definition accounted :: "byte list \<Rightarrow> vm \<Rightarrow> vm \<Rightarrow> bool" where
  "accounted ops vm vm' \<longleftrightarrow>
     limits vm' = limits vm \<and> witnessProgram vm' = witnessProgram vm \<and> same_tx vm vm' \<and>
     (\<forall>ctx. taprootCtx vm = Some ctx \<longrightarrow>
        (\<exists>ctx'. taprootCtx vm' = Some ctx' \<and> counted ops (limits vm) (opCounts ctx) (opCounts ctx')) \<and>
        (case budget vm of None \<Rightarrow> budget vm' = None
         | Some b \<Rightarrow> \<exists>b'. budget vm' = Some b' \<and> cb_limits b' = cb_limits b \<and>
             counted ops (cb_limits b) (cb_opCounts b) (cb_opCounts b')))"

lemma counted_refl [simp]: "counted [] lim c c"
  by (simp add: counted_def)

lemma counted_trans: "counted xs lim a b \<Longrightarrow> counted ys lim b c \<Longrightarrow> counted (xs @ ys) lim a c"
  unfolding counted_def by (fastforce simp: count_list_append)

lemma same_tx_refl [simp]: "same_tx vm vm"
  by (simp add: same_tx_def)

lemma same_tx_trans: "same_tx a b \<Longrightarrow> same_tx b c \<Longrightarrow> same_tx a c"
  by (simp add: same_tx_def)

lemma frame_same_tx: "frame vm vm' \<Longrightarrow> same_tx vm vm'"
proof -
  assume f: "frame vm vm'"
  then have "ctx_frame (taprootCtx vm) (taprootCtx vm')" by (auto simp: frame_def)
  then have "leaf_of vm' = leaf_of vm" by (cases "taprootCtx vm") (auto simp: ctx_frame_def leaf_of_def)
  then show ?thesis by (simp add: same_tx_def frame_fields [OF f])
qed

lemma accounted_refl [simp]: "accounted [] vm vm"
  by (auto simp: accounted_def split: option.split)

lemma accounted_trans:
  assumes ab: "accounted xs a b" and bc: "accounted ys b c"
  shows "accounted (xs @ ys) a c"
proof -
  have "same_tx a c" using ab bc same_tx_trans [of a b c] by (simp add: accounted_def)
  with ab bc show ?thesis
    unfolding accounted_def by (fastforce dest: counted_trans split: option.splits)
qed

lemma accounted_frame: "frame vm vm' \<Longrightarrow> accounted [] vm vm'"
proof -
  assume f: "frame vm vm'"
  have "\<exists>ctx'. taprootCtx vm' = Some ctx' \<and> opCounts ctx' = opCounts ctx" if "taprootCtx vm = Some ctx" for ctx
    using frame_fields(16) [OF f] that by auto
  then show ?thesis
    using frame_fields [OF f] frame_same_tx [OF f] by (fastforce simp: accounted_def counted_def split: option.split)
qed

lemma chargeOpcode_accounted: "chargeOpcode b vm = Inr vm' \<Longrightarrow> accounted [b] vm vm'"
  by (auto simp: chargeOpcode_def charge_def accounted_def counted_def same_tx_def leaf_of_def bindE_Inr_iff Let_def
      split: option.splits if_splits)

lemma executeOpcode_accounted:
  assumes "lib_ok L" "vm_ok M vm" "executeOpcode L (opcodeArray b) data vm = Inr vm'"
  shows "accounted (if isBranchExecuting vm \<or> isOpcodeConditional b then [b] else []) vm vm'"
proof (cases "isBranchExecuting vm \<or> isOpcodeConditional b")
  case False
  then show ?thesis using assms(3) by (auto simp: executeOpcode_def split: if_splits)
next
  case True
  then obtain vm1 where c: "chargeOpcode b vm = Inr vm1" "length data \<le> 520"
      "run_opfunc (op_func (opcodeArray b)) L (opcodeArray b) data vm1 = Inr vm'"
    using assms(3) by (auto simp: executeOpcode_def MaxScriptElementSize_def bindE_Inr_iff split: if_splits)
  have "vm_ok M vm1" using chargeOpcode_ok [OF assms(2), of b] c(1) by simp
  then have "frame vm1 vm'"
    using eng.run_ok [OF assms(1) _ c(2) refl, of M vm1 "op_func (opcodeArray b)" b] c(3) by (simp add: keeps_def)
  then show ?thesis
    using accounted_trans [OF chargeOpcode_accounted [OF c(1)] accounted_frame] True by simp
qed

text \<open>The bounds Step keeps on both stacks together.\<close>

definition stacks_within :: "vm \<Rightarrow> bool" where
  "stacks_within vm \<longleftrightarrow>
     length (stk (dstack vm)) + length (stk (astack vm)) \<le> 1000 \<and>
     sum_list (map length (stk (dstack vm))) + sum_list (map length (stk (astack vm))) \<le> 131072"

lemma accounted_fields:
  "accounted [] vm (vm\<lparr>astack := a, opcodeIdx := i\<rparr>)" "accounted [] vm (vm\<lparr>scriptIdx := k\<rparr>)"
  "accounted [] vm (vm\<lparr>tokenizer := t\<rparr>)" "accounted [] vm (vm\<lparr>opcodeIdx := i\<rparr>)"
  by (auto simp: accounted_def same_tx_def leaf_of_def split: option.split)

lemma nextScript_plain:
  assumes "nextScript L vm = Inr (fin, vm')" "witnessProgram vm = None"
  shows "vm' = vm\<lparr>astack := (astack vm)\<lparr>stk := []\<rparr>, opcodeIdx := 0, scriptIdx := scriptIdx vm', tokenizer := tokenizer vm'\<rparr>"
    "fin \<longrightarrow> int (length (scripts vm)) \<le> scriptIdx vm'"
  using assms by (auto simp: nextScript_def drop_all_eq bindE_Inr_iff Let_def split: if_splits)

lemma accounted_nextScript:
  assumes "nextScript L vm = Inr (fin, vm')" "witnessProgram vm = None" "stacks_within vm"
  shows "accounted [] vm vm' \<and> tx vm' = tx vm \<and> scripts vm' = scripts vm \<and> stacks_within vm' \<and>
    (fin \<longrightarrow> int (length (scripts vm')) \<le> scriptIdx vm')"
  using assms(3) nextScript_plain(2) [OF assms(1,2)]
  by (subst (1 2 3 4 5) nextScript_plain(1) [OF assms(1,2)])
    (auto simp: stacks_within_def accounted_def same_tx_def leaf_of_def split: option.split)

lemma Step_accounted:
  assumes "lib_ok L" "eng_ok M vm" "witnessProgram vm = None" "Step L vm = Inr (fin, vm')"
  shows "accounted (next_charged vm) vm vm' \<and> tx vm' = tx vm \<and> scripts vm' = scripts vm \<and> stacks_within vm' \<and>
    (fin \<longrightarrow> int (length (scripts vm')) \<le> scriptIdx vm')"
proof -
  obtain t p where n: "Next (tokenizer vm) = Inr (True, t)" "t_op t = Some p"
    using assms(4) by (auto simp: Step_def bindE_Inr_iff split: if_splits option.splits prod.splits)
  have "parses (tokenizer vm)" using assms(2) by (simp add: eng_ok_def)
  then have p: "p = opcodeArray (op_value p)" using Next_parses [of "tokenizer vm"] n by auto
  let ?vm = "vm\<lparr>tokenizer := t\<rparr>"
  have vm: "vm_ok M ?vm" using assms(2) by (simp add: eng_ok_def vm_ok_def env_ok_def)
  obtain v where v: "executeOpcode L p (Tok_Data t) ?vm = Inr v"
    and s: "stacks_within v"
    and d: "(if Done (tokenizer v) then nextScript L (v\<lparr>opcodeIdx := opcodeIdx v + 1\<rparr>)
             else Inr (False, v\<lparr>opcodeIdx := opcodeIdx v + 1\<rparr>)) = Inr (fin, vm')"
    using assms(4) n
    by (auto simp: Step_def bindE_Inr_iff Let_def stacks_within_def Depth_def MaxStackSize_def
        maxCombinedStackByteSize_def stackByteSize_eq split: if_splits)
  have f: "exec_frame ?vm v" using executeOpcode_ok [OF assms(1) vm p, of "Tok_Data t"] v by simp
  have "accounted (if isBranchExecuting ?vm \<or> isOpcodeConditional (op_value p) then [op_value p] else []) ?vm v"
    using executeOpcode_accounted [OF assms(1) vm, of "op_value p" "Tok_Data t" v] v p by simp
  moreover have "accounted ops ?vm v = accounted ops vm v" "isBranchExecuting ?vm = isBranchExecuting vm" for ops
    by (simp_all add: accounted_def same_tx_def leaf_of_def isBranchExecuting_def)
  moreover have "next_charged vm = (if isBranchExecuting vm \<or> isOpcodeConditional (op_value p) then [op_value p] else [])"
    using n by (simp add: next_charged_def)
  ultimately have a: "accounted (next_charged vm) vm v" by simp
  let ?v = "v\<lparr>opcodeIdx := opcodeIdx v + 1\<rparr>"
  have b: "accounted (next_charged vm) vm ?v" using accounted_trans [OF a accounted_fields(4)] by simp
  have w: "witnessProgram ?v = None" "stacks_within ?v" "tx ?v = tx vm" "scripts ?v = scripts vm"
    using f assms(3) s by (simp_all add: exec_frame_def stacks_within_def)
  show ?thesis
  proof (cases "Done (tokenizer v)")
    case True
    with d have "nextScript L ?v = Inr (fin, vm')" by simp
    from accounted_nextScript [OF this w(1,2)] w b show ?thesis
      using accounted_trans [of "next_charged vm" vm ?v "[]" vm'] by auto
  next
    case False
    with d b w show ?thesis by auto
  qed
qed

lemma Step_not_finished: "Step L vm = Inr r \<Longrightarrow> scriptIdx vm < int (length (scripts vm))"
  by (simp add: Step_def checkValidPC_def split: if_splits)

lemma runs_accounted:
  assumes "runs L vm ops vm'" "lib_ok L" "eng_ok M vm" "witnessProgram vm = None"
  shows "accounted ops vm vm' \<and> tx vm' = tx vm \<and> scripts vm' = scripts vm \<and>
    (eng_ok M vm' \<or> int (length (scripts vm')) \<le> scriptIdx vm') \<and> (vm' = vm \<or> stacks_within vm')"
  using assms
proof induction
  case (runs_step vm ops vm1 fin vm2)
  then have 1: "accounted ops vm vm1" "tx vm1 = tx vm" "scripts vm1 = scripts vm" "eng_ok M vm1"
    using Step_not_finished [OF runs_step(2)] by auto
  then have w: "witnessProgram vm1 = None" using runs_step.prems(3) by (simp add: accounted_def)
  have "\<not> fin \<longrightarrow> eng_ok M vm2" using Step_ok [OF runs_step.prems(1) 1(4)] runs_step(2) by (simp add: step_post_def)
  with Step_accounted [OF runs_step.prems(1) 1(4) w runs_step(2)] 1 accounted_trans [OF 1(1)]
  show ?case by auto
qed simp

lemma fresh_counts:
  assumes "accounted ops vm vm'" "taprootCtx vm = Some ctx" "opCounts ctx = (\<lambda>_. 0)"
  shows "limits vm x = Some l \<Longrightarrow> int (count_list ops x) \<le> max 0 l"
    "budget vm = Some b \<Longrightarrow> cb_limits b x = Some l \<Longrightarrow> cb_opCounts b x + int (count_list ops x) \<le> max (cb_opCounts b x) l"
  using assms by (fastforce simp: accounted_def counted_def)+

text \<open>What a prepared engine starts from.\<close>

lemma options_keep_ctx:
  "taprootCtx (foldl (\<lambda>e opt. apply_option opt e) vm opts) = taprootCtx vm"
  "witnessProgram (foldl (\<lambda>e opt. apply_option opt e) vm opts) = witnessProgram vm"
  "tx (foldl (\<lambda>e opt. apply_option opt e) vm opts) = tx vm"
proof -
  have "taprootCtx (apply_option opt v) = taprootCtx v \<and> witnessProgram (apply_option opt v) = witnessProgram v \<and>
      tx (apply_option opt v) = tx v" for opt v
    by (cases "(opt, v)" rule: apply_option.cases) auto
  then show "taprootCtx (foldl (\<lambda>e opt. apply_option opt e) vm opts) = taprootCtx vm"
    "witnessProgram (foldl (\<lambda>e opt. apply_option opt e) vm opts) = witnessProgram vm"
    "tx (foldl (\<lambda>e opt. apply_option opt e) vm opts) = tx vm"
    by (induction opts arbitrary: vm) simp_all
qed

lemma prepare_engine_start:
  assumes "prepare_engine L s t f idx opts = Inr vm"
  shows "taprootCtx vm = Some (newTaprootExecutionCtxForLeaf L (spendingTapLeaf s))" "tx vm = t"
    "\<not> IsWitnessProgram L (as_script s) \<Longrightarrow> witnessProgram vm = None"
proof -
  have n: "tx v = t \<and> (\<not> IsWitnessProgram L pk \<longrightarrow> witnessProgram v = None)"
    if "NewEngine L pk t idx c h a g = Inr v" for pk c h a g v
    using that by (auto simp: NewEngine_def bindE_Inr_iff Let_def split: if_splits prod.splits)
  show "taprootCtx vm = Some (newTaprootExecutionCtxForLeaf L (spendingTapLeaf s))" "tx vm = t"
    "\<not> IsWitnessProgram L (as_script s) \<Longrightarrow> witnessProgram vm = None"
    using assms
    by (auto simp: prepare_engine_def bindE_Inr_iff Let_def options_keep_ctx SetAssetPacket_def
        SetEmulatorPacket_def SetStack_def dest!: n split: if_splits option.splits)
qed

text \<open>An opcode whose count has reached its limit is refused by its charge, before its handler runs.\<close>

lemma chargeOpcode_refused:
  assumes "taprootCtx vm = Some ctx"
    and "(\<exists>l. limits vm x = Some l \<and> l \<le> opCounts ctx x) \<or>
      (\<exists>b l. budget vm = Some b \<and> cb_limits b x = Some l \<and> l \<le> cb_opCounts b x)"
  shows "chargeOpcode x vm = script_err ErrScriptTooBig"
  using assms by (auto simp: chargeOpcode_def charge_def Let_def split: option.split)

lemma checkMinimalDataPush_cases: "checkMinimalDataPush op data = Inr () \<or> checkMinimalDataPush op data = script_err ErrMinimalData"
  by (simp add: checkMinimalDataPush_def Let_def)

definition refused :: "(bool \<times> vm) res \<Rightarrow> bool" where
  "refused r \<longleftrightarrow> (\<exists>c \<in> {ErrScriptTooBig, ErrReservedOpcode, ErrElementTooBig, ErrMinimalData, ErrInvalidProgramCounter}.
     r = script_err c)"

lemma Step_refused:
  assumes "x \<in> set (next_charged vm)" "\<And>t. chargeOpcode x (vm\<lparr>tokenizer := t\<rparr>) = script_err ErrScriptTooBig"
  shows "refused (Step L vm)"
proof -
  obtain t where t: "Next (tokenizer vm) = Inr (True, t)"
    using assms(1) by (cases "Next (tokenizer vm)") (auto simp: next_charged_def split: bool.splits)
  then obtain p where p: "t_op t = Some p"
    using assms(1) by (cases "t_op t") (auto simp: next_charged_def)
  then have n: "Next (tokenizer vm) = Inr (True, t)" "t_op t = Some p" "op_value p = x"
      "isBranchExecuting vm \<or> isOpcodeConditional x"
    using assms(1) t by (auto simp: next_charged_def split: if_splits)
  have "isBranchExecuting (vm\<lparr>tokenizer := t\<rparr>) = isBranchExecuting vm" by (simp add: isBranchExecuting_def)
  then have "\<exists>c \<in> {ErrScriptTooBig, ErrReservedOpcode, ErrElementTooBig, ErrMinimalData}.
      executeOpcode L p (Tok_Data t) (vm\<lparr>tokenizer := t\<rparr>) = script_err c"
    using n assms(2) [of t] checkMinimalDataPush_cases [of p "Tok_Data t"] unfolding executeOpcode_def by auto
  then show ?thesis using n by (auto simp: refused_def Step_def checkValidPC_def)
qed

text \<open>C10: On every run of Execute's engine over an arkade script that is not itself a witness
program, however it ends, no opcode is executed more often than the per-input limit of that opcode,
and the executions it adds to a shared request budget never take a count past the budget's limit. An
opcode is charged before its handler runs: when the next opcode's count has reached either limit, the
step fails with the limit error, or with one of the checks that precede the charge, whatever the
opcode would have done. The transaction and the scripts do not change, and after every step the two
stacks together hold at most 1000 items and at most 128 KiB. (A witness program starts the per-input
counts of its leaf script afresh.) As before, the libraries behave as documented and the sizes fit.\<close>

theorem limits_bound_executions:
  assumes "lib_ok L" "assets_ok L" "tx_ok t" "witness_fits M s" "0 \<le> idx" "idx < int (length (TxIn t))"
    and "check_prevouts f (TxIn t) = Inr ()" "prepare_engine L s t f idx opts = Inr vm"
    and "\<not> IsWitnessProgram L (as_script s)" "runs L vm ops vm'"
  shows "(\<forall>x l. limits vm x = Some l \<longrightarrow> int (count_list ops x) \<le> max 0 l) \<and>
    (\<forall>b x l. budget vm = Some b \<and> cb_limits b x = Some l \<longrightarrow>
       cb_opCounts b x + int (count_list ops x) \<le> max (cb_opCounts b x) l) \<and>
    (\<forall>x \<in> set (next_charged vm').
       (\<exists>l. limits vm x = Some l \<and> l \<le> int (count_list ops x)) \<or>
       (\<exists>b l. budget vm = Some b \<and> cb_limits b x = Some l \<and> l \<le> cb_opCounts b x + int (count_list ops x)) \<longrightarrow>
       refused (Step L vm')) \<and>
    tx vm' = t \<and> scripts vm' = scripts vm \<and> (vm' = vm \<or> stacks_within vm')"
proof -
  note start = prepare_engine_start [OF assms(8)]
  have ok: "eng_ok M vm" using prepare_engine_ok [OF assms(1-7), of opts] assms(8) by simp
  have zero: "opCounts (newTaprootExecutionCtxForLeaf L l) = (\<lambda>_. 0)" for l
    by (simp add: newTaprootExecutionCtxForLeaf_def newTaprootExecutionCtx_def)
  note run = runs_accounted [OF assms(10,1) ok start(3) [OF assms(9)]]
  then have a: "accounted ops vm vm'" by blast
  obtain c where c: "taprootCtx vm' = Some c" "counted ops (limits vm) (\<lambda>_. 0) (opCounts c)" "limits vm' = limits vm"
    using a start(1) zero by (fastforce simp: accounted_def)
  have "refused (Step L vm')" if x: "x \<in> set (next_charged vm')"
    and l: "(\<exists>l. limits vm x = Some l \<and> l \<le> int (count_list ops x)) \<or>
       (\<exists>b l. budget vm = Some b \<and> cb_limits b x = Some l \<and> l \<le> cb_opCounts b x + int (count_list ops x))" for x
  proof (rule Step_refused [OF x], rule chargeOpcode_refused)
    show "taprootCtx (vm'\<lparr>tokenizer := t\<rparr>) = Some c" for t using c by simp
    show "(\<exists>l. limits (vm'\<lparr>tokenizer := t\<rparr>) x = Some l \<and> l \<le> opCounts c x) \<or>
        (\<exists>b l. budget (vm'\<lparr>tokenizer := t\<rparr>) = Some b \<and> cb_limits b x = Some l \<and> l \<le> cb_opCounts b x)" for t
      using l a c start(1) by (fastforce simp: accounted_def counted_def)
  qed
  then show ?thesis using run start(2) fresh_counts [OF a start(1) zero] by blast
qed

lemma ex_vm_ok: "eng_ok 520 ex_vm" "witnessProgram ex_vm = None"
proof -
  show "eng_ok 520 ex_vm"
    using prepare_engine_ok [OF ex_lib_ok ex_script_fits(2) ex_tx_ok ex_script_fits(1) _ _ ex_prevouts, of 0 "[]"] ex_prepared
    by simp
qed (simp add: ex_vm_def)

lemma ex_runs: "\<exists>v. runs ex_lib ex_vm [0x53] v"
proof -
  have "next_charged ex_vm = [0x53]"
    by (simp add: next_charged_def ex_next) (simp add: isBranchExecuting_def ex_vm_def)
  with ex_step runs_step [OF runs_start] show ?thesis by fastforce
qed

theorem limits_bound_executions_witness:
  "\<exists>v. runs ex_lib ex_vm [0x53] v \<and> tx v = ex_tx \<and> scripts v = [[], [0x53]] \<and> (v = ex_vm \<or> stacks_within v)"
proof -
  obtain v where v: "runs ex_lib ex_vm [0x53] v" using ex_runs by blast
  have "scripts ex_vm = [[], [0x53]]" "\<not> IsWitnessProgram ex_lib (as_script ex_script)" "0 < int (length (TxIn ex_tx))"
    by (simp_all add: ex_vm_def ex_script_def ex_witness_program_def)
  with limits_bound_executions [OF ex_lib_ok ex_script_fits(2) ex_tx_ok ex_script_fits(1) _ _ ex_prevouts ex_prepared _ v] v
  show ?thesis by auto
qed

end
