(* ===== verification/OpProps.thy ===== *)
theory OpProps
imports EngineProps
begin

text \<open>Properties of groups of opcode handlers: the conditionals against the usual stack of
branch flags, the arithmetic opcodes against the integers, the lock-time checks, minimal
pushes, and the invariant all handlers keep.\<close>

subsection \<open>Conditionals\<close>

text \<open>The reference: one flag for each open conditional, true when its current branch is
taken; an opcode executes when all are true.  The engine's condition stack is the image of
those flags in which the conditionals nested in a branch not taken are OpCondSkip.\<close>

fun conds :: "bool list \<Rightarrow> condVal list" where
  "conds [] = []"
| "conds (b # vf) = (if b then OpCondTrue # conds vf else OpCondFalse # replicate (length vf) OpCondSkip)"

lemma length_conds [simp]: "length (conds vf) = length vf"
  by (induction vf) simp_all

lemma conds_snoc:
  "conds (vf @ [b]) = conds vf @ [if list_all id vf then (if b then OpCondTrue else OpCondFalse) else OpCondSkip]"
  by (induction vf) (simp_all add: replicate_append_same)

lemma last_conds: "vf \<noteq> [] \<Longrightarrow> last (conds vf) = OpCondTrue \<longleftrightarrow> list_all id vf"
  by (cases vf rule: rev_cases) (auto simp: conds_snoc)

lemma executing_conds: "condStack vm = conds vf \<Longrightarrow> isBranchExecuting vm = list_all id vf"
  using last_conds [of vf] by (cases "vf = []") (auto simp: isBranchExecuting_def)

lemma popIfBool_items:
  "popIfBool vm = (case items (dstack vm) of [] \<Rightarrow> script_err ErrInvalidStackOperation
     | b # r \<Rightarrow> if b = [] \<or> b = [1] then Inr (b = [1], vm\<lparr>dstack := with_items (dstack vm) r\<rparr>)
               else script_err ErrMinimalIf)"
proof (cases "items (dstack vm)")
  case (Cons b r)
  then show ?thesis
    by (cases b; cases "tl b") (auto simp: popIfBool_def PopByteArray_items)
qed (simp add: popIfBool_def PopByteArray_items)

text \<open>C22: The conditional opcodes implement the usual stack of branch flags: an IF in an
executed branch pops exactly an empty item or the single byte 1 and opens a branch with
that flag (NOTIF with its negation), and in a branch not taken it touches no item; ELSE
flips the innermost flag and ENDIF removes it, and both fail without an open conditional;
an opcode is executed exactly when every flag is true.\<close>

theorem conditionals_refine_flags:
  assumes "condStack vm = conds vf"
  shows "isBranchExecuting vm = list_all id vf \<and>
    opcodeIf L op data vm =
      (if \<not> list_all id vf then Inr (vm\<lparr>condStack := conds (vf @ [False])\<rparr>)
       else case items (dstack vm) of [] \<Rightarrow> script_err ErrInvalidStackOperation
         | b # r \<Rightarrow> if b = [] \<or> b = [1]
             then Inr (vm\<lparr>dstack := with_items (dstack vm) r, condStack := conds (vf @ [b = [1]])\<rparr>)
             else script_err ErrMinimalIf) \<and>
    opcodeNotIf L op data vm =
      (if \<not> list_all id vf then Inr (vm\<lparr>condStack := conds (vf @ [False])\<rparr>)
       else case items (dstack vm) of [] \<Rightarrow> script_err ErrInvalidStackOperation
         | b # r \<Rightarrow> if b = [] \<or> b = [1]
             then Inr (vm\<lparr>dstack := with_items (dstack vm) r, condStack := conds (vf @ [b = []])\<rparr>)
             else script_err ErrMinimalIf) \<and>
    opcodeElse L op data vm =
      (if vf = [] then script_err ErrUnbalancedConditional
       else Inr (vm\<lparr>condStack := conds (butlast vf @ [\<not> last vf])\<rparr>)) \<and>
    opcodeEndif L op data vm =
      (if vf = [] then script_err ErrUnbalancedConditional
       else Inr (vm\<lparr>condStack := conds (butlast vf)\<rparr>))"
proof -
  note ex = executing_conds [OF assms]
  have "opcodeElse L op data vm = (if vf = [] then script_err ErrUnbalancedConditional
       else Inr (vm\<lparr>condStack := conds (butlast vf @ [\<not> last vf])\<rparr>))"
    using assms by (cases vf rule: rev_cases) (auto simp: opcodeElse_def conds_snoc nth_append list_update_append)
  moreover have "opcodeEndif L op data vm = (if vf = [] then script_err ErrUnbalancedConditional
       else Inr (vm\<lparr>condStack := conds (butlast vf)\<rparr>))"
    using assms by (cases vf rule: rev_cases) (auto simp: opcodeEndif_def conds_snoc)
  ultimately show ?thesis
    using assms ex
    by (auto simp: opcodeIf_def opcodeNotIf_def popIfBool_items conds_snoc split: list.split)
qed

theorem conditionals_refine_flags_witness:
  "opcodeElse ex_lib (opcodeArray 0) [] (ex_vm\<lparr>condStack := [OpCondFalse, OpCondSkip]\<rparr>)
     = Inr (ex_vm\<lparr>condStack := [OpCondFalse, OpCondSkip]\<rparr>)"
  using conditionals_refine_flags [of "ex_vm\<lparr>condStack := [OpCondFalse, OpCondSkip]\<rparr>" "[False, True]" ex_lib "opcodeArray 0" "[]"]
  by simp

subsection \<open>Arithmetic\<close>

text \<open>The reference: the operations on integers, with the number of operands on the stack.\<close>

definition int_bool :: "bool \<Rightarrow> int" where
  "int_bool c = (if c then 1 else 0)"

fun int_op1 :: "num_fn \<Rightarrow> (int \<Rightarrow> int) option" where
  "int_op1 F_1Add = Some (\<lambda>a. a + 1)"
| "int_op1 F_1Sub = Some (\<lambda>a. a - 1)"
| "int_op1 F_2Mul = Some (\<lambda>a. 2 * a)"
| "int_op1 F_2Div = Some (\<lambda>a. a sdiv 2)"
| "int_op1 F_Negate = Some uminus"
| "int_op1 F_Abs = Some abs"
| "int_op1 F_Not = Some (\<lambda>a. int_bool (a = 0))"
| "int_op1 F_0NotEqual = Some (\<lambda>a. int_bool (a \<noteq> 0))"
| "int_op1 _ = None"

fun int_op2 :: "num_fn \<Rightarrow> (int \<Rightarrow> int \<Rightarrow> int res) option" where
  "int_op2 F_Add = Some (\<lambda>a b. Inr (a + b))"
| "int_op2 F_Sub = Some (\<lambda>a b. Inr (a - b))"
| "int_op2 F_Mul = Some (\<lambda>a b. Inr (a * b))"
| "int_op2 F_Div = Some (\<lambda>a b. if b = 0 then Inl ErrBigNumDivisionByZero else Inr (a sdiv b))"
| "int_op2 F_Mod = Some (\<lambda>a b. if b = 0 then Inl ErrBigNumModuloByZero else Inr (a smod b))"
| "int_op2 F_BoolAnd = Some (\<lambda>a b. Inr (int_bool (a \<noteq> 0 \<and> b \<noteq> 0)))"
| "int_op2 F_BoolOr = Some (\<lambda>a b. Inr (int_bool (a \<noteq> 0 \<or> b \<noteq> 0)))"
| "int_op2 F_NumEqual = Some (\<lambda>a b. Inr (int_bool (a = b)))"
| "int_op2 F_NumNotEqual = Some (\<lambda>a b. Inr (int_bool (a \<noteq> b)))"
| "int_op2 F_LessThan = Some (\<lambda>a b. Inr (int_bool (a < b)))"
| "int_op2 F_GreaterThan = Some (\<lambda>a b. Inr (int_bool (a > b)))"
| "int_op2 F_LessThanOrEqual = Some (\<lambda>a b. Inr (int_bool (a \<le> b)))"
| "int_op2 F_GreaterThanOrEqual = Some (\<lambda>a b. Inr (int_bool (a \<ge> b)))"
| "int_op2 F_Min = Some (\<lambda>a b. Inr (min a b))"
| "int_op2 F_Max = Some (\<lambda>a b. Inr (max a b))"
| "int_op2 _ = None"

text \<open>The engine after an operation: the result replaces the operands, unless it is an error or
does not fit in a number.\<close>

definition push_result :: "int res \<Rightarrow> bytes list \<Rightarrow> vm \<Rightarrow> vm res" where
  "push_result r rest vm = bindE r (\<lambda>n.
     if length (enc n) > maxBigNumLen then script_err ErrNumberTooBig
     else Inr (vm\<lparr>dstack := with_items (dstack vm) (enc n # rest)\<rparr>))"

lemma Pop_enc:
  assumes "items s = enc a # r" "length (enc a) \<le> maxBigNumLen"
  shows "\<exists>n. PopBigNum s = Inr (n, with_items s r) \<and> val n = a"
proof -
  have "\<exists>n. BigNumFromBytes (enc a) = Inr n \<and> val n = a"
    using bn.decode_encode [of "Big a" "enc a"] assms(2) by (auto simp: BigNum_Bytes_eq)
  then show ?thesis using assms(1) by (auto simp: PopBigNum_items)
qed

lemma Push_result:
  "bindE (PushBigNum n (with_items s r)) (\<lambda>s. Inr (vm\<lparr>dstack := s\<rparr>)) =
     (if length (enc (val n)) > maxBigNumLen then script_err ErrNumberTooBig
      else Inr (vm\<lparr>dstack := with_items s (enc (val n) # r)\<rparr>))"
  by (simp add: PushBigNum_def BigNum_Bytes_eq PushByteArray_items)

lemma push_numeric:
  "bindE (bindE g (\<lambda>m. PushBigNum m (with_items (dstack vm) r))) (\<lambda>s. Inr (vm\<lparr>dstack := s\<rparr>)) =
   push_result (map_sum id val g) r vm"
  by (cases g) (simp_all add: push_result_def Push_result)

text \<open>A handler whose result is computed from values refines the operation on values.\<close>

definition computes :: "(stack \<Rightarrow> stack res) \<Rightarrow> int res \<Rightarrow> bool" where
  "computes f v \<longleftrightarrow> (\<exists>g. map_sum id val g = v \<and> f = (\<lambda>s. bindE g (\<lambda>m. PushBigNum m s)))"

lemma num1_result:
  assumes "items (dstack vm) = enc a # r" "length (enc a) \<le> maxBigNumLen"
    and "\<And>n. val n = a \<Longrightarrow> computes (k n) v"
  shows "num1 k vm = push_result v r vm"
proof -
  obtain n where n: "PopBigNum (dstack vm) = Inr (n, with_items (dstack vm) r)" "val n = a"
    using Pop_enc [OF assms(1,2)] by blast
  then show ?thesis
    using assms(3) [OF n(2)] push_numeric [of _ vm r] by (auto simp: computes_def num1_def on_dstack_def)
qed

lemma num2_result:
  assumes "items (dstack vm) = enc b # enc a # r" "length (enc a) \<le> maxBigNumLen" "length (enc b) \<le> maxBigNumLen"
    and "\<And>m n. val m = a \<Longrightarrow> val n = b \<Longrightarrow> computes (k m n) v"
  shows "num2 k vm = push_result v r vm"
proof -
  obtain n where n: "PopBigNum (dstack vm) = Inr (n, with_items (dstack vm) (enc a # r))" "val n = b"
    using Pop_enc [OF assms(1,3)] by blast
  obtain m where m: "PopBigNum (with_items (dstack vm) (enc a # r)) = Inr (m, with_items (dstack vm) r)" "val m = a"
    using Pop_enc [of "with_items (dstack vm) (enc a # r)" a r] assms(2) by auto
  from n m show ?thesis
    using assms(4) [OF m(2) n(2)] push_numeric [of _ vm r] by (auto simp: computes_def num2_def on_dstack_def)
qed

lemma computes_push: "val m = a \<Longrightarrow> computes (PushBigNum m) (Inr a)"
  unfolding computes_def by (rule exI [of _ "Inr m"]) auto

lemma computes_cond: "computes (pushCond c) (Inr (int_bool c))"
  unfolding pushCond_def [abs_def] by (rule computes_push) (simp add: int_bool_def)

lemma computes_bind: "computes (\<lambda>s. bindE g (\<lambda>m. PushBigNum m s)) (map_sum id val g)"
  unfolding computes_def by blast

lemma Cmp_rel: "(Cmp m n = 0) = (val m = val n)" "(Cmp m n < 0) = (val m < val n)" "(0 < Cmp m n) = (val m > val n)"
  "(Cmp m n \<le> 0) = (val m \<le> val n)" "(0 \<le> Cmp m n) = (val m \<ge> val n)"
  by (simp_all add: Cmp_eq cmp_int_def)

lemma val_Div: "map_sum id val (Div m n) = (if val n = 0 then Inl ErrBigNumDivisionByZero else Inr (val m sdiv val n))"
  by (simp add: Div_eq)

lemma val_Mod: "map_sum id val (Mod m n) = (if val n = 0 then Inl ErrBigNumModuloByZero else Inr (val m smod val n))"
  by (simp add: Mod_eq)

text \<open>C23: The arithmetic and comparison opcodes compute on integers: when the operands on the
stack are the encodings of integers, the operands are replaced by the encoding of the exact
result, of any size up to the item limit; a result that does not fit fails with the
number-too-big error, and division and modulo by zero fail with their own errors.\<close>

theorem arithmetic_refines_integers:
  assumes "length (enc a) \<le> maxBigNumLen" "length (enc b) \<le> maxBigNumLen"
  shows "(case int_op1 f of None \<Rightarrow> True
      | Some h \<Rightarrow> items (dstack vm) = enc a # r \<longrightarrow> run_num f L op data vm = push_result (Inr (h a)) r vm) \<and>
    (case int_op2 f of None \<Rightarrow> True
      | Some h \<Rightarrow> items (dstack vm) = enc b # enc a # r \<longrightarrow> run_num f L op data vm = push_result (h a b) r vm)"
proof -
  have d: "computes (\<lambda>s. bindE (Div m n) (\<lambda>result. PushBigNum result s))
      (if val n = 0 then Inl ErrBigNumDivisionByZero else Inr (val m sdiv val n))" for m n
    using computes_bind [of "Div m n"] by (simp only: val_Div)
  have q: "computes (\<lambda>s. bindE (Mod m n) (\<lambda>result. PushBigNum result s))
      (if val n = 0 then Inl ErrBigNumModuloByZero else Inr (val m smod val n))" for m n
    using computes_bind [of "Mod m n"] by (simp only: val_Mod)
  have h: "computes (\<lambda>s. bindE (Div m (BigNumFromInt64 2)) (\<lambda>result. PushBigNum result s)) (Inr (val m sdiv 2))" for m
    using d [of m "BigNumFromInt64 2"] by simp
  have 1: "run_num f L op data vm = push_result (Inr (h a)) r vm"
    if "int_op1 f = Some h" "items (dstack vm) = enc a # r" for h
    using that
    by (cases f)
      (auto simp: opcode1Add_def opcode1Sub_def opcode2Mul_def opcode2Div_def opcodeNegate_def opcodeAbs_def
        opcodeNot_def opcode0NotEqual_def intro!: num1_result [OF that(2) assms(1)] computes_push computes_cond h)
  have 2: "run_num f L op data vm = push_result (h a b) r vm"
    if "int_op2 f = Some h" "items (dstack vm) = enc b # enc a # r" for h
    using that
    by (cases f)
      (auto simp: num_defs Cmp_rel intro!: num2_result [OF that(2) assms] computes_push computes_cond d q)
  from 1 2 show ?thesis by (auto split: option.split)
qed

theorem arithmetic_refines_integers_witness:
  "run_num F_Mod ex_lib (opcodeArray 0) [] (ex_vm\<lparr>dstack := \<lparr>stk = [enc (-7), enc 3], verifyMinimalData = True\<rparr>\<rparr>)
     = Inr (ex_vm\<lparr>dstack := \<lparr>stk = [enc (-1)], verifyMinimalData = True\<rparr>\<rparr>)"
proof -
  let ?vm = "ex_vm\<lparr>dstack := \<lparr>stk = [enc (-7), enc 3], verifyMinimalData = True\<rparr>\<rparr>"
  have l: "length (enc n) \<le> maxBigNumLen" if "\<bar>n\<bar> < 2 ^ 31" for n
    using length_enc_le_iff [of 4 n] that by (simp add: maxBigNumLen_def)
  have "items (dstack ?vm) = enc 3 # enc (-7) # []" by (simp add: items_def)
  then have "run_num F_Mod ex_lib (opcodeArray 0) [] ?vm = push_result (Inr (-1)) [] ?vm"
    using arithmetic_refines_integers [of "-7" 3 ?vm "[]" F_Mod ex_lib "opcodeArray 0" "[]"] l [of "-7"] l [of 3]
    by (simp add: signed_modulo_int_def signed_divide_int_def)
  then show ?thesis using l [of "-1"] by (simp add: push_result_def with_items_def)
qed

subsection \<open>Lock times\<close>

lemma Peek_enc:
  assumes "items s = enc a # r" "length (enc a) \<le> maxBigNumLen"
  shows "\<exists>n. PeekBigNum 0 s = Inr n \<and> val n = a \<and> (useBig n \<longrightarrow> 2 ^ 63 \<le> \<bar>a\<bar>)"
proof -
  obtain n where n: "BigNumFromBytes (enc a) = Inr n" "val n = a"
    using bn.decode_encode [of "Big a" "enc a"] assms(2) by (auto simp: BigNum_Bytes_eq)
  then have "useBig n \<longrightarrow> 2 ^ 63 \<le> \<bar>a\<bar>"
    using length_enc_le_iff [of 8 a] by (cases n) (auto simp: BigNumFromBytes_eq split: if_splits)
  with n show ?thesis using assms(1) by (auto simp: PeekBigNum_def PeekByteArray_items)
qed

lemma and_flag_mask:
  "(word_of_int x :: 'a :: len word) AND (2 ^ k OR mask m) = word_of_int ((if bit x k then 2 ^ k else 0) OR take_bit m x)"
  by (rule bit_word_eqI) (auto simp: bit_simps)

lemma flag_low_bits:
  "m \<le> k \<Longrightarrow> ((if bit x k then 2 ^ k else 0) OR take_bit m x :: int) = (if bit x k then 2 ^ k else 0) + take_bit m x"
  by (rule disjunctive_add_eq_or [symmetric], rule bit_eqI) (auto simp: bit_simps)

lemma mask_sequence:
  fixes x :: int
  assumes "0 \<le> x" "x < 2 ^ 32"
  shows "(word_of_int x :: int64) AND SequenceLockTimeDisabled \<noteq> 0 \<longleftrightarrow> bit x 31"
    "sint ((word_of_int x :: int64) AND (SequenceLockTimeIsSeconds OR SequenceLockTimeMask))
       = (if bit x 22 then 0x400000 else 0) + x mod 65536"
proof -
  have "SequenceLockTimeDisabled = 2 ^ 31" by (simp add: SequenceLockTimeDisabled_def)
  then have "(word_of_int x :: int64) AND SequenceLockTimeDisabled = 0 \<longleftrightarrow> \<not> bit (word_of_int x :: int64) 31"
    using and_exp_eq_0_iff_not_bit [of "word_of_int x :: int64" 31] by simp
  then show "(word_of_int x :: int64) AND SequenceLockTimeDisabled \<noteq> 0 \<longleftrightarrow> bit x 31"
    by (simp add: bit_simps)
  have m: "SequenceLockTimeIsSeconds OR SequenceLockTimeMask = 2 ^ 22 OR mask 16"
    by (simp add: SequenceLockTimeIsSeconds_def SequenceLockTimeMask_def mask_eq_exp_minus_1)
  have "0 \<le> x mod 65536" "x mod 65536 < 65536" by simp_all
  then have "sint (word_of_int ((if bit x 22 then 0x400000 else 0) + x mod 65536) :: int64)
      = (if bit x 22 then 0x400000 else 0) + x mod 65536"
    by (intro sint_fits64) (auto simp: fits64_def simp del: pos_mod_sign pos_mod_bound)
  moreover have "(word_of_int x :: int64) AND (2 ^ 22 OR mask 16)
      = word_of_int ((if bit x 22 then 0x400000 else 0) + x mod 65536)"
    using and_flag_mask [of x 22 16, where 'a = 64] flag_low_bits [of 16 22 x] by (simp add: take_bit_eq_mod)
  ultimately show "sint ((word_of_int x :: int64) AND (SequenceLockTimeIsSeconds OR SequenceLockTimeMask))
       = (if bit x 22 then 0x400000 else 0) + x mod 65536"
    unfolding m by simp
qed

text \<open>C24: The lock-time opcodes leave the engine as it is exactly when the operand, any
integer on the stack, is a lock time the transaction satisfies, and fail otherwise:
CHECKLOCKTIMEVERIFY when the operand and the transaction's lock time are of the same
kind, the operand is not later, and the input's sequence is not final;
CHECKSEQUENCEVERIFY when the operand has the disable flag, or the transaction has version
two and the input's sequence is enabled, of the same kind and not shorter.  A negative
operand has its own error, and one above 32 bits is never satisfied.\<close>

theorem lock_time_checks:
  assumes "items (dstack vm) = enc a # r" "length (enc a) \<le> maxBigNumLen"
    and "0 \<le> txIdx vm" "txIdx vm < int (length (TxIn (tx vm)))"
  shows "opcodeCheckLockTimeVerify L op data vm =
      (if a < 0 then script_err ErrNegativeLockTime
       else if a < 2 ^ 32 \<and> (a < 500000000 \<longleftrightarrow> uint (LockTime (tx vm)) < 500000000) \<and> a \<le> uint (LockTime (tx vm)) \<and>
         Sequence (TxIn (tx vm) ! nat (txIdx vm)) \<noteq> 0xffffffff then Inr vm
       else script_err ErrUnsatisfiedLockTime) \<and>
    opcodeCheckSequenceVerify L op data vm =
      (let sq = uint (Sequence (TxIn (tx vm) ! nat (txIdx vm))) in
       if a < 0 then script_err ErrNegativeLockTime
       else if a < 2 ^ 32 \<and> (bit a 31 \<or>
         2 \<le> sint (tx_version (tx vm)) \<and> \<not> bit sq 31 \<and> bit a 22 = bit sq 22 \<and> a mod 65536 \<le> sq mod 65536) then Inr vm
       else script_err ErrUnsatisfiedLockTime)"
proof -
  obtain n where n: "PeekBigNum 0 (dstack vm) = Inr n" "val n = a" "useBig n \<longrightarrow> 2 ^ 63 \<le> \<bar>a\<bar>"
    using Peek_enc [OF assms(1,2)] by blast
  note t = at_idx_ok [OF assms(3,4)]
  have s: "Sign n < 0 \<longleftrightarrow> a < 0" by (simp add: Sign_eq n(2) sgn_if)
  have w: "(useBig n \<or> sint (small n) > MaxUint32) = (2 ^ 32 \<le> a)" if "0 \<le> a"
    using n(2,3) that by (cases n) (auto simp: MaxUint32_def)
  have sm: "sint (small n) = a" "small n = word_of_int a" if "0 \<le> a" "a < 2 ^ 32"
    using n(2,3) that by (cases n; auto)+
  show ?thesis
  proof (cases "0 \<le> a \<and> a < 2 ^ 32")
    case False
    then show ?thesis using s w
      by (auto simp: opcodeCheckLockTimeVerify_def opcodeCheckSequenceVerify_def n(1) Let_def)
  next
    case True
    have sq: "ucast q = (word_of_int (uint q) :: int64)" "0 \<le> uint q" "uint q < 2 ^ 32" for q :: "32 word"
      using uint_bounded [of q] by (simp_all add: ucast_eq [of q, symmetric])
    let ?q = "Sequence (TxIn (tx vm) ! nat (txIdx vm))"
    have cmp: "verifyLockTime (sint (ucast ?q AND (SequenceLockTimeIsSeconds OR SequenceLockTimeMask)))
         (sint SequenceLockTimeIsSeconds) (sint (word_of_int a AND (SequenceLockTimeIsSeconds OR SequenceLockTimeMask)))
       = (if bit a 22 = bit (uint ?q) 22 \<and> a mod 65536 \<le> uint ?q mod 65536 then Inr () else script_err ErrUnsatisfiedLockTime)"
      unfolding sq(1) mask_sequence(2) [OF sq(2,3)] mask_sequence(2) [OF True [THEN conjunct1] True [THEN conjunct2]]
      using pos_mod_bound [of 65536 a] pos_mod_bound [of 65536 "uint ?q"] pos_mod_sign [of 65536 a] pos_mod_sign [of 65536 "uint ?q"]
      by (auto simp: verifyLockTime_def SequenceLockTimeIsSeconds_def simp del: pos_mod_bound pos_mod_sign)
    have dis: "ucast ?q AND SequenceLockTimeDisabled \<noteq> 0 \<longleftrightarrow> bit (uint ?q) 31"
      unfolding sq(1) by (rule mask_sequence(1) [OF sq(2,3)])
    have cltv: "opcodeCheckLockTimeVerify L op data vm =
      (if (a < 500000000 \<longleftrightarrow> uint (LockTime (tx vm)) < 500000000) \<and> a \<le> uint (LockTime (tx vm)) \<and> ?q \<noteq> 0xffffffff
       then Inr vm else script_err ErrUnsatisfiedLockTime)"
      using True s w sm
      by (auto simp: opcodeCheckLockTimeVerify_def n(1) t verifyLockTime_def LockTimeThreshold_def MaxTxInSequenceNum_def)
    have csv: "opcodeCheckSequenceVerify L op data vm =
      (if bit a 31 \<or> 2 \<le> sint (tx_version (tx vm)) \<and> \<not> bit (uint ?q) 31 \<and> bit a 22 = bit (uint ?q) 22 \<and> a mod 65536 \<le> uint ?q mod 65536
       then Inr vm else script_err ErrUnsatisfiedLockTime)"
      using True s w sm mask_sequence(1) [of a] dis
      by (auto simp: opcodeCheckSequenceVerify_def n(1) t Let_def cmp)
    show ?thesis using True by (simp add: cltv csv Let_def)
  qed
qed

theorem lock_time_checks_witness:
  "opcodeCheckSequenceVerify ex_lib (opcodeArray 0) [] (ex_vm\<lparr>dstack := \<lparr>stk = [enc 0], verifyMinimalData = True\<rparr>\<rparr>)
     = Inr (ex_vm\<lparr>dstack := \<lparr>stk = [enc 0], verifyMinimalData = True\<rparr>\<rparr>)"
proof -
  let ?vm = "ex_vm\<lparr>dstack := \<lparr>stk = [enc 0], verifyMinimalData = True\<rparr>\<rparr>"
  have "items (dstack ?vm) = enc 0 # []" "length (enc 0) \<le> maxBigNumLen"
    "0 \<le> txIdx ?vm" "txIdx ?vm < int (length (TxIn (tx ?vm)))"
    by (simp_all add: items_def enc_def ex_vm_def)
  note r = lock_time_checks [OF this, of ex_lib "opcodeArray 0" "[]"]
  have "uint (Sequence (TxIn (tx ?vm) ! nat (txIdx ?vm))) = 0" "sint (tx_version (tx ?vm)) = 2"
    by (simp_all add: ex_vm_def ex_tx_def ex_in_def)
  with r [THEN conjunct2] show ?thesis by (simp add: Let_def)
qed

subsection \<open>Pushes\<close>

text \<open>The opcode that pushes an item minimally.\<close>

definition minimal_op :: "bytes \<Rightarrow> byte" where
  "minimal_op d =
     (if d = [] then OP_0
      else if length d = 1 \<and> 1 \<le> d ! 0 \<and> d ! 0 \<le> 16 then OP_1 + d ! 0 - 1
      else if length d = 1 \<and> d ! 0 = 0x81 then OP_1NEGATE
      else if length d \<le> 75 then word_of_nat (length d)
      else if length d \<le> 255 then OP_PUSHDATA1 else OP_PUSHDATA2)"

lemma checkMinimalDataPush_eq:
  assumes "length d \<le> 520"
  shows "checkMinimalDataPush p d = (if op_value p = minimal_op d then Inr () else script_err ErrMinimalData)"
proof -
  have "(unat (op_value p) \<noteq> length d) = (op_value p \<noteq> word_of_nat (length d))" if "length d \<le> 75"
  proof -
    have "unat (word_of_nat (length d) :: byte) = length d"
      using that by (simp add: unsigned_of_nat take_bit_nat_eq_self_iff)
    then show ?thesis by (metis unsigned_word_eqI)
  qed
  then show ?thesis
    using assms by (auto simp: checkMinimalDataPush_def minimal_op_def Let_def)
qed

text \<open>With minimal pushes enforced there is exactly one opcode that pushes an item of up to
520 bytes: an executed push of any other opcode fails with the minimal-data error, and an
item that OP_N or OP_1NEGATE produces can not be pushed as data at all.\<close>

theorem minimal_push_unique:
  assumes "length d \<le> MaxScriptElementSize"
  shows "(\<exists>!b. checkMinimalDataPush (opcodeArray b) d = Inr ()) \<and>
    (checkMinimalDataPush p d = Inr () \<longleftrightarrow> op_value p = minimal_op d) \<and>
    (checkMinimalDataPush p d \<noteq> Inr () \<longrightarrow> isBranchExecuting vm \<and> verifyMinimalData (dstack vm) \<and>
       op_value p \<le> OP_PUSHDATA4 \<longrightarrow> executeOpcode L p d vm = script_err ErrMinimalData) \<and>
    (length d = 1 \<and> (1 \<le> d ! 0 \<and> d ! 0 \<le> 16 \<or> d ! 0 = 0x81) \<longrightarrow> \<not> minimal_op d \<le> OP_PUSHDATA4)"
proof -
  have n: "\<not> 80 + (b :: byte) \<le> 78" if "1 \<le> b" "b \<le> 16" for b
  proof -
    have "unat (80 + b) = 80 + unat b" using that by (simp add: unat_word_ariths(1) word_le_nat_alt)
    then show ?thesis by (simp add: word_le_nat_alt)
  qed
  have c: "checkMinimalDataPush p d = (if op_value p = minimal_op d then Inr () else script_err ErrMinimalData)" for p
    using checkMinimalDataPush_eq assms by (simp add: MaxScriptElementSize_def)
  have i: "executeOpcode L p d vm = script_err ErrMinimalData"
    if "op_value p \<noteq> minimal_op d" "isBranchExecuting vm \<and> verifyMinimalData (dstack vm) \<and> op_value p \<le> OP_PUSHDATA4"
    using that assms by (auto simp: executeOpcode_def c isOpcodeAlwaysIllegal_def)
  have "\<not> minimal_op d \<le> OP_PUSHDATA4" if "length d = 1" "1 \<le> d ! 0 \<and> d ! 0 \<le> 16 \<or> d ! 0 = 0x81"
    using that n by (auto simp: minimal_op_def)
  then show ?thesis using i by (auto simp: c)
qed

theorem minimal_push_unique_witness:
  "executeOpcode ex_lib (opcodeArray 0x01) [7] ex_vm = script_err ErrMinimalData"
  using minimal_push_unique [of "[7]" "opcodeArray 0x01" ex_vm ex_lib]
  by (simp add: MaxScriptElementSize_def minimal_op_def) (simp add: isBranchExecuting_def ex_vm_def)

subsection \<open>The invariant\<close>

text \<open>C16: Every opcode keeps the engine well formed: on any well-formed engine, whatever the
items, the opcode, its data and the transaction, executing it ends in an error that is not a panic,
or in an engine that is well formed apart from its depth, in which the transaction, the scripts, the
program counter, the packets, the previous outputs and the limits are unchanged. A push of more than
520 bytes is refused. The opcode is either skipped, in a branch that is not executed, with nothing
changed, or charged once: the budget it leaves is the one the charge leaves.\<close>

theorem opcodes_keep_invariant:
  assumes "lib_ok L" "vm_ok M vm"
  shows "executeOpcode L (opcodeArray b) data vm \<noteq> Inl Panic \<and>
    (executeOpcode L (opcodeArray b) data vm = Inr vm' \<longrightarrow>
       length data \<le> 520 \<and> bounded M (dstack vm') \<and> bounded M (astack vm') \<and> env_ok vm' \<and>
       tx vm' = tx vm \<and> txIdx vm' = txIdx vm \<and> scripts vm' = scripts vm \<and> scriptIdx vm' = scriptIdx vm \<and>
       opcodeIdx vm' = opcodeIdx vm \<and> tokenizer vm' = tokenizer vm \<and> assetPacket vm' = assetPacket vm \<and>
       emulatorPacket vm' = emulatorPacket vm \<and> prevOutFetcher vm' = prevOutFetcher vm \<and> limits vm' = limits vm \<and>
       (if isBranchExecuting vm \<or> isOpcodeConditional b
        then \<exists>charged. chargeOpcode b vm = Inr charged \<and> budget vm' = budget charged
        else vm' = vm))"
proof -
  have "okE (\<lambda>vm'. exec_frame vm vm' \<and> bounded M (dstack vm') \<and> bounded M (astack vm') \<and> env_ok vm')
      (executeOpcode L (opcodeArray b) data vm)"
    by (rule executeOpcode_ok [OF assms refl])
  moreover have "length data \<le> 520 \<and> (if isBranchExecuting vm \<or> isOpcodeConditional b
        then \<exists>charged. chargeOpcode b vm = Inr charged \<and> budget vm' = budget charged else vm' = vm)"
    if e: "executeOpcode L (opcodeArray b) data vm = Inr vm'"
  proof (cases "isBranchExecuting vm \<or> isOpcodeConditional b")
    case False
    with e show ?thesis by (auto simp: executeOpcode_def MaxScriptElementSize_def split: if_splits)
  next
    case True
    then obtain vm1 where c: "chargeOpcode b vm = Inr vm1" "length data \<le> 520"
        "run_opfunc (op_func (opcodeArray b)) L (opcodeArray b) data vm1 = Inr vm'"
      using e by (auto simp: executeOpcode_def MaxScriptElementSize_def bindE_Inr_iff split: if_splits)
    have "vm_ok M vm1" using chargeOpcode_ok [OF assms(2), of b] c(1) by simp
    then have "frame vm1 vm'"
      using eng.run_ok [OF assms(1) _ c(2) refl, of M vm1 "op_func (opcodeArray b)" b] c(3) by (simp add: keeps_def)
    with c True show ?thesis by (simp add: frame_fields)
  qed
  ultimately show ?thesis by (auto simp: exec_frame_def dest: okE_not_panic)
qed

theorem opcodes_keep_invariant_witness:
  "executeOpcode ex_lib (opcodeArray 0xb2) [] ex_vm \<noteq> Inl Panic"
  using opcodes_keep_invariant [where b = "0xb2" and M = 520 and vm = ex_vm and data = "[]", OF ex_lib_ok] ex_vm_ok(1)
  by (simp add: eng_ok_def)

end
