(* ===== verification/CryptoProps.thy ===== *)
theory CryptoProps
imports OpProps
begin

text \<open>Properties of the signature hash, the signature opcodes, the streaming and Merkle hashes,
and the key tweaks.\<close>

subsection \<open>The signature hash\<close>

lemma buildArkadeSigMsg_cong:
  assumes "same_tx vm vm'" "taprootCtx vm = Some c" "taprootCtx vm' = Some c'" "codeSepPos c = codeSepPos c'"
  shows "buildArkadeSigMsg L vm h = buildArkadeSigMsg L vm' h"
proof -
  have "annex c = annex c'" "tapLeafHash c = tapLeafHash c'" "tx vm' = tx vm" "txIdx vm' = txIdx vm"
    "hashCache vm' = hashCache vm" "prevOutFetcher vm' = prevOutFetcher vm"
    using assms(1-3) by (auto simp: same_tx_def leaf_of_def)
  then show ?thesis by (simp only: buildArkadeSigMsg_def assms(2-4) option.case)
qed

lemma computeArkadeSighash_dstack [simp]:
  "computeArkadeSighash L (vm\<lparr>dstack := s\<rparr>) h = computeArkadeSighash L vm h"
proof (cases "taprootCtx vm")
  case None
  then show ?thesis by (simp add: computeArkadeSighash_def buildArkadeSigMsg_def)
next
  case (Some c)
  have "same_tx vm (vm\<lparr>dstack := s\<rparr>)" by (simp add: same_tx_def leaf_of_def)
  from buildArkadeSigMsg_cong [OF this Some] Some show ?thesis by (simp add: computeArkadeSighash_def)
qed

lemma apply_options_env:
  "same_tx vm (foldl (\<lambda>e opt. apply_option opt e) vm opts) \<and>
   taprootCtx (foldl (\<lambda>e opt. apply_option opt e) vm opts) = taprootCtx vm"
proof (induction opts arbitrary: vm)
  case (Cons opt opts)
  have "same_tx vm (apply_option opt vm)" "taprootCtx (apply_option opt vm) = taprootCtx vm"
    by (cases "(opt, vm)" rule: apply_option.cases; simp add: same_tx_def leaf_of_def)+
  with Cons [of "apply_option opt vm"] show ?case using same_tx_trans by fastforce
qed simp

lemma prepare_engine_env:
  assumes "prepare_engine L s t f idx opts = Inr vm"
  shows "tx vm = t \<and> txIdx vm = idx \<and> hashCache vm = NewTxSigHashes L t f \<and> prevOutFetcher vm = Some f \<and>
    taprootCtx vm = Some (newTaprootExecutionCtxForLeaf L (spendingTapLeaf s))"
proof -
  define P where "P v \<longleftrightarrow> tx v = t \<and> txIdx v = idx \<and> hashCache v = NewTxSigHashes L t f \<and> prevOutFetcher v = Some f \<and>
    taprootCtx v = Some (newTaprootExecutionCtxForLeaf L (spendingTapLeaf s))" for v :: vm
  have n: "tx v = t \<and> txIdx v = idx \<and> hashCache v = NewTxSigHashes L t f \<and> prevOutFetcher v = Some f"
    if "NewEngine L pk t idx h (NewTxSigHashes L t f) a (Some f) = Inr v" for pk h a v
    using that by (auto simp: NewEngine_def bindE_Inr_iff Let_def split: if_splits prod.splits)
  have p: "P v \<Longrightarrow> P (SetAssetPacket x v)" "P v \<Longrightarrow> P (SetEmulatorPacket y v)" "P v \<Longrightarrow> P (SetStack w v)" for v x y w
    by (simp_all add: P_def SetAssetPacket_def SetEmulatorPacket_def SetStack_def)
  obtain a e0 ext where e: "NewEngine L (as_script s) t idx (Some []) (NewTxSigHashes L t f) a (Some f) = Inr e0"
    and r: "bindE (FindEmulatorPacket L t) (\<lambda>packet.
       if packetBound s \<and> (uint (packetVin s) \<noteq> idx \<or>
          \<not> packetContainsExactEntry (case packet of None \<Rightarrow> [] | Some p \<Rightarrow> p) (packetVin s) (as_script s) (as_witness s))
       then go_err ''arkade script does not match transaction packet entry''
       else let engine = (case packet of None \<Rightarrow> ext | Some p \<Rightarrow> SetEmulatorPacket (Some p) ext) in
         Inr (if length (as_witness s) > 0 then SetStack (as_witness s) engine else engine)) = Inr vm"
    and x: "\<exists>y. ext = (let engine = foldl (\<lambda>e opt. apply_option opt e)
         (e0\<lparr>taprootCtx := Some (newTaprootExecutionCtxForLeaf L (spendingTapLeaf s))\<rparr>) opts in
       case y of None \<Rightarrow> engine | Some z \<Rightarrow> (case GetAssetPacket L z of None \<Rightarrow> engine
         | Some ap \<Rightarrow> SetAssetPacket (Some ap) engine))"
    using assms unfolding prepare_engine_def Let_def bindE_Inr_iff by blast
  have "P (foldl (\<lambda>e opt. apply_option opt e)
      (e0\<lparr>taprootCtx := Some (newTaprootExecutionCtxForLeaf L (spendingTapLeaf s))\<rparr>) opts)"
    using n [OF e] apply_options_env [of _ opts] by (simp add: P_def same_tx_def)
  then have "P ext" using x p(1) by (auto simp: Let_def split: option.splits)
  then have "P vm" using r p by (auto simp: bindE_Inr_iff Let_def split: if_splits option.splits)
  then show ?thesis by (simp add: P_def)
qed

subsection \<open>The code separator\<close>

text \<open>Only OP_CODESEPARATOR writes the taproot context: a result whose engine, if there is one, has the
context it started with.\<close>

definition ctx_kept :: "taprootCtx option \<Rightarrow> vm res \<Rightarrow> bool" where
  "ctx_kept c m \<longleftrightarrow> (\<forall>vm'. m = Inr vm' \<longrightarrow> taprootCtx vm' = c)"

lemma ctx_kept_rules:
  "taprootCtx vm = c \<Longrightarrow> ctx_kept c (on_dstack f vm)"
  "taprootCtx vm = c \<Longrightarrow> ctx_kept c (Inr vm)"
  "ctx_kept c (Inl e)"
  "(\<And>a. m = Inr a \<Longrightarrow> ctx_kept c (g a)) \<Longrightarrow> ctx_kept c (bindE m g)"
  "\<lbrakk>b \<Longrightarrow> ctx_kept c x; \<not> b \<Longrightarrow> ctx_kept c y\<rbrakk> \<Longrightarrow> ctx_kept c (if b then x else y)"
  "\<lbrakk>o' = None \<Longrightarrow> ctx_kept c x; \<And>a. o' = Some a \<Longrightarrow> ctx_kept c (h a)\<rbrakk> \<Longrightarrow>
     ctx_kept c (case o' of None \<Rightarrow> x | Some a \<Rightarrow> h a)"
  "(\<And>a b'. p = (a, b') \<Longrightarrow> ctx_kept c (k a b')) \<Longrightarrow> ctx_kept c (case p of (a, b') \<Rightarrow> k a b')"
  by (auto simp: ctx_kept_def on_dstack_def bindE_Inr_iff split: option.split prod.split)

lemma ctx_kept_seq:
  "\<lbrakk>ctx_kept c m; \<And>vm. taprootCtx vm = c \<Longrightarrow> ctx_kept c (g vm)\<rbrakk> \<Longrightarrow> ctx_kept c (bindE m g)"
  by (auto simp: ctx_kept_def bindE_Inr_iff)

lemma ctx_kept_abstractVerify: "taprootCtx vm = c \<Longrightarrow> ctx_kept c (abstractVerify e vm)"
  unfolding abstractVerify_def by (intro ctx_kept_rules) simp

lemma popIfBool_ctx: "popIfBool vm = Inr (b, vm') \<Longrightarrow> taprootCtx vm' = taprootCtx vm"
  by (auto simp: popIfBool_def bindE_Inr_iff split: if_splits)

lemma run_control_ctx: "ctx_kept (taprootCtx vm) (run_control f L op data vm)"
  by (cases f)
    (auto simp: opcodeReserved_def opcodeInvalid_def opcodeFalse_def opcodePushData_def opcode1Negate_def opcodeN_def
      opcodeNop_def opcodeIf_def opcodeNotIf_def opcodeElse_def opcodeEndif_def opcodeVerify_def opcodeReturn_def
      opcodeCheckLockTimeVerify_def opcodeCheckSequenceVerify_def Let_def
      intro!: ctx_kept_rules ctx_kept_abstractVerify dest: popIfBool_ctx split: condVal.split)

lemma run_stack_ctx: "ctx_kept (taprootCtx vm) (run_stack f L op data vm)"
  by (cases f)
    (auto simp: opcodeToAltStack_def opcodeFromAltStack_def opcode2Drop_def opcode2Dup_def opcode3Dup_def opcode2Over_def
      opcode2Rot_def opcode2Swap_def opcodeIfDup_def opcodeDepth_def opcodeDrop_def opcodeDup_def opcodeNip_def
      opcodeOver_def opcodePick_def opcodeRoll_def opcodeRot_def opcodeSwap_def opcodeTuck_def Let_def
      intro!: ctx_kept_rules)

lemma run_bytes_ctx: "ctx_kept (taprootCtx vm) (run_bytes f L op data vm)"
  by (cases f)
    (auto simp: opcodeCat_def opcodeSubstr_def opcodeLeft_def opcodeRight_def opcodeSize_def opcodeInvert_def
      bitwise_def opcodeAnd_def opcodeOr_def opcodeXor_def opcodeEqual_def opcodeEqualVerify_def opcodeNum2Bin_def
      opcodeBin2Num_def opcodeReverseBytes_def
      intro!: ctx_kept_seq ctx_kept_abstractVerify intro: ctx_kept_rules)

lemma run_num_ctx: "ctx_kept (taprootCtx vm) (run_num f L op data vm)"
  by (cases f)
    (auto simp: num_defs num1_def num2_def opcodeNumEqualVerify_def
      intro!: ctx_kept_seq ctx_kept_abstractVerify intro: ctx_kept_rules)

lemma run_crypto_ctx: "f \<noteq> F_CodeSeparator \<Longrightarrow> ctx_kept (taprootCtx vm) (run_crypto f L op data vm)"
proof -
  have c: "ctx_kept (taprootCtx vm) (opcodeCheckSig L op data vm)"
    unfolding opcodeCheckSig_def Let_def by (intro ctx_kept_rules) simp_all
  have a: "ctx_kept (taprootCtx vm) (opcodeCheckSigAdd L op data vm)"
    unfolding opcodeCheckSigAdd_def Let_def by (intro ctx_kept_rules) simp_all
  have s: "ctx_kept (taprootCtx vm) (opcodeSighash L op data vm)"
    unfolding opcodeSighash_def Let_def by (intro ctx_kept_rules) simp_all
  show "f \<noteq> F_CodeSeparator \<Longrightarrow> ctx_kept (taprootCtx vm) (run_crypto f L op data vm)"
    using c a s
    by (cases f)
      (auto simp: hash_top_def opcodeRipemd160_def opcodeSha1_def opcodeSha256_def opcodeHash160_def opcodeHash256_def
        opcodeDigest_def opcodeSha256Initialize_def opcodeSha256Update_def opcodeSha256Finalize_def
        opcodeMerkleBranchVerify_def opcodeCheckSigVerify_def opcodeCheckMultiSig_def opcodeCheckMultiSigVerify_def
        opcodeChecksigFromStack_def intro!: ctx_kept_seq ctx_kept_abstractVerify intro: ctx_kept_rules)
qed

lemma run_intro_ctx: "ctx_kept (taprootCtx vm) (run_intro f L op data vm)"
  by (cases f)
    (auto simp: opcodeInspectInputOutpoint_def opcodeInspectInputValue_def opcodeInspectInputScriptPubkey_def
      opcodeInspectInputSequence_def opcodePushCurrentInputIndex_def opcodeInspectOutputValue_def
      opcodeInspectOutputScriptPubkey_def opcodeInspectVersion_def opcodeInspectLocktime_def opcodeInspectNumInputs_def
      opcodeInspectNumOutputs_def opcodeTxWeight_def opcodeTxId_def opcodeInspectPacket_def opcodeInspectInputPacket_def
      opcodeInspectInputArkadeScriptHash_def opcodeInspectInputArkadeWitnessHash_def intro!: ctx_kept_rules)

lemma run_asset_ctx: "ctx_kept (taprootCtx vm) (run_asset f L op data vm)"
  by (cases f)
    (auto simp: opcodeInspectNumAssetGroups_def opcodeInspectAssetGroupAssetId_def opcodeInspectAssetGroupCtrl_def
      opcodeFindAssetGroupByAssetId_def opcodeInspectAssetGroupMetadataHash_def opcodeInspectAssetGroupNum_def
      opcodeInspectAssetGroup_def opcodeInspectAssetGroupSum_def opcodeInspectOutAssetCount_def
      opcodeInspectOutAssetAt_def opcodeInspectOutAssetLookup_def opcodeInspectInAssetCount_def
      opcodeInspectInAssetAt_def opcodeInspectInAssetLookup_def with_packet_def assetCount_def assetAt_def
      assetLookup_def Let_def intro!: ctx_kept_rules)

lemma run_ec_ctx: "ctx_kept (taprootCtx vm) (run_ec f L op data vm)"
  by (cases f)
    (auto simp: opcodeECAdd_def opcodeECMul_def opcodeECPairing_def opcodeECMulScalarVerify_def opcodeTweakVerify_def
      Let_def intro!: ctx_kept_rules)

lemma run_opfunc_ctx:
  assumes "run_opfunc f L op data vm = Inr vm'" "f \<noteq> Crypto F_CodeSeparator"
  shows "taprootCtx vm' = taprootCtx vm"
proof -
  have "ctx_kept (taprootCtx vm) (run_opfunc f L op data vm)"
    using assms(2) by (cases f) (simp_all add: run_control_ctx run_stack_ctx run_bytes_ctx run_num_ctx run_crypto_ctx
        run_intro_ctx run_asset_ctx run_ec_ctx)
  with assms(1) show ?thesis by (simp add: ctx_kept_def)
qed

lemma code_separator_entries:
  "list_all (\<lambda>(b, e). op_func e = Crypto F_CodeSeparator \<longrightarrow> b = OP_CODESEPARATOR) opcode_entries"
  unfolding opcode_entries_defs by simp

lemma op_func_code_separator:
  "op_func (opcodeArray b) = Crypto F_CodeSeparator \<longleftrightarrow> b = OP_CODESEPARATOR"
  using code_separator_entries opcodeArray_in [of b] by (auto simp: list_all_iff opcodeArray_lookup)

text \<open>The position of the last executed code separator, read off the tokens alone: a step that executes
OP_CODESEPARATOR sets it to the opcode position of the tokenizer, any other step leaves it.\<close>

definition next_sep :: "vm \<Rightarrow> 32 word \<Rightarrow> 32 word" where
  "next_sep vm p =
     (case Next (tokenizer vm) of
        Inr (True, t) \<Rightarrow> (case t_op t of
            Some op \<Rightarrow> if op_value op = OP_CODESEPARATOR \<and> isBranchExecuting vm
                       then word_of_int (OpcodePosition t) else p
          | None \<Rightarrow> p)
      | _ \<Rightarrow> p)"

inductive sep_runs :: "lib \<Rightarrow> vm \<Rightarrow> 32 word \<Rightarrow> vm \<Rightarrow> bool" for L where
  sep_start: "sep_runs L vm blankCodeSepValue vm"
| sep_step: "\<lbrakk>sep_runs L vm p vm1; Step L vm1 = Inr (fin, vm2)\<rbrakk> \<Longrightarrow> sep_runs L vm (next_sep vm1 p) vm2"

lemma runs_sep: "runs L vm ops vm' \<Longrightarrow> \<exists>p. sep_runs L vm p vm'"
  by (induction rule: runs.induct) (blast intro: sep_runs.intros)+

lemma sep_runs_runs: "sep_runs L vm p vm' \<Longrightarrow> \<exists>ops. runs L vm ops vm'"
  by (induction rule: sep_runs.induct) (blast intro: runs.intros)+

lemma executeOpcode_sep:
  assumes "executeOpcode L (opcodeArray b) data vm = Inr vm'" "taprootCtx vm = Some c"
  shows "\<exists>c'. taprootCtx vm' = Some c' \<and> codeSepPos c' =
    (if b = OP_CODESEPARATOR \<and> isBranchExecuting vm then word_of_int (OpcodePosition (tokenizer vm)) else codeSepPos c)"
proof (cases "isBranchExecuting vm \<or> isOpcodeConditional b")
  case False
  then show ?thesis using assms by (auto simp: executeOpcode_def split: if_splits)
next
  case True
  then obtain vm1 where v: "chargeOpcode b vm = Inr vm1" "run_opfunc (op_func (opcodeArray b)) L (opcodeArray b) data vm1 = Inr vm'"
    using assms(1) by (auto simp: executeOpcode_def bindE_Inr_iff split: if_splits)
  obtain c1 where c1: "taprootCtx vm1 = Some c1" "codeSepPos c1 = codeSepPos c" "tokenizer vm1 = tokenizer vm"
    using v(1) assms(2) by (auto simp: chargeOpcode_def bindE_Inr_iff Let_def split: option.splits if_splits)
  show ?thesis
  proof (cases "b = OP_CODESEPARATOR")
    case sep: True
    then have "isBranchExecuting vm" using True by (simp add: isOpcodeConditional_def)
    moreover have "op_func (opcodeArray b) = Crypto F_CodeSeparator" using sep op_func_code_separator by blast
    then have "opcodeCodeSeparator L (opcodeArray b) data vm1 = Inr vm'" using v(2) by (simp only: run_opfunc.simps run_crypto.simps)
    ultimately show ?thesis using sep c1 by (auto simp: opcodeCodeSeparator_def)
  next
    case False
    then have "taprootCtx vm' = taprootCtx vm1" using run_opfunc_ctx [OF v(2)] op_func_code_separator [of b] by blast
    with c1 False show ?thesis by simp
  qed
qed

lemma Step_sep:
  assumes "lib_ok L" "eng_ok M vm" "witnessProgram vm = None" "Step L vm = Inr (fin, vm')" "taprootCtx vm = Some c"
  shows "\<exists>c'. taprootCtx vm' = Some c' \<and> codeSepPos c' = next_sep vm (codeSepPos c)"
proof -
  obtain t p where n: "Next (tokenizer vm) = Inr (True, t)" "t_op t = Some p"
    using assms(4) by (auto simp: Step_def bindE_Inr_iff split: if_splits option.splits prod.splits)
  have "parses (tokenizer vm)" using assms(2) by (simp add: eng_ok_def)
  then have p: "p = opcodeArray (op_value p)" using Next_parses [of "tokenizer vm"] n by auto
  let ?vm = "vm\<lparr>tokenizer := t\<rparr>"
  have vm: "vm_ok M ?vm" using assms(2) by (simp add: eng_ok_def vm_ok_def env_ok_def)
  obtain v where v: "executeOpcode L p (Tok_Data t) ?vm = Inr v"
    and d: "(if Done (tokenizer v) then nextScript L (v\<lparr>opcodeIdx := opcodeIdx v + 1\<rparr>)
             else Inr (False, v\<lparr>opcodeIdx := opcodeIdx v + 1\<rparr>)) = Inr (fin, vm')"
    using assms(4) n by (auto simp: Step_def bindE_Inr_iff Let_def split: if_splits)
  have e: "executeOpcode L (opcodeArray (op_value p)) (Tok_Data t) ?vm = Inr v" using v p by simp
  have s: "taprootCtx ?vm = Some c" "isBranchExecuting ?vm = isBranchExecuting vm"
    using assms(5) by (simp_all add: isBranchExecuting_def)
  obtain c' where c': "taprootCtx v = Some c'" "codeSepPos c' = next_sep vm (codeSepPos c)"
    using executeOpcode_sep [OF e s(1)] s(2) n by (auto simp: next_sep_def)
  have w: "witnessProgram v = None" using executeOpcode_ok [OF assms(1) vm p, of "Tok_Data t"] v assms(3)
    by (simp add: exec_frame_def)
  have "taprootCtx vm' = taprootCtx v"
  proof (cases "Done (tokenizer v)")
    case True
    with d have "nextScript L (v\<lparr>opcodeIdx := opcodeIdx v + 1\<rparr>) = Inr (fin, vm')" by simp
    from nextScript_plain(1) [OF this] w have "vm' = (v\<lparr>opcodeIdx := opcodeIdx v + 1\<rparr>)
        \<lparr>astack := (astack v)\<lparr>stk := []\<rparr>, opcodeIdx := 0, scriptIdx := scriptIdx vm', tokenizer := tokenizer vm'\<rparr>" by simp
    from arg_cong [OF this, of taprootCtx] show ?thesis by simp
  next
    case False
    with d show ?thesis by auto
  qed
  with c' show ?thesis by simp
qed

lemma sep_runs_pos:
  assumes "sep_runs L vm p vm'" "lib_ok L" "eng_ok M vm" "witnessProgram vm = None"
    and "taprootCtx vm = Some c" "codeSepPos c = blankCodeSepValue"
  shows "\<exists>c'. taprootCtx vm' = Some c' \<and> codeSepPos c' = p"
  using assms
proof induction
  case (sep_step vm p vm1 fin vm2)
  obtain ops where "runs L vm ops vm1" using sep_runs_runs [OF sep_step(1)] by blast
  note r = runs_accounted [OF this sep_step.prems(1,2,3)]
  then have e: "eng_ok M vm1" "witnessProgram vm1 = None"
    using Step_not_finished [OF sep_step(2)] sep_step.prems(3) by (auto simp: accounted_def)
  obtain c1 where "taprootCtx vm1 = Some c1" "codeSepPos c1 = p" using sep_step.IH sep_step.prems by blast
  with Step_sep [OF sep_step.prems(1) e sep_step(2)] show ?case by blast
qed blast

subsection \<open>Signers and the engine agree\<close>

text \<open>C19: Signers and the engine compute the same signature hash: in every state of a run that Execute
starts for an arkade script that is not itself a witness program, the hash a signature opcode verifies
against is the one CalcArkadeScriptSignatureHash returns for the same transaction, input, prevouts and
leaf, for every hash type, at one position: the opcode position of the last OP_CODESEPARATOR the run
executed, or 2 ^ 32 - 1 when it has executed none.\<close>

theorem signing_hash_agrees:
  assumes "lib_ok L" "assets_ok L" "tx_ok t" "witness_fits M s" "0 \<le> idx" "idx < int (length (TxIn t))"
    and "check_prevouts f (TxIn t) = Inr ()" "prepare_engine L s t f idx opts = Inr vm"
    and "\<not> IsWitnessProgram L (as_script s)" "runs L vm ops vm'"
  shows "(\<exists>p. sep_runs L vm p vm') \<and>
    (\<forall>p. sep_runs L vm p vm' \<longrightarrow> computeArkadeSighash L vm' h =
      CalcArkadeScriptSignatureHash L (Some (NewTxSigHashes L t f)) h (Some t) idx (Some f) (spendingTapLeaf s) [p])"
proof -
  note e = prepare_engine_env [OF assms(8)]
  have ok: "eng_ok M vm" using prepare_engine_ok [OF assms(1-7), of opts] assms(8) by simp
  note w = prepare_engine_start(3) [OF assms(8,9)]
  have "accounted ops vm vm'" using runs_accounted [OF assms(10,1) ok w] by blast
  then obtain c where c: "taprootCtx vm' = Some c" "same_tx vm vm'"
    using e by (auto simp: accounted_def)
  have "computeArkadeSighash L vm' h =
      CalcArkadeScriptSignatureHash L (Some (NewTxSigHashes L t f)) h (Some t) idx (Some f) (spendingTapLeaf s) [p]"
    if "sep_runs L vm p vm'" for p
  proof -
    have "codeSepPos (newTaprootExecutionCtxForLeaf L l) = blankCodeSepValue" for l
      by (simp add: newTaprootExecutionCtxForLeaf_def newTaprootExecutionCtx_def)
    then have p: "codeSepPos c = p" using sep_runs_pos [OF that assms(1) ok w] e c(1) by fastforce
    let ?ctx = "(newTaprootExecutionCtxForLeaf L (spendingTapLeaf s))\<lparr>codeSepPos := codeSepPos c\<rparr>"
    let ?e = "sighash_engine t idx (NewTxSigHashes L t f) (Some f) (Some ?ctx)"
    have "same_tx vm ?e" using e by (simp add: same_tx_def leaf_of_def sighash_engine_def)
    then have "same_tx vm' ?e" using c(2) by (simp add: same_tx_def)
    then have "buildArkadeSigMsg L vm' h = buildArkadeSigMsg L ?e h"
      by (rule buildArkadeSigMsg_cong [where c' = ?ctx, OF _ c(1)]) (simp_all add: sighash_engine_def)
    then show ?thesis using p by (simp add: computeArkadeSighash_def CalcArkadeScriptSignatureHash_def)
  qed
  then show ?thesis using runs_sep [OF assms(10)] by blast
qed

theorem signing_hash_agrees_witness:
  "\<exists>v. sep_runs ex_lib ex_vm blankCodeSepValue v \<and> v \<noteq> ex_vm \<and> computeArkadeSighash ex_lib v 0 =
    CalcArkadeScriptSignatureHash ex_lib (Some (NewTxSigHashes ex_lib ex_tx ex_fetcher)) 0 (Some ex_tx) 0
      (Some ex_fetcher) (spendingTapLeaf ex_script) [blankCodeSepValue]"
proof -
  obtain v where v: "Step ex_lib ex_vm = Inr (True, v)" using ex_step by blast
  have n: "next_sep ex_vm p = p" for p by (simp add: next_sep_def ex_next)
  have s: "sep_runs ex_lib ex_vm blankCodeSepValue v" using sep_step [OF sep_start v] n by simp
  obtain ops where o: "runs ex_lib ex_vm ops v" using sep_runs_runs [OF s] by blast
  have "v \<noteq> ex_vm" using Step_accounted [OF ex_lib_ok ex_vm_ok v] by (auto simp: ex_vm_def)
  moreover have h: "\<not> IsWitnessProgram ex_lib (as_script ex_script)" "0 < int (length (TxIn ex_tx))"
    by (simp_all add: ex_script_def ex_witness_program_def)
  ultimately show ?thesis
    using s signing_hash_agrees [OF ex_lib_ok ex_script_fits(2) ex_tx_ok ex_script_fits(1) _ h(2) ex_prevouts ex_prepared h(1) o, of 0]
    by auto
qed

subsection \<open>What the signature hash commits to\<close>

text \<open>An output carrying an emulator packet: its extension has the packet between others, the
first of its type.\<close>

definition emulator_output :: "lib \<Rightarrow> txout \<Rightarrow> ext_packet list \<Rightarrow> emulatorEntry list \<Rightarrow> ext_packet list \<Rightarrow> bool" where
  "emulator_output L out pre p post \<longleftrightarrow>
     IsExtension L (PkScript out) \<and> list_all (\<lambda>x. packet_Type x \<noteq> PacketType) pre \<and>
     (\<exists>d. NewExtensionFromBytes L (PkScript out) = Inr (pre @ UnknownPacket PacketType d # post) \<and>
          DeserializeEmulatorPacket L d = Inr p)"

definition masked_output :: "lib \<Rightarrow> int64 \<Rightarrow> ext_packet list \<Rightarrow> emulatorEntry list \<Rightarrow> ext_packet list \<Rightarrow> txout res" where
  "masked_output L v pre p post =
     bindE (serializeEmulatorPacketMasked L p) (\<lambda>d.
     bindE (ext_Serialize L (pre @ UnknownPacket PacketType d # post)) (\<lambda>scr.
     Inr \<lparr>out_value = v, PkScript = scr\<rparr>))"

lemma mask_packets_skip:
  "list_all (\<lambda>x. packet_Type x \<noteq> PacketType) pre \<Longrightarrow>
   mask_packets L out i before (pre @ ext) = mask_packets L out i (before @ pre) ext"
  by (induction pre arbitrary: before) auto

lemma mask_outputs_skip:
  "list_all (\<lambda>x. \<not> IsExtension L (PkScript x)) outs \<Longrightarrow>
   mask_outputs L i (outs @ rest) = mask_outputs L (i + length outs) rest"
  by (induction outs arbitrary: i) auto

lemma maskExtensionOutput_at:
  assumes "emulator_output L out pre p post" "list_all (\<lambda>x. \<not> IsExtension L (PkScript x)) before"
    and "TxOut t = before @ out # after"
  shows "maskExtensionOutput L t = bindE (masked_output L (out_value out) pre p post) (\<lambda>m. Inr (Some (m, length before)))"
  using assms
  by (auto simp: maskExtensionOutput_def mask_outputs_skip emulator_output_def mask_packets_skip masked_output_def
      bindE_def split: sum.split)

lemma written_outputs:
  "map (\<lambda>(i, x). f (if i = length before then m else x)) (enumerate 0 (before @ out # after)) =
   map f before @ f m # map f after"
proof -
  have b: "map (\<lambda>(i, x). f (if i = k then m else x)) (enumerate n xs) = map f xs" if "n + length xs \<le> k \<or> k < n" for n k xs
    using that by (induction xs arbitrary: n) auto
  show ?thesis by (simp add: enumerate_append_eq b)
qed

lemma sighash_masked_equal:
  assumes "TxOut t = before @ out # after" "list_all (\<lambda>x. \<not> IsExtension L (PkScript x)) before"
    and "emulator_output L out pre p post" "emulator_output L out' pre q post" "out_value out' = out_value out"
    and "map (\<lambda>e. (Vin e, ent_Script e)) p = map (\<lambda>e. (Vin e, ent_Script e)) q"
  shows "computeArkadeSighash L (vm\<lparr>tx := t\<rparr>) h = computeArkadeSighash L (vm\<lparr>tx := t\<lparr>TxOut := before @ out' # after\<rparr>\<rparr>) h"
proof -
  let ?t = "t\<lparr>TxOut := before @ out' # after\<rparr>"
  have m: "masked_output L (out_value out) pre p post = masked_output L (out_value out') pre q post"
    by (simp add: masked_output_def masked_ignores_witness [OF assms(6)] assms(5))
  have e: "maskExtensionOutput L t = maskExtensionOutput L ?t"
    using maskExtensionOutput_at [OF assms(3,2,1)] maskExtensionOutput_at [OF assms(4,2), of ?t after] m by simp
  note mt = maskExtensionOutput_at [OF assms(3,2,1)]
  have hash: "arkadeOutputsHash L t = arkadeOutputsHash L ?t"
    unfolding arkadeOutputsHash_def e [symmetric] mt
    by (cases "masked_output L (out_value out) pre p post")
      (simp_all add: assms(1) written_outputs [of "WriteTxOut L"])
  have single: "bindE (maskExtensionOutput L t) (\<lambda>m. Inr (sha256 L (WriteTxOut L (case m of
        Some (masked, maskedIdx) \<Rightarrow> if int maskedIdx = idx then masked else TxOut t ! nat idx | None \<Rightarrow> TxOut t ! nat idx))))
      = bindE (maskExtensionOutput L ?t) (\<lambda>m. Inr (sha256 L (WriteTxOut L (case m of
        Some (masked, maskedIdx) \<Rightarrow> if int maskedIdx = idx then masked else TxOut ?t ! nat idx | None \<Rightarrow> TxOut ?t ! nat idx))))"
    if "0 \<le> idx" for idx
    unfolding e [symmetric] mt
    by (cases "masked_output L (out_value out) pre p post")
      (use that in \<open>auto simp: assms(1) nth_append nth_Cons' not_less\<close>)
  have f: "TxIn ?t = TxIn t" "tx_version ?t = tx_version t" "LockTime ?t = LockTime t"
    "length (TxOut ?t) = length (TxOut t)"
    by (simp_all add: assms(1))
  have g: "tx (vm\<lparr>tx := u\<rparr>) = u" "txIdx (vm\<lparr>tx := u\<rparr>) = txIdx vm" "taprootCtx (vm\<lparr>tx := u\<rparr>) = taprootCtx vm"
    "hashCache (vm\<lparr>tx := u\<rparr>) = hashCache vm" "prevOutFetcher (vm\<lparr>tx := u\<rparr>) = prevOutFetcher vm" for u
    by simp_all
  have b: "buildArkadeSigMsg L (vm\<lparr>tx := t\<rparr>) h = buildArkadeSigMsg L (vm\<lparr>tx := ?t\<rparr>) h"
  proof (cases "0 \<le> txIdx vm")
    case True
    show ?thesis
      unfolding buildArkadeSigMsg_def Let_def
      by (simp only: g f hash single [OF True])
  next
    case False
    then show ?thesis by (simp add: buildArkadeSigMsg_def split: option.split)
  qed
  show ?thesis unfolding computeArkadeSighash_def b ..
qed

text \<open>The outputs hash is the hash of the written outputs, the emulator packet masked.\<close>

lemma arkadeOutputsHash_at:
  assumes "emulator_output L out pre p post" "list_all (\<lambda>x. \<not> IsExtension L (PkScript x)) before"
    and "TxOut t = before @ out # after" "arkadeOutputsHash L t = Inr h"
  shows "\<exists>m. masked_output L (out_value out) pre p post = Inr m \<and>
    h = sha256 L (concat (map (WriteTxOut L) (before @ m # after)))"
proof (cases "masked_output L (out_value out) pre p post")
  case (Inl e)
  then show ?thesis using assms(4) maskExtensionOutput_at [OF assms(1-3)] by (simp add: arkadeOutputsHash_def)
next
  case (Inr m)
  then show ?thesis using assms(4) maskExtensionOutput_at [OF assms(1-3)] written_outputs [of "WriteTxOut L" before m out after]
    by (simp add: arkadeOutputsHash_def assms(3))
qed

lemma emulator_output_masked:
  assumes "emulator_output L out pre p post" "emulator_output L out' pre q post" "varint_codec L"
    and "map (\<lambda>e. (Vin e, ent_Script e)) p \<noteq> map (\<lambda>e. (Vin e, ent_Script e)) q"
    and "\<And>d d' scr. \<lbrakk>ext_Serialize L (pre @ UnknownPacket PacketType d # post) = Inr scr;
           ext_Serialize L (pre @ UnknownPacket PacketType d' # post) = Inr scr\<rbrakk> \<Longrightarrow> d = d'"
    and "masked_output L v pre p post = Inr m" "masked_output L v pre q post = Inr m'"
  shows "m \<noteq> m'"
proof -
  obtain d d' scr scr' where d: "serializeEmulatorPacketMasked L p = Inr d" "serializeEmulatorPacketMasked L q = Inr d'"
      "ext_Serialize L (pre @ UnknownPacket PacketType d # post) = Inr scr"
      "ext_Serialize L (pre @ UnknownPacket PacketType d' # post) = Inr scr'" "PkScript m = scr" "PkScript m' = scr'"
    using assms(6,7) by (auto simp: masked_output_def bindE_Inr_iff)
  obtain x y where xy: "DeserializeEmulatorPacket L x = Inr p" "DeserializeEmulatorPacket L y = Inr q"
    using assms(1,2) by (auto simp: emulator_output_def)
  have "d \<noteq> d'"
    using masked_packet_same [OF assms(3) xy] d(1,2) assms(4) by auto
  then show ?thesis using assms(5) d(3-6) by metis
qed

text \<open>Replacing the outputs hash replaces the message.\<close>

lemma buildArkadeSigMsg_outputs:
  assumes "buildArkadeSigMsg L (vm\<lparr>tx := t\<rparr>) h = Inr msg" "buildArkadeSigMsg L (vm\<lparr>tx := t\<lparr>TxOut := outs\<rparr>\<rparr>) h = Inr msg'"
    and "arkadeOutputsHash L t = Inr x" "arkadeOutputsHash L (t\<lparr>TxOut := outs\<rparr>) = Inr x'" "x \<noteq> x'"
    and "h AND sigHashMask \<noteq> SigHashSingle" "h AND sigHashMask \<noteq> SigHashNone"
  shows "msg \<noteq> msg'"
proof -
  have g: "tx (vm\<lparr>tx := u\<rparr>) = u" "txIdx (vm\<lparr>tx := u\<rparr>) = txIdx vm" "taprootCtx (vm\<lparr>tx := u\<rparr>) = taprootCtx vm"
    "hashCache (vm\<lparr>tx := u\<rparr>) = hashCache vm" "prevOutFetcher (vm\<lparr>tx := u\<rparr>) = prevOutFetcher vm" for u
    by simp_all
  show ?thesis
    using assms
    by (auto simp: buildArkadeSigMsg_def g Let_def bindE_Inr_iff simp del: le_fixed.simps
        split: option.splits if_splits)
qed

text \<open>C18: The signature hash leaves the emulator witnesses out and nothing else of the packet. Take two
transactions that differ only in the packet of their emulator output. When the packets have the same
vins and scripts in the same order, the signature hashes agree for every input, leaf, code separator
and hash type, so a witness can be filled in after signing. When they do not, the serialised outputs
that the outputs hash is taken of are different; and unless sha256 collides on these two, the messages
that are signed differ for every hash type that covers all outputs. Of the libraries: varints
round-trip, a written output determines the output, and a written extension determines the data of
the packet at its place.\<close>

theorem sighash_ignores_witnesses:
  assumes "TxOut t = before @ out # after" "list_all (\<lambda>x. \<not> IsExtension L (PkScript x)) before"
    and "emulator_output L out pre p post" "emulator_output L out' pre q post" "out_value out' = out_value out"
    and "t' = t\<lparr>TxOut := before @ out' # after\<rparr>"
    and "varint_codec L" "inj (WriteTxOut L)"
    and "\<And>d d' scr. \<lbrakk>ext_Serialize L (pre @ UnknownPacket PacketType d # post) = Inr scr;
           ext_Serialize L (pre @ UnknownPacket PacketType d' # post) = Inr scr\<rbrakk> \<Longrightarrow> d = d'"
  shows "if map (\<lambda>e. (Vin e, ent_Script e)) p = map (\<lambda>e. (Vin e, ent_Script e)) q
    then \<forall>vm h. computeArkadeSighash L (vm\<lparr>tx := t\<rparr>) h = computeArkadeSighash L (vm\<lparr>tx := t'\<rparr>) h
    else \<forall>x x'. arkadeOutputsHash L t = Inr x \<and> arkadeOutputsHash L t' = Inr x' \<longrightarrow>
      (\<exists>m m'. masked_output L (out_value out) pre p post = Inr m \<and> masked_output L (out_value out) pre q post = Inr m' \<and>
         x = sha256 L (concat (map (WriteTxOut L) (before @ m # after))) \<and>
         x' = sha256 L (concat (map (WriteTxOut L) (before @ m' # after))) \<and>
         concat (map (WriteTxOut L) (before @ m # after)) \<noteq> concat (map (WriteTxOut L) (before @ m' # after))) \<and>
      (x \<noteq> x' \<longrightarrow> (\<forall>vm h msg msg'. h AND sigHashMask \<noteq> SigHashSingle \<and> h AND sigHashMask \<noteq> SigHashNone \<and>
         buildArkadeSigMsg L (vm\<lparr>tx := t\<rparr>) h = Inr msg \<and> buildArkadeSigMsg L (vm\<lparr>tx := t'\<rparr>) h = Inr msg' \<longrightarrow> msg \<noteq> msg'))"
proof (cases "map (\<lambda>e. (Vin e, ent_Script e)) p = map (\<lambda>e. (Vin e, ent_Script e)) q")
  case True
  then show ?thesis using sighash_masked_equal [OF assms(1-5) True] by (simp add: assms(6))
next
  case False
  have t': "TxOut t' = before @ out' # after" by (simp add: assms(6))
  have "\<exists>m m'. masked_output L (out_value out) pre p post = Inr m \<and> masked_output L (out_value out) pre q post = Inr m' \<and>
         x = sha256 L (concat (map (WriteTxOut L) (before @ m # after))) \<and>
         x' = sha256 L (concat (map (WriteTxOut L) (before @ m' # after))) \<and>
         concat (map (WriteTxOut L) (before @ m # after)) \<noteq> concat (map (WriteTxOut L) (before @ m' # after))"
    if h: "arkadeOutputsHash L t = Inr x" "arkadeOutputsHash L t' = Inr x'" for x x'
  proof -
    obtain m where m: "masked_output L (out_value out) pre p post = Inr m"
        "x = sha256 L (concat (map (WriteTxOut L) (before @ m # after)))"
      using arkadeOutputsHash_at [OF assms(3,2,1) h(1)] by blast
    obtain m' where m': "masked_output L (out_value out) pre q post = Inr m'"
        "x' = sha256 L (concat (map (WriteTxOut L) (before @ m' # after)))"
      using arkadeOutputsHash_at [OF assms(4,2) t' h(2)] assms(5) by auto
    have "m \<noteq> m'" by (rule emulator_output_masked [OF assms(3,4,7) False assms(9) m(1) m'(1)])
    then have "WriteTxOut L m \<noteq> WriteTxOut L m'" using assms(8) by (auto dest: injD)
    with m m' show ?thesis by auto
  qed
  moreover have "msg \<noteq> msg'"
    if "arkadeOutputsHash L t = Inr x" "arkadeOutputsHash L t' = Inr x'" "x \<noteq> x'" "h AND sigHashMask \<noteq> SigHashSingle"
      "h AND sigHashMask \<noteq> SigHashNone" "buildArkadeSigMsg L (vm\<lparr>tx := t\<rparr>) h = Inr msg" "buildArkadeSigMsg L (vm\<lparr>tx := t'\<rparr>) h = Inr msg'"
    for x x' vm h msg msg'
    by (rule buildArkadeSigMsg_outputs [OF that(6) that(7) [unfolded assms(6)] that(1) that(2) [unfolded assms(6)] that(3-5)])
  ultimately show ?thesis unfolding if_not_P [OF False] by blast
qed

lemma ex_WriteTxOut_inj: "inj (WriteTxOut ex_lib)"
proof (rule injI)
  fix a b :: txout
  assume e: "WriteTxOut ex_lib a = WriteTxOut ex_lib b"
  then have "take 8 (WriteTxOut ex_lib a) = take 8 (WriteTxOut ex_lib b)"
    "drop 16 (WriteTxOut ex_lib a) = drop 16 (WriteTxOut ex_lib b)" by simp_all
  then have "le_fixed 8 (unat (out_value a)) = le_fixed 8 (unat (out_value b))" "PkScript a = PkScript b"
    by (simp_all add: ex_WriteVarBytes_def ex_WriteVarInt_def del: le_fixed.simps)
  then have "le_val (le_fixed 8 (unat (out_value a))) = le_val (le_fixed 8 (unat (out_value b)))" by simp
  moreover have "unat w mod 256 ^ 8 = unat w" for w :: int64
    using unsigned_less [of w] by (intro mod_less) simp
  ultimately have "unat (out_value a) = unat (out_value b)" by (simp add: le_val_le_fixed del: le_fixed.simps)
  then have "out_value a = out_value b" by (simp only: word_unat_eq_iff)
  with \<open>PkScript a = PkScript b\<close> show "a = b" by simp
qed

theorem sighash_ignores_witnesses_witness:
  "\<exists>t. t \<noteq> ex_tx \<and> computeArkadeSighash ex_lib (ex_vm\<lparr>tx := ex_tx\<rparr>) 1 = computeArkadeSighash ex_lib (ex_vm\<lparr>tx := t\<rparr>) 1"
proof -
  let ?q = "map (\<lambda>e. e\<lparr>ent_Witness := [[9]]\<rparr>) ex_packet"
  let ?out = "\<lambda>p. \<lparr>out_value = 0, PkScript = ex_magic @ PacketType # projr (Packet_Serialize ex_lib p)\<rparr>"
  have v: "Validate ?q = Inr ()" "fits ex_lib ?q" "\<forall>e \<in> set ?q. witness_codec ex_lib (ent_Witness e)"
    by (simp_all add: Validate_iff ex_packet_def fits_def entry_size_def witness_codec_def ex_witness
      ex_WriteTxWitness_def ex_write_item_def MaxScriptLength_def MaxWitnessLength_def MaxTotalEntrySize_def)
  have o: "emulator_output ex_lib (?out p) [] p []"
    if "DeserializeEmulatorPacket ex_lib (projr (Packet_Serialize ex_lib p)) = Inr p" for p
    using that by (auto simp: emulator_output_def ex_magic_def ex_ext_parse_def PacketType_def)
  note o1 = o [OF Deserialize_Serialize [OF ex_varint_codec ex_packet_ok(3) ex_packet_ok(1,2)]]
  note o2 = o [OF Deserialize_Serialize [OF ex_varint_codec v(3) v(1,2)]]
  have t: "TxOut ex_tx = [] @ ?out ex_packet # []" by (simp add: ex_tx_def)
  let ?t = "ex_tx\<lparr>TxOut := [] @ ?out ?q # []\<rparr>"
  have x: "d = d'" if "ext_Serialize ex_lib ([] @ UnknownPacket PacketType d # []) = Inr scr"
    "ext_Serialize ex_lib ([] @ UnknownPacket PacketType d' # []) = Inr scr" for d d' scr
    using that by (auto simp: ex_ext_write_def)
  have "map (\<lambda>e. (Vin e, ent_Script e)) ex_packet = map (\<lambda>e. (Vin e, ent_Script e)) ?q" by (simp add: ex_packet_def)
  then have s: "computeArkadeSighash ex_lib (ex_vm\<lparr>tx := ex_tx\<rparr>) 1 = computeArkadeSighash ex_lib (ex_vm\<lparr>tx := ?t\<rparr>) 1"
    using sighash_ignores_witnesses [OF t _ o1 o2 _ refl ex_varint_codec ex_WriteTxOut_inj x] by simp
  have "ex_packet \<noteq> ?q" by (simp add: ex_packet_def)
  then have "?out ex_packet \<noteq> ?out ?q" using o1 o2 by (auto simp: emulator_output_def)
  then have "ex_tx\<lparr>TxOut := [] @ ?out ?q # []\<rparr> \<noteq> ex_tx" using t by (auto dest: arg_cong [where f = TxOut])
  with s show ?thesis by metis
qed

subsection \<open>Signature checks\<close>

text \<open>What a valid signature is: the key parses under one of the schemes, the signature splits
into its core and a hash type, the hash is defined, and the scheme accepts.\<close>

definition signed :: "lib \<Rightarrow> vm \<Rightarrow> bytes \<Rightarrow> bytes \<Rightarrow> bool" where
  "signed L vm pk sig \<longleftrightarrow>
     (\<exists>scheme core h digest. parseSchemePubKey L pk = Inr scheme \<and> splitTaprootSig sig = Inr (core, h) \<and>
        computeArkadeSighash L vm h = Inr digest \<and> scheme_verify L scheme digest core)"

text \<open>Every entry of the signature cache is a verified signature.  The hash type is in the
signature, so the entry determines it.\<close>

definition cache_sound :: "lib \<Rightarrow> sig_cache \<Rightarrow> bool" where
  "cache_sound L cache \<longleftrightarrow> (case cache of None \<Rightarrow> True | Some c \<Rightarrow>
     (\<forall>(digest, sig, pk) \<in> set c. \<exists>scheme core h. parseSchemePubKey L pk = Inr scheme \<and>
        splitTaprootSig sig = Inr (core, h) \<and> scheme_verify L scheme digest core))"

text \<open>The cache keeps what it has been given, and nothing else.\<close>

definition cache_add_ok :: "lib \<Rightarrow> bool" where
  "cache_add_ok L \<longleftrightarrow> (\<forall>e c. set (sigCache_Add L e c) \<subseteq> insert e (set c))"

lemma sv_Verify_sound:
  assumes "newTapscriptSigVerifier L pk sig = Inr v" "sv_Verify L v vm = Inr (ok, cache)"
    and "cache_sound L (sigCache vm)" "cache_add_ok L"
  shows "ok = signed L vm pk sig \<and> cache_sound L cache"
proof -
  obtain scheme core h where v: "parseSchemePubKey L pk = Inr scheme" "splitTaprootSig sig = Inr (core, h)"
    "v = \<lparr>sv_scheme = scheme, sv_pkBytes = pk, sv_fullSigBytes = sig, sv_coreSig = core, sv_hashType = h\<rparr>"
    using assms(1) by (auto simp: newTapscriptSigVerifier_def bindE_Inr_iff)
  have s: "signed L vm pk sig \<longleftrightarrow> (\<exists>digest. computeArkadeSighash L vm h = Inr digest \<and> scheme_verify L scheme digest core)"
    using v by (auto simp: signed_def)
  show ?thesis
  proof (cases "computeArkadeSighash L vm h")
    case (Inl e)
    then show ?thesis using assms(2,3) s by (cases e) (auto simp: sv_Verify_def v(3))
  next
    case (Inr d)
    then have r: "verifySig L v d (sigCache vm) = (ok, cache)" using assms(2) by (simp add: sv_Verify_def v(3))
    have hit: "scheme_verify L scheme d core" if "sigCache vm = Some c" "(d, sig, pk) \<in> set c" for c
      using assms(3) that v(1,2) by (fastforce simp: cache_sound_def)
    have add: "cache_sound L (map_option (sigCache_Add L (d, sig, pk)) (sigCache vm))" if "scheme_verify L scheme d core"
    proof (cases "sigCache vm")
      case (Some c)
      have "set (sigCache_Add L (d, sig, pk) c) \<subseteq> insert (d, sig, pk) (set c)"
        using assms(4) by (simp add: cache_add_ok_def)
      then show ?thesis using assms(3) Some that v(1,2) by (fastforce simp: cache_sound_def)
    qed (simp add: cache_sound_def)
    show ?thesis
      using r hit add assms(3)
      by (auto simp: verifySig_def v(3) s Inr Let_def split: if_splits option.splits)
  qed
qed

text \<open>The result of a check: an empty signature is false, a valid one true, and any other
ends the script.\<close>

definition check_result :: "lib \<Rightarrow> vm \<Rightarrow> bytes \<Rightarrow> bytes \<Rightarrow> bool option" where
  "check_result L vm pk sig =
     (if pk = [] then None else if sig = [] then Some False else if signed L vm pk sig then Some True else None)"

lemma signed_dstack [simp]: "signed L (vm\<lparr>dstack := s\<rparr>) pk sig = signed L vm pk sig"
  by (simp add: signed_def)

lemma opcodeCheckSig_items:
  assumes "taprootCtx vm \<noteq> None" "items (dstack vm) = pk # sig # r"
  shows "opcodeCheckSig L op data vm =
    (if pk = [] then script_err ErrTaprootPubkeyIsEmpty
     else if sig = [] then Inr (vm\<lparr>dstack := with_items (dstack vm) ([] # r)\<rparr>)
     else bindE (newTapscriptSigVerifier L pk sig) (\<lambda>v.
       bindE (sv_Verify L v (vm\<lparr>dstack := with_items (dstack vm) r\<rparr>)) (\<lambda>(valid, cache).
       if \<not> valid then script_err ErrNullFail
       else Inr (vm\<lparr>dstack := with_items (dstack vm) ((if valid then [1] else []) # r), sigCache := cache\<rparr>))))"
  using assms
  by (cases "taprootCtx vm") (simp_all add: opcodeCheckSig_def PopByteArray_items PushByteArray_items PushBool_def fromBool_def cong: if_cong)

lemma PopInt_enc:
  assumes "items s = enc n # r" "\<bar>n\<bar> < 2 ^ 31"
  shows "PopInt s = Inr (word_of_int n, with_items s r)"
proof -
  have "length (enc n) \<le> 4" using length_enc_le_iff [of 4 n] assms(2) by simp
  then show ?thesis using assms(1) by (simp add: PopInt_items MakeScriptNum_eq maxScriptNumLen_def)
qed

lemma PushInt_word:
  assumes "\<bar>n\<bar> \<le> 2 ^ 31"
  shows "PushInt (word_of_int n) s = Inr (with_items s (enc n # items s))"
proof -
  have "sint (word_of_int n :: int64) = n" using assms by (intro sint_fits64) (simp add: fits64_def abs_le_iff)
  moreover from this have "(word_of_int n :: int64) \<noteq> MinInt64" using assms by auto
  ultimately show ?thesis by (simp add: PushInt_def scriptNum_Bytes_eq PushByteArray_items)
qed

lemma opcodeCheckSigAdd_items:
  assumes "taprootCtx vm \<noteq> None" "items (dstack vm) = pk # enc n # sig # r" "\<bar>n\<bar> < 2 ^ 31"
  shows "opcodeCheckSigAdd L op data vm =
    (if pk = [] then script_err ErrTaprootPubkeyIsEmpty
     else if sig = [] then Inr (vm\<lparr>dstack := with_items (dstack vm) (enc n # r)\<rparr>)
     else bindE (newTapscriptSigVerifier L pk sig) (\<lambda>v.
       bindE (sv_Verify L v (vm\<lparr>dstack := with_items (dstack vm) r\<rparr>)) (\<lambda>(valid, cache).
       if \<not> valid then script_err ErrNullFail
       else Inr (vm\<lparr>dstack := with_items (dstack vm) (enc (n + 1) # r), sigCache := cache\<rparr>))))"
proof -
  have p: "PushInt (word_of_int n + 1) s = Inr (with_items s (enc (n + 1) # items s))" for s
    using PushInt_word [of "n + 1" s] assms(3) by (simp add: abs_le_iff abs_less_iff)
  have q: "PushInt (word_of_int n) s = Inr (with_items s (enc n # items s))" for s
    using PushInt_word [of n s] assms(3) by simp
  have i: "PopInt (with_items s (enc n # sig # r)) = Inr (word_of_int n, with_items s (sig # r))" for s
    using PopInt_enc [of "with_items s (enc n # sig # r)" n "sig # r"] assms(3) by simp
  show ?thesis
    using assms(1,2)
    by (cases "taprootCtx vm") (simp_all add: opcodeCheckSigAdd_def PopByteArray_items i p q cong: if_cong)
qed

lemma checked_continuation:
  assumes "bindE (newTapscriptSigVerifier L pk sig) (\<lambda>v.
       bindE (sv_Verify L v (vm\<lparr>dstack := s\<rparr>)) (\<lambda>(valid, cache).
       if \<not> valid then script_err ErrNullFail else Inr (vm\<lparr>dstack := t valid, sigCache := cache\<rparr>))) = Inr vm'"
    and "cache_sound L (sigCache vm)" "cache_add_ok L"
  shows "signed L vm pk sig \<and> cache_sound L (sigCache vm') \<and> dstack vm' = t True"
proof -
  obtain v ok cache where v: "newTapscriptSigVerifier L pk sig = Inr v"
      "sv_Verify L v (vm\<lparr>dstack := s\<rparr>) = Inr (ok, cache)" "ok" "vm' = vm\<lparr>dstack := t True, sigCache := cache\<rparr>"
    using assms(1) by (auto simp: bindE_Inr_iff split: if_splits)
  then show ?thesis using sv_Verify_sound [OF v(1,2) _ assms(3)] assms(2) by simp
qed

text \<open>C17: CHECKSIG and CHECKSIGADD accept exactly the valid signatures: with a key and a
signature on the stack, a run goes on past them only when the signature is empty, which
pushes false (or the accumulator unchanged), or when it is a valid signature of the
transaction's hash under the key's scheme, which pushes true (or the accumulator plus
one); a signature that is neither ends the script.  The signature cache can not change
that: it only ever holds valid signatures.\<close>

theorem checksig_exact:
  assumes "cache_sound L (sigCache vm)" "cache_add_ok L" "taprootCtx vm \<noteq> None"
    and "items (dstack vm) = pk # below"
  shows "(below = sig # r \<and> opcodeCheckSig L op data vm = Inr vm1 \<longrightarrow>
      cache_sound L (sigCache vm1) \<and>
      (\<exists>ok. check_result L vm pk sig = Some ok \<and> items (dstack vm1) = (if ok then [1] else []) # r)) \<and>
    (below = enc n # sig # r \<and> \<bar>n\<bar> < 2 ^ 31 \<and> opcodeCheckSigAdd L op data vm = Inr vm2 \<longrightarrow>
      cache_sound L (sigCache vm2) \<and>
      (\<exists>ok. check_result L vm pk sig = Some ok \<and> items (dstack vm2) = enc (if ok then n + 1 else n) # r))"
proof (intro conjI impI)
  assume "below = sig # r \<and> opcodeCheckSig L op data vm = Inr vm1"
  then have i: "items (dstack vm) = pk # sig # r" and c: "opcodeCheckSig L op data vm = Inr vm1"
    using assms(4) by simp_all
  note c' = c [unfolded opcodeCheckSig_items [OF assms(3) i]]
  have "cache_sound L (sigCache vm1) \<and>
     (\<exists>ok. check_result L vm pk sig = Some ok \<and> items (dstack vm1) = (if ok then [1] else []) # r)"
  proof (cases "pk = [] \<or> sig = []")
    case True
    have p: "pk \<noteq> []" using c' by (cases "pk = []") simp_all
    then have "sig = []" using True by simp
    with c' p have "vm1 = vm\<lparr>dstack := with_items (dstack vm) ([] # r)\<rparr>"
      by (simp only: if_False if_True simp_thms sum.inject)
    with \<open>sig = []\<close> p assms(1) show ?thesis by (auto simp: check_result_def)
  next
    case False
    then have n: "pk \<noteq> []" "sig \<noteq> []" by simp_all
    show ?thesis
      using checked_continuation [OF c' [unfolded if_not_P [OF n(1)] if_not_P [OF n(2)]] assms(1,2)] n
      by (auto simp: check_result_def)
  qed
  then show "cache_sound L (sigCache vm1)"
    "\<exists>ok. check_result L vm pk sig = Some ok \<and> items (dstack vm1) = (if ok then [1] else []) # r" by blast+
next
  assume "below = enc n # sig # r \<and> \<bar>n\<bar> < 2 ^ 31 \<and> opcodeCheckSigAdd L op data vm = Inr vm2"
  then have i: "items (dstack vm) = pk # enc n # sig # r" "\<bar>n\<bar> < 2 ^ 31" and c: "opcodeCheckSigAdd L op data vm = Inr vm2"
    using assms(4) by simp_all
  note c' = c [unfolded opcodeCheckSigAdd_items [OF assms(3) i]]
  have "cache_sound L (sigCache vm2) \<and>
     (\<exists>ok. check_result L vm pk sig = Some ok \<and> items (dstack vm2) = enc (if ok then n + 1 else n) # r)"
  proof (cases "pk = [] \<or> sig = []")
    case True
    have p: "pk \<noteq> []" using c' by (cases "pk = []") simp_all
    then have "sig = []" using True by simp
    with c' p have "vm2 = vm\<lparr>dstack := with_items (dstack vm) (enc n # r)\<rparr>"
      by (simp only: if_False if_True simp_thms sum.inject)
    with \<open>sig = []\<close> p assms(1) show ?thesis by (auto simp: check_result_def)
  next
    case False
    then have n: "pk \<noteq> []" "sig \<noteq> []" by simp_all
    show ?thesis
      using checked_continuation [OF c' [unfolded if_not_P [OF n(1)] if_not_P [OF n(2)]] assms(1,2)] n
      by (auto simp: check_result_def)
  qed
  then show "cache_sound L (sigCache vm2)"
    "\<exists>ok. check_result L vm pk sig = Some ok \<and> items (dstack vm2) = enc (if ok then n + 1 else n) # r" by blast+
qed

theorem checksig_exact_witness:
  "opcodeCheckSigAdd ex_lib (opcodeArray 0) [] (ex_vm\<lparr>dstack := \<lparr>stk = [[], enc 5, [9]], verifyMinimalData = True\<rparr>\<rparr>)
     = Inr (ex_vm\<lparr>dstack := \<lparr>stk = [enc 5], verifyMinimalData = True\<rparr>\<rparr>)"
proof -
  let ?vm = "ex_vm\<lparr>dstack := \<lparr>stk = [[], enc 5, [9]], verifyMinimalData = True\<rparr>\<rparr>"
  have t: "taprootCtx ?vm \<noteq> None" "items (dstack ?vm) = [9] # enc 5 # [] # []"
    by (simp_all add: ex_vm_def items_def)
  have c: "cache_sound ex_lib (sigCache ?vm)" "cache_add_ok ex_lib"
    by (simp_all add: cache_sound_def cache_add_ok_def ex_vm_def)
  define vm2 where "vm2 = ?vm\<lparr>dstack := with_items (dstack ?vm) [enc 5]\<rparr>"
  have v: "opcodeCheckSigAdd ex_lib (opcodeArray 0) [] ?vm = Inr vm2"
    using opcodeCheckSigAdd_items [OF t, of ex_lib "opcodeArray 0" "[]"] by (simp add: vm2_def)
  then have "check_result ex_lib ?vm [9] [] = Some False"
    using checksig_exact [OF c t, where sig = "[]" and r = "[]" and n = 5 and op = "opcodeArray 0" and data = "[]"] by (auto simp: check_result_def)
  with v show ?thesis by (simp add: vm2_def with_items_def)
qed

subsection \<open>Hashing\<close>

text \<open>What the handlers of the streaming hash rely on: writing is concatenation, the sum of what
was written is the hash, and an encoded state decodes to the same state and has the framing of the
initial one.\<close>

definition sha256_stream :: "lib \<Rightarrow> bool" where
  "sha256_stream L \<longleftrightarrow>
     (\<forall>h a b. sha256_Write L (sha256_Write L h a) b = sha256_Write L h (a @ b)) \<and>
     (\<forall>d. sha256_Sum L (sha256_Write L (sha256_New L) d) = sha256 L d) \<and>
     (\<forall>d. gob_Decode L (gob_Encode L (sha256_Write L (sha256_New L) d)) = Some (sha256_Write L (sha256_New L) d)) \<and>
     (\<forall>h. length (gob_Encode L h) = length (gob_Encode L (sha256_New L)) \<and>
        (let n = length (gob_Encode L (sha256_New L)) - length (sha256_Marshal L (sha256_New L)) in
         take n (gob_Encode L h) = take n (gob_Encode L (sha256_New L))))"

definition sha_state_of :: "lib \<Rightarrow> bytes \<Rightarrow> bytes" where
  "sha_state_of L d = gob_Encode L (sha256_Write L (sha256_New L) d)"

lemma decode_sha_state:
  assumes "lib_ok L" "sha256_stream L"
  shows "decodeSha256State L (sha_state_of L d) = Inr (sha256_Write L (sha256_New L) d)"
proof -
  let ?n = "length (gob_Encode L (sha256_New L)) - length (sha256_Marshal L (sha256_New L))"
  let ?h = "sha256_Write L (sha256_New L) d"
  have m: "length (sha256_Marshal L (sha256_New L)) \<le> length (gob_Encode L (sha256_New L))"
    using lib_lengths(10) [OF assms(1)] .
  have e: "length (gob_Encode L ?h) = length (gob_Encode L (sha256_New L))"
    "take ?n (gob_Encode L ?h) = take ?n (gob_Encode L (sha256_New L))" "gob_Decode L (gob_Encode L ?h) = Some ?h"
    using assms(2) by (simp_all add: sha256_stream_def Let_def)
  then show ?thesis
    using m by (simp add: decodeSha256State_def sha256StateFraming_def slice_ok sha_state_of_def Let_def nat_diff_distrib)
qed

text \<open>The streaming hash computes SHA-256 of the concatenation: initialising with the first
part, updating with the parts that follow and finalising with the last pushes the hash of
all of them joined, however the data is cut up; a state is a single item on the stack, and
an item that does not have its framing is refused.\<close>

theorem streaming_sha256:
  assumes "lib_ok L" "sha256_stream L"
  shows "(items (dstack vm) = d # r \<longrightarrow>
      opcodeSha256Initialize L op data vm = Inr (vm\<lparr>dstack := with_items (dstack vm) (sha_state_of L d # r)\<rparr>)) \<and>
    (items (dstack vm) = e # sha_state_of L d # r \<longrightarrow>
      opcodeSha256Update L op data vm = Inr (vm\<lparr>dstack := with_items (dstack vm) (sha_state_of L (d @ e) # r)\<rparr>) \<and>
      opcodeSha256Finalize L op data vm = Inr (vm\<lparr>dstack := with_items (dstack vm) (sha256 L (d @ e) # r)\<rparr>)) \<and>
    (items (dstack vm) = e # x # r \<and> length x \<noteq> length (sha_state_of L []) \<longrightarrow>
      opcodeSha256Update L op data vm = script_err ErrInvalidStackOperation \<and>
      opcodeSha256Finalize L op data vm = script_err ErrInvalidStackOperation)"
proof -
  have s: "sha256_Write L (sha256_Write L (sha256_New L) d) e = sha256_Write L (sha256_New L) (d @ e)"
    "sha256_Sum L (sha256_Write L (sha256_New L) (d @ e)) = sha256 L (d @ e)"
    "length (sha_state_of L []) = length (gob_Encode L (sha256_New L))"
    using assms(2) by (simp_all add: sha256_stream_def sha_state_of_def)
  have m: "length (sha256_Marshal L (sha256_New L)) \<le> length (gob_Encode L (sha256_New L))"
    using lib_lengths(10) [OF assms(1)] .
  have x: "decodeSha256State L x = script_err ErrInvalidStackOperation" if "length x \<noteq> length (sha_state_of L [])"
    using that m s(3) by (simp add: decodeSha256State_def sha256StateFraming_def slice_ok Let_def)
  show ?thesis
    using decode_sha_state [OF assms, of d] x s(1,2)
    by (auto simp: opcodeSha256Initialize_def opcodeSha256Update_def opcodeSha256Finalize_def on_dstack_def
        PopByteArray_items PushByteArray_items sha_state_of_def)
qed

lemma ex_sha: "sha256_stream ex_lib"
  by (simp add: sha256_stream_def ex_digest_def ex_fold_def)

theorem streaming_sha256_witness:
  "opcodeSha256Finalize ex_lib (opcodeArray 0) [] (ex_vm\<lparr>dstack := \<lparr>stk = [sha_state_of ex_lib [1, 2], [3]], verifyMinimalData = True\<rparr>\<rparr>)
     = Inr (ex_vm\<lparr>dstack := \<lparr>stk = [sha256 ex_lib [1, 2, 3]], verifyMinimalData = True\<rparr>\<rparr>)"
  using streaming_sha256 [OF ex_lib_ok ex_sha, where e = "[3]" and d = "[1, 2]" and r = "[]" and op = "opcodeArray 0" and data = "[]" and
      vm = "ex_vm\<lparr>dstack := \<lparr>stk = [sha_state_of ex_lib [1, 2], [3]], verifyMinimalData = True\<rparr>\<rparr>"]
  by (simp add: items_def with_items_def del: ex_lib_simps)

text \<open>The reference walk: one pair of hashes after the other, the smaller first.\<close>

definition pair_hash :: "lib \<Rightarrow> bytes \<Rightarrow> bytes \<Rightarrow> bytes \<Rightarrow> bytes" where
  "pair_hash L t a b = TaggedHash L t (if bytes_less a b then a @ b else b @ a)"

lemma bytes_less_antisym: "length a = length b \<Longrightarrow> bytes_less a b \<Longrightarrow> \<not> bytes_less b a"
  by (induction a b rule: bytes_less.induct) auto

lemma bytes_less_total: "length a = length b \<Longrightarrow> bytes_less a b \<or> a = b \<or> bytes_less b a"
  by (induction a b rule: bytes_less.induct) auto

lemma pair_hash_sym: "length a = length b \<Longrightarrow> pair_hash L t a b = pair_hash L t b a"
  using bytes_less_antisym [of a b] bytes_less_antisym [of b a] bytes_less_total [of a b]
  by (auto simp: pair_hash_def)

lemma merkle_walk_foldl:
  "\<forall>s \<in> set sibs. length s = 32 \<Longrightarrow> merkle_walk L t c (concat sibs) = foldl (pair_hash L t) c sibs"
proof (induction sibs arbitrary: c)
  case (Cons s sibs)
  then have s: "concat (s # sibs) \<noteq> []" "take 32 (concat (s # sibs)) = s" "drop 32 (concat (s # sibs)) = concat sibs"
    by auto
  have "merkle_step L t c s = pair_hash L t c s" by (simp add: merkle_step_def pair_hash_def)
  moreover have "s \<noteq> []" using Cons.prems by auto
  ultimately show ?case
    using Cons unfolding merkle_walk.simps [of L t c "concat (s # sibs)"] s(2,3) by simp
qed (simp add: merkle_walk.simps)

text \<open>A Merkle proof of any length is checked hash by hash: with the leaf, the proof and
the tags on the stack the pushed root is the leaf hash combined with each 32-byte sibling
in turn, and combining does not depend on which side a hash is on; a proof that is not a
whole number of hashes, an empty branch tag, and an untagged leaf that is not a hash are
refused.\<close>

theorem merkle_branch_root:
  assumes "items (dstack vm) = leaf # path # tag # ltag # r"
  shows "(path = concat sibs \<and> list_all (\<lambda>s. length s = 32) sibs \<and> tag \<noteq> [] \<and> (ltag = [] \<longrightarrow> length leaf = 32) \<longrightarrow>
      opcodeMerkleBranchVerify L op data vm = Inr (vm\<lparr>dstack := with_items (dstack vm)
        (foldl (pair_hash L tag) (if ltag = [] then leaf else TaggedHash L ltag leaf) sibs # r)\<rparr>)) \<and>
    (length path mod 32 \<noteq> 0 \<or> tag = [] \<or> (ltag = [] \<and> length leaf \<noteq> 32) \<longrightarrow>
      opcodeMerkleBranchVerify L op data vm = script_err ErrInvalidStackOperation) \<and>
    (length a = 32 \<and> length b = 32 \<longrightarrow> pair_hash L tag a b = pair_hash L tag b a)"
proof -
  have l: "length (concat sibs) mod 32 = 0" if "list_all (\<lambda>s. length s = 32) sibs"
    using that by (induction sibs) auto
  have w: "merkle_walk L tag c (concat sibs) = foldl (pair_hash L tag) c sibs" if "list_all (\<lambda>s. length s = 32) sibs" for c
    using merkle_walk_foldl [of sibs L tag c] that by (simp add: list_all_iff)
  show ?thesis
    using assms l w pair_hash_sym [of a b L tag]
    by (auto simp: opcodeMerkleBranchVerify_def on_dstack_def PopByteArray_items PushByteArray_items Let_def)
qed

theorem merkle_branch_root_witness:
  "opcodeMerkleBranchVerify ex_lib (opcodeArray 0) []
     (ex_vm\<lparr>dstack := \<lparr>stk = [[], [1], replicate 32 2, replicate 32 3], verifyMinimalData = True\<rparr>\<rparr>)
   = Inr (ex_vm\<lparr>dstack := \<lparr>stk = [pair_hash ex_lib [1] (replicate 32 3) (replicate 32 2)], verifyMinimalData = True\<rparr>\<rparr>)"
  using merkle_branch_root [where leaf = "replicate 32 3" and path = "replicate 32 2" and tag = "[1]" and ltag = "[]"
      and r = "[]" and sibs = "[replicate 32 2]" and L = ex_lib and op = "opcodeArray 0" and data = "[]" and
      vm = "ex_vm\<lparr>dstack := \<lparr>stk = [[], [1], replicate 32 2, replicate 32 3], verifyMinimalData = True\<rparr>\<rparr>"]
  by (simp add: items_def with_items_def del: ex_lib_simps)

subsection \<open>Key tweaks\<close>

text \<open>The laws of secp256k1 the tweaks rely on: multiples of the base point add up modulo the
group order and only the zero multiple is the point at infinity; a compressed key starts
with 3 exactly for the key that its x-only form does not parse back to, which is then the
negated key; a hash reads as a scalar below the order.\<close>

definition secp_laws :: "lib \<Rightarrow> bool" where
  "secp_laws L \<longleftrightarrow>
     (\<forall>a b. a < SECP_N \<and> b < SECP_N \<longrightarrow>
        AddNonConst L (ScalarBaseMult L a) (ScalarBaseMult L b) = ScalarBaseMult L ((a + b) mod SECP_N)) \<and>
     (\<forall>a. a < SECP_N \<longrightarrow> (isInfinity (ScalarBaseMult L a) \<longleftrightarrow> a = 0)) \<and>
     (\<forall>a. 0 < a \<and> a < SECP_N \<longrightarrow>
        schnorr_ParsePubKey L (schnorr_SerializePubKey L (ScalarBaseMult L a)) =
          Inr (if SerializeCompressed L (ScalarBaseMult L a) ! 0 = PubKeyFormatCompressedOdd
               then ScalarBaseMult L (SECP_N - a) else ScalarBaseMult L a)) \<and>
     (\<forall>b. fst (modn_SetByteSlice L b) < SECP_N)"

text \<open>C20: The two tweaks belong together: for every signer key and script hash, the tweaked
public key computed from the signer's public key is the public key of the tweaked private
key, and one is refused (a zero tweak, or a sum at infinity) exactly when the other is;
so whoever holds the signer key can sign for exactly the scripts whose hash is in the key.\<close>

theorem tweaked_keys_agree:
  assumes "secp_laws L" "0 < k" "k < SECP_N"
  shows "ComputeArkadeScriptPublicKey L (ScalarBaseMult L k) h =
    Inr (map_option (ScalarBaseMult L) (ComputeArkadeScriptPrivateKey L k h))"
proof -
  define t where "t = fst (modn_SetByteSlice L h)"
  define k' where "k' = (if SerializeCompressed L (ScalarBaseMult L k) ! 0 = PubKeyFormatCompressedOdd
    then SECP_N - k else k)"
  have t: "t < SECP_N" and k': "k' < SECP_N" "(SECP_N - k) mod SECP_N = SECP_N - k"
    using assms by (auto simp: secp_laws_def t_def k'_def)
  have add: "AddNonConst L (ScalarBaseMult L k') (ScalarBaseMult L t) = ScalarBaseMult L ((t + k') mod SECP_N)"
    using assms(1) t k'(1) by (simp add: secp_laws_def add.commute)
  have inf: "isInfinity (ScalarBaseMult L ((t + k') mod SECP_N)) \<longleftrightarrow> (t + k') mod SECP_N = 0"
    using assms(1) t by (simp add: secp_laws_def)
  have parse: "schnorr_ParsePubKey L (schnorr_SerializePubKey L (ScalarBaseMult L k)) = Inr (ScalarBaseMult L k')"
    using assms by (simp add: secp_laws_def k'_def)
  have priv: "ComputeArkadeScriptPrivateKey L k h =
      (if t = 0 \<or> (t + k') mod SECP_N = 0 then None else Some ((t + k') mod SECP_N))"
    using k'(2) by (simp add: ComputeArkadeScriptPrivateKey_def Let_def t_def [symmetric] k'_def)
  show ?thesis
    by (simp add: ComputeArkadeScriptPublicKey_def Let_def t_def [symmetric] parse add inf priv)
qed

text \<open>A group with those laws: the multiple itself as the x coordinate, odd in its upper half.\<close>

definition group_lib :: lib where
  "group_lib = ex_lib\<lparr>ScalarBaseMult := (\<lambda>k. (k, 0)),
     AddNonConst := (\<lambda>p q. ((fst p + fst q) mod SECP_N, 0)),
     SerializeCompressed := (\<lambda>p. (if fst p \<le> SECP_N div 2 then 2 else 3) # le_fixed 32 (fst p)),
     schnorr_SerializePubKey := (\<lambda>p. le_fixed 32 (if fst p \<le> SECP_N div 2 then fst p else SECP_N - fst p)),
     modn_SetByteSlice := (\<lambda>b. (le_val b mod SECP_N, False))\<rparr>"

lemma group_lib_laws: "secp_laws group_lib"
  by (auto simp: secp_laws_def group_lib_def isInfinity_def PubKeyFormatCompressedOdd_def SECP_N_def
      simp del: le_fixed.simps)

theorem tweaked_keys_agree_witness:
  "ComputeArkadeScriptPublicKey group_lib (ScalarBaseMult group_lib 5) [7] = Inr (Some (12, 0)) \<and>
   ComputeArkadeScriptPrivateKey group_lib 5 [7] = Some 12"
  using tweaked_keys_agree [OF group_lib_laws, of 5 "[7]"]
  by (simp add: ComputeArkadeScriptPrivateKey_def group_lib_def SECP_N_def PubKeyFormatCompressedOdd_def)

text \<open>C21: A script read from a PSBT input is one its tapscript pays: the input exists and its
first leaf has the base version, the leaf decodes to a closure with keys, and one of these
keys is, as an x-only key, the signer key tweaked with the hash of the script; the result
carries the entry's script, witness and vin and is bound to the packet, and the leaf is
the one the signature hash will commit to.\<close>

theorem read_script_sound:
  assumes "ReadArkadeScript L inputs signer entry = Inr s"
  shows "unat (Vin entry) < length inputs \<and>
    (\<exists>leaf rest key closure keys.
       inputs ! unat (Vin entry) = Some leaf # rest \<and> tls_LeafVersion leaf = BaseLeafVersion \<and>
       ComputeArkadeScriptPublicKey L signer (ArkadeScriptHash L (ent_Script entry)) = Inr (Some key) \<and>
       DecodeClosure L (tls_Script leaf) = Inr closure \<and> closure_keys closure = Some keys \<and>
       schnorr_SerializePubKey L key \<in> schnorr_SerializePubKey L ` set keys \<and>
       spendingTapLeaf s = \<lparr>LeafVersion = BaseLeafVersion, leaf_Script = tls_Script leaf\<rparr> \<and>
       as_pubkey s = key \<and> closurePubkeys s = keys) \<and>
    as_script s = ent_Script entry \<and> as_witness s = ent_Witness entry \<and>
    packetBound s \<and> packetVin s = Vin entry"
proof -
  let ?i = "unat (Vin entry)"
  have i: "?i < length inputs" and ne: "inputs ! ?i \<noteq> []"
    using assms by (auto simp: ReadArkadeScript_def Let_def split: if_splits)
  obtain leaf rest where l: "inputs ! ?i = Some leaf # rest"
  proof -
    have "hd (inputs ! ?i) \<noteq> None"
      using assms i ne by (auto simp: ReadArkadeScript_def Let_def hd_conv_nth split: option.splits)
    then show thesis using that ne by (cases "inputs ! ?i") auto
  qed
  have lv: "tls_LeafVersion leaf = BaseLeafVersion"
    using assms i l by (auto simp: ReadArkadeScript_def Let_def split: if_splits)
  obtain key where k: "ComputeArkadeScriptPublicKey L signer (ArkadeScriptHash L (ent_Script entry)) = Inr (Some key)"
    using assms i l lv by (auto simp: ReadArkadeScript_def Let_def bindE_Inr_iff split: option.splits)
  obtain closure where c: "DecodeClosure L (tls_Script leaf) = Inr closure"
    using assms i l lv k by (auto simp: ReadArkadeScript_def Let_def bindE_Inr_iff)
  obtain keys where ks: "closure_keys closure = Some keys"
    using assms i l lv k c by (auto simp: ReadArkadeScript_def Let_def split: option.splits)
  have m: "schnorr_SerializePubKey L key \<in> schnorr_SerializePubKey L ` set keys"
    using assms i l lv k c ks by (auto simp: ReadArkadeScript_def Let_def list_ex_iff split: if_splits intro: rev_image_eqI)
  then have "s = \<lparr>as_script = ent_Script entry, as_hash = ArkadeScriptHash L (ent_Script entry),
      as_witness = ent_Witness entry, as_pubkey = key,
      spendingTapLeaf = \<lparr>LeafVersion = tls_LeafVersion leaf, leaf_Script = tls_Script leaf\<rparr>,
      closurePubkeys = keys, packetBound = True, packetVin = Vin entry\<rparr>"
    using assms i l lv k c ks by (auto simp: ReadArkadeScript_def Let_def split: if_splits)
  with i l lv k c ks m show ?thesis by auto
qed

text \<open>A leaf whose closure is the signer key 5 tweaked with the hash of the script.\<close>

definition ex_leaf :: tapLeafScript where
  "ex_leaf = \<lparr>ControlBlock = [], tls_Script = 0 # le_fixed 32 (5 + le_val (ArkadeScriptHash ex_lib [0x53])),
     tls_LeafVersion = BaseLeafVersion\<rparr>"

theorem read_script_sound_witness:
  "\<exists>s. ReadArkadeScript ex_lib [[Some ex_leaf]] (5, 0) \<lparr>Vin = 0, ent_Script = [0x53], ent_Witness = []\<rparr> = Inr s \<and>
    packetBound s \<and> as_script s = [0x53]"
proof -
  define v where "v = le_val (ArkadeScriptHash ex_lib [0x53])"
  have v: "0 < v" "v < 256"
    by (simp_all add: v_def ArkadeScriptHash_def ex_digest_def ex_fold_def TagArkScriptHash_def go_bytes_def)
  have f: "le_val (le_fixed 32 n) = n" if "n < 2 ^ 256" for n
    using that by (simp add: le_val_le_fixed del: le_fixed.simps)
  have "\<exists>s. ReadArkadeScript ex_lib [[Some ex_leaf]] (5, 0) \<lparr>Vin = 0, ent_Script = [0x53], ent_Witness = []\<rparr> = Inr s"
    using v
    by (simp add: ReadArkadeScript_def Let_def ex_leaf_def v_def [symmetric] ComputeArkadeScriptPublicKey_def
        isInfinity_def f BaseLeafVersion_def del: le_fixed.simps)
  then show ?thesis using read_script_sound by fastforce
qed

end
