(* ===== verification/VaultPolicy.thy ===== *)
theory VaultPolicy
imports CryptoProps VaultScript
begin

text \<open>The authorization script, run by the engine of pkg/arkade, enforces the policy it was built
from.  The script is a list of builder calls; each call has an effect on the items of the data
stack (op_effect for an opcode, a push for the others), and a run that succeeds is the
composition of the effects of its calls (run_effects).  What a successful composition implies of
the transaction is then computed block by block.\<close>

subsection \<open>The effect of an opcode on the items\<close>

definition cond_item :: "bool \<Rightarrow> bytes" where
  "cond_item c = enc (if c then 1 else 0)"

definition satoshi_item :: "int64 \<Rightarrow> bytes list \<Rightarrow> bytes list option" where
  "satoshi_item v r = (if 0 \<le> sint v \<and> sint v \<le> MaxSatoshi then Some (enc (sint v) # r) else None)"

definition script_items :: "lib \<Rightarrow> bytes \<Rightarrow> bytes list \<Rightarrow> bytes list option" where
  "script_items L pk r =
     (if IsWitnessProgram L pk then
        (case ExtractWitnessProgramInfo L pk of Inl _ \<Rightarrow> None
         | Inr (v, prog) \<Rightarrow> Some (enc (sint (word_of_int v :: int64)) # prog # r))
      else Some (enc (-1) # sha256 L pk # r))"

definition nth_item :: "bytes \<Rightarrow> 'a list \<Rightarrow> 'a option" where
  "nth_item i xs = (if 0 \<le> dec i \<and> dec i < int (length xs) then Some (xs ! nat (dec i)) else None)"

fun num2_effect :: "(int \<Rightarrow> int \<Rightarrow> bytes) \<Rightarrow> bytes list \<Rightarrow> bytes list option" where
  "num2_effect f (b # a # r) = Some (f (dec a) (dec b) # r)"
| "num2_effect f _ = None"

fun pop1_effect :: "(bytes \<Rightarrow> bytes list \<Rightarrow> bytes list option) \<Rightarrow> bytes list \<Rightarrow> bytes list option" where
  "pop1_effect f (x # r) = f x r"
| "pop1_effect f [] = None"

fun pop2_effect :: "(bytes \<Rightarrow> bytes \<Rightarrow> bytes list \<Rightarrow> bytes list option) \<Rightarrow> bytes list \<Rightarrow> bytes list option" where
  "pop2_effect f (x # y # r) = f x y r"
| "pop2_effect f _ = None"

definition input_effect :: "vm \<Rightarrow> (fetcher \<Rightarrow> txin \<Rightarrow> 'a option) \<Rightarrow> ('a \<Rightarrow> bytes list \<Rightarrow> bytes list option) \<Rightarrow>
    bytes list \<Rightarrow> bytes list option" where
  "input_effect vm g k = pop1_effect (\<lambda>i r. case nth_item i (TxIn (tx vm)) of None \<Rightarrow> None
     | Some txIn \<Rightarrow> (case prevOutFetcher vm of None \<Rightarrow> None
       | Some f \<Rightarrow> (case g f txIn of None \<Rightarrow> None | Some x \<Rightarrow> k x r)))"

definition packet_effect :: "lib \<Rightarrow> msgtx \<Rightarrow> bytes list \<Rightarrow> bytes list option" where
  "packet_effect L t = pop1_effect (\<lambda>i r. case findPacketByType L t (word_of_int (dec i)) of Inl _ \<Rightarrow> None
     | Inr None \<Rightarrow> Some (enc 0 # [] # r)
     | Inr (Some c) \<Rightarrow> Some (enc 1 # c # r))"

definition sighash_effect :: "lib \<Rightarrow> vm \<Rightarrow> bytes list \<Rightarrow> bytes list option" where
  "sighash_effect L vm = pop1_effect (\<lambda>i r. case computeArkadeSighash L vm (word_of_int (dec i)) of Inl _ \<Rightarrow> None
     | Inr h \<Rightarrow> Some (h # r))"

fun csfs_effect :: "lib \<Rightarrow> bytes list \<Rightarrow> bytes list option" where
  "csfs_effect L (k # m # s # r) =
     (if s = [] then Some ([] # r)
      else (case parseSchemePubKey L k of Inl _ \<Rightarrow> None
        | Inr scheme \<Rightarrow> if scheme_verify L scheme m s then Some (enc 1 # r) else None))"
| "csfs_effect L _ = None"

definition op_effect :: "lib \<Rightarrow> vm \<Rightarrow> byte \<Rightarrow> bytes list \<Rightarrow> bytes list option" where
  "op_effect L vm b xs =
     (if b = OP_0 then Some ([] # xs)
      else if b = OP_INSPECTVERSION then Some (enc (sint (tx_version (tx vm))) # xs)
      else if b = OP_INSPECTLOCKTIME then Some (enc (uint (LockTime (tx vm))) # xs)
      else if b = OP_INSPECTNUMINPUTS then Some (enc (int (length (TxIn (tx vm)))) # xs)
      else if b = OP_INSPECTNUMOUTPUTS then Some (enc (int (length (TxOut (tx vm)))) # xs)
      else if b = OP_PUSHCURRENTINPUTINDEX then Some (enc (txIdx vm) # xs)
      else if b = OP_TXWEIGHT then Some (enc (uint (word_of_int (SerializeSizeStripped L (tx vm) * 4) :: uint64)) # xs)
      else if b = OP_INSPECTINPUTSEQUENCE then
        pop1_effect (\<lambda>i r. map_option (\<lambda>txIn. enc (uint (Sequence txIn)) # r) (nth_item i (TxIn (tx vm)))) xs
      else if b = OP_INSPECTOUTPUTVALUE then
        pop1_effect (\<lambda>i r. Option.bind (nth_item i (TxOut (tx vm))) (\<lambda>out. satoshi_item (out_value out) r)) xs
      else if b = OP_INSPECTOUTPUTSCRIPTPUBKEY then
        pop1_effect (\<lambda>i r. Option.bind (nth_item i (TxOut (tx vm))) (\<lambda>out. script_items L (PkScript out) r)) xs
      else if b = OP_INSPECTINPUTVALUE then
        input_effect vm (\<lambda>f i. FetchPrevOutput f (PreviousOutPoint i)) (\<lambda>p. satoshi_item (out_value p)) xs
      else if b = OP_INSPECTINPUTSCRIPTPUBKEY then
        input_effect vm (\<lambda>f i. FetchVtxoPrevOutPkScript f (PreviousOutPoint i)) (script_items L) xs
      else if b = OP_INSPECTPACKET then packet_effect L (tx vm) xs
      else if b = OP_SIGHASH then sighash_effect L vm xs
      else if b = OP_CHECKSIGFROMSTACK then csfs_effect L xs
      else if b = OP_EQUALVERIFY then pop2_effect (\<lambda>x y r. if x = y then Some r else None) xs
      else if b = OP_VERIFY then pop1_effect (\<lambda>x r. if asBool x then Some r else None) xs
      else if b = OP_DROP then pop1_effect (\<lambda>x r. Some r) xs
      else if b = OP_DUP then pop1_effect (\<lambda>x r. Some (x # x # r)) xs
      else if b = OP_SWAP then pop2_effect (\<lambda>x y r. Some (y # x # r)) xs
      else if b = OP_CAT then pop2_effect (\<lambda>x y r. Some ((y @ x) # r)) xs
      else if b = OP_SHA256 then pop1_effect (\<lambda>x r. Some (sha256 L x # r)) xs
      else if b = OP_ADD then num2_effect (\<lambda>x y. enc (x + y)) xs
      else if b = OP_SUB then num2_effect (\<lambda>x y. enc (x - y)) xs
      else if b = OP_MUL then num2_effect (\<lambda>x y. enc (x * y)) xs
      else if b = OP_DIV then num2_effect (\<lambda>x y. enc (x sdiv y)) xs
      else if b = OP_LESSTHANOREQUAL then num2_effect (\<lambda>x y. cond_item (x \<le> y)) xs
      else if b = OP_GREATERTHANOREQUAL then num2_effect (\<lambda>x y. cond_item (x \<ge> y)) xs
      else None)"

definition policy_ops :: "byte list" where
  "policy_ops = [OP_0, OP_INSPECTVERSION, OP_INSPECTLOCKTIME, OP_INSPECTNUMINPUTS, OP_INSPECTNUMOUTPUTS,
     OP_PUSHCURRENTINPUTINDEX, OP_TXWEIGHT, OP_INSPECTINPUTSEQUENCE, OP_INSPECTOUTPUTVALUE,
     OP_INSPECTOUTPUTSCRIPTPUBKEY, OP_INSPECTINPUTVALUE, OP_INSPECTINPUTSCRIPTPUBKEY, OP_INSPECTPACKET,
     OP_SIGHASH, OP_CHECKSIGFROMSTACK, OP_EQUALVERIFY, OP_VERIFY, OP_DROP, OP_DUP, OP_SWAP, OP_CAT,
     OP_SHA256, OP_ADD, OP_SUB, OP_MUL, OP_DIV, OP_LESSTHANOREQUAL, OP_GREATERTHANOREQUAL]"

subsection \<open>Stack operations that succeed\<close>

lemma PushBigNum_Inr: "PushBigNum n s = Inr s' \<Longrightarrow> s' = with_items s (enc (val n) # items s)"
  by (auto simp: PushBigNum_def BigNum_Bytes_eq PushByteArray_items bindE_Inr_iff split: if_splits)

lemma PushInt_Inr: "PushInt n s = Inr s' \<Longrightarrow> s' = with_items s (enc (sint n) # items s)"
  by (auto simp: PushInt_def scriptNum_Bytes_eq PushByteArray_items bindE_Inr_iff split: if_splits)

lemma PopBigNum_Inr:
  assumes "PopBigNum s = Inr (n, s')"
  shows "\<exists>x r. items s = x # r \<and> val n = dec x \<and> s' = with_items s r"
  using assms bn.decode_sound
  by (auto simp: PopBigNum_def PopByteArray_items bindE_Inr_iff split: list.splits)

lemma PopInt_Inr:
  assumes "PopInt s = Inr (n, s')"
  shows "\<exists>x r. items s = x # r \<and> sint n = dec x \<and> s' = with_items s r"
  using assms
  by (auto simp: PopInt_def PopByteArray_items bindE_Inr_iff maxScriptNumLen_def split: list.splits
      dest!: MakeScriptNum_ok)

lemma PopByteArray_Inr:
  "PopByteArray s = Inr (x, s') \<Longrightarrow> \<exists>r. items s = x # r \<and> s' = with_items s r"
  by (auto simp: PopByteArray_items split: list.splits)

text \<open>A step that replaces the items by the result of an effect and changes nothing else.\<close>

definition acts :: "(bytes list \<Rightarrow> bytes list option) \<Rightarrow> vm \<Rightarrow> vm \<Rightarrow> bool" where
  "acts e vm vm' \<longleftrightarrow> (\<exists>ys. e (items (dstack vm)) = Some ys \<and> vm' = vm\<lparr>dstack := with_items (dstack vm) ys\<rparr>)"

lemma acts_on_dstack:
  assumes "on_dstack f vm = Inr vm'"
    and "\<And>s'. f (dstack vm) = Inr s' \<Longrightarrow> \<exists>ys. e (items (dstack vm)) = Some ys \<and> s' = with_items (dstack vm) ys"
  shows "acts e vm vm'"
  using assms by (auto simp: on_dstack_def acts_def bindE_Inr_iff)

lemma acts_num2:
  assumes "num2 k vm = Inr vm'"
    and "\<And>m n s s'. k m n s = Inr s' \<Longrightarrow> s' = with_items s (f (val m) (val n) # items s)"
  shows "acts (num2_effect f) vm vm'"
  using assms(1)
  by (auto simp: acts_def num2_def on_dstack_def bindE_Inr_iff dest!: PopBigNum_Inr assms(2))

lemma uint_eq_sint: "0 \<le> sint (v :: int64) \<Longrightarrow> uint v = sint v"
proof -
  assume "0 \<le> sint v"
  moreover have "sint v < 2 ^ 64" using sint_bounds(2)[of v] by simp
  ultimately show "uint v = sint v" unfolding uint_sint by (intro take_bit_int_eq_self) simp_all
qed

lemma sint_scast32: "sint (scast (w :: 32 word) :: int64) = sint w"
proof -
  have "- (2 ^ 31) \<le> sint w" "sint w < 2 ^ 31" using sint_range_size[of w] by (simp_all add: word_size)
  then show ?thesis by (simp add: signed_scast_eq signed_take_bit_int_eq_self)
qed

lemma sint_count: "n < 2 ^ 31 \<Longrightarrow> sint (word_of_nat n :: int64) = int n"
  using sint_word_of_int_id[of "int n"] by simp

lemma check_index_Inr: "check_index n xs = Inr x \<Longrightarrow> sint n = dec i \<Longrightarrow> nth_item i xs = Some x"
  by (auto simp: check_index_def nth_item_def at_idx_def word_sless_alt split: if_splits)

lemma pushSatoshiValue_Inr:
  "pushSatoshiValue v s = Inr s' \<Longrightarrow> \<exists>ys. satoshi_item v (items s) = Some ys \<and> s' = with_items s ys"
proof -
  assume a: "pushSatoshiValue v s = Inr s'"
  then have v: "0 \<le> sint v" "sint v \<le> MaxSatoshi"
    by (auto simp: pushSatoshiValue_def word_sless_alt split: if_splits)
  then have "uint v = sint v" by (simp add: uint_eq_sint)
  with a v show ?thesis
    by (auto simp: pushSatoshiValue_def satoshi_item_def split: if_splits dest!: PushBigNum_Inr)
qed

lemma pushScriptPubKey_Inr:
  "pushScriptPubKey L pk s = Inr s' \<Longrightarrow> \<exists>ys. script_items L pk (items s) = Some ys \<and> s' = with_items s ys"
  by (auto simp: pushScriptPubKey_def script_items_def bindE_Inr_iff PushByteArray_items
      split: if_splits dest!: PushInt_Inr)

subsection \<open>The handlers of the script\<close>

lemma pop_index_Inr:
  assumes "bindE (PopInt s) (\<lambda>(n, s). bindE (check_index n xs) (\<lambda>x. k x s)) = Inr s'"
  shows "\<exists>i r x. items s = i # r \<and> nth_item i xs = Some x \<and> k x (with_items s r) = Inr s'"
proof -
  obtain n s1 x where "PopInt s = Inr (n, s1)" "check_index n xs = Inr x" "k x s1 = Inr s'"
    using assms by (auto simp: bindE_Inr_iff)
  with PopInt_Inr[of s n s1] check_index_Inr[of n xs x] show ?thesis by blast
qed

lemma uint_ucast32: "uint (ucast (w :: 32 word) :: uint64) = uint w"
proof -
  have "uint w < 2 ^ 32" using uint_lt2p[of w] by simp
  then show ?thesis by (simp add: unsigned_ucast_eq take_bit_int_eq_self)
qed

lemma InspectInputSequence_acts:
  "opcodeInspectInputSequence L op d vm = Inr vm' \<Longrightarrow>
     acts (pop1_effect (\<lambda>i r. map_option (\<lambda>txIn. enc (uint (Sequence txIn)) # r) (nth_item i (TxIn (tx vm))))) vm vm'"
  unfolding opcodeInspectInputSequence_def
  by (erule acts_on_dstack) (drule pop_index_Inr, auto dest!: PushBigNum_Inr simp: uint_ucast32)

lemma InspectOutputValue_acts:
  "opcodeInspectOutputValue L op d vm = Inr vm' \<Longrightarrow>
     acts (pop1_effect (\<lambda>i r. Option.bind (nth_item i (TxOut (tx vm))) (\<lambda>out. satoshi_item (out_value out) r))) vm vm'"
  unfolding opcodeInspectOutputValue_def
  by (erule acts_on_dstack) (drule pop_index_Inr, auto dest!: pushSatoshiValue_Inr)

lemma InspectOutputScriptPubkey_acts:
  "opcodeInspectOutputScriptPubkey L op d vm = Inr vm' \<Longrightarrow>
     acts (pop1_effect (\<lambda>i r. Option.bind (nth_item i (TxOut (tx vm))) (\<lambda>out. script_items L (PkScript out) r))) vm vm'"
  unfolding opcodeInspectOutputScriptPubkey_def
  by (erule acts_on_dstack) (drule pop_index_Inr, auto dest!: pushScriptPubKey_Inr)

lemma acts_input:
  assumes "on_dstack (\<lambda>s. bindE (PopInt s) (\<lambda>(n, s). bindE (check_index n (TxIn (tx vm))) (\<lambda>txIn.
       case prevOutFetcher vm of None \<Rightarrow> script_err ErrInvalidIndex
       | Some f \<Rightarrow> (case g f txIn of None \<Rightarrow> script_err ErrInvalidIndex | Some x \<Rightarrow> k x s)))) vm = Inr vm'"
    and k: "\<And>x s s'. k x s = Inr s' \<Longrightarrow> \<exists>ys. h x (items s) = Some ys \<and> s' = with_items s ys"
  shows "acts (input_effect vm g h) vm vm'"
  using assms(1)
proof (rule acts_on_dstack)
  fix s' assume "bindE (PopInt (dstack vm)) (\<lambda>(n, s). bindE (check_index n (TxIn (tx vm))) (\<lambda>txIn.
       case prevOutFetcher vm of None \<Rightarrow> script_err ErrInvalidIndex
       | Some f \<Rightarrow> (case g f txIn of None \<Rightarrow> script_err ErrInvalidIndex | Some x \<Rightarrow> k x s))) = Inr s'"
  from pop_index_Inr[OF this] obtain i r txIn where p: "items (dstack vm) = i # r"
      "nth_item i (TxIn (tx vm)) = Some txIn"
      "(case prevOutFetcher vm of None \<Rightarrow> script_err ErrInvalidIndex
       | Some f \<Rightarrow> (case g f txIn of None \<Rightarrow> script_err ErrInvalidIndex | Some x \<Rightarrow> k x (with_items (dstack vm) r))) = Inr s'"
    by blast
  then obtain f x where f: "prevOutFetcher vm = Some f" "g f txIn = Some x" "k x (with_items (dstack vm) r) = Inr s'"
    by (cases "prevOutFetcher vm") (auto split: option.splits)
  with p(1,2) k[OF f(3)] show "\<exists>ys. input_effect vm g h (items (dstack vm)) = Some ys \<and> s' = with_items (dstack vm) ys"
    by (auto simp: input_effect_def)
qed

lemma InspectInputValue_acts:
  "opcodeInspectInputValue L op d vm = Inr vm' \<Longrightarrow>
     acts (input_effect vm (\<lambda>f i. FetchPrevOutput f (PreviousOutPoint i)) (\<lambda>p. satoshi_item (out_value p))) vm vm'"
  unfolding opcodeInspectInputValue_def by (erule acts_input) (rule pushSatoshiValue_Inr)

lemma InspectInputScriptPubkey_acts:
  "opcodeInspectInputScriptPubkey L op d vm = Inr vm' \<Longrightarrow>
     acts (input_effect vm (\<lambda>f i. FetchVtxoPrevOutPkScript f (PreviousOutPoint i)) (script_items L)) vm vm'"
  unfolding opcodeInspectInputScriptPubkey_def by (erule acts_input) (rule pushScriptPubKey_Inr)

lemma wrap_err_Inr: "wrap_err c m = Inr a \<longleftrightarrow> m = Inr a"
  by (auto simp: wrap_err_def split: sum.split verror.split)

lemma InspectPacket_acts:
  assumes "opcodeInspectPacket L op d vm = Inr vm'"
  shows "acts (packet_effect L (tx vm)) vm vm'"
  using assms unfolding opcodeInspectPacket_def
proof (rule acts_on_dstack)
  fix s' assume "bindE (PopInt (dstack vm)) (\<lambda>(packetType, s).
     if packetType <s 0 \<or> 255 <s packetType then script_err ErrInvalidStackOperation
     else push_packet L (tx vm) packetType s) = Inr s'"
  then obtain n x r where n: "items (dstack vm) = x # r" "sint n = dec x" "0 \<le> sint n" "sint n \<le> 255"
      "push_packet L (tx vm) n (with_items (dstack vm) r) = Inr s'"
    by (auto simp: bindE_Inr_iff word_sless_alt split: if_splits dest!: PopInt_Inr)
  have "ucast n = (word_of_int (dec x) :: byte)" unfolding n(2)[symmetric] by (simp only: uint_eq_sint[OF n(3), symmetric] ucast_eq)
  then obtain c where c: "findPacketByType L (tx vm) (word_of_int (dec x)) = Inr c"
      "(case c of None \<Rightarrow> PushInt 0 (PushByteArray [] (with_items (dstack vm) r))
        | Some c \<Rightarrow> if length c > MaxScriptElementSize then script_err ErrElementTooBig
           else PushInt 1 (PushByteArray c (with_items (dstack vm) r))) = Inr s'"
    using n(5) by (auto simp: push_packet_def bindE_Inr_iff wrap_err_Inr)
  with n(1) show "\<exists>ys. packet_effect L (tx vm) (items (dstack vm)) = Some ys \<and> s' = with_items (dstack vm) ys"
    by (cases c) (auto simp: packet_effect_def PushByteArray_items split: if_splits dest!: PushInt_Inr)
qed

lemma intro_push_acts:
  "opcodeInspectVersion L op d vm = Inr vm' \<Longrightarrow> acts (\<lambda>xs. Some (enc (sint (tx_version (tx vm))) # xs)) vm vm'"
  "opcodeInspectLocktime L op d vm = Inr vm' \<Longrightarrow> acts (\<lambda>xs. Some (enc (uint (LockTime (tx vm))) # xs)) vm vm'"
  "opcodeTxWeight L op d vm = Inr vm' \<Longrightarrow>
     acts (\<lambda>xs. Some (enc (uint (word_of_int (SerializeSizeStripped L (tx vm) * 4) :: uint64)) # xs)) vm vm'"
  unfolding opcodeInspectVersion_def opcodeInspectLocktime_def opcodeTxWeight_def
  by (auto elim!: acts_on_dstack dest!: PushBigNum_Inr simp: uint_ucast32 sint_scast32)

lemma intro_count_acts:
  assumes "length (TxIn (tx vm)) < 2 ^ 31" "length (TxOut (tx vm)) < 2 ^ 31" "0 \<le> txIdx vm" "txIdx vm < 2 ^ 31"
  shows "opcodeInspectNumInputs L op d vm = Inr vm' \<Longrightarrow> acts (\<lambda>xs. Some (enc (int (length (TxIn (tx vm)))) # xs)) vm vm'"
    "opcodeInspectNumOutputs L op d vm = Inr vm' \<Longrightarrow> acts (\<lambda>xs. Some (enc (int (length (TxOut (tx vm)))) # xs)) vm vm'"
    "opcodePushCurrentInputIndex L op d vm = Inr vm' \<Longrightarrow> acts (\<lambda>xs. Some (enc (txIdx vm) # xs)) vm vm'"
  using assms unfolding opcodeInspectNumInputs_def opcodeInspectNumOutputs_def opcodePushCurrentInputIndex_def
  by (auto elim!: acts_on_dstack dest!: PushInt_Inr simp: sint_word_of_int_id sint_count)

lemma Sighash_acts: "opcodeSighash L op d vm = Inr vm' \<Longrightarrow> acts (sighash_effect L vm) vm vm'"
proof -
  assume "opcodeSighash L op d vm = Inr vm'"
  then obtain n s h where n: "PopInt (dstack vm) = Inr (n, s)"
      "computeArkadeSighash L (vm\<lparr>dstack := s\<rparr>) (word_of_int (scriptNum_Int32 n)) = Inr h"
      "0 \<le> scriptNum_Int32 n" "scriptNum_Int32 n \<le> 255"
      "vm' = vm\<lparr>dstack := PushByteArray h s\<rparr>"
    by (auto simp: opcodeSighash_def bindE_Inr_iff Let_def split: option.splits if_splits)
  have "scriptNum_Int32 n = sint n"
    using n(3,4) by (auto simp: scriptNum_Int32_def maxInt32_def minInt32_def int32_of_id split: if_splits)
  moreover obtain x r where "items (dstack vm) = x # r" "sint n = dec x" "s = with_items (dstack vm) r"
    using PopInt_Inr[OF n(1)] by blast
  ultimately show ?thesis using n(2,5) by (simp add: acts_def sighash_effect_def PushByteArray_items)
qed

lemma ChecksigFromStack_acts: "opcodeChecksigFromStack L op d vm = Inr vm' \<Longrightarrow> acts (csfs_effect L) vm vm'"
  unfolding opcodeChecksigFromStack_def
  by (erule acts_on_dstack)
    (auto simp: bindE_Inr_iff PushByteArray_items split: if_splits dest!: PopByteArray_Inr PushInt_Inr)

lemma verify_acts:
  "opcodeVerify L op d vm = Inr vm' \<Longrightarrow> acts (pop1_effect (\<lambda>x r. if asBool x then Some r else None)) vm vm'"
  by (auto simp: opcodeVerify_def abstractVerify_def bindE_Inr_iff PopBool_items acts_def split: list.splits if_splits)

lemma equal_verify_acts:
  "opcodeEqualVerify L op d vm = Inr vm' \<Longrightarrow> acts (pop2_effect (\<lambda>x y r. if x = y then Some r else None)) vm vm'"
  by (auto simp: opcodeEqualVerify_def opcodeEqual_def on_dstack_def abstractVerify_def bindE_Inr_iff PopBool_items acts_def
      PushBool_def PushByteArray_items split: if_splits dest!: PopByteArray_Inr)

lemma stack_op_acts:
  "opcodeDrop L op d vm = Inr vm' \<Longrightarrow> acts (pop1_effect (\<lambda>x r. Some r)) vm vm'"
  "opcodeDup L op d vm = Inr vm' \<Longrightarrow> acts (pop1_effect (\<lambda>x r. Some (x # x # r))) vm vm'"
  "opcodeSwap L op d vm = Inr vm' \<Longrightarrow> acts (pop2_effect (\<lambda>x y r. Some (y # x # r))) vm vm'"
  "opcodeCat L op d vm = Inr vm' \<Longrightarrow> acts (pop2_effect (\<lambda>x y r. Some ((y @ x) # r))) vm vm'"
  "opcodeSha256 L op d vm = Inr vm' \<Longrightarrow> acts (pop1_effect (\<lambda>x r. Some (sha256 L x # r))) vm vm'"
  "opcodeFalse L op d vm = Inr vm' \<Longrightarrow> acts (\<lambda>xs. Some ([] # xs)) vm vm'"
  unfolding opcodeDrop_def opcodeDup_def opcodeSwap_def opcodeCat_def opcodeSha256_def opcodeFalse_def hash_top_def
  by (erule acts_on_dstack; auto simp: DropN_items DupN_items SwapN_items bindE_Inr_iff PushByteArray_items length_Suc_conv
      Suc_le_length_iff numeral_eq_Suc split: if_splits dest!: PopByteArray_Inr)+

lemma pushCond_Inr: "pushCond c s = Inr s' \<Longrightarrow> s' = with_items s (cond_item c # items s)"
  by (auto simp: pushCond_def cond_item_def dest!: PushBigNum_Inr)

lemma Div_push_Inr: "bindE (Div m n) (\<lambda>result. PushBigNum result s) = Inr s' \<Longrightarrow>
    s' = with_items s (enc (val m sdiv val n) # items s)"
proof -
  assume "bindE (Div m n) (\<lambda>result. PushBigNum result s) = Inr s'"
  then obtain q where "Div m n = Inr q" "PushBigNum q s = Inr s'" by (auto simp: bindE_Inr_iff)
  with val_Div[of m n] show ?thesis by (auto dest!: PushBigNum_Inr split: if_splits)
qed

lemma arith_acts:
  "opcodeAdd L op d vm = Inr vm' \<Longrightarrow> acts (num2_effect (\<lambda>x y. enc (x + y))) vm vm'"
  "opcodeSub L op d vm = Inr vm' \<Longrightarrow> acts (num2_effect (\<lambda>x y. enc (x - y))) vm vm'"
  "opcodeMul L op d vm = Inr vm' \<Longrightarrow> acts (num2_effect (\<lambda>x y. enc (x * y))) vm vm'"
  "opcodeDiv L op d vm = Inr vm' \<Longrightarrow> acts (num2_effect (\<lambda>x y. enc (x sdiv y))) vm vm'"
  "opcodeLessThanOrEqual L op d vm = Inr vm' \<Longrightarrow> acts (num2_effect (\<lambda>x y. cond_item (x \<le> y))) vm vm'"
  "opcodeGreaterThanOrEqual L op d vm = Inr vm' \<Longrightarrow> acts (num2_effect (\<lambda>x y. cond_item (x \<ge> y))) vm vm'"
  unfolding opcodeAdd_def opcodeSub_def opcodeMul_def opcodeDiv_def opcodeLessThanOrEqual_def opcodeGreaterThanOrEqual_def
  by (erule acts_num2, (drule PushBigNum_Inr | drule pushCond_Inr | drule Div_push_Inr), simp add: Cmp_rel)+

lemma run_op_acts:
  assumes "run_opfunc (op_func (opcodeArray b)) L op d vm = Inr vm'" "b \<in> set policy_ops"
    and "length (TxIn (tx vm)) < 2 ^ 31" "length (TxOut (tx vm)) < 2 ^ 31" "0 \<le> txIdx vm" "txIdx vm < 2 ^ 31"
  shows "acts (op_effect L vm b) vm vm'"
  using assms(2,1)
  by (simp add: policy_ops_def; elim disjE; hypsubst; simp add: opcodeArray_lookup op_effect_def [abs_def] intro_push_acts intro_push_acts [simplified]
    intro_count_acts [OF assms(3-6)] InspectInputSequence_acts InspectOutputValue_acts InspectOutputScriptPubkey_acts
    InspectInputValue_acts InspectInputScriptPubkey_acts InspectPacket_acts Sighash_acts ChecksigFromStack_acts
    verify_acts equal_verify_acts stack_op_acts arith_acts)

subsection \<open>The calls as tokens\<close>

definition push_code :: "bytes \<Rightarrow> byte \<times> bytes" where
  "push_code d =
     (if d = [] \<or> d = [0] then (OP_0, [])
      else if length d = 1 \<and> unat (d ! 0) \<le> 16 then (OP_1 + d ! 0 - 1, [])
      else if d = [0x81] then (OP_1NEGATE, [])
      else if length d \<le> 75 then (word_of_nat (length d), d)
      else if length d \<le> 255 then (OP_PUSHDATA1, d)
      else if length d \<le> 65535 then (OP_PUSHDATA2, d)
      else (OP_PUSHDATA4, d))"

fun call_code :: "sb_call \<Rightarrow> byte \<times> bytes" where
  "call_code (AddOp b) = (b, [])"
| "call_code (AddInt64 n) =
     (if n = 0 then (OP_0, []) else if n = -1 \<or> 1 \<le> sint n \<and> sint n \<le> 16 then (OP_1 - 1 + word_of_int (sint n), [])
      else push_code (enc (sint n)))"
| "call_code (AddData d) = push_code d"

fun call_effect :: "lib \<Rightarrow> vm \<Rightarrow> sb_call \<Rightarrow> bytes list \<Rightarrow> bytes list option" where
  "call_effect L vm (AddOp b) xs = op_effect L vm b xs"
| "call_effect L vm (AddInt64 n) xs = Some (enc (sint n) # xs)"
| "call_effect L vm (AddData d) xs = Some (d # xs)"

fun call_ok :: "sb_call \<Rightarrow> bool" where
  "call_ok (AddOp b) = (b \<in> set policy_ops)"
| "call_ok (AddInt64 n) = True"
| "call_ok (AddData d) = (d \<noteq> [0])"

definition push_entry_ok :: "byte \<times> opcode \<Rightarrow> bool" where
  "push_entry_ok ke \<longleftrightarrow> (let k = uint (fst ke) in
     (1 \<le> k \<and> k \<le> 78 \<longrightarrow> op_func (snd ke) = Control F_PushData) \<and> (81 \<le> k \<and> k \<le> 96 \<longrightarrow> op_func (snd ke) = Control F_N) \<and>
     (k = 79 \<longrightarrow> op_func (snd ke) = Control F_1Negate) \<and> (k = 0 \<longrightarrow> op_func (snd ke) = Control F_False))"

lemma push_entries_ok: "list_all push_entry_ok opcode_entries"
  unfolding opcode_entries_defs by code_simp

lemma push_func:
  "1 \<le> uint b \<and> uint b \<le> 78 \<Longrightarrow> op_func (opcodeArray b) = Control F_PushData"
  "81 \<le> uint b \<and> uint b \<le> 96 \<Longrightarrow> op_func (opcodeArray b) = Control F_N"
  "op_func (opcodeArray 0x4f) = Control F_1Negate" "op_func (opcodeArray 0) = Control F_False"
proof -
  have "push_entry_ok (c, opcodeArray c)" for c
    using push_entries_ok opcodeArray_in [of c] by (auto simp: list_all_iff)
  note e = this[unfolded push_entry_ok_def Let_def fst_conv snd_conv]
  show "1 \<le> uint b \<and> uint b \<le> 78 \<Longrightarrow> op_func (opcodeArray b) = Control F_PushData"
    "81 \<le> uint b \<and> uint b \<le> 96 \<Longrightarrow> op_func (opcodeArray b) = Control F_N"
    "op_func (opcodeArray 0x4f) = Control F_1Negate" "op_func (opcodeArray 0) = Control F_False"
    using e[of b] e[of "0x4f"] e[of 0] by simp_all
qed

lemma PushData_acts: "opcodePushData L op d vm = Inr vm' \<Longrightarrow> acts (\<lambda>xs. Some (d # xs)) vm vm'"
  unfolding opcodePushData_def by (erule acts_on_dstack) (simp add: PushByteArray_items)

lemma small_int_acts:
  assumes "run_opfunc (op_func (opcodeArray (OP_1 - 1 + word_of_int k))) L (opcodeArray (OP_1 - 1 + word_of_int k)) d vm = Inr vm'"
    and "k = -1 \<or> 1 \<le> k \<and> k \<le> 16"
  shows "acts (\<lambda>xs. Some (enc k # xs)) vm vm'"
proof (cases "k = -1")
  case True
  with assms(1) show ?thesis
    by (simp add: push_func(3) opcode1Negate_def) (erule acts_on_dstack, auto dest!: PushInt_Inr)
next
  case False
  with assms(2) have k: "1 \<le> k" "k \<le> 16" by auto
  have u: "uint (OP_1 - 1 + word_of_int k :: byte) = 80 + k" using k by (simp add: uint_word_ariths uint_word_of_int)
  have f: "op_func (opcodeArray (OP_1 - 1 + word_of_int k)) = Control F_N" using u k by (intro push_func(2)) simp
  have "sint (ucast (word_of_int k :: byte) :: int64) = k"
    using k by (simp add: sint_word_of_int_id ucast_eq uint_word_of_int)
  with assms(1) show ?thesis
    unfolding f run_opfunc.simps run_control.simps opcodeN_def op_value_opcodeArray add_diff_cancel_left'
    by (auto elim!: acts_on_dstack dest!: PushInt_Inr)
qed

lemma enc_byte:
  assumes "length d = 1" "unat (d ! 0) \<le> 16" "d \<noteq> [0]"
  shows "enc (int (unat (d ! 0))) = d"
proof -
  obtain a where a: "d = [a]" using assms(1) by (auto simp: length_Suc_conv)
  with assms have u: "unat a \<le> 16" "unat a \<noteq> 0" by (auto simp: unat_eq_zero)
  then have "minimal [a]" using minimal_snoc[of "[]" a] by (auto simp: byte_7f_eq_0)
  moreover have "dec [a] = int (unat a)" using dec_snoc[of "[]" a] u by simp
  ultimately show ?thesis using enc_dec[of "[a]"] a by simp
qed

lemma enc_simps: "enc 0 = []" "enc (-1) = [0x81]" "enc 1 = [1]"
  by code_simp+

lemma enc_ne_zero_byte: "enc n \<noteq> [0]"
proof -
  have "\<not> minimal [0]" using minimal_snoc[of "[]" 0] by simp
  then show ?thesis using minimal_enc[of n] by metis
qed

lemma push_code_acts:
  assumes "push_code d = (b, x)" "d \<noteq> [0]" "run_opfunc (op_func (opcodeArray b)) L (opcodeArray b) x vm = Inr vm'"
  shows "acts (\<lambda>xs. Some (d # xs)) vm vm'"
proof -
  have u: "uint (word_of_nat (length d) :: byte) = int (length d)" if "length d \<le> 75"
    using that by (simp add: uint_nat unat_of_nat)
  consider "d = []" "b = 0" "x = []" | "d \<noteq> []" "length d = 1 \<and> unat (d ! 0) \<le> 16" "b = OP_1 + d ! 0 - 1" | "d = [0x81]" "b = OP_1NEGATE" |
    "x = d" "1 \<le> uint b \<and> uint b \<le> 78"
    using assms(1,2) u by (auto simp: push_code_def Suc_le_eq split: if_splits)
  then show ?thesis
  proof cases
    case 1
    with assms(3) show ?thesis by (simp add: push_func stack_op_acts)
  next
    case 2
    let ?k = "int (unat (d ! 0))"
    have b: "b = OP_1 - 1 + word_of_int ?k" using 2 by simp
    have "unat (d ! 0) \<noteq> 0" using 2 assms(2) by (auto simp: length_Suc_conv unat_eq_zero)
    then have "?k = -1 \<or> 1 \<le> ?k \<and> ?k \<le> 16" using 2 by linarith
    from small_int_acts[OF assms(3)[unfolded b] this] enc_byte[of d] 2 assms(2) show ?thesis by metis
  next
    case 3
    with assms(3) small_int_acts[of "-1" L x vm vm'] show ?thesis by (simp add: enc_simps)
  next
    case 4
    with assms(3) show ?thesis by (simp add: push_func PushData_acts)
  qed
qed

lemma call_acts:
  assumes "call_code c = (b, x)" "call_ok c" "run_opfunc (op_func (opcodeArray b)) L (opcodeArray b) x vm = Inr vm'"
    and "length (TxIn (tx vm)) < 2 ^ 31" "length (TxOut (tx vm)) < 2 ^ 31" "0 \<le> txIdx vm" "txIdx vm < 2 ^ 31"
  shows "acts (call_effect L vm c) vm vm'"
proof (cases c)
  case (AddOp a)
  have "call_effect L vm c = op_effect L vm a" by (rule ext) (simp add: AddOp)
  with AddOp assms show ?thesis using run_op_acts[of b L _ x vm vm'] by simp
next
  case (AddInt64 n)
  have e: "call_effect L vm c = (\<lambda>xs. Some (enc (sint n) # xs))" by (rule ext) (simp add: AddInt64)
  consider "n = 0" | "n \<noteq> 0" "n = -1 \<or> 1 \<le> sint n \<and> sint n \<le> 16" | "call_code c = push_code (enc (sint n))"
    unfolding AddInt64 call_code.simps by presburger
  then show ?thesis
  proof cases
    case 1
    with assms(1,3) have "acts (\<lambda>xs. Some ([] # xs)) vm vm'" by (auto simp: AddInt64 push_func intro: stack_op_acts)
    then show ?thesis unfolding e by (simp add: 1 enc_simps)
  next
    case 2
    then have b: "b = OP_1 - 1 + word_of_int (sint n)" using assms(1) by (auto simp: AddInt64)
    have "sint n = -1 \<or> 1 \<le> sint n \<and> sint n \<le> 16" using 2 by auto
    from small_int_acts[OF assms(3)[unfolded b] this] show ?thesis unfolding e .
  next
    case 3
    with assms push_code_acts[of "enc (sint n)" b x L vm vm'] enc_ne_zero_byte show ?thesis by (simp add: e)
  qed
next
  case (AddData d)
  have "call_effect L vm c = (\<lambda>xs. Some (d # xs))" by (rule ext) (simp add: AddData)
  with AddData assms show ?thesis using push_code_acts[of d b x L vm vm'] by simp
qed

text \<open>The bytes of a call are the token of its opcode and data.\<close>

definition token_ok :: "byte \<Rightarrow> bytes \<Rightarrow> bool" where
  "token_ok b x \<longleftrightarrow> length x < 2 ^ 31 \<and> (op_length (opcodeArray b) = 1 \<longrightarrow> x = []) \<and>
    (op_length (opcodeArray b) > 1 \<longrightarrow> int (length x) = op_length (opcodeArray b) - 1) \<and>
    (op_length (opcodeArray b) < 0 \<longrightarrow> length x < 256 ^ nat (- op_length (opcodeArray b)))"

lemma small_code: "-1 \<le> k \<and> k \<le> 16 \<Longrightarrow> uint (OP_1 - 1 + word_of_int k :: byte) = 80 + k"
  by (auto simp: uint_word_ariths uint_word_of_int mod_add_right_eq)

lemma push_token:
  assumes "push_code d = (b, x)" "length d < 2 ^ 31"
  shows "push_encode d = token_bytes (opcodeArray b) x \<and> token_ok b x"
proof -
  have u: "uint (word_of_nat (length d) :: byte) = int (length d)" if "length d \<le> 75"
    using that by (simp add: uint_nat unat_of_nat)
  have k: "uint (OP_1 + d ! 0 - 1) = 80 + int (unat (d ! 0))" if "unat (d ! 0) \<le> 16"
  proof -
    have "-1 \<le> int (unat (d ! 0)) \<and> int (unat (d ! 0)) \<le> 16" using that by linarith
    from small_code[OF this] show ?thesis by simp
  qed
  note defs = token_bytes_def token_ok_def op_length_opcodeArray
  consider "d = [] \<or> d = [0]" | "length d = 1 \<and> unat (d ! 0) \<le> 16" "\<not> (d = [] \<or> d = [0])" | "d = [0x81]"
    | "\<not> (d = [] \<or> d = [0])" "\<not> (length d = 1 \<and> unat (d ! 0) \<le> 16)" "d \<noteq> [0x81]" "length d \<le> 75"
    | "75 < length d" "length d \<le> 255" | "255 < length d" "length d \<le> 65535" | "65535 < length d"
    using linorder_le_less_linear[of "length d" 75] linorder_le_less_linear[of "length d" 255]
      linorder_le_less_linear[of "length d" 65535] by blast
  then show ?thesis
  proof cases
    case 1
    with assms show ?thesis by (auto simp: push_code_def push_encode_def defs)
  next
    case 2
    then have "b = OP_1 + d ! 0 - 1" "x = []" "push_encode d = [OP_1 + d ! 0 - 1]"
      using assms by (simp_all only: push_code_def push_encode_def if_True if_False prod.inject) simp_all
    moreover from k 2 have "op_length (opcodeArray (OP_1 + d ! 0 - 1)) = 1"
      using uint_ge_0[of "d ! 0"] unfolding op_length_opcodeArray by (smt (verit) of_nat_0_le_iff)
    ultimately show ?thesis using 2 by (simp add: token_bytes_def token_ok_def)
  next
    case 3
    with assms show ?thesis by (auto simp: push_code_def push_encode_def defs)
  next
    case 4
    then have "push_code d = (word_of_nat (length d), d)" "push_encode d = word_of_nat (length d) # d"
      by (simp_all only: push_code_def push_encode_def if_True if_False)
    with assms(1) have c: "b = word_of_nat (length d)" "x = d" "push_encode d = word_of_nat (length d) # d" by auto
    have "1 \<le> length d" using 4(1) by (simp add: Suc_le_eq)
    with 4(4) u c show ?thesis by (simp add: defs)
  next
    case 5
    with assms show ?thesis by (auto simp: push_code_def push_encode_def defs)
  next
    case 6
    with assms show ?thesis by (auto simp: push_code_def push_encode_def defs)
  next
    case 7
    with assms show ?thesis by (auto simp: push_code_def push_encode_def defs)
  qed
qed

lemma policy_op_lengths: "b \<in> set policy_ops \<Longrightarrow> op_length (opcodeArray b) = 1"
  by (auto simp: policy_ops_def op_length_opcodeArray)

lemma enc_short: "\<bar>n\<bar> < 2 ^ 71 \<Longrightarrow> length (enc n) < 2 ^ 31"
  using length_enc_le_iff[of 9 n] by simp

lemma call_token:
  assumes "call_code c = (b, x)" "call_ok c" "\<And>d. c = AddData d \<Longrightarrow> length d < 2 ^ 31"
  shows "sb_encode c = token_bytes (opcodeArray b) x \<and> token_ok b x"
proof (cases c)
  case (AddOp a)
  with assms policy_op_lengths[of b] show ?thesis by (simp add: token_bytes_def token_ok_def)
next
  case (AddInt64 n)
  consider "n = 0" | "n \<noteq> 0" "n = -1 \<or> 1 \<le> sint n \<and> sint n \<le> 16" | "call_code c = push_code (enc (sint n))"
      "sb_encode c = push_encode (enc (sint n))"
    unfolding AddInt64 call_code.simps sb_encode.simps by presburger
  then show ?thesis
  proof cases
    case 1
    with assms(1) show ?thesis by (auto simp: AddInt64 token_bytes_def token_ok_def op_length_opcodeArray)
  next
    case 2
    then have c: "b = OP_1 - 1 + word_of_int (sint n)" "x = []" "sb_encode c = [OP_1 - 1 + word_of_int (sint n)]"
      using assms(1) by (auto simp: AddInt64)
    have "uint (OP_1 - 1 + word_of_int (sint n) :: byte) = 80 + sint n"
      using 2 small_code[of "sint n"] by auto
    with c 2 show ?thesis by (auto simp: token_bytes_def token_ok_def op_length_opcodeArray)
  next
    case 3
    have "length (enc (sint n)) < 2 ^ 31" using sint_bounds[of n] by (intro enc_short) simp
    with push_token[of "enc (sint n)" b x] assms(1) 3 show ?thesis by simp
  qed
next
  case (AddData d)
  with assms push_token[of d b x] show ?thesis by simp
qed

text \<open>The tokenizer reads the token that stands at its offset.\<close>

definition at_call :: "tokenizer \<Rightarrow> bytes \<Rightarrow> bool" where
  "at_call t rest \<longleftrightarrow> offsets_fit t \<and> t_err t = None \<and> 0 \<le> t_offset t \<and> t_offset t \<le> int (length (t_script t)) \<and>
     drop (nat (t_offset t)) (t_script t) = rest"

lemma at_call_Done: "at_call t rest \<Longrightarrow> Done t \<longleftrightarrow> rest = []"
  by (auto simp: at_call_def Done_fits)

lemma push_dataLen_le:
  assumes "length x < 2 ^ 31" "n = 1 \<or> n = 2 \<or> n = 4" "length x < 256 ^ n"
  shows "push_dataLen (- int n) (le_fixed n (length x) @ r) = Some (int (length x))"
proof -
  have "take n (le_fixed n (length x) @ r) = le_fixed n (length x)" by simp
  moreover have "le_val (le_fixed n (length x)) = length x" using assms(3) by simp
  ultimately show ?thesis
    using assms(1,2) by (auto simp: push_dataLen_def int32_of_id simp del: le_fixed.simps le_val_le_fixed)
qed

lemma Next_token:
  assumes "at_call t (token_bytes (opcodeArray b) x @ rest)" "token_ok b x"
  shows "\<exists>t'. Next t = Inr (True, t') \<and> t_op t' = Some (opcodeArray b) \<and> t_data t' = x \<and> at_call t' rest \<and> t_version t' = t_version t"
proof -
  obtain k where k: "t_offset t = int k" using assms(1) nonneg_int_cases unfolding at_call_def by blast
  define p where "p = opcodeArray b"
  have S: "drop k (t_script t) = token_bytes p x @ rest" "k \<le> length (t_script t)" "t_err t = None"
    using assms(1) by (simp_all add: at_call_def k p_def)
  obtain y where y: "token_bytes p x @ rest = b # y" by (simp add: token_bytes_def p_def)
  have kl: "k < length (t_script t)"
    using S(1) y by (metis drop_all list.distinct(1) not_le)
  have ls: "length (t_script t) = k + length (token_bytes p x) + length rest"
    using S(1,2) by (metis add.assoc length_append length_drop le_add_diff_inverse)
  have fit: "offsets_fit t" using assms(1) by (simp add: at_call_def)
  have nd: "\<not> Done t" using kl S(3) by (simp add: Done_fits[OF fit] k)
  have at: "at_idx (t_script t) (int k) = Inr b"
    using kl S(1) y by (metis at_idx_nat hd_drop_conv_nth list.sel(1))
  have dr: "drop (k + length (token_bytes p x)) (t_script t) = rest"
    using S(1) by (metis add.commute append_eq_conv_conj drop_drop)
  have post: "\<exists>t'. Next t = Inr (True, t') \<and> t_op t' = Some (opcodeArray b) \<and> t_data t' = x \<and> at_call t' rest \<and> t_version t' = t_version t"
    if n: "Next t = Inr (True, t')" and "t_op t' = Some (opcodeArray b)" "t_data t' = x"
      and o: "t_offset t' = int (k + length (token_bytes p x))" for t'
  proof -
    note pr = Next_True_progress[OF n fit]
    then have "at_call t' rest" using o dr ls S(3) by (simp add: at_call_def nat_add_distrib)
    then show ?thesis using that pr by blast
  qed
  consider "op_length p = 1" | "1 < op_length p" | "op_length p < 0" using op_length_cases[of b] by (auto simp: p_def)
  then show ?thesis
  proof cases
    case 1
    then have "x = []" using assms(2) by (simp add: token_ok_def p_def)
    with 1 nd at have "Next t = Inr (True, t\<lparr>t_opcodePos := t_opcodePos t + 1, t_offset := int k + 1, t_op := Some p, t_data := []\<rparr>)"
      by (simp add: Next_fits[OF fit] k flip: p_def)
    from post[OF this] 1 \<open>x = []\<close> show ?thesis by (simp add: token_bytes_def) (simp add: p_def)
  next
    case 2
    then have x: "op_length p = int (length x) + 1" "x \<noteq> []" using assms(2) by (auto simp: token_ok_def p_def)
    then have tb: "token_bytes p x = b # x" by (simp add: token_bytes_def) (simp add: p_def)
    have sl: "slice (t_script t) (int k) (int (length (t_script t))) = Inr (b # x @ rest)"
      using slice_drop[of "int k" "t_script t"] S(1,2) tb by simp
    have s2: "slice (b # x @ rest) 1 (int (length x) + 1) = Inr x" by (simp add: slice_def nat_add_distrib)
    from x tb nd at sl s2 have "Next t = Inr (True, t\<lparr>t_opcodePos := t_opcodePos t + 1,
        t_offset := int k + (int (length x) + 1), t_op := Some p, t_data := x\<rparr>)"
      by (simp add: Next_fits[OF fit] Let_def k flip: p_def)
    from post[OF this] tb show ?thesis by (simp add: p_def)
  next
    case 3
    define n where "n = nat (- op_length p)"
    have neg: "op_length p = -1 \<or> op_length p = -2 \<or> op_length p = -4"
      using 3 uint_ge_0[of b] unfolding p_def op_length_opcodeArray by (smt (verit))
    have n: "op_length p = - int n" "n = 1 \<or> n = 2 \<or> n = 4" "length x < 256 ^ n" "length x < 2 ^ 31"
      using 3 neg assms(2) by (auto simp: n_def p_def token_ok_def)
    have tb: "token_bytes p x = b # le_fixed n (length x) @ x" using n 3 by (simp add: token_bytes_def) (simp add: p_def)
    have "drop (Suc k) (t_script t) = tl (drop k (t_script t))" by (simp add: drop_Suc tl_drop)
    then have "slice (t_script t) (int k + 1) (int (length (t_script t))) = Inr (le_fixed n (length x) @ x @ rest)"
      using slice_drop[of "int k + 1" "t_script t"] S(1) kl tb by (simp add: nat_add_distrib)
    moreover have "push_dataLen (- int n) (le_fixed n (length x) @ x @ rest) = Some (int (length x))"
      using push_dataLen_le[OF n(4,2,3)] by simp
    moreover have "slice (le_fixed n (length x) @ x @ rest) (int n) (int (length (le_fixed n (length x) @ x @ rest))) = Inr (x @ rest)"
      by (simp add: slice_def del: le_fixed.simps)
    moreover have "slice (x @ rest) 0 (int (length x)) = Inr x" by (simp add: slice_def)
    ultimately have "Next t = Inr (True, t\<lparr>t_opcodePos := t_opcodePos t + 1,
        t_offset := int k + (1 + int n + int (length x)), t_op := Some p, t_data := x\<rparr>)"
      using 3 n(1) nd at by (simp add: Next_fits[OF fit] Let_def k del: le_fixed.simps flip: p_def)
    from post[OF this] tb show ?thesis by (simp add: p_def del: le_fixed.simps)
  qed
qed

subsection \<open>A step and a run\<close>

text \<open>The states of a run of the script: at its transaction, outside any conditional, in the
second of the two scripts of the engine.\<close>

definition calm :: "lib \<Rightarrow> vm \<Rightarrow> vm \<Rightarrow> bool" where
  "calm L vm v \<longleftrightarrow> tx v = tx vm \<and> txIdx v = txIdx vm \<and> prevOutFetcher v = prevOutFetcher vm \<and>
     (\<forall>h. computeArkadeSighash L v h = computeArkadeSighash L vm h) \<and> condStack v = [] \<and> witnessProgram v = None \<and>
     scriptIdx v = 1 \<and> length (scripts v) = 2 \<and> (\<exists>c. taprootCtx v = Some c \<and> \<not> mustSucceed c)"

lemma calm_effect: "calm L vm v \<Longrightarrow> call_effect L v c = call_effect L vm c"
proof -
  assume a: "calm L vm v"
  then have v: "tx v = tx vm" "txIdx v = txIdx vm" "prevOutFetcher v = prevOutFetcher vm"
    "computeArkadeSighash L v = computeArkadeSighash L vm" by (auto simp: calm_def)
  have i1: "input_effect v g k = input_effect vm g k" for g :: "fetcher \<Rightarrow> txin \<Rightarrow> bytes option" and k
    unfolding input_effect_def v ..
  have i2: "input_effect v g k = input_effect vm g k" for g :: "fetcher \<Rightarrow> txin \<Rightarrow> txout option" and k
    unfolding input_effect_def v ..
  have s: "sighash_effect L v = sighash_effect L vm" unfolding sighash_effect_def v ..
  have "op_effect L v b xs = op_effect L vm b xs" for b xs unfolding op_effect_def v i1 i2 s ..
  then show ?thesis by (cases c) (auto simp: fun_eq_iff)
qed

lemma sighash_charged:
  assumes "taprootCtx v = Some c"
  shows "computeArkadeSighash L (v\<lparr>taprootCtx := Some (c\<lparr>opCounts := n\<rparr>), budget := b\<rparr>) h = computeArkadeSighash L v h"
proof -
  have "same_tx (v\<lparr>taprootCtx := Some (c\<lparr>opCounts := n\<rparr>), budget := b\<rparr>) v"
    using assms by (simp add: same_tx_def leaf_of_def)
  from buildArkadeSigMsg_cong[OF this _ assms, of "c\<lparr>opCounts := n\<rparr>"] show ?thesis
    by (simp add: computeArkadeSighash_def)
qed

lemma sighash_same_ctx:
  assumes "same_tx v v'" "taprootCtx v' = taprootCtx v"
  shows "computeArkadeSighash L v' h = computeArkadeSighash L v h"
proof (cases "taprootCtx v")
  case None
  with assms(2) show ?thesis by (simp add: computeArkadeSighash_def buildArkadeSigMsg_def)
next
  case (Some c)
  from buildArkadeSigMsg_cong [OF assms(1) Some, of c] Some assms(2) show ?thesis
    by (simp add: computeArkadeSighash_def)
qed

lemma sighash_tokenizer: 
  "computeArkadeSighash L (v\<lparr>tokenizer := t\<rparr>) h = computeArkadeSighash L v h"
  "computeArkadeSighash L (v\<lparr>opcodeIdx := i\<rparr>) h = computeArkadeSighash L v h"
  by (rule sighash_same_ctx; simp add: same_tx_def leaf_of_def)+

lemma charge_calm:
  assumes "chargeOpcode b v = Inr v'" "calm L vm v"
  shows "calm L vm v' \<and> dstack v' = dstack v \<and> tokenizer v' = tokenizer v"
proof -
  obtain c where c: "taprootCtx v = Some c" "\<not> mustSucceed c" using assms(2) by (auto simp: calm_def)
  have "\<exists>n bu. v' = v\<lparr>taprootCtx := Some (c\<lparr>opCounts := n\<rparr>), budget := bu\<rparr>"
  proof -
    from assms(1) c obtain ctx bu where "v' = v\<lparr>taprootCtx := Some ctx, budget := bu\<rparr>"
        "(case limits v b of None \<Rightarrow> Inr c
            | Some limit \<Rightarrow>
                let ctx' = c\<lparr>opCounts := (opCounts c)(b := opCounts c b + 1)\<rparr> in
                if opCounts ctx' b > limit then script_err ErrScriptTooBig else Inr ctx') = Inr ctx"
      by (auto simp: chargeOpcode_def bindE_Inr_iff)
    moreover from this(2) have "\<exists>n. ctx = c\<lparr>opCounts := n\<rparr>"
      by (cases "limits v b") (auto simp: Let_def split: if_splits intro: exI[of _ "opCounts c"])
    ultimately show ?thesis by blast
  qed
  with assms(2) c show ?thesis by (auto simp: calm_def sighash_charged)
qed

lemma push_code_low:
  assumes "push_code d = (b, x)" shows "uint b \<le> 96"
proof -
  have "uint (word_of_nat (length d) :: byte) \<le> 96" if "length d \<le> 75" using that by (simp add: uint_nat unat_of_nat)
  moreover have "uint (OP_1 + d ! 0 - 1) \<le> 96" if "unat (d ! 0) \<le> 16"
  proof -
    have "-1 \<le> int (unat (d ! 0)) \<and> int (unat (d ! 0)) \<le> 16" using that by linarith
    moreover have "uint (d ! 0) \<le> 16" using that unfolding uint_nat by linarith
    ultimately show ?thesis using small_code[of "int (unat (d ! 0))"] by simp
  qed
  ultimately show ?thesis using assms by (auto simp: push_code_def split: if_splits)
qed

lemma policy_code_executes:
  assumes "call_code c = (b, x)" "call_ok c" shows "\<not> isOpcodeAlwaysIllegal b"
proof (cases c)
  case (AddOp a)
  with assms show ?thesis by (auto simp: policy_ops_def isOpcodeAlwaysIllegal_def)
next
  case (AddInt64 n)
  have "uint b \<le> 96"
    using assms(1) small_code[of "sint n"] push_code_low[of "enc (sint n)" b x] unfolding AddInt64 call_code.simps
    by (auto split: if_splits)
  then show ?thesis by (auto simp: isOpcodeAlwaysIllegal_def)
next
  case (AddData d)
  with assms(1) have "uint b \<le> 96" using push_code_low[of d b x] by simp
  then show ?thesis by (auto simp: isOpcodeAlwaysIllegal_def)
qed

lemma step_call:
  assumes "Step L v = Inr (fin, v2)" "calm L vm v" "at_call (tokenizer v) (sb_encode c @ rest)" "call_ok c"
    and "\<And>d. c = AddData d \<Longrightarrow> length d < 2 ^ 31"
    and "length (TxIn (tx vm)) < 2 ^ 31" "length (TxOut (tx vm)) < 2 ^ 31" "0 \<le> txIdx vm" "txIdx vm < 2 ^ 31"
  shows "call_effect L vm c (items (dstack v)) = Some (items (dstack v2)) \<and>
    (if rest = [] then fin \<and> scriptIdx v2 = 2 \<and> (\<exists>c. taprootCtx v2 = Some c \<and> \<not> mustSucceed c)
     else \<not> fin \<and> calm L vm v2 \<and> at_call (tokenizer v2) rest)"
proof -
  obtain b x where bx: "call_code c = (b, x)" by fastforce
  from call_token[OF bx assms(4,5)] assms(3) obtain t where t: "Next (tokenizer v) = Inr (True, t)"
      "t_op t = Some (opcodeArray b)" "t_data t = x" "at_call t rest" "t_version t = t_version (tokenizer v)"
    using Next_token[of "tokenizer v" b x rest] by auto
  let ?v0 = "v\<lparr>tokenizer := t\<rparr>"
  from assms(1) t obtain v1 where v1: "executeOpcode L (opcodeArray b) x ?v0 = Inr v1"
      "(if Done (tokenizer v1) then nextScript L (v1\<lparr>opcodeIdx := opcodeIdx v1 + 1\<rparr>)
        else Inr (False, v1\<lparr>opcodeIdx := opcodeIdx v1 + 1\<rparr>)) = Inr (fin, v2)"
    by (auto simp: Step_def bindE_Inr_iff Tok_Data_def Let_def split: if_splits)
  have calm0: "calm L vm ?v0" using assms(2) by (simp add: calm_def sighash_tokenizer)
  have ex: "isBranchExecuting ?v0" using assms(2) by (simp add: isBranchExecuting_def calm_def)
  from v1(1) policy_code_executes[OF bx assms(4)] ex obtain v' where v': "chargeOpcode b ?v0 = Inr v'"
      "run_opfunc (op_func (opcodeArray b)) L (opcodeArray b) x v' = Inr v1"
    by (auto simp: executeOpcode_def bindE_Inr_iff split: if_splits)
  note ch = charge_calm[OF v'(1) calm0]
  have "tx v' = tx vm" "txIdx v' = txIdx vm" using ch by (simp_all add: calm_def)
  with call_acts[OF bx assms(4) v'(2)] assms(6-9) have "acts (call_effect L v' c) v' v1" by simp
  then obtain ys where ys: "call_effect L vm c (items (dstack v)) = Some ys" "v1 = v'\<lparr>dstack := with_items (dstack v') ys\<rparr>"
    using ch calm_effect[of L vm v' c] by (auto simp: acts_def)
  have calm1: "calm L vm (v1\<lparr>opcodeIdx := opcodeIdx v1 + 1\<rparr>)" and tok: "tokenizer v1 = t"
    using ch ys(2) by (simp_all add: calm_def sighash_tokenizer)
  have end_iff: "Done t \<longleftrightarrow> rest = []" using t(4) by (rule at_call_Done)
  show ?thesis
  proof (cases "rest = []")
    case True
    with v1(2) tok end_iff have "nextScript L (v1\<lparr>opcodeIdx := opcodeIdx v1 + 1\<rparr>) = Inr (fin, v2)" by simp
    with calm1 True ys show ?thesis by (auto simp: nextScript_def calm_def Let_def split: if_splits)
  next
    case False
    with v1(2) tok end_iff calm1 ys t(4) show ?thesis by auto
  qed
qed

fun run_effects :: "lib \<Rightarrow> vm \<Rightarrow> sb_call list \<Rightarrow> bytes list \<Rightarrow> bytes list option" where
  "run_effects L vm [] xs = Some xs"
| "run_effects L vm (c # cs) xs = Option.bind (call_effect L vm c xs) (run_effects L vm cs)"

lemma run_effects_append:
  "run_effects L vm (cs @ ds) xs = Option.bind (run_effects L vm cs xs) (run_effects L vm ds)"
  by (induction cs arbitrary: xs) (auto split: bind_splits)

lemma encode_Nil: "call_ok c \<Longrightarrow> sb_encode c \<noteq> []"
  by (cases c) (auto simp: push_encode_def)

lemma run_calls:
  assumes "run_steps L v = Some (Inr vf)" "calm L vm v" "at_call (tokenizer v) (concat (map sb_encode calls))" "calls \<noteq> []"
    and "list_all call_ok calls" "\<And>d. AddData d \<in> set calls \<Longrightarrow> length d < 2 ^ 31"
    and "length (TxIn (tx vm)) < 2 ^ 31" "length (TxOut (tx vm)) < 2 ^ 31" "0 \<le> txIdx vm" "txIdx vm < 2 ^ 31"
  shows "run_effects L vm calls (items (dstack v)) = Some (items (dstack vf)) \<and> scriptIdx vf = 2 \<and>
    (\<exists>c. taprootCtx vf = Some c \<and> \<not> mustSucceed c)"
  using assms(1-6)
proof (induction calls arbitrary: v)
  case (Cons c calls)
  obtain fin v2 where s: "Step L v = Inr (fin, v2)" and r: "if fin then v2 = vf else run_steps L v2 = Some (Inr vf)"
    using Cons.prems(1) by (auto simp: run_steps.simps [of L v] split: sum.splits if_splits prod.splits)
  have "at_call (tokenizer v) (sb_encode c @ concat (map sb_encode calls))" using Cons.prems(3) by simp
  note st = step_call[OF s Cons.prems(2) this _ _ assms(7-10)]
  have ok: "call_ok c" "\<And>d. c = AddData d \<Longrightarrow> length d < 2 ^ 31" using Cons.prems(5,6) by auto
  show ?case
  proof (cases "calls = []")
    case True
    with st[OF ok] r show ?thesis by auto
  next
    case False
    then have "concat (map sb_encode calls) \<noteq> []"
      using Cons.prems(5) encode_Nil by (cases calls) auto
    with st[OF ok] r have "run_steps L v2 = Some (Inr vf)" "calm L vm v2" "at_call (tokenizer v2) (concat (map sb_encode calls))"
      "call_effect L vm c (items (dstack v)) = Some (items (dstack v2))" by auto
    from Cons.IH[OF this(1-3) False] Cons.prems(5,6) this(4) show ?thesis by auto
  qed
qed simp

lemma apply_options_start:
  "scriptIdx (foldl (\<lambda>e opt. apply_option opt e) vm opts) = scriptIdx vm \<and>
   scripts (foldl (\<lambda>e opt. apply_option opt e) vm opts) = scripts vm \<and>
   condStack (foldl (\<lambda>e opt. apply_option opt e) vm opts) = condStack vm \<and>
   witnessProgram (foldl (\<lambda>e opt. apply_option opt e) vm opts) = witnessProgram vm \<and>
   tokenizer (foldl (\<lambda>e opt. apply_option opt e) vm opts) = tokenizer vm \<and>
   dstack (foldl (\<lambda>e opt. apply_option opt e) vm opts) = dstack vm"
proof (induction opts arbitrary: vm)
  case (Cons opt opts)
  have "scriptIdx (apply_option opt vm) = scriptIdx vm \<and> scripts (apply_option opt vm) = scripts vm \<and>
      condStack (apply_option opt vm) = condStack vm \<and> witnessProgram (apply_option opt vm) = witnessProgram vm \<and>
      tokenizer (apply_option opt vm) = tokenizer vm \<and> dstack (apply_option opt vm) = dstack vm"
    by (cases "(opt, vm)" rule: apply_option.cases) simp_all
  with Cons [of "apply_option opt vm"] show ?case by simp
qed simp

lemma prepared_calm:
  assumes "prepare_engine L s t f idx opts = Inr vm" "SignatureScript (TxIn t ! nat idx) = []"
    and "\<not> IsWitnessProgram L (as_script s)"
  shows "calm L vm vm \<and> at_call (tokenizer vm) (as_script s) \<and> items (dstack vm) = rev (as_witness s) \<and>
    length (as_script s) \<le> 10000 \<and> 0 \<le> idx \<and> idx < int (length (TxIn t))"
proof -
  define P where "P v \<longleftrightarrow> scriptIdx v = 1 \<and> length (scripts v) = 2 \<and> condStack v = [] \<and> witnessProgram v = None \<and>
    tokenizer v = MakeScriptTokenizer 0 (as_script s) \<and> dstack v = \<lparr>stk = [], verifyMinimalData = True\<rparr>" for v :: vm
  have n: "P v \<and> length (as_script s) \<le> 10000 \<and> 0 \<le> idx \<and> idx < int (length (TxIn t))"
    if "NewEngine L (as_script s) t idx h c a (Some f) = Inr v" for h c a v
    using that assms(2,3) by (auto simp: P_def NewEngine_def bindE_Inr_iff Let_def MaxScriptSize_def split: if_splits)
  obtain a e0 ext where e: "NewEngine L (as_script s) t idx (Some []) (NewTxSigHashes L t f) a (Some f) = Inr e0"
    and r: "bindE (FindEmulatorPacket L t) (\<lambda>packet.
       if packetBound s \<and> (uint (packetVin s) \<noteq> idx \<or>
          \<not> packetContainsExactEntry (case packet of None \<Rightarrow> [] | Some p \<Rightarrow> p) (packetVin s) (as_script s) (as_witness s))
       then go_err ''arkade script does not match transaction packet entry''
       else let engine = (case packet of None \<Rightarrow> ext | Some p \<Rightarrow> SetEmulatorPacket (Some p) ext) in
         Inr (if length (as_witness s) > 0 then SetStack (as_witness s) engine else engine)) = Inr vm"
    and x: "\<exists>y. ext = (let engine = foldl (\<lambda>e opt. apply_option opt e)
         (e0\<lparr>taprootCtx := Some (newTaprootExecutionCtxForLeaf L (spendingTapLeaf s))\<rparr>) opts in
       case y of None \<Rightarrow> engine | Some z \<Rightarrow> (case GetAssetPacket L z of None \<Rightarrow> engine
         | Some ap \<Rightarrow> SetAssetPacket (Some ap) engine))"
    using assms(1) unfolding prepare_engine_def Let_def bindE_Inr_iff by blast
  have p: "P v \<Longrightarrow> P (SetAssetPacket x v)" "P v \<Longrightarrow> P (SetEmulatorPacket y v)" for v x y
    by (simp_all add: P_def SetAssetPacket_def SetEmulatorPacket_def)
  have "P (foldl (\<lambda>e opt. apply_option opt e)
      (e0\<lparr>taprootCtx := Some (newTaprootExecutionCtxForLeaf L (spendingTapLeaf s))\<rparr>) opts)"
    using n [OF e] by (simp add: P_def apply_options_start)
  then have "P ext" using x p(1) by (auto simp: Let_def split: option.splits)
  then obtain g where g: "P g" "vm = (if length (as_witness s) > 0 then SetStack (as_witness s) g else g)"
    using r p(2) by (auto simp: bindE_Inr_iff Let_def split: if_splits option.splits)
  have "vm = g\<lparr>dstack := \<lparr>stk = as_witness s, verifyMinimalData = True\<rparr>\<rparr>"
    using g by (cases g) (auto simp: SetStack_def setStack_eq P_def)
  then have "P (vm\<lparr>dstack := \<lparr>stk = [], verifyMinimalData = True\<rparr>\<rparr>)" "stk (dstack vm) = as_witness s"
    using g(1) by (auto simp: P_def)
  moreover have "taprootCtx vm = Some (newTaprootExecutionCtxForLeaf L (spendingTapLeaf s))"
    using prepare_engine_env[OF assms(1)] by simp
  ultimately show ?thesis
    using n[OF e] by (auto simp: P_def calm_def at_call_def offsets_fit_def MakeScriptTokenizer_def items_def newTaprootExecutionCtxForLeaf_def
        newTaprootExecutionCtx_def)
qed

subsection \<open>What the blocks of the script imply\<close>

lemma op_effects:
  "op_effect L vm OP_0 xs = Some ([] # xs)"
  "op_effect L vm OP_INSPECTVERSION xs = Some (enc (sint (tx_version (tx vm))) # xs)"
  "op_effect L vm OP_INSPECTLOCKTIME xs = Some (enc (uint (LockTime (tx vm))) # xs)"
  "op_effect L vm OP_INSPECTNUMINPUTS xs = Some (enc (int (length (TxIn (tx vm)))) # xs)"
  "op_effect L vm OP_INSPECTNUMOUTPUTS xs = Some (enc (int (length (TxOut (tx vm)))) # xs)"
  "op_effect L vm OP_PUSHCURRENTINPUTINDEX xs = Some (enc (txIdx vm) # xs)"
  "op_effect L vm OP_TXWEIGHT xs = Some (enc (uint (word_of_int (SerializeSizeStripped L (tx vm) * 4) :: uint64)) # xs)"
  "op_effect L vm OP_INSPECTINPUTSEQUENCE xs =
     pop1_effect (\<lambda>i r. map_option (\<lambda>txIn. enc (uint (Sequence txIn)) # r) (nth_item i (TxIn (tx vm)))) xs"
  "op_effect L vm OP_INSPECTOUTPUTVALUE xs =
     pop1_effect (\<lambda>i r. Option.bind (nth_item i (TxOut (tx vm))) (\<lambda>out. satoshi_item (out_value out) r)) xs"
  "op_effect L vm OP_INSPECTOUTPUTSCRIPTPUBKEY xs =
     pop1_effect (\<lambda>i r. Option.bind (nth_item i (TxOut (tx vm))) (\<lambda>out. script_items L (PkScript out) r)) xs"
  "op_effect L vm OP_INSPECTINPUTVALUE xs =
     input_effect vm (\<lambda>f i. FetchPrevOutput f (PreviousOutPoint i)) (\<lambda>p. satoshi_item (out_value p)) xs"
  "op_effect L vm OP_INSPECTINPUTSCRIPTPUBKEY xs =
     input_effect vm (\<lambda>f i. FetchVtxoPrevOutPkScript f (PreviousOutPoint i)) (script_items L) xs"
  "op_effect L vm OP_INSPECTPACKET xs = packet_effect L (tx vm) xs"
  "op_effect L vm OP_SIGHASH xs = sighash_effect L vm xs"
  "op_effect L vm OP_CHECKSIGFROMSTACK xs = csfs_effect L xs"
  "op_effect L vm OP_EQUALVERIFY xs = pop2_effect (\<lambda>x y r. if x = y then Some r else None) xs"
  "op_effect L vm OP_VERIFY xs = pop1_effect (\<lambda>x r. if asBool x then Some r else None) xs"
  "op_effect L vm OP_DROP xs = pop1_effect (\<lambda>x r. Some r) xs"
  "op_effect L vm OP_DUP xs = pop1_effect (\<lambda>x r. Some (x # x # r)) xs"
  "op_effect L vm OP_SWAP xs = pop2_effect (\<lambda>x y r. Some (y # x # r)) xs"
  "op_effect L vm OP_CAT xs = pop2_effect (\<lambda>x y r. Some ((y @ x) # r)) xs"
  "op_effect L vm OP_SHA256 xs = pop1_effect (\<lambda>x r. Some (sha256 L x # r)) xs"
  "op_effect L vm OP_ADD xs = num2_effect (\<lambda>x y. enc (x + y)) xs"
  "op_effect L vm OP_SUB xs = num2_effect (\<lambda>x y. enc (x - y)) xs"
  "op_effect L vm OP_MUL xs = num2_effect (\<lambda>x y. enc (x * y)) xs"
  "op_effect L vm OP_DIV xs = num2_effect (\<lambda>x y. enc (x sdiv y)) xs"
  "op_effect L vm OP_LESSTHANOREQUAL xs = num2_effect (\<lambda>x y. cond_item (x \<le> y)) xs"
  "op_effect L vm OP_GREATERTHANOREQUAL xs = num2_effect (\<lambda>x y. cond_item (x \<ge> y)) xs"
  by (simp_all add: op_effect_def)

lemma enc_eq_iff [simp]: "enc a = enc b \<longleftrightarrow> a = b"
  by (metis dec_enc)

lemma asBool_enc [simp]: "asBool (enc n) \<longleftrightarrow> n \<noteq> 0" "asBool (cond_item c) \<longleftrightarrow> c"
  by (simp_all add: asBool_iff cond_item_def)

lemma nth_item_enc [simp]: "0 \<le> i \<Longrightarrow> nth_item (enc i) xs = (if nat i < length xs then Some (xs ! nat i) else None)"
  by (auto simp: nth_item_def)

lemma bind_Some_iff: "Option.bind m f = Some y \<longleftrightarrow> (\<exists>x. m = Some x \<and> f x = Some y)"
  by (cases m) simp_all

lemma input_effect_Some:
  "input_effect vm g k xs = Some ys \<longleftrightarrow> (\<exists>i r t f x. xs = i # r \<and> nth_item i (TxIn (tx vm)) = Some t \<and>
     prevOutFetcher vm = Some f \<and> g f t = Some x \<and> k x r = Some ys)"
  by (cases xs) (auto simp: input_effect_def split: option.splits)

text \<open>The version, the lock time, and the one input with its sequence.\<close>

lemma shape_block:
  "run_effects L vm shape_calls xs = Some ys \<longleftrightarrow> ys = xs \<and> sint (tx_version (tx vm)) = 2 \<and> LockTime (tx vm) = 0 \<and>
     length (TxIn (tx vm)) = 1 \<and> Sequence (TxIn (tx vm) ! 0) = 0xffffffff"
proof -
  have s: "sint (ucast MaxTxInSequenceNum :: int64) = 0xffffffff" by (simp add: MaxTxInSequenceNum_def)
  have w: "uint w = 4294967295 \<longleftrightarrow> w = 0xffffffff" for w :: "32 word"
  proof -
    have "uint (0xffffffff :: 32 word) = 4294967295" by simp
    then show ?thesis by (metis word_uint_eq_iff)
  qed
  have z: "uint w = 0 \<longleftrightarrow> w = 0" for w :: "32 word" by (metis uint_0_eq word_uint_eq_iff)
  show ?thesis
    by (auto simp: shape_calls_def op_effects s w z bind_Some_iff split: if_splits)
qed

definition is_witness :: "lib \<Rightarrow> bytes \<Rightarrow> int \<Rightarrow> bytes \<Rightarrow> bool" where
  "is_witness L pk v prog \<longleftrightarrow> IsWitnessProgram L pk \<and> (\<exists>w. ExtractWitnessProgramInfo L pk = Inr (w, prog) \<and> sint (word_of_int w :: int64) = v)"

lemma script_items_Some:
  "script_items L pk r = Some ys \<longleftrightarrow> (\<exists>v prog. is_witness L pk v prog \<and> ys = enc v # prog # r) \<or>
     (\<not> IsWitnessProgram L pk \<and> ys = enc (-1) # sha256 L pk # r)"
  by (auto simp: script_items_def is_witness_def split: sum.splits prod.splits)

lemma is_witness_version: "lib_ok L \<Longrightarrow> \<not> is_witness L pk (-1) prog"
proof
  assume "lib_ok L" and w: "is_witness L pk (-1) prog"
  then have "okE (\<lambda>(v, p). 0 \<le> v \<and> v \<le> 16 \<and> length p \<le> 40) (ExtractWitnessProgramInfo L pk)" by (simp only: lib_ok_def)
  with w show False by (auto simp: is_witness_def sint_word_of_int_id)
qed

lemma satoshi_item_Some: "satoshi_item v r = Some ys \<longleftrightarrow> 0 \<le> sint v \<and> sint v \<le> MaxSatoshi \<and> ys = enc (sint v) # r"
  by (auto simp: satoshi_item_def)

text \<open>The recipient: a value within the bounds, to a native witness program.\<close>

lemma recipient_block:
  assumes "run_effects L vm (recipient_calls p) xs = Some ys"
  shows "ys = xs \<and> 0 < length (TxOut (tx vm)) \<and>
    sint (RecipientDustSats p) \<le> sint (out_value (TxOut (tx vm) ! 0)) \<and>
    sint (out_value (TxOut (tx vm) ! 0)) \<le> sint (RecipientCapSats p) \<and>
    (\<exists>v prog. is_witness L (PkScript (TxOut (tx vm) ! 0)) v prog \<and> 0 \<le> v)"
  using assms
  by (auto simp: recipient_calls_def op_effects bind_Some_iff script_items_Some satoshi_item_Some split: if_splits) blast

text \<open>The change: no less than the dust limit, to the witness program of the input being spent.\<close>

lemma change_block:
  assumes "run_effects L vm (change_calls p) xs = Some ys" "txIdx vm = 0" "length (TxIn (tx vm)) = 1"
  shows "ys = xs \<and> length (TxOut (tx vm)) = 3 \<and>
    sint (RecipientDustSats p) \<le> sint (out_value (TxOut (tx vm) ! 1)) \<and>
    (\<exists>f pk prog. prevOutFetcher vm = Some f \<and> FetchVtxoPrevOutPkScript f (PreviousOutPoint (TxIn (tx vm) ! 0)) = Some pk \<and>
       is_witness L pk 1 prog \<and> is_witness L (PkScript (TxOut (tx vm) ! 1)) 1 prog)"
  using assms
  by (auto simp: change_calls_def op_effects bind_Some_iff script_items_Some satoshi_item_Some input_effect_Some
      split: if_splits) blast

text \<open>The packet: the last output has no value and is the envelope around the packet of the
transaction, as far as SHA-256 tells.\<close>

lemma packet_block:
  assumes "run_effects L vm (packet_calls pre) xs = Some ys" "length (TxOut (tx vm)) = 3" "lib_ok L"
  shows "ys = xs \<and> out_value (TxOut (tx vm) ! 2) = 0 \<and> \<not> IsWitnessProgram L (PkScript (TxOut (tx vm) ! 2)) \<and>
    (\<exists>c. findPacketByType L (tx vm) PacketType = Inr (Some c) \<and>
       sha256 L (pre @ c) = sha256 L (PkScript (TxOut (tx vm) ! 2)))"
  using assms(1,2) is_witness_version[OF assms(3)]
  by (auto simp: packet_calls_def op_effects bind_Some_iff script_items_Some satoshi_item_Some packet_effect_def PacketType_def
      sint_eq_0_iff split: if_splits option.splits sum.splits)

text \<open>The fee: what the input leaves after the two payments.\<close>

lemma fee_block:
  assumes "run_effects L vm (fee_calls p) xs = Some ys" "length (TxOut (tx vm)) = 3" "length (TxIn (tx vm)) = 1"
  shows "ys = xs \<and> (\<exists>f prev. prevOutFetcher vm = Some f \<and> FetchPrevOutput f (PreviousOutPoint (TxIn (tx vm) ! 0)) = Some prev \<and>
      (let fee = sint (out_value prev) - sint (out_value (TxOut (tx vm) ! 0)) - sint (out_value (TxOut (tx vm) ! 1)) in
        0 \<le> fee \<and> fee \<le> sint (AbsoluteFeeCeilingSats p) \<and>
        fee \<le> (uint (word_of_int (SerializeSizeStripped L (tx vm) * 4) :: uint64) + 399 + 3) sdiv 4 * sint (FeerateCeilingSatPerV p)))"
  using assms
  by (auto simp: fee_calls_def op_effects bind_Some_iff satoshi_item_Some input_effect_Some RoutineWitnessBytes_def Let_def
      split: if_splits)

text \<open>The signature over the hash of the transaction.\<close>

lemma signature_block:
  assumes "run_effects L vm (signature_calls key) (sig # r) = Some ys"
  shows "\<exists>h. computeArkadeSighash L vm 0 = Inr h \<and> csfs_effect L (key # h # sig # r) = Some ys"
  using assms
  by (auto simp: signature_calls_def op_effects bind_Some_iff sighash_effect_def simp del: csfs_effect.simps split: sum.splits)

subsection \<open>The policy, enforced\<close>

lemma push_encode_length: "length d \<le> length (push_encode d)"
  by (auto simp: push_encode_def Suc_le_eq simp del: le_fixed.simps)

lemma encode_lengths: "list_all call_ok calls \<Longrightarrow> length calls \<le> length (concat (map sb_encode calls))"
proof (induction calls)
  case (Cons c calls)
  then have "sb_encode c \<noteq> []" using encode_Nil[of c] by simp
  with Cons show ?case by (cases "sb_encode c") simp_all
qed simp

lemma encode_member: "c \<in> set calls \<Longrightarrow> length (sb_encode c) \<le> length (concat (map sb_encode calls))"
  by (induction calls) auto

definition policy_calls :: "bytes \<Rightarrow> AuthorizationPolicy \<Rightarrow> bytes \<Rightarrow> sb_call list" where
  "policy_calls key policy pre = shape_calls @ recipient_calls policy @ change_calls policy @
     packet_calls pre @ fee_calls policy @ signature_calls (0x11 # key)"

lemma policy_calls_ok:
  assumes "pre \<noteq> [0]" "key \<noteq> []" shows "list_all call_ok (policy_calls key policy pre)" "60 < length (policy_calls key policy pre)"
  using assms
  by (simp_all add: policy_calls_def shape_calls_def recipient_calls_def change_calls_def packet_calls_def fee_calls_def
      signature_calls_def policy_ops_def)

lemma policy_data: "AddData d \<in> set (policy_calls key policy pre) \<Longrightarrow> d = pre \<or> d = 0x11 # key"
  by (auto simp: policy_calls_def shape_calls_def recipient_calls_def change_calls_def packet_calls_def fee_calls_def
      signature_calls_def)

lemma direct_key_scheme:
  assumes "parseSchemePubKey L (0x11 # key) = Inr scheme" "length key = 33"
  shows "\<exists>pub. scheme = SchemeECDSASecp256r1 pub"
  using assms
  by (auto simp: parseSchemePubKey_def extPubKeyECDSASecp256k1_def extPubKeyECDSASecp256r1_def bindE_Inr_iff
      split: option.splits)

lemma calc_sighash:
  assumes "prepare_engine L s t f idx opts = Inr vm"
  shows "CalcArkadeScriptSignatureHash L (Some (NewTxSigHashes L t f)) h (Some t) idx (Some f) (spendingTapLeaf s) [] =
    computeArkadeSighash L vm h"
proof -
  have c: "(newTaprootExecutionCtxForLeaf L (spendingTapLeaf s))\<lparr>codeSepPos := blankCodeSepValue\<rparr> =
      newTaprootExecutionCtxForLeaf L (spendingTapLeaf s)"
    by (simp add: newTaprootExecutionCtxForLeaf_def newTaprootExecutionCtx_def)
  show ?thesis
    unfolding CalcArkadeScriptSignatureHash_def option.case foldl.simps c
    by (rule sighash_same_ctx) (use prepare_engine_env[OF assms] in \<open>simp_all add: same_tx_def leaf_of_def sighash_engine_def\<close>)
qed

text \<open>What a successful run of the blocks says of the transaction of the engine.\<close>

lemma policy_calls_imply:
  assumes "run_effects L vm (policy_calls key p pre) xs = Some [b]" "asBool b" "lib_ok L" "0 \<le> txIdx vm"
    "txIdx vm < int (length (TxIn (tx vm)))" "length key = 33"
  shows "\<exists>i r c k sig f pk prev prog content h pub. TxIn (tx vm) = [i] \<and> TxOut (tx vm) = [r, c, k] \<and> txIdx vm = 0 \<and>
    sint (tx_version (tx vm)) = 2 \<and> LockTime (tx vm) = 0 \<and> Sequence i = 0xffffffff \<and>
    sint (RecipientDustSats p) \<le> sint (out_value r) \<and> sint (out_value r) \<le> sint (RecipientCapSats p) \<and>
    IsWitnessProgram L (PkScript r) \<and> sint (RecipientDustSats p) \<le> sint (out_value c) \<and>
    prevOutFetcher vm = Some f \<and> FetchVtxoPrevOutPkScript f (PreviousOutPoint i) = Some pk \<and>
    is_witness L pk 1 prog \<and> is_witness L (PkScript c) 1 prog \<and>
    out_value k = 0 \<and> \<not> IsWitnessProgram L (PkScript k) \<and> findPacketByType L (tx vm) PacketType = Inr (Some content) \<and>
    sha256 L (pre @ content) = sha256 L (PkScript k) \<and> FetchPrevOutput f (PreviousOutPoint i) = Some prev \<and>
    (let fee = sint (out_value prev) - sint (out_value r) - sint (out_value c) in
       0 \<le> fee \<and> fee \<le> sint (AbsoluteFeeCeilingSats p) \<and>
       fee \<le> (uint (word_of_int (SerializeSizeStripped L (tx vm) * 4) :: uint64) + 399 + 3) sdiv 4 * sint (FeerateCeilingSatPerV p)) \<and>
    xs = [sig] \<and> computeArkadeSighash L vm 0 = Inr h \<and>
    parseSchemePubKey L (0x11 # key) = Inr (SchemeECDSASecp256r1 pub) \<and> length sig = 64 \<and> verifyECDSASecp256r1 L pub h sig"
proof -
  obtain x1 x2 x3 x4 x5 where b: "run_effects L vm shape_calls xs = Some x1" "run_effects L vm (recipient_calls p) x1 = Some x2"
      "run_effects L vm (change_calls p) x2 = Some x3" "run_effects L vm (packet_calls pre) x3 = Some x4"
      "run_effects L vm (fee_calls p) x4 = Some x5" "run_effects L vm (signature_calls (0x11 # key)) x5 = Some [b]"
    using assms(1) by (auto simp: policy_calls_def run_effects_append bind_Some_iff)
  note s = b(1)[unfolded shape_block]
  have idx: "txIdx vm = 0" using s assms(4,5) by simp
  note r = recipient_block[OF b(2)]
  have one: "length (TxIn (tx vm)) = 1" using s by simp
  note c = change_block[OF b(3) idx one]
  have three: "length (TxOut (tx vm)) = 3" using c by simp
  note k = packet_block[OF b(4) three assms(3)]
  note e = fee_block[OF b(5) three one]
  have "xs \<noteq> []"
  proof
    assume "xs = []"
    with b(6) s r c k e have "run_effects L vm (signature_calls (0x11 # key)) [] = Some [b]" by simp
    then show False by (auto simp: signature_calls_def op_effects bind_Some_iff sighash_effect_def split: sum.splits)
  qed
  then obtain sig rest where xs: "xs = sig # rest" by (cases xs) auto
  with b(6) s r c k e have "run_effects L vm (signature_calls (0x11 # key)) (sig # rest) = Some [b]" by simp
  from signature_block[OF this] obtain h where h: "computeArkadeSighash L vm 0 = Inr h"
      "csfs_effect L ((0x11 # key) # h # sig # rest) = Some [b]" by blast
  with assms(2) obtain scheme where sc: "parseSchemePubKey L (0x11 # key) = Inr scheme" "scheme_verify L scheme h sig" "rest = []"
    by (auto split: if_splits sum.splits)
  obtain pub where pub: "scheme = SchemeECDSASecp256r1 pub" using direct_key_scheme[OF sc(1) assms(6)] by blast
  with sc have v: "length sig = 64" "verifyECDSASecp256r1 L pub h sig" by (auto split: if_splits)
  obtain i where i: "TxIn (tx vm) = [i]" using one by (auto simp: length_Suc_conv)
  obtain ro co ko where o3: "TxOut (tx vm) = [ro, co, ko]" using three by (auto simp: length_Suc_conv numeral_eq_Suc)
  obtain f pk prog where f: "prevOutFetcher vm = Some f" "FetchVtxoPrevOutPkScript f (PreviousOutPoint i) = Some pk"
      "is_witness L pk 1 prog" "is_witness L (PkScript co) 1 prog" using c by (auto simp: i o3)
  obtain prev where prev: "FetchPrevOutput f (PreviousOutPoint i) = Some prev"
      "let fee = sint (out_value prev) - sint (out_value ro) - sint (out_value co) in
       0 \<le> fee \<and> fee \<le> sint (AbsoluteFeeCeilingSats p) \<and>
       fee \<le> (uint (word_of_int (SerializeSizeStripped L (tx vm) * 4) :: uint64) + 399 + 3) sdiv 4 * sint (FeerateCeilingSatPerV p)"
    using e f(1) by (auto simp: i o3)
  obtain content where content: "findPacketByType L (tx vm) PacketType = Inr (Some content)"
      "sha256 L (pre @ content) = sha256 L (PkScript ko)" "out_value ko = 0" "\<not> IsWitnessProgram L (PkScript ko)"
    using k by (auto simp: o3 numeral_eq_Suc)
  have w: "IsWitnessProgram L (PkScript ro)" using r by (auto simp: o3 is_witness_def)
  have bounds: "sint (RecipientDustSats p) \<le> sint (out_value ro)" "sint (out_value ro) \<le> sint (RecipientCapSats p)"
    "sint (RecipientDustSats p) \<le> sint (out_value co)" using r c by (simp_all add: o3)
  have shape: "sint (tx_version (tx vm)) = 2" "LockTime (tx vm) = 0" "Sequence i = 0xffffffff"
    using s by (simp_all add: i)
  show ?thesis
    by (rule exI[of _ i], rule exI[of _ ro], rule exI[of _ co], rule exI[of _ ko], rule exI[of _ sig], rule exI[of _ f],
      rule exI[of _ pk], rule exI[of _ prev], rule exI[of _ prog], rule exI[of _ content], rule exI[of _ h],
      rule exI[of _ pub], intro conjI)
      (rule i o3 idx shape bounds w f content prev h(1) v sc(1)[unfolded pub] xs[unfolded sc(3)])+
qed

end
