(* ===== verification/VaultPolicyRun.thy ===== *)
theory VaultPolicyRun
imports VaultPolicy VaultTree
begin

text \<open>The authorization script run forwards: its calls are played on a stack (play), each opcode
by a rule for the stacks it succeeds on, and a play of all the calls is a run of the engine
(play_runs).\<close>

subsection \<open>The end of a successful execution\<close>

lemma Execute_calm:
  assumes "Execute L v = Some (Inr vm)" "version v = 0"
  obtains vf where "run_steps L v = Some (Inr vf)" "CheckErrorCondition True vf = Inr vm"
  using assms by (auto simp: Execute_def bindE_Inr_iff)

lemma final_true_item:
  assumes "CheckErrorCondition True vf = Inr vm" "\<exists>c. taprootCtx vf = Some c \<and> \<not> mustSucceed c"
  obtains b where "items (dstack vf) = [b]" "asBool b"
  using CheckErrorCondition_Inr[OF assms(1)] assms(2) by (auto simp: items_def)

lemma prefix_marks_return:
  assumes "exactPacketOutputPrefix L n = Inr pre"
    and "\<And>e b. ext_Serialize L e = Inr b \<Longrightarrow> \<exists>r. b = OP_RETURN # r"
  shows "pre \<noteq> [0]"
proof -
  obtain b m where "ext_Serialize L [UnknownPacket PacketType m] = Inr b" "length m < length b"
      "pre = take (length b - length m) b"
    using assms(1) by (auto simp: exactPacketOutputPrefix_def bindE_Inr_iff split: if_splits)
  moreover from this(1) obtain r where "b = OP_RETURN # r" using assms(2) by blast
  ultimately have "hd pre = OP_RETURN" by (cases "length b - length m") auto
  then show ?thesis by auto
qed

subsection \<open>Running the script forwards\<close>

text \<open>The handlers of the script do not look at the tokenizer, nor at the opcode counter.\<close>

abbreviation moved :: "tokenizer \<Rightarrow> int \<Rightarrow> vm \<Rightarrow> vm" where
  "moved t i v \<equiv> v\<lparr>tokenizer := t, opcodeIdx := i\<rparr>"

lemma moved_dstack [simp]: "(moved t i v)\<lparr>dstack := s\<rparr> = moved t i (v\<lparr>dstack := s\<rparr>)"
  by (cases v) simp

lemma map_bindE: "map_sum id g (bindE m f) = bindE m (\<lambda>x. map_sum id g (f x))"
  by (cases m) simp_all

lemma on_dstack_moved: "on_dstack f (moved t i v) = map_sum id (moved t i) (on_dstack f v)"
  by (simp add: on_dstack_def map_bindE)

lemma abstractVerify_moved: "abstractVerify c (moved t i v) = map_sum id (moved t i) (abstractVerify c v)"
  by (cases "PopBool (dstack v)") (auto simp: abstractVerify_def)

lemma num2_moved: "num2 k (moved t i v) = map_sum id (moved t i) (num2 k v)"
  by (simp add: num2_def on_dstack_moved)

lemma hash_top_moved: "hash_top h (moved t i v) = map_sum id (moved t i) (hash_top h v)"
  by (simp add: hash_top_def on_dstack_moved)

lemma EqualVerify_moved: "opcodeEqualVerify L op d (moved t i v) = map_sum id (moved t i) (opcodeEqualVerify L op d v)"
proof -
  have "opcodeEqual L op d (moved t i v) = map_sum id (moved t i) (opcodeEqual L op d v)"
    by (simp add: opcodeEqual_def on_dstack_moved)
  then show ?thesis
    by (cases "opcodeEqual L op d v") (simp_all add: opcodeEqualVerify_def abstractVerify_moved)
qed

lemma Sighash_moved: "opcodeSighash L op d (moved t i v) = map_sum id (moved t i) (opcodeSighash L op d v)"
proof -
  have h: "computeArkadeSighash L (moved t i w) h = computeArkadeSighash L w h" for w h
    by (rule sighash_same_ctx) (simp_all add: same_tx_def leaf_of_def)
  show ?thesis
    by (cases "taprootCtx v"; cases "PopInt (dstack v)") (auto simp: opcodeSighash_def map_bindE Let_def h)
qed

lemma policy_op_moved:
  assumes "b \<in> set policy_ops"
  shows "run_opfunc (op_func (opcodeArray b)) L op d (moved t i v) = map_sum id (moved t i) (run_opfunc (op_func (opcodeArray b)) L op d v)"
  using assms
  by (simp add: policy_ops_def; elim disjE; hypsubst; simp add: opcodeArray_lookup opcodeFalse_def opcodeInspectVersion_def
    opcodeInspectLocktime_def opcodeInspectNumInputs_def opcodeInspectNumOutputs_def opcodePushCurrentInputIndex_def
    opcodeTxWeight_def opcodeInspectInputSequence_def opcodeInspectOutputValue_def opcodeInspectOutputScriptPubkey_def
    opcodeInspectInputValue_def opcodeInspectInputScriptPubkey_def opcodeInspectPacket_def opcodeChecksigFromStack_def
    opcodeVerify_def opcodeDrop_def opcodeDup_def opcodeSwap_def opcodeCat_def opcodeSha256_def opcodeAdd_def opcodeSub_def
    opcodeMul_def opcodeDiv_def opcodeLessThanOrEqual_def opcodeGreaterThanOrEqual_def on_dstack_moved abstractVerify_moved
    num2_moved hash_top_moved EqualVerify_moved Sighash_moved
    cong del: if_weak_cong option.case_cong_weak)

lemma push_code_class:
  assumes "push_code d = (b, x)"
  shows "1 \<le> uint b \<and> uint b \<le> 78 \<or> 81 \<le> uint b \<and> uint b \<le> 96 \<or> b = 0x4f \<or> b = 0"
proof (cases "\<not> (d = [] \<or> d = [0]) \<and> length d = 1 \<and> unat (d ! 0) \<le> 16")
  case True
  then have b: "b = OP_1 + d ! 0 - 1" using assms by (auto simp: push_code_def)
  have "unat (d ! 0) \<noteq> 0" using True by (auto simp: length_Suc_conv unat_eq_zero)
  then have k: "-1 \<le> int (unat (d ! 0)) \<and> int (unat (d ! 0)) \<le> 16" "1 \<le> int (unat (d ! 0))" using True by linarith+
  from small_code[OF k(1)] k show ?thesis unfolding b by simp
next
  case False
  have "uint (word_of_nat (length d) :: byte) = int (length d)" if "length d \<le> 75"
    using that by (simp add: uint_nat unat_of_nat)
  with False assms show ?thesis by (auto simp: push_code_def Suc_le_eq split: if_splits)
qed

lemma call_moved:
  assumes "call_code c = (b, x)" "call_ok c"
  shows "run_opfunc (op_func (opcodeArray b)) L (opcodeArray b) x (moved t i v) =
    map_sum id (moved t i) (run_opfunc (op_func (opcodeArray b)) L (opcodeArray b) x v)"
proof (cases c)
  case (AddOp a)
  with assms show ?thesis using policy_op_moved[of b] by simp
next
  case (AddInt64 n)
  have "1 \<le> uint b \<and> uint b \<le> 78 \<or> 81 \<le> uint b \<and> uint b \<le> 96 \<or> b = 0x4f \<or> b = 0"
  proof (cases "1 \<le> sint n \<and> sint n \<le> 16")
    case True
    then have "n \<noteq> 0" by auto
    with True assms(1) have b: "b = OP_1 - 1 + word_of_int (sint n)" unfolding AddInt64 call_code.simps by (metis prod.inject)
    have "uint b = 80 + sint n" unfolding b by (rule small_code) (use True in simp)
    with True have "81 \<le> uint b \<and> uint b \<le> 96" by linarith
    then show ?thesis by blast
  next
    case False
    then show ?thesis using assms(1) push_code_class[of "enc (sint n)" b x] by (auto simp: AddInt64 split: if_splits)
  qed
  then show ?thesis
    by (elim disjE) (simp_all add: push_func opcodePushData_def opcodeN_def opcode1Negate_def opcodeFalse_def on_dstack_moved)
next
  case (AddData d)
  from push_code_class[of d b x] assms(1) AddData have "1 \<le> uint b \<and> uint b \<le> 78 \<or> 81 \<le> uint b \<and> uint b \<le> 96 \<or> b = 0x4f \<or> b = 0"
    by simp
  then show ?thesis
    by (elim disjE) (simp_all add: push_func opcodePushData_def opcodeN_def opcode1Negate_def opcodeFalse_def on_dstack_moved)
qed

text \<open>The calls played on a stack, with the limits of a step.\<close>

definition play_call :: "lib \<Rightarrow> vm \<Rightarrow> sb_call \<Rightarrow> stack \<Rightarrow> stack option" where
  "play_call L vm c s =
     (case call_code c of (b, x) \<Rightarrow>
        if length x \<le> 520 \<and> (unat b \<le> 78 \<longrightarrow> checkMinimalDataPush (opcodeArray b) x = Inr ()) then
          (case run_opfunc (op_func (opcodeArray b)) L (opcodeArray b) x (vm\<lparr>dstack := s\<rparr>) of Inl _ \<Rightarrow> None
           | Inr w \<Rightarrow> if length (stk (dstack w)) \<le> 1000 \<and> stackByteSize (dstack w) \<le> 131072 then Some (dstack w) else None)
        else None)"

fun play :: "lib \<Rightarrow> vm \<Rightarrow> sb_call list \<Rightarrow> stack \<Rightarrow> stack option" where
  "play L vm [] s = Some s"
| "play L vm (c # cs) s = Option.bind (play_call L vm c s) (play L vm cs)"

lemma play_append: "play L vm (cs @ ds) s = Option.bind (play L vm cs s) (play L vm ds)"
  by (induction cs arbitrary: s) (auto split: bind_splits)

text \<open>A call is free when its opcode has no execution limit.\<close>

definition free_call :: "vm \<Rightarrow> sb_call \<Rightarrow> bool" where
  "free_call vm c \<longleftrightarrow> limits vm (fst (call_code c)) = None"

definition ready :: "lib \<Rightarrow> vm \<Rightarrow> bool" where
  "ready L vm \<longleftrightarrow> calm L vm vm \<and> budget vm = None \<and> stk (astack vm) = [] \<and>
     length (TxIn (tx vm)) < 2 ^ 31 \<and> length (TxOut (tx vm)) < 2 ^ 31 \<and> 0 \<le> txIdx vm \<and> txIdx vm < 2 ^ 31"

lemma play_step:
  assumes "play_call L vm c s = Some s'" "ready L vm" "call_ok c" "\<And>d. c = AddData d \<Longrightarrow> length d < 2 ^ 31"
    and "at_call t (sb_encode c @ rest)" "free_call vm c"
  shows "\<exists>t' i'. Step L (moved t i (vm\<lparr>dstack := s\<rparr>)) =
      (if rest = [] then nextScript L (moved t' i' (vm\<lparr>dstack := s'\<rparr>)) else Inr (False, moved t' i' (vm\<lparr>dstack := s'\<rparr>))) \<and>
      at_call t' rest"
proof -
  obtain b x where bx: "call_code c = (b, x)" by fastforce
  from call_token[OF bx assms(3,4)] assms(5) obtain t' where t': "Next t = Inr (True, t')"
      "t_op t' = Some (opcodeArray b)" "t_data t' = x" "at_call t' rest"
    using Next_token[of t b x rest] by auto
  from assms(1) bx obtain w where w: "length x \<le> 520" "unat b \<le> 78 \<longrightarrow> checkMinimalDataPush (opcodeArray b) x = Inr ()"
      "run_opfunc (op_func (opcodeArray b)) L (opcodeArray b) x (vm\<lparr>dstack := s\<rparr>) = Inr w" "s' = dstack w"
      "length (stk s') \<le> 1000" "stackByteSize s' \<le> 131072"
    by (auto simp: play_call_def split: if_splits sum.splits)
  have "acts (call_effect L (vm\<lparr>dstack := s\<rparr>) c) (vm\<lparr>dstack := s\<rparr>) w"
    using call_acts[OF bx assms(3) w(3)] assms(2) by (simp add: ready_def)
  then have ww: "w = vm\<lparr>dstack := s'\<rparr>" using w(4) by (auto simp: acts_def)
  let ?v = "moved t' i (vm\<lparr>dstack := s\<rparr>)"
  have ctx: "\<exists>c. taprootCtx vm = Some c" "limits vm b = None" "budget vm = None" "condStack vm = []" "scriptIdx vm = 1"
    "length (scripts vm) = 2" "stk (astack vm) = []"
    using assms(2,6) bx by (auto simp: ready_def calm_def free_call_def)
  have mv: "vm\<lparr>dstack := s, opcodeIdx := i, tokenizer := t\<rparr> = moved t i (vm\<lparr>dstack := s\<rparr>)" for t by (cases vm) simp
  have ch: "chargeOpcode b ?v = Inr ?v"
    using ctx by (cases vm) (auto simp: chargeOpcode_def charge_def)
  have ex: "executeOpcode L (opcodeArray b) x ?v = Inr (moved t' i (vm\<lparr>dstack := s'\<rparr>))"
    using w(1,2) policy_code_executes[OF bx assms(3)] call_moved[OF bx assms(3), where L = L and t = t' and i = i and v = "vm\<lparr>dstack := s\<rparr>"] ch ww w(3) ctx
    by (auto simp: executeOpcode_def MaxScriptElementSize_def isBranchExecuting_def word_le_nat_alt)
  have e2: "Done t' \<longleftrightarrow> rest = []" using t'(4) by (rule at_call_Done)
  have st: "Step L (moved t i (vm\<lparr>dstack := s\<rparr>)) =
      (if rest = [] then nextScript L (moved t' (i + 1) (vm\<lparr>dstack := s'\<rparr>)) else Inr (False, moved t' (i + 1) (vm\<lparr>dstack := s'\<rparr>)))"
    using t' ex w(5,6) ctx e2
    by (simp add: mv Step_def checkValidPC_def Tok_Data_def Depth_def MaxStackSize_def maxCombinedStackByteSize_def
        stackByteSize_def[of "astack vm"] Let_def)
  then show ?thesis using t'(4) by blast
qed

lemma play_front:
  assumes "play L vm calls s = Some s'" "list_all call_ok calls" "list_all (free_call vm) calls"
    "\<And>d. AddData d \<in> set calls \<Longrightarrow> length d < 2 ^ 31"
    and "at_call t (concat (map sb_encode calls) @ rest)" "rest \<noteq> []" "ready L vm"
  shows "\<exists>t' i'. run_steps L (moved t i (vm\<lparr>dstack := s\<rparr>)) = run_steps L (moved t' i' (vm\<lparr>dstack := s'\<rparr>)) \<and> at_call t' rest"
  using assms(1-5)
proof (induction calls arbitrary: s t i)
  case Nil
  then show ?case by auto
next
  case (Cons c calls)
  obtain s1 where s1: "play_call L vm c s = Some s1" "play L vm calls s1 = Some s'"
    using Cons.prems(1) by (auto simp: bind_Some_iff)
  have ok: "call_ok c" "\<And>d. c = AddData d \<Longrightarrow> length d < 2 ^ 31" "free_call vm c" using Cons.prems(2-4) by auto
  have "at_call t (sb_encode c @ concat (map sb_encode calls) @ rest)" using Cons.prems(5) by simp
  from play_step[OF s1(1) assms(7) ok(1,2) this ok(3), where i = i] assms(6) obtain t' i' where st:
    "Step L (moved t i (vm\<lparr>dstack := s\<rparr>)) = Inr (False, moved t' i' (vm\<lparr>dstack := s1\<rparr>))"
    "at_call t' (concat (map sb_encode calls) @ rest)"
    by auto
  with Cons.IH[OF s1(2) _ _ _ st(2), where i = i'] Cons.prems(2-4) show ?case
    by (simp add: run_steps.simps [of L "moved t i (vm\<lparr>dstack := s\<rparr>)"])
qed

text \<open>The last call checks the signature; it is the only one of the script with an execution limit.\<close>

lemma play_last:
  assumes "play_call L vm (AddOp OP_CHECKSIGFROMSTACK) s = Some s'" "ready L vm" "taprootCtx vm = Some ctx"
    "\<And>n. limits vm OP_CHECKSIGFROMSTACK = Some n \<Longrightarrow> opCounts ctx OP_CHECKSIGFROMSTACK < n"
    and "at_call t (sb_encode (AddOp OP_CHECKSIGFROMSTACK))"
  shows "\<exists>vf. run_steps L (moved t i (vm\<lparr>dstack := s\<rparr>)) = Some (Inr vf) \<and> dstack vf = s' \<and> scriptIdx vf = 2 \<and>
    scripts vf = scripts vm \<and> (\<exists>c. taprootCtx vf = Some c \<and> \<not> mustSucceed c)"
proof -
  let ?b = "OP_CHECKSIGFROMSTACK"
  have ok: "call_ok (AddOp ?b)" by (simp add: policy_ops_def)
  have bx: "call_code (AddOp ?b) = (?b, [])" by simp
  from call_token[OF bx ok] assms(5) obtain t' where t': "Next t = Inr (True, t')"
      "t_op t' = Some (opcodeArray ?b)" "t_data t' = []" "at_call t' []"
    using Next_token[of t ?b "[]" "[]"] by auto
  from assms(1) obtain w where w:
      "run_opfunc (op_func (opcodeArray ?b)) L (opcodeArray ?b) [] (vm\<lparr>dstack := s\<rparr>) = Inr w" "s' = dstack w"
      "length (stk s') \<le> 1000" "stackByteSize s' \<le> 131072"
    by (auto simp: play_call_def split: if_splits sum.splits)
  then have f: "opcodeChecksigFromStack L (opcodeArray ?b) [] (vm\<lparr>dstack := s\<rparr>) = Inr w"
    by (simp add: opcodeArray_lookup)
  let ?v = "moved t' i (vm\<lparr>dstack := s\<rparr>)"
  have c: "budget vm = None" "condStack vm = []" "scriptIdx vm = 1" "length (scripts vm) = 2" "stk (astack vm) = []" "\<not> mustSucceed ctx"
    "witnessProgram vm = None" using assms(2,3) by (auto simp: ready_def calm_def)
  have mv: "vm\<lparr>dstack := s, opcodeIdx := i, tokenizer := t\<rparr> = moved t i (vm\<lparr>dstack := s\<rparr>)" for t by (cases vm) simp
  obtain ctx' where ch: "chargeOpcode ?b ?v = Inr (?v\<lparr>taprootCtx := Some ctx'\<rparr>)" "mustSucceed ctx' = mustSucceed ctx"
    using assms(3,4) c by (cases "limits vm ?b"; cases vm) (auto simp: chargeOpcode_def charge_def Let_def not_less)
  obtain F where F: "\<And>v. opcodeChecksigFromStack L (opcodeArray ?b) [] v = on_dstack F v"
    using opcodeChecksigFromStack_def by blast
  then have "F s = Inr s'" using f w(2) by (auto simp: on_dstack_def bindE_Inr_iff)
  then have "opcodeChecksigFromStack L (opcodeArray ?b) [] (?v\<lparr>taprootCtx := Some ctx'\<rparr>) = Inr (?v\<lparr>taprootCtx := Some ctx', dstack := s'\<rparr>)"
    by (cases vm) (simp add: F on_dstack_def)
  then have "executeOpcode L (opcodeArray ?b) [] ?v = Inr (?v\<lparr>taprootCtx := Some ctx', dstack := s'\<rparr>)"
    using policy_code_executes[OF bx ok] ch c
    by (auto simp: executeOpcode_def MaxScriptElementSize_def isBranchExecuting_def word_le_nat_alt opcodeArray_lookup)
  moreover have dn: "Done t'" using at_call_Done[OF t'(4)] by simp
  ultimately have "\<exists>vf. Step L (moved t i (vm\<lparr>dstack := s\<rparr>)) = Inr (True, vf) \<and> dstack vf = s' \<and> scriptIdx vf = 2 \<and>
      scripts vf = scripts vm \<and> taprootCtx vf = Some ctx'"
    using t' w(3,4) c dn
    by (simp add: mv Step_def checkValidPC_def Tok_Data_def Depth_def MaxStackSize_def maxCombinedStackByteSize_def
        stackByteSize_def[of "astack vm"] Let_def nextScript_def)
  then show ?thesis using ch(2) c(6) by (auto simp: run_steps.simps [of L "moved t i (vm\<lparr>dstack := s\<rparr>)"])
qed

subsection \<open>Playing the calls\<close>

abbreviation at_items :: "vm \<Rightarrow> stack \<Rightarrow> bytes list \<Rightarrow> vm" where
  "at_items vm s xs \<equiv> vm\<lparr>dstack := with_items s xs\<rparr>"

lemma length_enc_8: "\<bar>a\<bar> < 2 ^ 62 \<Longrightarrow> length (enc a) \<le> 8"
  by (subst length_enc_le_iff) simp_all

lemma length_enc_4: "\<bar>a\<bar> < 2 ^ 31 \<Longrightarrow> length (enc a) \<le> 4"
  by (subst length_enc_le_iff) simp_all

lemma pop_enc:
  "\<bar>a\<bar> < 2 ^ 62 \<Longrightarrow> PopBigNum (with_items s (enc a # r)) = Inr (of_int64 a, with_items s r)"
  "\<bar>a\<bar> < 2 ^ 31 \<Longrightarrow> PopInt (with_items s (enc a # r)) = Inr (word_of_int a, with_items s r)"
  using length_enc_8[of a] length_enc_4[of a]
  by (auto simp: PopBigNum_items PopInt_items BigNumFromBytes_eq maxBigNumLen_def MakeScriptNum_eq maxScriptNumLen_def
      of_int64_def fits64_def)

lemma push_enc:
  "\<bar>val n\<bar> < 2 ^ 62 \<Longrightarrow> PushBigNum n (with_items s r) = Inr (with_items s (enc (val n) # r))"
  "\<bar>sint k\<bar> < 2 ^ 62 \<Longrightarrow> PushInt k (with_items s r) = Inr (with_items s (enc (sint k) # r))"
proof -
  show "\<bar>val n\<bar> < 2 ^ 62 \<Longrightarrow> PushBigNum n (with_items s r) = Inr (with_items s (enc (val n) # r))"
    using length_enc_8[of "val n"] by (simp add: PushBigNum_def BigNum_Bytes_eq PushByteArray_items maxBigNumLen_def)
  assume k: "\<bar>sint k\<bar> < 2 ^ 62"
  have "k \<noteq> MinInt64" using k sint_MinInt64 by auto
  then show "PushInt k (with_items s r) = Inr (with_items s (enc (sint k) # r))"
    by (simp add: PushInt_def scriptNum_Bytes_eq PushByteArray_items)
qed

lemma with_items_simps [simp]:
  "PopByteArray (with_items s (x # r)) = Inr (x, with_items s r)"
  "PushByteArray x (with_items s r) = with_items s (x # r)"
  "PopBool (with_items s (x # r)) = Inr (asBool x, with_items s r)"
  by (simp_all add: PopByteArray_items PushByteArray_items PopBool_items)

lemma sint_word_small: "\<bar>a\<bar> < 2 ^ 62 \<Longrightarrow> sint (word_of_int a :: int64) = a"
  by (rule sint_word_of_int_id) auto

abbreviation op_goes :: "lib \<Rightarrow> vm \<Rightarrow> stack \<Rightarrow> byte \<Rightarrow> bytes list \<Rightarrow> bytes list \<Rightarrow> bool" where
  "op_goes L vm s b xs ys \<equiv>
     run_opfunc (op_func (opcodeArray b)) L (opcodeArray b) [] (at_items vm s xs) = Inr (at_items vm s ys)"

lemma val_cond: "val (BigNumFromInt64 (if c then 1 else 0)) = (if c then 1 else 0)"
  by simp

lemma arith_goes:
  assumes "\<bar>a\<bar> < 2 ^ 30" "\<bar>b\<bar> < 2 ^ 30"
  shows "op_goes L vm s OP_ADD (enc b # enc a # r) (enc (a + b) # r)"
    "op_goes L vm s OP_SUB (enc b # enc a # r) (enc (a - b) # r)"
    "op_goes L vm s OP_MUL (enc b # enc a # r) (enc (a * b) # r)"
    "b \<noteq> 0 \<Longrightarrow> op_goes L vm s OP_DIV (enc b # enc a # r) (enc (a sdiv b) # r)"
    "op_goes L vm s OP_LESSTHANOREQUAL (enc b # enc a # r) (cond_item (a \<le> b) # r)"
    "op_goes L vm s OP_GREATERTHANOREQUAL (enc b # enc a # r) (cond_item (a \<ge> b) # r)"
proof -
  have m: "\<bar>a * b\<bar> < 2 ^ 62"
  proof -
    have "\<bar>a\<bar> * \<bar>b\<bar> \<le> 2 ^ 30 * 2 ^ 30" using assms by (intro mult_mono) simp_all
    then show ?thesis by (simp add: abs_mult)
  qed
  have d: "\<bar>a sdiv b\<bar> < 2 ^ 62" by (rule le_less_trans[OF abs_sdiv_le]) (rule less_trans[OF assms(1)], simp)
  have c: "\<bar>if p then 1 else 0 :: int\<bar> < 2 ^ 62" for p by simp
  show "op_goes L vm s OP_ADD (enc b # enc a # r) (enc (a + b) # r)"
    "op_goes L vm s OP_SUB (enc b # enc a # r) (enc (a - b) # r)"
    "op_goes L vm s OP_MUL (enc b # enc a # r) (enc (a * b) # r)"
    "b \<noteq> 0 \<Longrightarrow> op_goes L vm s OP_DIV (enc b # enc a # r) (enc (a sdiv b) # r)"
    "op_goes L vm s OP_LESSTHANOREQUAL (enc b # enc a # r) (cond_item (a \<le> b) # r)"
    "op_goes L vm s OP_GREATERTHANOREQUAL (enc b # enc a # r) (cond_item (a \<ge> b) # r)"
    using assms m d
    by (simp_all add: opcodeArray_lookup opcodeAdd_def opcodeSub_def opcodeMul_def opcodeDiv_def opcodeLessThanOrEqual_def
        opcodeGreaterThanOrEqual_def num2_def on_dstack_def pop_enc push_enc Div_eq pushCond_def val_cond cond_item_def Cmp_rel
        del: val_BigNumFromInt64)
qed

lemma stack_goes:
  "op_goes L vm s OP_0 r ([] # r)"
  "asBool x \<Longrightarrow> op_goes L vm s OP_VERIFY (x # r) r"
  "op_goes L vm s OP_EQUALVERIFY (x # x # r) r"
  "op_goes L vm s OP_DROP (x # r) r"
  "op_goes L vm s OP_DUP (x # r) (x # x # r)"
  "op_goes L vm s OP_SWAP (x # y # r) (y # x # r)"
  "length x + length y \<le> 520 \<Longrightarrow> op_goes L vm s OP_CAT (x # y # r) ((y @ x) # r)"
  "op_goes L vm s OP_SHA256 (x # r) (sha256 L x # r)"
  by (simp_all add: opcodeArray_lookup opcodeFalse_def opcodeVerify_def abstractVerify_def opcodeEqualVerify_def opcodeEqual_def
      opcodeDrop_def opcodeDup_def opcodeSwap_def opcodeCat_def opcodeSha256_def hash_top_def on_dstack_def DropN_items
      DupN_items SwapN_items PushBool_def MaxScriptElementSize_def asBool_fromBool)

lemma check_index_goes: "0 \<le> i \<Longrightarrow> i < int (length xs) \<Longrightarrow> i < 2 ^ 31 \<Longrightarrow> check_index (word_of_int i) xs = Inr (xs ! nat i)"
  by (simp add: check_index_def word_sless_alt sint_word_small at_idx_def)

lemma index_goes:
  assumes "0 \<le> i" "i < int (length (TxOut (tx vm)))" "i < 2 ^ 31"
  shows "0 \<le> sint (out_value (TxOut (tx vm) ! nat i)) \<Longrightarrow> sint (out_value (TxOut (tx vm) ! nat i)) \<le> MaxSatoshi \<Longrightarrow>
      op_goes L vm s OP_INSPECTOUTPUTVALUE (enc i # r) (enc (sint (out_value (TxOut (tx vm) ! nat i))) # r)"
    "is_witness L (PkScript (TxOut (tx vm) ! nat i)) v prog \<Longrightarrow> \<bar>v\<bar> < 2 ^ 62 \<Longrightarrow>
      op_goes L vm s OP_INSPECTOUTPUTSCRIPTPUBKEY (enc i # r) (enc v # prog # r)"
    "\<not> IsWitnessProgram L (PkScript (TxOut (tx vm) ! nat i)) \<Longrightarrow>
      op_goes L vm s OP_INSPECTOUTPUTSCRIPTPUBKEY (enc i # r) (enc (-1) # sha256 L (PkScript (TxOut (tx vm) ! nat i)) # r)"
proof -
  have i: "\<bar>i\<bar> < 2 ^ 31" using assms by simp
  have m1: "sint (-1 :: int64) = -1" by simp
  note defs = opcodeArray_lookup opcodeInspectOutputValue_def opcodeInspectOutputScriptPubkey_def on_dstack_def pop_enc(2)[OF i]
    check_index_goes[OF assms] pushSatoshiValue_def pushScriptPubKey_def word_sless_alt
  show "op_goes L vm s OP_INSPECTOUTPUTVALUE (enc i # r) (enc (sint (out_value (TxOut (tx vm) ! nat i))) # r)"
    if "0 \<le> sint (out_value (TxOut (tx vm) ! nat i))" "sint (out_value (TxOut (tx vm) ! nat i)) \<le> MaxSatoshi"
    using that uint_eq_sint[OF that(1)] by (simp add: defs push_enc(1) MaxSatoshi_def)
  show "op_goes L vm s OP_INSPECTOUTPUTSCRIPTPUBKEY (enc i # r) (enc v # prog # r)"
    if "is_witness L (PkScript (TxOut (tx vm) ! nat i)) v prog" "\<bar>v\<bar> < 2 ^ 62"
    using that by (auto simp: defs push_enc(2) is_witness_def)
  show "op_goes L vm s OP_INSPECTOUTPUTSCRIPTPUBKEY (enc i # r) (enc (-1) # sha256 L (PkScript (TxOut (tx vm) ! nat i)) # r)"
    if "\<not> IsWitnessProgram L (PkScript (TxOut (tx vm) ! nat i))"
    using that push_enc(2)[of "-1"] by (simp add: defs)
qed

lemma input_goes:
  assumes "TxIn (tx vm) = [i]" "prevOutFetcher vm = Some f"
  shows "op_goes L vm s OP_INSPECTINPUTSEQUENCE (enc 0 # r) (enc (uint (Sequence i)) # r)"
    "FetchPrevOutput f (PreviousOutPoint i) = Some prev \<Longrightarrow> 0 \<le> sint (out_value prev) \<Longrightarrow> sint (out_value prev) \<le> MaxSatoshi \<Longrightarrow>
      op_goes L vm s OP_INSPECTINPUTVALUE (enc 0 # r) (enc (sint (out_value prev)) # r)"
    "FetchVtxoPrevOutPkScript f (PreviousOutPoint i) = Some pk \<Longrightarrow> is_witness L pk v prog \<Longrightarrow> \<bar>v\<bar> < 2 ^ 62 \<Longrightarrow>
      op_goes L vm s OP_INSPECTINPUTSCRIPTPUBKEY (enc 0 # r) (enc v # prog # r)"
proof -
  have c: "check_index (word_of_int 0) (TxIn (tx vm)) = Inr i" using check_index_goes[of 0 "TxIn (tx vm)"] assms(1) by simp
  note defs = opcodeArray_lookup opcodeInspectInputSequence_def opcodeInspectInputValue_def opcodeInspectInputScriptPubkey_def
    on_dstack_def pop_enc(2)[of 0] c[simplified] assms(2) pushSatoshiValue_def pushScriptPubKey_def word_sless_alt
  have u: "\<bar>uint (Sequence i)\<bar> < 2 ^ 62" using uint_lt2p[of "Sequence i"] by simp
  show "op_goes L vm s OP_INSPECTINPUTSEQUENCE (enc 0 # r) (enc (uint (Sequence i)) # r)"
    using push_enc(1)[of "BigNumFromUint64 (ucast (Sequence i))"] u by (simp add: defs uint_ucast32 del: One_nat_def)
  show "op_goes L vm s OP_INSPECTINPUTVALUE (enc 0 # r) (enc (sint (out_value prev)) # r)"
    if "FetchPrevOutput f (PreviousOutPoint i) = Some prev" "0 \<le> sint (out_value prev)" "sint (out_value prev) \<le> MaxSatoshi"
    using that uint_eq_sint[OF that(2)] by (simp add: defs push_enc(1) MaxSatoshi_def)
  show "op_goes L vm s OP_INSPECTINPUTSCRIPTPUBKEY (enc 0 # r) (enc v # prog # r)"
    if "FetchVtxoPrevOutPkScript f (PreviousOutPoint i) = Some pk" "is_witness L pk v prog" "\<bar>v\<bar> < 2 ^ 62"
    using that by (auto simp: defs push_enc(2) is_witness_def)
qed

lemma intro_goes:
  "op_goes L vm s OP_INSPECTVERSION r (enc (sint (tx_version (tx vm))) # r)"
  "op_goes L vm s OP_INSPECTLOCKTIME r (enc (uint (LockTime (tx vm))) # r)"
  "length (TxIn (tx vm)) < 2 ^ 31 \<Longrightarrow> op_goes L vm s OP_INSPECTNUMINPUTS r (enc (int (length (TxIn (tx vm)))) # r)"
  "length (TxOut (tx vm)) < 2 ^ 31 \<Longrightarrow> op_goes L vm s OP_INSPECTNUMOUTPUTS r (enc (int (length (TxOut (tx vm)))) # r)"
  "txIdx vm = 0 \<Longrightarrow> op_goes L vm s OP_PUSHCURRENTINPUTINDEX r (enc 0 # r)"
  "0 \<le> SerializeSizeStripped L (tx vm) \<Longrightarrow> SerializeSizeStripped L (tx vm) < 2 ^ 30 \<Longrightarrow>
     op_goes L vm s OP_TXWEIGHT r (enc (SerializeSizeStripped L (tx vm) * 4) # r)"
proof -
  have v: "\<bar>sint (tx_version (tx vm))\<bar> < 2 ^ 62" "\<bar>uint (LockTime (tx vm))\<bar> < 2 ^ 62"
    using sint_range_size[of "tx_version (tx vm)"] uint_lt2p[of "LockTime (tx vm)"]
    by (auto simp: word_size abs_less_iff)
  show "op_goes L vm s OP_INSPECTVERSION r (enc (sint (tx_version (tx vm))) # r)"
    using v push_enc(1)[of "BigNumFromInt64 (scast (tx_version (tx vm)))"]
    by (simp add: opcodeArray_lookup opcodeInspectVersion_def on_dstack_def sint_scast32)
  show "op_goes L vm s OP_INSPECTLOCKTIME r (enc (uint (LockTime (tx vm))) # r)"
    using v push_enc(1)[of "BigNumFromUint64 (ucast (LockTime (tx vm)))"]
    by (simp add: opcodeArray_lookup opcodeInspectLocktime_def on_dstack_def uint_ucast32)
  show "op_goes L vm s OP_INSPECTNUMINPUTS r (enc (int (length (TxIn (tx vm)))) # r)" if "length (TxIn (tx vm)) < 2 ^ 31"
    using that push_enc(2)[of "word_of_nat (length (TxIn (tx vm)))"]
    by (simp add: opcodeArray_lookup opcodeInspectNumInputs_def on_dstack_def sint_count)
  show "op_goes L vm s OP_INSPECTNUMOUTPUTS r (enc (int (length (TxOut (tx vm)))) # r)" if "length (TxOut (tx vm)) < 2 ^ 31"
    using that push_enc(2)[of "word_of_nat (length (TxOut (tx vm)))"]
    by (simp add: opcodeArray_lookup opcodeInspectNumOutputs_def on_dstack_def sint_count)
  show "op_goes L vm s OP_PUSHCURRENTINPUTINDEX r (enc 0 # r)" if "txIdx vm = 0"
    using that push_enc(2)[of 0] by (simp add: opcodeArray_lookup opcodePushCurrentInputIndex_def on_dstack_def)
  show "op_goes L vm s OP_TXWEIGHT r (enc (SerializeSizeStripped L (tx vm) * 4) # r)"
    if "0 \<le> SerializeSizeStripped L (tx vm)" "SerializeSizeStripped L (tx vm) < 2 ^ 30"
    using that push_enc(1)[of "BigNumFromUint64 (word_of_int (SerializeSizeStripped L (tx vm) * 4))"]
    by (simp add: opcodeArray_lookup opcodeTxWeight_def on_dstack_def uint_word_of_int_id del: of_int_mult)
qed

lemma late_goes:
  "findPacketByType L (tx vm) PacketType = Inr (Some c) \<Longrightarrow> length c \<le> 520 \<Longrightarrow>
     op_goes L vm s OP_INSPECTPACKET (enc 1 # r) (enc 1 # c # r)"
  "taprootCtx vm = Some ctx \<Longrightarrow> computeArkadeSighash L vm 0 = Inr h \<Longrightarrow> op_goes L vm s OP_SIGHASH (enc 0 # r) (h # r)"
  "sig \<noteq> [] \<Longrightarrow> parseSchemePubKey L k = Inr scheme \<Longrightarrow> scheme_verify L scheme m sig \<Longrightarrow>
     op_goes L vm s OP_CHECKSIGFROMSTACK (k # m # sig # r) (enc 1 # r)"
proof -
  show "op_goes L vm s OP_INSPECTPACKET (enc 1 # r) (enc 1 # c # r)"
    if "findPacketByType L (tx vm) PacketType = Inr (Some c)" "length c \<le> 520"
    using that pop_enc(2)[of 1] push_enc(2)[of 1]
    by (simp add: opcodeArray_lookup opcodeInspectPacket_def on_dstack_def push_packet_def PacketType_def wrap_err_def
        MaxScriptElementSize_def word_sless_alt)
  show "op_goes L vm s OP_SIGHASH (enc 0 # r) (h # r)" if "taprootCtx vm = Some ctx" "computeArkadeSighash L vm 0 = Inr h"
  proof -
    have "computeArkadeSighash L (at_items vm s r) 0 = computeArkadeSighash L vm 0"
      by (rule sighash_same_ctx) (simp_all add: same_tx_def leaf_of_def)
    then show ?thesis
      using that pop_enc(2)[of 0]
      by (simp add: opcodeArray_lookup opcodeSighash_def scriptNum_Int32_def maxInt32_def minInt32_def int32_of_id
          isValidTaprootSigHash_def SigHashAnyOneCanPay_def SigHashSingle_def SigHashDefault_def)
  qed
  show "op_goes L vm s OP_CHECKSIGFROMSTACK (k # m # sig # r) (enc 1 # r)"
    if "sig \<noteq> []" "parseSchemePubKey L k = Inr scheme" "scheme_verify L scheme m sig"
    using that push_enc(2)[of 1] by (simp add: opcodeArray_lookup opcodeChecksigFromStack_def on_dstack_def)
qed

definition small_items :: "bytes list \<Rightarrow> bool" where
  "small_items xs \<longleftrightarrow> length xs \<le> 8 \<and> list_all (\<lambda>x. length x \<le> 520) xs"

lemma small_stack:
  assumes "small_items xs"
  shows "length (stk (with_items s xs)) \<le> 1000 \<and> stackByteSize (with_items s xs) \<le> 131072"
proof -
  have f: "foldl (\<lambda>total it. total + length it) k ys = k + sum_list (map length ys)" for k and ys :: "bytes list"
    by (induction ys arbitrary: k) auto
  have r: "sum_list (map length (rev ys)) = sum_list (map length ys)" for ys :: "bytes list"
    by (induction ys) auto
  have "sum_list (map length xs) \<le> 520 * length xs"
    using assms unfolding small_items_def by (induction xs) auto
  then show ?thesis using assms by (auto simp: stackByteSize_def with_items_def small_items_def f r)
qed

lemma play_op:
  assumes "op_goes L vm s b xs ys" "b = OP_0 \<or> 78 < unat b" "small_items ys"
  shows "play_call L vm (AddOp b) (with_items s xs) = Some (with_items s ys)"
proof -
  have "checkMinimalDataPush (opcodeArray 0) [] = Inr ()" by (simp add: checkMinimalDataPush_eq minimal_op_def)
  with assms small_stack[OF assms(3), of s] show ?thesis by (auto simp: play_call_def)
qed

lemma small_int_goes:
  assumes "k = -1 \<or> 1 \<le> k \<and> k \<le> 16"
  shows "run_opfunc (op_func (opcodeArray (OP_1 - 1 + word_of_int k))) L (opcodeArray (OP_1 - 1 + word_of_int k)) d (at_items vm s xs)
    = Inr (at_items vm s (enc k # xs))"
proof (cases "k = -1")
  case True
  then show ?thesis using push_enc(2)[of "-1"] by (simp add: push_func(3) opcode1Negate_def on_dstack_def)
next
  case False
  with assms have k: "1 \<le> k" "k \<le> 16" by auto
  have f: "op_func (opcodeArray (OP_1 - 1 + word_of_int k)) = Control F_N"
    using small_code[of k] k by (intro push_func(2)) simp
  have s: "sint (ucast (word_of_int k :: byte) :: int64) = k"
    using k by (simp add: sint_word_of_int_id ucast_eq uint_word_of_int)
  show ?thesis
    unfolding f run_opfunc.simps run_control.simps opcodeN_def op_value_opcodeArray add_diff_cancel_left'
    using push_enc(2)[of "ucast (word_of_int k :: byte)"] k by (simp add: on_dstack_def s)
qed

lemma play_push:
  assumes "call_code c = push_code d" "2 \<le> length d" "length d \<le> 75" "small_items (d # xs)"
  shows "play_call L vm c (with_items s xs) = Some (with_items s (d # xs))"
proof -
  let ?b = "word_of_nat (length d) :: byte"
  have b: "call_code c = (?b, d)" using assms(1-3) by (auto simp: push_code_def)
  have u: "uint ?b = int (length d)" using assms(3) by (simp add: uint_nat unat_of_nat)
  have "op_func (opcodeArray ?b) = Control F_PushData" using u assms(2,3) by (intro push_func(1)) simp
  moreover have "checkMinimalDataPush (opcodeArray ?b) d = Inr ()"
    using assms(2,3) by (simp add: checkMinimalDataPush_eq minimal_op_def)
  ultimately show ?thesis using b assms(2-4) small_stack[OF assms(4), of s]
    by (simp add: play_call_def opcodePushData_def on_dstack_def)
qed

lemma play_int:
  assumes "n = 0 \<or> n = -1 \<or> 1 \<le> sint n \<and> sint n \<le> 16 \<or> 127 < sint n" "sint n < 2 ^ 62" "small_items (enc (sint n) # xs)"
  shows "play_call L vm (AddInt64 n) (with_items s xs) = Some (with_items s (enc (sint n) # xs))"
proof -
  note st = small_stack[OF assms(3), of s]
  consider "n = 0" | "n \<noteq> 0" "n = -1 \<or> 1 \<le> sint n \<and> sint n \<le> 16" | "127 < sint n"
    using assms(1) by auto
  then show ?thesis
  proof cases
    case 1
    have "checkMinimalDataPush (opcodeArray 0) [] = Inr ()" by (simp add: checkMinimalDataPush_eq minimal_op_def)
    then show ?thesis using 1 stack_goes(1)[where L = L and vm = vm and s = s and r = xs] st by (simp add: play_call_def enc_simps)
  next
    case 2
    then have k: "sint n = -1 \<or> 1 \<le> sint n \<and> sint n \<le> 16" by auto
    have "uint (OP_1 - 1 + word_of_int (sint n) :: byte) = 80 + sint n" using small_code[of "sint n"] k by auto
    then have "78 < unat (OP_1 - 1 + word_of_int (sint n) :: byte)" using k unfolding nat_uint_eq[symmetric] by linarith
    moreover have "call_code (AddInt64 n) = (OP_1 - 1 + word_of_int (sint n), [])" using 2 by (auto simp del: of_int_sint)
    ultimately show ?thesis using small_int_goes[OF k, where L = L and d = "[]" and vm = vm and s = s and xs = xs] st
      by (simp add: play_call_def del: call_code.simps of_int_sint)
  next
    case 3
    have "call_code (AddInt64 n) = push_code (enc (sint n))" using 3 by auto
    moreover have "\<not> length (enc (sint n)) \<le> 1" using 3 by (subst length_enc_le_iff) simp_all
    moreover have "length (enc (sint n)) \<le> 8" using 3 assms(2) by (intro length_enc_8) simp
    ultimately show ?thesis using assms(3) by (intro play_push) auto
  qed
qed

lemma small_items_simps [simp]:
  "small_items []" "small_items (x # xs) \<longleftrightarrow> length xs \<le> 7 \<and> length x \<le> 520 \<and> small_items xs"
  by (auto simp: small_items_def)

lemma item_lengths [simp]: "\<bar>a\<bar> < 2 ^ 62 \<Longrightarrow> length (enc a) \<le> 520" "length (cond_item c) \<le> 520"
proof -
  show a: "length (enc a) \<le> 520" if "\<bar>a\<bar> < 2 ^ 62" for a using length_enc_8[OF that] by simp
  show "length (cond_item c) \<le> 520" unfolding cond_item_def by (intro a) simp
qed

lemmas play_arith = arith_goes[THEN play_op]
lemmas play_stack = stack_goes[THEN play_op]
lemmas play_index = index_goes[THEN play_op]
lemmas play_input = input_goes[THEN play_op]
lemmas play_intro = intro_goes[THEN play_op]
lemmas play_late = late_goes[THEN play_op]

lemma play_shape:
  assumes "sint (tx_version (tx vm)) = 2" "LockTime (tx vm) = 0" "TxIn (tx vm) = [i]" "Sequence i = 0xffffffff"
    "prevOutFetcher vm = Some f" "length xs \<le> 2" "small_items xs"
  shows "play L vm shape_calls (with_items s xs) = Some (with_items s xs)"
  using assms
  by (simp add: shape_calls_def play_intro play_int play_stack play_input[OF assms(3,5)] MaxTxInSequenceNum_def)

end
