(* ===== verification/VaultPolicySpend.thy ===== *)
theory VaultPolicySpend
imports VaultPolicyRun VaultTx
begin

text \<open>The policy of the authorization script over whole executions of the engine: a spend that
meets it is accepted (compliant_spend_accepted) and an accepted spend meets it
(authorization_script_enforces_policy); the last section builds a concrete spend.\<close>

subsection \<open>The blocks of the script, played\<close>

text \<open>The amounts of a spend, small enough for the numbers the script computes.\<close>

abbreviation sats :: "int64 \<Rightarrow> bool" where "sats v \<equiv> 0 \<le> sint v \<and> sint v < 2 ^ 30"

abbreviation limit :: "int64 \<Rightarrow> bool" where "limit v \<equiv> 127 < sint v \<and> sint v < 2 ^ 30"

lemma play_recipient:
  assumes "0 < length (TxOut (tx vm))" "out_value (TxOut (tx vm) ! 0) = r" "sint (RecipientDustSats p) \<le> sint r"
    "sint r \<le> sint (RecipientCapSats p)" "limit (RecipientDustSats p)" "limit (RecipientCapSats p)"
    "is_witness L (PkScript (TxOut (tx vm) ! 0)) v prog" "0 \<le> v" "v < 2 ^ 30" "length prog \<le> 40" "length xs \<le> 2" "small_items xs"
  shows "play L vm (recipient_calls p) (with_items s xs) = Some (with_items s xs)"
  using assms
  by (simp add: recipient_calls_def play_int play_stack play_arith play_index(1)[where i = 0]
      play_index(2)[where i = 0 and v = v and prog = prog] MaxSatoshi_def)

lemma play_change:
  assumes "length (TxOut (tx vm)) = 3" "out_value (TxOut (tx vm) ! 1) = c" "sint (RecipientDustSats p) \<le> sint c" "sats c"
    "limit (RecipientDustSats p)" "is_witness L (PkScript (TxOut (tx vm) ! 1)) 1 prog" "length prog \<le> 40"
    "TxIn (tx vm) = [i]" "prevOutFetcher vm = Some f" "FetchVtxoPrevOutPkScript f (PreviousOutPoint i) = Some pk"
    "is_witness L pk 1 prog" "txIdx vm = 0" "length xs \<le> 2" "small_items xs"
  shows "play L vm (change_calls p) (with_items s xs) = Some (with_items s xs)"
  using assms
  by (simp add: change_calls_def play_int play_stack play_arith play_intro play_index(1)[where i = 1]
      play_index(2)[where i = 1 and v = 1 and prog = prog] play_input(3)[OF assms(8-11)] MaxSatoshi_def)

lemma play_packet:
  assumes "length (TxOut (tx vm)) = 3" "out_value (TxOut (tx vm) ! 2) = 0" "findPacketByType L (tx vm) PacketType = Inr (Some content)"
    "PkScript (TxOut (tx vm) ! 2) = pre @ content" "length (pre @ content) \<le> 520" "2 \<le> length pre" "length pre \<le> 75"
    "\<not> IsWitnessProgram L (pre @ content)" "length (sha256 L (pre @ content)) = 32" "length xs \<le> 2" "small_items xs"
  shows "play L vm (packet_calls pre) (with_items s xs) = Some (with_items s xs)"
  using assms
  by (simp add: packet_calls_def play_int play_stack play_arith play_late play_push[of "AddData pre" pre] play_index(1)[where i = 2]
      play_index(3)[where i = 2] MaxSatoshi_def PacketType_def)

lemma play_fee:
  assumes "length (TxOut (tx vm)) = 3" "TxIn (tx vm) = [i]" "prevOutFetcher vm = Some f"
    "FetchPrevOutput f (PreviousOutPoint i) = Some prev" "out_value prev = a" "out_value (TxOut (tx vm) ! 0) = r" "out_value (TxOut (tx vm) ! 1) = c"
    "sats a" "sats r" "sats c" "fee = sint a - sint r - sint c" "0 \<le> fee" "fee \<le> sint (AbsoluteFeeCeilingSats p)"
    "limit (AbsoluteFeeCeilingSats p)" "1 \<le> sint (FeerateCeilingSatPerV p)" "sint (FeerateCeilingSatPerV p) \<le> 16"
    "0 \<le> SerializeSizeStripped L (tx vm)" "SerializeSizeStripped L (tx vm) < 2 ^ 20"
    "fee \<le> (SerializeSizeStripped L (tx vm) * 4 + 399 + 3) div 4 * sint (FeerateCeilingSatPerV p)" "length xs \<le> 2" "small_items xs"
  shows "play L vm (fee_calls p) (with_items s xs) = Some (with_items s xs)"
proof -
  have r: "sint RoutineWitnessBytes = 399" by (simp add: RoutineWitnessBytes_def)
  let ?w = "SerializeSizeStripped L (tx vm)" and ?f = "sint (FeerateCeilingSatPerV p)"
  have b: "\<bar>402 + ?w * 4\<bar> < 1073741824" "\<bar>100 + ?w\<bar> < 1073741824" using assms by auto
  have d: "(402 + ?w * 4) sdiv 4 = 100 + ?w" using assms by (auto simp: signed_divide_int_def sgn_if)
  have "(100 + ?w) * ?f \<le> 2 ^ 21 * 2 ^ 4" using assms by (intro mult_mono) auto
  moreover have "0 \<le> (100 + ?w) * ?f" using assms by simp
  ultimately have m: "\<bar>(100 + ?w) * ?f\<bar> < 1073741824" "length (enc ((100 + ?w) * ?f)) \<le> 520"
    by (auto intro: item_lengths(1))
  define P where "P = (100 + ?w) * ?f"
  have l: "sint a - sint r - sint c \<le> P" using assms by (simp add: algebra_simps P_def)
  have P: "\<bar>P\<bar> < 1073741824" "length (enc P) \<le> 520" unfolding P_def by (rule m)+
  have q: "\<bar>sint a - sint r - sint c\<bar> < 1073741824" "sint c \<le> sint a - sint r" "sint r \<le> sint a"
    using assms by auto
  show ?thesis
    using assms(1-11,13-18,20,21) l
    by (simp add: fee_calls_def play_int play_stack play_arith play_intro play_index(1)[where i = 0]
      play_index(1)[where i = 1] play_input(2)[OF assms(2-4)] MaxSatoshi_def r b d P q flip: P_def)
qed

lemma play_signature:
  assumes "taprootCtx vm = Some ctx" "computeArkadeSighash L vm 0 = Inr h" "length h = 32" "length key = 33"
    "parseSchemePubKey L (0x11 # key) = Inr scheme" "scheme_verify L scheme h sig" "sig \<noteq> []" "small_items [sig]"
  shows "play L vm (signature_calls (0x11 # key)) (with_items s [sig]) = Some (with_items s [enc 1])"
  using assms
  by (simp add: signature_calls_def play_stack(1) play_late(2)[where r = "[sig]", unfolded enc_simps] play_late(3) play_push[of "AddData (0x11 # key)" "0x11 # key"])

subsection \<open>A spend that meets the policy is accepted\<close>

text \<open>A spend within the policy: the shape, the two payments, the packet envelope and the fee.
Sizes and amounts are kept in the range of the script's four-byte indices and of its stack items.\<close>

definition within_policy :: "lib \<Rightarrow> AuthorizationPolicy \<Rightarrow> bytes \<Rightarrow> msgtx \<Rightarrow> fetcher \<Rightarrow> bytes \<Rightarrow> bool" where
  "within_policy L p pre t f content \<longleftrightarrow>
     (\<exists>i r c k prev pk v prog1 prog. TxIn t = [i] \<and> TxOut t = [r, c, k] \<and>
       sint (tx_version t) = 2 \<and> LockTime t = 0 \<and> Sequence i = 0xffffffff \<and>
       limit (RecipientDustSats p) \<and> limit (RecipientCapSats p) \<and> limit (AbsoluteFeeCeilingSats p) \<and>
       1 \<le> sint (FeerateCeilingSatPerV p) \<and> sint (FeerateCeilingSatPerV p) \<le> 16 \<and>
       sint (RecipientDustSats p) \<le> sint (out_value r) \<and> sint (out_value r) \<le> sint (RecipientCapSats p) \<and>
       is_witness L (PkScript r) v prog1 \<and> 0 \<le> v \<and> v < 2 ^ 30 \<and> length prog1 \<le> 40 \<and>
       sint (RecipientDustSats p) \<le> sint (out_value c) \<and> sats (out_value c) \<and>
       FetchVtxoPrevOutPkScript f (PreviousOutPoint i) = Some pk \<and>
       is_witness L pk 1 prog \<and> is_witness L (PkScript c) 1 prog \<and> length prog \<le> 40 \<and>
       out_value k = 0 \<and> findPacketByType L t PacketType = Inr (Some content) \<and> PkScript k = pre @ content \<and>
       length (pre @ content) \<le> 520 \<and> \<not> IsWitnessProgram L (pre @ content) \<and> length (sha256 L (pre @ content)) = 32 \<and>
       2 \<le> length pre \<and> length pre \<le> 75 \<and>
       FetchPrevOutput f (PreviousOutPoint i) = Some prev \<and> sats (out_value prev) \<and>
       0 \<le> SerializeSizeStripped L t \<and> SerializeSizeStripped L t < 2 ^ 20 \<and>
       (let fee = sint (out_value prev) - sint (out_value r) - sint (out_value c) in
         0 \<le> fee \<and> fee \<le> sint (AbsoluteFeeCeilingSats p) \<and>
         fee \<le> (SerializeSizeStripped L t * 4 + 399 + 3) div 4 * sint (FeerateCeilingSatPerV p)))"

text \<open>The signature of the spend: the one witness item, valid for the hash the script computes.\<close>

definition signed_by :: "lib \<Rightarrow> vm \<Rightarrow> bytes \<Rightarrow> bytes \<Rightarrow> bool" where
  "signed_by L vm key sig \<longleftrightarrow> sig \<noteq> [] \<and> length sig \<le> 520 \<and> length key = 33 \<and>
     (\<exists>h scheme. computeArkadeSighash L vm 0 = Inr h \<and> length h = 32 \<and>
        parseSchemePubKey L (0x11 # key) = Inr scheme \<and> scheme_verify L scheme h sig)"

lemma policy_play:
  assumes "within_policy L p pre (tx vm) f content" "prevOutFetcher vm = Some f" "txIdx vm = 0"
    "taprootCtx vm = Some ctx" "signed_by L vm key sig"
  shows "play L vm (policy_calls key p pre) (with_items s [sig]) = Some (with_items s [enc 1])"
proof -
  obtain i r c k prev pk v prog1 prog where t: "TxIn (tx vm) = [i]" "TxOut (tx vm) = [r, c, k]"
    and shape: "sint (tx_version (tx vm)) = 2" "LockTime (tx vm) = 0" "Sequence i = 0xffffffff"
    and p: "limit (RecipientDustSats p)" "limit (RecipientCapSats p)" "limit (AbsoluteFeeCeilingSats p)"
      "1 \<le> sint (FeerateCeilingSatPerV p)" "sint (FeerateCeilingSatPerV p) \<le> 16"
    and r: "sint (RecipientDustSats p) \<le> sint (out_value r)" "sint (out_value r) \<le> sint (RecipientCapSats p)"
      "is_witness L (PkScript r) v prog1" "0 \<le> v" "v < 2 ^ 30" "length prog1 \<le> 40"
    and c: "sint (RecipientDustSats p) \<le> sint (out_value c)" "sats (out_value c)"
      "FetchVtxoPrevOutPkScript f (PreviousOutPoint i) = Some pk"
      "is_witness L pk 1 prog" "is_witness L (PkScript c) 1 prog" "length prog \<le> 40"
    and k: "out_value k = 0" "findPacketByType L (tx vm) PacketType = Inr (Some content)" "PkScript k = pre @ content"
      "length (pre @ content) \<le> 520" "\<not> IsWitnessProgram L (pre @ content)" "length (sha256 L (pre @ content)) = 32"
      "2 \<le> length pre" "length pre \<le> 75"
    and fee: "FetchPrevOutput f (PreviousOutPoint i) = Some prev" "sats (out_value prev)"
      "0 \<le> SerializeSizeStripped L (tx vm)" "SerializeSizeStripped L (tx vm) < 2 ^ 20"
      "let fee = sint (out_value prev) - sint (out_value r) - sint (out_value c) in
         0 \<le> fee \<and> fee \<le> sint (AbsoluteFeeCeilingSats p) \<and>
         fee \<le> (SerializeSizeStripped L (tx vm) * 4 + 399 + 3) div 4 * sint (FeerateCeilingSatPerV p)"
    using assms(1) unfolding within_policy_def by blast
  obtain h scheme where h: "computeArkadeSighash L vm 0 = Inr h" "length h = 32"
      "parseSchemePubKey L (0x11 # key) = Inr scheme" "scheme_verify L scheme h sig"
      and key: "sig \<noteq> []" "length sig \<le> 520" "length key = 33"
    using assms(5) by (auto simp: signed_by_def)
  have s: "small_items [sig]" "length [sig] \<le> 2" using key by simp_all
  have "sats (out_value r)" using p r by auto
  then have "play L vm (fee_calls p) (with_items s [sig]) = Some (with_items s [sig])"
    using play_fee[of vm i f prev "out_value prev" "out_value r" "out_value c" _ p L "[sig]" s] t p fee c(2) s assms(2)
    by (simp add: Let_def)
  moreover have "play L vm (recipient_calls p) (with_items s [sig]) = Some (with_items s [sig])"
    using play_recipient[of vm "out_value r" p L v prog1 "[sig]" s] t p r s by simp
  moreover have "play L vm (change_calls p) (with_items s [sig]) = Some (with_items s [sig])"
    using play_change[of vm "out_value c" p L prog i f pk "[sig]" s] t p c s assms(2,3) by simp
  moreover have "play L vm (packet_calls pre) (with_items s [sig]) = Some (with_items s [sig])"
    using play_packet[of vm L content pre "[sig]" s] t k s by simp
  ultimately show ?thesis
    using play_shape[OF shape(1,2) t(1) shape(3) assms(2) s(2,1)]
      play_signature[OF assms(4) h(1,2) key(3) h(3,4) key(1) s(1)]
    by (simp add: policy_calls_def play_append)
qed

lemma prepared_default:
  assumes "prepare_engine L s t f idx [] = Inr v"
  shows "limits v = DefaultComputeLimits \<and> budget v = None \<and> stk (astack v) = []"
proof -
  define P where "P w \<longleftrightarrow> limits w = DefaultComputeLimits \<and> budget w = None \<and> stk (astack w) = []" for w :: vm
  have n: "P w" if "NewEngine L pk t idx h x a y = Inr w" for pk h x a y w
    using that by (auto simp: P_def NewEngine_def bindE_Inr_iff Let_def split: if_splits prod.splits)
  have "P w \<Longrightarrow> P (SetAssetPacket x w)" "P w \<Longrightarrow> P (SetEmulatorPacket y w)" "P w \<Longrightarrow> P (SetStack z w)" for w x y z
    by (simp_all add: P_def SetAssetPacket_def SetEmulatorPacket_def SetStack_def)
  moreover have "P (w\<lparr>taprootCtx := c\<rparr>)" if "P w" for w c using that by (simp add: P_def)
  ultimately have "P v"
    using assms unfolding prepare_engine_def Let_def
    by (auto simp: bindE_Inr_iff foldl.simps simp del: apply_option.simps split: if_splits option.splits dest!: n)
  then show ?thesis by (simp add: P_def)
qed

text \<open>The calls before the last one are free under the default limits.\<close>

definition policy_front :: "bytes \<Rightarrow> AuthorizationPolicy \<Rightarrow> bytes \<Rightarrow> sb_call list" where
  "policy_front key policy pre = shape_calls @ recipient_calls policy @ change_calls policy @
     packet_calls pre @ fee_calls policy @ [AddOp OP_0, AddOp OP_SIGHASH, AddData (0x11 # key)]"

lemma policy_calls_front: "policy_calls key p pre = policy_front key p pre @ [AddOp OP_CHECKSIGFROMSTACK]"
  by (simp add: policy_calls_def policy_front_def signature_calls_def)

lemma push_free:
  assumes "limits v = DefaultComputeLimits"
  shows "free_call v (AddInt64 n)" "free_call v (AddData d)"
proof -
  have d: "DefaultComputeLimits b = None" if "1 \<le> uint b \<and> uint b \<le> 78 \<or> 81 \<le> uint b \<and> uint b \<le> 96 \<or> b = 0x4f \<or> b = 0" for b
    using that by (auto simp: DefaultComputeLimits_def)
  have p: "DefaultComputeLimits (fst (push_code x)) = None" for x
    using d[OF push_code_class[of x "fst (push_code x)" "snd (push_code x)"]] by simp
  have "DefaultComputeLimits (OP_1 - 1 + word_of_int (sint n)) = None" if n: "1 \<le> sint n \<and> sint n \<le> 16"
  proof -
    have "uint (OP_1 - 1 + word_of_int (sint n) :: byte) = 80 + sint n" by (rule small_code) (use n in simp)
    then show ?thesis using n by (intro d) auto
  qed
  then show "free_call v (AddInt64 n)" using p assms by (auto simp: free_call_def d)
  show "free_call v (AddData d)" using p assms by (simp add: free_call_def)
qed

lemma policy_front_free: "limits v = DefaultComputeLimits \<Longrightarrow> list_all (free_call v) (policy_front key p pre)"
proof -
  assume l: "limits v = DefaultComputeLimits"
  have "free_call v (AddOp b)" if "DefaultComputeLimits b = None" for b using that l by (simp add: free_call_def)
  then show ?thesis using push_free[OF l]
    by (simp add: policy_front_def shape_calls_def recipient_calls_def change_calls_def packet_calls_def fee_calls_def
        DefaultComputeLimits_def)
qed

lemma policy_accepts:
  assumes "AuthorizationScript L V key p = Inr auth" "exactPacketOutputPrefix L (int (length auth)) = Inr pre" "builder_ok V"
    and "as_script s = auth" "as_witness s = [sig]" "length auth < 2 ^ 31" "\<not> IsWitnessProgram L auth"
    and "prepare_engine L s t f 0 [] = Inr v"
    and "SignatureScript (TxIn t ! 0) = []" "within_policy L p pre t f content" "signed_by L v key sig"
  shows "\<exists>vm. Execute L v = Some (Inr vm)"
proof -
  obtain pre' where pre: "buildAuthorizationScript V key p pre' = Inr auth"
      "exactPacketOutputPrefix L (int (length auth)) = Inr pre'"
    using AuthorizationScript_fixed[OF assms(1)] by metis
  then have pre': "pre' = pre" using assms(2) by simp
  have "sb_Script V (policy_calls key p pre) = Inr auth"
    using pre(1) by (simp add: buildAuthorizationScript_def policy_calls_def pre')
  then have auth: "auth = concat (map sb_encode (policy_calls key p pre))" using assms(3) by (auto simp: builder_ok_def)
  have c: "calm L v v" "at_call (tokenizer v) auth" "items (dstack v) = [sig]"
    using prepared_calm[OF assms(8)] assms(4,5,7,9) by simp_all
  note e = prepare_engine_env[OF assms(8)] and u = prepared_default[OF assms(8)]
  have "pre \<noteq> [0]" "key \<noteq> []" "length (TxIn t) = 1" "length (TxOut t) = 3"
    using assms(10,11) by (auto simp: within_policy_def signed_by_def)
  then have ok: "list_all call_ok (policy_calls key p pre)" "policy_calls key p pre \<noteq> []" "ready L v"
    using policy_calls_ok[of pre key p] c(1) e u by (auto simp: ready_def)
  have data: "length d < 2 ^ 31" if "AddData d \<in> set (policy_calls key p pre)" for d
    using push_encode_length[of d] encode_member[OF that] auth assms(6) by simp
  have d: "dstack v = with_items (dstack v) [sig]" using c(3) with_items_items[of "dstack v"] by simp
  have "play L v (policy_calls key p pre) (dstack v) = Some (with_items (dstack v) [enc 1])"
    using policy_play[of L p pre v f content _ key sig "dstack v"] assms(10,11) e d by simp
  then obtain s1 where s1: "play L v (policy_front key p pre) (dstack v) = Some s1"
      "play_call L v (AddOp OP_CHECKSIGFROMSTACK) s1 = Some (with_items (dstack v) [enc 1])"
    by (auto simp: policy_calls_front play_append bind_Some_iff)
  have fr: "list_all (free_call v) (policy_front key p pre)" using policy_front_free[of v key p pre] u by simp
  have ca: "at_call (tokenizer v) (concat (map sb_encode (policy_front key p pre)) @ sb_encode (AddOp OP_CHECKSIGFROMSTACK))"
    using c(2) auth by (simp add: policy_calls_front)
  have ok1: "list_all call_ok (policy_front key p pre)" using ok(1) by (simp add: policy_calls_front)
  have data1: "length d < 2 ^ 31" if "AddData d \<in> set (policy_front key p pre)" for d
    using data that by (simp add: policy_calls_front)
  obtain t' i' where f1: "run_steps L (moved (tokenizer v) (opcodeIdx v) (v\<lparr>dstack := dstack v\<rparr>)) = run_steps L (moved t' i' (v\<lparr>dstack := s1\<rparr>))"
      "at_call t' (sb_encode (AddOp OP_CHECKSIGFROMSTACK))"
    using play_front[OF s1(1) ok1 fr data1 ca _ ok(3), where i = "opcodeIdx v"] by auto
  obtain ctx where ctx: "taprootCtx v = Some ctx" "opCounts ctx = (\<lambda>_. 0)"
    using e by (auto simp: newTaprootExecutionCtxForLeaf_def newTaprootExecutionCtx_def)
  have lim: "\<And>n. limits v OP_CHECKSIGFROMSTACK = Some n \<Longrightarrow> opCounts ctx OP_CHECKSIGFROMSTACK < n"
    using u ctx(2) by (simp add: DefaultComputeLimits_def)
  obtain vf where vf: "run_steps L (moved (tokenizer v) (opcodeIdx v) (v\<lparr>dstack := dstack v\<rparr>)) = Some (Inr vf)"
      "dstack vf = with_items (dstack v) [enc 1]" "scriptIdx vf = 2" "scripts vf = scripts v" "\<exists>c. taprootCtx vf = Some c \<and> \<not> mustSucceed c"
    using play_last[OF s1(2) ok(3) ctx(1) lim f1(2), where i = i'] f1(1) by auto
  have "moved (tokenizer v) (opcodeIdx v) (v\<lparr>dstack := dstack v\<rparr>) = v" by simp
  moreover have "\<exists>vm. CheckErrorCondition True vf = Inr vm"
    using vf(2-5) c(1) by (auto simp: CheckErrorCondition_def calm_def Depth_def with_items_def[of _ "[enc 1]"] PopBool_items items_def)
  ultimately show ?thesis using vf(1) prepare_engine_version[OF assms(8)] by (auto simp: Execute_def)
qed

text \<open>C35: In a stated range of policies and transactions, the authorization script accepts what its
policy allows: with the default compute limits and no budget, a spend that the engine can be prepared
for, with the vault's script, an input without signature script and one witness item, is executed to
a success when that item is a valid signature of the direct key over the hash of the transaction and
the spend is within the policy (within_policy): version 2, lock time 0 and one final input; a
recipient that is a witness program, between the dust limit and the cap; change of at least the dust
limit to the version-1 program of the spent coin; the packet in the third output, which carries
nothing and is exactly the envelope; a fee of at most the absolute ceiling and of at most the feerate
ceiling on the size the script computes. The range: the dust limit, the cap and the fee ceiling lie
from 128 to 2 ^ 30 - 1 satoshi and the feerate ceiling from 1 to 16; the coin spent and the change are
below 2 ^ 30 satoshi; the stripped size is below 2 ^ 20 bytes; witness programs have at most 40 bytes
and a version below 2 ^ 30; the packet output has at most 520 bytes, of which 2 to 75 are its prefix,
and is no witness program; the signature has at most 520 bytes. Of the libraries: hashes have 32
bytes, the script builder encodes as documented, and the script, shorter than 2 ^ 31 bytes, is no
witness program. Nothing is claimed of a spend outside this range.\<close>

theorem compliant_spend_accepted:
  assumes "AuthorizationScript L V key p = Inr auth" "exactPacketOutputPrefix L (int (length auth)) = Inr pre" "builder_ok V"
    and "as_script s = auth" "as_witness s = [sig]" "length auth < 2 ^ 31" "\<not> IsWitnessProgram L auth"
    and "prepare_engine L s t f 0 [] = Inr v"
    and "SignatureScript (TxIn t ! 0) = []" "within_policy L p pre t f content"
    and "sig \<noteq> []" "length sig \<le> 520" "parseSchemePubKey L (0x11 # key) = Inr scheme" "scheme_verify L scheme h sig"
    and "CalcArkadeScriptSignatureHash L (Some (NewTxSigHashes L t f)) 0 (Some t) 0 (Some f) (spendingTapLeaf s) [] = Inr h"
      "length h = 32"
  shows "\<exists>vm. ArkadeScript_Execute L s (Some t) (Some f) 0 [] = Some (Inr vm)"
proof -
  have "parseCanonicalCompressedP256 L V key = Inr ()" using AuthorizationScript_fixed[OF assms(1)] by metis
  then have "length key = 33" by (auto simp: parseCanonicalCompressedP256_def split: if_splits)
  moreover have "computeArkadeSighash L v 0 = Inr h" using assms(15) calc_sighash[OF assms(8), of 0] by simp
  ultimately have "signed_by L v key sig" using assms(11-14,16) unfolding signed_by_def by blast
  then obtain vm where "Execute L v = Some (Inr vm)"
    using policy_accepts[OF assms(1-10)] by blast
  moreover obtain i where "TxIn t = [i]" using assms(10) by (auto simp: within_policy_def)
  moreover have "check_prevouts f (TxIn t) = Inr ()"
    using assms(10) by (auto simp: within_policy_def check_prevouts_iff MaxSatoshi_def)
  ultimately show ?thesis using assms(8) by (simp add: ArkadeScript_Execute_def)
qed

text \<open>The authorization script enforces its policy: when the engine accepts the script built
from a P-256 key and a policy, the transaction has version 2, lock time 0 and one final input;
three outputs, of which the first pays a witness program between the dust limit and the cap, the
second returns at least the dust limit to the version-1 witness program of the spent coin, and the third carries no
value and hashes like the one-packet envelope around the emulator packet; the fee is not negative, within the
absolute ceiling and within the feerate ceiling for the weight of the transaction with a routine
witness; and the only witness item is a low-S signature of that key over the hash
CalcArkadeScriptSignatureHash computes for the transaction.\<close>

theorem authorization_script_enforces_policy:
  assumes "AuthorizationScript L V key p = Inr auth" "as_script s = auth"
    and "ArkadeScript_Execute L s (Some t) (Some f) idx opts = Some (Inr vm)"
    and "tx_ok t" "SignatureScript (TxIn t ! nat idx) = []"
    and "lib_ok L" "builder_ok V" "\<And>pk. IsWitnessProgram L pk \<Longrightarrow> length pk \<le> 42"
    and "\<And>e b. ext_Serialize L e = Inr b \<Longrightarrow> \<exists>r. b = OP_RETURN # r"
  shows "\<exists>i recipient change packet prev pk prog pre content sig h pub.
    TxIn t = [i] \<and> idx = 0 \<and> TxOut t = [recipient, change, packet] \<and>
    sint (tx_version t) = 2 \<and> LockTime t = 0 \<and> Sequence i = 0xffffffff \<and>
    FetchPrevOutput f (PreviousOutPoint i) = Some prev \<and>
    sint (RecipientDustSats p) \<le> sint (out_value recipient) \<and> sint (out_value recipient) \<le> sint (RecipientCapSats p) \<and>
    IsWitnessProgram L (PkScript recipient) \<and>
    sint (RecipientDustSats p) \<le> sint (out_value change) \<and>
    FetchVtxoPrevOutPkScript f (PreviousOutPoint i) = Some pk \<and>
    is_witness L pk 1 prog \<and> is_witness L (PkScript change) 1 prog \<and>
    out_value packet = 0 \<and> exactPacketOutputPrefix L (int (length auth)) = Inr pre \<and>
    findPacketByType L t PacketType = Inr (Some content) \<and> sha256 L (PkScript packet) = sha256 L (pre @ content) \<and>
    (let fee = sint (out_value prev) - sint (out_value recipient) - sint (out_value change) in
       0 \<le> fee \<and> fee \<le> sint (AbsoluteFeeCeilingSats p) \<and>
       fee \<le> (uint (word_of_int (SerializeSizeStripped L t * 4) :: uint64) + sint RoutineWitnessBytes + 3) sdiv 4
          * sint (FeerateCeilingSatPerV p)) \<and>
    as_witness s = [sig] \<and> length sig = 64 \<and> parseSchemePubKey L (0x11 # key) = Inr (SchemeECDSASecp256r1 pub) \<and>
    CalcArkadeScriptSignatureHash L (Some (NewTxSigHashes L t f)) 0 (Some t) 0 (Some f) (spendingTapLeaf s) [] = Inr h \<and>
    verifyECDSASecp256r1 L pub h sig"
proof -
  obtain pre where pre: "buildAuthorizationScript V key p pre = Inr auth"
      "exactPacketOutputPrefix L (int (length auth)) = Inr pre" "parseCanonicalCompressedP256 L V key = Inr ()"
    using AuthorizationScript_fixed[OF assms(1)] by metis
  have key: "length key = 33" using pre(3) by (auto simp: parseCanonicalCompressedP256_def split: if_splits)
  have "sb_Script V (policy_calls key p pre) = Inr auth"
    using pre(1) by (simp add: buildAuthorizationScript_def policy_calls_def)
  then have auth: "auth = concat (map sb_encode (policy_calls key p pre))"
    using assms(7) by (auto simp: builder_ok_def)
  have pz: "pre \<noteq> [0]" by (rule prefix_marks_return[OF pre(2)]) (rule assms(9))
  have ok: "list_all call_ok (policy_calls key p pre)" "60 < length (policy_calls key p pre)"
    using policy_calls_ok[OF pz, of key p] key by (cases key; simp)+
  then have "42 < length auth" using encode_lengths[OF ok(1)] auth by simp
  then have nw: "\<not> IsWitnessProgram L (as_script s)" using assms(2,8) by fastforce
  obtain v where v: "prepare_engine L s t f idx opts = Inr v" "Execute L v = Some (Inr vm)"
    using assms(3) by (auto simp: ArkadeScript_Execute_def bindE_def split: if_splits sum.splits)
  note c = prepared_calm[OF v(1) assms(5) nw]
  note e = prepare_engine_env[OF v(1)]
  obtain vf where vf: "run_steps L v = Some (Inr vf)" "CheckErrorCondition True vf = Inr vm"
    by (rule Execute_calm[OF v(2) prepare_engine_version[OF v(1)]])
  have data: "length d < 2 ^ 31" if "AddData d \<in> set (policy_calls key p pre)" for d
    using push_encode_length[of d] encode_member[OF that] auth c assms(2) by simp
  have len: "length (TxIn (tx v)) < 2 ^ 31" "length (TxOut (tx v)) < 2 ^ 31" "0 \<le> txIdx v" "txIdx v < 2 ^ 31"
    using assms(4) e c by (auto simp: tx_ok_def)
  have "calm L v v" "at_call (tokenizer v) (concat (map sb_encode (policy_calls key p pre)))" "policy_calls key p pre \<noteq> []"
    using c ok(2) auth assms(2) by auto
  from run_calls[OF vf(1) this ok(1) data len] have run: "run_effects L v (policy_calls key p pre) (items (dstack v)) =
      Some (items (dstack vf))" "\<exists>c. taprootCtx vf = Some c \<and> \<not> mustSucceed c" by auto
  obtain b where b: "items (dstack vf) = [b]" "asBool b" by (rule final_true_item[OF vf(2) run(2)])
  have "0 \<le> txIdx v" "txIdx v < int (length (TxIn (tx v)))" using e c by auto
  from policy_calls_imply[OF run(1)[unfolded b(1)] b(2) assms(6) this key, unfolded e[THEN conjunct1]]
  obtain i r c2 k sig f2 pk prev prog content h pub where *: "TxIn t = [i]" "TxOut t = [r, c2, k]" "txIdx v = 0"
    "sint (tx_version t) = 2" "LockTime t = 0" "Sequence i = 0xffffffff"
    "sint (RecipientDustSats p) \<le> sint (out_value r)" "sint (out_value r) \<le> sint (RecipientCapSats p)"
    "IsWitnessProgram L (PkScript r)" "sint (RecipientDustSats p) \<le> sint (out_value c2)"
    "prevOutFetcher v = Some f2" "FetchVtxoPrevOutPkScript f2 (PreviousOutPoint i) = Some pk"
    "is_witness L pk 1 prog" "is_witness L (PkScript c2) 1 prog"
    "out_value k = 0" "findPacketByType L t PacketType = Inr (Some content)"
    "sha256 L (pre @ content) = sha256 L (PkScript k)" "FetchPrevOutput f2 (PreviousOutPoint i) = Some prev"
    "let fee = sint (out_value prev) - sint (out_value r) - sint (out_value c2) in
       0 \<le> fee \<and> fee \<le> sint (AbsoluteFeeCeilingSats p) \<and>
       fee \<le> (uint (word_of_int (SerializeSizeStripped L t * 4) :: uint64) + 399 + 3) sdiv 4 * sint (FeerateCeilingSatPerV p)"
    "items (dstack v) = [sig]" "computeArkadeSighash L v 0 = Inr h"
    "parseSchemePubKey L (0x11 # key) = Inr (SchemeECDSASecp256r1 pub)" "length sig = 64" "verifyECDSASecp256r1 L pub h sig"
    by blast
  have f2: "f2 = f" "idx = 0" using e *(3,11) by simp_all
  have w: "as_witness s = [sig]" using c *(20) by (simp add: rev_swap)
  have h: "CalcArkadeScriptSignatureHash L (Some (NewTxSigHashes L t f)) 0 (Some t) 0 (Some f) (spendingTapLeaf s) [] = Inr h"
    using calc_sighash[OF v(1), of 0] *(21) f2(2) by simp
  have r399: "sint RoutineWitnessBytes = 399" by (simp add: RoutineWitnessBytes_def)
  show ?thesis
    unfolding r399
    by (rule exI[of _ i], rule exI[of _ r], rule exI[of _ c2], rule exI[of _ k], rule exI[of _ prev], rule exI[of _ pk],
      rule exI[of _ prog], rule exI[of _ pre], rule exI[of _ content], rule exI[of _ sig], rule exI[of _ h],
      rule exI[of _ pub], intro conjI)
      (rule * *(12,18)[unfolded f2] *(17)[symmetric] f2(2) w h pre(2))+
qed

subsection \<open>A concrete spend\<close>

definition pol_lib :: lib where
  "pol_lib = ex_lib\<lparr>p256_ecdsa_Verify := \<lambda>_ _ _ _. True, TxHash := \<lambda>_. replicate 32 0, modn_SetByteSlice := \<lambda>_. (5, False),
     IsPayToTaproot := \<lambda>b. take 1 b = [0x51]\<rparr>"

definition pol_key :: bytes where "pol_key = 2 # 7 # replicate 31 0"

definition pol_sig :: bytes where "pol_sig = replicate 31 0 @ [1] @ replicate 31 0 @ [1]"

definition pol_auth :: bytes where
  "pol_auth = concat (map sb_encode (policy_calls pol_key fixtureAuthorizationPolicy (ex_magic @ [PacketType])))"

definition pol_packet :: "emulatorEntry list" where
  "pol_packet = [\<lparr>Vin = 0, ent_Script = pol_auth, ent_Witness = [pol_sig]\<rparr>]"

definition pol_content :: bytes where "pol_content = projr (Packet_Serialize pol_lib pol_packet)"

definition pol_in :: txin where
  "pol_in = \<lparr>PreviousOutPoint = \<lparr>op_hash = replicate 32 0, op_index = 0\<rparr>, SignatureScript = [], Witness = [],
     Sequence = 0xffffffff\<rparr>"

definition pol_tx :: msgtx where
  "pol_tx = \<lparr>tx_version = 2, TxIn = [pol_in],
     TxOut = [\<lparr>out_value = 1000, PkScript = [0x51, 2, 1, 1]\<rparr>, \<lparr>out_value = 98500, PkScript = [0x51, 2, 9, 9]\<rparr>,
       \<lparr>out_value = 0, PkScript = ex_magic @ PacketType # pol_content\<rparr>], LockTime = 0\<rparr>"

definition pol_prev :: txout where "pol_prev = \<lparr>out_value = 100000, PkScript = [0x51, 2, 9, 9]\<rparr>"

definition pol_prevtx :: msgtx where "pol_prevtx = \<lparr>tx_version = 2, TxIn = [], TxOut = [pol_prev], LockTime = 0\<rparr>"

definition pol_fetcher :: fetcher where
  "pol_fetcher = as_fetcher (WithPrevTx (NewPrevFetcher (PreviousOutPoint pol_in) pol_prev) (Some pol_prevtx))"

text \<open>The script as it is read from a packet, for any leaf and keys.\<close>

definition pol_script :: "bytes \<Rightarrow> point \<Rightarrow> tapLeaf \<Rightarrow> point list \<Rightarrow> ArkadeScript" where
  "pol_script h q lf ks = \<lparr>as_script = pol_auth, as_hash = h, as_witness = [pol_sig], as_pubkey = q,
     spendingTapLeaf = lf, closurePubkeys = ks, packetBound = True, packetVin = 0\<rparr>"

lemma pol_authorized: "AuthorizationScript pol_lib ex_vault pol_key fixtureAuthorizationPolicy = Inr pol_auth"
proof -
  have z: "le_fixed n 0 = replicate n 0" for n by (induction n) simp_all
  have "le_fixed 32 7 = 7 # replicate 31 0" using le_fixed.simps(2)[of 31 7] by (simp add: z)
  then show ?thesis
    by (subst ex_authorization[where q = "(7, 0)"])
      (simp_all add: policy_validate_iff fixtureAuthorizationPolicy_def buildAuthorizationScript_def pol_lib_def pol_key_def
        pol_auth_def policy_calls_def del: sb_encode.simps)
qed

lemma pol_calls_ok:
  "list_all call_ok (policy_calls pol_key fixtureAuthorizationPolicy (ex_magic @ [PacketType]))"
  "60 < length (policy_calls pol_key fixtureAuthorizationPolicy (ex_magic @ [PacketType]))"
  using policy_calls_ok[of "ex_magic @ [PacketType]" pol_key fixtureAuthorizationPolicy]
  by (simp_all add: pol_key_def ex_magic_def)

lemma int_call_length: "127 < sint n \<Longrightarrow> sint n < 2 ^ 62 \<Longrightarrow> length (sb_encode (AddInt64 n)) \<le> 9"
proof -
  assume n: "127 < sint n" "sint n < 2 ^ 62"
  then have "length (enc (sint n)) \<le> 8" by (intro length_enc_8) simp
  moreover have "sb_encode (AddInt64 n) = push_encode (enc (sint n))" using n by auto
  moreover have "length d \<le> 8 \<Longrightarrow> length (push_encode d) \<le> 9" for d by (auto simp: push_encode_def)
  ultimately show ?thesis by simp
qed

lemma pol_auth_length: "60 < length pol_auth" "length pol_auth \<le> 255"
proof -
  show "60 < length pol_auth" using encode_lengths[OF pol_calls_ok(1)] pol_calls_ok(2) by (simp add: pol_auth_def)
  have l: "length (sb_encode (AddInt64 330)) \<le> 9" "length (sb_encode (AddInt64 50000)) \<le> 9" "length (sb_encode (AddInt64 5000)) \<le> 9"
    "length (sb_encode (AddInt64 0xffffffff)) \<le> 9" "length (sb_encode (AddInt64 399)) \<le> 9"
    by (rule int_call_length; simp)+
  have small: "length (sb_encode (AddInt64 n)) = 1" if "n = 0 \<or> n = -1 \<or> 1 \<le> sint n \<and> sint n \<le> 16" for n
    using that by auto
  have data: "length (push_encode (ex_magic @ [PacketType])) = 6" "length (push_encode (0x11 # pol_key)) = 35"
    by (simp_all add: push_encode_def ex_magic_def PacketType_def pol_key_def)
  show "length pol_auth \<le> 255"
    using l
    by (simp add: pol_auth_def policy_calls_def shape_calls_def recipient_calls_def change_calls_def packet_calls_def fee_calls_def
        signature_calls_def fixtureAuthorizationPolicy_def RoutineWitnessBytes_def MaxTxInSequenceNum_def small data
        PacketType_def[THEN arg_cong, of ucast] del: sb_encode.simps(2))
qed

lemma pol_lib_simps [simp]: "sha256 pol_lib = ex_digest 32 0" "TaggedHash pol_lib = (\<lambda>t b. ex_digest 32 (ex_fold 5 t) b)"
  "NewExtensionFromTx pol_lib = NewExtensionFromTx ex_lib" "IsWitnessProgram pol_lib = IsWitnessProgram ex_lib"
  "ExtractWitnessProgramInfo pol_lib = ex_witness_program" "SerializeSizeStripped pol_lib = (\<lambda>t. 100)"
  "WriteVarInt pol_lib = ex_WriteVarInt" "ReadVarInt pol_lib = ex_ReadVarInt" "WriteTxWitness pol_lib = ex_WriteTxWitness"
  "ReadTxWitness pol_lib = ex_read_items []" "ext_Serialize pol_lib = ex_ext_write"
  "p256_UnmarshalCompressed pol_lib = p256_UnmarshalCompressed ex_lib" "p256_ParseUncompressed pol_lib = p256_ParseUncompressed ex_lib"
  "p256_ecdsa_Verify pol_lib = (\<lambda>_ _ _ _. True)" "IsExtension pol_lib = IsExtension ex_lib"
  "NewExtensionFromBytes pol_lib = ex_ext_parse" "GetAssetPacket pol_lib = (\<lambda>e. None)"
  "packet_Serialize pol_lib = packet_Serialize ex_lib" "IsPushOnlyScript pol_lib = (\<lambda>b. True)"
  by (simp_all add: pol_lib_def)

lemma pol_tx_simps [simp]: "TxIn pol_tx = [pol_in]" "SignatureScript pol_in = []" "Witness pol_in = []"
  "tx_version pol_tx = 2" "LockTime pol_tx = 0" "Sequence pol_in = 0xffffffff"
  "TxOut pol_tx = [\<lparr>out_value = 1000, PkScript = [0x51, 2, 1, 1]\<rparr>, \<lparr>out_value = 98500, PkScript = [0x51, 2, 9, 9]\<rparr>,
       \<lparr>out_value = 0, PkScript = ex_magic @ PacketType # pol_content\<rparr>]"
  by (simp_all add: pol_tx_def pol_in_def)

lemma pol_content_eq: "pol_content = ex_WriteVarInt 1 @ serialize_entry pol_lib \<lparr>Vin = 0, ent_Script = pol_auth, ent_Witness = [pol_sig]\<rparr>"
  by (simp add: pol_content_def Packet_Serialize_def pol_packet_def)

lemma pol_witness_length: "length (ex_WriteTxWitness [pol_sig]) = 130"
proof -
  have "length (concat (map (\<lambda>b. [1, b]) xs)) = 2 * length xs" for xs :: bytes by (induction xs) simp_all
  moreover have "length pol_sig = 64" by (simp add: pol_sig_def)
  ultimately show ?thesis by (simp add: ex_WriteTxWitness_def ex_write_item_def)
qed

lemma pol_content_length: "42 < length pol_content" "length pol_content \<le> 420"
proof -
  have v: "length (ex_WriteVarInt n) = 8" for n by (simp add: ex_WriteVarInt_def del: le_fixed.simps)
  have "length pol_content = 26 + length pol_auth + 130"
    using pol_witness_length by (simp add: pol_content_eq serialize_entry_def v del: le_fixed.simps)
  then show "42 < length pol_content" "length pol_content \<le> 420" using pol_auth_length by simp_all
qed

lemma pol_deserialize: "DeserializeEmulatorPacket pol_lib pol_content = Inr pol_packet"
  unfolding pol_content_def
proof (rule Deserialize_Serialize)
  show "varint_codec pol_lib" by (simp add: varint_codec_def ex_varint)
  show "\<forall>e \<in> set pol_packet. witness_codec pol_lib (ent_Witness e)"
    using pol_witness_length by (auto simp: pol_packet_def witness_codec_def ex_witness)
  show "Validate pol_packet = Inr ()" using pol_auth_length by (auto simp: Validate_iff pol_packet_def)
  show "fits pol_lib pol_packet"
    using pol_auth_length pol_witness_length
    by (simp add: fits_def pol_packet_def entry_size_def MaxScriptLength_def MaxWitnessLength_def MaxTotalEntrySize_def)
qed

lemma pol_extension: "NewExtensionFromTx pol_lib pol_tx = Inr (Some [UnknownPacket PacketType pol_content])"
  by (simp add: ex_magic_def ex_ext_parse_def PacketType_def)

lemma pol_packet_found: "FindEmulatorPacket pol_lib pol_tx = Inr (Some pol_packet)"
  unfolding FindEmulatorPacket_def pol_extension using pol_deserialize by (simp add: pol_packet_def)

lemma pol_found: "findPacketByType pol_lib pol_tx PacketType = Inr (Some pol_content)"
  unfolding findPacketByType_def pol_extension by (simp add: pol_lib_def)

lemma pol_not_witness: "42 < length b \<Longrightarrow> \<not> IsWitnessProgram pol_lib b"
  by (simp add: ex_witness_program_def)

lemma pol_fetcher_simps [simp]: "FetchPrevOutput pol_fetcher q = Some \<lparr>out_value = 100000, PkScript = [0x51, 2, 9, 9]\<rparr>"
  "FetchVtxoPrevOutPkScript pol_fetcher (PreviousOutPoint pol_in) = Some [0x51, 2, 9, 9]"
  by (simp_all add: pol_fetcher_def as_fetcher_def WithPrevTx_def NewPrevFetcher_def pf_FetchVtxoPrevOutPkScript_def pol_prev_def
      pol_prevtx_def pol_in_def)

lemma pol_within: "within_policy pol_lib fixtureAuthorizationPolicy (ex_magic @ [PacketType]) pol_tx pol_fetcher pol_content"
proof -
  have w: "is_witness pol_lib [0x51, 2, 1, 1] 1 [1, 1]" "is_witness pol_lib [0x51, 2, 9, 9] 1 [9, 9]"
    by (simp_all add: is_witness_def ex_witness_program_def)
  have n: "\<not> IsWitnessProgram pol_lib ((ex_magic @ [PacketType]) @ pol_content)"
    by (rule pol_not_witness) (use pol_content_length in simp)
  show ?thesis
    unfolding within_policy_def Let_def
    by (rule exI[of _ pol_in], rule exI, rule exI, rule exI, rule exI, rule exI, rule exI[of _ 1], rule exI, rule exI, intro conjI)
      (rule w pol_found n | use pol_content_length in \<open>simp add: fixtureAuthorizationPolicy_def ex_magic_def\<close>)+
qed

lemma parse_calls:
  assumes "at_call t (concat (map sb_encode calls))" "list_all call_ok calls" "\<And>d. AddData d \<in> set calls \<Longrightarrow> length d < 2 ^ 31"
  shows "\<exists>t'. parse_loop t = Inr t' \<and> t_err t' = None"
  using assms
proof (induction calls arbitrary: t)
  case Nil
  then have "Done t" "t_err t = None" using at_call_Done[of t "[]"] by (auto simp: at_call_def)
  then have "Next t = Inr (False, t)" by (simp add: Next_def)
  with \<open>t_err t = None\<close> show ?case by (simp add: parse_loop.simps[of t])
next
  case (Cons c calls)
  obtain b x where bx: "call_code c = (b, x)" by fastforce
  have "sb_encode c = token_bytes (opcodeArray b) x \<and> token_ok b x"
    by (rule call_token[OF bx]) (use Cons.prems in auto)
  with Cons.prems(1) obtain t' where t': "Next t = Inr (True, t')" "at_call t' (concat (map sb_encode calls))"
    using Next_token[of t b x "concat (map sb_encode calls)"] by auto
  with Cons.IH[OF t'(2)] Cons.prems(2,3) show ?case by (simp add: parse_loop.simps[of t])
qed

lemma pol_data: "AddData d \<in> set (policy_calls pol_key fixtureAuthorizationPolicy (ex_magic @ [PacketType])) \<Longrightarrow> length d < 2 ^ 31"
  by (auto simp: pol_key_def ex_magic_def dest!: policy_data)

lemma pol_parses: "checkScriptParses 0 pol_auth = Inr ()" "checkScriptParses 0 [] = Inr ()"
proof -
  have "at_call (MakeScriptTokenizer 0 pol_auth) pol_auth" "at_call (MakeScriptTokenizer 0 []) (concat (map sb_encode []))"
    using pol_auth_length by (simp_all add: at_call_def offsets_fit_def MakeScriptTokenizer_def)
  with parse_calls[OF _ pol_calls_ok(1) pol_data, of "MakeScriptTokenizer 0 pol_auth"] parse_calls[of "MakeScriptTokenizer 0 []" "[]"]
  show "checkScriptParses 0 pol_auth = Inr ()" "checkScriptParses 0 [] = Inr ()"
    by (auto simp: checkScriptParses_def simp flip: pol_auth_def)
qed

abbreviation pol_opts :: "ExecuteOption list" where "pol_opts \<equiv> []"


lemma pol_prepared: "\<exists>v. prepare_engine pol_lib (pol_script h q lf ks) pol_tx pol_fetcher 0 pol_opts = Inr v"
proof -
  have w: "\<not> IsWitnessProgram pol_lib pol_auth" using pol_auth_length by (intro pol_not_witness) simp
  have n: "\<exists>v. NewEngine pol_lib pol_auth pol_tx 0 c h a f = Inr v" for c h a f
    using pol_parses w pol_auth_length
    by (auto simp: NewEngine_def MaxScriptSize_def Let_def simp del: pol_lib_simps(4))
  have p: "packetContainsExactEntry pol_packet 0 pol_auth [pol_sig]"
    by (simp add: packetContainsExactEntry_def pol_packet_def)
  obtain v where "NewEngine pol_lib pol_auth pol_tx 0 (Some []) (NewTxSigHashes pol_lib pol_tx pol_fetcher) 100000 (Some pol_fetcher) = Inr v"
    using n by blast
  with p pol_packet_found show ?thesis
    by (simp add: prepare_engine_def at_idx_def pol_script_def pol_extension[simplified] Let_def del: apply_option.simps)
qed

lemma pol_hash:
  assumes "tx v = pol_tx" "txIdx v = 0" "taprootCtx v = Some c" "annex c = []"
  shows "\<exists>h. computeArkadeSighash pol_lib v 0 = Inr h \<and> length h = 32"
proof -
  have "take 4 (ex_magic @ PacketType # x) = ex_magic" for x by (simp add: ex_magic_def)
  moreover have "ex_ext_parse (ex_magic @ PacketType # pol_content) = Inr [UnknownPacket PacketType pol_content]"
    by (simp add: ex_ext_parse_def ex_magic_def)
  ultimately have "\<exists>m. maskExtensionOutput pol_lib pol_tx = Inr m"
    using pol_deserialize
    by (simp add: maskExtensionOutput_def serializeEmulatorPacketMasked_def ex_ext_write_def) (simp add: ex_magic_def)
  then have "\<exists>o'. arkadeOutputsHash pol_lib pol_tx = Inr o'" by (auto simp: arkadeOutputsHash_def)
  then show ?thesis
    using assms
    by (auto simp: computeArkadeSighash_def buildArkadeSigMsg_def Let_def isValidTaprootSigHash_def SigHashDefault_def
        SigHashAnyOneCanPay_def SigHashSingle_def SigHashNone_def)
qed

lemma pol_verifies: "verifyECDSASecp256r1 pol_lib q h pol_sig"
proof -
  have z: "le_val (replicate n 0) = 0" for n by (induction n) simp_all
  have "le_val (1 # replicate 31 0) = 1" by (simp add: z)
  then show ?thesis
    by (simp add: verifyECDSASecp256r1_def pol_sig_def P256_N_def Let_def)
qed

lemma pol_signed:
  assumes "tx v = pol_tx" "txIdx v = 0" "taprootCtx v = Some c" "annex c = []"
  shows "signed_by pol_lib v pol_key pol_sig"
proof -
  have "le_val (tl pol_key) < 2 ^ 256" using le_val_bound[of "tl pol_key"] by (simp add: pol_key_def)
  then have "\<exists>pub. parseSchemePubKey pol_lib (0x11 # pol_key) = Inr (SchemeECDSASecp256r1 pub)"
    by (auto simp: parseSchemePubKey_def pol_key_def extPubKeyECDSASecp256k1_def extPubKeyECDSASecp256r1_def FillBytes32_def)
  with pol_hash[OF assms] pol_verifies show ?thesis
    by (auto simp: signed_by_def pol_key_def) (simp_all add: pol_sig_def)
qed

lemma pol_env:
  assumes "prepare_engine pol_lib (pol_script h q lf ks) pol_tx pol_fetcher 0 pol_opts = Inr v"
  shows "tx v = pol_tx \<and> txIdx v = 0 \<and> (\<exists>c. taprootCtx v = Some c \<and> annex c = [])"
  using prepare_engine_env[OF assms] by (simp add: newTaprootExecutionCtxForLeaf_def newTaprootExecutionCtx_def)

lemma pol_prefix: "exactPacketOutputPrefix pol_lib (int (length pol_auth)) = Inr (ex_magic @ [PacketType])"
  using pol_auth_length by (intro ex_prefix) auto

lemma pol_script_simps [simp]: "as_script (pol_script h q lf ks) = pol_auth" "as_witness (pol_script h q lf ks) = [pol_sig]"
  by (simp_all add: pol_script_def)

lemma pol_sig_length: "pol_sig \<noteq> []" "length pol_sig = 64"
  by (simp_all add: pol_sig_def)

theorem compliant_spend_accepted_witness:
  "\<exists>vm. ArkadeScript_Execute pol_lib (pol_script [] (1, 0) \<lparr>LeafVersion = 0xc0, leaf_Script = [0x51]\<rparr> []) (Some pol_tx) (Some pol_fetcher) 0 pol_opts = Some (Inr vm)"
proof -
  obtain v where v: "prepare_engine pol_lib (pol_script [] (1, 0) \<lparr>LeafVersion = 0xc0, leaf_Script = [0x51]\<rparr> []) pol_tx pol_fetcher 0 pol_opts = Inr v" using pol_prepared by blast
  then obtain c where c: "tx v = pol_tx" "txIdx v = 0" "taprootCtx v = Some c" "annex c = []" using pol_env by blast
  obtain h scheme where h: "computeArkadeSighash pol_lib v 0 = Inr h" "length h = 32"
      "parseSchemePubKey pol_lib (0x11 # pol_key) = Inr scheme" "scheme_verify pol_lib scheme h pol_sig"
    using pol_signed[OF c] by (auto simp: signed_by_def)
  have nw: "\<not> IsWitnessProgram pol_lib pol_auth" using pol_auth_length by (intro pol_not_witness) simp
  show ?thesis
    by (rule compliant_spend_accepted[OF pol_authorized pol_prefix ex_builder_ok _ _ _ nw v _ pol_within pol_sig_length(1) _ h(3,4) _ h(2)])
      (use pol_auth_length pol_sig_length calc_sighash[OF v, of 0] h(1) in auto)
qed

lemma pol_executes: "\<exists>vm. ArkadeScript_Execute pol_lib (pol_script h q lf ks) (Some pol_tx) (Some pol_fetcher) 0 pol_opts = Some (Inr vm)"
proof -
  obtain v where v: "prepare_engine pol_lib (pol_script h q lf ks) pol_tx pol_fetcher 0 pol_opts = Inr v" using pol_prepared by blast
  then obtain c where c: "tx v = pol_tx" "txIdx v = 0" "taprootCtx v = Some c" "annex c = []" using pol_env by blast
  have "\<not> IsWitnessProgram pol_lib pol_auth" using pol_auth_length by (intro pol_not_witness) simp
  moreover have "length pol_auth < 2 ^ 31" using pol_auth_length by simp
  ultimately have "\<exists>vm. Execute pol_lib v = Some (Inr vm)"
    using policy_accepts[OF pol_authorized pol_prefix ex_builder_ok _ _ _ _ v _ pol_within pol_signed[OF c]]
    by (simp del: pol_lib_simps)
  moreover have "check_prevouts pol_fetcher (TxIn pol_tx) = Inr ()" by (simp add: check_prevouts_iff MaxSatoshi_def)
  ultimately show ?thesis using v by (auto simp: ArkadeScript_Execute_def)
qed

lemma pol_lib_ok: "lib_ok pol_lib"
  using ex_lib_ok unfolding pol_lib_def lib_ok_def by simp

theorem authorization_script_enforces_policy_witness:
  "sint (out_value (TxOut pol_tx ! 0)) \<le> sint (RecipientCapSats fixtureAuthorizationPolicy) \<and>
   (\<exists>pub h. verifyECDSASecp256r1 pol_lib pub h pol_sig)"
proof -
  obtain vm where run: "ArkadeScript_Execute pol_lib (pol_script [] (1, 0) \<lparr>LeafVersion = 0xc0, leaf_Script = [0x51]\<rparr> []) (Some pol_tx) (Some pol_fetcher) 0 pol_opts = Some (Inr vm)"
    using pol_executes by blast
  have t: "tx_ok pol_tx" by (simp add: tx_ok_def wit_ok_def pol_in_def)
  have w: "length pk \<le> 42" if "IsWitnessProgram pol_lib pk" for pk
    using that pol_not_witness[of pk] by (cases "42 < length pk") auto
  have r: "\<exists>r. b = OP_RETURN # r" if "ext_Serialize pol_lib e = Inr b" for e b
    using that by (auto simp: ex_ext_write_def ex_magic_def split: list.splits ext_packet.splits)
  have i: "SignatureScript (TxIn pol_tx ! nat 0) = []" by simp
  have "\<exists>r c k sig pub h. TxOut pol_tx = [r, c, k] \<and> sint (out_value r) \<le> sint (RecipientCapSats fixtureAuthorizationPolicy) \<and>
      as_witness (pol_script [] (1, 0) \<lparr>LeafVersion = 0xc0, leaf_Script = [0x51]\<rparr> []) = [sig] \<and> verifyECDSASecp256r1 pol_lib pub h sig"
    by (rule exE[OF authorization_script_enforces_policy[OF pol_authorized pol_script_simps(1) run t i pol_lib_ok ex_builder_ok w r]])
      (assumption, assumption, blast)
  then show ?thesis by auto
qed

end
