(* ===== verification/VaultGuardProps.thy ===== *)
theory VaultGuardProps
imports VaultGuard VaultTxProps VaultPolicySpend
begin

text \<open>Properties of the provider's checks: what a signer's answer can change, what a classified spend
is, and what the local signer has enforced when it signs.\<close>

subsection \<open>What a signer's answer can change\<close>

lemma find_signer_sig_sound:
  assumes "find_signer_sig L B p k h lf found extras = Inr (Some s)"
  shows "found = Some s \<or> Some s \<in> set extras \<and> length (ss_Signature s) = 64 \<and> ss_XOnlyPubKey s = k \<and> ss_LeafHash s = h \<and>
    ss_SigHash s = SigHashDefault \<and> verifySignerSig L B p s k lf = Inr ()"
  using assms
proof (induction L B p k h lf found extras rule: find_signer_sig.induct)
  case (3 L B p k h lf found extra extras)
  then show ?case by (cases "length (ss_Signature extra) \<noteq> 64 \<or> ss_XOnlyPubKey extra \<noteq> k \<or> ss_LeafHash extra \<noteq> h \<or>
         ss_SigHash extra \<noteq> SigHashDefault \<or> verifySignerSig L B p extra k lf \<noteq> Inr ()") (auto split: if_splits)
qed auto

lemma extra_sigs_subset: "set (extra_sigs before matched sigs) \<subseteq> set sigs"
  by (induction before matched sigs rule: extra_sigs.induct) (auto simp: Let_def)

lemma one_input_iff:
  "one_input (Some p) \<longleftrightarrow> (\<exists>t i inp. UnsignedTx p = Some t \<and> TxIn t = [i] \<and> pk_Inputs p = [inp])"
  by (auto simp: one_input_def length_Suc_conv split: option.splits)

lemma extract_sound:
  assumes "extractVerifiedSignerSig L B (Some p) (Some r) k = Inr s"
  shows "\<exists>t i inp prev lf digest inp'. UnsignedTx p = Some t \<and> TxIn t = [i] \<and> pk_Inputs p = [inp] \<and> WitnessUtxo inp = Some prev \<and>
    TaprootLeafScript inp = [Some lf] \<and> pk_Inputs r = [inp'] \<and> Some s \<in> set (TaprootScriptSpendSig inp') \<and>
    tapscript_digest L B t prev (NewBaseTapLeaf (tls_Script lf)) = Inr digest \<and> ss_XOnlyPubKey s = k \<and>
    ss_LeafHash s = TapLeaf_TapHash L (NewBaseTapLeaf (tls_Script lf)) \<and> ss_SigHash s = SigHashDefault \<and>
    length (ss_Signature s) = 64 \<and> schnorr_check L digest (ss_Signature s) k = Inr ()"
proof -
  have o: "one_input (Some p)" "one_input (Some r)"
    using assms by (auto simp: extractVerifiedSignerSig_def split: if_splits)
  obtain t i inp inp' where p: "UnsignedTx p = Some t" "TxIn t = [i]" "pk_Inputs p = [inp]" "pk_Inputs r = [inp']"
    using o unfolding one_input_iff by blast
  obtain prev lf where l: "WitnessUtxo inp = Some prev" "TaprootLeafScript inp = [Some lf]"
    using assms o p by (auto simp: extractVerifiedSignerSig_def Let_def split: if_splits list.splits option.splits)
  let ?lf = "NewBaseTapLeaf (tls_Script lf)"
  have f: "find_signer_sig L B p k (TapLeaf_TapHash L ?lf) ?lf None
      (extra_sigs (TaprootScriptSpendSig inp) (replicate (length (TaprootScriptSpendSig inp)) False) (TaprootScriptSpendSig inp'))
      = Inr (Some s)"
    using assms o p l by (auto simp: extractVerifiedSignerSig_def Let_def bindE_Inr_iff split: if_splits option.splits)
  note s = find_signer_sig_sound[OF f]
  then have v: "verifySignerSig L B p s k ?lf = Inr ()" by simp
  then obtain digest where "tapscript_digest L B t prev ?lf = Inr digest" "schnorr_check L digest (ss_Signature s) k = Inr ()"
    using p l by (auto simp: verifySignerSig_def at_idx_def bindE_Inr_iff)
  then show ?thesis using s p l extra_sigs_subset by fastforce
qed

text \<open>C7: A hostile signer can only contribute the one signature it was asked for: whatever a signer
answers, when signExactStage succeeds its result is the encoding of the re-encoded and parsed stored
packet, in which one signature has been appended to those of the only input and nothing else has
changed. That signature is by the expected key, for the leaf the stored packet commits to, with the
default sighash, and valid over the digest of the stored transaction. No other part of the answer,
and no change it makes to the transaction, the previous output or the other signatures, reaches the
result. Nothing is assumed of the packet codec.\<close>

theorem signer_response_confined:
  assumes "signExactStage L B G stored (Some sg) k = Inr out"
  shows "\<exists>p t i inp prev lf digest s e clone cinp rest.
    NewFromRawBytes G stored = Inr p \<and> UnsignedTx p = Some t \<and> TxIn t = [i] \<and>
    pk_Inputs p = [inp] \<and> WitnessUtxo inp = Some prev \<and> TaprootLeafScript inp = [Some lf] \<and>
    tapscript_digest L B t prev (NewBaseTapLeaf (tls_Script lf)) = Inr digest \<and>
    ss_XOnlyPubKey s = k \<and> ss_LeafHash s = TapLeaf_TapHash L (NewBaseTapLeaf (tls_Script lf)) \<and>
    ss_SigHash s = SigHashDefault \<and> length (ss_Signature s) = 64 \<and> schnorr_check L digest (ss_Signature s) k = Inr () \<and>
    B64Encode G p = Inr e \<and> NewFromRawBytes G e = Inr clone \<and> pk_Inputs clone = cinp # rest \<and>
    B64Encode G (clone\<lparr>pk_Inputs := cinp\<lparr>TaprootScriptSpendSig := TaprootScriptSpendSig cinp @ [Some s]\<rparr> # rest\<rparr>) = Inr out"
proof -
  obtain p r s clone where p: "NewFromRawBytes G stored = Inr p"
    and s: "extractVerifiedSignerSig L B (Some p) (Some r) k = Inr s"
    and o: "clonePacket G (Some p) = Inr clone" "bindE (add_sig s clone) (B64Encode G) = Inr out"
    using assms unfolding signExactStage_def
    by (auto simp: parseAndVerifyPrevout_def bindE_Inr_iff split: option.splits)
  from extract_sound[OF s] obtain t i inp prev lf digest where q: "UnsignedTx p = Some t" "TxIn t = [i]" "pk_Inputs p = [inp]"
      "WitnessUtxo inp = Some prev" "TaprootLeafScript inp = [Some lf]"
      "tapscript_digest L B t prev (NewBaseTapLeaf (tls_Script lf)) = Inr digest" "ss_XOnlyPubKey s = k"
      "ss_LeafHash s = TapLeaf_TapHash L (NewBaseTapLeaf (tls_Script lf))" "ss_SigHash s = SigHashDefault"
      "length (ss_Signature s) = 64" "schnorr_check L digest (ss_Signature s) k = Inr ()"
    by blast
  obtain e where e: "B64Encode G p = Inr e" "NewFromRawBytes G e = Inr clone"
    using o(1) by (auto simp: clonePacket_def bindE_Inr_iff)
  obtain cinp rest where c: "pk_Inputs clone = cinp # rest"
      "B64Encode G (clone\<lparr>pk_Inputs := cinp\<lparr>TaprootScriptSpendSig := TaprootScriptSpendSig cinp @ [Some s]\<rparr> # rest\<rparr>) = Inr out"
    using o(2) by (auto simp: add_sig_def set_input0_def bindE_Inr_iff split: list.splits)
  from p q e c show ?thesis by blast
qed

subsection \<open>What a classified spend is\<close>

lemma addSats_exact: "addSats a b = Inr s \<Longrightarrow> sint s = sint a + sint b"
proof -
  assume a: "addSats a b = Inr s"
  then have s: "s = a + b" by (simp add: addSats_def split: if_splits)
  have r: "- (2 ^ 63) \<le> sint a" "sint a < 2 ^ 63" "- (2 ^ 63) \<le> sint b" "sint b < 2 ^ 63"
    using sint_ge[of a] sint_lt[of a] sint_ge[of b] sint_lt[of b] by simp_all
  have "- (2 ^ 63) \<le> sint a + sint b \<and> sint a + sint b < 2 ^ 63"
  proof (cases "0 \<le> sint b")
    case True
    have "sint (MaxInt64 - b) = sint MaxInt64 - sint b" using True r by (intro int64_sub) simp_all
    then show ?thesis using a True r by (cases "sint b = 0") (auto simp: addSats_def word_sless_alt split: if_splits)
  next
    case False
    have "sint (MinInt64 - b) = sint MinInt64 - sint b" using False r by (intro int64_sub) (simp_all add: sint_MinInt64)
    then show ?thesis using a False r by (auto simp: addSats_def word_sless_alt sint_MinInt64 split: if_splits)
  qed
  then show ?thesis unfolding s by (intro int64_add) auto
qed

lemma sum_outputs_exact:
  "sum_outputs acc outs = Inr s \<Longrightarrow> sint s = sint acc + sum_list (map (sint \<circ> out_value) outs) \<and>
     list_all (\<lambda>x. 0 \<le> sint (out_value x) \<and> sint (out_value x) \<le> MaxSatoshi) outs"
proof (induction acc outs rule: sum_outputs.induct)
  case (2 acc out outs)
  then obtain n where n: "addSats acc (out_value out) = Inr n" "sum_outputs n outs = Inr s"
      "0 \<le> sint (out_value out)" "sint (out_value out) \<le> MaxSatoshi"
    by (auto simp: bindE_Inr_iff requireMoneyRange_def word_sless_alt not_less split: if_splits)
  then show ?case using 2(1)[OF _ n(1,2)] addSats_exact[OF n(1)] by (auto simp: requireMoneyRange_def word_sless_alt)
qed simp

lemma packet_output_sound:
  assumes "packet_output L v t n out s = Inr s'"
  shows "\<exists>e data. s' = s\<lparr>o_packet := Some out\<rparr> \<and> int n = int (length (TxOut t)) - 1 \<and> out_value out = 0 \<and>
    NewExtensionFromBytes L (PkScript out) = Inr [UnknownPacket PacketType data] \<and>
    ext_Serialize L [UnknownPacket PacketType data] = Inr (PkScript out) \<and>
    FindEmulatorPacket L t = Inr (Some [e]) \<and> Packet_Serialize L [e] = Inr data \<and> Vin e = 0 \<and> ent_Script e = AuthScript (bt_Record v)"
proof -
  obtain ext where x: "NewExtensionFromBytes L (PkScript out) = Inr ext" "ext_Serialize L ext = Inr (PkScript out)" "out_value out = 0"
    using assms by (auto simp: packet_output_def bindE_Inr_iff split: if_splits)
  then obtain q where q: "ext = [q]" "packet_Type q = PacketType"
    using assms by (auto simp: packet_output_def split: if_splits list.splits)
  obtain pkt where p: "FindEmulatorPacket L t = Inr pkt"
    using assms x q by (auto simp: packet_output_def bindE_Inr_iff split: if_splits)
  then obtain e where e: "pkt = Some [e]"
    using assms x q by (auto simp: packet_output_def split: if_splits option.splits list.splits)
  have n: "NewPacket [e] = Inr r \<Longrightarrow> r = [e]" for r by (auto simp: NewPacket_def bindE_Inr_iff)
  show ?thesis using assms x p unfolding q(1) e
    by (cases q) (use q(2) n in \<open>auto simp: packet_output_def bindE_Inr_iff split: if_splits\<close>)
qed

lemma classify_outputs_three:
  "classify_outputs L G v t n outs s = Inr s' \<Longrightarrow> o_change s = None \<Longrightarrow> o_change s' \<noteq> None \<Longrightarrow> length (TxOut t) = 3"
proof (induction L G v t n outs s rule: classify_outputs.induct)
  case (2 L G v t n out outs s)
  then obtain s1 where s1: "(if IsExtension L (PkScript out) then packet_output L v t n out s
      else if PkScript out = bt_PkScript v then change_output v t n out s else recipient_output L G v n out s) = Inr s1"
      "classify_outputs L G v t (n + 1) outs s1 = Inr s'"
    by (auto simp: bindE_Inr_iff)
  show ?case
  proof (cases "o_change s1")
    case None
    with 2(1)[OF s1] 2(4) show ?thesis by simp
  next
    case (Some c)
    then show ?thesis using s1(1) 2(3) packet_output_sound[of L v t n out s s1]
      by (auto simp: change_output_def recipient_output_def split: if_splits)
  qed
qed simp

lemma classify_outputs_sound:
  assumes "classify_outputs L G v t 0 (TxOut t) \<lparr>o_recipient = None, o_change = None, o_packet = None\<rparr> = Inr s"
    and "o_recipient s \<noteq> None" "o_change s \<noteq> None" "o_packet s \<noteq> None"
  shows "\<exists>r c k e data. TxOut t = [r, c, k] \<and> o_recipient s = Some r \<and>
    IsWitnessProgram L (PkScript r) \<and> \<not> IsExtension L (PkScript r) \<and> PkScript r \<noteq> bt_PkScript v \<and> PkScript r \<noteq> ANCHOR_PKSCRIPT G \<and>
    sint (RecipientDustSats (tr_AuthorizationPolicy (bt_Record v))) \<le> sint (out_value r) \<and>
    PkScript c = bt_PkScript v \<and> sint (RecipientDustSats (tr_AuthorizationPolicy (bt_Record v))) \<le> sint (out_value c) \<and>
    out_value k = 0 \<and> ext_Serialize L [UnknownPacket PacketType data] = Inr (PkScript k) \<and>
    FindEmulatorPacket L t = Inr (Some [e]) \<and> Packet_Serialize L [e] = Inr data \<and> Vin e = 0 \<and> ent_Script e = AuthScript (bt_Record v)"
proof -
  have "length (TxOut t) = 3" using classify_outputs_three[OF assms(1)] assms(3) by simp
  then obtain r c k where t: "TxOut t = [r, c, k]" by (auto simp: numeral_3_eq_3 length_Suc_conv)
  obtain s1 s2 where st: "(if IsExtension L (PkScript r) then packet_output L v t 0 r \<lparr>o_recipient = None, o_change = None, o_packet = None\<rparr>
      else if PkScript r = bt_PkScript v then change_output v t 0 r \<lparr>o_recipient = None, o_change = None, o_packet = None\<rparr>
      else recipient_output L G v 0 r \<lparr>o_recipient = None, o_change = None, o_packet = None\<rparr>) = Inr s1"
    "(if IsExtension L (PkScript c) then packet_output L v t (Suc 0) c s1 else if PkScript c = bt_PkScript v then change_output v t (Suc 0) c s1
      else recipient_output L G v (Suc 0) c s1) = Inr s2"
    "(if IsExtension L (PkScript k) then packet_output L v t (Suc (Suc 0)) k s2 else if PkScript k = bt_PkScript v then change_output v t (Suc (Suc 0)) k s2
      else recipient_output L G v (Suc (Suc 0)) k s2) = Inr s"
    using assms(1) unfolding t by (auto simp: bindE_Inr_iff numeral_2_eq_2)
  have "\<not> IsExtension L (PkScript r)" "\<not> IsExtension L (PkScript c)"
    using st(1,2) packet_output_sound[of L v t 0 r] packet_output_sound[of L v t 1 c s1 s2] t by (auto split: if_splits)
  then have r: "s1 = \<lparr>o_recipient = Some r, o_change = None, o_packet = None\<rparr>" "IsWitnessProgram L (PkScript r)"
      "PkScript r \<noteq> bt_PkScript v" "PkScript r \<noteq> ANCHOR_PKSCRIPT G" "\<not> IsExtension L (PkScript r)"
      "sint (RecipientDustSats (tr_AuthorizationPolicy (bt_Record v))) \<le> sint (out_value r)"
    using st(1) by (auto simp: change_output_def recipient_output_def word_sless_alt split: if_splits)
  then have c: "s2 = s1\<lparr>o_change := Some c\<rparr>" "PkScript c = bt_PkScript v"
      "sint (RecipientDustSats (tr_AuthorizationPolicy (bt_Record v))) \<le> sint (out_value c)"
    using st(2) \<open>\<not> IsExtension L (PkScript c)\<close> by (auto simp: change_output_def recipient_output_def word_sless_alt split: if_splits)
  have k: "packet_output L v t (Suc (Suc 0)) k s2 = Inr s"
    using st(3) r(1) c(1) by (auto simp: change_output_def recipient_output_def split: if_splits)
  show ?thesis using packet_output_sound[OF k] r c t by auto
qed

lemma vbytes_exact:
  assumes "0 \<le> SerializeSizeStripped L t" "SerializeSizeStripped L t < 2 ^ 31"
    and "length (lf_Script routine) < 2 ^ 31" "length (lf_ControlBlock routine) < 2 ^ 31"
  shows "sint (estimatedVBytes L t routine) = (SerializeSizeStripped L t * 4 + estimatedWitnessBytes routine + 3) div 4"
    "0 \<le> sint (estimatedVBytes L t routine)" "sint (estimatedVBytes L t routine) < 2 ^ 34"
proof -
  let ?w = "SerializeSizeStripped L t * 4 + estimatedWitnessBytes routine + 3"
  have v: "1 \<le> varintSize n" "varintSize n \<le> 9" for n by (auto simp: varintSize_def)
  have w: "0 \<le> estimatedWitnessBytes routine" "estimatedWitnessBytes routine < 2 ^ 33"
    using v[of 5] v[of 64] v[of "int (length (lf_Script routine))"] v[of "int (length (lf_ControlBlock routine))"] assms(3,4)
    by (simp_all add: estimatedWitnessBytes_def Let_def)
  have q: "0 \<le> ?w div 4" "?w div 4 < 2 ^ 34" using assms(1,2) w by (auto simp: div_less_iff_less_mult)
  have e: "(estimatedWeight L t routine + 3) sdiv 4 = ?w div 4"
    using assms(1) w by (simp add: estimatedWeight_def estimatedFullSize_def signed_divide_int_def algebra_simps)
  have "sint (estimatedVBytes L t routine) = ?w div 4"
    unfolding estimatedVBytes_def e using q by (intro int64_of_int) auto
  then show "sint (estimatedVBytes L t routine) = ?w div 4" "0 \<le> sint (estimatedVBytes L t routine)"
      "sint (estimatedVBytes L t routine) < 2 ^ 34" using q by simp_all
qed

lemma classify_sound:
  assumes "classify L B G (Some p) (Some v) = Inr cl"
  shows "\<exists>routine t i inp prevTx prev r c k e data. lv_Routine (bt_Leaves v) = Some routine \<and> UnsignedTx p = Some t \<and>
    TxIn t = [i] \<and> pk_Inputs p = [inp] \<and> tx_version t = 2 \<and> LockTime t = 0 \<and> Sequence i = 0xffffffff \<and>
    TxHash L prevTx = op_hash (PreviousOutPoint i) \<and> unat (op_index (PreviousOutPoint i)) < length (TxOut prevTx) \<and>
    prev = TxOut prevTx ! unat (op_index (PreviousOutPoint i)) \<and> WitnessUtxo inp = Some prev \<and> PkScript prev = bt_PkScript v \<and>
    0 \<le> sint (out_value prev) \<and> sint (out_value prev) \<le> MaxSatoshi \<and>
    SighashType inp = SigHashDefault \<and> TaprootLeafScript inp = leaf_field routine \<and>
    TxOut t = [r, c, k] \<and> IsWitnessProgram L (PkScript r) \<and> PkScript r \<noteq> bt_PkScript v \<and>
    sint (RecipientDustSats (tr_AuthorizationPolicy (bt_Record v))) \<le> sint (out_value r) \<and> PkScript c = bt_PkScript v \<and>
    sint (RecipientDustSats (tr_AuthorizationPolicy (bt_Record v))) \<le> sint (out_value c) \<and> out_value k = 0 \<and>
    ext_Serialize L [UnknownPacket PacketType data] = Inr (PkScript k) \<and> FindEmulatorPacket L t = Inr (Some [e]) \<and>
    Packet_Serialize L [e] = Inr data \<and> Vin e = 0 \<and> ent_Script e = AuthScript (bt_Record v) \<and>
    cl_Recipient cl = Some r \<and> sint (cl_Fee cl) = sint (out_value prev) - sint (out_value r) - sint (out_value c) \<and>
    0 \<le> sint (cl_Fee cl) \<and> cl_VBytes cl = estimatedVBytes L t routine"
proof -
  obtain routine where ro: "lv_Routine (bt_Leaves v) = Some routine"
    using assms by (auto simp: classify_def split: option.splits)
  obtain prevTx where pv: "RequireVerifiedPrevout L B (Some p) = Inr prevTx"
    using assms ro by (auto simp: classify_def bindE_Inr_iff)
  from RequireVerifiedPrevout_sound[OF pv] obtain t i inp where t: "UnsignedTx p = Some t" "TxIn t = [i]" "pk_Inputs p = [inp]"
      "TxHash L prevTx = op_hash (PreviousOutPoint i)" "unat (op_index (PreviousOutPoint i)) < length (TxOut prevTx)"
      "WitnessUtxo inp = Some (TxOut prevTx ! unat (op_index (PreviousOutPoint i)))"
    by blast
  let ?prev = "TxOut prevTx ! unat (op_index (PreviousOutPoint i))"
  let ?s0 = "\<lparr>o_recipient = None, o_change = None, o_packet = None\<rparr>"
  have a: "tx_version t = 2" "LockTime t = 0" "Sequence i = 0xffffffff" "SighashType inp = SigHashDefault" "PkScript ?prev = bt_PkScript v"
      "0 \<le> sint (out_value ?prev)" "sint (out_value ?prev) \<le> MaxSatoshi"
    using assms ro pv t
    by (auto simp: classify_def bindE_Inr_iff Let_def requireMoneyRange_def word_sless_alt MaxTxInSequenceNum_def split: if_splits)
  then have m: "requireMoneyRange (out_value ?prev) = Inr ()" by (simp add: requireMoneyRange_def word_sless_alt)
  obtain lf where lf: "TaprootLeafScript inp = [Some lf]" "tls_Script lf = lf_Script routine" "ControlBlock lf = lf_ControlBlock routine"
      "tls_LeafVersion lf = BaseLeafVersion"
    using assms ro pv t a m by (auto simp: classify_def Let_def split: if_splits list.splits option.splits)
  then have lf': "TaprootLeafScript inp = leaf_field routine" by (cases lf) (simp add: leaf_field_def)
  obtain s where s: "classify_outputs L G v t 0 (TxOut t) ?s0 = Inr s"
      "o_recipient s \<noteq> None" "o_packet s \<noteq> None" "o_change s \<noteq> None"
    and r: "bindE (sum_outputs 0 (TxOut t)) (\<lambda>outSum. let fee = out_value ?prev - outSum in
        if fee <s 0 then go_err ''negative fee''
        else let vbytes = estimatedVBytes L t routine in
        if vbytes \<le>s 0 then go_err ''invalid transaction size''
        else Inr \<lparr>cl_Recipient = o_recipient s, cl_Fee = fee, cl_VBytes = vbytes\<rparr>) = Inr cl"
    using assms ro pv t a m lf by (auto simp: classify_def Let_def MaxTxInSequenceNum_def bindE_Inr_iff split: if_splits)
  from classify_outputs_sound[OF s(1,2,4,3)] obtain r c k e data where o: "TxOut t = [r, c, k]" "o_recipient s = Some r"
      "IsWitnessProgram L (PkScript r)" "PkScript r \<noteq> bt_PkScript v"
      "sint (RecipientDustSats (tr_AuthorizationPolicy (bt_Record v))) \<le> sint (out_value r)" "PkScript c = bt_PkScript v"
      "sint (RecipientDustSats (tr_AuthorizationPolicy (bt_Record v))) \<le> sint (out_value c)" "out_value k = 0"
      "ext_Serialize L [UnknownPacket PacketType data] = Inr (PkScript k)" "FindEmulatorPacket L t = Inr (Some [e])"
      "Packet_Serialize L [e] = Inr data" "Vin e = 0" "ent_Script e = AuthScript (bt_Record v)"
    by blast
  from r obtain n where n: "sum_outputs 0 (TxOut t) = Inr n" "0 \<le> sint (out_value ?prev - n)" "cl_Recipient cl = Some r"
      "cl_Fee cl = out_value ?prev - n" "cl_VBytes cl = estimatedVBytes L t routine"
    using o(2) by (auto simp: bindE_Inr_iff Let_def word_sless_alt split: if_splits)
  from sum_outputs_exact[OF n(1)] o(1,8) have sn: "sint n = sint (out_value r) + sint (out_value c)" "0 \<le> sint n" "sint n \<le> 2 * MaxSatoshi"
    by simp_all
  then have "sint (out_value ?prev - n) = sint (out_value ?prev) - sint n"
    using a(6,7) by (intro int64_sub) (simp_all add: MaxSatoshi_def)
  then have f: "sint (cl_Fee cl) = sint (out_value ?prev) - sint (out_value r) - sint (out_value c)" "0 \<le> sint (cl_Fee cl)"
    using n(2,4) sn(1) by simp_all
  show ?thesis
    by (rule exI[of _ routine], rule exI[of _ t], rule exI[of _ i], rule exI[of _ inp], rule exI[of _ prevTx], rule exI[of _ ?prev],
      rule exI[of _ r], rule exI[of _ c], rule exI[of _ k], rule exI[of _ e], rule exI[of _ data], intro conjI)
      (rule ro t a lf' o n f refl)+
qed

text \<open>C5: The provider's classification is the on-chain policy: a packet that classifySpend accepts for
an enrolled vault spends an output of the verified previous transaction that pays the vault,
through the routine leaf with the default sighash, in a version 2 transaction with no lock time and
a final sequence; its outputs are a recipient witness program between the dust limit and the cap, the
change to the vault of at least the dust limit, and a zero-value extension holding the canonical
emulator packet with the vault's authorization script; and its fee, the exact difference of the
amounts without wrap-around, is not negative, within the absolute ceiling, and within the feerate
ceiling for the size with the routine witness - the same bound RoutineWitnessBytes gives in the
authorization script when the leaf and control block have their 102 and 97 bytes.\<close>

theorem classified_spend_sound:
  assumes "classifySpend L B G (Some p) (Some v) = Inr cl" "lv_Routine (bt_Leaves v) = Some routine" "UnsignedTx p = Some t"
    and "pol = tr_AuthorizationPolicy (bt_Record v)"
    and "0 \<le> sint (FeerateCeilingSatPerV pol)" "sint (FeerateCeilingSatPerV pol) < 2 ^ 28"
    and "0 \<le> SerializeSizeStripped L t" "SerializeSizeStripped L t < 2 ^ 31"
    and "length (lf_Script routine) < 2 ^ 31" "length (lf_ControlBlock routine) < 2 ^ 31"
  shows "\<exists>i inp prevTx prev r c k e data. TxIn t = [i] \<and> pk_Inputs p = [inp] \<and>
    tx_version t = 2 \<and> LockTime t = 0 \<and> Sequence i = 0xffffffff \<and>
    TxHash L prevTx = op_hash (PreviousOutPoint i) \<and> unat (op_index (PreviousOutPoint i)) < length (TxOut prevTx) \<and>
    prev = TxOut prevTx ! unat (op_index (PreviousOutPoint i)) \<and> WitnessUtxo inp = Some prev \<and> PkScript prev = bt_PkScript v \<and>
    SighashType inp = SigHashDefault \<and> TaprootLeafScript inp = leaf_field routine \<and>
    TxOut t = [r, c, k] \<and> IsWitnessProgram L (PkScript r) \<and> PkScript r \<noteq> bt_PkScript v \<and>
    sint (RecipientDustSats pol) \<le> sint (out_value r) \<and> sint (out_value r) \<le> sint (RecipientCapSats pol) \<and>
    PkScript c = bt_PkScript v \<and> sint (RecipientDustSats pol) \<le> sint (out_value c) \<and> out_value k = 0 \<and>
    ext_Serialize L [UnknownPacket PacketType data] = Inr (PkScript k) \<and> FindEmulatorPacket L t = Inr (Some [e]) \<and>
    Packet_Serialize L [e] = Inr data \<and> Vin e = 0 \<and> ent_Script e = AuthScript (bt_Record v) \<and> cl_Recipient cl = Some r \<and>
    (let fee = sint (out_value prev) - sint (out_value r) - sint (out_value c) in
       fee = sint (cl_Fee cl) \<and> 0 \<le> fee \<and> fee \<le> sint (AbsoluteFeeCeilingSats pol) \<and>
       fee \<le> (SerializeSizeStripped L t * 4 + estimatedWitnessBytes routine + 3) div 4 * sint (FeerateCeilingSatPerV pol) \<and>
       (length (lf_Script routine) = 102 \<and> length (lf_ControlBlock routine) = 97 \<longrightarrow>
          estimatedWitnessBytes routine = sint RoutineWitnessBytes))"
proof -
  have cl: "classify L B G (Some p) (Some v) = Inr cl" and pl: "enforceStaticPolicy (Some cl) pol = Inr ()"
    using assms(1,4) by (auto simp: classifySpend_def bindE_Inr_iff)
  from classify_sound[OF cl] assms(2,3) obtain i inp prevTx prev r c k e data where *: "TxIn t = [i]" "pk_Inputs p = [inp]"
      "tx_version t = 2" "LockTime t = 0" "Sequence i = 0xffffffff"
      "TxHash L prevTx = op_hash (PreviousOutPoint i)" "unat (op_index (PreviousOutPoint i)) < length (TxOut prevTx)"
      "prev = TxOut prevTx ! unat (op_index (PreviousOutPoint i))" "WitnessUtxo inp = Some prev" "PkScript prev = bt_PkScript v"
      "SighashType inp = SigHashDefault" "TaprootLeafScript inp = leaf_field routine"
      "TxOut t = [r, c, k]" "IsWitnessProgram L (PkScript r)" "PkScript r \<noteq> bt_PkScript v"
      "sint (RecipientDustSats pol) \<le> sint (out_value r)" "PkScript c = bt_PkScript v"
      "sint (RecipientDustSats pol) \<le> sint (out_value c)" "out_value k = 0"
      "ext_Serialize L [UnknownPacket PacketType data] = Inr (PkScript k)" "FindEmulatorPacket L t = Inr (Some [e])"
      "Packet_Serialize L [e] = Inr data" "Vin e = 0" "ent_Script e = AuthScript (bt_Record v)" "cl_Recipient cl = Some r"
    and fee: "sint (cl_Fee cl) = sint (out_value prev) - sint (out_value r) - sint (out_value c)" "0 \<le> sint (cl_Fee cl)"
      "cl_VBytes cl = estimatedVBytes L t routine"
    unfolding assms(4) by auto
  note vb = vbytes_exact[OF assms(7-10)]
  have cap: "sint (out_value r) \<le> sint (RecipientCapSats pol)" "sint (cl_Fee cl) \<le> sint (AbsoluteFeeCeilingSats pol)"
      "sint (cl_Fee cl) \<le> sint (FeerateCeilingSatPerV pol * cl_VBytes cl)"
    using pl *(25) by (auto simp: enforceStaticPolicy_def word_sless_alt split: if_splits)
  have "sint (FeerateCeilingSatPerV pol) * sint (cl_VBytes cl) < 2 ^ 28 * 2 ^ 34"
    unfolding fee(3) using assms(5,6) vb(2,3) by (intro mult_strict_mono) auto
  then have "sint (FeerateCeilingSatPerV pol * cl_VBytes cl) = sint (FeerateCeilingSatPerV pol) * sint (cl_VBytes cl)"
    using mult_nonneg_nonneg[OF assms(5) vb(2)] unfolding fee(3) by (simp add: sint_word_ariths signed_take_bit_int_eq_self)
  then have rate: "sint (cl_Fee cl) \<le> (SerializeSizeStripped L t * 4 + estimatedWitnessBytes routine + 3) div 4 * sint (FeerateCeilingSatPerV pol)"
    using cap(3) unfolding fee(3) vb(1) by (simp add: mult.commute)
  have w: "estimatedWitnessBytes routine = sint RoutineWitnessBytes"
    if "length (lf_Script routine) = 102 \<and> length (lf_ControlBlock routine) = 97"
    using that by (simp add: estimatedWitnessBytes_def varintSize_def RoutineWitnessBytes_def)
  have L: "let fee = sint (out_value prev) - sint (out_value r) - sint (out_value c) in
       fee = sint (cl_Fee cl) \<and> 0 \<le> fee \<and> fee \<le> sint (AbsoluteFeeCeilingSats pol) \<and>
       fee \<le> (SerializeSizeStripped L t * 4 + estimatedWitnessBytes routine + 3) div 4 * sint (FeerateCeilingSatPerV pol) \<and>
       (length (lf_Script routine) = 102 \<and> length (lf_ControlBlock routine) = 97 \<longrightarrow>
          estimatedWitnessBytes routine = sint RoutineWitnessBytes)"
    unfolding Let_def fee(1)[symmetric] using fee(2) cap(2) rate w by blast
  show ?thesis
    by (rule exI[of _ i], rule exI[of _ inp], rule exI[of _ prevTx], rule exI[of _ prev], rule exI[of _ r], rule exI[of _ c],
      rule exI[of _ k], rule exI[of _ e], rule exI[of _ data], intro conjI) (rule * cap(1) L)+
qed

subsection \<open>What the local signer enforces\<close>

lemma ReadArkadeScript_entry:
  assumes "ReadArkadeScript L inputs pk e = Inr s"
  shows "as_script s = ent_Script e \<and> as_witness s = ent_Witness e \<and> as_hash s = ArkadeScriptHash L (ent_Script e) \<and>
    (\<exists>leaf. inputs ! unat (Vin e) ! 0 = Some leaf \<and> spendingTapLeaf s = \<lparr>LeafVersion = BaseLeafVersion, leaf_Script = tls_Script leaf\<rparr>)"
  using assms
  by (auto simp: ReadArkadeScript_def Let_def bindE_Inr_iff split: if_splits option.splits)

lemma local_signer_steps:
  assumes "LocalSigner_Sign L B (Some priv) (Some p) = Some (Inr q)" "UnsignedTx p = Some t"
    and "FindEmulatorPacket L t = Inr (Some [e])"
  shows "\<exists>i inp prev prevTx lf lfs s vm k sg. TxIn t = [i] \<and> pk_Inputs p = [inp] \<and> WitnessUtxo inp = Some prev \<and>
    TxHash L prevTx = op_hash (PreviousOutPoint i) \<and> unat (op_index (PreviousOutPoint i)) < length (TxOut prevTx) \<and>
    prev = TxOut prevTx ! unat (op_index (PreviousOutPoint i)) \<and>
    TaprootLeafScript inp = Some lf # lfs \<and> ReadArkadeScript L [TaprootLeafScript inp] (ScalarBaseMult L priv) e = Inr s \<and>
    ArkadeScript_Execute L s (Some t) (Some (as_fetcher (WithPrevTx (NewPrevFetcher (PreviousOutPoint i) prev) (Some prevTx)))) 0 []
      = Some (Inr vm) \<and>
    ComputeArkadeScriptPrivateKey L priv (as_hash s) = Some k \<and> SighashType inp = SigHashDefault \<and>
    VerifyTaprootLeafCommitment L (PkScript prev) lf = Inr () \<and>
    q = p\<lparr>pk_Inputs := [inp\<lparr>TaprootScriptSpendSig := TaprootScriptSpendSig inp @
      [Some \<lparr>ss_XOnlyPubKey = schnorr_SerializePubKey L (ScalarBaseMult L k),
             ss_LeafHash = TapLeaf_TapHash L (NewBaseTapLeaf (tls_Script lf)), ss_Signature = sg, ss_SigHash = SigHashDefault\<rparr>]\<rparr>]\<rparr>"
proof -
  have "one_input (Some p)" using assms(1) by (auto simp: LocalSigner_Sign_def split: if_splits)
  then obtain i inp where p: "TxIn t = [i]" "pk_Inputs p = [inp]" using assms(2) unfolding one_input_iff by auto
  obtain prev lf lfs where l: "WitnessUtxo inp = Some prev" "TaprootLeafScript inp = Some lf # lfs"
    using assms(1,2) p \<open>one_input (Some p)\<close>
    by (auto simp: LocalSigner_Sign_def Let_def split: option.splits list.splits)
  obtain s prevTx where s: "local_script L B priv p t = Inr (s, prevTx)"
    using assms(1,2) p l \<open>one_input (Some p)\<close> by (auto simp: LocalSigner_Sign_def Let_def split: sum.splits)
  let ?f = "as_fetcher (WithPrevTx (NewPrevFetcher (PreviousOutPoint i) prev) (Some prevTx))"
  obtain vm where x: "ArkadeScript_Execute L s (Some t) (Some ?f) 0 [] = Some (Inr vm)"
      "local_signature L B priv (as_hash s) p t prev lf ?f = Inr q"
    using assms(1,2) p l s \<open>one_input (Some p)\<close>
    by (auto simp: LocalSigner_Sign_def Let_def split: option.splits sum.splits)
  have r: "ReadArkadeScript L [TaprootLeafScript inp] (ScalarBaseMult L priv) e = Inr s" "RequireVerifiedPrevout L B (Some p) = Inr prevTx"
    using s assms(3) p by (auto simp: local_script_def bindE_Inr_iff)
  have v: "TxHash L prevTx = op_hash (PreviousOutPoint i)" "unat (op_index (PreviousOutPoint i)) < length (TxOut prevTx)"
      "prev = TxOut prevTx ! unat (op_index (PreviousOutPoint i))"
    using RequireVerifiedPrevout_sound[OF r(2)] assms(2) p l by auto
  obtain k sg where k: "ComputeArkadeScriptPrivateKey L priv (as_hash s) = Some k" "SighashType inp = SigHashDefault"
      "VerifyTaprootLeafCommitment L (PkScript prev) lf = Inr ()"
      "q = p\<lparr>pk_Inputs := [inp\<lparr>TaprootScriptSpendSig := TaprootScriptSpendSig inp @
         [Some \<lparr>ss_XOnlyPubKey = schnorr_SerializePubKey L (ScalarBaseMult L k),
             ss_LeafHash = TapLeaf_TapHash L (NewBaseTapLeaf (tls_Script lf)), ss_Signature = sg, ss_SigHash = SigHashDefault\<rparr>]\<rparr>]\<rparr>"
    using x(2) p
    by (auto simp: local_signature_def at_idx_def bindE_Inr_iff add_sig_def set_input0_def Let_def split: option.splits if_splits)
  show ?thesis using p l r(1) x(1) v k by blast
qed

text \<open>C1: A cosigner signs only what the vault's policy allows: when the local signer returns a packet
whose emulator entry carries the authorization script of a P-256 key and a policy, that script has
run to a success on this transaction and its verified previous output, so the transaction is a
one-input, three-output spend of version 2 with no lock time and a final sequence, the recipient
is paid between the dust limit and the cap, at least the dust limit goes back to the witness
program that is spent, the fee is within the absolute ceiling and the feerate ceiling, and the one
witness item of the packet is a low-S signature of the P-256 key over the arkade hash of this
transaction; and the only change to the packet is one default-sighash signature entry of the key
tweaked by the hash of this very script, for the leaf the previous output commits to.\<close>

theorem local_signer_enforces_policy:
  assumes "LocalSigner_Sign L B (Some priv) (Some p) = Some (Inr q)" "UnsignedTx p = Some t"
    and "FindEmulatorPacket L t = Inr (Some [e])" "AuthorizationScript L V key pol = Inr (ent_Script e)" "Vin e = 0"
    and "tx_ok t" "list_all (\<lambda>i. SignatureScript i = []) (TxIn t)"
    and "lib_ok L" "builder_ok V" "\<And>pk. IsWitnessProgram L pk \<Longrightarrow> length pk \<le> 42"
    and "\<And>e b. ext_Serialize L e = Inr b \<Longrightarrow> \<exists>r. b = OP_RETURN # r"
  shows "\<exists>i inp prev prevTx lf lfs recipient change packet prog sig h pub k sg f.
    TxIn t = [i] \<and> TxOut t = [recipient, change, packet] \<and> pk_Inputs p = [inp] \<and>
    TxHash L prevTx = op_hash (PreviousOutPoint i) \<and> prev = TxOut prevTx ! unat (op_index (PreviousOutPoint i)) \<and>
    WitnessUtxo inp = Some prev \<and> sint (tx_version t) = 2 \<and> LockTime t = 0 \<and> Sequence i = 0xffffffff \<and>
    sint (RecipientDustSats pol) \<le> sint (out_value recipient) \<and> sint (out_value recipient) \<le> sint (RecipientCapSats pol) \<and>
    IsWitnessProgram L (PkScript recipient) \<and> sint (RecipientDustSats pol) \<le> sint (out_value change) \<and>
    is_witness L (PkScript prev) 1 prog \<and> is_witness L (PkScript change) 1 prog \<and> out_value packet = 0 \<and>
    (let fee = sint (out_value prev) - sint (out_value recipient) - sint (out_value change) in
       0 \<le> fee \<and> fee \<le> sint (AbsoluteFeeCeilingSats pol) \<and>
       fee \<le> (uint (word_of_int (SerializeSizeStripped L t * 4) :: uint64) + sint RoutineWitnessBytes + 3) sdiv 4
          * sint (FeerateCeilingSatPerV pol)) \<and>
    TaprootLeafScript inp = Some lf # lfs \<and> VerifyTaprootLeafCommitment L (PkScript prev) lf = Inr () \<and>
    ent_Witness e = [sig] \<and> length sig = 64 \<and> parseSchemePubKey L (0x11 # key) = Inr (SchemeECDSASecp256r1 pub) \<and>
    f = as_fetcher (WithPrevTx (NewPrevFetcher (PreviousOutPoint i) prev) (Some prevTx)) \<and>
    CalcArkadeScriptSignatureHash L (Some (NewTxSigHashes L t f)) 0 (Some t) 0 (Some f) (NewBaseTapLeaf (tls_Script lf)) [] = Inr h \<and>
    verifyECDSASecp256r1 L pub h sig \<and>
    ComputeArkadeScriptPrivateKey L priv (ArkadeScriptHash L (ent_Script e)) = Some k \<and>
    q = p\<lparr>pk_Inputs := [inp\<lparr>TaprootScriptSpendSig := TaprootScriptSpendSig inp @
      [Some \<lparr>ss_XOnlyPubKey = schnorr_SerializePubKey L (ScalarBaseMult L k),
             ss_LeafHash = TapLeaf_TapHash L (NewBaseTapLeaf (tls_Script lf)), ss_Signature = sg, ss_SigHash = SigHashDefault\<rparr>]\<rparr>]\<rparr>"
proof -
  from local_signer_steps[OF assms(1-3)] obtain i inp prev prevTx lf lfs s vm k sg f where *: "TxIn t = [i]" "pk_Inputs p = [inp]"
      "WitnessUtxo inp = Some prev" "TxHash L prevTx = op_hash (PreviousOutPoint i)"
      "unat (op_index (PreviousOutPoint i)) < length (TxOut prevTx)"
      "prev = TxOut prevTx ! unat (op_index (PreviousOutPoint i))"
      "TaprootLeafScript inp = Some lf # lfs" "VerifyTaprootLeafCommitment L (PkScript prev) lf = Inr ()"
      "q = p\<lparr>pk_Inputs := [inp\<lparr>TaprootScriptSpendSig := TaprootScriptSpendSig inp @
      [Some \<lparr>ss_XOnlyPubKey = schnorr_SerializePubKey L (ScalarBaseMult L k),
             ss_LeafHash = TapLeaf_TapHash L (NewBaseTapLeaf (tls_Script lf)), ss_Signature = sg, ss_SigHash = SigHashDefault\<rparr>]\<rparr>]\<rparr>"
    and s: "ReadArkadeScript L [TaprootLeafScript inp] (ScalarBaseMult L priv) e = Inr s"
    and x: "ArkadeScript_Execute L s (Some t) (Some f) 0 [] = Some (Inr vm)"
    and k: "ComputeArkadeScriptPrivateKey L priv (as_hash s) = Some k"
    and f: "f = as_fetcher (WithPrevTx (NewPrevFetcher (PreviousOutPoint i) prev) (Some prevTx))"
    by blast
  have e: "as_script s = ent_Script e" "as_witness s = ent_Witness e" "as_hash s = ArkadeScriptHash L (ent_Script e)"
      "spendingTapLeaf s = NewBaseTapLeaf (tls_Script lf)"
    using ReadArkadeScript_entry[OF s] assms(5) *(7) by (auto simp: NewBaseTapLeaf_def)
  have sc: "SignatureScript (TxIn t ! nat 0) = []" using assms(7) *(1) by simp
  have fp: "FetchPrevOutput f (PreviousOutPoint i) = Some prev" "FetchVtxoPrevOutPkScript f (PreviousOutPoint i) = Some (PkScript prev)"
    unfolding f using *(5,6) by (simp_all add: as_fetcher_def WithPrevTx_def NewPrevFetcher_def pf_FetchVtxoPrevOutPkScript_def)
  obtain i' r c k2 prev' pk prog pre content sig h pub where raw: "TxIn t = [i']" "TxOut t = [r, c, k2]" "sint (tx_version t) = 2"
      "LockTime t = 0" "Sequence i' = 0xffffffff" "FetchPrevOutput f (PreviousOutPoint i') = Some prev'"
      "sint (RecipientDustSats pol) \<le> sint (out_value r)" "sint (out_value r) \<le> sint (RecipientCapSats pol)"
      "IsWitnessProgram L (PkScript r)" "sint (RecipientDustSats pol) \<le> sint (out_value c)"
      "FetchVtxoPrevOutPkScript f (PreviousOutPoint i') = Some pk" "is_witness L pk 1 prog" "is_witness L (PkScript c) 1 prog"
      "out_value k2 = 0"
      "let fee = sint (out_value prev') - sint (out_value r) - sint (out_value c) in
       0 \<le> fee \<and> fee \<le> sint (AbsoluteFeeCeilingSats pol) \<and>
       fee \<le> (uint (word_of_int (SerializeSizeStripped L t * 4) :: uint64) + sint RoutineWitnessBytes + 3) sdiv 4
          * sint (FeerateCeilingSatPerV pol)"
      "as_witness s = [sig]" "length sig = 64" "parseSchemePubKey L (0x11 # key) = Inr (SchemeECDSASecp256r1 pub)"
      "CalcArkadeScriptSignatureHash L (Some (NewTxSigHashes L t f)) 0 (Some t) 0 (Some f) (spendingTapLeaf s) [] = Inr h"
      "verifyECDSASecp256r1 L pub h sig"
    by (rule exE[OF authorization_script_enforces_policy[OF assms(4) e(1) x assms(6) sc assms(8,9)]])
      (erule assms(10), erule assms(11), elim exE conjE, rule that)
  have eq: "i' = i" "prev' = prev" "pk = PkScript prev" using raw(1,6,11) *(1) fp by auto
  note ** = raw(2-5,7-10,12-20)[unfolded eq]
  show ?thesis
    by (rule exI[of _ i], rule exI[of _ inp], rule exI[of _ prev], rule exI[of _ prevTx], rule exI[of _ lf], rule exI[of _ lfs],
      rule exI[of _ r], rule exI[of _ c], rule exI[of _ k2], rule exI[of _ prog], rule exI[of _ sig], rule exI[of _ h],
      rule exI[of _ pub], rule exI[of _ k], rule exI[of _ sg], rule exI[of _ f], intro conjI)
      (rule * ** f k[unfolded e(3)] raw(16)[unfolded e(2)] raw(19)[unfolded e(4)])+
qed

subsection \<open>A concrete stage\<close>

definition pol_psbt_lib :: psbt_lib where "pol_psbt_lib = ex_psbt_lib\<lparr>GetPrevoutTxFields := \<lambda>_. Inr [pol_prevtx]\<rparr>"

definition pol_leaf :: leaf where
  "pol_leaf = \<lparr>leaf_Name = ''routine'', leaf_Closure = T_Multisig [Some (6, 0)], lf_Script = 0 # le_fixed 32 6,
     lf_ControlBlock = 0xc0 # replicate 40 1, leaf_Hash = ex_digest 32 0xc0 (0 # le_fixed 32 6)\<rparr>"

definition pol_vault :: built where
  "pol_vault = \<lparr>bt_Record = ex_record\<lparr>AuthScript := pol_auth\<rparr>, bt_Tree = [], bt_TapKey = (7, 0), bt_PkScript = [0x51, 2, 9, 9],
     bt_Address = ''vault'', bt_Leaves = \<lparr>lv_Routine = Some pol_leaf, lv_Admin = None, lv_Recovery = None\<rparr>,
     TweakedVaultCosigner = Some (6, 0), TweakedArkadeCosigner = Some (51, 0)\<rparr>"

definition pol_input :: "spend_sig list \<Rightarrow> psbt_input" where
  "pol_input ss = \<lparr>WitnessUtxo = Some pol_prev, SighashType = 0, TaprootLeafScript = leaf_field pol_leaf,
     TaprootScriptSpendSig = map Some ss, FinalScriptWitness = [], FinalScriptSig = [], Unknowns = []\<rparr>"

definition pol_psbt :: "spend_sig list \<Rightarrow> psbt" where
  "pol_psbt ss = \<lparr>UnsignedTx = Some pol_tx, pk_Inputs = [pol_input ss]\<rparr>"

definition pol_digest :: bytes where
  "pol_digest = ex_digest 32 (ex_fold 7 (lf_Script pol_leaf)) (concat (map PkScript (TxOut pol_tx)))"

definition pol_added :: spend_sig where
  "pol_added = \<lparr>ss_XOnlyPubKey = le_fixed 32 6, ss_LeafHash = ex_digest 32 0xc0 (0 # le_fixed 32 6),
     ss_Signature = le_fixed 32 6 @ pol_digest, ss_SigHash = SigHashDefault\<rparr>"

definition pol_guard :: guard_lib where
  "pol_guard = \<lparr>
     B64Encode = (\<lambda>p. if p = pol_psbt [] then Inr ''a'' else if p = pol_psbt [pol_added] then Inr ''b'' else go_err ''psbt''),
     NewFromRawBytes = (\<lambda>s. if s = ''a'' then Inr (pol_psbt []) else if s = ''b'' then Inr (pol_psbt [pol_added]) else go_err ''psbt''),
     IsUnspendable = (\<lambda>b. False), ANCHOR_PKSCRIPT = [0x51, 2, 0x4e, 0x73]\<rparr>"

lemma pol_schnorr [simp]: "schnorr_SerializePubKey pol_lib = (\<lambda>p. le_fixed 32 (fst p))"
  "schnorr_ParseSignature pol_lib = schnorr_ParseSignature ex_lib" "schnorr_ParsePubKey pol_lib = schnorr_ParsePubKey ex_lib"
  "schnorr_Verify pol_lib = schnorr_Verify ex_lib" "TapHash pol_lib = TapHash ex_lib" "TxHash pol_lib = (\<lambda>_. replicate 32 0)"
  by (simp_all add: pol_lib_def)

lemma pol_verified: "RequireVerifiedPrevout pol_lib pol_psbt_lib (Some (pol_psbt ss)) = Inr pol_prevtx"
  by (simp add: RequireVerifiedPrevout_def pol_psbt_def pol_input_def pol_psbt_lib_def pol_in_def pol_prevtx_def)

lemma pol_one_input: "one_input (Some (pol_psbt ss))"
  by (simp add: one_input_iff pol_psbt_def)

lemma pol_tapscript_digest: "tapscript_digest pol_lib pol_psbt_lib pol_tx pol_prev (NewBaseTapLeaf (lf_Script pol_leaf)) = Inr pol_digest"
  by (simp add: tapscript_digest_def at_idx_def pol_psbt_lib_def ex_psbt_lib_def NewBaseTapLeaf_def Let_def pol_digest_def)

lemma pol_added_check: "schnorr_check pol_lib pol_digest (ss_Signature pol_added) (le_fixed 32 6) = Inr ()"
  by (simp add: schnorr_check_def pol_added_def pol_digest_def Let_def del: le_fixed.simps)

lemma pol_extract: "extractVerifiedSignerSig pol_lib pol_psbt_lib (Some (pol_psbt [])) (Some (pol_psbt [pol_added])) (le_fixed 32 6) = Inr pol_added"
proof -
  have "verifySignerSig pol_lib pol_psbt_lib (pol_psbt []) pol_added (le_fixed 32 6) (NewBaseTapLeaf (lf_Script pol_leaf)) = Inr ()"
    using pol_tapscript_digest pol_added_check by (simp add: verifySignerSig_def at_idx_def pol_psbt_def pol_input_def)
  moreover have "ss_LeafHash pol_added = TapLeaf_TapHash pol_lib (NewBaseTapLeaf (lf_Script pol_leaf))"
    "length (ss_Signature pol_added) = 64" "ss_XOnlyPubKey pol_added = le_fixed 32 6" "ss_SigHash pol_added = SigHashDefault"
    by (simp_all add: pol_added_def TapLeaf_TapHash_def NewBaseTapLeaf_def BaseLeafVersion_def pol_leaf_def pol_digest_def del: le_fixed.simps)
  ultimately show ?thesis using pol_one_input
    by (simp add: extractVerifiedSignerSig_def Let_def indexOriginalSig_def del: le_fixed.simps)
      (simp add: pol_psbt_def pol_input_def leaf_field_def indexOriginalSig_def del: le_fixed.simps)
qed

lemma pol_stage: "signExactStage pol_lib pol_psbt_lib pol_guard ''a'' (Some (PlainSigner (\<lambda>_. Inr (pol_psbt [pol_added])))) (le_fixed 32 6) = Inr ''b''"
proof -
  have n: "pol_psbt [] \<noteq> pol_psbt [pol_added]" by (simp add: pol_psbt_def pol_input_def)
  have a: "add_sig pol_added (pol_psbt []) = Inr (pol_psbt [pol_added])"
    by (simp add: add_sig_def set_input0_def pol_psbt_def pol_input_def)
  show ?thesis using pol_verified pol_extract a n
    by (simp add: signExactStage_def parseAndVerifyPrevout_def clonePacket_def signWithExpected_def pol_guard_def del: le_fixed.simps)
qed

lemma pol_codec: "B64Encode pol_guard p = Inr e \<Longrightarrow> NewFromRawBytes pol_guard e = Inr p"
  by (auto simp: pol_guard_def split: if_splits)

theorem signer_response_confined_witness:
  "\<exists>p s inp rest. NewFromRawBytes pol_guard ''a'' = Inr p \<and> ss_XOnlyPubKey s = le_fixed 32 6 \<and> length (ss_Signature s) = 64 \<and>
    B64Encode pol_guard (p\<lparr>pk_Inputs := inp\<lparr>TaprootScriptSpendSig := TaprootScriptSpendSig inp @ [Some s]\<rparr> # rest\<rparr>) = Inr ''b''"
proof -
  show ?thesis using signer_response_confined[OF pol_stage] pol_codec by (metis Inr_inject)
qed

lemma pol_serialized: "Packet_Serialize pol_lib pol_packet = Inr pol_content"
  by (simp add: pol_content_def Packet_Serialize_def pol_packet_def)

lemma pol_newpacket: "NewPacket pol_packet = Inr pol_packet"
proof -
  have "Validate pol_packet = Inr ()" using pol_auth_length by (auto simp: Validate_iff pol_packet_def)
  then show ?thesis by (simp add: NewPacket_def)
qed

lemma pol_outputs:
  "classify_outputs pol_lib pol_guard pol_vault pol_tx 0 (TxOut pol_tx) \<lparr>o_recipient = None, o_change = None, o_packet = None\<rparr>
     = Inr \<lparr>o_recipient = Some (TxOut pol_tx ! 0), o_change = Some (TxOut pol_tx ! 1), o_packet = Some (TxOut pol_tx ! 2)\<rparr>"
proof -
  have m: "take 4 (ex_magic @ x) = ex_magic" "\<not> take 4 [0x51, 2, 1, 1] = ex_magic" "\<not> take 4 [0x51, 2, 9, 9] = ex_magic" for x
    by (simp_all add: ex_magic_def)
  have w: "IsWitnessProgram pol_lib [0x51, 2, 1, 1]" by (simp add: ex_witness_program_def)
  have x: "ex_ext_parse (ex_magic @ PacketType # pol_content) = Inr [UnknownPacket PacketType pol_content]"
    "ex_ext_write [UnknownPacket PacketType pol_content] = Inr (ex_magic @ PacketType # pol_content)"
    by (simp_all add: ex_ext_parse_def ex_ext_write_def ex_magic_def)
  have v: "bt_PkScript pol_vault = [0x51, 2, 9, 9]" "AuthScript (bt_Record pol_vault) = pol_auth"
    "RecipientDustSats (tr_AuthorizationPolicy (bt_Record pol_vault)) = 330"
    by (simp_all add: pol_vault_def ex_record_def fixtureAuthorizationPolicy_def)
  have p: "packet_output pol_lib pol_vault pol_tx 2 (TxOut pol_tx ! 2) s = Inr (s\<lparr>o_packet := Some (TxOut pol_tx ! 2)\<rparr>)"
    if "o_packet s = None" for s
    using that x v pol_packet_found pol_newpacket pol_serialized by (simp add: packet_output_def pol_packet_def PacketType_def)
  show ?thesis
    using m w v p
    by (simp add: change_output_def recipient_output_def pol_guard_def isOpReturn_def numeral_2_eq_2[symmetric] word_sless_alt)
qed

lemma pol_classified: "\<exists>cl. classifySpend pol_lib pol_psbt_lib pol_guard (Some (pol_psbt [])) (Some pol_vault) = Inr cl"
proof -
  have s: "sum_outputs 0 (TxOut pol_tx) = Inr 99500"
    by (simp add: requireMoneyRange_def addSats_def MaxSatoshi_def word_sless_alt)
  have v: "estimatedVBytes pol_lib pol_tx pol_leaf = 169"
    by (simp add: estimatedVBytes_def estimatedWeight_def estimatedFullSize_def estimatedWitnessBytes_def varintSize_def
        pol_leaf_def Let_def del: le_fixed.simps)
  have f: "UnsignedTx (pol_psbt []) = Some pol_tx" "pk_Inputs (pol_psbt []) = [pol_input []]" "WitnessUtxo (pol_input []) = Some pol_prev"
    "SighashType (pol_input []) = SigHashDefault" "lv_Routine (bt_Leaves pol_vault) = Some pol_leaf" "out_value pol_prev = 100000"
    "PkScript pol_prev = bt_PkScript pol_vault" "tr_AuthorizationPolicy (bt_Record pol_vault) = fixtureAuthorizationPolicy"
    "TaprootLeafScript (pol_input []) = leaf_field pol_leaf"
    by (simp_all add: pol_psbt_def pol_input_def pol_vault_def pol_prev_def SigHashDefault_def ex_record_def)
  show ?thesis
    using pol_verified[of "[]"] pol_outputs s v f
    by (simp add: classifySpend_def classify_def leaf_field_def MaxTxInSequenceNum_def requireMoneyRange_def MaxSatoshi_def
      word_sless_alt word_sle_eq enforceStaticPolicy_def fixtureAuthorizationPolicy_def)
qed

theorem classified_spend_sound_witness:
  "\<exists>r c k. TxOut pol_tx = [r, c, k] \<and> sint (out_value r) \<le> sint (RecipientCapSats fixtureAuthorizationPolicy) \<and>
     PkScript c = bt_PkScript pol_vault"
proof -
  obtain cl where cl: "classifySpend pol_lib pol_psbt_lib pol_guard (Some (pol_psbt [])) (Some pol_vault) = Inr cl"
    using pol_classified by blast
  have h: "lv_Routine (bt_Leaves pol_vault) = Some pol_leaf" "UnsignedTx (pol_psbt []) = Some pol_tx"
    "fixtureAuthorizationPolicy = tr_AuthorizationPolicy (bt_Record pol_vault)"
    "0 \<le> sint (FeerateCeilingSatPerV fixtureAuthorizationPolicy)" "sint (FeerateCeilingSatPerV fixtureAuthorizationPolicy) < 2 ^ 28"
    "0 \<le> SerializeSizeStripped pol_lib pol_tx" "SerializeSizeStripped pol_lib pol_tx < 2 ^ 31"
    "length (lf_Script pol_leaf) < 2 ^ 31" "length (lf_ControlBlock pol_leaf) < 2 ^ 31"
    by (simp_all add: pol_vault_def pol_psbt_def ex_record_def fixtureAuthorizationPolicy_def pol_leaf_def del: le_fixed.simps)
  show ?thesis using classified_spend_sound[OF cl h] by blast
qed

lemma pol_tweak:
  "ComputeArkadeScriptPublicKey pol_lib (ScalarBaseMult pol_lib 1) h = Inr (Some (6, 5))"
  "ComputeArkadeScriptPrivateKey pol_lib 1 h = Some 6"
proof -
  have "le_val (le_fixed 32 1) = 1" by simp
  then show "ComputeArkadeScriptPublicKey pol_lib (ScalarBaseMult pol_lib 1) h = Inr (Some (6, 5))"
    by (simp add: ComputeArkadeScriptPublicKey_def pol_lib_def isInfinity_def del: le_fixed.simps)
  show "ComputeArkadeScriptPrivateKey pol_lib 1 h = Some 6"
    by (simp add: ComputeArkadeScriptPrivateKey_def pol_lib_def PubKeyFormatCompressedOdd_def SECP_N_def del: le_fixed.simps)
qed

lemma pol_read:
  "ReadArkadeScript pol_lib [leaf_field pol_leaf] (ScalarBaseMult pol_lib 1) \<lparr>Vin = 0, ent_Script = pol_auth, ent_Witness = [pol_sig]\<rparr>
     = Inr (pol_script (ArkadeScriptHash pol_lib pol_auth) (6, 5) (NewBaseTapLeaf (lf_Script pol_leaf)) [(6, 0)])"
proof -
  have "le_val (le_fixed 32 6) = 6" by simp
  then have "DecodeClosure pol_lib (lf_Script pol_leaf) = Inr (MultisigClosure [(6, 0)])"
    by (simp add: pol_lib_def pol_leaf_def del: le_fixed.simps)
  then show ?thesis
    using pol_tweak(1) by (simp add: ReadArkadeScript_def leaf_field_def pol_script_def NewBaseTapLeaf_def Let_def del: le_fixed.simps)
qed

lemma pol_signs: "\<exists>q. LocalSigner_Sign pol_lib pol_psbt_lib (Some 1) (Some (pol_psbt [])) = Some (Inr q)"
proof -
  have f: "UnsignedTx (pol_psbt []) = Some pol_tx" "pk_Inputs (pol_psbt []) = [pol_input []]" "WitnessUtxo (pol_input []) = Some pol_prev"
    "SighashType (pol_input []) = SigHashDefault" "TaprootLeafScript (pol_input []) = leaf_field pol_leaf"
    by (simp_all add: pol_psbt_def pol_input_def SigHashDefault_def)
  let ?s = "pol_script (ArkadeScriptHash pol_lib pol_auth) (6, 5) (NewBaseTapLeaf (lf_Script pol_leaf)) [(6, 0)]"
  have l: "local_script pol_lib pol_psbt_lib 1 (pol_psbt []) pol_tx = Inr (?s, pol_prevtx)"
    using pol_packet_found pol_read pol_verified[of "[]"] f by (simp add: local_script_def pol_packet_def)
  obtain vm where x: "ArkadeScript_Execute pol_lib ?s (Some pol_tx) (Some pol_fetcher) 0 [] = Some (Inr vm)" using pol_executes by blast
  have c: "VerifyTaprootLeafCommitment pol_lib (PkScript pol_prev)
      \<lparr>ControlBlock = lf_ControlBlock pol_leaf, tls_Script = lf_Script pol_leaf, tls_LeafVersion = BaseLeafVersion\<rparr> = Inr ()"
    by (simp add: VerifyTaprootLeafCommitment_def pol_lib_def pol_prev_def pol_leaf_def BaseLeafVersion_def slice_def del: le_fixed.simps)
  have "\<exists>q. local_signature pol_lib pol_psbt_lib 1 (as_hash ?s) (pol_psbt []) pol_tx pol_prev
      \<lparr>ControlBlock = lf_ControlBlock pol_leaf, tls_Script = lf_Script pol_leaf, tls_LeafVersion = BaseLeafVersion\<rparr> pol_fetcher = Inr q"
    using c f pol_tweak(2) by (simp add: local_signature_def at_idx_def pol_psbt_lib_def ex_psbt_lib_def add_sig_def set_input0_def Let_def
        del: le_fixed.simps)
  then show ?thesis using pol_one_input[of "[]"] f l x
    by (auto simp: LocalSigner_Sign_def leaf_field_def pol_fetcher_def[symmetric])
qed

theorem local_signer_enforces_policy_witness:
  "\<exists>q r c k. LocalSigner_Sign pol_lib pol_psbt_lib (Some 1) (Some (pol_psbt [])) = Some (Inr q) \<and> TxOut pol_tx = [r, c, k] \<and>
     sint (out_value r) \<le> sint (RecipientCapSats fixtureAuthorizationPolicy)"
proof -
  obtain q where q: "LocalSigner_Sign pol_lib pol_psbt_lib (Some 1) (Some (pol_psbt [])) = Some (Inr q)" using pol_signs by blast
  have t: "UnsignedTx (pol_psbt []) = Some pol_tx" "FindEmulatorPacket pol_lib pol_tx = Inr (Some [\<lparr>Vin = 0, ent_Script = pol_auth, ent_Witness = [pol_sig]\<rparr>])"
    "AuthorizationScript pol_lib ex_vault pol_key fixtureAuthorizationPolicy = Inr (ent_Script \<lparr>Vin = 0, ent_Script = pol_auth, ent_Witness = [pol_sig]\<rparr>)"
    "Vin \<lparr>Vin = 0, ent_Script = pol_auth, ent_Witness = [pol_sig]\<rparr> = 0" "tx_ok pol_tx" "list_all (\<lambda>i. SignatureScript i = []) (TxIn pol_tx)"
    using pol_packet_found pol_authorized by (simp_all add: pol_psbt_def pol_packet_def tx_ok_def wit_ok_def pol_in_def)
  have w: "length pk \<le> 42" if "IsWitnessProgram pol_lib pk" for pk
    using that pol_not_witness[of pk] by (cases "42 < length pk") auto
  have r: "\<exists>r. b = OP_RETURN # r" if "ext_Serialize pol_lib e = Inr b" for e b
    using that by (auto simp: ex_ext_write_def ex_magic_def split: list.splits ext_packet.splits)
  have "\<exists>r c k. TxOut pol_tx = [r, c, k] \<and> sint (out_value r) \<le> sint (RecipientCapSats fixtureAuthorizationPolicy)"
    by (rule exE[OF local_signer_enforces_policy[OF q t pol_lib_ok ex_builder_ok]]) (erule w, erule r, blast)
  with q show ?thesis by blast
qed

end
