(* ===== verification/VaultServiceProps.thy ===== *)
theory VaultServiceProps
imports VaultService VaultSession VaultPublish VaultLedgerProps VaultGuardProps
begin

text \<open>Properties of the vault service: what every sequence of requests keeps, what has been verified
when a cosigner is called, and what a published transaction is.\<close>

subsection \<open>Sequences of requests\<close>

lemma try_step_cases:
  assumes "try_step m s k = (r, s')"
  obtains e where "m = Inl e" "r = Inl e" "s' = s" | a where "m = Inr a" "k a = (r, s')"
  using assms by (cases m) (auto simp: try_step_def)

text \<open>Publish and PublicationStatus only attach the integrity key (Publish_steps below).\<close>

inductive service_step :: "svc_lib \<Rightarrow> service \<Rightarrow> service \<Rightarrow> bool" for X where
  registered: "RegisterWithBootstrap X E req b s = (r, s') \<Longrightarrow> service_step X s s'"
| tenant: "CreateTenantVault X E v h req s = (r, s') \<Longrightarrow> service_step X s s'"
| loaded: "LoadVaults X s = (r, s') \<Longrightarrow> service_step X s s'"
| drafted: "Draft X E d s = (q, s') \<Longrightarrow> service_step X s s'"
| signed_off: "Bind X E bd s = (q, s') \<Longrightarrow> service_step X s s'"
| preflighted: "Preflight X E p s = (q, s') \<Longrightarrow> service_step X s s'"
| authorized: "Authorize X E az s = (rb, s', calls) \<Longrightarrow> service_step X s s'"
| installed: "InstallCredentialEnvelope X E U ir s cs = (r, s', cs') \<Longrightarrow> service_step X s s'"
| reported: "Status X E s = (st, s') \<Longrightarrow> service_step X s s'"
| published: "attachLedgerIntegrity X s = Inr s' \<Longrightarrow> service_step X s s'"

abbreviation service_steps :: "svc_lib \<Rightarrow> service \<Rightarrow> service \<Rightarrow> bool" where
  "service_steps X \<equiv> (service_step X)\<^sup>*\<^sup>*"

text \<open>The allowance as a bound for every vault.\<close>

definition allowance :: "string \<Rightarrow> int" where "allowance v = 100000"

text \<open>What one request may change: the store by the steps of the store, the ledger by the steps of the
ledger, and no slot stays used.\<close>

definition advances :: "service \<Rightarrow> service \<Rightarrow> bool" where
  "advances s s' \<longleftrightarrow> store_steps (svc_db s) (svc_db s') \<and> issuance_steps allowance (svc_rows s) (svc_rows s') \<and>
     slots_used s' = slots_used s"

lemma advances_refl [simp, intro]: "advances s s"
  by (simp add: advances_def)

lemma advances_trans: "advances s s' \<Longrightarrow> advances s' s'' \<Longrightarrow> advances s s''"
  by (auto simp: advances_def)

lemma advances_key: "attachLedgerIntegrity X s = Inr s' \<Longrightarrow> advances s s'"
  by (auto simp: attachLedgerIntegrity_def SetIntegrityKey_def advances_def bindE_Inr_iff split: if_splits)

lemma advances_publishAt [simp]: "advances s (publishEnrollmentAt v c p op sv s)"
  by (simp add: publishEnrollmentAt_def advances_def Let_def)

lemma advances_clear [simp]: "advances s (clearEnrollmentTokenHash s)"
  by (simp add: clearEnrollmentTokenHash_def advances_def)

lemma advances_db: "store_steps (svc_db s) d \<Longrightarrow> advances s (s\<lparr>svc_db := d\<rparr>)"
  by (simp add: advances_def)

lemma advances_stored:
  assumes "publishStoredEnrollment X c startup s = Inr s'"
  shows "advances s s'"
proof -
  define s1 where "s1 r = (if startup
      then s\<lparr>svc_ExternalOwnerWallet := Some (rb_externalOwner r), svc_RecoveryKey := Some (rb_recovery r),
             VaultCosignerPub := Some (rb_vaultBase r), ArkadeCosignerPub := Some (rb_arkadeBase r)\<rparr> else s)" for r :: rebuilt
  obtain r where r: "rebuildFromCredential X s c = Inr r"
    using assms unfolding publishStoredEnrollment_def by (elim bindE_InrE)
  then have s': "s' = publishEnrollmentAt (cr_VaultID c) (cr_ID c) (Some (rb_phoneRoutine r)) (Some (rb_op r))
      (Some (rb_sv r)) (s1 r)"
    using assms by (simp add: publishStoredEnrollment_def s1_def)
  have "advances s (s1 r)" unfolding s1_def by (simp add: advances_def)
  then show ?thesis unfolding s' by (rule advances_trans) (rule advances_publishAt)
qed

lemma advances_accept: "acceptPersistedEnrollment X c p s = Inr s' \<Longrightarrow> advances s s'"
  by (auto simp: acceptPersistedEnrollment_def split: if_splits dest: advances_stored)

lemma Enroll_steps: "Enroll W H q key c db = (r, db') \<Longrightarrow> store_steps db db'"
  unfolding Enroll_def by (rule EnrollWithEnvelope_steps)

lemma advances_try:
  assumes "try_step m s0 k = (r, s')" "advances s s0" "\<And>a. m = Inr a \<Longrightarrow> k a = (r, s') \<Longrightarrow> advances s s'"
  shows "advances s s'"
  using assms(1) by (cases rule: try_step_cases) (use assms(2,3) in auto)

lemma advances_final:
  assumes "advances s (s'\<lparr>svc_db := d\<rparr>)"
  shows "advances s (clearEnrollmentTokenHash (publishEnrollmentAt v c p op sv (s'\<lparr>svc_db := d\<rparr>)))"
  by (rule advances_trans[OF advances_trans[OF assms advances_publishAt] advances_clear])

lemma advances_existing:
  assumes "try_step (acceptPersistedEnrollment X c p s) s (\<lambda>s. (Inr (), clearEnrollmentTokenHash s)) = (r, s')"
  shows "advances s s'"
  using assms by (rule advances_try) (auto dest!: advances_accept intro: advances_trans)

lemma register_new_enrolls:
  assumes "(case Enroll W H q key d (svc_db s) of
        (Inr _, db) \<Rightarrow> (Inr (), clearEnrollmentTokenHash (publishEnrollmentAt v c k op sv (s\<lparr>svc_db := db\<rparr>)))
      | (Inl e, db) \<Rightarrow>
          let s = s\<lparr>svc_db := db\<rparr> in
          (case loadVerifiedCredential X s of
             Inl _ \<Rightarrow> (Inl e, s)
           | Inr None \<Rightarrow> (Inl e, s)
           | Inr (Some existing) \<Rightarrow>
               try_step (acceptPersistedEnrollment X existing p s) s (\<lambda>s. (Inr (), clearEnrollmentTokenHash s)))) = (r, s')"
  shows "advances s s'"
proof -
  obtain x db where e: "Enroll W H q key d (svc_db s) = (x, db)" by fastforce
  have db: "advances s (s\<lparr>svc_db := db\<rparr>)" by (rule advances_db[OF Enroll_steps[OF e]])
  show ?thesis
    using assms advances_final[OF db] db
    by (cases x) (auto simp: e Let_def split: sum.splits option.splits intro: advances_trans advances_existing)
qed

lemma register_advances:
  assumes "RegisterWithBootstrap X E req b s = (r, s')"
  shows "advances s s'"
proof -
  have existing: "advances s1 s2" if "register_existing X req c s1 = (r1, s2)" for c s1 s2 r1
    using that unfolding register_existing_def by (rule advances_try) (auto intro: advances_existing)
  have new: "advances s1 s2" if "register_new X E req b s1 = (r1, s2)" for s1 s2 r1
    using that unfolding register_new_def
    apply (rule advances_try, simp)
    apply (erule advances_try, simp)
    apply (erule advances_try, simp)
    apply (simp only: case_prod_beta)
    apply (erule advances_try, simp)
    apply (erule advances_try, simp)
    apply (erule register_new_enrolls[unfolded case_prod_beta])
    done
  show ?thesis
    using assms unfolding RegisterWithBootstrap_def
    apply (rule advances_try, simp)
    apply (erule advances_try, erule advances_key)
    apply (erule advances_try, erule advances_key)
    apply (auto dest!: advances_key existing new split: option.splits intro: advances_trans)
    done
qed

lemma tenant_advances:
  assumes "CreateTenantVault X E v h req s = (r, s')"
  shows "advances s s'"
proof -
  have fin: "advances s s2" if run: "(case CreateVault (se_schema E) (se_end E) (se_clock E) i (svc_db s) of
        (Inl e, db) \<Rightarrow> (Inl e, s\<lparr>svc_db := db\<rparr>)
      | (Inr _, db) \<Rightarrow> (Inr (), publishEnrollmentAt v c k op sv (s\<lparr>svc_db := db\<rparr>))) = (r2, s2)" for i c k op sv r2 s2
  proof -
    obtain x db where e: "CreateVault (se_schema E) (se_end E) (se_clock E) i (svc_db s) = (x, db)" by fastforce
    have "advances s (s\<lparr>svc_db := db\<rparr>)" by (rule advances_db[OF CreateVault_steps[OF e]])
    then show ?thesis using run e by (cases x) (auto intro: advances_trans[OF _ advances_publishAt])
  qed
  show ?thesis
    using assms unfolding CreateTenantVault_def Let_def case_prod_beta
    apply (rule advances_try, simp)
    apply (simp split: if_splits)
    apply (erule advances_try, simp)
    apply (erule advances_try, simp)
    apply (erule advances_try, simp)
    apply (erule advances_try, simp)
    apply (erule advances_try, simp)
    apply (erule advances_try, simp)
    apply (erule advances_try, simp)
    apply (erule fin[unfolded case_prod_beta])
    done
qed

lemma load_vaults_advances: "load_vaults X key ids s = (r, s') \<Longrightarrow> advances s s'"
proof (induction ids arbitrary: s)
  case (Cons a ids)
  from Cons.prems show ?case
    unfolding load_vaults.simps
  proof (rule advances_try)
    fix loaded assume "(case loaded of Some (rec, Some vcred) \<Rightarrow>
         try_step (publishStoredEnrollment X (toCredential rec vcred) (a = fixture_VaultID) s) s (\<lambda>s. load_vaults X key ids s)
     | _ \<Rightarrow> (go_err ''vault missing credential'', s)) = (r, s')"
    then show "advances s s'"
      by (auto split: option.splits elim!: try_step_cases dest!: advances_stored Cons.IH intro: advances_trans)
  qed simp
qed simp

lemma load_advances:
  assumes "LoadVaults X s = (r, s')"
  shows "advances s s'"
  using assms unfolding LoadVaults_def Let_def
  apply (rule advances_try, simp)
  apply (erule advances_try, erule advances_key)
  apply (auto split: if_splits option.splits elim!: try_step_cases
      dest!: advances_stored load_vaults_advances advances_key intro: advances_trans)
  done

lemma slot_advances:
  assumes "with_slot E s k = (r, s')"
  shows "advances s s'"
  using assms by (auto simp: with_slot_def advances_def release_slot_def acquireVerification_def elim!: try_step_cases split: if_splits)

lemma authorize_advances:
  assumes "Authorize X E req s = (r, s', calls)"
  shows "advances s s'"
proof -
  have issue: "advances s1 s2" if run: "issue_authorized X E op ptx cl ch s1 = (r1, s2, calls)" for op ptx cl ch s1 s2 r1
  proof -
    have "s2 = s1 \<or> (\<exists>v d q a f vs as rs rows'. s2 = s1\<lparr>svc_rows := rows'\<rparr> \<and>
        IssueSequential (se_issue E) v d q a f PeriodAllowanceSats vs as (svc_rows s1) = (rs, rows', calls))"
      using run unfolding issue_authorized_def by (auto split: sum.splits option.splits prod.splits)
    moreover have "sint PeriodAllowanceSats \<le> allowance v" for v by (simp add: PeriodAllowanceSats_def allowance_def)
    ultimately show ?thesis
      using IssueSequential_steps[where C = allowance] by (auto simp: advances_def)
  qed
  obtain s1 where k: "attachLedgerIntegrity X s = Inr s1 \<or> s' = s" "attachLedgerIntegrity X s = Inr s1 \<Longrightarrow> advances s1 s'"
  proof (cases "attachLedgerIntegrity X s")
    case (Inr s1)
    have "advances s1 s'"
    proof (cases "sn_Operational (enrolled s1)")
      case (Some op)
      obtain x s2 where v: "verifyAuthorizeRequest X E req op s1 = (x, s2)" by fastforce
      have "advances s1 s2" by (rule slot_advances[OF v[unfolded verifyAuthorizeRequest_def]])
      then show ?thesis
        using assms Inr Some v by (cases x) (auto simp: Authorize_def dest!: issue intro: advances_trans)
    qed (use assms Inr in \<open>simp add: Authorize_def\<close>)
    then show thesis using that Inr by blast
  qed (use assms that in \<open>simp add: Authorize_def\<close>)
  then show ?thesis using advances_key by (auto intro: advances_trans)
qed

lemma install_advances:
  assumes "InstallCredentialEnvelope X E U req s cs = (r, s', cs')"
  shows "advances s s'"
  using assms unfolding InstallCredentialEnvelope_def
  by (auto split: prod.splits sum.splits intro: advances_db StoreEnvelope_steps)

lemma step_advances_service: "service_step X s s' \<Longrightarrow> advances s s'"
proof (induction rule: service_step.induct)
  case (reported E s st s')
  then show ?case unfolding Status_def by (auto elim!: try_step_cases dest: advances_key)
qed (auto simp: Draft_def Bind_def Preflight_def split: option.splits dest: register_advances tenant_advances load_advances
    slot_advances authorize_advances install_advances advances_key)

lemma steps_advance_service: "service_steps X s s' \<Longrightarrow> advances s s'"
  by (induction rule: rtranclp_induct) (auto intro: advances_trans dest: step_advances_service)

subsection \<open>Properties\<close>

text \<open>C3: The service over any sequence of its requests - enrollments, tenant vaults, reloads, drafts,
binds, authorizations, recovery envelopes, reports and publications, with any inputs, clocks, signers
and database failures - from an empty ledger and a store its operations can reach: the outflow recorded for a vault in a period never
exceeds 100000 satoshis and the sum the code computes is exact, each vault has exactly one passkey and
each tenant vault its own consumed invite; what was stored stays, so the first enrolled credential and
recovery envelope are never replaced; issued rows only advance; and every verification slot is given
back.\<close>

theorem service_keeps_limits:
  assumes "service_steps X s0 s" "service_steps X s s'" "store_steps empty_db (svc_db s0)" "svc_rows s0 = []"
  shows "0 \<le> outflow v p (svc_rows s) \<and> outflow v p (svc_rows s) \<le> 100000 \<and>
    (\<exists>n. SpentInPeriod v p (svc_rows s) = Inr n \<and> sint n = outflow v p (svc_rows s)) \<and>
    distinct (map vr_VaultID (db_vaults (svc_db s))) \<and>
    map vc_VaultID (db_passkeys (svc_db s)) = map vr_VaultID (db_vaults (svc_db s)) \<and>
    distinct (consumed_ids (svc_db s)) \<and>
    set (consumed_ids (svc_db s)) = vr_VaultID ` set (db_vaults (svc_db s)) - {LegacyFirstVaultID} \<and>
    store_extends (svc_db s) (svc_db s') \<and> rows_advance (svc_rows s) (svc_rows s') \<and> slots_used s' = slots_used s0"
proof -
  note a = steps_advance_service[OF assms(1), unfolded advances_def] steps_advance_service[OF assms(2), unfolded advances_def]
  have rows: "ledger_ok allowance (svc_rows s)"
    using a(1) steps_ok ledger_ok_Nil assms(4) by fastforce
  then have "0 \<le> outflow v p (svc_rows s)" "outflow v p (svc_rows s) \<le> 100000"
    by (auto simp: ledger_ok_def row_ok_outflow_nonneg allowance_def dest: spec[of _ v])
  moreover have "\<exists>n. SpentInPeriod v p (svc_rows s) = Inr n \<and> sint n = outflow v p (svc_rows s)"
    using calculation by (auto simp: SpentInPeriod_def Let_def int64_of_int)
  moreover have "store_ok (svc_db s)" using a(1) steps_keep[OF _ store_ok_empty, of "svc_db s"] assms(3) by (auto intro: rtranclp_trans)
  ultimately show ?thesis
    using a steps_extend[of "svc_db s" "svc_db s'"] steps_advance[of allowance "svc_rows s" "svc_rows s'"]
    by (auto simp: store_ok_def vault_ids_def)
qed

subsection \<open>Who approved a spend\<close>

lemma Publish_steps:
  assumes "Publish X E Ser node ch s n = (r, s', n', sent)"
  shows "service_steps X s s'"
proof -
  have "s' = s \<or> attachLedgerIntegrity X s = Inr s'"
    using assms unfolding Publish_def by (auto split: sum.splits prod.splits)
  then show ?thesis by (auto intro: service_step.published)
qed

text \<open>The stored passkey approves a challenge: its assertion names the credential, was made on the
stored origin for the stored relying party with user verification, and its signature verifies under
the stored key.\<close>

definition passkey_approves :: "wa_lib \<Rightarrow> credential \<Rightarrow> bytes \<Rightarrow> assertion \<Rightarrow> bool" where
  "passkey_approves W cred ch a \<longleftrightarrow> as_CredentialID a = cr_ID cred \<and> length ch = 32 \<and>
     (\<exists>cd. wa_client_data W (ClientDataJSON a) = Some cd \<and> cd_Type cd = ''webauthn.get'' \<and> cd_Origin cd = cr_Origin cred \<and>
        cd_CrossOrigin cd = Some False \<and> decodeChallenge (cd_Challenge cd) = Inr ch) \<and>
     take 32 (AuthenticatorData a) = wa_SHA256 W (go_bytes (cr_RPID cred)) \<and>
     AuthenticatorData a ! 32 AND flagUP \<noteq> 0 \<and> AuthenticatorData a ! 32 AND flagUV \<noteq> 0 \<and>
     (\<exists>q r s. wa_UnmarshalCompressed W (cr_WebAuthnP256 cred) = Some q \<and> asn1_signature (DERSignature a) = Some ((int r, int s), []) \<and>
        wa_ecdsa_Verify W q (wa_SHA256 W (AuthenticatorData a @ wa_SHA256 W (ClientDataJSON a))) r (low_s s))"

text \<open>A key signs a digest by a 64-byte low-S signature.\<close>

definition direct_approves :: "wa_lib \<Rightarrow> bytes \<Rightarrow> bytes \<Rightarrow> bytes \<Rightarrow> bool" where
  "direct_approves W key digest sig \<longleftrightarrow> length digest = 32 \<and> length sig = 64 \<and>
     (\<exists>q r s. wa_UnmarshalCompressed W key = Some q \<and> compact_scalars sig = Inr (r, s) \<and> s \<le> p256_N div 2 \<and>
        wa_ecdsa_Verify W q digest r s)"

text \<open>The phone's is the only taproot signature of the packet, over the digest of its transaction and
the routine leaf.\<close>

definition phone_approves :: "lib \<Rightarrow> psbt_lib \<Rightarrow> psbt \<Rightarrow> built \<Rightarrow> bool" where
  "phone_approves L B ptx op \<longleftrightarrow>
     (\<exists>routine phone inp prev s t digest. lv_Routine (bt_Leaves op) = Some routine \<and>
        PhoneRoutineBIP340 (bt_Record op) = Some phone \<and> take 1 (pk_Inputs ptx) = [inp] \<and> WitnessUtxo inp = Some prev \<and>
        TaprootScriptSpendSig inp = [Some s] \<and> ss_XOnlyPubKey s = schnorr_SerializePubKey L phone \<and>
        ss_LeafHash s = leaf_Hash routine \<and> ss_SigHash s = SigHashDefault \<and> length (ss_Signature s) = 64 \<and>
        UnsignedTx ptx = Some t \<and> tapscript_digest L B t prev (NewBaseTapLeaf (lf_Script routine)) = Inr digest \<and>
        schnorr_check L digest (ss_Signature s) (schnorr_SerializePubKey L phone) = Inr ())"

lemma passkey_approvesI:
  assumes "Validate_assertion W a (expected_for cred ch) = Inr v"
  shows "passkey_approves W cred ch a"
proof -
  note run = assms[unfolded Validate_assertion_def expected_for_def, simplified]
  obtain cd where cd: "wa_client_data W (ClientDataJSON a) = Some cd"
    using run by (auto split: if_splits option.splits)
  obtain compact pub where c: "CompactLowS (DERSignature a) = Inr compact"
    and p: "ParseCompressedP256 W (cr_WebAuthnP256 cred) = Inr pub"
    and v: "VerifyES256 W (Some pub) (AuthenticatorData a) (ClientDataJSON a) compact = Inr ()"
    using run cd by (auto simp: Let_def split: if_splits elim!: bindE_InrE)
  obtain r s where rs: "asn1_signature (DERSignature a) = Some ((int r, int s), [])" "compact_scalars compact = Inr (r, low_s s)"
    using c by (auto simp: CompactLowS_iff)
  have q: "wa_UnmarshalCompressed W (cr_WebAuthnP256 cred) = Some pub"
    using p by (auto simp: ParseCompressedP256_def split: if_splits option.splits)
  have "wa_ecdsa_Verify W pub (wa_SHA256 W (AuthenticatorData a @ wa_SHA256 W (ClientDataJSON a))) r (low_s s)"
    using v rs(2) by (auto simp: VerifyES256_def Digest_def SignedMessage_def split: if_splits)
  moreover have "as_CredentialID a = cr_ID cred" "cd_Type cd = ''webauthn.get''" "cd_Origin cd = cr_Origin cred"
    "cd_CrossOrigin cd = Some False" "decodeChallenge (cd_Challenge cd) = Inr ch"
    "length ch = 32" "take 32 (AuthenticatorData a) = wa_SHA256 W (go_bytes (cr_RPID cred))"
    "AuthenticatorData a ! 32 AND flagUP \<noteq> 0" "AuthenticatorData a ! 32 AND flagUV \<noteq> 0"
    using run cd by (auto simp: Let_def split: if_splits elim!: bindE_InrE)
  ultimately show ?thesis using cd rs(1) q by (auto simp: passkey_approves_def)
qed

lemma compact_scalars_low: "compact_scalars sig = Inr (r, s) \<Longrightarrow> length sig = 64 \<and> s \<le> p256_N div 2"
  by (auto simp: compact_scalars_def Let_def split: if_splits)

lemma direct_approvesI:
  assumes "verifyDirectAuth W key digest sig = Inr ()"
  shows "direct_approves W key digest sig"
  using assms compact_scalars_low[of sig]
  by (auto simp: verifyDirectAuth_def VerifyDigestLowS_def ParseCompressedP256_def direct_approves_def bindE_Inr_iff
      split: if_splits option.splits)

lemma phone_approvesI:
  assumes "verifyPhoneRoutineSignature L B ptx (Some op) = Inr ()"
  shows "phone_approves L B ptx op"
proof -
  obtain routine phone where r: "lv_Routine (bt_Leaves op) = Some routine" "PhoneRoutineBIP340 (bt_Record op) = Some phone"
    using assms by (auto simp: verifyPhoneRoutineSignature_def split: option.splits)
  obtain inp where i: "at_idx (pk_Inputs ptx) 0 = Inr inp"
    using assms r by (auto simp: verifyPhoneRoutineSignature_def elim!: bindE_InrE)
  obtain prev where p: "WitnessUtxo inp = Some prev"
    using assms r i by (auto simp: verifyPhoneRoutineSignature_def split: option.splits)
  obtain s where s: "TaprootScriptSpendSig inp = [Some s]"
    using assms r i p by (auto simp: verifyPhoneRoutineSignature_def Let_def split: option.splits list.splits)
  have t1: "take 1 (pk_Inputs ptx) = [inp]"
    using i by (cases "pk_Inputs ptx") (auto simp: at_idx_def split: if_splits)
  show ?thesis
    using assms r i p s t1
    by (auto simp: verifyPhoneRoutineSignature_def Let_def phone_approves_def split: if_splits option.splits elim!: bindE_InrE)
qed

text \<open>What the authorization of a request has verified.\<close>

definition approved :: "svc_lib \<Rightarrow> service \<Rightarrow> authorizeRequest \<Rightarrow> psbt \<Rightarrow> built \<Rightarrow> bytes \<Rightarrow> bool" where
  "approved X s req ptx op ch \<longleftrightarrow>
     (\<exists>key cred a t e w. credentialIntegrityKey X s = Inr key \<and> GetCredential (svc_db s) = Some cred \<and>
        VerifyCredentialIntegrity (sl_H X) (Some cred) key = Inr () \<and> decodeAssertion req = Inr a \<and>
        \<not> ContainsPRFField (sl_W X) (ClientDataJSON a) \<and> Challenge (sl_L X) ptx (Some op) = Inr ch \<and>
        passkey_approves (sl_W X) cred ch a \<and>
        UnsignedTx ptx = Some t \<and> FindEmulatorPacket (sl_L X) t = Inr (Some [e]) \<and> ent_Witness e = [w] \<and>
        direct_approves (sl_W X) (cr_PhoneDirectP256 cred) ch w \<and> phone_approves (sl_L X) (sl_B X) ptx op)"

lemma one_witness_Inr:
  assumes "one_witness X ptx = Inr w"
  obtains t e where "UnsignedTx ptx = Some t" "FindEmulatorPacket (sl_L X) t = Inr (Some [e])" "ent_Witness e = [w]"
proof -
  obtain t where t: "UnsignedTx ptx = Some t"
    using assms by (cases "UnsignedTx ptx") (simp_all add: one_witness_def)
  obtain pk where pk: "FindEmulatorPacket (sl_L X) t = Inr pk"
    using assms t by (auto simp: one_witness_def elim!: bindE_InrE)
  obtain e where e: "pk = Some [e]"
    using assms t pk by (auto simp: one_witness_def split: option.splits list.splits)
  have "ent_Witness e = [w]"
    using assms t pk e by (auto simp: one_witness_def split: list.splits if_splits)
  with t pk e show thesis by (auto intro: that)
qed

lemma required_credential_Inr:
  "required_credential X s = Inr cred \<longleftrightarrow> (\<exists>key. credentialIntegrityKey X s = Inr key \<and> GetCredential (svc_db s) = Some cred \<and>
     VerifyCredentialIntegrity (sl_H X) (Some cred) key = Inr ())"
  by (auto simp: required_credential_def loadVerifiedCredential_def bindE_Inr_iff split: option.splits)

lemma verifyAuthorization_approved:
  assumes "verifyAuthorization X s req ptx op = Inr ch"
  shows "approved X s req ptx op ch"
proof -
  obtain a cred v w where run: "decodeAssertion req = Inr a" "rejectPRF (sl_W X) (ClientDataJSON a) = Inr ()"
    "required_credential X s = Inr cred" "Challenge (sl_L X) ptx (Some op) = Inr ch"
    "Validate_assertion (sl_W X) a (expected_for cred ch) = Inr v" "one_witness X ptx = Inr w"
    "verifyDirectAuth (sl_W X) (cr_PhoneDirectP256 cred) ch w = Inr ()"
    "verifyPhoneRoutineSignature (sl_L X) (sl_B X) ptx (Some op) = Inr ()"
    using assms unfolding verifyAuthorization_def by (elim bindE_InrE) (auto simp: bindE_Inr_iff)
  obtain t e where "UnsignedTx ptx = Some t" "FindEmulatorPacket (sl_L X) t = Inr (Some [e])" "ent_Witness e = [w]"
    using run(6) by (rule one_witness_Inr)
  then show ?thesis
    using run passkey_approvesI[OF run(5)] direct_approvesI[OF run(7)] phone_approvesI[OF run(8)]
    unfolding approved_def required_credential_Inr by (auto simp: rejectPRF_def split: if_splits)
qed

text \<open>The row a request leaves, whatever its cosigners do.\<close>

lemma issueSequential_row:
  assumes "ledger_ok C rows" "sint cap \<le> C v"
    and run: "issueSequential env v d req rec fee cap resume vs as rows = (res, rows', calls)"
    and some: "calls \<noteq> [] \<or> res = Inr x"
  obtains r where "find_issuance v d rows' = Some r" "bound_row req rec fee r"
    "\<And>c. c \<in> set calls \<Longrightarrow> c = VaultCall req \<or> (\<exists>q. vault_psbt r = Some q \<and> c = ArkadeCall q)"
proof (cases "calls = []")
  case True
  then obtain stage rows1 where com: "commitReservation (reserve_end env) (env_period env) (env_now env) v d req rec fee cap rows = (Inr stage, rows1)"
    and "rows' = rows1"
    using run some by (auto simp: issueSequential_def private_stage_def public_stage_def split: if_splits prod.splits sum.splits)
  then show ?thesis using commitReservation_row[OF com] that True by auto
next
  case False
  obtain stage r rows1 where r: "ledger_ok C rows1" "find_issuance v d rows1 = Some r" "bound_row req rec fee r"
    and st: "iss_state r = stateReserved \<and> private_stage env v d req vs as rows1 = (res, rows', calls) \<or>
     iss_state r = stateVaultSigned \<and> (\<exists>q. vault_psbt r = Some q \<and> public_stage env v d q as rows1 = (res, rows', calls))"
    by (rule issueSequential_calls[where C = C, OF assms(1,2) run False])
  from st have steps: "issuance_steps C rows1 rows'"
    using private_stage_steps[where C = C] public_stage_steps[where C = C] by auto
  have "distinct (map issuance_key rows')" using steps_ok[OF steps r(1)] by (simp add: ledger_ok_def)
  then obtain r' where r': "find_issuance v d rows' = Some r'" "row_advances r r'"
    by (rule find_issuance_advance[OF steps_advance[OF steps] r(2)])
  have "c = VaultCall req \<or> (\<exists>q. vault_psbt r' = Some q \<and> c = ArkadeCall q)" if "c \<in> set calls" for c
    using st
  proof (elim disjE conjE exE)
    assume p: "private_stage env v d req vs as rows1 = (res, rows', calls)"
    show ?thesis using private_stage_calls[OF r p] that r'(1) by (cases c) auto
  next
    fix q assume p: "vault_psbt r = Some q" "public_stage env v d q as rows1 = (res, rows', calls)"
    show ?thesis using public_stage_calls[OF r(1,2) p(1) r(3) p(2)] that r'(1) by auto
  qed
  then show ?thesis using that[OF r'(1) bound_row_advance[OF r'(2) r(3)]] by blast
qed

lemma attach_keeps:
  assumes "attachLedgerIntegrity X s = Inr s1"
  shows "enrolled s1 = enrolled s" "svc_db s1 = svc_db s" "svc_rows s1 = svc_rows s"
    "credentialIntegrityKey X s1 = credentialIntegrityKey X s"
  using assms
  by (auto simp: attachLedgerIntegrity_def SetIntegrityKey_def bindE_Inr_iff enrolled_def snapshot_def
      credentialIntegrityKey_def runtimeConfig_def split: if_splits)

lemma acquire_keeps:
  assumes "acquireVerification E s = Inr s1"
  shows "enrolled s1 = enrolled s" "svc_db s1 = svc_db s" "svc_rows s1 = svc_rows s"
    "credentialIntegrityKey X s1 = credentialIntegrityKey X s"
  using assms
  by (auto simp: acquireVerification_def enrolled_def snapshot_def credentialIntegrityKey_def runtimeConfig_def split: if_splits)

lemma approved_cong:
  "svc_db s1 = svc_db s \<Longrightarrow> credentialIntegrityKey X s1 = credentialIntegrityKey X s \<Longrightarrow>
   approved X s1 req ptx op ch = approved X s req ptx op ch"
  by (simp add: approved_def)

lemma issue_authorized_row:
  assumes run: "issue_authorized X E op ptx cl ch s = (r, s', calls)" and ok: "ledger_ok allowance (svc_rows s)"
    and some: "calls \<noteq> [] \<or> r = Inr x"
  obtains rcp row where "cl_Recipient cl = Some rcp" "find_issuance fixture_VaultID ch (svc_rows s') = Some row"
    "B64Encode (sl_G X) ptx = Inr (request_psbt row)" "recipient_amount row = out_value rcp" "iss_fee row = cl_Fee cl"
    "\<And>c. c \<in> set calls \<Longrightarrow> c = VaultCall (request_psbt row) \<or> (\<exists>q. vault_psbt row = Some q \<and> c = ArkadeCall q)"
proof -
  obtain q where q: "B64Encode (sl_G X) ptx = Inr q"
    using run some by (cases "B64Encode (sl_G X) ptx") (auto simp: issue_authorized_def)
  obtain vs as vk ak rcp where k: "VaultSigner s = Some vs" "ArkadeCosignerSigner s = Some as"
      "TweakedVaultCosigner op = Some vk" "TweakedArkadeCosigner op = Some ak" "cl_Recipient cl = Some rcp"
    using run some q by (auto simp: issue_authorized_def split: option.splits)
  have iss: "issueSequential (se_issue E) fixture_VaultID ch q (out_value rcp) (cl_Fee cl) PeriodAllowanceSats True
        (vault_stage X E vs vk) (arkade_stage X E op as vk ak) (svc_rows s) = (r, svc_rows s', calls)"
    using run q k by (auto simp: issue_authorized_def IssueSequential_def split: prod.splits)
  have "sint PeriodAllowanceSats \<le> allowance fixture_VaultID" by (simp add: PeriodAllowanceSats_def allowance_def)
  then obtain row where "find_issuance fixture_VaultID ch (svc_rows s') = Some row"
      "bound_row q (out_value rcp) (cl_Fee cl) row"
      "\<And>c. c \<in> set calls \<Longrightarrow> c = VaultCall q \<or> (\<exists>q. vault_psbt row = Some q \<and> c = ArkadeCall q)"
    using issueSequential_row[where C = allowance, OF ok _ iss some] by metis
  then show thesis using q k that by (auto simp: bound_row_def)
qed

text \<open>C2: No cosigner is ever called and no signed transaction is ever returned without the user's
three approvals of this very spend.  In any reachable state, when Authorize calls a cosigner or
succeeds, a vault is enrolled, the submitted packet parses with a verified previous output and is
classified as a spend of that vault within its policy, and over the challenge of this packet: the
authentic stored passkey made a user-verified assertion, the direct key signed the one witness item of
the packet, and the phone's is the one valid taproot signature; the packet, its recipient amount and
its fee are recorded under the challenge, against the allowance; and the cosigners are called with
nothing but that packet and its stored vault-signed stage.\<close>

theorem authorize_needs_three_approvals:
  assumes "service_steps X s0 s" "svc_rows s0 = []" "Authorize X E req s = (r, s', calls)"
    and "calls \<noteq> [] \<or> r = Inr x"
  shows "\<exists>op ptx prev cl rcp ch row. sn_Operational (enrolled s) = Some op \<and>
    NewFromRawBytes (sl_G X) (az_PSBT req) = Inr ptx \<and> RequireVerifiedPrevout (sl_L X) (sl_B X) (Some ptx) = Inr prev \<and>
    classifySpend (sl_L X) (sl_B X) (sl_G X) (Some ptx) (Some op) = Inr cl \<and> cl_Recipient cl = Some rcp \<and>
    approved X s req ptx op ch \<and> find_issuance fixture_VaultID ch (svc_rows s') = Some row \<and>
    B64Encode (sl_G X) ptx = Inr (request_psbt row) \<and> recipient_amount row = out_value rcp \<and> iss_fee row = cl_Fee cl \<and>
    set calls \<subseteq> {VaultCall (request_psbt row)} \<union> {ArkadeCall q |q. vault_psbt row = Some q}"
proof -
  obtain s1 where s1: "attachLedgerIntegrity X s = Inr s1"
    using assms(3,4) by (auto simp: Authorize_def split: sum.splits)
  obtain op where op: "sn_Operational (enrolled s1) = Some op"
    using assms(3,4) s1 by (auto simp: Authorize_def split: option.splits)
  obtain ptx cl ch s2 where v: "verifyAuthorizeRequest X E req op s1 = (Inr (ptx, cl, ch), s2)"
    and i: "issue_authorized X E op ptx cl ch s2 = (r, s', calls)"
    using assms(3,4) s1 op by (auto simp: Authorize_def split: prod.splits sum.splits)
  obtain s3 where s3: "acquireVerification E s1 = Inr s3" "s2 = release_slot s3"
    and p: "classified_packet X (az_PSBT req) op = Inr (ptx, cl)" "verifyAuthorization X s3 req ptx op = Inr ch"
    using v unfolding verifyAuthorizeRequest_def with_slot_def by (elim try_step_cases) (auto simp: bindE_Inr_iff)
  note keep = attach_keeps[OF s1] acquire_keeps(2,3)[OF s3(1)] acquire_keeps(4)[OF s3(1), of X]
  have "ledger_ok allowance (svc_rows s)"
    using steps_advance_service[OF assms(1)] steps_ok[of allowance "[]"] ledger_ok_Nil assms(2) by (auto simp: advances_def)
  then have ok: "ledger_ok allowance (svc_rows s2)" using keep s3(2) by (simp add: release_slot_def)
  have ap: "approved X s req ptx op ch"
    using verifyAuthorization_approved[OF p(2)] approved_cong keep by metis
  show ?thesis
    by (rule issue_authorized_row[OF i ok assms(4)])
      (use p(1) op keep(1) ap in \<open>fastforce simp: classified_packet_def parseAndVerifyPrevout_def bindE_Inr_iff\<close>)
qed

subsection \<open>A concrete service\<close>

lemma decodeHex_encode: "b \<noteq> [] \<Longrightarrow> decodeHex (hex_EncodeToString b) = Inr b"
proof -
  assume "b \<noteq> []"
  then have "hex_EncodeToString b \<noteq> ''''" by (cases b) (simp_all add: hex_EncodeToString_def)
  then show ?thesis by (simp add: decodeHex_def hex_decode_encode)
qed

text \<open>A vault with the keys 10, 41 and 51, its spend of pol_tx signed by some of them.\<close>

definition svc_leaf :: leaf where
  "svc_leaf = (ex_leaf_of ''routine'' [(10, 0), (41, 0), (51, 0)])
     \<lparr>leaf_Hash := ex_digest 32 0xc0 (concat (map (le_fixed 32) [10, 41, 51]))\<rparr>"

definition svc_vault :: built where
  "svc_vault = pol_vault\<lparr>bt_Leaves := \<lparr>lv_Routine = Some svc_leaf, lv_Admin = None, lv_Recovery = None\<rparr>,
     TweakedVaultCosigner := Some (41, 0), TweakedArkadeCosigner := Some (51, 0)\<rparr>"

definition svc_digest :: bytes where
  "svc_digest = ex_digest 32 (ex_fold 7 (lf_Script svc_leaf)) (concat (map PkScript (TxOut pol_tx)))"

definition svc_sign :: "nat \<Rightarrow> spend_sig" where
  "svc_sign k = \<lparr>ss_XOnlyPubKey = le_fixed 32 k, ss_LeafHash = leaf_Hash svc_leaf, ss_Signature = le_fixed 32 k @ svc_digest,
     ss_SigHash = SigHashDefault\<rparr>"

definition svc_input :: "nat list \<Rightarrow> psbt_input" where
  "svc_input ks = (pol_input (map svc_sign ks))\<lparr>TaprootLeafScript := leaf_field svc_leaf\<rparr>"

definition svc_psbt :: "nat list \<Rightarrow> psbt" where
  "svc_psbt ks = \<lparr>UnsignedTx = Some pol_tx, pk_Inputs = [svc_input ks]\<rparr>"

definition svc_guard :: guard_lib where
  "svc_guard = \<lparr>
     B64Encode = (\<lambda>p. if p = svc_psbt [10] then Inr ''a'' else if p = svc_psbt [10, 41, 51] then Inr ''c'' else go_err ''psbt''),
     NewFromRawBytes = (\<lambda>s. if s = ''a'' then Inr (svc_psbt [10]) else if s = ''c'' then Inr (svc_psbt [10, 41, 51]) else go_err ''psbt''),
     IsUnspendable = (\<lambda>b. False), ANCHOR_PKSCRIPT = [0x51, 2, 0x4e, 0x73]\<rparr>"

lemma svc_input_simps [simp]: "WitnessUtxo (svc_input ks) = Some pol_prev" "SighashType (svc_input ks) = 0"
  "TaprootLeafScript (svc_input ks) = leaf_field svc_leaf" "TaprootScriptSpendSig (svc_input ks) = map (Some \<circ> svc_sign) ks"
  "FinalScriptWitness (svc_input ks) = []" "FinalScriptSig (svc_input ks) = []"
  by (simp_all add: svc_input_def pol_input_def)

lemma svc_vault_simps [simp]: "bt_Record svc_vault = bt_Record pol_vault" "lv_Routine (bt_Leaves svc_vault) = Some svc_leaf"
  "bt_PkScript svc_vault = bt_PkScript pol_vault" "TweakedVaultCosigner svc_vault = Some (41, 0)"
  "TweakedArkadeCosigner svc_vault = Some (51, 0)"
  by (simp_all add: svc_vault_def)

lemma svc_psbt_simps [simp]: "UnsignedTx (svc_psbt ks) = Some pol_tx" "pk_Inputs (svc_psbt ks) = [svc_input ks]"
  by (simp_all add: svc_psbt_def)

lemma svc_verified: "RequireVerifiedPrevout pol_lib pol_psbt_lib (Some (svc_psbt ks)) = Inr pol_prevtx"
  by (simp add: RequireVerifiedPrevout_def pol_psbt_lib_def pol_in_def pol_prevtx_def)

lemma classify_outputs_cong:
  assumes "IsUnspendable G = IsUnspendable G'" "ANCHOR_PKSCRIPT G = ANCHOR_PKSCRIPT G'" "bt_Record v = bt_Record v'"
    "bt_PkScript v = bt_PkScript v'"
  shows "classify_outputs L G v t i outs s = classify_outputs L G' v' t i outs s"
proof -
  have "packet_output L v t = packet_output L v' t" "change_output v t = change_output v' t"
    "recipient_output L G v = recipient_output L G' v'"
    unfolding packet_output_def change_output_def recipient_output_def assms by (rule refl)+
  note parts = this
  have "classify_outputs L G v t i outs = classify_outputs L G' v' t i outs"
  proof (induction outs arbitrary: i)
    case (Cons a outs)
    show ?case by (rule ext) (simp add: assms parts Cons)
  qed (simp add: fun_eq_iff)
  then show ?thesis by simp
qed

lemma svc_outputs:
  "classify_outputs pol_lib svc_guard svc_vault pol_tx 0 (TxOut pol_tx) \<lparr>o_recipient = None, o_change = None, o_packet = None\<rparr>
     = Inr \<lparr>o_recipient = Some (TxOut pol_tx ! 0), o_change = Some (TxOut pol_tx ! 1), o_packet = Some (TxOut pol_tx ! 2)\<rparr>"
proof -
  have "classify_outputs pol_lib svc_guard svc_vault pol_tx i outs o' = classify_outputs pol_lib pol_guard pol_vault pol_tx i outs o'"
    for i outs o' by (rule classify_outputs_cong) (simp_all add: svc_guard_def pol_guard_def)
  then show ?thesis by (simp only: pol_outputs)
qed

lemma svc_classified: "\<exists>cl. classifySpend pol_lib pol_psbt_lib svc_guard (Some (svc_psbt ks)) (Some svc_vault) = Inr cl \<and>
    cl_Recipient cl = Some (TxOut pol_tx ! 0) \<and> cl_Fee cl = 500"
proof -
  have s: "sum_outputs 0 (TxOut pol_tx) = Inr 99500"
    by (simp add: requireMoneyRange_def addSats_def MaxSatoshi_def word_sless_alt)
  have v: "estimatedVBytes pol_lib pol_tx svc_leaf = 191"
    by (simp add: estimatedVBytes_def estimatedWeight_def estimatedFullSize_def estimatedWitnessBytes_def varintSize_def
        svc_leaf_def ex_leaf_of_def Let_def del: le_fixed.simps)
  have f: "out_value pol_prev = 100000" "PkScript pol_prev = bt_PkScript pol_vault"
    "tr_AuthorizationPolicy (bt_Record pol_vault) = fixtureAuthorizationPolicy"
    by (simp_all add: pol_vault_def pol_prev_def ex_record_def)
  show ?thesis
    using svc_verified[of ks] svc_outputs s v f
    by (simp add: classifySpend_def classify_def leaf_field_def MaxTxInSequenceNum_def requireMoneyRange_def MaxSatoshi_def
      SigHashDefault_def word_sless_alt word_sle_eq enforceStaticPolicy_def fixtureAuthorizationPolicy_def)
qed

text \<open>Its challenge, the WebAuthn library that accepts it, and the request.\<close>

definition svc_challenge :: bytes where "svc_challenge = projr (Challenge pol_lib (svc_psbt []) (Some svc_vault))"

lemma svc_challenge_eq: "Challenge pol_lib (svc_psbt ks) (Some svc_vault) = Inr svc_challenge" "length svc_challenge = 32"
proof -
  let ?f = "as_fetcher (NewPrevFetcher (PreviousOutPoint pol_in) pol_prev)"
  let ?e = "sighash_engine pol_tx 0 (NewTxSigHashes pol_lib pol_tx ?f) (Some ?f)
     (Some ((newTaprootExecutionCtxForLeaf pol_lib (NewBaseTapLeaf (lf_Script svc_leaf)))\<lparr>codeSepPos := blankCodeSepValue\<rparr>))"
  have c: "Challenge pol_lib (svc_psbt ks) (Some svc_vault) = computeArkadeSighash pol_lib ?e 0" for ks
    by (simp add: Challenge_def CalcArkadeScriptSignatureHash_def SigHashDefault_def Let_def)
  have "\<exists>h. computeArkadeSighash pol_lib ?e 0 = Inr h \<and> length h = 32"
    by (rule pol_hash) (simp add: sighash_engine_def newTaprootExecutionCtxForLeaf_def newTaprootExecutionCtx_def)+
  then obtain h where h: "computeArkadeSighash pol_lib ?e 0 = Inr h" "length h = 32" by blast
  then have "svc_challenge = h" by (simp add: svc_challenge_def c)
  then show "Challenge pol_lib (svc_psbt ks) (Some svc_vault) = Inr svc_challenge" "length svc_challenge = 32"
    using h c by simp_all
qed

definition svc_wa :: wa_lib where
  "svc_wa = ex_wa\<lparr>wa_client_data := \<lambda>_. Some \<lparr>cd_Type = ''webauthn.get'', cd_Challenge = EncodeChallenge svc_challenge,
     cd_Origin = ''o'', cd_CrossOrigin = Some False\<rparr>\<rparr>"

definition svc_assertion :: assertion where "svc_assertion = ex_assertion\<lparr>ClientDataJSON := [0]\<rparr>"

definition svc_X :: svc_lib where
  "svc_X = \<lparr>sl_L = pol_lib, sl_W = svc_wa, sl_H = (\<lambda>_ _. replicate 32 0), sl_B = pol_psbt_lib, sl_G = svc_guard, sl_T = ex_tree,
     sl_V = ex_vault, sl_N = ex_net, sl_K = \<lparr>bt_Serialize = le_fixed 32, bt_PrivKeyFromBytes = (\<lambda>b. Some (le_val b)),
     bt_PubKeyCompressed = (\<lambda>k. 2 # le_fixed 32 k)\<rparr>, DeserializeTx = (\<lambda>_. None), LocktimeTypeBlock = 0\<rparr>"

lemma svc_X_simps [simp]: "sl_L svc_X = pol_lib" "sl_W svc_X = svc_wa" "sl_H svc_X = (\<lambda>_ _. replicate 32 0)"
  "sl_B svc_X = pol_psbt_lib" "sl_G svc_X = svc_guard"
  by (simp_all add: svc_X_def)

definition svc_E :: svc_env where
  "svc_E = \<lparr>se_now = 0, se_clock = '''', se_schema = Inr (), se_end = Committed, se_issue = ex_env, se_ctx_done = False,
     se_vault_ctx_done = False, se_arkade_ctx_done = False\<rparr>"

text \<open>A service with the vault enrolled, whose vault signer is out of reach.\<close>

definition svc_state :: service where
  "svc_state = \<lparr>Deployment = Default_config, CredentialIntegrityKey = replicate 32 0, EnrollmentTokenHash = [],
     EnrollmentDeadline = None, OpenEnrollment = False, svc_PhoneRoutineBIP340 = None, svc_ExternalOwnerWallet = None,
     svc_RecoveryKey = None, VaultCosignerPub = Some (40, 0), DeprecatedVaultCosigners = [], ArkadeCosignerPub = Some (50, 0),
     DeprecatedArkadeCosigners = [], ArkadeCosignerOrigin = '''', ArkadeCosignerVersion = '''', svc_Operational = Some svc_vault,
     svc_Savings = None, VaultSigner = Some (PlainSigner (\<lambda>_. go_err ''unreachable'')), VaultSignerKey = None,
     ArkadeCosignerSigner = Some (PlainSigner Inr), MaxConcurrentVerifications = 0, slots_used = 0,
     svc_published = Some \<lparr>byVault = Map.empty(fixture_VaultID \<mapsto> new_snapshot fixture_VaultID [1] (Some (10, 0)) (Some svc_vault) None),
       byCred = Map.empty\<rparr>,
     ledger_key = [], svc_db = empty_db\<lparr>db_credential := Some ex_credential\<rparr>, svc_rows = []\<rparr>"

definition svc_request :: authorizeRequest where
  "svc_request = \<lparr>az_PSBT = ''a'', az_CredentialID = hex_EncodeToString [1], az_ClientDataJSON = hex_EncodeToString [0],
     az_AuthenticatorData = hex_EncodeToString (AuthenticatorData ex_assertion),
     az_Signature = hex_EncodeToString (DERSignature ex_assertion)\<rparr>"

lemma svc_decoded: "decodeAssertion svc_request = Inr svc_assertion"
  by (simp add: decodeAssertion_def svc_request_def decodeHex_encode svc_assertion_def ex_assertion_def del: hex_digit.simps)

lemma svc_validated: "\<exists>v. Validate_assertion svc_wa svc_assertion (expected_for ex_credential svc_challenge) = Inr v"
proof -
  obtain c where c: "CompactLowS [0x30, 6, 2, 1, 7, 2, 1, 8] = Inr c" "compact_scalars c = Inr (7, 8)"
    using ex_compact by blast
  show ?thesis
    using c challenge_decodes[of svc_challenge] svc_challenge_eq(2)
    by (simp add: Validate_assertion_def svc_assertion_def ex_assertion_def expected_for_def ex_credential_def svc_wa_def ex_wa_def
        flagUP_def flagUV_def Let_def ParseCompressedP256_def VerifyES256_def nth_append)
qed

lemma svc_sign_ok:
  assumes "k < 2 ^ 256"
  shows "schnorr_check pol_lib svc_digest (ss_Signature (svc_sign k)) (le_fixed 32 k) = Inr ()"
proof -
  have "k mod 256 ^ 32 = k" using assms by simp
  then show ?thesis
    by (simp add: svc_sign_def schnorr_check_def svc_digest_def Let_def del: power_numeral le_fixed.simps)
qed

lemma svc_tapscript_digest: "tapscript_digest pol_lib pol_psbt_lib pol_tx pol_prev (NewBaseTapLeaf (lf_Script svc_leaf)) = Inr svc_digest"
  by (simp add: tapscript_digest_def at_idx_def pol_psbt_lib_def ex_psbt_lib_def NewBaseTapLeaf_def Let_def svc_digest_def)

lemma svc_phone: "verifyPhoneRoutineSignature pol_lib pol_psbt_lib (svc_psbt [10]) (Some svc_vault) = Inr ()"
proof -
  have "PhoneRoutineBIP340 (bt_Record pol_vault) = Some (10, 0)" by (simp add: pol_vault_def)
  moreover have "ss_XOnlyPubKey (svc_sign 10) = le_fixed 32 10" "ss_LeafHash (svc_sign 10) = leaf_Hash svc_leaf"
    "ss_SigHash (svc_sign 10) = SigHashDefault" "length (ss_Signature (svc_sign 10)) = 64"
    by (simp_all add: svc_sign_def svc_digest_def del: le_fixed.simps)
  ultimately show ?thesis
    using svc_tapscript_digest svc_sign_ok[of 10]
    by (simp add: verifyPhoneRoutineSignature_def at_idx_def Let_def del: le_fixed.simps)
qed

lemma svc_credential: "required_credential svc_X s = Inr ex_credential"
  if "svc_db s = empty_db\<lparr>db_credential := Some ex_credential\<rparr>" "CredentialIntegrityKey s = replicate 32 0"
proof -
  obtain x where "canonicalCredential ex_credential = Inr x" using ex_payloads(1) by blast
  moreover have "cr_IntegrityMAC ex_credential = replicate 32 0" by (simp add: ex_credential_def)
  ultimately show ?thesis
    using that by (simp add: required_credential_Inr credentialIntegrityKey_def GetCredential_def VerifyCredentialIntegrity_def
        credentialMAC_def sha256_Size_def)
qed

lemma svc_direct: "verifyDirectAuth svc_wa (cr_PhoneDirectP256 ex_credential) svc_challenge pol_sig = Inr ()"
proof -
  have "be_val (take 32 pol_sig) = 1" "be_val (drop 32 pol_sig) = 1" "length pol_sig = 64"
    by (simp_all add: pol_sig_def be_val_def)
  then show ?thesis
    by (simp add: verifyDirectAuth_def ParseCompressedP256_def ex_credential_def svc_wa_def ex_wa_def VerifyDigestLowS_def
        svc_challenge_eq(2) compact_scalars_def p256_N_def)
qed

lemma svc_witness: "one_witness svc_X (svc_psbt ks) = Inr pol_sig"
proof -
  have "length pol_sig = 64" by (simp add: pol_sig_def)
  then show ?thesis using pol_packet_found by (simp add: one_witness_def pol_packet_def)
qed

lemma svc_authorized:
  assumes "svc_db s = empty_db\<lparr>db_credential := Some ex_credential\<rparr>" "CredentialIntegrityKey s = replicate 32 0"
  shows "verifyAuthorization svc_X s svc_request (svc_psbt [10]) svc_vault = Inr svc_challenge"
  using svc_decoded svc_validated svc_credential[OF assms] svc_challenge_eq(1) svc_witness svc_direct svc_phone
  by (auto simp: verifyAuthorization_def rejectPRF_def ContainsPRFField_def svc_wa_def ex_wa_def)

lemma svc_issued:
  assumes "length d = 32" "vs ''a'' = Inl e"
  shows "\<exists>rows. IssueSequential ex_env fixture_VaultID d ''a'' 1000 500 PeriodAllowanceSats (Some vs) (Some as) [] =
    (Inl e, rows, [VaultCall ''a'']) \<and> outflow fixture_VaultID ''d'' rows = 1500"
  using assms
  by (simp add: IssueSequential_def issueSequential_def commitReservation_def reservation_def find_issuance_def fixture_VaultID_def
      SpentInPeriod_def outflow_def row_outflow_def addOutflow_def insert_issuance_def issuance_check_def end_tx_def PeriodAllowanceSats_def
      ex_env_def word_sless_alt private_stage_def issuance_key_def Let_def)

lemma svc_stage_fails: "\<exists>e. vault_stage svc_X svc_E (PlainSigner (\<lambda>_. go_err x)) k ''a'' = Inl e"
proof -
  have "NewFromRawBytes svc_guard ''a'' = Inr (svc_psbt [10])" "B64Encode svc_guard (svc_psbt [10]) = Inr ''a''"
    by (simp_all add: svc_guard_def)
  then show ?thesis
    using svc_verified by (simp add: vault_stage_def svc_E_def signExactStage_def parseAndVerifyPrevout_def clonePacket_def
        signWithExpected_def)
qed

lemma svc_runs: "\<exists>r s'. Authorize svc_X svc_E svc_request svc_state = (r, s', [VaultCall ''a'']) \<and>
  outflow fixture_VaultID ''d'' (svc_rows s') = 1500"
proof -
  obtain cl where cl: "classifySpend pol_lib pol_psbt_lib svc_guard (Some (svc_psbt [10])) (Some svc_vault) = Inr cl"
    "cl_Recipient cl = Some (TxOut pol_tx ! 0)" "cl_Fee cl = 500"
    using svc_classified by blast
  let ?s = "svc_state\<lparr>ledger_key := replicate 32 0\<rparr>"
  have a: "attachLedgerIntegrity svc_X svc_state = Inr ?s"
    by (simp add: attachLedgerIntegrity_def credentialIntegrityKey_def SetIntegrityKey_def svc_state_def sha256_Size_def)
  have e: "sn_Operational (enrolled ?s) = Some svc_vault"
    by (simp add: enrolled_def snapshot_def svc_state_def new_snapshot_def Let_def)
  have p: "classified_packet svc_X ''a'' svc_vault = Inr (svc_psbt [10], cl)"
    using cl svc_verified by (simp add: classified_packet_def parseAndVerifyPrevout_def svc_guard_def)
  have v: "verifyAuthorizeRequest svc_X svc_E svc_request svc_vault ?s = (Inr (svc_psbt [10], cl, svc_challenge), ?s)"
    using p svc_authorized[of "?s\<lparr>slots_used := 1\<rparr>"]
    by (simp add: verifyAuthorizeRequest_def with_slot_def try_step_def acquireVerification_def svc_E_def verification_limit_def
        svc_state_def defaultConcurrentVerifications_def release_slot_def svc_request_def)
  have b: "B64Encode svc_guard (svc_psbt [10]) = Inr ''a''" by (simp add: svc_guard_def)
  obtain e' where "vault_stage svc_X svc_E (PlainSigner (\<lambda>_. go_err ''unreachable'')) (41, 0) ''a'' = Inl e'"
    using svc_stage_fails by blast
  then obtain rows where i: "IssueSequential ex_env fixture_VaultID svc_challenge ''a'' 1000 500 PeriodAllowanceSats
      (Some (vault_stage svc_X svc_E (PlainSigner (\<lambda>_. go_err ''unreachable'')) (41, 0)))
      (Some (arkade_stage svc_X svc_E svc_vault (PlainSigner Inr) (41, 0) (51, 0))) [] = (Inl e', rows, [VaultCall ''a''])"
    and o': "outflow fixture_VaultID ''d'' rows = 1500"
    using svc_issued[OF svc_challenge_eq(2)] by blast
  have f: "VaultSigner ?s = Some (PlainSigner (\<lambda>_. go_err ''unreachable''))" "ArkadeCosignerSigner ?s = Some (PlainSigner Inr)"
    "svc_rows ?s = []" "se_issue svc_E = ex_env"
    by (simp_all add: svc_state_def svc_E_def)
  have "issue_authorized svc_X svc_E svc_vault (svc_psbt [10]) cl svc_challenge ?s = (Inl e', ?s\<lparr>svc_rows := rows\<rparr>, [VaultCall ''a''])"
    unfolding issue_authorized_def f using b cl(2,3) i by simp
  then show ?thesis using a e v o' by (simp add: Authorize_def)
qed

theorem authorize_needs_three_approvals_witness:
  "\<exists>ptx ch (row :: issuance). NewFromRawBytes svc_guard ''a'' = Inr ptx \<and>
     approved svc_X svc_state svc_request ptx svc_vault ch \<and> recipient_amount row = 1000 \<and> iss_fee row = 500"
proof -
  obtain r s' where run: "Authorize svc_X svc_E svc_request svc_state = (r, s', [VaultCall ''a''])" using svc_runs by blast
  have rows: "svc_rows svc_state = []" by (simp add: svc_state_def)
  have op: "sn_Operational (enrolled svc_state) = Some svc_vault"
    by (simp add: enrolled_def snapshot_def svc_state_def new_snapshot_def Let_def)
  have some: "[VaultCall ''a''] \<noteq> [] \<or> r = Inr undefined" by simp
  obtain op' ptx cl rcp ch and row :: issuance where a: "sn_Operational (enrolled svc_state) = Some op'"
    "NewFromRawBytes svc_guard (az_PSBT svc_request) = Inr ptx"
    "classifySpend pol_lib pol_psbt_lib svc_guard (Some ptx) (Some op') = Inr cl" "cl_Recipient cl = Some rcp"
    "approved svc_X svc_state svc_request ptx op' ch" "recipient_amount row = out_value rcp" "iss_fee row = cl_Fee cl"
    using authorize_needs_three_approvals[OF rtranclp.rtrancl_refl rows run some, unfolded svc_X_simps]
    by (elim exE conjE) (rule that)
  have "ptx = svc_psbt [10]" using a(2) by (simp add: svc_guard_def svc_request_def)
  then have "rcp = TxOut pol_tx ! 0" "cl_Fee cl = 500" using svc_classified[of "[10]"] a(1,3,4) op by auto
  then show ?thesis using a op by (auto simp: svc_request_def)
qed

lemma service_keeps_limits_witness:
  "\<exists>s' n. service_steps svc_X svc_state s' \<and> outflow fixture_VaultID ''d'' (svc_rows s') = 1500 \<and>
     SpentInPeriod fixture_VaultID ''d'' (svc_rows s') = Inr n \<and> sint n = 1500 \<and>
     store_extends (svc_db s') (svc_db s') \<and> slots_used s' = slots_used svc_state"
proof -
  obtain r s' where run: "Authorize svc_X svc_E svc_request svc_state = (r, s', [VaultCall ''a''])"
    "outflow fixture_VaultID ''d'' (svc_rows s') = 1500" using svc_runs by blast
  have steps: "service_steps svc_X svc_state s'" by (rule r_into_rtranclp[of "service_step svc_X", OF service_step.authorized[OF run(1)]])
  have "store_step empty_db (empty_db\<lparr>db_credential := Some ex_credential\<rparr>)"
    by (rule store_step.enroll) (simp add: empty_db_def)
  then have db: "store_steps empty_db (svc_db svc_state)" by (simp add: svc_state_def)
  have rows: "svc_rows svc_state = []" by (simp add: svc_state_def)
  show ?thesis
    using service_keeps_limits[OF steps rtranclp.rtrancl_refl db rows, of fixture_VaultID "''d''"] run(2) steps by auto
qed

end
