(* ===== verification/VaultSessionProps.thy ===== *)
theory VaultSessionProps
imports VaultServiceProps
begin

text \<open>Properties of passkey sessions, of the recovery binding and of publication.\<close>

subsection \<open>The JSON encoding is injective\<close>

lemma of_char_byte_inj: "(of_char c :: byte) = of_char d \<longleftrightarrow> c = d"
  using go_bytes_inject[of "[c]" "[d]"] by (simp add: go_bytes_def)

definition unescape :: "char \<Rightarrow> char" where
  "unescape k = (if k = CHR ''b'' then CHR 0x08 else if k = CHR ''f'' then CHR 0x0C else if k = CHR ''n'' then CHR 0x0A
     else if k = CHR ''r'' then CHR 0x0D else if k = CHR ''t'' then CHR 0x09 else k)"

lemma json_char_forms:
  obtains "json_char c = [c]" "c \<noteq> CHR 0x5C"
  | k where "json_char c = [CHR 0x5C, k]" "k \<noteq> CHR ''u''" "unescape k = c"
  | "json_char c = CHR 0x5C # ''u00'' @ hex_EncodeToString [of_char c]"
proof (cases "c \<in> {CHR 0x22, CHR 0x5C, CHR 0x08, CHR 0x0C, CHR 0x0A, CHR 0x0D, CHR 0x09}")
  case True
  then show thesis using that(2) by (auto simp: json_char_def unescape_def)
next
  case False
  then show thesis
    using that(1,3) by (cases "(of_char c :: nat) < 32 \<or> c = CHR ''<'' \<or> c = CHR ''>'' \<or> c = CHR ''&''") (simp_all add: json_char_def)
qed

lemma json_char_prefix:
  assumes "json_char c @ x = json_char d @ y"
  shows "c = d \<and> x = y"
proof -
  have l: "length (hex_EncodeToString [of_char c]) = length (hex_EncodeToString [of_char d])"
    by (simp add: hex_EncodeToString_def)
  show ?thesis
    by (rule json_char_forms[of c]; rule json_char_forms[of d]) (use assms l in \<open>auto simp: of_char_byte_inj\<close>)
qed

lemma json_char_first: "json_char c \<noteq> CHR 0x22 # t" "json_char c \<noteq> []" "CHR 0x22 # t \<noteq> json_char c @ x"
  by (auto simp: json_char_def)

lemma json_body_inj:
  "concat (map json_char s) @ CHR 0x22 # r = concat (map json_char s') @ CHR 0x22 # r' \<Longrightarrow> s = s' \<and> r = r'"
proof (induction s arbitrary: s')
  case Nil
  then show ?case
    by (cases s') (use json_char_first(3) in \<open>auto simp: append_assoc\<close>)
next
  case (Cons c s)
  show ?case
  proof (cases s')
    case Nil
    then show ?thesis using Cons.prems json_char_first(3)[of r' c, THEN not_sym] by (auto simp: append_assoc)
  next
    case (Cons d t)
    then have "c = d" "concat (map json_char s) @ CHR 0x22 # r = concat (map json_char t) @ CHR 0x22 # r'"
      using Cons.prems json_char_prefix[of c _ d] by auto
    then show ?thesis using Cons.IH Cons by blast
  qed
qed

definition digit_val :: "char \<Rightarrow> nat" where "digit_val c = of_char c - 48"

lemma FormatUint_digits: "c \<in> set (FormatUint n) \<Longrightarrow> c \<in> set ''0123456789''"
proof (induction n rule: FormatUint.induct)
  case (1 n)
  have d: "k < 10 \<Longrightarrow> ''0123456789'' ! k \<in> set ''0123456789''" for k by (rule nth_mem) simp
  show ?case
    using 1 d[of n] d[of "n mod 10"] by (subst (asm) FormatUint.simps) (simp only: set_append Un_iff list.set(2) insert_iff list.set(1) empty_iff split: if_splits, auto simp del: list.set)
qed

lemma FormatUint_value: "foldl (\<lambda>a c. 10 * a + digit_val c) 0 (FormatUint n) = n"
proof (induction n rule: FormatUint.induct)
  case (1 n)
  have "\<forall>k\<in>set [0..<10]. digit_val (''0123456789'' ! k) = k" by code_simp
  then have d: "k < 10 \<Longrightarrow> digit_val (''0123456789'' ! k) = k" for k by simp
  show ?case using 1 d by (subst FormatUint.simps) auto
qed

lemma FormatUint_inj: "FormatUint m = FormatUint n \<longleftrightarrow> m = n"
  using FormatUint_value by metis

lemma json_int_inj: "json_int m = json_int n \<longleftrightarrow> m = n"
proof -
  have "FormatUint k \<noteq> CHR ''-'' # r" for k r using FormatUint_digits[of "CHR ''-''" k] by auto
  then show ?thesis by (auto simp: json_int_def FormatUint_inj) metis+
qed

lemma json_int_chars: "c \<in> set (json_int i) \<Longrightarrow> c \<notin> set '',}''"
proof -
  assume "c \<in> set (json_int i)"
  then obtain n where "c = CHR ''-'' \<or> c \<in> set (FormatUint n)"
    unfolding json_int_def by (cases "i < 0") auto
  then have "c = CHR ''-'' \<or> c \<in> set ''0123456789''" using FormatUint_digits by blast
  then show ?thesis by auto
qed

lemma takeWhile_split:
  assumes "x @ h # r = y @ k # t" "\<forall>c\<in>set x. \<not> P c" "\<forall>c\<in>set y. \<not> P c" "P h" "P k"
  shows "x = y \<and> h # r = k # t"
proof -
  have "takeWhile (\<lambda>c. \<not> P c) (x @ h # r) = x" "takeWhile (\<lambda>c. \<not> P c) (y @ k # t) = y"
    using assms(2-5) by (auto simp: takeWhile_append)
  then show ?thesis using assms(1) by auto
qed

text \<open>A value that is text in ASCII or a number, of the same kind as another.\<close>

fun same_kind :: "json_value \<Rightarrow> json_value \<Rightarrow> bool" where
  "same_kind (JStr s) (JStr t) \<longleftrightarrow> ascii_text s \<and> ascii_text t"
| "same_kind (JNum m) (JNum n) \<longleftrightarrow> True"
| "same_kind _ _ \<longleftrightarrow> False"

lemma json_value_inj:
  assumes "json_value U v @ h # r = json_value U w @ k # t" "same_kind v w" "h \<in> set '',}''" "k \<in> set '',}''"
  shows "v = w \<and> h # r = k # t"
  using assms(2,1)
proof (cases rule: same_kind.cases[of "(v, w)"])
  case (1 s s')
  then show ?thesis using assms(1,2) json_body_inj[of s "h # r" s' "k # t"] by (simp add: json_value_def json_string_def)
next
  case (2 m n)
  have d: "\<forall>c\<in>set (json_int i). \<not> c \<in> set '',}''" for i using json_int_chars by blast
  show ?thesis
    using assms(1,3,4) 2 takeWhile_split[of "json_int m" h r "json_int n" k t "\<lambda>c. c \<in> set '',}''"] d json_int_inj
    by (auto simp: json_value_def)
qed simp_all

lemma json_member_inj:
  assumes "json_member U m @ h # r = json_member U m' @ k # t" "fst m = fst m'" "same_kind (snd m) (snd m')"
    "h \<in> set '',}''" "k \<in> set '',}''"
  shows "m = m' \<and> h # r = k # t"
  using assms json_value_inj[of U "snd m" h r "snd m'" k t] by (auto simp: json_member_def prod_eq_iff)

lemma json_members_inj:
  assumes "json_members U ms @ ''}'' = json_members U ms' @ ''}''"
    "list_all2 (\<lambda>m m'. fst m = fst m' \<and> same_kind (snd m) (snd m')) ms ms'"
  shows "ms = ms'"
  using assms(2,1)
proof (induction rule: list_all2_induct)
  case (Cons m ms m' ms')
  show ?case
  proof (cases ms)
    case Nil
    then have "ms' = []" using Cons.hyps by simp
    then show ?thesis using Cons json_member_inj[of U m "CHR ''}''" "''''" m' "CHR ''}''" "''''"] Nil by simp
  next
    case (Cons a as)
    then obtain b bs where b: "ms' = b # bs" using Cons.hyps(2) by (cases ms') auto
    have "m = m' \<and> CHR '','' # json_members U ms @ ''}'' = CHR '','' # json_members U ms' @ ''}''"
      using json_member_inj[of U m "CHR '',''" "json_members U ms @ ''}''" m' "CHR '',''" "json_members U ms' @ ''}''"] Cons.prems Cons.hyps(1) Cons b
      by simp
    then show ?thesis using Cons.IH by simp
  qed
qed simp

subsection \<open>The recovery binding\<close>

lemma ascii_hex: "ascii_text (hex_EncodeToString b)"
proof -
  have "\<forall>k\<in>set [0..<16]. (of_char (''0123456789abcdef'' ! k) :: nat) < 128" by code_simp
  then have d: "k < 16 \<Longrightarrow> (of_char (''0123456789abcdef'' ! k) :: nat) < 128" for k by simp
  have u: "unat (x div 16) < 16" "unat (x mod 16) < 16" for x :: byte
  proof -
    have "unat x < 2 ^ LENGTH(8)" by (rule unsigned_less)
    then show "unat (x div 16) < 16" "unat (x mod 16) < 16"
      by (simp_all add: unat_div unat_mod less_mult_imp_div_less)
  qed
  show ?thesis
    using d[OF u(1)] d[OF u(2)] by (induction b) (simp_all add: hex_EncodeToString_def ascii_text_def)
qed

text \<open>The text of a descriptor that is not hexadecimal, and what of it the binding carries: all but its
integrity code and the first byte of its tweaked keys.\<close>

definition descriptor_texts :: "credential \<Rightarrow> string list" where
  "descriptor_texts c = [cr_ArkadeCosignerOrigin c, cr_ArkadeCosignerVersion c, cr_Origin c, cr_RPID c, cr_Network c, cr_VaultID c,
     cr_TemplateVersion c, cr_PolicyVersion c, cr_OperationalAddress c, cr_SavingsAddress c]"

definition bound_descriptor :: "credential \<Rightarrow> credential" where
  "bound_descriptor c = c\<lparr>cr_TweakedVaultCosigner := tl (cr_TweakedVaultCosigner c),
     cr_TweakedArkadeCosigner := tl (cr_TweakedArkadeCosigner c), cr_IntegrityMAC := []\<rparr>"

text \<open>C39: The recovery binding that the phone and the direct key sign commits to the whole descriptor
and envelope, as long as every text field of the descriptors is ASCII: two such descriptors and
envelopes with the same canonical JSON text agree in nonce, ciphertext and every field of the
descriptor except its integrity code and the parity byte of the two tweaked keys, which are written
x-only. (Nothing is claimed of other text, for which json.Marshal is a parameter here and, in Go, maps
every invalid byte to the same replacement character.)\<close>

theorem recovery_binding_commits:
  assumes "canonicalRecoveryBinding U (Some c) n e = Inr b" "canonicalRecoveryBinding U (Some c') n' e' = Inr b"
    and "list_all ascii_text (descriptor_texts c)" "list_all ascii_text (descriptor_texts c')"
  shows "n = n' \<and> e = e' \<and> bound_descriptor c = bound_descriptor c'"
proof -
  let ?m = "binding_keys c @ binding_limits c n e" and ?m' = "binding_keys c' @ binding_limits c' n' e'"
  have "json_members U ?m @ ''}'' = json_members U ?m' @ ''}''"
    using assms(1,2) by (auto simp: canonicalRecoveryBinding_def json_object_def split: if_splits)
  moreover have "list_all2 (\<lambda>m m'. fst m = fst m' \<and> same_kind (snd m) (snd m')) ?m ?m'"
    using assms(3,4) by (simp add: binding_keys_def binding_limits_def descriptor_texts_def ascii_hex)
  ultimately have "?m = ?m'" by (rule json_members_inj)
  moreover have "sint x = sint y \<longleftrightarrow> x = y" for x y :: int64 by (metis signed_word_eqI)
  moreover have "uint x = uint y \<longleftrightarrow> x = y" for x y :: uint32 by (simp add: word_uint_eq_iff)
  ultimately show ?thesis
    by (cases c, cases c') (simp add: binding_keys_def binding_limits_def bound_descriptor_def)
qed

lemma recovery_binding_commits_witness:
  "\<exists>b. canonicalRecoveryBinding id (Some ex_credential) [1] [2] = Inr b \<and>
     canonicalRecoveryBinding id (Some (ex_credential\<lparr>cr_IntegrityMAC := []\<rparr>)) [1] [2] = Inr b \<and>
     bound_descriptor ex_credential = bound_descriptor (ex_credential\<lparr>cr_IntegrityMAC := []\<rparr>)"
proof -
  let ?c = "ex_credential\<lparr>cr_IntegrityMAC := []\<rparr>"
  have t: "list_all ascii_text (descriptor_texts ex_credential)" "list_all ascii_text (descriptor_texts ?c)"
    by (simp_all add: descriptor_texts_def ex_credential_def ascii_text_def)
  obtain b where b: "canonicalRecoveryBinding id (Some ex_credential) [1] [2] = Inr b"
    by (simp add: canonicalRecoveryBinding_def ex_credential_def)
  have b': "canonicalRecoveryBinding id (Some ?c) [1] [2] = Inr b"
  proof -
    have "binding_keys ?c = binding_keys ex_credential" "binding_limits ?c [1] [2] = binding_limits ex_credential [1] [2]"
      by (simp_all add: binding_keys_def binding_limits_def)
    then show ?thesis using b by (simp add: canonicalRecoveryBinding_def split: if_splits)
  qed
  show ?thesis using recovery_binding_commits[OF b b' t] b b' by blast
qed
subsection \<open>A passkey challenge authenticates once\<close>

text \<open>The steps on the table of challenges under which an identity is not issued again.\<close>

inductive session_step :: "svc_lib \<Rightarrow> string \<Rightarrow> sessions \<Rightarrow> sessions \<Rightarrow> bool" for X i where
  issued: "IssuePasskeyChallenge X E p rid rch s cs = (r, cs') \<Longrightarrow>
     \<forall>resp. r = Inr resp \<longrightarrow> pcr_ChallengeID resp \<noteq> i \<Longrightarrow> session_step X i cs cs'"
| authenticated: "authenticatePasskeySession X E p req s cs = (c, cs') \<Longrightarrow> session_step X i cs cs'"

lemma map_of_filter_None: "map_of cs i = None \<Longrightarrow> map_of (filter P cs) i = None"
  by (auto simp: map_of_eq_None_iff)

lemma map_of_delete [simp]: "map_of (delete_challenge i cs) i = None"
  by (auto simp: delete_challenge_def map_of_eq_None_iff)

lemma authenticate_table:
  "authenticatePasskeySession X E p req s cs = (r, cs') \<Longrightarrow> cs' = cs \<or> cs' = delete_challenge (sa_ChallengeID req) cs"
  unfolding authenticatePasskeySession_def consumePasskeyChallenge_def
  by (elim try_step_cases) (auto split: if_splits prod.splits sum.splits)

lemma issue_table:
  assumes "IssuePasskeyChallenge X E p rid rch s cs = (r, cs')"
  shows "cs' = cs \<or> cs' = expire_challenges (se_now E) cs \<or>
    (\<exists>resp pc. r = Inr resp \<and> length (expire_challenges (se_now E) cs) < maxPasskeyChallenges \<and>
       cs' = put_challenge (pcr_ChallengeID resp) pc (expire_challenges (se_now E) cs))"
  using assms unfolding IssuePasskeyChallenge_def Let_def
  by (elim try_step_cases) (auto split: if_splits)

lemma session_step_absent:
  assumes "session_step X i cs cs'" "map_of cs i = None"
  shows "map_of cs' i = None"
  using assms
proof (induction rule: session_step.induct)
  case (issued E p rid rch s cs r cs')
  from issue_table[OF issued.hyps(1)] issued.hyps(2) issued.prems show ?case
    by (auto simp: expire_challenges_def put_challenge_def delete_challenge_def map_of_filter_None)
next
  case (authenticated E p req s cs c cs')
  from authenticate_table[OF authenticated.hyps] authenticated.prems show ?case
    by (auto simp: delete_challenge_def map_of_filter_None)
qed

lemma session_steps_absent: "(session_step X i)\<^sup>*\<^sup>* cs cs' \<Longrightarrow> map_of cs i = None \<Longrightarrow> map_of cs' i = None"
  by (induction rule: rtranclp_induct) (auto dest: session_step_absent)

text \<open>At most 64 challenges are under way, one of an identity.\<close>

definition sessions_ok :: "sessions \<Rightarrow> bool" where
  "sessions_ok cs \<longleftrightarrow> distinct (map fst cs) \<and> length cs \<le> maxPasskeyChallenges"

lemma sessions_ok_filter: "sessions_ok cs \<Longrightarrow> sessions_ok (filter P cs)"
  by (auto simp: sessions_ok_def distinct_map_filter intro: order_trans[OF length_filter_le])

lemma session_step_ok:
  assumes "session_step X i cs cs'" "sessions_ok cs"
  shows "sessions_ok cs'"
  using assms
proof (induction rule: session_step.induct)
  case (issued E p rid rch s cs r cs')
  have "sessions_ok (put_challenge j pc (expire_challenges (se_now E) cs))"
    if "length (expire_challenges (se_now E) cs) < maxPasskeyChallenges" for j pc
  proof -
    have "sessions_ok (delete_challenge j (expire_challenges (se_now E) cs))"
      unfolding delete_challenge_def expire_challenges_def by (intro sessions_ok_filter issued.prems)
    moreover have "length (delete_challenge j (expire_challenges (se_now E) cs)) \<le> length (expire_challenges (se_now E) cs)"
      by (simp add: delete_challenge_def)
    ultimately show ?thesis
      using that by (auto simp: put_challenge_def sessions_ok_def) (auto simp: delete_challenge_def)
  qed
  with issue_table[OF issued.hyps(1)] issued.prems show ?case
    by (auto simp: expire_challenges_def sessions_ok_filter)
next
  case (authenticated E p req s cs c cs')
  from authenticate_table[OF authenticated.hyps] authenticated.prems show ?case
    by (auto simp: delete_challenge_def sessions_ok_filter)
qed

lemma authenticate_sound:
  assumes "authenticatePasskeySession X E p req s cs = (Inr cred, cs')"
  obtains pc a sig key where "map_of cs (sa_ChallengeID req) = Some pc" "pc_Purpose pc = p" "se_now E < pc_ExpiresAt pc"
    "cs' = delete_challenge (sa_ChallengeID req) cs" "credentialIntegrityKey X s = Inr key" "GetCredential (svc_db s) = Some cred"
    "VerifyCredentialIntegrity (sl_H X) (Some cred) key = Inr ()" "decodeAssertion (sa_Assertion req) = Inr a"
    "passkey_approves (sl_W X) cred (pc_Challenge pc) a" "decodeFixedHex (sa_DirectProof req) 64 = Inr sig"
    "direct_approves (sl_W X) (cr_PhoneDirectP256 cred) (passkeySessionProofDigest (sl_L X) p (pc_Challenge pc) (cr_ID cred)) sig"
proof -
  obtain s1 ch where s1: "acquireVerification E s = Inr s1"
    and c: "consumePasskeyChallenge (se_now E) (sa_ChallengeID req) p cs = (Inr ch, cs')"
    and v: "session_credential X s1 p req ch = Inr cred"
    using assms unfolding authenticatePasskeySession_def by (elim try_step_cases) (auto split: prod.splits sum.splits)
  obtain pc where pc: "map_of cs (sa_ChallengeID req) = Some pc" "pc_Purpose pc = p" "se_now E < pc_ExpiresAt pc"
    "ch = pc_Challenge pc" "cs' = delete_challenge (sa_ChallengeID req) cs"
    using c by (auto simp: consumePasskeyChallenge_def split: if_splits option.splits)
  obtain a w sig where run: "required_credential X s1 = Inr cred" "decodeBoundedSessionAssertion req = Inr a"
    "Validate_assertion (sl_W X) a (expected_for cred ch) = Inr w" "decodeFixedHex (sa_DirectProof req) 64 = Inr sig"
    "verifyDirectAuth (sl_W X) (cr_PhoneDirectP256 cred) (passkeySessionProofDigest (sl_L X) p ch (cr_ID cred)) sig = Inr ()"
    using v unfolding session_credential_def by (auto simp: bindE_Inr_iff split: if_splits)
  have a: "decodeAssertion (sa_Assertion req) = Inr a"
    using run(2) by (auto simp: decodeBoundedSessionAssertion_def bindE_Inr_iff split: if_splits)
  note keep = acquire_keeps(2)[OF s1] acquire_keeps(4)[OF s1, of X]
  show thesis
    using that[OF pc(1-3,5) _ _ _ a _ run(4)] run(1) keep pc(4) passkey_approvesI[OF run(3)] direct_approvesI[OF run(5)]
    unfolding required_credential_Inr by auto
qed

text \<open>C38: A passkey challenge opens at most one session.  When a session is authenticated, its
challenge was issued for that purpose and is not expired, the authentic stored passkey made a
user-verified assertion over it, the direct key signed the digest of the purpose, challenge and
credential, and the challenge is gone from the table; however the service goes on, as long as it does
not issue the same identity anew, a later session has another challenge.\<close>

theorem passkey_challenge_single_use:
  assumes "authenticatePasskeySession X E p req s cs = (Inr cred, cs1)"
    and "(session_step X (sa_ChallengeID req))\<^sup>*\<^sup>* cs1 cs2"
    and "authenticatePasskeySession X E' p' req' s' cs2 = (Inr cred', cs3)"
  shows "sa_ChallengeID req' \<noteq> sa_ChallengeID req \<and>
    (\<exists>pc a sig key. map_of cs (sa_ChallengeID req) = Some pc \<and> pc_Purpose pc = p \<and> se_now E < pc_ExpiresAt pc \<and>
       cs1 = delete_challenge (sa_ChallengeID req) cs \<and> credentialIntegrityKey X s = Inr key \<and>
       GetCredential (svc_db s) = Some cred \<and> VerifyCredentialIntegrity (sl_H X) (Some cred) key = Inr () \<and>
       decodeAssertion (sa_Assertion req) = Inr a \<and> passkey_approves (sl_W X) cred (pc_Challenge pc) a \<and>
       decodeFixedHex (sa_DirectProof req) 64 = Inr sig \<and>
       direct_approves (sl_W X) (cr_PhoneDirectP256 cred)
         (passkeySessionProofDigest (sl_L X) p (pc_Challenge pc) (cr_ID cred)) sig)"
proof
  have "map_of cs1 (sa_ChallengeID req) = None" by (rule authenticate_sound[OF assms(1)]) simp
  then have "map_of cs2 (sa_ChallengeID req) = None" by (rule session_steps_absent[OF assms(2)])
  moreover obtain pc' where "map_of cs2 (sa_ChallengeID req') = Some pc'" by (rule authenticate_sound[OF assms(3)]) blast
  ultimately show "sa_ChallengeID req' \<noteq> sa_ChallengeID req" by auto
qed (rule authenticate_sound[OF assms(1)], blast)

text \<open>Two sessions of the concrete service.\<close>

definition svc_ids :: "string list" where
  "svc_ids = [b64_encode (0 # replicate 15 0), b64_encode (1 # replicate 15 0)]"

definition svc_pending :: passkeyChallenge where
  "svc_pending = \<lparr>pc_Purpose = passkeyPurposeInstall, pc_Challenge = svc_challenge, pc_ExpiresAt = 1\<rparr>"

definition svc_session :: "string \<Rightarrow> sessionAssertionRequest" where
  "svc_session i = \<lparr>sa_ChallengeID = i, sa_Assertion = svc_request, sa_DirectProof = hex_EncodeToString pol_sig\<rparr>"

lemma b64_decode_encode: "b64_decode (b64_encode raw) = Some raw"
  using challenge_decodes[of raw] by (simp add: decodeChallenge_def EncodeChallenge_def split: option.splits)

lemma svc_ids_valid: "list_all valid_challenge_id svc_ids" "svc_ids ! 0 \<noteq> svc_ids ! 1"
proof -
  have "length (b64_encode bs) = (4 * length bs + 2) div 3" for bs
    by (induction bs rule: b64_encode.induct) (simp_all add: Let_def)
  then have "length (b64_encode (x # replicate 15 0)) = 22" for x :: byte by simp
  from this[of 0] this[of 1] show "list_all valid_challenge_id svc_ids"
    by (simp add: svc_ids_def valid_challenge_id_def b64_decode_encode)
  show "svc_ids ! 0 \<noteq> svc_ids ! 1"
    using b64_decode_encode[of "0 # replicate 15 0"] b64_decode_encode[of "1 # replicate 15 0"]
    by (auto simp: svc_ids_def)
qed

lemma svc_session_ok:
  assumes "valid_challenge_id i" "map_of cs i = Some svc_pending"
  shows "authenticatePasskeySession svc_X svc_E passkeyPurposeInstall (svc_session i) svc_state cs = (Inr ex_credential, delete_challenge i cs)"
proof -
  have c: "consumePasskeyChallenge 0 i passkeyPurposeInstall cs = (Inr svc_challenge, delete_challenge i cs)"
    using assms by (simp add: consumePasskeyChallenge_def svc_pending_def)
  have a: "decodeBoundedSessionAssertion (svc_session i) = Inr svc_assertion"
    using svc_decoded by (simp add: decodeBoundedSessionAssertion_def svc_session_def svc_assertion_def ex_assertion_def)
  have p: "decodeFixedHex (hex_EncodeToString pol_sig) 64 = Inr pol_sig"
  proof -
    have "hex_EncodeToString pol_sig = ToLower (hex_EncodeToString pol_sig)" "length (hex_EncodeToString pol_sig) = 128"
      "length pol_sig = 64" by code_simp+
    then show ?thesis by (simp add: decodeFixedHex_def hex_decode_encode)
  qed
  have d: "verifyDirectAuth svc_wa (cr_PhoneDirectP256 ex_credential) (passkeySessionProofDigest pol_lib q ch i') pol_sig = Inr ()" for q ch i'
  proof -
    have "be_val (take 32 pol_sig) = 1" "be_val (drop 32 pol_sig) = 1" "length pol_sig = 64"
      by (simp_all add: pol_sig_def be_val_def)
    then show ?thesis
      by (simp add: verifyDirectAuth_def ParseCompressedP256_def ex_credential_def svc_wa_def ex_wa_def VerifyDigestLowS_def
          passkeySessionProofDigest_def compact_scalars_def p256_N_def)
  qed
  have q: "required_credential svc_X (svc_state\<lparr>slots_used := 1\<rparr>) = Inr ex_credential"
    by (rule svc_credential) (simp_all add: svc_state_def)
  have i: "as_CredentialID svc_assertion = cr_ID ex_credential"
    by (simp add: svc_assertion_def ex_assertion_def ex_credential_def)
  have f: "\<not> ContainsPRFField svc_wa x" for x by (simp add: ContainsPRFField_def svc_wa_def ex_wa_def)
  have v: "session_credential svc_X (svc_state\<lparr>slots_used := 1\<rparr>) passkeyPurposeInstall (svc_session i) svc_challenge = Inr ex_credential"
    using q a i f svc_validated p d by (auto simp: session_credential_def rejectPRF_def svc_session_def)
  have "acquireVerification svc_E svc_state = Inr (svc_state\<lparr>slots_used := 1\<rparr>)"
    by (simp add: acquireVerification_def svc_E_def verification_limit_def svc_state_def defaultConcurrentVerifications_def)
  then show ?thesis
    using c v by (simp add: authenticatePasskeySession_def try_step_def svc_session_def svc_E_def)
qed

lemma passkey_challenge_single_use_witness:
  "\<exists>pc a. map_of (map (\<lambda>i. (i, svc_pending)) svc_ids) (svc_ids ! 0) = Some pc \<and> pc_Purpose pc = passkeyPurposeInstall \<and>
     passkey_approves svc_wa ex_credential (pc_Challenge pc) a"
proof -
  let ?cs = "map (\<lambda>i. (i, svc_pending)) svc_ids" and ?i = "svc_ids ! 0" and ?j = "svc_ids ! 1"
  have v: "valid_challenge_id ?i" "valid_challenge_id ?j" using svc_ids_valid(1) by (simp_all add: svc_ids_def)
  have m: "map_of ?cs ?i = Some svc_pending" "map_of (delete_challenge ?i ?cs) ?j = Some svc_pending"
    using svc_ids_valid(2) by (simp_all add: svc_ids_def delete_challenge_def)
  note one = svc_session_ok[OF v(1) m(1)] and two = svc_session_ok[OF v(2) m(2)]
  from passkey_challenge_single_use[OF one rtranclp.rtrancl_refl two] show ?thesis
    by (auto simp: svc_session_def)
qed
subsection \<open>What is published\<close>

lemma dispatch_sound:
  assumes "dispatchPublication X E s node raw txid n = (r, n', sent)"
  shows "sent = [] \<or> sent = [raw]"
    "sent \<noteq> [] \<Longrightarrow> \<exists>N c n1. node = Some N \<and> nd_Lookup N txid n = (Inr (c, False), n1)"
    "r = Inr out \<Longrightarrow> \<exists>N n1. node = Some N \<and> pb_Txid out = txid \<and> nd_Lookup N txid n1 = (Inr (pb_Confirmations out, True), n')"
proof -
  have look: "looked_up X E s N txid n1 (Inl e) = (Inr out, n2) \<Longrightarrow>
      pb_Txid out = txid \<and> nd_Lookup N txid n1 = (Inr (pb_Confirmations out, True), n2)" for N n1 n2 e
    by (auto simp: looked_up_def publishResult_of_def bindE_Inr_iff split: prod.splits sum.splits if_splits)
  show "sent = [] \<or> sent = [raw]" "sent \<noteq> [] \<Longrightarrow> \<exists>N c n1. node = Some N \<and> nd_Lookup N txid n = (Inr (c, False), n1)"
    using assms unfolding dispatchPublication_def by (auto split: option.splits if_splits prod.splits sum.splits bool.splits)
  show "r = Inr out \<Longrightarrow> \<exists>N n1. node = Some N \<and> pb_Txid out = txid \<and> nd_Lookup N txid n1 = (Inr (pb_Confirmations out, True), n')"
  proof -
    assume r: "r = Inr out"
    obtain N where N: "node = Some N" using assms r by (auto simp: dispatchPublication_def split: option.splits)
    obtain conf found n1 where l: "nd_Lookup N txid n = (Inr (conf, found), n1)" "txid \<noteq> ''''"
      using assms r N by (auto simp: dispatchPublication_def split: prod.splits sum.splits if_splits)
    show ?thesis
    proof (cases found)
      case True
      then show ?thesis
        using assms r N l by (auto simp: dispatchPublication_def publishResult_of_def bindE_Inr_iff)
    next
      case False
      obtain x n2 where b: "nd_Broadcast N raw n1 = (x, n2)" by fastforce
      have "\<exists>e. looked_up X E s N txid n2 (Inl e) = (Inr out, n')"
      proof (cases x)
        case (Inl e)
        have "looked_up X E s N txid n2 (Inl e) = (Inr out, n')"
          using assms r N l False b Inl
          by (cases "looked_up X E s N txid n2 (Inl e)") (simp add: dispatchPublication_def)
        then show ?thesis by blast
      next
        case (Inr got)
        have "looked_up X E s N txid n2 (go_err ''unpublished'') = (Inr out, n')"
          using assms r N l False b Inr
          by (cases "looked_up X E s N txid n2 (go_err ''unpublished'')") (simp add: dispatchPublication_def split: if_splits)
        then show ?thesis by blast
      qed
      then obtain e where "looked_up X E s N txid n2 (Inl e) = (Inr out, n')" ..
      from look[OF this] N show ?thesis by auto
    qed
  qed
qed

lemma finalize_witness_only:
  assumes "FinalizeRoutine L B (Some p) (Some v) = Inr q"
  shows "\<exists>t inp i wit. UnsignedTx p = Some t \<and> TxIn t = [i] \<and> pk_Inputs p = [inp] \<and>
    q = p\<lparr>pk_Inputs := [inp\<lparr>FinalScriptWitness := wit\<rparr>]\<rparr>"
proof -
  have v: "verifyRoutinePartials L B (Some p) (Some v) = Inr ()" and w: "writeFinalWitness L B (Some p) (lv_Routine (bt_Leaves v)) = Inr q"
    using assms by (auto simp: FinalizeRoutine_def bindE_Inr_iff)
  obtain t where t: "UnsignedTx p = Some t" "length (pk_Inputs p) = 1" "length (TxIn t) = 1"
    using v by (auto simp: verifyRoutinePartials_def split: option.splits if_splits)
  obtain inp i where i: "pk_Inputs p = [inp]" "TxIn t = [i]" using t(2,3) by (auto simp: length_Suc_conv)
  show ?thesis
    using w t(1) i by (auto simp: writeFinalWitness_def set_input0_def bindE_Inr_iff split: option.splits)
qed

lemma extract_witness_only:
  assumes "ExtractFinalizedTx L (Some q) = Inr t'" "UnsignedTx q = Some t" "TxIn t = [i]"
  shows "\<exists>wit. t' = t\<lparr>TxIn := [i\<lparr>Witness := wit\<rparr>]\<rparr>"
  using assms by (auto simp: ExtractFinalizedTx_def bindE_Inr_iff split: list.splits if_splits)

lemma prepare_sound:
  assumes codec: "\<And>p e. B64Encode (sl_G X) p = Inr e \<Longrightarrow> NewFromRawBytes (sl_G X) e = Inr p"
    and run: "preparePublication X Ser s challengeHex = Inr (raw, txid)"
  obtains op digest row stored ptx prev cl t i e w wit inp po hs f where
    "sn_Operational (enrolled s) = Some op" "decodeHex challengeHex = Inr digest"
    "find_issuance fixture_VaultID digest (svc_rows s) = Some row" "iss_state row = stateCompleted" "signed_psbt row = Some stored"
    "NewFromRawBytes (sl_G X) stored = Inr ptx" "RequireVerifiedPrevout (sl_L X) (sl_B X) (Some ptx) = Inr prev"
    "classifySpend (sl_L X) (sl_B X) (sl_G X) (Some ptx) (Some op) = Inr cl"
    "Challenge (sl_L X) ptx (Some op) = Inr digest"
    "UnsignedTx ptx = Some t" "TxIn t = [i]" "FindEmulatorPacket (sl_L X) t = Inr (Some [e])" "ent_Witness e = [w]"
    "direct_approves (sl_W X) (PhoneDirectP256 (bt_Record op)) digest w"
    "verifyRoutinePartials (sl_L X) (sl_B X) (Some ptx) (Some op) = Inr ()"
    "pk_Inputs ptx = [inp]" "WitnessUtxo inp = Some po"
    "StandardExecute (sl_B X) (PkScript po) (t\<lparr>TxIn := [i\<lparr>Witness := wit\<rparr>]\<rparr>) hs (out_value po) f = Inr ()"
    "Ser (t\<lparr>TxIn := [i\<lparr>Witness := wit\<rparr>]\<rparr>) = Inr raw" "txid = hash_String (TxHash (sl_L X) (t\<lparr>TxIn := [i\<lparr>Witness := wit\<rparr>]\<rparr>))"
proof -
  obtain op where op: "sn_Operational (enrolled s) = Some op"
    using run by (auto simp: preparePublication_def split: option.splits)
  obtain digest where d: "decodeHex challengeHex = Inr digest" "length digest = 32"
    using run op by (auto simp: preparePublication_def split: sum.splits if_splits)
  obtain stored ok where c: "Completed fixture_VaultID digest (svc_rows s) = (stored, ok)" "ok" "stored \<noteq> ''''"
    using run op d by (cases "Completed fixture_VaultID digest (svc_rows s)") (auto simp: preparePublication_def split: if_splits)
  obtain row where row: "find_issuance fixture_VaultID digest (svc_rows s) = Some row" "iss_state row = stateCompleted"
    "signed_psbt row = Some stored"
    using c by (auto simp: Completed_def split: option.splits if_splits)
  obtain ptx t' where p: "stored_spend X op digest stored = Inr ptx" "finalized_spend X op ptx = Inr t'" "Ser t' = Inr raw"
    "txid = hash_String (TxHash (sl_L X) t')"
    using run op d c by (auto simp: preparePublication_def bindE_Inr_iff)
  obtain cl prev w where s: "NewFromRawBytes (sl_G X) stored = Inr ptx" "RequireVerifiedPrevout (sl_L X) (sl_B X) (Some ptx) = Inr prev"
    "classifySpend (sl_L X) (sl_B X) (sl_G X) (Some ptx) (Some op) = Inr cl" "Challenge (sl_L X) ptx (Some op) = Inr digest"
    "one_witness X ptx = Inr w" "verifyDirectAuth (sl_W X) (PhoneDirectP256 (bt_Record op)) digest w = Inr ()"
    using p(1) by (auto simp: stored_spend_def classified_packet_def parseAndVerifyPrevout_def verifyStoredDirectWitness_def
        ptxDirectPub_def bindE_Inr_iff split: if_splits)
  obtain q where q: "FinalizeRoutine (sl_L X) (sl_B X) (Some ptx) (Some op) = Inr q" "ExtractFinalizedTx (sl_L X) (Some q) = Inr t'"
    "executeFinalizedInput (sl_L X) (sl_B X) (Some q) = Inr ()"
    using p(2) codec by (auto simp: finalized_spend_def clonePacket_def ExecuteFinalizedRoutine_def bindE_Inr_iff)
  obtain t e where t: "UnsignedTx ptx = Some t" "FindEmulatorPacket (sl_L X) t = Inr (Some [e])" "ent_Witness e = [w]"
    by (rule one_witness_Inr[OF s(5)])
  obtain i inp wit0 where i: "TxIn t = [i]" "pk_Inputs ptx = [inp]" "q = ptx\<lparr>pk_Inputs := [inp\<lparr>FinalScriptWitness := wit0\<rparr>]\<rparr>"
    using finalize_witness_only[OF q(1)] t(1) by auto
  obtain wit where t': "t' = t\<lparr>TxIn := [i\<lparr>Witness := wit\<rparr>]\<rparr>"
    using extract_witness_only[OF q(2), of t i] t(1) i by auto
  obtain po hs f where x: "WitnessUtxo inp = Some po" "StandardExecute (sl_B X) (PkScript po) t' hs (out_value po) f = Inr ()"
    using q(2,3) i by (auto simp: executeFinalizedInput_def at_idx_def bindE_Inr_iff Let_def split: option.splits)
  moreover have "verifyRoutinePartials (sl_L X) (sl_B X) (Some ptx) (Some op) = Inr ()"
    using q(1) by (auto simp: FinalizeRoutine_def bindE_Inr_iff)
  ultimately show thesis
    using that[OF op d(1) row s(1-4) t(1) i(1) t(2,3) direct_approvesI[OF s(6)] _ i(2)] p(3,4) t' by blast
qed

text \<open>C6: Only an authorized, completed spend is ever published.  When Publish sends a transaction to the
node or reports success, the challenge names a completed issuance of the enrolled vault in the ledger;
its stored packet has a verified previous output, is classified as a spend of the vault within its
policy, has this very challenge, and carries the direct key's signature of it and the complete routine
signatures; what is sent, at most once and only when the node does not know it yet, is the transaction
of that packet with nothing changed but the witness of its input, which the script engine has
accepted; and a reported success names its txid, found by the node.  The codec of packets is assumed
to return what it was given.\<close>

theorem published_spend_authorized:
  assumes codec: "\<And>p e. B64Encode (sl_G X) p = Inr e \<Longrightarrow> NewFromRawBytes (sl_G X) e = Inr p"
    and run: "Publish X E Ser node challengeHex s n = (res, s', n', sent)"
    and some: "sent \<noteq> [] \<or> res = Inr out"
  shows "\<exists>op digest row stored ptx prev cl t i e w wit inp po hs f raw N txid.
    sn_Operational (enrolled s) = Some op \<and> decodeHex challengeHex = Inr digest \<and>
    find_issuance fixture_VaultID digest (svc_rows s) = Some row \<and> iss_state row = stateCompleted \<and> signed_psbt row = Some stored \<and>
    NewFromRawBytes (sl_G X) stored = Inr ptx \<and> RequireVerifiedPrevout (sl_L X) (sl_B X) (Some ptx) = Inr prev \<and>
    classifySpend (sl_L X) (sl_B X) (sl_G X) (Some ptx) (Some op) = Inr cl \<and> Challenge (sl_L X) ptx (Some op) = Inr digest \<and>
    UnsignedTx ptx = Some t \<and> TxIn t = [i] \<and> FindEmulatorPacket (sl_L X) t = Inr (Some [e]) \<and> ent_Witness e = [w] \<and>
    direct_approves (sl_W X) (PhoneDirectP256 (bt_Record op)) digest w \<and>
    verifyRoutinePartials (sl_L X) (sl_B X) (Some ptx) (Some op) = Inr () \<and> pk_Inputs ptx = [inp] \<and> WitnessUtxo inp = Some po \<and>
    StandardExecute (sl_B X) (PkScript po) (t\<lparr>TxIn := [i\<lparr>Witness := wit\<rparr>]\<rparr>) hs (out_value po) f = Inr () \<and>
    Ser (t\<lparr>TxIn := [i\<lparr>Witness := wit\<rparr>]\<rparr>) = Inr raw \<and> txid = hash_String (TxHash (sl_L X) (t\<lparr>TxIn := [i\<lparr>Witness := wit\<rparr>]\<rparr>)) \<and>
    node = Some N \<and> (sent = [] \<or> sent = [raw] \<and> (\<exists>c n1. nd_Lookup N txid n = (Inr (c, False), n1))) \<and>
    (case res of Inl _ \<Rightarrow> True
     | Inr r \<Rightarrow> pb_Txid r = txid \<and> (\<exists>n1. nd_Lookup N txid n1 = (Inr (pb_Confirmations r, True), n')))"
proof -
  obtain s1 where s1: "attachLedgerIntegrity X s = Inr s1"
    using run some by (auto simp: Publish_def split: sum.splits)
  obtain raw txid where p: "preparePublication X Ser s1 challengeHex = Inr (raw, txid)"
    using run some s1 by (cases "preparePublication X Ser s1 challengeHex") (auto simp: Publish_def)
  have d: "dispatchPublication X E s1 node raw txid n = (res, n', sent)"
    using run s1 p by (auto simp: Publish_def split: prod.splits)
  obtain N where N: "node = Some N" using dispatch_sound(2,3)[OF d] some by auto
  have sent: "sent = [] \<or> sent = [raw] \<and> (\<exists>c n1. nd_Lookup N txid n = (Inr (c, False), n1))"
    using dispatch_sound(1,2)[OF d] N by auto
  have result: "case res of Inl _ \<Rightarrow> True
     | Inr r \<Rightarrow> pb_Txid r = txid \<and> (\<exists>n1. nd_Lookup N txid n1 = (Inr (pb_Confirmations r, True), n'))"
    using dispatch_sound(3)[OF d] N by (cases res) auto
  show ?thesis
  proof (rule prepare_sound[OF codec p], goal_cases)
    case (2 op digest row stored ptx prev cl t i e w wit inp po hs f)
    show ?case
      by (rule exI[of _ op], rule exI[of _ digest], rule exI[of _ row], rule exI[of _ stored], rule exI[of _ ptx], rule exI[of _ prev],
        rule exI[of _ cl], rule exI[of _ t], rule exI[of _ i], rule exI[of _ e], rule exI[of _ w], rule exI[of _ wit],
        rule exI[of _ inp], rule exI[of _ po], rule exI[of _ hs], rule exI[of _ f], rule exI[of _ raw], rule exI[of _ N],
        rule exI[of _ txid], intro conjI) (rule 2[unfolded attach_keeps[OF s1]] N sent result)+
  qed
qed

text \<open>A completed issuance of the concrete service, and a node that fails.\<close>

definition svc_row :: issuance where
  "svc_row = \<lparr>iss_vault_id = fixture_VaultID, arkade_sighash = svc_challenge, period_start = ''d'', recipient_amount = 1000,
     iss_fee = 500, iss_state = stateCompleted, request_psbt = ''a'', vault_psbt = Some ''b'', signed_psbt = Some ''c'',
     created_at = ''t'', updated_at = ''t''\<rparr>"

definition svc_completed :: service where "svc_completed = svc_state\<lparr>svc_rows := [svc_row]\<rparr>"

definition svc_node :: "nat node" where
  "svc_node = \<lparr>nd_Lookup = (\<lambda>_ n. (Inr (0, False), n)), nd_Broadcast = (\<lambda>_ n. (go_err ''refused'', Suc n))\<rparr>"

lemma svc_codec: "B64Encode svc_guard p = Inr e \<Longrightarrow> NewFromRawBytes svc_guard e = Inr p"
  by (auto simp: svc_guard_def split: if_splits)

lemma svc_signed: "verifyRoutinePartials pol_lib pol_psbt_lib (Some (svc_psbt [10, 41, 51])) (Some svc_vault) = Inr ()"
proof -
  have v: "PhoneRoutineBIP340 (bt_Record svc_vault) = Some (10, 0)" by (simp add: pol_vault_def)
  have keys: "distinct (map (schnorr_SerializePubKey pol_lib) [(10, 0), (41, 0), (51, 0)])" by (simp add: le_fixed_eq_iff)
  have s: "leaf_signed pol_lib svc_digest svc_leaf (k, 0) (svc_sign k)" if "k < 2 ^ 256" for k
    using svc_sign_ok[OF that] by (simp add: leaf_signed_def svc_sign_def svc_digest_def del: le_fixed.simps power_numeral)
  have "three_signed pol_lib svc_digest svc_leaf (10, 0) (41, 0) (51, 0) (map (Some \<circ> svc_sign) [10, 41, 51])"
    unfolding three_signed_def
    by (rule exI[of _ "svc_sign 10"], rule exI[of _ "svc_sign 41"], rule exI[of _ "svc_sign 51"]) (simp add: s add_mset_commute)
  then show ?thesis
    using svc_tapscript_digest
    by (subst routine_partials_iff[OF svc_vault_simps(2) v svc_vault_simps(4,5) keys]) auto
qed

lemma svc_finalized: "\<exists>t. finalized_spend svc_X svc_vault (svc_psbt [10, 41, 51]) = Inr t"
proof -
  let ?p = "svc_psbt [10, 41, 51]"
  have "\<exists>m. sigs_by_key m0 (map (Some \<circ> svc_sign) ks) = Inr m" for m0 ks
    by (induction ks arbitrary: m0) auto
  then obtain m where m: "sigs_by_key Map.empty (map (Some \<circ> svc_sign) [10, 41, 51]) = Inr m" by blast
  obtain w where w: "closure_Witness pol_psbt_lib (leaf_Closure svc_leaf) (lf_ControlBlock svc_leaf) m = Inr w"
    by (simp add: pol_psbt_lib_def ex_psbt_lib_def ex_closure_witness_def svc_leaf_def ex_leaf_of_def)
  let ?q = "?p\<lparr>pk_Inputs := [svc_input [10, 41, 51]\<lparr>FinalScriptWitness := ex_WriteTxWitness w\<rparr>]\<rparr>"
  have q: "FinalizeRoutine pol_lib pol_psbt_lib (Some ?p) (Some svc_vault) = Inr ?q"
    using svc_signed m w by (simp add: FinalizeRoutine_def writeFinalWitness_def set_input0_def)
  have n: "ex_WriteTxWitness w \<noteq> []" by (simp add: ex_WriteTxWitness_def)
  have e: "ExtractFinalizedTx pol_lib (Some ?q) = Inr (pol_tx\<lparr>TxIn := [pol_in\<lparr>Witness := w\<rparr>]\<rparr>)"
    using n ex_witness by (simp add: ExtractFinalizedTx_def)
  have x: "ExecuteFinalizedRoutine pol_lib pol_psbt_lib (Some ?q) (Some svc_vault) = Inr ()"
    using e by (simp add: ExecuteFinalizedRoutine_def executeFinalizedInput_def at_idx_def pol_psbt_lib_def ex_psbt_lib_def Let_def)
  have "clonePacket svc_guard (Some ?p) = Inr ?p"
  proof -
    have "?p \<noteq> svc_psbt [10]" by (simp add: svc_psbt_def svc_input_def pol_input_def)
    then show ?thesis by (simp add: clonePacket_def svc_guard_def)
  qed
  then show ?thesis using q x e by (simp add: finalized_spend_def)
qed

lemma svc_publishes: "\<exists>res s' n'. Publish svc_X svc_E (\<lambda>_. Inr [1]) (Some svc_node) (hex_EncodeToString svc_challenge) svc_completed 0
    = (res, s', n', [[1]])"
proof -
  let ?s = "svc_completed\<lparr>ledger_key := replicate 32 0\<rparr>"
  obtain t where t: "finalized_spend svc_X svc_vault (svc_psbt [10, 41, 51]) = Inr t" using svc_finalized by blast
  obtain cl where cl: "classifySpend pol_lib pol_psbt_lib svc_guard (Some (svc_psbt [10, 41, 51])) (Some svc_vault) = Inr cl"
    using svc_classified by blast
  have a: "attachLedgerIntegrity svc_X svc_completed = Inr ?s"
    by (simp add: attachLedgerIntegrity_def credentialIntegrityKey_def SetIntegrityKey_def svc_completed_def svc_state_def sha256_Size_def)
  have e: "sn_Operational (enrolled ?s) = Some svc_vault"
    by (simp add: enrolled_def snapshot_def svc_completed_def svc_state_def new_snapshot_def Let_def)
  have c: "Completed fixture_VaultID svc_challenge (svc_rows ?s) = (''c'', True)"
    by (simp add: Completed_def find_issuance_def svc_completed_def svc_row_def issuance_key_def)
  have d: "verifyDirectAuth svc_wa (PhoneDirectP256 (bt_Record svc_vault)) svc_challenge pol_sig = Inr ()"
  proof -
    have "be_val (take 32 pol_sig) = 1" "be_val (drop 32 pol_sig) = 1" "length pol_sig = 64"
      by (simp_all add: pol_sig_def be_val_def)
    then show ?thesis
      by (simp add: verifyDirectAuth_def ParseCompressedP256_def pol_vault_def svc_wa_def ex_wa_def VerifyDigestLowS_def
          svc_challenge_eq(2) compact_scalars_def p256_N_def)
  qed
  have r: "NewFromRawBytes svc_guard ''c'' = Inr (svc_psbt [10, 41, 51])" by (simp add: svc_guard_def)
  have k: "ptxDirectPub (Some svc_vault) = Inr (PhoneDirectP256 (bt_Record svc_vault))" by (simp add: ptxDirectPub_def pol_vault_def)
  have "stored_spend svc_X svc_vault svc_challenge ''c'' = Inr (svc_psbt [10, 41, 51])"
    using r svc_verified cl svc_challenge_eq(1) svc_witness d k
    by (simp add: stored_spend_def classified_packet_def parseAndVerifyPrevout_def verifyStoredDirectWitness_def no_final_script_def at_idx_def)
  moreover have "svc_challenge \<noteq> []" using svc_challenge_eq(2) by auto
  ultimately have p: "preparePublication svc_X (\<lambda>_. Inr [1]) ?s (hex_EncodeToString svc_challenge) = Inr ([1], hash_String (TxHash pol_lib t))"
    using e c t by (simp add: preparePublication_def decodeHex_encode svc_challenge_eq(2))
  have "hash_String (replicate 32 0) \<noteq> ''''" by (simp add: hash_String_def hex_EncodeToString_def numeral_eq_Suc)
  then show ?thesis
    using a p by (simp add: Publish_def dispatchPublication_def svc_node_def looked_up_def)
qed

lemma published_spend_authorized_witness:
  "\<exists>ptx t w. NewFromRawBytes svc_guard ''c'' = Inr ptx \<and> UnsignedTx ptx = Some t \<and>
     direct_approves svc_wa (PhoneDirectP256 (bt_Record svc_vault)) svc_challenge w \<and>
     verifyRoutinePartials pol_lib pol_psbt_lib (Some ptx) (Some svc_vault) = Inr ()"
proof -
  obtain res s' n' where run: "Publish svc_X svc_E (\<lambda>_. Inr [1]) (Some svc_node) (hex_EncodeToString svc_challenge) svc_completed 0
    = (res, s', n', [[1]])" using svc_publishes by blast
  have some: "[[1 :: byte]] \<noteq> [] \<or> res = Inr undefined" by simp
  have codec: "\<And>p e. B64Encode (sl_G svc_X) p = Inr e \<Longrightarrow> NewFromRawBytes (sl_G svc_X) e = Inr p" using svc_codec by simp
  have op: "sn_Operational (enrolled svc_completed) = Some svc_vault"
    by (simp add: enrolled_def snapshot_def svc_completed_def svc_state_def new_snapshot_def Let_def)
  obtain op' digest and row :: issuance and stored ptx t w where a: "sn_Operational (enrolled svc_completed) = Some op'"
    "decodeHex (hex_EncodeToString svc_challenge) = Inr digest"
    "find_issuance fixture_VaultID digest (svc_rows svc_completed) = Some row" "signed_psbt row = Some stored"
    "NewFromRawBytes svc_guard stored = Inr ptx" "UnsignedTx ptx = Some t"
    "direct_approves svc_wa (PhoneDirectP256 (bt_Record op')) digest w"
    "verifyRoutinePartials pol_lib pol_psbt_lib (Some ptx) (Some op') = Inr ()"
    by (rule exE[OF published_spend_authorized[OF codec run some]], assumption, unfold svc_X_simps, elim exE conjE, rule that)
  have "svc_challenge \<noteq> []" using svc_challenge_eq(2) by auto
  then have "digest = svc_challenge" using a(2) by (simp add: decodeHex_encode)
  then have "stored = ''c''"
    using a(3,4) by (simp add: find_issuance_def svc_completed_def svc_row_def issuance_key_def) auto
  then show ?thesis using a op \<open>digest = svc_challenge\<close> by auto
qed

end
