(* ===== verification/VaultSchema.thy ===== *)
theory VaultSchema
imports GoText "HOL-Library.Multiset"
begin

text \<open>Model of poc/2fa-vault/internal/policy/schema_struct.go and the schema helpers of ledger.go: the
comparison of the structure of a database with the structure this program expects, and the scanner that
extracts and normalises the CHECK clauses of a CREATE statement.

What SQLite reports of a table is a parameter.  A Go string is the list of its bytes, as characters.
strings.ToUpper and ToLower are the ASCII mapping on ASCII text; on other text, where they follow the
Unicode tables and may change its length, they are a parameter.  The scanners walk an index over a
string; each terminates because a skipped quotation or comment moves the index forward.\<close>

text \<open>The case mappings of text that is not ASCII.\<close>

record unicode_case =
  uc_upper :: "string \<Rightarrow> string"
  uc_lower :: "string \<Rightarrow> string"

definition text_upper :: "unicode_case \<Rightarrow> string \<Rightarrow> string" where
  "text_upper U s = (if ascii_text s then ToUpper s else uc_upper U s)"

definition text_lower :: "unicode_case \<Rightarrow> string \<Rightarrow> string" where
  "text_lower U s = (if ascii_text s then ToLower s else uc_lower U s)"

subsection \<open>Characters\<close>

definition isSQLIdentChar :: "char \<Rightarrow> bool" where
  "isSQLIdentChar c \<longleftrightarrow> char_between CHR ''A'' c CHR ''Z'' \<or> char_between CHR ''a'' c CHR ''z'' \<or>
     char_between CHR ''0'' c CHR ''9'' \<or> c = CHR ''_''"

definition is_space :: "char \<Rightarrow> bool" where
  "is_space c \<longleftrightarrow> c = CHR '' '' \<or> c = CHR 0x0A \<or> c = CHR 0x09 \<or> c = CHR 0x0D"

subsection \<open>Scanning\<close>

definition hasKeywordAt :: "string \<Rightarrow> nat \<Rightarrow> string \<Rightarrow> bool" where
  "hasKeywordAt upper i word =
     (if i + length word > length upper \<or> take (length word) (drop i upper) \<noteq> word then False
      else if i > 0 \<and> isSQLIdentChar (upper ! (i - 1)) then False
      else if i + length word < length upper \<and> isSQLIdentChar (upper ! (i + length word)) then False
      else True)"

text \<open>The loops that advance while a condition holds.\<close>

function scan_while :: "(char \<Rightarrow> bool) \<Rightarrow> string \<Rightarrow> nat \<Rightarrow> nat" where
  "scan_while P s i = (if i < length s \<and> P (s ! i) then scan_while P s (i + 1) else i)"
  by pat_completeness auto
termination by (relation "measure (\<lambda>(P, s, i). length s - i)") auto

declare scan_while.simps [simp del]

definition skipSQLSpace :: "string \<Rightarrow> nat \<Rightarrow> nat" where
  "skipSQLSpace s i = scan_while is_space s i"

function quoted_loop :: "string \<Rightarrow> nat \<Rightarrow> char \<Rightarrow> nat" where
  "quoted_loop s i quote =
     (if i < length s then
        (if s ! i \<noteq> quote then quoted_loop s (i + 1) quote
         else if i + 1 < length s \<and> s ! (i + 1) = quote then quoted_loop s (i + 2) quote
         else i + 1)
      else length s)"
  by pat_completeness auto
termination by (relation "measure (\<lambda>(s, i, q). length s - i)") auto

declare quoted_loop.simps [simp del]

definition skipSQLQuoted :: "string \<Rightarrow> nat \<Rightarrow> char \<Rightarrow> nat" where
  "skipSQLQuoted s i quote = quoted_loop s (i + 1) quote"

definition skipQuotedSQL :: "string \<Rightarrow> nat \<Rightarrow> bool \<times> nat" where
  "skipQuotedSQL s i =
     (if i \<ge> length s then (False, i)
      else let c = s ! i in
        if c = CHR 0x27 \<or> c = CHR 0x22 \<or> c = CHR 0x60 then (True, skipSQLQuoted s i c)
        else if c = CHR ''['' then
          (let j = scan_while (\<lambda>c. c \<noteq> CHR '']'') s (i + 1) in
           if j < length s then (True, j + 1) else (True, length s))
        else if c = CHR ''-'' \<and> i + 1 < length s \<and> s ! (i + 1) = CHR ''-'' then
          (True, scan_while (\<lambda>c. c \<noteq> CHR 0x0A) s (i + 2))
        else (False, i))"

definition readSQLIdent :: "string \<Rightarrow> nat \<Rightarrow> string \<times> nat \<times> bool" where
  "readSQLIdent s i =
     (if i \<ge> length s then ([], i, False)
      else let c = s ! i in
        if c = CHR 0x22 \<or> c = CHR 0x60 \<or> c = CHR 0x27 then
          (let stop = skipSQLQuoted s i c in
           if stop \<le> i + 1 then ([], i, False) else (take (stop - 1 - (i + 1)) (drop (i + 1) s), stop, True))
        else if c = CHR ''['' then
          (let j = scan_while (\<lambda>c. c \<noteq> CHR '']'') s (i + 1) in
           if j \<ge> length s then ([], i, False) else (take (j - (i + 1)) (drop (i + 1) s), j + 1, True))
        else if \<not> isSQLIdentChar c then ([], i, False)
        else let j = scan_while isSQLIdentChar s i in (take (j - i) (drop i s), j, True))"

text \<open>A skip moves the index forward and stays in the string.\<close>

lemma scan_while_bounds: "i \<le> length s \<Longrightarrow> i \<le> scan_while P s i \<and> scan_while P s i \<le> length s"
  by (induction P s i rule: scan_while.induct) (subst (1 2) scan_while.simps, auto)

lemma quoted_loop_bounds: "i \<le> length s \<Longrightarrow> i \<le> quoted_loop s i q \<and> quoted_loop s i q \<le> length s"
proof (induction s i q rule: quoted_loop.induct)
  case (1 s i q)
  then show ?case by (subst (1 2) quoted_loop.simps) (auto dest: Suc_lessI)
qed

lemma skipQuotedSQL_bounds:
  assumes "skipQuotedSQL s i = (True, n)"
  shows "i < n \<and> n \<le> length s"
proof -
  have i: "i < length s" using assms by (auto simp: skipQuotedSQL_def split: if_splits)
  then have q: "i + 1 \<le> quoted_loop s (i + 1) q \<and> quoted_loop s (i + 1) q \<le> length s" for q
    by (intro quoted_loop_bounds) simp
  have w: "i + 1 \<le> scan_while P s (i + 1) \<and> scan_while P s (i + 1) \<le> length s" for P
    using i by (intro scan_while_bounds) simp
  have w2: "i + 2 \<le> length s \<Longrightarrow> i + 2 \<le> scan_while P s (i + 2) \<and> scan_while P s (i + 2) \<le> length s" for P
    by (intro scan_while_bounds)
  show ?thesis
    using assms i q w[of "\<lambda>c. c \<noteq> CHR '']''"] w2[of "\<lambda>c. c \<noteq> CHR 0x0A"]
    by (auto simp: skipQuotedSQL_def Let_def skipSQLQuoted_def Suc_le_eq less_SucI split: if_splits)
qed

text \<open>The position of the parenthesis that closes the one at open; None is (-1, false).\<close>

function paren_loop :: "string \<Rightarrow> nat \<Rightarrow> int \<Rightarrow> nat option" where
  "paren_loop s i depth =
     (if i < length s then
        (case skipQuotedSQL s i of
           (True, n) \<Rightarrow> paren_loop s n depth
         | (False, _) \<Rightarrow>
             if s ! i = CHR ''('' then paren_loop s (i + 1) (depth + 1)
             else if s ! i = CHR '')'' then
               (if depth - 1 = 0 then Some i else paren_loop s (i + 1) (depth - 1))
             else paren_loop s (i + 1) depth)
      else None)"
  by pat_completeness auto
termination
  by (relation "measure (\<lambda>(s, i, d). length s - i)") (auto dest!: sym[of "(True, _)"] skipQuotedSQL_bounds)

declare paren_loop.simps [simp del]

definition matchParen :: "string \<Rightarrow> nat \<Rightarrow> nat option" where
  "matchParen s open = (if open \<ge> length s \<or> s ! open \<noteq> CHR ''('' then None else paren_loop s open 0)"

text \<open>byte(c) of a rune, lowered when it is an ASCII capital: other runes are cut to their low byte.\<close>

definition lowered_byte :: "nat \<Rightarrow> char" where
  "lowered_byte c = char_of ((if 0x41 \<le> c \<and> c \<le> 0x5A then c + 0x20 else c) mod 256)"

function normalize_loop :: "string \<Rightarrow> nat \<Rightarrow> string" where
  "normalize_loop s i =
     (if i < length s then
        (case skipQuotedSQL s i of
           (True, n) \<Rightarrow> map lowered_byte (runes (take (n - i) (drop i s))) @ normalize_loop s n
         | (False, _) \<Rightarrow>
             (let c = lower_char (s ! i) in (if is_space c then [] else [c]) @ normalize_loop s (i + 1)))
      else [])"
  by pat_completeness auto
termination
  by (relation "measure (\<lambda>(s, i). length s - i)") (auto dest!: sym[of "(True, _)"] skipQuotedSQL_bounds)

declare normalize_loop.simps [simp del]

definition normalizeCheck :: "string \<Rightarrow> string" where
  "normalizeCheck s = normalize_loop s 0"

text \<open>s[a : b+1].\<close>

definition segment :: "string \<Rightarrow> nat \<Rightarrow> nat \<Rightarrow> string" where
  "segment s a b = take (b + 1 - a) (drop a s)"

lemma paren_loop_bounds: "paren_loop s i d = Some e \<Longrightarrow> i \<le> e \<and> e < length s"
proof (induction s i d rule: paren_loop.induct)
  case (1 s i d)
  have run: "paren_loop s i d = Some e" by (rule "1.prems")
  then have i: "i < length s" by (subst (asm) paren_loop.simps) (simp split: if_splits)
  obtain b n where sk: "skipQuotedSQL s i = (b, n)" by (metis prod.exhaust)
  show ?case
  proof (cases b)
    case True
    then have "n \<le> e \<and> e < length s"
      using run i sk "1.IH"(1)[OF i, of b n] by (subst (asm) paren_loop.simps) simp
    then show ?thesis using skipQuotedSQL_bounds[of s i n] sk True by simp
  next
    case False
    note IH = "1.IH"(2,3,4)[OF i, of b n]
    have "e = i \<or> i + 1 \<le> e \<and> e < length s"
      using run i sk False IH by (subst (asm) paren_loop.simps) (simp split: if_splits)
    then show ?thesis using i by auto
  qed
qed

definition check_at :: "unicode_case \<Rightarrow> string \<Rightarrow> nat \<Rightarrow> (nat \<times> nat) option" where
  "check_at U s i =
     (if hasKeywordAt (text_upper U s) i ''CHECK'' then
        (let j = skipSQLSpace s (i + 5) in
         if j < length s \<and> s ! j = CHR ''('' then map_option (Pair j) (matchParen s j) else None)
      else None)"

lemma skipSQLSpace_le: "i \<le> skipSQLSpace s i"
proof (cases "i \<le> length s")
  case True
  then show ?thesis using scan_while_bounds[OF True] by (simp add: skipSQLSpace_def)
next
  case False
  then show ?thesis by (subst skipSQLSpace_def, subst scan_while.simps) simp
qed

lemma check_at_bounds: "check_at U s i = Some (j, e) \<Longrightarrow> i < e"
proof -
  assume "check_at U s i = Some (j, e)"
  then have "j = skipSQLSpace s (i + 5)" "paren_loop s j 0 = Some e"
    by (auto simp: check_at_def Let_def matchParen_def split: if_splits)
  then show "i < e"
    using skipSQLSpace_le[of "i + 5" s] paren_loop_bounds[of s j 0 e] by linarith
qed

function checks_loop :: "unicode_case \<Rightarrow> string \<Rightarrow> nat \<Rightarrow> string list" where
  "checks_loop U s i =
     (if i < length s then
        (case skipQuotedSQL s i of
           (True, n) \<Rightarrow> checks_loop U s n
         | (False, _) \<Rightarrow>
             (case check_at U s i of
                Some (j, e) \<Rightarrow> normalizeCheck (segment s j e) # checks_loop U s (e + 1)
              | None \<Rightarrow> checks_loop U s (i + 1)))
      else [])"
  by pat_completeness auto
termination
  by (relation "measure (\<lambda>(U, s, i). length s - i)")
     (auto dest!: sym[of "(True, _)"] sym[of "Some _"] skipQuotedSQL_bounds check_at_bounds)

declare checks_loop.simps [simp del]

definition extractNormalizedChecks :: "unicode_case \<Rightarrow> string \<Rightarrow> string list" where
  "extractNormalizedChecks U createSQL = checks_loop U createSQL 0"

text \<open>CREATE TABLE [IF NOT EXISTS] name ( ... ): the name and the bounds of the parenthesis.\<close>

definition table_at :: "unicode_case \<Rightarrow> string \<Rightarrow> nat \<Rightarrow> (string \<times> nat \<times> nat) option" where
  "table_at U s i =
     (if \<not> hasKeywordAt (text_upper U s) i ''CREATE'' then None
      else let j = skipSQLSpace s (i + 6) in
        if \<not> hasKeywordAt (text_upper U s) j ''TABLE'' then None
        else let j = skipSQLSpace s (j + 5);
               j = (if hasKeywordAt (text_upper U s) j ''IF'' then
                      (let j = skipSQLSpace s (j + 2) in
                       if hasKeywordAt (text_upper U s) j ''NOT'' then
                         (let j = skipSQLSpace s (j + 3) in
                          if hasKeywordAt (text_upper U s) j ''EXISTS'' then skipSQLSpace s (j + 6) else j)
                       else j)
                    else j) in
          (case readSQLIdent s j of (name, n, ok) \<Rightarrow>
             if \<not> ok then None
             else let j = skipSQLSpace s n in
               if j \<ge> length s \<or> s ! j \<noteq> CHR ''('' then None
               else map_option (\<lambda>e. (name, j, e)) (matchParen s j)))"

lemma readSQLIdent_le:
  assumes "readSQLIdent s i = (name, n, True)"
  shows "i \<le> n"
proof -
  have i: "i < length s" using assms by (auto simp: readSQLIdent_def split: if_splits)
  then have w: "i \<le> scan_while P s i" "i + 1 \<le> scan_while P s (i + 1)" for P
    using scan_while_bounds[of i s P] scan_while_bounds[of "i + 1" s P] by simp_all
  show ?thesis
    using assms i w[of "\<lambda>c. c \<noteq> CHR '']''"] w[of isSQLIdentChar]
    by (auto simp: readSQLIdent_def Let_def split: if_splits)
qed

lemma table_at_bounds:
  assumes "table_at U s i = Some (name, j, e)"
  shows "i < e"
proof -
  obtain j1 n where j1: "i + 6 \<le> j1" "readSQLIdent s j1 = (name, n, True)" "j = skipSQLSpace s n" "paren_loop s j 0 = Some e"
  proof -
    let ?a = "skipSQLSpace s (i + 6)"
    let ?b = "skipSQLSpace s (?a + 5)"
    let ?c = "if hasKeywordAt (text_upper U s) ?b ''IF'' then
                      (let j = skipSQLSpace s (?b + 2) in
                       if hasKeywordAt (text_upper U s) j ''NOT'' then
                         (let j = skipSQLSpace s (j + 3) in
                          if hasKeywordAt (text_upper U s) j ''EXISTS'' then skipSQLSpace s (j + 6) else j)
                       else j)
                    else ?b"
    have "?b \<le> ?c"
      using skipSQLSpace_le[of "?b + 2" s] skipSQLSpace_le[of "skipSQLSpace s (?b + 2) + 3" s]
        skipSQLSpace_le[of "skipSQLSpace s (skipSQLSpace s (?b + 2) + 3) + 6" s] by (auto simp: Let_def)
    then have le: "i + 6 \<le> ?c"
      using skipSQLSpace_le[of "i + 6" s] skipSQLSpace_le[of "?a + 5" s] by linarith
    obtain nm n ok where rd: "readSQLIdent s ?c = (nm, n, ok)" by (metis prod_cases3)
    have "ok \<and> name = nm \<and> j = skipSQLSpace s n \<and> matchParen s j = Some e"
      using assms unfolding table_at_def Let_def rd[unfolded Let_def] prod.case
      by (auto split: if_splits)
    then show thesis
      using that[OF le] rd by (auto simp: matchParen_def split: if_splits)
  qed
  then show ?thesis
    using readSQLIdent_le[OF j1(2)] skipSQLSpace_le[of n s] paren_loop_bounds[OF j1(4)] by linarith
qed

function tables_loop :: "unicode_case \<Rightarrow> string \<Rightarrow> nat \<Rightarrow> (string \<times> string list) list" where
  "tables_loop U s i =
     (if i < length s then
        (case skipQuotedSQL s i of
           (True, n) \<Rightarrow> tables_loop U s n
         | (False, _) \<Rightarrow>
             (case table_at U s i of
                None \<Rightarrow> tables_loop U s (i + 1)
              | Some (name, j, e) \<Rightarrow>
                  (text_lower U name, extractNormalizedChecks U (segment s j e)) # tables_loop U s (e + 1)))
      else [])"
  by pat_completeness auto
termination
  by (relation "measure (\<lambda>(U, s, i). length s - i)")
     (auto dest!: sym[of "(True, _)"] sym[of "Some _"] skipQuotedSQL_bounds table_at_bounds)

declare tables_loop.simps [simp del]

text \<open>The map from table names to checks; a later table of the same name replaces an earlier one.\<close>

definition extractChecksByTable :: "unicode_case \<Rightarrow> string \<Rightarrow> string \<Rightarrow> string list option" where
  "extractChecksByTable U schemaSQL = map_of (rev (tables_loop U schemaSQL 0))"

subsection \<open>Comparing structures\<close>

record colSpec =
  col_Name :: string
  col_Type :: string
  col_NotNull :: bool
  col_PK :: nat

record fkSpec =
  fk_Table :: string
  fk_From :: string
  fk_To :: string

record idxSpec =
  idx_Name :: string
  idx_Unique :: bool
  idx_Cols :: "string list"

definition spec :: "string \<Rightarrow> string \<Rightarrow> bool \<Rightarrow> nat \<Rightarrow> colSpec" where
  "spec name ctype notNull pk = \<lparr>col_Name = name, col_Type = ctype, col_NotNull = notNull, col_PK = pk\<rparr>"

definition expectedV4Tables :: "(string \<times> colSpec list \<times> fkSpec list \<times> idxSpec list) list" where
  "expectedV4Tables =
    [(''schema_meta'',
       [spec ''version'' ''INTEGER'' False 1],
       [],
       []),
     (''vault'',
       [spec ''vault_id'' ''TEXT'' True 1,
        spec ''template_version'' ''TEXT'' True 0,
        spec ''policy_version'' ''TEXT'' True 0,
        spec ''network'' ''TEXT'' True 0,
        spec ''rp_id'' ''TEXT'' True 0,
        spec ''origin'' ''TEXT'' True 0,
        spec ''phone_routine_bip340_compressed'' ''BLOB'' True 0,
        spec ''phone_direct_p256_compressed'' ''BLOB'' True 0,
        spec ''external_owner_wallet_compressed'' ''BLOB'' True 0,
        spec ''recovery_key_compressed'' ''BLOB'' True 0,
        spec ''vault_cosigner_base_compressed'' ''BLOB'' True 0,
        spec ''tweaked_vault_cosigner_compressed'' ''BLOB'' True 0,
        spec ''arkade_cosigner_base_compressed'' ''BLOB'' True 0,
        spec ''tweaked_arkade_cosigner_compressed'' ''BLOB'' True 0,
        spec ''arkade_cosigner_origin'' ''TEXT'' True 0,
        spec ''arkade_cosigner_version'' ''TEXT'' True 0,
        spec ''cosigner_mode'' ''TEXT'' True 0,
        spec ''operational_csv_type'' ''INTEGER'' True 0,
        spec ''operational_csv_value'' ''INTEGER'' True 0,
        spec ''savings_csv_type'' ''INTEGER'' True 0,
        spec ''savings_csv_value'' ''INTEGER'' True 0,
        spec ''operational_address'' ''TEXT'' True 0,
        spec ''operational_script'' ''BLOB'' True 0,
        spec ''savings_address'' ''TEXT'' True 0,
        spec ''savings_script'' ''BLOB'' True 0,
        spec ''recipient_dust_sats'' ''INTEGER'' True 0,
        spec ''tx_recipient_cap_sats'' ''INTEGER'' True 0,
        spec ''period_allowance_sats'' ''INTEGER'' True 0,
        spec ''absolute_fee_cap_sats'' ''INTEGER'' True 0,
        spec ''feerate_cap_sat_vb'' ''INTEGER'' True 0,
        spec ''integrity_mac'' ''BLOB'' True 0],
       [],
       []),
     (''vault_credential'',
       [spec ''credential_id'' ''BLOB'' True 1,
        spec ''vault_id'' ''TEXT'' True 0,
        spec ''webauthn_p256_compressed'' ''BLOB'' True 0,
        spec ''user_handle'' ''BLOB'' False 0,
        spec ''resident'' ''INTEGER'' True 0,
        spec ''integrity_mac'' ''BLOB'' True 0],
       [\<lparr>fk_Table = ''vault'', fk_From = ''vault_id'', fk_To = ''vault_id''\<rparr>],
       [\<lparr>idx_Name = ''vault_credential_vault'', idx_Unique = False, idx_Cols = [''vault_id'']\<rparr>]),
     (''vault_envelope'',
       [spec ''vault_id'' ''TEXT'' True 1,
        spec ''version'' ''INTEGER'' True 0,
        spec ''binding'' ''TEXT'' True 0,
        spec ''nonce'' ''BLOB'' True 0,
        spec ''ciphertext'' ''BLOB'' True 0,
        spec ''direct_signature'' ''BLOB'' True 0,
        spec ''phone_signature'' ''BLOB'' True 0,
        spec ''integrity_mac'' ''BLOB'' True 0],
       [\<lparr>fk_Table = ''vault'', fk_From = ''vault_id'', fk_To = ''vault_id''\<rparr>],
       []),
     (''invite'',
       [spec ''token_hash'' ''BLOB'' True 1,
        spec ''expires_at'' ''TEXT'' True 0,
        spec ''consumed_vault_id'' ''TEXT'' False 0,
        spec ''created_at'' ''TEXT'' True 0],
       [\<lparr>fk_Table = ''vault'', fk_From = ''consumed_vault_id'', fk_To = ''vault_id''\<rparr>],
       [\<lparr>idx_Name = '''', idx_Unique = True, idx_Cols = [''consumed_vault_id'']\<rparr>]),
     (''pending_enrollment'',
       [spec ''handle'' ''TEXT'' True 1,
        spec ''vault_id'' ''TEXT'' True 0,
        spec ''token_hash'' ''BLOB'' True 0,
        spec ''challenge'' ''BLOB'' True 0,
        spec ''expires_at'' ''TEXT'' True 0,
        spec ''created_at'' ''TEXT'' True 0],
       [\<lparr>fk_Table = ''invite'', fk_From = ''token_hash'', fk_To = ''token_hash''\<rparr>],
       [\<lparr>idx_Name = '''', idx_Unique = True, idx_Cols = [''vault_id'']\<rparr>, \<lparr>idx_Name = '''', idx_Unique = True, idx_Cols = [''token_hash'']\<rparr>])]"

text \<open>The first position not used yet whose element satisfies a condition.\<close>

fun first_unused :: "('a \<Rightarrow> bool) \<Rightarrow> bool list \<Rightarrow> 'a list \<Rightarrow> nat option" where
  "first_unused P (u # us) (x # xs) = (if \<not> u \<and> P x then Some 0 else map_option Suc (first_unused P us xs))"
| "first_unused P _ _ = None"

primrec match_each :: "string \<Rightarrow> 'a list \<Rightarrow> bool list \<Rightarrow> 'a list \<Rightarrow> bool list res" where
  "match_each err pool used [] = Inr used"
| "match_each err pool used (x # xs) =
     (case first_unused ((=) x) used pool of None \<Rightarrow> go_err err
      | Some i \<Rightarrow> match_each err pool (used[i := True]) xs)"

definition sameCheckSet :: "string list \<Rightarrow> string list \<Rightarrow> unit res" where
  "sameCheckSet got want =
     (if length got \<noteq> length want then go_err ''CHECK count''
      else bindE (match_each ''unexpected CHECK'' want (replicate (length want) False) got) (\<lambda>used.
        if list_all id used then Inr () else go_err ''missing CHECK''))"

definition matchForeignKeys :: "fkSpec list \<Rightarrow> fkSpec list \<Rightarrow> unit res" where
  "matchForeignKeys got want =
     (if length got \<noteq> length want then go_err ''foreign key count''
      else bindE (match_each ''missing foreign key'' got (replicate (length got) False) want) (\<lambda>_. Inr ()))"

fun match_columns :: "colSpec list \<Rightarrow> colSpec list \<Rightarrow> unit res" where
  "match_columns (g # gs) (w # ws) =
     (if col_Name g \<noteq> col_Name w \<or> col_Type g \<noteq> col_Type w \<or> col_PK g \<noteq> col_PK w then go_err ''column type/pk mismatch''
      else if col_PK w = 0 \<and> col_NotNull g \<noteq> col_NotNull w then go_err ''column nullability mismatch''
      else match_columns gs ws)"
| "match_columns _ _ = Inr ()"

definition matchColumns :: "colSpec list \<Rightarrow> colSpec list \<Rightarrow> unit res" where
  "matchColumns got want =
     (if length got \<noteq> length want then go_err ''column count'' else match_columns got want)"

fun sameStringSlice :: "string list \<Rightarrow> string list \<Rightarrow> bool" where
  "sameStringSlice (a # as) (b # bs) = (length as = length bs \<and> a = b \<and> sameStringSlice as bs)"
| "sameStringSlice [] [] = True"
| "sameStringSlice _ _ = False"

primrec matchIndexes :: "idxSpec list \<Rightarrow> idxSpec list \<Rightarrow> unit res" where
  "matchIndexes got [] = Inr ()"
| "matchIndexes got (w # ws) =
     (if list_ex (\<lambda>g. (idx_Name w = [] \<or> idx_Name g = idx_Name w) \<and> idx_Unique g = idx_Unique w \<and>
                      sameStringSlice (idx_Cols g) (idx_Cols w)) got
      then matchIndexes got ws else go_err ''missing index'')"

definition safeIdent :: "string \<Rightarrow> string res" where
  "safeIdent name =
     (if name = [] then go_err ''empty identifier''
      else if list_ex (\<lambda>r. \<not> char_between CHR ''a'' r CHR ''z'' \<and> \<not> char_between CHR ''A'' r CHR ''Z'' \<and>
                           \<not> char_between CHR ''0'' r CHR ''9'' \<and> r \<noteq> CHR ''_'') name
      then go_err ''unsafe identifier'' else Inr name)"

definition knownSchemaTable :: "string \<Rightarrow> bool" where
  "knownSchemaTable table \<longleftrightarrow> table \<in> {''credential'', ''issuance'', ''credential_envelope'', ''vault'', ''vault_credential'',
     ''vault_envelope'', ''invite'', ''pending_enrollment'', ''schema_meta''}"

definition sameColumns :: "string list \<Rightarrow> string list \<Rightarrow> bool" where
  "sameColumns got want =
     (if length got \<noteq> length want then False else list_all (\<lambda>g. g \<in> set want) got)"

subsection \<open>Validation of a database\<close>

text \<open>What SQLite reports: the visible columns, the foreign keys, the full indexes and the CREATE text
of a table; every report may fail.\<close>

record schema_report =
  rep_columns :: "string \<Rightarrow> (string \<times> string \<times> nat \<times> nat \<times> nat) list res"
  rep_foreign_keys :: "string \<Rightarrow> fkSpec list res"
  rep_indexes :: "string \<Rightarrow> (string \<times> bool \<times> bool \<times> string list) list res"
  rep_create_sql :: "string \<Rightarrow> string res"

definition readTableXInfo :: "unicode_case \<Rightarrow> schema_report \<Rightarrow> string \<Rightarrow> colSpec list res" where
  "readTableXInfo U q table =
     (if \<not> knownSchemaTable table then go_err ''unknown table''
      else bindE (rep_columns q table) (\<lambda>rows.
        Inr (map (\<lambda>(name, ctype, notnull, pk, hidden). spec name (text_upper U ctype) (notnull = 1) pk)
          (filter (\<lambda>(name, ctype, notnull, pk, hidden). hidden = 0) rows))))"

definition readForeignKeys :: "schema_report \<Rightarrow> string \<Rightarrow> fkSpec list res" where
  "readForeignKeys q table =
     (if \<not> knownSchemaTable table then go_err ''unknown table'' else rep_foreign_keys q table)"

text \<open>A report of an index is its name, whether it is unique and partial, and its columns.\<close>

primrec index_rows :: "(string \<times> bool \<times> bool \<times> string list) list \<Rightarrow> idxSpec list res" where
  "index_rows [] = Inr []"
| "index_rows (r # rs) =
     (case r of (name, uniq, partial, cols) \<Rightarrow>
        if partial then index_rows rs
        else bindE (safeIdent name) (\<lambda>_. bindE (index_rows rs) (\<lambda>out.
          Inr (\<lparr>idx_Name = name, idx_Unique = uniq, idx_Cols = cols\<rparr> # out))))"

definition readIndexes :: "schema_report \<Rightarrow> string \<Rightarrow> idxSpec list res" where
  "readIndexes q table =
     (if \<not> knownSchemaTable table then go_err ''unknown table'' else bindE (rep_indexes q table) index_rows)"

text \<open>canonical is the map extractChecksByTable gives for the schema of the program.\<close>

definition matchCheckConstraints :: "unicode_case \<Rightarrow> (string \<Rightarrow> string list option) \<Rightarrow> schema_report \<Rightarrow> string \<Rightarrow> unit res" where
  "matchCheckConstraints U canonical q table =
     (let want = (case canonical table of None \<Rightarrow> [] | Some w \<Rightarrow> w) in
      case rep_create_sql q table of Inl _ \<Rightarrow> go_err ''missing create sql''
      | Inr sqlText \<Rightarrow> sameCheckSet (extractNormalizedChecks U sqlText) want)"

definition validate_table :: "unicode_case \<Rightarrow> (string \<Rightarrow> string list option) \<Rightarrow> schema_report \<Rightarrow>
    string \<times> colSpec list \<times> fkSpec list \<times> idxSpec list \<Rightarrow> unit res" where
  "validate_table U canonical q t =
     (case t of (table, cols, fks, indexes) \<Rightarrow>
        bindE (readTableXInfo U q table) (\<lambda>got.
        bindE (matchColumns got cols) (\<lambda>_.
        bindE (readForeignKeys q table) (\<lambda>gotFks.
        bindE (matchForeignKeys gotFks fks) (\<lambda>_.
        bindE (readIndexes q table) (\<lambda>idxs.
        bindE (matchIndexes idxs indexes) (\<lambda>_.
        matchCheckConstraints U canonical q table)))))))"

text \<open>The tables are a Go map: the order in which they are visited decides only which error comes
first.\<close>

primrec validate_tables :: "unicode_case \<Rightarrow> (string \<Rightarrow> string list option) \<Rightarrow> schema_report \<Rightarrow>
    (string \<times> colSpec list \<times> fkSpec list \<times> idxSpec list) list \<Rightarrow> unit res" where
  "validate_tables U canonical q [] = Inr ()"
| "validate_tables U canonical q (t # ts) = bindE (validate_table U canonical q t) (\<lambda>_. validate_tables U canonical q ts)"

definition validateMultiTenantSchemaOn :: "unicode_case \<Rightarrow> string \<Rightarrow> schema_report \<Rightarrow> unit res" where
  "validateMultiTenantSchemaOn U createMultiTenantSchema q =
     validate_tables U (extractChecksByTable U createMultiTenantSchema) q expectedV4Tables"

subsection \<open>What the comparisons decide\<close>

definition unused :: "bool list \<Rightarrow> 'a list \<Rightarrow> 'a list" where
  "unused us xs = map snd (filter (\<lambda>(u, x). \<not> u) (zip us xs))"

lemma unused_simps [simp]:
  "unused [] xs = []" "unused us [] = []"
  "unused (u # us) (x # xs) = (if u then unused us xs else x # unused us xs)"
  by (simp_all add: unused_def)

lemma first_unused_None: "first_unused P us xs = None \<longleftrightarrow> (\<forall>x \<in> set (unused us xs). \<not> P x)"
  by (induction P us xs rule: first_unused.induct) (auto simp: unused_def)

lemma first_unused_Some:
  "first_unused ((=) a) us xs = Some i \<Longrightarrow> add_mset a (mset (unused (us[i := True]) xs)) = mset (unused us xs)"
  by (induction "(=) a" us xs arbitrary: i rule: first_unused.induct) (auto split: if_splits)

lemma unused_fresh: "unused (replicate (length xs) False) xs = xs"
  by (induction xs) auto

lemma unused_all: "length us = length xs \<Longrightarrow> list_all id us \<longleftrightarrow> unused us xs = []"
  by (induction us xs rule: list_induct2) auto

lemma match_each_Inr:
  "match_each err pool us xs = Inr us' \<Longrightarrow> mset (unused us pool) = mset xs + mset (unused us' pool) \<and> length us' = length us"
  by (induction xs arbitrary: us) (auto split: option.splits dest!: first_unused_Some)

lemma match_each_total:
  "mset xs \<subseteq># mset (unused us pool) \<Longrightarrow> \<exists>us'. match_each err pool us xs = Inr us'"
proof (induction xs arbitrary: us)
  case (Cons x xs)
  then have "x \<in> set (unused us pool)" by (auto dest: mset_subset_eqD)
  then obtain i where i: "first_unused ((=) x) us pool = Some i"
    using first_unused_None[of "(=) x" us pool] by (cases "first_unused ((=) x) us pool") auto
  from first_unused_Some[OF i] Cons.prems have "mset xs \<subseteq># mset (unused (us[i := True]) pool)"
    by (metis mset.simps(2) mset_subset_eq_add_mset_cancel)
  from Cons.IH[OF this] i show ?case by auto
qed simp

lemma match_fresh:
  assumes "length xs = length pool"
  shows "(\<exists>us. match_each err pool (replicate (length pool) False) xs = Inr us) \<longleftrightarrow> mset xs = mset pool"
proof
  assume "\<exists>us. match_each err pool (replicate (length pool) False) xs = Inr us"
  then obtain us where "mset pool = mset xs + mset (unused us pool)"
    by (auto dest!: match_each_Inr simp: unused_fresh)
  with assms show "mset xs = mset pool" by (metis add_cancel_left_right add_cancel_right_right size_mset size_union size_eq_0_iff_empty)
next
  assume "mset xs = mset pool"
  then show "\<exists>us. match_each err pool (replicate (length pool) False) xs = Inr us"
    by (intro match_each_total) (simp add: unused_fresh)
qed

lemma sameCheckSet_iff: "sameCheckSet got want = Inr () \<longleftrightarrow> mset got = mset want"
proof (cases "length got = length want")
  case True
  have "list_all id us" if "match_each err want (replicate (length want) False) got = Inr us" for us err
  proof -
    note m = match_each_Inr[OF that]
    have "mset got = mset want" using that match_fresh[OF True] by blast
    with m have "unused us want = []" by (simp add: unused_fresh)
    with m show ?thesis by (subst unused_all) auto
  qed
  then show ?thesis
    using True match_fresh[OF True, of "''unexpected CHECK''"]
    by (auto simp: sameCheckSet_def bindE_Inr_iff)
next
  case False
  then show ?thesis by (auto simp: sameCheckSet_def dest: arg_cong[of _ _ size])
qed

lemma matchForeignKeys_iff: "matchForeignKeys got want = Inr () \<longleftrightarrow> mset got = mset want"
proof (cases "length got = length want")
  case True
  then show ?thesis
    using match_fresh[of want got "''missing foreign key''"] by (auto simp: matchForeignKeys_def bindE_Inr_iff)
next
  case False
  then show ?thesis by (auto simp: matchForeignKeys_def dest: arg_cong[of _ _ size])
qed

definition column_matches :: "colSpec \<Rightarrow> colSpec \<Rightarrow> bool" where
  "column_matches g w \<longleftrightarrow> col_Name g = col_Name w \<and> col_Type g = col_Type w \<and> col_PK g = col_PK w \<and>
     (col_PK w = 0 \<longrightarrow> col_NotNull g = col_NotNull w)"

lemma matchColumns_iff: "matchColumns got want = Inr () \<longleftrightarrow> list_all2 column_matches got want"
proof -
  have "length got = length want \<Longrightarrow> match_columns got want = Inr () \<longleftrightarrow> list_all2 column_matches got want"
    by (induction got want rule: list_induct2) (auto simp: column_matches_def)
  then show ?thesis by (auto simp: matchColumns_def dest: list_all2_lengthD)
qed

lemma sameStringSlice_iff: "sameStringSlice as bs \<longleftrightarrow> as = bs"
  by (induction as bs rule: sameStringSlice.induct) auto

definition index_matches :: "idxSpec \<Rightarrow> idxSpec \<Rightarrow> bool" where
  "index_matches w g \<longleftrightarrow> (idx_Name w = [] \<or> idx_Name g = idx_Name w) \<and> idx_Unique g = idx_Unique w \<and> idx_Cols g = idx_Cols w"

lemma matchIndexes_iff: "matchIndexes got want = Inr () \<longleftrightarrow> list_all (\<lambda>w. list_ex (index_matches w) got) want"
  by (induction want) (auto simp: index_matches_def sameStringSlice_iff)

text \<open>The normal form lowers the letters of a string literal too: two checks that differ in the case of a
literal, which SQLite tells apart, are the same to the comparison.\<close>

lemma literals_lowered: "normalizeCheck ''(m IN ('A'))'' = normalizeCheck ''(m IN ('a'))''"
  by code_simp

text \<open>And it cuts the other characters of a literal to their low byte: U+0161 becomes the letter a.\<close>

lemma literals_truncated:
  "normalizeCheck ([CHR ''('', CHR 0x27, CHR 0xC5, CHR 0xA1, CHR 0x27, CHR '')'']) = normalizeCheck ([CHR ''('', CHR 0x27, CHR ''a'', CHR 0x27, CHR '')''])"
  by code_simp

subsection \<open>Properties\<close>

text \<open>C34: What the structural comparisons accept, exactly: checks and foreign keys when they are the same
multisets, columns when they agree one by one (up to the nullability SQLite reports for a primary
key), indexes when every expected one is there, further ones allowed; and a database is accepted if
and only if every table of the program is reported with columns, foreign keys and indexes that match,
and with a CREATE text whose normalised checks are those of the program's schema, as a multiset. The
checks are compared in their normal form, which does not tell apart literals that differ in case, or
in characters with the same low byte.\<close>

theorem schema_matching_exact:
  shows "(sameCheckSet gotChecks wantChecks = Inr () \<longleftrightarrow> mset gotChecks = mset wantChecks) \<and>
    (matchForeignKeys gotFks wantFks = Inr () \<longleftrightarrow> mset gotFks = mset wantFks) \<and>
    (matchColumns gotCols wantCols = Inr () \<longleftrightarrow> list_all2 column_matches gotCols wantCols) \<and>
    (matchIndexes gotIdx wantIdx = Inr () \<longleftrightarrow> list_all (\<lambda>w. list_ex (index_matches w) gotIdx) wantIdx) \<and>
    (validateMultiTenantSchemaOn U schemaSQL q = Inr () \<longleftrightarrow>
       list_all (\<lambda>(table, cols, fks, indexes).
         (\<exists>got gotF gotI sqlText. readTableXInfo U q table = Inr got \<and> list_all2 column_matches got cols \<and>
           readForeignKeys q table = Inr gotF \<and> mset gotF = mset fks \<and>
           readIndexes q table = Inr gotI \<and> list_all (\<lambda>w. list_ex (index_matches w) gotI) indexes \<and>
           rep_create_sql q table = Inr sqlText \<and>
           mset (extractNormalizedChecks U sqlText) = mset (case extractChecksByTable U schemaSQL table of None \<Rightarrow> [] | Some w \<Rightarrow> w)))
         expectedV4Tables) \<and>
    normalizeCheck ''(m IN ('A'))'' = normalizeCheck ''(m IN ('a'))'' \<and>
    normalizeCheck ([CHR ''('', CHR 0x27, CHR 0xC5, CHR 0xA1, CHR 0x27, CHR '')'']) = normalizeCheck ([CHR ''('', CHR 0x27, CHR ''a'', CHR 0x27, CHR '')''])"
proof (intro conjI)
  have table: "validate_table U canonical q t = Inr () \<longleftrightarrow> (case t of (table, cols, fks, indexes) \<Rightarrow>
         (\<exists>got gotF gotI sqlText. readTableXInfo U q table = Inr got \<and> list_all2 column_matches got cols \<and>
           readForeignKeys q table = Inr gotF \<and> mset gotF = mset fks \<and>
           readIndexes q table = Inr gotI \<and> list_all (\<lambda>w. list_ex (index_matches w) gotI) indexes \<and>
           rep_create_sql q table = Inr sqlText \<and>
           mset (extractNormalizedChecks U sqlText) = mset (case canonical table of None \<Rightarrow> [] | Some w \<Rightarrow> w)))" for canonical t
    by (cases t) (auto simp: validate_table_def bindE_Inr_iff matchColumns_iff matchForeignKeys_iff matchIndexes_iff
        matchCheckConstraints_def sameCheckSet_iff Let_def split: sum.splits)
  have "validate_tables U canonical q ts = Inr () \<longleftrightarrow> list_all (\<lambda>t. validate_table U canonical q t = Inr ()) ts" for canonical ts
    by (induction ts) (auto simp: bindE_Inr_iff)
  then show "validateMultiTenantSchemaOn U schemaSQL q = Inr () \<longleftrightarrow>
       list_all (\<lambda>(table, cols, fks, indexes).
         (\<exists>got gotF gotI sqlText. readTableXInfo U q table = Inr got \<and> list_all2 column_matches got cols \<and>
           readForeignKeys q table = Inr gotF \<and> mset gotF = mset fks \<and>
           readIndexes q table = Inr gotI \<and> list_all (\<lambda>w. list_ex (index_matches w) gotI) indexes \<and>
           rep_create_sql q table = Inr sqlText \<and>
           mset (extractNormalizedChecks U sqlText) = mset (case extractChecksByTable U schemaSQL table of None \<Rightarrow> [] | Some w \<Rightarrow> w)))
         expectedV4Tables"
    by (simp add: validateMultiTenantSchemaOn_def table)
qed (rule sameCheckSet_iff matchForeignKeys_iff matchColumns_iff matchIndexes_iff literals_lowered literals_truncated)+

end
