(* ===== verification/Spec2Isabelle.thy ===== *)
theory Spec2Isabelle
imports VaultSessionProps VaultSchema VaultCosigner VaultDeploy
begin

text \<open>Verification library of the arkade emulator and of its two-factor vault.

The program.  pkg/arkade is a Bitcoin script engine extended by introspection, big numbers, assets
and curve operations: an arkade script travels in the emulator packet of a transaction, and a
cosigner signs with a key tweaked by the hash of the script when the script accepts the transaction.
poc/2fa-vault is a custody service on top of it.  A vault is a taproot tree whose routine path needs
the phone and two tweaked cosigners, whose admin path needs the owner's wallet and a recovery key, and
whose recovery paths wait for a relative lock time.  The provider enrolls a passkey and the keys of a
vault, checks a proposed spend against the vault's policy, asks for a passkey assertion, a direct P-256
signature and the phone's signature, reserves the amount in a ledger of issued spends, lets the two
cosigners sign one after the other, and publishes the completed spend.

How the code is modelled.  A Go function is a definition of the same name (with a suffix or a receiver
where the name is taken); a struct is a record, an enumeration a datatype, a w-bit integer a word of
that width, so that arithmetic wraps as in Go; int is a 64-bit word where it can overflow and int or
nat where a bound is evident.  A fallible function returns an error or a value (the type res of
Prelude); the error Panic is a Go panic, so that no panic is a theorem and not an assumption.  A nil
pointer is None, a nil slice is the empty list.  Code that is not under src/ (btcd, btcec, ark-lib,
gnark, SQLite, HMAC, the P-256 curve, the Bitcoin node) is a field of a record given to the definitions
(lib, wa_lib, btcec, tree_lib, psbt_lib, guard_lib, net_lib, svc_lib, node); what a theorem needs of it
is a premise of that theorem, and each witness instantiates those records with concrete functions.  A
mutex makes the operation under it one step.

Theories of the engine (src/pkg/arkade).
  Prelude: errors, bounds-checked slices, little-endian bytes and the simplification collections.
  GoText: the strings, UTF-8 ranging, hexadecimal and decimal text the program takes from Go's library.
  ScriptNum, BigNum, VmStack: scriptnum.go, bignum.go, stack.go.  The locale number_codec states what
    the two number codecs share and is interpreted for both; lifo and number_stack state what handlers
    rely on of the stack.
  Opcodes, Tokenizer, ComputeLimits: the opcode table of opcode.go, tokenizer.go, compute_limits.go.
  VmState, VmInv: the Engine record and the invariant every handler keeps, with its rules okE_rules.
  OpControl, OpData, OpCrypto, OpIntro, OpAsset, OpEC: the handlers of opcode.go, asset_opcodes.go and
    ec_ops.go; each group interprets the locale safe_handlers (no panic, the invariant is kept).
  EmulatorPacket, SigHash: emulator_packet.go, sigvalidate.go, sigscheme.go.
  Engine, EngineInv, ArkadeScript: engine.go, its invariant, script.go and tweak.go.
  OpProps, EngineProps, CryptoProps: the properties of these parts; ExampleLib is the concrete library
    of the witnesses.

Theories of the vault (src/poc/2fa-vault).
  VaultLedger, VaultLedgerProps: the issuance table of internal/policy/ledger.go and the abstract machine
    it refines.
  WebAuthn: internal/webauthn.  VaultRecords: the records of internal/policy with their integrity codes
    (the locale authenticated_record, interpreted for the four kinds).  VaultStore: the tables of
    internal/policy and the operations on them.  VaultCosigner: cosigner.go.  VaultSchema:
    schema_struct.go, with Unicode upper and lower case of non-ASCII text as a parameter.
  VaultScript, VaultTree, VaultTx, VaultTxProps: internal/vault.  VaultPolicy, VaultPolicyRun and
    VaultPolicySpend prove, over whole runs of the engine, that the authorization script accepts exactly
    what its policy allows.
  VaultGuard, VaultGuardProps: the classification of a spend and the guards around a signer of
    internal/provider.  VaultDeploy: internal/deployment.  VaultService, VaultSession, VaultPublish:
    the service itself (service.go, session.go, publish.go), with VaultServiceProps and
    VaultSessionProps over all of the above.

What the theorems show.
  Engine: a run ends within a number of steps bounded by the script and never panics; a success was
    bound to the transaction; the limits hold in every state; each handler group keeps the invariant;
    the conditionals refine a stack of flags; arithmetic is that of the integers; the codecs round-trip
    and give the shortest encodings; a signature opcode that leaves true verified its signature over the
    signing hash of the transaction, which leaves out the witnesses of the emulator packet and commits to
    its entry scripts; the key of a signer and the key of the output are tweaked to the same point.
  Policy: the local signer signs only a spend within the caps of the policy, and a spend within the
    policy and within the size bounds its theorem names is accepted.  A final witness is written
    exactly when the phone and both cosigners signed the leaf.
  Ledger and store: the allowance of a period is never exceeded under any interleaving of requests and
    failures; a cosigner sees only persisted requests; a retry completes and a replay is exact; the store
    keeps its invariant and the integrity codes bind every field.
  Service: no cosigner is called without the assertion, the direct signature and the phone's signature;
    any sequence of requests keeps the limits; only an authorized completed spend is published; a
    passkey challenge opens one session; the recovery binding commits to the descriptor.

Bounds and fuel.  The loops are recursive over their data and total, but for the engine loop, which is a
partial function to an option; that it returns is the theorem arkade_execution_returns, by the progress
of every step (EngineInv).  The tokenizer keeps its offset in 32 bits as the code does; it ends for
every script, and its theorems take scripts shorter than 2^31 bytes, as every script of a transaction
that fits a block is; the witness items of a transaction are below that bound for the same reason.
AuthorizationScript tries eight rounds and HKDF 256 counters because the code does.  The scanners of
VaultSchema recurse on the rest of the string.

Not modelled.
Disassembler and debug output (text only); the PSBT field codec of pkg/arkade; logging, zeroing of
buffers and context plumbing.  internal/application, the emulator's own service, decodes PSBTs and
intents with ark-lib, runs the engine of pkg/arkade and signs with the tweaked keys; the engine and the
tweaks are modelled, the service around them is not.  The servers and clients of internal/config,
internal/interface, pkg/client, cmd, poc/2fa-vault/cmd, internal/authorizer and internal/remotesigner and
the HTTP, explorer and demo parts of the provider move bytes between the network and the operations above.
api-spec is generated.  Where an operation fails on a counter, the model drops the count it had already
stored (ComputeLimits.charge); a request whose context is done yields only its error
(VaultLedger.issueSequential); read errors of the database that only end a request are not told apart.\<close>

end
